(* ===== verification/Prelude.thy ===== *)
theory Prelude
  imports Main "HOL-Library.Word"
begin

text \<open>
  Shared vocabulary of the development: results of fallible operations, the
  machine arithmetic the Rust sources use (checked and saturating operations on
  fixed-width words), character classes of ASCII text, big-endian lengths and
  length framing, and two interfaces that several components share: text codecs
  of enumerations and transition systems with an invariant.

  A Rust string is modelled by its UTF-8 bytes, a list of HOL characters: the
  length of that list is the value of \<open>len()\<close>.
\<close>

section \<open>Results, collections of facts and type names\<close>

named_theorems word_arith \<open>facts on checked and saturating machine arithmetic\<close>

type_synonym ('a, 'e) result = "'e + 'a"
type_synonym u8 = "8 word"
type_synonym u32 = "32 word"
type_synonym u64 = "64 word"
type_synonym uuid = "128 word"
type_synonym bytes = "char list"

fun is_Ok :: "'e + 'a \<Rightarrow> bool" where
  "is_Ok (Inl _) = False"
| "is_Ok (Inr _) = True"

definition ok_or :: "'e \<Rightarrow> 'a option \<Rightarrow> 'e + 'a" where
  "ok_or e x = (case x of None \<Rightarrow> Inl e | Some v \<Rightarrow> Inr v)"

definition and_then :: "'e + 'a \<Rightarrow> ('a \<Rightarrow> 'e + 'b) \<Rightarrow> 'e + 'b" where
  "and_then r f = (case r of Inl e \<Rightarrow> Inl e | Inr v \<Rightarrow> f v)"

definition map_err :: "('e \<Rightarrow> 'f) \<Rightarrow> 'e + 'a \<Rightarrow> 'f + 'a" where
  "map_err f r = (case r of Inl e \<Rightarrow> Inl (f e) | Inr v \<Rightarrow> Inr v)"

section \<open>Machine arithmetic\<close>

definition checked_add :: "'w::len word \<Rightarrow> 'w word \<Rightarrow> 'w word option" where
  "checked_add a b = (if unat a + unat b < 2 ^ LENGTH('w) then Some (a + b) else None)"

definition saturating_add :: "'w::len word \<Rightarrow> 'w word \<Rightarrow> 'w word" where
  "saturating_add a b = (if unat a + unat b < 2 ^ LENGTH('w) then a + b else - 1)"

definition saturating_sub :: "'w::len word \<Rightarrow> 'w word \<Rightarrow> 'w word" where
  "saturating_sub a b = (if b \<le> a then a - b else 0)"

section \<open>Character classes and text\<close>

definition in_range :: "char \<Rightarrow> nat \<Rightarrow> nat \<Rightarrow> bool" where
  "in_range c lo hi = (lo \<le> (of_char c :: nat) \<and> (of_char c :: nat) \<le> hi)"

definition is_ascii_digit :: "char \<Rightarrow> bool" where
  "is_ascii_digit c = in_range c 48 57"

definition is_ascii_upper :: "char \<Rightarrow> bool" where
  "is_ascii_upper c = in_range c 65 90"

definition is_ascii_lower :: "char \<Rightarrow> bool" where
  "is_ascii_lower c = in_range c 97 122"

definition is_ascii_alphanumeric :: "char \<Rightarrow> bool" where
  "is_ascii_alphanumeric c = (is_ascii_digit c \<or> is_ascii_upper c \<or> is_ascii_lower c)"

definition is_ascii_graphic :: "char \<Rightarrow> bool" where
  "is_ascii_graphic c = in_range c 33 126"

definition is_ascii_control :: "char \<Rightarrow> bool" where
  "is_ascii_control c = (in_range c 0 31 \<or> (of_char c :: nat) = 127)"

definition is_lower_hex :: "char \<Rightarrow> bool" where
  "is_lower_hex c = (is_ascii_digit c \<or> in_range c 97 102)"

text \<open>
  Unicode white space in UTF-8: the byte length of the white-space character a
  byte sequence starts with, 0 when there is none.  Lead bytes are unambiguous,
  so testing every suffix of a valid UTF-8 sequence finds exactly its characters.
\<close>

definition byte_at :: "bytes \<Rightarrow> nat \<Rightarrow> nat" where
  "byte_at bs i = (if i < length bs then of_char (bs ! i) else 0)"

definition leading_whitespace :: "bytes \<Rightarrow> nat" where
  "leading_whitespace bs =
     (let a = byte_at bs 0; b = byte_at bs 1; c = byte_at bs 2 in
      if (9 \<le> a \<and> a \<le> 13) \<or> a = 32 then 1
      else if a = 194 \<and> (b = 133 \<or> b = 160) then 2
      else if a = 225 \<and> b = 154 \<and> c = 128 then 3
      else if a = 226 \<and> b = 128 \<and> ((128 \<le> c \<and> c \<le> 138) \<or> c = 168 \<or> c = 169 \<or> c = 175) then 3
      else if a = 226 \<and> b = 129 \<and> c = 159 then 3
      else if a = 227 \<and> b = 128 \<and> c = 128 then 3
      else 0)"

fun any_whitespace :: "bytes \<Rightarrow> bool" where
  "any_whitespace [] = False"
| "any_whitespace (c # cs) = (leading_whitespace (c # cs) \<noteq> 0 \<or> any_whitespace cs)"

fun strip_prefix :: "'a list \<Rightarrow> 'a list \<Rightarrow> 'a list option" where
  "strip_prefix [] xs = Some xs"
| "strip_prefix (p # ps) [] = None"
| "strip_prefix (p # ps) (x # xs) = (if p = x then strip_prefix ps xs else None)"

section \<open>Big-endian lengths and length framing\<close>

definition u64_to_be_bytes :: "u64 \<Rightarrow> bytes" where
  "u64_to_be_bytes w = map (\<lambda>i. char_of (unat (drop_bit (8 * i) w))) [7, 6, 5, 4, 3, 2, 1, 0]"

fun frame_parts :: "bytes list \<Rightarrow> bytes" where
  "frame_parts [] = []"
| "frame_parts (p # ps) = u64_to_be_bytes (of_nat (length p)) @ p @ frame_parts ps"

definition addressable :: "'a list \<Rightarrow> bool" where
  "addressable xs = (length xs < 2 ^ 64)"

section \<open>Retaining the entries of a map\<close>

definition retain :: "('k \<Rightarrow> 'v \<Rightarrow> bool) \<Rightarrow> ('k \<Rightarrow> 'v option) \<Rightarrow> 'k \<Rightarrow> 'v option" where
  "retain P m = (\<lambda>k. case m k of None \<Rightarrow> None | Some v \<Rightarrow> if P k v then Some v else None)"

section \<open>Lemmas on results and arithmetic\<close>

lemma ok_or_simps [simp]:
  "ok_or e None = Inl e"
  "ok_or e (Some v) = Inr v"
  by (simp_all add: ok_or_def)

lemma ok_or_Inr_iff [simp]: "ok_or e x = Inr v \<longleftrightarrow> x = Some v"
  by (cases x) simp_all

lemma and_then_simps [simp]:
  "and_then (Inl e) f = Inl e"
  "and_then (Inr v) f = f v"
  by (simp_all add: and_then_def)

lemma and_then_Inr_iff: "and_then r f = Inr w \<longleftrightarrow> (\<exists>v. r = Inr v \<and> f v = Inr w)"
  by (cases r) simp_all

lemma map_err_simps [simp]:
  "map_err f (Inl e) = Inl (f e)"
  "map_err f (Inr v) = Inr v"
  by (simp_all add: map_err_def)

lemma checked_add_eq_Some [word_arith]:
  fixes a b c :: "'w::len word"
  shows "checked_add a b = Some c \<longleftrightarrow> unat a + unat b < 2 ^ LENGTH('w) \<and> unat c = unat a + unat b"
  unfolding checked_add_def
  by (auto simp: unat_add_lem) (metis unat_add_lem unsigned_word_eqI)

lemma checked_add_eq_None [word_arith]:
  fixes a b :: "'w::len word"
  shows "checked_add a b = None \<longleftrightarrow> 2 ^ LENGTH('w) \<le> unat a + unat b"
  by (auto simp: checked_add_def)

lemma saturating_add_unat [word_arith]:
  fixes a b :: "'w::len word"
  shows "unat (saturating_add a b) = min (unat a + unat b) (2 ^ LENGTH('w) - 1)"
proof (cases "unat a + unat b < 2 ^ LENGTH('w)")
  case True
  then have "unat (a + b) = unat a + unat b" by (simp add: unat_add_lem)
  with True show ?thesis by (simp add: saturating_add_def)
next
  case False
  then show ?thesis
    by (simp add: saturating_add_def unsigned_minus_1_eq_mask mask_eq_exp_minus_1)
qed

lemma saturating_add_mono: "a \<le> saturating_add a b"
proof -
  have "unat a < 2 ^ LENGTH('a)" by (rule unsigned_less)
  then have "unat a \<le> 2 ^ LENGTH('a) - 1" by linarith
  then show ?thesis by (simp add: word_le_nat_alt saturating_add_unat)
qed

lemma saturating_sub_unat [word_arith]:
  "unat (saturating_sub a b) = unat a - unat b"
  by (auto simp: saturating_sub_def unat_sub word_le_nat_alt)

section \<open>Lemmas on text and framing\<close>

lemma strip_prefix_eq_Some [simp]: "strip_prefix ps xs = Some ys \<longleftrightarrow> xs = ps @ ys"
  by (induction ps xs rule: strip_prefix.induct) auto

lemma strip_prefix_append [simp]: "strip_prefix ps (ps @ ys) = Some ys"
  by simp

lemma u64_to_be_bytes_length [simp]: "length (u64_to_be_bytes w) = 8"
  by (simp add: u64_to_be_bytes_def)

text \<open>Eight base-256 digits determine a 64-bit word.\<close>

lemma digit_div_step: "(n::nat) mod 256 = m mod 256 \<Longrightarrow> n div 256 = m div 256 \<Longrightarrow> n = m"
  by (metis div_mult_mod_eq)

lemma char_of_unat_drop_bit:
  fixes w v :: "'a::len word"
  assumes "(char_of (unat (drop_bit (8 * i) w)) :: char) = char_of (unat (drop_bit (8 * i) v))"
  shows "unat w div 256 ^ i mod 256 = unat v div 256 ^ i mod 256"
proof -
  have "(of_char (char_of (unat (drop_bit (8 * i) w)) :: char) :: nat)
      = of_char (char_of (unat (drop_bit (8 * i) v)) :: char)"
    using assms by simp
  then have "drop_bit (8 * i) (unat w) mod 256 = drop_bit (8 * i) (unat v) mod 256"
    by (simp add: unat_drop_bit_eq)
  then show ?thesis
    by (simp add: drop_bit_eq_div power_mult)
qed

lemma unat_less_2p64: "unat (w :: u64) < 2 ^ 64"
  using unsigned_less [of w] by simp

lemma u64_to_be_bytes_inject: "u64_to_be_bytes w = u64_to_be_bytes v \<longleftrightarrow> w = v"
proof
  assume eq: "u64_to_be_bytes w = u64_to_be_bytes v"
  have digit: "unat w div 256 ^ i mod 256 = unat v div 256 ^ i mod 256" if "i < 8" for i
  proof -
    from that have "i \<in> set [7, 6, 5, 4, 3, 2, 1, 0 :: nat]" by auto
    moreover from eq have "\<forall>i\<in>set [7, 6, 5, 4, 3, 2, 1, 0 :: nat].
        (char_of (unat (drop_bit (8 * i) w)) :: char) = char_of (unat (drop_bit (8 * i) v))"
      unfolding u64_to_be_bytes_def by (simp only: map_eq_conv)
    ultimately have "(char_of (unat (drop_bit (8 * i) w)) :: char) = char_of (unat (drop_bit (8 * i) v))"
      by blast
    then show ?thesis by (rule char_of_unat_drop_bit)
  qed
  have top: "unat w div 256 ^ 8 = 0" "unat v div 256 ^ 8 = 0"
    using unat_less_2p64 [of w] unat_less_2p64 [of v] by simp_all
  have "unat w div 256 ^ (8 - k) = unat v div 256 ^ (8 - k)" if "k \<le> 8" for k
    using that
  proof (induction k)
    case 0
    show ?case using top by simp
  next
    case (Suc k)
    then have "8 - k = Suc (8 - Suc k)" by simp
    with Suc have up: "unat w div 256 ^ (8 - Suc k) div 256 = unat v div 256 ^ (8 - Suc k) div 256"
      by (simp add: div_mult2_eq [symmetric] mult.commute)
    show ?case using digit_div_step [OF digit up] Suc.prems by simp
  qed
  from this [of 8] show "w = v" by (simp add: unsigned_word_eqI)
qed simp

lemma frame_parts_inject:
  assumes "list_all addressable ps" "list_all addressable qs" "frame_parts ps = frame_parts qs"
  shows "ps = qs"
  using assms
proof (induction ps arbitrary: qs)
  case Nil
  then show ?case
    by (cases qs) (auto dest: arg_cong [of _ _ length])
next
  case (Cons p ps)
  then obtain q qs' where qs: "qs = q # qs'"
    by (cases qs) (auto dest: arg_cong [of _ _ length])
  with Cons.prems(3) have
    "u64_to_be_bytes (of_nat (length p)) = u64_to_be_bytes (of_nat (length q))"
    and rest: "p @ frame_parts ps = q @ frame_parts qs'"
    by (auto simp: append_eq_append_conv)
  then have "(of_nat (length p) :: u64) = of_nat (length q)"
    by (simp add: u64_to_be_bytes_inject)
  moreover have "length p < 2 ^ 64" "length q < 2 ^ 64"
    using Cons.prems qs by (simp_all add: addressable_def)
  ultimately have "length p = length q"
    by (auto dest: arg_cong [of _ _ unat] simp: unsigned_of_nat take_bit_nat_eq_self)
  with rest have "p = q" "frame_parts ps = frame_parts qs'" by auto
  with Cons.IH [of qs'] Cons.prems qs show ?case by simp
qed

section \<open>Lemmas on retained maps\<close>

lemma retain_eq_Some [simp]: "retain P m k = Some v \<longleftrightarrow> m k = Some v \<and> P k v"
  by (auto simp: retain_def split: option.splits)

lemma retain_eq_None: "retain P m k = None \<longleftrightarrow> (\<forall>v. m k = Some v \<longrightarrow> \<not> P k v)"
  by (auto simp: retain_def split: option.splits)

lemma dom_retain_subset: "dom (retain P m) \<subseteq> dom m"
  by (auto simp: dom_def)

lemma finite_dom_retain [intro]: "finite (dom m) \<Longrightarrow> finite (dom (retain P m))"
  by (rule finite_subset [OF dom_retain_subset])

lemma card_dom_retain_le: "finite (dom m) \<Longrightarrow> card (dom (retain P m)) \<le> card (dom m)"
  by (intro card_mono dom_retain_subset)

section \<open>Interfaces shared by the components\<close>

text \<open>A textual representation of an enumeration with a parser for it.\<close>

locale text_codec =
  fixes print :: "'a \<Rightarrow> string"
    and parse :: "string \<Rightarrow> 'a option"
  assumes parse_print: "parse (print x) = Some x"
    and print_parse: "parse s = Some x \<Longrightarrow> print x = s"
begin

lemma print_inject: "print x = print y \<longleftrightarrow> x = y"
  by (metis parse_print option.inject)

lemma parse_iff: "parse s = Some x \<longleftrightarrow> s = print x"
  using parse_print print_parse by metis

lemma parse_None_iff: "parse s = None \<longleftrightarrow> s \<notin> range print"
proof (cases "parse s")
  case None
  then have "s \<noteq> print x" for x by (metis parse_print option.distinct(1))
  with None show ?thesis by auto
next
  case (Some x)
  then have "s = print x" by (simp add: print_parse)
  with Some show ?thesis by simp
qed

end

text \<open>A transition system driven by events, with an inductive invariant.\<close>

locale event_system =
  fixes init :: "'s \<Rightarrow> bool"
    and step :: "'s \<Rightarrow> 'e \<Rightarrow> 's"
    and inv :: "'s \<Rightarrow> bool"
  assumes init_inv: "init s \<Longrightarrow> inv s"
    and step_inv: "inv s \<Longrightarrow> inv (step s e)"
begin

lemma run_inv: "inv s \<Longrightarrow> inv (fold (\<lambda>e s. step s e) es s)"
  by (induction es arbitrary: s) (auto intro: step_inv)

lemma reach_inv: "init s \<Longrightarrow> inv (fold (\<lambda>e s. step s e) es s)"
  by (rule run_inv) (rule init_inv)

end

end
