(* ===== verification/Foundation.thy ===== *)
theory Foundation
  imports Prelude
begin

text \<open>
  Model of \<open>crates/foundation/src/lib.rs\<close>: bounded identities, idempotency
  keys, deadlines, content digests and the request context.  The UUID and BLAKE3
  packages are parameters: \<open>uuid_parse\<close> stands for \<open>Uuid::parse_str\<close>,
  \<open>blake3\<close> for deriving a hash from a context string and the absorbed bytes,
  \<open>to_hex\<close> and \<open>from_hex\<close> for the textual form of a hash.
\<close>

section \<open>Errors and constants\<close>

definition MAX_IDENTITY_LENGTH :: nat where
  "MAX_IDENTITY_LENGTH = 64"

definition MAX_IDEMPOTENCY_KEY_LENGTH :: nat where
  "MAX_IDEMPOTENCY_KEY_LENGTH = 128"

definition MAX_DEADLINE_WINDOW_SECS :: u32 where
  "MAX_DEADLINE_WINDOW_SECS = 86400"

datatype FoundationError =
    Empty string
  | TooLong string nat
  | InvalidCharacters string
  | InvalidUuid string
  | InvalidDeadlineWindow
  | DeadlineOverflow
  | InvalidDigest

section \<open>Identifiers\<close>

datatype RequestId = RequestId uuid
datatype CorrelationId = CorrelationId uuid
datatype CommandId = CommandId uuid

definition uuid_identifier_from_str ::
  "(string \<Rightarrow> uuid option) \<Rightarrow> string \<Rightarrow> (uuid \<Rightarrow> 'i) \<Rightarrow> string \<Rightarrow> FoundationError + 'i" where
  "uuid_identifier_from_str uuid_parse field mk raw =
     (case uuid_parse raw of None \<Rightarrow> Inl (InvalidUuid field) | Some u \<Rightarrow> Inr (mk u))"

definition identity_character :: "char \<Rightarrow> bool" where
  "identity_character c = (is_ascii_alphanumeric c \<or> c \<in> {CHR ''-'', CHR ''_'', CHR ''.'', CHR '':''})"

definition validate_identity :: "string \<Rightarrow> string \<Rightarrow> FoundationError + string" where
  "validate_identity field value =
     (if value = [] then Inl (Empty field)
      else if length value > MAX_IDENTITY_LENGTH then Inl (TooLong field MAX_IDENTITY_LENGTH)
      else if \<not> list_all identity_character value then Inl (InvalidCharacters field)
      else Inr value)"

definition ConsumerId_parse :: "string \<Rightarrow> FoundationError + string" where
  "ConsumerId_parse = validate_identity ''consumer_id''"

definition ApplicationId_parse :: "string \<Rightarrow> FoundationError + string" where
  "ApplicationId_parse = validate_identity ''application_id''"

definition ActorId_parse :: "string \<Rightarrow> FoundationError + string" where
  "ActorId_parse = validate_identity ''actor_id''"

datatype IdempotencyKey = IdempotencyKey (idempotency_key_as_str: string)

definition IdempotencyKey_parse :: "string \<Rightarrow> FoundationError + IdempotencyKey" where
  "IdempotencyKey_parse value =
     (if value = [] then Inl (Empty ''idempotency_key'')
      else if length value > MAX_IDEMPOTENCY_KEY_LENGTH
        then Inl (TooLong ''idempotency_key'' MAX_IDEMPOTENCY_KEY_LENGTH)
      else if \<not> list_all is_ascii_graphic value then Inl (InvalidCharacters ''idempotency_key'')
      else Inr (IdempotencyKey value))"

section \<open>Deadlines\<close>

datatype DeadlineWindow = DeadlineWindow (as_secs: u32)
datatype Deadline = Deadline (unix_secs: u64)

definition DeadlineWindow_new :: "u32 \<Rightarrow> FoundationError + DeadlineWindow" where
  "DeadlineWindow_new seconds =
     (if \<not> (1 \<le> seconds \<and> seconds \<le> MAX_DEADLINE_WINDOW_SECS) then Inl InvalidDeadlineWindow
      else Inr (DeadlineWindow seconds))"

definition Deadline_from_now :: "u64 \<Rightarrow> DeadlineWindow \<Rightarrow> FoundationError + Deadline" where
  "Deadline_from_now now_unix_secs window =
     ok_or DeadlineOverflow (map_option Deadline (checked_add now_unix_secs (ucast (as_secs window))))"

definition Deadline_is_expired :: "Deadline \<Rightarrow> u64 \<Rightarrow> bool" where
  "Deadline_is_expired d now_unix_secs = (now_unix_secs \<ge> unix_secs d)"

definition Deadline_remaining_secs :: "Deadline \<Rightarrow> u64 \<Rightarrow> u64" where
  "Deadline_remaining_secs d now_unix_secs = saturating_sub (unix_secs d) now_unix_secs"

section \<open>Content digests\<close>

definition ContentDigest_derive :: "(string \<Rightarrow> bytes \<Rightarrow> 'h) \<Rightarrow> string \<Rightarrow> bytes list \<Rightarrow> 'h" where
  "ContentDigest_derive blake3 domain parts = blake3 domain (frame_parts parts)"

definition ContentDigest_display :: "('h \<Rightarrow> string) \<Rightarrow> 'h \<Rightarrow> string" where
  "ContentDigest_display to_hex d = ''b3:'' @ to_hex d"

definition ContentDigest_from_str :: "(string \<Rightarrow> 'h option) \<Rightarrow> string \<Rightarrow> FoundationError + 'h" where
  "ContentDigest_from_str from_hex raw =
     (case strip_prefix ''b3:'' raw of
        None \<Rightarrow> Inl InvalidDigest
      | Some hex \<Rightarrow>
          (if length hex \<noteq> 64 \<or> \<not> list_all is_lower_hex hex then Inl InvalidDigest
           else ok_or InvalidDigest (from_hex hex)))"

section \<open>Request context\<close>

record RequestContext =
  request_id :: RequestId
  correlation_id :: CorrelationId
  consumer_id :: "string option"
  application_id :: "string option"
  actor_id :: "string option"
  deadline :: "Deadline option"

section \<open>Identities\<close>

lemma validate_identity_Inr_iff:
  "validate_identity field value = Inr v \<longleftrightarrow>
     v = value \<and> value \<noteq> [] \<and> length value \<le> 64 \<and> list_all identity_character value"
  by (auto simp: validate_identity_def MAX_IDENTITY_LENGTH_def)

lemma IdempotencyKey_parse_Inr_iff:
  "IdempotencyKey_parse value = Inr k \<longleftrightarrow>
     k = IdempotencyKey value \<and> value \<noteq> [] \<and> length value \<le> 128 \<and> list_all is_ascii_graphic value"
  by (auto simp: IdempotencyKey_parse_def MAX_IDEMPOTENCY_KEY_LENGTH_def)

lemma identity_character_graphic: "identity_character c \<Longrightarrow> is_ascii_graphic c"
  by (auto simp: identity_character_def is_ascii_alphanumeric_def is_ascii_digit_def
      is_ascii_upper_def is_ascii_lower_def is_ascii_graphic_def in_range_def)

section \<open>Deadlines\<close>

lemma DeadlineWindow_new_Inr_iff:
  "DeadlineWindow_new s = Inr w \<longleftrightarrow> w = DeadlineWindow s \<and> 1 \<le> unat s \<and> unat s \<le> 86400"
  by (auto simp: DeadlineWindow_new_def MAX_DEADLINE_WINDOW_SECS_def word_le_nat_alt)

lemma unat_ucast_secs: "unat (ucast (s :: u32) :: u64) = unat s"
proof -
  have "unat s < 2 ^ 32" using unsigned_less [of s] by simp
  then show ?thesis by (simp add: unsigned_ucast_eq take_bit_nat_eq_self)
qed

lemma Deadline_from_now_Inr_iff:
  "Deadline_from_now now (DeadlineWindow s) = Inr d \<longleftrightarrow>
     unat now + unat s < 2 ^ 64 \<and> unat (unix_secs d) = unat now + unat s"
  by (cases d) (auto simp: Deadline_from_now_def checked_add_eq_Some unat_ucast_secs)

text \<open>
  A deadline built from a validated window is live from the instant it is built,
  counts down exactly, and expires exactly when its remaining time is zero.
\<close>

lemma Deadline_expired_iff_no_time:
  "Deadline_is_expired d now \<longleftrightarrow> Deadline_remaining_secs d now = 0"
proof -
  have "Deadline_remaining_secs d now = 0 \<longleftrightarrow> unat (Deadline_remaining_secs d now) = 0"
    by (simp add: unat_eq_0)
  then show ?thesis
    by (simp add: Deadline_is_expired_def Deadline_remaining_secs_def saturating_sub_unat word_le_nat_alt)
qed

lemma Deadline_lifetime:
  assumes "DeadlineWindow_new s = Inr w" "Deadline_from_now now w = Inr d"
  shows "Deadline_is_expired d t \<longleftrightarrow> unat t \<ge> unat now + unat s"
    and "unat (Deadline_remaining_secs d now) = unat s"
    and "\<not> Deadline_is_expired d now"
  using assms
  by (auto simp: DeadlineWindow_new_Inr_iff Deadline_from_now_Inr_iff Deadline_is_expired_def
      Deadline_remaining_secs_def saturating_sub_unat word_le_nat_alt)

section \<open>Digests\<close>

lemma ContentDigest_from_str_display:
  assumes "\<And>h. from_hex (to_hex h) = Some h"
    and "\<And>h. length (to_hex h) = 64 \<and> list_all is_lower_hex (to_hex h)"
  shows "ContentDigest_from_str from_hex (ContentDigest_display to_hex d) = Inr d"
  using assms by (simp add: ContentDigest_from_str_def ContentDigest_display_def)

lemma ContentDigest_from_str_Inr_shape:
  "ContentDigest_from_str from_hex raw = Inr d \<Longrightarrow>
     \<exists>hex. raw = ''b3:'' @ hex \<and> length hex = 64 \<and> list_all is_lower_hex hex \<and> from_hex hex = Some d"
  by (auto simp: ContentDigest_from_str_def split: option.splits if_splits)

text \<open>
  The framing adds no collisions of its own: two different part lists with the
  same digest are a collision of the hash function on two different inputs.
\<close>

lemma ContentDigest_derive_collision:
  assumes "list_all addressable ps" "list_all addressable qs" "ps \<noteq> qs"
    and "ContentDigest_derive blake3 domain ps = ContentDigest_derive blake3 domain qs"
  shows "frame_parts ps \<noteq> frame_parts qs \<and> blake3 domain (frame_parts ps) = blake3 domain (frame_parts qs)"
  using assms frame_parts_inject by (auto simp: ContentDigest_derive_def)

section \<open>Properties\<close>

text \<open>
  A deadline built from a validated window lives exactly that long: it is
  live when built with the whole window remaining, it is expired exactly from
  the end of the window on, and it is expired exactly when no time remains; the
  sum never wraps, because a window past the end of the clock is refused.
\<close>

theorem deadline_lives_its_window:
  assumes "DeadlineWindow_new s = Inr w" "Deadline_from_now now w = Inr d"
  shows "unat (unix_secs d) = unat now + unat s \<and> 1 \<le> unat s \<and> unat s \<le> 86400
       \<and> (Deadline_is_expired d t \<longleftrightarrow> unat t \<ge> unat now + unat s)
       \<and> (Deadline_is_expired d t \<longleftrightarrow> Deadline_remaining_secs d t = 0)
       \<and> unat (Deadline_remaining_secs d now) = unat s"
  using Deadline_lifetime [OF assms] Deadline_expired_iff_no_time [of d t] assms
  by (auto simp: DeadlineWindow_new_Inr_iff Deadline_from_now_Inr_iff)

theorem deadline_lives_its_window_witness:
  "Deadline_is_expired (Deadline 160) 160 \<and> \<not> Deadline_is_expired (Deadline 160) 159"
  using deadline_lives_its_window [of 60 "DeadlineWindow 60" 100 "Deadline 160" 160]
    deadline_lives_its_window [of 60 "DeadlineWindow 60" 100 "Deadline 160" 159]
  by (simp add: DeadlineWindow_new_Inr_iff Deadline_from_now_Inr_iff)

text \<open>
  The length framing of a digest is unambiguous: two different lists of
  parts that get the same digest in the same domain are a collision of the hash
  function itself, on two different framed inputs.
\<close>

theorem digest_collision_is_hash_collision:
  assumes "list_all addressable ps" "list_all addressable qs" "ps \<noteq> qs"
    and "ContentDigest_derive blake3 domain ps = ContentDigest_derive blake3 domain qs"
  shows "frame_parts ps \<noteq> frame_parts qs \<and> blake3 domain (frame_parts ps) = blake3 domain (frame_parts qs)"
  using assms by (rule ContentDigest_derive_collision)

theorem digest_collision_is_hash_collision_witness:
  "frame_parts [''ab'', ''c''] \<noteq> frame_parts [''a'', ''bc'']"
  using digest_collision_is_hash_collision [of "[''ab'', ''c'']" "[''a'', ''bc'']" "\<lambda>_ _. 0 :: nat" "''d''"]
  by (simp add: ContentDigest_derive_def addressable_def)

end
