(* ===== verification/Runtime_Domain.thy ===== *)
theory Runtime_Domain
  imports Prelude
begin

text \<open>
  Model of \<open>crates/runtime-domain/src/lib.rs\<close>: the transport-neutral lifecycle
  of a device runtime as a pure transition function on states and events, and
  the runs of that function.
\<close>

section \<open>States, events, actions and the reducer\<close>

datatype RuntimeState =
  Booting | WaitingTunnel | WaitingCellular | StartingProxy | Healthy | Recovering | Quarantined

datatype RuntimeEvent =
    BootCompleted | TunnelReady | TunnelLost | CellularReady | CellularLost
  | ProxyReady | ProxyFailed | RotationRequested | RecoveryTimedOut

datatype RuntimeAction =
    WaitForTunnel | WaitForCellular | StartProxy | MarkHealthy | RecoverTunnel
  | RepairCellular | RestartProxy | StartRotation | Quarantine | Noop

record Transition =
  previous_state :: RuntimeState
  state :: RuntimeState
  action :: RuntimeAction

definition Transition_changed :: "Transition \<Rightarrow> bool" where
  "Transition_changed t = (previous_state t \<noteq> state t)"

fun reduce_pair :: "RuntimeState \<Rightarrow> RuntimeEvent \<Rightarrow> RuntimeState \<times> RuntimeAction" where
  "reduce_pair Booting BootCompleted = (WaitingTunnel, WaitForTunnel)"
| "reduce_pair WaitingTunnel TunnelReady = (WaitingCellular, WaitForCellular)"
| "reduce_pair WaitingCellular CellularReady = (StartingProxy, StartProxy)"
| "reduce_pair StartingProxy ProxyReady = (Healthy, MarkHealthy)"
| "reduce_pair Healthy TunnelLost = (Recovering, RecoverTunnel)"
| "reduce_pair StartingProxy TunnelLost = (Recovering, RecoverTunnel)"
| "reduce_pair WaitingCellular TunnelLost = (Recovering, RecoverTunnel)"
| "reduce_pair Healthy CellularLost = (Recovering, RepairCellular)"
| "reduce_pair StartingProxy CellularLost = (Recovering, RepairCellular)"
| "reduce_pair Healthy ProxyFailed = (Recovering, RestartProxy)"
| "reduce_pair StartingProxy ProxyFailed = (Recovering, RestartProxy)"
| "reduce_pair Healthy RotationRequested = (Recovering, StartRotation)"
| "reduce_pair Recovering TunnelReady = (WaitingCellular, WaitForCellular)"
| "reduce_pair Recovering CellularReady = (StartingProxy, StartProxy)"
| "reduce_pair Recovering RecoveryTimedOut = (Quarantined, Quarantine)"
| "reduce_pair s e = (s, Noop)"

definition reduce :: "RuntimeState \<Rightarrow> RuntimeEvent \<Rightarrow> Transition" where
  "reduce s e = (case reduce_pair s e of (next_state, act) \<Rightarrow>
     \<lparr>previous_state = s, state = next_state, action = act\<rparr>)"

section \<open>Runs of the reducer\<close>

definition next_state :: "RuntimeState \<Rightarrow> RuntimeEvent \<Rightarrow> RuntimeState" where
  "next_state s e = state (reduce s e)"

definition run_events :: "RuntimeEvent list \<Rightarrow> RuntimeState \<Rightarrow> RuntimeState" where
  "run_events es s = fold (\<lambda>e s. next_state s e) es s"

definition run_actions :: "RuntimeEvent list \<Rightarrow> RuntimeState \<Rightarrow> RuntimeAction list" where
  "run_actions es s = map (\<lambda>i. action (reduce (run_events (take i es) s) (es ! i))) [0..<length es]"

inductive runtime_step :: "RuntimeState \<Rightarrow> RuntimeEvent \<Rightarrow> RuntimeAction \<Rightarrow> RuntimeState \<Rightarrow> bool" where
  "reduce s e = \<lparr>previous_state = s, state = s', action = a\<rparr> \<Longrightarrow> runtime_step s e a s'"

inductive_simps runtime_step_iff: "runtime_step s e a s'"
inductive_cases runtime_stepE: "runtime_step s e a s'"

section \<open>Facts on one transition\<close>

lemma reduce_simps [simp]:
  "state (reduce s e) = fst (reduce_pair s e)"
  "action (reduce s e) = snd (reduce_pair s e)"
  "previous_state (reduce s e) = s"
  by (simp_all add: reduce_def split: prod.splits)

lemma next_state_simp [simp]: "next_state s e = fst (reduce_pair s e)"
  by (simp add: next_state_def)

text \<open>A transition is silent exactly when it does not change the state.\<close>

lemma reduce_changed_iff_action: "Transition_changed (reduce s e) \<longleftrightarrow> action (reduce s e) \<noteq> Noop"
  by (cases "(s, e)" rule: reduce_pair.cases) (auto simp: Transition_changed_def)

lemma reduce_Healthy_iff:
  "state (reduce s e) = Healthy \<longleftrightarrow>
     (s = StartingProxy \<and> e = ProxyReady)
   \<or> (s = Healthy \<and> e \<notin> {TunnelLost, CellularLost, ProxyFailed, RotationRequested})"
  by (cases s; cases e) auto

lemma reduce_StartRotation_iff:
  "action (reduce s e) = StartRotation \<longleftrightarrow> s = Healthy \<and> e = RotationRequested"
  by (cases s; cases e) auto

lemma reduce_StartingProxy_iff:
  "state (reduce s e) = StartingProxy \<longleftrightarrow>
     (s \<in> {WaitingCellular, Recovering} \<and> e = CellularReady)
   \<or> (s = StartingProxy \<and> e \<notin> {ProxyReady, TunnelLost, CellularLost, ProxyFailed})"
  by (cases s; cases e) auto

lemma reduce_Quarantined_iff:
  "state (reduce s e) = Quarantined \<longleftrightarrow> s = Quarantined \<or> (s = Recovering \<and> e = RecoveryTimedOut)"
  by (cases s; cases e) auto

section \<open>Facts on runs\<close>

lemma run_events_Nil [simp]: "run_events [] s = s"
  by (simp add: run_events_def)

lemma run_events_snoc [simp]: "run_events (es @ [e]) s = next_state (run_events es s) e"
  by (simp add: run_events_def)

lemma run_events_Quarantined: "run_events es Quarantined = Quarantined"
  by (induction es rule: rev_induct) simp_all

lemma run_events_append: "run_events (es @ fs) s = run_events fs (run_events es s)"
  by (simp add: run_events_def)

text \<open>
  History of a run that is in a serving state.  A healthy run has gone through
  \<open>ProxyReady\<close> in \<open>StartingProxy\<close>, and no loss or rotation event has been seen
  since.
\<close>

definition disruptive :: "RuntimeEvent set" where
  "disruptive = {TunnelLost, CellularLost, ProxyFailed, RotationRequested}"

lemma run_StartingProxy_history:
  "run_events es s0 = StartingProxy \<Longrightarrow> s0 \<noteq> StartingProxy \<Longrightarrow>
     \<exists>pre suf. es = pre @ CellularReady # suf
       \<and> run_events pre s0 \<in> {WaitingCellular, Recovering}
       \<and> set suf \<inter> {TunnelLost, CellularLost, ProxyFailed, ProxyReady} = {}"
proof (induction es rule: rev_induct)
  case Nil
  then show ?case by simp
next
  case (snoc e es)
  from snoc.prems(1) consider
      (enter) "run_events es s0 \<in> {WaitingCellular, Recovering}" "e = CellularReady"
    | (stay) "run_events es s0 = StartingProxy" "e \<notin> {ProxyReady, TunnelLost, CellularLost, ProxyFailed}"
    using reduce_StartingProxy_iff [of "run_events es s0" e] by auto
  then show ?case
  proof cases
    case enter
    then show ?thesis by (intro exI [of _ es] exI [of _ "[]"]) simp
  next
    case stay
    with snoc obtain pre suf where "es = pre @ CellularReady # suf"
      "run_events pre s0 \<in> {WaitingCellular, Recovering}"
      "set suf \<inter> {TunnelLost, CellularLost, ProxyFailed, ProxyReady} = {}" by auto
    with stay show ?thesis by (intro exI [of _ pre] exI [of _ "suf @ [e]"]) auto
  qed
qed

lemma run_Healthy_history:
  "run_events es s0 = Healthy \<Longrightarrow> s0 \<noteq> Healthy \<Longrightarrow>
     \<exists>pre suf. es = pre @ ProxyReady # suf
       \<and> run_events pre s0 = StartingProxy \<and> set suf \<inter> disruptive = {}"
proof (induction es rule: rev_induct)
  case Nil
  then show ?case by simp
next
  case (snoc e es)
  from snoc.prems(1) consider
      (enter) "run_events es s0 = StartingProxy" "e = ProxyReady"
    | (stay) "run_events es s0 = Healthy" "e \<notin> disruptive"
    using reduce_Healthy_iff [of "run_events es s0" e] by (auto simp: disruptive_def)
  then show ?case
  proof cases
    case enter
    then show ?thesis by (intro exI [of _ es] exI [of _ "[]"]) simp
  next
    case stay
    with snoc obtain pre suf where "es = pre @ ProxyReady # suf"
      "run_events pre s0 = StartingProxy" "set suf \<inter> disruptive = {}" by auto
    with stay show ?thesis by (intro exI [of _ pre] exI [of _ "suf @ [e]"]) auto
  qed
qed

section \<open>Serving is earned\<close>

text \<open>
  A runtime that starts anywhere but in \<open>Healthy\<close> or \<open>StartingProxy\<close>
  (booting, waiting, recovering or quarantined) is healthy only if the
  cellular route became ready, then the proxy became ready with no loss in
  between, and no loss, failure or rotation request came since.
\<close>

theorem healthy_only_after_cellular_and_proxy:
  assumes "run_events es s0 = Healthy" "s0 \<notin> {Healthy, StartingProxy}"
  shows "\<exists>a b c. es = a @ CellularReady # b @ ProxyReady # c
       \<and> set b \<inter> {TunnelLost, CellularLost, ProxyFailed, ProxyReady} = {}
       \<and> set c \<inter> {TunnelLost, CellularLost, ProxyFailed, RotationRequested} = {}"
proof -
  from run_Healthy_history [OF assms(1)] assms(2) obtain pre c where
    c: "es = pre @ ProxyReady # c" "run_events pre s0 = StartingProxy" "set c \<inter> disruptive = {}" by auto
  from run_StartingProxy_history [OF c(2)] assms(2) obtain a b where
    "pre = a @ CellularReady # b" "set b \<inter> {TunnelLost, CellularLost, ProxyFailed, ProxyReady} = {}" by auto
  with c show ?thesis unfolding disruptive_def
    by (intro exI [of _ a] exI [of _ b] exI [of _ c]) simp
qed

theorem healthy_only_after_cellular_and_proxy_witness:
  "\<exists>a b c. [BootCompleted, TunnelReady, CellularReady, ProxyReady] = a @ CellularReady # b @ ProxyReady # c"
  using healthy_only_after_cellular_and_proxy [of "[BootCompleted, TunnelReady, CellularReady, ProxyReady]" Booting]
  by (simp add: run_events_def) blast

text \<open>
  A quarantine is entered only when a recovery times out, and no event ever
  leaves it: whatever is reported afterwards, the runtime stays quarantined and
  takes no action.
\<close>

theorem quarantine_is_final:
  "(state (reduce s e) = Quarantined \<and> s \<noteq> Quarantined \<longleftrightarrow> s = Recovering \<and> e = RecoveryTimedOut)
   \<and> run_events es Quarantined = Quarantined
   \<and> set (run_actions es Quarantined) \<subseteq> {Noop}"
proof -
  have "action (reduce Quarantined e) = Noop" for e by (cases e) simp_all
  then have "set (run_actions es Quarantined) \<subseteq> {Noop}"
    by (auto simp: run_actions_def run_events_Quarantined)
  then show ?thesis using reduce_Quarantined_iff run_events_Quarantined by auto
qed

text \<open>
  \<open>Recovering\<close> does not remember what was lost: after the tunnel of a
  healthy runtime is lost, reports of a ready cellular route and a ready proxy
  make the runtime healthy again although the tunnel never came back, while
  from a fresh boot the same two reports are ignored until the tunnel is ready.
\<close>

theorem tunnel_loss_recovers_without_tunnel:
  "run_events [TunnelLost, CellularReady, ProxyReady] Healthy = Healthy
   \<and> run_events [BootCompleted, CellularReady, ProxyReady] Booting = WaitingTunnel"
  by (simp add: run_events_def)

end
