(* ===== verification/Provider_Lifecycle.thy ===== *)
theory Provider_Lifecycle
  imports Prelude
begin

text \<open>
  Model of \<open>crates/proxy-core/src/provider_lifecycle.rs\<close> and
  \<open>crates/proxy-core/src/provider_create_dispatch.rs\<close>: which provider machine an
  operation may touch.  A binding records the machine that belongs to an
  ownership intent, the provider reports the machines it observes, and the
  planning functions decide whether to create, leave alone, reconfigure or
  refuse.
\<close>

section \<open>Values\<close>

datatype LifecycleScope = Acceptance | Production

fun LifecycleScope_as_str :: "LifecycleScope \<Rightarrow> string" where
  "LifecycleScope_as_str Acceptance = ''acceptance''"
| "LifecycleScope_as_str Production = ''production''"

datatype LifecycleValueError =
  InvalidOwnershipIntent | InvalidGeneration | GenerationOverflow | InvalidProviderResourceId

record OwnershipIntent =
  intent_scope :: LifecycleScope
  intent_id :: string

definition ownership_intent_byte :: "char \<Rightarrow> bool" where
  "ownership_intent_byte c = (is_ascii_alphanumeric c \<or> c \<in> {CHR ''-'', CHR ''_'', CHR ''.'', CHR '':''})"

definition OwnershipIntent_new :: "LifecycleScope \<Rightarrow> string \<Rightarrow> LifecycleValueError + OwnershipIntent" where
  "OwnershipIntent_new scope ident =
     (if ident = [] \<or> length ident > 160 \<or> \<not> list_all ownership_intent_byte ident
      then Inl InvalidOwnershipIntent
      else Inr \<lparr>intent_scope = scope, intent_id = ident\<rparr>)"

datatype Generation = Generation (generation_get: u64)

definition Generation_INITIAL :: Generation where
  "Generation_INITIAL = Generation 1"

definition Generation_new :: "u64 \<Rightarrow> LifecycleValueError + Generation" where
  "Generation_new value = (if value = 0 then Inl InvalidGeneration else Inr (Generation value))"

definition Generation_next :: "Generation \<Rightarrow> LifecycleValueError + Generation" where
  "Generation_next g = ok_or GenerationOverflow (map_option Generation (checked_add (generation_get g) 1))"

datatype ProviderResourceId = ProviderResourceId (resource_id_as_str: string)

definition ProviderResourceId_new :: "string \<Rightarrow> LifecycleValueError + ProviderResourceId" where
  "ProviderResourceId_new value =
     (if value = [] \<or> length value > 160 \<or> any_whitespace value
      then Inl InvalidProviderResourceId
      else Inr (ProviderResourceId value))"

section \<open>Ownership metadata, observations, bindings and plans\<close>

definition OWNERSHIP_PROJECT :: string where
  "OWNERSHIP_PROJECT = ''mobile-proxy''"

definition OWNERSHIP_MANAGER :: string where
  "OWNERSHIP_MANAGER = ''mobile-proxy''"

record OwnershipMetadata =
  project :: string
  managed_by :: string
  meta_scope :: LifecycleScope
  meta_intent_id :: string
  meta_generation :: Generation

definition OwnershipMetadata_exact :: "OwnershipIntent \<Rightarrow> Generation \<Rightarrow> OwnershipMetadata" where
  "OwnershipMetadata_exact intent generation =
     \<lparr>project = OWNERSHIP_PROJECT, managed_by = OWNERSHIP_MANAGER,
      meta_scope = intent_scope intent, meta_intent_id = intent_id intent,
      meta_generation = generation\<rparr>"

definition claims_intent :: "OwnershipMetadata \<Rightarrow> OwnershipIntent \<Rightarrow> bool" where
  "claims_intent m intent =
     (project m = OWNERSHIP_PROJECT \<and> managed_by m = OWNERSHIP_MANAGER
      \<and> meta_scope m = intent_scope intent \<and> meta_intent_id m = intent_id intent)"

definition matches_except_generation :: "OwnershipMetadata \<Rightarrow> OwnershipMetadata \<Rightarrow> bool" where
  "matches_except_generation m other =
     (project m = project other \<and> managed_by m = managed_by other
      \<and> meta_scope m = meta_scope other \<and> meta_intent_id m = meta_intent_id other)"

datatype OwnershipObservation = Exact OwnershipMetadata | Missing | Conflicting

record ObservedVm =
  vm_provider_id :: ProviderResourceId
  vm_display_name :: string
  vm_ownership :: OwnershipObservation
  vm_spec_fingerprint :: string

record VmBinding =
  binding_intent :: OwnershipIntent
  binding_provider_id :: ProviderResourceId
  binding_generation :: Generation

record DesiredVm =
  desired_intent :: OwnershipIntent
  desired_display_name :: string
  desired_spec_fingerprint :: string

record VerifiedMutationTarget =
  target_provider_id :: ProviderResourceId
  target_intent :: OwnershipIntent
  target_generation :: Generation

definition expected_ownership :: "VerifiedMutationTarget \<Rightarrow> OwnershipMetadata" where
  "expected_ownership t = OwnershipMetadata_exact (target_intent t) (target_generation t)"

definition replacement_binding ::
  "VerifiedMutationTarget \<Rightarrow> ProviderResourceId \<Rightarrow> LifecycleValueError + VmBinding" where
  "replacement_binding t replacement_id =
     and_then (Generation_next (target_generation t)) (\<lambda>g.
       Inr \<lparr>binding_intent = target_intent t, binding_provider_id = replacement_id,
            binding_generation = g\<rparr>)"

record PlannedCreate =
  create_intent :: OwnershipIntent
  create_generation :: Generation

definition PlannedCreate_ownership :: "PlannedCreate \<Rightarrow> OwnershipMetadata" where
  "PlannedCreate_ownership p = OwnershipMetadata_exact (create_intent p) (create_generation p)"

definition binding_after_create :: "PlannedCreate \<Rightarrow> ProviderResourceId \<Rightarrow> VmBinding" where
  "binding_after_create p provider_id =
     \<lparr>binding_intent = create_intent p, binding_provider_id = provider_id,
      binding_generation = create_generation p\<rparr>"

datatype ReconcilePlan =
  Create PlannedCreate | NoopPlan VerifiedMutationTarget | Reconfigure VerifiedMutationTarget

datatype MutationKind = MutateStop | MutateReconfigure | MutateSnapshot | MutateDelete | MutateReplace

datatype LifecycleError =
    OwnershipIntentMismatch | ExpectedGenerationRequired | UnexpectedGenerationForCreate
  | StaleGeneration | ProviderResourceNotFound | ProviderIdentityMismatch | MissingOwnership
  | OwnershipMetadataMismatch | ConflictingOwnershipMetadata | AmbiguousResourceSet
  | DuplicateOwnershipClaim | NeighboringOrUnboundResource

section \<open>Planning and authorisation\<close>

definition claims_vm :: "OwnershipIntent \<Rightarrow> ObservedVm \<Rightarrow> bool" where
  "claims_vm intent r = (case vm_ownership r of Exact m \<Rightarrow> claims_intent m intent | _ \<Rightarrow> False)"

definition ownership_claims :: "ObservedVm list \<Rightarrow> OwnershipIntent \<Rightarrow> ObservedVm list" where
  "ownership_claims observed intent = filter (claims_vm intent) observed"

definition resolve_bound_resource ::
  "VmBinding \<Rightarrow> ObservedVm list \<Rightarrow> Generation \<Rightarrow> LifecycleError + VerifiedMutationTarget" where
  "resolve_bound_resource binding observed expected_generation =
     (if binding_generation binding \<noteq> expected_generation then Inl StaleGeneration
      else
        let expected_metadata = OwnershipMetadata_exact (binding_intent binding) (binding_generation binding);
            check = (\<lambda>metadata. if metadata = expected_metadata then Inr ()
                        else if matches_except_generation metadata expected_metadata
                          then Inl StaleGeneration
                        else Inl OwnershipMetadataMismatch)
        in
        and_then
          (case find (\<lambda>r. vm_provider_id r = binding_provider_id binding) observed of
             None \<Rightarrow> Inr ()
           | Some bound_observation \<Rightarrow>
               (case vm_ownership bound_observation of
                  Missing \<Rightarrow> Inl MissingOwnership
                | Conflicting \<Rightarrow> Inl ConflictingOwnershipMetadata
                | Exact metadata \<Rightarrow> check metadata))
          (\<lambda>_.
            let claims = ownership_claims observed (binding_intent binding) in
            if length claims > 1 then Inl DuplicateOwnershipClaim
            else
              (case claims of
                 [] \<Rightarrow> Inl ProviderResourceNotFound
               | resource # _ \<Rightarrow>
                   if vm_provider_id resource \<noteq> binding_provider_id binding
                   then Inl ProviderIdentityMismatch
                   else
                     (case vm_ownership resource of
                        Exact metadata \<Rightarrow>
                          and_then (check metadata) (\<lambda>_.
                            Inr \<lparr>target_provider_id = binding_provider_id binding,
                                 target_intent = binding_intent binding,
                                 target_generation = binding_generation binding\<rparr>)
                      | _ \<Rightarrow> Inl MissingOwnership))))"

definition authorize_mutation ::
  "VmBinding \<Rightarrow> ObservedVm list \<Rightarrow> Generation \<Rightarrow> MutationKind \<Rightarrow> LifecycleError + VerifiedMutationTarget" where
  "authorize_mutation binding observed expected_generation kind =
     resolve_bound_resource binding observed expected_generation"

definition plan_unbound ::
  "ObservedVm list \<Rightarrow> DesiredVm \<Rightarrow> Generation option \<Rightarrow> LifecycleError + ReconcilePlan" where
  "plan_unbound observed desired expected_generation =
     (if expected_generation \<noteq> None then Inl UnexpectedGenerationForCreate
      else
        let claims = ownership_claims observed (desired_intent desired);
            same_name = filter (\<lambda>r. vm_display_name r = desired_display_name desired) observed in
        if length claims > 1 then Inl DuplicateOwnershipClaim
        else if length claims = 1 then Inl NeighboringOrUnboundResource
        else if list_ex (\<lambda>r. vm_ownership r = Conflicting) same_name then Inl ConflictingOwnershipMetadata
        else if length same_name > 1 then Inl AmbiguousResourceSet
        else if length same_name = 1 then Inl NeighboringOrUnboundResource
        else Inr (Create \<lparr>create_intent = desired_intent desired, create_generation = Generation_INITIAL\<rparr>))"

definition plan_bound ::
  "VmBinding \<Rightarrow> ObservedVm list \<Rightarrow> DesiredVm \<Rightarrow> Generation option \<Rightarrow> LifecycleError + ReconcilePlan" where
  "plan_bound binding observed desired expected_generation =
     (if binding_intent binding \<noteq> desired_intent desired then Inl OwnershipIntentMismatch
      else
        and_then (ok_or ExpectedGenerationRequired expected_generation) (\<lambda>g.
        and_then (resolve_bound_resource binding observed g) (\<lambda>target.
        and_then (ok_or ProviderResourceNotFound
                    (find (\<lambda>r. vm_provider_id r = target_provider_id target) observed)) (\<lambda>resource.
          if vm_spec_fingerprint resource = desired_spec_fingerprint desired
          then Inr (NoopPlan target) else Inr (Reconfigure target)))))"

definition plan_present ::
  "VmBinding option \<Rightarrow> ObservedVm list \<Rightarrow> DesiredVm \<Rightarrow> Generation option \<Rightarrow> LifecycleError + ReconcilePlan" where
  "plan_present binding observed desired expected_generation =
     (case binding of
        None \<Rightarrow> plan_unbound observed desired expected_generation
      | Some b \<Rightarrow> plan_bound b observed desired expected_generation)"

section \<open>Dispatch fences\<close>

record CreateDispatchFence =
  fence_intent :: OwnershipIntent
  fence_generation :: Generation
  fence_display_name :: string
  fence_spec_fingerprint :: string

definition fence_ownership :: "CreateDispatchFence \<Rightarrow> OwnershipMetadata" where
  "fence_ownership f = OwnershipMetadata_exact (fence_intent f) (fence_generation f)"

record RecoveredCreate =
  recovered_fence :: CreateDispatchFence
  recovered_binding :: VmBinding

datatype CreateRecovery = AwaitProvider | Recovered RecoveredCreate

datatype CreateDispatchError =
    FenceIntentMismatch | FenceUnexpectedGeneration | FenceDuplicateClaim | FenceConflictingMetadata
  | FenceAmbiguousSet | FenceNeighboring | FenceStaleGeneration | FenceObservedMismatch

definition create_dispatch_fence_for_recovery ::
  "OwnershipIntent \<Rightarrow> Generation \<Rightarrow> DesiredVm \<Rightarrow> CreateDispatchError + CreateDispatchFence" where
  "create_dispatch_fence_for_recovery intent generation desired =
     (if intent \<noteq> desired_intent desired then Inl FenceIntentMismatch
      else if generation \<noteq> Generation_INITIAL then Inl FenceUnexpectedGeneration
      else Inr \<lparr>fence_intent = desired_intent desired, fence_generation = generation,
                fence_display_name = desired_display_name desired,
                fence_spec_fingerprint = desired_spec_fingerprint desired\<rparr>)"

definition create_dispatch_fence ::
  "PlannedCreate \<Rightarrow> DesiredVm \<Rightarrow> CreateDispatchError + CreateDispatchFence" where
  "create_dispatch_fence plan desired =
     create_dispatch_fence_for_recovery (create_intent plan) (create_generation plan) desired"

text \<open>
  The \<open>unreachable!\<close> branch of the source (a claim without exact metadata) is
  kept as \<open>None\<close>, a panic.
\<close>

definition recover_dispatched_create ::
  "CreateDispatchFence \<Rightarrow> ObservedVm list \<Rightarrow> (CreateDispatchError + CreateRecovery) option" where
  "recover_dispatched_create fence observed =
     (let claims = filter (claims_vm (fence_intent fence)) observed;
          same_name = filter (\<lambda>r. vm_display_name r = fence_display_name fence) observed in
      if length claims > 1 then Some (Inl FenceDuplicateClaim)
      else if list_ex (\<lambda>r. vm_ownership r = Conflicting) same_name then Some (Inl FenceConflictingMetadata)
      else if length same_name > 1 then Some (Inl FenceAmbiguousSet)
      else
        (case claims of
           [] \<Rightarrow> Some (if length same_name = 1 then Inl FenceNeighboring else Inr AwaitProvider)
         | resource # _ \<Rightarrow>
             if length same_name \<noteq> 1 \<or> vm_provider_id (same_name ! 0) \<noteq> vm_provider_id resource
             then Some (Inl FenceObservedMismatch)
             else
               (case vm_ownership resource of
                  Exact metadata \<Rightarrow>
                    Some (if metadata \<noteq> fence_ownership fence then Inl FenceStaleGeneration
                          else if vm_spec_fingerprint resource \<noteq> fence_spec_fingerprint fence
                            then Inl FenceObservedMismatch
                          else Inr (Recovered
                            \<lparr>recovered_fence = fence,
                             recovered_binding =
                               \<lparr>binding_intent = fence_intent fence,
                                binding_provider_id = vm_provider_id resource,
                                binding_generation = fence_generation fence\<rparr>\<rparr>))
                | _ \<Rightarrow> None)))"

section \<open>Generations\<close>

lemma Generation_next_increases:
  "Generation_next g = Inr g' \<Longrightarrow> unat (generation_get g') = Suc (unat (generation_get g))"
  by (cases g) (auto simp: Generation_next_def checked_add_eq_Some)

lemma Generation_next_total:
  "generation_get g \<noteq> - 1 \<Longrightarrow> \<exists>g'. Generation_next g = Inr g'"
proof -
  assume ne: "generation_get g \<noteq> - 1"
  have "unat (generation_get g) + unat (1::u64) < 2 ^ 64"
  proof (rule ccontr)
    assume "\<not> ?thesis"
    with unat_less_2p64 [of "generation_get g"] have "unat (generation_get g) = 2 ^ 64 - 1" by simp
    also have "\<dots> = unat (- 1 :: u64)"
      by (simp add: unsigned_minus_1_eq_mask mask_eq_exp_minus_1)
    finally show False using ne by (simp add: unsigned_word_eqI)
  qed
  then show ?thesis by (simp add: Generation_next_def checked_add_def)
qed

section \<open>Exact metadata\<close>

lemma claims_intent_exact [simp]: "claims_intent (OwnershipMetadata_exact i g) i"
  by (simp add: claims_intent_def OwnershipMetadata_exact_def)

lemma claims_vm_exact [simp]:
  "vm_ownership r = Exact (OwnershipMetadata_exact i g) \<Longrightarrow> claims_vm i r"
  by (simp add: claims_vm_def)

lemma claims_vmE:
  assumes "claims_vm i r"
  obtains m where "vm_ownership r = Exact m" "claims_intent m i"
  using assms by (auto simp: claims_vm_def split: OwnershipObservation.splits)

lemma exact_inject [simp]:
  "OwnershipMetadata_exact i g = OwnershipMetadata_exact j h \<longleftrightarrow> i = j \<and> g = h"
  by (auto simp: OwnershipMetadata_exact_def)

lemma claims_intent_matches:
  "claims_intent m i \<Longrightarrow> matches_except_generation m (OwnershipMetadata_exact i g)"
  by (simp add: claims_intent_def matches_except_generation_def OwnershipMetadata_exact_def)

lemma claims_intent_iff_exact:
  "claims_intent m i \<longleftrightarrow> m = OwnershipMetadata_exact i (meta_generation m)"
  by (cases m) (auto simp: claims_intent_def OwnershipMetadata_exact_def)

section \<open>Which machine a mutation may touch\<close>

definition target_of :: "VmBinding \<Rightarrow> VerifiedMutationTarget" where
  "target_of b = \<lparr>target_provider_id = binding_provider_id b, target_intent = binding_intent b,
                  target_generation = binding_generation b\<rparr>"

definition exactly_owned :: "VmBinding \<Rightarrow> ObservedVm \<Rightarrow> bool" where
  "exactly_owned b r =
     (vm_provider_id r = binding_provider_id b
      \<and> vm_ownership r = Exact (OwnershipMetadata_exact (binding_intent b) (binding_generation b)))"

lemma exactly_owned_claims: "exactly_owned b r \<Longrightarrow> claims_vm (binding_intent b) r"
  by (simp add: exactly_owned_def)

lemma list_cases_012:
  obtains "xs = []" | x where "xs = [x]" | x y ys where "xs = x # y # ys"
  by (cases xs; cases "tl xs") auto

lemma resolve_bound_resource_Inr_iff:
  "resolve_bound_resource b obs g = Inr t \<longleftrightarrow>
     g = binding_generation b \<and> t = target_of b
     \<and> (\<exists>r. ownership_claims obs (binding_intent b) = [r] \<and> exactly_owned b r)
     \<and> (\<forall>r. find (\<lambda>r. vm_provider_id r = binding_provider_id b) obs = Some r \<longrightarrow> exactly_owned b r)"
proof -
  have find_pid: "vm_provider_id r = binding_provider_id b"
    if "find (\<lambda>r. vm_provider_id r = binding_provider_id b) obs = Some r" for r
    using that by (auto simp: find_Some_iff)
  show ?thesis
    by (cases "ownership_claims obs (binding_intent b)" rule: list_cases_012;
        cases "find (\<lambda>r. vm_provider_id r = binding_provider_id b) obs")
      (auto simp: resolve_bound_resource_def Let_def target_of_def exactly_owned_def and_then_Inr_iff
        split: OwnershipObservation.splits if_splits dest: find_pid)
qed

text \<open>
  A mutation is authorised exactly when the caller's expected generation is
  the binding's, exactly one observed machine claims the binding's intent, and
  that machine is the bound one with exactly the expected ownership metadata
  (and the first observation under the bound provider id carries that metadata).
  The authorised target is then the bound machine and nothing else.
\<close>

theorem authorize_mutation_iff:
  "authorize_mutation b obs g kind = Inr t \<longleftrightarrow>
     g = binding_generation b \<and> t = target_of b
     \<and> (\<exists>r. ownership_claims obs (binding_intent b) = [r] \<and> exactly_owned b r)
     \<and> (\<exists>r. find (\<lambda>r. vm_provider_id r = binding_provider_id b) obs = Some r \<and> exactly_owned b r)"
proof -
  have "\<exists>r. find (\<lambda>r. vm_provider_id r = binding_provider_id b) obs = Some r"
    if "ownership_claims obs (binding_intent b) = [r]" "exactly_owned b r" for r
  proof -
    have "r \<in> set (ownership_claims obs (binding_intent b))" using that by simp
    then have "r \<in> set obs" by (simp add: ownership_claims_def)
    then show ?thesis using that(2)
      by (metis (mono_tags, lifting) exactly_owned_def find_None_iff not_Some_eq)
  qed
  then show ?thesis
    by (auto simp: authorize_mutation_def resolve_bound_resource_Inr_iff)
qed

lemma plan_present_Create_iff_aux:
  "plan_present binding obs desired g = Inr (Create p) \<longleftrightarrow>
     binding = None \<and> g = None
     \<and> p = \<lparr>create_intent = desired_intent desired, create_generation = Generation_INITIAL\<rparr>
     \<and> filter (claims_vm (desired_intent desired)) obs = []
     \<and> filter (\<lambda>r. vm_display_name r = desired_display_name desired) obs = []"
  by (auto simp: plan_present_def plan_unbound_def plan_bound_def ownership_claims_def Let_def
      and_then_Inr_iff not_less le_Suc_eq length_Suc_conv split: option.splits if_splits)

text \<open>
  Planning creates a machine exactly when there is no binding, no expected
  generation is supplied, no observed machine claims the desired intent and none
  has the desired display name; the planned generation is the first one.
\<close>

theorem plan_present_Create_iff:
  "plan_present binding obs desired g = Inr (Create p) \<longleftrightarrow>
     binding = None \<and> g = None
     \<and> p = \<lparr>create_intent = desired_intent desired, create_generation = Generation_INITIAL\<rparr>
     \<and> filter (claims_vm (desired_intent desired)) obs = []
     \<and> filter (\<lambda>r. vm_display_name r = desired_display_name desired) obs = []"
  by (rule plan_present_Create_iff_aux)

lemma plan_present_bound_iff:
  "plan_present (Some b) obs desired (Some g) = Inr pl \<longleftrightarrow>
     binding_intent b = desired_intent desired
     \<and> (\<exists>r. authorize_mutation b obs g MutateReconfigure = Inr (target_of b)
          \<and> find (\<lambda>r. vm_provider_id r = binding_provider_id b) obs = Some r
          \<and> pl = (if vm_spec_fingerprint r = desired_spec_fingerprint desired
                  then NoopPlan (target_of b) else Reconfigure (target_of b)))"
  by (auto simp: plan_present_def plan_bound_def authorize_mutation_def and_then_Inr_iff
      resolve_bound_resource_Inr_iff target_of_def)

section \<open>Recovery of a dispatched creation\<close>

lemma recover_dispatched_create_total: "\<exists>res. recover_dispatched_create fence obs = Some res"
proof (cases "filter (claims_vm (fence_intent fence)) obs")
  case Nil
  then show ?thesis by (simp add: recover_dispatched_create_def Let_def)
next
  case (Cons r rs)
  then have "r \<in> set (filter (claims_vm (fence_intent fence)) obs)" by simp
  then have "claims_vm (fence_intent fence) r" by simp
  then obtain m where "vm_ownership r = Exact m" by (rule claims_vmE)
  with Cons show ?thesis by (simp add: recover_dispatched_create_def Let_def)
qed

definition recovered_of :: "CreateDispatchFence \<Rightarrow> ProviderResourceId \<Rightarrow> RecoveredCreate" where
  "recovered_of f pid =
     \<lparr>recovered_fence = f,
      recovered_binding = \<lparr>binding_intent = fence_intent f, binding_provider_id = pid,
                           binding_generation = fence_generation f\<rparr>\<rparr>"

lemma recover_no_claims:
  assumes "filter (claims_vm (fence_intent f)) obs = []"
    and "filter (\<lambda>r. vm_display_name r = fence_display_name f) obs = []"
  shows "recover_dispatched_create f obs = Some (Inr AwaitProvider)"
  using assms by (simp add: recover_dispatched_create_def Let_def)

lemma recover_one_claim:
  assumes "filter (claims_vm (fence_intent f)) obs = [r]"
    and "filter (\<lambda>r. vm_display_name r = fence_display_name f) obs = [r]"
    and "vm_ownership r = Exact (fence_ownership f)" "vm_spec_fingerprint r = fence_spec_fingerprint f"
  shows "recover_dispatched_create f obs = Some (Inr (Recovered (recovered_of f (vm_provider_id r))))"
  using assms by (simp add: recover_dispatched_create_def Let_def recovered_of_def)

text \<open>
  Recovery adopts a machine exactly when it is the only one that claims the
  dispatched intent, the only one with the dispatched name has the same provider
  id and no conflicting metadata, and its metadata and specification are those
  of the fence.  The adopted binding is that machine at the dispatched generation.
\<close>

theorem recover_dispatched_create_Recovered_iff:
  "recover_dispatched_create f obs = Some (Inr (Recovered rc)) \<longleftrightarrow>
     (\<exists>r s. filter (claims_vm (fence_intent f)) obs = [r]
        \<and> filter (\<lambda>v. vm_display_name v = fence_display_name f) obs = [s]
        \<and> vm_ownership s \<noteq> Conflicting \<and> vm_provider_id s = vm_provider_id r
        \<and> vm_ownership r = Exact (fence_ownership f)
        \<and> vm_spec_fingerprint r = fence_spec_fingerprint f
        \<and> rc = recovered_of f (vm_provider_id r))"
  by (cases "filter (claims_vm (fence_intent f)) obs" rule: list_cases_012;
      cases "filter (\<lambda>v. vm_display_name v = fence_display_name f) obs" rule: list_cases_012)
    (auto simp: recover_dispatched_create_def Let_def recovered_of_def
      split: OwnershipObservation.splits if_splits)

definition created_vm :: "PlannedCreate \<Rightarrow> DesiredVm \<Rightarrow> ProviderResourceId \<Rightarrow> ObservedVm" where
  "created_vm p desired pid =
     \<lparr>vm_provider_id = pid, vm_display_name = desired_display_name desired,
      vm_ownership = Exact (PlannedCreate_ownership p),
      vm_spec_fingerprint = desired_spec_fingerprint desired\<rparr>"

lemma created_vm_simps [simp]:
  "vm_provider_id (created_vm p d pid) = pid"
  "vm_display_name (created_vm p d pid) = desired_display_name d"
  "vm_ownership (created_vm p d pid) = Exact (OwnershipMetadata_exact (create_intent p) (create_generation p))"
  "vm_spec_fingerprint (created_vm p d pid) = desired_spec_fingerprint d"
  by (simp_all add: created_vm_def PlannedCreate_ownership_def)

lemma find_skip: "\<forall>x\<in>set xs. \<not> P x \<Longrightarrow> P y \<Longrightarrow> find P (xs @ y # ys) = Some y"
  by (induction xs) auto

text \<open>
  C5: Crash safety of machine creation.  Suppose planning decided to create a
  machine while the provider listed \<open>as @ bs\<close>, and the provider then creates it
  under a fresh id.  The dispatch fence exists; before the machine is listed,
  recovery waits; once it is listed, recovery adopts exactly that machine with
  the binding a direct creation would have stored, planning on that binding
  reports nothing to do, and planning without a binding refuses to create a
  second machine.
\<close>

theorem create_dispatch_crash_safe:
  assumes plan: "plan_present None (as @ bs) desired None = Inr (Create p)"
    and fresh: "\<forall>r\<in>set (as @ bs). vm_provider_id r \<noteq> pid"
  shows "\<exists>f. create_dispatch_fence p desired = Inr f
      \<and> recover_dispatched_create f (as @ bs) = Some (Inr AwaitProvider)
      \<and> (let obs = as @ created_vm p desired pid # bs; b = binding_after_create p pid in
          recover_dispatched_create f obs
            = Some (Inr (Recovered \<lparr>recovered_fence = f, recovered_binding = b\<rparr>))
          \<and> plan_present (Some b) obs desired (Some Generation_INITIAL) = Inr (NoopPlan (target_of b))
          \<and> plan_present None obs desired None = Inl NeighboringOrUnboundResource)"
proof -
  have p: "p = \<lparr>create_intent = desired_intent desired, create_generation = Generation_INITIAL\<rparr>"
    and no_claim: "filter (claims_vm (desired_intent desired)) (as @ bs) = []"
    and no_name: "filter (\<lambda>r. vm_display_name r = desired_display_name desired) (as @ bs) = []"
    using plan by (simp_all add: plan_present_Create_iff_aux)
  define f where "f = \<lparr>fence_intent = desired_intent desired, fence_generation = Generation_INITIAL,
      fence_display_name = desired_display_name desired,
      fence_spec_fingerprint = desired_spec_fingerprint desired\<rparr>"
  define b where "b = binding_after_create p pid"
  define obs where "obs = as @ created_vm p desired pid # bs"
  have b [simp]: "binding_intent b = desired_intent desired" "binding_provider_id b = pid"
      "binding_generation b = Generation_INITIAL"
    by (simp_all add: b_def binding_after_create_def p)
  have claim: "filter (claims_vm (desired_intent desired)) obs = [created_vm p desired pid]"
    and name: "filter (\<lambda>r. vm_display_name r = desired_display_name desired) obs = [created_vm p desired pid]"
    using no_claim no_name by (simp_all add: obs_def p claims_vm_def)
  have found: "find (\<lambda>r. vm_provider_id r = pid) obs = Some (created_vm p desired pid)"
    using fresh by (simp add: obs_def find_skip)
  have owned: "exactly_owned b (created_vm p desired pid)"
    by (simp add: exactly_owned_def p)
  have "create_dispatch_fence p desired = Inr f"
    by (simp add: create_dispatch_fence_def create_dispatch_fence_for_recovery_def p f_def)
  moreover have "recover_dispatched_create f (as @ bs) = Some (Inr AwaitProvider)"
    using no_claim no_name by (intro recover_no_claims) (simp_all add: f_def)
  moreover have "recover_dispatched_create f obs
      = Some (Inr (Recovered \<lparr>recovered_fence = f, recovered_binding = b\<rparr>))"
    using recover_one_claim [of f obs "created_vm p desired pid"] claim name
    by (simp add: f_def fence_ownership_def p recovered_of_def b_def binding_after_create_def)
  moreover have "plan_present (Some b) obs desired (Some Generation_INITIAL) = Inr (NoopPlan (target_of b))"
    using claim found owned
    by (simp add: plan_present_bound_iff authorize_mutation_def resolve_bound_resource_Inr_iff
        ownership_claims_def)
  moreover have "plan_present None obs desired None = Inl NeighboringOrUnboundResource"
    using claim by (simp add: plan_present_def plan_unbound_def ownership_claims_def)
  ultimately show ?thesis by (auto simp: Let_def obs_def b_def)
qed

text \<open>
  A replacement binding moves to the next generation, so the replaced
  machine's binding and every caller that still expects its generation are
  refused: authorisation under the new binding fails with a stale generation.
\<close>

theorem replacement_fences_old_generation:
  assumes "authorize_mutation b obs g MutateReplace = Inr t" "replacement_binding t new_id = Inr b'"
  shows "binding_intent b' = binding_intent b \<and> binding_provider_id b' = new_id
    \<and> unat (generation_get (binding_generation b')) = Suc (unat (generation_get g))
    \<and> authorize_mutation b' obs' g kind = Inl StaleGeneration"
proof -
  have t: "t = target_of b" "g = binding_generation b"
    using assms(1) by (simp_all add: authorize_mutation_def resolve_bound_resource_Inr_iff)
  from assms(2) obtain g' where g': "Generation_next (binding_generation b) = Inr g'"
    and b': "b' = \<lparr>binding_intent = binding_intent b, binding_provider_id = new_id, binding_generation = g'\<rparr>"
    by (auto simp: replacement_binding_def and_then_Inr_iff t target_of_def)
  have "g' \<noteq> g" using Generation_next_increases [OF g'] t by auto
  with Generation_next_increases [OF g'] b' t show ?thesis
    by (simp add: authorize_mutation_def resolve_bound_resource_def)
qed

section \<open>Witnesses\<close>

definition sample_desired :: DesiredVm where
  "sample_desired = \<lparr>desired_intent = \<lparr>intent_scope = Production, intent_id = ''relay''\<rparr>,
     desired_display_name = ''relay-1'', desired_spec_fingerprint = ''spec''\<rparr>"

definition sample_plan :: PlannedCreate where
  "sample_plan = \<lparr>create_intent = desired_intent sample_desired, create_generation = Generation_INITIAL\<rparr>"

definition sample_neighbour :: ObservedVm where
  "sample_neighbour = \<lparr>vm_provider_id = ProviderResourceId ''vm-0'', vm_display_name = ''other'',
     vm_ownership = Missing, vm_spec_fingerprint = ''x''\<rparr>"

definition sample_binding :: VmBinding where
  "sample_binding = binding_after_create sample_plan (ProviderResourceId ''vm-1'')"

lemmas sample_lifecycle_defs =
  sample_desired_def sample_plan_def sample_neighbour_def sample_binding_def

theorem create_dispatch_crash_safe_witness:
  "\<exists>f. recover_dispatched_create f [sample_neighbour, created_vm sample_plan sample_desired (ProviderResourceId ''vm-1'')]
      = Some (Inr (Recovered \<lparr>recovered_fence = f, recovered_binding = sample_binding\<rparr>))"
proof -
  have "plan_present None ([sample_neighbour] @ []) sample_desired None = Inr (Create sample_plan)"
    by (simp add: plan_present_def plan_unbound_def ownership_claims_def claims_vm_def sample_lifecycle_defs)
  from create_dispatch_crash_safe [OF this, of "ProviderResourceId ''vm-1''"] show ?thesis
    by (auto simp: sample_lifecycle_defs Let_def)
qed

theorem replacement_fences_old_generation_witness:
  "\<exists>b'. replacement_binding (target_of sample_binding) (ProviderResourceId ''vm-2'') = Inr b'
     \<and> authorize_mutation b' [] Generation_INITIAL MutateDelete = Inl StaleGeneration"
proof -
  have auth: "authorize_mutation sample_binding
      [created_vm sample_plan sample_desired (ProviderResourceId ''vm-1'')]
      Generation_INITIAL MutateReplace = Inr (target_of sample_binding)"
    by (simp add: authorize_mutation_def resolve_bound_resource_Inr_iff exactly_owned_def
        ownership_claims_def claims_vm_def binding_after_create_def sample_lifecycle_defs)
  obtain b' where "replacement_binding (target_of sample_binding) (ProviderResourceId ''vm-2'') = Inr b'"
    by (simp add: replacement_binding_def target_of_def sample_lifecycle_defs binding_after_create_def
        Generation_next_def Generation_INITIAL_def checked_add_def)
  with replacement_fences_old_generation [OF auth this] show ?thesis by blast
qed

end
