(* ===== verification/Net_Addr.thy ===== *)
theory Net_Addr
  imports Prelude
begin

text \<open>
  Socket addresses as the Rust standard library has them (\<open>std::net\<close>): their
  octets, the predicates the sources use, and the parser behind
  \<open>str::parse::<SocketAddr>\<close>, which has to consume the whole text.
\<close>

type_synonym u16 = "16 word"

datatype IpAddr = V4 u32 | V6 uuid

datatype SocketAddr = SocketV4 (v4_ip: u32) (v4_port: u16) | SocketV6 (v6_ip: uuid) (v6_port: u16) (v6_scope: u32)

fun socket_ip :: "SocketAddr \<Rightarrow> IpAddr" where
  "socket_ip (SocketV4 a _) = V4 a"
| "socket_ip (SocketV6 a _ _) = V6 a"

fun socket_port :: "SocketAddr \<Rightarrow> u16" where
  "socket_port (SocketV4 _ p) = p"
| "socket_port (SocketV6 _ p _) = p"

fun is_loopback :: "IpAddr \<Rightarrow> bool" where
  "is_loopback (V4 a) = (drop_bit 24 a = 127)"
| "is_loopback (V6 a) = (a = 1)"

fun is_unspecified :: "IpAddr \<Rightarrow> bool" where
  "is_unspecified (V4 a) = (a = 0)"
| "is_unspecified (V6 a) = (a = 0)"

fun is_multicast :: "IpAddr \<Rightarrow> bool" where
  "is_multicast (V4 a) = (drop_bit 28 a = 14)"
| "is_multicast (V6 a) = (drop_bit 120 a = 255)"

section \<open>Octets\<close>

definition be_bytes :: "nat \<Rightarrow> 'w::len word \<Rightarrow> bytes" where
  "be_bytes n w = map (\<lambda>i. char_of (unat (drop_bit (8 * i) w))) (rev [0..<n])"

fun octets :: "IpAddr \<Rightarrow> bytes" where
  "octets (V4 a) = be_bytes 4 a"
| "octets (V6 a) = be_bytes 16 a"

definition port_bytes :: "u16 \<Rightarrow> bytes" where
  "port_bytes p = be_bytes 2 p"

lemma length_be_bytes [simp]: "length (be_bytes n w) = n"
  by (simp add: be_bytes_def)

section \<open>The parser\<close>

text \<open>A reader takes the text and returns a value and the rest of the text.\<close>

type_synonym 'a reader = "string \<Rightarrow> ('a \<times> string) option"

definition digit_in_radix :: "nat \<Rightarrow> char \<Rightarrow> nat option" where
  "digit_in_radix radix c =
     (let n = (of_char c :: nat);
          d = (if is_ascii_digit c then Some (n - 48)
               else if is_ascii_lower c then Some (n - 87)
               else if is_ascii_upper c then Some (n - 55) else None) in
      case d of Some v \<Rightarrow> if v < radix then Some v else None | None \<Rightarrow> None)"

fun read_digits :: "nat \<Rightarrow> nat \<Rightarrow> nat \<Rightarrow> nat \<times> nat \<times> string \<Rightarrow> (nat \<times> nat \<times> string) option" where
  "read_digits radix max_digits limit (value, count, []) = Some (value, count, [])"
| "read_digits radix max_digits limit (value, count, c # cs) =
     (case digit_in_radix radix c of
        None \<Rightarrow> Some (value, count, c # cs)
      | Some d \<Rightarrow>
          if value * radix + d \<ge> limit \<or> (max_digits \<noteq> 0 \<and> count + 1 > max_digits) then None
          else read_digits radix max_digits limit (value * radix + d, count + 1, cs))"

text \<open>\<open>read_number\<close>: a bound of 0 digits stands for no bound.\<close>

definition read_number :: "nat \<Rightarrow> nat \<Rightarrow> bool \<Rightarrow> nat \<Rightarrow> nat reader" where
  "read_number radix max_digits allow_zero_prefix limit s =
     (case read_digits radix max_digits limit (0, 0, s) of
        None \<Rightarrow> None
      | Some (value, count, rest) \<Rightarrow>
          if count = 0 \<or> (\<not> allow_zero_prefix \<and> hd s = CHR ''0'' \<and> count > 1) then None else Some (value, rest))"

definition read_given_char :: "char \<Rightarrow> unit reader" where
  "read_given_char c s = (case s of [] \<Rightarrow> None | d # rest \<Rightarrow> if d = c then Some ((), rest) else None)"

definition read_separator :: "char \<Rightarrow> nat \<Rightarrow> 'a reader \<Rightarrow> 'a reader" where
  "read_separator sep i inner s =
     (if i = 0 then inner s else case read_given_char sep s of None \<Rightarrow> None | Some (_, rest) \<Rightarrow> inner rest)"

fun read_octets :: "nat list \<Rightarrow> nat \<Rightarrow> nat reader" where
  "read_octets [] acc s = Some (acc, s)"
| "read_octets (i # is) acc s =
     (case read_separator CHR ''.'' i (read_number 10 3 False 256) s of
        None \<Rightarrow> None
      | Some (octet, rest) \<Rightarrow> read_octets is (acc * 256 + octet) rest)"

definition read_ipv4_addr :: "u32 reader" where
  "read_ipv4_addr s = map_option (\<lambda>(v, rest). (of_nat v, rest)) (read_octets [0, 1, 2, 3] 0 s)"

text \<open>\<open>read_groups\<close> fills the given slots: the groups read, whether they end in an embedded IPv4 address.\<close>

fun read_groups :: "nat list \<Rightarrow> nat list \<Rightarrow> string \<Rightarrow> nat list \<times> bool \<times> string" where
  "read_groups [] acc s = (acc, False, s)"
| "read_groups (i # slots) acc s =
     (case (if slots \<noteq> [] then read_separator CHR '':'' i read_ipv4_addr s else None) of
        Some (v4, rest) \<Rightarrow> (acc @ [unat (drop_bit 16 v4), unat (take_bit 16 v4)], True, rest)
      | None \<Rightarrow>
          (case read_separator CHR '':'' i (read_number 16 4 True 65536) s of
             Some (g, rest) \<Rightarrow> read_groups slots (acc @ [g]) rest
           | None \<Rightarrow> (acc, False, s)))"

definition groups_value :: "nat list \<Rightarrow> uuid" where
  "groups_value gs = of_nat (foldl (\<lambda>v g. v * 65536 + g) 0 gs)"

definition read_ipv6_addr :: "uuid reader" where
  "read_ipv6_addr s =
     (let slots = [0, 1, 2, 3, 4, 5, 6, 7] in
      case read_groups slots [] s of (head, head_ipv4, rest) \<Rightarrow>
        if length head = 8 then Some (groups_value head, rest)
        else if head_ipv4 then None
        else case read_given_char CHR '':'' rest of
               None \<Rightarrow> None
             | Some (_, rest1) \<Rightarrow>
                 (case read_given_char CHR '':'' rest1 of
                    None \<Rightarrow> None
                  | Some (_, rest2) \<Rightarrow>
                      (case read_groups (take (8 - (length head + 1)) slots) [] rest2 of (tail, _, rest3) \<Rightarrow>
                         Some (groups_value (head @ replicate (8 - length head - length tail) 0 @ tail), rest3))))"

definition read_port :: "u16 reader" where
  "read_port s =
     (case read_given_char CHR '':'' s of
        None \<Rightarrow> None
      | Some (_, rest) \<Rightarrow> map_option (\<lambda>(v, r). (of_nat v, r)) (read_number 10 0 True 65536 rest))"

definition read_socket_addr_v4 :: "SocketAddr reader" where
  "read_socket_addr_v4 s =
     (case read_ipv4_addr s of
        None \<Rightarrow> None
      | Some (ip, rest) \<Rightarrow> map_option (\<lambda>(port, r). (SocketV4 ip port, r)) (read_port rest))"

definition read_scope_id :: "u32 reader" where
  "read_scope_id s =
     (case read_given_char CHR ''%'' s of
        None \<Rightarrow> None
      | Some (_, rest) \<Rightarrow> map_option (\<lambda>(v, r). (of_nat v, r)) (read_number 10 0 True 4294967296 rest))"

definition read_socket_addr_v6 :: "SocketAddr reader" where
  "read_socket_addr_v6 s =
     (case read_given_char CHR ''['' s of
        None \<Rightarrow> None
      | Some (_, rest) \<Rightarrow>
          (case read_ipv6_addr rest of
             None \<Rightarrow> None
           | Some (ip, rest1) \<Rightarrow>
               (case (case read_scope_id rest1 of Some (scope, r) \<Rightarrow> (scope, r) | None \<Rightarrow> (0, rest1)) of
                  (scope, rest2) \<Rightarrow>
                    (case read_given_char CHR '']'' rest2 of
                       None \<Rightarrow> None
                     | Some (_, rest3) \<Rightarrow> map_option (\<lambda>(port, r). (SocketV6 ip port scope, r)) (read_port rest3)))))"

definition parse_socket_addr :: "string \<Rightarrow> SocketAddr option" where
  "parse_socket_addr s =
     (case (case read_socket_addr_v4 s of Some r \<Rightarrow> Some r | None \<Rightarrow> read_socket_addr_v6 s) of
        Some (addr, []) \<Rightarrow> Some addr
      | _ \<Rightarrow> None)"

lemmas socket_readers = parse_socket_addr_def read_socket_addr_v4_def read_socket_addr_v6_def read_scope_id_def read_port_def
  read_ipv4_addr_def read_ipv6_addr_def groups_value_def read_separator_def read_given_char_def read_number_def
  digit_in_radix_def is_ascii_digit_def is_ascii_lower_def is_ascii_upper_def in_range_def

lemma leading_zero_groups [simp]: "foldl (\<lambda>v. (+) (v * 65536)) 0 (replicate n 0) = (0 :: nat)"
  by (induction n) simp_all

lemma parse_socket_addr_examples:
  "parse_socket_addr ''127.0.0.1:80'' = Some (SocketV4 0x7F000001 80)"
  "parse_socket_addr ''[::1]:443'' = Some (SocketV6 1 443 0)"
  "parse_socket_addr ''127.0.0.1'' = None"
  by (simp_all add: socket_readers)

end
