(* ===== verification/Tunnel_Model.thy ===== *)
theory Tunnel_Model
  imports Net_Addr
begin

text \<open>
  Model of \<open>crates/reverse-tunnel/src/model.rs\<close>: the frames and configuration
  of the reverse tunnel, the bounded enumerations it reports, and the event
  counters of a client.  A counter array of the source is a list of words,
  updated at the index of its enumeration value.  The codecs are those of the
  serde derivations (\<open>rename_all = snake_case\<close>).
\<close>

section \<open>Frames and configuration\<close>

type_synonym socket_addr = SocketAddr

datatype ProxyProtocol = Mixed | Socks5 | Http

record TunnelHello =
  hello_node_id :: string
  hello_session_id :: uuid
  protocol_version :: "16 word"
  hello_auth_token :: string

record TunnelHeartbeat =
  heartbeat_node_id :: string
  heartbeat_session_id :: uuid
  heartbeat_sequence :: u64

datatype ClientFrame =
    Hello TunnelHello
  | Heartbeat TunnelHeartbeat
  | ProxyStream (ps_node_id: string) (ps_session_id: uuid) (ps_stream_id: uuid) (ps_auth_token: string)
  | ProxyReserve (pr_node_id: string) (pr_session_id: uuid) (pr_auth_token: string)

datatype ServerFrame =
    OpenProxy (op_stream_id: uuid) (op_protocol: ProxyProtocol)
  | ReserveKeepalive

datatype TunnelTransport =
    TransportTcp
  | TransportQuic string bytes "bytes option"
  | TransportHybrid string bytes "bytes option"

definition is_quic_first :: "TunnelTransport \<Rightarrow> bool" where
  "is_quic_first t = (case t of TransportTcp \<Rightarrow> False | TransportQuic _ _ _ \<Rightarrow> True | TransportHybrid _ _ _ \<Rightarrow> True)"

record TransportSocks5Config =
  socks5_server_addr :: socket_addr
  socks5_username :: string
  socks5_password :: string

record ReverseTunnelClientConfig =
  cfg_node_id :: string
  cfg_server_addr :: socket_addr
  cfg_tcp_fallback_addr :: "socket_addr option"
  cfg_local_proxy_addr :: socket_addr
  cfg_local_socks5_addr :: "socket_addr option"
  cfg_local_http_addr :: "socket_addr option"
  cfg_quic_enabled :: bool
  cfg_transport_socks5 :: "TransportSocks5Config option"
  cfg_auth_token :: string
  cfg_transport :: TunnelTransport
  cfg_connect_timeout :: nat
  cfg_heartbeat_interval :: nat
  cfg_reconnect_floor :: nat
  cfg_reconnect_ceiling :: nat

definition local_proxy_addr_for :: "ReverseTunnelClientConfig \<Rightarrow> ProxyProtocol \<Rightarrow> socket_addr" where
  "local_proxy_addr_for cfg protocol =
     (case protocol of
        Mixed \<Rightarrow> cfg_local_proxy_addr cfg
      | Socks5 \<Rightarrow> (case cfg_local_socks5_addr cfg of None \<Rightarrow> cfg_local_proxy_addr cfg | Some a \<Rightarrow> a)
      | Http \<Rightarrow> (case cfg_local_http_addr cfg of None \<Rightarrow> cfg_local_proxy_addr cfg | Some a \<Rightarrow> a))"

section \<open>Enumerations and their textual form\<close>

datatype TunnelActiveTransport = Tcp | Quic | TlsTcp

fun TunnelActiveTransport_as_str :: "TunnelActiveTransport \<Rightarrow> string" where
  "TunnelActiveTransport_as_str Tcp = ''tcp''"
| "TunnelActiveTransport_as_str Quic = ''quic''"
| "TunnelActiveTransport_as_str TlsTcp = ''tls_tcp''"

definition TunnelActiveTransport_deserialize :: "string \<Rightarrow> TunnelActiveTransport option" where
  "TunnelActiveTransport_deserialize s =
     (if s = ''tcp'' then Some Tcp else if s = ''quic'' then Some Quic
      else if s = ''tls_tcp'' then Some TlsTcp else None)"

fun transport_index :: "TunnelActiveTransport \<Rightarrow> nat" where
  "transport_index Tcp = 0"
| "transport_index Quic = 1"
| "transport_index TlsTcp = 2"

datatype TunnelFreshness = FreshnessUnknown | Fresh | Stale

fun TunnelFreshness_as_str :: "TunnelFreshness \<Rightarrow> string" where
  "TunnelFreshness_as_str FreshnessUnknown = ''unknown''"
| "TunnelFreshness_as_str Fresh = ''fresh''"
| "TunnelFreshness_as_str Stale = ''stale''"

definition TunnelFreshness_deserialize :: "string \<Rightarrow> TunnelFreshness option" where
  "TunnelFreshness_deserialize s =
     (if s = ''unknown'' then Some FreshnessUnknown else if s = ''fresh'' then Some Fresh
      else if s = ''stale'' then Some Stale else None)"

datatype TunnelFailoverReason =
  ConnectTimeout | ConnectFailed | AuthenticationFailed | FailoverSessionClosed | FailoverSessionError

fun TunnelFailoverReason_as_str :: "TunnelFailoverReason \<Rightarrow> string" where
  "TunnelFailoverReason_as_str ConnectTimeout = ''connect_timeout''"
| "TunnelFailoverReason_as_str ConnectFailed = ''connect_failed''"
| "TunnelFailoverReason_as_str AuthenticationFailed = ''authentication_failed''"
| "TunnelFailoverReason_as_str FailoverSessionClosed = ''session_closed''"
| "TunnelFailoverReason_as_str FailoverSessionError = ''session_error''"

definition TunnelFailoverReason_deserialize :: "string \<Rightarrow> TunnelFailoverReason option" where
  "TunnelFailoverReason_deserialize s =
     (if s = ''connect_timeout'' then Some ConnectTimeout
      else if s = ''connect_failed'' then Some ConnectFailed
      else if s = ''authentication_failed'' then Some AuthenticationFailed
      else if s = ''session_closed'' then Some FailoverSessionClosed
      else if s = ''session_error'' then Some FailoverSessionError else None)"

fun failover_index :: "TunnelFailoverReason \<Rightarrow> nat" where
  "failover_index ConnectTimeout = 0"
| "failover_index ConnectFailed = 1"
| "failover_index AuthenticationFailed = 2"
| "failover_index FailoverSessionClosed = 3"
| "failover_index FailoverSessionError = 4"

datatype TunnelDisconnectReason = Shutdown | DisconnectSessionClosed | DisconnectSessionError

fun TunnelDisconnectReason_as_str :: "TunnelDisconnectReason \<Rightarrow> string" where
  "TunnelDisconnectReason_as_str Shutdown = ''shutdown''"
| "TunnelDisconnectReason_as_str DisconnectSessionClosed = ''session_closed''"
| "TunnelDisconnectReason_as_str DisconnectSessionError = ''session_error''"

fun disconnect_index :: "TunnelDisconnectReason \<Rightarrow> nat" where
  "disconnect_index Shutdown = 0"
| "disconnect_index DisconnectSessionClosed = 1"
| "disconnect_index DisconnectSessionError = 2"

datatype TunnelTransportTransition =
    NoneToTcp | NoneToQuic | NoneToTlsTcp | TcpToQuic | TcpToTlsTcp
  | QuicToTcp | QuicToTlsTcp | TlsTcpToTcp | TlsTcpToQuic

fun transition_from_str :: "TunnelTransportTransition \<Rightarrow> string" where
  "transition_from_str NoneToTcp = ''none''"
| "transition_from_str NoneToQuic = ''none''"
| "transition_from_str NoneToTlsTcp = ''none''"
| "transition_from_str TcpToQuic = ''tcp''"
| "transition_from_str TcpToTlsTcp = ''tcp''"
| "transition_from_str QuicToTcp = ''quic''"
| "transition_from_str QuicToTlsTcp = ''quic''"
| "transition_from_str TlsTcpToTcp = ''tls_tcp''"
| "transition_from_str TlsTcpToQuic = ''tls_tcp''"

fun transition_to_str :: "TunnelTransportTransition \<Rightarrow> string" where
  "transition_to_str NoneToTcp = ''tcp''"
| "transition_to_str QuicToTcp = ''tcp''"
| "transition_to_str TlsTcpToTcp = ''tcp''"
| "transition_to_str NoneToQuic = ''quic''"
| "transition_to_str TcpToQuic = ''quic''"
| "transition_to_str TlsTcpToQuic = ''quic''"
| "transition_to_str NoneToTlsTcp = ''tls_tcp''"
| "transition_to_str TcpToTlsTcp = ''tls_tcp''"
| "transition_to_str QuicToTlsTcp = ''tls_tcp''"

fun transition_index :: "TunnelTransportTransition \<Rightarrow> nat" where
  "transition_index NoneToTcp = 0"
| "transition_index NoneToQuic = 1"
| "transition_index NoneToTlsTcp = 2"
| "transition_index TcpToQuic = 3"
| "transition_index TcpToTlsTcp = 4"
| "transition_index QuicToTcp = 5"
| "transition_index QuicToTlsTcp = 6"
| "transition_index TlsTcpToTcp = 7"
| "transition_index TlsTcpToQuic = 8"

fun transition_from_pair ::
  "TunnelActiveTransport option \<Rightarrow> TunnelActiveTransport \<Rightarrow> TunnelTransportTransition option" where
  "transition_from_pair None Tcp = Some NoneToTcp"
| "transition_from_pair None Quic = Some NoneToQuic"
| "transition_from_pair None TlsTcp = Some NoneToTlsTcp"
| "transition_from_pair (Some Tcp) Quic = Some TcpToQuic"
| "transition_from_pair (Some Tcp) TlsTcp = Some TcpToTlsTcp"
| "transition_from_pair (Some Quic) Tcp = Some QuicToTcp"
| "transition_from_pair (Some Quic) TlsTcp = Some QuicToTlsTcp"
| "transition_from_pair (Some TlsTcp) Tcp = Some TlsTcpToTcp"
| "transition_from_pair (Some TlsTcp) Quic = Some TlsTcpToQuic"
| "transition_from_pair _ _ = None"

section \<open>Event counters\<close>

record TunnelEventCounters =
  connection_counts :: "u64 list"
  transition_counts :: "u64 list"
  failover_counts :: "u64 list"
  disconnect_counts :: "u64 list"
  reconnect_attempts :: u64
  reconnect_successes :: u64
  ever_connected :: bool
  last_successful_transport :: "TunnelActiveTransport option"
  current_attempt_is_reconnect :: bool
  connection_recorded_in_attempt :: bool
  failover_recorded_in_attempt :: bool
  disconnect_recorded_in_attempt :: bool

definition TunnelEventCounters_default :: TunnelEventCounters where
  "TunnelEventCounters_default =
     \<lparr>connection_counts = replicate 3 0, transition_counts = replicate 9 0,
      failover_counts = replicate 5 0, disconnect_counts = replicate 3 0,
      reconnect_attempts = 0, reconnect_successes = 0, ever_connected = False,
      last_successful_transport = None, current_attempt_is_reconnect = False,
      connection_recorded_in_attempt = False, failover_recorded_in_attempt = False,
      disconnect_recorded_in_attempt = False\<rparr>"

definition increment :: "u64 \<Rightarrow> u64" where
  "increment v = saturating_add v 1"

definition increment_at :: "u64 list \<Rightarrow> nat \<Rightarrow> u64 list" where
  "increment_at xs i = xs[i := increment (xs ! i)]"

definition begin_attempt :: "TunnelEventCounters \<Rightarrow> TunnelEventCounters" where
  "begin_attempt c =
     (let c1 = c\<lparr>current_attempt_is_reconnect := ever_connected c,
                connection_recorded_in_attempt := False,
                failover_recorded_in_attempt := False,
                disconnect_recorded_in_attempt := False\<rparr> in
      if current_attempt_is_reconnect c1
      then c1\<lparr>reconnect_attempts := increment (reconnect_attempts c1)\<rparr> else c1)"

definition record_connection :: "TunnelActiveTransport \<Rightarrow> TunnelEventCounters \<Rightarrow> TunnelEventCounters" where
  "record_connection transport c =
     (if connection_recorded_in_attempt c then c
      else
        let c1 = c\<lparr>connection_counts := increment_at (connection_counts c) (transport_index transport)\<rparr>;
            c2 = (case transition_from_pair (last_successful_transport c1) transport of
                    None \<Rightarrow> c1
                  | Some tr \<Rightarrow> c1\<lparr>transition_counts := increment_at (transition_counts c1) (transition_index tr)\<rparr>);
            c3 = (if current_attempt_is_reconnect c2
                  then c2\<lparr>reconnect_successes := increment (reconnect_successes c2)\<rparr> else c2) in
        c3\<lparr>ever_connected := True, last_successful_transport := Some transport,
           connection_recorded_in_attempt := True\<rparr>)"

definition record_failover :: "TunnelFailoverReason \<Rightarrow> TunnelEventCounters \<Rightarrow> TunnelEventCounters" where
  "record_failover reason c =
     (if failover_recorded_in_attempt c then c
      else c\<lparr>failover_counts := increment_at (failover_counts c) (failover_index reason),
             failover_recorded_in_attempt := True\<rparr>)"

definition record_disconnect :: "TunnelDisconnectReason \<Rightarrow> TunnelEventCounters \<Rightarrow> TunnelEventCounters" where
  "record_disconnect reason c =
     (if \<not> connection_recorded_in_attempt c \<or> disconnect_recorded_in_attempt c then c
      else c\<lparr>disconnect_counts := increment_at (disconnect_counts c) (disconnect_index reason),
             disconnect_recorded_in_attempt := True\<rparr>)"

definition connection_count :: "TunnelEventCounters \<Rightarrow> TunnelActiveTransport \<Rightarrow> u64" where
  "connection_count c t = connection_counts c ! transport_index t"

definition transition_count :: "TunnelEventCounters \<Rightarrow> TunnelTransportTransition \<Rightarrow> u64" where
  "transition_count c t = transition_counts c ! transition_index t"

definition failover_count :: "TunnelEventCounters \<Rightarrow> TunnelFailoverReason \<Rightarrow> u64" where
  "failover_count c r = failover_counts c ! failover_index r"

definition disconnect_count :: "TunnelEventCounters \<Rightarrow> TunnelDisconnectReason \<Rightarrow> u64" where
  "disconnect_count c r = disconnect_counts c ! disconnect_index r"

definition same_persisted_state :: "TunnelEventCounters \<Rightarrow> TunnelEventCounters \<Rightarrow> bool" where
  "same_persisted_state a b =
     (connection_counts a = connection_counts b \<and> transition_counts a = transition_counts b
      \<and> failover_counts a = failover_counts b \<and> disconnect_counts a = disconnect_counts b
      \<and> reconnect_attempts a = reconnect_attempts b \<and> reconnect_successes a = reconnect_successes b
      \<and> ever_connected a = ever_connected b
      \<and> last_successful_transport a = last_successful_transport b)"

section \<open>Snapshots\<close>

record ClientSnapshot =
  snap_session_id :: uuid
  snap_connected :: bool
  snap_attempts :: u64
  snap_sent_heartbeats :: u64
  snap_last_error :: "string option"
  snap_active_transport :: "TunnelActiveTransport option"
  snap_freshness :: TunnelFreshness
  snap_last_failover_reason :: "TunnelFailoverReason option"
  snap_event_counters :: TunnelEventCounters

definition ClientSnapshot_with_event_counters :: "uuid \<Rightarrow> TunnelEventCounters \<Rightarrow> ClientSnapshot" where
  "ClientSnapshot_with_event_counters sid counters =
     \<lparr>snap_session_id = sid, snap_connected = False, snap_attempts = 0, snap_sent_heartbeats = 0,
      snap_last_error = None, snap_active_transport = None, snap_freshness = FreshnessUnknown,
      snap_last_failover_reason = None, snap_event_counters = counters\<rparr>"

record ServerSessionSnapshot =
  node_id :: string
  session_id :: uuid
  connected :: bool
  accepted_connections :: u64
  last_heartbeat_sequence :: "u64 option"

section \<open>Runs of counter events\<close>

datatype CounterEvent =
    BeginAttempt
  | Connected TunnelActiveTransport
  | FailedOver TunnelFailoverReason
  | Disconnected TunnelDisconnectReason

fun counter_step :: "TunnelEventCounters \<Rightarrow> CounterEvent \<Rightarrow> TunnelEventCounters" where
  "counter_step c BeginAttempt = begin_attempt c"
| "counter_step c (Connected t) = record_connection t c"
| "counter_step c (FailedOver r) = record_failover r c"
| "counter_step c (Disconnected r) = record_disconnect r c"

definition counter_run :: "CounterEvent list \<Rightarrow> TunnelEventCounters \<Rightarrow> TunnelEventCounters" where
  "counter_run es c = fold (\<lambda>e c. counter_step c e) es c"

definition counters_wf :: "TunnelEventCounters \<Rightarrow> bool" where
  "counters_wf c =
     (length (connection_counts c) = 3 \<and> length (transition_counts c) = 9
      \<and> length (failover_counts c) = 5 \<and> length (disconnect_counts c) = 3
      \<and> reconnect_successes c \<le> reconnect_attempts c
      \<and> (current_attempt_is_reconnect c \<and> \<not> connection_recorded_in_attempt c
          \<longrightarrow> reconnect_successes c < reconnect_attempts c \<or> reconnect_attempts c = - 1)
      \<and> (ever_connected c \<longleftrightarrow> last_successful_transport c \<noteq> None)
      \<and> (disconnect_recorded_in_attempt c \<longrightarrow> connection_recorded_in_attempt c))"

definition counts_le :: "u64 list \<Rightarrow> u64 list \<Rightarrow> bool" where
  "counts_le = list_all2 (\<le>)"

definition counters_le :: "TunnelEventCounters \<Rightarrow> TunnelEventCounters \<Rightarrow> bool" where
  "counters_le a b =
     (counts_le (connection_counts a) (connection_counts b)
      \<and> counts_le (transition_counts a) (transition_counts b)
      \<and> counts_le (failover_counts a) (failover_counts b)
      \<and> counts_le (disconnect_counts a) (disconnect_counts b)
      \<and> reconnect_attempts a \<le> reconnect_attempts b
      \<and> reconnect_successes a \<le> reconnect_successes b
      \<and> (ever_connected a \<longrightarrow> ever_connected b))"

definition total_count :: "u64 list \<Rightarrow> nat" where
  "total_count xs = sum_list (map unat xs)"

definition ALL_transitions :: "TunnelTransportTransition list" where
  "ALL_transitions = [NoneToTcp, NoneToQuic, NoneToTlsTcp, TcpToQuic, TcpToTlsTcp,
                      QuicToTcp, QuicToTlsTcp, TlsTcpToTcp, TlsTcpToQuic]"

definition inflow :: "TunnelEventCounters \<Rightarrow> string \<Rightarrow> nat" where
  "inflow c s = sum_list (map (\<lambda>tr. unat (transition_count c tr))
                           (filter (\<lambda>tr. transition_to_str tr = s) ALL_transitions))"

definition outflow :: "TunnelEventCounters \<Rightarrow> string \<Rightarrow> nat" where
  "outflow c s = sum_list (map (\<lambda>tr. unat (transition_count c tr))
                           (filter (\<lambda>tr. transition_from_str tr = s) ALL_transitions))"

section \<open>Codecs\<close>

interpretation transport_codec: text_codec TunnelActiveTransport_as_str TunnelActiveTransport_deserialize
proof
  show "TunnelActiveTransport_deserialize (TunnelActiveTransport_as_str x) = Some x" for x
    by (cases x) (simp_all add: TunnelActiveTransport_deserialize_def)
  show "TunnelActiveTransport_deserialize s = Some x \<Longrightarrow> TunnelActiveTransport_as_str x = s" for s x
    by (auto simp: TunnelActiveTransport_deserialize_def split: if_splits)
qed

interpretation freshness_codec: text_codec TunnelFreshness_as_str TunnelFreshness_deserialize
proof
  show "TunnelFreshness_deserialize (TunnelFreshness_as_str x) = Some x" for x
    by (cases x) (simp_all add: TunnelFreshness_deserialize_def)
  show "TunnelFreshness_deserialize s = Some x \<Longrightarrow> TunnelFreshness_as_str x = s" for s x
    by (auto simp: TunnelFreshness_deserialize_def split: if_splits)
qed

interpretation failover_codec: text_codec TunnelFailoverReason_as_str TunnelFailoverReason_deserialize
proof
  show "TunnelFailoverReason_deserialize (TunnelFailoverReason_as_str x) = Some x" for x
    by (cases x) (simp_all add: TunnelFailoverReason_deserialize_def)
  show "TunnelFailoverReason_deserialize s = Some x \<Longrightarrow> TunnelFailoverReason_as_str x = s" for s x
    by (auto simp: TunnelFailoverReason_deserialize_def split: if_splits)
qed

text \<open>The printed ends of a transition are those of the transports it was built from.\<close>

lemma transition_from_pair_strings:
  assumes "transition_from_pair from to = Some tr"
  shows "transition_to_str tr = TunnelActiveTransport_as_str to"
    and "transition_from_str tr = (case from of None \<Rightarrow> ''none'' | Some t \<Rightarrow> TunnelActiveTransport_as_str t)"
  using assms by (cases "(from, to)" rule: transition_from_pair.cases; simp)+

lemma transition_from_pair_None_iff: "transition_from_pair from to = None \<longleftrightarrow> from = Some to"
  by (cases "(from, to)" rule: transition_from_pair.cases) auto

section \<open>Single increments\<close>

lemma increment_mono: "v \<le> increment v"
  by (simp add: increment_def saturating_add_mono)

lemma increment_unat_le: "unat (increment v) \<le> Suc (unat v)"
  by (simp add: increment_def saturating_add_unat)

lemma increment_unat: "unat v < 2 ^ 64 - 1 \<Longrightarrow> unat (increment v) = Suc (unat v)"
  by (simp add: increment_def saturating_add_unat)

lemma increment_mono2: "a \<le> b \<Longrightarrow> increment a \<le> increment b"
  by (simp add: word_le_nat_alt increment_def saturating_add_unat)

lemma increment_less: "a < b \<or> b = - 1 \<Longrightarrow> increment a \<le> b"
proof (elim disjE)
  assume "a < b"
  then have "unat a < unat b" by (simp add: word_less_nat_alt)
  with increment_unat_le [of a] show ?thesis by (simp add: word_le_nat_alt)
qed simp

lemma less_increment: "a < increment b \<or> increment b = - 1" if "a \<le> b"
proof (cases "unat b < 2 ^ 64 - 1")
  case True
  with that show ?thesis by (simp add: word_less_nat_alt word_le_nat_alt increment_unat)
next
  case False
  with unat_less_2p64 [of b] have "unat b + unat (1::u64) \<ge> 2 ^ 64" by simp
  then show ?thesis by (simp add: increment_def saturating_add_def)
qed

lemma length_increment_at [simp]: "length (increment_at xs i) = length xs"
  by (simp add: increment_at_def)

lemma counts_le_refl [simp]: "counts_le xs xs"
  by (simp add: counts_le_def list_all2_conv_all_nth)

lemma counts_le_increment_at: "counts_le xs (increment_at xs i)"
proof (cases "i < length xs")
  case True
  then show ?thesis
    by (auto simp: counts_le_def list_all2_conv_all_nth increment_at_def nth_list_update increment_mono)
qed (simp add: increment_at_def list_update_beyond)

lemma counts_le_trans: "counts_le xs ys \<Longrightarrow> counts_le ys zs \<Longrightarrow> counts_le xs zs"
  unfolding counts_le_def by (rule list_all2_trans [where ?P1.0 = "(\<le>)"]) auto

lemma total_count_increment_at: "total_count (increment_at xs i) \<le> Suc (total_count xs)"
proof (cases "i < length xs")
  case True
  have "total_count (increment_at xs i) = total_count xs + unat (increment (xs ! i)) - unat (xs ! i)"
    using True by (simp add: total_count_def increment_at_def map_update sum_list_update)
  with increment_unat_le [of "xs ! i"] show ?thesis by linarith
qed (simp add: increment_at_def list_update_beyond)

lemmas counter_ops = begin_attempt_def record_connection_def record_failover_def record_disconnect_def Let_def

section \<open>Counters over a run\<close>

lemma counters_le_refl [simp]: "counters_le c c"
  by (simp add: counters_le_def)

lemma counters_le_trans: "counters_le a b \<Longrightarrow> counters_le b c \<Longrightarrow> counters_le a c"
  by (auto simp: counters_le_def intro: counts_le_trans)

lemma counter_step_mono: "counters_le c (counter_step c e)"
  by (cases e)
    (auto simp: counters_le_def counter_ops counts_le_increment_at increment_mono split: option.splits)

lemma counter_run_simps [simp]:
  "counter_run [] c = c"
  "counter_run (e # es) c = counter_run es (counter_step c e)"
  "counter_run (es @ [e]) c = counter_step (counter_run es c) e"
  by (simp_all add: counter_run_def)

lemma counters_wf_default: "counters_wf TunnelEventCounters_default"
  by (simp add: counters_wf_def TunnelEventCounters_default_def)

lemma counters_wf_begin: "counters_wf c \<Longrightarrow> counters_wf (begin_attempt c)"
  using less_increment [of "reconnect_successes c" "reconnect_attempts c"]
    increment_mono [of "reconnect_attempts c"]
  by (auto simp: counters_wf_def begin_attempt_def Let_def)

lemma counters_wf_connection: "counters_wf c \<Longrightarrow> counters_wf (record_connection t c)"
  by (auto simp: counters_wf_def record_connection_def Let_def increment_less split: option.splits)

lemma counters_wf_failover: "counters_wf c \<Longrightarrow> counters_wf (record_failover r c)"
  by (auto simp: counters_wf_def record_failover_def)

lemma counters_wf_disconnect: "counters_wf c \<Longrightarrow> counters_wf (record_disconnect r c)"
  by (auto simp: counters_wf_def record_disconnect_def)

interpretation counters: event_system "\<lambda>c. c = TunnelEventCounters_default" counter_step counters_wf
proof
  show "counters_wf (counter_step c e)" if "counters_wf c" for c e
    using that by (cases e)
      (simp_all add: counters_wf_begin counters_wf_connection counters_wf_failover counters_wf_disconnect)
qed (simp add: counters_wf_default)

lemma counter_run_wf: "counters_wf (counter_run es TunnelEventCounters_default)"
  unfolding counter_run_def by (rule counters.reach_inv) simp

text \<open>
  Within one attempt (no \<open>BeginAttempt\<close> among the events) each family of
  counters moves by at most one, and only when its flag is set.
\<close>

lemma attempt_step_bounds:
  assumes "e \<noteq> BeginAttempt"
  shows "total_count (connection_counts (counter_step c e)) + of_bool (connection_recorded_in_attempt c)
      \<le> total_count (connection_counts c) + of_bool (connection_recorded_in_attempt (counter_step c e))"
    and "total_count (failover_counts (counter_step c e)) + of_bool (failover_recorded_in_attempt c)
      \<le> total_count (failover_counts c) + of_bool (failover_recorded_in_attempt (counter_step c e))"
    and "total_count (disconnect_counts (counter_step c e)) + of_bool (disconnect_recorded_in_attempt c)
      \<le> total_count (disconnect_counts c) + of_bool (disconnect_recorded_in_attempt (counter_step c e))"
  using assms total_count_increment_at by (cases e; auto simp: counter_ops split: option.splits)+

lemma attempt_bounds:
  assumes "BeginAttempt \<notin> set es"
  shows "total_count (connection_counts (counter_run es c)) + of_bool (connection_recorded_in_attempt c)
      \<le> total_count (connection_counts c) + of_bool (connection_recorded_in_attempt (counter_run es c))"
    and "total_count (failover_counts (counter_run es c)) + of_bool (failover_recorded_in_attempt c)
      \<le> total_count (failover_counts c) + of_bool (failover_recorded_in_attempt (counter_run es c))"
    and "total_count (disconnect_counts (counter_run es c)) + of_bool (disconnect_recorded_in_attempt c)
      \<le> total_count (disconnect_counts c) + of_bool (disconnect_recorded_in_attempt (counter_run es c))"
  using assms
proof (induction es rule: rev_induct)
  case (snoc e es)
  { case 1 then show ?case using snoc attempt_step_bounds(1) [of e "counter_run es c"] by fastforce }
  { case 2 then show ?case using snoc attempt_step_bounds(2) [of e "counter_run es c"] by fastforce }
  { case 3 then show ?case using snoc attempt_step_bounds(3) [of e "counter_run es c"] by fastforce }
qed simp_all

section \<open>Conservation of transport transitions\<close>

definition flow_inv :: "nat \<Rightarrow> TunnelEventCounters \<Rightarrow> bool" where
  "flow_inv n c =
     (length (transition_counts c) = 9 \<and> list_all (\<lambda>w. unat w \<le> n) (transition_counts c)
      \<and> (\<forall>t. inflow c (TunnelActiveTransport_as_str t)
           = outflow c (TunnelActiveTransport_as_str t)
             + of_bool (last_successful_transport c = Some t))
      \<and> outflow c ''none'' = of_bool (last_successful_transport c \<noteq> None))"

lemma all_transports: "(\<forall>t. P t) \<longleftrightarrow> P Tcp \<and> P Quic \<and> P TlsTcp"
  by (metis TunnelActiveTransport.exhaust)

lemma flow_cong:
  "transition_counts c = transition_counts d \<Longrightarrow> inflow c = inflow d \<and> outflow c = outflow d"
  by (simp add: inflow_def outflow_def transition_count_def fun_eq_iff)

lemma flow_inv_mono: "flow_inv n c \<Longrightarrow> n \<le> m \<Longrightarrow> flow_inv m c"
  by (auto simp: flow_inv_def list_all_iff)

lemma length_9_cases:
  assumes "length xs = 9"
  obtains a b c d e f g h i where "xs = [a, b, c, d, e, f, g, h, i]"
  using assms by (auto simp: numeral_eq_Suc length_Suc_conv)

lemma flow_unfold:
  assumes "transition_counts c = [a0, a1, a2, a3, a4, a5, a6, a7, a8]"
  shows "inflow c ''tcp'' = unat a0 + unat a5 + unat a7"
    and "inflow c ''quic'' = unat a1 + unat a3 + unat a8"
    and "inflow c ''tls_tcp'' = unat a2 + unat a4 + unat a6"
    and "outflow c ''none'' = unat a0 + unat a1 + unat a2"
    and "outflow c ''tcp'' = unat a3 + unat a4"
    and "outflow c ''quic'' = unat a5 + unat a6"
    and "outflow c ''tls_tcp'' = unat a7 + unat a8"
  using assms by (simp_all add: inflow_def outflow_def ALL_transitions_def transition_count_def)

lemma flow_inv_connection:
  assumes "flow_inv n c" "n < 2 ^ 64 - 1"
  shows "flow_inv (Suc n) (record_connection t c)"
proof (cases "connection_recorded_in_attempt c")
  case True
  then show ?thesis using assms(1) flow_inv_mono by (simp add: record_connection_def)
next
  case False
  obtain a0 a1 a2 a3 a4 a5 a6 a7 a8 where
    ts: "transition_counts c = [a0, a1, a2, a3, a4, a5, a6, a7, a8]"
    using assms(1) by (auto simp: flow_inv_def elim: length_9_cases)
  let ?d = "record_connection t c"
  have last: "last_successful_transport ?d = Some t"
    using False by (simp add: record_connection_def Let_def split: option.splits)
  have inc: "unat (increment w) = Suc (unat w)" if "unat w \<le> n" for w
    using that assms(2) by (intro increment_unat) simp
  show ?thesis
  proof (cases "transition_from_pair (last_successful_transport c) t")
    case None
    then have "last_successful_transport c = Some t" by (simp add: transition_from_pair_None_iff)
    moreover have "transition_counts ?d = transition_counts c"
      using None False by (simp add: record_connection_def Let_def)
    ultimately show ?thesis
      using assms(1) last flow_cong [of ?d c] flow_inv_mono [of n c "Suc n"] by (simp add: flow_inv_def)
  next
    case (Some tr)
    then have ts': "transition_counts ?d = increment_at (transition_counts c) (transition_index tr)"
      using False by (simp add: record_connection_def Let_def)
    show ?thesis
      using assms(1) Some ts ts' last
      by (cases "(last_successful_transport c, t)" rule: transition_from_pair.cases)
        (auto simp: flow_inv_def all_transports flow_unfold increment_at_def inc)
  qed
qed

lemma flow_inv_step:
  assumes "flow_inv n c" "n < 2 ^ 64 - 1"
  shows "flow_inv (Suc n) (counter_step c e)"
proof (cases "\<exists>t. e = Connected t")
  case True
  then show ?thesis using flow_inv_connection [OF assms] by auto
next
  case False
  then have "transition_counts (counter_step c e) = transition_counts c
      \<and> last_successful_transport (counter_step c e) = last_successful_transport c"
    by (cases e) (auto simp: counter_ops)
  then show ?thesis
    using flow_cong [of "counter_step c e" c] flow_inv_mono [OF assms(1), of "Suc n"]
    by (simp add: flow_inv_def)
qed

lemma flow_inv_run:
  "length es < 2 ^ 64 \<Longrightarrow> flow_inv (length es) (counter_run es TunnelEventCounters_default)"
proof (induction es rule: rev_induct)
  case Nil
  show ?case
    by (simp add: flow_inv_def all_transports TunnelEventCounters_default_def inflow_def outflow_def
        ALL_transitions_def transition_count_def numeral_eq_Suc)
next
  case (snoc e es)
  then show ?case using flow_inv_step by simp
qed

section \<open>Properties of the counters\<close>

text \<open>
  Counters never decrease, whatever the sequence of events, and a run from
  the default counters never reports more successful reconnections than
  attempts, even at saturation.
\<close>

theorem counters_monotone_and_consistent:
  "counters_le (counter_run es c) (counter_run (es @ fs) c)
   \<and> reconnect_successes (counter_run es TunnelEventCounters_default)
       \<le> reconnect_attempts (counter_run es TunnelEventCounters_default)"
proof
  show "counters_le (counter_run es c) (counter_run (es @ fs) c)"
  proof (induction fs rule: rev_induct)
    case (snoc f fs)
    have "counter_run (es @ fs @ [f]) c = counter_step (counter_run (es @ fs) c) f"
      by (simp flip: append_assoc)
    then show ?case using snoc counter_step_mono counters_le_trans by metis
  qed simp
  show "reconnect_successes (counter_run es TunnelEventCounters_default)
       \<le> reconnect_attempts (counter_run es TunnelEventCounters_default)"
    using counter_run_wf [of es] by (simp add: counters_wf_def)
qed

text \<open>
  One attempt records at most one connection, one failover and one
  disconnect, however often its events are reported, and a disconnect only after
  a connection.
\<close>

theorem attempt_records_at_most_once:
  assumes "BeginAttempt \<notin> set es"
  shows "let b = begin_attempt c; d = counter_run es b in
     total_count (connection_counts d) \<le> total_count (connection_counts c) + 1
   \<and> total_count (failover_counts d) \<le> total_count (failover_counts c) + 1
   \<and> total_count (disconnect_counts d) \<le> total_count (disconnect_counts c) + 1
   \<and> (connection_recorded_in_attempt d \<or> disconnect_counts d = disconnect_counts c)"
proof -
  define d where "d = counter_run es (begin_attempt c)"
  have b: "connection_counts (begin_attempt c) = connection_counts c"
    "failover_counts (begin_attempt c) = failover_counts c"
    "disconnect_counts (begin_attempt c) = disconnect_counts c"
    "\<not> connection_recorded_in_attempt (begin_attempt c)"
    by (simp_all add: begin_attempt_def Let_def)
  have no_disconnect: "connection_recorded_in_attempt (counter_run fs (begin_attempt c))
      \<or> disconnect_counts (counter_run fs (begin_attempt c)) = disconnect_counts c"
    if "set fs \<subseteq> set es" for fs
    using that
  proof (induction fs rule: rev_induct)
    case Nil
    show ?case using b by simp
  next
    case (snoc f fs)
    then show ?case using assms by (cases f) (auto simp: counter_ops split: option.splits)
  qed
  have "total_count (connection_counts d) \<le> total_count (connection_counts c) + 1"
    "total_count (failover_counts d) \<le> total_count (failover_counts c) + 1"
    "total_count (disconnect_counts d) \<le> total_count (disconnect_counts c) + 1"
    using attempt_bounds [OF assms, of "begin_attempt c"] b unfolding d_def
    by (simp_all add: of_bool_def split: if_splits)
  then show ?thesis using no_disconnect [of es] by (auto simp: Let_def d_def)
qed

theorem attempt_records_at_most_once_witness:
  "total_count (connection_counts (counter_run [Connected Tcp, Connected Tcp, Disconnected Shutdown]
      (begin_attempt TunnelEventCounters_default)))
   \<le> total_count (connection_counts TunnelEventCounters_default) + 1"
  using attempt_records_at_most_once
    [of "[Connected Tcp, Connected Tcp, Disconnected Shutdown]" TunnelEventCounters_default]
  by (simp add: Let_def)

text \<open>
  The reported transition matrix is a path through the transports.  In any
  run from the default counters of fewer than 2^64 events, each transport was
  entered as often as it was left, plus one for the transport of the latest
  connection, and the empty start was left exactly once when anything connected.
\<close>

theorem transition_counts_form_a_path:
  assumes "length es < 2 ^ 64"
  shows "let c = counter_run es TunnelEventCounters_default in
     inflow c (TunnelActiveTransport_as_str t)
       = outflow c (TunnelActiveTransport_as_str t) + of_bool (last_successful_transport c = Some t)
   \<and> outflow c ''none'' = of_bool (ever_connected c)"
  using flow_inv_run [OF assms] counter_run_wf [of es] by (simp add: flow_inv_def counters_wf_def Let_def)

theorem transition_counts_form_a_path_witness:
  "inflow (counter_run [BeginAttempt, Connected Quic, BeginAttempt, Connected TlsTcp] TunnelEventCounters_default) ''tls_tcp''
   = outflow (counter_run [BeginAttempt, Connected Quic, BeginAttempt, Connected TlsTcp] TunnelEventCounters_default) ''tls_tcp'' + 1"
  using transition_counts_form_a_path
    [of "[BeginAttempt, Connected Quic, BeginAttempt, Connected TlsTcp]" TlsTcp]
  by (simp add: Let_def record_connection_def begin_attempt_def TunnelEventCounters_default_def)

end
