(* ===== verification/Tunnel_State.thy ===== *)
theory Tunnel_State
  imports Tunnel_Model "HOL-Library.AList" "HOL-Library.Char_ord" "HOL-Library.List_Lexorder"
begin

text \<open>
  Model of \<open>crates/reverse-tunnel/src/state.rs\<close>: the registry of tunnel sessions
  a relay keeps.  A hash map is an association list with distinct keys whose
  order stands for the unspecified iteration order.  Connections, control
  senders, streams and requesters are handles; what the network has done to them
  (closed connections, closed channels, broken streams, requesters that went
  away) is part of the state, in the fields \<open>quic_closed\<close>, \<open>sender_closed\<close>,
  \<open>stream_broken\<close> and \<open>requester_closed\<close>; frames written, streams delivered to
  requesters are recorded in \<open>control_out\<close>, \<open>stream_out\<close> and \<open>delivered\<close>.
  Instants and durations are milliseconds; the clock and generated UUIDs are
  arguments.  Every definition that the source runs while holding its locks is
  one atomic operation; the inductive relation \<open>server_step\<close> interleaves them.
\<close>

section \<open>Constants and data\<close>

type_synonym handle = nat
type_synonym instant = nat

definition TCP_PROXY_STREAM_TIMEOUT :: nat where "TCP_PROXY_STREAM_TIMEOUT = 12000"
definition MAX_PENDING_TCP_STREAMS :: nat where "MAX_PENDING_TCP_STREAMS = 256"
definition MAX_PENDING_TCP_STREAMS_PER_NODE :: nat where "MAX_PENDING_TCP_STREAMS_PER_NODE = 32"
definition MAX_RESERVED_TCP_STREAMS_PER_NODE :: nat where "MAX_RESERVED_TCP_STREAMS_PER_NODE = 32"
definition TCP_RESERVED_STREAM_WAIT_TIMEOUT :: nat where "TCP_RESERVED_STREAM_WAIT_TIMEOUT = 10000"
definition DEFAULT_SESSION_HEARTBEAT_TIMEOUT :: nat where "DEFAULT_SESSION_HEARTBEAT_TIMEOUT = 30000"

record SessionLiveness =
  live_session_id :: uuid
  live_authority_id :: uuid
  last_seen_at :: instant

record TcpControlChannel =
  control_session_id :: uuid
  control_authority_id :: uuid
  control_sender :: handle
  reserve_capable :: bool

record ReservedTcpStream =
  reserved_session_id :: uuid
  reserved_authority_id :: uuid
  reserved_stream :: handle

record 'a SessionBound =
  bound_session_id :: uuid
  bound_authority_id :: uuid
  bound_value :: 'a

datatype SessionAuthority = AuthorityQuic handle | AuthorityTcp handle

record ActiveSessionTarget =
  target_node_id :: string
  target_session_id :: uuid
  target_authority_id :: uuid

record PendingTcpProxyRequest =
  pending_stream_id :: uuid
  expected_node_id :: string
  expected_session_id :: uuid
  expected_authority_id :: uuid
  created_at :: instant
  pending_deadline :: instant
  response_sender :: handle

datatype TcpProxyStreamRejection =
  UnexpectedStreamId | NodeMismatch | SessionMismatch | SessionInactive | RequestExpired | RequesterClosed

record ServerState =
  sessions :: "(string \<times> ServerSessionSnapshot) list"
  connections :: "(string \<times> handle SessionBound) list"
  tcp_controls :: "(string \<times> TcpControlChannel) list"
  pending_tcp :: "(uuid \<times> PendingTcpProxyRequest) list"
  reserved_tcp :: "(string \<times> ReservedTcpStream list) list"
  session_liveness :: "(string \<times> SessionLiveness) list"
  heartbeat_timeout :: nat
  quic_closed :: "handle list"
  sender_closed :: "handle list"
  requester_closed :: "handle list"
  stream_broken :: "handle list"
  control_out :: "(handle \<times> ServerFrame) list"
  stream_out :: "(handle \<times> ServerFrame) list"
  delivered :: "(uuid \<times> handle) list"

definition ServerState_default :: ServerState where
  "ServerState_default =
     \<lparr>sessions = [], connections = [], tcp_controls = [], pending_tcp = [], reserved_tcp = [],
      session_liveness = [], heartbeat_timeout = DEFAULT_SESSION_HEARTBEAT_TIMEOUT,
      quic_closed = [], sender_closed = [], requester_closed = [], stream_broken = [],
      control_out = [], stream_out = [], delivered = []\<rparr>"

section \<open>Lookups\<close>

definition session_is_fresh ::
  "(string \<times> SessionLiveness) list \<Rightarrow> string \<Rightarrow> uuid \<Rightarrow> uuid \<Rightarrow> instant \<Rightarrow> nat \<Rightarrow> bool" where
  "session_is_fresh liveness node sid aid now timeout =
     (case map_of liveness node of
        None \<Rightarrow> False
      | Some entry \<Rightarrow> live_session_id entry = sid \<and> live_authority_id entry = aid
                       \<and> now - last_seen_at entry \<le> timeout)"

definition is_expired :: "PendingTcpProxyRequest \<Rightarrow> instant \<Rightarrow> bool" where
  "is_expired r now = (now \<ge> pending_deadline r)"

definition session_current :: "ServerState \<Rightarrow> string \<Rightarrow> uuid \<Rightarrow> bool" where
  "session_current s node sid =
     (case map_of (sessions s) node of
        None \<Rightarrow> False | Some session \<Rightarrow> connected session \<and> session_id session = sid)"

definition authority_current :: "ServerState \<Rightarrow> string \<Rightarrow> uuid \<Rightarrow> uuid \<Rightarrow> bool" where
  "authority_current s node sid aid =
     (case map_of (session_liveness s) node of
        None \<Rightarrow> False | Some entry \<Rightarrow> live_session_id entry = sid \<and> live_authority_id entry = aid)"

definition quic_bound :: "ServerState \<Rightarrow> string \<Rightarrow> uuid \<Rightarrow> uuid \<Rightarrow> handle option" where
  "quic_bound s node sid aid =
     (case map_of (connections s) node of
        None \<Rightarrow> None
      | Some c \<Rightarrow> if bound_session_id c = sid \<and> bound_authority_id c = aid then Some (bound_value c) else None)"

definition quic_active :: "ServerState \<Rightarrow> string \<Rightarrow> uuid \<Rightarrow> uuid \<Rightarrow> bool" where
  "quic_active s node sid aid =
     (case quic_bound s node sid aid of None \<Rightarrow> False | Some h \<Rightarrow> h \<notin> set (quic_closed s))"

definition quic_dead :: "ServerState \<Rightarrow> string \<Rightarrow> uuid \<Rightarrow> uuid \<Rightarrow> bool" where
  "quic_dead s node sid aid =
     (case quic_bound s node sid aid of None \<Rightarrow> False | Some h \<Rightarrow> h \<in> set (quic_closed s))"

definition tcp_active :: "ServerState \<Rightarrow> string \<Rightarrow> uuid \<Rightarrow> uuid \<Rightarrow> bool" where
  "tcp_active s node sid aid =
     (case map_of (tcp_controls s) node of
        None \<Rightarrow> False
      | Some c \<Rightarrow> control_session_id c = sid \<and> control_authority_id c = aid
                   \<and> control_sender c \<notin> set (sender_closed s))"

section \<open>Authority changes\<close>

definition close_quic :: "handle \<Rightarrow> ServerState \<Rightarrow> ServerState" where
  "close_quic h s = s\<lparr>quic_closed := h # quic_closed s\<rparr>"

definition remove_session_bound ::
  "(string \<times> 'a SessionBound) list \<Rightarrow> string \<Rightarrow> uuid \<Rightarrow> uuid
     \<Rightarrow> 'a SessionBound option \<times> (string \<times> 'a SessionBound) list" where
  "remove_session_bound entries node sid aid =
     (case map_of entries node of
        None \<Rightarrow> (None, entries)
      | Some e \<Rightarrow>
          if bound_session_id e = sid \<and> bound_authority_id e = aid
          then (Some e, AList.delete node entries) else (None, entries))"

definition replace_session_authority ::
  "string \<Rightarrow> uuid \<Rightarrow> SessionAuthority \<Rightarrow> uuid \<Rightarrow> instant \<Rightarrow> ServerState \<Rightarrow> uuid \<times> ServerState" where
  "replace_session_authority node sid authority aid now s =
     (let previous_session = map_option session_id (map_of (sessions s) node);
          previous_authority = map_option live_authority_id (map_of (session_liveness s) node);
          accepted = (case map_of (sessions s) node of
                        None \<Rightarrow> 1 | Some existing \<Rightarrow> saturating_add (accepted_connections existing) 1);
          pending' = (case previous_session of
                        None \<Rightarrow> pending_tcp s
                      | Some previous \<Rightarrow>
                          filter (\<lambda>(_, r).
                            if expected_node_id r \<noteq> node \<or> expected_session_id r \<noteq> previous then True
                            else (case previous_authority of
                                    None \<Rightarrow> False | Some a \<Rightarrow> expected_authority_id r \<noteq> a))
                            (pending_tcp s));
          displaced = map_of (connections s) node;
          s1 = s\<lparr>pending_tcp := pending',
                 connections := AList.delete node (connections s),
                 tcp_controls := AList.delete node (tcp_controls s),
                 reserved_tcp := AList.delete node (reserved_tcp s),
                 sessions := AList.update node
                   \<lparr>node_id = node, session_id = sid, connected = True,
                    accepted_connections = accepted, last_heartbeat_sequence = None\<rparr> (sessions s),
                 session_liveness := AList.update node
                   \<lparr>live_session_id = sid, live_authority_id = aid, last_seen_at = now\<rparr>
                   (AList.delete node (session_liveness s))\<rparr>;
          s2 = (case authority of
                  AuthorityQuic c \<Rightarrow>
                    s1\<lparr>connections := AList.update node
                         \<lparr>bound_session_id = sid, bound_authority_id = aid, bound_value = c\<rparr> (connections s1)\<rparr>
                | AuthorityTcp sender \<Rightarrow>
                    s1\<lparr>tcp_controls := AList.update node
                         \<lparr>control_session_id = sid, control_authority_id = aid, control_sender = sender,
                          reserve_capable = False\<rparr> (tcp_controls s1)\<rparr>);
          s3 = (case displaced of None \<Rightarrow> s2 | Some c \<Rightarrow> close_quic (bound_value c) s2) in
      (aid, s3))"

definition disconnect_session_authority ::
  "string \<Rightarrow> uuid \<Rightarrow> uuid \<Rightarrow> ServerState \<Rightarrow> bool \<times> ServerState" where
  "disconnect_session_authority node sid aid s =
     (if \<not> session_current s node sid \<or> \<not> authority_current s node sid aid then (False, s)
      else
        let (removed, connections') = remove_session_bound (connections s) node sid aid;
            s1 = s\<lparr>sessions := (case map_of (sessions s) node of
                                 None \<Rightarrow> sessions s
                               | Some session \<Rightarrow> AList.update node (session\<lparr>connected := False\<rparr>) (sessions s)),
                   session_liveness := AList.delete node (session_liveness s),
                   connections := connections',
                   tcp_controls := (case map_of (tcp_controls s) node of
                                      None \<Rightarrow> tcp_controls s
                                    | Some c \<Rightarrow>
                                        if control_session_id c = sid \<and> control_authority_id c = aid
                                        then AList.delete node (tcp_controls s) else tcp_controls s),
                   reserved_tcp := AList.delete node (reserved_tcp s),
                   pending_tcp := filter (\<lambda>(_, r). expected_node_id r \<noteq> node
                                     \<or> expected_session_id r \<noteq> sid \<or> expected_authority_id r \<noteq> aid)
                                   (pending_tcp s)\<rparr> in
        (True, case removed of None \<Rightarrow> s1 | Some c \<Rightarrow> close_quic (bound_value c) s1))"

definition expire_session :: "string \<Rightarrow> uuid \<Rightarrow> uuid \<Rightarrow> ServerState \<Rightarrow> ServerState" where
  "expire_session node sid aid s = snd (disconnect_session_authority node sid aid s)"

definition remove_quic_connection_for_authority ::
  "string \<Rightarrow> uuid \<Rightarrow> uuid \<Rightarrow> ServerState \<Rightarrow> ServerState" where
  "remove_quic_connection_for_authority node sid aid s =
     (case remove_session_bound (connections s) node sid aid of
        (None, entries) \<Rightarrow> s\<lparr>connections := entries\<rparr>
      | (Some c, entries) \<Rightarrow> close_quic (bound_value c) (s\<lparr>connections := entries\<rparr>))"

definition remove_tcp_control_for_authority ::
  "string \<Rightarrow> uuid \<Rightarrow> uuid \<Rightarrow> ServerState \<Rightarrow> ServerState" where
  "remove_tcp_control_for_authority node sid aid s =
     (case map_of (tcp_controls s) node of
        None \<Rightarrow> s
      | Some c \<Rightarrow>
          if control_session_id c = sid \<and> control_authority_id c = aid
          then s\<lparr>tcp_controls := AList.delete node (tcp_controls s),
                 reserved_tcp := AList.delete node (reserved_tcp s)\<rparr>
          else s)"

definition cancel_pending_for_authority ::
  "string \<Rightarrow> uuid \<Rightarrow> uuid \<Rightarrow> ServerState \<Rightarrow> ServerState" where
  "cancel_pending_for_authority node sid aid s =
     s\<lparr>pending_tcp := filter (\<lambda>(_, r). expected_node_id r \<noteq> node
          \<or> expected_session_id r \<noteq> sid \<or> expected_authority_id r \<noteq> aid) (pending_tcp s)\<rparr>"

definition refresh_session_heartbeat_for_authority ::
  "string \<Rightarrow> uuid \<Rightarrow> uuid \<Rightarrow> instant \<Rightarrow> ServerState \<Rightarrow> bool \<times> ServerState" where
  "refresh_session_heartbeat_for_authority node sid aid now s =
     (if \<not> session_current s node sid then (False, s)
      else if \<not> quic_active s node sid aid \<and> \<not> tcp_active s node sid aid then (False, s)
      else
        (case map_of (session_liveness s) node of
           None \<Rightarrow> (False, s)
         | Some entry \<Rightarrow>
             if live_session_id entry = sid \<and> live_authority_id entry = aid
             then (True, s\<lparr>session_liveness :=
                      AList.update node (entry\<lparr>last_seen_at := now\<rparr>) (session_liveness s)\<rparr>)
             else (False, s)))"

definition remove_session_liveness :: "string \<Rightarrow> uuid \<Rightarrow> ServerState \<Rightarrow> ServerState" where
  "remove_session_liveness node sid s =
     (case map_of (session_liveness s) node of
        None \<Rightarrow> s
      | Some entry \<Rightarrow>
          if live_session_id entry = sid
          then s\<lparr>session_liveness := AList.delete node (session_liveness s)\<rparr> else s)"

section \<open>Selecting a session\<close>

type_synonym authority_ref = "string \<times> uuid \<times> uuid"

record SelectScan =
  scan_inactive :: "authority_ref list"
  scan_closed :: "authority_ref list"
  scan_candidates :: "ActiveSessionTarget list"

definition scan_session ::
  "ServerState \<Rightarrow> string option \<Rightarrow> instant \<Rightarrow> ServerSessionSnapshot \<Rightarrow> SelectScan \<Rightarrow> SelectScan" where
  "scan_session s wanted now session acc =
     (let node = node_id session; sid = session_id session in
      if \<not> connected session \<or> (case wanted of None \<Rightarrow> False | Some expected \<Rightarrow> node \<noteq> expected) then acc
      else
        (case map_of (session_liveness s) node of
           None \<Rightarrow> acc
         | Some live \<Rightarrow>
             let aid = live_authority_id live in
             if \<not> (live_session_id live = sid \<and> now - last_seen_at live \<le> heartbeat_timeout s)
             then acc\<lparr>scan_inactive := scan_inactive acc @ [(node, live_session_id live, aid)]\<rparr>
             else
               let acc1 = (if quic_dead s node sid aid
                           then acc\<lparr>scan_closed := scan_closed acc @ [(node, sid, aid)]\<rparr> else acc) in
               if quic_active s node sid aid \<or> tcp_active s node sid aid
               then acc1\<lparr>scan_candidates := scan_candidates acc1 @
                      [\<lparr>target_node_id = node, target_session_id = sid, target_authority_id = aid\<rparr>]\<rparr>
               else acc1\<lparr>scan_inactive := scan_inactive acc1 @ [(node, sid, aid)]\<rparr>))"

definition scan_sessions :: "ServerState \<Rightarrow> string option \<Rightarrow> instant \<Rightarrow> SelectScan" where
  "scan_sessions s wanted now =
     fold (\<lambda>(_, session) acc. scan_session s wanted now session acc) (sessions s)
       \<lparr>scan_inactive = [], scan_closed = [], scan_candidates = []\<rparr>"

definition pick_candidate :: "string option \<Rightarrow> ActiveSessionTarget list \<Rightarrow> ActiveSessionTarget option" where
  "pick_candidate wanted candidates =
     (case candidates of
        [] \<Rightarrow> None
      | first # rest \<Rightarrow> (if wanted \<noteq> None \<or> rest = [] then Some first else None))"

definition remove_all_closed :: "authority_ref list \<Rightarrow> ServerState \<Rightarrow> ServerState" where
  "remove_all_closed refs s = fold (\<lambda>(n, sid, aid). remove_quic_connection_for_authority n sid aid) refs s"

definition expire_all :: "authority_ref list \<Rightarrow> ServerState \<Rightarrow> ServerState" where
  "expire_all refs s = fold (\<lambda>(n, sid, aid). expire_session n sid aid) refs s"

definition select_active_target ::
  "string option \<Rightarrow> instant \<Rightarrow> ServerState \<Rightarrow> ActiveSessionTarget option \<times> ServerState" where
  "select_active_target wanted now s =
     (let scan = scan_sessions s wanted now in
      (pick_candidate wanted (scan_candidates scan),
       expire_all (scan_inactive scan) (remove_all_closed (scan_closed scan) s)))"

definition has_active_session :: "string option \<Rightarrow> instant \<Rightarrow> ServerState \<Rightarrow> bool \<times> ServerState" where
  "has_active_session wanted now s =
     (case select_active_target wanted now s of (t, s') \<Rightarrow> (t \<noteq> None, s'))"

definition select_tcp_control_for_target ::
  "ActiveSessionTarget \<Rightarrow> instant \<Rightarrow> ServerState \<Rightarrow> handle option \<times> ServerState" where
  "select_tcp_control_for_target t now s =
     (let node = target_node_id t; sid = target_session_id t; aid = target_authority_id t;
          current = session_current s node sid;
          fresh = current \<and> session_is_fresh (session_liveness s) node sid aid now (heartbeat_timeout s);
          selected = (if \<not> fresh then None
                      else (case map_of (tcp_controls s) node of
                              None \<Rightarrow> None
                            | Some c \<Rightarrow>
                                if control_session_id c = sid \<and> control_authority_id c = aid
                                   \<and> control_sender c \<notin> set (sender_closed s)
                                then Some (control_sender c) else None)) in
      (selected, if current \<and> \<not> fresh then expire_session node sid aid s else s))"

definition active_connection_for_target ::
  "ActiveSessionTarget \<Rightarrow> instant \<Rightarrow> ServerState \<Rightarrow> handle option \<times> ServerState" where
  "active_connection_for_target t now s =
     (let node = target_node_id t; sid = target_session_id t; aid = target_authority_id t;
          current = session_current s node sid;
          fresh = current \<and> session_is_fresh (session_liveness s) node sid aid now (heartbeat_timeout s);
          connection = (if fresh \<and> quic_active s node sid aid then quic_bound s node sid aid else None);
          closed = quic_dead s node sid aid;
          tcp = tcp_active s node sid aid;
          s1 = (if closed then remove_quic_connection_for_authority node sid aid s else s);
          s2 = (if current \<and> (\<not> fresh \<or> (connection = None \<and> \<not> tcp))
                then expire_session node sid aid s1 else s1) in
      (connection, s2))"

definition active_connection :: "string option \<Rightarrow> instant \<Rightarrow> ServerState \<Rightarrow> handle option \<times> ServerState" where
  "active_connection wanted now s =
     (case select_active_target wanted now s of
        (None, s1) \<Rightarrow> (None, s1)
      | (Some t, s1) \<Rightarrow> active_connection_for_target t now s1)"

definition snapshot :: "ServerState \<Rightarrow> ServerSessionSnapshot list" where
  "snapshot s = sort_key node_id (map snd (sessions s))"

section \<open>Reserved streams\<close>

definition target_supports_reserved_tcp :: "ActiveSessionTarget \<Rightarrow> ServerState \<Rightarrow> bool" where
  "target_supports_reserved_tcp t s =
     (case map_of (tcp_controls s) (target_node_id t) of
        None \<Rightarrow> False
      | Some c \<Rightarrow> control_session_id c = target_session_id t
                   \<and> control_authority_id c = target_authority_id t \<and> reserve_capable c)"

text \<open>\<open>pop\<close> takes the most recently pushed stream: the loop runs over the reversed vector.\<close>

fun pop_matching ::
  "uuid \<Rightarrow> uuid \<Rightarrow> ReservedTcpStream list \<Rightarrow> (handle \<times> ReservedTcpStream list) option" where
  "pop_matching sid aid [] = None"
| "pop_matching sid aid (r # rs) =
     (if reserved_session_id r = sid \<and> reserved_authority_id r = aid
      then Some (reserved_stream r, rs) else pop_matching sid aid rs)"

definition take_reserved_tcp_stream :: "ActiveSessionTarget \<Rightarrow> ServerState \<Rightarrow> handle option \<times> ServerState" where
  "take_reserved_tcp_stream t s =
     (case map_of (reserved_tcp s) (target_node_id t) of
        None \<Rightarrow> (None, s)
      | Some streams \<Rightarrow>
          (case pop_matching (target_session_id t) (target_authority_id t) (rev streams) of
             None \<Rightarrow> (None, s\<lparr>reserved_tcp := AList.delete (target_node_id t) (reserved_tcp s)\<rparr>)
           | Some (h, rest) \<Rightarrow>
               (Some h, s\<lparr>reserved_tcp := AList.update (target_node_id t) (rev rest) (reserved_tcp s)\<rparr>)))"

datatype ReserveError = ReserveSessionInactive | ReserveAuthorityInactive | ReserveControlInactive | ReserveCapacity

definition register_reserved_authorize ::
  "string \<Rightarrow> uuid \<Rightarrow> ServerState \<Rightarrow> (ReserveError + uuid) \<times> ServerState" where
  "register_reserved_authorize node sid s =
     (if \<not> session_current s node sid then (Inl ReserveSessionInactive, s)
      else
        (case map_of (session_liveness s) node of
           None \<Rightarrow> (Inl ReserveAuthorityInactive, s)
         | Some live \<Rightarrow>
             if live_session_id live \<noteq> sid then (Inl ReserveAuthorityInactive, s)
             else
               (case map_of (tcp_controls s) node of
                  None \<Rightarrow> (Inl ReserveControlInactive, s)
                | Some c \<Rightarrow>
                    if control_session_id c = sid \<and> control_authority_id c = live_authority_id live
                       \<and> control_sender c \<notin> set (sender_closed s)
                    then (Inr (live_authority_id live),
                          s\<lparr>tcp_controls := AList.update node (c\<lparr>reserve_capable := True\<rparr>) (tcp_controls s)\<rparr>)
                    else (Inl ReserveControlInactive, s))))"

definition register_reserved_push ::
  "string \<Rightarrow> uuid \<Rightarrow> uuid \<Rightarrow> handle \<Rightarrow> ServerState \<Rightarrow> (ReserveError + unit) \<times> ServerState" where
  "register_reserved_push node sid aid stream s =
     (let streams = (case map_of (reserved_tcp s) node of None \<Rightarrow> [] | Some streams \<Rightarrow> streams) in
      if length streams \<ge> MAX_RESERVED_TCP_STREAMS_PER_NODE
      then (Inl ReserveCapacity, s)
      else (Inr (), s\<lparr>reserved_tcp := AList.update node
              (streams @ [\<lparr>reserved_session_id = sid, reserved_authority_id = aid, reserved_stream = stream\<rparr>])
              (reserved_tcp s)\<rparr>))"

text \<open>The two critical sections of the registration, with what other tasks do between them.\<close>

definition register_reserved_tcp_stream ::
  "(ServerState \<Rightarrow> ServerState) \<Rightarrow> string \<Rightarrow> uuid \<Rightarrow> handle \<Rightarrow> ServerState \<Rightarrow> (ReserveError + unit) \<times> ServerState" where
  "register_reserved_tcp_stream between node sid stream s =
     (case register_reserved_authorize node sid s of
        (Inl e, s1) \<Rightarrow> (Inl e, s1)
      | (Inr aid, s1) \<Rightarrow> register_reserved_push node sid aid stream (between s1))"

definition write_server_frame :: "handle \<Rightarrow> ServerFrame \<Rightarrow> ServerState \<Rightarrow> bool \<times> ServerState" where
  "write_server_frame stream frame s =
     (if stream \<in> set (stream_broken s) then (False, s)
      else (True, s\<lparr>stream_out := stream_out s @ [(stream, frame)]\<rparr>))"

fun keepalive_streams :: "ReservedTcpStream list \<Rightarrow> ServerState \<Rightarrow> ReservedTcpStream list \<times> ServerState" where
  "keepalive_streams [] s = ([], s)"
| "keepalive_streams (r # rs) s =
     (case write_server_frame (reserved_stream r) ReserveKeepalive s of
        (ok, s1) \<Rightarrow>
          (case keepalive_streams rs s1 of
             (healthy, s2) \<Rightarrow> (if ok then r # healthy else healthy, s2)))"

fun keepalive_nodes ::
  "(string \<times> ReservedTcpStream list) list \<Rightarrow> ServerState
     \<Rightarrow> nat \<times> (string \<times> ReservedTcpStream list) list \<times> ServerState" where
  "keepalive_nodes [] s = (0, [], s)"
| "keepalive_nodes ((node, streams) # entries) s =
     (case keepalive_streams streams s of
        (healthy, s1) \<Rightarrow>
          (case keepalive_nodes entries s1 of
             (n, entries', s2) \<Rightarrow> (length healthy + n, (node, healthy) # entries', s2)))"

definition keepalive_reserved_tcp_streams :: "ServerState \<Rightarrow> nat \<times> ServerState" where
  "keepalive_reserved_tcp_streams s =
     (case keepalive_nodes (reserved_tcp s) s of
        (n, entries, s1) \<Rightarrow> (n, s1\<lparr>reserved_tcp := filter (\<lambda>(_, streams). streams \<noteq> []) entries\<rparr>))"

section \<open>Opening a proxied stream\<close>

datatype OpenError =
    NoActiveControl | PendingCapacity | PendingNodeCapacity | ControlSendTimedOut | ControlClosed
  | StreamTimedOut | StreamCancelled

text \<open>
  The inner loop: take a reserved stream and write the open request on it until
  a write succeeds or no stream is left.  Each round removes at least one stream.
\<close>

function take_writable_reserved ::
  "ActiveSessionTarget \<Rightarrow> (nat \<Rightarrow> uuid) \<Rightarrow> ProxyProtocol \<Rightarrow> ServerState \<Rightarrow> handle option \<times> ServerState" where
  "take_writable_reserved t ids protocol s =
     (case take_reserved_tcp_stream t s of
        (None, s1) \<Rightarrow> (None, s1)
      | (Some h, s1) \<Rightarrow>
          (case write_server_frame h (OpenProxy (ids 0) protocol) s1 of
             (True, s2) \<Rightarrow> (Some h, s2)
           | (False, s2) \<Rightarrow> take_writable_reserved t (\<lambda>n. ids (Suc n)) protocol s2))"
  by pat_completeness auto

definition reserved_length :: "string \<Rightarrow> ServerState \<Rightarrow> nat" where
  "reserved_length node s = (case map_of (reserved_tcp s) node of None \<Rightarrow> 0 | Some xs \<Rightarrow> length xs)"

lemma pop_matching_shorter: "pop_matching sid aid xs = Some (h, rest) \<Longrightarrow> length rest < length xs"
  by (induction xs) (auto split: if_splits)

lemma take_reserved_decreases:
  "take_reserved_tcp_stream t s = (Some h, s1) \<Longrightarrow>
     reserved_length (target_node_id t) s1 < reserved_length (target_node_id t) s"
  by (auto simp: take_reserved_tcp_stream_def reserved_length_def update_conv'
      dest!: pop_matching_shorter split: option.splits)

lemma write_server_frame_reserved [simp]:
  "write_server_frame h f s = (ok, s') \<Longrightarrow> reserved_tcp s' = reserved_tcp s"
  by (auto simp: write_server_frame_def split: if_splits)

lemma reserved_length_write:
  "write_server_frame h f s = (ok, s') \<Longrightarrow> reserved_length node s' = reserved_length node s"
  by (simp add: reserved_length_def)

termination take_writable_reserved
  by (relation "measure (\<lambda>(t, ids, protocol, s). reserved_length (target_node_id t) s)")
    (auto dest!: sym [of "(Some _, _)"] sym [of "(False, _)"] take_reserved_decreases simp: reserved_length_write)

declare take_writable_reserved.simps [simp del]

text \<open>
  The outer loop: after an unsuccessful round the task sleeps until it is
  notified or the reserve deadline passes.  \<open>wakes\<close> lists, per notification
  before the deadline, what the other tasks have done to the state meanwhile.
\<close>

fun reserve_rounds ::
  "ActiveSessionTarget \<Rightarrow> (nat \<Rightarrow> nat \<Rightarrow> uuid) \<Rightarrow> ProxyProtocol \<Rightarrow> (ServerState \<Rightarrow> ServerState) list
     \<Rightarrow> ServerState \<Rightarrow> handle option \<times> ServerState" where
  "reserve_rounds t ids protocol [] s = take_writable_reserved t (ids 0) protocol s"
| "reserve_rounds t ids protocol (w # ws) s =
     (case take_writable_reserved t (ids 0) protocol s of
        (Some h, s1) \<Rightarrow> (Some h, s1)
      | (None, s1) \<Rightarrow> reserve_rounds t (\<lambda>n. ids (Suc n)) protocol ws (w s1))"

definition insert_pending ::
  "ActiveSessionTarget \<Rightarrow> uuid \<Rightarrow> instant \<Rightarrow> nat \<Rightarrow> handle \<Rightarrow> ServerState \<Rightarrow> (OpenError + unit) \<times> ServerState" where
  "insert_pending t stream_id now wait requester s =
     (if length (pending_tcp s) \<ge> MAX_PENDING_TCP_STREAMS then (Inl PendingCapacity, s)
      else if length (filter (\<lambda>(_, r). expected_node_id r = target_node_id t) (pending_tcp s))
                \<ge> MAX_PENDING_TCP_STREAMS_PER_NODE
        then (Inl PendingNodeCapacity, s)
      else (Inr (), s\<lparr>pending_tcp := AList.update stream_id
              \<lparr>pending_stream_id = stream_id, expected_node_id = target_node_id t,
               expected_session_id = target_session_id t, expected_authority_id = target_authority_id t,
               created_at = now, pending_deadline = now + wait, response_sender = requester\<rparr>
              (pending_tcp s)\<rparr>))"

definition drop_pending :: "uuid \<Rightarrow> ServerState \<Rightarrow> ServerState" where
  "drop_pending stream_id s = s\<lparr>pending_tcp := AList.delete stream_id (pending_tcp s)\<rparr>"

definition control_send :: "handle \<Rightarrow> ServerFrame \<Rightarrow> ServerState \<Rightarrow> ServerState" where
  "control_send sender frame s = s\<lparr>control_out := control_out s @ [(sender, frame)]\<rparr>"

text \<open>
  What the environment contributes to one call: clock readings, generated ids,
  the requester's channel, whether the control send outlives the deadline, and
  what other tasks do at the suspension points.
\<close>

record OpenEnv =
  env_wakes :: "(ServerState \<Rightarrow> ServerState) list"
  env_reserve_ids :: "nat \<Rightarrow> nat \<Rightarrow> uuid"
  env_stream_id :: uuid
  env_requester :: handle
  env_now_select :: instant
  env_now_insert :: instant
  env_send_times_out :: bool
  env_during_send :: "ServerState \<Rightarrow> ServerState"
  env_during_wait :: "ServerState \<Rightarrow> ServerState"

definition await_response :: "uuid \<Rightarrow> ServerState \<Rightarrow> OpenError + handle" where
  "await_response stream_id s =
     (case map_of (delivered s) stream_id of
        Some h \<Rightarrow> Inr h
      | None \<Rightarrow> (if map_of (pending_tcp s) stream_id = None then Inl StreamCancelled else Inl StreamTimedOut))"

definition open_pending_stream ::
  "OpenEnv \<Rightarrow> ActiveSessionTarget \<Rightarrow> ProxyProtocol \<Rightarrow> nat \<Rightarrow> handle \<Rightarrow> ServerState
     \<Rightarrow> (OpenError + handle) \<times> ServerState" where
  "open_pending_stream env t protocol wait control s =
     (let sid = env_stream_id env in
      case insert_pending t sid (env_now_insert env) wait (env_requester env) s of
        (Inl e, s1) \<Rightarrow> (Inl e, s1)
      | (Inr _, s1) \<Rightarrow>
          let s2 = env_during_send env s1 in
          if env_send_times_out env then (Inl ControlSendTimedOut, drop_pending sid s2)
          else if control \<in> set (sender_closed s2)
            then (Inl ControlClosed,
                  drop_pending sid
                    (cancel_pending_for_authority (target_node_id t) (target_session_id t) (target_authority_id t)
                      (remove_tcp_control_for_authority (target_node_id t) (target_session_id t)
                        (target_authority_id t) s2)))
          else
            let s3 = env_during_wait env (control_send control (OpenProxy sid protocol) s2) in
            (await_response sid s3, drop_pending sid s3))"

definition open_tcp_proxy_for_target_with_timeout ::
  "OpenEnv \<Rightarrow> ActiveSessionTarget \<Rightarrow> ProxyProtocol \<Rightarrow> nat \<Rightarrow> ServerState \<Rightarrow> (OpenError + handle) \<times> ServerState" where
  "open_tcp_proxy_for_target_with_timeout env t protocol wait s =
     (case (if target_supports_reserved_tcp t s
            then reserve_rounds t (env_reserve_ids env) protocol (env_wakes env) s else (None, s)) of
        (Some h, s1) \<Rightarrow> (Inr h, s1)
      | (None, s1) \<Rightarrow>
          (case select_tcp_control_for_target t (env_now_select env) s1 of
             (None, s2) \<Rightarrow> (Inl NoActiveControl, s2)
           | (Some control, s2) \<Rightarrow> open_pending_stream env t protocol wait control s2))"

definition open_tcp_proxy_for_target ::
  "OpenEnv \<Rightarrow> ActiveSessionTarget \<Rightarrow> ProxyProtocol \<Rightarrow> ServerState \<Rightarrow> (OpenError + handle) \<times> ServerState" where
  "open_tcp_proxy_for_target env t protocol s =
     open_tcp_proxy_for_target_with_timeout env t protocol TCP_PROXY_STREAM_TIMEOUT s"

section \<open>Accepting a proxied stream\<close>

datatype AcceptDecision =
    AcceptDone "TcpProxyStreamRejection + unit"
  | AcceptStale string uuid uuid bool

definition request_authority_current :: "PendingTcpProxyRequest \<Rightarrow> ServerState \<Rightarrow> bool" where
  "request_authority_current r s =
     (session_current s (expected_node_id r) (expected_session_id r)
      \<and> authority_current s (expected_node_id r) (expected_session_id r) (expected_authority_id r))"

definition request_is_served :: "PendingTcpProxyRequest \<Rightarrow> instant \<Rightarrow> ServerState \<Rightarrow> bool" where
  "request_is_served r now s =
     (request_authority_current r s
      \<and> session_is_fresh (session_liveness s) (expected_node_id r) (expected_session_id r)
          (expected_authority_id r) now (heartbeat_timeout s)
      \<and> tcp_active s (expected_node_id r) (expected_session_id r) (expected_authority_id r))"

definition accept_section ::
  "string \<Rightarrow> uuid \<Rightarrow> uuid \<Rightarrow> handle \<Rightarrow> instant \<Rightarrow> ServerState \<Rightarrow> AcceptDecision \<times> ServerState" where
  "accept_section node sid stream_id stream now s =
     (case map_of (pending_tcp s) stream_id of
        None \<Rightarrow> (AcceptDone (Inl UnexpectedStreamId), s)
      | Some r \<Rightarrow>
          if pending_stream_id r \<noteq> stream_id then (AcceptDone (Inl UnexpectedStreamId), s)
          else if expected_node_id r \<noteq> node then (AcceptDone (Inl NodeMismatch), s)
          else if expected_session_id r \<noteq> sid then (AcceptDone (Inl SessionMismatch), s)
          else
            let s1 = drop_pending stream_id s in
            if is_expired r now then (AcceptDone (Inl RequestExpired), s1)
            else if request_is_served r now s then
              (if response_sender r \<in> set (requester_closed s)
               then (AcceptDone (Inl RequesterClosed), s1)
               else (AcceptDone (Inr ()), s1\<lparr>delivered := (stream_id, stream) # delivered s1\<rparr>))
            else (AcceptStale (expected_node_id r) (expected_session_id r) (expected_authority_id r)
                    (request_authority_current r s), s1))"

definition accept_tcp_proxy_stream ::
  "string \<Rightarrow> uuid \<Rightarrow> uuid \<Rightarrow> handle \<Rightarrow> instant \<Rightarrow> ServerState \<Rightarrow> (TcpProxyStreamRejection + unit) \<times> ServerState" where
  "accept_tcp_proxy_stream node sid stream_id stream now s =
     (case accept_section node sid stream_id stream now s of
        (AcceptDone res, s1) \<Rightarrow> (res, s1)
      | (AcceptStale n sd aid expire_current, s1) \<Rightarrow>
          (Inl SessionInactive, if expire_current then expire_session n sd aid s1 else s1))"

section \<open>Heartbeats and shutdown\<close>

definition record_heartbeat_sequence :: "string \<Rightarrow> uuid \<Rightarrow> u64 \<Rightarrow> ServerState \<Rightarrow> ServerState" where
  "record_heartbeat_sequence node sid seq s =
     (case map_of (sessions s) node of
        None \<Rightarrow> s
      | Some session \<Rightarrow>
          if session_id session = sid
          then s\<lparr>sessions := AList.update node
                  (session\<lparr>connected := True, last_heartbeat_sequence := Some seq\<rparr>) (sessions s)\<rparr>
          else s)"

definition mark_heartbeat ::
  "(ServerState \<Rightarrow> ServerState) \<Rightarrow> TunnelHeartbeat \<Rightarrow> uuid \<Rightarrow> instant \<Rightarrow> ServerState \<Rightarrow> ServerState" where
  "mark_heartbeat between hb aid now s =
     (case refresh_session_heartbeat_for_authority (heartbeat_node_id hb) (heartbeat_session_id hb) aid now s of
        (False, s1) \<Rightarrow> s1
      | (True, s1) \<Rightarrow> record_heartbeat_sequence (heartbeat_node_id hb) (heartbeat_session_id hb)
                        (heartbeat_sequence hb) (between s1))"

definition mark_connected ::
  "TunnelHello \<Rightarrow> SessionAuthority \<Rightarrow> uuid \<Rightarrow> instant \<Rightarrow> ServerState \<Rightarrow> uuid \<times> ServerState" where
  "mark_connected hello authority aid now s =
     replace_session_authority (hello_node_id hello) (hello_session_id hello) authority aid now s"

definition mark_disconnected :: "TunnelHello \<Rightarrow> uuid \<Rightarrow> ServerState \<Rightarrow> ServerState" where
  "mark_disconnected hello aid s =
     snd (disconnect_session_authority (hello_node_id hello) (hello_session_id hello) aid s)"

definition mark_session_disconnected :: "string \<Rightarrow> uuid \<Rightarrow> ServerState \<Rightarrow> ServerState" where
  "mark_session_disconnected node sid s =
     (case map_of (sessions s) node of
        None \<Rightarrow> s
      | Some session \<Rightarrow>
          if session_id session = sid
          then s\<lparr>sessions := AList.update node (session\<lparr>connected := False\<rparr>) (sessions s)\<rparr> else s)"

definition shutdown_tcp :: "ServerState \<Rightarrow> ServerState" where
  "shutdown_tcp s =
     (let controls = map (\<lambda>(n, c). (n, control_session_id c)) (tcp_controls s);
          s1 = s\<lparr>tcp_controls := [], pending_tcp := [], reserved_tcp := []\<rparr> in
      fold (\<lambda>(n, sid) st. remove_session_liveness n sid (mark_session_disconnected n sid st)) controls s1)"

section \<open>Atomic operations and their interleavings\<close>

datatype ServerOp =
    OpReplace string uuid SessionAuthority uuid instant
  | OpDisconnect string uuid uuid
  | OpRemoveQuic string uuid uuid
  | OpRemoveControl string uuid uuid
  | OpCancelPending string uuid uuid
  | OpRefresh string uuid uuid instant
  | OpHeartbeatSequence string uuid u64
  | OpReserveAuthorize string uuid
  | OpReservePush string uuid uuid handle
  | OpTakeReserved ActiveSessionTarget
  | OpWriteStream handle ServerFrame
  | OpKeepalive
  | OpInsertPending ActiveSessionTarget uuid instant nat handle
  | OpDropPending uuid
  | OpControlSend handle ServerFrame
  | OpAccept string uuid uuid handle instant
  | OpDrainControls
  | OpClearPending
  | OpClearReserved
  | OpMarkDisconnected string uuid
  | OpRemoveLiveness string uuid
  | OpQuicClosed handle
  | OpSenderClosed handle
  | OpRequesterClosed handle
  | OpStreamBroken handle

fun server_op :: "ServerState \<Rightarrow> ServerOp \<Rightarrow> ServerState" where
  "server_op s (OpReplace n sid a aid now) = snd (replace_session_authority n sid a aid now s)"
| "server_op s (OpDisconnect n sid aid) = snd (disconnect_session_authority n sid aid s)"
| "server_op s (OpRemoveQuic n sid aid) = remove_quic_connection_for_authority n sid aid s"
| "server_op s (OpRemoveControl n sid aid) = remove_tcp_control_for_authority n sid aid s"
| "server_op s (OpCancelPending n sid aid) = cancel_pending_for_authority n sid aid s"
| "server_op s (OpRefresh n sid aid now) = snd (refresh_session_heartbeat_for_authority n sid aid now s)"
| "server_op s (OpHeartbeatSequence n sid seq) = record_heartbeat_sequence n sid seq s"
| "server_op s (OpReserveAuthorize n sid) = snd (register_reserved_authorize n sid s)"
| "server_op s (OpReservePush n sid aid h) = snd (register_reserved_push n sid aid h s)"
| "server_op s (OpTakeReserved t) = snd (take_reserved_tcp_stream t s)"
| "server_op s (OpWriteStream h f) = snd (write_server_frame h f s)"
| "server_op s OpKeepalive = snd (keepalive_reserved_tcp_streams s)"
| "server_op s (OpInsertPending t i now wait r) = snd (insert_pending t i now wait r s)"
| "server_op s (OpDropPending i) = drop_pending i s"
| "server_op s (OpControlSend h f) = control_send h f s"
| "server_op s (OpAccept n sid i h now) = snd (accept_section n sid i h now s)"
| "server_op s OpDrainControls = s\<lparr>tcp_controls := []\<rparr>"
| "server_op s OpClearPending = s\<lparr>pending_tcp := []\<rparr>"
| "server_op s OpClearReserved = s\<lparr>reserved_tcp := []\<rparr>"
| "server_op s (OpMarkDisconnected n sid) = mark_session_disconnected n sid s"
| "server_op s (OpRemoveLiveness n sid) = remove_session_liveness n sid s"
| "server_op s (OpQuicClosed h) = close_quic h s"
| "server_op s (OpSenderClosed h) = s\<lparr>sender_closed := h # sender_closed s\<rparr>"
| "server_op s (OpRequesterClosed h) = s\<lparr>requester_closed := h # requester_closed s\<rparr>"
| "server_op s (OpStreamBroken h) = s\<lparr>stream_broken := h # stream_broken s\<rparr>"

definition server_run :: "ServerOp list \<Rightarrow> ServerState \<Rightarrow> ServerState" where
  "server_run ops s = fold (\<lambda>p s. server_op s p) ops s"

text \<open>
  Interleavings of the tasks: any atomic operation in any order, where a
  replacement draws an authority id that was never drawn before.
\<close>

inductive server_step :: "uuid list \<times> ServerState \<Rightarrow> ServerOp \<Rightarrow> uuid list \<times> ServerState \<Rightarrow> bool" where
  step_replace: "aid \<notin> set issued \<Longrightarrow>
     server_step (issued, s) (OpReplace n sid a aid now) (aid # issued, server_op s (OpReplace n sid a aid now))"
| step_other: "(\<And>n sid a aid now. p \<noteq> OpReplace n sid a aid now) \<Longrightarrow>
     server_step (issued, s) p (issued, server_op s p)"

inductive server_reach :: "uuid list \<times> ServerState \<Rightarrow> bool" where
  reach_init: "server_reach ([], ServerState_default)"
| reach_step: "server_reach w \<Longrightarrow> server_step w p w' \<Longrightarrow> server_reach w'"

inductive_cases server_stepE: "server_step w p w'"

end
