(* ===== verification/Tunnel_State_Inv.thy ===== *)
theory Tunnel_State_Inv
  imports Tunnel_State
begin

text \<open>
  Invariants and properties of the session registry of \<open>Tunnel_State\<close>: the
  well-formedness every atomic operation preserves, the decisions of session
  selection, the effect of authority changes and the delivery of streams.
\<close>

section \<open>Association lists\<close>

declare map_of_eq_Some_iff [simp del] Some_eq_map_of_iff [simp del]

lemma set_alist_update: "set (AList.update k v al) \<subseteq> insert (k, v) (set al)"
  by (induction al) auto

lemma set_alist_delete: "set (AList.delete k al) \<subseteq> set al"
  by (induction al) auto

lemma length_filter_alist_update:
  "length (filter P (AList.update k v al)) \<le> Suc (length (filter P al))"
  by (induction al) auto

lemma length_filter_alist_delete:
  "length (filter P (AList.delete k al)) \<le> length (filter P al)"
  by (induction al) auto

lemma length_filter_filter: "length (filter P (filter Q xs)) \<le> length (filter P xs)"
  by (induction xs) auto

lemma map_of_delete_simp: "map_of (AList.delete k al) k' = (if k = k' then None else map_of al k')"
  by (simp add: delete_conv')

lemma map_of_update_simp: "map_of (AList.update k v al) k' = (if k = k' then Some v else map_of al k')"
  by (simp add: update_conv')

lemmas alist_simps = map_of_delete_simp map_of_update_simp distinct_update distinct_delete

section \<open>The invariant\<close>

definition keys_distinct :: "ServerState \<Rightarrow> bool" where
  "keys_distinct s =
     (distinct (map fst (sessions s)) \<and> distinct (map fst (connections s))
      \<and> distinct (map fst (tcp_controls s)) \<and> distinct (map fst (pending_tcp s))
      \<and> distinct (map fst (reserved_tcp s)) \<and> distinct (map fst (session_liveness s)))"

definition entries_keyed :: "ServerState \<Rightarrow> bool" where
  "entries_keyed s =
     ((\<forall>(n, x) \<in> set (sessions s). node_id x = n) \<and> (\<forall>(i, r) \<in> set (pending_tcp s). pending_stream_id r = i))"

definition pending_for :: "ServerState \<Rightarrow> string \<Rightarrow> nat" where
  "pending_for s n = length (filter (\<lambda>(_, r). expected_node_id r = n) (pending_tcp s))"

definition capacity_bounded :: "ServerState \<Rightarrow> bool" where
  "capacity_bounded s =
     (length (pending_tcp s) \<le> MAX_PENDING_TCP_STREAMS
      \<and> (\<forall>n. pending_for s n \<le> MAX_PENDING_TCP_STREAMS_PER_NODE)
      \<and> (\<forall>(n, xs) \<in> set (reserved_tcp s). length xs \<le> MAX_RESERVED_TCP_STREAMS_PER_NODE))"

definition authority_coherent :: "ServerState \<Rightarrow> bool" where
  "authority_coherent s =
     (\<forall>n. (map_of (connections s) n = None \<or> map_of (tcp_controls s) n = None)
        \<and> (\<forall>l. map_of (session_liveness s) n = Some l \<longrightarrow>
              (\<exists>x. map_of (sessions s) n = Some x \<and> session_id x = live_session_id l)
              \<and> (\<forall>c. map_of (connections s) n = Some c \<longrightarrow>
                    bound_session_id c = live_session_id l \<and> bound_authority_id c = live_authority_id l)
              \<and> (\<forall>c. map_of (tcp_controls s) n = Some c \<longrightarrow>
                    control_session_id c = live_session_id l \<and> control_authority_id c = live_authority_id l)))"

definition server_inv :: "ServerState \<Rightarrow> bool" where
  "server_inv s = (keys_distinct s \<and> entries_keyed s \<and> capacity_bounded s \<and> authority_coherent s)"

lemma authority_coherentD:
  assumes "authority_coherent s"
  shows "map_of (connections s) n = None \<or> map_of (tcp_controls s) n = None"
    and "map_of (session_liveness s) n = Some l \<Longrightarrow> \<exists>x. map_of (sessions s) n = Some x \<and> session_id x = live_session_id l"
    and "map_of (session_liveness s) n = Some l \<Longrightarrow> map_of (connections s) n = Some c \<Longrightarrow>
           bound_session_id c = live_session_id l \<and> bound_authority_id c = live_authority_id l"
    and "map_of (session_liveness s) n = Some l \<Longrightarrow> map_of (tcp_controls s) n = Some d \<Longrightarrow>
           control_session_id d = live_session_id l \<and> control_authority_id d = live_authority_id l"
proof -
  note at_n = assms [unfolded authority_coherent_def, rule_format, of n]
  show "map_of (connections s) n = None \<or> map_of (tcp_controls s) n = None"
    using at_n by simp
  assume l: "map_of (session_liveness s) n = Some l"
  show "\<exists>x. map_of (sessions s) n = Some x \<and> session_id x = live_session_id l"
    using at_n l by simp
  show "bound_session_id c = live_session_id l \<and> bound_authority_id c = live_authority_id l"
    if "map_of (connections s) n = Some c"
    using at_n l that by simp
  show "control_session_id d = live_session_id l \<and> control_authority_id d = live_authority_id l"
    if "map_of (tcp_controls s) n = Some d"
    using at_n l that by simp
qed

section \<open>Facts on single operations\<close>

lemma keepalive_streams_healthy:
  "fst (keepalive_streams rs s) = filter (\<lambda>r. reserved_stream r \<notin> set (stream_broken s)) rs"
  by (induction rs arbitrary: s) (simp_all add: write_server_frame_def split_beta)

lemma keepalive_streams_state:
  "\<exists>out. snd (keepalive_streams rs s) = s\<lparr>stream_out := stream_out s @ out\<rparr>"
proof (induction rs arbitrary: s)
  case Nil
  then show ?case by (intro exI [of _ "[]"]) simp
next
  case (Cons r rs)
  show ?case
  proof (cases "reserved_stream r \<in> set (stream_broken s)")
    case True
    then show ?thesis using Cons [of s] by (simp add: write_server_frame_def split_beta)
  next
    case False
    let ?s = "s\<lparr>stream_out := stream_out s @ [(reserved_stream r, ReserveKeepalive)]\<rparr>"
    obtain out where "snd (keepalive_streams rs ?s) = ?s\<lparr>stream_out := stream_out ?s @ out\<rparr>"
      using Cons by blast
    with False show ?thesis
      by (intro exI [of _ "(reserved_stream r, ReserveKeepalive) # out"])
        (simp add: write_server_frame_def split_beta)
  qed
qed

definition writable_entries ::
  "ServerState \<Rightarrow> (string \<times> ReservedTcpStream list) list \<Rightarrow> (string \<times> ReservedTcpStream list) list" where
  "writable_entries s es = map (\<lambda>(k, rs). (k, filter (\<lambda>r. reserved_stream r \<notin> set (stream_broken s)) rs)) es"

lemma keepalive_nodes_spec:
  "\<exists>out. keepalive_nodes es s =
     (sum_list (map (\<lambda>e. length (snd e)) (writable_entries s es)), writable_entries s es,
      s\<lparr>stream_out := stream_out s @ out\<rparr>)"
proof (induction es arbitrary: s)
  case Nil
  then show ?case by (intro exI [of _ "[]"]) (simp add: writable_entries_def)
next
  case (Cons e es)
  obtain k rs where e: "e = (k, rs)" by force
  obtain out where ks: "keepalive_streams rs s =
      (filter (\<lambda>r. reserved_stream r \<notin> set (stream_broken s)) rs, s\<lparr>stream_out := stream_out s @ out\<rparr>)"
    using keepalive_streams_healthy [of rs s] keepalive_streams_state [of rs s] by (metis prod.collapse)
  obtain out' where "keepalive_nodes es (s\<lparr>stream_out := stream_out s @ out\<rparr>) =
      (sum_list (map (\<lambda>e. length (snd e)) (writable_entries s es)), writable_entries s es,
       s\<lparr>stream_out := stream_out s @ out @ out'\<rparr>)"
    using Cons [of "s\<lparr>stream_out := stream_out s @ out\<rparr>"] by (auto simp: writable_entries_def)
  with ks e show ?case by (intro exI [of _ "out @ out'"]) (simp add: writable_entries_def)
qed

lemma keepalive_spec:
  obtains out where "keepalive_reserved_tcp_streams s =
     (sum_list (map (\<lambda>e. length (snd e)) (writable_entries s (reserved_tcp s))),
      s\<lparr>stream_out := stream_out s @ out,
        reserved_tcp := filter (\<lambda>(_, rs). rs \<noteq> []) (writable_entries s (reserved_tcp s))\<rparr>)"
  using keepalive_nodes_spec [of "reserved_tcp s" s] by (auto simp: keepalive_reserved_tcp_streams_def)

lemma pop_matching_suffix:
  "pop_matching sid aid xs = Some (h, rest) \<Longrightarrow>
     \<exists>pre r. xs = pre @ r # rest \<and> reserved_session_id r = sid \<and> reserved_authority_id r = aid
        \<and> reserved_stream r = h"
proof (induction xs)
  case (Cons x xs)
  show ?case
  proof (cases "reserved_session_id x = sid \<and> reserved_authority_id x = aid")
    case True
    with Cons.prems show ?thesis by (intro exI [of _ "[]"] exI [of _ x]) simp
  next
    case False
    with Cons obtain pre r where "xs = pre @ r # rest" "reserved_session_id r = sid"
      "reserved_authority_id r = aid" "reserved_stream r = h" by auto
    then show ?thesis by (intro exI [of _ "x # pre"] exI [of _ r]) simp
  qed
qed simp

lemmas server_ops =
  replace_session_authority_def disconnect_session_authority_def remove_quic_connection_for_authority_def
  remove_tcp_control_for_authority_def cancel_pending_for_authority_def
  refresh_session_heartbeat_for_authority_def record_heartbeat_sequence_def register_reserved_authorize_def
  register_reserved_push_def take_reserved_tcp_stream_def write_server_frame_def insert_pending_def
  drop_pending_def control_send_def accept_section_def mark_session_disconnected_def
  remove_session_liveness_def close_quic_def remove_session_bound_def

section \<open>Operations that only shrink the registry\<close>

text \<open>
  Most operations remove entries or change fields that carry no authority.  They
  are described by one relation, and one lemma shows that it preserves the
  invariant.
\<close>

definition sub_list :: "'a list \<Rightarrow> 'a list \<Rightarrow> bool" where
  "sub_list xs ys = (\<exists>P. xs = filter P ys)"

definition proj_sub :: "('v \<Rightarrow> 'i) \<Rightarrow> ('k \<times> 'v) list \<Rightarrow> ('k \<times> 'v) list \<Rightarrow> bool" where
  "proj_sub f xs ys =
     (distinct (map fst xs)
      \<and> (\<forall>k v. map_of xs k = Some v \<longrightarrow> (\<exists>w. map_of ys k = Some w \<and> f v = f w)))"

abbreviation live_ids :: "SessionLiveness \<Rightarrow> uuid \<times> uuid" where
  "live_ids l \<equiv> (live_session_id l, live_authority_id l)"

abbreviation control_ids :: "TcpControlChannel \<Rightarrow> uuid \<times> uuid" where
  "control_ids c \<equiv> (control_session_id c, control_authority_id c)"

abbreviation bound_ids :: "'a SessionBound \<Rightarrow> uuid \<times> uuid" where
  "bound_ids c \<equiv> (bound_session_id c, bound_authority_id c)"

definition sessions_kept :: "(string \<times> ServerSessionSnapshot) list \<Rightarrow> (string \<times> ServerSessionSnapshot) list \<Rightarrow> bool" where
  "sessions_kept xs ys =
     (distinct (map fst xs) \<and> (\<forall>(n, x) \<in> set xs. node_id x = n)
      \<and> (\<forall>n. map_option session_id (map_of xs n) = map_option session_id (map_of ys n)))"

definition reserved_ok :: "(string \<times> ReservedTcpStream list) list \<Rightarrow> bool" where
  "reserved_ok rs = (distinct (map fst rs) \<and> (\<forall>(n, xs) \<in> set rs. length xs \<le> MAX_RESERVED_TCP_STREAMS_PER_NODE))"

definition shrinks :: "ServerState \<Rightarrow> ServerState \<Rightarrow> bool" where
  "shrinks s' s =
     (sessions_kept (sessions s') (sessions s)
      \<and> proj_sub bound_ids (connections s') (connections s)
      \<and> proj_sub control_ids (tcp_controls s') (tcp_controls s)
      \<and> proj_sub live_ids (session_liveness s') (session_liveness s)
      \<and> sub_list (pending_tcp s') (pending_tcp s)
      \<and> reserved_ok (reserved_tcp s'))"

lemma sub_list_intros [simp, intro]:
  "sub_list xs xs" "sub_list [] xs" "sub_list (filter P xs) xs" "sub_list (AList.delete k al) al"
proof -
  show "sub_list xs xs" unfolding sub_list_def by (intro exI [of _ "\<lambda>_. True"]) simp
  show "sub_list [] xs" unfolding sub_list_def by (intro exI [of _ "\<lambda>_. False"]) simp
  show "sub_list (filter P xs) xs" unfolding sub_list_def by blast
  show "sub_list (AList.delete k al) al" unfolding sub_list_def by (auto simp: AList.delete_eq)
qed

lemma proj_sub_delete: "proj_sub f xs ys \<Longrightarrow> proj_sub f (AList.delete k xs) ys"
  by (simp add: proj_sub_def alist_simps)

lemma proj_sub_update:
  "proj_sub f xs ys \<Longrightarrow> map_of ys k = Some w \<Longrightarrow> f v = f w \<Longrightarrow> proj_sub f (AList.update k v xs) ys"
  by (simp add: proj_sub_def alist_simps)

lemma proj_subD: "proj_sub f xs ys \<Longrightarrow> map_of xs k = Some v \<Longrightarrow> \<exists>w. map_of ys k = Some w \<and> f v = f w"
  by (simp add: proj_sub_def)

lemma proj_sub_Nil: "proj_sub f [] ys"
  by (simp add: proj_sub_def)

lemma proj_sub_refl: "distinct (map fst xs) \<Longrightarrow> proj_sub f xs xs"
  by (simp add: proj_sub_def)

lemma sessions_kept_update:
  assumes "sessions_kept xs ys" "map_of xs n = Some x" "node_id x' = node_id x" "session_id x' = session_id x"
  shows "sessions_kept (AList.update n x' xs) ys"
proof -
  have n: "node_id x = n" using assms(1,2) by (auto simp: sessions_kept_def dest!: map_of_SomeD)
  moreover have "\<forall>(n, x) \<in> set (AList.update n x' xs). node_id x = n"
    using assms n set_alist_update [of n x' xs] by (fastforce simp: sessions_kept_def)
  moreover have "map_option session_id (map_of ys n) = Some (session_id x)"
    using assms(1,2) unfolding sessions_kept_def by (metis option.simps(9))
  ultimately show ?thesis using assms by (auto simp: sessions_kept_def alist_simps)
qed

lemma reserved_ok_delete: "reserved_ok rs \<Longrightarrow> reserved_ok (AList.delete n rs)"
  using set_alist_delete [of n rs] by (auto simp: reserved_ok_def alist_simps)

lemma reserved_ok_update:
  "reserved_ok rs \<Longrightarrow> length xs \<le> MAX_RESERVED_TCP_STREAMS_PER_NODE \<Longrightarrow> reserved_ok (AList.update n xs rs)"
  using set_alist_update [of n xs rs] by (fastforce simp: reserved_ok_def alist_simps)

lemma reserved_ok_Nil: "reserved_ok []"
  by (simp add: reserved_ok_def)

lemma reserved_ok_lookup:
  "reserved_ok rs \<Longrightarrow> map_of rs n = Some xs \<Longrightarrow> length xs \<le> MAX_RESERVED_TCP_STREAMS_PER_NODE"
  by (auto simp: reserved_ok_def dest!: map_of_SomeD)

lemmas shrink_rules = proj_sub_delete proj_sub_update proj_sub_Nil proj_sub_refl sessions_kept_update
  reserved_ok_delete reserved_ok_update reserved_ok_Nil

lemma server_inv_parts:
  assumes "server_inv s"
  shows "shrinks s s"
  using assms
  by (auto simp: server_inv_def shrinks_def keys_distinct_def entries_keyed_def capacity_bounded_def
      sessions_kept_def reserved_ok_def proj_sub_refl)

lemma shrinks_inv:
  assumes "server_inv s" "shrinks s' s"
  shows "server_inv s'"
proof -
  obtain P where P: "pending_tcp s' = filter P (pending_tcp s)"
    using assms(2) by (auto simp: shrinks_def sub_list_def)
  have "keys_distinct s'"
    using assms P by (auto simp: server_inv_def shrinks_def keys_distinct_def sessions_kept_def
        proj_sub_def reserved_ok_def distinct_map_filter)
  moreover have "entries_keyed s'"
    using assms P by (auto simp: server_inv_def shrinks_def entries_keyed_def sessions_kept_def)
  moreover have "capacity_bounded s'"
  proof -
    have "length (pending_tcp s') \<le> length (pending_tcp s)" by (simp add: P)
    moreover have "pending_for s' n \<le> pending_for s n" for n
      unfolding pending_for_def P by (rule length_filter_filter)
    moreover have "capacity_bounded s" "reserved_ok (reserved_tcp s')"
      using assms by (simp_all add: server_inv_def shrinks_def)
    ultimately show ?thesis
      unfolding capacity_bounded_def reserved_ok_def by (meson order_trans)
  qed
  moreover have "authority_coherent s'"
  proof -
    have coh: "authority_coherent s" using assms(1) by (simp add: server_inv_def)
    have sess: "map_option session_id (map_of (sessions s') n) = map_option session_id (map_of (sessions s) n)" for n
      using assms(2) by (simp add: shrinks_def sessions_kept_def)
    have bound: "proj_sub bound_ids (connections s') (connections s)"
      and control: "proj_sub control_ids (tcp_controls s') (tcp_controls s)"
      and live: "proj_sub live_ids (session_liveness s') (session_liveness s)"
      using assms(2) by (simp_all only: shrinks_def)
    show ?thesis
      unfolding authority_coherent_def
    proof (intro allI conjI impI)
      fix n
      show "map_of (connections s') n = None \<or> map_of (tcp_controls s') n = None"
        using coh proj_subD [OF bound, of n] proj_subD [OF control, of n]
        unfolding authority_coherent_def by (metis not_Some_eq)
    next
      fix n l
      assume "map_of (session_liveness s') n = Some l"
      then obtain m where m: "map_of (session_liveness s) n = Some m" "live_ids l = live_ids m"
        using proj_subD [OF live] by blast
      then obtain x where "map_of (sessions s) n = Some x" "session_id x = live_session_id l"
        using authority_coherentD(2) [OF coh m(1)] m(2) by auto
      then show "\<exists>x. map_of (sessions s') n = Some x \<and> session_id x = live_session_id l"
        using sess [of n] by auto
      show "bound_session_id c = live_session_id l" "bound_authority_id c = live_authority_id l"
        if "map_of (connections s') n = Some c" for c
        using proj_subD [OF bound that] m authority_coherentD(3) [OF coh m(1)] by auto
      show "control_session_id c = live_session_id l" "control_authority_id c = live_authority_id l"
        if "map_of (tcp_controls s') n = Some c" for c
        using proj_subD [OF control that] m authority_coherentD(4) [OF coh m(1)] by auto
    qed
  qed
  ultimately show ?thesis by (simp add: server_inv_def)
qed

section \<open>Every atomic operation preserves the invariant\<close>

lemma shrinks_disconnect: "server_inv s \<Longrightarrow> shrinks (snd (disconnect_session_authority n sid aid s)) s"
  by (frule server_inv_parts)
    (auto simp: shrinks_def disconnect_session_authority_def remove_session_bound_def close_quic_def Let_def
      intro!: shrink_rules split: option.splits)

lemma shrinks_remove_quic: "server_inv s \<Longrightarrow> shrinks (remove_quic_connection_for_authority n sid aid s) s"
  by (frule server_inv_parts)
    (auto simp: shrinks_def remove_quic_connection_for_authority_def remove_session_bound_def close_quic_def
      intro!: shrink_rules split: option.splits)

lemma shrinks_remove_control: "server_inv s \<Longrightarrow> shrinks (remove_tcp_control_for_authority n sid aid s) s"
  by (frule server_inv_parts)
    (auto simp: shrinks_def remove_tcp_control_for_authority_def intro!: shrink_rules split: option.splits)

lemma shrinks_cancel_pending: "server_inv s \<Longrightarrow> shrinks (cancel_pending_for_authority n sid aid s) s"
  by (frule server_inv_parts) (simp add: shrinks_def cancel_pending_for_authority_def)

lemma shrinks_drop_pending: "server_inv s \<Longrightarrow> shrinks (drop_pending i s) s"
  by (frule server_inv_parts) (simp add: shrinks_def drop_pending_def)

lemma shrinks_refresh:
  "server_inv s \<Longrightarrow> shrinks (snd (refresh_session_heartbeat_for_authority n sid aid now s)) s"
  by (frule server_inv_parts)
    (auto simp: shrinks_def refresh_session_heartbeat_for_authority_def intro!: shrink_rules split: option.splits)

lemma shrinks_heartbeat_sequence: "server_inv s \<Longrightarrow> shrinks (record_heartbeat_sequence n sid sq s) s"
  by (frule server_inv_parts)
    (auto simp: shrinks_def record_heartbeat_sequence_def intro!: shrink_rules split: option.splits)

lemma shrinks_mark_disconnected: "server_inv s \<Longrightarrow> shrinks (mark_session_disconnected n sid s) s"
  by (frule server_inv_parts)
    (auto simp: shrinks_def mark_session_disconnected_def intro!: shrink_rules split: option.splits)

lemma shrinks_remove_liveness: "server_inv s \<Longrightarrow> shrinks (remove_session_liveness n sid s) s"
  by (frule server_inv_parts)
    (auto simp: shrinks_def remove_session_liveness_def intro!: shrink_rules split: option.splits)

lemma shrinks_reserve_authorize: "server_inv s \<Longrightarrow> shrinks (snd (register_reserved_authorize n sid s)) s"
  by (frule server_inv_parts)
    (auto simp: shrinks_def register_reserved_authorize_def intro!: shrink_rules split: option.splits)

lemma shrinks_reserve_push: "server_inv s \<Longrightarrow> shrinks (snd (register_reserved_push n sid aid h s)) s"
  by (frule server_inv_parts)
    (auto simp: shrinks_def register_reserved_push_def Let_def MAX_RESERVED_TCP_STREAMS_PER_NODE_def
      intro!: shrink_rules split: option.splits)

lemma shrinks_take_reserved: "server_inv s \<Longrightarrow> shrinks (snd (take_reserved_tcp_stream t s)) s"
proof -
  assume "server_inv s"
  then have sh: "shrinks s s" by (rule server_inv_parts)
  have "length (rev rest) \<le> MAX_RESERVED_TCP_STREAMS_PER_NODE"
    if "map_of (reserved_tcp s) (target_node_id t) = Some xs" "pop_matching sid aid (rev xs) = Some (h, rest)"
    for xs sid aid h rest
    using pop_matching_shorter [OF that(2)] reserved_ok_lookup [OF _ that(1)] sh by (simp add: shrinks_def)
  with sh show ?thesis
    by (auto simp: shrinks_def take_reserved_tcp_stream_def intro!: shrink_rules split: option.splits)
qed

lemma shrinks_accept: "server_inv s \<Longrightarrow> shrinks (snd (accept_section n sid i h now s)) s"
  by (frule server_inv_parts)
    (auto simp: shrinks_def accept_section_def drop_pending_def Let_def split: option.splits)

lemma shrinks_keepalive: "server_inv s \<Longrightarrow> shrinks (snd (keepalive_reserved_tcp_streams s)) s"
proof -
  assume "server_inv s"
  then have sh: "shrinks s s" by (rule server_inv_parts)
  have "reserved_ok (filter (\<lambda>(_, rs). rs \<noteq> []) (writable_entries s (reserved_tcp s)))"
    unfolding reserved_ok_def
  proof
    show "distinct (map fst (filter (\<lambda>(_, rs). rs \<noteq> []) (writable_entries s (reserved_tcp s))))"
      using sh by (intro distinct_map_filter)
        (simp add: writable_entries_def split_beta comp_def shrinks_def reserved_ok_def)
    show "\<forall>(n, xs)\<in>set (filter (\<lambda>(_, rs). rs \<noteq> []) (writable_entries s (reserved_tcp s))).
        length xs \<le> MAX_RESERVED_TCP_STREAMS_PER_NODE"
      using sh
      by (auto simp: writable_entries_def shrinks_def reserved_ok_def intro!: order_trans [OF length_filter_le])
  qed
  moreover obtain out where "snd (keepalive_reserved_tcp_streams s) = s\<lparr>stream_out := stream_out s @ out,
      reserved_tcp := filter (\<lambda>(_, rs). rs \<noteq> []) (writable_entries s (reserved_tcp s))\<rparr>"
    by (rule keepalive_spec [of s]) simp
  ultimately show ?thesis using sh by (simp add: shrinks_def)
qed

lemma inv_insert_pending:
  assumes "server_inv s"
  shows "server_inv (snd (insert_pending t i now wait r s))"
proof (cases "fst (insert_pending t i now wait r s)")
  case (Inl e)
  then have "snd (insert_pending t i now wait r s) = s"
    by (auto simp: insert_pending_def split: if_splits)
  with assms show ?thesis by simp
next
  case (Inr u)
  then have room: "length (pending_tcp s) < 256" "pending_for s (target_node_id t) < 32"
    by (auto simp: insert_pending_def pending_for_def MAX_PENDING_TCP_STREAMS_def
        MAX_PENDING_TCP_STREAMS_PER_NODE_def split: if_splits)
  define req where "req = \<lparr>pending_stream_id = i, expected_node_id = target_node_id t,
      expected_session_id = target_session_id t, expected_authority_id = target_authority_id t,
      created_at = now, pending_deadline = now + wait, response_sender = r\<rparr>"
  define s' where "s' = s\<lparr>pending_tcp := AList.update i req (pending_tcp s)\<rparr>"
  have res: "snd (insert_pending t i now wait r s) = s'"
    using Inr by (auto simp: insert_pending_def s'_def req_def split: if_splits)
  have len: "length (pending_tcp s') \<le> 256"
    using length_filter_alist_update [of "\<lambda>_. True" i req "pending_tcp s"] room by (simp add: s'_def)
  have per: "pending_for s' n \<le> 32" for n
  proof (cases "n = target_node_id t")
    case True
    then show ?thesis
      using room length_filter_alist_update [of "\<lambda>(_, r). expected_node_id r = n" i req "pending_tcp s"]
      by (simp add: pending_for_def s'_def)
  next
    case False
    have "length (filter (\<lambda>(_, r). expected_node_id r = n) (AList.update i req al))
        \<le> length (filter (\<lambda>(_, r). expected_node_id r = n) al)" for al
      by (induction al) (auto simp: req_def False [symmetric])
    then have "pending_for s' n \<le> pending_for s n" by (simp add: pending_for_def s'_def)
    also have "\<dots> \<le> 32" using assms
      by (simp add: server_inv_def capacity_bounded_def MAX_PENDING_TCP_STREAMS_PER_NODE_def)
    finally show ?thesis .
  qed
  have keyed: "\<forall>(j, q)\<in>set (pending_tcp s'). pending_stream_id q = j"
    using assms set_alist_update [of i req "pending_tcp s"]
    by (fastforce simp: s'_def req_def server_inv_def entries_keyed_def)
  show ?thesis
    unfolding res using assms len per keyed
    by (simp add: server_inv_def keys_distinct_def entries_keyed_def capacity_bounded_def
        authority_coherent_def MAX_PENDING_TCP_STREAMS_def MAX_PENDING_TCP_STREAMS_PER_NODE_def
        s'_def alist_simps)
qed

lemma replace_fields:
  fixes s s' node sid authority aid now
  defines "s' \<equiv> snd (replace_session_authority node sid authority aid now s)"
  shows "sub_list (pending_tcp s') (pending_tcp s)"
    and "reserved_tcp s' = AList.delete node (reserved_tcp s)"
    and "map_of (session_liveness s') = (map_of (session_liveness s))
           (node \<mapsto> \<lparr>live_session_id = sid, live_authority_id = aid, last_seen_at = now\<rparr>)"
    and "map_of (sessions s') = (map_of (sessions s))
           (node \<mapsto> \<lparr>node_id = node, session_id = sid, connected = True,
                     accepted_connections = (case map_of (sessions s) node of
                        None \<Rightarrow> 1 | Some x \<Rightarrow> saturating_add (accepted_connections x) 1),
                     last_heartbeat_sequence = None\<rparr>)"
    and "map_of (connections s') = (map_of (connections s))
           (node := (case authority of
              AuthorityQuic h \<Rightarrow> Some \<lparr>bound_session_id = sid, bound_authority_id = aid, bound_value = h\<rparr>
            | AuthorityTcp _ \<Rightarrow> None))"
    and "map_of (tcp_controls s') = (map_of (tcp_controls s))
           (node := (case authority of
              AuthorityQuic _ \<Rightarrow> None
            | AuthorityTcp h \<Rightarrow> Some \<lparr>control_session_id = sid, control_authority_id = aid,
                                   control_sender = h, reserve_capable = False\<rparr>))"
    and "heartbeat_timeout s' = heartbeat_timeout s" "sender_closed s' = sender_closed s"
    and "quic_closed s' = (case map_of (connections s) node of
            None \<Rightarrow> quic_closed s | Some c \<Rightarrow> bound_value c # quic_closed s)"
  unfolding s'_def replace_session_authority_def Let_def close_quic_def
  by (cases authority; cases "map_of (connections s) node"; cases "map_of (sessions s) node";
      simp add: update_conv' delete_conv')+

lemma keys_distinct_replace:
  "keys_distinct s \<Longrightarrow> keys_distinct (snd (replace_session_authority n sid a aid now s))"
  by (cases a)
    (auto simp: keys_distinct_def replace_session_authority_def Let_def close_quic_def alist_simps
      distinct_map_filter split: option.splits)

lemma inv_replace:
  assumes "server_inv s"
  shows "server_inv (snd (replace_session_authority n sid a aid now s))"
proof -
  let ?s = "snd (replace_session_authority n sid a aid now s)"
  note f = replace_fields [of n sid a aid now s]
  obtain P where P: "pending_tcp ?s = filter P (pending_tcp s)"
    using f(1) by (auto simp: sub_list_def)
  have distinct: "keys_distinct ?s"
    using assms by (simp add: server_inv_def keys_distinct_replace)
  moreover have "entries_keyed ?s"
  proof -
    have "node_id x = m" if "map_of (sessions ?s) m = Some x" for m x
      using that assms unfolding f(4)
      by (auto simp: server_inv_def entries_keyed_def dest: map_of_SomeD split: if_splits)
    then have "\<forall>(m, x)\<in>set (sessions ?s). node_id x = m"
      using distinct by (auto simp: keys_distinct_def)
    with assms P show ?thesis by (auto simp: server_inv_def entries_keyed_def)
  qed
  moreover have "capacity_bounded ?s"
  proof -
    have "length (pending_tcp ?s) \<le> length (pending_tcp s)" by (simp add: P)
    moreover have "pending_for ?s m \<le> pending_for s m" for m
      unfolding pending_for_def P by (rule length_filter_filter)
    moreover have "capacity_bounded s" using assms by (simp add: server_inv_def)
    ultimately show ?thesis
      using set_alist_delete [of n "reserved_tcp s"] unfolding capacity_bounded_def f(2)
      by (meson order_trans subsetD)
  qed
  moreover have "authority_coherent ?s"
    using assms unfolding server_inv_def authority_coherent_def f(3-6)
    by (auto split: SessionAuthority.splits)
  ultimately show ?thesis by (simp add: server_inv_def)
qed

lemma shrinks_environment:
  assumes "server_inv s"
  shows "shrinks (s\<lparr>quic_closed := q\<rparr>) s" "shrinks (s\<lparr>sender_closed := q\<rparr>) s"
    "shrinks (s\<lparr>requester_closed := q\<rparr>) s" "shrinks (s\<lparr>stream_broken := q\<rparr>) s"
    "shrinks (s\<lparr>control_out := co\<rparr>) s" "shrinks (s\<lparr>stream_out := so\<rparr>) s"
    "shrinks (s\<lparr>tcp_controls := []\<rparr>) s" "shrinks (s\<lparr>pending_tcp := []\<rparr>) s"
    "shrinks (s\<lparr>reserved_tcp := []\<rparr>) s"
  using server_inv_parts [OF assms] by (simp_all add: shrinks_def proj_sub_Nil reserved_ok_Nil)

lemma shrinks_write: "server_inv s \<Longrightarrow> shrinks (snd (write_server_frame h f s)) s"
  by (simp add: write_server_frame_def server_inv_parts shrinks_environment)

lemmas shrinks_all = shrinks_disconnect shrinks_remove_quic shrinks_remove_control shrinks_cancel_pending
  shrinks_drop_pending shrinks_refresh shrinks_heartbeat_sequence shrinks_mark_disconnected
  shrinks_remove_liveness shrinks_reserve_authorize shrinks_reserve_push shrinks_take_reserved
  shrinks_accept shrinks_keepalive shrinks_write shrinks_environment

lemma server_op_inv: "server_inv s \<Longrightarrow> server_inv (server_op s p)"
  by (cases p)
    (simp_all add: inv_replace inv_insert_pending control_send_def close_quic_def
      shrinks_inv [OF _ shrinks_disconnect] shrinks_inv [OF _ shrinks_remove_quic]
      shrinks_inv [OF _ shrinks_remove_control] shrinks_inv [OF _ shrinks_cancel_pending]
      shrinks_inv [OF _ shrinks_drop_pending] shrinks_inv [OF _ shrinks_refresh]
      shrinks_inv [OF _ shrinks_heartbeat_sequence] shrinks_inv [OF _ shrinks_mark_disconnected]
      shrinks_inv [OF _ shrinks_remove_liveness] shrinks_inv [OF _ shrinks_reserve_authorize]
      shrinks_inv [OF _ shrinks_reserve_push] shrinks_inv [OF _ shrinks_take_reserved]
      shrinks_inv [OF _ shrinks_accept] shrinks_inv [OF _ shrinks_keepalive]
      shrinks_inv [OF _ shrinks_write] shrinks_inv [OF _ shrinks_environment(1)]
      shrinks_inv [OF _ shrinks_environment(2)] shrinks_inv [OF _ shrinks_environment(3)]
      shrinks_inv [OF _ shrinks_environment(4)] shrinks_inv [OF _ shrinks_environment(5)]
      shrinks_inv [OF _ shrinks_environment(6)] shrinks_inv [OF _ shrinks_environment(7)]
      shrinks_inv [OF _ shrinks_environment(8)] shrinks_inv [OF _ shrinks_environment(9)])

lemma server_inv_default: "server_inv ServerState_default"
  by (simp add: server_inv_def ServerState_default_def keys_distinct_def entries_keyed_def
      capacity_bounded_def pending_for_def authority_coherent_def)

interpretation registry: event_system "\<lambda>s. s = ServerState_default" server_op server_inv
  by unfold_locales (auto simp: server_inv_default server_op_inv)

lemma server_run_inv: "server_inv s \<Longrightarrow> server_inv (server_run ops s)"
  unfolding server_run_def by (rule registry.run_inv)

lemma server_reach_inv: "server_reach w \<Longrightarrow> server_inv (snd w)"
proof (induction rule: server_reach.induct)
  case reach_init
  show ?case by (simp add: server_inv_default)
next
  case (reach_step w p w')
  from reach_step.hyps(2) have "\<exists>q. snd w' = server_op (snd w) q"
    by cases (auto simp del: server_op.simps)
  with reach_step.IH show ?case by (auto intro: server_op_inv simp del: server_op.simps)
qed

end
