(* ===== verification/Tunnel_Routing.thy ===== *)
theory Tunnel_Routing
  imports Tunnel_State_Inv
begin

text \<open>
  What the session registry of \<open>crates/reverse-tunnel/src/state.rs\<close> promises to
  its callers: which session a request is routed to, that a superseded authority
  can no longer act, which streams reach a requester, and that the public
  operations are sequences of the atomic ones.
\<close>

section \<open>Active targets\<close>

definition target_active :: "ServerState \<Rightarrow> instant \<Rightarrow> ActiveSessionTarget \<Rightarrow> bool" where
  "target_active s now t =
     (let n = target_node_id t; sid = target_session_id t; aid = target_authority_id t in
      session_current s n sid
      \<and> session_is_fresh (session_liveness s) n sid aid now (heartbeat_timeout s)
      \<and> (quic_active s n sid aid \<or> tcp_active s n sid aid))"

definition wants :: "string option \<Rightarrow> string \<Rightarrow> bool" where
  "wants wanted n = (case wanted of None \<Rightarrow> True | Some m \<Rightarrow> m = n)"

definition target_at :: "ServerSessionSnapshot \<Rightarrow> SessionLiveness \<Rightarrow> ActiveSessionTarget" where
  "target_at x l = \<lparr>target_node_id = node_id x, target_session_id = session_id x,
                    target_authority_id = live_authority_id l\<rparr>"

definition session_live :: "ServerState \<Rightarrow> instant \<Rightarrow> ServerSessionSnapshot \<Rightarrow> SessionLiveness \<Rightarrow> bool" where
  "session_live s now x l =
     (live_session_id l = session_id x \<and> now - last_seen_at l \<le> heartbeat_timeout s
      \<and> (quic_active s (node_id x) (session_id x) (live_authority_id l)
          \<or> tcp_active s (node_id x) (session_id x) (live_authority_id l)))"

definition candidates_of :: "ServerState \<Rightarrow> string option \<Rightarrow> instant \<Rightarrow> ServerSessionSnapshot \<Rightarrow> ActiveSessionTarget list" where
  "candidates_of s wanted now x =
     (if connected x \<and> wants wanted (node_id x)
      then (case map_of (session_liveness s) (node_id x) of
              None \<Rightarrow> []
            | Some l \<Rightarrow> if session_live s now x l then [target_at x l] else [])
      else [])"

definition inactive_of :: "ServerState \<Rightarrow> string option \<Rightarrow> instant \<Rightarrow> ServerSessionSnapshot \<Rightarrow> authority_ref list" where
  "inactive_of s wanted now x =
     (if connected x \<and> wants wanted (node_id x)
      then (case map_of (session_liveness s) (node_id x) of
              None \<Rightarrow> []
            | Some l \<Rightarrow> if session_live s now x l then []
                        else [(node_id x, live_session_id l, live_authority_id l)])
      else [])"

definition closed_of :: "ServerState \<Rightarrow> string option \<Rightarrow> instant \<Rightarrow> ServerSessionSnapshot \<Rightarrow> authority_ref list" where
  "closed_of s wanted now x =
     (if connected x \<and> wants wanted (node_id x)
      then (case map_of (session_liveness s) (node_id x) of
              None \<Rightarrow> []
            | Some l \<Rightarrow>
                if live_session_id l = session_id x \<and> now - last_seen_at l \<le> heartbeat_timeout s
                   \<and> quic_dead s (node_id x) (session_id x) (live_authority_id l)
                then [(node_id x, session_id x, live_authority_id l)] else [])
      else [])"

lemma scan_session_fields:
  "scan_candidates (scan_session s w now x acc) = scan_candidates acc @ candidates_of s w now x"
  "scan_inactive (scan_session s w now x acc) = scan_inactive acc @ inactive_of s w now x"
  "scan_closed (scan_session s w now x acc) = scan_closed acc @ closed_of s w now x"
  by (auto simp: scan_session_def candidates_of_def inactive_of_def closed_of_def session_live_def
      target_at_def wants_def Let_def split: option.splits)

lemma fold_scan_fields:
  "scan_candidates (fold (\<lambda>(_, x) acc. scan_session s w now x acc) xs acc)
     = scan_candidates acc @ concat (map (\<lambda>e. candidates_of s w now (snd e)) xs)"
  "scan_inactive (fold (\<lambda>(_, x) acc. scan_session s w now x acc) xs acc)
     = scan_inactive acc @ concat (map (\<lambda>e. inactive_of s w now (snd e)) xs)"
  "scan_closed (fold (\<lambda>(_, x) acc. scan_session s w now x acc) xs acc)
     = scan_closed acc @ concat (map (\<lambda>e. closed_of s w now (snd e)) xs)"
  by (induction xs arbitrary: acc) (auto simp: scan_session_fields)

lemma scan_sessions_fields:
  "scan_candidates (scan_sessions s w now) = concat (map (\<lambda>e. candidates_of s w now (snd e)) (sessions s))"
  "scan_inactive (scan_sessions s w now) = concat (map (\<lambda>e. inactive_of s w now (snd e)) (sessions s))"
  "scan_closed (scan_sessions s w now) = concat (map (\<lambda>e. closed_of s w now (snd e)) (sessions s))"
  by (simp_all add: scan_sessions_def fold_scan_fields)

lemma inv_sessions:
  assumes "server_inv s"
  shows "(n, x) \<in> set (sessions s) \<longleftrightarrow> map_of (sessions s) n = Some x"
    and "map_of (sessions s) n = Some x \<Longrightarrow> node_id x = n"
proof -
  have d: "distinct (map fst (sessions s))" and k: "\<forall>(n, x) \<in> set (sessions s). node_id x = n"
    using assms by (simp_all add: server_inv_def keys_distinct_def entries_keyed_def)
  show iff: "(n, x) \<in> set (sessions s) \<longleftrightarrow> map_of (sessions s) n = Some x"
    using map_of_eq_Some_iff [OF d] by auto
  show "map_of (sessions s) n = Some x \<Longrightarrow> node_id x = n"
    using k iff by auto
qed

lemma target_eq_iff:
  "t = u \<longleftrightarrow> target_node_id t = target_node_id u \<and> target_session_id t = target_session_id u
     \<and> target_authority_id t = target_authority_id u" for t u :: ActiveSessionTarget
  by (auto intro: ActiveSessionTarget.equality)

lemma candidates_of_active:
  assumes "map_of (sessions s) n = Some x" "node_id x = n"
  shows "t \<in> set (candidates_of s w now x) \<longleftrightarrow>
     target_node_id t = n \<and> target_active s now t \<and> wants w (target_node_id t)"
proof (cases "map_of (session_liveness s) n")
  case None
  then have "candidates_of s w now x = []" using assms(2) by (simp add: candidates_of_def)
  moreover have "\<not> target_active s now t" if "target_node_id t = n"
    using that None by (simp add: target_active_def session_is_fresh_def Let_def)
  ultimately show ?thesis by auto
next
  case (Some l)
  let ?u = "target_at x l"
  have "candidates_of s w now x = (if connected x \<and> wants w n \<and> session_live s now x l then [?u] else [])"
    using Some assms(2) by (simp add: candidates_of_def)
  then have "t \<in> set (candidates_of s w now x) \<longleftrightarrow> connected x \<and> wants w n \<and> session_live s now x l \<and> t = ?u"
    by (cases "connected x \<and> wants w n \<and> session_live s now x l") auto
  also have "\<dots> \<longleftrightarrow> target_node_id t = n \<and> target_active s now t \<and> wants w (target_node_id t)"
  proof (cases "target_node_id t = n \<and> target_session_id t = session_id x
      \<and> target_authority_id t = live_authority_id l")
    case True
    then have "t = ?u" using assms(2) by (simp only: target_eq_iff) (simp add: target_at_def)
    with True Some assms show ?thesis
      by (auto simp: session_live_def target_active_def Let_def session_current_def session_is_fresh_def)
  next
    case False
    then have "t \<noteq> ?u" using assms(2) by (auto simp: target_at_def)
    with False Some assms show ?thesis
      by (auto simp: target_active_def Let_def session_current_def session_is_fresh_def)
  qed
  finally show ?thesis .
qed

lemma candidates_iff_active:
  assumes "server_inv s"
  shows "t \<in> set (scan_candidates (scan_sessions s w now)) \<longleftrightarrow> target_active s now t \<and> wants w (target_node_id t)"
proof -
  have "t \<in> set (scan_candidates (scan_sessions s w now)) \<longleftrightarrow>
      (\<exists>n x. map_of (sessions s) n = Some x \<and> t \<in> set (candidates_of s w now x))"
    using inv_sessions(1) [OF assms] by (force simp: scan_sessions_fields)
  also have "\<dots> \<longleftrightarrow> target_active s now t \<and> wants w (target_node_id t)"
  proof -
    have "\<exists>x. map_of (sessions s) (target_node_id t) = Some x" if "target_active s now t"
      using that by (auto simp: target_active_def Let_def session_current_def split: option.splits)
    then show ?thesis
      using inv_sessions(2) [OF assms] candidates_of_active [of s _ _ t w now] by metis
  qed
  finally show ?thesis .
qed

lemma candidates_of_shape:
  "candidates_of s w now x = [] \<or> (\<exists>l. candidates_of s w now x = [target_at x l])"
  by (cases "map_of (session_liveness s) (node_id x)") (auto simp: candidates_of_def)

lemma candidates_of_nodes:
  "length (candidates_of s w now y) \<le> 1"
  "target_node_id ` set (candidates_of s w now y) \<subseteq> {node_id y}"
  using candidates_of_shape [of s w now y] by (auto simp: target_at_def)

lemma distinct_candidate_nodes:
  assumes "distinct (map fst xs)" "\<forall>(n, x) \<in> set xs. node_id x = n"
  shows "distinct (map target_node_id (concat (map (\<lambda>e. candidates_of s w now (snd e)) xs)))"
  using assms
proof (induction xs)
  case (Cons e xs)
  obtain n x where e: "e = (n, x)" by force
  let ?rest = "concat (map (\<lambda>e. candidates_of s w now (snd e)) xs)"
  have one: "distinct (map target_node_id (candidates_of s w now x))"
    using candidates_of_shape [of s w now x] by (elim disjE exE) simp_all
  have sub: "target_node_id ` set ?rest \<subseteq> fst ` set xs"
  proof
    fix m assume t: "m \<in> target_node_id ` set ?rest"
    from t obtain k y where y: "(k, y) \<in> set xs" "m \<in> target_node_id ` set (candidates_of s w now y)"
      by auto
    then have "m = node_id y" using candidates_of_nodes(2) [of s w now y] by blast
    moreover have "node_id y = k" using y(1) Cons.prems(2) by auto
    ultimately show "m \<in> fst ` set xs" using y(1) by force
  qed
  have n: "n \<notin> fst ` set xs" "node_id x = n" using Cons.prems e by auto
  have "target_node_id ` set (candidates_of s w now x) \<inter> target_node_id ` set ?rest \<subseteq> {n} \<inter> fst ` set xs"
    using candidates_of_nodes(2) [of s w now x] sub n(2) by (intro Int_mono) simp_all
  also have "\<dots> = {}" using n(1) by simp
  finally have "target_node_id ` set (candidates_of s w now x) \<inter> target_node_id ` set ?rest = {}"
    by (rule subset_antisym) simp
  moreover have "distinct (map target_node_id ?rest)" using Cons by simp
  ultimately show ?case using one e by (simp only: list.map concat.simps map_append distinct_append snd_conv set_map)
qed simp

lemma target_active_unique:
  assumes "target_active s now t" "target_active s now u" "target_node_id t = target_node_id u"
  shows "t = u"
proof -
  have "target_session_id t = target_session_id u" "target_authority_id t = target_authority_id u"
    using assms by (auto simp: target_active_def Let_def session_current_def session_is_fresh_def
        split: option.splits)
  with assms(3) show ?thesis by (simp only: target_eq_iff)
qed

lemma pick_candidate_Some:
  "pick_candidate w ts = Some t \<longleftrightarrow> (\<exists>us. ts = t # us \<and> (w \<noteq> None \<or> us = []))"
  by (auto simp: pick_candidate_def split: list.splits)

text \<open>
  C1: Routing is exact and fail-closed.  For a named node, selection returns a
  target exactly when it is that node's active session: connected, heard from
  within the heartbeat timeout, and with an open QUIC connection or control
  channel of the current authority.  Without a name it returns a target exactly
  when it is the only active one, so an ambiguous choice is refused.
\<close>

theorem select_active_target_exact:
  assumes "server_inv s"
  shows "fst (select_active_target w now s) = Some t \<longleftrightarrow>
    target_active s now t
    \<and> (case w of Some n \<Rightarrow> target_node_id t = n | None \<Rightarrow> (\<forall>u. target_active s now u \<longrightarrow> u = t))"
proof -
  let ?ts = "scan_candidates (scan_sessions s w now)"
  note mem = candidates_iff_active [OF assms, of _ w now]
  have "distinct (map target_node_id ?ts)"
    unfolding scan_sessions_fields using assms
    by (intro distinct_candidate_nodes) (simp_all add: server_inv_def keys_distinct_def entries_keyed_def)
  then have dist: "distinct ?ts" by (simp add: distinct_map)
  have sel: "fst (select_active_target w now s) = pick_candidate w ?ts"
    by (simp add: select_active_target_def Let_def)
  show ?thesis
  proof (cases w)
    case None
    have "(\<exists>us. ?ts = t # us \<and> us = []) \<longleftrightarrow> t \<in> set ?ts \<and> (\<forall>u\<in>set ?ts. u = t)"
      using dist by (cases ?ts) (auto, metis list.set_intros(1) neq_Nil_conv)
    then show ?thesis unfolding sel pick_candidate_Some using None mem by (auto simp: wants_def)
  next
    case (Some n)
    have "u = v" if "u \<in> set ?ts" "v \<in> set ?ts" for u v
      using that mem target_active_unique Some by (auto simp: wants_def)
    then have "(\<exists>us. ?ts = t # us) \<longleftrightarrow> t \<in> set ?ts" by (cases ?ts) auto
    then show ?thesis unfolding sel pick_candidate_Some using Some mem by (auto simp: wants_def)
  qed
qed

section \<open>A superseded authority cannot act\<close>

lemma disconnect_stale [simp]:
  "\<not> authority_current s n sid aid \<Longrightarrow> disconnect_session_authority n sid aid s = (False, s)"
  by (simp add: disconnect_session_authority_def)

lemma expire_stale [simp]: "\<not> authority_current s n sid aid \<Longrightarrow> expire_session n sid aid s = s"
  by (simp add: expire_session_def)

lemma refresh_stale [simp]:
  "\<not> authority_current s n sid aid \<Longrightarrow> refresh_session_heartbeat_for_authority n sid aid now s = (False, s)"
  by (auto simp: refresh_session_heartbeat_for_authority_def authority_current_def split: option.splits)

lemma fresh_authority_current:
  "session_is_fresh (session_liveness s) n sid aid now timeout \<Longrightarrow> authority_current s n sid aid"
  by (auto simp: session_is_fresh_def authority_current_def split: option.splits)

lemma stale_not_fresh [simp]:
  "\<not> authority_current s n sid aid \<Longrightarrow> \<not> session_is_fresh (session_liveness s) n sid aid now timeout"
  using fresh_authority_current by blast

definition superseded :: "ServerState \<Rightarrow> string \<Rightarrow> uuid \<Rightarrow> uuid \<Rightarrow> bool" where
  "superseded s n sid aid =
     (case map_of (session_liveness s) n of
        None \<Rightarrow> False | Some l \<Rightarrow> (live_session_id l, live_authority_id l) \<noteq> (sid, aid))"

lemma superseded_not_current: "superseded s n sid aid \<Longrightarrow> \<not> authority_current s n sid aid"
  by (auto simp: superseded_def authority_current_def split: option.splits)

lemma superseded_unbound:
  assumes "server_inv s" "superseded s n sid aid"
  shows "quic_bound s n sid aid = None"
    and "map_of (tcp_controls s) n = Some c \<Longrightarrow> \<not> (control_session_id c = sid \<and> control_authority_id c = aid)"
proof -
  have coh: "authority_coherent s" using assms(1) by (simp add: server_inv_def)
  obtain l where l: "map_of (session_liveness s) n = Some l"
    and ne: "(live_session_id l, live_authority_id l) \<noteq> (sid, aid)"
    using assms(2) by (auto simp: superseded_def split: option.splits)
  show "quic_bound s n sid aid = None"
    using authority_coherentD(3) [OF coh l] ne by (auto simp: quic_bound_def split: option.splits)
  show "map_of (tcp_controls s) n = Some c \<Longrightarrow> \<not> (control_session_id c = sid \<and> control_authority_id c = aid)"
    using authority_coherentD(4) [OF coh l] ne by auto
qed


section \<open>Authority ids do not come back\<close>

lemma authority_current_shrinks:
  assumes "shrinks s' s" "authority_current s' n sid aid"
  shows "authority_current s n sid aid"
proof -
  have "proj_sub live_ids (session_liveness s') (session_liveness s)" using assms(1) by (simp only: shrinks_def)
  then show ?thesis
    using assms(2) proj_subD [of live_ids "session_liveness s'" "session_liveness s" n]
    by (auto simp: authority_current_def split: option.splits)
qed

lemma server_op_cases_shrink:
  assumes "server_inv s"
  shows "(\<exists>n sid a aid now. p = OpReplace n sid a aid now)
       \<or> (\<exists>t i now wait r. p = OpInsertPending t i now wait r)
       \<or> shrinks (server_op s p) s"
  using assms by (cases p) (simp_all add: shrinks_all control_send_def close_quic_def)

lemma insert_pending_keeps:
  "session_liveness (snd (insert_pending t i now wait r s)) = session_liveness s"
  "sessions (snd (insert_pending t i now wait r s)) = sessions s"
  "connections (snd (insert_pending t i now wait r s)) = connections s"
  "tcp_controls (snd (insert_pending t i now wait r s)) = tcp_controls s"
  by (simp_all add: insert_pending_def)

lemma step_keeps_stale:
  assumes "server_step w p w'" "server_inv (snd w)" "aid \<in> set (fst w)"
    "\<not> authority_current (snd w) n sid aid"
  shows "aid \<in> set (fst w') \<and> \<not> authority_current (snd w') n sid aid"
  using assms(1)
proof cases
  case (step_replace aid' issued s m sid' a now)
  then have "map_of (session_liveness (snd w')) = (map_of (session_liveness s))
      (m \<mapsto> \<lparr>live_session_id = sid', live_authority_id = aid', last_seen_at = now\<rparr>)"
    by (simp add: replace_fields)
  with step_replace assms(3,4) show ?thesis
    by (auto simp: authority_current_def)
next
  case (step_other issued s)
  then have "shrinks (server_op s p) s \<or> session_liveness (server_op s p) = session_liveness s"
    using server_op_cases_shrink [of s p] assms(2) by (auto simp: insert_pending_keeps)
  with step_other assms(3,4) show ?thesis
    using authority_current_shrinks [of "server_op s p" s]
    by (auto simp: authority_current_def simp del: server_op.simps)
qed

definition server_steps :: "uuid list \<times> ServerState \<Rightarrow> uuid list \<times> ServerState \<Rightarrow> bool" where
  "server_steps = (\<lambda>w w'. \<exists>p. server_step w p w')\<^sup>*\<^sup>*"

lemma server_steps_reach: "server_reach w \<Longrightarrow> server_steps w w' \<Longrightarrow> server_reach w'"
  unfolding server_steps_def
  by (rotate_tac, induction rule: rtranclp_induct) (auto intro: reach_step)

text \<open>
  An authority that has been displaced or disconnected never becomes
  current again, in any interleaving of the registry's operations.
\<close>

theorem authority_never_returns:
  assumes "server_reach w" "aid \<in> set (fst w)" "\<not> authority_current (snd w) n sid aid"
    and "server_steps w w'"
  shows "\<not> authority_current (snd w') n sid aid"
proof -
  have "server_reach w' \<and> aid \<in> set (fst w') \<and> \<not> authority_current (snd w') n sid aid"
    using assms(4) unfolding server_steps_def
  proof (induction rule: rtranclp_induct)
    case base
    then show ?case using assms by simp
  next
    case (step y z)
    then show ?case using step_keeps_stale server_reach_inv by (blast intro: reach_step)
  qed
  then show ?thesis by simp
qed

text \<open>
  Resource bounds in every reachable state: at most 256 pending requests,
  at most 32 per node, at most 32 reserved streams per node, and never a QUIC
  connection and a TCP control channel for the same node.
\<close>

theorem registry_bounds:
  assumes "server_reach w"
  shows "length (pending_tcp (snd w)) \<le> 256
    \<and> pending_for (snd w) n \<le> 32
    \<and> reserved_length n (snd w) \<le> 32
    \<and> (map_of (connections (snd w)) n = None \<or> map_of (tcp_controls (snd w)) n = None)"
proof -
  have inv: "server_inv (snd w)" using assms by (rule server_reach_inv)
  then have "reserved_ok (reserved_tcp (snd w))"
    using server_inv_parts by (auto simp: shrinks_def)
  then have "reserved_length n (snd w) \<le> 32"
    using reserved_ok_lookup by (auto simp: reserved_length_def MAX_RESERVED_TCP_STREAMS_PER_NODE_def split: option.splits)
  with inv show ?thesis
    using authority_coherentD(1) [of "snd w" n]
    by (simp add: server_inv_def capacity_bounded_def MAX_PENDING_TCP_STREAMS_def
        MAX_PENDING_TCP_STREAMS_PER_NODE_def)
qed

section \<open>Delivery of streams\<close>

lemma accept_Inr_iff:
  "accept_tcp_proxy_stream n sid i h now s = (Inr (), s') \<longleftrightarrow>
     (\<exists>r. map_of (pending_tcp s) i = Some r \<and> pending_stream_id r = i
        \<and> expected_node_id r = n \<and> expected_session_id r = sid \<and> now < pending_deadline r
        \<and> session_current s n sid
        \<and> session_is_fresh (session_liveness s) n sid (expected_authority_id r) now (heartbeat_timeout s)
        \<and> tcp_active s n sid (expected_authority_id r)
        \<and> response_sender r \<notin> set (requester_closed s)
        \<and> s' = s\<lparr>pending_tcp := AList.delete i (pending_tcp s), delivered := (i, h) # delivered s\<rparr>)"
  using fresh_authority_current [of s n sid _ now "heartbeat_timeout s"]
  by (auto simp: accept_tcp_proxy_stream_def accept_section_def drop_pending_def is_expired_def
      request_is_served_def request_authority_current_def Let_def
      split: option.splits if_splits)

lemma accept_twice:
  "accept_tcp_proxy_stream n sid i h' now' (s\<lparr>pending_tcp := AList.delete i ps, delivered := d\<rparr>)
     = (Inl UnexpectedStreamId, s\<lparr>pending_tcp := AList.delete i ps, delivered := d\<rparr>)"
  by (simp add: accept_tcp_proxy_stream_def accept_section_def alist_simps)

text \<open>
  A stream reaches a requester exactly when the registry still holds an
  unexpired request with that id for the same node and session, the authority
  the request was opened under is current, fresh and has an open control channel,
  and the requester still listens.  Delivery consumes the request, so the same id
  is never accepted twice.
\<close>

theorem accept_tcp_proxy_stream_exact:
  "accept_tcp_proxy_stream n sid i h now s = (Inr (), s') \<longleftrightarrow>
     (\<exists>r. map_of (pending_tcp s) i = Some r \<and> pending_stream_id r = i
        \<and> expected_node_id r = n \<and> expected_session_id r = sid \<and> now < pending_deadline r
        \<and> session_current s n sid
        \<and> session_is_fresh (session_liveness s) n sid (expected_authority_id r) now (heartbeat_timeout s)
        \<and> tcp_active s n sid (expected_authority_id r)
        \<and> response_sender r \<notin> set (requester_closed s)
        \<and> s' = s\<lparr>pending_tcp := AList.delete i (pending_tcp s), delivered := (i, h) # delivered s\<rparr>
        \<and> (\<forall>h' now'. accept_tcp_proxy_stream n sid i h' now' s' = (Inl UnexpectedStreamId, s')))"
  by (auto simp: accept_Inr_iff [of n sid i h now s s'] accept_twice)

section \<open>Opening a stream\<close>

lemma take_reserved_belongs:
  assumes "take_reserved_tcp_stream t s = (Some h, s')"
  shows "\<exists>r xs. map_of (reserved_tcp s) (target_node_id t) = Some xs \<and> r \<in> set xs \<and> reserved_stream r = h
     \<and> reserved_session_id r = target_session_id t \<and> reserved_authority_id r = target_authority_id t"
proof -
  obtain xs rest where xs: "map_of (reserved_tcp s) (target_node_id t) = Some xs"
    and pop: "pop_matching (target_session_id t) (target_authority_id t) (rev xs) = Some (h, rest)"
    using assms by (auto simp: take_reserved_tcp_stream_def split: option.splits)
  from pop_matching_suffix [OF pop] obtain pre r where "rev xs = pre @ r # rest"
    "reserved_session_id r = target_session_id t" "reserved_authority_id r = target_authority_id t"
    "reserved_stream r = h" by blast
  moreover then have "r \<in> set xs" by (metis in_set_conv_decomp set_rev)
  ultimately show ?thesis using xs by blast
qed

text \<open>The reserved streams of a target that the network has not broken.\<close>

definition reserved_for :: "ActiveSessionTarget \<Rightarrow> ServerState \<Rightarrow> handle set" where
  "reserved_for t s =
     {reserved_stream r | r xs. map_of (reserved_tcp s) (target_node_id t) = Some xs \<and> r \<in> set xs
        \<and> reserved_session_id r = target_session_id t \<and> reserved_authority_id r = target_authority_id t}"

lemma take_reserved_None: "take_reserved_tcp_stream t s = (None, s') \<Longrightarrow> reserved_for t s = {}"
proof -
  assume none: "take_reserved_tcp_stream t s = (None, s')"
  have "\<not> (\<exists>r\<in>set ys. reserved_session_id r = sid \<and> reserved_authority_id r = aid)"
    if "pop_matching sid aid ys = None" for sid aid ys
    using that by (induction ys) (auto split: if_splits)
  then show ?thesis
    using none by (fastforce simp: take_reserved_tcp_stream_def reserved_for_def split: option.splits)
qed

lemma take_reserved_Some:
  assumes "take_reserved_tcp_stream t s = (Some h, s')"
  shows "h \<in> reserved_for t s" "reserved_for t s \<subseteq> insert h (reserved_for t s')"
    "stream_broken s' = stream_broken s"
proof -
  show "h \<in> reserved_for t s" using take_reserved_belongs [OF assms] by (auto simp: reserved_for_def)
  show "stream_broken s' = stream_broken s"
    using assms by (auto simp: take_reserved_tcp_stream_def split: option.splits)
  have keep: "r \<in> set rest \<or> reserved_stream r = k"
    if "pop_matching sid aid ys = Some (k, rest)" "r \<in> set ys" "reserved_session_id r = sid"
      "reserved_authority_id r = aid" for sid aid ys k rest r
    using that by (induction ys) (auto split: if_splits)
  show "reserved_for t s \<subseteq> insert h (reserved_for t s')"
    using assms keep
    by (fastforce simp: take_reserved_tcp_stream_def reserved_for_def alist_simps split: option.splits)
qed

lemma reserved_subset:
  assumes "take_reserved_tcp_stream t s = (Some k, s')"
  shows "reserved_for t s' \<subseteq> reserved_for t s"
proof -
  obtain xs rest where xs: "map_of (reserved_tcp s) (target_node_id t) = Some xs"
    and pop: "pop_matching (target_session_id t) (target_authority_id t) (rev xs) = Some (k, rest)"
    and s': "s' = s\<lparr>reserved_tcp := AList.update (target_node_id t) (rev rest) (reserved_tcp s)\<rparr>"
    using assms by (auto simp: take_reserved_tcp_stream_def split: option.splits)
  from pop_matching_suffix [OF pop] obtain pre r where "rev xs = pre @ r # rest" by blast
  then have "set rest \<subseteq> set xs" by (metis set_append set_rev sup.cobounded2 set_subset_Cons subset_trans)
  then show ?thesis using xs by (auto simp: s' reserved_for_def alist_simps)
qed

lemma take_writable_sound:
  "fst (take_writable_reserved t ids protocol s) = Some h \<Longrightarrow> h \<in> reserved_for t s \<and> h \<notin> set (stream_broken s)"
proof (induction t ids protocol s rule: take_writable_reserved.induct)
  case (1 t ids protocol s)
  obtain o1 s1 where take: "take_reserved_tcp_stream t s = (o1, s1)" by force
  show ?case
  proof (cases o1)
    case None
    with 1 (2-) take show ?thesis by (simp add: take_writable_reserved.simps [of t ids protocol s])
  next
    case (Some k)
    note tk = take_reserved_Some [OF take [unfolded Some]]
    show ?thesis
    proof (cases "k \<in> set (stream_broken s1)")
      case True
      then have w: "write_server_frame k (OpenProxy (ids 0) protocol) s1 = (False, s1)"
        by (simp add: write_server_frame_def)
      have sub: "reserved_for t s1 \<subseteq> reserved_for t s"
        using take Some reserved_subset by simp
      have "fst (take_writable_reserved t (\<lambda>n. ids (Suc n)) protocol s1) = Some h"
        using 1 (2-) take Some w by (simp add: take_writable_reserved.simps [of t ids protocol s])
      then have "h \<in> reserved_for t s1 \<and> h \<notin> set (stream_broken s1)"
        by (intro 1 (1) [of o1 s1 k False s1]) (simp_all add: take Some w)
      then show ?thesis using tk sub by auto
    next
      case False
      then have "h = k"
        using 1 (2-) take Some by (simp add: take_writable_reserved.simps [of t ids protocol s] write_server_frame_def)
      with False tk show ?thesis by simp
    qed
  qed
qed

lemma take_writable_complete:
  "k \<in> reserved_for t s \<Longrightarrow> k \<notin> set (stream_broken s) \<Longrightarrow> fst (take_writable_reserved t ids protocol s) \<noteq> None"
proof (induction t ids protocol s rule: take_writable_reserved.induct)
  case (1 t ids protocol s)
  obtain o1 s1 where take: "take_reserved_tcp_stream t s = (o1, s1)" by force
  with 1 (2-) take_reserved_None [of t s s1] obtain h where Some: "o1 = Some h" by (cases o1) auto
  note tk = take_reserved_Some [OF take [unfolded Some]]
  show ?case
  proof (cases "h \<in> set (stream_broken s1)")
    case True
    then have w: "write_server_frame h (OpenProxy (ids 0) protocol) s1 = (False, s1)"
      by (simp add: write_server_frame_def)
    from 1 (2-) tk True have "k \<in> reserved_for t s1" "k \<notin> set (stream_broken s1)" by auto
    then have "fst (take_writable_reserved t (\<lambda>n. ids (Suc n)) protocol s1) \<noteq> None"
      by (intro 1 (1) [of o1 s1 h False s1]) (simp_all add: take Some w)
    then show ?thesis using take Some w by (simp add: take_writable_reserved.simps [of t ids protocol s])
  next
    case False
    then show ?thesis
      using take Some by (simp add: take_writable_reserved.simps [of t ids protocol s] write_server_frame_def)
  qed
qed

text \<open>The states in which the rounds of the reserve loop start.\<close>

fun round_states ::
  "ActiveSessionTarget \<Rightarrow> (nat \<Rightarrow> nat \<Rightarrow> uuid) \<Rightarrow> ProxyProtocol \<Rightarrow> (ServerState \<Rightarrow> ServerState) list
     \<Rightarrow> ServerState \<Rightarrow> ServerState list" where
  "round_states t ids protocol [] s = [s]"
| "round_states t ids protocol (w # ws) s =
     s # round_states t (\<lambda>n. ids (Suc n)) protocol ws (w (snd (take_writable_reserved t (ids 0) protocol s)))"

lemma reserve_rounds_sound:
  "fst (reserve_rounds t ids protocol ws s) = Some h \<Longrightarrow>
     \<exists>s1\<in>set (round_states t ids protocol ws s). h \<in> reserved_for t s1 \<and> h \<notin> set (stream_broken s1)"
proof (induction ws arbitrary: ids s)
  case Nil
  then show ?case using take_writable_sound by simp
next
  case (Cons w ws)
  obtain o1 s1 where take: "take_writable_reserved t (ids 0) protocol s = (o1, s1)" by force
  show ?case
  proof (cases o1)
    case None
    with Cons.prems take have "fst (reserve_rounds t (\<lambda>n. ids (Suc n)) protocol ws (w s1)) = Some h" by simp
    with Cons.IH [of "\<lambda>n. ids (Suc n)" "w s1"] take show ?thesis by simp
  next
    case (Some k)
    with Cons.prems take have "fst (take_writable_reserved t (ids 0) protocol s) = Some h" by simp
    from take_writable_sound [OF this] show ?thesis by simp
  qed
qed

lemma reserve_rounds_first:
  assumes "fst (take_writable_reserved t (ids 0) protocol s) \<noteq> None"
  shows "reserve_rounds t ids protocol ws s = take_writable_reserved t (ids 0) protocol s"
  using assms by (cases ws; cases "take_writable_reserved t (ids 0) protocol s") auto

lemma open_pending_result:
  assumes "open_pending_stream env t protocol wait control s = (Inr h, s')"
  shows "\<exists>s1. map_of (delivered s1) (env_stream_id env) = Some h \<and> s' = drop_pending (env_stream_id env) s1"
  using assms by (auto simp: open_pending_stream_def await_response_def Let_def
      split: prod.splits sum.splits if_splits option.splits)

text \<open>
  If a reserved stream of exactly the target's session and authority is idle
  and writable, opening a stream succeeds in the first round with such a stream:
  no new cellular handshake is needed.
\<close>

theorem open_uses_reserved_stream:
  assumes "target_supports_reserved_tcp t s" "k \<in> reserved_for t s" "k \<notin> set (stream_broken s)"
  shows "\<exists>h s'. open_tcp_proxy_for_target_with_timeout env t protocol wait s = (Inr h, s')
        \<and> h \<in> reserved_for t s \<and> h \<notin> set (stream_broken s)"
proof -
  let ?take = "take_writable_reserved t (env_reserve_ids env 0) protocol s"
  obtain h s1 where h: "?take = (Some h, s1)"
    using take_writable_complete [OF assms(2,3)] by (metis not_None_eq prod.collapse)
  then have "reserve_rounds t (env_reserve_ids env) protocol (env_wakes env) s = (Some h, s1)"
    by (simp add: reserve_rounds_first)
  then show ?thesis
    using assms(1) take_writable_sound [of t "env_reserve_ids env 0" protocol s h] h
    by (simp add: open_tcp_proxy_for_target_with_timeout_def)
qed

text \<open>
  Whatever stream an open returns is either a reserved, writable stream of
  exactly the target's session and authority in the state of one of its rounds,
  or one that was delivered under the request id the open itself generated.
\<close>

theorem open_returns_own_streams:
  assumes "open_tcp_proxy_for_target_with_timeout env t protocol wait s = (Inr h, s')"
  shows "(\<exists>s1\<in>set (round_states t (env_reserve_ids env) protocol (env_wakes env) s).
         h \<in> reserved_for t s1 \<and> h \<notin> set (stream_broken s1))
      \<or> (\<exists>s1. map_of (delivered s1) (env_stream_id env) = Some h \<and> s' = drop_pending (env_stream_id env) s1)"
proof (cases "fst (reserve_rounds t (env_reserve_ids env) protocol (env_wakes env) s) = Some h
      \<and> target_supports_reserved_tcp t s")
  case True
  then show ?thesis using reserve_rounds_sound by blast
next
  case False
  with assms have "\<exists>control s2. open_pending_stream env t protocol wait control s2 = (Inr h, s')"
    by (auto simp: open_tcp_proxy_for_target_with_timeout_def split: prod.splits option.splits if_splits)
  then show ?thesis using open_pending_result by blast
qed

text \<open>
  A pending request never outlives the call that made it.  Whatever happens
  while the call waits (timeout, cancellation, closed control channel, delivery),
  its id is absent from the pending table when it returns, and the tables other
  calls use keep their own entries.
\<close>

theorem open_pending_leaves_no_request:
  assumes "map_of (pending_tcp s) (env_stream_id env) = None"
  shows "map_of (pending_tcp (snd (open_pending_stream env t protocol wait control s))) (env_stream_id env) = None"
  using assms
  by (auto simp: open_pending_stream_def insert_pending_def drop_pending_def alist_simps Let_def
      split: prod.splits sum.splits if_splits)

section \<open>Public operations as sequences of atomic ones\<close>

definition reaches :: "ServerState \<Rightarrow> ServerState \<Rightarrow> bool" where
  "reaches s s' = (\<exists>ops. s' = server_run ops s)"

lemma reaches_refl [simp, intro]: "reaches s s"
  unfolding reaches_def server_run_def by (intro exI [of _ "[]"]) simp

lemma reaches_op: "reaches s (server_op s p)"
  unfolding reaches_def server_run_def by (intro exI [of _ "[p]"]) simp

lemma reaches_trans [trans]: "reaches s s' \<Longrightarrow> reaches s' s'' \<Longrightarrow> reaches s s''"
  unfolding reaches_def server_run_def by (metis comp_apply fold_append)

lemma reaches_fold: "(\<And>x s. reaches s (f x s)) \<Longrightarrow> reaches s (fold f xs s)"
  by (induction xs arbitrary: s) (auto intro: reaches_trans)

lemma reaches_ops [simp, intro]:
  "reaches s (snd (disconnect_session_authority n sid aid s))"
  "reaches s (expire_session n sid aid s)"
  "reaches s (remove_quic_connection_for_authority n sid aid s)"
  "reaches s (remove_tcp_control_for_authority n sid aid s)"
  "reaches s (cancel_pending_for_authority n sid aid s)"
  "reaches s (snd (refresh_session_heartbeat_for_authority n sid aid now s))"
  "reaches s (record_heartbeat_sequence n sid sq s)"
  "reaches s (snd (register_reserved_authorize n sid s))"
  "reaches s (snd (register_reserved_push n sid aid h s))"
  "reaches s (snd (take_reserved_tcp_stream t s))"
  "reaches s (snd (write_server_frame h f s))"
  "reaches s (snd (insert_pending t i now wait r s))"
  "reaches s (drop_pending i s)"
  "reaches s (control_send h f s)"
  "reaches s (snd (accept_section n sid i h now s))"
  "reaches s (mark_session_disconnected n sid s)"
  "reaches s (remove_session_liveness n sid s)"
  using reaches_op [of s "OpDisconnect n sid aid"] reaches_op [of s "OpRemoveQuic n sid aid"]
    reaches_op [of s "OpRemoveControl n sid aid"] reaches_op [of s "OpCancelPending n sid aid"]
    reaches_op [of s "OpRefresh n sid aid now"] reaches_op [of s "OpHeartbeatSequence n sid sq"]
    reaches_op [of s "OpReserveAuthorize n sid"] reaches_op [of s "OpReservePush n sid aid h"]
    reaches_op [of s "OpTakeReserved t"] reaches_op [of s "OpWriteStream h f"]
    reaches_op [of s "OpInsertPending t i now wait r"] reaches_op [of s "OpDropPending i"]
    reaches_op [of s "OpControlSend h f"] reaches_op [of s "OpAccept n sid i h now"]
    reaches_op [of s "OpMarkDisconnected n sid"] reaches_op [of s "OpRemoveLiveness n sid"]
  by (simp_all add: expire_session_def)

lemma reaches_select: "reaches s (snd (select_active_target w now s))"
proof -
  let ?scan = "scan_sessions s w now"
  have "reaches s (remove_all_closed (scan_closed ?scan) s)"
    unfolding remove_all_closed_def by (rule reaches_fold) auto
  also have "reaches \<dots> (expire_all (scan_inactive ?scan) (remove_all_closed (scan_closed ?scan) s))"
    unfolding expire_all_def by (rule reaches_fold) auto
  finally show ?thesis by (simp add: select_active_target_def Let_def)
qed

lemma reaches_select_control: "reaches s (snd (select_tcp_control_for_target t now s))"
  by (auto simp: select_tcp_control_for_target_def Let_def)

lemma reaches_active_connection: "reaches s (snd (active_connection_for_target t now s))"
  by (auto simp: active_connection_for_target_def Let_def intro: reaches_trans)

lemma reaches_accept: "reaches s (snd (accept_tcp_proxy_stream n sid i h now s))"
proof -
  obtain d s1 where sec: "accept_section n sid i h now s = (d, s1)" by force
  then have "reaches s s1" using reaches_ops(15) [of s n sid i h now] by simp
  with sec show ?thesis
    by (cases d) (auto simp: accept_tcp_proxy_stream_def intro: reaches_trans)
qed

lemma reaches_shutdown: "reaches s (shutdown_tcp s)"
proof -
  let ?s1 = "s\<lparr>tcp_controls := [], pending_tcp := [], reserved_tcp := []\<rparr>"
  have "?s1 = server_run [OpDrainControls, OpClearPending, OpClearReserved] s" by (simp add: server_run_def)
  then have "reaches s ?s1" unfolding reaches_def by blast
  moreover have "reaches ?s1 (fold (\<lambda>(n, sid) st. remove_session_liveness n sid (mark_session_disconnected n sid st))
      (map (\<lambda>(n, c). (n, control_session_id c)) (tcp_controls s)) ?s1)"
    by (rule reaches_fold) (auto split: prod.splits intro: reaches_trans)
  ultimately show ?thesis unfolding shutdown_tcp_def Let_def by (rule reaches_trans)
qed

lemma reaches_heartbeat:
  assumes "\<And>s. reaches s (between s)"
  shows "reaches s (mark_heartbeat between hb aid now s)"
proof -
  let ?r = "refresh_session_heartbeat_for_authority (heartbeat_node_id hb) (heartbeat_session_id hb) aid now s"
  have "reaches s (snd ?r)" by simp
  then show ?thesis
    using assms [of "snd ?r"]
    by (cases ?r; cases "fst ?r") (auto simp: mark_heartbeat_def intro: reaches_trans)
qed

lemma reaches_register:
  assumes "\<And>s. reaches s (between s)"
  shows "reaches s (snd (register_reserved_tcp_stream between n sid h s))"
proof -
  let ?r = "register_reserved_authorize n sid s"
  have "reaches s (snd ?r)" by simp
  then show ?thesis
    using assms [of "snd ?r"]
    by (cases ?r; cases "fst ?r") (auto simp: register_reserved_tcp_stream_def intro: reaches_trans)
qed

lemma reaches_take_writable: "reaches s (snd (take_writable_reserved t ids protocol s))"
proof (induction t ids protocol s rule: take_writable_reserved.induct)
  case (1 t ids protocol s)
  obtain o1 s1 where take: "take_reserved_tcp_stream t s = (o1, s1)" by force
  then have r1: "reaches s s1" using reaches_ops(10) [of s t] by simp
  show ?case
  proof (cases o1)
    case None
    with take r1 show ?thesis by (simp add: take_writable_reserved.simps [of t ids protocol s])
  next
    case (Some h)
    obtain ok s2 where w: "write_server_frame h (OpenProxy (ids 0) protocol) s1 = (ok, s2)" by force
    then have r2: "reaches s1 s2" using reaches_ops(11) [of s1 h "OpenProxy (ids 0) protocol"] by simp
    have "reaches s2 (snd (take_writable_reserved t (\<lambda>n. ids (Suc n)) protocol s2))" if "\<not> ok"
      using that by (intro 1 (1) [of o1 s1 h ok s2]) (simp_all add: take Some w)
    with r1 r2 take Some w show ?thesis
      by (cases ok) (auto simp: take_writable_reserved.simps [of t ids protocol s] intro: reaches_trans)
  qed
qed

lemma reaches_rounds:
  assumes "\<And>w s. w \<in> set ws \<Longrightarrow> reaches s (w s)"
  shows "reaches s (snd (reserve_rounds t ids protocol ws s))"
  using assms
proof (induction ws arbitrary: ids s)
  case Nil
  then show ?case by (simp add: reaches_take_writable)
next
  case (Cons w ws)
  obtain o1 s1 where take: "take_writable_reserved t (ids 0) protocol s = (o1, s1)" by force
  then have "reaches s s1" using reaches_take_writable [of s t "ids 0" protocol] by simp
  moreover have "reaches s1 (w s1)" using Cons.prems by simp
  moreover have "reaches (w s1) (snd (reserve_rounds t (\<lambda>n. ids (Suc n)) protocol ws (w s1)))"
    using Cons by simp
  ultimately show ?case using take by (cases o1) (auto intro: reaches_trans)
qed

definition env_runs :: "OpenEnv \<Rightarrow> bool" where
  "env_runs env = ((\<forall>w\<in>set (env_wakes env). \<forall>s. reaches s (w s))
     \<and> (\<forall>s. reaches s (env_during_send env s)) \<and> (\<forall>s. reaches s (env_during_wait env s)))"

lemma reaches_open_pending:
  assumes "env_runs env"
  shows "reaches s (snd (open_pending_stream env t protocol wait control s))"
proof -
  let ?i = "env_stream_id env"
  obtain r s1 where ins: "insert_pending t ?i (env_now_insert env) wait (env_requester env) s = (r, s1)" by force
  then have r1: "reaches s s1"
    using reaches_ops(12) [of s t ?i "env_now_insert env" wait "env_requester env"] by simp
  define s2 where "s2 = env_during_send env s1"
  define s3 where "s3 = env_during_wait env (control_send control (OpenProxy ?i protocol) s2)"
  have r2: "reaches s s2" using r1 assms unfolding s2_def env_runs_def by (blast intro: reaches_trans)
  have "reaches s2 (control_send control (OpenProxy ?i protocol) s2)" by simp
  then have r3: "reaches s s3" using r2 assms unfolding s3_def env_runs_def by (blast intro: reaches_trans)
  have drop: "reaches s (drop_pending ?i s2)" "reaches s (drop_pending ?i s3)"
    using r2 r3 by (blast intro: reaches_trans)+
  have "reaches s (drop_pending ?i (cancel_pending_for_authority (target_node_id t) (target_session_id t)
      (target_authority_id t) (remove_tcp_control_for_authority (target_node_id t) (target_session_id t)
      (target_authority_id t) s2)))"
    using r2 by (meson reaches_ops reaches_trans)
  with ins r1 drop show ?thesis
    by (simp add: open_pending_stream_def Let_def s2_def s3_def split: sum.splits)
qed

text \<open>
  Every public operation of the registry is a sequence of its atomic
  operations, with whatever the other tasks do at its suspension points in
  between.  The invariant of the atomic operations therefore holds before and
  after each of them, in every interleaving.
\<close>

theorem public_operations_interleave:
  assumes "env_runs env" "\<forall>s. reaches s (between s)"
  shows "reaches s (snd (select_active_target w now s))
    \<and> reaches s (snd (active_connection w now s))
    \<and> reaches s (snd (open_tcp_proxy_for_target env t protocol s))
    \<and> reaches s (snd (accept_tcp_proxy_stream n sid i h now s))
    \<and> reaches s (snd (register_reserved_tcp_stream between n sid h s))
    \<and> reaches s (mark_heartbeat between hb aid now s)
    \<and> reaches s (mark_disconnected hello aid s)
    \<and> reaches s (shutdown_tcp s)"
proof -
  have conn: "reaches s (snd (active_connection w now s))"
    using reaches_select [of s w now]
    by (auto simp: active_connection_def split: prod.splits option.splits
        intro: reaches_trans reaches_active_connection)
  obtain o1 s1 where res: "(if target_supports_reserved_tcp t s
      then reserve_rounds t (env_reserve_ids env) protocol (env_wakes env) s else (None, s)) = (o1, s1)" by force
  have r1: "reaches s s1"
    using res reaches_rounds [of "env_wakes env" s t "env_reserve_ids env" protocol] assms(1)
    by (auto simp: env_runs_def split: if_splits)
  obtain o2 s2 where sel: "select_tcp_control_for_target t (env_now_select env) s1 = (o2, s2)" by force
  have r2: "reaches s s2"
    using r1 reaches_select_control [of s1 t "env_now_select env"] sel by (auto intro: reaches_trans)
  have "reaches s (snd (open_tcp_proxy_for_target env t protocol s))"
    unfolding open_tcp_proxy_for_target_def open_tcp_proxy_for_target_with_timeout_def res
    using r1 r2 sel reaches_open_pending [OF assms(1)]
    by (auto split: option.splits intro: reaches_trans)
  with conn show ?thesis
    using assms(2)
    by (simp add: reaches_select reaches_accept reaches_register reaches_heartbeat reaches_shutdown
        mark_disconnected_def)
qed

section \<open>A heartbeat racing with an expiry\<close>

text \<open>
  A registry with one authenticated QUIC session, the heartbeat of that session,
  and what another task can do between the two critical sections of
  \<open>mark_heartbeat\<close>: the connection closes and a routing decision expires the
  session.
\<close>

definition quic_registry :: ServerState where
  "quic_registry = snd (replace_session_authority ''phone'' 1 (AuthorityQuic 7) 2 0 ServerState_default)"

definition phone_heartbeat :: TunnelHeartbeat where
  "phone_heartbeat = \<lparr>heartbeat_node_id = ''phone'', heartbeat_session_id = 1, heartbeat_sequence = 5\<rparr>"

definition phone_hello :: TunnelHello where
  "phone_hello = \<lparr>hello_node_id = ''phone'', hello_session_id = 1, protocol_version = 1, hello_auth_token = ''t''\<rparr>"

definition connection_lost_and_expired :: "instant \<Rightarrow> ServerState \<Rightarrow> ServerState" where
  "connection_lost_and_expired now s = snd (select_active_target (Some ''phone'') now (close_quic 7 s))"

lemmas registry_eval = quic_registry_def phone_heartbeat_def phone_hello_def connection_lost_and_expired_def
  ServerState_default_def replace_session_authority_def disconnect_session_authority_def expire_session_def
  mark_heartbeat_def mark_disconnected_def refresh_session_heartbeat_for_authority_def
  record_heartbeat_sequence_def select_active_target_def scan_sessions_def scan_session_def
  remove_all_closed_def expire_all_def remove_quic_connection_for_authority_def remove_session_bound_def
  close_quic_def session_current_def authority_current_def quic_active_def quic_dead_def quic_bound_def
  tcp_active_def DEFAULT_SESSION_HEARTBEAT_TIMEOUT_def Let_def pick_candidate_def has_active_session_def

text \<open>
  The heartbeat of a session that expires between the two critical sections
  of \<open>mark_heartbeat\<close> marks the expired session as connected again.  The
  snapshot then reports a connected session that routing refuses, and the
  handler's own \<open>mark_disconnected\<close> does not correct it, because the authority
  is no longer current.
\<close>

theorem heartbeat_race_reports_expired_session_connected:
  "let s = mark_heartbeat (connection_lost_and_expired 100) phone_heartbeat 2 100 quic_registry;
       s' = mark_disconnected phone_hello 2 s in
   map connected (snapshot s') = [True]
   \<and> fst (has_active_session (Some ''phone'') 100 s') = False
   \<and> session_liveness s' = []"
  by (simp add: registry_eval snapshot_def)

section \<open>Witnesses\<close>

definition tcp_registry :: ServerState where
  "tcp_registry = server_op ServerState_default (OpReplace ''phone'' 1 (AuthorityTcp 7) 2 0)"

definition reserved_registry :: ServerState where
  "reserved_registry = server_op (server_op tcp_registry (OpReserveAuthorize ''phone'' 1)) (OpReservePush ''phone'' 1 2 9)"

definition phone_target :: ActiveSessionTarget where
  "phone_target = \<lparr>target_node_id = ''phone'', target_session_id = 1, target_authority_id = 2\<rparr>"

definition idle_env :: OpenEnv where
  "idle_env = \<lparr>env_wakes = [], env_reserve_ids = (\<lambda>_ _. 11), env_stream_id = 12, env_requester = 3,
     env_now_select = 5, env_now_insert = 6, env_send_times_out = False,
     env_during_send = (\<lambda>s. s), env_during_wait = (\<lambda>s. s)\<rparr>"

lemma tcp_registry_eval:
  "tcp_registry = ServerState_default
     \<lparr>sessions := [(''phone'', \<lparr>node_id = ''phone'', session_id = 1, connected = True,
         accepted_connections = 1, last_heartbeat_sequence = None\<rparr>)],
      session_liveness := [(''phone'', \<lparr>live_session_id = 1, live_authority_id = 2, last_seen_at = 0\<rparr>)],
      tcp_controls := [(''phone'', \<lparr>control_session_id = 1, control_authority_id = 2, control_sender = 7,
         reserve_capable = False\<rparr>)]\<rparr>"
  by (simp add: tcp_registry_def replace_session_authority_def ServerState_default_def)

lemma reserved_registry_eval:
  "reserved_registry = tcp_registry
     \<lparr>tcp_controls := [(''phone'', \<lparr>control_session_id = 1, control_authority_id = 2, control_sender = 7,
         reserve_capable = True\<rparr>)],
      reserved_tcp := [(''phone'', [\<lparr>reserved_session_id = 1, reserved_authority_id = 2, reserved_stream = 9\<rparr>])]\<rparr>"
  by (simp add: reserved_registry_def tcp_registry_eval register_reserved_authorize_def
      register_reserved_push_def session_current_def ServerState_default_def
      MAX_RESERVED_TCP_STREAMS_PER_NODE_def)

lemma tcp_registry_inv: "server_inv tcp_registry"
  unfolding tcp_registry_def by (intro server_op_inv server_inv_default)

lemma tcp_registry_reach: "server_reach ([2], tcp_registry)"
proof -
  have "server_step ([], ServerState_default) (OpReplace ''phone'' 1 (AuthorityTcp 7) 2 0) ([2], tcp_registry)"
    unfolding tcp_registry_def by (rule step_replace) simp
  with reach_init show ?thesis by (rule reach_step)
qed

theorem select_active_target_exact_witness:
  "fst (select_active_target (Some ''phone'') 10 tcp_registry) = Some phone_target"
proof -
  have "target_active tcp_registry 10 phone_target"
    by (simp add: target_active_def phone_target_def tcp_registry_eval session_current_def
        session_is_fresh_def tcp_active_def ServerState_default_def DEFAULT_SESSION_HEARTBEAT_TIMEOUT_def)
  then show ?thesis
    using select_active_target_exact [OF tcp_registry_inv, of "Some ''phone''" 10 phone_target]
    by (simp add: phone_target_def)
qed


definition replaced_registry :: ServerState where
  "replaced_registry = server_op tcp_registry (OpReplace ''phone'' 1 (AuthorityTcp 8) 3 40)"

theorem authority_never_returns_witness:
  "\<not> authority_current (server_op replaced_registry (OpRefresh ''phone'' 1 2 50)) ''phone'' 1 2"
proof -
  have step: "server_step ([2], tcp_registry) (OpReplace ''phone'' 1 (AuthorityTcp 8) 3 40) ([3, 2], replaced_registry)"
    unfolding replaced_registry_def by (rule step_replace) simp
  have "\<not> authority_current replaced_registry ''phone'' 1 2"
    by (simp add: replaced_registry_def authority_current_def replace_fields)
  moreover have "server_step ([3, 2], replaced_registry) (OpRefresh ''phone'' 1 2 50)
      ([3, 2], server_op replaced_registry (OpRefresh ''phone'' 1 2 50))"
    by (rule step_other) simp
  then have "server_steps ([3, 2], replaced_registry)
      ([3, 2], server_op replaced_registry (OpRefresh ''phone'' 1 2 50))"
    unfolding server_steps_def by blast
  ultimately show ?thesis
    using authority_never_returns [OF reach_step [OF tcp_registry_reach step], of 2 "''phone''" 1] by simp
qed

theorem registry_bounds_witness:
  "length (pending_tcp tcp_registry) \<le> 256 \<and> reserved_length ''phone'' tcp_registry \<le> 32"
  using registry_bounds [OF tcp_registry_reach, of "''phone''"] by simp

theorem open_uses_reserved_stream_witness:
  "\<exists>h s'. open_tcp_proxy_for_target_with_timeout idle_env phone_target Mixed 12000 reserved_registry = (Inr h, s')"
proof -
  have "target_supports_reserved_tcp phone_target reserved_registry"
    by (simp add: target_supports_reserved_tcp_def phone_target_def reserved_registry_eval)
  moreover have "9 \<in> reserved_for phone_target reserved_registry"
    by (simp add: reserved_for_def phone_target_def reserved_registry_eval)
  moreover have "9 \<notin> set (stream_broken reserved_registry)"
    by (simp add: reserved_registry_eval tcp_registry_eval ServerState_default_def)
  ultimately show ?thesis
    using open_uses_reserved_stream [of phone_target reserved_registry 9 idle_env Mixed 12000] by blast
qed

lemma open_on_reserved_registry:
  "fst (open_tcp_proxy_for_target_with_timeout idle_env phone_target Mixed 12000 reserved_registry) = Inr 9"
  by (simp add: open_tcp_proxy_for_target_with_timeout_def target_supports_reserved_tcp_def
      phone_target_def reserved_registry_eval idle_env_def take_writable_reserved.simps
      take_reserved_tcp_stream_def write_server_frame_def tcp_registry_eval ServerState_default_def)

theorem open_returns_own_streams_witness:
  "\<exists>s'. (\<exists>s1\<in>set (round_states phone_target (env_reserve_ids idle_env) Mixed (env_wakes idle_env) reserved_registry).
         9 \<in> reserved_for phone_target s1 \<and> 9 \<notin> set (stream_broken s1))
      \<or> (\<exists>s1. map_of (delivered s1) (env_stream_id idle_env) = Some 9
             \<and> s' = drop_pending (env_stream_id idle_env) s1)"
proof -
  obtain s' where
    "open_tcp_proxy_for_target_with_timeout idle_env phone_target Mixed 12000 reserved_registry = (Inr 9, s')"
    using open_on_reserved_registry by (metis prod.collapse)
  from open_returns_own_streams [OF this] show ?thesis by blast
qed

theorem open_pending_leaves_no_request_witness:
  "map_of (pending_tcp (snd (open_pending_stream idle_env phone_target Mixed 12000 7 tcp_registry))) 12 = None"
  using open_pending_leaves_no_request [of tcp_registry idle_env phone_target Mixed 12000 7]
  by (simp add: idle_env_def tcp_registry_eval ServerState_default_def)

theorem public_operations_interleave_witness:
  "reaches tcp_registry (snd (open_tcp_proxy_for_target idle_env phone_target Socks5 tcp_registry))"
  using public_operations_interleave [of idle_env "\<lambda>s. s" tcp_registry] by (simp add: env_runs_def idle_env_def)

end
