(* ===== verification/Proxy_Core.thy ===== *)
theory Proxy_Core
  imports Foundation
begin

text \<open>
  Model of the shared records and decisions of \<open>crates/proxy-core/src\<close>:
  commands (\<open>commands.rs\<close>), device records (\<open>records.rs\<close>), fingerprints
  (\<open>fingerprints.rs\<close>) and the projection of a runtime report to an availability
  (\<open>runtime.rs\<close>), with the control plane's use of it
  (\<open>services/control-plane/src/projection.rs\<close>).  A BLAKE3 hash is a 256-bit word;
  the hash function and its hexadecimal codec are the parameters \<open>Hashing\<close>.
\<close>

section \<open>Commands\<close>

type_synonym digest = "256 word"

datatype DesiredState = HealthyServing | DegradedSafe

fun DesiredState_display :: "DesiredState \<Rightarrow> string" where
  "DesiredState_display HealthyServing = ''healthy_serving''"
| "DesiredState_display DegradedSafe = ''degraded_safe''"

definition DesiredState_deserialize :: "string \<Rightarrow> DesiredState option" where
  "DesiredState_deserialize s =
     (if s = ''healthy_serving'' then Some HealthyServing
      else if s = ''degraded_safe'' then Some DegradedSafe else None)"

datatype RecoveryIntent = RecoveryNone | RouteRepair | RestartRuntime | RotateRecovery

fun RecoveryIntent_display :: "RecoveryIntent \<Rightarrow> string" where
  "RecoveryIntent_display RecoveryNone = ''none''"
| "RecoveryIntent_display RouteRepair = ''route_repair''"
| "RecoveryIntent_display RestartRuntime = ''restart_runtime''"
| "RecoveryIntent_display RotateRecovery = ''rotate_recovery''"

definition RecoveryIntent_deserialize :: "string \<Rightarrow> RecoveryIntent option" where
  "RecoveryIntent_deserialize s =
     (if s = ''none'' then Some RecoveryNone else if s = ''route_repair'' then Some RouteRepair
      else if s = ''restart_runtime'' then Some RestartRuntime
      else if s = ''rotate_recovery'' then Some RotateRecovery else None)"

record IssueCommandRequest =
  req_desired_state :: DesiredState
  req_recovery_intent :: RecoveryIntent
  req_deadline_secs :: DeadlineWindow
  req_idempotency_key :: IdempotencyKey

record DeviceCommand =
  cmd_command_id :: CommandId
  cmd_device_id :: string
  cmd_desired_state :: DesiredState
  cmd_recovery_intent :: RecoveryIntent
  cmd_deadline_secs :: DeadlineWindow
  cmd_idempotency_key :: IdempotencyKey
  cmd_issued_at :: string

record CommandAckRequest =
  ack_ok :: bool
  ack_message :: "string option"

record RotateRequest =
  rotate_strategy :: string
  require_public_ip_change :: bool
  rotate_reason :: string
  hold_secs :: "u64 option"

definition DEFAULT_AIRPLANE_HOLD_SECS :: u64 where
  "DEFAULT_AIRPLANE_HOLD_SECS = 4"

definition default_rotate_request :: RotateRequest where
  "default_rotate_request =
     \<lparr>rotate_strategy = ''airplane_bounce'', require_public_ip_change = True,
      rotate_reason = ''manual-rotate'', hold_secs = Some DEFAULT_AIRPLANE_HOLD_SECS\<rparr>"

section \<open>Runtime projection\<close>

datatype RuntimeReadiness =
    ReadinessBooting | ReadinessWaitingWireguard | ReadinessWaitingCellular | ReadinessStartingProxy
  | ReadinessHealthy | ReadinessQuarantined | ReadinessUnknown

definition RuntimeReadiness_parse :: "string \<Rightarrow> RuntimeReadiness" where
  "RuntimeReadiness_parse raw =
     (if raw = ''booting'' then ReadinessBooting
      else if raw = ''waiting_wireguard'' then ReadinessWaitingWireguard
      else if raw = ''waiting_cellular'' then ReadinessWaitingCellular
      else if raw = ''starting_proxy'' then ReadinessStartingProxy
      else if raw = ''healthy'' then ReadinessHealthy
      else if raw = ''quarantined'' then ReadinessQuarantined
      else ReadinessUnknown)"

fun RuntimeReadiness_display :: "RuntimeReadiness \<Rightarrow> string" where
  "RuntimeReadiness_display ReadinessBooting = ''booting''"
| "RuntimeReadiness_display ReadinessWaitingWireguard = ''waiting_wireguard''"
| "RuntimeReadiness_display ReadinessWaitingCellular = ''waiting_cellular''"
| "RuntimeReadiness_display ReadinessStartingProxy = ''starting_proxy''"
| "RuntimeReadiness_display ReadinessHealthy = ''healthy''"
| "RuntimeReadiness_display ReadinessQuarantined = ''quarantined''"
| "RuntimeReadiness_display ReadinessUnknown = ''unknown''"

datatype Availability = Ready | Degraded

fun Availability_display :: "Availability \<Rightarrow> string" where
  "Availability_display Ready = ''ready''"
| "Availability_display Degraded = ''degraded''"

datatype DegradationReasonCode =
    ReasonBooting | WireguardPathNotReady | CellularRouteMissing | ProxyStarting | ProxyBindFailed
  | LocalProbeFailed | RotationInProgress | ReasonQuarantined | UnknownState

fun DegradationReasonCode_display :: "DegradationReasonCode \<Rightarrow> string" where
  "DegradationReasonCode_display ReasonBooting = ''booting''"
| "DegradationReasonCode_display WireguardPathNotReady = ''wireguard_path_not_ready''"
| "DegradationReasonCode_display CellularRouteMissing = ''cellular_route_missing''"
| "DegradationReasonCode_display ProxyStarting = ''proxy_starting''"
| "DegradationReasonCode_display ProxyBindFailed = ''proxy_bind_failed''"
| "DegradationReasonCode_display LocalProbeFailed = ''local_probe_failed''"
| "DegradationReasonCode_display RotationInProgress = ''rotation_in_progress''"
| "DegradationReasonCode_display ReasonQuarantined = ''quarantined''"
| "DegradationReasonCode_display UnknownState = ''unknown_state''"

fun degradation_reason_message :: "DegradationReasonCode \<Rightarrow> string" where
  "degradation_reason_message ReasonBooting = ''runtime is booting''"
| "degradation_reason_message WireguardPathNotReady = ''wireguard path is not ready''"
| "degradation_reason_message CellularRouteMissing = ''cellular default route is not ready''"
| "degradation_reason_message ProxyStarting = ''proxy is starting''"
| "degradation_reason_message ProxyBindFailed = ''proxy is not bound to the expected listen address''"
| "degradation_reason_message LocalProbeFailed = ''local proxy probe failed''"
| "degradation_reason_message RotationInProgress = ''rotation job is in progress''"
| "degradation_reason_message ReasonQuarantined = ''runtime is quarantined''"
| "degradation_reason_message UnknownState = ''runtime reported unknown state''"

record RuntimeProjectionInput =
  in_readiness_state :: string
  in_serving :: bool
  in_publicly_serving :: bool
  in_current_job :: "uuid option"
  in_cellular_route_ready :: "bool option"
  in_proxy_bind_ready :: "bool option"
  in_local_serving_ready :: "bool option"

record RuntimeProjection =
  out_readiness_state :: string
  out_serving :: bool
  out_availability :: string
  out_degradation_reason_code :: "string option"
  out_serving_failure_reason :: "string option"

definition normalize_serving :: "RuntimeReadiness \<Rightarrow> RuntimeProjectionInput \<Rightarrow> bool" where
  "normalize_serving readiness input =
     (if readiness \<noteq> ReadinessHealthy then False
      else if in_current_job input \<noteq> None then False
      else if in_cellular_route_ready input = Some False then False
      else if in_proxy_bind_ready input = Some False then False
      else if in_local_serving_ready input = Some False then False
      else in_serving input)"

definition derive_degradation_reason ::
  "RuntimeReadiness \<Rightarrow> bool \<Rightarrow> RuntimeProjectionInput \<Rightarrow> DegradationReasonCode option" where
  "derive_degradation_reason readiness serving input =
     (if in_current_job input \<noteq> None then Some RotationInProgress
      else if readiness = ReadinessWaitingWireguard then Some WireguardPathNotReady
      else if readiness = ReadinessWaitingCellular then Some CellularRouteMissing
      else if \<not> serving \<and> in_cellular_route_ready input = Some False then Some CellularRouteMissing
      else if \<not> serving \<and> in_proxy_bind_ready input = Some False then Some ProxyBindFailed
      else if \<not> serving \<and> in_local_serving_ready input = Some False then Some LocalProbeFailed
      else (case readiness of
              ReadinessBooting \<Rightarrow> Some ReasonBooting
            | ReadinessWaitingWireguard \<Rightarrow> Some WireguardPathNotReady
            | ReadinessWaitingCellular \<Rightarrow> Some CellularRouteMissing
            | ReadinessStartingProxy \<Rightarrow> Some ProxyStarting
            | ReadinessQuarantined \<Rightarrow> Some ReasonQuarantined
            | ReadinessUnknown \<Rightarrow> Some UnknownState
            | ReadinessHealthy \<Rightarrow> (if serving then None else Some LocalProbeFailed)))"

definition project_runtime :: "RuntimeProjectionInput \<Rightarrow> RuntimeProjection" where
  "project_runtime input =
     (let readiness = RuntimeReadiness_parse (in_readiness_state input);
          serving = normalize_serving readiness input;
          reason = derive_degradation_reason readiness serving input;
          availability = (if readiness = ReadinessHealthy \<and> serving \<and> in_publicly_serving input
                          then Ready else Degraded) in
      \<lparr>out_readiness_state = RuntimeReadiness_display readiness, out_serving = serving,
       out_availability = Availability_display availability,
       out_degradation_reason_code = map_option DegradationReasonCode_display reason,
       out_serving_failure_reason = map_option degradation_reason_message reason\<rparr>)"

section \<open>Fingerprints\<close>

record Hashing =
  blake3_fn :: "string \<Rightarrow> bytes \<Rightarrow> digest"
  to_hex_fn :: "digest \<Rightarrow> string"
  from_hex_fn :: "string \<Rightarrow> digest option"

definition CONFIG_FINGERPRINT_DOMAIN :: string where
  "CONFIG_FINGERPRINT_DOMAIN = ''mobile-proxy/host-daemon-nonsecret-config/v1''"

definition BINARY_FINGERPRINT_DOMAIN :: string where
  "BINARY_FINGERPRINT_DOMAIN = ''mobile-proxy/host-daemon-binary/v1''"

definition ConfigFingerprint_derive :: "Hashing \<Rightarrow> bytes list \<Rightarrow> digest" where
  "ConfigFingerprint_derive H parts = ContentDigest_derive (blake3_fn H) CONFIG_FINGERPRINT_DOMAIN parts"

definition BinaryFingerprint_derive :: "Hashing \<Rightarrow> bytes list \<Rightarrow> digest" where
  "BinaryFingerprint_derive H parts = ContentDigest_derive (blake3_fn H) BINARY_FINGERPRINT_DOMAIN parts"

datatype FingerprintInputError = UnsupportedAlgorithmDomainOrVersion | InvalidLegacyValue

datatype FingerprintInput = CurrentFingerprint digest | LegacyOpaque string

definition legacy_opaque_value :: "string \<Rightarrow> bool" where
  "legacy_opaque_value raw =
     (raw \<noteq> [] \<and> length raw \<le> 256 \<and> CHR '':'' \<notin> set raw \<and> list_all is_ascii_graphic raw)"

definition FingerprintInput_parse :: "Hashing \<Rightarrow> string \<Rightarrow> FingerprintInputError + FingerprintInput" where
  "FingerprintInput_parse H raw =
     (if strip_prefix ''b3:'' raw \<noteq> None
      then map_err (\<lambda>_. UnsupportedAlgorithmDomainOrVersion)
             (and_then (ContentDigest_from_str (from_hex_fn H) raw) (\<lambda>d. Inr (CurrentFingerprint d)))
      else if CHR '':'' \<in> set raw then Inl UnsupportedAlgorithmDomainOrVersion
      else if legacy_opaque_value raw then Inr (LegacyOpaque raw)
      else Inl InvalidLegacyValue)"

fun current_value :: "FingerprintInput \<Rightarrow> digest option" where
  "current_value (CurrentFingerprint d) = Some d"
| "current_value (LegacyOpaque _) = None"

fun is_legacy :: "FingerprintInput \<Rightarrow> bool" where
  "is_legacy (CurrentFingerprint _) = False"
| "is_legacy (LegacyOpaque _) = True"

definition FingerprintInput_serialize :: "Hashing \<Rightarrow> FingerprintInput \<Rightarrow> string" where
  "FingerprintInput_serialize H v =
     (case v of CurrentFingerprint d \<Rightarrow> ContentDigest_display (to_hex_fn H) d | LegacyOpaque s \<Rightarrow> s)"

definition deserialize_optional_fingerprint ::
  "Hashing \<Rightarrow> string option \<Rightarrow> FingerprintInputError + digest option" where
  "deserialize_optional_fingerprint H raw =
     (case raw of
        None \<Rightarrow> Inr None
      | Some r \<Rightarrow> and_then (FingerprintInput_parse H r) (\<lambda>v. Inr (current_value v)))"

section \<open>Device records\<close>

record RegisterDeviceRequest =
  reg_node_id :: string
  reg_node_name :: string
  reg_proxy_status :: string
  reg_tunnel_owner :: "string option"

record HeartbeatRequest =
  hb_node_id :: string
  hb_node_name :: string
  hb_readiness_state :: string
  hb_serving :: bool
  hb_proxy_status :: string
  hb_proxy_pid :: "u32 option"
  hb_last_public_ip :: "string option"
  hb_current_job :: "uuid option"
  hb_last_proxy_error :: "string option"
  hb_version :: "string option"
  hb_config_fingerprint :: "FingerprintInput option"
  hb_binary_fingerprint :: "FingerprintInput option"
  hb_active_operator_profile :: "string option"
  hb_active_operator_plmn :: "string option"
  hb_cellular_route_ready :: "bool option"
  hb_proxy_bind_ready :: "bool option"
  hb_local_serving_ready :: "bool option"
  hb_tun0_present :: "bool option"
  hb_wg_handshake_recent :: "bool option"
  hb_reverse_tunnel_connected :: "bool option"
  hb_reverse_tunnel_last_error :: "string option"
  hb_reverse_tunnel_active_transport :: "string option"
  hb_reverse_tunnel_freshness :: "string option"
  hb_reverse_tunnel_failover_reason :: "string option"
  hb_tunnel_owner :: "string option"

record PublicProbeReport =
  probe_publicly_serving :: bool
  probe_error :: "string option"
  probe_at :: string

record DeviceRecord =
  dev_node_id :: string
  dev_node_name :: string
  dev_readiness_state :: string
  dev_serving :: bool
  dev_proxy_status :: string
  dev_proxy_pid :: "u32 option"
  dev_last_public_ip :: "string option"
  dev_current_job :: "uuid option"
  dev_last_proxy_error :: "string option"
  dev_version :: "string option"
  dev_config_fingerprint :: "digest option"
  dev_binary_fingerprint :: "digest option"
  dev_active_operator_profile :: "string option"
  dev_active_operator_plmn :: "string option"
  dev_publicly_serving :: bool
  dev_public_probe_error :: "string option"
  dev_public_probe_at :: "string option"
  dev_cellular_route_ready :: "bool option"
  dev_proxy_bind_ready :: "bool option"
  dev_local_serving_ready :: "bool option"
  dev_tun0_present :: "bool option"
  dev_wg_handshake_recent :: "bool option"
  dev_reverse_tunnel_connected :: "bool option"
  dev_reverse_tunnel_last_error :: "string option"
  dev_reverse_tunnel_active_transport :: "string option"
  dev_reverse_tunnel_freshness :: "string option"
  dev_reverse_tunnel_failover_reason :: "string option"
  dev_tunnel_owner :: "string option"
  dev_last_heartbeat_at :: "string option"
  dev_availability :: string
  dev_degradation_reason_code :: "string option"
  dev_serving_failure_reason :: "string option"
  dev_desired_state :: "string option"
  dev_recovery_intent :: "string option"
  dev_last_event_at :: "string option"

section \<open>Device records built by the control plane\<close>

definition TUNNEL_ACTIVE_TRANSPORTS :: "string list" where
  "TUNNEL_ACTIVE_TRANSPORTS = [''tcp'', ''quic'', ''tls_tcp'']"

definition TUNNEL_FRESHNESS_VALUES :: "string list" where
  "TUNNEL_FRESHNESS_VALUES = [''unknown'', ''fresh'', ''stale'']"

definition TUNNEL_FAILOVER_REASONS :: "string list" where
  "TUNNEL_FAILOVER_REASONS =
     [''connect_timeout'', ''connect_failed'', ''authentication_failed'', ''session_closed'', ''session_error'']"

definition bounded_tunnel_value :: "string option \<Rightarrow> string list \<Rightarrow> string option" where
  "bounded_tunnel_value value allowed =
     (case value of None \<Rightarrow> None | Some v \<Rightarrow> if v \<in> set allowed then Some v else None)"

definition normalize_tunnel_observability ::
  "bool option \<Rightarrow> string option \<Rightarrow> string option \<Rightarrow> string option
     \<Rightarrow> string option \<times> string option \<times> string option" where
  "normalize_tunnel_observability connected active_transport freshness failover_reason =
     (let fresh = bounded_tunnel_value freshness TUNNEL_FRESHNESS_VALUES;
          transport = bounded_tunnel_value active_transport TUNNEL_ACTIVE_TRANSPORTS;
          transport' = (if connected = Some True \<and> fresh = Some ''fresh'' then transport else None);
          failover = bounded_tunnel_value failover_reason TUNNEL_FAILOVER_REASONS in
      (transport', fresh, failover))"

definition build_registered_device :: "string \<Rightarrow> RegisterDeviceRequest \<Rightarrow> DeviceRecord" where
  "build_registered_device now req =
     (let projection = project_runtime
            \<lparr>in_readiness_state = ''booting'', in_serving = False, in_publicly_serving = False,
             in_current_job = None, in_cellular_route_ready = None, in_proxy_bind_ready = None,
             in_local_serving_ready = None\<rparr> in
      \<lparr>dev_node_id = reg_node_id req, dev_node_name = reg_node_name req,
       dev_readiness_state = out_readiness_state projection, dev_serving = out_serving projection,
       dev_proxy_status = reg_proxy_status req, dev_proxy_pid = None, dev_last_public_ip = None,
       dev_current_job = None, dev_last_proxy_error = None, dev_version = None,
       dev_config_fingerprint = None, dev_binary_fingerprint = None,
       dev_active_operator_profile = None, dev_active_operator_plmn = None,
       dev_publicly_serving = False, dev_public_probe_error = None, dev_public_probe_at = None,
       dev_cellular_route_ready = None, dev_proxy_bind_ready = None, dev_local_serving_ready = None,
       dev_tun0_present = None, dev_wg_handshake_recent = None,
       dev_reverse_tunnel_connected = None, dev_reverse_tunnel_last_error = None,
       dev_reverse_tunnel_active_transport = None, dev_reverse_tunnel_freshness = None,
       dev_reverse_tunnel_failover_reason = None, dev_tunnel_owner = reg_tunnel_owner req,
       dev_last_heartbeat_at = None, dev_availability = out_availability projection,
       dev_degradation_reason_code = out_degradation_reason_code projection,
       dev_serving_failure_reason = out_serving_failure_reason projection,
       dev_desired_state = Some ''degraded_safe'', dev_recovery_intent = Some ''none'',
       dev_last_event_at = Some now\<rparr>)"

definition heartbeat_projection_input :: "HeartbeatRequest \<Rightarrow> bool \<Rightarrow> RuntimeProjectionInput" where
  "heartbeat_projection_input req publicly =
     \<lparr>in_readiness_state = hb_readiness_state req, in_serving = hb_serving req,
      in_publicly_serving = publicly, in_current_job = hb_current_job req,
      in_cellular_route_ready = hb_cellular_route_ready req,
      in_proxy_bind_ready = hb_proxy_bind_ready req,
      in_local_serving_ready = hb_local_serving_ready req\<rparr>"

definition build_heartbeat_device ::
  "string \<Rightarrow> HeartbeatRequest \<Rightarrow> bool \<Rightarrow> string option \<Rightarrow> string option \<Rightarrow> DeviceRecord" where
  "build_heartbeat_device now req publicly probe_err probed_at =
     (let projection = project_runtime (heartbeat_projection_input req publicly) in
      case normalize_tunnel_observability (hb_reverse_tunnel_connected req)
             (hb_reverse_tunnel_active_transport req) (hb_reverse_tunnel_freshness req)
             (hb_reverse_tunnel_failover_reason req) of
        (transport, freshness, failover) \<Rightarrow>
      \<lparr>dev_node_id = hb_node_id req, dev_node_name = hb_node_name req,
       dev_readiness_state = out_readiness_state projection, dev_serving = out_serving projection,
       dev_proxy_status = hb_proxy_status req, dev_proxy_pid = hb_proxy_pid req,
       dev_last_public_ip = hb_last_public_ip req, dev_current_job = hb_current_job req,
       dev_last_proxy_error = hb_last_proxy_error req, dev_version = hb_version req,
       dev_config_fingerprint = Option.bind (hb_config_fingerprint req) current_value,
       dev_binary_fingerprint = Option.bind (hb_binary_fingerprint req) current_value,
       dev_active_operator_profile = hb_active_operator_profile req,
       dev_active_operator_plmn = hb_active_operator_plmn req,
       dev_publicly_serving = publicly, dev_public_probe_error = probe_err,
       dev_public_probe_at = probed_at,
       dev_cellular_route_ready = hb_cellular_route_ready req,
       dev_proxy_bind_ready = hb_proxy_bind_ready req,
       dev_local_serving_ready = hb_local_serving_ready req,
       dev_tun0_present = hb_tun0_present req, dev_wg_handshake_recent = hb_wg_handshake_recent req,
       dev_reverse_tunnel_connected = hb_reverse_tunnel_connected req,
       dev_reverse_tunnel_last_error = hb_reverse_tunnel_last_error req,
       dev_reverse_tunnel_active_transport = transport, dev_reverse_tunnel_freshness = freshness,
       dev_reverse_tunnel_failover_reason = failover, dev_tunnel_owner = hb_tunnel_owner req,
       dev_last_heartbeat_at = Some now, dev_availability = out_availability projection,
       dev_degradation_reason_code = out_degradation_reason_code projection,
       dev_serving_failure_reason = out_serving_failure_reason projection,
       dev_desired_state = Some ''healthy_serving'', dev_recovery_intent = Some ''none'',
       dev_last_event_at = Some now\<rparr>)"

definition device_projection_input :: "DeviceRecord \<Rightarrow> bool \<Rightarrow> RuntimeProjectionInput" where
  "device_projection_input d publicly =
     \<lparr>in_readiness_state = dev_readiness_state d, in_serving = dev_serving d,
      in_publicly_serving = publicly, in_current_job = dev_current_job d,
      in_cellular_route_ready = dev_cellular_route_ready d,
      in_proxy_bind_ready = dev_proxy_bind_ready d,
      in_local_serving_ready = dev_local_serving_ready d\<rparr>"

definition apply_public_probe :: "string \<Rightarrow> DeviceRecord \<Rightarrow> PublicProbeReport \<Rightarrow> DeviceRecord" where
  "apply_public_probe now device req =
     (let projection = project_runtime (device_projection_input device (probe_publicly_serving req)) in
      device\<lparr>dev_publicly_serving := probe_publicly_serving req,
             dev_public_probe_error := probe_error req,
             dev_public_probe_at := Some now,
             dev_readiness_state := out_readiness_state projection,
             dev_serving := out_serving projection,
             dev_availability := out_availability projection,
             dev_degradation_reason_code := out_degradation_reason_code projection,
             dev_serving_failure_reason := out_serving_failure_reason projection,
             dev_last_event_at := Some now\<rparr>)"

section \<open>Codecs\<close>

interpretation desired_state_codec: text_codec DesiredState_display DesiredState_deserialize
proof
  show "DesiredState_deserialize (DesiredState_display x) = Some x" for x
    by (cases x) (simp_all add: DesiredState_deserialize_def)
  show "DesiredState_deserialize s = Some x \<Longrightarrow> DesiredState_display x = s" for s x
    by (auto simp: DesiredState_deserialize_def split: if_splits)
qed

interpretation recovery_intent_codec: text_codec RecoveryIntent_display RecoveryIntent_deserialize
proof
  show "RecoveryIntent_deserialize (RecoveryIntent_display x) = Some x" for x
    by (cases x) (simp_all add: RecoveryIntent_deserialize_def)
  show "RecoveryIntent_deserialize s = Some x \<Longrightarrow> RecoveryIntent_display x = s" for s x
    by (auto simp: RecoveryIntent_deserialize_def split: if_splits)
qed

lemma RuntimeReadiness_parse_display [simp]: "RuntimeReadiness_parse (RuntimeReadiness_display r) = r"
  by (cases r) (simp_all add: RuntimeReadiness_parse_def)

lemma RuntimeReadiness_display_healthy [simp]:
  "RuntimeReadiness_display r = ''healthy'' \<longleftrightarrow> r = ReadinessHealthy"
  by (cases r) simp_all

lemma parse_healthy: "RuntimeReadiness_parse raw = ReadinessHealthy \<longleftrightarrow> raw = ''healthy''"
  by (simp add: RuntimeReadiness_parse_def)

section \<open>Projection\<close>

lemma normalize_serving_iff:
  "normalize_serving r input \<longleftrightarrow>
     r = ReadinessHealthy \<and> in_current_job input = None \<and> in_cellular_route_ready input \<noteq> Some False
     \<and> in_proxy_bind_ready input \<noteq> Some False \<and> in_local_serving_ready input \<noteq> Some False
     \<and> in_serving input"
  by (simp add: normalize_serving_def)

lemma derive_reason_None_iff:
  "derive_degradation_reason r (normalize_serving r input) input = None \<longleftrightarrow> normalize_serving r input"
  by (cases r) (auto simp: derive_degradation_reason_def normalize_serving_def)

definition ready_input :: "RuntimeProjectionInput \<Rightarrow> bool" where
  "ready_input input =
     (in_readiness_state input = ''healthy'' \<and> in_current_job input = None
      \<and> in_cellular_route_ready input \<noteq> Some False \<and> in_proxy_bind_ready input \<noteq> Some False
      \<and> in_local_serving_ready input \<noteq> Some False \<and> in_serving input)"

lemma normalize_serving_ready:
  "normalize_serving (RuntimeReadiness_parse (in_readiness_state input)) input \<longleftrightarrow> ready_input input"
  by (auto simp: normalize_serving_iff ready_input_def parse_healthy)

lemma derive_reason_ready:
  "derive_degradation_reason (RuntimeReadiness_parse (in_readiness_state input)) (ready_input input) input = None
     \<longleftrightarrow> ready_input input"
  using derive_reason_None_iff [of "RuntimeReadiness_parse (in_readiness_state input)" input]
  by (simp add: normalize_serving_ready)

lemma project_runtime_stable:
  assumes "in_readiness_state input' = out_readiness_state (project_runtime input)"
    and "in_serving input' = out_serving (project_runtime input)"
    and "in_current_job input' = in_current_job input"
    and "in_cellular_route_ready input' = in_cellular_route_ready input"
    and "in_proxy_bind_ready input' = in_proxy_bind_ready input"
    and "in_local_serving_ready input' = in_local_serving_ready input"
  shows "project_runtime input' =
    project_runtime (input\<lparr>in_publicly_serving := in_publicly_serving input'\<rparr>)"
proof -
  let ?r = "RuntimeReadiness_parse (in_readiness_state input)"
  have r: "RuntimeReadiness_parse (in_readiness_state input') = ?r"
    using assms(1) by (simp add: project_runtime_def Let_def)
  have s: "normalize_serving ?r input' = normalize_serving ?r input"
    using assms by (auto simp: normalize_serving_iff project_runtime_def Let_def)
  have "derive_degradation_reason ?r sv input' = derive_degradation_reason ?r sv input" for sv
    using assms by (simp add: derive_degradation_reason_def)
  moreover have "normalize_serving ?r (input\<lparr>in_publicly_serving := p\<rparr>) = normalize_serving ?r input" for p
    by (simp add: normalize_serving_def)
  moreover have "derive_degradation_reason ?r sv (input\<lparr>in_publicly_serving := p\<rparr>)
      = derive_degradation_reason ?r sv input" for sv p
    by (simp add: derive_degradation_reason_def)
  ultimately show ?thesis using r s by (simp add: project_runtime_def Let_def)
qed

lemma project_runtime_available:
  "out_availability (project_runtime input) = ''ready'' \<longleftrightarrow> ready_input input \<and> in_publicly_serving input"
  "out_serving (project_runtime input) \<longleftrightarrow> ready_input input"
  "out_readiness_state (project_runtime input) = ''healthy'' \<longleftrightarrow> in_readiness_state input = ''healthy''"
proof -
  have healthy: "RuntimeReadiness_parse (in_readiness_state input) = ReadinessHealthy \<longleftrightarrow> in_readiness_state input = ''healthy''"
    by (simp add: parse_healthy)
  then show "out_availability (project_runtime input) = ''ready'' \<longleftrightarrow> ready_input input \<and> in_publicly_serving input"
    by (auto simp: project_runtime_def Let_def normalize_serving_ready ready_input_def)
  show "out_serving (project_runtime input) \<longleftrightarrow> ready_input input"
    by (simp add: project_runtime_def Let_def normalize_serving_ready)
  show "out_readiness_state (project_runtime input) = ''healthy'' \<longleftrightarrow> in_readiness_state input = ''healthy''"
    using healthy by (cases "RuntimeReadiness_parse (in_readiness_state input)") (auto simp: project_runtime_def Let_def)
qed

text \<open>
  The projection is fail-closed.  A device is available exactly when its
  runtime is healthy and serving, no job runs, no readiness flag is negative and
  the public probe succeeded; a reason for degradation is reported exactly when
  it does not serve, and code and message are reported together.
\<close>

theorem project_runtime_ready_iff:
  "(out_availability (project_runtime input) = ''ready'' \<longleftrightarrow> ready_input input \<and> in_publicly_serving input)
   \<and> (out_degradation_reason_code (project_runtime input) = None \<longleftrightarrow> ready_input input)
   \<and> (out_serving_failure_reason (project_runtime input) = None \<longleftrightarrow> ready_input input)
   \<and> (out_serving (project_runtime input) \<longleftrightarrow> ready_input input)"
  using project_runtime_available [of input] by (auto simp: project_runtime_def Let_def normalize_serving_ready derive_reason_ready)

text \<open>
  A probe report recorded after a heartbeat gives the record that the same
  heartbeat would have given with that probe result: the stored projection is
  stable under re-projection.
\<close>

theorem probe_after_heartbeat:
  "apply_public_probe now' (build_heartbeat_device now req p e a) report
     = (build_heartbeat_device now req (probe_publicly_serving report) (probe_error report) (Some now'))
         \<lparr>dev_last_event_at := Some now'\<rparr>"
proof -
  let ?d = "build_heartbeat_device now req p e a"
  have "project_runtime (device_projection_input ?d (probe_publicly_serving report))
      = project_runtime (heartbeat_projection_input req (probe_publicly_serving report))"
    using project_runtime_stable [of "device_projection_input ?d (probe_publicly_serving report)"
        "heartbeat_projection_input req p"]
    by (simp add: device_projection_input_def build_heartbeat_device_def heartbeat_projection_input_def
        Let_def split: prod.splits)
  then show ?thesis
    by (simp add: apply_public_probe_def Let_def)
      (simp add: build_heartbeat_device_def Let_def split: prod.splits)
qed

section \<open>Fingerprint inputs\<close>

lemma strip_prefix_None_iff: "strip_prefix ps xs = None \<longleftrightarrow> (\<forall>ys. xs \<noteq> ps @ ys)"
  using strip_prefix_eq_Some [of ps xs] by (cases "strip_prefix ps xs") auto

text \<open>
  Fingerprints survive a round trip: what is written for a current or a
  legacy fingerprint is read back as the same value, provided the hexadecimal
  codec of the hash is a round trip on 64 lower-case digits and a legacy value
  was accepted in the first place.
\<close>

theorem fingerprint_roundtrip:
  assumes hex: "\<forall>d. from_hex_fn H (to_hex_fn H d) = Some d
      \<and> length (to_hex_fn H d) = 64 \<and> list_all is_lower_hex (to_hex_fn H d)"
    and ok: "case v of CurrentFingerprint _ \<Rightarrow> True | LegacyOpaque s \<Rightarrow> legacy_opaque_value s"
  shows "FingerprintInput_parse H (FingerprintInput_serialize H v) = Inr v"
proof (cases v)
  case (CurrentFingerprint d)
  have "ContentDigest_from_str (from_hex_fn H) (ContentDigest_display (to_hex_fn H) d) = Inr d"
    using hex by (intro ContentDigest_from_str_display) auto
  then show ?thesis
    by (simp add: CurrentFingerprint FingerprintInput_parse_def FingerprintInput_serialize_def
        ContentDigest_display_def)
next
  case (LegacyOpaque s)
  then have "CHR '':'' \<notin> set s" using ok by (simp add: legacy_opaque_value_def)
  then have "strip_prefix ''b3:'' s = None" by (auto simp: strip_prefix_None_iff)
  with LegacyOpaque ok show ?thesis
    by (simp add: FingerprintInput_parse_def FingerprintInput_serialize_def legacy_opaque_value_def)
qed

end
