(* ===== verification/Command_State.thy ===== *)
theory Command_State
  imports Proxy_Core "HOL-Library.AList" "HOL-Library.Char_ord" "HOL-Library.List_Lexorder"
begin

text \<open>
  Model of the control plane's state: the ports of \<open>crates/application/src\<close> and
  the transactions of \<open>services/control-plane/src/state.rs\<close>.  Hash maps are
  association lists; every transaction runs under both locks of the application
  state and is one definition that returns its result and the new state.  The
  durable store is reached only through the compare-and-swap argument \<open>cas\<close>,
  which receives the database, the expected and the candidate state and returns
  whether it committed and the new database.  The clock text and generated UUIDs
  are arguments.
\<close>

section \<open>Ports and their results\<close>

definition COMMAND_REQUEST_DOMAIN :: string where
  "COMMAND_REQUEST_DOMAIN = ''mobile-proxy/control-plane-command-request/v1''"

definition IDEMPOTENCY_SCOPE_DOMAIN :: string where
  "IDEMPOTENCY_SCOPE_DOMAIN = ''mobile-proxy/control-plane-command-idempotency-scope/v1''"

definition MAX_COMMAND_QUEUE_PER_DEVICE :: nat where "MAX_COMMAND_QUEUE_PER_DEVICE = 50"
definition MAX_IDEMPOTENCY_RESULTS :: nat where "MAX_IDEMPOTENCY_RESULTS = 1000"
definition MAX_PENDING_COMMANDS :: nat where "MAX_PENDING_COMMANDS = 1000"
definition MAX_REGISTERED_DEVICES :: nat where "MAX_REGISTERED_DEVICES = 10000"

record IssueCommandInput =
  issue_device_id :: string
  issue_request :: IssueCommandRequest

datatype IssueCommandOutcome = CommandCreated DeviceCommand | ExactDuplicate DeviceCommand
datatype IssueCommandError = IdempotencyConflict | IssueStateConflict | IssueCapacityExceeded | IssuePersistence
datatype PollCommandOutcome = PollPending DeviceCommand | PollEmpty
datatype PollCommandError = PollStateConflict
datatype AcknowledgeCommandOutcome = AckCompleted | AckRetryRequested | AckNotFound
datatype AcknowledgeCommandError = AckStateConflict | AckPersistence
datatype RegisterDeviceOutcome = DeviceCreated | AlreadyRegistered
datatype RegisterDeviceError = RegisterStateConflict | RegisterCapacityExceeded | RegisterPersistence
datatype HeartbeatError = HeartbeatStateConflict | HeartbeatCapacityExceeded | HeartbeatPersistence
datatype PublicProbeOutcome = ProbeUpdated | ProbeDeviceNotFound
datatype PublicProbeError = ProbeStateConflict | ProbePersistence

record HeartbeatOutcome =
  legacy_config_fingerprint :: bool
  legacy_binary_fingerprint :: bool

record AcknowledgeCommandInput =
  acked_device_id :: string
  acked_command_id :: CommandId
  acked_request :: CommandAckRequest

definition HeartbeatOutcome_classification :: "HeartbeatOutcome \<Rightarrow> string" where
  "HeartbeatOutcome_classification h =
     (if legacy_config_fingerprint h \<or> legacy_binary_fingerprint h
      then ''accepted_with_legacy_fingerprint'' else ''accepted'')"

fun IssueCommandOutcome_into_parts :: "IssueCommandOutcome \<Rightarrow> string \<times> DeviceCommand" where
  "IssueCommandOutcome_into_parts (CommandCreated c) = (''created'', c)"
| "IssueCommandOutcome_into_parts (ExactDuplicate c) = (''exact_duplicate'', c)"

definition u32_to_be_bytes :: "u32 \<Rightarrow> bytes" where
  "u32_to_be_bytes w = map (\<lambda>i. char_of (unat (drop_bit (8 * i) w))) [3, 2, 1, 0]"

definition request_parts :: "string \<Rightarrow> IssueCommandRequest \<Rightarrow> bytes list" where
  "request_parts device_id request =
     [device_id, DesiredState_display (req_desired_state request),
      RecoveryIntent_display (req_recovery_intent request),
      u32_to_be_bytes (as_secs (req_deadline_secs request))]"

definition request_fingerprint :: "Hashing \<Rightarrow> string \<Rightarrow> IssueCommandRequest \<Rightarrow> digest" where
  "request_fingerprint H device_id request =
     ContentDigest_derive (blake3_fn H) COMMAND_REQUEST_DOMAIN (request_parts device_id request)"

definition idempotency_scope_key :: "Hashing \<Rightarrow> string \<Rightarrow> IdempotencyKey \<Rightarrow> digest" where
  "idempotency_scope_key H device_id key =
     ContentDigest_derive (blake3_fn H) IDEMPOTENCY_SCOPE_DOMAIN [device_id, idempotency_key_as_str key]"

definition scope_text :: "Hashing \<Rightarrow> string \<Rightarrow> IdempotencyKey \<Rightarrow> string" where
  "scope_text H device_id key = ContentDigest_display (to_hex_fn H) (idempotency_scope_key H device_id key)"

definition original_request :: "DeviceCommand \<Rightarrow> IssueCommandRequest" where
  "original_request c =
     \<lparr>req_desired_state = cmd_desired_state c, req_recovery_intent = cmd_recovery_intent c,
      req_deadline_secs = cmd_deadline_secs c, req_idempotency_key = cmd_idempotency_key c\<rparr>"

definition classify_existing ::
  "Hashing \<Rightarrow> DeviceCommand \<Rightarrow> string \<Rightarrow> IssueCommandRequest \<Rightarrow> IssueCommandError + DeviceCommand" where
  "classify_existing H existing device_id request =
     (if cmd_idempotency_key existing = req_idempotency_key request
         \<and> request_fingerprint H (cmd_device_id existing) (original_request existing)
             = request_fingerprint H device_id request
      then Inr existing else Inl IdempotencyConflict)"

section \<open>Application state\<close>

record CommandState =
  queues :: "(string \<times> DeviceCommand list) list"
  idempotency :: "(string \<times> CommandId) list"
  idempotency_results :: "(string \<times> DeviceCommand) list"
  idempotency_order :: "string list"

definition CommandState_default :: CommandState where
  "CommandState_default = \<lparr>queues = [], idempotency = [], idempotency_results = [], idempotency_order = []\<rparr>"

type_synonym device_map = "(string \<times> DeviceRecord) list"

record StoredState =
  stored_devices :: device_map
  stored_commands :: CommandState

record 'db AppState =
  app_devices :: device_map
  app_commands :: CommandState
  app_db :: 'db

type_synonym 'db cas = "'db \<Rightarrow> StoredState \<Rightarrow> StoredState \<Rightarrow> bool \<times> 'db"

record CommandStateMigration =
  recovered_results :: nat
  canonicalized_keys :: nat
  rebuilt_order :: nat
  evicted_entries :: nat

definition CommandStateMigration_changed :: "CommandStateMigration \<Rightarrow> bool" where
  "CommandStateMigration_changed m =
     (recovered_results m > 0 \<or> canonicalized_keys m > 0 \<or> rebuilt_order m > 0 \<or> evicted_entries m > 0)"

definition app_stored :: "'db AppState \<Rightarrow> StoredState" where
  "app_stored s = \<lparr>stored_devices = app_devices s, stored_commands = app_commands s\<rparr>"

definition persist_candidate ::
  "'db cas \<Rightarrow> 'db \<Rightarrow> device_map \<Rightarrow> CommandState \<Rightarrow> device_map \<Rightarrow> CommandState \<Rightarrow> bool \<times> 'db" where
  "persist_candidate cas db expected_devices expected_commands candidate_devices candidate_commands =
     cas db \<lparr>stored_devices = expected_devices, stored_commands = expected_commands\<rparr>
            \<lparr>stored_devices = candidate_devices, stored_commands = candidate_commands\<rparr>"

section \<open>Device transactions\<close>

definition register_device_transaction ::
  "'db cas \<Rightarrow> string \<Rightarrow> RegisterDeviceRequest \<Rightarrow> 'db AppState
     \<Rightarrow> (RegisterDeviceError + RegisterDeviceOutcome) \<times> 'db AppState" where
  "register_device_transaction cas now request s =
     (let node_id = reg_node_id request;
          step = (case map_of (app_devices s) node_id of
                    Some existing \<Rightarrow>
                      (if dev_node_id existing \<noteq> node_id then Inl RegisterStateConflict
                       else Inr (AlreadyRegistered, app_devices s))
                  | None \<Rightarrow>
                      (if length (app_devices s) \<ge> MAX_REGISTERED_DEVICES then Inl RegisterCapacityExceeded
                       else
                         let device = build_registered_device now request in
                         if map_of (app_devices s) (dev_node_id device) \<noteq> None
                         then Inl RegisterStateConflict
                         else Inr (DeviceCreated, AList.update (dev_node_id device) device (app_devices s)))) in
      case step of
        Inl e \<Rightarrow> (Inl e, s)
      | Inr (outcome, devices) \<Rightarrow>
          (case persist_candidate cas (app_db s) (app_devices s) (app_commands s) devices (app_commands s) of
             (False, db) \<Rightarrow> (Inl RegisterPersistence, s\<lparr>app_db := db\<rparr>)
           | (True, db) \<Rightarrow> (Inr outcome, s\<lparr>app_db := db, app_devices := devices\<rparr>)))"

definition heartbeat_transaction ::
  "'db cas \<Rightarrow> string \<Rightarrow> HeartbeatRequest \<Rightarrow> 'db AppState \<Rightarrow> (HeartbeatError + HeartbeatOutcome) \<times> 'db AppState" where
  "heartbeat_transaction cas now request s =
     (let node_id = hb_node_id request;
          outcome = \<lparr>legacy_config_fingerprint =
                        (case hb_config_fingerprint request of None \<Rightarrow> False | Some v \<Rightarrow> is_legacy v),
                     legacy_binary_fingerprint =
                        (case hb_binary_fingerprint request of None \<Rightarrow> False | Some v \<Rightarrow> is_legacy v)\<rparr>;
          guard = (case map_of (app_devices s) node_id of
                     Some existing \<Rightarrow> if dev_node_id existing \<noteq> node_id then Some HeartbeatStateConflict else None
                   | None \<Rightarrow> if length (app_devices s) \<ge> MAX_REGISTERED_DEVICES
                             then Some HeartbeatCapacityExceeded else None) in
      case guard of
        Some e \<Rightarrow> (Inl e, s)
      | None \<Rightarrow>
          (case (case map_of (app_devices s) node_id of
                   Some device \<Rightarrow> (dev_publicly_serving device, dev_public_probe_error device, dev_public_probe_at device)
                 | None \<Rightarrow> (False, None, None)) of
             (publicly_serving, public_probe_error, public_probe_at) \<Rightarrow>
               let device = build_heartbeat_device now request publicly_serving public_probe_error public_probe_at in
               if dev_node_id device \<noteq> node_id then (Inl HeartbeatStateConflict, s)
               else
                 let devices = AList.update node_id device (app_devices s) in
                 (case persist_candidate cas (app_db s) (app_devices s) (app_commands s) devices (app_commands s) of
                    (False, db) \<Rightarrow> (Inl HeartbeatPersistence, s\<lparr>app_db := db\<rparr>)
                  | (True, db) \<Rightarrow> (Inr outcome, s\<lparr>app_db := db, app_devices := devices\<rparr>))))"

definition public_probe_transaction ::
  "'db cas \<Rightarrow> string \<Rightarrow> string \<Rightarrow> PublicProbeReport \<Rightarrow> 'db AppState
     \<Rightarrow> (PublicProbeError + PublicProbeOutcome) \<times> 'db AppState" where
  "public_probe_transaction cas now device_id report s =
     (case map_of (app_devices s) device_id of
        None \<Rightarrow> (Inr ProbeDeviceNotFound, s)
      | Some existing \<Rightarrow>
          if dev_node_id existing \<noteq> device_id then (Inl ProbeStateConflict, s)
          else
            let device = apply_public_probe now existing report;
                devices = AList.update device_id device (app_devices s) in
            if dev_node_id device \<noteq> device_id then (Inl ProbeStateConflict, s)
            else
              (case persist_candidate cas (app_db s) (app_devices s) (app_commands s) devices (app_commands s) of
                 (False, db) \<Rightarrow> (Inl ProbePersistence, s\<lparr>app_db := db\<rparr>)
               | (True, db) \<Rightarrow> (Inr ProbeUpdated, s\<lparr>app_db := db, app_devices := devices\<rparr>)))"

section \<open>Command bookkeeping\<close>

definition legacy_scope :: "string \<Rightarrow> IdempotencyKey \<Rightarrow> string" where
  "legacy_scope device_id key = device_id @ '':'' @ idempotency_key_as_str key"

definition legacy_idempotency_scope_key :: "IssueCommandInput \<Rightarrow> string" where
  "legacy_idempotency_scope_key input =
     legacy_scope (issue_device_id input) (req_idempotency_key (issue_request input))"

definition legacy_scope_for_command :: "DeviceCommand \<Rightarrow> string" where
  "legacy_scope_for_command c = legacy_scope (cmd_device_id c) (cmd_idempotency_key c)"

definition canonical_scope :: "Hashing \<Rightarrow> DeviceCommand \<Rightarrow> string" where
  "canonical_scope H c = scope_text H (cmd_device_id c) (cmd_idempotency_key c)"

definition queued_commands :: "CommandState \<Rightarrow> DeviceCommand list" where
  "queued_commands cs = concat (map snd (queues cs))"

definition pending_command_count :: "CommandState \<Rightarrow> nat" where
  "pending_command_count cs = sum_list (map (\<lambda>(_, q). length q) (queues cs))"

definition command_is_pending :: "CommandState \<Rightarrow> CommandId \<Rightarrow> bool" where
  "command_is_pending cs i =
     list_ex (\<lambda>(_, q). list_ex (\<lambda>c. cmd_command_id c = i) q) (queues cs)"

fun find_position :: "('a \<Rightarrow> bool) \<Rightarrow> 'a list \<Rightarrow> nat option" where
  "find_position P [] = None"
| "find_position P (x # xs) = (if P x then Some 0 else map_option Suc (find_position P xs))"

definition remove_at :: "nat \<Rightarrow> 'a list \<Rightarrow> 'a list" where
  "remove_at i xs = take i xs @ drop (Suc i) xs"

definition evictable :: "CommandState \<Rightarrow> string \<Rightarrow> bool" where
  "evictable cs key =
     (case map_of (idempotency_results cs) key of
        None \<Rightarrow> True | Some c \<Rightarrow> \<not> command_is_pending cs (cmd_command_id c))"

definition remove_claim :: "string \<Rightarrow> CommandId \<Rightarrow> CommandState \<Rightarrow> CommandState" where
  "remove_claim key i cs =
     (if map_of (idempotency cs) key = Some i then cs\<lparr>idempotency := AList.delete key (idempotency cs)\<rparr> else cs)"

definition evict_key :: "string \<Rightarrow> CommandState \<Rightarrow> CommandState" where
  "evict_key key cs =
     (case map_of (idempotency_results cs) key of
        Some c \<Rightarrow>
          remove_claim key (cmd_command_id c)
            (remove_claim (legacy_scope_for_command c) (cmd_command_id c)
              (cs\<lparr>idempotency_results := AList.delete key (idempotency_results cs)\<rparr>))
      | None \<Rightarrow> cs\<lparr>idempotency := AList.delete key (idempotency cs)\<rparr>)"

lemma find_position_less: "find_position P xs = Some i \<Longrightarrow> i < length xs"
  by (induction xs arbitrary: i) (auto split: if_splits)

lemma evict_key_order [simp]: "idempotency_order (evict_key key cs) = idempotency_order cs"
  by (simp add: evict_key_def remove_claim_def split: option.splits)

function trim_idempotency_state :: "CommandState \<Rightarrow> (nat \<times> CommandState) option" where
  "trim_idempotency_state cs =
     (if length (idempotency_order cs) > MAX_IDEMPOTENCY_RESULTS
      then
        (case find_position (evictable cs) (idempotency_order cs) of
           None \<Rightarrow> None
         | Some i \<Rightarrow>
             let key = idempotency_order cs ! i;
                 cs1 = evict_key key (cs\<lparr>idempotency_order := remove_at i (idempotency_order cs)\<rparr>) in
             map_option (\<lambda>(n, cs2). (Suc n, cs2)) (trim_idempotency_state cs1))
      else Some (0, cs))"
  by pat_completeness auto
termination
  by (relation "measure (\<lambda>cs. length (idempotency_order cs))")
    (auto dest: find_position_less simp: remove_at_def)

declare trim_idempotency_state.simps [simp del]

section \<open>Normalisation of loaded command state\<close>

fun fold_option :: "('a \<Rightarrow> 's \<Rightarrow> 's option) \<Rightarrow> 'a list \<Rightarrow> 's \<Rightarrow> 's option" where
  "fold_option f [] s = Some s"
| "fold_option f (x # xs) s = (case f x s of None \<Rightarrow> None | Some s' \<Rightarrow> fold_option f xs s')"

type_synonym migrating = "CommandState \<times> CommandStateMigration"

definition canonicalize_result :: "Hashing \<Rightarrow> string \<times> DeviceCommand \<Rightarrow> migrating \<Rightarrow> migrating option" where
  "canonicalize_result H entry st =
     (case (entry, st) of ((stored_key, command), (cs, m)) \<Rightarrow>
      let canonical = canonical_scope H command in
      if stored_key \<noteq> canonical then
        let results = AList.delete stored_key (idempotency_results cs) in
        if map_of results canonical \<noteq> None \<and> map_of results canonical \<noteq> Some command then None
        else Some (cs\<lparr>idempotency_results := AList.update canonical command results\<rparr>,
                   m\<lparr>canonicalized_keys := canonicalized_keys m + 1\<rparr>)
      else Some (cs, m))"

definition claim_legacy :: "DeviceCommand \<Rightarrow> migrating \<Rightarrow> migrating option" where
  "claim_legacy command st =
     (case st of (cs, m) \<Rightarrow>
      let legacy = legacy_scope_for_command command in
      (case map_of (idempotency cs) legacy of
         Some existing_id \<Rightarrow> if existing_id \<noteq> cmd_command_id command then None else Some (cs, m)
       | None \<Rightarrow> Some (cs\<lparr>idempotency := AList.update legacy (cmd_command_id command) (idempotency cs)\<rparr>,
                       m\<lparr>recovered_results := recovered_results m + 1\<rparr>)))"

definition recover_queued :: "Hashing \<Rightarrow> DeviceCommand \<Rightarrow> migrating \<Rightarrow> migrating option" where
  "recover_queued H command st =
     (case st of (cs, m) \<Rightarrow>
      let canonical = canonical_scope H command in
      (case map_of (idempotency_results cs) canonical of
         Some existing \<Rightarrow> if existing \<noteq> command then None else claim_legacy command (cs, m)
       | None \<Rightarrow> claim_legacy command
                   (cs\<lparr>idempotency_results := AList.update canonical command (idempotency_results cs)\<rparr>,
                    m\<lparr>recovered_results := recovered_results m + 1\<rparr>)))"

definition claim_result :: "string \<times> DeviceCommand \<Rightarrow> migrating \<Rightarrow> migrating option" where
  "claim_result entry st =
     (case entry of (canonical, command) \<Rightarrow>
      (case claim_legacy command st of
         None \<Rightarrow> None
       | Some (cs, m) \<Rightarrow>
           if canonical \<noteq> legacy_scope_for_command command then
             (case map_of (idempotency cs) canonical of
                Some existing_id \<Rightarrow>
                  if existing_id \<noteq> cmd_command_id command then None
                  else Some (cs\<lparr>idempotency := AList.delete canonical (idempotency cs)\<rparr>,
                             m\<lparr>canonicalized_keys := canonicalized_keys m + 1\<rparr>)
              | None \<Rightarrow> Some (cs, m))
           else Some (cs, m)))"

fun keep_known :: "(string \<times> DeviceCommand) list \<Rightarrow> string list \<Rightarrow> string list \<Rightarrow> string list" where
  "keep_known results [] acc = acc"
| "keep_known results (key # ks) acc =
     keep_known results ks (if map_of results key \<noteq> None \<and> key \<notin> set acc then acc @ [key] else acc)"

definition rebuild_order :: "migrating \<Rightarrow> migrating" where
  "rebuild_order st =
     (case st of (cs, m) \<Rightarrow>
      let original = idempotency_order cs;
          normalized = keep_known (idempotency_results cs) original [];
          missing = sort (filter (\<lambda>k. k \<notin> set normalized) (map fst (idempotency_results cs)));
          order = normalized @ missing in
      (cs\<lparr>idempotency_order := order\<rparr>,
       if order \<noteq> original then m\<lparr>rebuilt_order := 1\<rparr> else m))"

definition normalize_command_state :: "Hashing \<Rightarrow> CommandState \<Rightarrow> migrating option" where
  "normalize_command_state H cs0 =
     (let m0 = \<lparr>recovered_results = 0, canonicalized_keys = 0, rebuilt_order = 0, evicted_entries = 0\<rparr> in
      case fold_option (canonicalize_result H) (idempotency_results cs0) (cs0, m0) of
        None \<Rightarrow> None
      | Some (cs1, m1) \<Rightarrow>
          (case fold_option (recover_queued H) (queued_commands cs1) (cs1, m1) of
             None \<Rightarrow> None
           | Some (cs2, m2) \<Rightarrow>
               (case fold_option claim_result (idempotency_results cs2) (cs2, m2) of
                  None \<Rightarrow> None
                | Some st3 \<Rightarrow>
                    (case rebuild_order st3 of
                       (cs4, m4) \<Rightarrow>
                         (case trim_idempotency_state cs4 of
                            None \<Rightarrow> None
                          | Some (evicted, cs5) \<Rightarrow>
                              if length (idempotency cs5) > MAX_IDEMPOTENCY_RESULTS * 2 then None
                              else Some (cs5, m4\<lparr>evicted_entries := evicted\<rparr>))))))"

section \<open>Command transactions\<close>

definition rotation_pending :: "device_map \<Rightarrow> CommandState \<Rightarrow> string \<Rightarrow> bool" where
  "rotation_pending devices cs device_id =
     ((case map_of devices device_id of None \<Rightarrow> False | Some d \<Rightarrow> dev_current_job d \<noteq> None)
      \<or> (case map_of (queues cs) device_id of
           None \<Rightarrow> False | Some q \<Rightarrow> list_ex (\<lambda>c. cmd_recovery_intent c = RotateRecovery) q))"

definition queue_full :: "CommandState \<Rightarrow> string \<Rightarrow> bool" where
  "queue_full cs device_id =
     (pending_command_count cs \<ge> MAX_PENDING_COMMANDS
      \<or> (case map_of (queues cs) device_id of
           None \<Rightarrow> False | Some q \<Rightarrow> length q \<ge> MAX_COMMAND_QUEUE_PER_DEVICE))"

definition new_command :: "uuid \<Rightarrow> string \<Rightarrow> IssueCommandInput \<Rightarrow> DeviceCommand" where
  "new_command new_id now input =
     \<lparr>cmd_command_id = CommandId new_id, cmd_device_id = issue_device_id input,
      cmd_desired_state = req_desired_state (issue_request input),
      cmd_recovery_intent = req_recovery_intent (issue_request input),
      cmd_deadline_secs = req_deadline_secs (issue_request input),
      cmd_idempotency_key = req_idempotency_key (issue_request input), cmd_issued_at = now\<rparr>"

definition enqueue_command :: "Hashing \<Rightarrow> DeviceCommand \<Rightarrow> CommandState \<Rightarrow> CommandState" where
  "enqueue_command H c cs =
     (let device_id = cmd_device_id c;
          queue = (case map_of (queues cs) device_id of None \<Rightarrow> [] | Some q \<Rightarrow> q) in
      cs\<lparr>queues := AList.update device_id (queue @ [c]) (queues cs),
         idempotency := AList.update (legacy_scope_for_command c) (cmd_command_id c) (idempotency cs),
         idempotency_results := AList.update (canonical_scope H c) c (idempotency_results cs),
         idempotency_order := idempotency_order cs @ [canonical_scope H c]\<rparr>)"

definition mark_issued :: "DeviceCommand \<Rightarrow> device_map \<Rightarrow> device_map" where
  "mark_issued c devices =
     (case map_of devices (cmd_device_id c) of
        None \<Rightarrow> devices
      | Some d \<Rightarrow> AList.update (cmd_device_id c)
          (d\<lparr>dev_desired_state := Some (DesiredState_display (cmd_desired_state c)),
             dev_recovery_intent := Some (RecoveryIntent_display (cmd_recovery_intent c)),
             dev_last_event_at := Some (cmd_issued_at c)\<rparr>) devices)"

definition issue_command_transaction ::
  "Hashing \<Rightarrow> 'db cas \<Rightarrow> uuid \<Rightarrow> string \<Rightarrow> IssueCommandInput \<Rightarrow> 'db AppState
     \<Rightarrow> (IssueCommandError + IssueCommandOutcome) \<times> 'db AppState" where
  "issue_command_transaction H cas new_id now input s =
     (let device_id = issue_device_id input; request = issue_request input;
          commit = (\<lambda>devices commands outcome.
            (case persist_candidate cas (app_db s) (app_devices s) (app_commands s) devices commands of
               (False, db) \<Rightarrow> (Inl IssuePersistence, s\<lparr>app_db := db\<rparr>)
             | (True, db) \<Rightarrow> (Inr outcome, s\<lparr>app_db := db, app_devices := devices, app_commands := commands\<rparr>))) in
      case normalize_command_state H (app_commands s) of
        None \<Rightarrow> (Inl IssueStateConflict, s)
      | Some (commands, migration) \<Rightarrow>
          let scope = scope_text H device_id (req_idempotency_key request);
              legacy = legacy_idempotency_scope_key input in
          (case map_of (idempotency_results commands) scope of
             Some existing \<Rightarrow>
               (case classify_existing H existing device_id request of
                  Inl e \<Rightarrow> (Inl e, s)
                | Inr original \<Rightarrow>
                    if CommandStateMigration_changed migration
                    then commit (app_devices s) commands (ExactDuplicate original)
                    else (Inr (ExactDuplicate original), s))
           | None \<Rightarrow>
               if map_of (idempotency commands) scope \<noteq> None \<or> map_of (idempotency commands) legacy \<noteq> None
               then (Inl IdempotencyConflict, s)
               else if req_recovery_intent request = RotateRecovery
                       \<and> rotation_pending (app_devices s) commands device_id
               then (Inl IssueCapacityExceeded, s)
               else if queue_full commands device_id then (Inl IssueCapacityExceeded, s)
               else
                 let command = new_command new_id now input in
                 (case trim_idempotency_state (enqueue_command H command commands) of
                    None \<Rightarrow> (Inl IssueStateConflict, s)
                  | Some (_, commands') \<Rightarrow>
                      commit (mark_issued command (app_devices s)) commands' (CommandCreated command))))"

definition poll_command_query :: "string \<Rightarrow> 'db AppState \<Rightarrow> PollCommandError + PollCommandOutcome" where
  "poll_command_query device_id s =
     (case map_of (queues (app_commands s)) device_id of
        None \<Rightarrow> Inr PollEmpty
      | Some [] \<Rightarrow> Inr PollEmpty
      | Some (c # _) \<Rightarrow> if cmd_device_id c \<noteq> device_id then Inl PollStateConflict else Inr (PollPending c))"

definition mark_acknowledged :: "string \<Rightarrow> string \<Rightarrow> device_map \<Rightarrow> device_map" where
  "mark_acknowledged now device_id devices =
     (case map_of devices device_id of
        None \<Rightarrow> devices
      | Some d \<Rightarrow> AList.update device_id
          (d\<lparr>dev_recovery_intent := Some (RecoveryIntent_display RecoveryNone),
             dev_last_event_at := Some now\<rparr>) devices)"

definition acknowledge_command_transaction ::
  "'db cas \<Rightarrow> string \<Rightarrow> AcknowledgeCommandInput \<Rightarrow> 'db AppState
     \<Rightarrow> (AcknowledgeCommandError + AcknowledgeCommandOutcome) \<times> 'db AppState" where
  "acknowledge_command_transaction cas now input s =
     (let device_id = acked_device_id input; commands = app_commands s in
      if \<not> ack_ok (acked_request input) then (Inr AckRetryRequested, s)
      else
        (case map_of (queues commands) device_id of
           None \<Rightarrow> (Inr AckNotFound, s)
         | Some queue \<Rightarrow>
             (case find_position (\<lambda>c. cmd_command_id c = acked_command_id input) queue of
                None \<Rightarrow> (Inr AckNotFound, s)
              | Some index \<Rightarrow>
                  if cmd_device_id (queue ! index) \<noteq> device_id then (Inl AckStateConflict, s)
                  else
                    let queue' = remove_at index queue;
                        commands' = commands\<lparr>queues :=
                          (if queue' = [] then AList.delete device_id (queues commands)
                           else AList.update device_id queue' (queues commands))\<rparr>;
                        devices = mark_acknowledged now device_id (app_devices s) in
                    (case persist_candidate cas (app_db s) (app_devices s) commands devices commands' of
                       (False, db) \<Rightarrow> (Inl AckPersistence, s\<lparr>app_db := db\<rparr>)
                     | (True, db) \<Rightarrow>
                         (Inr AckCompleted, s\<lparr>app_db := db, app_devices := devices, app_commands := commands'\<rparr>)))))"

end
