(* ===== verification/Command_Inv.thy ===== *)
theory Command_Inv
  imports Command_State "HOL-Library.Multiset"
begin

text \<open>
  The invariant of the control plane's command bookkeeping and its consequences:
  normalisation does nothing to a well-formed state, retention always finds
  something to evict, and pending commands are never evicted.
\<close>

declare map_of_eq_Some_iff [simp del] Some_eq_map_of_iff [simp del]

lemma map_of_del: "map_of (AList.delete k al) k' = (if k = k' then None else map_of al k')"
  by (simp add: delete_conv')

lemma map_of_upd: "map_of (AList.update k v al) k' = (if k = k' then Some v else map_of al k')"
  by (simp add: update_conv')

lemmas al_simps = map_of_del map_of_upd distinct_update distinct_delete

section \<open>The invariant\<close>

definition queue_inv :: "CommandState \<Rightarrow> bool" where
  "queue_inv cs =
     (distinct (map fst (queues cs))
      \<and> (\<forall>d q. map_of (queues cs) d = Some q \<longrightarrow>
            q \<noteq> [] \<and> length q \<le> MAX_COMMAND_QUEUE_PER_DEVICE \<and> (\<forall>c\<in>set q. cmd_device_id c = d))
      \<and> distinct (map cmd_command_id (queued_commands cs))
      \<and> length (queued_commands cs) \<le> MAX_PENDING_COMMANDS)"

definition replay_inv :: "Hashing \<Rightarrow> nat \<Rightarrow> CommandState \<Rightarrow> bool" where
  "replay_inv H n cs =
     (distinct (map fst (idempotency cs)) \<and> distinct (map fst (idempotency_results cs))
      \<and> (\<forall>k c. map_of (idempotency_results cs) k = Some c \<longrightarrow>
            k = canonical_scope H c \<and> cmd_device_id c \<noteq> ''b3''
            \<and> map_of (idempotency cs) (legacy_scope_for_command c) = Some (cmd_command_id c))
      \<and> (\<forall>k i. map_of (idempotency cs) k = Some i \<longrightarrow>
            (\<exists>k' c. map_of (idempotency_results cs) k' = Some c \<and> k = legacy_scope_for_command c
                 \<and> i = cmd_command_id c))
      \<and> (\<forall>k c k' c'. map_of (idempotency_results cs) k = Some c \<longrightarrow>
            map_of (idempotency_results cs) k' = Some c' \<longrightarrow> cmd_command_id c = cmd_command_id c' \<longrightarrow> c = c')
      \<and> distinct (idempotency_order cs)
      \<and> set (idempotency_order cs) = fst ` set (idempotency_results cs)
      \<and> length (idempotency_order cs) \<le> n
      \<and> (\<forall>c\<in>set (queued_commands cs). map_of (idempotency_results cs) (canonical_scope H c) = Some c))"

definition command_inv :: "Hashing \<Rightarrow> CommandState \<Rightarrow> bool" where
  "command_inv H cs = (queue_inv cs \<and> replay_inv H MAX_IDEMPOTENCY_RESULTS cs)"

definition hex_text :: "Hashing \<Rightarrow> bool" where
  "hex_text H = (\<forall>d. CHR '':'' \<notin> set (to_hex_fn H d))"

lemma replay_invD:
  assumes "replay_inv H n cs"
  shows "distinct (map fst (idempotency cs))" "distinct (map fst (idempotency_results cs))"
    and "map_of (idempotency_results cs) k = Some c \<Longrightarrow> k = canonical_scope H c"
    and "map_of (idempotency_results cs) k = Some c \<Longrightarrow> cmd_device_id c \<noteq> ''b3''"
    and "map_of (idempotency_results cs) k = Some c \<Longrightarrow>
           map_of (idempotency cs) (legacy_scope_for_command c) = Some (cmd_command_id c)"
    and "map_of (idempotency cs) l = Some i \<Longrightarrow>
           \<exists>k' c'. map_of (idempotency_results cs) k' = Some c' \<and> l = legacy_scope_for_command c'
              \<and> i = cmd_command_id c'"
    and "map_of (idempotency_results cs) k = Some c \<Longrightarrow> map_of (idempotency_results cs) l = Some c2 \<Longrightarrow>
           cmd_command_id c = cmd_command_id c2 \<Longrightarrow> c = c2"
    and "distinct (idempotency_order cs)"
    and "set (idempotency_order cs) = fst ` set (idempotency_results cs)"
    and "length (idempotency_order cs) \<le> n"
    and "c \<in> set (queued_commands cs) \<Longrightarrow> map_of (idempotency_results cs) (canonical_scope H c) = Some c"
  using assms unfolding replay_inv_def by (elim conjE; simp)+

section \<open>Scopes\<close>

lemma split_at_first_colon:
  assumes "xs @ CHR '':'' # ys = ''b3'' @ CHR '':'' # zs" "CHR '':'' \<notin> set zs"
  shows "xs = ''b3''"
proof (rule ccontr)
  assume ne: "xs \<noteq> ''b3''"
  have "count_list (xs @ CHR '':'' # ys) (CHR '':'') = 1"
    using assms by (simp add: count_list_0_iff)
  then have "CHR '':'' \<notin> set xs" by (simp add: count_list_0_iff)
  then have "takeWhile (\<lambda>c. c \<noteq> CHR '':'') (xs @ CHR '':'' # ys) = xs"
    by (induction xs) auto
  moreover have "takeWhile (\<lambda>c. c \<noteq> CHR '':'') (''b3'' @ CHR '':'' # zs) = ''b3''" by simp
  ultimately show False using assms(1) ne by simp
qed

lemma legacy_not_canonical:
  assumes "hex_text H" "cmd_device_id c \<noteq> ''b3''"
  shows "legacy_scope_for_command c \<noteq> canonical_scope H c'"
proof
  let ?hex = "to_hex_fn H (idempotency_scope_key H (cmd_device_id c') (cmd_idempotency_key c'))"
  assume "legacy_scope_for_command c = canonical_scope H c'"
  then have "cmd_device_id c @ CHR '':'' # idempotency_key_as_str (cmd_idempotency_key c) = ''b3'' @ CHR '':'' # ?hex"
    by (simp add: legacy_scope_for_command_def legacy_scope_def canonical_scope_def scope_text_def
        ContentDigest_display_def)
  from split_at_first_colon [OF this] assms show False by (simp add: hex_text_def)
qed

section \<open>Normalisation does nothing to a well-formed state\<close>

lemma fold_option_id: "(\<And>x. x \<in> set xs \<Longrightarrow> f x s = Some s) \<Longrightarrow> fold_option f xs s = Some s"
  by (induction xs) simp_all

lemma keep_known_all:
  "set ks \<subseteq> fst ` set results \<Longrightarrow> distinct (acc @ ks) \<Longrightarrow> keep_known results ks acc = acc @ ks"
proof (induction ks arbitrary: acc)
  case (Cons k ks)
  then have "map_of results k \<noteq> None" by (auto simp: map_of_eq_None_iff)
  with Cons show ?case by simp
qed simp

lemma replay_inv_claims:
  assumes "replay_inv H n cs"
  shows "length (idempotency cs) \<le> n"
proof -
  have d: "distinct (map fst (idempotency cs))" "distinct (map fst (idempotency_results cs))"
    "distinct (idempotency_order cs)" "set (idempotency_order cs) = fst ` set (idempotency_results cs)"
    "length (idempotency_order cs) \<le> n"
    using replay_invD(1,2,8-10) [OF assms] by simp_all
  have sub: "fst ` set (idempotency cs) \<subseteq> legacy_scope_for_command ` snd ` set (idempotency_results cs)"
  proof
    fix k assume "k \<in> fst ` set (idempotency cs)"
    then obtain i where "map_of (idempotency cs) k = Some i"
      by (metis domD dom_map_of_conv_image_fst)
    then obtain k' c where "map_of (idempotency_results cs) k' = Some c" "k = legacy_scope_for_command c"
      using replay_invD(6) [OF assms] by metis
    then show "k \<in> legacy_scope_for_command ` snd ` set (idempotency_results cs)"
      by (force dest: map_of_SomeD)
  qed
  have "length (idempotency cs) = card (fst ` set (idempotency cs))"
    using distinct_card [OF d(1)] by simp
  also have "\<dots> \<le> card (legacy_scope_for_command ` snd ` set (idempotency_results cs))"
    by (rule card_mono [OF _ sub]) simp
  also have "\<dots> \<le> card (set (idempotency_results cs))"
    by (metis List.finite_set card_image_le finite_imageI le_trans)
  also have "\<dots> = card (fst ` set (idempotency_results cs))"
    using d(2) by (simp add: distinct_map card_image)
  also have "\<dots> = length (idempotency_order cs)"
    using distinct_card [OF d(3)] d(4) by simp
  finally show ?thesis using d(5) by simp
qed

definition no_migration :: CommandStateMigration where
  "no_migration = \<lparr>recovered_results = 0, canonicalized_keys = 0, rebuilt_order = 0, evicted_entries = 0\<rparr>"

lemma no_migration_unchanged [simp]: "\<not> CommandStateMigration_changed no_migration"
  by (simp add: CommandStateMigration_changed_def no_migration_def)

lemma trim_small:
  "length (idempotency_order cs) \<le> MAX_IDEMPOTENCY_RESULTS \<Longrightarrow> trim_idempotency_state cs = Some (0, cs)"
  by (subst trim_idempotency_state.simps) simp

lemma in_results:
  assumes "distinct (map fst (idempotency_results cs))" "(k, c) \<in> set (idempotency_results cs)"
  shows "map_of (idempotency_results cs) k = Some c"
  using assms by (simp add: map_of_eq_Some_iff)

lemma normalize_noop:
  assumes "hex_text H" "replay_inv H MAX_IDEMPOTENCY_RESULTS cs"
  shows "normalize_command_state H cs = Some (cs, no_migration)"
proof -
  note inv = replay_invD [OF assms(2)]
  note d = inv(2)
  have res: "k = canonical_scope H c" "cmd_device_id c \<noteq> ''b3''"
    "map_of (idempotency cs) (legacy_scope_for_command c) = Some (cmd_command_id c)"
    if "(k, c) \<in> set (idempotency_results cs)" for k c
    using in_results [OF d that] inv(3-5) by simp_all
  have canon: "map_of (idempotency cs) (canonical_scope H c) = None" for c
  proof (cases "map_of (idempotency cs) (canonical_scope H c)")
    case (Some i)
    then obtain k' c' where "map_of (idempotency_results cs) k' = Some c'"
      "canonical_scope H c = legacy_scope_for_command c'" using inv(6) by metis
    moreover then have "cmd_device_id c' \<noteq> ''b3''" using inv(4) by simp
    ultimately show ?thesis using legacy_not_canonical [OF assms(1), of c' c] by simp
  qed
  have s1: "fold_option (canonicalize_result H) (idempotency_results cs) (cs, no_migration) = Some (cs, no_migration)"
    by (rule fold_option_id) (auto simp: canonicalize_result_def Let_def dest: res(1))
  have claim: "claim_legacy c (cs, no_migration) = Some (cs, no_migration)"
    if "map_of (idempotency_results cs) k = Some c" for k c
    using res(3) [OF map_of_SomeD [OF that]] by (simp add: claim_legacy_def Let_def)
  have s2: "fold_option (recover_queued H) (queued_commands cs) (cs, no_migration) = Some (cs, no_migration)"
  proof (rule fold_option_id)
    fix c assume "c \<in> set (queued_commands cs)"
    then have "map_of (idempotency_results cs) (canonical_scope H c) = Some c" by (rule inv(11))
    with claim [OF this] show "recover_queued H c (cs, no_migration) = Some (cs, no_migration)"
      by (simp add: recover_queued_def Let_def)
  qed
  have s3: "fold_option claim_result (idempotency_results cs) (cs, no_migration) = Some (cs, no_migration)"
  proof (rule fold_option_id)
    fix x assume x: "x \<in> set (idempotency_results cs)"
    obtain k c where kc: "x = (k, c)" by force
    have "claim_legacy c (cs, no_migration) = Some (cs, no_migration)"
      using claim in_results [OF d] x kc by blast
    moreover have "map_of (idempotency cs) k = None"
      using res(1) [of k c] canon [of c] x kc by simp
    ultimately show "claim_result x (cs, no_migration) = Some (cs, no_migration)"
      by (simp add: claim_result_def kc)
  qed
  have order: "keep_known (idempotency_results cs) (idempotency_order cs) [] = idempotency_order cs"
    using keep_known_all [of "idempotency_order cs" "idempotency_results cs" "[]"] inv(8,9) by simp
  have "filter (\<lambda>k. k \<notin> set (idempotency_order cs)) (map fst (idempotency_results cs)) = []"
    using inv(9) by (simp add: filter_empty_conv)
  then have s4: "rebuild_order (cs, no_migration) = (cs, no_migration)"
    by (simp add: rebuild_order_def Let_def order)
  have "trim_idempotency_state cs = Some (0, cs)" using inv(10) by (intro trim_small) simp
  moreover have "length (idempotency cs) \<le> MAX_IDEMPOTENCY_RESULTS * 2"
    using replay_inv_claims [OF assms(2)] by simp
  ultimately show ?thesis
    using s1 s2 s3 s4
    by (simp add: normalize_command_state_def Let_def no_migration_def)
qed

section \<open>Retention\<close>

lemma find_position_None: "find_position P xs = None \<longleftrightarrow> (\<forall>x\<in>set xs. \<not> P x)"
  by (induction xs) auto

lemma find_position_Some: "find_position P xs = Some i \<Longrightarrow> P (xs ! i) \<and> (\<forall>j<i. \<not> P (xs ! j))"
proof (induction xs arbitrary: i)
  case (Cons x xs)
  then show ?case by (auto simp: nth_Cons split: if_splits nat.splits)
qed simp

lemma remove_at_Cons: "remove_at (Suc i) (x # xs) = x # remove_at i xs"
  by (simp add: remove_at_def)

lemma remove_at_distinct:
  assumes "distinct xs" "i < length xs"
  shows "distinct (remove_at i xs)" "set (remove_at i xs) = set xs - {xs ! i}"
    "length (remove_at i xs) = length xs - 1"
proof -
  have split: "xs = take i xs @ xs ! i # drop (Suc i) xs" using assms(2) by (simp add: id_take_nth_drop)
  have d: "distinct (take i xs @ xs ! i # drop (Suc i) xs)" using assms(1) split by simp
  then show "distinct (remove_at i xs)" by (simp add: remove_at_def)
  have "set xs = insert (xs ! i) (set (take i xs) \<union> set (drop (Suc i) xs))"
    using split by (metis Un_insert_right list.simps(15) set_append)
  then show "set (remove_at i xs) = set xs - {xs ! i}" using d by (auto simp: remove_at_def)
  show "length (remove_at i xs) = length xs - 1" using assms(2) by (simp add: remove_at_def)
qed

lemma pending_iff_queued: "command_is_pending cs i \<longleftrightarrow> (\<exists>c\<in>set (queued_commands cs). cmd_command_id c = i)"
  unfolding command_is_pending_def queued_commands_def list_ex_iff case_prod_beta by force

lemma pending_count_length: "pending_command_count cs = length (queued_commands cs)"
proof -
  have "(\<lambda>(_ :: string, q :: DeviceCommand list). length q) = length \<circ> snd" by (auto simp: fun_eq_iff)
  then show ?thesis by (simp only: pending_command_count_def queued_commands_def length_concat map_map)
qed

lemma evict_key_queues [simp]: "queues (evict_key k cs) = queues cs"
  by (simp add: evict_key_def remove_claim_def split: option.splits)

lemma queued_evict [simp]: "queued_commands (evict_key k cs) = queued_commands cs"
  by (simp add: queued_commands_def)

text \<open>One round of the retention loop.\<close>

lemma evict_step:
  assumes H: "hex_text H" and inv: "replay_inv H n cs"
    and i: "i < length (idempotency_order cs)" and ev: "evictable cs (idempotency_order cs ! i)"
  defines "cs1 \<equiv> evict_key (idempotency_order cs ! i)
      (cs\<lparr>idempotency_order := remove_at i (idempotency_order cs)\<rparr>)"
  shows "replay_inv H (length (idempotency_order cs) - 1) cs1"
    and "\<exists>c. map_of (idempotency_results cs) (idempotency_order cs ! i) = Some c
          \<and> \<not> command_is_pending cs (cmd_command_id c)
          \<and> map_of (idempotency_results cs1) = (map_of (idempotency_results cs))(idempotency_order cs ! i := None)"
proof -
  let ?k = "idempotency_order cs ! i"
  note D = replay_invD [OF inv]
  have "?k \<in> fst ` set (idempotency_results cs)" using i D(9) nth_mem by blast
  then obtain c where c: "map_of (idempotency_results cs) ?k = Some c"
    by (metis domD dom_map_of_conv_image_fst)
  have np: "\<not> command_is_pending cs (cmd_command_id c)" using ev c by (simp add: evictable_def)
  have k: "?k = canonical_scope H c" by (rule D(3) [OF c])
  have leg: "map_of (idempotency cs) (legacy_scope_for_command c) = Some (cmd_command_id c)"
    by (rule D(5) [OF c])
  have none: "map_of (idempotency cs) ?k = None"
  proof (cases "map_of (idempotency cs) ?k")
    case (Some j)
    from D(6) [OF this] obtain k' c' where "map_of (idempotency_results cs) k' = Some c'"
      "?k = legacy_scope_for_command c'" by blast
    moreover then have "cmd_device_id c' \<noteq> ''b3''" using D(4) by simp
    ultimately show ?thesis using legacy_not_canonical [OF H, of c' c] k by simp
  qed
  have cs1: "cs1 = cs\<lparr>idempotency_order := remove_at i (idempotency_order cs),
      idempotency_results := AList.delete ?k (idempotency_results cs),
      idempotency := AList.delete (legacy_scope_for_command c) (idempotency cs)\<rparr>"
    using c leg none by (simp add: cs1_def evict_key_def remove_claim_def al_simps)
  have res: "map_of (idempotency_results cs1) = (map_of (idempotency_results cs))(?k := None)"
    by (simp add: cs1 delete_conv')
  have q: "queued_commands cs1 = queued_commands cs" by (simp add: cs1 queued_commands_def)
  note order = remove_at_distinct [OF D(8) i]
  have inj: "c' = c" if "map_of (idempotency_results cs) k' = Some c'"
    "legacy_scope_for_command c' = legacy_scope_for_command c" for k' c'
  proof -
    have "cmd_command_id c' = cmd_command_id c" using D(5) [OF that(1)] leg that(2) by simp
    from D(7) [OF that(1) c this] show ?thesis .
  qed
  have keys: "fst ` set (AList.delete ?k (idempotency_results cs)) = fst ` set (idempotency_results cs) - {?k}"
    by (metis dom_map_of_conv_image_fst delete_conv' dom_fun_upd)
  show "replay_inv H (length (idempotency_order cs) - 1) cs1"
    unfolding replay_inv_def
  proof (intro conjI allI impI ballI)
    show "distinct (map fst (idempotency cs1))" "distinct (map fst (idempotency_results cs1))"
      using D(1,2) by (simp_all add: cs1 al_simps)
    show "distinct (idempotency_order cs1)" using order(1) by (simp add: cs1)
    show "set (idempotency_order cs1) = fst ` set (idempotency_results cs1)"
      using order(2) D(9) keys by (simp add: cs1)
    show "length (idempotency_order cs1) \<le> length (idempotency_order cs) - 1"
      using order(3) by (simp add: cs1)
  next
    fix k' c' assume k'c': "map_of (idempotency_results cs1) k' = Some c'"
    then have old: "map_of (idempotency_results cs) k' = Some c'" "k' \<noteq> ?k"
      by (auto simp: res split: if_splits)
    show "k' = canonical_scope H c'" "cmd_device_id c' \<noteq> ''b3''"
      using D(3,4) [OF old(1)] by simp_all
    have "legacy_scope_for_command c' \<noteq> legacy_scope_for_command c"
      using inj [OF old(1)] D(3) [OF old(1)] k old(2) by metis
    then show "map_of (idempotency cs1) (legacy_scope_for_command c') = Some (cmd_command_id c')"
      using D(5) [OF old(1)] by (simp add: cs1 al_simps)
    fix k2 c2 assume "map_of (idempotency_results cs1) k2 = Some c2" "cmd_command_id c' = cmd_command_id c2"
    then show "c' = c2" using D(7) [OF old(1)] by (auto simp: res split: if_splits)
  next
    fix l j assume "map_of (idempotency cs1) l = Some j"
    then have l: "map_of (idempotency cs) l = Some j" "l \<noteq> legacy_scope_for_command c"
      by (auto simp: cs1 al_simps split: if_splits)
    from D(6) [OF l(1)] obtain k' c' where kc: "map_of (idempotency_results cs) k' = Some c'"
      "l = legacy_scope_for_command c'" "j = cmd_command_id c'" by blast
    then have "c' \<noteq> c" using l(2) by auto
    then have "k' \<noteq> ?k" using kc(1) c by auto
    then have "map_of (idempotency_results cs1) k' = Some c'" using kc(1) by (simp add: res)
    with kc show "\<exists>k' c'. map_of (idempotency_results cs1) k' = Some c' \<and> l = legacy_scope_for_command c'
        \<and> j = cmd_command_id c'" by blast
  next
    fix d assume "d \<in> set (queued_commands cs1)"
    then have d: "d \<in> set (queued_commands cs)" by (simp add: q)
    then have "d \<noteq> c" using np by (auto simp: pending_iff_queued)
    then have "canonical_scope H d \<noteq> ?k" using D(11) [OF d] c by auto
    then show "map_of (idempotency_results cs1) (canonical_scope H d) = Some d"
      using D(11) [OF d] by (simp add: res)
  qed
  show "\<exists>c. map_of (idempotency_results cs) ?k = Some c \<and> \<not> command_is_pending cs (cmd_command_id c)
      \<and> map_of (idempotency_results cs1) = (map_of (idempotency_results cs))(?k := None)"
    using c np res by blast
qed

text \<open>More retained results than pending commands leave something to evict.\<close>

lemma something_evictable:
  assumes inv: "replay_inv H n cs" and more: "length (queued_commands cs) < length (idempotency_order cs)"
  shows "\<exists>i. find_position (evictable cs) (idempotency_order cs) = Some i"
proof (rule ccontr)
  assume "\<not> ?thesis"
  then have all: "\<forall>k\<in>set (idempotency_order cs). \<not> evictable cs k" by (simp add: find_position_None)
  note D = replay_invD [OF inv]
  define f where "f k = cmd_command_id (the (map_of (idempotency_results cs) k))" for k
  have some: "\<exists>c. map_of (idempotency_results cs) k = Some c" if "k \<in> set (idempotency_order cs)" for k
    using that D(9) by (metis domD dom_map_of_conv_image_fst)
  have "inj_on f (set (idempotency_order cs))"
  proof (rule inj_onI)
    fix a b assume "a \<in> set (idempotency_order cs)" "b \<in> set (idempotency_order cs)" "f a = f b"
    moreover obtain c d where c: "map_of (idempotency_results cs) a = Some c"
      and d: "map_of (idempotency_results cs) b = Some d" using some calculation by metis
    ultimately have "c = d" using D(7) [OF c d] by (simp add: f_def)
    then show "a = b" using D(3) [OF c] D(3) [OF d] by simp
  qed
  moreover have "f ` set (idempotency_order cs) \<subseteq> cmd_command_id ` set (queued_commands cs)"
  proof
    fix x assume "x \<in> f ` set (idempotency_order cs)"
    then obtain k where k: "k \<in> set (idempotency_order cs)" "x = f k" by blast
    obtain c where c: "map_of (idempotency_results cs) k = Some c" using some [OF k(1)] by blast
    have "\<not> evictable cs k" using all k(1) by blast
    then have "command_is_pending cs (cmd_command_id c)" using c by (simp add: evictable_def)
    then obtain q where "q \<in> set (queued_commands cs)" "cmd_command_id q = cmd_command_id c"
      by (auto simp: pending_iff_queued)
    then show "x \<in> cmd_command_id ` set (queued_commands cs)"
      using k(2) c by (metis f_def imageI option.sel)
  qed
  ultimately have "card (set (idempotency_order cs)) \<le> card (cmd_command_id ` set (queued_commands cs))"
    by (metis List.finite_set card_image card_mono finite_imageI)
  also have "\<dots> \<le> length (queued_commands cs)"
    by (meson List.finite_set card_image_le card_length le_trans)
  finally show False using more distinct_card [OF D(8)] by simp
qed

text \<open>An over-full state loses exactly its oldest result that is not pending.\<close>

lemma trim_full:
  assumes H: "hex_text H" and inv: "replay_inv H (Suc MAX_IDEMPOTENCY_RESULTS) cs"
    and pending: "length (queued_commands cs) \<le> MAX_PENDING_COMMANDS"
    and len: "length (idempotency_order cs) = Suc MAX_IDEMPOTENCY_RESULTS"
  obtains i cs' where "trim_idempotency_state cs = Some (1, cs')"
    "replay_inv H MAX_IDEMPOTENCY_RESULTS cs'" "queues cs' = queues cs"
    "i < length (idempotency_order cs)" "evictable cs (idempotency_order cs ! i)"
    "\<forall>j<i. \<not> evictable cs (idempotency_order cs ! j)"
    "idempotency_order cs' = remove_at i (idempotency_order cs)"
    "map_of (idempotency_results cs') = (map_of (idempotency_results cs))(idempotency_order cs ! i := None)"
proof -
  have "length (queued_commands cs) < length (idempotency_order cs)"
    using pending len by (simp add: MAX_PENDING_COMMANDS_def MAX_IDEMPOTENCY_RESULTS_def)
  from something_evictable [OF inv this] obtain i where
    i: "find_position (evictable cs) (idempotency_order cs) = Some i" by blast
  define cs1 where "cs1 = evict_key (idempotency_order cs ! i)
      (cs\<lparr>idempotency_order := remove_at i (idempotency_order cs)\<rparr>)"
  have ev: "evictable cs (idempotency_order cs ! i)" "\<forall>j<i. \<not> evictable cs (idempotency_order cs ! j)"
    using find_position_Some [OF i] by blast+
  note step = evict_step [OF H inv find_position_less [OF i] ev(1), folded cs1_def]
  have inv1: "replay_inv H MAX_IDEMPOTENCY_RESULTS cs1" using step(1) len by simp
  have "trim_idempotency_state cs1 = Some (0, cs1)"
    using replay_invD(10) [OF inv1] by (rule trim_small)
  then have "trim_idempotency_state cs = Some (1, cs1)"
    using i len by (subst trim_idempotency_state.simps) (simp add: Let_def cs1_def)
  moreover have "queues cs1 = queues cs" "idempotency_order cs1 = remove_at i (idempotency_order cs)"
    by (simp_all add: cs1_def)
  moreover have "map_of (idempotency_results cs1) = (map_of (idempotency_results cs))(idempotency_order cs ! i := None)"
    using step(2) by blast
  ultimately show ?thesis using that inv1 ev find_position_less [OF i] by blast
qed

text \<open>
  The retention loop after one insertion: it evicts at most one result, never a
  pending one, and re-establishes the bound.
\<close>

lemma trim_after_insert:
  assumes H: "hex_text H" and inv: "replay_inv H (Suc MAX_IDEMPOTENCY_RESULTS) cs"
    and pending: "length (queued_commands cs) \<le> MAX_PENDING_COMMANDS"
  obtains n cs' where "trim_idempotency_state cs = Some (n, cs')"
    "replay_inv H MAX_IDEMPOTENCY_RESULTS cs'" "queues cs' = queues cs"
    "\<And>k c. map_of (idempotency_results cs') k = Some c \<Longrightarrow> map_of (idempotency_results cs) k = Some c"
proof (cases "length (idempotency_order cs) \<le> MAX_IDEMPOTENCY_RESULTS")
  case True
  then have "replay_inv H MAX_IDEMPOTENCY_RESULTS cs" using inv by (simp add: replay_inv_def)
  with trim_small [OF True] show ?thesis using that by blast
next
  case False
  then have len: "length (idempotency_order cs) = Suc MAX_IDEMPOTENCY_RESULTS"
    using replay_invD(10) [OF inv] by simp
  obtain i cs' where t: "trim_idempotency_state cs = Some (1, cs')"
    "replay_inv H MAX_IDEMPOTENCY_RESULTS cs'" "queues cs' = queues cs"
    "map_of (idempotency_results cs') = (map_of (idempotency_results cs))(idempotency_order cs ! i := None)"
    by (rule trim_full [OF H inv pending len])
  have "map_of (idempotency_results cs) k = Some c" if "map_of (idempotency_results cs') k = Some c" for k c
    using t(4) that by (auto split: if_splits)
  with t(1-3) show ?thesis using that by blast
qed

section \<open>Queue updates\<close>

definition queue_of :: "CommandState \<Rightarrow> string \<Rightarrow> DeviceCommand list" where
  "queue_of cs d = (case map_of (queues cs) d of None \<Rightarrow> [] | Some q \<Rightarrow> q)"

lemma mset_queues_update:
  assumes "distinct (map fst al)"
  shows "mset (concat (map snd (AList.update k q al))) + mset (case map_of al k of None \<Rightarrow> [] | Some p \<Rightarrow> p)
       = mset (concat (map snd al)) + mset q"
  using assms
proof (induction al)
  case (Cons e al)
  show ?case
  proof (cases "fst e = k")
    case True
    then have "map_of al k = None" using Cons.prems by (auto simp: map_of_eq_None_iff)
    with True show ?thesis by (cases e) simp
  next
    case False
    then show ?thesis using Cons by (cases e) (simp add: ac_simps)
  qed
qed simp

lemma mset_queues_delete:
  assumes "distinct (map fst al)"
  shows "mset (concat (map snd (AList.delete k al))) + mset (case map_of al k of None \<Rightarrow> [] | Some p \<Rightarrow> p)
       = mset (concat (map snd al))"
  using assms
proof (induction al)
  case (Cons e al)
  show ?case
  proof (cases "fst e = k")
    case True
    then have "map_of al k = None" using Cons.prems by (auto simp: map_of_eq_None_iff)
    moreover then have "AList.delete k al = al" by (simp add: delete_id map_of_eq_None_iff)
    ultimately show ?thesis using True by (cases e) simp
  next
    case False
    then show ?thesis using Cons by (cases e) (simp add: ac_simps)
  qed
qed simp

lemma queued_enqueue:
  assumes "distinct (map fst (queues cs))"
  shows "mset (queued_commands (enqueue_command H c cs)) = add_mset c (mset (queued_commands cs))"
  using mset_queues_update [OF assms, of "cmd_device_id c" "queue_of cs (cmd_device_id c) @ [c]"]
  by (simp add: queued_commands_def enqueue_command_def Let_def queue_of_def)

lemma queue_invD:
  assumes "queue_inv cs"
  shows "distinct (map fst (queues cs))"
    and "map_of (queues cs) d = Some q \<Longrightarrow> q \<noteq> []"
    and "map_of (queues cs) d = Some q \<Longrightarrow> length q \<le> MAX_COMMAND_QUEUE_PER_DEVICE"
    and "map_of (queues cs) d = Some q \<Longrightarrow> c \<in> set q \<Longrightarrow> cmd_device_id c = d"
    and "distinct (map cmd_command_id (queued_commands cs))"
    and "length (queued_commands cs) \<le> MAX_PENDING_COMMANDS"
  using assms unfolding queue_inv_def by (elim conjE; simp)+

lemma distinct_ids_mset:
  "mset xs = mset ys \<Longrightarrow> distinct (map f xs) \<longleftrightarrow> distinct (map f ys)"
  by (metis mset_eq_imp_distinct_iff mset_map)

lemma enqueue_queue_inv:
  assumes inv: "queue_inv cs" and full: "\<not> queue_full cs (cmd_device_id c)"
    and fresh: "cmd_command_id c \<notin> cmd_command_id ` set (queued_commands cs)"
  shows "queue_inv (enqueue_command H c cs)"
proof -
  let ?cs = "enqueue_command H c cs" and ?d = "cmd_device_id c"
  note D = queue_invD [OF inv]
  have q: "queues ?cs = AList.update ?d (queue_of cs ?d @ [c]) (queues cs)"
    by (simp add: enqueue_command_def Let_def queue_of_def)
  have m: "mset (queued_commands ?cs) = mset (c # queued_commands cs)"
    using queued_enqueue [OF D(1)] by simp
  have len: "length (queued_commands ?cs) = Suc (length (queued_commands cs))"
    using arg_cong [OF m, of size] by simp
  have room: "length (queue_of cs ?d) < MAX_COMMAND_QUEUE_PER_DEVICE" "length (queued_commands cs) < MAX_PENDING_COMMANDS"
    using full by (auto simp: queue_full_def queue_of_def pending_count_length MAX_COMMAND_QUEUE_PER_DEVICE_def split: option.splits)
  have own: "\<forall>x\<in>set (queue_of cs ?d). cmd_device_id x = ?d"
    using D(4) [of ?d] by (cases "map_of (queues cs) ?d") (simp_all add: queue_of_def)
  show ?thesis
    unfolding queue_inv_def
  proof (intro conjI allI impI)
    show "distinct (map fst (queues ?cs))" using D(1) by (simp add: q al_simps)
    show "distinct (map cmd_command_id (queued_commands ?cs))"
      using distinct_ids_mset [OF m, of cmd_command_id] D(5) fresh by simp
    show "length (queued_commands ?cs) \<le> MAX_PENDING_COMMANDS" using len room by simp
    fix d p assume p: "map_of (queues ?cs) d = Some p"
    show "p \<noteq> []" "length p \<le> MAX_COMMAND_QUEUE_PER_DEVICE"
      using p D(2,3) room(1) by (auto simp: q al_simps split: if_splits)
    show "\<forall>x\<in>set p. cmd_device_id x = d"
      using p D(4) own by (auto simp: q al_simps split: if_splits)
  qed
qed

lemma remove_at_mset: "i < length xs \<Longrightarrow> add_mset (xs ! i) (mset (remove_at i xs)) = mset xs"
  by (metis add_mset_add_single id_take_nth_drop mset.simps(2) mset_append remove_at_def union_mset_add_mset_right)

definition dequeue :: "string \<Rightarrow> nat \<Rightarrow> CommandState \<Rightarrow> CommandState" where
  "dequeue d i cs =
     (let q = remove_at i (queue_of cs d) in
      cs\<lparr>queues := (if q = [] then AList.delete d (queues cs) else AList.update d q (queues cs))\<rparr>)"

lemma dequeue_parts [simp]:
  "idempotency (dequeue d i cs) = idempotency cs" "idempotency_results (dequeue d i cs) = idempotency_results cs"
  "idempotency_order (dequeue d i cs) = idempotency_order cs"
  by (simp_all add: dequeue_def Let_def)

lemma queued_dequeue:
  assumes "distinct (map fst (queues cs))" "i < length (queue_of cs d)"
  shows "add_mset (queue_of cs d ! i) (mset (queued_commands (dequeue d i cs))) = mset (queued_commands cs)"
proof -
  note m = remove_at_mset [OF assms(2)]
  have "mset (queued_commands (dequeue d i cs)) + mset (queue_of cs d)
      = mset (queued_commands cs) + mset (remove_at i (queue_of cs d))"
    using mset_queues_update [OF assms(1), of d "remove_at i (queue_of cs d)"] mset_queues_delete [OF assms(1), of d]
    by (simp add: queued_commands_def dequeue_def Let_def queue_of_def split: option.splits)
  then show ?thesis unfolding m [symmetric] by simp
qed

lemma remove_at_set: "set (remove_at i xs) \<subseteq> set xs"
  unfolding remove_at_def by (auto dest: in_set_takeD in_set_dropD)

lemma dequeue_inv:
  assumes inv: "command_inv H cs" and i: "i < length (queue_of cs d)"
  shows "command_inv H (dequeue d i cs)"
proof -
  let ?cs = "dequeue d i cs" and ?q = "remove_at i (queue_of cs d)"
  have qi: "queue_inv cs" and ri: "replay_inv H MAX_IDEMPOTENCY_RESULTS cs"
    using inv by (simp_all add: command_inv_def)
  note D = queue_invD [OF qi] and m = queued_dequeue [OF queue_invD(1) [OF qi] i]
  have old: "map_of (queues cs) d = Some (queue_of cs d)"
    using i by (auto simp: queue_of_def split: option.splits)
  have mq: "map_of (queues ?cs) e = (if e = d then if ?q = [] then None else Some ?q else map_of (queues cs) e)" for e
    by (auto simp: dequeue_def Let_def al_simps)
  have m': "mset (queued_commands cs) = mset (queue_of cs d ! i # queued_commands ?cs)" using m by simp
  have sub: "set (queued_commands ?cs) \<subseteq> set (queued_commands cs)"
    using mset_eq_setD [OF m'] by auto
  have "queue_inv ?cs"
    unfolding queue_inv_def
  proof (intro conjI allI impI)
    show "distinct (map fst (queues ?cs))" using D(1) by (simp add: dequeue_def Let_def al_simps)
    show "distinct (map cmd_command_id (queued_commands ?cs))"
      using distinct_ids_mset [OF m', of cmd_command_id] D(5) by simp
    show "length (queued_commands ?cs) \<le> MAX_PENDING_COMMANDS"
      using arg_cong [OF m', of size] D(6) by simp
    fix e p assume p: "map_of (queues ?cs) e = Some p"
    have "length ?q \<le> length (queue_of cs d)" by (simp add: remove_at_def)
    then show "p \<noteq> []" "length p \<le> MAX_COMMAND_QUEUE_PER_DEVICE"
      using p D(2,3) old by (fastforce simp: mq split: if_splits)+
    show "\<forall>x\<in>set p. cmd_device_id x = e"
      using p D(4) old remove_at_set [of i "queue_of cs d"] by (auto simp: mq split: if_splits)
  qed
  moreover have "replay_inv H MAX_IDEMPOTENCY_RESULTS ?cs"
  proof -
    have "\<forall>c\<in>set (queued_commands ?cs). map_of (idempotency_results cs) (canonical_scope H c) = Some c"
      using replay_invD(11) [OF ri] sub by (meson subsetD)
    then show ?thesis using ri unfolding replay_inv_def dequeue_parts by (elim conjE, intro conjI)
  qed
  ultimately show ?thesis by (simp add: command_inv_def)
qed

section \<open>Issuing a fresh command\<close>

definition fresh_id :: "CommandState \<Rightarrow> CommandId \<Rightarrow> bool" where
  "fresh_id cs i = list_all (\<lambda>(_, c). cmd_command_id c \<noteq> i) (idempotency_results cs)"

lemma fresh_idD: "fresh_id cs i \<Longrightarrow> map_of (idempotency_results cs) k = Some c \<Longrightarrow> cmd_command_id c \<noteq> i"
  by (auto simp: fresh_id_def list_all_iff dest: map_of_SomeD)

lemma fresh_not_queued:
  assumes "replay_inv H n cs" "fresh_id cs i"
  shows "i \<notin> cmd_command_id ` set (queued_commands cs)"
  using fresh_idD [OF assms(2)] replay_invD(11) [OF assms(1)] by (metis imageE)

lemma enqueue_parts [simp]:
  "idempotency (enqueue_command H c cs) = AList.update (legacy_scope_for_command c) (cmd_command_id c) (idempotency cs)"
  "idempotency_results (enqueue_command H c cs) = AList.update (canonical_scope H c) c (idempotency_results cs)"
  "idempotency_order (enqueue_command H c cs) = idempotency_order cs @ [canonical_scope H c]"
  by (simp_all add: enqueue_command_def Let_def)

lemma enqueue_replay_inv:
  assumes inv: "replay_inv H n cs" and dist: "distinct (map fst (queues cs))"
    and dev: "cmd_device_id c \<noteq> ''b3''"
    and none: "map_of (idempotency_results cs) (canonical_scope H c) = None"
      "map_of (idempotency cs) (legacy_scope_for_command c) = None"
    and fresh: "fresh_id cs (cmd_command_id c)"
  shows "replay_inv H (Suc n) (enqueue_command H c cs)"
proof -
  let ?cs = "enqueue_command H c cs" and ?k = "canonical_scope H c" and ?l = "legacy_scope_for_command c"
  note D = replay_invD [OF inv]
  have keys: "?k \<notin> fst ` set (idempotency_results cs)" using none(1) by (simp add: map_of_eq_None_iff)
  have q: "set (queued_commands ?cs) = insert c (set (queued_commands cs))"
    using queued_enqueue [OF dist, of H c] by (metis set_mset_add_mset_insert set_mset_mset)
  have old: "map_of (idempotency_results ?cs) k = Some d \<Longrightarrow>
      (k = ?k \<and> d = c) \<or> (k \<noteq> ?k \<and> map_of (idempotency_results cs) k = Some d)" for k d
    by (auto simp: al_simps split: if_splits)
  show ?thesis
    unfolding replay_inv_def
  proof (intro conjI allI impI ballI)
    show "distinct (map fst (idempotency ?cs))" "distinct (map fst (idempotency_results ?cs))"
      using D(1,2) by (simp_all add: al_simps)
    show "distinct (idempotency_order ?cs)" using D(8,9) keys by simp
    show "set (idempotency_order ?cs) = fst ` set (idempotency_results ?cs)"
      using D(9) by (simp add: dom_update)
    show "length (idempotency_order ?cs) \<le> Suc n" using D(10) by simp
  next
    fix k d assume kd: "map_of (idempotency_results ?cs) k = Some d"
    show "k = canonical_scope H d" "cmd_device_id d \<noteq> ''b3''"
      using old [OF kd] D(3,4) [of k d] dev by auto
    show "map_of (idempotency ?cs) (legacy_scope_for_command d) = Some (cmd_command_id d)"
      using old [OF kd] D(5) [of k d] none(2) by (auto simp: al_simps)
    fix k2 d2 assume kd2: "map_of (idempotency_results ?cs) k2 = Some d2" "cmd_command_id d = cmd_command_id d2"
    consider "d = c" "d2 = c" | "d = c" "map_of (idempotency_results cs) k2 = Some d2"
      | "d2 = c" "map_of (idempotency_results cs) k = Some d"
      | "map_of (idempotency_results cs) k = Some d" "map_of (idempotency_results cs) k2 = Some d2"
      using old [OF kd] old [OF kd2(1)] by argo
    then show "d = d2"
    proof cases
      case 2 then show ?thesis using fresh_idD [OF fresh 2(2)] kd2(2) by simp
    next
      case 3 then show ?thesis using fresh_idD [OF fresh 3(2)] kd2(2) by simp
    next
      case 4 then show ?thesis using D(7) [OF 4 kd2(2)] by simp
    qed simp
  next
    fix l i assume li: "map_of (idempotency ?cs) l = Some i"
    show "\<exists>k d. map_of (idempotency_results ?cs) k = Some d \<and> l = legacy_scope_for_command d \<and> i = cmd_command_id d"
    proof (cases "l = ?l")
      case True
      then show ?thesis using li by (intro exI [of _ ?k] exI [of _ c]) (simp add: al_simps)
    next
      case False
      then have "map_of (idempotency cs) l = Some i" using li by (simp add: al_simps)
      from D(6) [OF this] obtain k d where "map_of (idempotency_results cs) k = Some d"
        "l = legacy_scope_for_command d" "i = cmd_command_id d" by blast
      moreover then have "k \<noteq> ?k" using none(1) by auto
      ultimately show ?thesis by (intro exI [of _ k] exI [of _ d]) (simp add: al_simps)
    qed
  next
    fix d assume "d \<in> set (queued_commands ?cs)"
    then show "map_of (idempotency_results ?cs) (canonical_scope H d) = Some d"
      using D(11) [of d] none(1) by (auto simp: al_simps q)
  qed
qed

text \<open>Everything one accepted command does to the bookkeeping.\<close>

lemma issue_fresh:
  assumes H: "hex_text H" and inv: "command_inv H cs" and dev: "cmd_device_id c \<noteq> ''b3''"
    and none: "map_of (idempotency_results cs) (canonical_scope H c) = None"
      "map_of (idempotency cs) (legacy_scope_for_command c) = None"
    and full: "\<not> queue_full cs (cmd_device_id c)" and fresh: "fresh_id cs (cmd_command_id c)"
  obtains n cs' where "trim_idempotency_state (enqueue_command H c cs) = Some (n, cs')"
    "command_inv H cs'" "queues cs' = queues (enqueue_command H c cs)"
    "map_of (idempotency_results cs') (canonical_scope H c) = Some c"
    "\<And>k d. map_of (idempotency_results cs') k = Some d \<Longrightarrow> d = c \<or> map_of (idempotency_results cs) k = Some d"
proof -
  let ?cs = "enqueue_command H c cs"
  have qi: "queue_inv cs" and ri: "replay_inv H MAX_IDEMPOTENCY_RESULTS cs"
    using inv by (simp_all add: command_inv_def)
  have qi': "queue_inv ?cs" by (rule enqueue_queue_inv [OF qi full fresh_not_queued [OF ri fresh]])
  have ri': "replay_inv H (Suc MAX_IDEMPOTENCY_RESULTS) ?cs"
    by (rule enqueue_replay_inv [OF ri queue_invD(1) [OF qi] dev none fresh])
  from trim_after_insert [OF H ri' queue_invD(6) [OF qi']] obtain n cs' where
    t: "trim_idempotency_state ?cs = Some (n, cs')" "replay_inv H MAX_IDEMPOTENCY_RESULTS cs'"
      "queues cs' = queues ?cs"
      "\<And>k c. map_of (idempotency_results cs') k = Some c \<Longrightarrow> map_of (idempotency_results ?cs) k = Some c"
    by blast
  have same: "queued_commands cs' = queued_commands ?cs" using t(3) by (simp add: queued_commands_def)
  have "queue_inv cs'" using qi' t(3) same by (simp add: queue_inv_def)
  moreover have "c \<in># mset (queued_commands cs')"
    using queued_enqueue [OF queue_invD(1) [OF qi], of H c] same by simp
  then have "map_of (idempotency_results cs') (canonical_scope H c) = Some c"
    using replay_invD(11) [OF t(2)] by simp
  moreover have "d = c \<or> map_of (idempotency_results cs) k = Some d"
    if "map_of (idempotency_results cs') k = Some d" for k d
    using t(4) [OF that] by (auto simp: al_simps split: if_splits)
  ultimately show ?thesis using that t(1-3) by (simp add: command_inv_def)
qed

end
