(* ===== verification/Hash_Instance.thy ===== *)
theory Hash_Instance
  imports Proxy_Core
begin

text \<open>
  A concrete instance of the hashing parameters, used to evaluate the model on
  concrete inputs: a polynomial hash in place of BLAKE3 and the hexadecimal text
  of a 256-bit value.
\<close>

definition hex_digit :: "nat \<Rightarrow> char" where
  "hex_digit n = char_of (if n < 10 then 48 + n else 87 + n)"

definition hex_value :: "char \<Rightarrow> nat" where
  "hex_value c = (let n = of_char c in if n < 58 then n - 48 else n - 87)"

fun hex_of :: "nat \<Rightarrow> nat \<Rightarrow> string" where
  "hex_of 0 n = []"
| "hex_of (Suc k) n = hex_of k (n div 16) @ [hex_digit (n mod 16)]"

definition of_hex :: "string \<Rightarrow> nat" where
  "of_hex = foldl (\<lambda>acc c. 16 * acc + hex_value c) 0"

definition poly_hash :: "string \<Rightarrow> bytes \<Rightarrow> digest" where
  "poly_hash domain bs = of_nat (fold (\<lambda>c acc. acc * 257 + of_char c + 1) (domain @ bs) 0)"

definition sample_hashing :: Hashing where
  "sample_hashing = \<lparr>blake3_fn = poly_hash, to_hex_fn = (\<lambda>d. hex_of 64 (unat d)),
     from_hex_fn = (\<lambda>s. Some (of_nat (of_hex s)))\<rparr>"

lemma hex_value_digit: "n < 16 \<Longrightarrow> hex_value (hex_digit n) = n"
  by (auto simp: hex_value_def hex_digit_def Let_def)

lemma hex_digit_lower: "n < 16 \<Longrightarrow> is_lower_hex (hex_digit n)"
  by (auto simp: hex_digit_def is_lower_hex_def is_ascii_digit_def in_range_def)

lemma hex_of_text: "length (hex_of k n) = k \<and> list_all is_lower_hex (hex_of k n)"
  by (induction k arbitrary: n) (simp_all add: hex_digit_lower)

lemma of_hex_of: "n < 16 ^ k \<Longrightarrow> of_hex (hex_of k n) = n"
proof (induction k arbitrary: n)
  case (Suc k)
  then have "n div 16 < 16 ^ k" by (simp add: less_mult_imp_div_less mult.commute)
  from Suc.IH [OF this] show ?case by (simp add: of_hex_def hex_value_digit)
qed (simp add: of_hex_def)

lemma sample_hex_roundtrip: "from_hex_fn sample_hashing (to_hex_fn sample_hashing d) = Some d"
proof -
  have "unat d < 16 ^ 64" using unsigned_less [of d] by simp
  then show ?thesis by (simp add: sample_hashing_def of_hex_of)
qed

lemma sample_hex_shape:
  "length (to_hex_fn sample_hashing d) = 64 \<and> list_all is_lower_hex (to_hex_fn sample_hashing d)"
  by (simp add: sample_hashing_def hex_of_text)

theorem fingerprint_roundtrip_witness:
  "FingerprintInput_parse sample_hashing (FingerprintInput_serialize sample_hashing (CurrentFingerprint 7)) = Inr (CurrentFingerprint 7)
   \<and> FingerprintInput_parse sample_hashing (FingerprintInput_serialize sample_hashing (LegacyOpaque ''abc'')) = Inr (LegacyOpaque ''abc'')"
  using fingerprint_roundtrip [of sample_hashing "CurrentFingerprint 7"]
    fingerprint_roundtrip [of sample_hashing "LegacyOpaque ''abc''"] sample_hex_roundtrip sample_hex_shape
  by (simp add: legacy_opaque_value_def is_ascii_graphic_def in_range_def)

end
