(* ===== verification/Command_Queue.thy ===== *)
theory Command_Queue
  imports Command_Inv Hash_Instance
begin

text \<open>
  Behaviour of the control plane's command transactions over arbitrary histories:
  the decision of \<open>issue_command_transaction\<close>, idempotent replay, FIFO delivery,
  capacity bounds and single-flight rotation.
\<close>

section \<open>One issue request\<close>

lemma canonical_not_claimed:
  assumes H: "hex_text H" and inv: "replay_inv H n cs"
  shows "map_of (idempotency cs) (canonical_scope H c) = None"
proof (cases "map_of (idempotency cs) (canonical_scope H c)")
  case (Some i)
  from replay_invD(6) [OF inv this] obtain k' c' where
    c': "map_of (idempotency_results cs) k' = Some c'" "canonical_scope H c = legacy_scope_for_command c'" by blast
  from replay_invD(4) [OF inv c'(1)] legacy_not_canonical [OF H, of c' c] c'(2) show ?thesis by simp
qed

lemma new_command_simps [simp]:
  "cmd_device_id (new_command i now input) = issue_device_id input"
  "cmd_command_id (new_command i now input) = CommandId i"
  "cmd_recovery_intent (new_command i now input) = req_recovery_intent (issue_request input)"
  "canonical_scope H (new_command i now input) = scope_text H (issue_device_id input) (req_idempotency_key (issue_request input))"
  "legacy_scope_for_command (new_command i now input) = legacy_idempotency_scope_key input"
  by (simp_all add: new_command_def canonical_scope_def legacy_scope_for_command_def legacy_idempotency_scope_key_def)

definition issue_scope :: "Hashing \<Rightarrow> IssueCommandInput \<Rightarrow> string" where
  "issue_scope H input = scope_text H (issue_device_id input) (req_idempotency_key (issue_request input))"

definition same_request :: "Hashing \<Rightarrow> DeviceCommand \<Rightarrow> IssueCommandInput \<Rightarrow> bool" where
  "same_request H c input =
     (cmd_idempotency_key c = req_idempotency_key (issue_request input)
      \<and> request_fingerprint H (cmd_device_id c) (original_request c)
          = request_fingerprint H (issue_device_id input) (issue_request input))"

definition issue_blocked :: "'db AppState \<Rightarrow> IssueCommandInput \<Rightarrow> bool" where
  "issue_blocked s input =
     ((req_recovery_intent (issue_request input) = RotateRecovery
       \<and> rotation_pending (app_devices s) (app_commands s) (issue_device_id input))
      \<or> queue_full (app_commands s) (issue_device_id input))"

definition issue_admissible :: "uuid \<Rightarrow> IssueCommandInput \<Rightarrow> CommandState \<Rightarrow> bool" where
  "issue_admissible new_id input cs =
     (issue_device_id input \<noteq> ''b3'' \<and> fresh_id cs (CommandId new_id))"

lemma issue_replayed:
  assumes "hex_text H" "command_inv H (app_commands s)"
    and "map_of (idempotency_results (app_commands s)) (issue_scope H input) = Some c"
  shows "issue_command_transaction H cas new_id now input s
       = (if same_request H c input then (Inr (ExactDuplicate c), s) else (Inl IdempotencyConflict, s))"
  using assms normalize_noop [OF assms(1)]
  by (simp add: issue_command_transaction_def Let_def command_inv_def classify_existing_def issue_scope_def same_request_def)

lemma issue_unclaimed:
  assumes "hex_text H" "command_inv H (app_commands s)"
    and "map_of (idempotency_results (app_commands s)) (issue_scope H input) = None"
  shows "issue_command_transaction H cas new_id now input s =
     (if map_of (idempotency (app_commands s)) (legacy_idempotency_scope_key input) \<noteq> None
      then (Inl IdempotencyConflict, s)
      else if issue_blocked s input then (Inl IssueCapacityExceeded, s)
      else
        let c = new_command new_id now input in
        case trim_idempotency_state (enqueue_command H c (app_commands s)) of
          None \<Rightarrow> (Inl IssueStateConflict, s)
        | Some (_, cs') \<Rightarrow>
            (case persist_candidate cas (app_db s) (app_devices s) (app_commands s)
                    (mark_issued c (app_devices s)) cs' of
               (False, db) \<Rightarrow> (Inl IssuePersistence, s\<lparr>app_db := db\<rparr>)
             | (True, db) \<Rightarrow>
                 (Inr (CommandCreated c),
                  s\<lparr>app_db := db, app_devices := mark_issued c (app_devices s), app_commands := cs'\<rparr>)))"
proof -
  have ri: "replay_inv H MAX_IDEMPOTENCY_RESULTS (app_commands s)" using assms(2) by (simp add: command_inv_def)
  have "map_of (idempotency (app_commands s)) (issue_scope H input) = None"
    using canonical_not_claimed [OF assms(1) ri, of "new_command new_id now input"] by (simp add: issue_scope_def)
  then show ?thesis
    using assms(3) normalize_noop [OF assms(1) ri]
    unfolding issue_command_transaction_def Let_def issue_blocked_def issue_scope_def by simp
qed

text \<open>The possible outcomes of one request, with everything each one does to the state.\<close>

lemma issue_cases:
  assumes H: "hex_text H" and inv: "command_inv H (app_commands s)"
    and ok: "issue_admissible new_id input (app_commands s)"
  obtains
    (duplicate) c where
      "map_of (idempotency_results (app_commands s)) (issue_scope H input) = Some c" "same_request H c input"
      "issue_command_transaction H cas new_id now input s = (Inr (ExactDuplicate c), s)"
  | (conflict)
      "(\<exists>c. map_of (idempotency_results (app_commands s)) (issue_scope H input) = Some c \<and> \<not> same_request H c input)
       \<or> (map_of (idempotency_results (app_commands s)) (issue_scope H input) = None
          \<and> map_of (idempotency (app_commands s)) (legacy_idempotency_scope_key input) \<noteq> None)"
      "issue_command_transaction H cas new_id now input s = (Inl IdempotencyConflict, s)"
  | (capacity) "issue_blocked s input"
      "map_of (idempotency_results (app_commands s)) (issue_scope H input) = None"
      "map_of (idempotency (app_commands s)) (legacy_idempotency_scope_key input) = None"
      "issue_command_transaction H cas new_id now input s = (Inl IssueCapacityExceeded, s)"
  | (failed) db where
      "\<not> issue_blocked s input"
      "map_of (idempotency_results (app_commands s)) (issue_scope H input) = None"
      "map_of (idempotency (app_commands s)) (legacy_idempotency_scope_key input) = None"
      "issue_command_transaction H cas new_id now input s = (Inl IssuePersistence, s\<lparr>app_db := db\<rparr>)"
  | (created) db cs' where
      "\<not> issue_blocked s input"
      "map_of (idempotency_results (app_commands s)) (issue_scope H input) = None"
      "map_of (idempotency (app_commands s)) (legacy_idempotency_scope_key input) = None"
      "persist_candidate cas (app_db s) (app_devices s) (app_commands s)
         (mark_issued (new_command new_id now input) (app_devices s)) cs' = (True, db)"
      "command_inv H cs'"
      "queues cs' = queues (enqueue_command H (new_command new_id now input) (app_commands s))"
      "map_of (idempotency_results cs') (issue_scope H input) = Some (new_command new_id now input)"
      "issue_command_transaction H cas new_id now input s =
         (Inr (CommandCreated (new_command new_id now input)),
          s\<lparr>app_db := db, app_devices := mark_issued (new_command new_id now input) (app_devices s), app_commands := cs'\<rparr>)"
      "\<exists>n. trim_idempotency_state (enqueue_command H (new_command new_id now input) (app_commands s)) = Some (n, cs')"
proof (cases "map_of (idempotency_results (app_commands s)) (issue_scope H input)")
  case (Some c)
  show ?thesis
    using issue_replayed [OF H inv Some, of cas new_id now] Some that(1) [of c] that(2)
    by (cases "same_request H c input") simp_all
next
  case None
  note tx = issue_unclaimed [OF H inv None, of cas new_id now]
  let ?c = "new_command new_id now input"
  consider (claim) "map_of (idempotency (app_commands s)) (legacy_idempotency_scope_key input) \<noteq> None"
    | (full) "map_of (idempotency (app_commands s)) (legacy_idempotency_scope_key input) = None" "issue_blocked s input"
    | (free) "map_of (idempotency (app_commands s)) (legacy_idempotency_scope_key input) = None" "\<not> issue_blocked s input"
    by argo
  then show ?thesis
  proof cases
    case claim then show ?thesis using tx None that(2) by simp
  next
    case full then show ?thesis using tx None that(3) by simp
  next
    case free
    from free(2) have room: "\<not> queue_full (app_commands s) (cmd_device_id ?c)" by (simp add: issue_blocked_def)
    from ok have adm: "cmd_device_id ?c \<noteq> ''b3''" "fresh_id (app_commands s) (cmd_command_id ?c)"
      by (simp_all add: issue_admissible_def)
    have none: "map_of (idempotency_results (app_commands s)) (canonical_scope H ?c) = None"
      "map_of (idempotency (app_commands s)) (legacy_scope_for_command ?c) = None"
      using None free(1) by (simp_all add: issue_scope_def)
    from issue_fresh [OF H inv adm(1) none room adm(2)] obtain n cs' where
      t: "trim_idempotency_state (enqueue_command H ?c (app_commands s)) = Some (n, cs')" "command_inv H cs'"
        "queues cs' = queues (enqueue_command H ?c (app_commands s))"
        "map_of (idempotency_results cs') (canonical_scope H ?c) = Some ?c" by metis
    obtain ok db where p: "persist_candidate cas (app_db s) (app_devices s) (app_commands s)
        (mark_issued ?c (app_devices s)) cs' = (ok, db)" by force
    show ?thesis
    proof (cases ok)
      case True
      show ?thesis
        using tx free t p True None by (intro that(5) [of cs' db]) (simp_all add: Let_def issue_scope_def)
    next
      case False
      then show ?thesis using tx free None t(1) p that(4) [of db] by (simp add: Let_def)
    qed
  qed
qed

section \<open>One acknowledgement\<close>

lemma ack_cases:
  assumes inv: "command_inv H (app_commands s)"
  obtains
    (retry) "\<not> ack_ok (acked_request input)" "acknowledge_command_transaction cas now input s = (Inr AckRetryRequested, s)"
  | (missing) "ack_ok (acked_request input)"
      "\<forall>c\<in>set (queue_of (app_commands s) (acked_device_id input)). cmd_command_id c \<noteq> acked_command_id input"
      "acknowledge_command_transaction cas now input s = (Inr AckNotFound, s)"
  | (failed) db where "ack_ok (acked_request input)"
      "acked_command_id input \<in> cmd_command_id ` set (queue_of (app_commands s) (acked_device_id input))"
      "acknowledge_command_transaction cas now input s = (Inl AckPersistence, s\<lparr>app_db := db\<rparr>)"
  | (completed) db i where "ack_ok (acked_request input)"
      "i < length (queue_of (app_commands s) (acked_device_id input))"
      "cmd_command_id (queue_of (app_commands s) (acked_device_id input) ! i) = acked_command_id input"
      "persist_candidate cas (app_db s) (app_devices s) (app_commands s)
         (mark_acknowledged now (acked_device_id input) (app_devices s))
         (dequeue (acked_device_id input) i (app_commands s)) = (True, db)"
      "acknowledge_command_transaction cas now input s =
         (Inr AckCompleted,
          s\<lparr>app_db := db, app_devices := mark_acknowledged now (acked_device_id input) (app_devices s),
            app_commands := dequeue (acked_device_id input) i (app_commands s)\<rparr>)"
proof (cases "ack_ok (acked_request input)")
  case False
  then show ?thesis using that(1) by (simp add: acknowledge_command_transaction_def Let_def)
next
  case True
  let ?d = "acked_device_id input" and ?cs = "app_commands s"
  let ?p = "\<lambda>c. cmd_command_id c = acked_command_id input"
  have qi: "queue_inv ?cs" using inv by (simp add: command_inv_def)
  show ?thesis
  proof (cases "find_position ?p (queue_of ?cs ?d)")
    case None
    then have "acknowledge_command_transaction cas now input s = (Inr AckNotFound, s)"
      using True
      by (cases "map_of (queues ?cs) ?d") (simp_all add: acknowledge_command_transaction_def Let_def queue_of_def)
    then show ?thesis using that(2) True None by (simp add: find_position_None)
  next
    case (Some i)
    note i = find_position_less [OF Some]
    have q: "map_of (queues ?cs) ?d = Some (queue_of ?cs ?d)"
      using i by (simp add: queue_of_def split: option.splits)
    have dev: "cmd_device_id (queue_of ?cs ?d ! i) = ?d" by (rule queue_invD(4) [OF qi q nth_mem [OF i]])
    obtain ok db where p: "persist_candidate cas (app_db s) (app_devices s) ?cs
        (mark_acknowledged now ?d (app_devices s)) (dequeue ?d i ?cs) = (ok, db)" by force
    have tx: "acknowledge_command_transaction cas now input s =
        (if ok then (Inr AckCompleted, s\<lparr>app_db := db, app_devices := mark_acknowledged now ?d (app_devices s),
            app_commands := dequeue ?d i ?cs\<rparr>)
         else (Inl AckPersistence, s\<lparr>app_db := db\<rparr>))"
      using True q Some dev p by (simp add: acknowledge_command_transaction_def Let_def dequeue_def)
    have at: "cmd_command_id (queue_of ?cs ?d ! i) = acked_command_id input" using find_position_Some [OF Some] by simp
    then have "acked_command_id input \<in> cmd_command_id ` set (queue_of ?cs ?d)" using nth_mem [OF i] by (metis imageI)
    then show ?thesis using tx True that(3) [of db] that(4) [of i db] i p at by (cases ok) simp_all
  qed
qed

section \<open>Histories\<close>

datatype ControlOp =
    OpRegister string RegisterDeviceRequest
  | OpHeartbeat string HeartbeatRequest
  | OpProbe string string PublicProbeReport
  | OpIssue uuid string IssueCommandInput
  | OpPoll string
  | OpAcknowledge string AcknowledgeCommandInput

fun control_op :: "Hashing \<Rightarrow> 'db cas \<Rightarrow> ControlOp \<Rightarrow> 'db AppState \<Rightarrow> 'db AppState" where
  "control_op H cas (OpRegister now request) s = snd (register_device_transaction cas now request s)"
| "control_op H cas (OpHeartbeat now request) s = snd (heartbeat_transaction cas now request s)"
| "control_op H cas (OpProbe now device report) s = snd (public_probe_transaction cas now device report s)"
| "control_op H cas (OpIssue new_id now input) s = snd (issue_command_transaction H cas new_id now input s)"
| "control_op H cas (OpPoll device) s = s"
| "control_op H cas (OpAcknowledge now input) s = snd (acknowledge_command_transaction cas now input s)"

fun op_admissible :: "ControlOp \<Rightarrow> 'db AppState \<Rightarrow> bool" where
  "op_admissible (OpIssue new_id now input) s = issue_admissible new_id input (app_commands s)"
| "op_admissible _ s = True"

inductive control_run :: "Hashing \<Rightarrow> 'db cas \<Rightarrow> 'db AppState \<Rightarrow> ControlOp list \<Rightarrow> 'db AppState \<Rightarrow> bool"
  for H cas where
  run_refl: "control_run H cas s [] s"
| run_step: "control_run H cas s ops t \<Longrightarrow> op_admissible op t \<Longrightarrow> control_run H cas s (ops @ [op]) (control_op H cas op t)"

inductive_cases control_run_snocE: "control_run H cas s (ops @ [op]) t"
inductive_cases control_run_nilE: "control_run H cas s [] t"

definition rotate_inv :: "CommandState \<Rightarrow> bool" where
  "rotate_inv cs = (\<forall>d. length (filter (\<lambda>c. cmd_recovery_intent c = RotateRecovery) (queue_of cs d)) \<le> 1)"

definition device_inv :: "device_map \<Rightarrow> bool" where
  "device_inv devices =
     (distinct (map fst devices) \<and> (\<forall>k d. map_of devices k = Some d \<longrightarrow> dev_node_id d = k)
      \<and> length devices \<le> MAX_REGISTERED_DEVICES)"

definition control_inv :: "Hashing \<Rightarrow> 'db AppState \<Rightarrow> bool" where
  "control_inv H s = (command_inv H (app_commands s) \<and> rotate_inv (app_commands s) \<and> device_inv (app_devices s))"

definition control_start :: "'db \<Rightarrow> 'db AppState" where
  "control_start db = \<lparr>app_devices = [], app_commands = CommandState_default, app_db = db\<rparr>"

lemma control_start_inv: "control_inv H (control_start db)"
  by (simp add: control_inv_def control_start_def command_inv_def queue_inv_def replay_inv_def CommandState_default_def
      rotate_inv_def device_inv_def queue_of_def queued_commands_def)

lemma device_inv_update:
  assumes "device_inv devices" "dev_node_id d = k" "map_of devices k \<noteq> None \<or> length devices < MAX_REGISTERED_DEVICES"
  shows "device_inv (AList.update k d devices)"
proof -
  have D: "distinct (map fst devices)" "length devices \<le> MAX_REGISTERED_DEVICES"
    using assms(1) by (simp_all add: device_inv_def)
  have dist: "distinct (map fst (AList.update k d devices))" using D(1) by (simp add: al_simps)
  have "length (AList.update k d devices) = card (insert k (fst ` set devices))"
    using distinct_card [OF dist] by (simp add: dom_update)
  also have "\<dots> \<le> MAX_REGISTERED_DEVICES"
  proof (cases "map_of devices k")
    case None
    have "card (insert k (fst ` set devices)) \<le> Suc (length devices)"
      using distinct_card [OF D(1)] by (simp add: card_insert_if)
    then show ?thesis using assms(3) None by simp
  next
    case (Some v)
    then have "k \<in> fst ` set devices" by (metis map_of_eq_None_iff option.distinct(1))
    then show ?thesis using distinct_card [OF D(1)] D(2) by (simp add: insert_absorb)
  qed
  finally have "length (AList.update k d devices) \<le> MAX_REGISTERED_DEVICES" .
  then show ?thesis using dist assms(1,2) by (simp add: device_inv_def al_simps)
qed

lemma device_inv_amend:
  assumes "device_inv devices" "map_of devices k = Some e" "dev_node_id d = dev_node_id e"
  shows "device_inv (AList.update k d devices)"
proof (rule device_inv_update [OF assms(1)])
  have "\<forall>k d. map_of devices k = Some d \<longrightarrow> dev_node_id d = k" using assms(1) unfolding device_inv_def by (elim conjE)
  with assms(2,3) show "dev_node_id d = k" by metis
  show "map_of devices k \<noteq> None \<or> length devices < MAX_REGISTERED_DEVICES" using assms(2) by simp
qed

lemma mark_issued_inv: "device_inv devices \<Longrightarrow> device_inv (mark_issued c devices)"
  by (simp add: mark_issued_def device_inv_amend split: option.split)

lemma mark_acknowledged_inv: "device_inv devices \<Longrightarrow> device_inv (mark_acknowledged now d devices)"
  by (simp add: mark_acknowledged_def device_inv_amend split: option.split)

section \<open>Every transaction keeps the invariant\<close>

lemma build_registered_node [simp]: "dev_node_id (build_registered_device now r) = reg_node_id r"
  by (simp add: build_registered_device_def Let_def)

lemma build_heartbeat_node [simp]: "dev_node_id (build_heartbeat_device now r p e a) = hb_node_id r"
  by (simp add: build_heartbeat_device_def Let_def split: prod.split)

lemma apply_probe_node [simp]: "dev_node_id (apply_public_probe now d r) = dev_node_id d"
  by (simp add: apply_public_probe_def Let_def)

lemma register_devices:
  assumes "register_device_transaction cas now r s = (res, t)"
  shows "map_of (app_devices s) (reg_node_id r) \<noteq> None
      \<and> app_devices t = app_devices s \<and> app_commands t = app_commands s
    \<or> map_of (app_devices s) (reg_node_id r) = None \<and> app_commands t = app_commands s \<and>
      (app_devices t = app_devices s \<or> length (app_devices s) < MAX_REGISTERED_DEVICES \<and>
        app_devices t = AList.update (reg_node_id r) (build_registered_device now r) (app_devices s))"
  using assms
  by (cases "map_of (app_devices s) (reg_node_id r)")
    (auto simp: register_device_transaction_def Let_def split: if_splits prod.splits bool.splits)

lemma register_effect:
  assumes "register_device_transaction cas now r s = (res, t)"
  shows "app_commands t = app_commands s" and "device_inv (app_devices s) \<Longrightarrow> device_inv (app_devices t)"
proof -
  note D = register_devices [OF assms]
  then show "app_commands t = app_commands s" by argo
  show "device_inv (app_devices t)" if "device_inv (app_devices s)"
    using D device_inv_update [OF that, of "build_registered_device now r" "reg_node_id r"] that by auto
qed

lemma heartbeat_devices:
  assumes "heartbeat_transaction cas now r s = (res, t)"
  shows "app_commands t = app_commands s \<and>
      (app_devices t = app_devices s \<or>
       (\<exists>p e a. (map_of (app_devices s) (hb_node_id r) \<noteq> None \<or> length (app_devices s) < MAX_REGISTERED_DEVICES) \<and>
        app_devices t = AList.update (hb_node_id r) (build_heartbeat_device now r p e a) (app_devices s)))"
  using assms
  by (cases "map_of (app_devices s) (hb_node_id r)")
    (auto simp: heartbeat_transaction_def Let_def split: if_splits prod.splits bool.splits; blast)+

lemma heartbeat_effect:
  assumes "heartbeat_transaction cas now r s = (res, t)"
  shows "app_commands t = app_commands s" and "device_inv (app_devices s) \<Longrightarrow> device_inv (app_devices t)"
proof -
  note D = heartbeat_devices [OF assms]
  then show "app_commands t = app_commands s" by argo
  show "device_inv (app_devices t)" if "device_inv (app_devices s)"
    using D device_inv_update [OF that, of _ "hb_node_id r"] that by auto
qed

lemma probe_devices:
  assumes "public_probe_transaction cas now d r s = (res, t)"
  shows "app_commands t = app_commands s \<and>
      (app_devices t = app_devices s \<or>
       (\<exists>e. map_of (app_devices s) d = Some e \<and>
        app_devices t = AList.update d (apply_public_probe now e r) (app_devices s)))"
  using assms
  by (cases "map_of (app_devices s) d")
    (auto simp: public_probe_transaction_def Let_def split: if_splits prod.splits bool.splits)

lemma probe_effect:
  assumes "public_probe_transaction cas now d r s = (res, t)"
  shows "app_commands t = app_commands s" and "device_inv (app_devices s) \<Longrightarrow> device_inv (app_devices t)"
proof -
  note D = probe_devices [OF assms]
  then show "app_commands t = app_commands s" by argo
  show "device_inv (app_devices t)" if "device_inv (app_devices s)"
    using D device_inv_amend [OF that, of d _ "apply_public_probe now _ r"] that by auto
qed

lemma issue_devices:
  assumes "issue_command_transaction H cas i now input s = (res, t)"
  shows "app_devices t = app_devices s \<or> (\<exists>c. app_devices t = mark_issued c (app_devices s))"
  using assms
  by (auto simp: issue_command_transaction_def Let_def split: option.splits if_splits prod.splits bool.splits sum.splits)

lemma ack_devices:
  assumes "acknowledge_command_transaction cas now input s = (res, t)"
  shows "app_devices t = app_devices s \<or> (\<exists>d. app_devices t = mark_acknowledged now d (app_devices s))"
  using assms
  by (auto simp: acknowledge_command_transaction_def Let_def split: option.splits if_splits prod.splits bool.splits)

lemma queue_of_enqueue:
  "queue_of (enqueue_command H c cs) d = (if d = cmd_device_id c then queue_of cs d @ [c] else queue_of cs d)"
  by (simp add: queue_of_def enqueue_command_def Let_def al_simps)

lemma queue_of_dequeue:
  "queue_of (dequeue e i cs) d = (if d = e then remove_at i (queue_of cs d) else queue_of cs d)"
  by (simp add: queue_of_def dequeue_def Let_def al_simps)

lemma queue_of_queued: "c \<in> set (queue_of cs d) \<Longrightarrow> c \<in> set (queued_commands cs)"
proof -
  assume c: "c \<in> set (queue_of cs d)"
  then have "map_of (queues cs) d = Some (queue_of cs d)"
    by (cases "map_of (queues cs) d") (simp_all add: queue_of_def)
  from map_of_SomeD [OF this] c show ?thesis unfolding queued_commands_def by force
qed

lemma queue_ids:
  assumes "queue_inv cs"
  shows "distinct (map cmd_command_id (queue_of cs d))"
proof (cases "map_of (queues cs) d")
  case (Some q)
  from split_list [OF map_of_SomeD [OF this]] obtain xs ys where "queues cs = xs @ (d, q) # ys" by blast
  then show ?thesis using queue_invD(5) [OF assms] Some by (simp add: queued_commands_def queue_of_def)
qed (simp add: queue_of_def)

lemma queue_of_cong: "queues cs = queues cs' \<Longrightarrow> queue_of cs d = queue_of cs' d"
  by (simp add: queue_of_def)

lemma rotate_issue:
  assumes "rotate_inv (app_commands s)" "\<not> issue_blocked s input"
    and "queues cs' = queues (enqueue_command H (new_command i now input) (app_commands s))"
  shows "rotate_inv cs'"
  unfolding rotate_inv_def
proof
  fix d
  let ?c = "new_command i now input" and ?r = "\<lambda>c. cmd_recovery_intent c = RotateRecovery"
  have q: "queue_of cs' d = (if d = issue_device_id input then queue_of (app_commands s) d @ [?c] else queue_of (app_commands s) d)"
    using queue_of_cong [OF assms(3), of d] queue_of_enqueue [of H ?c "app_commands s" d] by simp
  have old: "length (filter ?r (queue_of (app_commands s) d)) \<le> 1" using assms(1) by (simp add: rotate_inv_def)
  have "filter ?r (queue_of (app_commands s) (issue_device_id input)) = []" if "?r ?c"
  proof -
    have "\<not> rotation_pending (app_devices s) (app_commands s) (issue_device_id input)"
      using assms(2) that by (simp add: issue_blocked_def)
    then show ?thesis
      by (cases "map_of (queues (app_commands s)) (issue_device_id input)")
        (auto simp: rotation_pending_def queue_of_def filter_empty_conv list_ex_iff)
  qed
  with old q show "length (filter ?r (queue_of cs' d)) \<le> 1" by (cases "?r ?c") auto
qed

lemma rotate_dequeue: "rotate_inv cs \<Longrightarrow> rotate_inv (dequeue e i cs)"
proof -
  have "length (filter P (remove_at i xs)) \<le> length (filter P xs)" for P and xs :: "DeviceCommand list"
  proof (cases "i < length xs")
    case True
    then have "size (filter_mset P (mset (remove_at i xs))) \<le> size (filter_mset P (mset xs))"
      by (simp flip: remove_at_mset)
    then show ?thesis by (metis mset_filter size_mset)
  qed (simp add: remove_at_def)
  then show "rotate_inv cs \<Longrightarrow> rotate_inv (dequeue e i cs)"
    by (auto simp: rotate_inv_def queue_of_dequeue intro: order_trans)
qed

lemma control_op_inv:
  assumes H: "hex_text H" and inv: "control_inv H s" and ok: "op_admissible op s"
  shows "control_inv H (control_op H cas op s)"
proof -
  have I: "command_inv H (app_commands s)" "rotate_inv (app_commands s)" "device_inv (app_devices s)"
    using inv by (simp_all add: control_inv_def)
  show ?thesis
  proof (cases op)
    case (OpRegister now r)
    obtain res t where t: "register_device_transaction cas now r s = (res, t)" by force
    show ?thesis using register_effect [OF t] I t OpRegister by (simp add: control_inv_def)
  next
    case (OpHeartbeat now r)
    obtain res t where t: "heartbeat_transaction cas now r s = (res, t)" by force
    show ?thesis using heartbeat_effect [OF t] I t OpHeartbeat by (simp add: control_inv_def)
  next
    case (OpProbe now d r)
    obtain res t where t: "public_probe_transaction cas now d r s = (res, t)" by force
    show ?thesis using probe_effect [OF t] I t OpProbe by (simp add: control_inv_def)
  next
    case (OpIssue new_id now input)
    have adm: "issue_admissible new_id input (app_commands s)" using ok OpIssue by simp
    show ?thesis
    proof (cases rule: issue_cases [OF H I(1) adm, of cas now])
      case (5 db cs')
      then show ?thesis
        using OpIssue I mark_issued_inv rotate_issue [OF I(2) 5(1) 5(6)] by (simp add: control_inv_def)
    qed (use OpIssue I in \<open>simp_all add: control_inv_def\<close>)
  next
    case (OpAcknowledge now input)
    show ?thesis
    proof (cases rule: ack_cases [OF I(1), of input cas now])
      case (4 db i)
      then show ?thesis
        using OpAcknowledge I dequeue_inv [OF I(1) 4(2)] rotate_dequeue mark_acknowledged_inv by (simp add: control_inv_def)
    qed (use OpAcknowledge I in \<open>simp_all add: control_inv_def\<close>)
  qed (use inv in simp)
qed

lemma control_run_inv:
  assumes "hex_text H" "control_run H cas s ops t" "control_inv H s"
  shows "control_inv H t"
  using assms(2,3) by (induction rule: control_run.induct) (auto intro: control_op_inv [OF assms(1)])

section \<open>Concrete instances\<close>

lemma sample_hex_text: "hex_text sample_hashing"
proof -
  have "list_all is_lower_hex s \<Longrightarrow> CHR '':'' \<notin> set s" for s
    by (auto simp: list_all_iff is_lower_hex_def is_ascii_digit_def in_range_def)
  then show ?thesis using sample_hex_shape by (simp add: hex_text_def)
qed

definition sample_input :: "string \<Rightarrow> string \<Rightarrow> RecoveryIntent \<Rightarrow> IssueCommandInput" where
  "sample_input device key intent =
     \<lparr>issue_device_id = device,
      issue_request = \<lparr>req_desired_state = HealthyServing, req_recovery_intent = intent,
        req_deadline_secs = DeadlineWindow 60, req_idempotency_key = IdempotencyKey key\<rparr>\<rparr>"

definition sample_command :: DeviceCommand where
  "sample_command = new_command 1 ''10'' (sample_input ''dev'' ''k1'' RestartRuntime)"

definition accept_all :: "unit cas" where
  "accept_all db expected candidate = (True, ())"

definition issued_once :: "unit AppState" where
  "issued_once = snd (issue_command_transaction sample_hashing accept_all 1 ''10'' (sample_input ''dev'' ''k1'' RestartRuntime)
     (control_start ()))"

lemma default_command_inv: "command_inv H CommandState_default" and start_commands [simp]:
    "app_commands (control_start db) = CommandState_default" "app_devices (control_start db) = []"
    "app_db (control_start db) = db"
  using control_start_inv [of H "()"] by (simp_all add: control_inv_def control_start_def)

lemma sample_admissible: "issue_admissible i (sample_input ''dev'' k r) CommandState_default"
  by (simp add: issue_admissible_def sample_input_def fresh_id_def CommandState_default_def)

lemma issue_on_empty:
  assumes "hex_text H"
  shows "issue_command_transaction H accept_all i now input (control_start ())
     = (Inr (CommandCreated (new_command i now input)),
        \<lparr>app_devices = [], app_commands = enqueue_command H (new_command i now input) CommandState_default, app_db = ()\<rparr>)"
proof -
  have "normalize_command_state H CommandState_default = Some (CommandState_default, no_migration)"
    using normalize_noop [OF assms] default_command_inv by (simp add: command_inv_def)
  moreover have "trim_idempotency_state (enqueue_command H (new_command i now input) CommandState_default)
      = Some (0, enqueue_command H (new_command i now input) CommandState_default)"
    by (rule trim_small) (simp add: CommandState_default_def MAX_IDEMPOTENCY_RESULTS_def)
  moreover have "\<not> queue_full CommandState_default d" "\<not> rotation_pending [] CommandState_default d" for d
    by (simp_all add: queue_full_def rotation_pending_def pending_command_count_def CommandState_default_def
        MAX_PENDING_COMMANDS_def)
  moreover have "map_of (idempotency_results CommandState_default) k = None" "map_of (idempotency CommandState_default) k = None" for k
    by (simp_all add: CommandState_default_def)
  ultimately show ?thesis
    by (simp add: issue_command_transaction_def Let_def persist_candidate_def accept_all_def mark_issued_def control_start_def)
qed

lemma issued_once_eq:
  "issue_command_transaction sample_hashing accept_all 1 ''10'' (sample_input ''dev'' ''k1'' RestartRuntime) (control_start ())
     = (Inr (CommandCreated sample_command), issued_once)"
  and issued_once_state: "issued_once =
    \<lparr>app_devices = [], app_commands = enqueue_command sample_hashing sample_command CommandState_default, app_db = ()\<rparr>"
  by (simp_all add: issue_on_empty [OF sample_hex_text] issued_once_def sample_command_def)

lemma issued_once_run: "control_run sample_hashing accept_all (control_start ())
    [OpIssue 1 ''10'' (sample_input ''dev'' ''k1'' RestartRuntime)] issued_once"
  using run_step [OF run_refl, of "OpIssue 1 ''10'' (sample_input ''dev'' ''k1'' RestartRuntime)" "control_start ()"
      sample_hashing accept_all] issued_once_eq by (simp add: sample_admissible)

section \<open>Capacity and uniqueness over every history\<close>

lemma control_bounds:
  assumes "hex_text H" "control_run H cas (control_start db) ops s"
  shows "\<forall>d. length (queue_of (app_commands s) d) \<le> 50
           \<and> (\<forall>c\<in>set (queue_of (app_commands s) d). cmd_device_id c = d
                \<and> map_of (idempotency_results (app_commands s)) (canonical_scope H c) = Some c)
           \<and> length (filter (\<lambda>c. cmd_recovery_intent c = RotateRecovery) (queue_of (app_commands s) d)) \<le> 1"
    and "length (queued_commands (app_commands s)) \<le> 1000"
    and "length (idempotency_results (app_commands s)) \<le> 1000"
    and "distinct (map cmd_command_id (queued_commands (app_commands s)))"
    and "distinct (map (canonical_scope H) (queued_commands (app_commands s)))"
    and "length (app_devices s) \<le> 10000"
proof -
  let ?cs = "app_commands s"
  have inv: "control_inv H s" by (rule control_run_inv [OF assms control_start_inv])
  then have qi: "queue_inv ?cs" and ri: "replay_inv H MAX_IDEMPOTENCY_RESULTS ?cs" and rot: "rotate_inv ?cs"
    and dev: "device_inv (app_devices s)" by (simp_all add: control_inv_def command_inv_def)
  note Q = queue_invD [OF qi] and R = replay_invD [OF ri]
  show "\<forall>d. length (queue_of ?cs d) \<le> 50
      \<and> (\<forall>c\<in>set (queue_of ?cs d). cmd_device_id c = d \<and> map_of (idempotency_results ?cs) (canonical_scope H c) = Some c)
      \<and> length (filter (\<lambda>c. cmd_recovery_intent c = RotateRecovery) (queue_of ?cs d)) \<le> 1"
  proof (intro allI conjI ballI)
    fix d
    show "length (queue_of ?cs d) \<le> 50"
      using Q(3) [of d] by (simp add: queue_of_def MAX_COMMAND_QUEUE_PER_DEVICE_def split: option.split)
    show "length (filter (\<lambda>c. cmd_recovery_intent c = RotateRecovery) (queue_of ?cs d)) \<le> 1"
      using rot unfolding rotate_inv_def by blast
    fix c assume c: "c \<in> set (queue_of ?cs d)"
    then have q: "map_of (queues ?cs) d = Some (queue_of ?cs d)"
      by (cases "map_of (queues ?cs) d") (simp_all add: queue_of_def)
    show "cmd_device_id c = d" by (rule Q(4) [OF q c])
    show "map_of (idempotency_results ?cs) (canonical_scope H c) = Some c" by (rule R(11) [OF queue_of_queued [OF c]])
  qed
  show "length (queued_commands ?cs) \<le> 1000" using Q(6) by (simp add: MAX_PENDING_COMMANDS_def)
  have "length (idempotency_results ?cs) = length (idempotency_order ?cs)"
    using distinct_card [OF R(2)] distinct_card [OF R(8)] R(9) by simp
  then show "length (idempotency_results ?cs) \<le> 1000" using R(10) by (simp add: MAX_IDEMPOTENCY_RESULTS_def)
  show "distinct (map cmd_command_id (queued_commands ?cs))" by (rule Q(5))
  have "inj_on (canonical_scope H) (set (queued_commands ?cs))"
    using R(11) by (intro inj_onI) (metis option.inject)
  then show "distinct (map (canonical_scope H) (queued_commands ?cs))"
    using Q(5) by (simp add: distinct_map)
  show "length (app_devices s) \<le> 10000" using dev by (simp add: device_inv_def MAX_REGISTERED_DEVICES_def)
qed

text \<open>
  C4: From an empty control plane, whatever sequence of registrations,
  heartbeats, probe reports, issue requests, polls and acknowledgements runs,
  and whichever of the durable commits succeed: every device queue holds at most
  50 commands, all for that device and at most one of them a rotation; at most
  1000 commands are pending and at most 1000 results are retained; no two
  pending commands share an identifier or an idempotency scope; every pending
  command can be replayed; and at most 10000 devices are registered.
\<close>

theorem control_plane_bounds:
  assumes "hex_text H" "control_run H cas (control_start db) ops s"
  shows "(\<forall>d. length (queue_of (app_commands s) d) \<le> 50
           \<and> (\<forall>c\<in>set (queue_of (app_commands s) d). cmd_device_id c = d
                \<and> map_of (idempotency_results (app_commands s)) (canonical_scope H c) = Some c)
           \<and> length (filter (\<lambda>c. cmd_recovery_intent c = RotateRecovery) (queue_of (app_commands s) d)) \<le> 1)
    \<and> length (queued_commands (app_commands s)) \<le> 1000
    \<and> length (idempotency_results (app_commands s)) \<le> 1000
    \<and> distinct (map cmd_command_id (queued_commands (app_commands s)))
    \<and> distinct (map (canonical_scope H) (queued_commands (app_commands s)))
    \<and> length (app_devices s) \<le> 10000"
  by (intro conjI control_bounds [OF assms])

theorem control_plane_bounds_witness:
  "length (queued_commands (app_commands issued_once)) \<le> 1000 \<and> length (app_devices issued_once) \<le> 10000"
  using control_plane_bounds [OF sample_hex_text issued_once_run] by simp

section \<open>Decision of an issue request\<close>

text \<open>
  On a well-formed state an issue request is never refused for a corrupt
  state.  It is an exact duplicate precisely when a result is retained under its
  scope for the same request; it conflicts precisely when the retained request
  differs or when only the legacy claim is taken; otherwise it is refused for
  capacity precisely when a rotation is already in flight or the queue is full,
  and in every remaining case the outcome is the durable commit's.
\<close>

theorem issue_command_decides:
  assumes "hex_text H" "command_inv H (app_commands s)" "issue_admissible new_id input (app_commands s)"
  shows "let results = map_of (idempotency_results (app_commands s));
             claimed = map_of (idempotency (app_commands s)) (legacy_idempotency_scope_key input) \<noteq> None;
             outcome = fst (issue_command_transaction H cas new_id now input s) in
         (\<forall>c. outcome = Inr (ExactDuplicate c) \<longleftrightarrow> results (issue_scope H input) = Some c \<and> same_request H c input)
       \<and> (outcome = Inl IdempotencyConflict \<longleftrightarrow>
            (case results (issue_scope H input) of Some c \<Rightarrow> \<not> same_request H c input | None \<Rightarrow> claimed))
       \<and> (outcome = Inl IssueCapacityExceeded \<longleftrightarrow>
            results (issue_scope H input) = None \<and> \<not> claimed \<and> issue_blocked s input)
       \<and> (outcome \<in> {Inl IssuePersistence, Inr (CommandCreated (new_command new_id now input))} \<longleftrightarrow>
            results (issue_scope H input) = None \<and> \<not> claimed \<and> \<not> issue_blocked s input)
       \<and> outcome \<noteq> Inl IssueStateConflict"
proof (cases "map_of (idempotency_results (app_commands s)) (issue_scope H input)")
  case (Some c)
  then show ?thesis
    using issue_replayed [OF assms(1,2) Some, of cas new_id now] by (cases "same_request H c input") (auto simp: Let_def)
next
  case None
  show ?thesis
  proof (cases rule: issue_cases [OF assms, of cas now])
    case (4 db)
    then show ?thesis by (auto simp: Let_def)
  qed (use None in \<open>simp_all add: Let_def\<close>)
qed

theorem issue_command_decides_witness:
  "fst (issue_command_transaction sample_hashing accept_all 1 ''10'' (sample_input ''dev'' ''k1'' RestartRuntime)
     (control_start ())) \<noteq> Inl IssueStateConflict"
  using issue_command_decides [OF sample_hex_text, of "control_start ()" 1 "sample_input ''dev'' ''k1'' RestartRuntime"
      accept_all "''10''"] default_command_inv sample_admissible by (simp add: Let_def)

section \<open>Idempotent replay\<close>

definition acknowledges :: "DeviceCommand \<Rightarrow> ControlOp \<Rightarrow> bool" where
  "acknowledges c op = (case op of OpAcknowledge now input \<Rightarrow> acked_command_id input = cmd_command_id c | _ \<Rightarrow> False)"

lemma control_op_keeps_pending:
  assumes H: "hex_text H" and inv: "command_inv H (app_commands s)" and ok: "op_admissible op s"
    and c: "c \<in> set (queue_of (app_commands s) d)" and no: "\<not> acknowledges c op"
  shows "c \<in> set (queue_of (app_commands (control_op H cas op s)) d)"
proof (cases op)
  case (OpRegister now r)
  obtain res t where t: "register_device_transaction cas now r s = (res, t)" by force
  show ?thesis using register_effect(1) [OF t] t c OpRegister by simp
next
  case (OpHeartbeat now r)
  obtain res t where t: "heartbeat_transaction cas now r s = (res, t)" by force
  show ?thesis using heartbeat_effect(1) [OF t] t c OpHeartbeat by simp
next
  case (OpProbe now e r)
  obtain res t where t: "public_probe_transaction cas now e r s = (res, t)" by force
  show ?thesis using probe_effect(1) [OF t] t c OpProbe by simp
next
  case (OpIssue new_id now input)
  have adm: "issue_admissible new_id input (app_commands s)" using ok OpIssue by simp
  show ?thesis
  proof (cases rule: issue_cases [OF H inv adm, of cas now])
    case (5 db cs')
    then show ?thesis using OpIssue c queue_of_cong [OF 5(6), of d] by (auto simp: queue_of_enqueue)
  qed (use OpIssue c in simp_all)
next
  case (OpAcknowledge now input)
  show ?thesis
  proof (cases rule: ack_cases [OF inv, of input cas now])
    case (4 db i)
    let ?q = "queue_of (app_commands s) (acked_device_id input)"
    have "c \<noteq> ?q ! i" using 4(3) no OpAcknowledge by (auto simp: acknowledges_def)
    moreover have "insert (?q ! i) (set (remove_at i ?q)) = set ?q"
      using remove_at_mset [OF 4(2)] by (metis set_mset_add_mset_insert set_mset_mset)
    ultimately have "c \<in> set (queue_of (dequeue (acked_device_id input) i (app_commands s)) d)"
      using c by (auto simp: queue_of_dequeue)
    then show ?thesis using 4(5) OpAcknowledge by simp
  qed (use OpAcknowledge c in simp_all)
qed (use c in simp)

lemma pending_survives:
  assumes H: "hex_text H" and run: "control_run H cas s ops t" and inv: "control_inv H s"
    and c: "c \<in> set (queue_of (app_commands s) d)" and no: "\<forall>op\<in>set ops. \<not> acknowledges c op"
  shows "c \<in> set (queue_of (app_commands t) d)"
  using run inv c no
proof (induction rule: control_run.induct)
  case (run_step s ops t op)
  have "command_inv H (app_commands t)"
    using control_run_inv [OF H run_step(1) run_step.prems(1)] by (simp add: control_inv_def)
  from control_op_keeps_pending [OF H this run_step(2)] run_step show ?case by simp
qed simp

lemma same_request_new: "same_request H (new_command i now input) input"
  by (simp add: same_request_def new_command_def original_request_def request_fingerprint_def request_parts_def)



section \<open>What an exact duplicate certifies\<close>

lemma u32_bytes_inject: "u32_to_be_bytes a = u32_to_be_bytes b \<Longrightarrow> a = b"
proof -
  assume eq: "u32_to_be_bytes a = u32_to_be_bytes b"
  have digit: "unat a div 256 ^ i mod 256 = unat b div 256 ^ i mod 256" if "i \<in> {0, 1, 2, 3}" for i
    using eq that by (intro char_of_unat_drop_bit) (auto simp: u32_to_be_bytes_def)
  have top: "unat a div 256 div 256 div 256 div 256 = unat b div 256 div 256 div 256 div 256"
    using unsigned_less [of a, where ?'a = nat] unsigned_less [of b, where ?'a = nat]
    by (simp add: div_mult2_eq [symmetric])
  have d3: "unat a div 256 div 256 div 256 = unat b div 256 div 256 div 256"
    by (rule digit_div_step [OF _ top]) (use digit [of 3] in \<open>simp add: div_mult2_eq [symmetric]\<close>)
  have d2: "unat a div 256 div 256 = unat b div 256 div 256"
    by (rule digit_div_step [OF _ d3]) (use digit [of 2] in \<open>simp add: div_mult2_eq [symmetric]\<close>)
  have d1: "unat a div 256 = unat b div 256"
    by (rule digit_div_step [OF _ d2]) (use digit [of 1] in simp)
  have "unat a = unat b" by (rule digit_div_step [OF _ d1]) (use digit [of 0] in simp)
  then show "a = b" by (rule unsigned_word_eqI)
qed

lemma request_parts_inject:
  assumes "request_parts d r = request_parts d' r'"
  shows "d = d' \<and> req_desired_state r = req_desired_state r' \<and> req_recovery_intent r = req_recovery_intent r'
       \<and> req_deadline_secs r = req_deadline_secs r'"
proof -
  have "DesiredState_display (req_desired_state r) = DesiredState_display (req_desired_state r')"
    "RecoveryIntent_display (req_recovery_intent r) = RecoveryIntent_display (req_recovery_intent r')"
    "u32_to_be_bytes (as_secs (req_deadline_secs r)) = u32_to_be_bytes (as_secs (req_deadline_secs r'))" "d = d'"
    using assms by (simp_all add: request_parts_def)
  then show ?thesis
    using u32_bytes_inject desired_state_codec.print_inject recovery_intent_codec.print_inject
    by (simp add: DeadlineWindow.expand)
qed

lemma request_parts_addressable: "addressable d \<Longrightarrow> list_all addressable (request_parts d r)"
  by (cases "req_desired_state r"; cases "req_recovery_intent r")
    (simp_all add: request_parts_def u32_to_be_bytes_def addressable_def)

text \<open>
  An exact duplicate is the original request: either the retained command
  was issued for the same device, desired state, recovery intent, deadline
  window and key as the request now answered, or two different inputs of the
  hash function collide.
\<close>

theorem exact_duplicate_is_same_request:
  assumes "hex_text H" "command_inv H (app_commands s)" "issue_admissible new_id input (app_commands s)"
    and "issue_command_transaction H cas new_id now input s = (Inr (ExactDuplicate c), t)"
    and "addressable (issue_device_id input)" "addressable (cmd_device_id c)"
  shows "cmd_device_id c = issue_device_id input
         \<and> cmd_desired_state c = req_desired_state (issue_request input)
         \<and> cmd_recovery_intent c = req_recovery_intent (issue_request input)
         \<and> cmd_deadline_secs c = req_deadline_secs (issue_request input)
         \<and> cmd_idempotency_key c = req_idempotency_key (issue_request input)
       \<or> (\<exists>a b. a \<noteq> b \<and> blake3_fn H COMMAND_REQUEST_DOMAIN a = blake3_fn H COMMAND_REQUEST_DOMAIN b)"
proof -
  let ?p = "request_parts (cmd_device_id c) (original_request c)"
  let ?q = "request_parts (issue_device_id input) (issue_request input)"
  have same: "same_request H c input"
    by (rule issue_cases [OF assms(1-3), of cas now]) (use assms(4) in auto)
  then have hash: "ContentDigest_derive (blake3_fn H) COMMAND_REQUEST_DOMAIN ?p
      = ContentDigest_derive (blake3_fn H) COMMAND_REQUEST_DOMAIN ?q"
    and key: "cmd_idempotency_key c = req_idempotency_key (issue_request input)"
    by (simp_all add: same_request_def request_fingerprint_def)
  show ?thesis
  proof (cases "?p = ?q")
    case True
    from request_parts_inject [OF this] key show ?thesis by (simp add: original_request_def)
  next
    case False
    from ContentDigest_derive_collision [OF _ _ this hash] request_parts_addressable assms(5,6) show ?thesis by blast
  qed
qed

section \<open>Delivery\<close>


lemma issued_once_inv: "control_inv sample_hashing issued_once" "command_inv sample_hashing (app_commands issued_once)"
  using control_run_inv [OF sample_hex_text issued_once_run control_start_inv] by (simp_all add: control_inv_def)

lemma issued_once_admits: "i \<noteq> 1 \<Longrightarrow> issue_admissible i (sample_input ''dev'' k r) (app_commands issued_once)"
  by (simp add: issue_admissible_def fresh_id_def issued_once_state sample_input_def sample_command_def CommandState_default_def)

theorem exact_duplicate_is_same_request_witness:
  "cmd_device_id sample_command = ''dev'' \<and> cmd_recovery_intent sample_command = RestartRuntime
   \<or> (\<exists>a b. a \<noteq> b \<and> blake3_fn sample_hashing COMMAND_REQUEST_DOMAIN a = blake3_fn sample_hashing COMMAND_REQUEST_DOMAIN b)"
proof -
  have res: "map_of (idempotency_results (app_commands issued_once))
      (issue_scope sample_hashing (sample_input ''dev'' ''k1'' RestartRuntime)) = Some sample_command"
    by (simp add: issued_once_state CommandState_default_def sample_command_def issue_scope_def)
  have same: "same_request sample_hashing sample_command (sample_input ''dev'' ''k1'' RestartRuntime)"
    by (simp add: sample_command_def same_request_new)
  have dup: "issue_command_transaction sample_hashing accept_all 2 ''99'' (sample_input ''dev'' ''k1'' RestartRuntime) issued_once
      = (Inr (ExactDuplicate sample_command), issued_once)"
    using issue_replayed [OF sample_hex_text issued_once_inv(2) res] same by simp
  show ?thesis
    using exact_duplicate_is_same_request [OF sample_hex_text issued_once_inv(2) issued_once_admits dup]
    by (simp add: sample_input_def sample_command_def addressable_def)
qed


section \<open>Retention\<close>

lemma evictable_retained:
  assumes "replay_inv H n cs" "k \<in> set (idempotency_order cs)"
  shows "evictable cs k \<longleftrightarrow> k \<notin> canonical_scope H ` set (queued_commands cs)"
proof -
  note D = replay_invD [OF assms(1)]
  obtain c where c: "map_of (idempotency_results cs) k = Some c"
    using assms(2) D(9) by (metis domD dom_map_of_conv_image_fst)
  have k: "k = canonical_scope H c" by (rule D(3) [OF c])
  have "command_is_pending cs (cmd_command_id c) \<longleftrightarrow> (\<exists>q\<in>set (queued_commands cs). canonical_scope H q = k)"
  proof
    assume "command_is_pending cs (cmd_command_id c)"
    then obtain q where q: "q \<in> set (queued_commands cs)" "cmd_command_id q = cmd_command_id c"
      by (auto simp: pending_iff_queued)
    from D(7) [OF D(11) [OF q(1)] c q(2)] q(1) k show "\<exists>q\<in>set (queued_commands cs). canonical_scope H q = k" by blast
  next
    assume "\<exists>q\<in>set (queued_commands cs). canonical_scope H q = k"
    then obtain q where q: "q \<in> set (queued_commands cs)" "canonical_scope H q = k" by blast
    then have "q = c" using D(11) [OF q(1)] c by simp
    with q(1) show "command_is_pending cs (cmd_command_id c)" by (auto simp: pending_iff_queued)
  qed
  with c show ?thesis by (simp add: evictable_def image_iff) metis
qed

text \<open>
  Creating a command drops nothing while fewer than 1000 results are
  retained; at 1000 it drops exactly one result, the oldest whose command is no
  longer pending.  A pending command is therefore never forgotten.
\<close>

theorem retention_drops_oldest_settled:
  assumes "hex_text H" "command_inv H (app_commands s)" "issue_admissible new_id input (app_commands s)"
    and "issue_command_transaction H cas new_id now input s = (Inr (CommandCreated c), t)"
  shows "let old = app_commands s; order = idempotency_order old @ [issue_scope H input];
             kept = (map_of (idempotency_results old))(issue_scope H input \<mapsto> c);
             pending = canonical_scope H ` set (queued_commands (app_commands t)) in
         if length (idempotency_order old) < 1000
         then idempotency_order (app_commands t) = order \<and> map_of (idempotency_results (app_commands t)) = kept
         else \<exists>i < length order. order ! i \<notin> pending \<and> (\<forall>j<i. order ! j \<in> pending)
              \<and> idempotency_order (app_commands t) = remove_at i order
              \<and> map_of (idempotency_results (app_commands t)) = kept(order ! i := None)"
proof -
  let ?c = "new_command new_id now input"
  let ?cs = "enqueue_command H ?c (app_commands s)"
  have qi: "queue_inv (app_commands s)" and ri: "replay_inv H MAX_IDEMPOTENCY_RESULTS (app_commands s)"
    using assms(2) by (simp_all add: command_inv_def)
  obtain cs' n where b: "\<not> issue_blocked s input"
      "map_of (idempotency_results (app_commands s)) (issue_scope H input) = None"
      "map_of (idempotency (app_commands s)) (legacy_idempotency_scope_key input) = None"
    and c: "c = ?c" "app_commands t = cs'" "queues cs' = queues ?cs" "trim_idempotency_state ?cs = Some (n, cs')"
    by (rule issue_cases [OF assms(1-3), of cas now]) (use assms(4) in auto)
  have fresh: "fresh_id (app_commands s) (cmd_command_id ?c)" "cmd_device_id ?c \<noteq> ''b3''"
    using assms(3) by (simp_all add: issue_admissible_def)
  have room: "\<not> queue_full (app_commands s) (cmd_device_id ?c)" using b(1) by (simp add: issue_blocked_def)
  have ri': "replay_inv H (Suc MAX_IDEMPOTENCY_RESULTS) ?cs"
    by (rule enqueue_replay_inv [OF ri queue_invD(1) [OF qi] fresh(2) _ _ fresh(1)]) (use b in \<open>simp_all add: issue_scope_def\<close>)
  have pend: "length (queued_commands ?cs) \<le> MAX_PENDING_COMMANDS"
    using enqueue_queue_inv [OF qi room fresh_not_queued [OF ri fresh(1)]] by (rule queue_invD(6))
  have ord: "idempotency_order ?cs = idempotency_order (app_commands s) @ [issue_scope H input]"
    and kept: "map_of (idempotency_results ?cs) = (map_of (idempotency_results (app_commands s)))(issue_scope H input \<mapsto> c)"
    by (simp_all add: issue_scope_def update_conv' c(1))
  have same: "queued_commands (app_commands t) = queued_commands ?cs" using c(2,3) by (simp add: queued_commands_def)
  show ?thesis
  proof (cases "length (idempotency_order (app_commands s)) < 1000")
    case True
    then have "length (idempotency_order ?cs) \<le> MAX_IDEMPOTENCY_RESULTS" by (simp add: MAX_IDEMPOTENCY_RESULTS_def)
    from trim_small [OF this] c(2,4) have "app_commands t = ?cs" by simp
    with True ord kept show ?thesis by (simp add: Let_def)
  next
    case False
    then have len: "length (idempotency_order ?cs) = Suc MAX_IDEMPOTENCY_RESULTS"
      using replay_invD(10) [OF ri] by (simp add: MAX_IDEMPOTENCY_RESULTS_def)
    obtain i cs2 where t: "trim_idempotency_state ?cs = Some (1, cs2)" "i < length (idempotency_order ?cs)"
      "evictable ?cs (idempotency_order ?cs ! i)" "\<forall>j<i. \<not> evictable ?cs (idempotency_order ?cs ! j)"
      "idempotency_order cs2 = remove_at i (idempotency_order ?cs)"
      "map_of (idempotency_results cs2) = (map_of (idempotency_results ?cs))(idempotency_order ?cs ! i := None)"
      by (rule trim_full [OF assms(1) ri' pend len])
    have cs2: "app_commands t = cs2" using t(1) c(2,4) by simp
    have ev: "evictable ?cs (idempotency_order ?cs ! j)
        \<longleftrightarrow> idempotency_order ?cs ! j \<notin> canonical_scope H ` set (queued_commands (app_commands t))"
      if "j < length (idempotency_order ?cs)" for j
      using evictable_retained [OF ri' nth_mem [OF that]] unfolding same .
    have "\<forall>j<i. idempotency_order ?cs ! j \<in> canonical_scope H ` set (queued_commands (app_commands t))"
      using t(2,4) ev by (meson less_trans)
    with t(2,3,5,6) ev False show ?thesis
      unfolding Let_def cs2 [symmetric] ord kept by auto
  qed
qed

theorem retention_drops_oldest_settled_witness:
  "map_of (idempotency_results (app_commands issued_once))
     = [issue_scope sample_hashing (sample_input ''dev'' ''k1'' RestartRuntime) \<mapsto> sample_command]"
  using retention_drops_oldest_settled [OF sample_hex_text _ _ issued_once_eq] default_command_inv sample_admissible
  by (simp add: Let_def CommandState_default_def)

section \<open>Refused transactions\<close>

definition same_memory :: "'db AppState \<Rightarrow> 'db AppState \<Rightarrow> bool" where
  "same_memory s t = (app_devices t = app_devices s \<and> app_commands t = app_commands s)"

lemma register_refused: "register_device_transaction cas now r s = (Inl e, t) \<Longrightarrow> same_memory s t"
  by (auto simp: same_memory_def register_device_transaction_def Let_def split: option.splits if_splits prod.splits bool.splits)

lemma heartbeat_refused: "heartbeat_transaction cas now r s = (Inl e, t) \<Longrightarrow> same_memory s t"
  by (auto simp: same_memory_def heartbeat_transaction_def Let_def split: option.splits if_splits prod.splits bool.splits)

lemma probe_refused: "public_probe_transaction cas now d r s = (Inl e, t) \<Longrightarrow> same_memory s t"
  by (auto simp: same_memory_def public_probe_transaction_def Let_def split: option.splits if_splits prod.splits bool.splits)

lemma issue_refused: "issue_command_transaction H cas i now input s = (Inl e, t) \<Longrightarrow> same_memory s t"
  by (auto simp: same_memory_def issue_command_transaction_def Let_def split: option.splits if_splits prod.splits bool.splits sum.splits)

lemma ack_refused: "acknowledge_command_transaction cas now input s = (Inl e, t) \<Longrightarrow> same_memory s t"
  by (auto simp: same_memory_def acknowledge_command_transaction_def Let_def split: option.splits if_splits prod.splits bool.splits)

lemmas refused = register_refused heartbeat_refused probe_refused issue_refused ack_refused

text \<open>
  A transaction that reports an error, a failed durable commit included,
  leaves the devices and the commands in memory exactly as they were.
\<close>

theorem refused_transactions_keep_memory:
  assumes "(\<exists>now r e. register_device_transaction cas now r s = (Inl e, t))
         \<or> (\<exists>now r e. heartbeat_transaction cas now r s = (Inl e, t))
         \<or> (\<exists>now d r e. public_probe_transaction cas now d r s = (Inl e, t))
         \<or> (\<exists>i now input e. issue_command_transaction H cas i now input s = (Inl e, t))
         \<or> (\<exists>now input e. acknowledge_command_transaction cas now input s = (Inl e, t))"
  shows "app_devices t = app_devices s \<and> app_commands t = app_commands s"
  using assms refused unfolding same_memory_def by metis

definition refuse_all :: "unit cas" where
  "refuse_all db expected candidate = (False, ())"

theorem refused_transactions_keep_memory_witness:
  "app_devices (control_start ()) = [] \<and> (\<exists>t. register_device_transaction refuse_all ''5''
      \<lparr>reg_node_id = ''n'', reg_node_name = ''n'', reg_proxy_status = ''up'', reg_tunnel_owner = None\<rparr> (control_start ()) = (Inl RegisterPersistence, t)
      \<and> app_devices t = [])"
proof -
  let ?r = "\<lparr>reg_node_id = ''n'', reg_node_name = ''n'', reg_proxy_status = ''up'', reg_tunnel_owner = None\<rparr>"
  have "register_device_transaction refuse_all ''5'' ?r (control_start ()) = (Inl RegisterPersistence, control_start ())"
    by (simp add: register_device_transaction_def Let_def persist_candidate_def refuse_all_def MAX_REGISTERED_DEVICES_def)
  with refused_transactions_keep_memory [of refuse_all "control_start ()" "control_start ()"] show ?thesis by auto
qed

section \<open>Ambiguity of the legacy scope\<close>

text \<open>
  The legacy scope joins device and key with a colon and does not quote it:
  after device \<open>a:b\<close> was issued a command with key \<open>c\<close>, the first command of
  device \<open>a\<close> with key \<open>b:c\<close> is refused as an idempotency conflict, although
  no command of device \<open>a\<close> was ever issued and the digest scopes differ.
\<close>

theorem legacy_scope_collision:
  "let s = snd (issue_command_transaction sample_hashing accept_all 1 ''10'' (sample_input ''a:b'' ''c'' RestartRuntime) (control_start ())) in
     queue_of (app_commands s) ''a'' = []
     \<and> issue_scope sample_hashing (sample_input ''a:b'' ''c'' RestartRuntime) \<noteq> issue_scope sample_hashing (sample_input ''a'' ''b:c'' RestartRuntime)
     \<and> fst (issue_command_transaction sample_hashing accept_all 2 ''11'' (sample_input ''a'' ''b:c'' RestartRuntime) s)
         = Inl IdempotencyConflict"
proof -
  let ?i = "sample_input ''a:b'' ''c'' RestartRuntime" and ?j = "sample_input ''a'' ''b:c'' RestartRuntime"
  let ?c = "new_command 1 ''10'' ?i"
  let ?s = "\<lparr>app_devices = [], app_commands = enqueue_command sample_hashing ?c CommandState_default, app_db = ()\<rparr>"
  have s: "issue_command_transaction sample_hashing accept_all 1 ''10'' ?i (control_start ()) = (Inr (CommandCreated ?c), ?s)"
    by (rule issue_on_empty [OF sample_hex_text])
  have q: "queue_of (app_commands ?s) ''a'' = []"
    by (simp add: queue_of_enqueue) (simp add: queue_of_def CommandState_default_def sample_input_def)
  have digests: "idempotency_scope_key sample_hashing ''a:b'' (IdempotencyKey ''c'')
      \<noteq> idempotency_scope_key sample_hashing ''a'' (IdempotencyKey ''b:c'')"
    by (simp add: idempotency_scope_key_def ContentDigest_derive_def sample_hashing_def poly_hash_def u64_to_be_bytes_def
        IDEMPOTENCY_SCOPE_DOMAIN_def)
  then have scopes: "issue_scope sample_hashing ?i \<noteq> issue_scope sample_hashing ?j"
    using sample_hex_roundtrip
    by (simp add: issue_scope_def scope_text_def ContentDigest_display_def sample_input_def) (metis option.inject)
  have inv: "command_inv sample_hashing (app_commands ?s)"
    using control_op_inv [OF sample_hex_text control_start_inv, of "OpIssue 1 ''10'' ?i" "()" accept_all] s
    by (simp add: control_inv_def issue_admissible_def sample_input_def fresh_id_def CommandState_default_def)
  have none: "map_of (idempotency_results (app_commands ?s)) (issue_scope sample_hashing ?j) = None"
    using scopes by (simp add: issue_scope_def al_simps CommandState_default_def)
  have claim: "map_of (idempotency (app_commands ?s)) (legacy_idempotency_scope_key ?j) = Some (CommandId 1)"
    by (simp add: al_simps legacy_idempotency_scope_key_def legacy_scope_def sample_input_def CommandState_default_def)
  have "issue_command_transaction sample_hashing accept_all 2 ''11'' ?j ?s = (Inl IdempotencyConflict, ?s)"
    using issue_unclaimed [OF sample_hex_text inv none, of accept_all 2 "''11''"] claim by simp
  with s q scopes show ?thesis by (simp add: Let_def)
qed

end
