(* ===== verification/Decimal.thy ===== *)
theory Decimal
  imports Prelude
begin

text \<open>
  Decimal text of unsigned integers as the Rust standard library writes
  (\<open>to_string\<close>) and reads (\<open>str::parse\<close>) it: a leading plus sign is accepted,
  anything else that is not a digit and every overflow is refused.
\<close>

definition digit_char :: "nat \<Rightarrow> char" where
  "digit_char n = char_of (48 + n)"

definition digit_value :: "char \<Rightarrow> nat option" where
  "digit_value c = (if is_ascii_digit c then Some (of_char c - 48) else None)"

fun nat_text :: "nat \<Rightarrow> string" where
  "nat_text n = (if n < 10 then [digit_char n] else nat_text (n div 10) @ [digit_char (n mod 10)])"

declare nat_text.simps [simp del]

definition u64_text :: "u64 \<Rightarrow> string" where
  "u64_text w = nat_text (unat w)"

fun parse_digits :: "nat \<Rightarrow> nat \<Rightarrow> string \<Rightarrow> nat option" where
  "parse_digits limit acc [] = Some acc"
| "parse_digits limit acc (c # cs) =
     (case digit_value c of
        None \<Rightarrow> None
      | Some d \<Rightarrow> if acc * 10 + d < limit then parse_digits limit (acc * 10 + d) cs else None)"

definition parse_nat :: "nat \<Rightarrow> string \<Rightarrow> nat option" where
  "parse_nat limit s =
     (case s of
        [] \<Rightarrow> None
      | c # cs \<Rightarrow> if c = CHR ''+'' then (if cs = [] then None else parse_digits limit 0 cs) else parse_digits limit 0 s)"

definition parse_u64 :: "string \<Rightarrow> u64 option" where
  "parse_u64 s = map_option of_nat (parse_nat (2 ^ 64) s)"

lemma digit_value_char [simp]: "n < 10 \<Longrightarrow> digit_value (digit_char n) = Some n"
  by (simp add: digit_value_def digit_char_def is_ascii_digit_def in_range_def)

lemma parse_digits_append:
  "parse_digits limit acc (xs @ ys) = (case parse_digits limit acc xs of None \<Rightarrow> None | Some a \<Rightarrow> parse_digits limit a ys)"
  by (induction xs arbitrary: acc) (auto split: option.split)

lemma parse_digits_text: "n < limit \<Longrightarrow> parse_digits limit 0 (nat_text n) = Some n"
proof (induction n rule: nat_text.induct)
  case (1 n)
  show ?case
  proof (cases "n < 10")
    case True
    then show ?thesis using 1(2) by (subst nat_text.simps) simp
  next
    case False
    then have "parse_digits limit 0 (nat_text (n div 10)) = Some (n div 10)"
      using 1 by simp
    with False 1(2) show ?thesis
      by (subst nat_text.simps) (simp add: parse_digits_append mult.commute)
  qed
qed

lemma nat_text_digits: "list_all is_ascii_digit (nat_text n) \<and> nat_text n \<noteq> []"
proof (induction n rule: nat_text.induct)
  case (1 n)
  have d: "is_ascii_digit (digit_char k)" if "k < 10" for k
    using that by (simp add: digit_char_def is_ascii_digit_def in_range_def)
  show ?case using 1 by (subst (1 2) nat_text.simps) (auto simp: d)
qed

lemma parse_nat_text: "n < limit \<Longrightarrow> parse_nat limit (nat_text n) = Some n"
proof -
  assume n: "n < limit"
  obtain c cs where t: "nat_text n = c # cs" using nat_text_digits [of n] by (cases "nat_text n") auto
  have "c \<noteq> CHR ''+''" using nat_text_digits [of n] t by (auto simp: is_ascii_digit_def in_range_def)
  then show ?thesis using parse_digits_text [OF n] t by (simp add: parse_nat_def)
qed

lemma parse_u64_text [simp]: "parse_u64 (u64_text w) = Some w"
  using parse_nat_text [of "unat w" "2 ^ 64"] unat_less_2p64 [of w] by (simp add: parse_u64_def u64_text_def)

lemma u64_text_inject: "u64_text v = u64_text w \<longleftrightarrow> v = w"
  by (metis option.inject parse_u64_text)

end
