(* ===== verification/Control_Api.thy ===== *)
theory Control_Api
  imports Command_Queue Decimal
begin

text \<open>
  Model of the control plane's HTTP interface (\<open>services/control-plane/src/auth.rs\<close>,
  \<open>request_context.rs\<close>, \<open>routes.rs\<close>): credentials, the request context, every
  handler with its status codes, and the order in which a request passes through
  them.  Path matching and JSON decoding belong to the web framework, so a request
  is a value of \<open>ApiRequest\<close>; a header is absent, not text, or text.  Request
  identifiers and the clock are fields of \<open>ApiEnv\<close>.
\<close>

section \<open>Credentials\<close>

fun any_control :: "bytes \<Rightarrow> bool" where
  "any_control [] = False"
| "any_control (c # cs) =
     (is_ascii_control c \<or> (byte_at (c # cs) 0 = 194 \<and> 128 \<le> byte_at (c # cs) 1 \<and> byte_at (c # cs) 1 \<le> 159) \<or> any_control cs)"

type_synonym headers = "string \<Rightarrow> string option option"

record AuthConfig =
  admin_token :: string
  device_token :: string
  ui_token :: string
  rotation_token :: string

datatype AuthError = InvalidToken string | TokensNotDifferent | RotationTokenNotDifferent

definition validate_token :: "string \<Rightarrow> string \<Rightarrow> AuthError + unit" where
  "validate_token field value =
     (if length value < 8 \<or> length value > 4096 \<or> any_control value \<or> any_whitespace value
      then Inl (InvalidToken field) else Inr ())"

definition AuthConfig_new_with_rotation ::
  "string \<Rightarrow> string \<Rightarrow> string \<Rightarrow> string \<Rightarrow> bool \<Rightarrow> AuthError + AuthConfig" where
  "AuthConfig_new_with_rotation admin device ui rotation require_distinct_rotation_token =
     and_then (validate_token ''control-plane admin token'' admin) (\<lambda>_.
     and_then (validate_token ''control-plane device token'' device) (\<lambda>_.
     and_then (validate_token ''control-plane UI token'' ui) (\<lambda>_.
     and_then (validate_token ''control-plane rotation token'' rotation) (\<lambda>_.
     if admin = device \<or> admin = ui \<or> device = ui then Inl TokensNotDifferent
     else if require_distinct_rotation_token \<and> (admin = rotation \<or> device = rotation \<or> ui = rotation)
     then Inl RotationTokenNotDifferent
     else Inr \<lparr>admin_token = admin, device_token = device, ui_token = ui, rotation_token = rotation\<rparr>))))"

definition AuthConfig_new :: "string \<Rightarrow> string \<Rightarrow> string \<Rightarrow> AuthError + AuthConfig" where
  "AuthConfig_new admin device ui = AuthConfig_new_with_rotation admin device ui ui False"

definition cli_auth :: "string \<Rightarrow> string \<Rightarrow> string \<Rightarrow> string option \<Rightarrow> AuthError + AuthConfig" where
  "cli_auth admin device ui rotation =
     (case rotation of
        Some r \<Rightarrow> AuthConfig_new_with_rotation admin device ui r True
      | None \<Rightarrow> AuthConfig_new admin device ui)"

definition bearer :: "headers \<Rightarrow> string option" where
  "bearer h =
     (case h ''authorization'' of
        Some (Some v) \<Rightarrow>
          (case strip_prefix ''Bearer '' v of
             Some candidate \<Rightarrow>
               if candidate = [] \<or> length candidate > 4096 \<or> any_control candidate \<or> any_whitespace candidate
               then None else Some candidate
           | None \<Rightarrow> None)
      | _ \<Rightarrow> None)"

definition matches :: "string option \<Rightarrow> string \<Rightarrow> bool" where
  "matches candidate expected = (case candidate of None \<Rightarrow> False | Some value \<Rightarrow> value = expected)"

datatype Role = AdminRole | DeviceRole | UiRole | RotationRole

fun role_token :: "Role \<Rightarrow> AuthConfig \<Rightarrow> string" where
  "role_token AdminRole auth = admin_token auth"
| "role_token DeviceRole auth = device_token auth"
| "role_token UiRole auth = ui_token auth"
| "role_token RotationRole auth = rotation_token auth"

definition authorized :: "AuthConfig \<Rightarrow> Role \<Rightarrow> headers \<Rightarrow> bool" where
  "authorized auth role h = matches (bearer h) (role_token role auth)"

section \<open>Request context\<close>

record ApiEnv =
  clock :: u64
  fresh_request_uuid :: uuid
  fresh_command_uuid :: uuid
  uuid_reader :: "string \<Rightarrow> uuid option"

datatype RequestContextError = ContextInvalid | ContextExpired

definition parse_header ::
  "(string \<Rightarrow> FoundationError + 'a) \<Rightarrow> headers \<Rightarrow> string \<Rightarrow> RequestContextError + 'a option" where
  "parse_header parse h name =
     (case h name of
        None \<Rightarrow> Inr None
      | Some None \<Rightarrow> Inl ContextInvalid
      | Some (Some raw) \<Rightarrow> (case parse raw of Inl _ \<Rightarrow> Inl ContextInvalid | Inr v \<Rightarrow> Inr (Some v)))"

definition parse_deadline :: "u64 \<Rightarrow> headers \<Rightarrow> RequestContextError + Deadline option" where
  "parse_deadline now h =
     (case h ''x-deadline-unix-secs'' of
        None \<Rightarrow> Inr None
      | Some None \<Rightarrow> Inl ContextInvalid
      | Some (Some raw) \<Rightarrow>
          (case parse_u64 raw of
             None \<Rightarrow> Inl ContextInvalid
           | Some secs \<Rightarrow>
               if Deadline_is_expired (Deadline secs) now then Inl ContextExpired
               else if Deadline_remaining_secs (Deadline secs) now > ucast MAX_DEADLINE_WINDOW_SECS then Inl ContextInvalid
               else Inr (Some (Deadline secs))))"

definition context_from_headers :: "ApiEnv \<Rightarrow> headers \<Rightarrow> RequestContextError + RequestContext" where
  "context_from_headers env h =
     and_then (parse_header (uuid_identifier_from_str (uuid_reader env) ''request_id'' id) h ''x-request-id'') (\<lambda>rid.
     let ruuid = (case rid of Some u \<Rightarrow> u | None \<Rightarrow> fresh_request_uuid env) in
     and_then (parse_header (uuid_identifier_from_str (uuid_reader env) ''correlation_id'' id) h ''x-correlation-id'') (\<lambda>cid.
     let cuuid = (case cid of Some u \<Rightarrow> u | None \<Rightarrow> ruuid) in
     and_then (parse_header ConsumerId_parse h ''x-consumer-id'') (\<lambda>consumer.
     and_then (parse_header ApplicationId_parse h ''x-application-id'') (\<lambda>application.
     and_then (parse_header ActorId_parse h ''x-actor-id'') (\<lambda>actor.
     and_then (parse_deadline (clock env) h) (\<lambda>dl.
     Inr \<lparr>request_id = RequestId ruuid, correlation_id = CorrelationId cuuid, consumer_id = consumer,
          application_id = application, actor_id = actor, deadline = dl\<rparr>))))))"

section \<open>Responses\<close>

datatype ApiBody =
    NoBody
  | ErrorBody string
  | AcceptedBody bool
  | DevicesBody "DeviceRecord list"
  | DeviceBody DeviceRecord
  | CommandBody DeviceCommand
  | NextCommandBody "DeviceCommand option"
  | RotationBody CommandId string string string

record ApiResponse =
  status :: nat
  body :: ApiBody
  lineage :: "(RequestId \<times> CorrelationId) option"

definition reply :: "nat \<Rightarrow> ApiBody \<Rightarrow> ApiResponse" where
  "reply code b = \<lparr>status = code, body = b, lineage = None\<rparr>"

definition HEARTBEAT_TTL_SECS :: u64 where
  "HEARTBEAT_TTL_SECS = 30"

definition now_text :: "ApiEnv \<Rightarrow> string" where
  "now_text env = u64_text (clock env)"

definition mark_stale :: "string \<Rightarrow> DeviceRecord \<Rightarrow> DeviceRecord" where
  "mark_stale now device =
     (case Option.bind (dev_last_heartbeat_at device) parse_u64 of
        None \<Rightarrow> device
      | Some seen \<Rightarrow>
          (case parse_u64 now of
             None \<Rightarrow> device
           | Some n \<Rightarrow>
               if saturating_sub n seen \<le> HEARTBEAT_TTL_SECS then device
               else device\<lparr>dev_readiness_state := ''waiting_cellular'', dev_serving := False,
                 dev_publicly_serving := False, dev_reverse_tunnel_connected := Some False,
                 dev_reverse_tunnel_last_error := Some ''device heartbeat is stale'',
                 dev_reverse_tunnel_active_transport := None, dev_reverse_tunnel_freshness := Some ''stale'',
                 dev_availability := ''degraded'', dev_degradation_reason_code := Some ''heartbeat_stale'',
                 dev_serving_failure_reason := Some ''device heartbeat is stale''\<rparr>))"

section \<open>Handlers\<close>

definition get_ip :: ApiResponse where
  "get_ip = reply 501 (ErrorBody ''control-plane /api/v1/ip is not a phone public IP observer'')"

definition list_devices :: "ApiEnv \<Rightarrow> 'db AppState \<Rightarrow> ApiResponse" where
  "list_devices env s = reply 200 (DevicesBody (map (\<lambda>(_, d). mark_stale (now_text env) d) (app_devices s)))"

definition list_ready_devices :: "ApiEnv \<Rightarrow> 'db AppState \<Rightarrow> ApiResponse" where
  "list_ready_devices env s =
     reply 200 (DevicesBody (filter (\<lambda>d. dev_availability d = ''ready'')
       (map (\<lambda>(_, d). mark_stale (now_text env) d) (app_devices s))))"

definition get_ui_device :: "ApiEnv \<Rightarrow> string \<Rightarrow> 'db AppState \<Rightarrow> ApiResponse" where
  "get_ui_device env device_id s =
     (case map_of (app_devices s) device_id of
        Some d \<Rightarrow> reply 200 (DeviceBody (mark_stale (now_text env) d))
      | None \<Rightarrow> reply 404 (ErrorBody ''device_not_found''))"

fun register_accepted :: "RegisterDeviceOutcome \<Rightarrow> bool" where
  "register_accepted DeviceCreated = True"
| "register_accepted AlreadyRegistered = True"

fun ack_accepted :: "AcknowledgeCommandOutcome \<Rightarrow> bool" where
  "ack_accepted AckCompleted = True"
| "ack_accepted AckRetryRequested = True"
| "ack_accepted AckNotFound = False"

fun probe_accepted :: "PublicProbeOutcome \<Rightarrow> bool" where
  "probe_accepted ProbeUpdated = True"
| "probe_accepted ProbeDeviceNotFound = True"

fun poll_into_option :: "PollCommandOutcome \<Rightarrow> DeviceCommand option" where
  "poll_into_option (PollPending c) = Some c"
| "poll_into_option PollEmpty = None"

definition register_device ::
  "'db cas \<Rightarrow> ApiEnv \<Rightarrow> RegisterDeviceRequest \<Rightarrow> 'db AppState \<Rightarrow> ApiResponse \<times> 'db AppState" where
  "register_device cas env req s =
     (case register_device_transaction cas (now_text env) req s of
        (Inr outcome, t) \<Rightarrow> (reply 200 (AcceptedBody (register_accepted outcome)), t)
      | (Inl RegisterStateConflict, t) \<Rightarrow> (reply 500 (ErrorBody ''device_state_conflict''), t)
      | (Inl RegisterCapacityExceeded, t) \<Rightarrow> (reply 503 (ErrorBody ''device_capacity_exceeded''), t)
      | (Inl RegisterPersistence, t) \<Rightarrow> (reply 503 (ErrorBody ''state_persistence_failed''), t))"

definition heartbeat ::
  "'db cas \<Rightarrow> ApiEnv \<Rightarrow> HeartbeatRequest \<Rightarrow> 'db AppState \<Rightarrow> ApiResponse \<times> 'db AppState" where
  "heartbeat cas env req s =
     (case heartbeat_transaction cas (now_text env) req s of
        (Inr outcome, t) \<Rightarrow> (reply 200 (AcceptedBody True), t)
      | (Inl HeartbeatStateConflict, t) \<Rightarrow> (reply 500 (ErrorBody ''device_state_conflict''), t)
      | (Inl HeartbeatCapacityExceeded, t) \<Rightarrow> (reply 503 (ErrorBody ''device_capacity_exceeded''), t)
      | (Inl HeartbeatPersistence, t) \<Rightarrow> (reply 503 (ErrorBody ''state_persistence_failed''), t))"

definition public_probe ::
  "'db cas \<Rightarrow> ApiEnv \<Rightarrow> string \<Rightarrow> PublicProbeReport \<Rightarrow> 'db AppState \<Rightarrow> ApiResponse \<times> 'db AppState" where
  "public_probe cas env device_id req s =
     (case public_probe_transaction cas (now_text env) device_id req s of
        (Inr outcome, t) \<Rightarrow> (reply 200 (AcceptedBody (probe_accepted outcome)), t)
      | (Inl ProbeStateConflict, t) \<Rightarrow> (reply 500 (ErrorBody ''device_state_conflict''), t)
      | (Inl ProbePersistence, t) \<Rightarrow> (reply 503 (ErrorBody ''state_persistence_failed''), t))"

definition issue_command ::
  "Hashing \<Rightarrow> 'db cas \<Rightarrow> ApiEnv \<Rightarrow> string \<Rightarrow> IssueCommandRequest \<Rightarrow> 'db AppState \<Rightarrow> ApiResponse \<times> 'db AppState" where
  "issue_command H cas env device_id req s =
     (case issue_command_transaction H cas (fresh_command_uuid env) (now_text env)
             \<lparr>issue_device_id = device_id, issue_request = req\<rparr> s of
        (Inr outcome, t) \<Rightarrow> (reply 200 (CommandBody (snd (IssueCommandOutcome_into_parts outcome))), t)
      | (Inl IdempotencyConflict, t) \<Rightarrow> (reply 409 (ErrorBody ''idempotency_conflict''), t)
      | (Inl IssueStateConflict, t) \<Rightarrow> (reply 500 (ErrorBody ''command_state_conflict''), t)
      | (Inl IssueCapacityExceeded, t) \<Rightarrow> (reply 503 (ErrorBody ''command_capacity_exceeded''), t)
      | (Inl IssuePersistence, t) \<Rightarrow> (reply 503 (ErrorBody ''state_persistence_failed''), t))"

text \<open>
  A rotation reads the device under its lock, releases it and issues the command
  under the locks of the transaction; \<open>between\<close> is what other requests do to the
  state in the meantime.
\<close>

definition rotation_key :: "headers \<Rightarrow> IdempotencyKey option" where
  "rotation_key h =
     (case h ''idempotency-key'' of
        Some (Some value) \<Rightarrow> (case IdempotencyKey_parse value of Inr k \<Rightarrow> Some k | Inl _ \<Rightarrow> None)
      | _ \<Rightarrow> None)"

definition rotation_request :: "IdempotencyKey \<Rightarrow> IssueCommandRequest" where
  "rotation_request key =
     \<lparr>req_desired_state = HealthyServing, req_recovery_intent = RotateRecovery,
      req_deadline_secs = DeadlineWindow 240, req_idempotency_key = key\<rparr>"

definition rotate_lookup :: "headers \<Rightarrow> string \<Rightarrow> 'db AppState \<Rightarrow> ApiResponse + IdempotencyKey \<times> string" where
  "rotate_lookup h device_id s =
     and_then (ok_or (reply 400 (ErrorBody ''missing_or_invalid_idempotency_key'')) (rotation_key h)) (\<lambda>key.
     and_then (ok_or (reply 404 (ErrorBody ''device_not_found'')) (map_of (app_devices s) device_id)) (\<lambda>device.
     and_then (ok_or (reply 409 (ErrorBody ''current_public_ip_unavailable'')) (dev_last_public_ip device)) (\<lambda>old_ip.
     Inr (key, old_ip))))"

definition rotate_dispatch ::
  "Hashing \<Rightarrow> 'db cas \<Rightarrow> ApiEnv \<Rightarrow> string \<Rightarrow> IdempotencyKey \<times> string \<Rightarrow> 'db AppState \<Rightarrow> ApiResponse \<times> 'db AppState" where
  "rotate_dispatch H cas env device_id looked s =
     (case looked of (key, old_ip) \<Rightarrow>
        case issue_command_transaction H cas (fresh_command_uuid env) (now_text env)
               \<lparr>issue_device_id = device_id, issue_request = rotation_request key\<rparr> s of
          (Inr outcome, t) \<Rightarrow>
            (let command = snd (IssueCommandOutcome_into_parts outcome) in
             (reply 202 (RotationBody (cmd_command_id command) device_id old_ip
                (''/api/v1/rotation/devices/'' @ cmd_device_id command)), t))
        | (Inl IdempotencyConflict, t) \<Rightarrow> (reply 409 (ErrorBody ''idempotency_conflict''), t)
        | (Inl IssueCapacityExceeded, t) \<Rightarrow> (reply 409 (ErrorBody ''rotation_already_in_progress''), t)
        | (Inl IssueStateConflict, t) \<Rightarrow> (reply 500 (ErrorBody ''command_state_conflict''), t)
        | (Inl IssuePersistence, t) \<Rightarrow> (reply 503 (ErrorBody ''state_persistence_failed''), t))"

definition rotate_device ::
  "Hashing \<Rightarrow> 'db cas \<Rightarrow> ApiEnv \<Rightarrow> headers \<Rightarrow> string \<Rightarrow> ('db AppState \<Rightarrow> 'db AppState) \<Rightarrow> 'db AppState
     \<Rightarrow> ApiResponse \<times> 'db AppState" where
  "rotate_device H cas env h device_id between s =
     (case rotate_lookup h device_id s of
        Inl response \<Rightarrow> (response, s)
      | Inr looked \<Rightarrow> rotate_dispatch H cas env device_id looked (between s))"

definition next_command :: "string \<Rightarrow> 'db AppState \<Rightarrow> ApiResponse" where
  "next_command device_id s =
     (case poll_command_query device_id s of
        Inr outcome \<Rightarrow> reply 200 (NextCommandBody (poll_into_option outcome))
      | Inl PollStateConflict \<Rightarrow> reply 500 (ErrorBody ''command_state_conflict''))"

definition ack_command ::
  "'db cas \<Rightarrow> ApiEnv \<Rightarrow> string \<Rightarrow> CommandId \<Rightarrow> CommandAckRequest \<Rightarrow> 'db AppState \<Rightarrow> ApiResponse \<times> 'db AppState" where
  "ack_command cas env device_id command_id req s =
     (case acknowledge_command_transaction cas (now_text env)
             \<lparr>acked_device_id = device_id, acked_command_id = command_id, acked_request = req\<rparr> s of
        (Inr outcome, t) \<Rightarrow> (reply 200 (AcceptedBody (ack_accepted outcome)), t)
      | (Inl AckStateConflict, t) \<Rightarrow> (reply 500 (ErrorBody ''command_state_conflict''), t)
      | (Inl AckPersistence, t) \<Rightarrow> (reply 503 (ErrorBody ''state_persistence_failed''), t))"

section \<open>The router\<close>

datatype ApiRequest =
    GetIp
  | ListDevices
  | ListReadyDevices
  | PublicProbe string PublicProbeReport
  | IssueCommand string IssueCommandRequest
  | RegisterDevice RegisterDeviceRequest
  | Heartbeat HeartbeatRequest
  | NextCommand string
  | AckCommand string CommandId CommandAckRequest
  | UiDevice string
  | UiIssueCommand string IssueCommandRequest
  | RotationDevice string
  | RotateDevice string

fun route_role :: "ApiRequest \<Rightarrow> Role" where
  "route_role GetIp = AdminRole"
| "route_role ListDevices = AdminRole"
| "route_role ListReadyDevices = AdminRole"
| "route_role (PublicProbe _ _) = AdminRole"
| "route_role (IssueCommand _ _) = AdminRole"
| "route_role (RegisterDevice _) = DeviceRole"
| "route_role (Heartbeat _) = DeviceRole"
| "route_role (NextCommand _) = DeviceRole"
| "route_role (AckCommand _ _ _) = DeviceRole"
| "route_role (UiDevice _) = UiRole"
| "route_role (UiIssueCommand _ _) = UiRole"
| "route_role (RotationDevice _) = RotationRole"
| "route_role (RotateDevice _) = RotationRole"

fun handle ::
  "Hashing \<Rightarrow> 'db cas \<Rightarrow> ApiEnv \<Rightarrow> headers \<Rightarrow> ('db AppState \<Rightarrow> 'db AppState) \<Rightarrow> ApiRequest \<Rightarrow> 'db AppState
     \<Rightarrow> ApiResponse \<times> 'db AppState" where
  "handle H cas env h between GetIp s = (get_ip, s)"
| "handle H cas env h between ListDevices s = (list_devices env s, s)"
| "handle H cas env h between ListReadyDevices s = (list_ready_devices env s, s)"
| "handle H cas env h between (PublicProbe device_id report) s = public_probe cas env device_id report s"
| "handle H cas env h between (IssueCommand device_id req) s = issue_command H cas env device_id req s"
| "handle H cas env h between (RegisterDevice req) s = register_device cas env req s"
| "handle H cas env h between (Heartbeat req) s = heartbeat cas env req s"
| "handle H cas env h between (NextCommand device_id) s = (next_command device_id s, s)"
| "handle H cas env h between (AckCommand device_id command_id req) s = ack_command cas env device_id command_id req s"
| "handle H cas env h between (UiDevice device_id) s = (get_ui_device env device_id s, s)"
| "handle H cas env h between (UiIssueCommand device_id req) s = issue_command H cas env device_id req s"
| "handle H cas env h between (RotationDevice device_id) s = (get_ui_device env device_id s, s)"
| "handle H cas env h between (RotateDevice device_id) s = rotate_device H cas env h device_id between s"

definition context_error :: "RequestContextError \<Rightarrow> ApiResponse" where
  "context_error e =
     (case e of
        ContextInvalid \<Rightarrow> reply 400 (ErrorBody ''invalid_request_context'')
      | ContextExpired \<Rightarrow> reply 408 (ErrorBody ''request_deadline_expired''))"

definition attach_request_context ::
  "ApiEnv \<Rightarrow> headers \<Rightarrow> ('s \<Rightarrow> ApiResponse \<times> 's) \<Rightarrow> 's \<Rightarrow> ApiResponse \<times> 's" where
  "attach_request_context env h run s =
     (case context_from_headers env h of
        Inl e \<Rightarrow> (context_error e, s)
      | Inr context \<Rightarrow>
          (case run s of (response, t) \<Rightarrow>
             (response\<lparr>lineage := Some (request_id context, correlation_id context)\<rparr>, t)))"

definition serve ::
  "Hashing \<Rightarrow> 'db cas \<Rightarrow> AuthConfig \<Rightarrow> ApiEnv \<Rightarrow> headers \<Rightarrow> ('db AppState \<Rightarrow> 'db AppState) \<Rightarrow> ApiRequest \<Rightarrow> 'db AppState
     \<Rightarrow> ApiResponse \<times> 'db AppState" where
  "serve H cas auth env h between req s =
     (if \<not> authorized auth (route_role req) h then (reply 401 NoBody, s)
      else attach_request_context env h (handle H cas env h between req) s)"

end
