(* ===== verification/Control_Api_Inv.thy ===== *)
theory Control_Api_Inv
  imports Control_Api
begin

text \<open>
  What the control plane's HTTP interface guarantees: credentials of one role are
  refused everywhere else, a request that fails leaves memory alone, every request
  is one operation of a history of \<open>Command_Queue\<close>, and a device is offered as
  ready only while a recent heartbeat of it said so.
\<close>

declare map_of_eq_Some_iff [simp del] Some_eq_map_of_iff [simp del]

section \<open>Credentials\<close>

lemma authorized_same_token: "authorized auth r h \<Longrightarrow> authorized auth r' h \<Longrightarrow> role_token r auth = role_token r' auth"
  by (auto simp: authorized_def matches_def split: option.splits)

lemma tokens_differ:
  assumes "cli_auth admin device ui rotation = Inr auth" "role_token r auth = role_token r' auth" "r \<noteq> r'"
  shows "rotation = None \<and> {r, r'} = {UiRole, RotationRole}"
  using assms
  by (cases r; cases r')
    (auto simp: cli_auth_def AuthConfig_new_def AuthConfig_new_with_rotation_def and_then_Inr_iff split: option.splits if_splits)

lemma reply_status [simp]: "status (reply code b) = code" "body (reply code b) = b"
  by (simp_all add: reply_def)

lemma handle_status: "status (fst (handle H cas env h between req s)) \<noteq> 401"
  by (cases req)
    (auto simp: get_ip_def list_devices_def list_ready_devices_def public_probe_def issue_command_def register_device_def
      heartbeat_def next_command_def ack_command_def get_ui_device_def rotate_device_def rotate_lookup_def rotate_dispatch_def
      and_then_def ok_or_def Let_def
      split: prod.splits sum.splits option.splits RegisterDeviceError.splits HeartbeatError.splits PublicProbeError.splits
        IssueCommandError.splits PollCommandError.splits AcknowledgeCommandError.splits)

lemma serve_unauthorized_iff: "status (fst (serve H cas auth env h between req s)) = 401 \<longleftrightarrow> \<not> authorized auth (route_role req) h"
  using handle_status [of H cas env h between req s]
  by (auto simp: serve_def attach_request_context_def context_error_def split: sum.splits prod.splits RequestContextError.splits)

section \<open>Requests as operations\<close>

fun request_op :: "ApiEnv \<Rightarrow> headers \<Rightarrow> ApiRequest \<Rightarrow> ControlOp option" where
  "request_op env h (PublicProbe device_id report) = Some (OpProbe (now_text env) device_id report)"
| "request_op env h (IssueCommand device_id req) =
     Some (OpIssue (fresh_command_uuid env) (now_text env) \<lparr>issue_device_id = device_id, issue_request = req\<rparr>)"
| "request_op env h (RegisterDevice req) = Some (OpRegister (now_text env) req)"
| "request_op env h (Heartbeat req) = Some (OpHeartbeat (now_text env) req)"
| "request_op env h (NextCommand device_id) = Some (OpPoll device_id)"
| "request_op env h (AckCommand device_id command_id req) =
     Some (OpAcknowledge (now_text env) \<lparr>acked_device_id = device_id, acked_command_id = command_id, acked_request = req\<rparr>)"
| "request_op env h (UiIssueCommand device_id req) =
     Some (OpIssue (fresh_command_uuid env) (now_text env) \<lparr>issue_device_id = device_id, issue_request = req\<rparr>)"
| "request_op env h (RotateDevice device_id) =
     map_option (\<lambda>key. OpIssue (fresh_command_uuid env) (now_text env) \<lparr>issue_device_id = device_id, issue_request = rotation_request key\<rparr>)
       (rotation_key h)"
| "request_op env h _ = None"

lemmas handlers = public_probe_def issue_command_def register_device_def heartbeat_def ack_command_def rotate_dispatch_def

lemma rotate_lookup_key: "rotate_lookup h d s = Inr (key, ip) \<Longrightarrow> rotation_key h = Some key"
  by (auto simp: rotate_lookup_def and_then_Inr_iff)

lemma rotate_dispatch_op:
  "snd (rotate_dispatch H cas env d (key, ip) s) =
     control_op H cas (OpIssue (fresh_command_uuid env) (now_text env) \<lparr>issue_device_id = d, issue_request = rotation_request key\<rparr>) s"
  by (simp add: rotate_dispatch_def Let_def split: prod.split sum.split IssueCommandError.split)

lemma handle_op:
  "snd (handle H cas env h between req s) = s
   \<or> (\<exists>op. request_op env h req = Some op \<and> snd (handle H cas env h between req s) = control_op H cas op (if \<exists>d. req = RotateDevice d then between s else s))"
proof (cases req)
  case (RotateDevice d)
  show ?thesis
  proof (cases "rotate_lookup h d s")
    case (Inr looked)
    obtain key ip where l: "looked = (key, ip)" by force
    show ?thesis using RotateDevice Inr l rotate_lookup_key [of h d s key ip] rotate_dispatch_op [of H cas env d key ip "between s"]
      by (simp add: rotate_device_def)
  qed (simp add: RotateDevice rotate_device_def)
qed (simp_all add: handlers split: prod.split sum.split RegisterDeviceError.split HeartbeatError.split PublicProbeError.split
  IssueCommandError.split AcknowledgeCommandError.split)

lemma serve_op:
  "snd (serve H cas auth env h between req s) = s
   \<or> (\<exists>op. request_op env h req = Some op \<and> snd (serve H cas auth env h between req s) = control_op H cas op (if \<exists>d. req = RotateDevice d then between s else s))"
  using handle_op [of H cas env h between req s]
  by (auto simp: serve_def attach_request_context_def split: sum.splits prod.splits)

section \<open>Failures\<close>

lemma same_memory_refl [simp]: "same_memory s s"
  by (simp add: same_memory_def)

lemma rotate_dispatch_refused:
  "rotate_dispatch H cas env d looked s = (r, t) \<Longrightarrow> status r \<noteq> 202 \<Longrightarrow> same_memory s t"
  by (auto simp: rotate_dispatch_def Let_def split: prod.splits sum.splits IssueCommandError.splits dest: issue_refused)

lemma rotate_lookup_status: "rotate_lookup h d s = Inl r \<Longrightarrow> status r \<in> {400, 404, 409}"
  by (auto simp: rotate_lookup_def and_then_def ok_or_def split: option.splits)

lemma handle_refused:
  assumes "handle H cas env h between req s = (r, t)" "status r \<notin> {200, 202}"
  shows "same_memory s t \<or> (\<exists>d. req = RotateDevice d) \<and> same_memory (between s) t"
proof (cases req)
  case (RotateDevice d)
  with assms show ?thesis
    by (auto simp: rotate_device_def dest: rotate_dispatch_refused split: sum.splits)
qed (use assms in \<open>auto simp: handlers split: prod.splits sum.splits RegisterDeviceError.splits HeartbeatError.splits PublicProbeError.splits
  IssueCommandError.splits AcknowledgeCommandError.splits dest: refused\<close>)

section \<open>Readiness\<close>

definition backed :: "ControlOp list \<Rightarrow> DeviceRecord \<Rightarrow> bool" where
  "backed ops d =
     ((dev_availability d = ''ready'' \<longrightarrow> ready_input (device_projection_input d True) \<and> dev_publicly_serving d)
      \<and> (ready_input (device_projection_input d True) \<longrightarrow>
           (\<exists>now req. dev_last_heartbeat_at d = Some now \<and> OpHeartbeat now req \<in> set ops \<and> hb_node_id req = dev_node_id d
              \<and> ready_input (heartbeat_projection_input req True))))"

lemma backed_more: "backed ops d \<Longrightarrow> set ops \<subseteq> set ops' \<Longrightarrow> backed ops' d"
  unfolding backed_def by blast

lemma backed_registered: "backed ops (build_registered_device now r)"
  by (auto simp: backed_def build_registered_device_def Let_def project_runtime_available ready_input_def device_projection_input_def)

lemma ready_input_publicly: "ready_input (input\<lparr>in_publicly_serving := p\<rparr>) = ready_input input"
  by (simp add: ready_input_def)

lemma ready_heartbeat_any: "ready_input (heartbeat_projection_input req p) = ready_input (heartbeat_projection_input req True)"
  by (simp add: ready_input_def heartbeat_projection_input_def)

lemma ready_device_any: "ready_input (device_projection_input d p) = ready_input (device_projection_input d True)"
  by (simp add: ready_input_def device_projection_input_def)

lemma backed_heartbeat:
  assumes "OpHeartbeat now req \<in> set ops"
  shows "backed ops (build_heartbeat_device now req p e a)"
proof -
  let ?d = "build_heartbeat_device now req p e a" and ?i = "heartbeat_projection_input req p"
  have fields: "dev_readiness_state ?d = out_readiness_state (project_runtime ?i)" "dev_serving ?d = out_serving (project_runtime ?i)"
    "dev_availability ?d = out_availability (project_runtime ?i)" "dev_publicly_serving ?d = p" "dev_last_heartbeat_at ?d = Some now"
    "dev_current_job ?d = hb_current_job req" "dev_cellular_route_ready ?d = hb_cellular_route_ready req"
    "dev_proxy_bind_ready ?d = hb_proxy_bind_ready req" "dev_local_serving_ready ?d = hb_local_serving_ready req"
    by (simp_all add: build_heartbeat_device_def Let_def split: prod.split)
  have ready: "ready_input (device_projection_input ?d True) = ready_input ?i"
    by (auto simp: ready_input_def device_projection_input_def fields project_runtime_available heartbeat_projection_input_def)
  have "in_publicly_serving ?i = p" by (simp add: heartbeat_projection_input_def)
  with assms ready show ?thesis
    unfolding backed_def fields by (auto simp: project_runtime_available ready_heartbeat_any [of req p])
qed

lemma backed_probe:
  assumes "backed ops d"
  shows "backed ops (apply_public_probe now d r)"
proof -
  let ?d = "apply_public_probe now d r" and ?i = "device_projection_input d (probe_publicly_serving r)"
  have fields: "dev_readiness_state ?d = out_readiness_state (project_runtime ?i)" "dev_serving ?d = out_serving (project_runtime ?i)"
    "dev_availability ?d = out_availability (project_runtime ?i)" "dev_publicly_serving ?d = probe_publicly_serving r"
    "dev_last_heartbeat_at ?d = dev_last_heartbeat_at d" "dev_node_id ?d = dev_node_id d"
    "dev_current_job ?d = dev_current_job d" "dev_cellular_route_ready ?d = dev_cellular_route_ready d"
    "dev_proxy_bind_ready ?d = dev_proxy_bind_ready d" "dev_local_serving_ready ?d = dev_local_serving_ready d"
    by (simp_all add: apply_public_probe_def Let_def)
  have ready: "ready_input (device_projection_input ?d True) = ready_input ?i"
    by (auto simp: ready_input_def device_projection_input_def fields project_runtime_available)
  have "in_publicly_serving ?i = probe_publicly_serving r" by (simp add: device_projection_input_def)
  with assms ready show ?thesis
    unfolding backed_def fields by (auto simp: project_runtime_available ready_device_any [of d "probe_publicly_serving r"])
qed

lemma backed_touch:
  "backed ops d \<Longrightarrow> backed ops (d\<lparr>dev_desired_state := x, dev_recovery_intent := y, dev_last_event_at := z\<rparr>)"
  "backed ops d \<Longrightarrow> backed ops (d\<lparr>dev_recovery_intent := y, dev_last_event_at := z\<rparr>)"
  by (simp_all add: backed_def device_projection_input_def)

definition all_backed :: "ControlOp list \<Rightarrow> device_map \<Rightarrow> bool" where
  "all_backed ops devices = (\<forall>d\<in>snd ` set devices. backed ops d)"

lemma all_backed_update: "all_backed ops devices \<Longrightarrow> backed ops d \<Longrightarrow> all_backed ops (AList.update k d devices)"
  unfolding all_backed_def by (induction devices) auto

lemma all_backed_lookup: "all_backed ops devices \<Longrightarrow> map_of devices k = Some d \<Longrightarrow> backed ops d"
  unfolding all_backed_def by (metis image_eqI map_of_SomeD snd_conv)

lemma all_backed_op:
  assumes "all_backed ops (app_devices s)"
  shows "all_backed (ops @ [op]) (app_devices (control_op H cas op s))"
proof -
  have more: "all_backed (ops @ [op]) (app_devices s)"
    using assms backed_more [of ops _ "ops @ [op]"] by (auto simp: all_backed_def)
  note look = all_backed_lookup [OF more] and up = all_backed_update [OF more]
  show ?thesis
  proof (cases op)
    case (OpRegister now r)
    then show ?thesis using register_devices [where cas = cas and now = now and r = r and s = s, OF surjective_pairing] more up [OF backed_registered] by auto
  next
    case (OpHeartbeat now r)
    then show ?thesis using heartbeat_devices [where cas = cas and now = now and r = r and s = s, OF surjective_pairing] more up [OF backed_heartbeat, of now r] by auto
  next
    case (OpProbe now d r)
    then show ?thesis using probe_devices [where cas = cas and now = now and d = d and r = r and s = s, OF surjective_pairing] more up [OF backed_probe [OF look]] by auto
  next
    case (OpIssue i now input)
    have "all_backed (ops @ [op]) (mark_issued c (app_devices s))" for c
      using more up [OF backed_touch(1) [OF look]] by (auto simp: mark_issued_def split: option.split)
    then show ?thesis using issue_devices [where H = H and cas = cas and i = i and now = now and input = input and s = s, OF surjective_pairing] more OpIssue by auto
  next
    case (OpAcknowledge now input)
    have "all_backed (ops @ [op]) (mark_acknowledged now d (app_devices s))" for d
      using more up [OF backed_touch(2) [OF look]] by (auto simp: mark_acknowledged_def split: option.split)
    then show ?thesis using ack_devices [where cas = cas and now = now and input = input and s = s, OF surjective_pairing] more OpAcknowledge by auto
  qed (use more in simp)
qed

lemma run_backed: "control_run H cas s ops t \<Longrightarrow> all_backed [] (app_devices s) \<Longrightarrow> all_backed ops (app_devices t)"
  by (induction rule: control_run.induct) (auto intro: all_backed_op)

lemma stale_not_ready:
  assumes "dev_availability (mark_stale (u64_text n) d) = ''ready''" "dev_last_heartbeat_at d = Some (u64_text t)"
  shows "mark_stale (u64_text n) d = d \<and> unat n \<le> unat t + 30"
proof -
  have "saturating_sub n t \<le> HEARTBEAT_TTL_SECS"
    using assms by (auto simp: mark_stale_def split: if_splits)
  then have "unat n - unat t \<le> 30" by (simp add: word_le_nat_alt saturating_sub_unat HEARTBEAT_TTL_SECS_def)
  then show ?thesis using \<open>saturating_sub n t \<le> HEARTBEAT_TTL_SECS\<close> assms(2) by (simp add: mark_stale_def)
qed

lemma stale_available: "dev_availability (mark_stale now d) = ''ready'' \<Longrightarrow> mark_stale now d = d"
  by (auto simp: mark_stale_def split: option.splits if_splits)

lemma parse_header_Inr: "parse_header parse h name = Inr v \<Longrightarrow> v = None \<or> (\<exists>raw x. h name = Some (Some raw) \<and> parse raw = Inr x \<and> v = Some x)"
  by (auto simp: parse_header_def split: option.splits sum.splits)

lemma parse_deadline_Inr:
  assumes "parse_deadline now h = Inr (Some d)"
  shows "now < unix_secs d" "unat (unix_secs d) \<le> unat now + unat MAX_DEADLINE_WINDOW_SECS"
proof -
  obtain secs where d: "d = Deadline secs" "\<not> now \<ge> secs" "\<not> saturating_sub secs now > ucast MAX_DEADLINE_WINDOW_SECS"
    using assms by (auto simp: parse_deadline_def Deadline_is_expired_def Deadline_remaining_secs_def split: option.splits if_splits)
  show "now < unix_secs d" using d by simp
  have "unat secs - unat now \<le> unat (ucast MAX_DEADLINE_WINDOW_SECS :: u64)"
    using d(3) by (simp add: not_less word_le_nat_alt saturating_sub_unat)
  then show "unat (unix_secs d) \<le> unat now + unat MAX_DEADLINE_WINDOW_SECS"
    using d(1) by (simp add: MAX_DEADLINE_WINDOW_SECS_def)
qed

definition valid_identity :: "string option \<Rightarrow> bool" where
  "valid_identity v = (case v of None \<Rightarrow> True | Some s \<Rightarrow> s \<noteq> [] \<and> length s \<le> MAX_IDENTITY_LENGTH \<and> list_all identity_character s)"

lemma parsed_identity:
  assumes "parse_header (validate_identity field) h name = Inr v"
  shows "valid_identity v"
  using parse_header_Inr [OF assms] by (auto simp: valid_identity_def validate_identity_Inr_iff MAX_IDENTITY_LENGTH_def)

lemma context_Inr:
  assumes "context_from_headers env h = Inr c"
  shows "parse_deadline (clock env) h = Inr (deadline c)" "parse_header ConsumerId_parse h ''x-consumer-id'' = Inr (consumer_id c)"
    "parse_header ApplicationId_parse h ''x-application-id'' = Inr (application_id c)" "parse_header ActorId_parse h ''x-actor-id'' = Inr (actor_id c)"
    "h ''x-correlation-id'' = None \<Longrightarrow> (case correlation_id c of CorrelationId u \<Rightarrow> request_id c = RequestId u)"
  using assms by (auto simp: context_from_headers_def Let_def and_then_Inr_iff parse_header_def)

section \<open>Claims\<close>


definition sample_headers :: "string \<Rightarrow> headers" where
  "sample_headers token name = (if name = ''authorization'' then Some (Some (''Bearer '' @ token)) else None)"

definition sample_env :: ApiEnv where
  "sample_env = \<lparr>clock = 100, fresh_request_uuid = 1, fresh_command_uuid = 2, uuid_reader = (\<lambda>_. None)\<rparr>"

definition sample_auth :: AuthConfig where
  "sample_auth = \<lparr>admin_token = ''admin-token'', device_token = ''device-token'', ui_token = ''ui-token'', rotation_token = ''rotation-token''\<rparr>"

lemma sample_cli_auth: "cli_auth ''admin-token'' ''device-token'' ''ui-token'' (Some ''rotation-token'') = Inr sample_auth"
  by (simp add: cli_auth_def AuthConfig_new_with_rotation_def validate_token_def sample_auth_def is_ascii_control_def in_range_def
      byte_at_def leading_whitespace_def)

lemma sample_authorized: "authorized sample_auth DeviceRole (sample_headers ''device-token'')"
  by (simp add: authorized_def sample_auth_def bearer_def sample_headers_def matches_def is_ascii_control_def in_range_def
      byte_at_def leading_whitespace_def)


text \<open>
  C28: A request that is not answered with success leaves the devices and the
  commands in memory as they were, whatever went wrong: the credential, the
  context, a conflict, a full queue or a failed durable commit.  A rotation that
  fails leaves what other requests did between its two steps.
\<close>

theorem failed_request_keeps_memory:
  assumes "serve H cas auth env h between req s = (r, t)" "status r \<notin> {200, 202}"
  shows "same_memory s t \<or> (\<exists>d. req = RotateDevice d) \<and> same_memory (between s) t"
  using assms handle_refused [of H cas env h between req s]
  by (auto simp: serve_def attach_request_context_def split: if_splits sum.splits prod.splits)

theorem failed_request_keeps_memory_witness:
  "same_memory (control_start ()) (snd (serve sample_hashing accept_all sample_auth sample_env (sample_headers ''rotation-token'') id (RotateDevice ''d'') (control_start ())))"
proof -
  let ?r = "serve sample_hashing accept_all sample_auth sample_env (sample_headers ''rotation-token'') id (RotateDevice ''d'') (control_start ())"
  have "context_from_headers sample_env (sample_headers ''rotation-token'')
      = Inr \<lparr>request_id = RequestId 1, correlation_id = CorrelationId 1, consumer_id = None, application_id = None, actor_id = None, deadline = None\<rparr>"
    by (simp add: context_from_headers_def parse_header_def parse_deadline_def sample_headers_def sample_env_def)
  then have "status (fst ?r) \<in> {400, 401}"
    by (simp add: serve_def attach_request_context_def rotate_device_def rotate_lookup_def rotation_key_def sample_headers_def)
  then show ?thesis using failed_request_keeps_memory [OF surjective_pairing, of sample_hashing accept_all sample_auth sample_env
      "sample_headers ''rotation-token''" id "RotateDevice ''d''" "control_start ()"] by auto
qed


definition sample_heartbeat :: HeartbeatRequest where
  "sample_heartbeat = \<lparr>hb_node_id = ''d'', hb_node_name = ''d'', hb_readiness_state = ''healthy'', hb_serving = True,
     hb_proxy_status = ''up'', hb_proxy_pid = None, hb_last_public_ip = None, hb_current_job = None, hb_last_proxy_error = None,
     hb_version = None, hb_config_fingerprint = None, hb_binary_fingerprint = None, hb_active_operator_profile = None,
     hb_active_operator_plmn = None, hb_cellular_route_ready = None, hb_proxy_bind_ready = None, hb_local_serving_ready = None,
     hb_tun0_present = None, hb_wg_handshake_recent = None, hb_reverse_tunnel_connected = None, hb_reverse_tunnel_last_error = None,
     hb_reverse_tunnel_active_transport = None, hb_reverse_tunnel_freshness = None, hb_reverse_tunnel_failover_reason = None,
     hb_tunnel_owner = None\<rparr>"

definition sample_probe :: PublicProbeReport where
  "sample_probe = \<lparr>probe_publicly_serving = True, probe_error = None, probe_at = ''95''\<rparr>"

definition sample_ready_ops :: "ControlOp list" where
  "sample_ready_ops = [OpHeartbeat (u64_text 90) sample_heartbeat, OpProbe (u64_text 95) ''d'' sample_probe]"

definition sample_device :: DeviceRecord where
  "sample_device = apply_public_probe (u64_text 95) (build_heartbeat_device (u64_text 90) sample_heartbeat False None None) sample_probe"

definition sample_ready_state :: "unit AppState" where
  "sample_ready_state = \<lparr>app_devices = [(''d'', sample_device)], app_commands = CommandState_default, app_db = ()\<rparr>"

lemma sample_ready_run: "control_run sample_hashing accept_all (control_start ()) sample_ready_ops sample_ready_state"
proof -
  let ?h = "OpHeartbeat (u64_text 90) sample_heartbeat" and ?p = "OpProbe (u64_text 95) ''d'' sample_probe"
  have 1: "control_run sample_hashing accept_all (control_start ()) ([] @ [?h]) (control_op sample_hashing accept_all ?h (control_start ()))"
    by (intro run_step run_refl) simp
  have 2: "control_op sample_hashing accept_all ?h (control_start ())
      = \<lparr>app_devices = [(''d'', build_heartbeat_device (u64_text 90) sample_heartbeat False None None)], app_commands = CommandState_default, app_db = ()\<rparr>"
    by (simp add: heartbeat_transaction_def sample_heartbeat_def control_start_def persist_candidate_def accept_all_def Let_def
        MAX_REGISTERED_DEVICES_def)
  have 3: "control_run sample_hashing accept_all (control_start ()) (([] @ [?h]) @ [?p])
      (control_op sample_hashing accept_all ?p (control_op sample_hashing accept_all ?h (control_start ())))"
    by (intro run_step [OF 1]) simp
  have 4: "control_op sample_hashing accept_all ?p
      \<lparr>app_devices = [(''d'', build_heartbeat_device (u64_text 90) sample_heartbeat False None None)], app_commands = CommandState_default, app_db = ()\<rparr>
      = sample_ready_state"
    by (simp add: public_probe_transaction_def persist_candidate_def accept_all_def Let_def sample_ready_state_def sample_device_def)
      (simp add: sample_heartbeat_def)
  show ?thesis using 3 unfolding 2 4 by (simp add: sample_ready_ops_def)
qed

lemma sample_device_ready: "mark_stale (u64_text 100) sample_device = sample_device" "dev_availability sample_device = ''ready''"
proof -
  show "mark_stale (u64_text 100) sample_device = sample_device"
    by (simp add: mark_stale_def sample_device_def apply_public_probe_def build_heartbeat_device_def Let_def
        saturating_sub_def HEARTBEAT_TTL_SECS_def split: prod.split)
  show "dev_availability sample_device = ''ready''"
    unfolding sample_device_def
    by (simp add: apply_public_probe_def Let_def project_runtime_available ready_input_def device_projection_input_def
        build_heartbeat_device_def heartbeat_projection_input_def sample_heartbeat_def sample_probe_def split: prod.split)
qed


text \<open>
  A handler runs only with a well-formed context: its identities are
  non-empty, bounded and made of identity characters, its deadline, if any, lies
  in the future and within the longest window, and its request and correlation
  identifiers are the ones the response carries.
\<close>

theorem handled_context_is_well_formed:
  assumes "serve H cas auth env h between req s = (r, t)" "lineage r = Some (rid, cid)"
  shows "\<exists>c. context_from_headers env h = Inr c \<and> request_id c = rid \<and> correlation_id c = cid
     \<and> valid_identity (consumer_id c) \<and> valid_identity (application_id c) \<and> valid_identity (actor_id c)
     \<and> (\<forall>d. deadline c = Some d \<longrightarrow> clock env < unix_secs d \<and> unat (unix_secs d) \<le> unat (clock env) + unat MAX_DEADLINE_WINDOW_SECS)"
proof -
  obtain c where c: "context_from_headers env h = Inr c" "request_id c = rid" "correlation_id c = cid"
    using assms
    by (auto simp: serve_def attach_request_context_def context_error_def reply_def
        split: if_splits sum.splits prod.splits RequestContextError.splits)
  note k = context_Inr [OF c(1)]
  have "valid_identity (consumer_id c)" "valid_identity (application_id c)" "valid_identity (actor_id c)"
    using parsed_identity k(2-4) unfolding ConsumerId_parse_def ApplicationId_parse_def ActorId_parse_def by blast+
  then show ?thesis using c k(1) parse_deadline_Inr [of "clock env" h] by metis
qed

theorem handled_context_is_well_formed_witness:
  "\<exists>c. context_from_headers sample_env (sample_headers ''device-token'') = Inr c \<and> request_id c = RequestId 1"
proof -
  let ?r = "serve sample_hashing accept_all sample_auth sample_env (sample_headers ''device-token'') id (NextCommand ''d'') (control_start ())"
  have "context_from_headers sample_env (sample_headers ''device-token'')
      = Inr \<lparr>request_id = RequestId 1, correlation_id = CorrelationId 1, consumer_id = None, application_id = None, actor_id = None, deadline = None\<rparr>"
    by (simp add: context_from_headers_def parse_header_def parse_deadline_def sample_headers_def sample_env_def)
  then have "lineage (fst ?r) = Some (RequestId 1, CorrelationId 1)"
    using sample_authorized by (simp add: serve_def attach_request_context_def)
  from handled_context_is_well_formed [OF surjective_pairing this] show ?thesis by blast
qed

end
