(* ===== verification/Ordered_Map.thy ===== *)
theory Ordered_Map
  imports Prelude "HOL-Library.AList"
begin

text \<open>
  Ordered maps (\<open>BTreeMap\<close>) as association lists in strictly ascending key order,
  and fallible folds over the rows of a table.
\<close>

type_synonym ('k, 'v) btree = "('k \<times> 'v) list"

fun bt_insert :: "'k::linorder \<Rightarrow> 'v \<Rightarrow> ('k, 'v) btree \<Rightarrow> ('k, 'v) btree" where
  "bt_insert k v [] = [(k, v)]"
| "bt_insert k v ((k', v') # m) =
     (if k < k' then (k, v) # (k', v') # m
      else if k = k' then (k, v) # m
      else (k', v') # bt_insert k v m)"

definition bt_of_list :: "('k::linorder \<times> 'v) list \<Rightarrow> ('k, 'v) btree" where
  "bt_of_list xs = foldl (\<lambda>m (k, v). bt_insert k v m) [] xs"

definition bt_ok :: "('k::linorder, 'v) btree \<Rightarrow> bool" where
  "bt_ok m = sorted_wrt (<) (map fst m)"

fun fold_result :: "('a \<Rightarrow> 's \<Rightarrow> 'e + 's) \<Rightarrow> 'a list \<Rightarrow> 's \<Rightarrow> 'e + 's" where
  "fold_result f [] s = Inr s"
| "fold_result f (x # xs) s = (case f x s of Inl e \<Rightarrow> Inl e | Inr s' \<Rightarrow> fold_result f xs s')"

lemma fold_result_append:
  "fold_result f (xs @ ys) s = (case fold_result f xs s of Inl e \<Rightarrow> Inl e | Inr s' \<Rightarrow> fold_result f ys s')"
  by (induction xs arbitrary: s) (auto split: sum.splits)

lemma fold_result_Inr:
  assumes "\<And>x s. x \<in> set xs \<Longrightarrow> P s \<Longrightarrow> \<exists>s'. f x s = Inr s' \<and> P s'" "P s"
  shows "\<exists>s'. fold_result f xs s = Inr s' \<and> P s'"
  using assms
proof (induction xs arbitrary: s)
  case (Cons x xs)
  from Cons.prems(1) [of x s] Cons.prems(2) obtain s' where "f x s = Inr s'" "P s'" by auto
  then show ?case using Cons.IH [of s'] Cons.prems(1) by simp
qed simp

lemma map_of_bt_insert [simp]: "map_of (bt_insert k v m) = (map_of m)(k \<mapsto> v)"
  by (induction k v m rule: bt_insert.induct) (auto simp: fun_eq_iff)

lemma keys_bt_insert: "fst ` set (bt_insert k v m) = insert k (fst ` set m)"
  by (metis map_of_bt_insert dom_map_of_conv_image_fst dom_fun_upd option.distinct(1))

lemma bt_ok_Nil [simp]: "bt_ok []"
  by (simp add: bt_ok_def)

lemma bt_ok_Cons: "bt_ok ((k, v) # m) \<longleftrightarrow> (\<forall>k'\<in>fst ` set m. k < k') \<and> bt_ok m"
  by (auto simp: bt_ok_def)

lemma bt_ok_insert: "bt_ok m \<Longrightarrow> bt_ok (bt_insert k v m)"
proof (induction k v m rule: bt_insert.induct)
  case (2 k v k' v' m)
  then show ?case
    by (auto simp: bt_ok_Cons keys_bt_insert not_less_iff_gr_or_eq intro: less_trans)
qed (simp add: bt_ok_def)

lemma bt_ok_distinct: "bt_ok m \<Longrightarrow> distinct (map fst m)"
  by (simp add: bt_ok_def strict_sorted_iff)

lemma bt_insert_last: "bt_ok (m @ [(k, v)]) \<Longrightarrow> bt_insert k v m = m @ [(k, v)]"
proof (induction k v m rule: bt_insert.induct)
  case (2 k v k' v' m)
  from 2(2) have "k' < k" and ok: "bt_ok (m @ [(k, v)])" by (auto simp: bt_ok_def)
  then have "\<not> k < k'" "k \<noteq> k'" by auto
  then show ?case using 2(1) ok by simp
qed simp

lemma foldl_bt_ok: "bt_ok m \<Longrightarrow> bt_ok (foldl (\<lambda>m (k, v). bt_insert k v m) m xs)"
  by (induction xs arbitrary: m) (auto simp: bt_ok_insert)

lemma bt_of_list_ok [simp]: "bt_ok (bt_of_list xs)"
  by (simp add: bt_of_list_def foldl_bt_ok)

lemma bt_of_list_snoc: "bt_of_list (xs @ [(k, v)]) = bt_insert k v (bt_of_list xs)"
  by (simp add: bt_of_list_def)

lemma map_of_bt_of_list: "distinct (map fst xs) \<Longrightarrow> map_of (bt_of_list xs) = map_of xs"
proof (induction xs rule: rev_induct)
  case (snoc x xs)
  obtain k v where x: "x = (k, v)" by force
  have k: "k \<notin> fst ` set xs" using snoc.prems x by simp
  have "map_of xs k = None" using k by (simp add: map_of_eq_None_iff)
  then have "map_of (xs @ [(k, v)]) = (map_of xs)(k \<mapsto> v)"
    by (auto simp: fun_eq_iff map_add_def split: option.split)
  then show ?case using snoc x by (simp add: bt_of_list_snoc)
qed (simp add: bt_of_list_def)

lemma bt_eqI:
  assumes "bt_ok m" "bt_ok n" "map_of m = map_of n"
  shows "m = n"
proof -
  have d: "distinct (map fst m)" "distinct (map fst n)" using assms bt_ok_distinct by auto
  then have "set m = set n" using assms(3) by (metis map_of_inject_set)
  moreover have "inj_on fst (set m \<union> set n)" using d calculation by (simp add: distinct_map)
  moreover have "sorted (map fst m)" "sorted (map fst n)"
    using assms(1,2) by (simp_all add: bt_ok_def strict_sorted_imp_sorted)
  ultimately show ?thesis using d by (intro map_sorted_distinct_set_unique [of fst m n]) auto
qed

lemma bt_of_list_id: "bt_ok m \<Longrightarrow> bt_of_list m = m"
  by (rule bt_eqI) (simp_all add: map_of_bt_of_list bt_ok_distinct)

lemma bt_of_list_length: "distinct (map fst xs) \<Longrightarrow> length (bt_of_list xs) = length xs"
proof -
  assume d: "distinct (map fst xs)"
  have "length (bt_of_list xs) = card (fst ` set (bt_of_list xs))"
    using distinct_card [OF bt_ok_distinct [OF bt_of_list_ok]] by (metis length_map list.set_map)
  also have "\<dots> = card (fst ` set xs)"
    using map_of_bt_of_list [OF d] by (metis dom_map_of_conv_image_fst)
  also have "\<dots> = length xs" using distinct_card [OF d] by simp
  finally show ?thesis .
qed

lemma set_bt_of_list: "distinct (map fst xs) \<Longrightarrow> set (bt_of_list xs) = set xs"
  by (metis map_of_inject_set map_of_bt_of_list bt_ok_distinct bt_of_list_ok)

end
