(* ===== verification/Snapshot.thy ===== *)
theory Snapshot
  imports Command_State Ordered_Map
begin

text \<open>
  Model of the control plane's durable snapshot: the rows and their validation
  (\<open>crates/control-plane-sqlite/src/snapshot_rows.rs\<close>, \<open>snapshot.rs\<close>,
  \<open>snapshot_validation.rs\<close>) and the translation of the state in memory to a
  snapshot and back (\<open>services/control-plane/src/state_sqlite_backend.rs\<close>).
  The text of a UUID and the JSON codec are the parameters \<open>Codec\<close>.
\<close>

section \<open>Rows\<close>

record Codec =
  cid_text :: "CommandId \<Rightarrow> string"
  cid_parse :: "string \<Rightarrow> CommandId option"
  encode_device :: "DeviceRecord \<Rightarrow> string"
  decode_device :: "string \<Rightarrow> DeviceRecord option"
  encode_command :: "DeviceCommand \<Rightarrow> string"
  decode_command :: "string \<Rightarrow> DeviceCommand option"
  json_valid :: "string \<Rightarrow> bool"

record DeviceRow =
  row_node_id :: string
  row_record :: DeviceRecord

record CommandResultRow =
  result_scope_key :: digest
  result_command_id :: CommandId
  result_command :: DeviceCommand

record IdempotencyClaimRow =
  claim_scope_key :: digest
  claim_command_id :: CommandId
  claim_request_fingerprint :: digest

record PendingCommandRow =
  pending_command_id :: CommandId
  pending_device_id :: string
  pending_queue_position :: u32
  pending_command :: DeviceCommand

record SnapshotRows =
  rows_devices :: "DeviceRow list"
  rows_command_results :: "CommandResultRow list"
  rows_idempotency_claims :: "IdempotencyClaimRow list"
  rows_pending_commands :: "PendingCommandRow list"

datatype SnapshotViolation =
    SnapshotUnsupportedSchemaVersion u32 u32
  | DeviceCapacityExceeded | ReplayCapacityExceeded | PendingCapacityExceeded | DeviceQueueCapacityExceeded
  | DeviceKeyMismatch | DuplicateDevice | EmptyDeviceId | CommandResultIdentityMismatch | ReplayScopeMismatch
  | DuplicateReplayScope | DuplicateCommandId | DuplicateClaimScope | ClaimResultMissing | ClaimCommandMismatch
  | ReplayEvidenceMismatch | ReplayClaimMissing | PendingIdentityMismatch | PendingDeviceMismatch
  | DuplicatePendingCommand | DuplicateQueuePosition | NonContiguousQueuePosition | PendingReplayMissing
  | PendingReplayMismatch

record ReplayRecord =
  replay_scope_key :: digest
  replay_request_fingerprint :: digest
  replay_command :: DeviceCommand

type_synonym device_tree = "(string, DeviceRecord) btree"
type_synonym queue_tree = "(string, DeviceCommand list) btree"

record ControlPlaneSnapshot =
  snap_devices :: device_tree
  snap_queues :: queue_tree
  snap_replay_records :: "ReplayRecord list"

definition ReplayRecord_from_command :: "Hashing \<Rightarrow> DeviceCommand \<Rightarrow> ReplayRecord" where
  "ReplayRecord_from_command H c =
     \<lparr>replay_scope_key = idempotency_scope_key H (cmd_device_id c) (cmd_idempotency_key c),
      replay_request_fingerprint = request_fingerprint H (cmd_device_id c) (original_request c),
      replay_command = c\<rparr>"

section \<open>Validation\<close>

definition validate_device_row :: "DeviceRow \<Rightarrow> device_tree \<Rightarrow> SnapshotViolation + device_tree" where
  "validate_device_row row devices =
     (if row_node_id row = [] \<or> dev_node_id (row_record row) \<noteq> row_node_id row then Inl DeviceKeyMismatch
      else if map_of devices (row_node_id row) \<noteq> None then Inl DuplicateDevice
      else Inr (bt_insert (row_node_id row) (row_record row) devices))"

type_synonym results_tree = "(string, digest \<times> DeviceCommand) btree"
type_synonym scopes_tree = "(string, string) btree"

definition validate_result_row ::
  "Hashing \<Rightarrow> Codec \<Rightarrow> CommandResultRow \<Rightarrow> results_tree \<times> scopes_tree
     \<Rightarrow> SnapshotViolation + results_tree \<times> scopes_tree" where
  "validate_result_row H T row st =
     (case st of (results_by_scope, result_scope_by_command) \<Rightarrow>
      let command = result_command row;
          scope = ContentDigest_display (to_hex_fn H) (result_scope_key row);
          id_text = cid_text T (result_command_id row) in
      if cmd_device_id command = [] then Inl EmptyDeviceId
      else if result_command_id row \<noteq> cmd_command_id command then Inl CommandResultIdentityMismatch
      else if result_scope_key row \<noteq> idempotency_scope_key H (cmd_device_id command) (cmd_idempotency_key command)
      then Inl ReplayScopeMismatch
      else if map_of results_by_scope scope \<noteq> None then Inl DuplicateReplayScope
      else if map_of result_scope_by_command id_text \<noteq> None then Inl DuplicateCommandId
      else Inr (bt_insert scope (result_scope_key row, command) results_by_scope,
                bt_insert id_text scope result_scope_by_command))"

type_synonym claims_tree = "(string, CommandId \<times> digest) btree"

definition validate_claim_row ::
  "Hashing \<Rightarrow> results_tree \<Rightarrow> IdempotencyClaimRow \<Rightarrow> claims_tree \<Rightarrow> SnapshotViolation + claims_tree" where
  "validate_claim_row H results_by_scope row claims_by_scope =
     (let scope = ContentDigest_display (to_hex_fn H) (claim_scope_key row) in
      if map_of claims_by_scope scope \<noteq> None then Inl DuplicateClaimScope
      else
        (case map_of results_by_scope scope of
           None \<Rightarrow> Inl ClaimResultMissing
         | Some (_, command) \<Rightarrow>
             if claim_command_id row \<noteq> cmd_command_id command then Inl ClaimCommandMismatch
             else if claim_request_fingerprint row
                       \<noteq> request_fingerprint H (cmd_device_id command) (original_request command)
             then Inl ReplayEvidenceMismatch
             else Inr (bt_insert scope (claim_command_id row, claim_request_fingerprint row) claims_by_scope)))"

type_synonym positions_tree = "(string, (u32, DeviceCommand) btree) btree"

definition validate_pending_row ::
  "Codec \<Rightarrow> results_tree \<Rightarrow> scopes_tree \<Rightarrow> PendingCommandRow \<Rightarrow> string list \<times> positions_tree
     \<Rightarrow> SnapshotViolation + string list \<times> positions_tree" where
  "validate_pending_row T results_by_scope result_scope_by_command row st =
     (case st of (pending_ids, pending_by_device) \<Rightarrow>
      let command = pending_command row; device_id = pending_device_id row;
          id_text = cid_text T (pending_command_id row) in
      if device_id = [] \<or> cmd_device_id command = [] then Inl EmptyDeviceId
      else if pending_command_id row \<noteq> cmd_command_id command then Inl PendingIdentityMismatch
      else if device_id \<noteq> cmd_device_id command then Inl PendingDeviceMismatch
      else if id_text \<in> set pending_ids then Inl DuplicatePendingCommand
      else
        (case map_of result_scope_by_command id_text of
           None \<Rightarrow> Inl PendingReplayMissing
         | Some scope \<Rightarrow>
             (case map_of results_by_scope scope of
                None \<Rightarrow> Inl PendingReplayMissing
              | Some (_, replay) \<Rightarrow>
                  if replay \<noteq> command then Inl PendingReplayMismatch
                  else
                    let positions = (case map_of pending_by_device device_id of None \<Rightarrow> [] | Some p \<Rightarrow> p);
                        positions' = bt_insert (pending_queue_position row) command positions in
                    if map_of positions (pending_queue_position row) \<noteq> None then Inl DuplicateQueuePosition
                    else if length positions' > MAX_COMMAND_QUEUE_PER_DEVICE then Inl DeviceQueueCapacityExceeded
                    else Inr (id_text # pending_ids, bt_insert device_id positions' pending_by_device))))"

fun contiguous_queue :: "nat \<Rightarrow> (u32, DeviceCommand) btree \<Rightarrow> SnapshotViolation + DeviceCommand list" where
  "contiguous_queue expected [] = Inr []"
| "contiguous_queue expected ((position, command) # rest) =
     (if expected \<ge> 2 ^ 32 then Inl PendingCapacityExceeded
      else if unat position \<noteq> expected then Inl NonContiguousQueuePosition
      else and_then (contiguous_queue (Suc expected) rest) (\<lambda>queue. Inr (command # queue)))"

definition add_queue ::
  "string \<times> (u32, DeviceCommand) btree \<Rightarrow> queue_tree \<Rightarrow> SnapshotViolation + queue_tree" where
  "add_queue entry built =
     (case entry of (device_id, positions) \<Rightarrow>
      and_then (contiguous_queue 0 positions) (\<lambda>queue. Inr (bt_insert device_id queue built)))"

definition collect_replay :: "claims_tree \<Rightarrow> results_tree \<Rightarrow> ReplayRecord list" where
  "collect_replay claims_by_scope results_by_scope =
     map (\<lambda>(scope, scope_key, command).
        \<lparr>replay_scope_key = scope_key,
         replay_request_fingerprint = (case map_of claims_by_scope scope of Some (_, f) \<Rightarrow> f | None \<Rightarrow> 0),
         replay_command = command\<rparr>) results_by_scope"

definition validate_rows :: "Hashing \<Rightarrow> Codec \<Rightarrow> SnapshotRows \<Rightarrow> SnapshotViolation + ControlPlaneSnapshot" where
  "validate_rows H T rows =
     (if length (rows_devices rows) > MAX_REGISTERED_DEVICES then Inl DeviceCapacityExceeded
      else if length (rows_command_results rows) > MAX_IDEMPOTENCY_RESULTS
              \<or> length (rows_idempotency_claims rows) > MAX_IDEMPOTENCY_RESULTS
      then Inl ReplayCapacityExceeded
      else if length (rows_pending_commands rows) > MAX_PENDING_COMMANDS then Inl PendingCapacityExceeded
      else
        and_then (fold_result validate_device_row (rows_devices rows) []) (\<lambda>devices.
        and_then (fold_result (validate_result_row H T) (rows_command_results rows) ([], []))
          (\<lambda>(results_by_scope, result_scope_by_command).
        and_then (fold_result (validate_claim_row H results_by_scope) (rows_idempotency_claims rows) [])
          (\<lambda>claims_by_scope.
        if list_ex (\<lambda>(scope, _). map_of claims_by_scope scope = None) results_by_scope then Inl ReplayClaimMissing
        else
          and_then (fold_result (validate_pending_row T results_by_scope result_scope_by_command)
                      (rows_pending_commands rows) ([], [])) (\<lambda>(_, pending_by_device).
          and_then (fold_result add_queue pending_by_device []) (\<lambda>built.
          Inr \<lparr>snap_devices = devices, snap_queues = built,
               snap_replay_records = collect_replay claims_by_scope results_by_scope\<rparr>))))))"

section \<open>Snapshots\<close>

definition device_rows :: "device_tree \<Rightarrow> DeviceRow list" where
  "device_rows devices = map (\<lambda>(node_id, r). \<lparr>row_node_id = node_id, row_record = r\<rparr>) devices"

definition result_rows :: "ReplayRecord list \<Rightarrow> CommandResultRow list" where
  "result_rows replays =
     map (\<lambda>r. \<lparr>result_scope_key = replay_scope_key r, result_command_id = cmd_command_id (replay_command r),
              result_command = replay_command r\<rparr>) replays"

definition claim_rows :: "ReplayRecord list \<Rightarrow> IdempotencyClaimRow list" where
  "claim_rows replays =
     map (\<lambda>r. \<lparr>claim_scope_key = replay_scope_key r, claim_command_id = cmd_command_id (replay_command r),
              claim_request_fingerprint = replay_request_fingerprint r\<rparr>) replays"

definition queue_rows :: "string \<times> DeviceCommand list \<Rightarrow> PendingCommandRow list" where
  "queue_rows entry =
     (case entry of (device_id, queue) \<Rightarrow>
        map (\<lambda>(position, c). \<lparr>pending_command_id = cmd_command_id c, pending_device_id = device_id,
               pending_queue_position = of_nat position, pending_command = c\<rparr>) (enumerate 0 queue))"

definition pending_rows :: "queue_tree \<Rightarrow> PendingCommandRow list" where
  "pending_rows qs = concat (map queue_rows qs)"

definition snapshot_rows :: "ControlPlaneSnapshot \<Rightarrow> SnapshotRows" where
  "snapshot_rows snap =
     \<lparr>rows_devices = device_rows (snap_devices snap),
      rows_command_results = result_rows (snap_replay_records snap),
      rows_idempotency_claims = claim_rows (snap_replay_records snap),
      rows_pending_commands = pending_rows (snap_queues snap)\<rparr>"

definition snapshot_from_parts ::
  "Hashing \<Rightarrow> Codec \<Rightarrow> device_tree \<Rightarrow> queue_tree \<Rightarrow> ReplayRecord list \<Rightarrow> SnapshotViolation + ControlPlaneSnapshot" where
  "snapshot_from_parts H T devices qs replays =
     (if list_ex (\<lambda>(_, queue). length queue > 2 ^ 32) qs then Inl PendingCapacityExceeded
      else validate_rows H T
        \<lparr>rows_devices = device_rows devices, rows_command_results = result_rows replays,
         rows_idempotency_claims = claim_rows replays, rows_pending_commands = pending_rows qs\<rparr>)"

definition snapshot_validate :: "Hashing \<Rightarrow> Codec \<Rightarrow> ControlPlaneSnapshot \<Rightarrow> SnapshotViolation + unit" where
  "snapshot_validate H T snap = and_then (validate_rows H T (snapshot_rows snap)) (\<lambda>_. Inr ())"

section \<open>State in memory and snapshot\<close>

datatype BackendError =
    DuplicateOrderScope | OrderResultMissing | NonCanonicalReplayScope | ReplayMissingFromOrder
  | Unrepresentable SnapshotViolation | NonCanonicalResultScope | AmbiguousLegacyClaim | LegacyClaimsDiffer
  | DuplicateCommandRelation

definition legacy_claims :: "Hashing \<Rightarrow> string \<times> DeviceCommand \<Rightarrow> (string \<times> CommandId) list
    \<Rightarrow> BackendError + (string \<times> CommandId) list" where
  "legacy_claims H entry expected =
     (case entry of (scope, command) \<Rightarrow>
      if canonical_scope H command \<noteq> scope then Inl NonCanonicalResultScope
      else
        (case map_of expected (legacy_scope_for_command command) of
           Some existing \<Rightarrow> if existing \<noteq> cmd_command_id command then Inl AmbiguousLegacyClaim else Inr expected
         | None \<Rightarrow> Inr (AList.update (legacy_scope_for_command command) (cmd_command_id command) expected)))"

definition same_map :: "('k \<times> 'v) list \<Rightarrow> ('k \<times> 'v) list \<Rightarrow> bool" where
  "same_map xs ys = (length xs = length ys \<and> list_all (\<lambda>(k, v). map_of ys k = Some v) xs)"

definition validate_legacy_claims :: "Hashing \<Rightarrow> CommandState \<Rightarrow> BackendError + unit" where
  "validate_legacy_claims H commands =
     and_then (fold_result (legacy_claims H) (idempotency_results commands) []) (\<lambda>expected.
       if \<not> same_map (idempotency commands) expected then Inl LegacyClaimsDiffer else Inr ())"

definition collect_ordered ::
  "Hashing \<Rightarrow> CommandState \<Rightarrow> string \<Rightarrow> string list \<times> ReplayRecord list \<Rightarrow> BackendError + string list \<times> ReplayRecord list" where
  "collect_ordered H commands scope st =
     (case st of (seen, replays) \<Rightarrow>
      if scope \<in> set seen then Inl DuplicateOrderScope
      else
        (case map_of (idempotency_results commands) scope of
           None \<Rightarrow> Inl OrderResultMissing
         | Some command \<Rightarrow>
             if canonical_scope H command \<noteq> scope then Inl NonCanonicalReplayScope
             else Inr (scope # seen, replays @ [ReplayRecord_from_command H command])))"

definition snapshot_from_stored :: "Hashing \<Rightarrow> Codec \<Rightarrow> StoredState \<Rightarrow> BackendError + ControlPlaneSnapshot" where
  "snapshot_from_stored H T st =
     (let commands = stored_commands st in
      and_then (validate_legacy_claims H commands) (\<lambda>_.
      and_then (fold_result (collect_ordered H commands) (idempotency_order commands) ([], [])) (\<lambda>(seen, replays).
      if length seen \<noteq> length (idempotency_results commands) then Inl ReplayMissingFromOrder
      else map_err Unrepresentable
        (snapshot_from_parts H T (bt_of_list (stored_devices st)) (bt_of_list (queues commands)) replays))))"

definition restore_replay :: "Hashing \<Rightarrow> ReplayRecord \<Rightarrow> CommandState \<Rightarrow> BackendError + CommandState" where
  "restore_replay H replay commands =
     (let scope = ContentDigest_display (to_hex_fn H) (replay_scope_key replay); command = replay_command replay;
          legacy = legacy_scope_for_command command in
      if map_of (idempotency_results commands) scope \<noteq> None \<or> map_of (idempotency commands) legacy \<noteq> None
      then Inl DuplicateCommandRelation
      else Inr (commands\<lparr>idempotency_results := AList.update scope command (idempotency_results commands),
                         idempotency := AList.update legacy (cmd_command_id command) (idempotency commands),
                         idempotency_order := idempotency_order commands @ [scope]\<rparr>))"

definition stored_from_snapshot :: "Hashing \<Rightarrow> ControlPlaneSnapshot \<Rightarrow> BackendError + StoredState" where
  "stored_from_snapshot H snap =
     and_then (fold_result (restore_replay H) (snap_replay_records snap)
                (CommandState_default\<lparr>queues := snap_queues snap\<rparr>)) (\<lambda>commands.
     and_then (validate_legacy_claims H commands) (\<lambda>_.
     Inr \<lparr>stored_devices = snap_devices snap, stored_commands = commands\<rparr>))"

end
