(* ===== verification/Snapshot_Store.thy ===== *)
theory Snapshot_Store
  imports Snapshot "HOL-Library.Product_Lexorder"
begin

text \<open>
  Model of the SQLite store of the control plane
  (\<open>crates/control-plane-sqlite/src/snapshot_compare_and_swap.rs\<close>,
  \<open>snapshot_store.rs\<close> and the schema \<open>MIGRATION_V1\<close> of \<open>lib.rs\<close>).  A table is an
  ordered map from its primary key; each SQL statement of the source is a
  function that checks the constraints the schema declares for it.  A transaction
  that ends in an error leaves the tables as they were.  Whether opening,
  reading, writing and committing succeed is decided by the environment
  \<open>SqlEnv\<close>, call by call.
\<close>

section \<open>Tables and statements\<close>

record RelationalState =
  rel_devices :: "(string, string) btree"
  rel_results :: "(string, string \<times> string) btree"
  rel_claims :: "(string, string \<times> string) btree"
  rel_pending :: "(string, string \<times> int \<times> string) btree"

datatype SqlError = CheckFailed | PrimaryKeyViolation | UniqueViolation | ForeignKeyViolation

type_synonym statement = "RelationalState \<Rightarrow> SqlError + RelationalState"

definition sql_delete_pending :: "string \<Rightarrow> statement" where
  "sql_delete_pending command_id t = Inr (t\<lparr>rel_pending := AList.delete command_id (rel_pending t)\<rparr>)"

definition sql_delete_claim :: "string \<Rightarrow> statement" where
  "sql_delete_claim scope_key t = Inr (t\<lparr>rel_claims := AList.delete scope_key (rel_claims t)\<rparr>)"

definition sql_delete_result :: "string \<Rightarrow> statement" where
  "sql_delete_result scope_key t =
     (case map_of (rel_results t) scope_key of
        None \<Rightarrow> Inr t
      | Some (command_id, _) \<Rightarrow>
          if map_of (rel_pending t) command_id \<noteq> None then Inl ForeignKeyViolation
          else Inr (t\<lparr>rel_results := AList.delete scope_key (rel_results t),
                      rel_claims := filter (\<lambda>(s, c, _). \<not> (s = scope_key \<and> c = command_id)) (rel_claims t)\<rparr>))"

definition sql_delete_device :: "string \<Rightarrow> statement" where
  "sql_delete_device node_id t = Inr (t\<lparr>rel_devices := AList.delete node_id (rel_devices t)\<rparr>)"

definition sql_upsert_device :: "Codec \<Rightarrow> string \<Rightarrow> string \<Rightarrow> statement" where
  "sql_upsert_device T node_id record_json t =
     (if node_id = [] \<or> \<not> json_valid T record_json then Inl CheckFailed
      else Inr (t\<lparr>rel_devices := bt_insert node_id record_json (rel_devices t)\<rparr>))"

definition sql_insert_result :: "Codec \<Rightarrow> string \<Rightarrow> string \<Rightarrow> string \<Rightarrow> statement" where
  "sql_insert_result T scope_key command_id result_json t =
     (if scope_key = [] \<or> command_id = [] \<or> \<not> json_valid T result_json then Inl CheckFailed
      else if map_of (rel_results t) scope_key \<noteq> None then Inl PrimaryKeyViolation
      else if list_ex (\<lambda>(_, c, _). c = command_id) (rel_results t) then Inl UniqueViolation
      else Inr (t\<lparr>rel_results := bt_insert scope_key (command_id, result_json) (rel_results t)\<rparr>))"

definition sql_insert_claim :: "string \<Rightarrow> string \<Rightarrow> string \<Rightarrow> statement" where
  "sql_insert_claim scope_key command_id fingerprint t =
     (if scope_key = [] \<or> command_id = [] \<or> fingerprint = [] then Inl CheckFailed
      else if map_of (rel_claims t) scope_key \<noteq> None then Inl PrimaryKeyViolation
      else if map_option fst (map_of (rel_results t) scope_key) \<noteq> Some command_id then Inl ForeignKeyViolation
      else Inr (t\<lparr>rel_claims := bt_insert scope_key (command_id, fingerprint) (rel_claims t)\<rparr>))"

definition sql_insert_pending :: "Codec \<Rightarrow> string \<Rightarrow> string \<Rightarrow> int \<Rightarrow> string \<Rightarrow> statement" where
  "sql_insert_pending T command_id device_id queue_position command_json t =
     (if command_id = [] \<or> device_id = [] \<or> queue_position < 0 \<or> \<not> json_valid T command_json then Inl CheckFailed
      else if map_of (rel_pending t) command_id \<noteq> None then Inl PrimaryKeyViolation
      else if list_ex (\<lambda>(_, d, p, _). d = device_id \<and> p = queue_position) (rel_pending t) then Inl UniqueViolation
      else if \<not> list_ex (\<lambda>(_, c, _). c = command_id) (rel_results t) then Inl ForeignKeyViolation
      else Inr (t\<lparr>rel_pending := bt_insert command_id (device_id, queue_position, command_json) (rel_pending t)\<rparr>))"

section \<open>Compare and swap\<close>

record SnapshotRowChanges =
  devices_upserted :: nat
  devices_deleted :: nat
  command_results_inserted :: nat
  command_results_deleted :: nat
  idempotency_claims_inserted :: nat
  idempotency_claims_deleted :: nat
  pending_commands_inserted :: nat
  pending_commands_deleted :: nat

definition materialize :: "Hashing \<Rightarrow> Codec \<Rightarrow> ControlPlaneSnapshot \<Rightarrow> RelationalState" where
  "materialize H T snap =
     (let rows = snapshot_rows snap; text_of = ContentDigest_display (to_hex_fn H) in
      \<lparr>rel_devices = bt_of_list (map (\<lambda>r. (row_node_id r, encode_device T (row_record r))) (rows_devices rows)),
       rel_results = bt_of_list (map (\<lambda>r. (text_of (result_scope_key r),
           cid_text T (result_command_id r), encode_command T (result_command r))) (rows_command_results rows)),
       rel_claims = bt_of_list (map (\<lambda>r. (text_of (claim_scope_key r),
           cid_text T (claim_command_id r), text_of (claim_request_fingerprint r))) (rows_idempotency_claims rows)),
       rel_pending = bt_of_list (map (\<lambda>r. (cid_text T (pending_command_id r),
           pending_device_id r, uint (pending_queue_position r), encode_command T (pending_command r)))
           (rows_pending_commands rows))\<rparr>)"

definition row_section ::
  "('r \<Rightarrow> bool) \<Rightarrow> ('r \<Rightarrow> statement) \<Rightarrow> 'r list \<Rightarrow> RelationalState \<Rightarrow> SqlError + nat \<times> RelationalState" where
  "row_section changed stmt rows t =
     fold_result (\<lambda>r (n, t). if changed r then and_then (stmt r t) (\<lambda>t'. Inr (Suc n, t')) else Inr (n, t)) rows (0, t)"

definition apply_row_changes ::
  "Codec \<Rightarrow> RelationalState \<Rightarrow> RelationalState \<Rightarrow> RelationalState \<Rightarrow> SqlError + SnapshotRowChanges \<times> RelationalState" where
  "apply_row_changes T current candidate t0 =
     and_then (row_section (\<lambda>(k, v). map_of (rel_pending candidate) k \<noteq> Some v) (\<lambda>(k, _). sql_delete_pending k)
       (rel_pending current) t0) (\<lambda>(pending_deleted, t1).
     and_then (row_section (\<lambda>(k, v). map_of (rel_claims candidate) k \<noteq> Some v) (\<lambda>(k, _). sql_delete_claim k)
       (rel_claims current) t1) (\<lambda>(claims_deleted, t2).
     and_then (row_section (\<lambda>(k, v). map_of (rel_results candidate) k \<noteq> Some v) (\<lambda>(k, _). sql_delete_result k)
       (rel_results current) t2) (\<lambda>(results_deleted, t3).
     and_then (row_section (\<lambda>(k, _). map_of (rel_devices candidate) k = None) (\<lambda>(k, _). sql_delete_device k)
       (rel_devices current) t3) (\<lambda>(deleted, t4).
     and_then (row_section (\<lambda>(k, v). map_of (rel_devices current) k \<noteq> Some v) (\<lambda>(k, v). sql_upsert_device T k v)
       (rel_devices candidate) t4) (\<lambda>(upserted, t5).
     and_then (row_section (\<lambda>(k, v). map_of (rel_results current) k \<noteq> Some v) (\<lambda>(k, c, j). sql_insert_result T k c j)
       (rel_results candidate) t5) (\<lambda>(results_inserted, t6).
     and_then (row_section (\<lambda>(k, v). map_of (rel_claims current) k \<noteq> Some v) (\<lambda>(k, c, f). sql_insert_claim k c f)
       (rel_claims candidate) t6) (\<lambda>(claims_inserted, t7).
     and_then (row_section (\<lambda>(k, v). map_of (rel_pending current) k \<noteq> Some v) (\<lambda>(k, d, p, j). sql_insert_pending T k d p j)
       (rel_pending candidate) t7) (\<lambda>(pending_inserted, t8).
     Inr (\<lparr>devices_upserted = upserted, devices_deleted = deleted,
           command_results_inserted = results_inserted, command_results_deleted = results_deleted,
           idempotency_claims_inserted = claims_inserted, idempotency_claims_deleted = claims_deleted,
           pending_commands_inserted = pending_inserted, pending_commands_deleted = pending_deleted\<rparr>, t8)))))))))"

record SqlEnv =
  env_open_ok :: bool
  env_begin_ok :: bool
  env_read_ok :: bool
  env_write_ok :: bool
  env_commit_ok :: bool

definition sql_healthy :: SqlEnv where
  "sql_healthy = \<lparr>env_open_ok = True, env_begin_ok = True, env_read_ok = True, env_write_ok = True, env_commit_ok = True\<rparr>"

datatype SnapshotCompareAndSwapError =
    CasViolation SnapshotViolation | CasDatabase | CasConstraint SqlError | StaleExpectedState | PostWriteParityMismatch

definition compare_and_swap_snapshot ::
  "SqlEnv \<Rightarrow> Hashing \<Rightarrow> Codec \<Rightarrow> ControlPlaneSnapshot \<Rightarrow> ControlPlaneSnapshot \<Rightarrow> RelationalState
     \<Rightarrow> SnapshotCompareAndSwapError + SnapshotRowChanges \<times> RelationalState" where
  "compare_and_swap_snapshot env H T expected candidate t =
     and_then (map_err CasViolation (snapshot_validate H T expected)) (\<lambda>_.
     and_then (map_err CasViolation (snapshot_validate H T candidate)) (\<lambda>_.
     let expected_rows = materialize H T expected; candidate_rows = materialize H T candidate in
     if \<not> env_begin_ok env \<or> \<not> env_read_ok env then Inl CasDatabase
     else if t \<noteq> expected_rows then Inl StaleExpectedState
     else if \<not> env_write_ok env then Inl CasDatabase
     else
       and_then (map_err CasConstraint (apply_row_changes T t candidate_rows t)) (\<lambda>(changes, t').
       if t' \<noteq> candidate_rows then Inl PostWriteParityMismatch
       else if \<not> env_commit_ok env then Inl CasDatabase
       else Inr (changes, t'))))"

datatype CompareAndSwapError = CasBackend BackendError | CasOpen | CasSnapshot SnapshotCompareAndSwapError

definition compare_and_swap ::
  "SqlEnv \<Rightarrow> Hashing \<Rightarrow> Codec \<Rightarrow> StoredState \<Rightarrow> StoredState \<Rightarrow> RelationalState
     \<Rightarrow> CompareAndSwapError + SnapshotRowChanges \<times> RelationalState" where
  "compare_and_swap env H T expected candidate t =
     and_then (map_err CasBackend (snapshot_from_stored H T expected)) (\<lambda>expected_snapshot.
     and_then (map_err CasBackend (snapshot_from_stored H T candidate)) (\<lambda>candidate_snapshot.
     if \<not> env_open_ok env then Inl CasOpen
     else map_err CasSnapshot (compare_and_swap_snapshot env H T expected_snapshot candidate_snapshot t)))"

section \<open>Loading\<close>

datatype SnapshotStoreError =
    StoreDatabase | StoreJson string | StoreFoundation string string | QueuePositionOutOfRange int | StoreViolation SnapshotViolation

fun map_result :: "('a \<Rightarrow> 'e + 'b) \<Rightarrow> 'a list \<Rightarrow> 'e + 'b list" where
  "map_result f [] = Inr []"
| "map_result f (x # xs) = and_then (f x) (\<lambda>y. and_then (map_result f xs) (\<lambda>ys. Inr (y # ys)))"

definition parse_digest :: "Hashing \<Rightarrow> string \<Rightarrow> string \<Rightarrow> string \<Rightarrow> SnapshotStoreError + digest" where
  "parse_digest H relation field raw =
     map_err (\<lambda>_. StoreFoundation relation field) (ContentDigest_from_str (from_hex_fn H) raw)"

definition parse_command_id :: "Codec \<Rightarrow> string \<Rightarrow> string \<Rightarrow> string \<Rightarrow> SnapshotStoreError + CommandId" where
  "parse_command_id T relation field raw = ok_or (StoreFoundation relation field) (cid_parse T raw)"

definition load_device :: "Codec \<Rightarrow> string \<times> string \<Rightarrow> SnapshotStoreError + DeviceRow" where
  "load_device T row = (case row of (node_id, json) \<Rightarrow>
     and_then (ok_or (StoreJson ''devices'') (decode_device T json)) (\<lambda>r.
     Inr \<lparr>row_node_id = node_id, row_record = r\<rparr>))"

definition load_command_result :: "Hashing \<Rightarrow> Codec \<Rightarrow> string \<times> string \<times> string \<Rightarrow> SnapshotStoreError + CommandResultRow" where
  "load_command_result H T row = (case row of (scope_key, command_id, json) \<Rightarrow>
     and_then (parse_digest H ''command_results'' ''scope_key'' scope_key) (\<lambda>k.
     and_then (parse_command_id T ''command_results'' ''command_id'' command_id) (\<lambda>i.
     and_then (ok_or (StoreJson ''command_results'') (decode_command T json)) (\<lambda>c.
     Inr \<lparr>result_scope_key = k, result_command_id = i, result_command = c\<rparr>))))"

definition load_idempotency_claim :: "Hashing \<Rightarrow> Codec \<Rightarrow> string \<times> string \<times> string \<Rightarrow> SnapshotStoreError + IdempotencyClaimRow" where
  "load_idempotency_claim H T row = (case row of (scope_key, command_id, fingerprint) \<Rightarrow>
     and_then (parse_digest H ''idempotency_claims'' ''scope_key'' scope_key) (\<lambda>k.
     and_then (parse_command_id T ''idempotency_claims'' ''command_id'' command_id) (\<lambda>i.
     and_then (parse_digest H ''idempotency_claims'' ''request_fingerprint'' fingerprint) (\<lambda>f.
     Inr \<lparr>claim_scope_key = k, claim_command_id = i, claim_request_fingerprint = f\<rparr>))))"

definition load_pending_command :: "Codec \<Rightarrow> string \<times> string \<times> int \<times> string \<Rightarrow> SnapshotStoreError + PendingCommandRow" where
  "load_pending_command T row = (case row of (command_id, device_id, queue_position, json) \<Rightarrow>
     and_then (parse_command_id T ''pending_commands'' ''command_id'' command_id) (\<lambda>i.
     if queue_position < 0 \<or> queue_position \<ge> 2 ^ 32 then Inl (QueuePositionOutOfRange queue_position)
     else
       and_then (ok_or (StoreJson ''pending_commands'') (decode_command T json)) (\<lambda>c.
       Inr \<lparr>pending_command_id = i, pending_device_id = device_id,
            pending_queue_position = word_of_int queue_position, pending_command = c\<rparr>)))"

definition load_rows :: "Hashing \<Rightarrow> Codec \<Rightarrow> RelationalState \<Rightarrow> SnapshotStoreError + SnapshotRows" where
  "load_rows H T t =
     and_then (map_result (load_device T) (rel_devices t)) (\<lambda>devices.
     and_then (map_result (load_command_result H T) (rel_results t)) (\<lambda>results.
     and_then (map_result (load_idempotency_claim H T) (rel_claims t)) (\<lambda>claims.
     and_then (map_result (load_pending_command T) (sort_key (\<lambda>(_, d, p, _). (d, p)) (rel_pending t))) (\<lambda>pending.
     Inr \<lparr>rows_devices = devices, rows_command_results = results, rows_idempotency_claims = claims,
          rows_pending_commands = pending\<rparr>))))"

definition load_snapshot :: "SqlEnv \<Rightarrow> Hashing \<Rightarrow> Codec \<Rightarrow> RelationalState \<Rightarrow> SnapshotStoreError + ControlPlaneSnapshot" where
  "load_snapshot env H T t =
     (if \<not> env_begin_ok env \<or> \<not> env_read_ok env then Inl StoreDatabase
      else
        and_then (load_rows H T t) (\<lambda>rows.
        and_then (map_err StoreViolation (validate_rows H T rows)) (\<lambda>snapshot.
        if \<not> env_commit_ok env then Inl StoreDatabase else Inr snapshot)))"

datatype LoadError = LoadOpen | LoadStore SnapshotStoreError | LoadBackend BackendError

definition load_existing :: "SqlEnv \<Rightarrow> Hashing \<Rightarrow> Codec \<Rightarrow> RelationalState \<Rightarrow> LoadError + StoredState" where
  "load_existing env H T t =
     (if \<not> env_open_ok env then Inl LoadOpen
      else
        and_then (map_err LoadStore (load_snapshot env H T t)) (\<lambda>snapshot.
        map_err LoadBackend (stored_from_snapshot H snapshot)))"

section \<open>The store as the control plane uses it\<close>

record SqliteDb =
  db_tables :: RelationalState
  db_env :: "SqlEnv list"

definition next_env :: "SqliteDb \<Rightarrow> SqlEnv" where
  "next_env db = (case db_env db of [] \<Rightarrow> sql_healthy | e # _ \<Rightarrow> e)"

definition sqlite_cas :: "Hashing \<Rightarrow> Codec \<Rightarrow> SqliteDb cas" where
  "sqlite_cas H T db expected candidate =
     (case compare_and_swap (next_env db) H T expected candidate (db_tables db) of
        Inl _ \<Rightarrow> (False, db\<lparr>db_env := tl (db_env db)\<rparr>)
      | Inr (_, t) \<Rightarrow> (True, db\<lparr>db_tables := t, db_env := tl (db_env db)\<rparr>))"

definition AppState_load :: "Hashing \<Rightarrow> Codec \<Rightarrow> SqliteDb \<Rightarrow> LoadError + SqliteDb AppState" where
  "AppState_load H T db =
     and_then (load_existing (next_env db) H T (db_tables db)) (\<lambda>st.
     Inr \<lparr>app_devices = stored_devices st, app_commands = stored_commands st,
          app_db = db\<lparr>db_env := tl (db_env db)\<rparr>\<rparr>)"

end
