(* ===== verification/Snapshot_Inv.thy ===== *)
theory Snapshot_Inv
  imports Snapshot Command_Queue
begin

text \<open>
  Validation of well-formed rows: every table is rebuilt exactly, so a snapshot
  taken of a well-formed state is accepted and restores that state.
\<close>

declare map_of_eq_Some_iff [simp del] Some_eq_map_of_iff [simp del]

lemmas snapshot_row_defs = device_rows_def result_rows_def claim_rows_def queue_rows_def pending_rows_def

section \<open>Devices\<close>

definition devices_wf :: "device_tree \<Rightarrow> bool" where
  "devices_wf ds = (bt_ok ds \<and> length ds \<le> MAX_REGISTERED_DEVICES
     \<and> (\<forall>(k, d)\<in>set ds. k \<noteq> [] \<and> dev_node_id d = k))"

lemma map_of_before: "bt_ok (acc @ (k, v) # rest) \<Longrightarrow> map_of acc k = None"
  using bt_ok_distinct [of "acc @ (k, v) # rest"] by (auto simp: map_of_eq_None_iff)

lemma bt_ok_prefix: "bt_ok (acc @ x # rest) \<Longrightarrow> bt_ok (acc @ [x])"
  by (simp add: bt_ok_def sorted_wrt_append)

lemma fold_devices:
  assumes "bt_ok (acc @ ds)" "\<forall>(k, d)\<in>set ds. k \<noteq> [] \<and> dev_node_id d = k"
  shows "fold_result validate_device_row (device_rows ds) acc = Inr (acc @ ds)"
  using assms
proof (induction ds arbitrary: acc)
  case (Cons e ds)
  obtain k d where e: "e = (k, d)" by force
  have "validate_device_row \<lparr>row_node_id = k, row_record = d\<rparr> acc = Inr (acc @ [e])"
    using Cons.prems e map_of_before [of acc k d ds] bt_insert_last [OF bt_ok_prefix, of acc k d ds]
    by (simp add: validate_device_row_def)
  then show ?case using Cons.IH [of "acc @ [e]"] Cons.prems e by (simp add: device_rows_def)
qed (simp add: device_rows_def)

section \<open>Replay results and claims\<close>

definition command_digest :: "Hashing \<Rightarrow> DeviceCommand \<Rightarrow> digest" where
  "command_digest H c = idempotency_scope_key H (cmd_device_id c) (cmd_idempotency_key c)"

definition command_fingerprint :: "Hashing \<Rightarrow> DeviceCommand \<Rightarrow> digest" where
  "command_fingerprint H c = request_fingerprint H (cmd_device_id c) (original_request c)"

lemma display_digest: "ContentDigest_display (to_hex_fn H) (command_digest H c) = canonical_scope H c"
  by (simp add: command_digest_def canonical_scope_def scope_text_def)

lemma replay_simps [simp]:
  "replay_scope_key (ReplayRecord_from_command H c) = command_digest H c"
  "replay_request_fingerprint (ReplayRecord_from_command H c) = command_fingerprint H c"
  "replay_command (ReplayRecord_from_command H c) = c"
  by (simp_all add: ReplayRecord_from_command_def command_digest_def command_fingerprint_def)

definition results_of :: "Hashing \<Rightarrow> DeviceCommand list \<Rightarrow> results_tree" where
  "results_of H cs = bt_of_list (map (\<lambda>c. (canonical_scope H c, command_digest H c, c)) cs)"

definition scopes_of :: "Hashing \<Rightarrow> Codec \<Rightarrow> DeviceCommand list \<Rightarrow> scopes_tree" where
  "scopes_of H T cs = bt_of_list (map (\<lambda>c. (cid_text T (cmd_command_id c), canonical_scope H c)) cs)"

definition claims_of :: "Hashing \<Rightarrow> DeviceCommand list \<Rightarrow> claims_tree" where
  "claims_of H cs = bt_of_list (map (\<lambda>c. (canonical_scope H c, cmd_command_id c, command_fingerprint H c)) cs)"

definition replay_wf :: "Hashing \<Rightarrow> Codec \<Rightarrow> DeviceCommand list \<Rightarrow> bool" where
  "replay_wf H T cs =
     (distinct (map (canonical_scope H) cs) \<and> distinct (map (\<lambda>c. cid_text T (cmd_command_id c)) cs)
      \<and> (\<forall>c\<in>set cs. cmd_device_id c \<noteq> []) \<and> length cs \<le> MAX_IDEMPOTENCY_RESULTS)"

lemma map_of_tagged:
  "distinct (map f cs) \<Longrightarrow> map_of (bt_of_list (map (\<lambda>c. (f c, g c)) cs)) k
     = (if k \<in> f ` set cs then map_of (map (\<lambda>c. (f c, g c)) cs) k else None)"
  by (auto simp: map_of_bt_of_list comp_def map_of_eq_None_iff)

lemma map_of_tagged_mem:
  assumes "distinct (map f cs)" "c \<in> set cs"
  shows "map_of (bt_of_list (map (\<lambda>c. (f c, g c)) cs)) (f c) = Some (g c)"
proof -
  have "distinct (map fst (map (\<lambda>c. (f c, g c)) cs))" using assms(1) by (simp add: comp_def)
  then show ?thesis using assms(2) by (simp add: map_of_bt_of_list map_of_eq_Some_iff image_iff) force
qed

lemma map_of_tagged_None:
  assumes "distinct (map f cs)" "k \<notin> f ` set cs"
  shows "map_of (bt_of_list (map (\<lambda>c. (f c, g c)) cs)) k = None"
proof -
  have "distinct (map fst (map (\<lambda>c. (f c, g c)) cs))" using assms(1) by (simp add: comp_def)
  then show ?thesis using assms(2) by (auto simp: map_of_bt_of_list map_of_eq_None_iff image_iff)
qed

lemma fold_results:
  assumes "distinct (map (canonical_scope H) cs)" "distinct (map (\<lambda>c. cid_text T (cmd_command_id c)) cs)"
    "\<forall>c\<in>set cs. cmd_device_id c \<noteq> []"
  shows "fold_result (validate_result_row H T) (result_rows (map (ReplayRecord_from_command H) cs)) ([], [])
       = Inr (results_of H cs, scopes_of H T cs)"
  using assms
proof (induction cs rule: rev_induct)
  case (snoc c cs)
  have none: "map_of (results_of H cs) (canonical_scope H c) = None"
    "map_of (scopes_of H T cs) (cid_text T (cmd_command_id c)) = None"
    unfolding results_of_def scopes_of_def using snoc.prems by (auto intro!: map_of_tagged_None)
  have key: "idempotency_scope_key H (cmd_device_id c) (cmd_idempotency_key c) = command_digest H c"
    by (simp add: command_digest_def)
  show ?case
    using snoc none
    by (simp add: result_rows_def fold_result_append validate_result_row_def Let_def display_digest key
        results_of_def scopes_of_def bt_of_list_snoc)
qed (simp add: result_rows_def results_of_def scopes_of_def bt_of_list_def)

lemma fold_claims:
  assumes "distinct (map (canonical_scope H) all)" "distinct (map (canonical_scope H) cs)" "set cs \<subseteq> set all"
  shows "fold_result (validate_claim_row H (results_of H all)) (claim_rows (map (ReplayRecord_from_command H) cs)) []
       = Inr (claims_of H cs)"
  using assms(2,3)
proof (induction cs rule: rev_induct)
  case (snoc c cs)
  have none: "map_of (claims_of H cs) (canonical_scope H c) = None"
    unfolding claims_of_def using snoc.prems by (auto intro!: map_of_tagged_None)
  have res: "map_of (results_of H all) (canonical_scope H c) = Some (command_digest H c, c)"
    unfolding results_of_def using assms(1) snoc.prems by (intro map_of_tagged_mem) auto
  have fp: "request_fingerprint H (cmd_device_id c) (original_request c) = command_fingerprint H c"
    by (simp add: command_fingerprint_def)
  show ?case
    using snoc none res
    by (simp add: claim_rows_def fold_result_append validate_claim_row_def Let_def display_digest fp
        claims_of_def bt_of_list_snoc)
qed (simp add: claim_rows_def claims_of_def bt_of_list_def)

section \<open>Pending commands\<close>

definition positions :: "DeviceCommand list \<Rightarrow> (u32, DeviceCommand) btree" where
  "positions q = map (\<lambda>(i, c). (of_nat i, c)) (enumerate 0 q)"

definition with_queue :: "positions_tree \<Rightarrow> string \<Rightarrow> DeviceCommand list \<Rightarrow> positions_tree" where
  "with_queue acc d q = (if q = [] then acc else acc @ [(d, positions q)])"

lemma positions_simps [simp]:
  "positions [] = []" "positions (q @ [c]) = positions q @ [(of_nat (length q), c)]" "length (positions q) = length q"
  by (simp_all add: positions_def enumerate_append_eq)

lemma of_nat_u32_less: "i < j \<Longrightarrow> j < 2 ^ 32 \<Longrightarrow> (of_nat i :: u32) < of_nat j"
  by (simp add: word_less_nat_alt unsigned_of_nat take_bit_nat_eq_self)

lemma positions_ok: "length q \<le> 50 \<Longrightarrow> bt_ok (positions q)"
proof (induction q rule: rev_induct)
  case (snoc c q)
  have "(of_nat i :: u32) < of_nat (length q)" if "i < length q" for i
    using that snoc.prems by (intro of_nat_u32_less) simp_all
  then show ?case using snoc
    by (auto simp: bt_ok_def sorted_wrt_append positions_def enumerate_eq_zip set_zip)
qed simp

lemma position_free: "length q < 50 \<Longrightarrow> map_of (positions q) (of_nat (length q)) = None"
  using positions_ok [of "q @ [undefined]"] map_of_before [of "positions q" "of_nat (length q)" undefined "[]"] by simp

lemma position_append: "length q < 50 \<Longrightarrow> bt_insert (of_nat (length q)) c (positions q) = positions (q @ [c])"
  using positions_ok [of "q @ [c]"] bt_insert_last [of "positions q" "of_nat (length q)" c] by simp

lemma bt_insert_replace_last: "bt_ok (m @ [(k, w)]) \<Longrightarrow> bt_insert k v (m @ [(k, w)]) = m @ [(k, v)]"
proof (induction m)
  case (Cons e m)
  obtain k' v' where e: "e = (k', v')" by force
  have "k' < k" "bt_ok (m @ [(k, w)])" using Cons.prems e by (auto simp: bt_ok_def)
  then show ?case using Cons.IH e by auto
qed simp

lemma with_queue_insert:
  assumes "bt_ok (acc @ [(d, x)])"
  shows "bt_insert d (positions (q @ [c])) (with_queue acc d q) = with_queue acc d (q @ [c])"
    "map_of (with_queue acc d q) d = (if q = [] then None else Some (positions q))"
proof -
  have ok: "bt_ok (acc @ [(d, y)])" for y using assms by (simp add: bt_ok_def)
  show "bt_insert d (positions (q @ [c])) (with_queue acc d q) = with_queue acc d (q @ [c])"
    using bt_insert_last [OF ok] bt_insert_replace_last [OF ok] by (simp add: with_queue_def)
  show "map_of (with_queue acc d q) d = (if q = [] then None else Some (positions q))"
    using map_of_before [of acc d x "[]"] assms by (simp add: with_queue_def map_add_def)
qed

definition queue_wf :: "DeviceCommand list \<Rightarrow> string \<times> DeviceCommand list \<Rightarrow> bool" where
  "queue_wf cs e = (case e of (d, q) \<Rightarrow> d \<noteq> [] \<and> q \<noteq> [] \<and> length q \<le> 50
     \<and> (\<forall>c\<in>set q. cmd_device_id c = d \<and> c \<in> set cs))"

abbreviation id_text :: "Codec \<Rightarrow> DeviceCommand \<Rightarrow> string" where
  "id_text T c \<equiv> cid_text T (cmd_command_id c)"

lemma pending_step:
  assumes wf: "replay_wf H T cs" and c: "c \<in> set cs" "cmd_device_id c = d" "d \<noteq> []"
    and new: "id_text T c \<notin> set ids" and len: "length q < 50" and ok: "bt_ok (acc @ [(d, x)])"
  shows "validate_pending_row T (results_of H cs) (scopes_of H T cs)
      \<lparr>pending_command_id = cmd_command_id c, pending_device_id = d, pending_queue_position = of_nat (length q),
       pending_command = c\<rparr> (ids, with_queue acc d q)
    = Inr (id_text T c # ids, with_queue acc d (q @ [c]))"
proof -
  have D: "distinct (map (canonical_scope H) cs)" "distinct (map (id_text T) cs)" using wf by (simp_all add: replay_wf_def)
  have r: "map_of (scopes_of H T cs) (id_text T c) = Some (canonical_scope H c)"
    "map_of (results_of H cs) (canonical_scope H c) = Some (command_digest H c, c)"
    unfolding scopes_of_def results_of_def using c D by (auto intro: map_of_tagged_mem)
  have p: "(case map_of (with_queue acc d q) d of None \<Rightarrow> [] | Some p \<Rightarrow> p) = positions q"
    using with_queue_insert(2) [OF ok] by simp
  show ?thesis
    using r c new len p position_free [OF len] position_append [OF len, of c] with_queue_insert(1) [OF ok, of q c]
    by (simp add: validate_pending_row_def Let_def MAX_COMMAND_QUEUE_PER_DEVICE_def del: positions_simps(2))
qed

lemma fold_queue:
  assumes wf: "replay_wf H T cs" and q: "\<forall>c\<in>set q. cmd_device_id c = d \<and> c \<in> set cs" "d \<noteq> []" "length q \<le> 50"
    and new: "distinct (map (id_text T) q)" "set (map (id_text T) q) \<inter> set ids = {}" and ok: "bt_ok (acc @ [(d, x)])"
  shows "fold_result (validate_pending_row T (results_of H cs) (scopes_of H T cs)) (queue_rows (d, q)) (ids, acc)
    = Inr (rev (map (id_text T) q) @ ids, with_queue acc d q)"
  using q new
proof (induction q rule: rev_induct)
  case (snoc c q)
  have "fold_result (validate_pending_row T (results_of H cs) (scopes_of H T cs)) (queue_rows (d, q)) (ids, acc)
    = Inr (rev (map (id_text T) q) @ ids, with_queue acc d q)" using snoc by simp
  moreover have "queue_rows (d, q @ [c]) = queue_rows (d, q) @
      [\<lparr>pending_command_id = cmd_command_id c, pending_device_id = d, pending_queue_position = of_nat (length q),
        pending_command = c\<rparr>]"
    by (simp add: queue_rows_def enumerate_append_eq)
  moreover have "id_text T c \<notin> set (rev (map (id_text T) q) @ ids)" "c \<in> set cs" "cmd_device_id c = d" "length q < 50"
    using snoc.prems by auto
  ultimately show ?case
    using pending_step [OF wf _ _ snoc.prems(2) _ _ ok] by (simp add: fold_result_append)
qed (simp add: queue_rows_def with_queue_def)

lemma fold_pending:
  assumes wf: "replay_wf H T cs" and "\<forall>e\<in>set qs. queue_wf cs e" "bt_ok qs"
    and "distinct (map (id_text T) (concat (map snd qs)))"
  shows "\<exists>ids. fold_result (validate_pending_row T (results_of H cs) (scopes_of H T cs)) (pending_rows qs) ([], [])
      = Inr (ids, map (\<lambda>(d, q). (d, positions q)) qs) \<and> set ids = id_text T ` set (concat (map snd qs))"
  using assms(2-)
proof (induction qs rule: rev_induct)
  case (snoc e qs)
  obtain d q where e: "e = (d, q)" by force
  let ?acc = "map (\<lambda>(d, q). (d, positions q)) qs"
  have "bt_ok qs" using snoc.prems(2) by (simp add: bt_ok_def sorted_wrt_append)
  with snoc obtain ids where ids: "fold_result (validate_pending_row T (results_of H cs) (scopes_of H T cs)) (pending_rows qs) ([], [])
      = Inr (ids, ?acc)" "set ids = id_text T ` set (concat (map snd qs))" by auto
  have w: "\<forall>c\<in>set q. cmd_device_id c = d \<and> c \<in> set cs" "d \<noteq> []" "length q \<le> 50" "q \<noteq> []"
    using snoc.prems(1) e by (auto simp: queue_wf_def)
  have ok: "bt_ok (?acc @ [(d, positions q)])"
  proof -
    have "map fst (?acc @ [(d, positions q)]) = map fst (qs @ [(d, q)])" by (simp add: comp_def split_beta)
    then show ?thesis using snoc.prems(2) e unfolding bt_ok_def by metis
  qed
  have new: "distinct (map (id_text T) q)" "set (map (id_text T) q) \<inter> set ids = {}"
    using snoc.prems(3) e ids(2) by auto
  show ?case
    using ids fold_queue [OF wf w(1-3) new ok] w(4) e
    by (auto simp: pending_rows_def fold_result_append with_queue_def)
qed (simp add: pending_rows_def)

lemma contiguous_positions:
  assumes "n + length q \<le> 2 ^ 32"
  shows "contiguous_queue n (map (\<lambda>(i, c). (of_nat i, c)) (enumerate n q)) = Inr q"
  using assms
proof (induction q arbitrary: n)
  case (Cons c q)
  then have "unat (of_nat n :: u32) = n" by (simp add: unsigned_of_nat take_bit_nat_eq_self)
  then show ?case using Cons by simp
qed simp

lemma fold_add_queue:
  assumes "bt_ok (acc @ qs)" "\<forall>(d, q)\<in>set qs. length q \<le> 50"
  shows "fold_result add_queue (map (\<lambda>(d, q). (d, positions q)) qs) acc = Inr (acc @ qs)"
  using assms
proof (induction qs arbitrary: acc)
  case (Cons e qs)
  obtain d q where e: "e = (d, q)" by force
  have "contiguous_queue 0 (positions q) = Inr q"
    using contiguous_positions [of 0 q] Cons.prems(2) e by (simp add: positions_def)
  then have "add_queue (d, positions q) acc = Inr (acc @ [e])"
    using bt_insert_last [OF bt_ok_prefix, of acc d q qs] Cons.prems(1) e by (simp add: add_queue_def)
  then show ?case using Cons.IH [of "acc @ [e]"] Cons.prems e by simp
qed simp

section \<open>Whole snapshots\<close>

definition snapshot_wf :: "Hashing \<Rightarrow> Codec \<Rightarrow> device_tree \<Rightarrow> queue_tree \<Rightarrow> DeviceCommand list \<Rightarrow> bool" where
  "snapshot_wf H T ds qs cs =
     (devices_wf ds \<and> replay_wf H T cs \<and> bt_ok qs \<and> (\<forall>e\<in>set qs. queue_wf cs e)
      \<and> distinct (map (id_text T) (concat (map snd qs))) \<and> length (concat (map snd qs)) \<le> MAX_PENDING_COMMANDS)"

definition scope_sorted :: "Hashing \<Rightarrow> DeviceCommand list \<Rightarrow> DeviceCommand list" where
  "scope_sorted H cs = map snd (bt_of_list (map (\<lambda>c. (canonical_scope H c, c)) cs))"

definition snapshot_of :: "Hashing \<Rightarrow> device_tree \<Rightarrow> queue_tree \<Rightarrow> DeviceCommand list \<Rightarrow> ControlPlaneSnapshot" where
  "snapshot_of H ds qs cs =
     \<lparr>snap_devices = ds, snap_queues = qs, snap_replay_records = map (ReplayRecord_from_command H) (scope_sorted H cs)\<rparr>"

lemma bt_map_values: "map (\<lambda>(k, v). (k, f v)) (bt_insert k v m) = bt_insert k (f v) (map (\<lambda>(k, v). (k, f v)) m)"
  by (induction k v m rule: bt_insert.induct) auto

lemma bt_of_list_map: "bt_of_list (map (\<lambda>c. (s c, f (g c))) cs) = map (\<lambda>(k, v). (k, f v)) (bt_of_list (map (\<lambda>c. (s c, g c)) cs))"
proof (induction cs rule: rev_induct)
  case (snoc c cs)
  then show ?case by (simp add: bt_of_list_snoc bt_map_values)
qed (simp add: bt_of_list_def)

lemma results_of_sorted: "map (snd \<circ> snd) (results_of H cs) = scope_sorted H cs"
  using bt_of_list_map [of "canonical_scope H" "\<lambda>c. (command_digest H c, c)" "\<lambda>c. c" cs]
  by (simp add: results_of_def scope_sorted_def comp_def split_beta)

lemma scope_sorted_mset:
  assumes "distinct (map (canonical_scope H) cs)"
  shows "set (scope_sorted H cs) = set cs" "length (scope_sorted H cs) = length cs"
    "sorted_wrt (<) (map (canonical_scope H) (scope_sorted H cs))"
proof -
  let ?xs = "map (\<lambda>c. (canonical_scope H c, c)) cs"
  have d: "distinct (map fst ?xs)" using assms by (simp add: comp_def)
  show "set (scope_sorted H cs) = set cs"
    using set_bt_of_list [OF d] by (auto simp: scope_sorted_def image_image)
  show "length (scope_sorted H cs) = length cs"
    using bt_of_list_length [OF d] by (simp add: scope_sorted_def)
  have "map (canonical_scope H) (scope_sorted H cs) = map fst (bt_of_list ?xs)"
    using set_bt_of_list [OF d] by (auto simp: scope_sorted_def)
  then show "sorted_wrt (<) (map (canonical_scope H) (scope_sorted H cs))"
    using bt_of_list_ok [of ?xs] by (simp add: bt_ok_def)
qed

lemma scope_sorted_id:
  assumes "sorted_wrt (<) (map (canonical_scope H) cs)"
  shows "scope_sorted H cs = cs"
proof -
  have "bt_ok (map (\<lambda>c. (canonical_scope H c, c)) cs)" using assms by (simp add: bt_ok_def comp_def)
  then show ?thesis by (simp add: scope_sorted_def bt_of_list_id comp_def)
qed

lemma snapshot_accepted:
  assumes wf: "snapshot_wf H T ds qs cs"
  shows "validate_rows H T
      \<lparr>rows_devices = device_rows ds, rows_command_results = result_rows (map (ReplayRecord_from_command H) cs),
       rows_idempotency_claims = claim_rows (map (ReplayRecord_from_command H) cs), rows_pending_commands = pending_rows qs\<rparr>
     = Inr (snapshot_of H ds qs cs)"
proof -
  have W: "devices_wf ds" "replay_wf H T cs" "bt_ok qs" "\<forall>e\<in>set qs. queue_wf cs e"
    "distinct (map (id_text T) (concat (map snd qs)))" "length (concat (map snd qs)) \<le> MAX_PENDING_COMMANDS"
    using wf by (simp_all add: snapshot_wf_def)
  then have R: "distinct (map (canonical_scope H) cs)" "distinct (map (id_text T) cs)" "\<forall>c\<in>set cs. cmd_device_id c \<noteq> []"
    "length cs \<le> MAX_IDEMPOTENCY_RESULTS" by (simp_all add: replay_wf_def)
  have dev: "fold_result validate_device_row (device_rows ds) [] = Inr ds" "length ds \<le> MAX_REGISTERED_DEVICES"
    using fold_devices [of "[]" ds] W(1) by (simp_all add: devices_wf_def)
  have claims: "map_of (claims_of H cs) (canonical_scope H c) = Some (cmd_command_id c, command_fingerprint H c)"
    if "c \<in> set cs" for c
    unfolding claims_of_def using R(1) that by (rule map_of_tagged_mem)
  have res: "set (results_of H cs) = (\<lambda>c. (canonical_scope H c, command_digest H c, c)) ` set cs"
    using set_bt_of_list [of "map (\<lambda>c. (canonical_scope H c, command_digest H c, c)) cs"] R(1)
    by (simp add: results_of_def comp_def)
  have all: "\<not> list_ex (\<lambda>(scope, _). map_of (claims_of H cs) scope = None) (results_of H cs)"
    using res claims by (auto simp: list_ex_iff)
  have "collect_replay (claims_of H cs) (results_of H cs) = map (ReplayRecord_from_command H) (map (snd \<circ> snd) (results_of H cs))"
    unfolding collect_replay_def map_map
  proof (rule map_cong [OF refl])
    fix x assume "x \<in> set (results_of H cs)"
    then obtain c where "c \<in> set cs" "x = (canonical_scope H c, command_digest H c, c)" using res by auto
    then show "(case x of (scope, scope_key, command) \<Rightarrow> \<lparr>replay_scope_key = scope_key,
        replay_request_fingerprint = (case map_of (claims_of H cs) scope of None \<Rightarrow> 0 | Some (xa, f) \<Rightarrow> f),
        replay_command = command\<rparr>) = (ReplayRecord_from_command H \<circ> (snd \<circ> snd)) x"
      using claims by (simp add: ReplayRecord_from_command_def command_digest_def command_fingerprint_def)
  qed
  then have replay: "collect_replay (claims_of H cs) (results_of H cs) = map (ReplayRecord_from_command H) (scope_sorted H cs)"
    by (simp add: results_of_sorted)
  from fold_pending [OF W(2,4,3,5)] obtain ids where
    pend: "fold_result (validate_pending_row T (results_of H cs) (scopes_of H T cs)) (pending_rows qs) ([], [])
      = Inr (ids, map (\<lambda>(d, q). (d, positions q)) qs)" by blast
  have plen: "length (pending_rows qs) = length (concat (map snd qs))"
    by (simp add: pending_rows_def queue_rows_def length_concat comp_def split_beta)
  have queue: "fold_result add_queue (map (\<lambda>(d, q). (d, positions q)) qs) [] = Inr qs"
    using fold_add_queue [of "[]" qs] W(3,4) by (auto simp: queue_wf_def)
  have "length (result_rows (map (ReplayRecord_from_command H) cs)) = length cs"
    "length (claim_rows (map (ReplayRecord_from_command H) cs)) = length cs" "length (device_rows ds) = length ds"
    by (simp_all add: result_rows_def claim_rows_def device_rows_def)
  then show ?thesis
    using dev fold_results [OF R(1-3)] fold_claims [OF R(1) R(1)] all pend queue plen W(6) R(4) replay
    by (simp add: validate_rows_def snapshot_of_def)
qed

section \<open>States that can be stored\<close>

definition stored_named :: "StoredState \<Rightarrow> bool" where
  "stored_named st = (list_all (\<lambda>(k, _). k \<noteq> []) (stored_devices st)
     \<and> list_all (\<lambda>(_, c). cmd_device_id c \<noteq> []) (idempotency_results (stored_commands st)))"

definition stored_ok :: "Hashing \<Rightarrow> StoredState \<Rightarrow> bool" where
  "stored_ok H st = (command_inv H (stored_commands st) \<and> device_inv (stored_devices st) \<and> stored_named st)"

definition retained :: "CommandState \<Rightarrow> DeviceCommand list" where
  "retained cs = map (\<lambda>k. the (map_of (idempotency_results cs) k)) (idempotency_order cs)"

lemma legacy_inject:
  assumes "replay_inv H n cs" "(k, c) \<in> set (idempotency_results cs)" "(k', c') \<in> set (idempotency_results cs)"
    "legacy_scope_for_command c = legacy_scope_for_command c'"
  shows "k = k' \<and> c = c'"
proof -
  note D = replay_invD [OF assms(1)]
  have m: "map_of (idempotency_results cs) k = Some c" "map_of (idempotency_results cs) k' = Some c'"
    using assms(2,3) D(2) by (auto intro: in_results)
  have "cmd_command_id c = cmd_command_id c'" using D(5) [OF m(1)] D(5) [OF m(2)] assms(4) by simp
  from D(7) [OF m this] D(3) [OF m(1)] D(3) [OF m(2)] show ?thesis by simp
qed

lemma update_absent: "k \<notin> fst ` set xs \<Longrightarrow> AList.update k v xs = xs @ [(k, v)]"
  by (induction xs) auto

lemma fold_legacy_claims:
  assumes "\<forall>(k, c)\<in>set xs. k = canonical_scope H c" "distinct (map (\<lambda>(k, c). legacy_scope_for_command c) xs)"
  shows "fold_result (legacy_claims H) xs [] = Inr (map (\<lambda>(k, c). (legacy_scope_for_command c, cmd_command_id c)) xs)"
  using assms
proof (induction xs rule: rev_induct)
  case (snoc e xs)
  obtain k c where e: "e = (k, c)" by force
  let ?ys = "map (\<lambda>(k, c). (legacy_scope_for_command c, cmd_command_id c)) xs"
  have "legacy_scope_for_command c \<notin> fst ` set ?ys" using snoc.prems(2) e by (force simp: image_iff)
  moreover then have "map_of ?ys (legacy_scope_for_command c) = None" by (simp add: map_of_eq_None_iff)
  ultimately show ?case using snoc e by (simp add: fold_result_append legacy_claims_def update_absent)
qed simp

lemma same_map_iff:
  assumes "distinct (map fst xs)" "distinct (map fst ys)" "set xs = set ys"
  shows "same_map xs ys"
proof -
  have "length xs = card (set xs)" "length ys = card (set ys)"
    using assms(1,2) by (metis distinct_card distinct_map)+
  then show ?thesis using assms by (auto simp: same_map_def list_all_iff map_of_eq_Some_iff)
qed

lemma legacy_claims_valid:
  assumes "replay_inv H n cs"
  shows "validate_legacy_claims H cs = Inr ()"
proof -
  let ?rs = "idempotency_results cs"
  let ?ys = "map (\<lambda>(k, c). (legacy_scope_for_command c, cmd_command_id c)) ?rs"
  note D = replay_invD [OF assms]
  have m: "map_of ?rs k = Some c" if "(k, c) \<in> set ?rs" for k c using in_results [OF D(2) that] .
  have dist: "distinct (map (\<lambda>(k, c). legacy_scope_for_command c) ?rs)"
  proof -
    have "inj_on (\<lambda>(k, c). legacy_scope_for_command c) (set ?rs)"
      using legacy_inject [OF assms] by (intro inj_onI) (auto split: prod.splits)
    moreover have "distinct ?rs" using D(2) by (simp add: distinct_map)
    ultimately show ?thesis by (simp add: distinct_map)
  qed
  have fold: "fold_result (legacy_claims H) ?rs [] = Inr ?ys"
    using D(3) m dist by (intro fold_legacy_claims) auto
  have keys: "map fst ?ys = map (\<lambda>(k, c). legacy_scope_for_command c) ?rs" by (simp add: comp_def split_beta)
  have sub: "set ?ys \<subseteq> set (idempotency cs)"
  proof
    fix x assume "x \<in> set ?ys"
    then obtain k c where "(k, c) \<in> set ?rs" "x = (legacy_scope_for_command c, cmd_command_id c)" by auto
    with D(5) [OF m] show "x \<in> set (idempotency cs)" by (simp add: map_of_SomeD)
  qed
  have sup: "set (idempotency cs) \<subseteq> set ?ys"
  proof
    fix x assume x: "x \<in> set (idempotency cs)"
    obtain l i where li: "x = (l, i)" by force
    then have "map_of (idempotency cs) l = Some i" using x D(1) by (simp add: map_of_eq_Some_iff)
    from D(6) [OF this] obtain k c where "map_of ?rs k = Some c" "l = legacy_scope_for_command c" "i = cmd_command_id c"
      by blast
    then show "x \<in> set ?ys" using li by (force dest: map_of_SomeD)
  qed
  have "distinct (map fst ?ys)" unfolding keys by (rule dist)
  then have "same_map (idempotency cs) ?ys"
    using D(1) sub sup by (intro same_map_iff equalityI)
  with fold show ?thesis by (simp add: validate_legacy_claims_def)
qed

lemma fold_ordered:
  assumes "distinct order" "\<forall>k\<in>set order. \<exists>c. map_of (idempotency_results cs) k = Some c \<and> canonical_scope H c = k"
  shows "fold_result (collect_ordered H cs) order ([], [])
    = Inr (rev order, map (\<lambda>k. ReplayRecord_from_command H (the (map_of (idempotency_results cs) k))) order)"
  using assms
proof (induction order rule: rev_induct)
  case (snoc k order)
  then obtain c where "map_of (idempotency_results cs) k = Some c" "canonical_scope H c = k" by auto
  with snoc show ?case by (simp add: fold_result_append collect_ordered_def)
qed simp

lemma retained_facts:
  assumes "replay_inv H n cs"
  shows "map (canonical_scope H) (retained cs) = idempotency_order cs"
    and "c \<in> set (retained cs) \<longleftrightarrow> map_of (idempotency_results cs) (canonical_scope H c) = Some c"
    and "distinct (map cmd_command_id (retained cs))"
    and "length (idempotency_order cs) = length (idempotency_results cs)"
proof -
  note D = replay_invD [OF assms]
  have get: "\<exists>c. map_of (idempotency_results cs) k = Some c \<and> canonical_scope H c = k" if "k \<in> set (idempotency_order cs)" for k
    using that D(3,9) by (metis domD dom_map_of_conv_image_fst)
  show scopes: "map (canonical_scope H) (retained cs) = idempotency_order cs"
    unfolding retained_def map_map by (rule map_idI) (use get in force)
  show mem: "c \<in> set (retained cs) \<longleftrightarrow> map_of (idempotency_results cs) (canonical_scope H c) = Some c" for c
  proof
    assume "c \<in> set (retained cs)"
    then obtain k where "k \<in> set (idempotency_order cs)" "c = the (map_of (idempotency_results cs) k)"
      by (auto simp: retained_def)
    with get show "map_of (idempotency_results cs) (canonical_scope H c) = Some c" by fastforce
  next
    assume c: "map_of (idempotency_results cs) (canonical_scope H c) = Some c"
    then have "canonical_scope H c \<in> set (idempotency_order cs)" using D(9) by (force dest: map_of_SomeD)
    with c show "c \<in> set (retained cs)" by (force simp: retained_def)
  qed
  have "inj_on cmd_command_id (set (retained cs))" using mem D(7) by (intro inj_onI) blast
  moreover have "distinct (retained cs)" using scopes D(8) by (metis distinct_map)
  ultimately show "distinct (map cmd_command_id (retained cs))" by (simp add: distinct_map)
  show "length (idempotency_order cs) = length (idempotency_results cs)"
    using distinct_card [OF D(2)] distinct_card [OF D(8)] D(9) by simp
qed

lemma stored_parts_wf:
  assumes ok: "stored_ok H st" and uniq: "inj (cid_text T)"
  shows "snapshot_wf H T (bt_of_list (stored_devices st)) (bt_of_list (queues (stored_commands st)))
           (retained (stored_commands st))"
proof -
  let ?cs = "stored_commands st" and ?ds = "stored_devices st"
  have inv: "queue_inv ?cs" "replay_inv H MAX_IDEMPOTENCY_RESULTS ?cs" and dev: "device_inv ?ds" and named: "stored_named st"
    using ok by (simp_all add: stored_ok_def command_inv_def)
  note Q = queue_invD [OF inv(1)] and R = replay_invD [OF inv(2)] and F = retained_facts [OF inv(2)]
  have dd: "distinct (map fst ?ds)" "\<forall>k d. map_of ?ds k = Some d \<longrightarrow> dev_node_id d = k" "length ?ds \<le> MAX_REGISTERED_DEVICES"
    using dev by (simp_all add: device_inv_def)
  have devices: "devices_wf (bt_of_list ?ds)"
    using dd set_bt_of_list [OF dd(1)] bt_of_list_length [OF dd(1)] named
    by (auto simp: devices_wf_def stored_named_def list_all_iff map_of_eq_Some_iff)
  have nonempty: "cmd_device_id c \<noteq> []" if "c \<in> set (retained ?cs)" for c
    using that named F(2) [of c] map_of_SomeD [of "idempotency_results ?cs" "canonical_scope H c" c]
    by (auto simp: stored_named_def list_all_iff)
  have ids: "distinct (map (id_text T) xs)" if "distinct (map cmd_command_id xs)" for xs
  proof -
    have "map (id_text T) xs = map (cid_text T) (map cmd_command_id xs)" by simp
    then show ?thesis using that uniq by (metis distinct_map inj_on_subset subset_UNIV)
  qed
  have replay: "replay_wf H T (retained ?cs)"
    using F(1) R(8,10) ids [OF F(3)] nonempty by (simp add: replay_wf_def) (simp add: retained_def)
  have qset: "set (bt_of_list (queues ?cs)) = set (queues ?cs)" using Q(1) by (rule set_bt_of_list)
  have perm: "mset (bt_of_list (queues ?cs)) = mset (queues ?cs)"
    using qset bt_ok_distinct [OF bt_of_list_ok [of "queues ?cs"]] Q(1) by (intro set_eq_iff_mset_eq_distinct [THEN iffD1]) (simp_all add: distinct_map)
  have queued: "mset (concat (map snd (bt_of_list (queues ?cs)))) = mset (queued_commands ?cs)"
    using arg_cong [OF perm, of "\<lambda>M. \<Sum>\<^sub># (image_mset (mset \<circ> snd) M)"]
    by (simp add: queued_commands_def mset_concat sum_mset_sum_list flip: mset_map)
  have wf: "queue_wf (retained ?cs) e" if "e \<in> set (bt_of_list (queues ?cs))" for e
  proof -
    obtain d q where e: "e = (d, q)" by force
    have m: "map_of (queues ?cs) d = Some q" using that qset Q(1) e by (simp add: map_of_eq_Some_iff)
    have c: "cmd_device_id c = d \<and> c \<in> set (retained ?cs)" if "c \<in> set q" for c
    proof
      show "cmd_device_id c = d" by (rule Q(4) [OF m that])
      have "c \<in> set (queued_commands ?cs)" using map_of_SomeD [OF m] that by (force simp: queued_commands_def)
      then show "c \<in> set (retained ?cs)" using F(2) R(11) by blast
    qed
    moreover have "q \<noteq> []" "length q \<le> 50" using Q(2,3) [OF m] by (simp_all add: MAX_COMMAND_QUEUE_PER_DEVICE_def)
    moreover have "d \<noteq> []" using c nonempty \<open>q \<noteq> []\<close> by (metis hd_in_set)
    ultimately show ?thesis by (simp add: queue_wf_def e)
  qed
  show ?thesis
    using devices replay wf ids [of "concat (map snd (bt_of_list (queues ?cs)))"] distinct_ids_mset [OF queued, of cmd_command_id]
      Q(5,6) arg_cong [OF queued, of size]
    by (simp add: snapshot_wf_def)
qed

lemma ordered_replays:
  assumes inv: "replay_inv H n cs"
  shows "fold_result (collect_ordered H cs) (idempotency_order cs) ([], [])
      = Inr (rev (idempotency_order cs), map (ReplayRecord_from_command H) (retained cs))"
proof -
  note R = replay_invD [OF inv]
  have get: "\<forall>k\<in>set (idempotency_order cs). \<exists>c. map_of (idempotency_results cs) k = Some c \<and> canonical_scope H c = k"
    using R(3,9) by (metis domD dom_map_of_conv_image_fst)
  show ?thesis using fold_ordered [OF R(8) get] by (simp add: retained_def comp_def)
qed

text \<open>A well-formed state is representable, and this is the snapshot taken of it.\<close>

lemma snapshot_taken:
  assumes ok: "stored_ok H st" and uniq: "inj (cid_text T)"
  shows "snapshot_from_stored H T st = Inr (snapshot_of H (bt_of_list (stored_devices st))
      (bt_of_list (queues (stored_commands st))) (retained (stored_commands st)))"
proof -
  let ?cs = "stored_commands st"
  have inv: "replay_inv H MAX_IDEMPOTENCY_RESULTS ?cs" using ok by (simp add: stored_ok_def command_inv_def)
  note R = replay_invD [OF inv] and F = retained_facts [OF inv]
  note order = ordered_replays [OF inv]
  note wf = stored_parts_wf [OF ok uniq]
  have "\<not> list_ex (\<lambda>(_, queue). length queue > 2 ^ 32) (bt_of_list (queues ?cs))"
    using wf by (fastforce simp: snapshot_wf_def queue_wf_def list_ex_iff)
  then have "snapshot_from_parts H T (bt_of_list (stored_devices st)) (bt_of_list (queues ?cs))
      (map (ReplayRecord_from_command H) (retained ?cs))
    = Inr (snapshot_of H (bt_of_list (stored_devices st)) (bt_of_list (queues ?cs)) (retained ?cs))"
    using snapshot_accepted [OF wf] by (simp add: snapshot_from_parts_def)
  then show ?thesis
    using legacy_claims_valid [OF inv] order F(4) by (simp add: snapshot_from_stored_def Let_def map_err_def)
qed

section \<open>Restoring a state\<close>

definition restored :: "Hashing \<Rightarrow> queue_tree \<Rightarrow> DeviceCommand list \<Rightarrow> CommandState" where
  "restored H qs cs =
     \<lparr>queues = qs, idempotency = map (\<lambda>c. (legacy_scope_for_command c, cmd_command_id c)) cs,
      idempotency_results = map (\<lambda>c. (canonical_scope H c, c)) cs,
      idempotency_order = map (canonical_scope H) cs\<rparr>"

lemma fold_restore:
  assumes "distinct (map (canonical_scope H) cs)" "distinct (map legacy_scope_for_command cs)"
  shows "fold_result (restore_replay H) (map (ReplayRecord_from_command H) cs) (CommandState_default\<lparr>queues := qs\<rparr>)
       = Inr (restored H qs cs)"
  using assms
proof (induction cs rule: rev_induct)
  case (snoc c cs)
  have a: "canonical_scope H c \<notin> fst ` set (map (\<lambda>c. (canonical_scope H c, c)) cs)"
    "legacy_scope_for_command c \<notin> fst ` set (map (\<lambda>c. (legacy_scope_for_command c, cmd_command_id c)) cs)"
    using snoc.prems by (auto simp: image_image)
  then have n: "map_of (map (\<lambda>c. (canonical_scope H c, c)) cs) (canonical_scope H c) = None"
    "map_of (map (\<lambda>c. (legacy_scope_for_command c, cmd_command_id c)) cs) (legacy_scope_for_command c) = None"
    unfolding map_of_eq_None_iff by simp_all
  show ?case
    using snoc a n
    by (simp add: fold_result_append restore_replay_def Let_def display_digest restored_def update_absent)
qed (simp add: restored_def CommandState_default_def)

lemma restored_claims_valid:
  assumes "distinct (map legacy_scope_for_command cs)"
  shows "validate_legacy_claims H (restored H qs cs) = Inr ()"
proof -
  have "fold_result (legacy_claims H) (map (\<lambda>c. (canonical_scope H c, c)) cs) []
      = Inr (map (\<lambda>c. (legacy_scope_for_command c, cmd_command_id c)) cs)"
    using fold_legacy_claims [of "map (\<lambda>c. (canonical_scope H c, c)) cs" H] assms by (auto simp: comp_def)
  moreover have "same_map (map (\<lambda>c. (legacy_scope_for_command c, cmd_command_id c)) cs)
      (map (\<lambda>c. (legacy_scope_for_command c, cmd_command_id c)) cs)"
    using assms by (intro same_map_iff) (simp_all add: comp_def)
  ultimately show ?thesis by (simp add: validate_legacy_claims_def restored_def)
qed

lemma snapshot_restored:
  assumes "distinct (map (canonical_scope H) cs)" "distinct (map legacy_scope_for_command cs)"
  shows "stored_from_snapshot H (snapshot_of H ds qs cs)
       = Inr \<lparr>stored_devices = ds, stored_commands = restored H qs (scope_sorted H cs)\<rparr>"
proof -
  note S = scope_sorted_mset [OF assms(1)]
  have d: "distinct (map (canonical_scope H) (scope_sorted H cs))" using S(3) by (simp add: strict_sorted_iff)
  have "inj_on legacy_scope_for_command (set (scope_sorted H cs))"
    using assms(2) S(1) by (simp add: distinct_map)
  then have "distinct (map legacy_scope_for_command (scope_sorted H cs))" using d by (simp add: distinct_map)
  with fold_restore [OF d this] restored_claims_valid [OF this] show ?thesis
    by (simp add: stored_from_snapshot_def snapshot_of_def)
qed

text \<open>Two states that agree up to the order of their maps and of retention.\<close>

definition same_stored :: "StoredState \<Rightarrow> StoredState \<Rightarrow> bool" where
  "same_stored st st' =
     (map_of (stored_devices st') = map_of (stored_devices st)
      \<and> map_of (queues (stored_commands st')) = map_of (queues (stored_commands st))
      \<and> map_of (idempotency (stored_commands st')) = map_of (idempotency (stored_commands st))
      \<and> map_of (idempotency_results (stored_commands st')) = map_of (idempotency_results (stored_commands st))
      \<and> set (idempotency_order (stored_commands st')) = set (idempotency_order (stored_commands st)))"

lemma same_map_perm:
  assumes "distinct (map fst xs)" "distinct (map fst ys)" "map_of xs = map_of ys"
  shows "mset xs = mset ys"
  using assms by (intro set_eq_iff_mset_eq_distinct [THEN iffD1]) (simp_all add: distinct_map map_of_inject_set)

lemma command_inv_perm:
  assumes inv: "command_inv H cs" and d: "distinct (map fst (queues cs'))" "distinct (map fst (idempotency cs'))"
      "distinct (map fst (idempotency_results cs'))" "distinct (idempotency_order cs')"
    and m: "map_of (queues cs') = map_of (queues cs)" "map_of (idempotency cs') = map_of (idempotency cs)"
      "map_of (idempotency_results cs') = map_of (idempotency_results cs)"
      "set (idempotency_order cs') = set (idempotency_order cs)"
  shows "command_inv H cs'"
proof -
  have qi: "queue_inv cs" and ri: "replay_inv H MAX_IDEMPOTENCY_RESULTS cs" using inv by (simp_all add: command_inv_def)
  note Q = queue_invD [OF qi] and R = replay_invD [OF ri]
  have perm: "mset (queues cs') = mset (queues cs)" by (rule same_map_perm [OF d(1) Q(1) m(1)])
  have queued: "mset (queued_commands cs') = mset (queued_commands cs)"
    using arg_cong [OF perm, of "\<lambda>M. \<Sum>\<^sub># (image_mset (mset \<circ> snd) M)"]
    by (simp add: queued_commands_def mset_concat sum_mset_sum_list flip: mset_map)
  have "queue_inv cs'"
    using qi d(1) m(1) distinct_ids_mset [OF queued, of cmd_command_id] arg_cong [OF queued, of size]
    unfolding queue_inv_def by simp
  moreover have keys: "fst ` set (idempotency_results cs') = fst ` set (idempotency_results cs)"
    using m(3) by (metis dom_map_of_conv_image_fst)
  have len: "length (idempotency_order cs') = length (idempotency_order cs)"
    using distinct_card [OF d(4)] distinct_card [OF R(8)] m(4) by simp
  have "replay_inv H MAX_IDEMPOTENCY_RESULTS cs'"
    using ri d(2-4) m(2-4) keys len mset_eq_setD [OF queued] unfolding replay_inv_def by simp
  ultimately show ?thesis by (simp add: command_inv_def)
qed

lemma restart:
  assumes ok: "stored_ok H st" and uniq: "inj (cid_text T)"
  obtains snap st' where "snapshot_from_stored H T st = Inr snap" "stored_from_snapshot H snap = Inr st'"
    "same_stored st st'" "idempotency_order (stored_commands st') = sort (idempotency_order (stored_commands st))"
    "stored_ok H st'"
proof -
  let ?cs = "stored_commands st" and ?sorted = "scope_sorted H (retained (stored_commands st))"
  let ?st = "\<lparr>stored_devices = bt_of_list (stored_devices st), stored_commands = restored H (bt_of_list (queues ?cs)) ?sorted\<rparr>"
  have inv: "command_inv H ?cs" and qi: "queue_inv ?cs" and ri: "replay_inv H MAX_IDEMPOTENCY_RESULTS ?cs"
    and dev: "device_inv (stored_devices st)" and named: "stored_named st"
    using ok by (simp_all add: stored_ok_def command_inv_def)
  note Q = queue_invD [OF qi] and R = replay_invD [OF ri] and F = retained_facts [OF ri]
  have sc: "distinct (map (canonical_scope H) (retained ?cs))" using F(1) R(8) by simp
  have mem: "c \<in> set (retained ?cs) \<longleftrightarrow> (canonical_scope H c, c) \<in> set (idempotency_results ?cs)" for c
    using F(2) [of c] R(2) by (simp add: map_of_eq_Some_iff)
  have "inj_on legacy_scope_for_command (set (retained ?cs))"
    using legacy_inject [OF ri] mem by (intro inj_onI) blast
  then have leg: "distinct (map legacy_scope_for_command (retained ?cs))" using sc by (simp add: distinct_map)
  note S = scope_sorted_mset [OF sc]
  have scs: "distinct (map (canonical_scope H) ?sorted)" using S(3) by (simp add: strict_sorted_iff)
  have legs: "distinct (map legacy_scope_for_command ?sorted)" using leg scs S(1) by (simp add: distinct_map)
  have res: "map_of (idempotency_results (restored H (bt_of_list (queues ?cs)) ?sorted)) = map_of (idempotency_results ?cs)"
  proof -
    have "set (map (\<lambda>c. (canonical_scope H c, c)) ?sorted) = set (idempotency_results ?cs)"
    proof (intro equalityI subsetI)
      fix x assume "x \<in> set (map (\<lambda>c. (canonical_scope H c, c)) ?sorted)"
      then show "x \<in> set (idempotency_results ?cs)" using mem S(1) by auto
    next
      fix x assume x: "x \<in> set (idempotency_results ?cs)"
      obtain k c where kc: "x = (k, c)" by force
      have k: "k = canonical_scope H c" using R(3) [OF in_results [OF R(2)]] x kc by simp
      then have "c \<in> set ?sorted" using mem x kc S(1) by simp
      then show "x \<in> set (map (\<lambda>c. (canonical_scope H c, c)) ?sorted)" using k kc by simp
    qed
    then show ?thesis using scs R(2) by (simp add: restored_def map_of_inject_set comp_def)
  qed
  have claims: "map_of (idempotency (restored H (bt_of_list (queues ?cs)) ?sorted)) = map_of (idempotency ?cs)"
  proof -
    have "set (map (\<lambda>c. (legacy_scope_for_command c, cmd_command_id c)) ?sorted) = set (idempotency ?cs)"
    proof (intro equalityI subsetI)
      fix x assume "x \<in> set (map (\<lambda>c. (legacy_scope_for_command c, cmd_command_id c)) ?sorted)"
      then obtain c where c: "map_of (idempotency_results ?cs) (canonical_scope H c) = Some c"
        "x = (legacy_scope_for_command c, cmd_command_id c)" using S(1) F(2) by auto
      then show "x \<in> set (idempotency ?cs)" using R(5) [OF c(1)] by (simp add: map_of_SomeD)
    next
      fix x assume x: "x \<in> set (idempotency ?cs)"
      obtain l i where li: "x = (l, i)" by force
      then have "map_of (idempotency ?cs) l = Some i" using x R(1) by (simp add: map_of_eq_Some_iff)
      from R(6) [OF this] obtain k c where c: "map_of (idempotency_results ?cs) k = Some c"
        "l = legacy_scope_for_command c" "i = cmd_command_id c" by blast
      then have "c \<in> set ?sorted" using F(2) [of c] S(1) R(3) [OF c(1)] by simp
      then show "x \<in> set (map (\<lambda>c. (legacy_scope_for_command c, cmd_command_id c)) ?sorted)" using c li by auto
    qed
    then show ?thesis using legs R(1) by (simp add: restored_def map_of_inject_set comp_def)
  qed
  have ord: "map (canonical_scope H) ?sorted = sort (idempotency_order ?cs)"
  proof (rule sorted_distinct_set_unique)
    show "sorted (map (canonical_scope H) ?sorted)" using S(3) by (simp add: strict_sorted_iff)
    show "set (map (canonical_scope H) ?sorted) = set (sort (idempotency_order ?cs))"
      using S(1) arg_cong [OF F(1), of set] by simp
  qed (use scs R(8) in simp_all)
  have dd: "distinct (map fst (stored_devices st))" using dev by (simp add: device_inv_def)
  have same: "same_stored st ?st"
    using res claims ord map_of_bt_of_list [OF dd] map_of_bt_of_list [OF Q(1)]
    by (simp add: same_stored_def restored_def flip: set_map)
  have "command_inv H (restored H (bt_of_list (queues ?cs)) ?sorted)"
  proof (rule command_inv_perm [OF inv _ _ _ _ _ claims res])
    show "distinct (map fst (queues (restored H (bt_of_list (queues ?cs)) ?sorted)))"
      by (simp add: restored_def bt_ok_distinct)
    show "map_of (queues (restored H (bt_of_list (queues ?cs)) ?sorted)) = map_of (queues ?cs)"
      using map_of_bt_of_list [OF Q(1)] by (simp add: restored_def)
    show "set (idempotency_order (restored H (bt_of_list (queues ?cs)) ?sorted)) = set (idempotency_order ?cs)"
      using ord by (simp add: restored_def flip: set_map)
  qed (use scs legs in \<open>simp_all add: restored_def comp_def\<close>)
  moreover have "device_inv (bt_of_list (stored_devices st))"
    using dev map_of_bt_of_list [OF dd] bt_of_list_length [OF dd] by (simp add: device_inv_def bt_ok_distinct)
  moreover have "stored_named ?st"
    using named set_bt_of_list [OF dd] mem S(1) by (auto simp: stored_named_def list_all_iff restored_def)
  ultimately have "stored_ok H ?st" by (simp add: stored_ok_def)
  then show ?thesis
    using that snapshot_taken [OF ok uniq] snapshot_restored [OF sc leg] same ord by (simp add: restored_def)
qed

end
