(* ===== verification/Snapshot_Store_Inv.thy ===== *)
theory Snapshot_Store_Inv
  imports Snapshot_Store Snapshot_Inv
begin

text \<open>
  The row changes of a commit: no constraint of the schema is ever violated
  between two well-formed states that agree on the commands they share, and the
  tables end up exactly at the candidate.
\<close>

declare map_of_eq_Some_iff [simp del] Some_eq_map_of_iff [simp del]

section \<open>Sections of row changes\<close>

lemma row_section_run:
  assumes "I [] t"
    and "\<And>seen r rest t. rows = seen @ r # rest \<Longrightarrow> I seen t \<Longrightarrow>
           (if changed r then \<exists>t'. stmt r t = Inr t' \<and> I (seen @ [r]) t' else I (seen @ [r]) t)"
  shows "\<exists>n t'. row_section changed stmt rows t = Inr (n, t') \<and> I rows t'"
proof -
  let ?f = "\<lambda>r (n, t). if changed r then and_then (stmt r t) (\<lambda>t'. Inr (Suc n, t')) else Inr (n, t)"
  have "\<exists>n' t'. fold_result ?f rest (n, t) = Inr (n', t') \<and> I rows t'" if "rows = seen @ rest" "I seen t" for seen rest n t
    using that
  proof (induction rest arbitrary: seen n t)
    case (Cons r rest)
    from assms(2) [OF Cons.prems] show ?case
      using Cons.IH [of "seen @ [r]"] Cons.prems by (cases "changed r") auto
  qed simp
  from this [of "[]" rows t 0] assms(1) show ?thesis by (simp add: row_section_def)
qed

lemma alist_delete_filter: "AList.delete k xs = filter (\<lambda>e. fst e \<noteq> k) xs"
  by (induction xs) auto

lemma bt_ok_filter: "bt_ok m \<Longrightarrow> bt_ok (filter P m)"
  by (induction m) (auto simp: bt_ok_def)

lemma bt_ok_memD: "bt_ok m \<Longrightarrow> (k, v) \<in> set m \<Longrightarrow> map_of m k = Some v"
  by (simp add: map_of_eq_Some_iff bt_ok_distinct)

lemma bt_ok_mem_iff: "bt_ok m \<Longrightarrow> map_of m k = Some v \<longleftrightarrow> (k, v) \<in> set m"
  by (simp add: map_of_eq_Some_iff bt_ok_distinct)

lemma bt_set_eqI: "bt_ok m \<Longrightarrow> bt_ok n \<Longrightarrow> set m = set n \<Longrightarrow> m = n"
  by (rule bt_eqI) (simp_all add: map_of_inject_set bt_ok_distinct)

lemma set_bt_insert_new:
  assumes "bt_ok m" "map_of m k = None"
  shows "set (bt_insert k v m) = insert (k, v) (set m)"
proof -
  have "(a, b) \<in> set (bt_insert k v m) \<longleftrightarrow> (a, b) \<in> insert (k, v) (set m)" for a b
    using bt_ok_mem_iff [OF bt_ok_insert [OF assms(1)], of k v a b] bt_ok_mem_iff [OF assms(1), of a b] assms(2)
    by (auto split: if_splits)
  then show ?thesis by auto
qed

text \<open>Deleting rows one by one keeps the rows that are not selected.\<close>

lemma delete_progress:
  assumes "bt_ok (seen @ r # rest)" "changed r"
  shows "AList.delete (fst r) (filter (\<lambda>e. \<not> (changed e \<and> e \<in> set seen)) (seen @ r # rest))
       = filter (\<lambda>e. \<not> (changed e \<and> e \<in> set (seen @ [r]))) (seen @ r # rest)"
proof -
  have "inj_on fst (set (seen @ r # rest))" using bt_ok_distinct [OF assms(1)] unfolding distinct_map by (rule conjunct2)
  then have "fst e = fst r \<longleftrightarrow> e = r" if "e \<in> set (seen @ r # rest)" for e
    using that by (rule inj_on_eq_iff) simp
  then show ?thesis
    using assms(2) unfolding alist_delete_filter filter_filter by (intro filter_cong) auto
qed

section \<open>Tables\<close>

text \<open>A table of the database: a component that can be read and replaced.\<close>

locale table =
  fixes get :: "RelationalState \<Rightarrow> ('k::linorder, 'v) btree"
    and put :: "('k, 'v) btree \<Rightarrow> RelationalState \<Rightarrow> RelationalState"
  assumes get_put: "get (put x t) = x"
    and put_put: "put x (put y t) = put x t"
    and put_get: "put (get t) t = t"
begin

lemma section_delete:
  assumes ok: "bt_ok (get t)"
    and stmt: "\<And>k v x. (k, v) \<in> set (get t) \<Longrightarrow> changed (k, v) \<Longrightarrow> map_of x k = Some v \<Longrightarrow>
      stmt (k, v) (put x t) = Inr (put (AList.delete k x) t)"
  shows "\<exists>n. row_section changed stmt (get t) t = Inr (n, put (filter (\<lambda>e. \<not> changed e) (get t)) t)"
proof -
  let ?keep = "\<lambda>seen. filter (\<lambda>e. \<not> (changed e \<and> e \<in> set seen)) (get t)"
  have "\<exists>n t'. row_section changed stmt (get t) t = Inr (n, t') \<and> t' = put (?keep (get t)) t"
  proof (rule row_section_run [where I = "\<lambda>seen u. u = put (?keep seen) t"])
    show "t = put (?keep []) t" by (simp add: put_get)
    fix seen r rest u assume r: "get t = seen @ r # rest" and u: "u = put (?keep seen) t"
    obtain k v where kv: "r = (k, v)" by force
    have new: "r \<notin> set seen" using bt_ok_distinct [OF ok] r by (auto simp: distinct_map)
    have mem: "map_of (?keep seen) k = Some v"
      using bt_ok_memD [OF bt_ok_filter [OF ok], of k v "\<lambda>e. \<not> (changed e \<and> e \<in> set seen)"] new r kv by simp
    have step: "AList.delete k (?keep seen) = ?keep (seen @ [r])" if "changed r"
      using delete_progress [of seen r rest changed] ok r kv that by simp
    have skip: "?keep (seen @ [r]) = ?keep seen" if "\<not> changed r"
      using that by (intro filter_cong) auto
    show "if changed r then \<exists>t'. stmt r u = Inr t' \<and> t' = put (?keep (seen @ [r])) t else u = put (?keep (seen @ [r])) t"
      using stmt [OF _ _ mem] step skip r u kv by auto
  qed
  moreover have "?keep (get t) = filter (\<lambda>e. \<not> changed e) (get t)" by (rule filter_cong) auto
  ultimately show ?thesis by auto
qed

lemma section_insert:
  assumes ok: "bt_ok (get t)" "bt_ok rows" "set (get t) \<subseteq> set rows"
    and changed: "\<And>e. e \<in> set rows \<Longrightarrow> changed e \<longleftrightarrow> e \<notin> set (get t)"
    and stmt: "\<And>k v x. (k, v) \<in> set rows \<Longrightarrow> bt_ok x \<Longrightarrow> set x \<subseteq> set rows \<Longrightarrow> map_of x k = None \<Longrightarrow>
      stmt (k, v) (put x t) = Inr (put (bt_insert k v x) t)"
  shows "\<exists>n. row_section changed stmt rows t = Inr (n, put rows t)"
proof -
  let ?I = "\<lambda>seen u. \<exists>x. u = put x t \<and> bt_ok x \<and> set x = set (get t) \<union> set seen"
  have "\<exists>n t'. row_section changed stmt rows t = Inr (n, t') \<and> ?I rows t'"
  proof (rule row_section_run)
    show "?I [] t" using ok(1) put_get by (intro exI [of _ "get t"]) simp
    fix seen r rest u assume r: "rows = seen @ r # rest" and "?I seen u"
    then obtain x where x: "u = put x t" "bt_ok x" "set x = set (get t) \<union> set seen" by blast
    obtain k v where kv: "r = (k, v)" by force
    have sub: "set x \<subseteq> set rows" using x(3) ok(3) r by auto
    have new: "r \<notin> set seen" using bt_ok_distinct [OF ok(2)] r by (auto simp: distinct_map)
    show "if changed r then \<exists>t'. stmt r u = Inr t' \<and> ?I (seen @ [r]) t' else ?I (seen @ [r]) u"
    proof (cases "changed r")
      case True
      have "map_of x k = None"
      proof (rule ccontr)
        assume "map_of x k \<noteq> None"
        then obtain w where "(k, w) \<in> set x" by (auto dest: map_of_SomeD)
        then have "(k, w) \<in> set rows" "(k, v) \<in> set rows" using sub r kv by auto
        then have "w = v" using bt_ok_memD [OF ok(2), of k w] bt_ok_memD [OF ok(2), of k v] by simp
        then have "r \<in> set (get t) \<union> set seen" using \<open>(k, w) \<in> set x\<close> x(3) kv by simp
        then show False using True changed new r by simp
      qed
      from stmt [OF _ x(2) sub this] set_bt_insert_new [OF x(2) this] show ?thesis
        using True x r kv by (auto intro!: exI [of _ "bt_insert k v x"] bt_ok_insert)
    next
      case False
      then have "r \<in> set (get t)" using changed r by simp
      with False x show ?thesis by (auto intro!: exI [of _ x])
    qed
  qed
  then obtain n x where "row_section changed stmt rows t = Inr (n, put x t)" "bt_ok x" "set x = set (get t) \<union> set rows" by blast
  moreover then have "x = rows" using ok by (intro bt_set_eqI) auto
  ultimately show ?thesis by blast
qed

lemma section_upsert:
  assumes ok: "bt_ok (get t)" "bt_ok rows" "fst ` set (get t) \<subseteq> fst ` set rows"
    and changed: "\<And>e. e \<in> set rows \<Longrightarrow> changed e \<longleftrightarrow> e \<notin> set (get t)"
    and stmt: "\<And>k v x. (k, v) \<in> set rows \<Longrightarrow> stmt (k, v) (put x t) = Inr (put (bt_insert k v x) t)"
  shows "\<exists>n. row_section changed stmt rows t = Inr (n, put rows t)"
proof -
  let ?I = "\<lambda>seen u. \<exists>x. u = put x t \<and> bt_ok x \<and> map_of x = map_of (get t) ++ map_of seen"
  have "\<exists>n t'. row_section changed stmt rows t = Inr (n, t') \<and> ?I rows t'"
  proof (rule row_section_run)
    show "?I [] t" using ok(1) put_get by (intro exI [of _ "get t"]) simp
    fix seen r rest u assume r: "rows = seen @ r # rest" and "?I seen u"
    then obtain x where x: "u = put x t" "bt_ok x" "map_of x = map_of (get t) ++ map_of seen" by blast
    obtain k v where kv: "r = (k, v)" by force
    have "map_of seen k = None" using map_of_before [of seen k v rest] ok(2) r kv by simp
    then have snoc: "map_of (seen @ [r]) = (map_of seen)(k \<mapsto> v)"
      using kv by (auto simp: fun_eq_iff map_add_def split: option.split)
    show "if changed r then \<exists>t'. stmt r u = Inr t' \<and> ?I (seen @ [r]) t' else ?I (seen @ [r]) u"
    proof (cases "changed r")
      case True
      then show ?thesis
        using stmt x r kv snoc by (auto intro!: exI [of _ "bt_insert k v x"] bt_ok_insert)
    next
      case False
      then have "(k, v) \<in> set (get t)" using changed r kv by simp
      then have "map_of (get t) k = Some v" by (rule bt_ok_memD [OF ok(1)])
      with \<open>map_of seen k = None\<close> have "map_of (get t) ++ (map_of seen)(k \<mapsto> v) = map_of (get t) ++ map_of seen"
        by (auto simp: fun_eq_iff map_add_def split: option.split)
      with False x snoc show ?thesis by auto
    qed
  qed
  then obtain n x where x: "row_section changed stmt rows t = Inr (n, put x t)" "bt_ok x"
    "map_of x = map_of (get t) ++ map_of rows" by blast
  have "map_of x = map_of rows"
  proof (rule ext)
    fix k show "map_of x k = map_of rows k"
    proof (cases "map_of rows k")
      case None
      then have "map_of (get t) k = None" using ok(3) by (auto simp: map_of_eq_None_iff)
      with None x(3) show ?thesis by (simp add: map_add_def)
    qed (simp add: x(3))
  qed
  then have "x = rows" by (rule bt_eqI [OF x(2) ok(2)])
  with x(1) show ?thesis by blast
qed

end

interpretation devices: table rel_devices "\<lambda>x t. t\<lparr>rel_devices := x\<rparr>"
  by unfold_locales simp_all

interpretation results: table rel_results "\<lambda>x t. t\<lparr>rel_results := x\<rparr>"
  by unfold_locales simp_all

interpretation claims: table rel_claims "\<lambda>x t. t\<lparr>rel_claims := x\<rparr>"
  by unfold_locales simp_all

interpretation pending: table rel_pending "\<lambda>x t. t\<lparr>rel_pending := x\<rparr>"
  by unfold_locales simp_all

section \<open>Commits between well-formed states\<close>

definition rel_ok :: "Codec \<Rightarrow> RelationalState \<Rightarrow> bool" where
  "rel_ok T t =
     (bt_ok (rel_devices t) \<and> bt_ok (rel_results t) \<and> bt_ok (rel_claims t) \<and> bt_ok (rel_pending t)
      \<and> (\<forall>(k, j)\<in>set (rel_devices t). k \<noteq> [] \<and> json_valid T j)
      \<and> (\<forall>(k, c, j)\<in>set (rel_results t). k \<noteq> [] \<and> c \<noteq> [] \<and> json_valid T j)
      \<and> inj_on (\<lambda>(k, c, j). c) (set (rel_results t))
      \<and> (\<forall>(k, c, f)\<in>set (rel_claims t). f \<noteq> [] \<and> (\<exists>j. (k, c, j) \<in> set (rel_results t)))
      \<and> (\<forall>(c, d, p, j)\<in>set (rel_pending t). d \<noteq> [] \<and> 0 \<le> p \<and> json_valid T j \<and> (\<exists>k j. (k, c, j) \<in> set (rel_results t)))
      \<and> inj_on (\<lambda>(c, d, p, j). (d, p)) (set (rel_pending t)))"

definition rel_compat :: "RelationalState \<Rightarrow> RelationalState \<Rightarrow> bool" where
  "rel_compat a b = (\<forall>(k, c, j)\<in>set (rel_results a). \<forall>(k', c', j')\<in>set (rel_results b). c = c' \<longrightarrow> k = k' \<and> j = j')"

lemma rel_okD:
  assumes "rel_ok T t"
  shows "bt_ok (rel_devices t)" "bt_ok (rel_results t)" "bt_ok (rel_claims t)" "bt_ok (rel_pending t)"
    and "\<And>k j. (k, j) \<in> set (rel_devices t) \<Longrightarrow> k \<noteq> [] \<and> json_valid T j"
    and "\<And>k c j. (k, c, j) \<in> set (rel_results t) \<Longrightarrow> k \<noteq> [] \<and> c \<noteq> [] \<and> json_valid T j"
    and "\<And>k c j k' j'. (k, c, j) \<in> set (rel_results t) \<Longrightarrow> (k', c, j') \<in> set (rel_results t) \<Longrightarrow> k = k' \<and> j = j'"
    and "\<And>k c f. (k, c, f) \<in> set (rel_claims t) \<Longrightarrow> f \<noteq> [] \<and> (\<exists>j. (k, c, j) \<in> set (rel_results t))"
    and "\<And>c d p j. (c, d, p, j) \<in> set (rel_pending t) \<Longrightarrow>
      d \<noteq> [] \<and> 0 \<le> p \<and> json_valid T j \<and> (\<exists>k j. (k, c, j) \<in> set (rel_results t))"
    and "\<And>c d p j c' j'. (c, d, p, j) \<in> set (rel_pending t) \<Longrightarrow> (c', d, p, j') \<in> set (rel_pending t) \<Longrightarrow> c = c'"
proof -
  note R = assms [unfolded rel_ok_def]
  show "bt_ok (rel_devices t)" "bt_ok (rel_results t)" "bt_ok (rel_claims t)" "bt_ok (rel_pending t)"
    using R by simp_all
  show "k \<noteq> [] \<and> json_valid T j" if "(k, j) \<in> set (rel_devices t)" for k j
    using R that by fast
  show "k \<noteq> [] \<and> c \<noteq> [] \<and> json_valid T j" if "(k, c, j) \<in> set (rel_results t)" for k c j
    using R that by fast
  show "k = k' \<and> j = j'" if "(k, c, j) \<in> set (rel_results t)" "(k', c, j') \<in> set (rel_results t)" for k c j k' j'
  proof -
    have "inj_on (\<lambda>(k, c, j). c) (set (rel_results t))" using R by simp
    from inj_onD [OF this _ that] show ?thesis by simp
  qed
  show "f \<noteq> [] \<and> (\<exists>j. (k, c, j) \<in> set (rel_results t))" if "(k, c, f) \<in> set (rel_claims t)" for k c f
    using R that by fast
  show "d \<noteq> [] \<and> 0 \<le> p \<and> json_valid T j \<and> (\<exists>k j. (k, c, j) \<in> set (rel_results t))"
    if "(c, d, p, j) \<in> set (rel_pending t)" for c d p j
    using R that by fast
  show "c = c'" if "(c, d, p, j) \<in> set (rel_pending t)" "(c', d, p, j') \<in> set (rel_pending t)" for c d p j c' j'
  proof -
    have "inj_on (\<lambda>(c, d, p, j). (d, p)) (set (rel_pending t))" using R by simp
    from inj_onD [OF this _ that] show ?thesis by simp
  qed
qed

definition kept :: "('k::linorder, 'v) btree \<Rightarrow> ('k, 'v) btree \<Rightarrow> ('k, 'v) btree" where
  "kept a b = filter (\<lambda>(k, v). map_of b k = Some v) a"

lemma kept_facts:
  assumes "bt_ok a" "bt_ok b"
  shows "bt_ok (kept a b)" "set (kept a b) = set a \<inter> set b"
    "filter (\<lambda>e. \<not> (case e of (k, v) \<Rightarrow> map_of b k \<noteq> Some v)) a = kept a b"
    "(k, v) \<in> set b \<Longrightarrow> map_of a k \<noteq> Some v \<longleftrightarrow> (k, v) \<notin> set (kept a b)"
  using assms bt_ok_mem_iff [OF assms(1)] bt_ok_mem_iff [OF assms(2)]
  by (auto simp: kept_def bt_ok_filter split_beta intro: filter_cong)

lemma no_clash:
  assumes "set x \<subseteq> set m" "map_of x k = None" "\<And>k' v. (k', v) \<in> set m \<Longrightarrow> P (k', v) \<Longrightarrow> k' = k"
  shows "\<not> list_ex P x"
proof
  assume "list_ex P x"
  then obtain k' v where e: "(k', v) \<in> set x" "P (k', v)" by (auto simp: list_ex_iff)
  with assms(1,3) have "k' = k" by blast
  with e(1) assms(2) show False by (metis weak_map_of_SomeI option.distinct(1))
qed

text \<open>
  Every statement of the transaction passes the constraints of the schema, and
  the tables end up exactly at the candidate.
\<close>

lemma apply_row_changes_total:
  assumes cur: "rel_ok T a" and cand: "rel_ok T b" and compat: "rel_compat a b"
  shows "\<exists>changes. apply_row_changes T a b a = Inr (changes, b)"
proof -
  note A = rel_okD [OF cur] and B = rel_okD [OF cand]
  have compat: "k = k' \<and> j = j'" if "(k, c, j) \<in> set (rel_results a)" "(k', c, j') \<in> set (rel_results b)" for k c j k' j'
    using compat that unfolding rel_compat_def by fast
  note KP = kept_facts [OF A(4) B(4)] and KC = kept_facts [OF A(3) B(3)] and KR = kept_facts [OF A(2) B(2)]
  let ?t1 = "a\<lparr>rel_pending := kept (rel_pending a) (rel_pending b)\<rparr>"
  have s1: "\<exists>n. row_section (\<lambda>(k, v). map_of (rel_pending b) k \<noteq> Some v) (\<lambda>(k, _). sql_delete_pending k) (rel_pending a) a
      = Inr (n, ?t1)"
    using pending.section_delete [of a "\<lambda>(k, v). map_of (rel_pending b) k \<noteq> Some v" "\<lambda>(k, _). sql_delete_pending k"] A(4) KP(3)
    by (simp add: sql_delete_pending_def)
  let ?t2 = "?t1\<lparr>rel_claims := kept (rel_claims a) (rel_claims b)\<rparr>"
  have s2: "\<exists>n. row_section (\<lambda>(k, v). map_of (rel_claims b) k \<noteq> Some v) (\<lambda>(k, _). sql_delete_claim k) (rel_claims a) ?t1
      = Inr (n, ?t2)"
    using claims.section_delete [of ?t1 "\<lambda>(k, v). map_of (rel_claims b) k \<noteq> Some v" "\<lambda>(k, _). sql_delete_claim k"] A(3) KC(3)
    by (simp add: sql_delete_claim_def)
  let ?t3 = "?t2\<lparr>rel_results := kept (rel_results a) (rel_results b)\<rparr>"
  have s3: "\<exists>n. row_section (\<lambda>(k, v). map_of (rel_results b) k \<noteq> Some v) (\<lambda>(k, _). sql_delete_result k) (rel_results a) ?t2
      = Inr (n, ?t3)"
  proof -
    have gone: "sql_delete_result k (?t2\<lparr>rel_results := x\<rparr>) = Inr (?t2\<lparr>rel_results := AList.delete k x\<rparr>)"
      if mem: "(k, c, j) \<in> set (rel_results a)" and ch: "map_of (rel_results b) k \<noteq> Some (c, j)"
        and x: "map_of x k = Some (c, j)" for k c j x
    proof -
      have no: "(k', c, j') \<notin> set (rel_results b)" for k' j'
        using compat [OF mem] ch bt_ok_memD [OF B(2)] by blast
      have "map_of (kept (rel_pending a) (rel_pending b)) c = None"
      proof (cases "map_of (kept (rel_pending a) (rel_pending b)) c")
        case (Some v)
        obtain d p i where v: "v = (d, p, i)" by (cases v)
        have "(c, d, p, i) \<in> set (rel_pending b)" using map_of_SomeD [OF Some] KP(2) v by simp
        with B(9) no show ?thesis by blast
      qed
      moreover have "filter (\<lambda>(s, c', _). \<not> (s = k \<and> c' = c)) (kept (rel_claims a) (rel_claims b)) = kept (rel_claims a) (rel_claims b)"
      proof (rule filter_True [rule_format])
        fix e assume "e \<in> set (kept (rel_claims a) (rel_claims b))"
        then have mem: "e \<in> set (rel_claims b)" using KC(2) by simp
        obtain s c' f where e: "e = (s, c', f)" by (cases e)
        from B(8) [of s c' f] mem e obtain j' where "(s, c', j') \<in> set (rel_results b)" by blast
        with no [of s j'] e show "case e of (s, c', _) \<Rightarrow> \<not> (s = k \<and> c' = c)" by auto
      qed
      ultimately show ?thesis using x by (simp add: sql_delete_result_def)
    qed
    then show ?thesis
      using results.section_delete [of ?t2 "\<lambda>(k, v). map_of (rel_results b) k \<noteq> Some v" "\<lambda>(k, _). sql_delete_result k"] A(2) KR(3)
      by (simp add: split_paired_all)
  qed
  let ?D = "filter (\<lambda>e. map_of (rel_devices b) (fst e) \<noteq> None) (rel_devices a)"
  let ?t4 = "?t3\<lparr>rel_devices := ?D\<rparr>"
  have s4: "\<exists>n. row_section (\<lambda>(k, _). map_of (rel_devices b) k = None) (\<lambda>(k, _). sql_delete_device k) (rel_devices a) ?t3
      = Inr (n, ?t4)"
    using devices.section_delete [of ?t3 "\<lambda>(k, _). map_of (rel_devices b) k = None" "\<lambda>(k, _). sql_delete_device k"] A(1)
    by (simp add: sql_delete_device_def split_beta)
  let ?t5 = "?t4\<lparr>rel_devices := rel_devices b\<rparr>"
  have s5: "\<exists>n. row_section (\<lambda>(k, v). map_of (rel_devices a) k \<noteq> Some v) (\<lambda>(k, v). sql_upsert_device T k v) (rel_devices b) ?t4
      = Inr (n, ?t5)"
  proof (rule devices.section_upsert)
    show "bt_ok (rel_devices ?t4)" using A(1) by (simp add: bt_ok_filter)
    show "fst ` set (rel_devices ?t4) \<subseteq> fst ` set (rel_devices b)" by (force dest: map_of_SomeD)
    show "(case e of (k, v) \<Rightarrow> map_of (rel_devices a) k \<noteq> Some v) \<longleftrightarrow> e \<notin> set (rel_devices ?t4)"
      if "e \<in> set (rel_devices b)" for e
      using bt_ok_mem_iff [OF A(1)] bt_ok_memD [OF B(1), of "fst e" "snd e"] that by (simp add: split_beta)
  qed (use B in \<open>simp_all add: sql_upsert_device_def\<close>)
  let ?t6 = "?t5\<lparr>rel_results := rel_results b\<rparr>"
  have s6: "\<exists>n. row_section (\<lambda>(k, v). map_of (rel_results a) k \<noteq> Some v) (\<lambda>(k, c, j). sql_insert_result T k c j) (rel_results b) ?t5
      = Inr (n, ?t6)"
  proof (rule results.section_insert)
    show "(case (k, v) of (k, c, j) \<Rightarrow> sql_insert_result T k c j) (?t5\<lparr>rel_results := x\<rparr>) = Inr (?t5\<lparr>rel_results := bt_insert k v x\<rparr>)"
      if mem: "(k, v) \<in> set (rel_results b)" and x: "set x \<subseteq> set (rel_results b)" "map_of x k = None" for k v x
    proof -
      obtain c j where v: "v = (c, j)" by force
      have "\<not> list_ex (\<lambda>(_, c', _). c' = c) x"
        using B(7) mem v by (intro no_clash [OF x]) auto
      then show ?thesis using B(6) mem v x(2) by (simp add: sql_insert_result_def)
    qed
  qed (use KR B(2) in auto)
  let ?t7 = "?t6\<lparr>rel_claims := rel_claims b\<rparr>"
  have s7: "\<exists>n. row_section (\<lambda>(k, v). map_of (rel_claims a) k \<noteq> Some v) (\<lambda>(k, c, f). sql_insert_claim k c f) (rel_claims b) ?t6
      = Inr (n, ?t7)"
  proof (rule claims.section_insert)
    show "(case (k, v) of (k, c, f) \<Rightarrow> sql_insert_claim k c f) (?t6\<lparr>rel_claims := x\<rparr>) = Inr (?t6\<lparr>rel_claims := bt_insert k v x\<rparr>)"
      if mem: "(k, v) \<in> set (rel_claims b)" and x: "map_of x k = None" for k v x
    proof -
      obtain c f where v: "v = (c, f)" by force
      from B(8) mem v obtain j where r: "f \<noteq> []" "(k, c, j) \<in> set (rel_results b)" by blast
      then show ?thesis using B(6) [OF r(2)] bt_ok_memD [OF B(2) r(2)] v x by (simp add: sql_insert_claim_def)
    qed
  qed (use KC B(3) in auto)
  have s8: "\<exists>n. row_section (\<lambda>(k, v). map_of (rel_pending a) k \<noteq> Some v) (\<lambda>(k, d, p, j). sql_insert_pending T k d p j) (rel_pending b) ?t7
      = Inr (n, ?t7\<lparr>rel_pending := rel_pending b\<rparr>)"
  proof (rule pending.section_insert)
    show "(case (k, v) of (k, d, p, j) \<Rightarrow> sql_insert_pending T k d p j) (?t7\<lparr>rel_pending := x\<rparr>) = Inr (?t7\<lparr>rel_pending := bt_insert k v x\<rparr>)"
      if mem: "(k, v) \<in> set (rel_pending b)" and x: "set x \<subseteq> set (rel_pending b)" "map_of x k = None" for k v x
    proof -
      obtain d p j where v: "v = (d, p, j)" by (cases v)
      from B(9) mem v obtain k' j' where r: "d \<noteq> []" "0 \<le> p" "json_valid T j" "(k', k, j') \<in> set (rel_results b)" by blast
      have "\<not> list_ex (\<lambda>(_, d', p', _). d' = d \<and> p' = p) x"
        using B(10) mem v by (intro no_clash [OF x]) auto
      moreover have "list_ex (\<lambda>(_, c, _). c = k) (rel_results b)" using r(4) by (force simp: list_ex_iff)
      ultimately show ?thesis using r(1-3) B(6) [OF r(4)] v x(2) by (simp add: sql_insert_pending_def)
    qed
  qed (use KP B(4) in auto)
  have "?t7\<lparr>rel_pending := rel_pending b\<rparr> = b" by simp
  with s1 s2 s3 s4 s5 s6 s7 s8 show ?thesis by (force simp: apply_row_changes_def)
qed

end
