(* ===== verification/Durable_State.thy ===== *)
theory Durable_State
  imports Snapshot_Store_Inv
begin

text \<open>
  The durable state of the control plane: what a snapshot looks like in the
  tables, that a healthy store accepts every transaction of a well-formed state,
  that memory and store agree after every history, and that a restart reads back
  the state that was last committed.
\<close>

declare map_of_eq_Some_iff [simp del] Some_eq_map_of_iff [simp del]

section \<open>Snapshots in the tables\<close>

definition pending_entries :: "queue_tree \<Rightarrow> (string \<times> nat \<times> DeviceCommand) list" where
  "pending_entries qs = concat (map (\<lambda>(d, q). map (\<lambda>(i, c). (d, i, c)) (enumerate 0 q)) qs)"

definition pending_table :: "Codec \<Rightarrow> queue_tree \<Rightarrow> (string \<times> string \<times> int \<times> string) list" where
  "pending_table T qs = map (\<lambda>(d, i, c). (id_text T c, d, int i, encode_command T c)) (pending_entries qs)"

lemma pending_entries_commands: "map (\<lambda>(d, i, c). c) (pending_entries qs) = concat (map snd qs)"
  by (induction qs) (auto simp: pending_entries_def comp_def split_beta)

lemma pending_entries_mem:
  "(d, i, c) \<in> set (pending_entries qs) \<longleftrightarrow> (\<exists>q. (d, q) \<in> set qs \<and> i < length q \<and> c = q ! i)"
  by (force simp: pending_entries_def in_set_enumerate_eq)

lemma pending_rows_table:
  assumes "\<forall>(d, q)\<in>set qs. length q \<le> 50"
  shows "map (\<lambda>r. (cid_text T (pending_command_id r), pending_device_id r, uint (pending_queue_position r),
      encode_command T (pending_command r))) (pending_rows qs) = pending_table T qs"
  using assms
proof (induction qs)
  case (Cons e qs)
  obtain d q where e: "e = (d, q)" by force
  have "uint (of_nat i :: u32) = int i" if "i < length q" for i
    using Cons.prems e that by (simp add: unsigned_of_nat take_bit_nat_eq_self flip: uint_nat)
  then have "map (\<lambda>r. (cid_text T (pending_command_id r), pending_device_id r, uint (pending_queue_position r),
      encode_command T (pending_command r))) (queue_rows (d, q))
    = map (\<lambda>(d, i, c). (id_text T c, d, int i, encode_command T c)) (map (\<lambda>(i, c). (d, i, c)) (enumerate 0 q))"
    by (auto simp: queue_rows_def in_set_enumerate_eq)
  with Cons e show ?case by (simp add: pending_rows_def pending_table_def pending_entries_def)
qed (simp add: pending_rows_def pending_table_def pending_entries_def)

definition fingerprint_text :: "Hashing \<Rightarrow> DeviceCommand \<Rightarrow> string" where
  "fingerprint_text H c = ContentDigest_display (to_hex_fn H) (command_fingerprint H c)"

lemma materialize_snapshot:
  assumes wf: "snapshot_wf H T ds qs cs"
  shows "rel_devices (materialize H T (snapshot_of H ds qs cs)) = map (\<lambda>(k, d). (k, encode_device T d)) ds"
    and "rel_results (materialize H T (snapshot_of H ds qs cs))
      = map (\<lambda>c. (canonical_scope H c, id_text T c, encode_command T c)) (scope_sorted H cs)"
    and "rel_claims (materialize H T (snapshot_of H ds qs cs))
      = map (\<lambda>c. (canonical_scope H c, id_text T c, fingerprint_text H c)) (scope_sorted H cs)"
    and "rel_pending (materialize H T (snapshot_of H ds qs cs)) = bt_of_list (pending_table T qs)"
proof -
  have W: "bt_ok ds" "distinct (map (canonical_scope H) cs)" "\<forall>(d, q)\<in>set qs. length q \<le> 50"
    using wf by (auto simp: snapshot_wf_def devices_wf_def replay_wf_def queue_wf_def)
  have sorted: "bt_ok (map (\<lambda>c. (canonical_scope H c, f c)) (scope_sorted H cs))" for f :: "DeviceCommand \<Rightarrow> 'v"
    using scope_sorted_mset(3) [OF W(2)] by (simp add: bt_ok_def comp_def)
  have "bt_ok (map (\<lambda>(k, d). (k, encode_device T d)) ds)" using W(1) by (simp add: bt_ok_def comp_def split_beta)
  from bt_of_list_id [OF this] show "rel_devices (materialize H T (snapshot_of H ds qs cs)) = map (\<lambda>(k, d). (k, encode_device T d)) ds"
    by (simp add: materialize_def Let_def snapshot_rows_def snapshot_of_def device_rows_def comp_def case_prod_unfold)
  show "rel_results (materialize H T (snapshot_of H ds qs cs))
      = map (\<lambda>c. (canonical_scope H c, id_text T c, encode_command T c)) (scope_sorted H cs)"
    using bt_of_list_id [OF sorted]
    by (simp add: materialize_def Let_def snapshot_rows_def snapshot_of_def result_rows_def comp_def display_digest)
  show "rel_claims (materialize H T (snapshot_of H ds qs cs))
      = map (\<lambda>c. (canonical_scope H c, id_text T c, fingerprint_text H c)) (scope_sorted H cs)"
    using bt_of_list_id [OF sorted]
    by (simp add: materialize_def Let_def snapshot_rows_def snapshot_of_def claim_rows_def comp_def display_digest fingerprint_text_def)
  show "rel_pending (materialize H T (snapshot_of H ds qs cs)) = bt_of_list (pending_table T qs)"
    using pending_rows_table [OF W(3), of T]
    by (simp add: materialize_def Let_def snapshot_rows_def snapshot_of_def)
qed

definition codec_texts :: "Codec \<Rightarrow> bool" where
  "codec_texts T = (inj (cid_text T) \<and> (\<forall>i. cid_text T i \<noteq> []) \<and> (\<forall>d. json_valid T (encode_device T d))
     \<and> (\<forall>c. json_valid T (encode_command T c)))"

lemma display_nonempty [simp]: "ContentDigest_display f d \<noteq> []"
  by (simp add: ContentDigest_display_def)

lemma pending_table_facts:
  assumes wf: "snapshot_wf H T ds qs cs"
  shows "distinct (map fst (pending_table T qs))"
    and "\<And>k d p j. (k, d, p, j) \<in> set (pending_table T qs) \<longleftrightarrow>
      (\<exists>q i c. (d, q) \<in> set qs \<and> i < length q \<and> c = q ! i \<and> k = id_text T c \<and> p = int i \<and> j = encode_command T c)"
    and "set (bt_of_list (pending_table T qs)) = set (pending_table T qs)"
    and "inj_on (\<lambda>(_, d, p, _). (d, p)) (set (pending_table T qs))"
proof -
  have "map fst (pending_table T qs) = map (id_text T) (map (\<lambda>(d, i, c). c) (pending_entries qs))"
    by (simp add: pending_table_def comp_def split_beta)
  then show d: "distinct (map fst (pending_table T qs))"
    using wf by (simp add: pending_entries_commands snapshot_wf_def)
  show mem: "(k, d, p, j) \<in> set (pending_table T qs) \<longleftrightarrow>
      (\<exists>q i c. (d, q) \<in> set qs \<and> i < length q \<and> c = q ! i \<and> k = id_text T c \<and> p = int i \<and> j = encode_command T c)"
    for k d p j
  proof -
    have "(k, d, p, j) \<in> set (pending_table T qs) \<longleftrightarrow> (\<exists>i c. (d, i, c) \<in> set (pending_entries qs)
        \<and> k = id_text T c \<and> p = int i \<and> j = encode_command T c)"
      by (force simp: pending_table_def)
    then show ?thesis unfolding pending_entries_mem by blast
  qed
  show "set (bt_of_list (pending_table T qs)) = set (pending_table T qs)" by (rule set_bt_of_list [OF d])
  have qs: "bt_ok qs" using wf by (simp add: snapshot_wf_def)
  have uniq: "q = q'" if "(d, q) \<in> set qs" "(d, q') \<in> set qs" for d q q'
    using bt_ok_memD [OF qs] that by (metis option.inject)
  let ?f = "\<lambda>(_ :: string, d :: string, p :: int, _ :: string). (d, p)"
  show "inj_on ?f (set (pending_table T qs))"
  proof (rule inj_onI)
    fix x y assume xy: "x \<in> set (pending_table T qs)" "y \<in> set (pending_table T qs)" "?f x = ?f y"
    obtain k d p j k' j' where x: "x = (k, d, p, j)" and y: "y = (k', d, p, j')"
      using xy(3) by (cases x; cases y) auto
    obtain q i where q: "(d, q) \<in> set qs" "p = int i" "k = id_text T (q ! i)" "j = encode_command T (q ! i)"
      using xy(1) unfolding x mem by blast
    obtain q' i' where q': "(d, q') \<in> set qs" "p = int i'" "k' = id_text T (q' ! i')" "j' = encode_command T (q' ! i')"
      using xy(2) unfolding y mem by blast
    have "q = q'" "i = i'" using uniq [OF q(1) q'(1)] q(2) q'(2) by simp_all
    with q q' x y show "x = y" by simp
  qed
qed

lemma materialize_ok:
  assumes wf: "snapshot_wf H T ds qs cs" and T: "codec_texts T"
  shows "rel_ok T (materialize H T (snapshot_of H ds qs cs))"
proof -
  note M = materialize_snapshot [OF wf] and P = pending_table_facts [OF wf]
  have W: "bt_ok ds" "\<forall>(k, d)\<in>set ds. k \<noteq> [] \<and> dev_node_id d = k" "distinct (map (canonical_scope H) cs)"
    "distinct (map (id_text T) cs)" "bt_ok qs" "\<forall>e\<in>set qs. queue_wf cs e"
    using wf by (simp_all add: snapshot_wf_def devices_wf_def replay_wf_def)
  note S = scope_sorted_mset [OF W(3)]
  have inj: "inj_on (id_text T) (set cs)" using W(4) by (simp add: distinct_map)
  have 1: "bt_ok (map (\<lambda>(k, d). (k, encode_device T d)) ds)" using W(1) by (simp add: bt_ok_def comp_def split_beta)
  have 2: "bt_ok (map (\<lambda>c. (canonical_scope H c, f c)) (scope_sorted H cs))" for f :: "DeviceCommand \<Rightarrow> 'v"
    using S(3) by (simp add: bt_ok_def comp_def)
  have 3: "k \<noteq> [] \<and> json_valid T j" if "(k, j) \<in> set (map (\<lambda>(k, d). (k, encode_device T d)) ds)" for k j
    using that W(2) T by (auto simp: codec_texts_def)
  have 4: "inj_on (\<lambda>(k, c, j). c) (set (map (\<lambda>c. (canonical_scope H c, id_text T c, encode_command T c)) (scope_sorted H cs)))"
    using inj S(1) by (auto simp: inj_on_def)
  have 5: "inj_on (\<lambda>(k, d, p, j). (d, p)) (set (pending_table T qs))" by (rule P(4))
  have 6: "d \<noteq> [] \<and> 0 \<le> p \<and> json_valid T j \<and>
      (\<exists>k' j'. (k', k, j') \<in> set (map (\<lambda>c. (canonical_scope H c, id_text T c, encode_command T c)) (scope_sorted H cs)))"
    if mem: "(k, d, p, j) \<in> set (pending_table T qs)" for k d p j
  proof -
    from mem obtain q i c where c: "(d, q) \<in> set qs" "i < length q" "c = q ! i" "k = id_text T c" "p = int i" "j = encode_command T c"
      by (auto simp: P(2))
    have "queue_wf cs (d, q)" using W(6) c(1) by blast
    then have "d \<noteq> []" "c \<in> set cs" using c(2,3) by (auto simp: queue_wf_def)
    then show ?thesis using c T S(1) by (auto simp: codec_texts_def)
  qed
  have 7: "k \<noteq> [] \<and> c \<noteq> [] \<and> json_valid T j"
    if "(k, c, j) \<in> set (map (\<lambda>c. (canonical_scope H c, id_text T c, encode_command T c)) (scope_sorted H cs))" for k c j
    using that T by (auto simp: codec_texts_def canonical_scope_def scope_text_def)
  have 8: "f \<noteq> [] \<and> (\<exists>j. (k, c, j) \<in> set (map (\<lambda>c. (canonical_scope H c, id_text T c, encode_command T c)) (scope_sorted H cs)))"
    if "(k, c, f) \<in> set (map (\<lambda>c. (canonical_scope H c, id_text T c, fingerprint_text H c)) (scope_sorted H cs))" for k c f
    using that by (auto simp: fingerprint_text_def)
  show ?thesis
    unfolding rel_ok_def M P(3) using 1 2 3 4 5 6 7 8 by (intro conjI bt_of_list_ok) fast+
qed


section \<open>Reading the tables back\<close>

definition codec_reads :: "Codec \<Rightarrow> StoredState \<Rightarrow> bool" where
  "codec_reads T st =
     ((\<forall>i. cid_parse T (cid_text T i) = Some i)
      \<and> (\<forall>(_, d)\<in>set (stored_devices st). decode_device T (encode_device T d) = Some d)
      \<and> (\<forall>(_, c)\<in>set (idempotency_results (stored_commands st)). decode_command T (encode_command T c) = Some c))"

definition hex_reads :: "Hashing \<Rightarrow> bool" where
  "hex_reads H = (\<forall>d. from_hex_fn H (to_hex_fn H d) = Some d
     \<and> length (to_hex_fn H d) = 64 \<and> list_all is_lower_hex (to_hex_fn H d))"

lemma parse_digest_display: "hex_reads H \<Longrightarrow> parse_digest H r f (ContentDigest_display (to_hex_fn H) d) = Inr d"
  using ContentDigest_from_str_display [of "from_hex_fn H" "to_hex_fn H" d]
  by (simp add: parse_digest_def hex_reads_def map_err_def)

lemma map_result_Inr: "(\<And>x. x \<in> set xs \<Longrightarrow> f (g x) = Inr (h x)) \<Longrightarrow> map_result f (map g xs) = Inr (map h xs)"
  by (induction xs) simp_all

lemma pending_entries_sorted: "bt_ok qs \<Longrightarrow> sorted (map (\<lambda>(d, i, c). (d, int i)) (pending_entries qs))"
proof (induction qs)
  case (Cons e qs)
  obtain d q where e: "e = (d, q)" by force
  have "sorted (map (\<lambda>(i, c). (d, int i)) (enumerate 0 q))"
  proof -
    have "map (\<lambda>(i, c). (d, int i)) (enumerate 0 q) = map (\<lambda>i. (d, int i)) [0..<length q]"
      by (simp add: enumerate_eq_zip case_prod_unfold flip: map_map [of "\<lambda>i. (d, int i)" fst, unfolded comp_def])
    then show ?thesis by (simp add: sorted_iff_nth_mono)
  qed
  moreover have "(d, int i) \<le> (d', int i')" if "(d', i', c) \<in> set (pending_entries qs)" for i d' i' c
    using that Cons.prems e by (force simp: pending_entries_mem bt_ok_Cons)
  ultimately show ?case
    using Cons e by (auto simp: pending_entries_def sorted_append comp_def case_prod_unfold bt_ok_Cons)
qed (simp add: pending_entries_def)

lemma pending_table_sorted:
  assumes wf: "snapshot_wf H T ds qs cs"
  shows "sort_key (\<lambda>(_, d, p, _). (d, p)) (bt_of_list (pending_table T qs)) = pending_table T qs"
proof (rule map_sorted_distinct_set_unique [where f = "\<lambda>(_, d, p, _). (d, p)"])
  note P = pending_table_facts [OF wf]
  let ?f = "\<lambda>(_ :: string, d :: string, p :: int, _ :: string). (d, p)"
  have qs: "bt_ok qs" using wf by (simp add: snapshot_wf_def)
  note inj = P(4)
  have d: "distinct (pending_table T qs)" "distinct (bt_of_list (pending_table T qs))"
    using P(1) bt_ok_distinct [OF bt_of_list_ok [of "pending_table T qs"]] by (simp_all add: distinct_map)
  have set: "set (sort_key ?f (bt_of_list (pending_table T qs))) = set (pending_table T qs)" using P(3) by simp
  show "inj_on ?f (set (sort_key ?f (bt_of_list (pending_table T qs))) \<union> set (pending_table T qs))" using inj set by simp
  show "distinct (map ?f (sort_key ?f (bt_of_list (pending_table T qs))))" using inj d P(3) by (simp add: distinct_map)
  show "distinct (map ?f (pending_table T qs))" using inj d by (simp add: distinct_map)
  show "sorted (map ?f (pending_table T qs))"
    using pending_entries_sorted [OF qs] by (simp add: pending_table_def comp_def case_prod_unfold)
qed (use pending_table_facts [OF wf] in simp_all)

lemma load_rows_materialized:
  assumes wf: "snapshot_wf H T ds qs cs" and hex: "hex_reads H"
    and ids: "\<forall>i. cid_parse T (cid_text T i) = Some i"
    and dec: "\<forall>(_, d)\<in>set ds. decode_device T (encode_device T d) = Some d"
      "\<forall>c\<in>set cs. decode_command T (encode_command T c) = Some c"
  shows "load_rows H T (materialize H T (snapshot_of H ds qs cs)) = Inr (snapshot_rows (snapshot_of H ds qs cs))"
proof -
  note M = materialize_snapshot [OF wf]
  have W: "distinct (map (canonical_scope H) cs)" "\<forall>e\<in>set qs. queue_wf cs e"
    using wf by (simp_all add: snapshot_wf_def replay_wf_def)
  note S = scope_sorted_mset [OF W(1)]
  have 1: "map_result (load_device T) (map (\<lambda>(k, d). (k, encode_device T d)) ds) = Inr (device_rows ds)"
    unfolding device_rows_def using dec(1) by (intro map_result_Inr) (auto simp: load_device_def)
  have 2: "map_result (load_command_result H T) (map (\<lambda>c. (canonical_scope H c, id_text T c, encode_command T c)) (scope_sorted H cs))
      = Inr (result_rows (map (ReplayRecord_from_command H) (scope_sorted H cs)))"
    unfolding result_rows_def map_map using dec(2) S(1) ids
    by (intro map_result_Inr)
      (simp add: load_command_result_def parse_command_id_def parse_digest_display [OF hex] flip: display_digest)
  have 3: "map_result (load_idempotency_claim H T) (map (\<lambda>c. (canonical_scope H c, id_text T c, fingerprint_text H c)) (scope_sorted H cs))
      = Inr (claim_rows (map (ReplayRecord_from_command H) (scope_sorted H cs)))"
    unfolding claim_rows_def map_map using S(1) ids
    by (intro map_result_Inr)
      (simp add: load_idempotency_claim_def parse_command_id_def parse_digest_display [OF hex] fingerprint_text_def flip: display_digest)
  have "load_pending_command T (id_text T c, d, int i, encode_command T c)
      = Inr \<lparr>pending_command_id = cmd_command_id c, pending_device_id = d, pending_queue_position = of_nat i, pending_command = c\<rparr>"
    if mem: "(d, i, c) \<in> set (pending_entries qs)" for d i c
  proof -
    obtain q where q: "(d, q) \<in> set qs" "i < length q" "c = q ! i" using mem by (auto simp: pending_entries_mem)
    have "queue_wf cs (d, q)" using W(2) q(1) by blast
    then have "length q \<le> 50" "c \<in> set cs" using q(2,3) by (auto simp: queue_wf_def)
    then show ?thesis using q(2) ids dec(2) by (simp add: load_pending_command_def parse_command_id_def)
  qed
  then have "map_result (load_pending_command T) (pending_table T qs) = Inr (map (\<lambda>(d, i, c).
      \<lparr>pending_command_id = cmd_command_id c, pending_device_id = d, pending_queue_position = of_nat i, pending_command = c\<rparr>)
      (pending_entries qs))"
    unfolding pending_table_def by (intro map_result_Inr) auto
  also have "map (\<lambda>(d, i, c). \<lparr>pending_command_id = cmd_command_id c, pending_device_id = d,
      pending_queue_position = of_nat i, pending_command = c\<rparr>) (pending_entries qs) = pending_rows qs"
    by (induction qs) (auto simp: pending_entries_def pending_rows_def queue_rows_def)
  finally have 4: "map_result (load_pending_command T) (pending_table T qs) = Inr (pending_rows qs)" .
  show ?thesis
    unfolding load_rows_def M pending_table_sorted [OF wf] 1 2 3 4 by (simp add: snapshot_rows_def snapshot_of_def)
qed


section \<open>Commits and restarts of a healthy store\<close>

definition stored_tables :: "Hashing \<Rightarrow> Codec \<Rightarrow> StoredState \<Rightarrow> RelationalState" where
  "stored_tables H T st = materialize H T (snapshot_of H (bt_of_list (stored_devices st))
     (bt_of_list (queues (stored_commands st))) (retained (stored_commands st)))"

definition shared_commands :: "CommandState \<Rightarrow> CommandState \<Rightarrow> bool" where
  "shared_commands a b = (\<forall>k c k' c'. map_of (idempotency_results a) k = Some c \<longrightarrow>
     map_of (idempotency_results b) k' = Some c' \<longrightarrow> cmd_command_id c = cmd_command_id c' \<longrightarrow> c = c')"

lemma snapshot_wf_sorted: "snapshot_wf H T ds qs cs \<Longrightarrow> snapshot_wf H T ds qs (scope_sorted H cs)"
proof -
  assume wf: "snapshot_wf H T ds qs cs"
  then have R: "distinct (map (canonical_scope H) cs)" "distinct (map (id_text T) cs)" by (simp_all add: snapshot_wf_def replay_wf_def)
  note S = scope_sorted_mset [OF R(1)]
  have d: "distinct (map (canonical_scope H) (scope_sorted H cs))" using S(3) by (simp add: strict_sorted_iff)
  then have "distinct (map (id_text T) (scope_sorted H cs))" using R(2) S(1) by (simp add: distinct_map)
  with wf d S show ?thesis by (simp add: snapshot_wf_def replay_wf_def queue_wf_def)
qed

lemma snapshot_revalidates:
  assumes "snapshot_wf H T ds qs cs"
  shows "validate_rows H T (snapshot_rows (snapshot_of H ds qs cs)) = Inr (snapshot_of H ds qs cs)"
proof -
  have "distinct (map (canonical_scope H) cs)" using assms by (simp add: snapshot_wf_def replay_wf_def)
  from scope_sorted_id [OF scope_sorted_mset(3) [OF this]] snapshot_accepted [OF snapshot_wf_sorted [OF assms]]
  show ?thesis by (simp add: snapshot_rows_def snapshot_of_def)
qed

lemma tables_compatible:
  assumes wf: "snapshot_wf H T ds qs cs" "snapshot_wf H T ds' qs' cs'" and T: "inj (cid_text T)"
    and shared: "\<And>c c'. c \<in> set cs \<Longrightarrow> c' \<in> set cs' \<Longrightarrow> cmd_command_id c = cmd_command_id c' \<Longrightarrow> c = c'"
  shows "rel_compat (materialize H T (snapshot_of H ds qs cs)) (materialize H T (snapshot_of H ds' qs' cs'))"
proof -
  have d: "distinct (map (canonical_scope H) cs)" "distinct (map (canonical_scope H) cs')"
    using wf by (simp_all add: snapshot_wf_def replay_wf_def)
  have "c = c'" if "c \<in> set cs" "c' \<in> set cs'" "id_text T c = id_text T c'" for c c'
    using shared that injD [OF T] by blast
  then show ?thesis
    unfolding rel_compat_def materialize_snapshot(2) [OF wf(1)] materialize_snapshot(2) [OF wf(2)]
    using scope_sorted_mset(1) [OF d(1)] scope_sorted_mset(1) [OF d(2)] by fastforce
qed

lemma cas_commits:
  assumes ok: "stored_ok H a" "stored_ok H b" and T: "codec_texts T"
    and shared: "shared_commands (stored_commands a) (stored_commands b)"
    and db: "next_env db = sql_healthy" "db_tables db = stored_tables H T a"
  shows "sqlite_cas H T db a b = (True, db\<lparr>db_tables := stored_tables H T b, db_env := tl (db_env db)\<rparr>)"
proof -
  have uniq: "inj (cid_text T)" using T by (simp add: codec_texts_def)
  note wf = stored_parts_wf [OF ok(1) uniq] stored_parts_wf [OF ok(2) uniq]
  have R: "replay_inv H MAX_IDEMPOTENCY_RESULTS (stored_commands a)" "replay_inv H MAX_IDEMPOTENCY_RESULTS (stored_commands b)"
    using ok by (simp_all add: stored_ok_def command_inv_def)
  have "rel_compat (stored_tables H T a) (stored_tables H T b)"
    unfolding stored_tables_def
  proof (rule tables_compatible [OF wf uniq])
    fix c c' assume "c \<in> set (retained (stored_commands a))" "c' \<in> set (retained (stored_commands b))"
      "cmd_command_id c = cmd_command_id c'"
    then show "c = c'" using retained_facts(2) [OF R(1)] retained_facts(2) [OF R(2)] shared unfolding shared_commands_def by blast
  qed
  from apply_row_changes_total [OF materialize_ok [OF wf(1) T] materialize_ok [OF wf(2) T] this [unfolded stored_tables_def]]
  obtain changes where "apply_row_changes T (stored_tables H T a) (stored_tables H T b) (stored_tables H T a)
      = Inr (changes, stored_tables H T b)" unfolding stored_tables_def by blast
  then show ?thesis
    using snapshot_taken [OF ok(1) uniq] snapshot_taken [OF ok(2) uniq] snapshot_revalidates [OF wf(1)] snapshot_revalidates [OF wf(2)] db
    by (simp add: sqlite_cas_def compare_and_swap_def compare_and_swap_snapshot_def snapshot_validate_def map_err_def
        sql_healthy_def stored_tables_def Let_def)
qed

lemma load_committed:
  assumes ok: "stored_ok H st" and T: "codec_texts T" "codec_reads T st" and hex: "hex_reads H"
    and db: "next_env db = sql_healthy" "db_tables db = stored_tables H T st"
  obtains st' where "AppState_load H T db = Inr \<lparr>app_devices = stored_devices st', app_commands = stored_commands st',
      app_db = db\<lparr>db_env := tl (db_env db)\<rparr>\<rparr>"
    "same_stored st st'" "idempotency_order (stored_commands st') = sort (idempotency_order (stored_commands st))" "stored_ok H st'"
proof -
  have uniq: "inj (cid_text T)" using T by (simp add: codec_texts_def)
  have R: "replay_inv H MAX_IDEMPOTENCY_RESULTS (stored_commands st)" "device_inv (stored_devices st)"
    using ok by (simp_all add: stored_ok_def command_inv_def)
  note wf = stored_parts_wf [OF ok uniq]
  have dev: "\<forall>(_, d)\<in>set (bt_of_list (stored_devices st)). decode_device T (encode_device T d) = Some d"
    using T(2) set_bt_of_list [of "stored_devices st"] R(2) by (simp add: codec_reads_def device_inv_def)
  have cmd: "\<forall>c\<in>set (retained (stored_commands st)). decode_command T (encode_command T c) = Some c"
    using T(2) retained_facts(2) [OF R(1)] map_of_SomeD [of "idempotency_results (stored_commands st)"]
    unfolding codec_reads_def by fast
  have "\<forall>i. cid_parse T (cid_text T i) = Some i" using T(2) by (simp add: codec_reads_def)
  note rows = load_rows_materialized [OF wf hex this dev cmd]
  from restart [OF ok uniq] obtain snap st' where
    r: "snapshot_from_stored H T st = Inr snap" "stored_from_snapshot H snap = Inr st'"
    "same_stored st st'" "idempotency_order (stored_commands st') = sort (idempotency_order (stored_commands st))"
    "stored_ok H st'" .
  have "load_existing sql_healthy H T (stored_tables H T st) = Inr st'"
    using rows snapshot_revalidates [OF wf] r(1,2) snapshot_taken [OF ok uniq]
    by (simp add: load_existing_def load_snapshot_def stored_tables_def sql_healthy_def map_err_def)
  then show ?thesis using that r(3-5) db by (simp add: AppState_load_def)
qed


section \<open>Memory and store agree\<close>

definition memory :: "'db AppState \<Rightarrow> StoredState" where
  "memory s = \<lparr>stored_devices = app_devices s, stored_commands = app_commands s\<rparr>"

lemma memory_simps [simp]:
  "stored_devices (memory s) = app_devices s" "stored_commands (memory s) = app_commands s"
  "memory (s\<lparr>app_db := db\<rparr>) = memory s"
  by (simp_all add: memory_def)

text \<open>Every transaction makes at most one attempt to commit, from the memory it started with.\<close>

definition persisted :: "'db cas \<Rightarrow> 'db AppState \<Rightarrow> 'db AppState \<Rightarrow> bool" where
  "persisted cas s t = (t = s \<or> (\<exists>candidate ok. cas (app_db s) (memory s) candidate = (ok, app_db t)
     \<and> memory t = (if ok then candidate else memory s)))"

lemma persisted_refl [simp]: "persisted cas s s"
  by (simp add: persisted_def)

lemma persisted_commit [simp]:
  "persisted cas s (snd (case persist_candidate cas (app_db s) (app_devices s) (app_commands s) devices commands of
     (False, db) \<Rightarrow> (e, s\<lparr>app_db := db\<rparr>)
   | (True, db) \<Rightarrow> (r, s\<lparr>app_db := db, app_devices := devices, app_commands := commands\<rparr>)))"
  "persisted cas s (snd (case persist_candidate cas (app_db s) (app_devices s) (app_commands s) devices (app_commands s) of
     (False, db) \<Rightarrow> (e, s\<lparr>app_db := db\<rparr>)
   | (True, db) \<Rightarrow> (r, s\<lparr>app_db := db, app_devices := devices\<rparr>)))"
  by (auto simp: persisted_def persist_candidate_def memory_def split: prod.split bool.split)

lemma op_persisted: "persisted cas s (control_op H cas op s)"
proof (cases op)
  case (OpRegister now r)
  then show ?thesis by (simp add: register_device_transaction_def Let_def split: option.split sum.split)
next
  case (OpHeartbeat now r)
  then show ?thesis by (simp add: heartbeat_transaction_def Let_def split: option.split)
next
  case (OpProbe now d r)
  then show ?thesis by (simp add: public_probe_transaction_def Let_def split: option.split)
next
  case (OpIssue new_id now input)
  then show ?thesis by (simp add: issue_command_transaction_def Let_def split: option.split sum.split prod.split_asm)
next
  case (OpAcknowledge now input)
  then show ?thesis by (simp add: acknowledge_command_transaction_def Let_def split: option.split)
qed simp

text \<open>
  What the transactions rely on: a store that can be viewed as a representation
  of one state, commits only from the state it represents to the one it is
  given, and is left as it was by a refused commit.
\<close>

locale durable_store =
  fixes cas :: "'db cas"
    and view :: "'db \<Rightarrow> 'v"
    and repr :: "StoredState \<Rightarrow> 'v option"
  assumes commit: "cas db expected candidate = (True, db') \<Longrightarrow>
      repr expected = Some (view db) \<and> repr candidate = Some (view db')"
    and refuse: "cas db expected candidate = (False, db') \<Longrightarrow> view db' = view db"
begin

lemma op_effect:
  "memory (control_op H cas op s) = memory s \<and> view (app_db (control_op H cas op s)) = view (app_db s)
   \<or> repr (memory s) = Some (view (app_db s))
     \<and> repr (memory (control_op H cas op s)) = Some (view (app_db (control_op H cas op s)))"
proof -
  consider "control_op H cas op s = s"
    | candidate ok where "cas (app_db s) (memory s) candidate = (ok, app_db (control_op H cas op s))"
        "memory (control_op H cas op s) = (if ok then candidate else memory s)"
    using op_persisted [of cas s H op] unfolding persisted_def by blast
  then show ?thesis
  proof cases
    case (2 candidate ok)
    then show ?thesis using commit refuse by (cases ok) auto
  qed simp
qed

lemma run_in_sync:
  "control_run H cas s ops t \<Longrightarrow> repr (memory s) = Some (view (app_db s)) \<Longrightarrow> repr (memory t) = Some (view (app_db t))"
  by (induction rule: control_run.induct) (metis op_effect)+

lemma run_stale:
  "control_run H cas s ops t \<Longrightarrow> repr (memory s) \<noteq> Some (view (app_db s)) \<Longrightarrow>
   memory t = memory s \<and> view (app_db t) = view (app_db s)"
  by (induction rule: control_run.induct) (metis op_effect)+

end

definition stored_repr :: "Hashing \<Rightarrow> Codec \<Rightarrow> StoredState \<Rightarrow> RelationalState option" where
  "stored_repr H T st = (case snapshot_from_stored H T st of Inl _ \<Rightarrow> None | Inr snap \<Rightarrow> Some (materialize H T snap))"

interpretation sqlite: durable_store "sqlite_cas H T" db_tables "stored_repr H T" for H T
proof
  fix db expected candidate db'
  show "stored_repr H T expected = Some (db_tables db) \<and> stored_repr H T candidate = Some (db_tables db')"
    if "sqlite_cas H T db expected candidate = (True, db')"
    using that
    by (auto simp: sqlite_cas_def compare_and_swap_def compare_and_swap_snapshot_def stored_repr_def map_err_def Let_def
        and_then_def split: sum.splits if_splits prod.splits)
  show "db_tables db' = db_tables db" if "sqlite_cas H T db expected candidate = (False, db')"
    using that by (auto simp: sqlite_cas_def split: sum.splits prod.splits)
qed


section \<open>States accepted by the store are named\<close>

lemma fold_result_each:
  "fold_result f xs s = Inr s' \<Longrightarrow> x \<in> set xs \<Longrightarrow> \<exists>a b. f x a = Inr b"
  by (induction xs arbitrary: s) (auto split: sum.splits)

lemma validated_rows_named:
  assumes "validate_rows H T rows = Inr snap"
  shows "r \<in> set (rows_devices rows) \<Longrightarrow> row_node_id r \<noteq> []"
    and "c \<in> set (rows_command_results rows) \<Longrightarrow> cmd_device_id (result_command c) \<noteq> []"
proof -
  obtain ds res where f: "fold_result validate_device_row (rows_devices rows) [] = Inr ds"
    "fold_result (validate_result_row H T) (rows_command_results rows) ([], []) = Inr res"
    using assms by (auto simp: validate_rows_def and_then_Inr_iff split: if_splits)
  show "row_node_id r \<noteq> []" if "r \<in> set (rows_devices rows)"
    using fold_result_each [OF f(1) that] by (auto simp: validate_device_row_def split: if_splits)
  show "cmd_device_id (result_command c) \<noteq> []" if "c \<in> set (rows_command_results rows)"
    using fold_result_each [OF f(2) that] by (auto simp: validate_result_row_def Let_def split: if_splits prod.splits)
qed

lemma repr_stored_ok:
  assumes inv: "command_inv H (stored_commands st)" "device_inv (stored_devices st)" and rep: "stored_repr H T st = Some t"
  shows "stored_ok H st"
proof -
  let ?cs = "stored_commands st"
  have ri: "replay_inv H MAX_IDEMPOTENCY_RESULTS ?cs" using inv(1) by (simp add: command_inv_def)
  obtain snap where "snapshot_from_stored H T st = Inr snap" using rep by (auto simp: stored_repr_def split: sum.splits)
  then have v: "validate_rows H T \<lparr>rows_devices = device_rows (bt_of_list (stored_devices st)),
      rows_command_results = result_rows (map (ReplayRecord_from_command H) (retained ?cs)),
      rows_idempotency_claims = claim_rows (map (ReplayRecord_from_command H) (retained ?cs)),
      rows_pending_commands = pending_rows (bt_of_list (queues ?cs))\<rparr> = Inr snap"
    using ordered_replays [OF ri]
    by (auto simp: snapshot_from_stored_def Let_def and_then_Inr_iff snapshot_from_parts_def map_err_def split: if_splits sum.splits)
  note N = validated_rows_named [OF v, simplified]
  have "k \<noteq> []" if "(k, d) \<in> set (stored_devices st)" for k d
  proof -
    have "distinct (map fst (stored_devices st))" using inv(2) by (simp add: device_inv_def)
    then have "(k, d) \<in> set (bt_of_list (stored_devices st))" using that by (simp add: set_bt_of_list)
    then show ?thesis using N(1) [of "\<lparr>row_node_id = k, row_record = d\<rparr>"] by (force simp: device_rows_def)
  qed
  moreover have "cmd_device_id c \<noteq> []" if mem: "(k, c) \<in> set (idempotency_results ?cs)" for k c
  proof -
    have m: "map_of (idempotency_results ?cs) k = Some c" using mem replay_invD(2) [OF ri] by (simp add: map_of_eq_Some_iff)
    then have "c \<in> set (retained ?cs)" using retained_facts(2) [OF ri] replay_invD(3) [OF ri m] by simp
    then show ?thesis using N(2) by (force simp: result_rows_def)
  qed
  ultimately show ?thesis using inv by (auto simp: stored_ok_def stored_named_def list_all_iff)
qed

lemma repr_stored_tables:
  assumes "stored_ok H st" "inj (cid_text T)"
  shows "stored_repr H T st = Some (stored_tables H T st)"
  using snapshot_taken [OF assms] by (simp add: stored_repr_def stored_tables_def)

section \<open>Transactions on a healthy store\<close>

definition always :: "'db cas" where
  "always db expected candidate = (True, db)"

fun storage_failed :: "Hashing \<Rightarrow> 'db cas \<Rightarrow> ControlOp \<Rightarrow> 'db AppState \<Rightarrow> bool" where
  "storage_failed H cas (OpRegister now r) s = (fst (register_device_transaction cas now r s) = Inl RegisterPersistence)"
| "storage_failed H cas (OpHeartbeat now r) s = (fst (heartbeat_transaction cas now r s) = Inl HeartbeatPersistence)"
| "storage_failed H cas (OpProbe now d r) s = (fst (public_probe_transaction cas now d r s) = Inl ProbePersistence)"
| "storage_failed H cas (OpIssue i now input) s = (fst (issue_command_transaction H cas i now input s) = Inl IssuePersistence)"
| "storage_failed H cas (OpPoll d) s = False"
| "storage_failed H cas (OpAcknowledge now input) s = (fst (acknowledge_command_transaction cas now input s) = Inl AckPersistence)"

fun op_named :: "ControlOp \<Rightarrow> bool" where
  "op_named (OpRegister now r) = (reg_node_id r \<noteq> [])"
| "op_named (OpHeartbeat now r) = (hb_node_id r \<noteq> [])"
| "op_named (OpIssue i now input) = (issue_device_id input \<noteq> [])"
| "op_named _ = True"

lemma commit_outcomes [simp]:
  "fst (case persist_candidate cas (app_db s) (app_devices s) (app_commands s) devices commands of
      (False, db) \<Rightarrow> (Inl e, f db) | (True, db) \<Rightarrow> (Inr r, g db)) = Inl e'
    \<longleftrightarrow> e' = e \<and> \<not> fst (cas (app_db s) (memory s) \<lparr>stored_devices = devices, stored_commands = commands\<rparr>)"
  "(case persist_candidate always db d c devices commands of (False, db) \<Rightarrow> (Inl e, f db) | (True, db) \<Rightarrow> (Inr r, g db)) = (Inr r, g db)"
  by (auto simp: persist_candidate_def always_def memory_def split: prod.splits bool.splits)

text \<open>A transaction fails in storage only if the store refused the state it would otherwise have moved to.\<close>

lemma failed_candidate:
  assumes "storage_failed H cas op s"
  shows "\<not> fst (cas (app_db s) (memory s) (memory (control_op H always op s)))"
proof (cases op)
  case (OpRegister now r)
  with assms show ?thesis
    by (auto simp: register_device_transaction_def Let_def memory_def
        split: option.splits if_splits)
next
  case (OpHeartbeat now r)
  with assms show ?thesis
    by (auto simp: heartbeat_transaction_def Let_def memory_def
        split: option.splits if_splits)
next
  case (OpProbe now d r)
  with assms show ?thesis
    by (auto simp: public_probe_transaction_def Let_def memory_def
        split: option.splits if_splits)
next
  case (OpIssue i now input)
  let ?tx = "\<lambda>cas. issue_command_transaction H cas i now input s"
  have tx: "fst (?tx cas) = Inl IssuePersistence" using assms OpIssue by simp
  show ?thesis
  proof (cases "normalize_command_state H (app_commands s)")
    case (Some n)
    obtain commands m where n: "n = (commands, m)" by force
    let ?scope = "scope_text H (issue_device_id input) (req_idempotency_key (issue_request input))"
    show ?thesis
    proof (cases "map_of (idempotency_results commands) ?scope")
      case None
      then show ?thesis
        using tx Some n OpIssue
        by (cases "trim_idempotency_state (enqueue_command H (new_command i now input) commands)")
          (auto simp: issue_command_transaction_def Let_def memory_def split: if_splits)
    next
      case (Some c)
      then show ?thesis
        using tx \<open>normalize_command_state H (app_commands s) = Some n\<close> n OpIssue
        by (cases "classify_existing H c (issue_device_id input) (issue_request input)")
          (auto simp: issue_command_transaction_def classify_existing_def Let_def memory_def split: if_splits)
    qed
  qed (use tx in \<open>simp add: issue_command_transaction_def\<close>)
next
  case (OpAcknowledge now input)
  with assms show ?thesis
    by (auto simp: acknowledge_command_transaction_def Let_def memory_def
        split: option.splits if_splits)
qed (use assms in simp)


lemma op_device_keys:
  assumes "op_named op" "[] \<notin> fst ` set (app_devices s)"
  shows "[] \<notin> fst ` set (app_devices (control_op H cas op s))"
proof -
  have amend: "fst ` set (AList.update k d ds) = insert k (fst ` set ds)" for k d and ds :: device_map
    by (simp add: dom_update)
  have marks: "fst ` set (mark_issued c ds) = fst ` set ds" "fst ` set (mark_acknowledged now d ds) = fst ` set ds" for c d now ds
    by (auto simp: mark_issued_def mark_acknowledged_def amend insert_absorb dest: map_of_SomeD split: option.split)
      (metis dom_map_of_conv_image_fst domI)+
  show ?thesis
  proof (cases op)
    case (OpRegister now r)
    obtain res t where t: "register_device_transaction cas now r s = (res, t)" by force
    have "app_devices t = app_devices s \<or> (\<exists>d. app_devices t = AList.update (reg_node_id r) d (app_devices s))"
      using t by (auto simp: register_device_transaction_def Let_def split: if_splits option.splits prod.splits bool.splits)
    then show ?thesis using assms t OpRegister by (elim disjE exE) (simp_all add: amend)
  next
    case (OpHeartbeat now r)
    obtain res t where t: "heartbeat_transaction cas now r s = (res, t)" by force
    have "app_devices t = app_devices s \<or> (\<exists>d. app_devices t = AList.update (hb_node_id r) d (app_devices s))"
      using t by (auto simp: heartbeat_transaction_def Let_def split: if_splits option.splits prod.splits bool.splits)
    then show ?thesis using assms t OpHeartbeat by (elim disjE exE) (simp_all add: amend)
  next
    case (OpProbe now d r)
    obtain res t where t: "public_probe_transaction cas now d r s = (res, t)" by force
    have "app_devices t = app_devices s \<or> (\<exists>e x. (d, x) \<in> set (app_devices s) \<and> app_devices t = AList.update d e (app_devices s))"
      using t by (auto simp: public_probe_transaction_def Let_def dest: map_of_SomeD split: if_splits option.splits prod.splits bool.splits)
    then show ?thesis using assms t OpProbe by (elim disjE exE conjE) (simp_all add: amend, force)
  next
    case (OpIssue i now input)
    obtain res t where t: "issue_command_transaction H cas i now input s = (res, t)" by force
    have "app_devices t = app_devices s \<or> (\<exists>c. app_devices t = mark_issued c (app_devices s))"
      using t by (auto simp: issue_command_transaction_def Let_def split: if_splits option.splits prod.splits bool.splits sum.splits)
    then show ?thesis using assms t OpIssue by (elim disjE exE) (simp_all add: marks)
  next
    case (OpAcknowledge now input)
    obtain res t where t: "acknowledge_command_transaction cas now input s = (res, t)" by force
    have "app_devices t = app_devices s \<or> (\<exists>d. app_devices t = mark_acknowledged now d (app_devices s))"
      using t by (auto simp: acknowledge_command_transaction_def Let_def split: if_splits option.splits prod.splits bool.splits)
    then show ?thesis using assms t OpAcknowledge by (elim disjE exE) (simp_all add: marks)
  qed (use assms in simp)
qed

lemma trim_results:
  "trim_idempotency_state cs = Some (n, cs') \<Longrightarrow> map_of (idempotency_results cs') \<subseteq>\<^sub>m map_of (idempotency_results cs)"
proof (induction cs arbitrary: n cs' rule: trim_idempotency_state.induct)
  case (1 cs)
  show ?case
  proof (cases "length (idempotency_order cs) > MAX_IDEMPOTENCY_RESULTS")
    case True
    then obtain i m where i: "find_position (evictable cs) (idempotency_order cs) = Some i"
      "trim_idempotency_state (evict_key (idempotency_order cs ! i) (cs\<lparr>idempotency_order := remove_at i (idempotency_order cs)\<rparr>)) = Some (m, cs')"
      using 1(2) by (subst (asm) trim_idempotency_state.simps) (auto simp: Let_def split: option.splits)
    have "map_of (idempotency_results (evict_key k cs1)) \<subseteq>\<^sub>m map_of (idempotency_results cs1)" for k cs1
      by (auto simp: evict_key_def remove_claim_def map_le_def AList.delete_conv' split: option.splits if_splits)
    from map_le_trans [OF 1(1) [OF True i(1) refl refl i(2)] this] show ?thesis by simp
  next
    case False
    then show ?thesis using 1(2) by (subst (asm) trim_idempotency_state.simps) simp
  qed
qed

end
