(* ===== verification/Durability.thy ===== *)
theory Durability
  imports Durable_State
begin

text \<open>
  What the SQLite store gives the control plane: no transaction of a
  well-formed state is refused by a healthy store, memory and tables agree after
  every history, a writer with stale memory changes nothing, and a restart reads
  the committed state back.
\<close>

declare map_of_eq_Some_iff [simp del] Some_eq_map_of_iff [simp del]

section \<open>Candidates of the transactions\<close>

lemma op_results:
  assumes H: "hex_text H" and inv: "command_inv H (app_commands s)" and ok: "op_admissible op s"
    and res: "map_of (idempotency_results (app_commands (control_op H cas op s))) k = Some c"
  shows "map_of (idempotency_results (app_commands s)) k = Some c
       \<or> (\<exists>i now input. op = OpIssue i now input \<and> c = new_command i now input)"
proof (cases op)
  case (OpRegister now r)
  obtain x t where t: "register_device_transaction cas now r s = (x, t)" by force
  show ?thesis using register_effect(1) [OF t] t res OpRegister by simp
next
  case (OpHeartbeat now r)
  obtain x t where t: "heartbeat_transaction cas now r s = (x, t)" by force
  show ?thesis using heartbeat_effect(1) [OF t] t res OpHeartbeat by simp
next
  case (OpProbe now d r)
  obtain x t where t: "public_probe_transaction cas now d r s = (x, t)" by force
  show ?thesis using probe_effect(1) [OF t] t res OpProbe by simp
next
  case (OpIssue i now input)
  have adm: "issue_admissible i input (app_commands s)" using ok OpIssue by simp
  show ?thesis
  proof (cases rule: issue_cases [OF H inv adm, of cas now])
    case (5 db cs')
    obtain n where "trim_idempotency_state (enqueue_command H (new_command i now input) (app_commands s)) = Some (n, cs')"
      using 5(9) by blast
    from trim_results [OF this] have "map_of (idempotency_results (enqueue_command H (new_command i now input) (app_commands s))) k = Some c"
      using res 5(8) OpIssue by (auto simp: map_le_def) (metis domI)
    then show ?thesis using OpIssue by (auto simp: enqueue_command_def Let_def update_conv' split: if_splits)
  qed (use OpIssue res in simp_all)
next
  case (OpAcknowledge now input)
  show ?thesis
    by (cases rule: ack_cases [OF inv, of input cas now]) (use OpAcknowledge res in \<open>simp_all add: dequeue_def Let_def\<close>)
qed (use res in simp)

lemma op_candidate:
  assumes H: "hex_text H" and inv: "control_inv H s" and named: "stored_named (memory s)"
    and ok: "op_admissible op s" "op_named op"
  shows "stored_ok H (memory (control_op H cas op s))"
    and "shared_commands (app_commands s) (app_commands (control_op H cas op s))"
proof -
  let ?t = "control_op H cas op s"
  have I: "command_inv H (app_commands s)" "device_inv (app_devices s)" using inv by (simp_all add: control_inv_def)
  have J: "control_inv H ?t" by (rule control_op_inv [OF H inv ok(1)])
  have ri: "replay_inv H MAX_IDEMPOTENCY_RESULTS (app_commands s)" "replay_inv H MAX_IDEMPOTENCY_RESULTS (app_commands ?t)"
    using I(1) J by (simp_all add: control_inv_def command_inv_def)
  note new = op_results [OF H I(1) ok(1), of cas]
  have "[] \<notin> fst ` set (app_devices s)" using named by (auto simp: stored_named_def list_all_iff)
  then have keys: "[] \<notin> fst ` set (app_devices ?t)" by (rule op_device_keys [OF ok(2)])
  have "cmd_device_id c \<noteq> []" if mem: "(k, c) \<in> set (idempotency_results (app_commands ?t))" for k c
  proof -
    have "map_of (idempotency_results (app_commands ?t)) k = Some c"
      using mem replay_invD(2) [OF ri(2)] by (simp add: map_of_eq_Some_iff)
    from new [OF this] show ?thesis
      using ok(2) named by (auto simp: stored_named_def list_all_iff dest: map_of_SomeD)
  qed
  then have "stored_named (memory ?t)" using keys by (force simp: stored_named_def list_all_iff)
  then show "stored_ok H (memory ?t)" using J by (simp add: stored_ok_def control_inv_def)
  show "shared_commands (app_commands s) (app_commands ?t)"
    unfolding shared_commands_def
  proof (intro allI impI)
    fix k c k' c' assume c: "map_of (idempotency_results (app_commands s)) k = Some c"
      "map_of (idempotency_results (app_commands ?t)) k' = Some c'" "cmd_command_id c = cmd_command_id c'"
    from new [OF c(2)] show "c = c'"
    proof
      assume "map_of (idempotency_results (app_commands s)) k' = Some c'"
      from replay_invD(7) [OF ri(1) c(1) this c(3)] c(1) \<open>map_of (idempotency_results (app_commands s)) k' = Some c'\<close>
      show ?thesis by simp
    next
      assume "\<exists>i now input. op = OpIssue i now input \<and> c' = new_command i now input"
      then have "fresh_id (app_commands s) (cmd_command_id c')" using ok(1) by (auto simp: issue_admissible_def)
      with fresh_idD [OF this c(1)] c(3) show ?thesis by simp
    qed
  qed
qed


lemma in_sync_tables:
  assumes "control_inv H s" "codec_texts T" "stored_repr H T (memory s) = Some (db_tables (app_db s))"
  shows "stored_ok H (memory s)" "db_tables (app_db s) = stored_tables H T (memory s)"
proof -
  show ok: "stored_ok H (memory s)"
    using assms(1) by (intro repr_stored_ok [OF _ _ assms(3)]) (simp_all add: control_inv_def)
  show "db_tables (app_db s) = stored_tables H T (memory s)"
    using repr_stored_tables [OF ok, of T] assms(2,3) by (simp add: codec_texts_def)
qed

section \<open>A concrete codec\<close>

definition sample_codec :: Codec where
  "sample_codec =
     \<lparr>cid_text = (\<lambda>i. case i of CommandId u \<Rightarrow> hex_of 32 (unat u)), cid_parse = (\<lambda>s. Some (CommandId (of_nat (of_hex s)))),
      encode_device = (\<lambda>d. ''{}''), decode_device = (\<lambda>s. None),
      encode_command = (\<lambda>c. ''{}''), decode_command = (\<lambda>s. Some sample_command), json_valid = (\<lambda>s. True)\<rparr>"

definition empty_tables :: RelationalState where
  "empty_tables = \<lparr>rel_devices = [], rel_results = [], rel_claims = [], rel_pending = []\<rparr>"

definition empty_db :: SqliteDb where
  "empty_db = \<lparr>db_tables = empty_tables, db_env = []\<rparr>"

lemma sample_cid: "cid_parse sample_codec (cid_text sample_codec i) = Some i"
proof -
  obtain u where "i = CommandId u" by (cases i)
  moreover have "unat u < 16 ^ 32" using unsigned_less [of u] by simp
  ultimately show ?thesis by (simp add: sample_codec_def of_hex_of)
qed

lemma sample_texts: "codec_texts sample_codec"
proof -
  have "inj (cid_text sample_codec)" by (metis injI option.inject sample_cid)
  moreover have "cid_text sample_codec i \<noteq> []" for i
    by (cases i) (simp add: sample_codec_def flip: length_greater_0_conv add: hex_of_text)
  ultimately show ?thesis by (simp add: codec_texts_def) (simp add: sample_codec_def)
qed

lemma sample_hex_reads: "hex_reads sample_hashing"
  using sample_hex_roundtrip sample_hex_shape by (simp add: hex_reads_def)

lemma start_in_sync: "codec_texts T \<Longrightarrow> db_tables db = empty_tables \<Longrightarrow>
  stored_repr H T (memory (control_start db)) = Some (db_tables (app_db (control_start db)))"
  by (simp add: stored_repr_def snapshot_from_stored_def validate_legacy_claims_def same_map_def snapshot_from_parts_def
      validate_rows_def snapshot_row_defs collect_replay_def materialize_def snapshot_rows_def Let_def map_err_def
      CommandState_default_def bt_of_list_def empty_tables_def)

lemma start_named [simp]: "stored_named (memory (control_start db))"
  by (simp add: stored_named_def CommandState_default_def)

section \<open>Healthy stores never refuse\<close>

text \<open>
  C31: On a healthy store whose tables represent the state in memory, no
  registration, heartbeat, probe report, issue request or acknowledgement for a
  named device fails in storage: the snapshot validation, every constraint of the
  schema (primary keys, uniqueness, foreign keys, checks) and the parity check
  after the writes pass.
\<close>

theorem healthy_store_accepts:
  assumes "hex_text H" "codec_texts T" "control_inv H s" "op_admissible op s" "op_named op"
    and "next_env (app_db s) = sql_healthy" "stored_repr H T (memory s) = Some (db_tables (app_db s))"
  shows "\<not> storage_failed H (sqlite_cas H T) op s"
proof
  assume "storage_failed H (sqlite_cas H T) op s"
  then have no: "\<not> fst (sqlite_cas H T (app_db s) (memory s) (memory (control_op H always op s)))"
    by (rule failed_candidate)
  note sync = in_sync_tables [OF assms(3,2,7)]
  have "stored_named (memory s)" using sync(1) by (simp add: stored_ok_def)
  note c = op_candidate [OF assms(1,3) this assms(4,5), of always]
  from cas_commits [OF sync(1) c(1) assms(2) _ assms(6) sync(2)] c(2) no show False by simp
qed

theorem healthy_store_accepts_witness:
  "fst (issue_command_transaction sample_hashing (sqlite_cas sample_hashing sample_codec) 1 ''10''
     (sample_input ''dev'' ''k1'' RestartRuntime) (control_start empty_db)) \<noteq> Inl IssuePersistence"
  using healthy_store_accepts [OF sample_hex_text sample_texts control_start_inv, of "OpIssue 1 ''10'' (sample_input ''dev'' ''k1'' RestartRuntime)" empty_db]
    start_in_sync [OF sample_texts, of empty_db] sample_admissible
  by (simp add: empty_db_def next_env_def sample_input_def)

section \<open>Memory and tables\<close>

text \<open>
  C33: If the tables represent the state in memory, they still do after every
  history of transactions, whichever calls of the database fail and wherever.
\<close>

theorem memory_and_tables_agree:
  assumes "control_run H (sqlite_cas H T) s ops t" "stored_repr H T (memory s) = Some (db_tables (app_db s))"
  shows "stored_repr H T (memory t) = Some (db_tables (app_db t))"
  using assms by (rule sqlite.run_in_sync)

definition flaky_db :: SqliteDb where
  "flaky_db = \<lparr>db_tables = empty_tables, db_env = [sql_healthy\<lparr>env_commit_ok := False\<rparr>]\<rparr>"

abbreviation sample_op :: ControlOp where
  "sample_op \<equiv> OpIssue 1 ''10'' (sample_input ''dev'' ''k1'' RestartRuntime)"

lemma sample_run: "control_run sample_hashing cas (control_start db) [sample_op] (control_op sample_hashing cas sample_op (control_start db))"
  using run_step [OF run_refl, of sample_op "control_start db" sample_hashing cas] sample_admissible by simp

theorem memory_and_tables_agree_witness:
  "let t = control_op sample_hashing (sqlite_cas sample_hashing sample_codec) sample_op (control_start flaky_db) in
     stored_repr sample_hashing sample_codec (memory t) = Some (db_tables (app_db t))"
  unfolding Let_def
  by (rule memory_and_tables_agree [OF sample_run start_in_sync [OF sample_texts]]) (simp add: flaky_db_def)

text \<open>
  A control plane whose memory is not what the tables represent (another
  writer committed in between) changes neither its memory nor the tables, however
  many transactions it tries.
\<close>

theorem stale_writer_changes_nothing:
  assumes "control_run H (sqlite_cas H T) s ops t" "stored_repr H T (memory s) \<noteq> Some (db_tables (app_db s))"
  shows "memory t = memory s \<and> db_tables (app_db t) = db_tables (app_db s)"
  using assms by (rule sqlite.run_stale)

definition other_db :: SqliteDb where
  "other_db = \<lparr>db_tables = empty_tables\<lparr>rel_devices := [(''n'', ''{}'')]\<rparr>, db_env = []\<rparr>"

theorem stale_writer_changes_nothing_witness:
  "db_tables (app_db (control_op sample_hashing (sqlite_cas sample_hashing sample_codec) sample_op (control_start other_db)))
     = db_tables other_db"
proof -
  have "stored_repr sample_hashing sample_codec (memory (control_start other_db)) = Some empty_tables"
    using start_in_sync [OF sample_texts, of empty_db sample_hashing] by (simp add: empty_db_def memory_def)
  then have "stored_repr sample_hashing sample_codec (memory (control_start other_db)) \<noteq> Some (db_tables (app_db (control_start other_db)))"
    by (simp add: other_db_def empty_tables_def)
  from stale_writer_changes_nothing [OF sample_run this] show ?thesis by simp
qed

section \<open>Restart\<close>

text \<open>
  C32: After any history that began with empty tables, a restart over a healthy
  store succeeds and reads the state in memory back: the same devices, queues,
  legacy claims and retained results, all invariants intact.  Only the retention
  order differs: it is rebuilt in the order of the scope digests.
\<close>

theorem restart_reads_state_back:
  assumes "hex_text H" "hex_reads H" "codec_texts T" "db_tables db = empty_tables"
    and "control_run H (sqlite_cas H T) (control_start db) ops s"
    and "codec_reads T (memory s)" "next_env (app_db s) = sql_healthy"
  shows "\<exists>s'. AppState_load H T (app_db s) = Inr s' \<and> same_stored (memory s) (memory s') \<and> control_inv H s'
    \<and> idempotency_order (app_commands s') = sort (idempotency_order (app_commands s))
    \<and> db_tables (app_db s') = db_tables (app_db s)"
proof -
  have inv: "control_inv H s" by (rule control_run_inv [OF assms(1,5) control_start_inv])
  have "stored_repr H T (memory s) = Some (db_tables (app_db s))"
    by (rule sqlite.run_in_sync [OF assms(5) start_in_sync [OF assms(3,4)]])
  note sync = in_sync_tables [OF inv assms(3) this]
  obtain st' where st': "AppState_load H T (app_db s) = Inr \<lparr>app_devices = stored_devices st', app_commands = stored_commands st',
      app_db = (app_db s)\<lparr>db_env := tl (db_env (app_db s))\<rparr>\<rparr>"
    "same_stored (memory s) st'" "idempotency_order (stored_commands st') = sort (idempotency_order (app_commands s))" "stored_ok H st'"
    using load_committed [OF sync(1) assms(3,6,2,7) sync(2)] by (metis memory_simps(2))
  have "rotate_inv (stored_commands st')"
    using inv st'(2) by (simp add: control_inv_def rotate_inv_def queue_of_def same_stored_def)
  then show ?thesis
    using st' by (auto simp: control_inv_def stored_ok_def memory_def same_stored_def)
qed


lemma op_env: "db_env (app_db s) = [] \<Longrightarrow> db_env (app_db (control_op H (sqlite_cas H T) op s)) = []"
proof -
  have tl: "db_env (snd (sqlite_cas H T db a b)) = tl (db_env db)" for db a b
    by (simp add: sqlite_cas_def split: sum.split prod.split)
  show "db_env (app_db s) = [] \<Longrightarrow> db_env (app_db (control_op H (sqlite_cas H T) op s)) = []"
    using op_persisted [of "sqlite_cas H T" s H op] tl unfolding persisted_def by (metis list.sel(2) snd_conv)
qed

lemma sample_reads:
  "codec_reads sample_codec (memory (control_op sample_hashing (sqlite_cas sample_hashing sample_codec) sample_op (control_start empty_db)))"
proof -
  let ?s = "control_op sample_hashing (sqlite_cas sample_hashing sample_codec) sample_op (control_start empty_db)"
  have inv: "control_inv sample_hashing ?s" by (rule control_run_inv [OF sample_hex_text sample_run control_start_inv])
  have adm: "issue_admissible 1 (sample_input ''dev'' ''k1'' RestartRuntime) (app_commands (control_start empty_db))"
    and start: "command_inv sample_hashing (app_commands (control_start empty_db))"
    using sample_admissible default_command_inv by simp_all
  have "app_devices ?s = []"
    by (cases rule: issue_cases [OF sample_hex_text start adm, of "sqlite_cas sample_hashing sample_codec" "''10''"])
      (simp_all add: mark_issued_def)
  moreover have "c = sample_command" if "(k, c) \<in> set (idempotency_results (app_commands ?s))" for k c
  proof -
    have "distinct (map fst (idempotency_results (app_commands ?s)))"
      using inv replay_invD(2) by (auto simp: control_inv_def command_inv_def)
    then have "map_of (idempotency_results (app_commands ?s)) k = Some c" using that by (simp add: map_of_eq_Some_iff)
    from op_results [OF sample_hex_text _ _ this] show ?thesis
      using default_command_inv sample_admissible by (auto simp: CommandState_default_def sample_command_def)
  qed
  moreover have "decode_command sample_codec (encode_command sample_codec sample_command) = Some sample_command"
    by (simp add: sample_codec_def)
  ultimately show ?thesis
    using sample_cid unfolding codec_reads_def memory_simps by fastforce
qed

theorem restart_reads_state_back_witness:
  "let s = control_op sample_hashing (sqlite_cas sample_hashing sample_codec) sample_op (control_start empty_db) in
   \<exists>s'. AppState_load sample_hashing sample_codec (app_db s) = Inr s' \<and> same_stored (memory s) (memory s')"
proof -
  let ?s = "control_op sample_hashing (sqlite_cas sample_hashing sample_codec) sample_op (control_start empty_db)"
  have empty: "db_tables empty_db = empty_tables" by (simp add: empty_db_def)
  have "db_env (app_db ?s) = []" by (rule op_env) (simp add: empty_db_def)
  then have env: "next_env (app_db ?s) = sql_healthy" by (simp add: next_env_def)
  from restart_reads_state_back [OF sample_hex_text sample_hex_reads sample_texts empty sample_run sample_reads env]
  show ?thesis unfolding Let_def by blast
qed

end
