(* ===== verification/Vm_Ledger.thy ===== *)
theory Vm_Ledger
  imports Provider_Lifecycle
begin

text \<open>
  Model of \<open>apps/operator-cli/src/github_vm_binding_store.rs\<close>: the durable record
  of which acceptance machine belongs to a candidate, kept as a chain of GitHub
  deployment records.  Each operation lists the records, replays them, appends
  one record and lists again to verify its own write.  The responses of GitHub
  are the parameter \<open>Backend\<close> of one operation: other writers may have appended
  anything between two calls, and what is listed after a write may depend on
  what was written.  UUID parsing and printing are parameters.
\<close>

section \<open>Records\<close>

datatype AcceptanceVmIntentNamespace = Item19 | Item20

fun namespace_intent_id :: "AcceptanceVmIntentNamespace \<Rightarrow> string \<Rightarrow> string" where
  "namespace_intent_id Item19 sha = ''candidate:'' @ sha"
| "namespace_intent_id Item20 sha = ''item20:candidate:'' @ sha"

definition DEPLOYMENT_TASK :: string where
  "DEPLOYMENT_TASK = ''mobile-proxy:acceptance-vm-binding''"

definition DEPLOYMENT_ENVIRONMENT :: string where
  "DEPLOYMENT_ENVIRONMENT = ''acceptance-vm-binding-state''"

definition LEDGER_FORMAT_VERSION :: u64 where
  "LEDGER_FORMAT_VERSION = 2"

definition PAGE_SIZE :: nat where
  "PAGE_SIZE = 100"

definition MAX_LEDGER_PAGES :: nat where
  "MAX_LEDGER_PAGES = 100"

datatype LedgerTransition =
  PrepareCreate | DispatchCreate | Bind | Replace | PrepareDelete | DispatchDelete | Clear

record BindingPayload =
  payload_provider_id :: string
  payload_binding_generation :: u64

record GitHubDeploymentPayload =
  format_version :: u64
  payload_project :: string
  payload_managed_by :: string
  payload_candidate_sha :: string
  payload_scope :: LifecycleScope
  payload_intent_id :: string
  predecessor_deployment_id :: "u64 option"
  transition :: LedgerTransition
  payload_generation :: u64
  expected :: "BindingPayload option"
  replacement :: "BindingPayload option"

record DeploymentRecord =
  record_id :: u64
  record_sha :: string
  git_ref :: string
  task :: string
  environment :: string
  payload :: GitHubDeploymentPayload

record NewDeploymentRecord =
  new_candidate_sha :: string
  new_payload :: GitHubDeploymentPayload

datatype AcceptanceVmLifecycleState =
    VmEmpty
  | CreatePrepared Generation
  | CreateDispatched Generation
  | Bound VmBinding
  | DeletePrepared VmBinding
  | DeleteDispatched VmBinding
  | Terminal Generation

record LedgerState =
  head_id :: "u64 option"
  phase :: AcceptanceVmLifecycleState

datatype BindingStoreError =
    InvalidCandidateSha | StoreInvalidOwnershipIntent | InvalidProviderUuid | InvalidLedgerRecord
  | ForkedLedger | LedgerTooLarge | CompareAndSwapConflict | TerminalIntentReuse | OperationInProgress
  | CreateAlreadyDispatched | DeleteAlreadyDispatched | InvalidTransition | HttpTransport
  | HttpStatus nat | WriteVerificationFailed

record Uuids =
  uuid_parse :: "string \<Rightarrow> uuid option"
  uuid_text :: "uuid \<Rightarrow> string"

section \<open>Validation\<close>

definition validate_candidate_sha :: "string \<Rightarrow> BindingStoreError + unit" where
  "validate_candidate_sha sha =
     (if length sha \<noteq> 40 \<or> \<not> list_all is_lower_hex sha then Inl InvalidCandidateSha else Inr ())"

definition validate_provider_uuid :: "Uuids \<Rightarrow> string \<Rightarrow> BindingStoreError + unit" where
  "validate_provider_uuid U provider_id =
     and_then (ok_or InvalidProviderUuid (uuid_parse U provider_id)) (\<lambda>parsed.
       if uuid_text U parsed \<noteq> provider_id then Inl InvalidProviderUuid else Inr ())"

definition BindingPayload_from_binding :: "VmBinding \<Rightarrow> BindingPayload" where
  "BindingPayload_from_binding b =
     \<lparr>payload_provider_id = resource_id_as_str (binding_provider_id b),
      payload_binding_generation = generation_get (binding_generation b)\<rparr>"

definition BindingPayload_to_binding ::
  "Uuids \<Rightarrow> BindingPayload \<Rightarrow> OwnershipIntent \<Rightarrow> BindingStoreError + VmBinding" where
  "BindingPayload_to_binding U p intent =
     and_then (validate_provider_uuid U (payload_provider_id p)) (\<lambda>_.
     and_then (map_err (\<lambda>_. InvalidLedgerRecord) (ProviderResourceId_new (payload_provider_id p))) (\<lambda>provider_id.
     and_then (map_err (\<lambda>_. InvalidLedgerRecord) (Generation_new (payload_binding_generation p))) (\<lambda>generation.
     Inr \<lparr>binding_intent = intent, binding_provider_id = provider_id, binding_generation = generation\<rparr>)))"

definition allowed_intent_id :: "string \<Rightarrow> string \<Rightarrow> bool" where
  "allowed_intent_id sha ident = (ident = namespace_intent_id Item19 sha \<or> ident = namespace_intent_id Item20 sha)"

definition validate_payload_binding :: "Uuids \<Rightarrow> BindingPayload option \<Rightarrow> BindingStoreError + unit" where
  "validate_payload_binding U p =
     (case p of
        None \<Rightarrow> Inr ()
      | Some b \<Rightarrow>
          and_then (validate_provider_uuid U (payload_provider_id b)) (\<lambda>_.
          and_then (map_err (\<lambda>_. InvalidLedgerRecord) (Generation_new (payload_binding_generation b))) (\<lambda>_. Inr ())))"

definition validate_record_envelope :: "Uuids \<Rightarrow> string \<Rightarrow> DeploymentRecord \<Rightarrow> BindingStoreError + unit" where
  "validate_record_envelope U sha r =
     (let p = payload r in
      if record_sha r \<noteq> sha \<or> git_ref r \<noteq> sha \<or> task r \<noteq> DEPLOYMENT_TASK \<or> environment r \<noteq> DEPLOYMENT_ENVIRONMENT
         \<or> format_version p \<noteq> LEDGER_FORMAT_VERSION \<or> payload_project p \<noteq> OWNERSHIP_PROJECT
         \<or> payload_managed_by p \<noteq> OWNERSHIP_MANAGER \<or> payload_candidate_sha p \<noteq> sha
         \<or> payload_scope p \<noteq> Acceptance \<or> \<not> allowed_intent_id sha (payload_intent_id p)
      then Inl InvalidLedgerRecord
      else
        and_then (map_err (\<lambda>_. InvalidLedgerRecord) (Generation_new (payload_generation p))) (\<lambda>_.
        and_then (validate_payload_binding U (expected p)) (\<lambda>_.
        validate_payload_binding U (replacement p))))"

section \<open>Replaying the ledger\<close>

definition optional_binding ::
  "Uuids \<Rightarrow> OwnershipIntent \<Rightarrow> BindingPayload option \<Rightarrow> BindingStoreError + VmBinding option" where
  "optional_binding U intent p =
     (case p of None \<Rightarrow> Inr None
      | Some b \<Rightarrow> and_then (BindingPayload_to_binding U b intent) (\<lambda>v. Inr (Some v)))"

definition step_phase ::
  "AcceptanceVmLifecycleState \<Rightarrow> LedgerTransition \<Rightarrow> Generation \<Rightarrow> VmBinding option \<Rightarrow> VmBinding option
     \<Rightarrow> BindingStoreError + AcceptanceVmLifecycleState" where
  "step_phase ph tr generation exp rep =
     (case tr of
        PrepareCreate \<Rightarrow>
          if ph \<noteq> VmEmpty \<or> generation \<noteq> Generation_INITIAL \<or> exp \<noteq> None \<or> rep \<noteq> None then Inl InvalidTransition
          else Inr (CreatePrepared generation)
      | DispatchCreate \<Rightarrow>
          (case ph of
             CreatePrepared prepared \<Rightarrow>
               if prepared = generation \<and> exp = None \<and> rep = None then Inr (CreateDispatched generation)
               else Inl InvalidTransition
           | _ \<Rightarrow> Inl InvalidTransition)
      | Bind \<Rightarrow>
          (case ph of
             CreateDispatched dispatched \<Rightarrow>
               if dispatched = generation \<and> exp = None then
                 and_then (ok_or InvalidTransition rep) (\<lambda>binding.
                   if binding_generation binding \<noteq> generation then Inl InvalidTransition else Inr (Bound binding))
               else Inl InvalidTransition
           | _ \<Rightarrow> Inl InvalidTransition)
      | Replace \<Rightarrow>
          (case ph of
             Bound current \<Rightarrow>
               and_then (ok_or InvalidTransition exp) (\<lambda>e.
               and_then (ok_or InvalidTransition rep) (\<lambda>r.
               and_then (map_err (\<lambda>_. InvalidTransition) (Generation_next (binding_generation current))) (\<lambda>nxt.
               if e \<noteq> current \<or> binding_intent r \<noteq> binding_intent current
                  \<or> binding_provider_id r = binding_provider_id current \<or> binding_generation r \<noteq> nxt \<or> generation \<noteq> nxt
               then Inl InvalidTransition else Inr (Bound r))))
           | _ \<Rightarrow> Inl InvalidTransition)
      | PrepareDelete \<Rightarrow>
          (case ph of
             Bound current \<Rightarrow>
               and_then (ok_or InvalidTransition exp) (\<lambda>e.
               if e \<noteq> current \<or> generation \<noteq> binding_generation current \<or> rep \<noteq> None then Inl InvalidTransition
               else Inr (DeletePrepared current))
           | _ \<Rightarrow> Inl InvalidTransition)
      | DispatchDelete \<Rightarrow>
          (case ph of
             DeletePrepared current \<Rightarrow>
               and_then (ok_or InvalidTransition exp) (\<lambda>e.
               if e \<noteq> current \<or> generation \<noteq> binding_generation current \<or> rep \<noteq> None then Inl InvalidTransition
               else Inr (DeleteDispatched current))
           | _ \<Rightarrow> Inl InvalidTransition)
      | Clear \<Rightarrow>
          (case ph of
             DeleteDispatched current \<Rightarrow>
               and_then (ok_or InvalidTransition exp) (\<lambda>e.
               if e \<noteq> current \<or> generation \<noteq> binding_generation current \<or> rep \<noteq> None then Inl InvalidTransition
               else Inr (Terminal (binding_generation current)))
           | _ \<Rightarrow> Inl InvalidTransition))"

definition apply_record ::
  "Uuids \<Rightarrow> AcceptanceVmLifecycleState \<Rightarrow> GitHubDeploymentPayload \<Rightarrow> OwnershipIntent
     \<Rightarrow> BindingStoreError + AcceptanceVmLifecycleState" where
  "apply_record U ph p intent =
     and_then (map_err (\<lambda>_. InvalidLedgerRecord) (Generation_new (payload_generation p))) (\<lambda>generation.
     and_then (optional_binding U intent (expected p)) (\<lambda>exp.
     and_then (optional_binding U intent (replacement p)) (\<lambda>rep.
     step_phase ph (transition p) generation exp rep)))"

fun select_records ::
  "Uuids \<Rightarrow> string \<Rightarrow> OwnershipIntent \<Rightarrow> DeploymentRecord list \<Rightarrow> BindingStoreError + DeploymentRecord list" where
  "select_records U sha intent [] = Inr []"
| "select_records U sha intent (r # rs) =
     and_then (validate_record_envelope U sha r) (\<lambda>_.
     and_then (select_records U sha intent rs) (\<lambda>selected.
     Inr (if payload_intent_id (payload r) = intent_id intent then r # selected else selected)))"

fun replay ::
  "Uuids \<Rightarrow> OwnershipIntent \<Rightarrow> DeploymentRecord list \<Rightarrow> u64 set \<Rightarrow> LedgerState \<Rightarrow> BindingStoreError + LedgerState" where
  "replay U intent [] seen st = Inr st"
| "replay U intent (r # rs) seen st =
     (if record_id r \<in> seen then Inl ForkedLedger
      else if predecessor_deployment_id (payload r) \<noteq> head_id st then Inl ForkedLedger
      else
        and_then (apply_record U (phase st) (payload r) intent) (\<lambda>ph.
        replay U intent rs (insert (record_id r) seen) \<lparr>head_id = Some (record_id r), phase = ph\<rparr>))"

definition reconstruct_ledger ::
  "Uuids \<Rightarrow> DeploymentRecord list \<Rightarrow> string \<Rightarrow> OwnershipIntent \<Rightarrow> BindingStoreError + LedgerState" where
  "reconstruct_ledger U records sha intent =
     and_then (validate_candidate_sha sha) (\<lambda>_.
     if intent_scope intent \<noteq> Acceptance \<or> \<not> allowed_intent_id sha (intent_id intent) then Inl StoreInvalidOwnershipIntent
     else
       and_then (select_records U sha intent records) (\<lambda>selected.
       replay U intent (sort_key record_id selected) {} \<lparr>head_id = None, phase = VmEmpty\<rparr>))"

section \<open>The deployment service\<close>

datatype 'a HttpReply = TransportFailed | HttpReply nat "'a option"

fun list_pages ::
  "(nat \<Rightarrow> DeploymentRecord list HttpReply) \<Rightarrow> nat list \<Rightarrow> DeploymentRecord list \<Rightarrow> BindingStoreError + DeploymentRecord list" where
  "list_pages fetch [] records = Inl LedgerTooLarge"
| "list_pages fetch (page # pages) records =
     (case fetch page of
        TransportFailed \<Rightarrow> Inl HttpTransport
      | HttpReply status body \<Rightarrow>
          if status \<noteq> 200 then Inl (HttpStatus status)
          else
            and_then (ok_or HttpTransport body) (\<lambda>page_records.
            if length page_records < PAGE_SIZE then Inr (records @ page_records)
            else list_pages fetch pages (records @ page_records)))"

definition list_records :: "(nat \<Rightarrow> DeploymentRecord list HttpReply) \<Rightarrow> BindingStoreError + DeploymentRecord list" where
  "list_records fetch = list_pages fetch [1..<Suc MAX_LEDGER_PAGES] []"

definition append_record ::
  "(NewDeploymentRecord \<Rightarrow> DeploymentRecord HttpReply) \<Rightarrow> NewDeploymentRecord \<Rightarrow> BindingStoreError + DeploymentRecord" where
  "append_record post r =
     (case post r of
        TransportFailed \<Rightarrow> Inl HttpTransport
      | HttpReply status body \<Rightarrow> if status \<noteq> 201 then Inl (HttpStatus status) else ok_or HttpTransport body)"

record Backend =
  get_before :: "nat \<Rightarrow> DeploymentRecord list HttpReply"
  post_record :: "NewDeploymentRecord \<Rightarrow> DeploymentRecord HttpReply"
  get_after :: "NewDeploymentRecord \<Rightarrow> nat \<Rightarrow> DeploymentRecord list HttpReply"

section \<open>Operations of the store\<close>

record BindingStore =
  candidate_sha :: string
  store_intent :: OwnershipIntent

definition new_with_namespace ::
  "string \<Rightarrow> string \<Rightarrow> AcceptanceVmIntentNamespace \<Rightarrow> BindingStoreError + BindingStore" where
  "new_with_namespace github_token sha namespace =
     and_then (validate_candidate_sha sha) (\<lambda>_.
     and_then (map_err (\<lambda>_. StoreInvalidOwnershipIntent) (OwnershipIntent_new Acceptance (namespace_intent_id namespace sha))) (\<lambda>intent.
     if github_token = [] then Inl HttpTransport
     else Inr \<lparr>candidate_sha = sha, store_intent = intent\<rparr>))"

definition validate_intent :: "BindingStore \<Rightarrow> OwnershipIntent \<Rightarrow> BindingStoreError + unit" where
  "validate_intent S intent = (if intent \<noteq> store_intent S then Inl StoreInvalidOwnershipIntent else Inr ())"

definition validate_binding :: "Uuids \<Rightarrow> BindingStore \<Rightarrow> VmBinding \<Rightarrow> BindingStoreError + unit" where
  "validate_binding U S b =
     and_then (validate_intent S (binding_intent b)) (\<lambda>_.
     validate_provider_uuid U (resource_id_as_str (binding_provider_id b)))"

definition current_state ::
  "Uuids \<Rightarrow> BindingStore \<Rightarrow> (nat \<Rightarrow> DeploymentRecord list HttpReply) \<Rightarrow> OwnershipIntent \<Rightarrow> BindingStoreError + LedgerState" where
  "current_state U S fetch intent =
     and_then (validate_intent S intent) (\<lambda>_.
     and_then (list_records fetch) (\<lambda>records.
     reconstruct_ledger U records (candidate_sha S) (store_intent S)))"

definition lifecycle_state ::
  "Uuids \<Rightarrow> BindingStore \<Rightarrow> Backend \<Rightarrow> OwnershipIntent \<Rightarrow> BindingStoreError + AcceptanceVmLifecycleState" where
  "lifecycle_state U S B intent = and_then (current_state U S (get_before B) intent) (\<lambda>st. Inr (phase st))"

definition transition_payload ::
  "BindingStore \<Rightarrow> LedgerState \<Rightarrow> LedgerTransition \<Rightarrow> Generation \<Rightarrow> VmBinding option \<Rightarrow> VmBinding option
     \<Rightarrow> GitHubDeploymentPayload" where
  "transition_payload S prior tr generation exp rep =
     \<lparr>format_version = LEDGER_FORMAT_VERSION, payload_project = OWNERSHIP_PROJECT, payload_managed_by = OWNERSHIP_MANAGER,
      payload_candidate_sha = candidate_sha S, payload_scope = Acceptance, payload_intent_id = intent_id (store_intent S),
      predecessor_deployment_id = head_id prior, transition = tr, payload_generation = generation_get generation,
      expected = map_option BindingPayload_from_binding exp, replacement = map_option BindingPayload_from_binding rep\<rparr>"

definition append_transition ::
  "Uuids \<Rightarrow> BindingStore \<Rightarrow> Backend \<Rightarrow> LedgerState \<Rightarrow> LedgerTransition \<Rightarrow> Generation \<Rightarrow> VmBinding option \<Rightarrow> VmBinding option
     \<Rightarrow> AcceptanceVmLifecycleState \<Rightarrow> BindingStoreError + unit" where
  "append_transition U S B prior tr generation exp rep expected_after =
     (let new = \<lparr>new_candidate_sha = candidate_sha S, new_payload = transition_payload S prior tr generation exp rep\<rparr> in
      and_then (append_record (post_record B) new) (\<lambda>created.
      and_then (current_state U S (get_after B new) (store_intent S)) (\<lambda>after.
      if head_id after \<noteq> Some (record_id created) \<or> phase after \<noteq> expected_after then Inl WriteVerificationFailed
      else Inr ())))"

definition prepare_create :: "Uuids \<Rightarrow> BindingStore \<Rightarrow> Backend \<Rightarrow> OwnershipIntent \<Rightarrow> BindingStoreError + Generation" where
  "prepare_create U S B intent =
     and_then (current_state U S (get_before B) intent) (\<lambda>prior.
     case phase prior of
       VmEmpty \<Rightarrow>
         and_then (append_transition U S B prior PrepareCreate Generation_INITIAL None None (CreatePrepared Generation_INITIAL))
           (\<lambda>_. Inr Generation_INITIAL)
     | Terminal _ \<Rightarrow> Inl TerminalIntentReuse
     | _ \<Rightarrow> Inl OperationInProgress)"

definition mark_create_dispatched ::
  "Uuids \<Rightarrow> BindingStore \<Rightarrow> Backend \<Rightarrow> OwnershipIntent \<Rightarrow> Generation \<Rightarrow> BindingStoreError + unit" where
  "mark_create_dispatched U S B intent generation =
     and_then (current_state U S (get_before B) intent) (\<lambda>prior.
     case phase prior of
       CreatePrepared prepared \<Rightarrow>
         if prepared = generation
         then append_transition U S B prior DispatchCreate generation None None (CreateDispatched generation)
         else Inl InvalidTransition
     | CreateDispatched dispatched \<Rightarrow> if dispatched = generation then Inl CreateAlreadyDispatched else Inl InvalidTransition
     | Terminal _ \<Rightarrow> Inl TerminalIntentReuse
     | _ \<Rightarrow> Inl InvalidTransition)"

definition prepare_delete ::
  "Uuids \<Rightarrow> BindingStore \<Rightarrow> Backend \<Rightarrow> OwnershipIntent \<Rightarrow> VmBinding \<Rightarrow> BindingStoreError + unit" where
  "prepare_delete U S B intent binding =
     and_then (validate_binding U S binding) (\<lambda>_.
     and_then (current_state U S (get_before B) intent) (\<lambda>prior.
     case phase prior of
       Bound current \<Rightarrow>
         if current = binding
         then append_transition U S B prior PrepareDelete (binding_generation binding) (Some binding) None (DeletePrepared binding)
         else Inl CompareAndSwapConflict
     | Terminal _ \<Rightarrow> Inl TerminalIntentReuse
     | _ \<Rightarrow> Inl OperationInProgress))"

definition mark_delete_dispatched ::
  "Uuids \<Rightarrow> BindingStore \<Rightarrow> Backend \<Rightarrow> OwnershipIntent \<Rightarrow> VmBinding \<Rightarrow> BindingStoreError + unit" where
  "mark_delete_dispatched U S B intent binding =
     and_then (validate_binding U S binding) (\<lambda>_.
     and_then (current_state U S (get_before B) intent) (\<lambda>prior.
     case phase prior of
       DeletePrepared current \<Rightarrow>
         if current = binding
         then append_transition U S B prior DispatchDelete (binding_generation binding) (Some binding) None (DeleteDispatched binding)
         else Inl InvalidTransition
     | DeleteDispatched current \<Rightarrow> if current = binding then Inl DeleteAlreadyDispatched else Inl InvalidTransition
     | Terminal _ \<Rightarrow> Inl TerminalIntentReuse
     | _ \<Rightarrow> Inl InvalidTransition))"

definition load_binding :: "Uuids \<Rightarrow> BindingStore \<Rightarrow> Backend \<Rightarrow> OwnershipIntent \<Rightarrow> BindingStoreError + VmBinding option" where
  "load_binding U S B intent =
     and_then (current_state U S (get_before B) intent) (\<lambda>st.
     case phase st of
       VmEmpty \<Rightarrow> Inr None
     | Bound binding \<Rightarrow> Inr (Some binding)
     | Terminal _ \<Rightarrow> Inl TerminalIntentReuse
     | _ \<Rightarrow> Inl OperationInProgress)"

definition binding_compare_and_swap ::
  "Uuids \<Rightarrow> BindingStore \<Rightarrow> Backend \<Rightarrow> OwnershipIntent \<Rightarrow> VmBinding option \<Rightarrow> VmBinding option \<Rightarrow> BindingStoreError + unit" where
  "binding_compare_and_swap U S B intent exp rep =
     and_then (validate_intent S intent) (\<lambda>_.
     and_then (case exp of None \<Rightarrow> Inr () | Some b \<Rightarrow> validate_binding U S b) (\<lambda>_.
     and_then (case rep of None \<Rightarrow> Inr () | Some b \<Rightarrow> validate_binding U S b) (\<lambda>_.
     and_then (current_state U S (get_before B) intent) (\<lambda>prior.
     if (case phase prior of Terminal _ \<Rightarrow> True | _ \<Rightarrow> False) then Inl TerminalIntentReuse
     else
       (case (exp, rep) of
          (None, Some new) \<Rightarrow>
            (case phase prior of
               CreateDispatched generation \<Rightarrow>
                 if generation = binding_generation new
                 then append_transition U S B prior Bind generation None (Some new) (Bound new)
                 else Inl OperationInProgress
             | CreatePrepared _ \<Rightarrow> Inl InvalidTransition
             | VmEmpty \<Rightarrow> Inl InvalidTransition
             | _ \<Rightarrow> Inl OperationInProgress)
        | (Some old, Some new) \<Rightarrow>
            (case phase prior of
               Bound current \<Rightarrow>
                 if current = old then
                   and_then (map_err (\<lambda>_. InvalidTransition) (Generation_next (binding_generation old))) (\<lambda>nxt.
                   if binding_intent new \<noteq> binding_intent old \<or> binding_provider_id new = binding_provider_id old
                      \<or> binding_generation new \<noteq> nxt
                   then Inl InvalidTransition
                   else append_transition U S B prior Replace (binding_generation new) (Some old) (Some new) (Bound new))
                 else Inl CompareAndSwapConflict
             | _ \<Rightarrow> Inl OperationInProgress)
        | (Some old, None) \<Rightarrow>
            (case phase prior of
               DeleteDispatched current \<Rightarrow>
                 if current = old
                 then append_transition U S B prior Clear (binding_generation old) (Some old) None (Terminal (binding_generation old))
                 else Inl InvalidTransition
             | Bound current \<Rightarrow> if current \<noteq> old then Inl CompareAndSwapConflict else Inl InvalidTransition
             | _ \<Rightarrow> Inl InvalidTransition)
        | (None, None) \<Rightarrow> Inl InvalidTransition)))))"

end
