(* ===== verification/Vm_Adapter.thy ===== *)
theory Vm_Adapter
  imports Provider_Lifecycle Decimal
begin

text \<open>
  Model of \<open>apps/operator-cli/src/vultr_lifecycle.rs\<close>: how ownership is written
  to and read from the tags of a machine, what a listed machine means, and the
  request each verified operation sends.  UUID parsing is a parameter; a JSON
  body is the list of its fields.
\<close>

section \<open>Requests and machines\<close>

datatype VultrMethod = Get | Post | Patch | Delete

datatype JsonField = JText string string | JNumber string u64 | JTexts string "string list"

record VultrRequest =
  request_method :: VultrMethod
  request_path :: string
  request_body :: "JsonField list option"

record VultrVmSpec =
  spec_region :: string
  spec_plan :: string
  spec_os_id :: u64
  spec_label :: string

definition VultrVmSpec_fingerprint :: "VultrVmSpec \<Rightarrow> string" where
  "VultrVmSpec_fingerprint s =
     ''vultr:'' @ spec_region s @ '':'' @ spec_plan s @ '':'' @ u64_text (spec_os_id s) @ '':'' @ spec_label s"

record VultrInstanceDto =
  dto_id :: string
  dto_label :: string
  dto_tags :: "string list"
  dto_region :: string
  dto_plan :: string
  dto_os_id :: u64
  dto_main_ip :: string

datatype VultrAdapterError =
    AdapterInvalidProviderUuid | InvalidOwnershipMetadata | InvalidResponse
  | Item18LiveMutationForbidden | FinalProductionAuthorityForbidden

section \<open>Ownership tags\<close>

definition TAG_PROJECT :: string where "TAG_PROJECT = ''mobile-proxy:project=''"
definition TAG_MANAGER :: string where "TAG_MANAGER = ''mobile-proxy:managed-by=''"
definition TAG_SCOPE :: string where "TAG_SCOPE = ''mobile-proxy:scope=''"
definition TAG_INTENT :: string where "TAG_INTENT = ''mobile-proxy:intent=''"
definition TAG_GENERATION :: string where "TAG_GENERATION = ''mobile-proxy:generation=''"

lemmas tag_defs = TAG_PROJECT_def TAG_MANAGER_def TAG_SCOPE_def TAG_INTENT_def TAG_GENERATION_def

definition encode_ownership :: "OwnershipMetadata \<Rightarrow> string list" where
  "encode_ownership m =
     [TAG_PROJECT @ project m, TAG_MANAGER @ managed_by m, TAG_SCOPE @ LifecycleScope_as_str (meta_scope m),
      TAG_INTENT @ meta_intent_id m, TAG_GENERATION @ u64_text (generation_get (meta_generation m))]"

definition exact_tag_value :: "string list \<Rightarrow> string \<Rightarrow> VultrAdapterError + string option" where
  "exact_tag_value tags prefix =
     (case List.map_filter (strip_prefix prefix) tags of
        [] \<Rightarrow> Inr None
      | [v] \<Rightarrow> Inr (Some v)
      | _ \<Rightarrow> Inl InvalidOwnershipMetadata)"

definition decode_scope :: "string \<Rightarrow> LifecycleScope option" where
  "decode_scope s =
     (if s = ''acceptance'' then Some Acceptance else if s = ''production'' then Some Production else None)"

definition decode_generation :: "string \<Rightarrow> Generation option" where
  "decode_generation s =
     (case parse_u64 s of None \<Rightarrow> None
      | Some v \<Rightarrow> (case Generation_new v of Inl _ \<Rightarrow> None | Inr g \<Rightarrow> Some g))"

definition decode_ownership :: "string list \<Rightarrow> VultrAdapterError + OwnershipObservation" where
  "decode_ownership tags =
     and_then (exact_tag_value tags TAG_PROJECT) (\<lambda>p.
     and_then (exact_tag_value tags TAG_MANAGER) (\<lambda>m.
     and_then (exact_tag_value tags TAG_SCOPE) (\<lambda>s.
     and_then (exact_tag_value tags TAG_INTENT) (\<lambda>i.
     and_then (exact_tag_value tags TAG_GENERATION) (\<lambda>g.
     case (p, m, s, i, g) of
       (None, None, None, None, None) \<Rightarrow> Inr Missing
     | (Some pv, Some mv, Some sv, Some iv, Some gv) \<Rightarrow>
         (case decode_scope sv of
            None \<Rightarrow> Inr Conflicting
          | Some scope \<Rightarrow>
              (case decode_generation gv of
                 None \<Rightarrow> Inr Conflicting
               | Some generation \<Rightarrow>
                   Inr (Exact \<lparr>project = pv, managed_by = mv, meta_scope = scope, meta_intent_id = iv,
                               meta_generation = generation\<rparr>)))
     | _ \<Rightarrow> Inr Conflicting)))))"

definition decode_instance ::
  "(string \<Rightarrow> uuid option) \<Rightarrow> (uuid \<Rightarrow> string) \<Rightarrow> VultrInstanceDto \<Rightarrow> VultrAdapterError + ObservedVm" where
  "decode_instance parse_uuid show_uuid dto =
     and_then (ok_or AdapterInvalidProviderUuid (parse_uuid (dto_id dto))) (\<lambda>u.
     and_then (map_err (\<lambda>_. AdapterInvalidProviderUuid) (ProviderResourceId_new (show_uuid u))) (\<lambda>provider_id.
     and_then (decode_ownership (dto_tags dto)) (\<lambda>ownership.
     Inr \<lparr>vm_provider_id = provider_id, vm_display_name = dto_label dto, vm_ownership = ownership,
          vm_spec_fingerprint = VultrVmSpec_fingerprint
            \<lparr>spec_region = dto_region dto, spec_plan = dto_plan dto, spec_os_id = dto_os_id dto, spec_label = dto_label dto\<rparr>\<rparr>)))"

fun decode_instances ::
  "(string \<Rightarrow> uuid option) \<Rightarrow> (uuid \<Rightarrow> string) \<Rightarrow> VultrInstanceDto list \<Rightarrow> VultrAdapterError + ObservedVm list" where
  "decode_instances parse_uuid show_uuid [] = Inr []"
| "decode_instances parse_uuid show_uuid (d # ds) =
     and_then (decode_instance parse_uuid show_uuid d) (\<lambda>v.
     and_then (decode_instances parse_uuid show_uuid ds) (\<lambda>vs. Inr (v # vs)))"

section \<open>Requests\<close>

definition list_instances_request :: VultrRequest where
  "list_instances_request = \<lparr>request_method = Get, request_path = ''/v2/instances'', request_body = None\<rparr>"

definition instance_path :: "VerifiedMutationTarget \<Rightarrow> string" where
  "instance_path t = ''/v2/instances/'' @ resource_id_as_str (target_provider_id t)"

definition get_instance_request :: "VerifiedMutationTarget \<Rightarrow> VultrRequest" where
  "get_instance_request t = \<lparr>request_method = Get, request_path = instance_path t, request_body = None\<rparr>"

definition create_body :: "VultrVmSpec \<Rightarrow> OwnershipMetadata \<Rightarrow> JsonField list" where
  "create_body s m =
     [JText ''region'' (spec_region s), JText ''plan'' (spec_plan s), JNumber ''os_id'' (spec_os_id s),
      JText ''label'' (spec_label s), JTexts ''tags'' (encode_ownership m)]"

definition create_request :: "PlannedCreate \<Rightarrow> VultrVmSpec \<Rightarrow> VultrRequest" where
  "create_request plan s =
     \<lparr>request_method = Post, request_path = ''/v2/instances'', request_body = Some (create_body s (PlannedCreate_ownership plan))\<rparr>"

definition create_request_with_user_data :: "PlannedCreate \<Rightarrow> VultrVmSpec \<Rightarrow> string \<Rightarrow> VultrRequest" where
  "create_request_with_user_data plan s user_data_b64 =
     (create_request plan s)\<lparr>request_body :=
        map_option (\<lambda>fields. fields @ [JText ''user_data'' user_data_b64]) (request_body (create_request plan s))\<rparr>"

definition stop_request :: "VerifiedMutationTarget \<Rightarrow> VultrRequest" where
  "stop_request t =
     \<lparr>request_method = Post, request_path = ''/v2/instances/halt'',
      request_body = Some [JTexts ''instance_ids'' [resource_id_as_str (target_provider_id t)]]\<rparr>"

definition reconfigure_request :: "VerifiedMutationTarget \<Rightarrow> string \<Rightarrow> VultrRequest" where
  "reconfigure_request t label =
     \<lparr>request_method = Patch, request_path = instance_path t,
      request_body = Some [JText ''label'' label, JTexts ''tags'' (encode_ownership (expected_ownership t))]\<rparr>"

definition snapshot_request :: "VerifiedMutationTarget \<Rightarrow> VultrRequest" where
  "snapshot_request t =
     \<lparr>request_method = Post, request_path = ''/v2/snapshots'',
      request_body = Some [JText ''instance_id'' (resource_id_as_str (target_provider_id t)),
        JText ''description'' (''mobile-proxy-'' @ LifecycleScope_as_str (intent_scope (target_intent t)) @ ''-g''
          @ u64_text (generation_get (target_generation t)))]\<rparr>"

definition delete_request :: "VerifiedMutationTarget \<Rightarrow> VultrRequest" where
  "delete_request t = \<lparr>request_method = Delete, request_path = instance_path t, request_body = None\<rparr>"

definition replacement_create_request ::
  "VerifiedMutationTarget \<Rightarrow> VultrVmSpec \<Rightarrow> VultrAdapterError + VultrRequest" where
  "replacement_create_request t s =
     and_then (map_err (\<lambda>_. InvalidOwnershipMetadata) (Generation_next (target_generation t))) (\<lambda>g.
     Inr \<lparr>request_method = Post, request_path = ''/v2/instances'',
          request_body = Some (create_body s (OwnershipMetadata_exact (target_intent t) g))\<rparr>)"

definition enforce_item18_live_boundary :: "LifecycleScope \<Rightarrow> bool \<Rightarrow> VultrAdapterError + unit" where
  "enforce_item18_live_boundary scope mutation_requested =
     (if scope = Production then Inl FinalProductionAuthorityForbidden
      else if mutation_requested then Inl Item18LiveMutationForbidden else Inr ())"

section \<open>Tags read back\<close>

lemma strip_prefix_None: "length ps \<le> length xs \<Longrightarrow> take (length ps) xs \<noteq> ps \<Longrightarrow> strip_prefix ps xs = None"
  by (induction ps xs rule: strip_prefix.induct) auto

lemma decode_scope_text [simp]: "decode_scope (LifecycleScope_as_str s) = Some s"
  by (cases s) (simp_all add: decode_scope_def)

lemma decode_generation_text [simp]: "generation_get g \<noteq> 0 \<Longrightarrow> decode_generation (u64_text (generation_get g)) = Some g"
  by (cases g) (simp add: decode_generation_def Generation_new_def)

lemma encoded_tag_values:
  "exact_tag_value (encode_ownership m) TAG_PROJECT = Inr (Some (project m))"
  "exact_tag_value (encode_ownership m) TAG_MANAGER = Inr (Some (managed_by m))"
  "exact_tag_value (encode_ownership m) TAG_SCOPE = Inr (Some (LifecycleScope_as_str (meta_scope m)))"
  "exact_tag_value (encode_ownership m) TAG_INTENT = Inr (Some (meta_intent_id m))"
  "exact_tag_value (encode_ownership m) TAG_GENERATION = Inr (Some (u64_text (generation_get (meta_generation m))))"
  by (simp_all add: exact_tag_value_def encode_ownership_def tag_defs List.map_filter_def)

lemma ownership_roundtrip:
  "generation_get (meta_generation m) \<noteq> 0 \<Longrightarrow> decode_ownership (encode_ownership m) = Inr (Exact m)"
  by (simp add: decode_ownership_def encoded_tag_values)

end
