(* ===== verification/Vm_Session.thy ===== *)
theory Vm_Session
  imports Vm_Ledger Vm_Adapter
begin

text \<open>
  Model of \<open>apps/operator-cli/src/item20_acceptance.rs\<close> and
  \<open>item20_session_lifecycle.rs\<close>: opening and closing an acceptance session.  The
  durable store and the provider are the traits \<open>Item20LifecycleStore\<close> and
  \<open>Item20AcceptanceProvider\<close>, records of operations on a world \<open>'w\<close>; every
  operation may fail, and a failed operation ends the run.
\<close>

section \<open>Identity\<close>

datatype SessionError =
    InvalidSha | ShaMismatch | BadIntent | StoreFailed BindingStoreError | ProviderFailed
  | LifecycleFailed LifecycleError | DispatchFailed CreateDispatchError | SpecificationDrifted
  | UnexpectedCreate | CleanupInProgress | TerminalIntent | NotEligibleForCreate | GenerationMismatch
  | AmbiguousCreate | CreateNotConverged | PreparedNotDispatched | DeleteNotConfirmed | NotTerminal
  | BindingMismatch | Panicked

definition ACCEPTANCE_LABEL :: string where
  "ACCEPTANCE_LABEL = ''mobile-proxy-acceptance''"

definition acceptance_spec :: VultrVmSpec where
  "acceptance_spec = \<lparr>spec_region = ''waw'', spec_plan = ''vc2-1c-2gb'', spec_os_id = 2284, spec_label = ACCEPTANCE_LABEL\<rparr>"

record Item20SessionIdentity =
  identity_candidate_sha :: string
  identity_control_plane_sha :: string

definition validate_full_sha :: "string \<Rightarrow> SessionError + unit" where
  "validate_full_sha value = (if length value \<noteq> 40 \<or> \<not> list_all is_lower_hex value then Inl InvalidSha else Inr ())"

definition Item20SessionIdentity_new :: "string \<Rightarrow> string \<Rightarrow> SessionError + Item20SessionIdentity" where
  "Item20SessionIdentity_new candidate control_plane =
     and_then (validate_full_sha candidate) (\<lambda>_.
     and_then (validate_full_sha control_plane) (\<lambda>_.
     if candidate \<noteq> control_plane then Inl ShaMismatch
     else Inr \<lparr>identity_candidate_sha = candidate, identity_control_plane_sha = control_plane\<rparr>))"

definition ownership_intent :: "Item20SessionIdentity \<Rightarrow> SessionError + OwnershipIntent" where
  "ownership_intent identity =
     map_err (\<lambda>_. BadIntent) (OwnershipIntent_new Acceptance (''item20:candidate:'' @ identity_candidate_sha identity))"

definition desired_vm :: "Item20SessionIdentity \<Rightarrow> SessionError + DesiredVm" where
  "desired_vm identity =
     and_then (ownership_intent identity) (\<lambda>intent.
     Inr \<lparr>desired_intent = intent, desired_display_name = spec_label acceptance_spec,
          desired_spec_fingerprint = VultrVmSpec_fingerprint acceptance_spec\<rparr>)"

section \<open>Effects\<close>

type_synonym ('w, 'e, 'a) effect = "'w \<Rightarrow> ('e + 'a) \<times> 'w"
type_synonym ('w, 'a) session = "('w, SessionError, 'a) effect"

definition sreturn :: "'a \<Rightarrow> ('w, 'a) session" where
  "sreturn x w = (Inr x, w)"

definition sfail :: "SessionError \<Rightarrow> ('w, 'a) session" where
  "sfail e w = (Inl e, w)"

definition sbind :: "('w, 'a) session \<Rightarrow> ('a \<Rightarrow> ('w, 'b) session) \<Rightarrow> ('w, 'b) session" where
  "sbind m f w = (case m w of (Inl e, w') \<Rightarrow> (Inl e, w') | (Inr x, w') \<Rightarrow> f x w')"

definition stry :: "('e \<Rightarrow> SessionError) \<Rightarrow> ('w, 'e, 'a) effect \<Rightarrow> ('w, 'a) session" where
  "stry c m w = (case m w of (Inl e, w') \<Rightarrow> (Inl (c e), w') | (Inr x, w') \<Rightarrow> (Inr x, w'))"

definition slift :: "SessionError + 'a \<Rightarrow> ('w, 'a) session" where
  "slift r w = (r, w)"

record 'w Item20LifecycleStore =
  st_lifecycle_state :: "OwnershipIntent \<Rightarrow> ('w, BindingStoreError, AcceptanceVmLifecycleState) effect"
  st_prepare_create :: "OwnershipIntent \<Rightarrow> ('w, BindingStoreError, Generation) effect"
  st_mark_create_dispatched :: "OwnershipIntent \<Rightarrow> Generation \<Rightarrow> ('w, BindingStoreError, unit) effect"
  st_prepare_delete :: "OwnershipIntent \<Rightarrow> VmBinding \<Rightarrow> ('w, BindingStoreError, unit) effect"
  st_mark_delete_dispatched :: "OwnershipIntent \<Rightarrow> VmBinding \<Rightarrow> ('w, BindingStoreError, unit) effect"
  st_compare_and_swap :: "OwnershipIntent \<Rightarrow> VmBinding option \<Rightarrow> VmBinding option \<Rightarrow> ('w, BindingStoreError, unit) effect"

record 'w Item20AcceptanceProvider =
  pr_list_instances :: "('w, unit, ObservedVm list) effect"
  pr_create_instance :: "PlannedCreate \<Rightarrow> VultrVmSpec \<Rightarrow> string \<Rightarrow> ('w, unit, ObservedVm) effect"
  pr_instance_ipv4 :: "VerifiedMutationTarget \<Rightarrow> ('w, unit, string) effect"
  pr_delete_instance :: "VerifiedMutationTarget \<Rightarrow> ('w, unit, unit) effect"

definition observe :: "'w Item20AcceptanceProvider \<Rightarrow> ('w, ObservedVm list) session" where
  "observe P = stry (\<lambda>_. ProviderFailed) (pr_list_instances P)"

definition read_state :: "'w Item20LifecycleStore \<Rightarrow> OwnershipIntent \<Rightarrow> ('w, AcceptanceVmLifecycleState) session" where
  "read_state S intent = stry StoreFailed (st_lifecycle_state S intent)"

section \<open>Creating\<close>

definition CREATE_RECOVERY_ATTEMPTS :: nat where
  "CREATE_RECOVERY_ATTEMPTS = 20"

definition DELETE_CONFIRM_ATTEMPTS :: nat where
  "DELETE_CONFIRM_ATTEMPTS = 40"

fun recover_attempts ::
  "'w Item20LifecycleStore \<Rightarrow> 'w Item20AcceptanceProvider \<Rightarrow> DesiredVm \<Rightarrow> CreateDispatchFence \<Rightarrow> nat \<Rightarrow> ('w, VmBinding) session" where
  "recover_attempts S P desired fence 0 = sfail CreateNotConverged"
| "recover_attempts S P desired fence (Suc n) =
     sbind (observe P) (\<lambda>observed.
     case recover_dispatched_create fence observed of
       None \<Rightarrow> sfail Panicked
     | Some (Inl e) \<Rightarrow> sfail (DispatchFailed e)
     | Some (Inr AwaitProvider) \<Rightarrow> recover_attempts S P desired fence n
     | Some (Inr (Recovered recovered)) \<Rightarrow>
         sbind (stry StoreFailed (st_compare_and_swap S (desired_intent desired) None (Some (recovered_binding recovered)))) (\<lambda>_.
         sreturn (recovered_binding recovered)))"

definition recover_create_binding ::
  "'w Item20LifecycleStore \<Rightarrow> 'w Item20AcceptanceProvider \<Rightarrow> DesiredVm \<Rightarrow> Generation \<Rightarrow> ('w, VmBinding) session" where
  "recover_create_binding S P desired generation =
     sbind (slift (map_err DispatchFailed (create_dispatch_fence_for_recovery (desired_intent desired) generation desired))) (\<lambda>fence.
     recover_attempts S P desired fence CREATE_RECOVERY_ATTEMPTS)"

definition dispatch_create ::
  "'w Item20LifecycleStore \<Rightarrow> 'w Item20AcceptanceProvider \<Rightarrow> DesiredVm \<Rightarrow> string \<Rightarrow> Generation option \<Rightarrow> ('w, VmBinding) session" where
  "dispatch_create S P desired user_data prepared_generation =
     sbind (observe P) (\<lambda>observed.
     sbind (slift (map_err LifecycleFailed (plan_present None observed desired None))) (\<lambda>reconcile.
     case reconcile of
       Create plan \<Rightarrow>
         sbind (slift (map_err DispatchFailed (create_dispatch_fence plan desired))) (\<lambda>fence.
         sbind (case prepared_generation of
                  Some generation \<Rightarrow> sreturn generation
                | None \<Rightarrow> stry StoreFailed (st_prepare_create S (desired_intent desired))) (\<lambda>generation.
         if generation \<noteq> fence_generation fence then sfail GenerationMismatch
         else
           sbind (stry StoreFailed (st_mark_create_dispatched S (desired_intent desired) generation)) (\<lambda>_.
           sbind (stry (\<lambda>_. AmbiguousCreate) (pr_create_instance P plan acceptance_spec user_data)) (\<lambda>_.
           recover_create_binding S P desired generation))))
     | _ \<Rightarrow> sfail NotEligibleForCreate))"

datatype SessionOpenOrigin = OriginExisting | OriginCreated | OriginRecovered

record OpenItem20Session =
  session_binding :: VmBinding
  session_origin :: SessionOpenOrigin

definition open_item20_session ::
  "'w Item20LifecycleStore \<Rightarrow> 'w Item20AcceptanceProvider \<Rightarrow> Item20SessionIdentity \<Rightarrow> string \<Rightarrow> ('w, OpenItem20Session) session" where
  "open_item20_session S P identity user_data =
     sbind (slift (desired_vm identity)) (\<lambda>desired.
     sbind (read_state S (desired_intent desired)) (\<lambda>state.
     case state of
       VmEmpty \<Rightarrow>
         sbind (dispatch_create S P desired user_data None) (\<lambda>b.
         sreturn \<lparr>session_binding = b, session_origin = OriginCreated\<rparr>)
     | CreatePrepared generation \<Rightarrow>
         sbind (dispatch_create S P desired user_data (Some generation)) (\<lambda>b.
         sreturn \<lparr>session_binding = b, session_origin = OriginCreated\<rparr>)
     | CreateDispatched generation \<Rightarrow>
         sbind (recover_create_binding S P desired generation) (\<lambda>b.
         sreturn \<lparr>session_binding = b, session_origin = OriginRecovered\<rparr>)
     | Bound binding \<Rightarrow>
         sbind (observe P) (\<lambda>observed.
         sbind (slift (map_err LifecycleFailed
                  (plan_present (Some binding) observed desired (Some (binding_generation binding))))) (\<lambda>plan.
         case plan of
           NoopPlan _ \<Rightarrow> sreturn \<lparr>session_binding = binding, session_origin = OriginExisting\<rparr>
         | Reconfigure _ \<Rightarrow> sfail SpecificationDrifted
         | Create _ \<Rightarrow> sfail UnexpectedCreate))
     | DeletePrepared _ \<Rightarrow> sfail CleanupInProgress
     | DeleteDispatched _ \<Rightarrow> sfail CleanupInProgress
     | Terminal _ \<Rightarrow> sfail TerminalIntent))"

definition verified_item20_target ::
  "'w Item20AcceptanceProvider \<Rightarrow> Item20SessionIdentity \<Rightarrow> VmBinding \<Rightarrow> ('w, VerifiedMutationTarget) session" where
  "verified_item20_target P identity binding =
     sbind (slift (desired_vm identity)) (\<lambda>desired.
     if binding_intent binding \<noteq> desired_intent desired then sfail BindingMismatch
     else
       sbind (observe P) (\<lambda>observed.
       sbind (slift (map_err LifecycleFailed
                (plan_present (Some binding) observed desired (Some (binding_generation binding))))) (\<lambda>plan.
       case plan of
         NoopPlan target \<Rightarrow> sreturn target
       | Reconfigure _ \<Rightarrow> sfail SpecificationDrifted
       | Create _ \<Rightarrow> sfail UnexpectedCreate)))"

definition verified_item20_endpoint ::
  "'w Item20AcceptanceProvider \<Rightarrow> Item20SessionIdentity \<Rightarrow> VmBinding \<Rightarrow> ('w, string) session" where
  "verified_item20_endpoint P identity binding =
     sbind (verified_item20_target P identity binding) (\<lambda>target.
     stry (\<lambda>_. ProviderFailed) (pr_instance_ipv4 P target))"

section \<open>Deleting\<close>

definition resolve_delete_target :: "'w Item20AcceptanceProvider \<Rightarrow> VmBinding \<Rightarrow> ('w, VerifiedMutationTarget) session" where
  "resolve_delete_target P binding =
     sbind (observe P) (\<lambda>observed.
     slift (map_err LifecycleFailed (authorize_mutation binding observed (binding_generation binding) MutateDelete)))"

fun confirm_attempts :: "'w Item20AcceptanceProvider \<Rightarrow> VmBinding \<Rightarrow> nat \<Rightarrow> ('w, unit) session" where
  "confirm_attempts P binding 0 = sfail DeleteNotConfirmed"
| "confirm_attempts P binding (Suc n) =
     sbind (observe P) (\<lambda>observed.
     case authorize_mutation binding observed (binding_generation binding) MutateDelete of
       Inl ProviderResourceNotFound \<Rightarrow> sreturn ()
     | Inl e \<Rightarrow> sfail (LifecycleFailed e)
     | Inr _ \<Rightarrow> confirm_attempts P binding n)"

definition confirm_provider_deleted :: "'w Item20AcceptanceProvider \<Rightarrow> VmBinding \<Rightarrow> ('w, unit) session" where
  "confirm_provider_deleted P binding = confirm_attempts P binding DELETE_CONFIRM_ATTEMPTS"

definition terminal_matches :: "'w Item20LifecycleStore \<Rightarrow> VmBinding \<Rightarrow> ('w, bool) session" where
  "terminal_matches S binding =
     sbind (read_state S (binding_intent binding)) (\<lambda>state. sreturn (state = Terminal (binding_generation binding)))"

definition clear_and_check :: "'w Item20LifecycleStore \<Rightarrow> VmBinding \<Rightarrow> ('w, unit) session" where
  "clear_and_check S binding =
     sbind (stry StoreFailed (st_compare_and_swap S (binding_intent binding) (Some binding) None)) (\<lambda>_.
     sbind (terminal_matches S binding) (\<lambda>terminal.
     if \<not> terminal then sfail NotTerminal else sreturn ()))"

definition delete_bound ::
  "'w Item20LifecycleStore \<Rightarrow> 'w Item20AcceptanceProvider \<Rightarrow> VmBinding \<Rightarrow> bool \<Rightarrow> bool \<Rightarrow> ('w, unit) session" where
  "delete_bound S P binding already_prepared already_dispatched =
     sbind (resolve_delete_target P binding) (\<lambda>target.
     sbind (if \<not> already_prepared then stry StoreFailed (st_prepare_delete S (binding_intent binding) binding)
            else sreturn ()) (\<lambda>_.
     sbind (if \<not> already_dispatched then stry StoreFailed (st_mark_delete_dispatched S (binding_intent binding) binding)
            else sreturn ()) (\<lambda>_.
     sbind (stry (\<lambda>_. ProviderFailed) (pr_delete_instance P target)) (\<lambda>_.
     sbind (confirm_provider_deleted P binding) (\<lambda>_.
     clear_and_check S binding)))))"

definition recover_dispatched_delete ::
  "'w Item20LifecycleStore \<Rightarrow> 'w Item20AcceptanceProvider \<Rightarrow> VmBinding \<Rightarrow> ('w, unit) session" where
  "recover_dispatched_delete S P binding =
     sbind (observe P) (\<lambda>observed.
     case authorize_mutation binding observed (binding_generation binding) MutateDelete of
       Inl ProviderResourceNotFound \<Rightarrow> clear_and_check S binding
     | Inr target \<Rightarrow>
         sbind (stry (\<lambda>_. ProviderFailed) (pr_delete_instance P target)) (\<lambda>_.
         sbind (confirm_provider_deleted P binding) (\<lambda>_.
         clear_and_check S binding))
     | Inl e \<Rightarrow> sfail (LifecycleFailed e))"

datatype SessionCloseOutcome = NoResourceCreated | DeletedAndTerminal | AlreadyTerminal

definition close_item20_session ::
  "'w Item20LifecycleStore \<Rightarrow> 'w Item20AcceptanceProvider \<Rightarrow> Item20SessionIdentity \<Rightarrow> ('w, SessionCloseOutcome) session" where
  "close_item20_session S P identity =
     sbind (slift (desired_vm identity)) (\<lambda>desired.
     sbind (read_state S (desired_intent desired)) (\<lambda>state.
     case state of
       VmEmpty \<Rightarrow> sreturn NoResourceCreated
     | CreatePrepared _ \<Rightarrow> sfail PreparedNotDispatched
     | CreateDispatched generation \<Rightarrow>
         sbind (recover_create_binding S P desired generation) (\<lambda>binding.
         sbind (delete_bound S P binding False False) (\<lambda>_. sreturn DeletedAndTerminal))
     | Bound binding \<Rightarrow> sbind (delete_bound S P binding False False) (\<lambda>_. sreturn DeletedAndTerminal)
     | DeletePrepared binding \<Rightarrow> sbind (delete_bound S P binding True False) (\<lambda>_. sreturn DeletedAndTerminal)
     | DeleteDispatched binding \<Rightarrow> sbind (recover_dispatched_delete S P binding) (\<lambda>_. sreturn DeletedAndTerminal)
     | Terminal _ \<Rightarrow> sreturn AlreadyTerminal))"

end
