(* ===== verification/Vm_Ledger_Inv.thy ===== *)
theory Vm_Ledger_Inv
  imports Vm_Ledger
begin

text \<open>
  The ledger of the acceptance machine: replay is a chain that only advances, a
  later listing extends an earlier one, and the operations of the store follow
  the lifecycle.
\<close>

section \<open>Advancing\<close>

fun phase_rank :: "AcceptanceVmLifecycleState \<Rightarrow> nat" where
  "phase_rank VmEmpty = 0"
| "phase_rank (CreatePrepared g) = 1"
| "phase_rank (CreateDispatched g) = 2"
| "phase_rank (Bound b) = 3 + unat (generation_get (binding_generation b))"
| "phase_rank (DeletePrepared b) = 2 ^ 64 + 3"
| "phase_rank (DeleteDispatched b) = 2 ^ 64 + 4"
| "phase_rank (Terminal g) = 2 ^ 64 + 5"

lemma step_phase_advances:
  assumes "step_phase ph tr g e r = Inr ph'"
  shows "phase_rank ph < phase_rank ph'"
proof (cases tr)
  case Replace
  with assms obtain b b' where "ph = Bound b" "ph' = Bound b'" "Generation_next (binding_generation b) = Inr (binding_generation b')"
    by (auto simp: step_phase_def and_then_Inr_iff map_err_def split: AcceptanceVmLifecycleState.splits if_splits sum.splits)
  then show ?thesis using Generation_next_increases by simp
next
  case PrepareDelete
  with assms obtain b where "ph = Bound b" "ph' = DeletePrepared b"
    by (auto simp: step_phase_def and_then_Inr_iff split: AcceptanceVmLifecycleState.splits if_splits)
  then show ?thesis using unat_less_2p64 [of "generation_get (binding_generation b)"] by simp
qed (use assms in \<open>auto simp: step_phase_def and_then_Inr_iff split: AcceptanceVmLifecycleState.splits if_splits\<close>)

lemma apply_record_advances: "apply_record U ph p intent = Inr ph' \<Longrightarrow> phase_rank ph < phase_rank ph'"
  by (auto simp: apply_record_def and_then_Inr_iff dest: step_phase_advances)

lemma replay_append:
  "replay U intent (xs @ ys) seen st
     = and_then (replay U intent xs seen st) (\<lambda>st'. replay U intent ys (seen \<union> record_id ` set xs) st')"
proof (induction xs arbitrary: seen st)
  case (Cons r xs)
  then show ?case by (cases "apply_record U (phase st) (payload r) intent") (simp_all add: Un_commute)
qed simp

lemma replay_advances:
  assumes "replay U intent rs seen st = Inr st'" "rs \<noteq> []"
  shows "phase_rank (phase st) < phase_rank (phase st')" "head_id st' = Some (record_id (last rs))"
proof -
  have "(rs = [] \<longrightarrow> st' = st) \<and> (rs \<noteq> [] \<longrightarrow> phase_rank (phase st) < phase_rank (phase st') \<and> head_id st' = Some (record_id (last rs)))"
    using assms(1)
  proof (induction rs arbitrary: seen st)
    case (Cons r rs)
    then obtain ph where a: "apply_record U (phase st) (payload r) intent = Inr ph"
      "replay U intent rs (insert (record_id r) seen) \<lparr>head_id = Some (record_id r), phase = ph\<rparr> = Inr st'"
      by (auto simp: and_then_Inr_iff split: if_splits)
    from Cons.IH [OF a(2)] apply_record_advances [OF a(1)] show ?case by auto
  qed simp
  with assms(2) show "phase_rank (phase st) < phase_rank (phase st')" "head_id st' = Some (record_id (last rs))" by auto
qed

section \<open>Chains\<close>

text \<open>A replayed ledger is a chain of records, each pointing at the previous one.\<close>

fun chained :: "u64 option \<Rightarrow> DeploymentRecord list \<Rightarrow> bool" where
  "chained h [] = True"
| "chained h (r # rs) = (predecessor_deployment_id (payload r) = h \<and> chained (Some (record_id r)) rs)"

lemma replay_chained:
  "replay U intent rs seen st = Inr st' \<Longrightarrow> chained (head_id st) rs \<and> distinct (map record_id rs) \<and> seen \<inter> record_id ` set rs = {}"
proof (induction rs arbitrary: seen st)
  case (Cons r rs)
  then obtain ph where a: "apply_record U (phase st) (payload r) intent = Inr ph"
    "replay U intent rs (insert (record_id r) seen) \<lparr>head_id = Some (record_id r), phase = ph\<rparr> = Inr st'"
    "record_id r \<notin> seen" "predecessor_deployment_id (payload r) = head_id st"
    by (auto simp: and_then_Inr_iff split: if_splits)
  from Cons.IH [OF a(2)] a(3,4) show ?case by auto
qed simp

lemma chained_predecessor:
  "chained h rs \<Longrightarrow> r \<in> set rs \<Longrightarrow>
     predecessor_deployment_id (payload r) = h \<or> (\<exists>q\<in>set rs. predecessor_deployment_id (payload r) = Some (record_id q))"
  by (induction rs arbitrary: h) auto

lemma chained_head_unique:
  assumes "chained h (r # rs)" "distinct (map record_id (r # rs))" "h \<notin> Some ` record_id ` set (r # rs)"
    and "q \<in> set (r # rs)" "predecessor_deployment_id (payload q) = h"
  shows "q = r"
proof (rule ccontr)
  assume "q \<noteq> r"
  then have "q \<in> set rs" using assms(4) by simp
  have "chained (Some (record_id r)) rs" using assms(1) by simp
  from chained_predecessor [OF this \<open>q \<in> set rs\<close>] assms(3,5) show False by auto
qed

lemma chained_prefix:
  assumes "chained h xs" "chained h ys" "distinct (map record_id ys)" "h \<notin> Some ` record_id ` set ys" "set xs \<subseteq> set ys"
    and "distinct (map record_id xs)"
  shows "\<exists>zs. ys = xs @ zs"
  using assms
proof (induction xs arbitrary: h ys)
  case (Cons x xs)
  then obtain y ys' where ys: "ys = y # ys'" by (cases ys) auto
  have "x = y"
    using chained_head_unique [of h y ys' x] Cons.prems ys by simp
  moreover have "set xs \<subseteq> set ys'" using Cons.prems(5,6) ys \<open>x = y\<close> by auto
  moreover have "Some (record_id y) \<notin> Some ` record_id ` set ys'" using Cons.prems(3) ys by auto
  ultimately have "\<exists>zs. ys' = xs @ zs"
    using Cons.prems ys by (intro Cons.IH [of "Some (record_id y)"]) auto
  then show ?case using ys \<open>x = y\<close> by simp
qed simp

lemma select_records_Inr:
  "select_records U sha intent rs = Inr sel \<Longrightarrow>
     sel = filter (\<lambda>r. payload_intent_id (payload r) = intent_id intent) rs
     \<and> (\<forall>r\<in>set rs. validate_record_envelope U sha r = Inr ())"
  by (induction rs arbitrary: sel) (auto simp: and_then_Inr_iff split: if_splits)

definition selected :: "OwnershipIntent \<Rightarrow> DeploymentRecord list \<Rightarrow> DeploymentRecord list" where
  "selected intent rs = sort_key record_id (filter (\<lambda>r. payload_intent_id (payload r) = intent_id intent) rs)"

lemma reconstruct_replay:
  assumes "reconstruct_ledger U rs sha intent = Inr st"
  shows "replay U intent (selected intent rs) {} \<lparr>head_id = None, phase = VmEmpty\<rparr> = Inr st"
  using assms
  by (auto simp: reconstruct_ledger_def and_then_Inr_iff selected_def split: if_splits dest!: select_records_Inr)

text \<open>A later listing gives the same state or one that has advanced.\<close>

lemma ledger_extends:
  assumes a: "reconstruct_ledger U as sha intent = Inr a" and b: "reconstruct_ledger U bs sha intent = Inr b"
    and sub: "set as \<subseteq> set bs"
  shows "a = b \<or> phase_rank (phase a) < phase_rank (phase b)"
proof -
  let ?xs = "selected intent as" and ?ys = "selected intent bs" and ?st = "\<lparr>head_id = None, phase = VmEmpty\<rparr>"
  note ra = reconstruct_replay [OF a] and rb = reconstruct_replay [OF b]
  have "set ?xs \<subseteq> set ?ys" using sub by (auto simp: selected_def)
  then obtain zs where zs: "?ys = ?xs @ zs"
    using chained_prefix [of None ?xs ?ys] replay_chained [OF ra] replay_chained [OF rb] by auto
  have "replay U intent zs (record_id ` set ?xs) a = Inr b"
    using rb ra zs by (simp add: replay_append)
  then show ?thesis by (cases "zs = []") (auto dest: replay_advances(1))
qed

lemma ledger_head_advances:
  assumes "reconstruct_ledger U as sha intent = Inr a" "reconstruct_ledger U bs sha intent = Inr b"
    and "set as \<subseteq> set bs \<or> set bs \<subseteq> set as" "head_id a \<noteq> head_id b"
  shows "phase_rank (phase a) \<noteq> phase_rank (phase b)"
  using ledger_extends [OF assms(1,2)] ledger_extends [OF assms(2,1)] assms(3,4) by auto


section \<open>Verified writes\<close>

text \<open>What a successful write has seen: its own record at the head of a ledger in the phase it wanted.\<close>

definition wrote :: "Uuids \<Rightarrow> BindingStore \<Rightarrow> Backend \<Rightarrow> AcceptanceVmLifecycleState \<Rightarrow> bool" where
  "wrote U S B ph = (\<exists>new created records st. append_record (post_record B) new = Inr created
     \<and> list_records (get_after B new) = Inr records \<and> reconstruct_ledger U records (candidate_sha S) (store_intent S) = Inr st
     \<and> head_id st = Some (record_id created) \<and> phase st = ph)"

lemma append_transition_wrote: "append_transition U S B before tr g e r ph = Inr () \<Longrightarrow> wrote U S B ph"
  by (auto simp: append_transition_def Let_def and_then_Inr_iff current_state_def wrote_def split: if_splits)

lemma dispatch_create_wrote:
  assumes "mark_create_dispatched U S B intent g = Inr ()"
  shows "wrote U S B (CreateDispatched g)"
proof -
  obtain st where "(case phase st of
      CreatePrepared prepared \<Rightarrow> if prepared = g then append_transition U S B st DispatchCreate g None None (CreateDispatched g) else Inl InvalidTransition
    | CreateDispatched dispatched \<Rightarrow> if dispatched = g then Inl CreateAlreadyDispatched else Inl InvalidTransition
    | Terminal _ \<Rightarrow> Inl TerminalIntentReuse | _ \<Rightarrow> Inl InvalidTransition) = Inr ()"
    using assms unfolding mark_create_dispatched_def and_then_Inr_iff by blast
  then show ?thesis by (cases "phase st") (auto intro: append_transition_wrote split: if_splits)
qed

lemma dispatch_delete_wrote:
  assumes "mark_delete_dispatched U S B intent b = Inr ()"
  shows "wrote U S B (DeleteDispatched b)"
proof -
  obtain st where "(case phase st of
      DeletePrepared current \<Rightarrow> if current = b
        then append_transition U S B st DispatchDelete (binding_generation b) (Some b) None (DeleteDispatched b) else Inl InvalidTransition
    | DeleteDispatched current \<Rightarrow> if current = b then Inl DeleteAlreadyDispatched else Inl InvalidTransition
    | Terminal _ \<Rightarrow> Inl TerminalIntentReuse | _ \<Rightarrow> Inl InvalidTransition) = Inr ()"
    using assms unfolding mark_delete_dispatched_def and_then_Inr_iff by blast
  then show ?thesis by (cases "phase st") (auto intro: append_transition_wrote split: if_splits)
qed

definition same_service :: "Backend \<Rightarrow> Backend \<Rightarrow> bool" where
  "same_service A B =
     (\<forall>m n. (\<forall>r q. append_record (post_record A) m = Inr r \<longrightarrow> append_record (post_record B) n = Inr q \<longrightarrow> record_id r \<noteq> record_id q)
        \<and> (\<forall>as bs. list_records (get_after A m) = Inr as \<longrightarrow> list_records (get_after B n) = Inr bs \<longrightarrow>
             set as \<subseteq> set bs \<or> set bs \<subseteq> set as))"

lemma wrote_once:
  assumes "wrote U S A ph" "wrote U S B ph'" "same_service A B"
  shows "phase_rank ph \<noteq> phase_rank ph'"
  using assms(1,2)
proof (unfold wrote_def, elim exE conjE)
  fix m n r q as bs a b
  assume a: "append_record (post_record A) m = Inr r" "list_records (get_after A m) = Inr as"
      "reconstruct_ledger U as (candidate_sha S) (store_intent S) = Inr a" "head_id a = Some (record_id r)" "phase a = ph"
    and b: "append_record (post_record B) n = Inr q" "list_records (get_after B n) = Inr bs"
      "reconstruct_ledger U bs (candidate_sha S) (store_intent S) = Inr b" "head_id b = Some (record_id q)" "phase b = ph'"
  have "record_id r \<noteq> record_id q" "set as \<subseteq> set bs \<or> set bs \<subseteq> set as"
    using assms(3) a(1,2) b(1,2) unfolding same_service_def by blast+
  then show ?thesis using ledger_head_advances [OF a(3) b(3)] a(4,5) b(4,5) by auto
qed

section \<open>A service used by one writer\<close>

definition pages_of :: "DeploymentRecord list \<Rightarrow> nat \<Rightarrow> DeploymentRecord list HttpReply" where
  "pages_of rs page = HttpReply 200 (Some (take PAGE_SIZE (drop (PAGE_SIZE * (page - 1)) rs)))"

definition created_record :: "u64 \<Rightarrow> NewDeploymentRecord \<Rightarrow> DeploymentRecord" where
  "created_record i n =
     \<lparr>record_id = i, record_sha = new_candidate_sha n, git_ref = new_candidate_sha n, task = DEPLOYMENT_TASK,
      environment = DEPLOYMENT_ENVIRONMENT, payload = new_payload n\<rparr>"

definition solo :: "DeploymentRecord list \<Rightarrow> u64 \<Rightarrow> Backend" where
  "solo rs i = \<lparr>get_before = pages_of rs, post_record = (\<lambda>n. HttpReply 201 (Some (created_record i n))),
     get_after = (\<lambda>n. pages_of (rs @ [created_record i n]))\<rparr>"

lemma list_pages_of:
  assumes "PAGE_SIZE * k \<le> length rs" "length rs < PAGE_SIZE * (k + n)"
  shows "list_pages (pages_of rs) (map Suc [k..<k + n]) (take (PAGE_SIZE * k) rs) = Inr rs"
  using assms
proof (induction n arbitrary: k)
  case (Suc n)
  let ?chunk = "take PAGE_SIZE (drop (PAGE_SIZE * k) rs)"
  have up: "[k..<k + Suc n] = k # [Suc k..<Suc k + n]" by (simp add: upt_conv_Cons)
  have fetch: "pages_of rs (Suc k) = HttpReply 200 (Some ?chunk)" by (simp add: pages_of_def)
  have acc: "take (PAGE_SIZE * k) rs @ ?chunk = take (PAGE_SIZE * Suc k) rs"
  proof -
    have "PAGE_SIZE * Suc k = PAGE_SIZE * k + PAGE_SIZE" by simp
    then show ?thesis by (simp only: take_add)
  qed
  show ?case
  proof (cases "length ?chunk < PAGE_SIZE")
    case True
    then have "take (PAGE_SIZE * Suc k) rs = rs" using Suc.prems(1) by simp
    then show ?thesis using fetch acc True unfolding up by simp
  next
    case False
    then have "PAGE_SIZE * Suc k \<le> length rs" by (simp add: PAGE_SIZE_def min_def split: if_splits)
    from Suc.IH [OF this] Suc.prems(2) fetch acc False show ?thesis unfolding up by simp
  qed
qed simp

lemma list_records_of: "length rs < 10000 \<Longrightarrow> list_records (pages_of rs) = Inr rs"
  using list_pages_of [of 0 rs 100] by (simp add: list_records_def PAGE_SIZE_def MAX_LEDGER_PAGES_def map_Suc_upt)

definition binding_wf :: "Uuids \<Rightarrow> BindingStore \<Rightarrow> VmBinding \<Rightarrow> bool" where
  "binding_wf U S b = (validate_binding U S b = Inr () \<and> generation_get (binding_generation b) \<noteq> 0
     \<and> is_Ok (ProviderResourceId_new (resource_id_as_str (binding_provider_id b))))"

definition store_wf :: "BindingStore \<Rightarrow> bool" where
  "store_wf S = (validate_candidate_sha (candidate_sha S) = Inr () \<and> intent_scope (store_intent S) = Acceptance
     \<and> allowed_intent_id (candidate_sha S) (intent_id (store_intent S)))"

lemma binding_roundtrip:
  assumes "binding_wf U S b"
  shows "BindingPayload_to_binding U (BindingPayload_from_binding b) (store_intent S) = Inr b"
    "validate_payload_binding U (Some (BindingPayload_from_binding b)) = Inr ()"
  using assms
  by (auto simp: binding_wf_def validate_binding_def validate_intent_def BindingPayload_to_binding_def
      BindingPayload_from_binding_def validate_payload_binding_def ProviderResourceId_new_def Generation_new_def
      and_then_Inr_iff split: if_splits)

lemma sort_key_snoc: "\<forall>q\<in>set xs. f q \<le> f r \<Longrightarrow> sort_key f (xs @ [r]) = sort_key f xs @ [r]"
proof (induction xs)
  case (Cons x xs)
  have "insort_key f x (zs @ [r]) = insort_key f x zs @ [r]" for zs
    using Cons.prems by (induction zs) auto
  with Cons show ?case by simp
qed simp

lemma replayed_write:
  assumes wf: "store_wf S" "\<forall>b\<in>set_option e \<union> set_option r. binding_wf U S b" "generation_get g \<noteq> 0"
    and step: "step_phase (phase st) tr g e r = Inr ph"
    and rs: "reconstruct_ledger U rs (candidate_sha S) (store_intent S) = Inr st" "\<forall>q\<in>set rs. record_id q < i"
  shows "reconstruct_ledger U (rs @ [created_record i \<lparr>new_candidate_sha = candidate_sha S, new_payload = transition_payload S st tr g e r\<rparr>])
      (candidate_sha S) (store_intent S) = Inr \<lparr>head_id = Some i, phase = ph\<rparr>"
proof -
  let ?r = "created_record i \<lparr>new_candidate_sha = candidate_sha S, new_payload = transition_payload S st tr g e r\<rparr>"
  let ?intent = "store_intent S"
  have opt: "optional_binding U ?intent (map_option BindingPayload_from_binding x) = Inr x"
    "validate_payload_binding U (map_option BindingPayload_from_binding x) = Inr ()" if "\<forall>b\<in>set_option x. binding_wf U S b" for x
    using that binding_roundtrip by (cases x; simp add: optional_binding_def validate_payload_binding_def)+
  have env: "validate_record_envelope U (candidate_sha S) ?r = Inr ()"
    using wf opt by (simp add: validate_record_envelope_def created_record_def transition_payload_def Let_def store_wf_def Generation_new_def)
  have app: "apply_record U (phase st) (payload ?r) ?intent = Inr ph"
    using wf opt step by (cases g) (simp add: apply_record_def created_record_def transition_payload_def Generation_new_def)
  have sel: "select_records U (candidate_sha S) ?intent (xs @ [?r]) = Inr (ys @ [?r])"
    if "select_records U (candidate_sha S) ?intent xs = Inr ys" for xs ys
    using that env
    by (induction xs arbitrary: ys) (auto simp: and_then_Inr_iff created_record_def transition_payload_def split: if_splits)
  obtain ys where ys: "select_records U (candidate_sha S) ?intent rs = Inr ys"
    "replay U ?intent (sort_key record_id ys) {} \<lparr>head_id = None, phase = VmEmpty\<rparr> = Inr st"
    using rs(1) by (auto simp: reconstruct_ledger_def and_then_Inr_iff split: if_splits)
  have small: "\<forall>q\<in>set ys. record_id q < i" using select_records_Inr [OF ys(1)] rs(2) by auto
  have sorted: "sort_key record_id (ys @ [?r]) = sort_key record_id ys @ [?r]"
    using small by (intro sort_key_snoc) (auto simp: created_record_def)
  have "replay U ?intent (sort_key record_id (ys @ [?r])) {} \<lparr>head_id = None, phase = VmEmpty\<rparr> = Inr \<lparr>head_id = Some i, phase = ph\<rparr>"
    unfolding sorted replay_append using ys(2) small app
    by (auto simp: created_record_def transition_payload_def)
  then show ?thesis using sel [OF ys(1)] wf(1) by (simp add: reconstruct_ledger_def store_wf_def)
qed


section \<open>The lifecycle the store promises\<close>

datatype VmOp =
    OpPrepareCreate
  | OpDispatchCreate Generation
  | OpPrepareDelete VmBinding
  | OpDispatchDelete VmBinding
  | OpBind VmBinding
  | OpReplace VmBinding VmBinding
  | OpClear VmBinding

fun run_op :: "Uuids \<Rightarrow> BindingStore \<Rightarrow> Backend \<Rightarrow> VmOp \<Rightarrow> BindingStoreError + unit" where
  "run_op U S B OpPrepareCreate = and_then (prepare_create U S B (store_intent S)) (\<lambda>_. Inr ())"
| "run_op U S B (OpDispatchCreate g) = mark_create_dispatched U S B (store_intent S) g"
| "run_op U S B (OpPrepareDelete b) = prepare_delete U S B (store_intent S) b"
| "run_op U S B (OpDispatchDelete b) = mark_delete_dispatched U S B (store_intent S) b"
| "run_op U S B (OpBind b) = binding_compare_and_swap U S B (store_intent S) None (Some b)"
| "run_op U S B (OpReplace a b) = binding_compare_and_swap U S B (store_intent S) (Some a) (Some b)"
| "run_op U S B (OpClear a) = binding_compare_and_swap U S B (store_intent S) (Some a) None"

inductive vm_step :: "AcceptanceVmLifecycleState \<Rightarrow> VmOp \<Rightarrow> AcceptanceVmLifecycleState \<Rightarrow> bool" where
  prepare: "vm_step VmEmpty OpPrepareCreate (CreatePrepared (Generation 1))"
| dispatch: "vm_step (CreatePrepared g) (OpDispatchCreate g) (CreateDispatched g)"
| bind: "binding_generation b = g \<Longrightarrow> vm_step (CreateDispatched g) (OpBind b) (Bound b)"
| replace: "Generation_next (binding_generation a) = Inr (binding_generation b) \<Longrightarrow>
    binding_provider_id b \<noteq> binding_provider_id a \<Longrightarrow> binding_intent b = binding_intent a \<Longrightarrow>
    vm_step (Bound a) (OpReplace a b) (Bound b)"
| prepare_delete: "vm_step (Bound a) (OpPrepareDelete a) (DeletePrepared a)"
| dispatch_delete: "vm_step (DeletePrepared a) (OpDispatchDelete a) (DeleteDispatched a)"
| clear: "vm_step (DeleteDispatched a) (OpClear a) (Terminal (binding_generation a))"

inductive_simps vm_step_simps:
  "vm_step ph OpPrepareCreate ph'" "vm_step ph (OpDispatchCreate g) ph'" "vm_step ph (OpBind b) ph'"
  "vm_step ph (OpReplace a b) ph'" "vm_step ph (OpPrepareDelete a) ph'" "vm_step ph (OpDispatchDelete a) ph'"
  "vm_step ph (OpClear a) ph'"

fun op_bindings :: "VmOp \<Rightarrow> VmBinding set" where
  "op_bindings (OpBind b) = {b}"
| "op_bindings (OpReplace a b) = {a, b}"
| "op_bindings (OpPrepareDelete a) = {a}"
| "op_bindings (OpDispatchDelete a) = {a}"
| "op_bindings (OpClear a) = {a}"
| "op_bindings _ = {}"

lemma solo_append:
  assumes wf: "store_wf S" "\<forall>b\<in>set_option e \<union> set_option r. binding_wf U S b" "generation_get g \<noteq> 0"
    and step: "step_phase (phase st) tr g e r = Inr ph"
    and rs: "reconstruct_ledger U rs (candidate_sha S) (store_intent S) = Inr st" "\<forall>q\<in>set rs. record_id q < i" "length rs < 9999"
  shows "append_transition U S (solo rs i) st tr g e r ph = Inr ()"
    "\<exists>n. list_records (get_after (solo rs i) n) = Inr (rs @ [created_record i n])
       \<and> reconstruct_ledger U (rs @ [created_record i n]) (candidate_sha S) (store_intent S) = Inr \<lparr>head_id = Some i, phase = ph\<rparr>"
proof -
  let ?n = "\<lparr>new_candidate_sha = candidate_sha S, new_payload = transition_payload S st tr g e r\<rparr>"
  have l: "list_records (get_after (solo rs i) ?n) = Inr (rs @ [created_record i ?n])"
    using rs(3) list_records_of [of "rs @ [created_record i ?n]"] by (simp add: solo_def)
  note w = replayed_write [OF wf step rs(1,2)]
  show "append_transition U S (solo rs i) st tr g e r ph = Inr ()"
    using l w by (simp add: append_transition_def Let_def append_record_def current_state_def validate_intent_def solo_def)
      (simp add: created_record_def)
  show "\<exists>n. list_records (get_after (solo rs i) n) = Inr (rs @ [created_record i n])
       \<and> reconstruct_ledger U (rs @ [created_record i n]) (candidate_sha S) (store_intent S) = Inr \<lparr>head_id = Some i, phase = ph\<rparr>"
    using l w by blast
qed


lemma run_op_sound:
  assumes "run_op U S B op = Inr ()"
  shows "\<exists>st ph. current_state U S (get_before B) (store_intent S) = Inr st \<and> vm_step (phase st) op ph \<and> wrote U S B ph"
proof -
  have ok: "\<exists>st ph. current_state U S (get_before B) (store_intent S) = Inr st \<and> vm_step (phase st) op ph \<and> wrote U S B ph"
    if "current_state U S (get_before B) (store_intent S) = Inr st" "vm_step (phase st) op ph"
      "append_transition U S B st tr g e r ph = Inr ()" for st ph tr g e r
    using that append_transition_wrote by blast
  show ?thesis
  proof (cases op)
    case OpPrepareCreate
    with assms obtain st where st: "current_state U S (get_before B) (store_intent S) = Inr st"
      "is_Ok (case phase st of VmEmpty \<Rightarrow> and_then (append_transition U S B st PrepareCreate Generation_INITIAL None None (CreatePrepared Generation_INITIAL))
           (\<lambda>_. Inr Generation_INITIAL) | Terminal _ \<Rightarrow> Inl TerminalIntentReuse | _ \<Rightarrow> Inl OperationInProgress)"
      by (auto simp: prepare_create_def and_then_Inr_iff)
    then show ?thesis
      using ok [OF st(1)] OpPrepareCreate
      by (cases "phase st"; cases "append_transition U S B st PrepareCreate Generation_INITIAL None None (CreatePrepared Generation_INITIAL)")
        (auto simp: vm_step_simps Generation_INITIAL_def)
  next
    case (OpDispatchCreate g)
    obtain st where st: "current_state U S (get_before B) (store_intent S) = Inr st" "mark_create_dispatched U S B (store_intent S) g = Inr ()"
      using assms OpDispatchCreate by (auto simp: mark_create_dispatched_def and_then_Inr_iff)
    then show ?thesis
      using ok [OF st(1)] OpDispatchCreate by (cases "phase st") (auto simp: mark_create_dispatched_def vm_step_simps split: if_splits)
  next
    case (OpPrepareDelete b)
    obtain st where st: "current_state U S (get_before B) (store_intent S) = Inr st" "prepare_delete U S B (store_intent S) b = Inr ()"
      "validate_binding U S b = Inr ()"
      using assms OpPrepareDelete by (auto simp: prepare_delete_def and_then_Inr_iff)
    then show ?thesis
      using ok [OF st(1)] OpPrepareDelete by (cases "phase st") (auto simp: prepare_delete_def vm_step_simps split: if_splits)
  next
    case (OpDispatchDelete b)
    obtain st where st: "current_state U S (get_before B) (store_intent S) = Inr st" "mark_delete_dispatched U S B (store_intent S) b = Inr ()"
      "validate_binding U S b = Inr ()"
      using assms OpDispatchDelete by (auto simp: mark_delete_dispatched_def and_then_Inr_iff)
    then show ?thesis
      using ok [OF st(1)] OpDispatchDelete by (cases "phase st") (auto simp: mark_delete_dispatched_def vm_step_simps split: if_splits)
  next
    case (OpBind b)
    obtain st where st: "current_state U S (get_before B) (store_intent S) = Inr st"
      "binding_compare_and_swap U S B (store_intent S) None (Some b) = Inr ()" "validate_binding U S b = Inr ()"
      using assms OpBind by (auto simp: binding_compare_and_swap_def and_then_Inr_iff)
    then show ?thesis
      using ok [OF st(1)] OpBind
      by (cases "phase st") (auto simp: binding_compare_and_swap_def validate_intent_def vm_step_simps split: if_splits)
  next
    case (OpReplace a b)
    obtain st where st: "current_state U S (get_before B) (store_intent S) = Inr st"
      "binding_compare_and_swap U S B (store_intent S) (Some a) (Some b) = Inr ()" "validate_binding U S a = Inr ()" "validate_binding U S b = Inr ()"
      using assms OpReplace by (auto simp: binding_compare_and_swap_def and_then_Inr_iff)
    then show ?thesis
      using ok [OF st(1)] OpReplace
      by (cases "phase st"; cases "Generation_next (binding_generation a)")
        (auto simp: binding_compare_and_swap_def validate_intent_def vm_step_simps split: if_splits)
  next
    case (OpClear a)
    obtain st where st: "current_state U S (get_before B) (store_intent S) = Inr st"
      "binding_compare_and_swap U S B (store_intent S) (Some a) None = Inr ()" "validate_binding U S a = Inr ()"
      using assms OpClear by (auto simp: binding_compare_and_swap_def and_then_Inr_iff)
    then show ?thesis
      using ok [OF st(1)] OpClear
      by (cases "phase st") (auto simp: binding_compare_and_swap_def validate_intent_def vm_step_simps split: if_splits)
  qed
qed

definition phase_generation_ok :: "AcceptanceVmLifecycleState \<Rightarrow> bool" where
  "phase_generation_ok ph = (case ph of CreatePrepared g \<Rightarrow> generation_get g \<noteq> 0 | CreateDispatched g \<Rightarrow> generation_get g \<noteq> 0 | _ \<Rightarrow> True)"

lemma replay_generation_ok:
  assumes "replay U intent rs seen st = Inr st'" "phase_generation_ok (phase st)"
  shows "phase_generation_ok (phase st')"
  using assms
proof (induction rs arbitrary: seen st)
  case (Cons r rs)
  then obtain ph where a: "apply_record U (phase st) (payload r) intent = Inr ph"
    "replay U intent rs (insert (record_id r) seen) \<lparr>head_id = Some (record_id r), phase = ph\<rparr> = Inr st'"
    by (auto simp: and_then_Inr_iff split: if_splits)
  let ?g = "Generation (payload_generation (payload r))"
  obtain e q where "generation_get ?g \<noteq> 0" "step_phase (phase st) (transition (payload r)) ?g e q = Inr ph"
    using a(1) by (auto simp: apply_record_def and_then_Inr_iff Generation_new_def map_err_def split: if_splits)
  then have "phase_generation_ok ph"
    by (cases "transition (payload r)"; cases "phase st")
      (auto simp: step_phase_def phase_generation_ok_def and_then_Inr_iff map_err_def Generation_INITIAL_def split: if_splits sum.splits)
  then show ?case using Cons.IH [OF a(2)] by simp
qed simp

lemma solo_complete:
  assumes step: "vm_step (phase st) op ph" and wf: "store_wf S" "\<forall>b\<in>op_bindings op. binding_wf U S b"
    and rs: "reconstruct_ledger U rs (candidate_sha S) (store_intent S) = Inr st" "\<forall>q\<in>set rs. record_id q < i" "length rs < 9999"
  shows "run_op U S (solo rs i) op = Inr ()"
proof -
  have cur: "current_state U S (get_before (solo rs i)) (store_intent S) = Inr st"
    using rs(1,3) list_records_of [of rs] by (simp add: current_state_def validate_intent_def solo_def)
  have gen: "phase_generation_ok (phase st)"
    using replay_generation_ok [OF reconstruct_replay [OF rs(1)]] by (simp add: phase_generation_ok_def)
  have bw: "validate_binding U S b = Inr ()" "generation_get (binding_generation b) \<noteq> 0" if "b \<in> op_bindings op" for b
    using wf(2) that by (auto simp: binding_wf_def)
  note app = solo_append(1) [OF wf(1) _ _ _ rs]
  have intent [simp]: "validate_intent S (store_intent S) = Inr ()" by (simp add: validate_intent_def)
  from step show ?thesis
  proof cases
    case prepare
    have "append_transition U S (solo rs i) st PrepareCreate Generation_INITIAL None None (CreatePrepared Generation_INITIAL) = Inr ()"
      using prepare by (intro app) (simp_all add: step_phase_def Generation_INITIAL_def)
    then show ?thesis using prepare cur by (simp add: prepare_create_def)
  next
    case (dispatch g)
    have "append_transition U S (solo rs i) st DispatchCreate g None None (CreateDispatched g) = Inr ()"
      using dispatch gen by (intro app) (simp_all add: step_phase_def phase_generation_ok_def)
    then show ?thesis using dispatch cur by (simp add: mark_create_dispatched_def)
  next
    case (bind b g)
    have "append_transition U S (solo rs i) st Bind g None (Some b) (Bound b) = Inr ()"
      using bind gen wf(2) by (intro app) (simp_all add: step_phase_def phase_generation_ok_def)
    then show ?thesis using bind cur bw by (simp add: binding_compare_and_swap_def)
  next
    case (replace a b)
    have "append_transition U S (solo rs i) st Replace (binding_generation b) (Some a) (Some b) (Bound b) = Inr ()"
      using replace bw wf(2) by (intro app) (simp_all add: step_phase_def)
    then show ?thesis using replace cur bw by (simp add: binding_compare_and_swap_def)
  next
    case (prepare_delete a)
    have "append_transition U S (solo rs i) st PrepareDelete (binding_generation a) (Some a) None (DeletePrepared a) = Inr ()"
      using prepare_delete bw wf(2) by (intro app) (simp_all add: step_phase_def)
    then show ?thesis using prepare_delete cur bw by (simp add: prepare_delete_def)
  next
    case (dispatch_delete a)
    have "append_transition U S (solo rs i) st DispatchDelete (binding_generation a) (Some a) None (DeleteDispatched a) = Inr ()"
      using dispatch_delete bw wf(2) by (intro app) (simp_all add: step_phase_def)
    then show ?thesis using dispatch_delete cur bw by (simp add: mark_delete_dispatched_def)
  next
    case (clear a)
    have "append_transition U S (solo rs i) st Clear (binding_generation a) (Some a) None (Terminal (binding_generation a)) = Inr ()"
      using clear bw wf(2) by (intro app) (simp_all add: step_phase_def)
    then show ?thesis using clear cur bw by (simp add: binding_compare_and_swap_def)
  qed
qed


section \<open>Claims\<close>

text \<open>
  C10: Whatever other writers do and whatever GitHub answers, an operation that
  succeeds has read a ledger in a phase where the lifecycle allows it, and has
  seen its own record at the head of a ledger in the phase the lifecycle
  prescribes.  A writer that is alone succeeds exactly when the lifecycle allows
  the operation.
\<close>

theorem store_follows_lifecycle:
  assumes "store_wf S" "\<forall>b\<in>op_bindings op. binding_wf U S b"
    and "reconstruct_ledger U rs (candidate_sha S) (store_intent S) = Inr st" "\<forall>q\<in>set rs. record_id q < i" "length rs < 9999"
  shows "(\<forall>B. run_op U S B op = Inr () \<longrightarrow>
           (\<exists>before ph. current_state U S (get_before B) (store_intent S) = Inr before \<and> vm_step (phase before) op ph \<and> wrote U S B ph))
       \<and> (run_op U S (solo rs i) op = Inr () \<longleftrightarrow> (\<exists>ph. vm_step (phase st) op ph))"
proof -
  have "current_state U S (get_before (solo rs i)) (store_intent S) = Inr st"
    using assms(3,5) list_records_of [of rs] by (simp add: current_state_def validate_intent_def solo_def)
  then show ?thesis using run_op_sound [of U S "solo rs i" op] run_op_sound [of U S _ op] solo_complete [OF _ assms] by auto
qed

definition sample_uuids :: Uuids where
  "sample_uuids = \<lparr>uuid_parse = (\<lambda>s. if s = ''u1'' then Some 1 else if s = ''u2'' then Some 2 else None),
     uuid_text = (\<lambda>u. if u = 1 then ''u1'' else ''u2'')\<rparr>"

definition sample_sha :: string where
  "sample_sha = replicate 40 CHR ''a''"

definition sample_store :: BindingStore where
  "sample_store = \<lparr>candidate_sha = sample_sha,
     store_intent = \<lparr>intent_scope = Acceptance, intent_id = namespace_intent_id Item20 sample_sha\<rparr>\<rparr>"

lemma sample_store_wf: "store_wf sample_store"
  by (simp add: store_wf_def sample_store_def validate_candidate_sha_def sample_sha_def is_lower_hex_def is_ascii_digit_def
      in_range_def allowed_intent_id_def list_all_iff)

lemma empty_ledger: "reconstruct_ledger U [] (candidate_sha sample_store) (store_intent sample_store) = Inr \<lparr>head_id = None, phase = VmEmpty\<rparr>"
  using sample_store_wf by (simp add: reconstruct_ledger_def store_wf_def)

theorem store_follows_lifecycle_witness:
  "run_op sample_uuids sample_store (solo [] 7) OpPrepareCreate = Inr ()
   \<and> run_op sample_uuids sample_store (solo [] 7) (OpDispatchCreate (Generation 1)) \<noteq> Inr ()"
  using store_follows_lifecycle [OF sample_store_wf _ empty_ledger, of OpPrepareCreate sample_uuids 7]
    store_follows_lifecycle [OF sample_store_wf _ empty_ledger, of "OpDispatchCreate (Generation 1)" sample_uuids 7]
  by (simp add: vm_step_simps)

text \<open>
  C9: Once one caller's create dispatch was confirmed, no other caller's is, and
  likewise for the delete dispatch: two dispatches of the same intent are never
  both confirmed, whatever interleaving of writers produced the ledger, provided
  GitHub numbers deployments apart and a later listing contains the earlier one.
\<close>

theorem dispatch_confirmed_at_most_once:
  assumes "same_service A B"
  shows "(mark_create_dispatched U S A intent g = Inr () \<longrightarrow> mark_create_dispatched U S B intent' g' \<noteq> Inr ())
       \<and> (mark_delete_dispatched U S A intent b = Inr () \<longrightarrow> mark_delete_dispatched U S B intent' b' \<noteq> Inr ())"
  using wrote_once [OF dispatch_create_wrote dispatch_create_wrote assms] wrote_once [OF dispatch_delete_wrote dispatch_delete_wrote assms]
  by fastforce


definition sample_record :: "u64 \<Rightarrow> LedgerState \<Rightarrow> LedgerTransition \<Rightarrow> DeploymentRecord" where
  "sample_record i st tr = created_record i \<lparr>new_candidate_sha = candidate_sha sample_store,
     new_payload = transition_payload sample_store st tr (Generation 1) None None\<rparr>"

definition sample_prepared :: DeploymentRecord where
  "sample_prepared = sample_record 7 \<lparr>head_id = None, phase = VmEmpty\<rparr> PrepareCreate"

definition sample_dispatch :: "u64 \<Rightarrow> DeploymentRecord" where
  "sample_dispatch i = sample_record i \<lparr>head_id = Some 7, phase = CreatePrepared (Generation 1)\<rparr> DispatchCreate"

definition racing :: "DeploymentRecord \<Rightarrow> DeploymentRecord list \<Rightarrow> Backend" where
  "racing r later = \<lparr>get_before = pages_of [sample_prepared], post_record = (\<lambda>n. HttpReply 201 (Some r)), get_after = (\<lambda>n. pages_of later)\<rparr>"

theorem dispatch_confirmed_at_most_once_witness:
  "mark_create_dispatched sample_uuids sample_store (racing (sample_dispatch 8) [sample_prepared, sample_dispatch 8])
     (store_intent sample_store) (Generation 1) = Inr ()
   \<and> mark_create_dispatched sample_uuids sample_store (racing (sample_dispatch 9) [sample_prepared, sample_dispatch 8, sample_dispatch 9])
     (store_intent sample_store) (Generation 1) \<noteq> Inr ()"
proof -
  let ?S = sample_store and ?U = sample_uuids
  have 1: "reconstruct_ledger ?U [sample_prepared] (candidate_sha ?S) (store_intent ?S) = Inr \<lparr>head_id = Some 7, phase = CreatePrepared (Generation 1)\<rparr>"
    using replayed_write [OF sample_store_wf _ _ _ empty_ledger, of None None ?U "Generation 1" PrepareCreate "CreatePrepared (Generation 1)" 7]
    by (simp add: step_phase_def Generation_INITIAL_def sample_prepared_def sample_record_def)
  have 2: "reconstruct_ledger ?U [sample_prepared, sample_dispatch 8] (candidate_sha ?S) (store_intent ?S)
      = Inr \<lparr>head_id = Some 8, phase = CreateDispatched (Generation 1)\<rparr>"
    using replayed_write [OF sample_store_wf _ _ _ 1, of None None "Generation 1" DispatchCreate "CreateDispatched (Generation 1)" 8]
    by (simp add: step_phase_def sample_dispatch_def sample_record_def sample_prepared_def created_record_def)
  have first: "mark_create_dispatched ?U ?S (racing (sample_dispatch 8) [sample_prepared, sample_dispatch 8]) (store_intent ?S) (Generation 1) = Inr ()"
    using 1 2 list_records_of [of "[sample_prepared]"] list_records_of [of "[sample_prepared, sample_dispatch 8]"]
    by (simp add: mark_create_dispatched_def current_state_def validate_intent_def append_transition_def Let_def append_record_def racing_def)
      (simp add: sample_dispatch_def sample_record_def created_record_def)
  have "same_service (racing (sample_dispatch 8) [sample_prepared, sample_dispatch 8])
      (racing (sample_dispatch 9) [sample_prepared, sample_dispatch 8, sample_dispatch 9])"
    using list_records_of [of "[sample_prepared, sample_dispatch 8]"] list_records_of [of "[sample_prepared, sample_dispatch 8, sample_dispatch 9]"]
    by (auto simp: same_service_def racing_def append_record_def) (simp add: sample_dispatch_def sample_record_def created_record_def)
  from dispatch_confirmed_at_most_once [OF this, of ?U ?S "store_intent ?S" "Generation 1"] first show ?thesis by blast
qed

end
