(* ===== verification/Vm_Session_Inv.thy ===== *)
theory Vm_Session_Inv
  imports Vm_Session Vm_Ledger_Inv
begin

text \<open>
  Sessions over a store that follows the lifecycle and an arbitrary provider: at
  most one machine is ever requested and at most one is ever deleted, whatever
  fails and however often sessions are opened and closed again.
\<close>

section \<open>Effects and what they keep\<close>

definition valid ::
  "('w \<Rightarrow> 'a) \<Rightarrow> ('a \<Rightarrow> bool) \<Rightarrow> ('w, 'x) session \<Rightarrow> ('x \<Rightarrow> 'a \<Rightarrow> bool) \<Rightarrow> ('a \<Rightarrow> bool) \<Rightarrow> bool" where
  "valid A P m Q E = (\<forall>w. P (A w) \<longrightarrow> (case m w of (Inl _, w') \<Rightarrow> E (A w') | (Inr x, w') \<Rightarrow> Q x (A w')))"

lemma valid_bind:
  "valid A P m R E \<Longrightarrow> (\<And>x. valid A (R x) (f x) Q E) \<Longrightarrow> valid A P (sbind m f) Q E"
  unfolding valid_def sbind_def by (fastforce split: prod.splits sum.splits)

lemma valid_return [intro]: "(\<And>a. P a \<Longrightarrow> Q x a) \<Longrightarrow> valid A P (sreturn x) Q E"
  by (simp add: valid_def sreturn_def)

lemma valid_fail [intro]: "(\<And>a. P a \<Longrightarrow> E a) \<Longrightarrow> valid A P (sfail e) Q E"
  by (simp add: valid_def sfail_def)

lemma valid_lift:
  "(\<And>a. P a \<Longrightarrow> E a) \<Longrightarrow> valid A P (slift r) (\<lambda>x a. P a \<and> r = Inr x) E"
  by (simp add: valid_def slift_def split: sum.split)

lemma valid_weaken:
  assumes "valid A P m Q E" "\<And>a. P' a \<Longrightarrow> P a" "\<And>x a. Q x a \<Longrightarrow> Q' x a"
  shows "valid A P' m Q' E"
  unfolding valid_def
proof (intro allI impI)
  fix w assume "P' (A w)"
  from assms(1) [unfolded valid_def, rule_format, OF assms(2) [OF this]] assms(3) show "case m w of (Inl _, w') \<Rightarrow> E (A w') | (Inr x, w') \<Rightarrow> Q' x (A w')"
    by (auto split: prod.splits sum.splits)
qed

lemma valid_pure: "(C \<Longrightarrow> valid A P m Q E) \<Longrightarrow> valid A (\<lambda>a. P a \<and> C) m Q E"
  by (cases C) (simp_all add: valid_def)

section \<open>The invariant\<close>

lemma authorized_target: "authorize_mutation b observed g k = Inr t \<Longrightarrow> t = target_of b"
  by (auto simp: authorize_mutation_def resolve_bound_resource_def target_of_def Let_def and_then_Inr_iff
      split: if_splits list.splits OwnershipObservation.splits)

definition deletions_ok :: "AcceptanceVmLifecycleState \<Rightarrow> VerifiedMutationTarget list \<Rightarrow> bool" where
  "deletions_ok ph ts =
     (case ph of DeleteDispatched b \<Rightarrow> (\<forall>t\<in>set ts. t = target_of b) | Terminal _ \<Rightarrow> (\<exists>t. set ts \<subseteq> {t}) | _ \<Rightarrow> ts = [])"

type_synonym session_view = "AcceptanceVmLifecycleState \<times> nat \<times> VerifiedMutationTarget list"

definition session_inv :: "session_view \<Rightarrow> bool" where
  "session_inv a = (case a of (ph, created, deleted) \<Rightarrow>
     created \<le> 1 \<and> (phase_rank ph < 2 \<longrightarrow> created = 0) \<and> deletions_ok ph deleted)"

lemma session_inv_step: "session_inv (ph, c, d) \<Longrightarrow> vm_step ph op ph' \<Longrightarrow> session_inv (ph', c, d)"
proof -
  assume inv: "session_inv (ph, c, d)" and step: "vm_step ph op ph'"
  have "deletions_ok ph' d" using step inv by cases (auto simp: session_inv_def deletions_ok_def)
  moreover have "phase_rank ph' < 2 \<Longrightarrow> phase_rank ph < 2" using step by cases auto
  ultimately show ?thesis using inv by (auto simp: session_inv_def)
qed

definition advances :: "('w \<Rightarrow> session_view) \<Rightarrow> VmOp \<Rightarrow> ('w, BindingStoreError, 'x) effect \<Rightarrow> bool" where
  "advances A op m = (\<forall>w. case A w of (ph, c, d) \<Rightarrow>
     (\<exists>ph'. A (snd (m w)) = (ph', c, d) \<and> (if is_Ok (fst (m w)) then vm_step ph op ph' else ph' = ph \<or> vm_step ph op ph')))"

definition closed :: "SessionCloseOutcome \<Rightarrow> AcceptanceVmLifecycleState \<Rightarrow> bool" where
  "closed r ph = (case r of NoResourceCreated \<Rightarrow> ph = VmEmpty | _ \<Rightarrow> (\<exists>g. ph = Terminal g))"

locale session_world =
  fixes S :: "'w Item20LifecycleStore"
    and P :: "'w Item20AcceptanceProvider"
    and A :: "'w \<Rightarrow> session_view"
  assumes lifecycle_state: "A (snd (st_lifecycle_state S intent w)) = A w"
      "fst (st_lifecycle_state S intent w) = Inr ph \<Longrightarrow> ph = fst (A w)"
    and prepare_create: "advances A OpPrepareCreate (st_prepare_create S intent)"
    and mark_create_dispatched: "advances A (OpDispatchCreate g) (st_mark_create_dispatched S intent g)"
    and prepare_delete: "advances A (OpPrepareDelete b) (st_prepare_delete S intent b)"
    and mark_delete_dispatched: "advances A (OpDispatchDelete b) (st_mark_delete_dispatched S intent b)"
    and bind: "advances A (OpBind b) (st_compare_and_swap S intent None (Some b))"
    and clear: "advances A (OpClear b) (st_compare_and_swap S intent (Some b) None)"
    and list_instances: "A (snd (pr_list_instances P w)) = A w"
    and instance_ipv4: "A (snd (pr_instance_ipv4 P t w)) = A w"
    and create_instance: "A w = (ph, c, d) \<Longrightarrow> A (snd (pr_create_instance P plan spec data w)) = (ph, Suc c, d)"
    and delete_instance: "A w = (ph, c, d) \<Longrightarrow> A (snd (pr_delete_instance P t w)) = (ph, c, d @ [t])"
begin

abbreviation sound :: "(session_view \<Rightarrow> bool) \<Rightarrow> ('w, 'x) session \<Rightarrow> ('x \<Rightarrow> session_view \<Rightarrow> bool) \<Rightarrow> bool" where
  "sound R m Q \<equiv> valid A (\<lambda>a. session_inv a \<and> R a) m (\<lambda>x a. session_inv a \<and> Q x a) session_inv"

lemma observe_sound: "sound R (observe P) (\<lambda>_. R)"
  using list_instances by (auto simp: valid_def observe_def stry_def split: prod.split sum.split) (metis snd_conv)+

lemma read_sound: "sound R (read_state S intent) (\<lambda>ph a. R a \<and> fst a = ph)"
  using lifecycle_state by (auto simp: valid_def read_state_def stry_def split: prod.split sum.split) (metis fst_conv snd_conv)+

lemma advances_sound:
  assumes "advances A op m"
  shows "sound R (stry c m) (\<lambda>_ a. case a of (ph', n, ts) \<Rightarrow> \<exists>ph. vm_step ph op ph' \<and> session_inv (ph, n, ts) \<and> R (ph, n, ts))"
  unfolding valid_def
proof (intro allI impI)
  fix w assume pre: "session_inv (A w) \<and> R (A w)"
  obtain ph n ts where a: "A w = (ph, n, ts)" by (cases "A w")
  obtain r w' where m: "m w = (r, w')" by force
  obtain ph' where ph': "A w' = (ph', n, ts)" "if is_Ok r then vm_step ph op ph' else ph' = ph \<or> vm_step ph op ph'"
    using assms [unfolded advances_def, rule_format, of w] a m by auto
  have inv: "session_inv (A w')" using pre a ph' session_inv_step by (auto split: if_splits)
  show "case stry c m w of (Inl _, w') \<Rightarrow> session_inv (A w') | (Inr x, w') \<Rightarrow> session_inv (A w') \<and>
      (case A w' of (ph', n, ts) \<Rightarrow> \<exists>ph. vm_step ph op ph' \<and> session_inv (ph, n, ts) \<and> R (ph, n, ts))"
    using inv ph' pre a m by (cases r) (auto simp: stry_def)
qed

lemma recover_attempts_sound: "sound (\<lambda>_. True) (recover_attempts S P desired fence n) (\<lambda>b a. fst a = Bound b)"
proof (induction n)
  case (Suc n)
  have "sound (\<lambda>_. True) (case recover_dispatched_create fence observed of
       None \<Rightarrow> sfail Panicked
     | Some (Inl e) \<Rightarrow> sfail (DispatchFailed e)
     | Some (Inr AwaitProvider) \<Rightarrow> recover_attempts S P desired fence n
     | Some (Inr (Recovered recovered)) \<Rightarrow>
         sbind (stry StoreFailed (st_compare_and_swap S (desired_intent desired) None (Some (recovered_binding recovered)))) (\<lambda>_.
         sreturn (recovered_binding recovered))) (\<lambda>b a. fst a = Bound b)" for observed
  proof -
    have "sound (\<lambda>_. True) (sbind (stry StoreFailed (st_compare_and_swap S (desired_intent desired) None (Some b))) (\<lambda>_. sreturn b))
        (\<lambda>b a. fst a = Bound b)" for b
      by (rule valid_bind [OF advances_sound [OF bind]]) (auto simp: vm_step_simps)
    with Suc show ?thesis by (auto split: option.split sum.split CreateRecovery.split)
  qed
  then show ?case unfolding recover_attempts.simps by (rule valid_bind [OF observe_sound])
qed auto

lemma recover_create_sound: "sound (\<lambda>_. True) (recover_create_binding S P desired g) (\<lambda>b a. fst a = Bound b)"
  unfolding recover_create_binding_def
  by (rule valid_bind [OF valid_lift]) (auto intro: valid_weaken [OF recover_attempts_sound])


lemma create_sound:
  "sound (\<lambda>a. 2 \<le> phase_rank (fst a) \<and> fst (snd a) = 0) (stry c (pr_create_instance P plan spec data)) (\<lambda>_ _. True)"
  unfolding valid_def
proof (intro allI impI)
  fix w assume pre: "session_inv (A w) \<and> 2 \<le> phase_rank (fst (A w)) \<and> fst (snd (A w)) = 0"
  obtain ph n ts where a: "A w = (ph, n, ts)" by (cases "A w")
  have "session_inv (A (snd (pr_create_instance P plan spec data w)))"
    using pre create_instance [OF a] a by (auto simp: session_inv_def)
  then show "case stry c (pr_create_instance P plan spec data) w of (Inl _, w') \<Rightarrow> session_inv (A w') | (Inr x, w') \<Rightarrow> session_inv (A w') \<and> True"
    by (auto simp: stry_def split: prod.split sum.split)
qed

lemma delete_sound:
  "sound (\<lambda>a. fst a = DeleteDispatched b) (stry c (pr_delete_instance P (target_of b))) (\<lambda>_ a. fst a = DeleteDispatched b)"
  unfolding valid_def
proof (intro allI impI)
  fix w assume pre: "session_inv (A w) \<and> fst (A w) = DeleteDispatched b"
  obtain ph n ts where a: "A w = (ph, n, ts)" by (cases "A w")
  have "session_inv (A (snd (pr_delete_instance P (target_of b) w))) \<and> fst (A (snd (pr_delete_instance P (target_of b) w))) = DeleteDispatched b"
    using pre delete_instance [OF a] a by (auto simp: session_inv_def deletions_ok_def)
  then show "case stry c (pr_delete_instance P (target_of b)) w of (Inl _, w') \<Rightarrow> session_inv (A w')
      | (Inr x, w') \<Rightarrow> session_inv (A w') \<and> fst (A w') = DeleteDispatched b"
    by (auto simp: stry_def split: prod.split sum.split)
qed

lemma lift_sound: "sound R (slift r) (\<lambda>x a. R a \<and> r = Inr x)"
  using valid_lift [of "\<lambda>a. session_inv a \<and> R a" session_inv A r] by (simp add: conj_assoc)

lemma sound_any: "sound (\<lambda>_. True) m Q \<Longrightarrow> sound R m Q"
  by (erule valid_weaken) auto

lemma sound_pure: "(C \<Longrightarrow> sound R m Q) \<Longrightarrow> sound (\<lambda>a. R a \<and> C) m Q"
  by (cases C) (simp_all add: valid_def)

lemma sound_fail: "sound R (sfail e) Q"
  by auto

lemma dispatch_sound: "sound (\<lambda>_. True) (dispatch_create S P desired data prepared) (\<lambda>b a. fst a = Bound b)"
proof -
  have mark: "sound (\<lambda>_. True) (stry StoreFailed (st_mark_create_dispatched S i g)) (\<lambda>_ a. 2 \<le> phase_rank (fst a) \<and> fst (snd a) = 0)" for i g
    by (rule valid_weaken [OF advances_sound [OF mark_create_dispatched]]) (auto simp: vm_step_simps session_inv_def)
  have prep: "sound (\<lambda>_. True) (case prepared of Some g \<Rightarrow> sreturn g | None \<Rightarrow> stry StoreFailed (st_prepare_create S i)) (\<lambda>_ _. True)" for i
    by (cases prepared) (auto intro: valid_weaken [OF advances_sound [OF prepare_create]])
  have go: "sound (\<lambda>_. True) (sbind (stry StoreFailed (st_mark_create_dispatched S i g)) (\<lambda>_.
      sbind (stry (\<lambda>_. AmbiguousCreate) (pr_create_instance P plan spec data)) (\<lambda>_. recover_create_binding S P desired g)))
      (\<lambda>b a. fst a = Bound b)" for i g plan spec
    by (rule valid_bind [OF mark valid_bind [OF create_sound recover_create_sound]])
  have planned: "sound (\<lambda>_. True) (case reconcile of Create plan \<Rightarrow>
         sbind (slift (map_err DispatchFailed (create_dispatch_fence plan desired))) (\<lambda>fence.
         sbind (case prepared of Some g \<Rightarrow> sreturn g | None \<Rightarrow> stry StoreFailed (st_prepare_create S (desired_intent desired))) (\<lambda>g.
         if g \<noteq> fence_generation fence then sfail GenerationMismatch
         else
           sbind (stry StoreFailed (st_mark_create_dispatched S (desired_intent desired) g)) (\<lambda>_.
           sbind (stry (\<lambda>_. AmbiguousCreate) (pr_create_instance P plan acceptance_spec data)) (\<lambda>_.
           recover_create_binding S P desired g))))
     | _ \<Rightarrow> sfail NotEligibleForCreate) (\<lambda>b a. fst a = Bound b)" for reconcile
  proof (cases reconcile)
    case (Create plan)
    show ?thesis unfolding Create ReconcilePlan.case
      by (rule valid_bind [OF lift_sound], rule sound_pure, rule valid_bind [OF prep]) (use go in \<open>auto split: if_split\<close>)
  qed auto
  show ?thesis unfolding dispatch_create_def
    by (rule valid_bind [OF observe_sound], rule valid_bind [OF lift_sound], rule sound_pure, rule planned)
qed

lemma open_sound:
  "sound (\<lambda>_. True) (open_item20_session S P identity data) (\<lambda>r a. fst a = Bound (session_binding r))"
proof -
  have ret: "sound (\<lambda>_. True) (sbind m (\<lambda>b. sreturn \<lparr>session_binding = b, session_origin = origin\<rparr>)) (\<lambda>r a. fst a = Bound (session_binding r))"
    if "sound (\<lambda>_. True) m (\<lambda>b a. fst a = Bound b)" for m origin
    by (rule valid_bind [OF that]) auto
  have bound: "sound (\<lambda>a. fst a = Bound b) (sbind (observe P) (\<lambda>observed.
         sbind (slift (map_err LifecycleFailed (plan_present (Some b) observed desired (Some (binding_generation b))))) (\<lambda>plan.
         case plan of
           NoopPlan _ \<Rightarrow> sreturn \<lparr>session_binding = b, session_origin = OriginExisting\<rparr>
         | Reconfigure _ \<Rightarrow> sfail SpecificationDrifted
         | Create _ \<Rightarrow> sfail UnexpectedCreate))) (\<lambda>r a. fst a = Bound (session_binding r))" for b desired
    by (rule valid_bind [OF observe_sound], rule valid_bind [OF lift_sound], rule sound_pure) (auto split: ReconcilePlan.split)
  have state: "sound (\<lambda>a. fst a = state) (case state of
       VmEmpty \<Rightarrow> sbind (dispatch_create S P desired data None) (\<lambda>b. sreturn \<lparr>session_binding = b, session_origin = OriginCreated\<rparr>)
     | CreatePrepared g \<Rightarrow> sbind (dispatch_create S P desired data (Some g)) (\<lambda>b. sreturn \<lparr>session_binding = b, session_origin = OriginCreated\<rparr>)
     | CreateDispatched g \<Rightarrow> sbind (recover_create_binding S P desired g) (\<lambda>b. sreturn \<lparr>session_binding = b, session_origin = OriginRecovered\<rparr>)
     | Bound b \<Rightarrow> sbind (observe P) (\<lambda>observed.
         sbind (slift (map_err LifecycleFailed (plan_present (Some b) observed desired (Some (binding_generation b))))) (\<lambda>plan.
         case plan of
           NoopPlan _ \<Rightarrow> sreturn \<lparr>session_binding = b, session_origin = OriginExisting\<rparr>
         | Reconfigure _ \<Rightarrow> sfail SpecificationDrifted
         | Create _ \<Rightarrow> sfail UnexpectedCreate))
     | DeletePrepared _ \<Rightarrow> sfail CleanupInProgress
     | DeleteDispatched _ \<Rightarrow> sfail CleanupInProgress
     | Terminal _ \<Rightarrow> sfail TerminalIntent) (\<lambda>r a. fst a = Bound (session_binding r))" for state desired
  proof (cases state)
    case VmEmpty
    show ?thesis unfolding VmEmpty AcceptanceVmLifecycleState.case by (rule sound_any [OF ret [OF dispatch_sound]])
  next
    case (CreatePrepared g)
    show ?thesis unfolding CreatePrepared AcceptanceVmLifecycleState.case by (rule sound_any [OF ret [OF dispatch_sound]])
  next
    case (CreateDispatched g)
    show ?thesis unfolding CreateDispatched AcceptanceVmLifecycleState.case by (rule sound_any [OF ret [OF recover_create_sound]])
  next
    case (Bound b)
    show ?thesis unfolding Bound AcceptanceVmLifecycleState.case by (rule bound)
  qed auto
  show ?thesis unfolding open_item20_session_def
    by (rule valid_bind [OF lift_sound], rule sound_pure, rule valid_bind [OF read_sound], rule valid_weaken [OF state]) auto
qed


lemma confirm_sound: "sound R (confirm_attempts P b n) (\<lambda>_. R)"
proof (induction n)
  case (Suc n)
  have "sound R (case authorize_mutation b observed (binding_generation b) MutateDelete of
       Inl ProviderResourceNotFound \<Rightarrow> sreturn () | Inl e \<Rightarrow> sfail (LifecycleFailed e) | Inr _ \<Rightarrow> confirm_attempts P b n) (\<lambda>_. R)" for observed
    using Suc by (auto split: sum.split LifecycleError.split)
  then show ?case unfolding confirm_attempts.simps by (rule valid_bind [OF observe_sound])
qed (simp add: sound_fail)

lemma clear_sound: "sound (\<lambda>_. True) (clear_and_check S b) (\<lambda>_ a. fst a = Terminal (binding_generation b))"
proof -
  have check: "sound (\<lambda>a. fst a = Terminal (binding_generation b)) (sbind (terminal_matches S b) (\<lambda>t. if \<not> t then sfail NotTerminal else sreturn ()))
      (\<lambda>_ a. fst a = Terminal (binding_generation b))"
  proof -
    have read: "sound (\<lambda>a. fst a = Terminal (binding_generation b)) (terminal_matches S b) (\<lambda>_ a. fst a = Terminal (binding_generation b))"
      unfolding terminal_matches_def by (rule valid_bind [OF read_sound]) auto
    show ?thesis by (rule valid_bind [OF read]) auto
  qed
  have clr: "sound (\<lambda>_. True) (stry StoreFailed (st_compare_and_swap S i (Some b) None)) (\<lambda>_ a. fst a = Terminal (binding_generation b))" for i
    by (rule valid_weaken [OF advances_sound [OF clear, where R = "\<lambda>_. True"]]) (auto simp: vm_step_simps)
  show ?thesis unfolding clear_and_check_def by (rule valid_bind [OF clr check])
qed

lemma finish_sound:
  "sound (\<lambda>a. fst a = DeleteDispatched b) (sbind (stry (\<lambda>_. ProviderFailed) (pr_delete_instance P (target_of b))) (\<lambda>_.
     sbind (confirm_provider_deleted P b) (\<lambda>_. clear_and_check S b))) (\<lambda>_ a. fst a = Terminal (binding_generation b))"
  unfolding confirm_provider_deleted_def
  by (rule valid_bind [OF delete_sound], rule valid_bind [OF confirm_sound], rule sound_any [OF clear_sound])

lemma delete_bound_sound: "sound (\<lambda>_. True) (delete_bound S P b prepared False) (\<lambda>_ a. fst a = Terminal (binding_generation b))"
proof -
  have target: "sound (\<lambda>_. True) (resolve_delete_target P b) (\<lambda>t _. t = target_of b)"
    unfolding resolve_delete_target_def
    by (rule valid_bind [OF observe_sound], rule valid_weaken [OF lift_sound]) (auto simp: map_err_def authorized_target split: sum.splits)
  have prep: "sound (\<lambda>_. True) (if \<not> prepared then stry StoreFailed (st_prepare_delete S i b) else sreturn ()) (\<lambda>_ _. True)" for i
    by (auto intro: valid_weaken [OF advances_sound [OF prepare_delete]])
  have mark: "sound (\<lambda>_. True) (stry StoreFailed (st_mark_delete_dispatched S i b)) (\<lambda>_ a. fst a = DeleteDispatched b)" for i
    by (rule valid_weaken [OF advances_sound [OF mark_delete_dispatched, where R = "\<lambda>_. True"]]) (auto simp: vm_step_simps)
  have rest: "sound (\<lambda>_. t = target_of b) (sbind (if \<not> prepared then stry StoreFailed (st_prepare_delete S (binding_intent b) b) else sreturn ()) (\<lambda>_.
      sbind (stry StoreFailed (st_mark_delete_dispatched S (binding_intent b) b)) (\<lambda>_.
      sbind (stry (\<lambda>_. ProviderFailed) (pr_delete_instance P t)) (\<lambda>_.
      sbind (confirm_provider_deleted P b) (\<lambda>_. clear_and_check S b))))) (\<lambda>_ a. fst a = Terminal (binding_generation b))" for t
  proof (cases "t = target_of b")
    case True
    show ?thesis unfolding True by (rule sound_any) (rule valid_bind [OF prep valid_bind [OF mark finish_sound]])
  qed (simp add: valid_def)
  have body: "delete_bound S P b prepared False = sbind (resolve_delete_target P b) (\<lambda>t.
      sbind (if \<not> prepared then stry StoreFailed (st_prepare_delete S (binding_intent b) b) else sreturn ()) (\<lambda>_.
      sbind (stry StoreFailed (st_mark_delete_dispatched S (binding_intent b) b)) (\<lambda>_.
      sbind (stry (\<lambda>_. ProviderFailed) (pr_delete_instance P t)) (\<lambda>_.
      sbind (confirm_provider_deleted P b) (\<lambda>_. clear_and_check S b)))))"
    by (simp add: delete_bound_def)
  show ?thesis unfolding body by (rule valid_bind [OF target rest])
qed

lemma recover_delete_sound:
  "sound (\<lambda>a. fst a = DeleteDispatched b) (recover_dispatched_delete S P b) (\<lambda>_ a. fst a = Terminal (binding_generation b))"
proof -
  have "sound (\<lambda>a. fst a = DeleteDispatched b) (case authorize_mutation b observed (binding_generation b) MutateDelete of
       Inl ProviderResourceNotFound \<Rightarrow> clear_and_check S b
     | Inr target \<Rightarrow> sbind (stry (\<lambda>_. ProviderFailed) (pr_delete_instance P target)) (\<lambda>_.
         sbind (confirm_provider_deleted P b) (\<lambda>_. clear_and_check S b))
     | Inl e \<Rightarrow> sfail (LifecycleFailed e)) (\<lambda>_ a. fst a = Terminal (binding_generation b))" for observed
  proof (cases "authorize_mutation b observed (binding_generation b) MutateDelete")
    case (Inl e)
    show ?thesis unfolding Inl sum.case using sound_any [OF clear_sound] by (auto split: LifecycleError.split)
  next
    case (Inr t)
    then have "t = target_of b" by (rule authorized_target)
    then show ?thesis unfolding Inr sum.case using finish_sound by simp
  qed
  then show ?thesis unfolding recover_dispatched_delete_def by (rule valid_bind [OF observe_sound])
qed

lemma close_sound: "sound (\<lambda>_. True) (close_item20_session S P identity) (\<lambda>r a. closed r (fst a))"
proof -
  have ret: "sound R (sbind m (\<lambda>_. sreturn DeletedAndTerminal)) (\<lambda>r a. closed r (fst a))"
    if "sound R m (\<lambda>_ a. fst a = Terminal g)" for R g and m :: "('w, unit) session"
    by (rule valid_bind [OF that]) (auto simp: closed_def)
  have state: "sound (\<lambda>a. fst a = state) (case state of
       VmEmpty \<Rightarrow> sreturn NoResourceCreated
     | CreatePrepared _ \<Rightarrow> sfail PreparedNotDispatched
     | CreateDispatched generation \<Rightarrow>
         sbind (recover_create_binding S P desired generation) (\<lambda>binding.
         sbind (delete_bound S P binding False False) (\<lambda>_. sreturn DeletedAndTerminal))
     | Bound binding \<Rightarrow> sbind (delete_bound S P binding False False) (\<lambda>_. sreturn DeletedAndTerminal)
     | DeletePrepared binding \<Rightarrow> sbind (delete_bound S P binding True False) (\<lambda>_. sreturn DeletedAndTerminal)
     | DeleteDispatched binding \<Rightarrow> sbind (recover_dispatched_delete S P binding) (\<lambda>_. sreturn DeletedAndTerminal)
     | Terminal _ \<Rightarrow> sreturn AlreadyTerminal) (\<lambda>r a. closed r (fst a))" for state desired
  proof (cases state)
    case (CreateDispatched g)
    show ?thesis unfolding CreateDispatched AcceptanceVmLifecycleState.case
      by (rule sound_any, rule valid_bind [OF recover_create_sound], rule sound_any, rule ret [OF delete_bound_sound])
  next
    case (Bound b)
    show ?thesis unfolding Bound AcceptanceVmLifecycleState.case by (rule sound_any [OF ret [OF delete_bound_sound]])
  next
    case (DeletePrepared b)
    show ?thesis unfolding DeletePrepared AcceptanceVmLifecycleState.case by (rule sound_any [OF ret [OF delete_bound_sound]])
  next
    case (DeleteDispatched b)
    show ?thesis unfolding DeleteDispatched AcceptanceVmLifecycleState.case by (rule ret [OF recover_delete_sound])
  qed (auto simp: closed_def)
  show ?thesis unfolding close_item20_session_def
    by (rule valid_bind [OF lift_sound], rule sound_pure, rule valid_bind [OF read_sound], rule valid_weaken [OF state]) auto
qed

end

end
