(* ===== verification/Vm_World.thy ===== *)
theory Vm_World
  imports Vm_Session_Inv
begin

text \<open>
  Sessions over the deployment ledger and a provider that answers anything: the
  store of \<open>Vm_Ledger\<close> run against a ledger whose requests may get lost on the
  way there, on the way back or when they are verified, and a provider whose
  answers come from a script.  The traits of \<open>Vm_Session\<close> are implemented by
  them, and sequences of opened and closed sessions are run on top.
\<close>

section \<open>What an operation writes\<close>

fun op_write ::
  "AcceptanceVmLifecycleState \<Rightarrow> VmOp \<Rightarrow>
     (LedgerTransition \<times> Generation \<times> VmBinding option \<times> VmBinding option \<times> AcceptanceVmLifecycleState) option" where
  "op_write VmEmpty OpPrepareCreate = Some (PrepareCreate, Generation_INITIAL, None, None, CreatePrepared Generation_INITIAL)"
| "op_write (CreatePrepared p) (OpDispatchCreate g) = (if p = g then Some (DispatchCreate, g, None, None, CreateDispatched g) else None)"
| "op_write (CreateDispatched g) (OpBind b) =
     (if g = binding_generation b then Some (Bind, g, None, Some b, Bound b) else None)"
| "op_write (Bound c) (OpReplace a b) =
     (if c = a \<and> Generation_next (binding_generation a) = Inr (binding_generation b) \<and> binding_provider_id b \<noteq> binding_provider_id a
         \<and> binding_intent b = binding_intent a
      then Some (Replace, binding_generation b, Some a, Some b, Bound b) else None)"
| "op_write (Bound c) (OpPrepareDelete b) =
     (if c = b then Some (PrepareDelete, binding_generation b, Some b, None, DeletePrepared b) else None)"
| "op_write (DeletePrepared c) (OpDispatchDelete b) =
     (if c = b then Some (DispatchDelete, binding_generation b, Some b, None, DeleteDispatched b) else None)"
| "op_write (DeleteDispatched c) (OpClear b) =
     (if c = b then Some (Clear, binding_generation b, Some b, None, Terminal (binding_generation b)) else None)"
| "op_write _ _ = None"

lemma op_write_step: "(\<exists>tr g e r. op_write ph op = Some (tr, g, e, r, ph')) \<longleftrightarrow> vm_step ph op ph'"
  by (cases "(ph, op)" rule: op_write.cases) (auto simp: vm_step_simps vm_step.simps Generation_INITIAL_def)

lemma op_write_phase: "op_write ph op = Some (tr, g, e, r, ph') \<Longrightarrow> step_phase ph tr g e r = Inr ph'"
  by (cases "(ph, op)" rule: op_write.cases) (auto simp: step_phase_def Generation_INITIAL_def split: if_splits)

lemma op_write_bindings: "op_write ph op = Some (tr, g, e, r, ph') \<Longrightarrow> set_option e \<union> set_option r \<subseteq> op_bindings op"
  by (cases "(ph, op)" rule: op_write.cases) (auto split: if_splits)

lemma op_write_generation:
  assumes "op_write ph op = Some (tr, g, e, r, ph')" "phase_generation_ok ph" "\<forall>b\<in>op_bindings op. binding_wf U S b"
  shows "generation_get g \<noteq> 0"
  using assms
  by (cases "(ph, op)" rule: op_write.cases) (auto simp: phase_generation_ok_def binding_wf_def Generation_INITIAL_def split: if_splits)

section \<open>The world of a session\<close>

datatype Fault = NoFault | LostRead | LostPost | LostReply | LostVerify

record SessionWorld =
  sw_records :: "DeploymentRecord list"
  sw_faults :: "Fault list"
  sw_listings :: "ObservedVm list option list"
  sw_replies :: "ObservedVm option list"
  sw_created :: nat
  sw_deleted :: "VerifiedMutationTarget list"

definition top_id :: "DeploymentRecord list \<Rightarrow> u64" where
  "top_id rs = foldr (\<lambda>r m. max (record_id r) m) rs 0"

lemma top_id_le: "r \<in> set rs \<Longrightarrow> record_id r \<le> top_id rs"
  by (induction rs) (auto simp: top_id_def le_max_iff_disj)

definition accepting :: "DeploymentRecord list \<Rightarrow> bool" where
  "accepting rs = (length rs < 9999 \<and> top_id rs < - 1)"

lemma u64_less_Suc: "x < - 1 \<Longrightarrow> x < x + (1::u64)"
  by unat_arith

lemma accepting_fresh: "accepting rs \<Longrightarrow> r \<in> set rs \<Longrightarrow> record_id r < top_id rs + 1"
proof -
  assume a: "accepting rs" and r: "r \<in> set rs"
  have "top_id rs < top_id rs + 1"
    using a by (simp add: accepting_def u64_less_Suc)
  with top_id_le [OF r] show ?thesis by (rule le_less_trans)
qed

definition fault_at :: "SessionWorld \<Rightarrow> Fault" where
  "fault_at w =
     (let f = (case sw_faults w of [] \<Rightarrow> NoFault | f # _ \<Rightarrow> f) in
      if accepting (sw_records w) \<or> f = LostRead then f else LostPost)"

definition faulty :: "Fault \<Rightarrow> DeploymentRecord list \<Rightarrow> Backend" where
  "faulty f rs =
     \<lparr>get_before = (if f = LostRead then (\<lambda>_. TransportFailed) else pages_of rs),
      post_record = (\<lambda>n. if f \<in> {LostPost, LostReply} then TransportFailed else HttpReply 201 (Some (created_record (top_id rs + 1) n))),
      get_after = (\<lambda>n. if f = LostVerify then (\<lambda>_. TransportFailed) else pages_of (rs @ [created_record (top_id rs + 1) n]))\<rparr>"

text \<open>The record an operation leaves behind, when it gets as far as posting one and the post arrives.\<close>

definition posted :: "Uuids \<Rightarrow> BindingStore \<Rightarrow> Fault \<Rightarrow> DeploymentRecord list \<Rightarrow> VmOp \<Rightarrow> DeploymentRecord list" where
  "posted U S f rs op =
     (case current_state U S (get_before (faulty f rs)) (store_intent S) of
        Inl _ \<Rightarrow> []
      | Inr st \<Rightarrow>
          (case op_write (phase st) op of
             Some (tr, g, e, r, _) \<Rightarrow>
               if f \<in> {LostRead, LostPost} then []
               else [created_record (top_id rs + 1) \<lparr>new_candidate_sha = candidate_sha S, new_payload = transition_payload S st tr g e r\<rparr>]
           | None \<Rightarrow> []))"

definition ledger_op ::
  "Uuids \<Rightarrow> BindingStore \<Rightarrow> OwnershipIntent \<Rightarrow> VmOp \<Rightarrow> (Backend \<Rightarrow> BindingStoreError + 'a) \<Rightarrow> (SessionWorld, BindingStoreError, 'a) effect" where
  "ledger_op U S intent op run w =
     (let f = fault_at w; w' = w\<lparr>sw_faults := tl (sw_faults w)\<rparr> in
      if intent \<noteq> store_intent S \<or> (\<exists>b\<in>op_bindings op. \<not> binding_wf U S b) then (Inl StoreInvalidOwnershipIntent, w')
      else (run (faulty f (sw_records w)), w'\<lparr>sw_records := sw_records w @ posted U S f (sw_records w) op\<rparr>))"

text \<open>
  The store refuses another intent's requests and bindings that fail its
  validation before it reads the ledger; a binding with generation zero or
  without an identifier cannot be built.
\<close>

definition ledger_store :: "Uuids \<Rightarrow> BindingStore \<Rightarrow> SessionWorld Item20LifecycleStore" where
  "ledger_store U S =
     \<lparr>st_lifecycle_state = (\<lambda>intent w. (lifecycle_state U S (faulty (fault_at w) (sw_records w)) intent, w\<lparr>sw_faults := tl (sw_faults w)\<rparr>)),
      st_prepare_create = (\<lambda>intent. ledger_op U S intent OpPrepareCreate (\<lambda>B. prepare_create U S B intent)),
      st_mark_create_dispatched = (\<lambda>intent g. ledger_op U S intent (OpDispatchCreate g) (\<lambda>B. mark_create_dispatched U S B intent g)),
      st_prepare_delete = (\<lambda>intent b. ledger_op U S intent (OpPrepareDelete b) (\<lambda>B. prepare_delete U S B intent b)),
      st_mark_delete_dispatched = (\<lambda>intent b. ledger_op U S intent (OpDispatchDelete b) (\<lambda>B. mark_delete_dispatched U S B intent b)),
      st_compare_and_swap = (\<lambda>intent exp rep.
        case (exp, rep) of
          (None, Some b) \<Rightarrow> ledger_op U S intent (OpBind b) (\<lambda>B. binding_compare_and_swap U S B intent exp rep)
        | (Some a, Some b) \<Rightarrow> ledger_op U S intent (OpReplace a b) (\<lambda>B. binding_compare_and_swap U S B intent exp rep)
        | (Some a, None) \<Rightarrow> ledger_op U S intent (OpClear a) (\<lambda>B. binding_compare_and_swap U S B intent exp rep)
        | (None, None) \<Rightarrow> (\<lambda>w. (Inl InvalidTransition, w)))\<rparr>"

definition script_provider :: "SessionWorld Item20AcceptanceProvider" where
  "script_provider =
     \<lparr>pr_list_instances = (\<lambda>w. (case sw_listings w of Some vms # _ \<Rightarrow> Inr vms | _ \<Rightarrow> Inl (), w\<lparr>sw_listings := tl (sw_listings w)\<rparr>)),
      pr_create_instance = (\<lambda>plan spec data w.
        (case sw_replies w of Some vm # _ \<Rightarrow> Inr vm | _ \<Rightarrow> Inl (), w\<lparr>sw_replies := tl (sw_replies w), sw_created := Suc (sw_created w)\<rparr>)),
      pr_instance_ipv4 = (\<lambda>target w. (Inl (), w)),
      pr_delete_instance = (\<lambda>target w.
        (case sw_replies w of Some vm # _ \<Rightarrow> Inr () | _ \<Rightarrow> Inl (), w\<lparr>sw_replies := tl (sw_replies w), sw_deleted := sw_deleted w @ [target]\<rparr>))\<rparr>"

definition ledger_phase :: "Uuids \<Rightarrow> BindingStore \<Rightarrow> DeploymentRecord list \<Rightarrow> AcceptanceVmLifecycleState" where
  "ledger_phase U S rs = (case reconstruct_ledger U rs (candidate_sha S) (store_intent S) of Inr st \<Rightarrow> phase st | Inl _ \<Rightarrow> VmEmpty)"

definition world_view :: "Uuids \<Rightarrow> BindingStore \<Rightarrow> SessionWorld \<Rightarrow> session_view" where
  "world_view U S w = (ledger_phase U S (sw_records w), sw_created w, sw_deleted w)"

lemma list_pages_full:
  "PAGE_SIZE * (k + n) \<le> length rs \<Longrightarrow> list_pages (pages_of rs) (map Suc [k..<k + n]) recs = Inl LedgerTooLarge"
proof (induction n arbitrary: k recs)
  case (Suc n)
  have up: "[k..<k + Suc n] = k # [Suc k..<Suc k + n]" by (simp add: upt_conv_Cons)
  have "\<not> length (take PAGE_SIZE (drop (PAGE_SIZE * k) rs)) < PAGE_SIZE" using Suc.prems by (simp add: PAGE_SIZE_def)
  with Suc.IH [of "Suc k"] Suc.prems show ?case unfolding up by (simp add: pages_of_def)
qed simp

lemma list_records_exact: "list_records (pages_of rs) = Inr recs \<Longrightarrow> recs = rs"
  using list_records_of [of rs] list_pages_full [of 0 100 rs "[]"]
  by (cases "length rs < 10000") (simp_all add: list_records_def PAGE_SIZE_def MAX_LEDGER_PAGES_def map_Suc_upt)

lemma current_state_faulty:
  assumes "current_state U S (get_before (faulty f rs)) intent = Inr st"
  shows "reconstruct_ledger U rs (candidate_sha S) (store_intent S) = Inr st" "f \<noteq> LostRead"
proof -
  have nf: "f \<noteq> LostRead"
    using assms by (auto simp: current_state_def faulty_def list_records_def and_then_Inr_iff MAX_LEDGER_PAGES_def upt_rec)
  obtain recs where recs: "list_records (pages_of rs) = Inr recs" "reconstruct_ledger U recs (candidate_sha S) (store_intent S) = Inr st"
    using assms nf by (auto simp: current_state_def faulty_def and_then_Inr_iff)
  show "reconstruct_ledger U rs (candidate_sha S) (store_intent S) = Inr st" using recs list_records_exact by metis
  show "f \<noteq> LostRead" by (rule nf)
qed

lemma reconstruct_store_wf: "reconstruct_ledger U rs (candidate_sha S) (store_intent S) = Inr st \<Longrightarrow> store_wf S"
  by (auto simp: reconstruct_ledger_def store_wf_def and_then_Inr_iff split: if_splits)

lemma fault_accepts: "fault_at w \<notin> {LostRead, LostPost} \<Longrightarrow> accepting (sw_records w)"
  by (auto simp: fault_at_def Let_def split: if_splits list.splits)

lemma posted_advances:
  assumes wf: "\<forall>b\<in>op_bindings op. binding_wf U S b" and f: "f \<notin> {LostRead, LostPost} \<Longrightarrow> accepting rs"
  shows "posted U S f rs op = [] \<or> vm_step (ledger_phase U S rs) op (ledger_phase U S (rs @ posted U S f rs op))"
proof (cases "posted U S f rs op = []")
  case False
  then obtain st tr g e r ph where w: "current_state U S (get_before (faulty f rs)) (store_intent S) = Inr st"
      "op_write (phase st) op = Some (tr, g, e, r, ph)" "f \<notin> {LostRead, LostPost}"
      "posted U S f rs op = [created_record (top_id rs + 1) \<lparr>new_candidate_sha = candidate_sha S, new_payload = transition_payload S st tr g e r\<rparr>]"
    by (auto simp: posted_def split: sum.splits option.splits prod.splits if_splits)
  note rs = current_state_faulty(1) [OF w(1)]
  have gen: "phase_generation_ok (phase st)"
    using replay_generation_ok [OF reconstruct_replay [OF rs]] by (simp add: phase_generation_ok_def)
  have "reconstruct_ledger U (rs @ posted U S f rs op) (candidate_sha S) (store_intent S) = Inr \<lparr>head_id = Some (top_id rs + 1), phase = ph\<rparr>"
    unfolding w(4)
    by (rule replayed_write [OF reconstruct_store_wf [OF rs] _ op_write_generation [OF w(2) gen wf] op_write_phase [OF w(2)] rs])
      (use op_write_bindings [OF w(2)] wf accepting_fresh [OF f [OF w(3)]] in auto)
  then show ?thesis using rs w(2) op_write_step [of "phase st" op ph] by (auto simp: ledger_phase_def)
qed simp

lemma successful_post:
  assumes "run_op U S (faulty f rs) op = Inr ()"
  shows "posted U S f rs op \<noteq> []"
proof -
  obtain st ph where s: "current_state U S (get_before (faulty f rs)) (store_intent S) = Inr st" "vm_step (phase st) op ph" "wrote U S (faulty f rs) ph"
    using run_op_sound [OF assms] by blast
  have "f \<notin> {LostRead, LostPost}"
    using s(3) current_state_faulty(2) [OF s(1)] by (auto simp: wrote_def faulty_def append_record_def)
  then show ?thesis using s(1,2) op_write_step [of "phase st" op ph] by (auto simp: posted_def)
qed

lemma ledger_op_advances:
  assumes "\<And>B. intent = store_intent S \<Longrightarrow> is_Ok (run B) = is_Ok (run_op U S B op)"
  shows "advances (world_view U S) op (ledger_op U S intent op run)"
  unfolding advances_def
proof
  fix w
  let ?f = "fault_at w" and ?rs = "sw_records w"
  show "case world_view U S w of (ph, c, d) \<Rightarrow> \<exists>ph'. world_view U S (snd (ledger_op U S intent op run w)) = (ph', c, d)
      \<and> (if is_Ok (fst (ledger_op U S intent op run w)) then vm_step ph op ph' else ph' = ph \<or> vm_step ph op ph')"
  proof (cases "intent \<noteq> store_intent S \<or> (\<exists>b\<in>op_bindings op. \<not> binding_wf U S b)")
    case True
    then show ?thesis by (simp add: ledger_op_def Let_def world_view_def)
  next
    case False
    then have wf: "\<forall>b\<in>op_bindings op. binding_wf U S b" and i: "intent = store_intent S" by auto
    have "is_Ok (run (faulty ?f ?rs)) \<Longrightarrow> posted U S ?f ?rs op \<noteq> []"
      using assms [OF i] successful_post [of U S ?f ?rs op] by (cases "run_op U S (faulty ?f ?rs) op") auto
    moreover have "posted U S ?f ?rs op = [] \<or> vm_step (ledger_phase U S ?rs) op (ledger_phase U S (?rs @ posted U S ?f ?rs op))"
      by (rule posted_advances [OF wf]) (simp add: fault_accepts)
    ultimately show ?thesis using False by (auto simp: ledger_op_def Let_def world_view_def)
  qed
qed

lemma is_Ok_discard [simp]: "is_Ok (and_then r (\<lambda>_. Inr ())) = is_Ok r"
  by (cases r) simp_all

interpretation ledger: session_world "ledger_store U S" script_provider "world_view U S" for U S
proof unfold_locales
  show "fst (st_lifecycle_state (ledger_store U S) intent w) = Inr ph \<Longrightarrow> ph = fst (world_view U S w)" for intent w ph
    by (auto simp: ledger_store_def lifecycle_state_def and_then_Inr_iff world_view_def ledger_phase_def dest!: current_state_faulty(1))
qed (auto simp: ledger_store_def script_provider_def world_view_def intro!: ledger_op_advances)

section \<open>Runs\<close>

datatype SessionCall = OpenCall Item20SessionIdentity string | CloseCall Item20SessionIdentity

datatype CallOutcome = Opened OpenItem20Session | Closed SessionCloseOutcome | CallFailed SessionError

fun run_call :: "Uuids \<Rightarrow> BindingStore \<Rightarrow> SessionCall \<Rightarrow> SessionWorld \<Rightarrow> CallOutcome \<times> SessionWorld" where
  "run_call U S (OpenCall identity data) w =
     (case open_item20_session (ledger_store U S) script_provider identity data w of
        (Inl e, w') \<Rightarrow> (CallFailed e, w') | (Inr x, w') \<Rightarrow> (Opened x, w'))"
| "run_call U S (CloseCall identity) w =
     (case close_item20_session (ledger_store U S) script_provider identity w of
        (Inl e, w') \<Rightarrow> (CallFailed e, w') | (Inr x, w') \<Rightarrow> (Closed x, w'))"

fun run_calls :: "Uuids \<Rightarrow> BindingStore \<Rightarrow> SessionCall list \<Rightarrow> SessionWorld \<Rightarrow> SessionWorld" where
  "run_calls U S [] w = w"
| "run_calls U S (c # cs) w = run_calls U S cs (snd (run_call U S c w))"

definition outcome_ok :: "CallOutcome \<Rightarrow> AcceptanceVmLifecycleState \<Rightarrow> bool" where
  "outcome_ok r ph = (case r of Opened s \<Rightarrow> ph = Bound (session_binding s) | Closed c \<Rightarrow> closed c ph | CallFailed _ \<Rightarrow> True)"

lemma run_call_sound:
  assumes "session_inv (world_view U S w)"
  shows "session_inv (world_view U S (snd (run_call U S c w)))"
    "outcome_ok (fst (run_call U S c w)) (ledger_phase U S (sw_records (snd (run_call U S c w))))"
proof -
  have fst_view: "fst (world_view U S v) = ledger_phase U S (sw_records v)" for v by (simp add: world_view_def)
  have "session_inv (world_view U S (snd (run_call U S c w)))
      \<and> outcome_ok (fst (run_call U S c w)) (ledger_phase U S (sw_records (snd (run_call U S c w))))"
  proof (cases c)
    case (OpenCall identity data)
    show ?thesis
      using ledger.open_sound [unfolded valid_def, rule_format, of U S w identity data] assms OpenCall
      by (auto simp: outcome_ok_def fst_view split: prod.splits sum.splits)
  next
    case (CloseCall identity)
    show ?thesis
      using ledger.close_sound [unfolded valid_def, rule_format, of U S w identity] assms CloseCall
      by (auto simp: outcome_ok_def fst_view split: prod.splits sum.splits)
  qed
  then show "session_inv (world_view U S (snd (run_call U S c w)))"
    "outcome_ok (fst (run_call U S c w)) (ledger_phase U S (sw_records (snd (run_call U S c w))))" by auto
qed

lemma run_calls_inv: "session_inv (world_view U S w) \<Longrightarrow> session_inv (world_view U S (run_calls U S cs w))"
  by (induction cs arbitrary: w) (simp_all add: run_call_sound(1))

section \<open>Claims\<close>

text \<open>
  C6: Whatever requests to GitHub get lost, whatever the provider answers or
  fails to answer, and however often sessions are opened and closed afterwards:
  starting from an empty ledger at most one create request is ever sent, only
  after the ledger records it as dispatched, and all delete requests name one
  and the same machine and are sent only after the ledger records the delete.
\<close>

theorem one_machine_per_candidate:
  assumes "sw_records w = []" "sw_created w = 0" "sw_deleted w = []"
  shows "let w' = run_calls U S cs w; ph = ledger_phase U S (sw_records w') in
     sw_created w' \<le> 1 \<and> (sw_created w' = 1 \<longrightarrow> ph \<noteq> VmEmpty \<and> (\<forall>g. ph \<noteq> CreatePrepared g))
   \<and> (\<exists>t. set (sw_deleted w') \<subseteq> {t})
   \<and> (\<forall>t\<in>set (sw_deleted w'). (\<exists>b. ph = DeleteDispatched b \<and> t = target_of b) \<or> (\<exists>g. ph = Terminal g))"
proof -
  have fresh: "ledger_phase U S [] = VmEmpty"
    by (auto simp: ledger_phase_def reconstruct_ledger_def and_then_def split: sum.split)
  then have "session_inv (world_view U S (run_calls U S cs w))"
    using assms by (intro run_calls_inv) (simp add: world_view_def session_inv_def deletions_ok_def)
  then show ?thesis
    by (cases "ledger_phase U S (sw_records (run_calls U S cs w))")
      (auto simp: Let_def world_view_def session_inv_def deletions_ok_def)
qed

definition sample_identity :: Item20SessionIdentity where
  "sample_identity = \<lparr>identity_candidate_sha = sample_sha, identity_control_plane_sha = sample_sha\<rparr>"

definition sample_vm :: ObservedVm where
  "sample_vm = \<lparr>vm_provider_id = ProviderResourceId ''u1'', vm_display_name = ACCEPTANCE_LABEL,
     vm_ownership = Exact (OwnershipMetadata_exact (store_intent sample_store) (Generation 1)),
     vm_spec_fingerprint = VultrVmSpec_fingerprint acceptance_spec\<rparr>"

text \<open>A first open whose create answer is lost, a second one that finds the machine, and a close.\<close>

definition sample_world :: SessionWorld where
  "sample_world = \<lparr>sw_records = [], sw_faults = [], sw_listings = [Some [], Some [sample_vm], Some [sample_vm], Some []],
     sw_replies = [None, Some sample_vm], sw_created = 0, sw_deleted = []\<rparr>"

definition sample_calls :: "SessionCall list" where
  "sample_calls = [OpenCall sample_identity ''data'', OpenCall sample_identity ''data'', CloseCall sample_identity]"

theorem one_machine_per_candidate_witness:
  "sw_created (run_calls sample_uuids sample_store sample_calls sample_world) \<le> 1"
  using one_machine_per_candidate [of sample_world sample_uuids sample_store sample_calls] by (simp add: sample_world_def Let_def)

text \<open>
  What a session call reports is what the ledger says, after any earlier
  calls and failures: a session that opened is bound in the ledger to the very
  machine it returns, and a session that closed left a ledger that is empty or
  has reached its terminal record, never one with a live machine.
\<close>

theorem session_outcome_is_durable:
  assumes "sw_records w = []" "sw_created w = 0" "sw_deleted w = []"
  shows "case run_call U S c (run_calls U S cs w) of
     (Opened s, w') \<Rightarrow> ledger_phase U S (sw_records w') = Bound (session_binding s)
   | (Closed NoResourceCreated, w') \<Rightarrow> ledger_phase U S (sw_records w') = VmEmpty \<and> sw_created w' = 0
   | (Closed _, w') \<Rightarrow> \<exists>g. ledger_phase U S (sw_records w') = Terminal g
   | (CallFailed _, w') \<Rightarrow> True"
proof -
  have fresh: "ledger_phase U S [] = VmEmpty"
    by (auto simp: ledger_phase_def reconstruct_ledger_def and_then_def split: sum.split)
  then have "session_inv (world_view U S (run_calls U S cs w))"
    using assms by (intro run_calls_inv) (simp add: world_view_def session_inv_def deletions_ok_def)
  from run_call_sound [OF this, of c] show ?thesis
    by (auto simp: outcome_ok_def closed_def world_view_def session_inv_def split: prod.splits CallOutcome.splits SessionCloseOutcome.splits)
qed

theorem session_outcome_is_durable_witness:
  "case run_call sample_uuids sample_store (CloseCall sample_identity) (run_calls sample_uuids sample_store sample_calls sample_world) of
     (Opened s, w') \<Rightarrow> ledger_phase sample_uuids sample_store (sw_records w') = Bound (session_binding s)
   | (Closed NoResourceCreated, w') \<Rightarrow> ledger_phase sample_uuids sample_store (sw_records w') = VmEmpty \<and> sw_created w' = 0
   | (Closed _, w') \<Rightarrow> \<exists>g. ledger_phase sample_uuids sample_store (sw_records w') = Terminal g
   | (CallFailed _, w') \<Rightarrow> True"
  by (rule session_outcome_is_durable) (simp_all add: sample_world_def)

end
