(* ===== verification/Host_Runtime.thy ===== *)
theory Host_Runtime
  imports Proxy_Core Tunnel_Model Decimal "HOL-Library.AList"
begin

text \<open>
  Model of the phone's daemon (\<open>services/host-daemon/src\<close>: \<open>state.rs\<close>,
  \<open>rotation.rs\<close>, \<open>health.rs\<close>, \<open>reverse_tunnel.rs\<close>, \<open>control_plane.rs\<close>): the runtime
  state behind its lock, and each section that holds the lock as one definition.
  Shell commands, observers, sockets and generated UUIDs are arguments: what they
  answer is decided outside the program.
\<close>

section \<open>State\<close>

record JobRecord =
  job_id :: uuid
  job_kind :: string
  job_status :: string
  job_old_public_ip :: "string option"
  job_new_public_ip :: "string option"
  job_changed :: "bool option"

record HealthRecord =
  he_node_id :: string
  he_node_name :: string
  he_config_fingerprint :: "FingerprintInput option"
  he_binary_fingerprint :: FingerprintInput
  he_readiness_state :: string
  he_serving :: bool
  he_proxy_status :: string
  he_last_public_ip :: "string option"
  he_active_operator_profile :: "string option"
  he_active_operator_plmn :: "string option"
  he_last_proxy_error :: "string option"
  he_serving_failure_reason :: "string option"
  he_degradation_reason_code :: "string option"
  he_cellular_route_ready :: "bool option"
  he_proxy_bind_ready :: "bool option"
  he_local_serving_ready :: "bool option"
  he_tun0_present :: "bool option"
  he_wg_handshake_recent :: "bool option"
  he_reverse_tunnel_connected :: "bool option"
  he_reverse_tunnel_last_error :: "string option"
  he_reverse_tunnel_active_transport :: "string option"
  he_reverse_tunnel_freshness :: "string option"
  he_reverse_tunnel_failover_reason :: "string option"
  he_tunnel_owner :: "string option"

record RotationCommands =
  data_reconnect :: "string option"
  airplane_bounce :: "string option"
  network_mode_bounce :: "string option"
  ril_bounce :: "string option"

record HostRuntimeState =
  rt_health :: HealthRecord
  rt_jobs :: "(uuid \<times> JobRecord) list"
  rt_current_job :: "uuid option"
  rt_wireguard_enabled :: bool
  rt_tunnel_owner :: "string option"
  rt_proxy_listen_address :: string
  rt_proxy_pid :: "u32 option"
  rt_reverse_tunnel :: "ClientSnapshot option"
  rt_counters :: TunnelEventCounters
  rt_counter_persistence_healthy :: bool
  rt_restart :: "u64 option"
  rt_rotation_commands :: RotationCommands
  rt_observer_urls :: "string list"

definition HostRuntimeState_new ::
  "HealthRecord \<Rightarrow> bool \<Rightarrow> string option \<Rightarrow> string \<Rightarrow> RotationCommands \<Rightarrow> string list \<Rightarrow> HostRuntimeState" where
  "HostRuntimeState_new health wireguard owner listen commands urls =
     \<lparr>rt_health = health, rt_jobs = [], rt_current_job = None, rt_wireguard_enabled = wireguard, rt_tunnel_owner = owner,
      rt_proxy_listen_address = listen, rt_proxy_pid = None, rt_reverse_tunnel = None, rt_counters = TunnelEventCounters_default,
      rt_counter_persistence_healthy = True, rt_restart = None, rt_rotation_commands = commands, rt_observer_urls = urls\<rparr>"

section \<open>Rotation\<close>

definition normalize_rotate_request :: "RotateRequest \<Rightarrow> RotateRequest" where
  "normalize_rotate_request request =
     (if rotate_strategy request = [] then default_rotate_request
      else if rotate_strategy request = ''airplane_bounce'' \<and> hold_secs request = None
      then request\<lparr>hold_secs := Some DEFAULT_AIRPLANE_HOLD_SECS\<rparr>
      else request)"

definition AIRPLANE_ACTIVATION_TIMEOUT_SECS :: u64 where
  "AIRPLANE_ACTIVATION_TIMEOUT_SECS = 10"

definition fallback_airplane_command :: "u64 option \<Rightarrow> string" where
  "fallback_airplane_command hold =
     (let secs = (case hold of Some s \<Rightarrow> s | None \<Rightarrow> DEFAULT_AIRPLANE_HOLD_SECS) in
      ''cmd connectivity airplane-mode enable && activation_deadline=$(( $(date +%s) + '' @ u64_text AIRPLANE_ACTIVATION_TIMEOUT_SECS
      @ '' )) && while [ \"$(cmd connectivity airplane-mode)\" != \"enabled\" ]; do [ \"$(date +%s)\" -ge \"$activation_deadline\" ] && exit 1; sleep 0.1; done && sleep ''
      @ u64_text secs @ '' && cmd connectivity airplane-mode disable'')"

definition rotation_command :: "RotationCommands \<Rightarrow> RotateRequest \<Rightarrow> string option" where
  "rotation_command commands request =
     (if rotate_strategy request = ''data_reconnect'' then data_reconnect commands
      else if rotate_strategy request = ''network_mode_bounce'' then network_mode_bounce commands
      else if rotate_strategy request = ''ril_bounce'' then ril_bounce commands
      else if rotate_strategy request = ''airplane_bounce'' then Some (fallback_airplane_command (hold_secs request))
      else airplane_bounce commands)"

datatype ApiError = ApiError nat string

definition job_running :: "HostRuntimeState \<Rightarrow> bool" where
  "job_running rt =
     (case Option.bind (rt_current_job rt) (map_of (rt_jobs rt)) of
        Some job \<Rightarrow> job_status job = ''running'' | None \<Rightarrow> False)"

definition prune_jobs :: "uuid option \<Rightarrow> (uuid \<times> JobRecord) list \<Rightarrow> (uuid \<times> JobRecord) list" where
  "prune_jobs current jobs =
     (if length jobs \<ge> 100
      then let to_remove = take 50 (map fst (filter (\<lambda>(i, job). job_status job \<noteq> ''running'' \<and> Some i \<noteq> current) jobs)) in
           filter (\<lambda>(i, _). i \<notin> set to_remove) jobs
      else jobs)"

definition draining :: "HealthRecord \<Rightarrow> HealthRecord" where
  "draining h =
     h\<lparr>he_readiness_state := RuntimeReadiness_display ReadinessWaitingCellular, he_serving := False, he_proxy_status := ''draining'',
       he_degradation_reason_code := Some ''rotation_in_progress'', he_serving_failure_reason := Some ''rotation job is in progress'',
       he_cellular_route_ready := Some False, he_local_serving_ready := Some False, he_proxy_bind_ready := Some False,
       he_last_proxy_error := None\<rparr>"

definition start_rotation :: "uuid \<Rightarrow> RotateRequest \<Rightarrow> HostRuntimeState \<Rightarrow> (ApiError + RotateRequest) \<times> HostRuntimeState" where
  "start_rotation new_id request rt =
     (if job_running rt then (Inl (ApiError 409 ''another job is already running''), rt)
      else
        let job = \<lparr>job_id = new_id, job_kind = ''rotate_ip'', job_status = ''running'',
                   job_old_public_ip = he_last_public_ip (rt_health rt), job_new_public_ip = None, job_changed = None\<rparr> in
        (Inr (normalize_rotate_request request),
         rt\<lparr>rt_current_job := Some new_id, rt_health := draining (rt_health rt),
            rt_jobs := AList.update new_id job (prune_jobs (Some new_id) (rt_jobs rt))\<rparr>))"

text \<open>What the task of a rotation reads before it runs its command.\<close>

definition rotation_plan :: "RotateRequest \<Rightarrow> HostRuntimeState \<Rightarrow> string \<times> string list" where
  "rotation_plan request rt =
     ((case rotation_command (rt_rotation_commands rt) request of
         Some command \<Rightarrow> command | None \<Rightarrow> fallback_airplane_command (hold_secs request)),
      rt_observer_urls rt)"

fun all_whitespace :: "nat \<Rightarrow> bytes \<Rightarrow> bool" where
  "all_whitespace 0 bs = (bs = [])"
| "all_whitespace (Suc n) bs = (bs = [] \<or> (leading_whitespace bs \<noteq> 0 \<and> all_whitespace n (drop (leading_whitespace bs) bs)))"

fun trim_start :: "nat \<Rightarrow> bytes \<Rightarrow> bytes" where
  "trim_start 0 bs = bs"
| "trim_start (Suc n) bs = (if leading_whitespace bs = 0 then bs else trim_start n (drop (leading_whitespace bs) bs))"

fun trim_end :: "bytes \<Rightarrow> bytes" where
  "trim_end [] = []"
| "trim_end (c # cs) = (if all_whitespace (Suc (length cs)) (c # cs) then [] else c # trim_end cs)"

definition trim :: "bytes \<Rightarrow> bytes" where
  "trim bs = trim_end (trim_start (length bs) bs)"

text \<open>An observer either fails or answers a body; \<open>json_ip\<close> reads the field \<open>ip\<close> of a JSON body.\<close>

definition ip_of_body :: "(string \<Rightarrow> string option) \<Rightarrow> string \<Rightarrow> string option" where
  "ip_of_body json_ip text =
     (case json_ip text of
        Some ip \<Rightarrow> Some ip
      | None \<Rightarrow> if trim text \<noteq> [] \<and> length (trim text) \<le> 64 then Some (trim text) else None)"

fun fetch_public_ip :: "(string \<Rightarrow> string option) \<Rightarrow> string option list \<Rightarrow> string option" where
  "fetch_public_ip json_ip [] = None"
| "fetch_public_ip json_ip (None # replies) = fetch_public_ip json_ip replies"
| "fetch_public_ip json_ip (Some text # replies) =
     (case ip_of_body json_ip text of Some ip \<Rightarrow> Some ip | None \<Rightarrow> fetch_public_ip json_ip replies)"

fun observe_rounds :: "(string \<Rightarrow> string option) \<Rightarrow> string option list list \<Rightarrow> string option" where
  "observe_rounds json_ip [] = None"
| "observe_rounds json_ip (replies # rounds) =
     (case fetch_public_ip json_ip replies of Some ip \<Rightarrow> Some ip | None \<Rightarrow> observe_rounds json_ip rounds)"

definition observe_public_ip :: "(string \<Rightarrow> string option) \<Rightarrow> bool \<Rightarrow> string option list list \<Rightarrow> string option" where
  "observe_public_ip json_ip timed_out rounds = (if timed_out then None else observe_rounds json_ip (take 6 rounds))"

text \<open>
  Asking the tunnel to reconnect: \<open>Inl\<close> is a decision made at once, \<open>Inr\<close> means that
  the task now polls the snapshot once a second, at most twenty times.
\<close>

definition request_reconnect :: "bool \<Rightarrow> HostRuntimeState \<Rightarrow> (bool + unit) \<times> HostRuntimeState" where
  "request_reconnect receiver_alive rt =
     (if rt_tunnel_owner rt \<noteq> Some ''first_party_reverse_tunnel'' then (Inl True, rt)
      else
        (case rt_restart rt of
           None \<Rightarrow> (Inl False, rt)
         | Some generation \<Rightarrow>
             if \<not> receiver_alive then (Inl False, rt)
             else (Inr (), rt\<lparr>rt_restart := Some (saturating_add generation 1)\<rparr>)))"

definition tunnel_connected :: "HostRuntimeState \<Rightarrow> bool" where
  "tunnel_connected rt = (case rt_reverse_tunnel rt of Some snapshot \<Rightarrow> snap_connected snapshot | None \<Rightarrow> False)"

definition reconnect_polls :: "bool list \<Rightarrow> bool" where
  "reconnect_polls polls = (True \<in> set (take 20 polls))"

definition apply_rotation_result ::
  "uuid \<Rightarrow> bool \<Rightarrow> bool \<Rightarrow> bool \<Rightarrow> string option \<Rightarrow> string option \<Rightarrow> HostRuntimeState \<Rightarrow> HostRuntimeState" where
  "apply_rotation_result i require_change command_succeeded tunnel_ready command_error new_ip rt =
     (let old_ip = Option.bind (map_of (rt_jobs rt) i) job_old_public_ip;
          changed = (old_ip \<noteq> new_ip);
          succeeded = (command_succeeded \<and> tunnel_ready \<and> new_ip \<noteq> None \<and> (\<not> require_change \<or> changed));
          h = rt_health rt;
          h1 = (case new_ip of Some ip \<Rightarrow> h\<lparr>he_last_public_ip := Some ip\<rparr> | None \<Rightarrow> h);
          h2 = h1\<lparr>he_readiness_state :=
                    RuntimeReadiness_display (if succeeded then ReadinessHealthy else ReadinessWaitingCellular),
                  he_serving := succeeded,
                  he_proxy_status := (if succeeded then ''running'' else ''degraded''),
                  he_cellular_route_ready := Some succeeded, he_local_serving_ready := Some succeeded,
                  he_proxy_bind_ready := Some succeeded,
                  he_degradation_reason_code := (if succeeded then None else Some ''rotation_failed''),
                  he_serving_failure_reason :=
                    (if succeeded then None
                     else case command_error of
                            Some e \<Rightarrow> Some e
                          | None \<Rightarrow> Some (if tunnel_ready then ''rotation did not produce the required public IP change''
                                          else ''reverse tunnel did not reconnect after rotation''))\<rparr>;
          jobs = (case map_of (rt_jobs rt) i of
                    None \<Rightarrow> rt_jobs rt
                  | Some job \<Rightarrow> AList.update i
                      (job\<lparr>job_status := (if succeeded then ''succeeded'' else ''failed''), job_new_public_ip := new_ip,
                           job_changed := Some changed\<rparr>) (rt_jobs rt)) in
      rt\<lparr>rt_health := h2, rt_current_job := None, rt_jobs := jobs\<rparr>)"

section \<open>Health probe\<close>

record ProbeConfig =
  probe_observer_urls :: "string list"
  probe_proxy_listen_address :: string
  probe_proxy_username :: string
  probe_proxy_password :: string
  probe_wireguard_enabled :: bool
  probe_tunnel_owner :: "string option"

record ProbeSnapshot =
  ps_cellular_route_ready :: bool
  ps_proxy_bind_ready :: bool
  ps_local_serving_ready :: bool
  ps_tun0_present :: bool
  ps_wg_gateway_reachable :: bool
  ps_wireguard_path_ready :: bool
  ps_public_ip :: "string option"

definition probe_once ::
  "ProbeConfig \<Rightarrow> (bool \<times> bool \<times> bool \<times> bool) option \<Rightarrow> string option \<Rightarrow> ProbeSnapshot" where
  "probe_once config blocking public_ip =
     (case (case blocking of
              Some (bind_ready, tun0, ping, cellular) \<Rightarrow>
                (bind_ready, tun0, tun0 \<and> ping, \<not> probe_wireguard_enabled config \<or> (tun0 \<and> tun0 \<and> ping), cellular)
            | None \<Rightarrow> (False, False, False, False, False)) of
        (bind_ready, tun0, gateway, path, cellular) \<Rightarrow>
          \<lparr>ps_cellular_route_ready = cellular, ps_proxy_bind_ready = bind_ready, ps_local_serving_ready = (bind_ready \<and> path),
           ps_tun0_present = tun0, ps_wg_gateway_reachable = gateway, ps_wireguard_path_ready = path, ps_public_ip = public_ip\<rparr>)"

definition tunnel_required :: "string option \<Rightarrow> bool" where
  "tunnel_required owner = (owner \<in> {Some ''first_party_reverse_tunnel'', Some ''first_party_android_egress''})"

definition tunnel_fresh :: "HostRuntimeState \<Rightarrow> bool" where
  "tunnel_fresh rt =
     (case rt_reverse_tunnel rt of Some s \<Rightarrow> snap_connected s \<and> snap_freshness s = Fresh | None \<Rightarrow> False)"

definition probe_failure_message :: "string \<Rightarrow> string" where
  "probe_failure_message code =
     (if code = ''cellular_network_unvalidated'' then ''cellular network is missing or not Android-validated''
      else if code = ''proxy_bind_failed'' then ''proxy is not accepting local connections''
      else if code = ''wireguard_path_not_ready'' then ''WireGuard path is not ready''
      else if code = ''reverse_tunnel_not_ready'' then ''reverse tunnel is not connected''
      else if code = ''public_probe_failed'' then ''public IP observer probe failed''
      else ''local serving probe failed'')"

definition health_tick :: "ProbeConfig \<Rightarrow> ProbeSnapshot \<Rightarrow> HostRuntimeState \<Rightarrow> HostRuntimeState" where
  "health_tick config snapshot rt =
     (let required = tunnel_required (probe_tunnel_owner config);
          tunnel_ready = (\<not> required \<or> tunnel_fresh rt);
          public_ready = (ps_public_ip snapshot \<noteq> None);
          healthy = (ps_cellular_route_ready snapshot \<and> ps_proxy_bind_ready snapshot \<and> ps_local_serving_ready snapshot
                     \<and> ps_wireguard_path_ready snapshot \<and> tunnel_ready \<and> public_ready \<and> rt_current_job rt = None);
          code = (if healthy then None
                  else if probe_wireguard_enabled config \<and> \<not> ps_wireguard_path_ready snapshot then Some ''wireguard_path_not_ready''
                  else if \<not> ps_cellular_route_ready snapshot then Some ''cellular_network_unvalidated''
                  else if required \<and> \<not> tunnel_ready then Some ''reverse_tunnel_not_ready''
                  else if \<not> ps_proxy_bind_ready snapshot then Some ''proxy_bind_failed''
                  else if \<not> public_ready then Some ''public_probe_failed''
                  else Some ''local_probe_failed'');
          tunnel = rt_reverse_tunnel rt;
          h = rt_health rt;
          h1 = h\<lparr>he_cellular_route_ready := Some (ps_cellular_route_ready snapshot),
                 he_proxy_bind_ready := Some (ps_proxy_bind_ready snapshot),
                 he_local_serving_ready := Some (ps_local_serving_ready snapshot),
                 he_tun0_present := Some (ps_tun0_present snapshot),
                 he_wg_handshake_recent := Some (ps_wg_gateway_reachable snapshot),
                 he_last_public_ip := (case ps_public_ip snapshot of Some ip \<Rightarrow> Some ip | None \<Rightarrow> he_last_public_ip h),
                 he_reverse_tunnel_connected := map_option snap_connected tunnel,
                 he_reverse_tunnel_last_error := Option.bind tunnel snap_last_error,
                 he_reverse_tunnel_active_transport := map_option TunnelActiveTransport_as_str (Option.bind tunnel snap_active_transport),
                 he_reverse_tunnel_freshness := map_option (\<lambda>s. TunnelFreshness_as_str (snap_freshness s)) tunnel,
                 he_reverse_tunnel_failover_reason := map_option TunnelFailoverReason_as_str (Option.bind tunnel snap_last_failover_reason),
                 he_readiness_state := RuntimeReadiness_display
                   (if healthy then ReadinessHealthy
                    else if probe_wireguard_enabled config \<and> \<not> ps_wireguard_path_ready snapshot then ReadinessWaitingWireguard
                    else if \<not> ps_cellular_route_ready snapshot then ReadinessWaitingCellular
                    else ReadinessStartingProxy),
                 he_serving := healthy,
                 he_proxy_status := (if healthy then ''running'' else ''degraded''),
                 he_degradation_reason_code := code,
                 he_serving_failure_reason := map_option probe_failure_message code\<rparr> in
      rt\<lparr>rt_health := h1\<rparr>)"

section \<open>Tunnel snapshots\<close>

definition bounded_snapshot_error :: "ClientSnapshot \<Rightarrow> string option" where
  "bounded_snapshot_error snapshot =
     (if snap_connected snapshot \<or> snap_last_error snapshot = None then None
      else Some (case snap_last_failover_reason snapshot of
                   Some reason \<Rightarrow> TunnelFailoverReason_as_str reason | None \<Rightarrow> ''session_error''))"

definition project_snapshot :: "bool \<Rightarrow> ClientSnapshot \<Rightarrow> HostRuntimeState \<Rightarrow> HostRuntimeState" where
  "project_snapshot persistence_healthy snapshot rt =
     (let bounded_error = bounded_snapshot_error snapshot in
      rt\<lparr>rt_health := (rt_health rt)
             \<lparr>he_reverse_tunnel_connected := Some (snap_connected snapshot),
              he_reverse_tunnel_last_error := bounded_error,
              he_reverse_tunnel_active_transport := map_option TunnelActiveTransport_as_str (snap_active_transport snapshot),
              he_reverse_tunnel_freshness := Some (TunnelFreshness_as_str (snap_freshness snapshot)),
              he_reverse_tunnel_failover_reason := map_option TunnelFailoverReason_as_str (snap_last_failover_reason snapshot)\<rparr>,
         rt_counters := snap_event_counters snapshot,
         rt_counter_persistence_healthy := persistence_healthy,
         rt_reverse_tunnel := Some (snapshot\<lparr>snap_last_error := bounded_error\<rparr>)\<rparr>)"

definition mark_tunnel_disconnected :: "string \<Rightarrow> HostRuntimeState \<Rightarrow> HostRuntimeState" where
  "mark_tunnel_disconnected reason rt =
     rt\<lparr>rt_health := (rt_health rt)
           \<lparr>he_reverse_tunnel_connected := Some False, he_reverse_tunnel_last_error := Some reason,
            he_reverse_tunnel_active_transport := None, he_reverse_tunnel_freshness := Some ''stale'',
            he_reverse_tunnel_failover_reason :=
              map_option TunnelFailoverReason_as_str (Option.bind (rt_reverse_tunnel rt) snap_last_failover_reason)\<rparr>,
        rt_reverse_tunnel := map_option (\<lambda>s. s\<lparr>snap_connected := False, snap_active_transport := None,
          snap_freshness := Stale, snap_last_error := Some reason\<rparr>) (rt_reverse_tunnel rt)\<rparr>"

section \<open>Commands and reports\<close>

definition apply_command :: "uuid \<Rightarrow> DeviceCommand \<Rightarrow> HostRuntimeState \<Rightarrow> (string + RotateRequest option) \<times> HostRuntimeState" where
  "apply_command new_id command rt =
     (if cmd_recovery_intent command = RotateRecovery
      then (case start_rotation new_id (default_rotate_request\<lparr>rotate_reason := ''control-plane-command''\<rparr>) rt of
              (Inl (ApiError _ message), rt') \<Rightarrow> (Inl message, rt')
            | (Inr request, rt') \<Rightarrow> (Inr (Some request), rt'))
      else
        let healthy = (cmd_desired_state command = HealthyServing);
            h = (rt_health rt)
              \<lparr>he_readiness_state := RuntimeReadiness_display (if healthy then ReadinessHealthy else ReadinessWaitingCellular),
               he_serving := healthy, he_proxy_status := (if healthy then ''running'' else ''draining'')\<rparr>;
            h' = (case cmd_recovery_intent command of
                    RouteRepair \<Rightarrow>
                      h\<lparr>he_cellular_route_ready := Some True, he_local_serving_ready := Some True, he_proxy_bind_ready := Some True,
                        he_degradation_reason_code := None, he_serving_failure_reason := None\<rparr>
                  | RestartRuntime \<Rightarrow>
                      h\<lparr>he_proxy_status := ''running'', he_proxy_bind_ready := Some True, he_local_serving_ready := Some True,
                        he_last_proxy_error := None\<rparr>
                  | _ \<Rightarrow> h) in
        (Inr None, rt\<lparr>rt_health := h'\<rparr>))"

definition register_report :: "HostRuntimeState \<Rightarrow> RegisterDeviceRequest" where
  "register_report rt =
     \<lparr>reg_node_id = he_node_id (rt_health rt), reg_node_name = he_node_name (rt_health rt),
      reg_proxy_status = he_proxy_status (rt_health rt), reg_tunnel_owner = rt_tunnel_owner rt\<rparr>"

definition heartbeat_report :: "HostRuntimeState \<Rightarrow> HeartbeatRequest" where
  "heartbeat_report rt =
     (let h = rt_health rt in
      \<lparr>hb_node_id = he_node_id h, hb_node_name = he_node_name h, hb_readiness_state = he_readiness_state h,
       hb_serving = he_serving h, hb_proxy_status = he_proxy_status h, hb_proxy_pid = rt_proxy_pid rt,
       hb_last_public_ip = he_last_public_ip h, hb_current_job = rt_current_job rt, hb_last_proxy_error = he_last_proxy_error h,
       hb_version = None, hb_config_fingerprint = he_config_fingerprint h, hb_binary_fingerprint = Some (he_binary_fingerprint h),
       hb_active_operator_profile = he_active_operator_profile h, hb_active_operator_plmn = he_active_operator_plmn h,
       hb_cellular_route_ready = he_cellular_route_ready h, hb_proxy_bind_ready = he_proxy_bind_ready h,
       hb_local_serving_ready = he_local_serving_ready h, hb_tun0_present = he_tun0_present h,
       hb_wg_handshake_recent = he_wg_handshake_recent h, hb_reverse_tunnel_connected = he_reverse_tunnel_connected h,
       hb_reverse_tunnel_last_error = he_reverse_tunnel_last_error h,
       hb_reverse_tunnel_active_transport = he_reverse_tunnel_active_transport h,
       hb_reverse_tunnel_freshness = he_reverse_tunnel_freshness h,
       hb_reverse_tunnel_failover_reason = he_reverse_tunnel_failover_reason h, hb_tunnel_owner = rt_tunnel_owner rt\<rparr>)"

end
