(* ===== verification/Host_Runtime_Inv.thy ===== *)
theory Host_Runtime_Inv
  imports Host_Runtime
begin

text \<open>
  The daemon as a system of atomic sections under its lock, interleaved with the
  tasks of running rotations: one rotation at a time, bounded jobs, and readiness
  reported exactly when every probe says so.
\<close>

declare map_of_eq_Some_iff [simp del] Some_eq_map_of_iff [simp del]

section \<open>Sections and tasks\<close>

record HostState =
  host_rt :: HostRuntimeState
  host_tasks :: "(uuid \<times> RotateRequest) list"

datatype HostOp =
    HostRotate uuid RotateRequest
  | HostCommand uuid DeviceCommand
  | HostReconnect uuid bool
  | HostFinish uuid bool bool "string option" "string option"
  | HostProbe ProbeConfig ProbeSnapshot
  | HostSnapshot bool ClientSnapshot
  | HostTunnelDown string

fun host_op :: "HostOp \<Rightarrow> HostState \<Rightarrow> HostState" where
  "host_op (HostRotate i request) st =
     (case start_rotation i request (host_rt st) of
        (Inl _, rt) \<Rightarrow> st\<lparr>host_rt := rt\<rparr>
      | (Inr req, rt) \<Rightarrow> st\<lparr>host_rt := rt, host_tasks := host_tasks st @ [(i, req)]\<rparr>)"
| "host_op (HostCommand i command) st =
     (case apply_command i command (host_rt st) of
        (Inr (Some req), rt) \<Rightarrow> st\<lparr>host_rt := rt, host_tasks := host_tasks st @ [(i, req)]\<rparr>
      | (_, rt) \<Rightarrow> st\<lparr>host_rt := rt\<rparr>)"
| "host_op (HostReconnect i alive) st = st\<lparr>host_rt := snd (request_reconnect alive (host_rt st))\<rparr>"
| "host_op (HostFinish i command_succeeded tunnel_ready command_error new_ip) st =
     (case map_of (host_tasks st) i of
        None \<Rightarrow> st
      | Some req \<Rightarrow>
          st\<lparr>host_rt := apply_rotation_result i (require_public_ip_change req) command_succeeded tunnel_ready command_error new_ip (host_rt st),
             host_tasks := AList.delete i (host_tasks st)\<rparr>)"
| "host_op (HostProbe config snapshot) st = st\<lparr>host_rt := health_tick config snapshot (host_rt st)\<rparr>"
| "host_op (HostSnapshot persisted snapshot) st = st\<lparr>host_rt := project_snapshot persisted snapshot (host_rt st)\<rparr>"
| "host_op (HostTunnelDown reason) st = st\<lparr>host_rt := mark_tunnel_disconnected reason (host_rt st)\<rparr>"

fun op_uuid :: "HostOp \<Rightarrow> uuid option" where
  "op_uuid (HostRotate i _) = Some i"
| "op_uuid (HostCommand i _) = Some i"
| "op_uuid _ = None"

definition fresh_uuid :: "HostOp \<Rightarrow> HostState \<Rightarrow> bool" where
  "fresh_uuid op st = (case op_uuid op of Some i \<Rightarrow> map_of (rt_jobs (host_rt st)) i = None | None \<Rightarrow> True)"

inductive host_run :: "HostState \<Rightarrow> HostOp list \<Rightarrow> HostState \<Rightarrow> bool" where
  host_refl: "host_run s [] s"
| host_step: "host_run s ops t \<Longrightarrow> fresh_uuid op t \<Longrightarrow> host_run s (ops @ [op]) (host_op op t)"

definition host_start ::
  "HealthRecord \<Rightarrow> bool \<Rightarrow> string option \<Rightarrow> string \<Rightarrow> RotationCommands \<Rightarrow> string list \<Rightarrow> HostState" where
  "host_start health wireguard owner listen commands urls =
     \<lparr>host_rt = HostRuntimeState_new health wireguard owner listen commands urls, host_tasks = []\<rparr>"

section \<open>The invariant\<close>

definition jobs_inv :: "uuid option \<Rightarrow> (uuid \<times> JobRecord) list \<Rightarrow> bool" where
  "jobs_inv current jobs =
     (distinct (map fst jobs) \<and> length jobs \<le> 100
      \<and> (\<forall>i job. map_of jobs i = Some job \<longrightarrow> job_id job = i \<and> (job_status job = ''running'' \<longleftrightarrow> current = Some i))
      \<and> (\<forall>i. current = Some i \<longrightarrow> map_of jobs i \<noteq> None))"

definition host_inv :: "HostState \<Rightarrow> bool" where
  "host_inv st =
     (jobs_inv (rt_current_job (host_rt st)) (rt_jobs (host_rt st))
      \<and> map fst (host_tasks st) = (case rt_current_job (host_rt st) of None \<Rightarrow> [] | Some i \<Rightarrow> [i]))"

lemma jobs_invD:
  assumes "jobs_inv current jobs"
  shows "distinct (map fst jobs)" "length jobs \<le> 100" "map_of jobs i = Some job \<Longrightarrow> job_id job = i"
    "map_of jobs i = Some job \<Longrightarrow> job_status job = ''running'' \<longleftrightarrow> current = Some i" "current = Some i \<Longrightarrow> map_of jobs i \<noteq> None"
  using assms unfolding jobs_inv_def by (elim conjE; blast)+

lemma running_iff: "jobs_inv (rt_current_job rt) (rt_jobs rt) \<Longrightarrow> job_running rt \<longleftrightarrow> rt_current_job rt \<noteq> None"
  using jobs_invD(4,5) [of "rt_current_job rt" "rt_jobs rt"]
  by (cases "rt_current_job rt") (auto simp: job_running_def split: option.splits)

lemma filter_prefix_keys:
  assumes "distinct (map fst (xs @ ys))"
  shows "filter (\<lambda>(i, _). i \<notin> fst ` set xs) (xs @ ys) = ys"
proof -
  have "filter (\<lambda>(i, _). i \<notin> fst ` set xs) xs = []" by (force simp: filter_empty_conv)
  moreover have "filter (\<lambda>(i, _). i \<notin> fst ` set xs) ys = ys" by (rule filter_True) (use assms in force)
  ultimately show ?thesis by simp
qed

lemma prune_idle:
  assumes inv: "jobs_inv None jobs" and new: "map_of jobs n = None"
  shows "prune_jobs (Some n) jobs = (if length jobs \<ge> 100 then drop 50 jobs else jobs)"
proof -
  have idle: "filter (\<lambda>(i, job). job_status job \<noteq> ''running'' \<and> Some i \<noteq> Some n) jobs = jobs"
  proof (rule filter_True, rule ballI)
    fix x assume "x \<in> set jobs"
    then have "map_of jobs (fst x) = Some (snd x)" using jobs_invD(1) [OF inv] by simp
    then show "case x of (i, job) \<Rightarrow> job_status job \<noteq> ''running'' \<and> Some i \<noteq> Some n"
      using jobs_invD(4) [OF inv] new by (cases x) auto
  qed
  have "filter (\<lambda>(i, _). i \<notin> set (take 50 (map fst jobs))) jobs = drop 50 jobs"
    using filter_prefix_keys [of "take 50 jobs" "drop 50 jobs"] jobs_invD(1) [OF inv] by (simp add: take_map)
  with idle show ?thesis unfolding prune_jobs_def Let_def by simp
qed

lemma map_of_drop: "distinct (map fst jobs) \<Longrightarrow> map_of (drop k jobs) i = Some job \<Longrightarrow> map_of jobs i = Some job"
  by (metis distinct_drop drop_map in_set_dropD map_of_SomeD map_of_is_SomeI)

lemma jobs_inv_drop: "jobs_inv None jobs \<Longrightarrow> jobs_inv None (drop k jobs)"
  using map_of_drop [of jobs k] by (auto simp: jobs_inv_def drop_map [symmetric])

lemma jobs_inv_insert:
  assumes inv: "jobs_inv None jobs" and len: "length jobs < 100" and new: "map_of jobs n = None"
    and job: "job_id job = n" "job_status job = ''running''"
  shows "jobs_inv (Some n) (AList.update n job jobs)"
proof -
  have up: "AList.update n job jobs = jobs @ [(n, job)]" using new by (induction jobs) (auto split: if_splits)
  have "n \<notin> fst ` set jobs" using new by (simp add: map_of_eq_None_iff)
  then have "distinct (map fst (AList.update n job jobs))" "length (AList.update n job jobs) \<le> 100"
    using jobs_invD(1) [OF inv] len unfolding up by auto
  moreover have "map_of (AList.update n job jobs) i = (if i = n then Some job else map_of jobs i)" for i
    by (simp add: update_conv')
  ultimately show ?thesis using inv job new unfolding jobs_inv_def by auto
qed

lemma jobs_inv_finish:
  assumes inv: "jobs_inv (Some i) jobs" and job: "map_of jobs i = Some job" "job_id job' = i" "job_status job' \<noteq> ''running''"
  shows "jobs_inv None (AList.update i job' jobs)"
proof -
  have "length (AList.update i job' jobs) = length jobs" using job(1) by (induction jobs) (auto split: if_splits)
  moreover have "distinct (map fst (AList.update i job' jobs))" using jobs_invD(1) [OF inv] by (rule distinct_update)
  moreover have "map_of (AList.update i job' jobs) k = (if k = i then Some job' else map_of jobs k)" for k
    by (simp add: update_conv')
  ultimately show ?thesis using inv job unfolding jobs_inv_def by auto
qed

lemma start_rotation_inv:
  assumes "host_inv st" "map_of (rt_jobs (host_rt st)) i = None" "start_rotation i request (host_rt st) = (Inr req, rt)"
  shows "host_inv (st\<lparr>host_rt := rt, host_tasks := host_tasks st @ [(i, req)]\<rparr>)"
proof -
  let ?rt = "host_rt st"
  have inv: "jobs_inv (rt_current_job ?rt) (rt_jobs ?rt)" using assms(1) by (simp add: host_inv_def)
  have idle: "rt_current_job ?rt = None" using assms(3) running_iff [OF inv] by (auto simp: start_rotation_def split: if_splits)
  with inv have J: "jobs_inv None (rt_jobs ?rt)" by simp
  let ?jobs = "prune_jobs (Some i) (rt_jobs ?rt)"
  have p: "?jobs = (if length (rt_jobs ?rt) \<ge> 100 then drop 50 (rt_jobs ?rt) else rt_jobs ?rt)" by (rule prune_idle [OF J assms(2)])
  have "jobs_inv None ?jobs" "length ?jobs < 100" using J jobs_inv_drop [OF J, of 50] jobs_invD(2) [OF J] unfolding p by auto
  moreover have "map_of ?jobs i = None"
    using assms(2) map_of_drop [OF jobs_invD(1) [OF J], of 50 i] unfolding p by (cases "map_of (drop 50 (rt_jobs ?rt)) i") auto
  ultimately have "jobs_inv (Some i) (AList.update i \<lparr>job_id = i, job_kind = ''rotate_ip'', job_status = ''running'',
      job_old_public_ip = he_last_public_ip (rt_health ?rt), job_new_public_ip = None, job_changed = None\<rparr> ?jobs)"
    by (intro jobs_inv_insert) simp_all
  moreover have "host_tasks st = []" using assms(1) idle by (simp add: host_inv_def)
  ultimately show ?thesis using assms(3) by (auto simp: start_rotation_def host_inv_def Let_def split: if_splits)
qed

lemma start_rotation_refused: "start_rotation i request rt = (Inl e, rt') \<Longrightarrow> rt' = rt \<and> job_running rt"
  by (auto simp: start_rotation_def Let_def split: if_splits)

lemma finish_inv:
  assumes inv: "host_inv st" and task: "map_of (host_tasks st) i = Some req"
  shows "host_inv (host_op (HostFinish i ok ready err ip) st)"
proof -
  let ?rt = "host_rt st"
  have J: "jobs_inv (rt_current_job ?rt) (rt_jobs ?rt)" using inv by (simp add: host_inv_def)
  have "i \<in> fst ` set (host_tasks st)" using task by (metis domI dom_map_of_conv_image_fst)
  then have cur: "rt_current_job ?rt = Some i" and tasks: "map fst (host_tasks st) = [i]"
    using inv by (auto simp: host_inv_def split: option.splits)
  obtain job where job: "map_of (rt_jobs ?rt) i = Some job" using jobs_invD(5) [OF J cur] by auto
  obtain r where "host_tasks st = [(i, r)]" using tasks by auto
  moreover have "jobs_inv None (AList.update i (job\<lparr>job_status := s, job_new_public_ip := ip, job_changed := Some c\<rparr>) (rt_jobs ?rt))"
    if "s \<noteq> ''running''" for s c
    using jobs_inv_finish [OF J [unfolded cur] job] jobs_invD(3) [OF J job] that by simp
  ultimately show ?thesis
    using task job by (simp add: apply_rotation_result_def Let_def host_inv_def)
qed

lemma host_op_inv:
  assumes "host_inv st" "fresh_uuid op st"
  shows "host_inv (host_op op st)"
proof (cases op)
  case (HostRotate i request)
  obtain r rt where s: "start_rotation i request (host_rt st) = (r, rt)" by force
  show ?thesis
    using start_rotation_inv [OF assms(1), of i request _ rt] start_rotation_refused [of i request "host_rt st" _ rt] s HostRotate assms
    by (cases r) (auto simp: fresh_uuid_def)
next
  case (HostCommand i command)
  let ?req = "default_rotate_request\<lparr>rotate_reason := ''control-plane-command''\<rparr>"
  show ?thesis
  proof (cases "cmd_recovery_intent command = RotateRecovery")
    case True
    obtain r rt where s: "start_rotation i ?req (host_rt st) = (r, rt)" by force
    show ?thesis
      using start_rotation_inv [OF assms(1), of i ?req _ rt] start_rotation_refused [of i ?req "host_rt st" _ rt] s HostCommand assms True
      by (cases r) (auto simp: fresh_uuid_def apply_command_def split: ApiError.split)
  next
    case False
    then show ?thesis using assms(1) HostCommand by (simp add: apply_command_def Let_def host_inv_def)
  qed
next
  case (HostFinish i ok ready err ip)
  then show ?thesis using finish_inv [OF assms(1)] assms(1) by (cases "map_of (host_tasks st) i") auto
qed (use assms(1) in \<open>simp_all add: host_inv_def request_reconnect_def health_tick_def Let_def project_snapshot_def
    mark_tunnel_disconnected_def split: option.splits\<close>)

lemma host_run_inv: "host_run s ops t \<Longrightarrow> host_inv s \<Longrightarrow> host_inv t"
  by (induction rule: host_run.induct) (auto intro: host_op_inv)

lemma host_start_inv: "host_inv (host_start h w owner l c u)"
  by (simp add: host_inv_def host_start_def HostRuntimeState_new_def jobs_inv_def)

section \<open>Claims\<close>

definition sample_health :: HealthRecord where
  "sample_health = \<lparr>he_node_id = ''dev'', he_node_name = ''dev'', he_config_fingerprint = None, he_binary_fingerprint = LegacyOpaque ''v1'',
     he_readiness_state = ''booting'', he_serving = False, he_proxy_status = ''starting'', he_last_public_ip = Some ''1.1.1.1'',
     he_active_operator_profile = None, he_active_operator_plmn = None, he_last_proxy_error = None, he_serving_failure_reason = None,
     he_degradation_reason_code = None, he_cellular_route_ready = None, he_proxy_bind_ready = None, he_local_serving_ready = None,
     he_tun0_present = None, he_wg_handshake_recent = None, he_reverse_tunnel_connected = None, he_reverse_tunnel_last_error = None,
     he_reverse_tunnel_active_transport = None, he_reverse_tunnel_freshness = None, he_reverse_tunnel_failover_reason = None,
     he_tunnel_owner = None\<rparr>"

definition sample_commands :: RotationCommands where
  "sample_commands = \<lparr>data_reconnect = None, airplane_bounce = None, network_mode_bounce = None, ril_bounce = None\<rparr>"

definition sample_host :: HostState where
  "sample_host = host_start sample_health False None ''127.0.0.1:1080'' sample_commands []"

definition sample_rotating :: HostState where
  "sample_rotating = host_op (HostRotate 1 default_rotate_request) sample_host"

lemma sample_rotating_run: "host_run sample_host [HostRotate 1 default_rotate_request] sample_rotating"
proof -
  have "host_run sample_host ([] @ [HostRotate 1 default_rotate_request]) sample_rotating"
    unfolding sample_rotating_def by (intro host_step host_refl) (simp add: fresh_uuid_def sample_host_def host_start_def HostRuntimeState_new_def)
  then show ?thesis by simp
qed

lemma sample_rotating_task: "host_tasks sample_rotating = [(1, default_rotate_request)]"
  "map_of (rt_jobs (host_rt sample_rotating)) 1 = Some \<lparr>job_id = 1, job_kind = ''rotate_ip'', job_status = ''running'',
     job_old_public_ip = Some ''1.1.1.1'', job_new_public_ip = None, job_changed = None\<rparr>"
  by (simp_all add: sample_rotating_def sample_host_def host_start_def HostRuntimeState_new_def start_rotation_def job_running_def
      prune_jobs_def normalize_rotate_request_def default_rotate_request_def sample_health_def)

text \<open>
  C30: However requests, commands, probes and tunnel events interleave, at most
  one rotation runs on the phone; a job is recorded as running exactly while its
  task runs, a new rotation is accepted exactly when none runs, and no more than
  a hundred jobs are kept.
\<close>

theorem one_rotation_at_a_time:
  assumes "host_run (host_start h w owner l c u) ops t"
  shows "length (host_tasks t) \<le> 1 \<and> length (rt_jobs (host_rt t)) \<le> 100
     \<and> (\<forall>i job. map_of (rt_jobs (host_rt t)) i = Some job \<longrightarrow> (job_status job = ''running'' \<longleftrightarrow> i \<in> fst ` set (host_tasks t)))
     \<and> (\<forall>i request. is_Ok (fst (start_rotation i request (host_rt t))) \<longleftrightarrow> host_tasks t = [])"
proof -
  have inv: "host_inv t" by (rule host_run_inv [OF assms host_start_inv])
  then have J: "jobs_inv (rt_current_job (host_rt t)) (rt_jobs (host_rt t))"
    and tasks: "map fst (host_tasks t) = (case rt_current_job (host_rt t) of None \<Rightarrow> [] | Some i \<Rightarrow> [i])"
    by (simp_all add: host_inv_def)
  have keys: "i \<in> fst ` set (host_tasks t) \<longleftrightarrow> rt_current_job (host_rt t) = Some i" for i
    using arg_cong [OF tasks, of set] by (cases "rt_current_job (host_rt t)") auto
  have "length (map fst (host_tasks t)) \<le> 1" unfolding tasks by (simp split: option.split)
  moreover have "is_Ok (fst (start_rotation i request (host_rt t))) \<longleftrightarrow> host_tasks t = []" for i request
    using running_iff [OF J] tasks by (auto simp: start_rotation_def Let_def split: option.splits)
  ultimately show ?thesis using jobs_invD(2) [OF J] jobs_invD(4) [OF J] keys by simp
qed

theorem one_rotation_at_a_time_witness:
  "\<not> is_Ok (fst (start_rotation 2 default_rotate_request (host_rt sample_rotating)))"
  using one_rotation_at_a_time [OF sample_rotating_run [unfolded sample_host_def]] sample_rotating_task(1) by simp

text \<open>
  A rotation that runs settles its job with its first report: it is recorded
  as succeeded and the phone serves again exactly when the command succeeded, the
  tunnel is back, an address was observed and, if the request asks for it, the
  address differs from the one before; otherwise it is recorded as failed and the
  phone reports degradation.  Either way the phone accepts the next rotation.
\<close>

theorem rotation_settles:
  assumes "host_run (host_start h w owner l c u) ops t" "map_of (host_tasks t) i = Some req"
    and "job = the (map_of (rt_jobs (host_rt t)) i)"
    and "good \<longleftrightarrow> ok \<and> ready \<and> ip \<noteq> None \<and> (require_public_ip_change req \<longrightarrow> ip \<noteq> job_old_public_ip job)"
  shows "let t' = host_op (HostFinish i ok ready err ip) t in
     map_of (rt_jobs (host_rt t')) i = Some (job\<lparr>job_status := (if good then ''succeeded'' else ''failed''), job_new_public_ip := ip,
         job_changed := Some (job_old_public_ip job \<noteq> ip)\<rparr>)
     \<and> he_serving (rt_health (host_rt t')) = good \<and> (he_degradation_reason_code (rt_health (host_rt t')) = None \<longleftrightarrow> good)
     \<and> host_tasks t' = [] \<and> is_Ok (fst (start_rotation j request (host_rt t')))"
proof -
  have inv: "host_inv t" by (rule host_run_inv [OF assms(1) host_start_inv])
  have inv': "host_inv (host_op (HostFinish i ok ready err ip) t)" by (rule finish_inv [OF inv assms(2)])
  have "i \<in> fst ` set (host_tasks t)" using assms(2) by (metis domI dom_map_of_conv_image_fst)
  then have cur: "rt_current_job (host_rt t) = Some i"
    using inv by (auto simp: host_inv_def split: option.splits)
  have J: "jobs_inv (rt_current_job (host_rt t)) (rt_jobs (host_rt t))" using inv by (simp add: host_inv_def)
  have job: "map_of (rt_jobs (host_rt t)) i = Some job" using jobs_invD(5) [OF J cur] assms(3) by auto
  have none: "rt_current_job (host_rt (host_op (HostFinish i ok ready err ip) t)) = None"
    using assms(2) by (simp add: apply_rotation_result_def Let_def)
  have "is_Ok (fst (start_rotation j request (host_rt (host_op (HostFinish i ok ready err ip) t))))"
    using none by (simp add: start_rotation_def job_running_def Let_def)
  moreover have "host_tasks (host_op (HostFinish i ok ready err ip) t) = []"
    using inv' none by (simp add: host_inv_def)
  ultimately show ?thesis
    using job assms(2,4) by (auto simp: Let_def apply_rotation_result_def update_conv' split: option.split)
qed

theorem rotation_settles_witness:
  "he_serving (rt_health (host_rt (host_op (HostFinish 1 True True None (Some ''2.2.2.2'')) sample_rotating)))
   \<and> \<not> he_serving (rt_health (host_rt (host_op (HostFinish 1 True True None (Some ''1.1.1.1'')) sample_rotating)))"
proof -
  note use = rotation_settles [OF sample_rotating_run [unfolded sample_host_def], of 1 default_rotate_request _ _ True True _ None]
  have "he_serving (rt_health (host_rt (host_op (HostFinish 1 True True None (Some ip)) sample_rotating))) = (ip \<noteq> ''1.1.1.1'')" for ip
    using use [of _ "ip \<noteq> ''1.1.1.1''" "Some ip"] sample_rotating_task
    by (simp add: Let_def default_rotate_request_def del: host_op.simps)
  then show ?thesis by simp
qed

text \<open>
  What the phone reports after a health probe is available to the control
  plane exactly when the cellular route, the proxy, the local path, the tunnel if
  it is required and the public address were all observed good and no rotation
  runs.
\<close>

theorem probed_readiness_exact:
  "ready_input (heartbeat_projection_input (heartbeat_report (health_tick config snapshot rt)) p) \<longleftrightarrow>
     ps_cellular_route_ready snapshot \<and> ps_proxy_bind_ready snapshot \<and> ps_local_serving_ready snapshot
     \<and> ps_wireguard_path_ready snapshot \<and> (if tunnel_required (probe_tunnel_owner config) then tunnel_fresh rt else True)
     \<and> ps_public_ip snapshot \<noteq> None \<and> rt_current_job rt = None"
  by (auto simp: ready_input_def heartbeat_projection_input_def heartbeat_report_def health_tick_def Let_def)

end
