(* ===== verification/Phone_Link.thy ===== *)
theory Phone_Link
  imports Host_Runtime_Inv Control_Api_Inv
begin

text \<open>
  The phone and the control plane together: the daemon's command loop
  (\<open>services/host-daemon/src/control_plane.rs\<close>) polls the HTTP interface, applies
  what it is given and acknowledges it.  Every message may be lost in either
  direction, and anything else may happen between two steps of the loop.
\<close>

declare map_of_eq_Some_iff [simp del] Some_eq_map_of_iff [simp del]

section \<open>The command loop\<close>

record 'db Link =
  link_phone :: HostState
  link_app :: "'db AppState"
  link_inbox :: "DeviceCommand option"
  link_outbox :: "(CommandId \<times> CommandAckRequest) option"
  link_applied :: "CommandId list"

definition node :: "'db Link \<Rightarrow> string" where
  "node k = he_node_id (rt_health (host_rt (link_phone k)))"

text \<open>
  The three steps of one round: the command the poll returned, applying it, and
  sending the acknowledgement.  A lost reply ends the round like an error status.
\<close>

definition receive_command :: "bool \<Rightarrow> ApiResponse \<Rightarrow> DeviceCommand option" where
  "receive_command lost r =
     (if lost \<or> status r \<ge> 400 then None else case body r of NextCommandBody c \<Rightarrow> c | _ \<Rightarrow> None)"

definition apply_received :: "uuid \<Rightarrow> DeviceCommand \<Rightarrow> HostState \<Rightarrow> CommandAckRequest \<times> HostState" where
  "apply_received new_id command phone =
     (case fst (apply_command new_id command (host_rt phone)) of
        Inr _ \<Rightarrow> (\<lparr>ack_ok = True, ack_message = None\<rparr>, host_op (HostCommand new_id command) phone)
      | Inl message \<Rightarrow> (\<lparr>ack_ok = False, ack_message = Some message\<rparr>, host_op (HostCommand new_id command) phone))"

datatype LinkOp =
    LinkRequest ApiEnv headers ApiRequest
  | LinkRegister bool ApiEnv headers
  | LinkHeartbeat bool ApiEnv headers
  | LinkPoll bool ApiEnv headers
  | LinkApply uuid
  | LinkAck bool ApiEnv headers
  | LinkHost HostOp

definition serve_link ::
  "Hashing \<Rightarrow> 'db cas \<Rightarrow> AuthConfig \<Rightarrow> ApiEnv \<Rightarrow> headers \<Rightarrow> ApiRequest \<Rightarrow> 'db Link \<Rightarrow> ApiResponse \<times> 'db Link" where
  "serve_link H cas auth env h req k =
     (case serve H cas auth env h id req (link_app k) of (r, app) \<Rightarrow> (r, k\<lparr>link_app := app\<rparr>))"

fun link_op :: "Hashing \<Rightarrow> 'db cas \<Rightarrow> AuthConfig \<Rightarrow> LinkOp \<Rightarrow> 'db Link \<Rightarrow> 'db Link" where
  "link_op H cas auth (LinkRequest env h req) k = snd (serve_link H cas auth env h req k)"
| "link_op H cas auth (LinkRegister lost env h) k =
     (if lost then k else snd (serve_link H cas auth env h (RegisterDevice (register_report (host_rt (link_phone k)))) k))"
| "link_op H cas auth (LinkHeartbeat lost env h) k =
     (if lost then k else snd (serve_link H cas auth env h (Heartbeat (heartbeat_report (host_rt (link_phone k)))) k))"
| "link_op H cas auth (LinkPoll lost env h) k =
     (case serve_link H cas auth env h (NextCommand (node k)) k of (r, k') \<Rightarrow> k'\<lparr>link_inbox := receive_command lost r\<rparr>)"
| "link_op H cas auth (LinkApply i) k =
     (case link_inbox k of
        None \<Rightarrow> k
      | Some c \<Rightarrow>
          (case apply_received i c (link_phone k) of (ack, phone) \<Rightarrow>
             k\<lparr>link_phone := phone, link_inbox := None, link_outbox := Some (cmd_command_id c, ack),
               link_applied := (if ack_ok ack then link_applied k @ [cmd_command_id c] else link_applied k)\<rparr>))"
| "link_op H cas auth (LinkAck lost env h) k =
     (case link_outbox k of
        None \<Rightarrow> k
      | Some (i, ack) \<Rightarrow>
          (if lost then k\<lparr>link_outbox := None\<rparr>
           else (snd (serve_link H cas auth env h (AckCommand (node k) i ack) k))\<lparr>link_outbox := None\<rparr>))"
| "link_op H cas auth (LinkHost op) k = k\<lparr>link_phone := host_op op (link_phone k)\<rparr>"

fun link_admissible :: "LinkOp \<Rightarrow> 'db Link \<Rightarrow> bool" where
  "link_admissible (LinkRequest env h req) k =
     ((\<forall>d i a. req \<noteq> AckCommand d i a) \<and> (\<forall>op. request_op env h req = Some op \<longrightarrow> op_admissible op (link_app k)))"
| "link_admissible (LinkApply i) k = (map_of (rt_jobs (host_rt (link_phone k))) i = None)"
| "link_admissible (LinkHost op) k = (fresh_uuid op (link_phone k) \<and> (\<forall>i c. op \<noteq> HostCommand i c))"
| "link_admissible _ k = True"

inductive link_run :: "Hashing \<Rightarrow> 'db cas \<Rightarrow> AuthConfig \<Rightarrow> 'db Link \<Rightarrow> LinkOp list \<Rightarrow> 'db Link \<Rightarrow> bool"
  for H cas auth where
  link_refl: "link_run H cas auth k [] k"
| link_step: "link_run H cas auth k ops k' \<Longrightarrow> link_admissible op k' \<Longrightarrow> link_run H cas auth k (ops @ [op]) (link_op H cas auth op k')"

section \<open>No command is lost\<close>

definition outbox_inv :: "'db Link \<Rightarrow> bool" where
  "outbox_inv k = (\<forall>i ack. link_outbox k = Some (i, ack) \<longrightarrow> ack_ok ack \<longrightarrow> i \<in> set (link_applied k))"

lemma serve_link_app: "link_app (snd (serve_link H cas auth env h req k)) = snd (serve H cas auth env h id req (link_app k))"
  "link_outbox (snd (serve_link H cas auth env h req k)) = link_outbox k"
  "link_applied (snd (serve_link H cas auth env h req k)) = link_applied k"
  "link_phone (snd (serve_link H cas auth env h req k)) = link_phone k"
  by (simp_all add: serve_link_def split: prod.split)

lemma serve_is_op:
  obtains "snd (serve H cas auth env h id req s) = s"
  | op where "request_op env h req = Some op" "snd (serve H cas auth env h id req s) = control_op H cas op s"
  using serve_op [of H cas auth env h id req s] by (auto split: if_splits)

lemma rejected_ack_keeps: "\<not> ack_ok (acked_request input) \<Longrightarrow> control_op H cas (OpAcknowledge now input) s = s"
  by (simp add: acknowledge_command_transaction_def Let_def)

lemma serve_keeps_pending:
  assumes H: "hex_text H" and inv: "control_inv H s" and ok: "\<forall>op. request_op env h req = Some op \<longrightarrow> op_admissible op s"
    and c: "c \<in> set (queue_of (app_commands s) d)"
    and no: "\<forall>e i a. req = AckCommand e i a \<longrightarrow> ack_ok a \<longrightarrow> i \<noteq> cmd_command_id c"
  shows "c \<in> set (queue_of (app_commands (snd (serve H cas auth env h id req s))) d)"
    "control_inv H (snd (serve H cas auth env h id req s))"
proof -
  have ci: "command_inv H (app_commands s)" using inv by (simp add: control_inv_def)
  have "c \<in> set (queue_of (app_commands (snd (serve H cas auth env h id req s))) d) \<and> control_inv H (snd (serve H cas auth env h id req s))"
  proof (cases rule: serve_is_op [of H cas auth env h req s])
    case 1
    then show ?thesis using c inv by simp
  next
    case (2 op)
    have adm: "op_admissible op s" using ok 2(1) by simp
    have "c \<in> set (queue_of (app_commands (control_op H cas op s)) d)"
    proof (cases "acknowledges c op")
      case True
      then obtain now input where op: "op = OpAcknowledge now input" "acked_command_id input = cmd_command_id c"
        by (auto simp: acknowledges_def split: ControlOp.splits)
      then have "\<not> ack_ok (acked_request input)" using 2(1) no by (cases req) auto
      then show ?thesis using rejected_ack_keeps c op by metis
    next
      case False
      then show ?thesis by (rule control_op_keeps_pending [OF H ci adm c])
    qed
    then show ?thesis using control_op_inv [OF H inv adm] 2(2) by simp
  qed
  then show "c \<in> set (queue_of (app_commands (snd (serve H cas auth env h id req s))) d)"
    "control_inv H (snd (serve H cas auth env h id req s))" by auto
qed

definition kept :: "Hashing \<Rightarrow> string \<Rightarrow> DeviceCommand \<Rightarrow> 'db Link \<Rightarrow> bool" where
  "kept H d c k =
     (outbox_inv k \<and> (cmd_command_id c \<in> set (link_applied k) \<or> control_inv H (link_app k) \<and> c \<in> set (queue_of (app_commands (link_app k)) d)))"

lemma serve_kept:
  assumes H: "hex_text H" and k: "kept H d c k" and ok: "\<forall>op. request_op env h req = Some op \<longrightarrow> op_admissible op (link_app k)"
    and acks: "\<forall>e i a. req = AckCommand e i a \<longrightarrow> ack_ok a \<longrightarrow> i \<in> set (link_applied k)"
  shows "kept H d c (snd (serve_link H cas auth env h req k))"
proof (cases "cmd_command_id c \<in> set (link_applied k)")
  case True
  then show ?thesis using k by (simp add: kept_def outbox_inv_def serve_link_app)
next
  case False
  then have inv: "control_inv H (link_app k)" "c \<in> set (queue_of (app_commands (link_app k)) d)" using k by (auto simp: kept_def)
  have "\<forall>e i a. req = AckCommand e i a \<longrightarrow> ack_ok a \<longrightarrow> i \<noteq> cmd_command_id c" using acks False by metis
  from serve_keeps_pending [OF H inv(1) ok inv(2) this] show ?thesis
    using k by (simp add: kept_def outbox_inv_def serve_link_app)
qed

lemma link_op_kept:
  assumes H: "hex_text H" and k: "kept H d c k" and adm: "link_admissible op k"
  shows "kept H d c (link_op H cas auth op k)"
proof (cases op)
  case (LinkRequest env h req)
  then show ?thesis using serve_kept [OF H k] adm by simp
next
  case (LinkRegister lost env h)
  then show ?thesis using serve_kept [OF H k] k by simp
next
  case (LinkHeartbeat lost env h)
  then show ?thesis using serve_kept [OF H k] k by simp
next
  case (LinkPoll lost env h)
  have "kept H d c (snd (serve_link H cas auth env h (NextCommand (node k)) k))" by (rule serve_kept [OF H k]) simp_all
  then show ?thesis using LinkPoll by (cases "serve_link H cas auth env h (NextCommand (node k)) k") (simp add: kept_def outbox_inv_def)
next
  case (LinkApply i)
  show ?thesis
  proof (cases "link_inbox k")
    case (Some e)
    then show ?thesis using LinkApply k
      by (cases "apply_received i e (link_phone k)") (auto simp: kept_def outbox_inv_def)
  qed (use LinkApply k in simp)
next
  case (LinkAck lost env h)
  show ?thesis
  proof (cases "link_outbox k")
    case (Some out)
    obtain i ack where out: "out = (i, ack)" by force
    have "ack_ok ack \<Longrightarrow> i \<in> set (link_applied k)" using k Some out by (auto simp: kept_def outbox_inv_def)
    then have "kept H d c (snd (serve_link H cas auth env h (AckCommand (node k) i ack) k))" by (intro serve_kept [OF H k]) simp_all
    then show ?thesis using LinkAck Some out k by (auto simp: kept_def outbox_inv_def)
  qed (use LinkAck k in simp)
next
  case (LinkHost op)
  then show ?thesis using k by (simp add: kept_def outbox_inv_def)
qed

lemma link_run_kept: "hex_text H \<Longrightarrow> link_run H cas auth k ops k' \<Longrightarrow> kept H d c k \<Longrightarrow> kept H d c k'"
  by (rotate_tac 1, induction rule: link_run.induct) (auto intro: link_op_kept)

section \<open>Claims\<close>

text \<open>
  C29: No command is lost between the control plane and the phone.  Whatever
  messages are lost and whatever else happens meanwhile, a command that was
  pending is still pending or was applied by the phone.
\<close>

theorem command_pending_until_applied:
  assumes "hex_text H" "link_run H cas auth k ops k'"
    and "control_inv H (link_app k)" "link_outbox k = None" "c \<in> set (queue_of (app_commands (link_app k)) d)"
  shows "cmd_command_id c \<in> set (link_applied k') \<or> c \<in> set (queue_of (app_commands (link_app k')) d)"
  using link_run_kept [OF assms(1,2), of d c] assms(3-5) by (auto simp: kept_def outbox_inv_def)

definition rotate_command :: DeviceCommand where
  "rotate_command = new_command 1 ''10'' (sample_input ''dev'' ''k1'' RotateRecovery)"

definition rotate_app :: "unit AppState" where
  "rotate_app = \<lparr>app_devices = [], app_commands = enqueue_command sample_hashing rotate_command CommandState_default, app_db = ()\<rparr>"

definition sample_link :: "unit Link" where
  "sample_link = \<lparr>link_phone = sample_host, link_app = rotate_app, link_inbox = None, link_outbox = None, link_applied = []\<rparr>"

lemma rotate_app_inv: "control_inv sample_hashing rotate_app"
proof -
  have "control_inv sample_hashing (control_op sample_hashing accept_all (OpIssue 1 ''10'' (sample_input ''dev'' ''k1'' RotateRecovery)) (control_start ()))"
    by (rule control_op_inv [OF sample_hex_text control_start_inv]) (simp add: sample_admissible)
  then show ?thesis by (simp add: issue_on_empty [OF sample_hex_text] rotate_app_def rotate_command_def)
qed

lemma rotate_app_queue: "queue_of (app_commands rotate_app) ''dev'' = [rotate_command]"
  "map_of (queues (app_commands rotate_app)) ''dev'' = Some [rotate_command]"
  by (simp_all add: rotate_app_def enqueue_command_def rotate_command_def sample_input_def CommandState_default_def queue_of_def Let_def)

lemma sample_node: "node sample_link = ''dev''"
  by (simp add: node_def sample_link_def sample_host_def host_start_def HostRuntimeState_new_def sample_health_def)

lemma sample_context: "context_from_headers sample_env (sample_headers token)
    = Inr \<lparr>request_id = RequestId 1, correlation_id = CorrelationId 1, consumer_id = None, application_id = None, actor_id = None, deadline = None\<rparr>"
  by (simp add: context_from_headers_def parse_header_def parse_deadline_def sample_headers_def sample_env_def)

lemma sample_poll:
  "\<exists>r. serve H cas sample_auth sample_env (sample_headers ''device-token'') id (NextCommand ''dev'') rotate_app = (r, rotate_app)
     \<and> receive_command False r = Some rotate_command"
  using sample_authorized sample_context [of "''device-token''"]
  by (auto simp: serve_def attach_request_context_def next_command_def poll_command_query_def rotate_app_queue receive_command_def)
    (simp_all add: rotate_command_def sample_input_def)

abbreviation device_poll :: LinkOp where
  "device_poll \<equiv> LinkPoll False sample_env (sample_headers ''device-token'')"

lemma poll_link:
  assumes "link_app k = rotate_app" "node k = ''dev''"
  shows "link_op H cas sample_auth device_poll k = k\<lparr>link_inbox := Some rotate_command\<rparr>"
proof -
  obtain r where r: "serve H cas sample_auth sample_env (sample_headers ''device-token'') id (NextCommand ''dev'') rotate_app = (r, rotate_app)"
    "receive_command False r = Some rotate_command" using sample_poll [of H cas] by blast
  have "k\<lparr>link_app := rotate_app\<rparr> = k" using assms(1) by simp
  then show ?thesis using r assms by (simp add: serve_link_def)
qed

theorem command_pending_until_applied_witness:
  "cmd_command_id rotate_command \<in> set (link_applied (link_op sample_hashing accept_all sample_auth device_poll sample_link))
   \<or> rotate_command \<in> set (queue_of (app_commands (link_app (link_op sample_hashing accept_all sample_auth device_poll sample_link))) ''dev'')"
proof -
  have "link_run sample_hashing accept_all sample_auth sample_link ([] @ [device_poll]) (link_op sample_hashing accept_all sample_auth device_poll sample_link)"
    by (rule link_step [OF link_refl]) simp
  then show ?thesis
    by (rule command_pending_until_applied [OF sample_hex_text]) (simp_all add: sample_link_def rotate_app_inv rotate_app_queue)
qed

text \<open>
  The loop delivers at least once, not exactly once: when the acknowledgement of
  a rotation is lost, the command is still pending, and once the rotation has
  finished the next poll rotates again.  The phone keeps no record of the command
  identifiers it has applied.
\<close>

definition lost_ack_ops :: "LinkOp list" where
  "lost_ack_ops = [device_poll, LinkApply 1, LinkAck True sample_env (sample_headers ''device-token''),
     LinkHost (HostFinish 1 True True None (Some ''2.2.2.2'')), device_poll, LinkApply 2]"

lemma lost_ack_rotates_twice:
  "let k = foldl (\<lambda>k op. link_op sample_hashing accept_all sample_auth op k) sample_link lost_ack_ops in
     link_applied k = [cmd_command_id rotate_command, cmd_command_id rotate_command]
     \<and> map fst (rt_jobs (host_rt (link_phone k))) = [1, 2]"
proof -
  have rotate: "cmd_recovery_intent rotate_command = RotateRecovery" by (simp add: rotate_command_def sample_input_def)
  note phone = sample_link_def sample_host_def host_start_def HostRuntimeState_new_def sample_health_def node_def
    apply_received_def apply_command_def rotate start_rotation_def job_running_def prune_jobs_def draining_def Let_def
  have 1: "link_op sample_hashing accept_all sample_auth device_poll sample_link = sample_link\<lparr>link_inbox := Some rotate_command\<rparr>"
    by (rule poll_link) (simp_all add: sample_node, simp add: sample_link_def)
  define k2 where "k2 = link_op sample_hashing accept_all sample_auth (LinkApply 1) (sample_link\<lparr>link_inbox := Some rotate_command\<rparr>)"
  define k4 where "k4 = link_op sample_hashing accept_all sample_auth (LinkHost (HostFinish 1 True True None (Some ''2.2.2.2'')))
    (link_op sample_hashing accept_all sample_auth (LinkAck True sample_env (sample_headers ''device-token'')) k2)"
  have k2: "link_app k2 = rotate_app" "node k2 = ''dev''" "link_applied k2 = [cmd_command_id rotate_command]"
      "link_outbox k2 = Some (cmd_command_id rotate_command, \<lparr>ack_ok = True, ack_message = None\<rparr>)"
      "map fst (rt_jobs (host_rt (link_phone k2))) = [1]" "map fst (host_tasks (link_phone k2)) = [1]"
    by (simp_all add: k2_def phone)
  have k4: "link_app k4 = rotate_app" "node k4 = ''dev''" "link_applied k4 = [cmd_command_id rotate_command]"
      "map fst (rt_jobs (host_rt (link_phone k4))) = [1]" "rt_current_job (host_rt (link_phone k4)) = None"
    using k2 by (auto simp: k4_def node_def apply_rotation_result_def Let_def split: option.split)
  have 5: "link_op sample_hashing accept_all sample_auth device_poll k4 = k4\<lparr>link_inbox := Some rotate_command\<rparr>"
    by (rule poll_link [OF k4(1,2)])
  have "foldl (\<lambda>k op. link_op sample_hashing accept_all sample_auth op k) sample_link lost_ack_ops
      = link_op sample_hashing accept_all sample_auth (LinkApply 2) (k4\<lparr>link_inbox := Some rotate_command\<rparr>)"
    unfolding lost_ack_ops_def foldl.simps 1 k2_def [symmetric] k4_def [symmetric] 5 ..
  moreover have "link_applied (link_op sample_hashing accept_all sample_auth (LinkApply 2) (k4\<lparr>link_inbox := Some rotate_command\<rparr>))
      = [cmd_command_id rotate_command, cmd_command_id rotate_command]"
    using k4 by (simp add: phone)
  moreover have "map fst (rt_jobs (host_rt (link_phone (link_op sample_hashing accept_all sample_auth (LinkApply 2)
      (k4\<lparr>link_inbox := Some rotate_command\<rparr>))))) = [1, 2]"
    using k4 by (auto simp: phone update_keys)
  ultimately show ?thesis by (simp add: Let_def)
qed

end
