(* ===== verification/Host_Api.thy ===== *)
theory Host_Api
  imports Host_Runtime
begin

text \<open>
  Model of the daemon's own HTTP interface (\<open>services/host-daemon/src/auth.rs\<close>,
  \<open>api.rs\<close>, \<open>service_health.rs\<close>) and of the durable tunnel counters
  (\<open>tunnel_counters.rs\<close>).  JSON is a parameter, the file is its content, and a
  write may fail before or after the new content replaced the old one.
\<close>

section \<open>Authorisation\<close>

type_synonym host_headers = "string \<Rightarrow> string option option"

definition authorize_token :: "host_headers \<Rightarrow> string \<Rightarrow> ApiError + unit" where
  "authorize_token h token =
     (let actual = (case h ''authorization'' of Some (Some v) \<Rightarrow> strip_prefix ''Bearer '' v | _ \<Rightarrow> None) in
      if actual = Some token then Inr () else Inl (ApiError 401 ''invalid bearer token''))"

definition authorize_ui :: "host_headers \<Rightarrow> string option \<Rightarrow> ApiError + unit" where
  "authorize_ui h token =
     (case token of
        None \<Rightarrow> Inl (ApiError 503 ''local UI control is not configured'')
      | Some t \<Rightarrow> authorize_token h t)"

section \<open>Handlers\<close>

record HostApp =
  app_admin_token :: string
  app_ui_control_token :: "string option"
  app_runtime :: HostRuntimeState

record RuntimeStatusRecord =
  rs_node_id :: string
  rs_node_name :: string
  rs_current_job :: "uuid option"
  rs_wireguard_enabled :: bool
  rs_tunnel_owner :: "string option"

record ProxyRuntimeRecord =
  pr_status :: string
  pr_listen_address :: string
  pr_pid :: "u32 option"

record UiJob =
  ui_id :: uuid
  ui_status :: string
  ui_old_public_ip :: "string option"
  ui_new_public_ip :: "string option"
  ui_changed :: "bool option"

definition get_health :: "host_headers \<Rightarrow> HostApp \<Rightarrow> ApiError + HealthRecord" where
  "get_health h app = and_then (authorize_token h (app_admin_token app)) (\<lambda>_. Inr (rt_health (app_runtime app)))"

definition get_status :: "host_headers \<Rightarrow> HostApp \<Rightarrow> ApiError + RuntimeStatusRecord" where
  "get_status h app =
     and_then (authorize_token h (app_admin_token app)) (\<lambda>_.
     let rt = app_runtime app in
     Inr \<lparr>rs_node_id = he_node_id (rt_health rt), rs_node_name = he_node_name (rt_health rt), rs_current_job = rt_current_job rt,
          rs_wireguard_enabled = rt_wireguard_enabled rt, rs_tunnel_owner = rt_tunnel_owner rt\<rparr>)"

definition get_proxy :: "host_headers \<Rightarrow> HostApp \<Rightarrow> ApiError + ProxyRuntimeRecord" where
  "get_proxy h app =
     and_then (authorize_token h (app_admin_token app)) (\<lambda>_.
     let rt = app_runtime app in
     Inr \<lparr>pr_status = he_proxy_status (rt_health rt), pr_listen_address = rt_proxy_listen_address rt, pr_pid = rt_proxy_pid rt\<rparr>)"

definition rotate_ip :: "host_headers \<Rightarrow> uuid \<Rightarrow> RotateRequest \<Rightarrow> HostApp \<Rightarrow> (ApiError + uuid) \<times> HostApp" where
  "rotate_ip h new_id request app =
     (case authorize_token h (app_admin_token app) of
        Inl e \<Rightarrow> (Inl e, app)
      | Inr _ \<Rightarrow>
          (case start_rotation new_id request (app_runtime app) of
             (Inl e, rt) \<Rightarrow> (Inl e, app\<lparr>app_runtime := rt\<rparr>)
           | (Inr _, rt) \<Rightarrow> (Inr new_id, app\<lparr>app_runtime := rt\<rparr>)))"

definition get_job :: "host_headers \<Rightarrow> uuid \<Rightarrow> HostApp \<Rightarrow> ApiError + JobRecord" where
  "get_job h i app =
     and_then (authorize_token h (app_admin_token app)) (\<lambda>_.
     ok_or (ApiError 404 ''job not found'') (map_of (rt_jobs (app_runtime app)) i))"

definition get_ui_job :: "host_headers \<Rightarrow> uuid \<Rightarrow> HostApp \<Rightarrow> ApiError + UiJob" where
  "get_ui_job h i app =
     and_then (authorize_ui h (app_ui_control_token app)) (\<lambda>_.
     and_then (ok_or (ApiError 404 ''job not found'') (map_of (rt_jobs (app_runtime app)) i)) (\<lambda>job.
     Inr \<lparr>ui_id = job_id job, ui_status = job_status job, ui_old_public_ip = job_old_public_ip job,
          ui_new_public_ip = job_new_public_ip job, ui_changed = job_changed job\<rparr>))"

section \<open>Readiness of the process\<close>

definition bounded_transport :: "string option \<Rightarrow> string option" where
  "bounded_transport value = (if value \<in> {Some ''quic'', Some ''tls_tcp'', Some ''tcp''} then value else None)"

definition bounded_freshness :: "string option \<Rightarrow> string option" where
  "bounded_freshness value = (if value \<in> {Some ''unknown'', Some ''fresh'', Some ''stale''} then value else None)"

record ReadinessDocument =
  doc_ready :: bool
  doc_worker_required :: bool
  doc_worker_healthy :: bool
  doc_counter_store_healthy :: bool
  doc_serving :: bool
  doc_cellular_route_ready :: "bool option"
  doc_proxy_bind_ready :: "bool option"
  doc_local_serving_ready :: "bool option"
  doc_connected :: "bool option"
  doc_transport :: "string option"
  doc_freshness :: "string option"

definition readiness_document :: "HostRuntimeState \<Rightarrow> nat \<times> ReadinessDocument" where
  "readiness_document rt =
     (let required = tunnel_required (rt_tunnel_owner rt);
          worker = (\<not> required \<or> rt_restart rt \<noteq> None);
          counters = rt_counter_persistence_healthy rt;
          ready = (worker \<and> counters);
          h = rt_health rt in
      (if ready then 200 else 503,
       \<lparr>doc_ready = ready, doc_worker_required = required, doc_worker_healthy = worker, doc_counter_store_healthy = counters,
        doc_serving = he_serving h, doc_cellular_route_ready = he_cellular_route_ready h, doc_proxy_bind_ready = he_proxy_bind_ready h,
        doc_local_serving_ready = he_local_serving_ready h, doc_connected = he_reverse_tunnel_connected h,
        doc_transport = bounded_transport (he_reverse_tunnel_active_transport h),
        doc_freshness = bounded_freshness (he_reverse_tunnel_freshness h)\<rparr>))"

section \<open>Durable counters\<close>

definition COUNTER_SCHEMA_VERSION :: nat where
  "COUNTER_SCHEMA_VERSION = 1"

definition MAX_COUNTER_FILE_BYTES :: nat where
  "MAX_COUNTER_FILE_BYTES = 16 * 1024"

datatype CounterError = TooLarge | Undecodable | UnsupportedVersion | WriteFailed

record CounterCodec =
  counter_encode :: "nat \<times> TunnelEventCounters \<Rightarrow> bytes"
  counter_decode :: "bytes \<Rightarrow> (nat \<times> TunnelEventCounters) option"

definition counters_load :: "CounterCodec \<Rightarrow> bytes option \<Rightarrow> CounterError + TunnelEventCounters" where
  "counters_load C file =
     (case file of
        None \<Rightarrow> Inr TunnelEventCounters_default
      | Some content \<Rightarrow>
          if length content > MAX_COUNTER_FILE_BYTES then Inl TooLarge
          else
            (case counter_decode C content of
               None \<Rightarrow> Inl Undecodable
             | Some (version, counters) \<Rightarrow>
                 if version \<noteq> COUNTER_SCHEMA_VERSION then Inl UnsupportedVersion else Inr counters))"

datatype WriteFault = WriteOk | FailsBeforeRename | FailsAfterRename

definition write_atomic ::
  "CounterCodec \<Rightarrow> WriteFault \<Rightarrow> TunnelEventCounters \<Rightarrow> bytes option \<Rightarrow> (CounterError + unit) \<times> bytes option" where
  "write_atomic C fault counters file =
     (let content = counter_encode C (COUNTER_SCHEMA_VERSION, counters) in
      if length content > MAX_COUNTER_FILE_BYTES then (Inl TooLarge, file)
      else
        (case fault of
           FailsBeforeRename \<Rightarrow> (Inl WriteFailed, file)
         | FailsAfterRename \<Rightarrow> (Inl WriteFailed, Some content)
         | WriteOk \<Rightarrow> (Inr (), Some content)))"

text \<open>The store is the counters it believes to be on disk, and the file.\<close>

definition persist_if_changed ::
  "CounterCodec \<Rightarrow> WriteFault \<Rightarrow> TunnelEventCounters \<Rightarrow> TunnelEventCounters \<times> bytes option
     \<Rightarrow> (CounterError + bool) \<times> TunnelEventCounters \<times> bytes option" where
  "persist_if_changed C fault counters store =
     (case store of (current, file) \<Rightarrow>
        if same_persisted_state current counters then (Inr False, store)
        else
          (case write_atomic C fault counters file of
             (Inl e, file') \<Rightarrow> (Inl e, current, file')
           | (Inr _, file') \<Rightarrow> (Inr True, counters, file')))"

fun persist_all ::
  "CounterCodec \<Rightarrow> (WriteFault \<times> TunnelEventCounters) list \<Rightarrow> TunnelEventCounters \<times> bytes option \<Rightarrow> TunnelEventCounters \<times> bytes option" where
  "persist_all C [] store = store"
| "persist_all C ((fault, counters) # rest) store = persist_all C rest (snd (persist_if_changed C fault counters store))"

definition codec_keeps :: "CounterCodec \<Rightarrow> TunnelEventCounters set \<Rightarrow> bool" where
  "codec_keeps C S = (\<forall>c\<in>S. length (counter_encode C (COUNTER_SCHEMA_VERSION, c)) \<le> MAX_COUNTER_FILE_BYTES
     \<and> (\<exists>c'. counter_decode C (counter_encode C (COUNTER_SCHEMA_VERSION, c)) = Some (COUNTER_SCHEMA_VERSION, c') \<and> same_persisted_state c c'))"

lemma same_persisted_trans: "same_persisted_state a b \<Longrightarrow> same_persisted_state b c \<Longrightarrow> same_persisted_state a c"
  by (simp add: same_persisted_state_def)

lemma same_persisted_sym: "same_persisted_state a b \<Longrightarrow> same_persisted_state b a"
  by (simp add: same_persisted_state_def)

definition file_holds :: "CounterCodec \<Rightarrow> TunnelEventCounters set \<Rightarrow> bytes option \<Rightarrow> bool" where
  "file_holds C S file = (\<exists>c d. counters_load C file = Inr c \<and> d \<in> S \<and> same_persisted_state d c)"

lemma written_loads:
  assumes "codec_keeps C S" "c \<in> S"
  shows "\<exists>c'. counters_load C (Some (counter_encode C (COUNTER_SCHEMA_VERSION, c))) = Inr c' \<and> same_persisted_state c c'"
proof -
  obtain c' where "length (counter_encode C (COUNTER_SCHEMA_VERSION, c)) \<le> MAX_COUNTER_FILE_BYTES"
      "counter_decode C (counter_encode C (COUNTER_SCHEMA_VERSION, c)) = Some (COUNTER_SCHEMA_VERSION, c')" "same_persisted_state c c'"
    using assms unfolding codec_keeps_def by blast
  then show ?thesis by (simp add: counters_load_def)
qed

lemma persist_file:
  assumes "codec_keeps C S" "file_holds C S file" "counters \<in> S"
  shows "file_holds C S (snd (snd (persist_if_changed C fault counters (current, file))))"
proof -
  have "file_holds C S (Some (counter_encode C (COUNTER_SCHEMA_VERSION, counters)))"
    using written_loads [OF assms(1,3)] assms(3) unfolding file_holds_def by blast
  then show ?thesis using assms(2) by (auto simp: persist_if_changed_def write_atomic_def Let_def split: WriteFault.splits if_splits)
qed

section \<open>Claims\<close>

text \<open>
  Tunnel counters survive restarts whenever writes fail: after any sequence
  of attempts to persist counters, each failing before or after the file was
  replaced, the file still loads and holds one of the values that were persisted;
  right after a successful attempt it holds exactly the value persisted.
\<close>

theorem counters_survive_failed_writes:
  assumes "codec_keeps C (insert start (snd ` set writes))" "counters_load C file = Inr start"
  shows "(\<exists>c d. counters_load C (snd (persist_all C writes (start, file))) = Inr c \<and> d \<in> insert start (snd ` set writes) \<and> same_persisted_state d c)
     \<and> (\<forall>fault counters store. counters \<in> snd ` set writes \<longrightarrow>
           persist_if_changed C fault counters (persist_all C writes (start, file)) = (Inr True, store) \<longrightarrow>
           (\<exists>c. counters_load C (snd store) = Inr c \<and> same_persisted_state counters c))"
proof
  let ?S = "insert start (snd ` set writes)"
  have "file_holds C ?S (snd (persist_all C ws (cur, f)))" if "set ws \<subseteq> set writes" "file_holds C ?S f" for ws cur f
    using that
  proof (induction ws arbitrary: cur f)
    case (Cons w ws)
    obtain fault c where w: "w = (fault, c)" by force
    obtain cur' f' where p: "snd (persist_if_changed C fault c (cur, f)) = (cur', f')" by force
    have "c \<in> ?S" using Cons.prems(1) w by force
    from persist_file [OF assms(1) Cons.prems(2) this, of fault cur] p have "file_holds C ?S f'" by simp
    then show ?case using Cons.IH [of f' cur'] Cons.prems(1) w p by simp
  qed simp
  moreover have "file_holds C ?S file"
    using assms(2) by (auto simp: file_holds_def same_persisted_state_def)
  ultimately show "\<exists>c d. counters_load C (snd (persist_all C writes (start, file))) = Inr c \<and> d \<in> ?S \<and> same_persisted_state d c"
    unfolding file_holds_def by blast
  have "snd store = Some (counter_encode C (COUNTER_SCHEMA_VERSION, counters))"
    if "persist_if_changed C fault counters (persist_all C writes (start, file)) = (Inr True, store)" for fault counters store
    using that by (auto simp: persist_if_changed_def write_atomic_def Let_def split: prod.splits sum.splits if_splits WriteFault.splits)
  then show "\<forall>fault counters store. counters \<in> snd ` set writes \<longrightarrow>
      persist_if_changed C fault counters (persist_all C writes (start, file)) = (Inr True, store) \<longrightarrow>
      (\<exists>c. counters_load C (snd store) = Inr c \<and> same_persisted_state counters c)"
    using written_loads [OF assms(1)] by (metis insertI2)
qed

definition sample_counters :: TunnelEventCounters where
  "sample_counters = record_connection TlsTcp (begin_attempt TunnelEventCounters_default)"

definition sample_counter_codec :: CounterCodec where
  "sample_counter_codec =
     \<lparr>counter_encode = (\<lambda>(v, c). if same_persisted_state c TunnelEventCounters_default then ''default'' else ''other''),
      counter_decode = (\<lambda>b. if b = ''default'' then Some (1, TunnelEventCounters_default) else Some (1, sample_counters))\<rparr>"

theorem counters_survive_failed_writes_witness:
  "\<exists>c. counters_load sample_counter_codec (snd (persist_all sample_counter_codec
     [(FailsBeforeRename, sample_counters), (FailsAfterRename, sample_counters)] (TunnelEventCounters_default, None))) = Inr c"
proof -
  have "codec_keeps sample_counter_codec {TunnelEventCounters_default, sample_counters}"
    by (auto simp: codec_keeps_def sample_counter_codec_def MAX_COUNTER_FILE_BYTES_def COUNTER_SCHEMA_VERSION_def same_persisted_state_def)
  then have "codec_keeps sample_counter_codec (insert TunnelEventCounters_default
      (snd ` set [(FailsBeforeRename, sample_counters), (FailsAfterRename, sample_counters)]))" by simp
  from counters_survive_failed_writes [OF this, of None] show ?thesis by (auto simp: counters_load_def)
qed

end
