(* ===== verification/Tunnel_Wire.thy ===== *)
theory Tunnel_Wire
  imports Tunnel_Model
begin

text \<open>
  Model of the byte level of \<open>crates/reverse-tunnel/src/tunnel.rs\<close>: reading lines
  from a buffered stream, JSON frames as lines, the SOCKS5 client, the answers to
  proxy clients without a phone, and the streams of the phone that carry proxy
  bytes.

  A buffered reader is the list of buffers its next \<open>fill_buf\<close> calls return, none
  of them empty, and how the stream ends.  The JSON encoding of frames is outside
  the repository; it is the parameter \<open>encode\<close>, \<open>decode\<close>, with \<open>json_lines\<close> for what
  the code relies on.
\<close>

section \<open>UTF-8\<close>

definition continuation :: "char \<Rightarrow> bool" where
  "continuation c = in_range c 128 191"

text \<open>The byte length of the character at the front, 0 when it is not valid.\<close>

fun utf8_char :: "bytes \<Rightarrow> nat" where
  "utf8_char [] = 0"
| "utf8_char (a # bs) =
     (if in_range a 0 127 then 1
      else if in_range a 194 223 then
        (case bs of b # _ \<Rightarrow> if continuation b then 2 else 0 | [] \<Rightarrow> 0)
      else if in_range a 224 239 then
        (case bs of b # c # _ \<Rightarrow>
           if (if in_range a 224 224 then in_range b 160 191 else if in_range a 237 237 then in_range b 128 159 else continuation b)
              \<and> continuation c then 3 else 0
         | _ \<Rightarrow> 0)
      else if in_range a 240 244 then
        (case bs of b # c # d # _ \<Rightarrow>
           if (if in_range a 240 240 then in_range b 144 191 else if in_range a 244 244 then in_range b 128 143 else continuation b)
              \<and> continuation c \<and> continuation d then 4 else 0
         | _ \<Rightarrow> 0)
      else 0)"

function utf8_valid :: "bytes \<Rightarrow> bool" where
  "utf8_valid bs = (if bs = [] then True else if utf8_char bs = 0 then False else utf8_valid (drop (utf8_char bs) bs))"
  by auto
termination by (relation "measure length") (auto simp: neq_Nil_conv)

declare utf8_valid.simps [simp del]

definition is_ascii :: "bytes \<Rightarrow> bool" where
  "is_ascii bs = (\<forall>c \<in> set bs. in_range c 0 127)"

section \<open>Lines\<close>

datatype StreamEnd = StillOpen | EndOfStream | ReadFailed string

datatype 'a Read = Ready 'a | ReadError string | WouldBlock

definition MAX_LINE_LENGTH :: nat where "MAX_LINE_LENGTH = 1024 * 1024"

definition newline :: char where "newline = CHR 0x0A"

text \<open>The scan of one buffer: up to and including the first newline.\<close>

fun scan_chunk :: "bytes \<Rightarrow> bytes \<times> bool" where
  "scan_chunk [] = ([], False)"
| "scan_chunk (b # bs) =
     (if b = newline then ([b], True) else case scan_chunk bs of (chunk, found) \<Rightarrow> (b # chunk, found))"

definition consume :: "nat \<Rightarrow> bytes list \<Rightarrow> bytes list" where
  "consume n bufs =
     (case bufs of [] \<Rightarrow> [] | buf # rest \<Rightarrow> if length buf \<le> n then rest else drop n buf # rest)"

fun read_line_loop :: "StreamEnd \<Rightarrow> bytes \<Rightarrow> nat \<Rightarrow> bytes list \<Rightarrow> bytes option Read \<times> bytes list" where
  "read_line_loop e line n [] =
     (case e of
        StillOpen \<Rightarrow> (WouldBlock, [])
      | EndOfStream \<Rightarrow> (Ready (if n = 0 then None else Some line), [])
      | ReadFailed m \<Rightarrow> (ReadError m, []))"
| "read_line_loop e line n (buf # rest) =
     (case scan_chunk buf of (chunk, found) \<Rightarrow>
        if n + length chunk > MAX_LINE_LENGTH then (ReadError ''line length limit exceeded'', buf # rest)
        else if \<not> utf8_valid chunk then (ReadError ''invalid utf8 sequence'', buf # rest)
        else if found then (Ready (Some (line @ chunk)), consume (length chunk) (buf # rest))
        else read_line_loop e (line @ chunk) (n + length chunk) rest)"

definition read_optional_line :: "StreamEnd \<Rightarrow> bytes list \<Rightarrow> bytes option Read \<times> bytes list" where
  "read_optional_line e bufs = read_line_loop e [] 0 bufs"

section \<open>Frames\<close>

definition write_frame :: "('f \<Rightarrow> bytes) \<Rightarrow> 'f \<Rightarrow> bytes" where
  "write_frame encode f = encode f @ [newline]"

definition read_optional_frame ::
  "string \<Rightarrow> (bytes \<Rightarrow> 'f option) \<Rightarrow> StreamEnd \<Rightarrow> bytes list \<Rightarrow> 'f option Read \<times> bytes list" where
  "read_optional_frame failure decode e bufs =
     (case read_optional_line e bufs of
        (Ready None, bufs') \<Rightarrow> (Ready None, bufs')
      | (Ready (Some line), bufs') \<Rightarrow>
          (case decode line of None \<Rightarrow> (ReadError failure, bufs') | Some f \<Rightarrow> (Ready (Some f), bufs'))
      | (ReadError m, bufs') \<Rightarrow> (ReadError m, bufs')
      | (WouldBlock, bufs') \<Rightarrow> (WouldBlock, bufs'))"

definition read_client_frame :: "(bytes \<Rightarrow> ClientFrame option) \<Rightarrow> StreamEnd \<Rightarrow> bytes list \<Rightarrow> ClientFrame option Read \<times> bytes list" where
  "read_client_frame = read_optional_frame ''failed to decode reverse tunnel frame''"

definition read_server_frame :: "(bytes \<Rightarrow> ServerFrame option) \<Rightarrow> StreamEnd \<Rightarrow> bytes list \<Rightarrow> ServerFrame option Read \<times> bytes list" where
  "read_server_frame = read_optional_frame ''failed to decode reverse tunnel server frame''"

definition required :: "string \<Rightarrow> 'f option Read \<times> bytes list \<Rightarrow> 'f Read \<times> bytes list" where
  "required failure r =
     (case r of
        (Ready None, bufs) \<Rightarrow> (ReadError failure, bufs)
      | (Ready (Some f), bufs) \<Rightarrow> (Ready f, bufs)
      | (ReadError m, bufs) \<Rightarrow> (ReadError m, bufs)
      | (WouldBlock, bufs) \<Rightarrow> (WouldBlock, bufs))"

definition read_required_frame :: "(bytes \<Rightarrow> ClientFrame option) \<Rightarrow> StreamEnd \<Rightarrow> bytes list \<Rightarrow> ClientFrame Read \<times> bytes list" where
  "read_required_frame decode e bufs =
     required ''reverse tunnel connection closed before first frame'' (read_client_frame decode e bufs)"

definition read_required_server_frame :: "(bytes \<Rightarrow> ServerFrame option) \<Rightarrow> StreamEnd \<Rightarrow> bytes list \<Rightarrow> ServerFrame Read \<times> bytes list" where
  "read_required_server_frame decode e bufs =
     required ''reverse tunnel proxy stream closed before first frame'' (read_server_frame decode e bufs)"

text \<open>The first frame of a server connection is read byte by byte from the socket.\<close>

definition MAX_FIRST_FRAME :: nat where "MAX_FIRST_FRAME = 64 * 1024"

fun read_first_bytes :: "StreamEnd \<Rightarrow> bytes \<Rightarrow> bytes \<Rightarrow> bytes Read \<times> bytes" where
  "read_first_bytes e acc [] =
     (case e of StillOpen \<Rightarrow> (WouldBlock, []) | _ \<Rightarrow> (ReadError ''reverse tunnel closed before first frame'', []))"
| "read_first_bytes e acc (b # bs) =
     (if b = newline then (Ready (acc @ [b]), bs)
      else if length (acc @ [b]) > MAX_FIRST_FRAME then (ReadError ''reverse tunnel first frame is too large'', bs)
      else read_first_bytes e (acc @ [b]) bs)"

definition read_first_frame :: "(bytes \<Rightarrow> ClientFrame option) \<Rightarrow> StreamEnd \<Rightarrow> bytes \<Rightarrow> ClientFrame Read \<times> bytes" where
  "read_first_frame decode e input =
     (case read_first_bytes e [] input of
        (Ready line, rest) \<Rightarrow>
          (case decode line of
             None \<Rightarrow> (ReadError ''failed to decode reverse tunnel first frame'', rest)
           | Some f \<Rightarrow> (Ready f, rest))
      | (ReadError m, rest) \<Rightarrow> (ReadError m, rest)
      | (WouldBlock, rest) \<Rightarrow> (WouldBlock, rest))"

section \<open>The SOCKS5 client\<close>

text \<open>
  A connection to a peer: the bytes it sends us (that we have not read yet), the
  bytes we have written, and how many more writes succeed.
\<close>

record Peer =
  peer_in :: bytes
  peer_out :: bytes
  peer_writes :: nat

type_synonym 'a peer_io = "Peer \<Rightarrow> (string + 'a) \<times> Peer"

definition io_bind :: "'a peer_io \<Rightarrow> ('a \<Rightarrow> 'b peer_io) \<Rightarrow> 'b peer_io" where
  "io_bind m f p = (case m p of (Inl e, p') \<Rightarrow> (Inl e, p') | (Inr v, p') \<Rightarrow> f v p')"

definition io_fail :: "string \<Rightarrow> 'a peer_io" where
  "io_fail e p = (Inl e, p)"

definition io_return :: "'a \<Rightarrow> 'a peer_io" where
  "io_return v p = (Inr v, p)"

definition write_all :: "bytes \<Rightarrow> unit peer_io" where
  "write_all bs p =
     (case peer_writes p of
        0 \<Rightarrow> (Inl ''write failed'', p)
      | Suc n \<Rightarrow> (Inr (), p\<lparr>peer_out := peer_out p @ bs, peer_writes := n\<rparr>))"

definition read_exact :: "nat \<Rightarrow> bytes peer_io" where
  "read_exact n p =
     (if length (peer_in p) < n then (Inl ''unexpected end of file'', p\<lparr>peer_in := []\<rparr>)
      else (Inr (take n (peer_in p)), p\<lparr>peer_in := drop n (peer_in p)\<rparr>))"

abbreviation byte :: "nat \<Rightarrow> char" where "byte \<equiv> char_of"

definition socks5_request :: "SocketAddr \<Rightarrow> bytes" where
  "socks5_request target =
     [byte 5, byte 1, byte 0]
     @ (case socket_ip target of V4 a \<Rightarrow> byte 1 # octets (V4 a) | V6 a \<Rightarrow> byte 4 # octets (V6 a))
     @ port_bytes (socket_port target)"

definition socks5_auth :: "string \<Rightarrow> string \<Rightarrow> bytes" where
  "socks5_auth username password =
     [byte 1, byte (length username)] @ username @ [byte (length password)] @ password"

definition socks5_reply_length :: "bytes \<Rightarrow> nat peer_io" where
  "socks5_reply_length head =
     (if head ! 3 = byte 1 then io_return 4
      else if head ! 3 = byte 4 then io_return 16
      else if head ! 3 = byte 3 then io_bind (read_exact 1) (\<lambda>len. io_return (of_char (len ! 0)))
      else io_fail ''transport SOCKS5 returned an invalid address type'')"

definition socks5_reply :: "unit peer_io" where
  "socks5_reply =
     io_bind (read_exact 4) (\<lambda>head.
     if head ! 0 \<noteq> byte 5 \<or> head ! 1 \<noteq> byte 0 then io_fail ''transport SOCKS5 connection failed'' else
     io_bind (socks5_reply_length head) (\<lambda>address_len.
     io_bind (read_exact (address_len + 2)) (\<lambda>_.
     io_return ())))"

definition socks5_connect :: "SocketAddr \<Rightarrow> string \<Rightarrow> string \<Rightarrow> unit peer_io" where
  "socks5_connect target username password =
     (if username = [] \<or> length username > 255 \<or> password = [] \<or> length password > 255
      then io_fail ''transport SOCKS5 credentials are invalid''
      else
        io_bind (write_all [byte 5, byte 1, byte 2]) (\<lambda>_.
        io_bind (read_exact 2) (\<lambda>response.
        if response \<noteq> [byte 5, byte 2] then io_fail ''transport SOCKS5 authentication method was rejected'' else
        io_bind (write_all (socks5_auth username password)) (\<lambda>_.
        io_bind (read_exact 2) (\<lambda>response.
        if response \<noteq> [byte 1, byte 0] then io_fail ''transport SOCKS5 authentication failed'' else
        io_bind (write_all (socks5_request target)) (\<lambda>_.
        socks5_reply))))))"

section \<open>Proxy clients at the relay\<close>

text \<open>What peeking one byte within the time limit gives; \<open>None\<close> for a timeout, an error or the end.\<close>

definition resolve_proxy_protocol :: "char option \<Rightarrow> ProxyProtocol \<Rightarrow> ProxyProtocol" where
  "resolve_proxy_protocol peeked protocol =
     (case protocol of
        Mixed \<Rightarrow> (if peeked = Some (byte 5) then Socks5 else Http)
      | p \<Rightarrow> p)"

definition crlf :: string where "crlf = [CHR 0x0D, CHR 0x0A]"

definition unavailable_response :: "ProxyProtocol \<Rightarrow> bytes" where
  "unavailable_response protocol =
     (case protocol of
        Socks5 \<Rightarrow> [byte 5, byte 255]
      | _ \<Rightarrow> concat (map (\<lambda>l. l @ crlf)
               [''HTTP/1.1 503 Service Unavailable'', ''Connection: close'', ''Content-Length: 31'',
                ''Content-Type: text/plain'', ''Retry-After: 5'', []])
             @ ''mobile proxy device is offline'' @ [newline])"

section \<open>Copying\<close>

text \<open>
  One direction of a copy: what the reads return, how the source ends, and how
  many writes the sink takes.  The result is what reached the sink and the count.
\<close>

fun pump_with_flush :: "StreamEnd \<Rightarrow> nat \<Rightarrow> bytes list \<Rightarrow> bytes \<Rightarrow> u64 \<Rightarrow> u64 Read \<times> bytes" where
  "pump_with_flush e writes [] sink copied =
     (case e of
        StillOpen \<Rightarrow> (WouldBlock, sink)
      | EndOfStream \<Rightarrow> (Ready copied, sink)
      | ReadFailed m \<Rightarrow> (ReadError m, sink))"
| "pump_with_flush e 0 (buf # bufs) sink copied = (ReadError ''write failed'', sink)"
| "pump_with_flush e (Suc writes) (buf # bufs) sink copied =
     pump_with_flush e writes bufs (sink @ buf) (copied + of_nat (length buf))"

section \<open>Proxy streams of the phone\<close>

text \<open>
  A reserved stream waits for its activation, skipping keepalives, and a QUIC
  proxy stream starts with it.  The result is the protocol and the buffered bytes
  after the frame, which stay in the data path.
\<close>

lemma scan_chunk_props:
  "scan_chunk buf = (chunk, found) \<Longrightarrow>
     (found \<longrightarrow> chunk \<noteq> [] \<and> last chunk = newline) \<and> (\<not> found \<longrightarrow> chunk = buf \<and> newline \<notin> set buf)
     \<and> (\<exists>rest. buf = chunk @ rest) \<and> newline \<notin> set (butlast chunk)"
  by (induction buf arbitrary: chunk found) (auto split: if_splits prod.splits)

lemma concat_consume: "concat (consume n (buf # rest)) = drop n buf @ concat rest"
  by (simp add: consume_def)

lemma read_line_consumes:
  "read_line_loop e line n bufs = (Ready (Some l), bufs') \<Longrightarrow>
     length (concat bufs') + (if n = 0 then 1 else 0) \<le> length (concat bufs)"
proof (induction e line n bufs rule: read_line_loop.induct)
  case (1 e line n)
  then show ?case by (auto split: StreamEnd.splits if_splits)
next
  case (2 e line n buf rest)
  obtain chunk found where c: "scan_chunk buf = (chunk, found)" by fastforce
  note props = scan_chunk_props [OF c]
  show ?case
  proof (cases found)
    case True
    then show ?thesis using 2(2) props c
      by (auto split: if_splits simp: concat_consume Suc_le_eq)
  next
    case False
    then have c': "scan_chunk buf = (buf, False)" using props c by simp
    then have "read_line_loop e (line @ buf) (n + length buf) rest = (Ready (Some l), bufs')"
        "\<not> MAX_LINE_LENGTH < n + length buf" "utf8_valid buf"
      using 2(2) by (simp_all split: if_splits)
    then show ?thesis using 2(1) [OF c' [symmetric]] c' by (cases buf) (simp_all split: if_splits)
  qed
qed

lemma required_frame_consumes:
  "read_required_server_frame decode e bufs = (Ready f, bufs') \<Longrightarrow> length (concat bufs') < length (concat bufs)"
  by (auto simp: read_required_server_frame_def required_def read_server_frame_def read_optional_frame_def read_optional_line_def
      split: prod.splits Read.splits option.splits dest!: read_line_consumes)

lemma required_frame_consumes':
  "(Ready f, bufs') = read_required_server_frame decode e bufs \<Longrightarrow> length (concat bufs') < length (concat bufs)"
  using required_frame_consumes by metis

function await_activation :: "(bytes \<Rightarrow> ServerFrame option) \<Rightarrow> StreamEnd \<Rightarrow> bytes list \<Rightarrow> ProxyProtocol Read \<times> bytes list" where
  "await_activation decode e bufs =
     (case read_required_server_frame decode e bufs of
        (Ready (OpenProxy _ protocol), bufs') \<Rightarrow> (Ready protocol, bufs')
      | (Ready ReserveKeepalive, bufs') \<Rightarrow>
          await_activation decode e bufs'
      | (ReadError m, bufs') \<Rightarrow> (ReadError m, bufs')
      | (WouldBlock, bufs') \<Rightarrow> (WouldBlock, bufs'))"
  by auto
termination
  by (relation "measure (\<lambda>(d, e, bufs). length (concat bufs))") (auto dest: required_frame_consumes')

declare await_activation.simps [simp del]

record LocalStream =
  local_addr :: socket_addr
  local_data :: "bytes list"

definition open_tcp_reserved_stream ::
  "(bytes \<Rightarrow> ServerFrame option) \<Rightarrow> ReverseTunnelClientConfig \<Rightarrow> (socket_addr \<Rightarrow> bool) \<Rightarrow> StreamEnd \<Rightarrow> bytes list
   \<Rightarrow> LocalStream Read" where
  "open_tcp_reserved_stream decode config reachable e bufs =
     (case await_activation decode e bufs of
        (Ready protocol, rest) \<Rightarrow>
          (let addr = local_proxy_addr_for config protocol in
           if reachable addr then Ready \<lparr>local_addr = addr, local_data = rest\<rparr> else ReadError ''connect failed'')
      | (ReadError m, _) \<Rightarrow> ReadError m
      | (WouldBlock, _) \<Rightarrow> WouldBlock)"

definition handle_client_proxy_stream ::
  "(bytes \<Rightarrow> ServerFrame option) \<Rightarrow> ReverseTunnelClientConfig \<Rightarrow> (socket_addr \<Rightarrow> bool) \<Rightarrow> StreamEnd \<Rightarrow> bytes list
   \<Rightarrow> LocalStream Read" where
  "handle_client_proxy_stream decode config reachable e bufs =
     (case read_required_server_frame decode e bufs of
        (Ready (OpenProxy _ protocol), rest) \<Rightarrow>
          (let addr = local_proxy_addr_for config protocol in
           if reachable addr then Ready \<lparr>local_addr = addr, local_data = rest\<rparr> else ReadError ''failed to connect local proxy'')
      | (Ready ReserveKeepalive, _) \<Rightarrow> ReadError ''reserve keepalive received on QUIC proxy stream''
      | (ReadError m, _) \<Rightarrow> ReadError m
      | (WouldBlock, _) \<Rightarrow> WouldBlock)"

section \<open>Lines do not depend on the buffers\<close>

text \<open>What a reader of whole lines returns, the rest of the bytes, and whether it waits for more.\<close>

definition line_of :: "bytes \<Rightarrow> bytes" where
  "line_of bs = fst (scan_chunk bs)"

definition has_line :: "bytes \<Rightarrow> bool" where
  "has_line bs = (newline \<in> set bs)"

definition whole_line :: "StreamEnd \<Rightarrow> bytes \<Rightarrow> bytes option Read" where
  "whole_line e bs =
     (if has_line bs then Ready (Some (line_of bs))
      else case e of
             StillOpen \<Rightarrow> WouldBlock
           | EndOfStream \<Rightarrow> Ready (if bs = [] then None else Some bs)
           | ReadFailed m \<Rightarrow> ReadError m)"

lemma ascii_utf8: "is_ascii bs \<Longrightarrow> utf8_valid bs"
proof (induction bs)
  case Nil
  then show ?case by (simp add: utf8_valid.simps)
next
  case (Cons c cs)
  then show ?case by (subst utf8_valid.simps) (simp add: is_ascii_def)
qed

lemma scan_chunk_append:
  "scan_chunk (xs @ ys) = (if newline \<in> set xs then scan_chunk xs else (xs @ fst (scan_chunk ys), snd (scan_chunk ys)))"
  by (induction xs) (auto split: prod.splits)

lemma scan_chunk_found: "snd (scan_chunk bs) \<longleftrightarrow> has_line bs"
  by (induction bs) (auto simp: has_line_def split: prod.splits)

lemma line_of_append:
  "line_of (xs @ ys) = (if has_line xs then line_of xs else xs @ line_of ys)"
  by (simp add: line_of_def has_line_def scan_chunk_append)

lemma line_of_prefix: obtains rest where "bs = line_of bs @ rest"
proof -
  have "\<exists>rest. bs = line_of bs @ rest"
    using scan_chunk_props [of bs "line_of bs" "has_line bs"] by (simp add: line_of_def scan_chunk_found [symmetric])
  then show thesis using that by blast
qed

lemma is_ascii_append [simp]: "is_ascii (xs @ ys) \<longleftrightarrow> is_ascii xs \<and> is_ascii ys"
  by (auto simp: is_ascii_def)

lemma line_of_length: "length (line_of bs) \<le> length bs"
  by (rule line_of_prefix [of bs]) (metis le_add1 length_append)

lemma read_line_ascii:
  assumes "is_ascii (line_of (concat bufs))" "n + length (line_of (concat bufs)) \<le> MAX_LINE_LENGTH" "n = length line" "newline \<notin> set line"
  shows "fst (read_line_loop e line n bufs) = whole_line e (line @ concat bufs)
    \<and> concat (snd (read_line_loop e line n bufs)) = drop (length (line_of (concat bufs))) (concat bufs)"
  using assms
proof (induction bufs arbitrary: line n)
  case Nil
  then show ?case by (auto simp: whole_line_def has_line_def line_of_def split: StreamEnd.split)
next
  case (Cons buf rest)
  have s: "scan_chunk buf = (line_of buf, has_line buf)" by (simp add: line_of_def scan_chunk_found [symmetric])
  have ok: "utf8_valid (line_of buf)"
    using Cons.prems(1) scan_chunk_props [OF s] by (cases "has_line buf") (simp_all add: ascii_utf8 line_of_append)
  show ?case
  proof (cases "has_line buf")
    case True
    then show ?thesis using Cons.prems s ok line_of_length [of buf]
      by (auto simp: line_of_append concat_consume whole_line_def has_line_def)
  next
    case False
    have b: "line_of buf = buf" using False scan_chunk_props [OF s] by simp
    have "fst (read_line_loop e (line @ buf) (n + length buf) rest) = whole_line e ((line @ buf) @ concat rest)
        \<and> concat (snd (read_line_loop e (line @ buf) (n + length buf) rest)) = drop (length (line_of (concat rest))) (concat rest)"
      using Cons.prems False by (intro Cons.IH) (simp_all add: line_of_append has_line_def)
    then show ?thesis using Cons.prems s ok b False by (simp add: line_of_append)
  qed
qed

lemma read_optional_line_ascii:
  assumes "is_ascii (line_of (concat bufs))" "length (line_of (concat bufs)) \<le> MAX_LINE_LENGTH"
  obtains bufs' where "read_optional_line e bufs = (whole_line e (concat bufs), bufs')"
    "concat bufs' = drop (length (line_of (concat bufs))) (concat bufs)"
  using read_line_ascii [of bufs 0 "[]" e] assms that by (cases "read_line_loop e [] 0 bufs") (simp add: read_optional_line_def)

section \<open>Frames survive the stream\<close>

definition json_lines :: "('f \<Rightarrow> bytes) \<Rightarrow> (bytes \<Rightarrow> 'f option) \<Rightarrow> 'f set \<Rightarrow> bool" where
  "json_lines encode decode F =
     (\<forall>f \<in> F. decode (encode f @ [newline]) = Some f \<and> newline \<notin> set (encode f) \<and> is_ascii (encode f)
        \<and> length (encode f) < MAX_LINE_LENGTH)"

lemma line_of_frame: "newline \<notin> set xs \<Longrightarrow> line_of ((xs @ [newline]) @ ys) = xs @ [newline]"
  by (induction xs) (auto simp: line_of_def has_line_def split: prod.splits)

lemma read_written_frame:
  assumes "json_lines encode decode F" "f \<in> F" "concat bufs = write_frame encode f @ rest"
  obtains bufs' where "read_optional_frame failure decode e bufs = (Ready (Some f), bufs')" "concat bufs' = rest"
proof -
  have f: "decode (encode f @ [newline]) = Some f" "newline \<notin> set (encode f)" "is_ascii (encode f)" "length (encode f) < MAX_LINE_LENGTH"
    using assms(1,2) by (auto simp: json_lines_def)
  have l: "line_of (concat bufs) = encode f @ [newline]" using line_of_frame [OF f(2), of rest] assms(3) by (simp add: write_frame_def)
  have asc: "is_ascii (line_of (concat bufs))" using f(3) l by (simp add: is_ascii_def newline_def in_range_def)
  have len: "length (line_of (concat bufs)) \<le> MAX_LINE_LENGTH" using f(4) l by simp
  obtain bufs' where r: "read_optional_line e bufs = (whole_line e (concat bufs), bufs')"
      "concat bufs' = drop (length (line_of (concat bufs))) (concat bufs)"
    by (rule read_optional_line_ascii [OF asc len])
  have "has_line (concat bufs)" using assms(3) by (simp add: has_line_def write_frame_def)
  then have "read_optional_frame failure decode e bufs = (Ready (Some f), bufs')"
    using r(1) l f(1) by (simp add: read_optional_frame_def whole_line_def)
  moreover have "concat bufs' = rest" using r(2) l assms(3) by (simp add: write_frame_def)
  ultimately show thesis by (rule that)
qed

fun read_frames :: "(bytes \<Rightarrow> 'f option) \<Rightarrow> StreamEnd \<Rightarrow> nat \<Rightarrow> bytes list \<Rightarrow> 'f option Read list \<times> bytes list" where
  "read_frames decode e 0 bufs = ([], bufs)"
| "read_frames decode e (Suc n) bufs =
     (case read_optional_frame ''failed to decode reverse tunnel frame'' decode e bufs of (r, bufs1) \<Rightarrow>
        (case read_frames decode e n bufs1 of (rs, bufs2) \<Rightarrow> (r # rs, bufs2)))"

lemma read_frames_written:
  assumes "json_lines encode decode F" "set fs \<subseteq> F" "concat bufs = concat (map (write_frame encode) fs) @ rest"
  shows "\<exists>bufs'. read_frames decode e (length fs) bufs = (map (\<lambda>f. Ready (Some f)) fs, bufs') \<and> concat bufs' = rest"
  using assms(2,3)
proof (induction fs arbitrary: bufs)
  case Nil
  then show ?case by simp
next
  case (Cons f fs)
  obtain bufs1 where r: "read_optional_frame ''failed to decode reverse tunnel frame'' decode e bufs = (Ready (Some f), bufs1)"
      "concat bufs1 = concat (map (write_frame encode) fs) @ rest"
    using read_written_frame [OF assms(1), of f bufs "concat (map (write_frame encode) fs) @ rest"] Cons.prems by auto
  obtain bufs2 where "read_frames decode e (length fs) bufs1 = (map (\<lambda>f. Ready (Some f)) fs, bufs2)" "concat bufs2 = rest"
    using Cons.IH [of bufs1] Cons.prems(1) r(2) by auto
  then show ?case using r(1) by simp
qed

lemma await_written_activation:
  assumes "json_lines encode decode {ReserveKeepalive, OpenProxy sid protocol}"
    and "concat bufs = concat (map (write_frame encode) (replicate k ReserveKeepalive)) @ write_frame encode (OpenProxy sid protocol) @ early"
  shows "\<exists>bufs'. await_activation decode e bufs = (Ready protocol, bufs') \<and> concat bufs' = early"
  using assms(2)
proof (induction k arbitrary: bufs)
  case 0
  obtain bufs' where "read_server_frame decode e bufs = (Ready (Some (OpenProxy sid protocol)), bufs')" "concat bufs' = early"
    unfolding read_server_frame_def
    by (rule read_written_frame [OF assms(1), of "OpenProxy sid protocol" bufs early]) (use 0 in simp_all)
  then show ?case by (subst await_activation.simps) (simp add: read_required_server_frame_def required_def)
next
  case (Suc k)
  obtain bufs1 where "read_server_frame decode e bufs = (Ready (Some ReserveKeepalive), bufs1)"
      "concat bufs1 = concat (map (write_frame encode) (replicate k ReserveKeepalive)) @ write_frame encode (OpenProxy sid protocol) @ early"
    unfolding read_server_frame_def
    by (rule read_written_frame [OF assms(1), of ReserveKeepalive bufs]) (use Suc.prems in simp_all)
  then show ?case using Suc.IH [of bufs1]
    by (subst await_activation.simps) (simp add: read_required_server_frame_def required_def)
qed

section \<open>The SOCKS5 handshake\<close>

lemmas peer_defs = io_bind_def io_fail_def io_return_def write_all_def read_exact_def

text \<open>What a server that accepts the connection sends, and the bytes that follow.\<close>

definition socks5_accepts :: "bytes \<Rightarrow> bytes \<Rightarrow> bool" where
  "socks5_accepts input rest =
     (\<exists>reserved kind body.
        input = [byte 5, byte 2, byte 1, byte 0, byte 5, byte 0, reserved, kind] @ body @ rest
        \<and> (kind = byte 1 \<and> length body = 6 \<or> kind = byte 4 \<and> length body = 18
           \<or> kind = byte 3 \<and> body \<noteq> [] \<and> length body = of_char (hd body) + 3))"

definition valid_credentials :: "string \<Rightarrow> string \<Rightarrow> bool" where
  "valid_credentials username password =
     (username \<noteq> [] \<and> length username \<le> 255 \<and> password \<noteq> [] \<and> length password \<le> 255)"

lemma io_bind_Inr: "io_bind m f p = (Inr v, p'') \<longleftrightarrow> (\<exists>u p'. m p = (Inr u, p') \<and> f u p' = (Inr v, p''))"
  by (auto simp: io_bind_def split: prod.splits sum.splits)

lemma write_all_Inr: "write_all bs p = (Inr u, p') \<longleftrightarrow> peer_writes p > 0 \<and> p' = p\<lparr>peer_out := peer_out p @ bs, peer_writes := peer_writes p - 1\<rparr>"
  by (auto simp: write_all_def split: nat.splits)

lemma read_exact_Inr:
  "read_exact n p = (Inr u, p') \<longleftrightarrow> length u = n \<and> peer_in p = u @ peer_in p' \<and> p' = p\<lparr>peer_in := peer_in p'\<rparr>"
  by (auto simp: read_exact_def split: if_splits)

lemma io_return_Inr: "io_return u p = (Inr v, p') \<longleftrightarrow> v = u \<and> p' = p"
  by (auto simp: io_return_def)

lemma io_fail_Inr: "io_fail m p = (Inr v, p') \<longleftrightarrow> False"
  by (simp add: io_fail_def)

lemmas io_Inr = io_bind_Inr write_all_Inr read_exact_Inr io_return_Inr io_fail_Inr

definition reply_body :: "char \<Rightarrow> bytes \<Rightarrow> bool" where
  "reply_body kind body =
     (kind = byte 1 \<and> length body = 6 \<or> kind = byte 4 \<and> length body = 18
      \<or> kind = byte 3 \<and> body \<noteq> [] \<and> length body = of_char (hd body) + 3)"

lemma four_bytes: "length h = 4 \<Longrightarrow> \<exists>a b c d. h = [a, b, c, d]"
  by (auto simp: numeral_eq_Suc length_Suc_conv)

lemma socks5_reply_Inr:
  "socks5_reply p = (Inr (), p') \<longleftrightarrow>
     (\<exists>reserved kind body. peer_in p = [byte 5, byte 0, reserved, kind] @ body @ peer_in p' \<and> reply_body kind body)
     \<and> peer_out p' = peer_out p \<and> peer_writes p' = peer_writes p"
  (is "?l \<longleftrightarrow> ?r")
proof
  assume ?l
  then obtain h p1 n p2 body p3 where
      h: "length h = 4" "peer_in p = h @ peer_in p1" "p1 = p\<lparr>peer_in := peer_in p1\<rparr>"
      "h ! 0 = byte 5" "h ! 1 = byte 0" and n: "socks5_reply_length h p1 = (Inr n, p2)"
      and b: "length body = n + 2" "peer_in p2 = body @ peer_in p'" "p' = p2\<lparr>peer_in := peer_in p'\<rparr>"
    by (auto simp: socks5_reply_def io_Inr split: if_splits)
  obtain k r where hd: "h = [byte 5, byte 0, r, k]" using four_bytes [OF h(1)] h(4,5) by auto
  have "\<exists>body'. peer_in p1 = body' @ peer_in p' \<and> reply_body k body' \<and> p2 = p1\<lparr>peer_in := peer_in p2\<rparr>"
    using n b hd by (auto simp: socks5_reply_length_def io_Inr reply_body_def length_Suc_conv split: if_splits)
  then show ?r using h(2,3) b(3) hd by (metis append_assoc Peer.select_convs Peer.surjective Peer.update_convs(1))
next
  assume ?r
  then obtain r k body where p: "peer_in p = [byte 5, byte 0, r, k] @ body @ peer_in p'" "reply_body k body" "p' = p\<lparr>peer_in := peer_in p'\<rparr>"
    by auto
  consider "k = byte 1" "length body = 6" | "k = byte 4" "length body = 18"
    | c bs where "k = byte 3" "body = c # bs" "length bs = of_char c + 2"
    using p(2) by (cases body) (auto simp: reply_body_def)
  then have "fst (socks5_reply p) = Inr () \<and> snd (socks5_reply p) = p\<lparr>peer_in := peer_in p'\<rparr>"
    by cases (simp_all add: p(1) socks5_reply_def socks5_reply_length_def peer_defs)
  then show ?l using p(3) by (metis prod.collapse)
qed

text \<open>The connection after the three writes and the two answers of the authentication.\<close>

definition after_auth :: "SocketAddr \<Rightarrow> string \<Rightarrow> string \<Rightarrow> Peer \<Rightarrow> Peer" where
  "after_auth target username password p =
     p\<lparr>peer_in := drop 4 (peer_in p),
       peer_out := peer_out p @ [byte 5, byte 1, byte 2] @ socks5_auth username password @ socks5_request target,
       peer_writes := peer_writes p - 3\<rparr>"

lemma socks5_connect_auth:
  assumes "valid_credentials username password" "peer_writes p = Suc (Suc (Suc n))" "peer_in p = [byte 5, byte 2, byte 1, byte 0] @ rest"
  shows "socks5_connect target username password p = socks5_reply (after_auth target username password p)"
  using assms by (simp add: socks5_connect_def valid_credentials_def peer_defs after_auth_def not_less)

lemma read_exactD: "read_exact n p = (Inr u, p') \<Longrightarrow> length u = n \<and> peer_in p = u @ peer_in p' \<and> peer_writes p = peer_writes p'"
  by (auto simp: read_exact_def split: if_splits)

lemma write_allD: "write_all bs p = (Inr u, p') \<Longrightarrow> peer_in p = peer_in p' \<and> peer_writes p = Suc (peer_writes p')"
  by (auto simp: write_all_def split: nat.splits)

lemma socks5_connect_needs:
  assumes "socks5_connect target username password p = (Inr (), p')"
  shows "valid_credentials username password"
    "\<exists>n rest. peer_writes p = Suc (Suc (Suc n)) \<and> peer_in p = [byte 5, byte 2, byte 1, byte 0] @ rest"
proof -
  show "valid_credentials username password"
    using assms by (auto simp: socks5_connect_def io_fail_def valid_credentials_def not_less split: if_splits)
  show "\<exists>n rest. peer_writes p = Suc (Suc (Suc n)) \<and> peer_in p = [byte 5, byte 2, byte 1, byte 0] @ rest"
    using assms by (auto simp: socks5_connect_def io_bind_Inr io_fail_Inr split: if_splits dest!: read_exactD write_allD)
qed

lemma socks5_connect_Inr:
  "socks5_connect target username password p = (Inr (), p') \<longleftrightarrow>
     valid_credentials username password \<and> 3 \<le> peer_writes p \<and> socks5_accepts (peer_in p) (peer_in p')
     \<and> peer_out p' = peer_out p @ [byte 5, byte 1, byte 2] @ socks5_auth username password @ socks5_request target
     \<and> peer_writes p' = peer_writes p - 3"
  (is "?l \<longleftrightarrow> ?r")
proof
  assume l: ?l
  obtain n rest where p: "peer_writes p = Suc (Suc (Suc n))" "peer_in p = [byte 5, byte 2, byte 1, byte 0] @ rest"
    using socks5_connect_needs(2) [OF l] by blast
  then have "socks5_reply (after_auth target username password p) = (Inr (), p')"
    using l socks5_connect_auth [OF socks5_connect_needs(1) [OF l]] by simp
  then show ?r using p socks5_connect_needs(1) [OF l]
    by (auto simp: socks5_reply_Inr after_auth_def socks5_accepts_def reply_body_def)
next
  assume r: ?r
  then obtain n where n: "peer_writes p = Suc (Suc (Suc n))" by (metis Suc_le_D Suc_le_mono numeral_3_eq_3)
  obtain reserved kind body where i: "peer_in p = [byte 5, byte 2, byte 1, byte 0, byte 5, byte 0, reserved, kind] @ body @ peer_in p'"
      "reply_body kind body"
    using r by (auto simp: socks5_accepts_def reply_body_def)
  have "socks5_reply (after_auth target username password p) = (Inr (), p')"
    unfolding socks5_reply_Inr using i r by (auto simp: after_auth_def)
  then show ?l using r i socks5_connect_auth [OF _ n] by simp
qed

lemma socks5_credentials_withheld:
  assumes "take 2 (peer_in p) \<noteq> [byte 5, byte 2]"
  shows "peer_out (snd (socks5_connect target username password p)) \<in> {peer_out p, peer_out p @ [byte 5, byte 1, byte 2]}"
  using assms by (auto simp: socks5_connect_def peer_defs split: nat.splits)

section \<open>Claims\<close>


fun sample_encode :: "ServerFrame \<Rightarrow> bytes" where
  "sample_encode ReserveKeepalive = ''keepalive''"
| "sample_encode (OpenProxy sid protocol) = ''open''"

definition sample_decode :: "bytes \<Rightarrow> ServerFrame option" where
  "sample_decode line =
     (if line = ''keepalive'' @ [newline] then Some ReserveKeepalive
      else if line = ''open'' @ [newline] then Some (OpenProxy 7 Http) else None)"

lemma sample_json_lines: "json_lines sample_encode sample_decode {ReserveKeepalive, OpenProxy 7 Http}"
  by (simp add: json_lines_def sample_decode_def is_ascii_def in_range_def newline_def MAX_LINE_LENGTH_def)


text \<open>
  A reserved stream that is activated, after any number of keepalives, is
  connected to the phone's address for the requested protocol, and every byte
  that follows the activation frame, also one that arrived in the same buffer, is
  handed to that connection.
\<close>

theorem activation_hands_over_early_bytes:
  assumes "json_lines encode decode {ReserveKeepalive, OpenProxy sid protocol}"
    and "concat bufs = concat (map (write_frame encode) (replicate k ReserveKeepalive)) @ write_frame encode (OpenProxy sid protocol) @ early"
    and "reachable (local_proxy_addr_for config protocol)"
  shows "\<exists>data. open_tcp_reserved_stream decode config reachable e bufs
      = Ready \<lparr>local_addr = local_proxy_addr_for config protocol, local_data = data\<rparr> \<and> concat data = early"
  using await_written_activation [OF assms(1,2), of e] assms(3) by (auto simp: open_tcp_reserved_stream_def)

definition sample_config :: ReverseTunnelClientConfig where
  "sample_config =
     \<lparr>cfg_node_id = ''phone'', cfg_server_addr = SocketV4 0x0A000001 443, cfg_tcp_fallback_addr = None,
      cfg_local_proxy_addr = SocketV4 0x7F000001 1080, cfg_local_socks5_addr = None, cfg_local_http_addr = Some (SocketV4 0x7F000001 3128),
      cfg_quic_enabled = True, cfg_transport_socks5 = None, cfg_auth_token = ''token'',
      cfg_transport = TransportHybrid ''relay'' [] None, cfg_connect_timeout = 2000, cfg_heartbeat_interval = 2000,
      cfg_reconnect_floor = 1000, cfg_reconnect_ceiling = 30000\<rparr>"

theorem activation_hands_over_early_bytes_witness:
  "\<exists>data. open_tcp_reserved_stream sample_decode sample_config (\<lambda>_. True) StillOpen
       [''keepalive'' @ [newline], ''open'' @ [newline] @ ''GET'', '' /'']
     = Ready \<lparr>local_addr = SocketV4 0x7F000001 3128, local_data = data\<rparr> \<and> concat data = ''GET /''"
  using activation_hands_over_early_bytes [of sample_encode sample_decode 7 Http
      "[''keepalive'' @ [newline], ''open'' @ [newline] @ ''GET'', '' /'']" 1 "''GET /''" "\<lambda>_. True" sample_config StillOpen] sample_json_lines
  by (simp add: write_frame_def sample_config_def local_proxy_addr_for_def)

text \<open>
  The SOCKS5 client connects exactly with usable credentials and a server
  that accepts method, credentials and request in turn.  It has then written the
  greeting, the credentials and the request, and read exactly the server's reply,
  so that the first byte of the tunnelled connection is not lost.  A server that
  does not choose the password method never sees the credentials.
\<close>

theorem socks5_connect_exact:
  "(socks5_connect target username password p = (Inr (), p') \<longleftrightarrow>
      valid_credentials username password \<and> 3 \<le> peer_writes p \<and> socks5_accepts (peer_in p) (peer_in p')
      \<and> peer_out p' = peer_out p @ [byte 5, byte 1, byte 2] @ socks5_auth username password @ socks5_request target
      \<and> peer_writes p' = peer_writes p - 3)
   \<and> (take 2 (peer_in p) = [byte 5, byte 2]
      \<or> peer_out (snd (socks5_connect target username password p)) \<in> {peer_out p, peer_out p @ [byte 5, byte 1, byte 2]})"
  using socks5_connect_Inr [of target username password p p'] socks5_credentials_withheld [of p target username password] by blast

text \<open>
  Reading a line is not safe to cancel.  When only a part of a line has
  arrived and the wait is abandoned for a heartbeat or an outgoing frame, that
  part is lost: the next read returns the rest as if it were the line.
\<close>

theorem cancelled_read_loses_bytes:
  assumes "newline \<notin> set part" "is_ascii (part @ line_of later)" "length (part @ line_of later) \<le> MAX_LINE_LENGTH" "has_line later"
  shows "read_optional_line StillOpen [part] = (WouldBlock, [])
    \<and> fst (read_optional_line StillOpen [later]) = Ready (Some (line_of later))
    \<and> fst (read_optional_line StillOpen [part, later]) = Ready (Some (part @ line_of later))"
proof -
  have "line_of part = part" using assms(1) line_of_append [of part "[]"] by (simp add: has_line_def line_of_def)
  then have part: "scan_chunk part = (part, False)" using assms(1)
    by (metis has_line_def line_of_def prod.collapse scan_chunk_found)
  have later: "scan_chunk later = (line_of later, True)" using assms(4) by (metis line_of_def prod.collapse scan_chunk_found)
  show ?thesis using assms(2,3) by (simp add: read_optional_line_def part later ascii_utf8)
qed

theorem cancelled_read_loses_bytes_witness:
  "read_optional_line StillOpen [''keep''] = (WouldBlock, [])
    \<and> fst (read_optional_line StillOpen [''alive'' @ [newline]]) = Ready (Some (''alive'' @ [newline]))
    \<and> fst (read_optional_line StillOpen [''keep'', ''alive'' @ [newline]]) = Ready (Some (''keepalive'' @ [newline]))"
proof -
  have l: "line_of (''alive'' @ [newline]) = ''alive'' @ [newline]" "has_line (''alive'' @ [newline])"
    by (simp_all add: line_of_def has_line_def newline_def)
  show ?thesis
    using cancelled_read_loses_bytes [of "''keep''" "''alive'' @ [newline]", unfolded l(1)] l(2)
    by (simp add: is_ascii_def in_range_def newline_def MAX_LINE_LENGTH_def)
qed

end
