(* ===== verification/Tunnel_Server.thy ===== *)
theory Tunnel_Server
  imports Tunnel_Routing Tunnel_Wire
begin

text \<open>
  Model of the relay's side of \<open>crates/reverse-tunnel/src/tunnel.rs\<close>: what a
  connection of a phone does to the registry from its first frame to its end, over
  TCP and over QUIC, and how a public proxy client is forwarded.  A connection is a
  script of what its \<open>select!\<close> sees; \<open>others\<close> is what the other tasks do to the
  registry in between.
\<close>

section \<open>Connections of phones\<close>

record ReverseTunnelServerConfig =
  server_auth_token :: string
  server_transport :: TunnelTransport

type_synonym others = "ServerState \<Rightarrow> ServerState"

datatype ServerEvent =
    FrameSent "string option"
  | ControlChannelClosed
  | FrameReceived "ClientFrame option Read" instant others

datatype ServerError =
    Failed string | Rejected TcpProxyStreamRejection | ReserveFailed ReserveError

definition authenticated :: "ReverseTunnelServerConfig \<Rightarrow> string \<Rightarrow> bool" where
  "authenticated config token = (token = server_auth_token config)"

text \<open>One frame of an established session: continue, or leave the loop with a result.\<close>

definition session_frame :: "uuid \<Rightarrow> ClientFrame option Read \<Rightarrow> instant \<Rightarrow> others \<Rightarrow> ServerState \<Rightarrow> (ServerError + unit) option \<times> ServerState" where
  "session_frame aid incoming now between s =
     (case incoming of
        Ready (Some (Heartbeat hb)) \<Rightarrow> (None, mark_heartbeat between hb aid now s)
      | Ready (Some _) \<Rightarrow> (Some (Inl (Failed ''unexpected repeated hello on reverse tunnel session'')), s)
      | Ready None \<Rightarrow> (Some (Inr ()), s)
      | ReadError m \<Rightarrow> (Some (Inl (Failed m)), s)
      | WouldBlock \<Rightarrow> (None, s))"

fun tcp_session_loop :: "uuid \<Rightarrow> (others \<times> ServerEvent) list \<Rightarrow> ServerState \<Rightarrow> (ServerError + unit) option \<times> ServerState" where
  "tcp_session_loop aid [] s = (None, s)"
| "tcp_session_loop aid ((others, FrameSent failure) # es) s =
     (case failure of None \<Rightarrow> tcp_session_loop aid es (others s) | Some m \<Rightarrow> (Some (Inl (Failed m)), others s))"
| "tcp_session_loop aid ((others, ControlChannelClosed) # es) s = (Some (Inr ()), others s)"
| "tcp_session_loop aid ((others, FrameReceived incoming now between) # es) s =
     (case session_frame aid incoming now between (others s) of
        (None, s1) \<Rightarrow> tcp_session_loop aid es s1
      | (Some r, s1) \<Rightarrow> (Some r, s1))"

definition handle_server_connection ::
  "ReverseTunnelServerConfig \<Rightarrow> ClientFrame Read \<Rightarrow> handle \<Rightarrow> handle \<Rightarrow> uuid \<Rightarrow> instant \<Rightarrow> others
   \<Rightarrow> (others \<times> ServerEvent) list \<Rightarrow> ServerState \<Rightarrow> (ServerError + unit) option \<times> ServerState" where
  "handle_server_connection config first stream control aid now between script s =
     (case first of
        WouldBlock \<Rightarrow> (Some (Inl (Failed ''reverse tunnel first frame timed out'')), s)
      | ReadError m \<Rightarrow> (Some (Inl (Failed m)), s)
      | Ready (ProxyStream node sid stream_id token) \<Rightarrow>
          if \<not> authenticated config token then (Some (Inl (Failed ''reverse tunnel proxy stream authentication failed'')), s)
          else (case accept_tcp_proxy_stream node sid stream_id stream now s of
                  (Inl e, s1) \<Rightarrow> (Some (Inl (Rejected e)), s1) | (Inr _, s1) \<Rightarrow> (Some (Inr ()), s1))
      | Ready (ProxyReserve node sid token) \<Rightarrow>
          if \<not> authenticated config token then (Some (Inl (Failed ''reverse tunnel reserved stream authentication failed'')), s)
          else (case register_reserved_tcp_stream between node sid stream s of
                  (Inl e, s1) \<Rightarrow> (Some (Inl (ReserveFailed e)), s1) | (Inr _, s1) \<Rightarrow> (Some (Inr ()), s1))
      | Ready (Heartbeat _) \<Rightarrow> (Some (Inl (Failed ''reverse tunnel connection did not start with hello'')), s)
      | Ready (Hello hello) \<Rightarrow>
          if \<not> authenticated config (hello_auth_token hello) then (Some (Inl (Failed ''reverse tunnel authentication failed'')), s)
          else (case tcp_session_loop aid script (snd (mark_connected hello (AuthorityTcp control) aid now s)) of
                  (None, s1) \<Rightarrow> (None, s1)
                | (Some r, s1) \<Rightarrow> (Some r, mark_disconnected hello aid s1)))"

fun quic_session_loop :: "TunnelHello \<Rightarrow> uuid \<Rightarrow> (others \<times> ServerEvent) list \<Rightarrow> ServerState \<Rightarrow> (ServerError + unit) option \<times> ServerState" where
  "quic_session_loop hello aid [] s = (None, s)"
| "quic_session_loop hello aid ((others, FrameReceived incoming now between) # es) s =
     (case incoming of
        Ready (Some (Heartbeat hb)) \<Rightarrow> quic_session_loop hello aid es (mark_heartbeat between hb aid now (others s))
      | Ready (Some _) \<Rightarrow> (Some (Inl (Failed ''unexpected repeated hello on reverse tunnel session'')), others s)
      | Ready None \<Rightarrow> (Some (Inr ()), mark_disconnected hello aid (others s))
      | ReadError m \<Rightarrow> (Some (Inl (Failed m)), mark_disconnected hello aid (others s))
      | WouldBlock \<Rightarrow> quic_session_loop hello aid es (others s))"
| "quic_session_loop hello aid ((others, _) # es) s = quic_session_loop hello aid es (others s)"

definition handle_quic_control_stream ::
  "ReverseTunnelServerConfig \<Rightarrow> ClientFrame Read \<Rightarrow> handle \<Rightarrow> uuid \<Rightarrow> instant \<Rightarrow> (others \<times> ServerEvent) list \<Rightarrow> ServerState
   \<Rightarrow> (ServerError + unit) option \<times> ServerState" where
  "handle_quic_control_stream config first connection aid now script s =
     (case first of
        WouldBlock \<Rightarrow> (None, s)
      | ReadError m \<Rightarrow> (Some (Inl (Failed m)), s)
      | Ready (Hello hello) \<Rightarrow>
          if \<not> authenticated config (hello_auth_token hello) then (Some (Inl (Failed ''reverse tunnel authentication failed'')), s)
          else quic_session_loop hello aid script (snd (mark_connected hello (AuthorityQuic connection) aid now s))
      | Ready _ \<Rightarrow> (Some (Inl (Failed ''reverse tunnel connection did not start with hello'')), s))"

section \<open>Public proxy clients\<close>

datatype Forwarded =
    AnsweredOffline bytes
  | ForwardedQuic handle ServerFrame
  | ForwardedTcp handle
  | ForwardFailed string
  | ForwardRefused OpenError

definition forward_tcp_over_quic ::
  "OpenEnv \<Rightarrow> string option \<Rightarrow> string option \<Rightarrow> uuid \<Rightarrow> instant \<Rightarrow> ActiveSessionTarget \<Rightarrow> ProxyProtocol \<Rightarrow> ServerState \<Rightarrow> Forwarded \<times> ServerState" where
  "forward_tcp_over_quic env open_failure write_failure stream_id now target protocol s =
     (case active_connection_for_target target now s of
        (None, s1) \<Rightarrow>
          (case open_tcp_proxy_for_target env target protocol s1 of
             (Inl e, s2) \<Rightarrow> (ForwardRefused e, s2) | (Inr h, s2) \<Rightarrow> (ForwardedTcp h, s2))
      | (Some connection, s1) \<Rightarrow>
          (case (open_failure, write_failure) of
             (None, None) \<Rightarrow> (ForwardedQuic connection (OpenProxy stream_id protocol), s1)
           | (Some m, _) \<Rightarrow> (ForwardFailed ''failed to open reverse tunnel proxy stream'', s1)
           | (None, Some m) \<Rightarrow> (ForwardFailed m, s1)))"

text \<open>One connection of \<open>run_quic_tcp_forward_listener\<close>.\<close>

definition forward_client ::
  "OpenEnv \<Rightarrow> string option \<Rightarrow> string option \<Rightarrow> uuid \<Rightarrow> instant \<Rightarrow> instant \<Rightarrow> others \<Rightarrow> char option \<Rightarrow> string option \<Rightarrow> ProxyProtocol
   \<Rightarrow> ServerState \<Rightarrow> Forwarded \<times> ServerState" where
  "forward_client env open_failure write_failure stream_id now now' between peeked target_node protocol s =
     (let response_protocol = resolve_proxy_protocol peeked protocol in
      case select_active_target target_node now s of
        (None, s1) \<Rightarrow> (AnsweredOffline (unavailable_response response_protocol), s1)
      | (Some target, s1) \<Rightarrow> forward_tcp_over_quic env open_failure write_failure stream_id now' target protocol (between s1))"

section \<open>Authentication\<close>

fun frame_token :: "ClientFrame \<Rightarrow> string option" where
  "frame_token (Hello h) = Some (hello_auth_token h)"
| "frame_token (ProxyStream n sid i t) = Some t"
| "frame_token (ProxyReserve n sid t) = Some t"
| "frame_token (Heartbeat hb) = None"

definition carries_token :: "ReverseTunnelServerConfig \<Rightarrow> ClientFrame Read \<Rightarrow> bool" where
  "carries_token config first = (case first of Ready f \<Rightarrow> frame_token f = Some (server_auth_token config) | _ \<Rightarrow> False)"

lemma tcp_unauthenticated:
  "\<not> carries_token config first \<Longrightarrow>
     \<exists>e. handle_server_connection config first stream control aid now between script s = (Some (Inl e), s)"
  by (auto simp: handle_server_connection_def carries_token_def authenticated_def split: Read.splits ClientFrame.splits)

lemma quic_unauthenticated:
  "\<not> carries_token config first \<Longrightarrow> snd (handle_quic_control_stream config first connection aid now script s) = s"
  by (auto simp: handle_quic_control_stream_def carries_token_def authenticated_def split: Read.splits ClientFrame.splits)

section \<open>The end of a session\<close>

definition routable :: "ServerState \<Rightarrow> string \<Rightarrow> uuid \<Rightarrow> uuid \<Rightarrow> bool" where
  "routable s node sid aid = (session_current s node sid \<and> authority_current s node sid aid)"

lemma target_active_routable: "target_active s now t \<Longrightarrow> routable s (target_node_id t) (target_session_id t) (target_authority_id t)"
  using fresh_authority_current by (auto simp: target_active_def routable_def Let_def)

lemma mark_disconnected_unroutable: "\<not> routable (mark_disconnected hello aid s) (hello_node_id hello) (hello_session_id hello) aid"
proof (cases "routable s (hello_node_id hello) (hello_session_id hello) aid")
  case False
  then show ?thesis by (auto simp: mark_disconnected_def disconnect_session_authority_def routable_def)
next
  case True
  then show ?thesis
    by (auto simp: mark_disconnected_def disconnect_session_authority_def routable_def authority_current_def close_quic_def Let_def
        delete_conv split: prod.splits option.splits)
qed

lemma mark_connected_routable:
  "routable (snd (mark_connected hello authority aid now s)) (hello_node_id hello) (hello_session_id hello) aid"
  by (simp add: mark_connected_def routable_def session_current_def authority_current_def replace_fields)

section \<open>An authority belongs to one session\<close>

definition authority_unique :: "uuid list \<times> ServerState \<Rightarrow> bool" where
  "authority_unique w =
     (\<forall>n sid aid. authority_current (snd w) n sid aid \<longrightarrow>
        aid \<in> set (fst w) \<and> (\<forall>m sid'. authority_current (snd w) m sid' aid \<longrightarrow> m = n \<and> sid' = sid))"

lemma authority_unique_less:
  assumes "authority_unique w" "fst w' = fst w" "\<And>n sid aid. authority_current (snd w') n sid aid \<Longrightarrow> authority_current (snd w) n sid aid"
  shows "authority_unique w'"
  using assms unfolding authority_unique_def by metis

lemma step_unique:
  assumes "server_step w p w'" "server_inv (snd w)" "authority_unique w"
  shows "authority_unique w'"
  using assms(1)
proof cases
  case (step_replace aid' issued s m sid' a now)
  have cur: "authority_current (snd w') n sid aid \<longleftrightarrow>
      (if n = m then sid = sid' \<and> aid = aid' else authority_current s n sid aid)" for n sid aid
    using step_replace by (auto simp: authority_current_def replace_fields)
  have "fst w' = aid' # fst w" "snd w = s" "aid' \<notin> set (fst w)" using step_replace by simp_all
  then show ?thesis using assms(3) unfolding authority_unique_def cur by (auto split: if_splits)
next
  case (step_other issued s)
  then have "shrinks (server_op s p) s \<or> session_liveness (server_op s p) = session_liveness s"
    using server_op_cases_shrink [of s p] assms(2) by (auto simp: insert_pending_keeps)
  then have less: "authority_current (server_op s p) n sid aid \<Longrightarrow> authority_current s n sid aid" for n sid aid
    using authority_current_shrinks [of "server_op s p" s] by (auto simp: authority_current_def simp del: server_op.simps)
  show ?thesis using authority_unique_less [OF assms(3), of w'] step_other less by (simp del: server_op.simps)
qed

lemma reach_unique: "server_reach w \<Longrightarrow> authority_unique w"
proof (induction rule: server_reach.induct)
  case reach_init
  then show ?case by (simp add: authority_unique_def authority_current_def ServerState_default_def)
next
  case (reach_step w p w')
  then show ?case using step_unique server_reach_inv by blast
qed

section \<open>Claims\<close>


definition sample_hello :: "string \<Rightarrow> TunnelHello" where
  "sample_hello token = \<lparr>hello_node_id = ''phone'', hello_session_id = 1, protocol_version = 1, hello_auth_token = token\<rparr>"

definition sample_server :: ReverseTunnelServerConfig where
  "sample_server = \<lparr>server_auth_token = ''token'', server_transport = TransportTcp\<rparr>"




text \<open>
  A heartbeat acts only on the session of the connection it arrives on.  A
  phone that names another node or another session in its heartbeats changes
  nothing, in every reachable registry.
\<close>

theorem heartbeat_acts_on_own_session:
  assumes "server_reach w" "authority_current (snd w) n sid aid" "(heartbeat_node_id hb, heartbeat_session_id hb) \<noteq> (n, sid)"
  shows "mark_heartbeat between hb aid now (snd w) = snd w"
proof -
  have "\<not> authority_current (snd w) (heartbeat_node_id hb) (heartbeat_session_id hb) aid"
    using reach_unique [OF assms(1)] assms(2,3) unfolding authority_unique_def by blast
  then show ?thesis by (simp add: mark_heartbeat_def)
qed

theorem heartbeat_acts_on_own_session_witness:
  "mark_heartbeat id \<lparr>heartbeat_node_id = ''other'', heartbeat_session_id = 1, heartbeat_sequence = 9\<rparr> 2 50 tcp_registry = tcp_registry"
  using heartbeat_acts_on_own_session [OF tcp_registry_reach, of "''phone''" 1 2
      "\<lparr>heartbeat_node_id = ''other'', heartbeat_session_id = 1, heartbeat_sequence = 9\<rparr>" id 50]
  by (simp add: authority_current_def tcp_registry_eval)

text \<open>
  A QUIC control stream that receives a second hello ends with an error but,
  unlike every other end of a session, leaves the session connected and current in
  the registry.
\<close>

theorem repeated_hello_leaves_quic_session:
  assumes "authenticated config (hello_auth_token hello)"
  shows "\<exists>e s'. handle_quic_control_stream config (Ready (Hello hello)) connection aid now
        [(id, FrameReceived (Ready (Some (Hello hello))) now' between)] s = (Some (Inl e), s')
    \<and> routable s' (hello_node_id hello) (hello_session_id hello) aid"
  using assms mark_connected_routable by (simp add: handle_quic_control_stream_def)

theorem repeated_hello_leaves_quic_session_witness:
  "\<exists>e s'. handle_quic_control_stream sample_server (Ready (Hello (sample_hello ''token''))) 5 3 0
        [(id, FrameReceived (Ready (Some (Hello (sample_hello ''token'')))) 1 id)] ServerState_default = (Some (Inl e), s')
    \<and> routable s' ''phone'' 1 3"
  using repeated_hello_leaves_quic_session [of sample_server "sample_hello ''token''" 5 3 0 1 id ServerState_default]
  by (simp add: authenticated_def sample_server_def sample_hello_def)

text \<open>
  A public client is told that the phone is offline exactly when no session
  is selected for it, in the protocol it speaks; over QUIC it is forwarded only on
  the open connection of the selected session, with its own protocol.
\<close>

theorem client_forwarded_to_selected_session:
  "(case forward_client env open_failure write_failure stream_id now now' between peeked node protocol s of
      (AnsweredOffline response, s') \<Rightarrow>
        fst (select_active_target node now s) = None \<and> response = unavailable_response (resolve_proxy_protocol peeked protocol)
    | (ForwardedQuic h frame, s') \<Rightarrow>
        (\<exists>t. fst (select_active_target node now s) = Some t \<and> frame = OpenProxy stream_id protocol
          \<and> (let s1 = between (snd (select_active_target node now s)) in
              target_active s1 now' t \<and> quic_bound s1 (target_node_id t) (target_session_id t) (target_authority_id t) = Some h
              \<and> h \<notin> set (quic_closed s1)))
    | (_, s') \<Rightarrow> fst (select_active_target node now s) \<noteq> None)"
proof -
  obtain sel s1 where sel: "select_active_target node now s = (sel, s1)" by fastforce
  show ?thesis
  proof (cases sel)
    case None
    then show ?thesis by (simp add: forward_client_def sel)
  next
    case (Some t)
    obtain h s2 where h: "active_connection_for_target t now' (between s1) = (h, s2)" by fastforce
    have "h = Some x \<Longrightarrow> target_active (between s1) now' t
        \<and> quic_bound (between s1) (target_node_id t) (target_session_id t) (target_authority_id t) = Some x \<and> x \<notin> set (quic_closed (between s1))" for x
      using h by (auto simp: active_connection_for_target_def Let_def target_active_def quic_active_def split: if_splits option.splits)
    then show ?thesis using sel Some h
      by (auto simp: forward_client_def forward_tcp_over_quic_def Let_def split: prod.splits option.splits sum.splits)
  qed
qed

end
