(* ===== verification/Text_Tools.thy ===== *)
theory Text_Tools
  imports Prelude
begin

text \<open>
  Text operations of the Rust standard library on UTF-8 bytes that several
  components use: splitting, searching, lines, white space, control characters and
  ASCII case.
\<close>

fun split_on :: "char \<Rightarrow> string \<Rightarrow> string list" where
  "split_on c [] = [[]]"
| "split_on c (x # xs) =
     (if x = c then [] # split_on c xs
      else case split_on c xs of w # ws \<Rightarrow> (x # w) # ws | [] \<Rightarrow> [[x]])"

definition starts_with :: "string \<Rightarrow> string \<Rightarrow> bool" where
  "starts_with prefix s = (strip_prefix prefix s \<noteq> None)"

definition ends_with :: "string \<Rightarrow> string \<Rightarrow> bool" where
  "ends_with suffix s = starts_with (rev suffix) (rev s)"

fun contains :: "string \<Rightarrow> string \<Rightarrow> bool" where
  "contains needle [] = (needle = [])"
| "contains needle (c # cs) = (starts_with needle (c # cs) \<or> contains needle cs)"

text \<open>The text after the first occurrence of a separator: the second part of \<open>split\<close>, up to its next occurrence.\<close>

fun after_first :: "string \<Rightarrow> string \<Rightarrow> string option" where
  "after_first sep [] = strip_prefix sep []"
| "after_first sep (c # cs) = (case strip_prefix sep (c # cs) of Some rest \<Rightarrow> Some rest | None \<Rightarrow> after_first sep cs)"

fun up_to :: "string \<Rightarrow> string \<Rightarrow> string" where
  "up_to sep [] = []"
| "up_to sep (c # cs) = (if starts_with sep (c # cs) then [] else c # up_to sep cs)"

definition strip_cr :: "string \<Rightarrow> string" where
  "strip_cr l = (if l \<noteq> [] \<and> last l = CHR 0x0D then butlast l else l)"

definition text_lines :: "string \<Rightarrow> string list" where
  "text_lines s =
     (let ls = split_on (CHR 0x0A) s in
      map strip_cr (if last ls = [] then butlast ls else ls))"

text \<open>\<open>char::is_control\<close>: the ASCII controls and \<open>U+0080\<close> to \<open>U+009F\<close>.\<close>

fun any_control :: "bytes \<Rightarrow> bool" where
  "any_control [] = False"
| "any_control (c # cs) =
     (is_ascii_control c \<or> (of_char c = (194 :: nat) \<and> 128 \<le> byte_at cs 0 \<and> byte_at cs 0 \<le> 159) \<or> any_control cs)"

definition to_ascii_lowercase :: "string \<Rightarrow> string" where
  "to_ascii_lowercase = map (\<lambda>c. if is_ascii_upper c then char_of (of_char c + 32 :: nat) else c)"

text \<open>\<open>split_whitespace\<close>, with the bytes of the word being read.\<close>

function words_from :: "bytes \<Rightarrow> bytes \<Rightarrow> bytes list" where
  "words_from word [] = (if word = [] then [] else [word])"
| "words_from word (c # cs) =
     (if leading_whitespace (c # cs) = 0 then words_from (word @ [c]) cs
      else (if word = [] then [] else [word]) @ words_from [] (drop (leading_whitespace (c # cs)) (c # cs)))"
  by pat_completeness auto
termination by (relation "measure (\<lambda>(w, bs). length bs)") auto

definition split_whitespace :: "bytes \<Rightarrow> bytes list" where
  "split_whitespace bs = words_from [] bs"

lemma split_on_nonempty [simp]: "split_on c s \<noteq> []"
  by (induction s) (auto split: list.split)

lemma split_on_no_sep: "w \<in> set (split_on c s) \<Longrightarrow> c \<notin> set w"
  by (induction s arbitrary: w) (auto split: list.splits if_splits)

lemma contains_refl [simp]: "contains s s"
  by (cases s) (simp_all add: starts_with_def strip_prefix_append [of _ "[]", simplified])

end
