(* ===== verification/Tunnel_Client.thy ===== *)
theory Tunnel_Client
  imports Tunnel_Wire Text_Tools
begin

text \<open>
  Model of the phone's side of \<open>crates/reverse-tunnel/src/tunnel.rs\<close>: the client
  loop with its back-off, the choice and failover of transports, the three session
  loops and the snapshots they publish.

  What the environment does is a script.  An \<open>Attempt\<close> says what one turn of the
  client loop meets: the shutdown flag it reads, how connecting ends, and which
  branch each \<open>select!\<close> of a session takes.  A script that ends while a session or
  a sleep is in progress leaves the client running.  Durations are milliseconds.
\<close>

section \<open>Errors\<close>

text \<open>An \<open>anyhow::Error\<close>: the outermost message (\<open>to_string\<close>) and the chain (\<open>{:#}\<close>).\<close>

record Anyhow =
  err_text :: string
  err_chain :: string

definition anyhow :: "string \<Rightarrow> Anyhow" where
  "anyhow m = \<lparr>err_text = m, err_chain = m\<rparr>"

definition with_context :: "string \<Rightarrow> string \<Rightarrow> Anyhow" where
  "with_context m cause = \<lparr>err_text = m, err_chain = m @ '': '' @ cause\<rparr>"

definition quic_failover_reason :: "Anyhow \<Rightarrow> TunnelFailoverReason" where
  "quic_failover_reason e =
     (if contains ''timed out'' (err_text e) then ConnectTimeout
      else if contains ''connect failed'' (err_text e) then ConnectFailed
      else if contains ''authentication'' (err_text e) then AuthenticationFailed
      else if contains ''closed'' (err_text e) then FailoverSessionClosed
      else FailoverSessionError)"

definition disconnect_reason :: "Anyhow \<Rightarrow> TunnelDisconnectReason" where
  "disconnect_reason e = (if contains ''closed'' (err_text e) then DisconnectSessionClosed else DisconnectSessionError)"

section \<open>Snapshots\<close>

definition mark_snapshot_connected :: "TunnelActiveTransport \<Rightarrow> bool \<Rightarrow> ClientSnapshot \<Rightarrow> ClientSnapshot" where
  "mark_snapshot_connected transport preserve_failover_reason s =
     s\<lparr>snap_connected := True, snap_last_error := None, snap_active_transport := Some transport, snap_freshness := Fresh,
       snap_last_failover_reason := (if preserve_failover_reason then snap_last_failover_reason s else None),
       snap_event_counters := record_connection transport (snap_event_counters s)\<rparr>"

definition disconnected :: "TunnelFreshness \<Rightarrow> ClientSnapshot \<Rightarrow> ClientSnapshot" where
  "disconnected freshness s = s\<lparr>snap_connected := False, snap_active_transport := None, snap_freshness := freshness\<rparr>"

text \<open>
  The client task: its snapshot, the snapshots it has published, the transports it
  dialled, the heartbeats it wrote, the proxy streams it opened and the delays it
  slept.
\<close>

record Client =
  cl_snapshot :: ClientSnapshot
  cl_published :: "ClientSnapshot list"
  cl_dialled :: "TunnelActiveTransport list"
  cl_heartbeats :: "u64 list"
  cl_opened :: "(uuid \<times> ProxyProtocol) list"
  cl_delays :: "nat list"

definition publish :: "(ClientSnapshot \<Rightarrow> ClientSnapshot) \<Rightarrow> Client \<Rightarrow> Client" where
  "publish f c = c\<lparr>cl_snapshot := f (cl_snapshot c), cl_published := cl_published c @ [f (cl_snapshot c)]\<rparr>"

definition dial :: "TunnelActiveTransport \<Rightarrow> Client \<Rightarrow> Client" where
  "dial t c = c\<lparr>cl_dialled := cl_dialled c @ [t]\<rparr>"

definition record_quic_failover :: "Anyhow \<Rightarrow> ClientSnapshot \<Rightarrow> ClientSnapshot" where
  "record_quic_failover e s =
     (disconnected FreshnessUnknown s)
       \<lparr>snap_last_failover_reason := Some (quic_failover_reason e),
        snap_event_counters := record_failover (quic_failover_reason e) (snap_event_counters s)\<rparr>"

section \<open>Connecting\<close>

datatype ConnectOutcome = Established | TimedOut string | Refused string | SetupError Anyhow

fun quic_connect_result :: "ConnectOutcome \<Rightarrow> Anyhow + unit" where
  "quic_connect_result Established = Inr ()"
| "quic_connect_result (TimedOut cause) = Inl (with_context ''QUIC connect timed out'' cause)"
| "quic_connect_result (Refused cause) = Inl (with_context ''QUIC connect failed'' cause)"
| "quic_connect_result (SetupError e) = Inl e"

fun tcp_connect_result :: "ConnectOutcome \<Rightarrow> Anyhow + unit" where
  "tcp_connect_result Established = Inr ()"
| "tcp_connect_result (TimedOut cause) = Inl (with_context ''connect timed out'' cause)"
| "tcp_connect_result (Refused cause) = Inl (with_context ''connect failed'' cause)"
| "tcp_connect_result (SetupError e) = Inl e"

datatype TlsOutcome =
  TlsEstablished | TlsSetupError Anyhow | TlsConnectTimedOut string | TlsConnectError Anyhow
  | TlsHandshakeTimedOut string | TlsHandshakeFailed string

fun tls_tcp_connect_result :: "TlsOutcome \<Rightarrow> Anyhow + unit" where
  "tls_tcp_connect_result TlsEstablished = Inr ()"
| "tls_tcp_connect_result (TlsSetupError e) = Inl e"
| "tls_tcp_connect_result (TlsConnectTimedOut cause) = Inl (with_context ''TLS/TCP connect timed out'' cause)"
| "tls_tcp_connect_result (TlsConnectError e) = Inl e"
| "tls_tcp_connect_result (TlsHandshakeTimedOut cause) = Inl (with_context ''TLS/TCP handshake timed out'' cause)"
| "tls_tcp_connect_result (TlsHandshakeFailed cause) = Inl (with_context ''TLS/TCP handshake failed'' cause)"

definition tls_tcp_connect :: "ReverseTunnelClientConfig \<Rightarrow> TlsOutcome \<Rightarrow> Anyhow + unit" where
  "tls_tcp_connect config outcome =
     (case cfg_transport config of
        TransportHybrid _ _ _ \<Rightarrow> tls_tcp_connect_result outcome
      | _ \<Rightarrow> Inl (anyhow ''TLS/TCP fallback requires hybrid transport''))"

definition tls_target :: "ReverseTunnelClientConfig \<Rightarrow> SocketAddr" where
  "tls_target config = (case cfg_tcp_fallback_addr config of Some a \<Rightarrow> a | None \<Rightarrow> cfg_server_addr config)"

text \<open>The connection under TLS: directly, or through the phone's own SOCKS5 proxy.\<close>

definition connect_transport_tcp ::
  "ReverseTunnelClientConfig \<Rightarrow> SocketAddr \<Rightarrow> (SocketAddr \<Rightarrow> string + Peer) \<Rightarrow> Anyhow + Peer" where
  "connect_transport_tcp config target connect =
     (case cfg_transport_socks5 config of
        None \<Rightarrow> (case connect target of Inl cause \<Rightarrow> Inl (with_context ''TCP connect failed'' cause) | Inr p \<Rightarrow> Inr p)
      | Some proxy \<Rightarrow>
          (case connect (socks5_server_addr proxy) of
             Inl cause \<Rightarrow> Inl (with_context ''transport SOCKS5 connect failed'' cause)
           | Inr p \<Rightarrow>
               (case socks5_connect target (socks5_username proxy) (socks5_password proxy) p of
                  (Inl m, _) \<Rightarrow> Inl (anyhow m)
                | (Inr _, p') \<Rightarrow> Inr p')))"

section \<open>Sessions\<close>

text \<open>The branch a \<open>select!\<close> of a session takes; \<open>ConnectionClosed\<close> is a branch of QUIC sessions only.\<close>

datatype SessionEvent =
    ShutdownChanged
  | LineRead "bytes option Read"
  | HeartbeatDue "Anyhow option"
  | ConnectionClosed string

datatype Line = OpenStream uuid ProxyProtocol | IgnoreLine | LineError Anyhow

fun pump ::
  "(bytes \<Rightarrow> Line) \<Rightarrow> Anyhow \<Rightarrow> bool \<Rightarrow> SessionEvent list \<Rightarrow> u64 \<Rightarrow> Client \<Rightarrow> (Anyhow + unit) option \<times> Client" where
  "pump on_line eof quic [] seq c = (None, c)"
| "pump on_line eof quic (ShutdownChanged # es) seq c = (Some (Inr ()), c)"
| "pump on_line eof quic (LineRead (ReadError m) # es) seq c = (Some (Inl (anyhow m)), c)"
| "pump on_line eof quic (LineRead WouldBlock # es) seq c = pump on_line eof quic es seq c"
| "pump on_line eof quic (LineRead (Ready None) # es) seq c = (Some (Inl eof), c)"
| "pump on_line eof quic (LineRead (Ready (Some line)) # es) seq c =
     (case on_line line of
        OpenStream sid protocol \<Rightarrow> pump on_line eof quic es seq (c\<lparr>cl_opened := cl_opened c @ [(sid, protocol)]\<rparr>)
      | IgnoreLine \<Rightarrow> pump on_line eof quic es seq c
      | LineError e \<Rightarrow> (Some (Inl e), c))"
| "pump on_line eof quic (HeartbeatDue (Some e) # es) seq c = (Some (Inl e), c)"
| "pump on_line eof quic (HeartbeatDue None # es) seq c =
     pump on_line eof quic es (seq + 1)
       (publish (\<lambda>s. s\<lparr>snap_sent_heartbeats := seq + 1\<rparr>) (c\<lparr>cl_heartbeats := cl_heartbeats c @ [seq + 1]\<rparr>))"
| "pump on_line eof quic (ConnectionClosed m # es) seq c =
     (if quic then (Some (Inl (anyhow (''QUIC connection closed: '' @ m))), c) else pump on_line eof quic es seq c)"

definition control_line :: "(bytes \<Rightarrow> ServerFrame option) \<Rightarrow> (bytes \<Rightarrow> Anyhow) \<Rightarrow> string \<Rightarrow> bytes \<Rightarrow> Line" where
  "control_line decode decode_error keepalive_error line =
     (case decode line of
        None \<Rightarrow> LineError (decode_error line)
      | Some (OpenProxy sid protocol) \<Rightarrow> OpenStream sid protocol
      | Some ReserveKeepalive \<Rightarrow> LineError (anyhow keepalive_error))"

text \<open>A session starts when the hello is written; it numbers its heartbeats after those of the sessions before.\<close>

definition run_session ::
  "TunnelActiveTransport \<Rightarrow> bool \<Rightarrow> (bytes \<Rightarrow> Line) \<Rightarrow> Anyhow \<Rightarrow> bool \<Rightarrow> SessionEvent list \<Rightarrow> Client \<Rightarrow> (Anyhow + unit) option \<times> Client" where
  "run_session transport preserve on_line eof quic events c =
     (let c1 = publish (mark_snapshot_connected transport preserve) c in
      pump on_line eof quic events (snap_sent_heartbeats (cl_snapshot c1)) c1)"

record Attempt =
  at_shutdown :: bool
  at_quic :: ConnectOutcome
  at_quic_events :: "SessionEvent list"
  at_tls :: TlsOutcome
  at_tls_events :: "SessionEvent list"
  at_tcp :: ConnectOutcome
  at_tcp_events :: "SessionEvent list"
  at_sleep :: "bool option"

definition connect_and_pump_quic :: "ReverseTunnelClientConfig \<Rightarrow> Attempt \<Rightarrow> Client \<Rightarrow> (Anyhow + unit) option \<times> Client" where
  "connect_and_pump_quic config a c =
     (if \<not> is_quic_first (cfg_transport config) then (Some (Inl (anyhow ''connect_and_pump_quic requires TunnelTransport::Quic'')), c)
      else case quic_connect_result (at_quic a) of
             Inl e \<Rightarrow> (Some (Inl e), dial Quic c)
           | Inr _ \<Rightarrow> run_session Quic False (\<lambda>_. IgnoreLine) (anyhow ''server closed reverse tunnel'') True (at_quic_events a) (dial Quic c))"

definition connect_and_pump_tls_tcp ::
  "(bytes \<Rightarrow> ServerFrame option) \<Rightarrow> (bytes \<Rightarrow> Anyhow) \<Rightarrow> ReverseTunnelClientConfig \<Rightarrow> Attempt \<Rightarrow> Client \<Rightarrow> (Anyhow + unit) option \<times> Client" where
  "connect_and_pump_tls_tcp decode decode_error config a c =
     (case tls_tcp_connect config (at_tls a) of
        Inl e \<Rightarrow> (Some (Inl e), dial TlsTcp c)
      | Inr _ \<Rightarrow> run_session TlsTcp True (control_line decode decode_error ''reserve keepalive received on TLS/TCP control channel'')
                     (anyhow ''TLS/TCP server closed reverse tunnel'') False (at_tls_events a) (dial TlsTcp c))"

definition connect_and_pump_tcp ::
  "(bytes \<Rightarrow> ServerFrame option) \<Rightarrow> (bytes \<Rightarrow> Anyhow) \<Rightarrow> Attempt \<Rightarrow> Client \<Rightarrow> (Anyhow + unit) option \<times> Client" where
  "connect_and_pump_tcp decode decode_error a c =
     (case tcp_connect_result (at_tcp a) of
        Inl e \<Rightarrow> (Some (Inl e), dial Tcp c)
      | Inr _ \<Rightarrow>
          run_session Tcp False
            (control_line decode (\<lambda>line. with_context ''failed to decode TCP reverse tunnel server frame'' (err_chain (decode_error line)))
               ''reserve keepalive received on TCP control channel'')
            (anyhow ''server closed reverse tunnel'') False (at_tcp_events a) (dial Tcp c))"

definition connect_and_pump ::
  "(bytes \<Rightarrow> ServerFrame option) \<Rightarrow> (bytes \<Rightarrow> Anyhow) \<Rightarrow> ReverseTunnelClientConfig \<Rightarrow> Attempt \<Rightarrow> Client \<Rightarrow> (Anyhow + unit) option \<times> Client" where
  "connect_and_pump decode decode_error config a c =
     (case cfg_transport config of
        TransportQuic _ _ _ \<Rightarrow> connect_and_pump_quic config a c
      | TransportHybrid _ _ _ \<Rightarrow>
          if \<not> cfg_quic_enabled config then connect_and_pump_tls_tcp decode decode_error config a c
          else (case connect_and_pump_quic config a c of
                  (None, c1) \<Rightarrow> (None, c1)
                | (Some (Inr _), c1) \<Rightarrow> (Some (Inr ()), c1)
                | (Some (Inl e), c1) \<Rightarrow>
                    connect_and_pump_tls_tcp decode decode_error config a (publish (record_quic_failover e) c1))
      | TransportTcp \<Rightarrow> connect_and_pump_tcp decode decode_error a c)"

section \<open>The client loop\<close>

definition next_backoff :: "nat \<Rightarrow> nat \<Rightarrow> nat" where
  "next_backoff current ceiling = min (current * 2) ceiling"

definition begin_client_attempt :: "ClientSnapshot \<Rightarrow> ClientSnapshot" where
  "begin_client_attempt s =
     (disconnected FreshnessUnknown s)\<lparr>snap_attempts := snap_attempts s + 1, snap_event_counters := begin_attempt (snap_event_counters s)\<rparr>"

text \<open>The snapshot after a session or a failed attempt.\<close>

definition end_client_attempt :: "TunnelDisconnectReason \<Rightarrow> string option \<Rightarrow> ClientSnapshot \<Rightarrow> ClientSnapshot" where
  "end_client_attempt reason error s =
     (disconnected Stale s)
       \<lparr>snap_last_error := error,
        snap_event_counters := (if snap_connected s then record_disconnect reason (snap_event_counters s) else snap_event_counters s)\<rparr>"

fun run_client_loop ::
  "(bytes \<Rightarrow> ServerFrame option) \<Rightarrow> (bytes \<Rightarrow> Anyhow) \<Rightarrow> ReverseTunnelClientConfig \<Rightarrow> Attempt list \<Rightarrow> nat \<Rightarrow> Client \<Rightarrow> bool \<times> Client" where
  "run_client_loop decode decode_error config [] backoff c = (False, c)"
| "run_client_loop decode decode_error config (a # as) backoff c =
     (if at_shutdown a then (True, publish (disconnected Stale) c)
      else
        case connect_and_pump decode decode_error config a (publish begin_client_attempt c) of
          (None, c1) \<Rightarrow> (False, c1)
        | (Some (Inr _), c1) \<Rightarrow>
            run_client_loop decode decode_error config as (cfg_reconnect_floor config) (publish (end_client_attempt Shutdown None) c1)
        | (Some (Inl e), c1) \<Rightarrow>
            (let had_connected_session = snap_connected (cl_snapshot c1);
                 c2 = publish (end_client_attempt (disconnect_reason e) (Some (err_chain e))) c1;
                 delay = (if had_connected_session then cfg_reconnect_floor config else backoff);
                 c3 = c2\<lparr>cl_delays := cl_delays c2 @ [delay]\<rparr> in
             case at_sleep a of
               None \<Rightarrow> (False, c3)
             | Some True \<Rightarrow> (True, c3)
             | Some False \<Rightarrow> run_client_loop decode decode_error config as (next_backoff delay (cfg_reconnect_ceiling config)) c3))"

definition client_start :: "uuid \<Rightarrow> TunnelEventCounters \<Rightarrow> Client" where
  "client_start sid counters =
     \<lparr>cl_snapshot = ClientSnapshot_with_event_counters sid counters, cl_published = [], cl_dialled = [], cl_heartbeats = [],
      cl_opened = [], cl_delays = []\<rparr>"

definition run_client_with_counters ::
  "(bytes \<Rightarrow> ServerFrame option) \<Rightarrow> (bytes \<Rightarrow> Anyhow) \<Rightarrow> ReverseTunnelClientConfig \<Rightarrow> uuid \<Rightarrow> TunnelEventCounters \<Rightarrow> Attempt list \<Rightarrow> bool \<times> Client" where
  "run_client_with_counters decode decode_error config sid counters script =
     run_client_loop decode decode_error config script (cfg_reconnect_floor config) (client_start sid counters)"

end
