(* ===== verification/Tunnel_Client_Inv.thy ===== *)
theory Tunnel_Client_Inv
  imports Tunnel_Client
begin

text \<open>
  What holds of the tunnel client under every script: the locale
  \<open>client_invariant\<close> lists the elementary changes the client makes to its record
  and proves once that a property kept by each of them is kept by the whole loop;
  it is interpreted for the published snapshots and for the heartbeat numbers.
\<close>

section \<open>Invariants of the client\<close>

lemma publish_simps [simp]:
  "cl_snapshot (publish f c) = f (cl_snapshot c)" "cl_published (publish f c) = cl_published c @ [f (cl_snapshot c)]"
  "cl_dialled (publish f c) = cl_dialled c" "cl_delays (publish f c) = cl_delays c" "cl_heartbeats (publish f c) = cl_heartbeats c"
  by (simp_all add: publish_def)

lemma attempt_outcomes:
  fixes r :: "(Anyhow + unit) option" and a :: Attempt
  obtains (stop) "at_shutdown a" | (pending) "\<not> at_shutdown a" "r = None" | (ended) "\<not> at_shutdown a" "r = Some (Inr ())"
    | (failed) e where "\<not> at_shutdown a" "r = Some (Inl e)"
  by (cases r; cases "the r") auto

locale client_invariant =
  fixes P :: "Client \<Rightarrow> bool"
  assumes begin_kept: "P c \<Longrightarrow> P (publish begin_client_attempt c)"
    and mark_kept: "P c \<Longrightarrow> P (publish (mark_snapshot_connected t keep) c)"
    and failover_kept: "P c \<Longrightarrow> P (publish (record_quic_failover e) c)"
    and finish_kept: "P c \<Longrightarrow> P (publish (end_client_attempt r m) c)"
    and stop_kept: "P c \<Longrightarrow> P (publish (disconnected Stale) c)"
    and beat_kept: "P c \<Longrightarrow> n = snap_sent_heartbeats (cl_snapshot c) + 1 \<Longrightarrow>
      P (publish (\<lambda>s. s\<lparr>snap_sent_heartbeats := n\<rparr>) (c\<lparr>cl_heartbeats := cl_heartbeats c @ [n]\<rparr>))"
    and dial_kept: "P c \<Longrightarrow> P (dial t c)"
    and open_kept: "P c \<Longrightarrow> P (c\<lparr>cl_opened := os\<rparr>)"
    and delay_kept: "P c \<Longrightarrow> P (c\<lparr>cl_delays := ds\<rparr>)"
begin

lemma pump_kept:
  "P c \<Longrightarrow> seq = snap_sent_heartbeats (cl_snapshot c) \<Longrightarrow> P (snd (pump on_line eof quic es seq c))"
  by (induction on_line eof quic es seq c rule: pump.induct)
    (simp_all add: open_kept beat_kept split: Line.split)

lemma session_kept: "P c \<Longrightarrow> P (snd (run_session t keep on_line eof quic es c))"
  by (simp add: run_session_def Let_def pump_kept mark_kept)

lemma quic_kept: "P c \<Longrightarrow> P (snd (connect_and_pump_quic config a c))"
  by (cases "quic_connect_result (at_quic a)") (simp_all add: connect_and_pump_quic_def dial_kept session_kept)

lemma tls_kept: "P c \<Longrightarrow> P (snd (connect_and_pump_tls_tcp decode decode_error config a c))"
  by (cases "tls_tcp_connect config (at_tls a)") (simp_all add: connect_and_pump_tls_tcp_def dial_kept session_kept)

lemma tcp_kept: "P c \<Longrightarrow> P (snd (connect_and_pump_tcp decode decode_error a c))"
  by (cases "tcp_connect_result (at_tcp a)") (simp_all add: connect_and_pump_tcp_def dial_kept session_kept)

lemma attempt_kept:
  assumes "P c"
  shows "P (snd (connect_and_pump decode decode_error config a c))"
proof (cases "cfg_transport config")
  case TransportTcp
  then show ?thesis using assms by (simp add: connect_and_pump_def tcp_kept)
next
  case (TransportQuic n cert key)
  then show ?thesis using assms by (simp add: connect_and_pump_def quic_kept)
next
  case (TransportHybrid n cert key)
  obtain r c1 where r: "connect_and_pump_quic config a c = (r, c1)" by fastforce
  then have "P c1" using quic_kept [OF assms, of config a] by simp
  then show ?thesis using assms TransportHybrid r
    by (simp add: connect_and_pump_def tls_kept failover_kept split: option.split sum.split)
qed

lemma loop_kept: "P c \<Longrightarrow> P (snd (run_client_loop decode decode_error config as backoff c))"
proof (induction as arbitrary: backoff c)
  case Nil
  then show ?case by simp
next
  case (Cons a as)
  obtain r c1 where r: "connect_and_pump decode decode_error config a (publish begin_client_attempt c) = (r, c1)" by fastforce
  have c1: "P c1" using attempt_kept [OF begin_kept [OF Cons.prems], of decode decode_error config a] r by simp
  show ?case
    by (rule attempt_outcomes [where a = a and r = r]) (simp_all add: r Cons.prems Cons.IH c1 Let_def finish_kept delay_kept stop_kept split: option.split bool.split)
qed

lemma client_kept: "P (client_start sid counters) \<Longrightarrow> P (snd (run_client_with_counters decode decode_error config sid counters script))"
  by (simp add: run_client_with_counters_def loop_kept)

end

section \<open>Published snapshots\<close>

definition snapshot_ok :: "uuid \<Rightarrow> ClientSnapshot \<Rightarrow> bool" where
  "snapshot_ok sid s =
     (snap_session_id s = sid \<and> (snap_connected s \<longleftrightarrow> snap_active_transport s \<noteq> None)
      \<and> (snap_connected s \<longleftrightarrow> snap_freshness s = Fresh) \<and> (snap_connected s \<longrightarrow> snap_last_error s = None)
      \<and> counters_wf (snap_event_counters s))"

definition snapshots_inv :: "uuid \<Rightarrow> Client \<Rightarrow> bool" where
  "snapshots_inv sid c =
     (snapshot_ok sid (cl_snapshot c) \<and> (\<forall>s \<in> set (cl_published c). snapshot_ok sid s)
      \<and> sorted_wrt counters_le (map snap_event_counters (cl_published c @ [cl_snapshot c])))"

lemma snapshots_publish:
  assumes "snapshots_inv sid c" "snapshot_ok sid (f (cl_snapshot c))"
    and "counters_le (snap_event_counters (cl_snapshot c)) (snap_event_counters (f (cl_snapshot c)))"
  shows "snapshots_inv sid (publish f c)"
  using assms by (auto simp: snapshots_inv_def publish_def sorted_wrt_append intro: counters_le_trans)

lemma counters_le_ops:
  "counters_le c (begin_attempt c)" "counters_le c (record_connection t c)" "counters_le c (record_failover r c)"
  "counters_le c (record_disconnect d c)"
  using counter_step_mono [of c BeginAttempt] counter_step_mono [of c "Connected t"] counter_step_mono [of c "FailedOver r"]
    counter_step_mono [of c "Disconnected d"] by simp_all

lemmas counters_wf_ops = counters_wf_begin counters_wf_connection counters_wf_failover counters_wf_disconnect

lemma snapshots_same: "snapshots_inv sid c \<Longrightarrow> cl_snapshot c' = cl_snapshot c \<Longrightarrow> cl_published c' = cl_published c \<Longrightarrow> snapshots_inv sid c'"
  by (simp add: snapshots_inv_def)

interpretation published: client_invariant "snapshots_inv sid"
proof
  fix c :: Client assume inv: "snapshots_inv sid c"
  then have ok: "snapshot_ok sid (cl_snapshot c)" by (simp add: snapshots_inv_def)
  note step = snapshots_publish [OF inv]
  show "snapshots_inv sid (publish begin_client_attempt c)"
    by (rule step) (use ok in \<open>auto simp: snapshot_ok_def begin_client_attempt_def disconnected_def counters_wf_ops counters_le_ops\<close>)
  show "snapshots_inv sid (publish (mark_snapshot_connected t keep) c)" for t keep
    by (rule step) (use ok in \<open>auto simp: snapshot_ok_def mark_snapshot_connected_def counters_wf_ops counters_le_ops\<close>)
  show "snapshots_inv sid (publish (record_quic_failover e) c)" for e
    by (rule step) (use ok in \<open>auto simp: snapshot_ok_def record_quic_failover_def disconnected_def counters_wf_ops counters_le_ops\<close>)
  show "snapshots_inv sid (publish (end_client_attempt r m) c)" for r m
    by (rule step) (use ok in \<open>auto simp: snapshot_ok_def end_client_attempt_def disconnected_def counters_wf_ops counters_le_ops\<close>)
  show "snapshots_inv sid (publish (disconnected Stale) c)"
    by (rule step) (use ok in \<open>auto simp: snapshot_ok_def disconnected_def\<close>)
  show "snapshots_inv sid (publish (\<lambda>s. s\<lparr>snap_sent_heartbeats := n\<rparr>) (c\<lparr>cl_heartbeats := cl_heartbeats c @ [n]\<rparr>))" for n
    by (rule snapshots_publish) (use inv ok in \<open>auto simp: snapshot_ok_def snapshots_inv_def\<close>)
  show "snapshots_inv sid (dial t c)" "snapshots_inv sid (c\<lparr>cl_opened := os\<rparr>)" "snapshots_inv sid (c\<lparr>cl_delays := ds\<rparr>)" for t os ds
    using inv by (simp_all add: snapshots_inv_def dial_def)
qed

section \<open>Heartbeat numbers\<close>

definition heartbeats_inv :: "Client \<Rightarrow> bool" where
  "heartbeats_inv c =
     (cl_heartbeats c = map of_nat [1..<Suc (length (cl_heartbeats c))]
      \<and> snap_sent_heartbeats (cl_snapshot c) = of_nat (length (cl_heartbeats c)))"

lemma heartbeats_publish:
  "heartbeats_inv c \<Longrightarrow> snap_sent_heartbeats (f (cl_snapshot c)) = snap_sent_heartbeats (cl_snapshot c) \<Longrightarrow> heartbeats_inv (publish f c)"
  by (simp add: heartbeats_inv_def publish_def)

interpretation heartbeats: client_invariant heartbeats_inv
proof
  fix c :: Client assume inv: "heartbeats_inv c"
  note step = heartbeats_publish [OF inv]
  show "heartbeats_inv (publish begin_client_attempt c)"
    by (rule step) (simp add: begin_client_attempt_def disconnected_def)
  show "heartbeats_inv (publish (mark_snapshot_connected t keep) c)" for t keep
    by (rule step) (simp add: mark_snapshot_connected_def)
  show "heartbeats_inv (publish (record_quic_failover e) c)" for e
    by (rule step) (simp add: record_quic_failover_def disconnected_def)
  show "heartbeats_inv (publish (end_client_attempt r m) c)" for r m
    by (rule step) (simp add: end_client_attempt_def disconnected_def)
  show "heartbeats_inv (publish (disconnected Stale) c)"
    by (rule step) (simp add: disconnected_def)
  show "heartbeats_inv (publish (\<lambda>s. s\<lparr>snap_sent_heartbeats := n\<rparr>) (c\<lparr>cl_heartbeats := cl_heartbeats c @ [n]\<rparr>))"
    if "n = snap_sent_heartbeats (cl_snapshot c) + 1" for n
    using inv that by (simp add: heartbeats_inv_def publish_def)
  show "heartbeats_inv (dial t c)" "heartbeats_inv (c\<lparr>cl_opened := os\<rparr>)" "heartbeats_inv (c\<lparr>cl_delays := ds\<rparr>)" for t os ds
    using inv by (simp_all add: heartbeats_inv_def dial_def)
qed

section \<open>Delays and transports\<close>

lemma pump_fields [simp]:
  "cl_delays (snd (pump on_line eof quic es seq c)) = cl_delays c"
  "cl_dialled (snd (pump on_line eof quic es seq c)) = cl_dialled c"
  by (induction on_line eof quic es seq c rule: pump.induct) (simp_all split: Line.split)

lemma session_fields [simp]:
  "cl_delays (snd (run_session t keep on_line eof quic es c)) = cl_delays c"
  "cl_dialled (snd (run_session t keep on_line eof quic es c)) = cl_dialled c"
  by (simp_all add: run_session_def Let_def)

lemma dial_fields [simp]: "cl_delays (dial t c) = cl_delays c" "cl_dialled (dial t c) = cl_dialled c @ [t]"
  "cl_snapshot (dial t c) = cl_snapshot c"
  by (simp_all add: dial_def)

lemma transport_fields [simp]:
  "cl_delays (snd (connect_and_pump_quic config a c)) = cl_delays c"
  "cl_delays (snd (connect_and_pump_tls_tcp decode decode_error config a c)) = cl_delays c"
  "cl_delays (snd (connect_and_pump_tcp decode decode_error a c)) = cl_delays c"
  "cl_dialled (snd (connect_and_pump_tls_tcp decode decode_error config a c)) = cl_dialled c @ [TlsTcp]"
  "is_quic_first (cfg_transport config) \<Longrightarrow> cl_dialled (snd (connect_and_pump_quic config a c)) = cl_dialled c @ [Quic]"
  by (simp_all add: connect_and_pump_quic_def connect_and_pump_tls_tcp_def connect_and_pump_tcp_def split: sum.split)

lemma attempt_delays [simp]: "cl_delays (snd (connect_and_pump decode decode_error config a c)) = cl_delays c"
proof -
  obtain r c1 where r: "connect_and_pump_quic config a c = (r, c1)" by fastforce
  then have "cl_delays c1 = cl_delays c" using transport_fields(1) [of config a c] by simp
  then show ?thesis
    by (simp add: connect_and_pump_def r split: TunnelTransport.split option.split sum.split)
qed

text \<open>What a client that is configured for both transports dials in one attempt.\<close>

definition hybrid :: "ReverseTunnelClientConfig \<Rightarrow> bool" where
  "hybrid config = (case cfg_transport config of TransportHybrid _ _ _ \<Rightarrow> True | _ \<Rightarrow> False)"

definition hybrid_dials :: "ReverseTunnelClientConfig \<Rightarrow> TunnelActiveTransport list set" where
  "hybrid_dials config = (if cfg_quic_enabled config then {[Quic], [Quic, TlsTcp]} else {[TlsTcp]})"

lemma attempt_dials:
  assumes "hybrid config"
  shows "\<exists>d \<in> hybrid_dials config. cl_dialled (snd (connect_and_pump decode decode_error config a c)) = cl_dialled c @ d"
proof -
  obtain n cert key where t: "cfg_transport config = TransportHybrid n cert key"
    using assms by (auto simp: hybrid_def split: TunnelTransport.splits)
  obtain r c1 where r: "connect_and_pump_quic config a c = (r, c1)" by fastforce
  then have "cl_dialled c1 = cl_dialled c @ [Quic]" using transport_fields(5) [of config a c] t by (simp add: is_quic_first_def)
  then show ?thesis
    by (simp add: connect_and_pump_def t r hybrid_dials_def split: option.split sum.split)
qed

lemma loop_dials:
  assumes "hybrid config" "\<exists>ds. set ds \<subseteq> hybrid_dials config \<and> cl_dialled c = concat ds"
  shows "\<exists>ds. set ds \<subseteq> hybrid_dials config \<and> cl_dialled (snd (run_client_loop decode decode_error config as backoff c)) = concat ds"
  using assms(2)
proof (induction as arbitrary: backoff c)
  case Nil
  then show ?case by simp
next
  case (Cons a as)
  obtain r c1 where r: "connect_and_pump decode decode_error config a (publish begin_client_attempt c) = (r, c1)" by fastforce
  obtain ds d where "set ds \<subseteq> hybrid_dials config" "cl_dialled c = concat ds" "d \<in> hybrid_dials config" "cl_dialled c1 = concat (ds @ [d])"
    using Cons.prems attempt_dials [OF assms(1), of decode decode_error a "publish begin_client_attempt c"] r by auto
  then have c1: "\<exists>ds. set ds \<subseteq> hybrid_dials config \<and> cl_dialled c1 = concat ds"
    by (intro exI [of _ "ds @ [d]"]) simp
  show ?case
    by (rule attempt_outcomes [where a = a and r = r]) (simp_all add: r Cons c1 Let_def split: option.split bool.split)
qed

lemma client_dials:
  assumes "hybrid config"
  shows "\<exists>ds. set ds \<subseteq> hybrid_dials config
    \<and> cl_dialled (snd (run_client_with_counters decode decode_error config sid counters script)) = concat ds"
  unfolding run_client_with_counters_def
  by (rule loop_dials [OF assms]) (intro exI [of _ "[]"], simp add: client_start_def)

section \<open>The back-off\<close>

lemma loop_delays:
  assumes "cfg_reconnect_floor config \<le> cfg_reconnect_ceiling config"
    and "cfg_reconnect_floor config \<le> backoff" "backoff \<le> cfg_reconnect_ceiling config"
    and "set (cl_delays c) \<subseteq> {cfg_reconnect_floor config .. cfg_reconnect_ceiling config}"
  shows "set (cl_delays (snd (run_client_loop decode decode_error config as backoff c))) \<subseteq> {cfg_reconnect_floor config .. cfg_reconnect_ceiling config}"
  using assms(2-4)
proof (induction as arbitrary: backoff c)
  case Nil
  then show ?case by simp
next
  case (Cons a as)
  obtain r c1 where r: "connect_and_pump decode decode_error config a (publish begin_client_attempt c) = (r, c1)" by fastforce
  then have c1: "cl_delays c1 = cl_delays c" using attempt_delays [of decode decode_error config a "publish begin_client_attempt c"] by simp
  have nb: "cfg_reconnect_floor config \<le> d \<Longrightarrow> cfg_reconnect_floor config \<le> next_backoff d (cfg_reconnect_ceiling config)"
      "next_backoff d (cfg_reconnect_ceiling config) \<le> cfg_reconnect_ceiling config" for d
    using assms(1) by (simp_all add: next_backoff_def)
  show ?case
  proof (cases rule: attempt_outcomes [where a = a and r = r])
    case (failed e)
    define d where "d = (if snap_connected (cl_snapshot c1) then cfg_reconnect_floor config else backoff)"
    have d: "cfg_reconnect_floor config \<le> d" "d \<le> cfg_reconnect_ceiling config" using Cons.prems assms(1) by (simp_all add: d_def)
    then show ?thesis using failed Cons.prems nb
      by (auto simp: r c1 Let_def d_def Cons.IH split: option.split bool.split)
  qed (use Cons assms(1) in \<open>simp_all add: r c1\<close>)
qed

definition attempt_fails :: "Attempt \<Rightarrow> bool" where
  "attempt_fails a =
     (\<not> at_shutdown a \<and> at_quic a \<noteq> Established \<and> at_tls a \<noteq> TlsEstablished \<and> at_tcp a \<noteq> Established \<and> at_sleep a = Some False)"

lemma failed_connects:
  "q \<noteq> Established \<Longrightarrow> \<exists>e. quic_connect_result q = Inl e"
  "q \<noteq> Established \<Longrightarrow> \<exists>e. tcp_connect_result q = Inl e"
  by (cases q; simp)+

lemma failed_tls: "t \<noteq> TlsEstablished \<Longrightarrow> \<exists>e. tls_tcp_connect config t = Inl e"
  by (cases t) (simp_all add: tls_tcp_connect_def split: TunnelTransport.split)

lemma failing_attempt:
  assumes "attempt_fails a" "\<not> snap_connected (cl_snapshot c)"
  shows "\<exists>e c1. connect_and_pump decode decode_error config a c = (Some (Inl e), c1) \<and> \<not> snap_connected (cl_snapshot c1)"
proof -
  obtain e1 e2 e3 where "quic_connect_result (at_quic a) = Inl e1" "tcp_connect_result (at_tcp a) = Inl e2"
      "tls_tcp_connect config (at_tls a) = Inl e3"
    using assms(1) failed_connects failed_tls unfolding attempt_fails_def by meson
  then show ?thesis using assms(2)
    by (simp add: connect_and_pump_def connect_and_pump_quic_def connect_and_pump_tls_tcp_def connect_and_pump_tcp_def
        record_quic_failover_def disconnected_def is_quic_first_def split: TunnelTransport.split)
qed

lemma doubled_backoff: "min (next_backoff b C * 2 ^ i) C = min (b * 2 ^ Suc i) C"
proof (cases "b * 2 \<le> C")
  case False
  then have "C \<le> C * 2 ^ i" "C \<le> b * 2 * 2 ^ i" by simp_all (metis False nat_le_linear mult_le_mono le_trans nat_mult_1_right one_le_numeral one_le_power)
  then show ?thesis using False by (simp add: next_backoff_def)
qed (simp add: next_backoff_def mult.assoc)

lemma failing_delays:
  assumes "\<forall>a \<in> set as. attempt_fails a" "backoff \<le> cfg_reconnect_ceiling config"
  shows "cl_delays (snd (run_client_loop decode decode_error config as backoff c))
    = cl_delays c @ map (\<lambda>i. min (backoff * 2 ^ i) (cfg_reconnect_ceiling config)) [0..<length as]"
  using assms
proof (induction as arbitrary: backoff c)
  case Nil
  then show ?case by simp
next
  case (Cons a as)
  let ?C = "cfg_reconnect_ceiling config"
  have "attempt_fails a" using Cons.prems by simp
  moreover have "\<not> snap_connected (cl_snapshot (publish begin_client_attempt c))" by (simp add: begin_client_attempt_def disconnected_def)
  ultimately obtain e c1 where r: "connect_and_pump decode decode_error config a (publish begin_client_attempt c) = (Some (Inl e), c1)"
      "\<not> snap_connected (cl_snapshot c1)"
    using failing_attempt by blast
  have c1: "cl_delays c1 = cl_delays c"
    using attempt_delays [of decode decode_error config a "publish begin_client_attempt c"] r by simp
  have "map (\<lambda>i. min (backoff * 2 ^ i) ?C) [0..<Suc (length as)]
      = backoff # map (\<lambda>i. min (next_backoff backoff ?C * 2 ^ i) ?C) [0..<length as]"
    using Cons.prems(2) by (simp add: doubled_backoff upt_conv_Cons map_Suc_upt [symmetric] del: upt_Suc)
  then show ?case using r c1 Cons.IH [of "next_backoff backoff ?C"] Cons.prems \<open>attempt_fails a\<close>
    by (simp add: Let_def attempt_fails_def next_backoff_def del: upt_Suc)
qed

section \<open>Stopping\<close>

fun ends_session :: "SessionEvent \<Rightarrow> bool" where
  "ends_session ShutdownChanged = True"
| "ends_session (LineRead (Ready None)) = True"
| "ends_session (LineRead (ReadError m)) = True"
| "ends_session (HeartbeatDue (Some e)) = True"
| "ends_session ev = False"

definition attempt_ends :: "Attempt \<Rightarrow> bool" where
  "attempt_ends a =
     (list_ex ends_session (at_quic_events a) \<and> list_ex ends_session (at_tls_events a) \<and> list_ex ends_session (at_tcp_events a)
      \<and> at_sleep a \<noteq> None)"

lemma pump_ends: "list_ex ends_session es \<Longrightarrow> \<exists>r. fst (pump on_line eof quic es seq c) = Some r"
  by (induction on_line eof quic es seq c rule: pump.induct) (simp_all split: Line.split)

lemma session_ends: "list_ex ends_session es \<Longrightarrow> \<exists>r. fst (run_session t keep on_line eof quic es c) = Some r"
  by (simp add: run_session_def Let_def pump_ends)

lemma attempt_returns:
  assumes "attempt_ends a"
  shows "\<exists>r. fst (connect_and_pump decode decode_error config a c) = Some r"
proof -
  have es: "list_ex ends_session (at_quic_events a)" "list_ex ends_session (at_tls_events a)" "list_ex ends_session (at_tcp_events a)"
    using assms by (simp_all add: attempt_ends_def)
  have "\<exists>r. fst (connect_and_pump_quic config a c) = Some r"
    by (simp add: connect_and_pump_quic_def session_ends [OF es(1)] split: sum.split)
  then obtain r c1 where q: "connect_and_pump_quic config a c = (Some r, c1)"
    by (metis prod.collapse)
  have t: "\<exists>r. fst (connect_and_pump_tls_tcp decode decode_error config a c) = Some r" for c
    by (simp add: connect_and_pump_tls_tcp_def session_ends [OF es(2)] split: sum.split)
  have "\<exists>r. fst (connect_and_pump_tcp decode decode_error a c) = Some r" for c
    by (simp add: connect_and_pump_tcp_def session_ends [OF es(3)] split: sum.split)
  then show ?thesis using q t
    by (simp add: connect_and_pump_def split: TunnelTransport.split sum.split)
qed

definition stopped :: "Client \<Rightarrow> bool" where
  "stopped c = (cl_published c \<noteq> [] \<and> \<not> snap_connected (last (cl_published c)) \<and> snap_freshness (last (cl_published c)) = Stale)"

lemma stopped_simps:
  "stopped (publish (end_client_attempt r m) c)" "stopped (publish (disconnected Stale) c)"
  "stopped (c\<lparr>cl_delays := ds\<rparr>) = stopped c"
  by (simp_all add: stopped_def end_client_attempt_def disconnected_def)

lemma loop_stops:
  assumes "\<forall>b \<in> set as. attempt_ends b" "at_shutdown a"
  shows "fst (run_client_loop decode decode_error config (as @ [a]) backoff c)
    \<and> stopped (snd (run_client_loop decode decode_error config (as @ [a]) backoff c))"
  using assms(1)
proof (induction as arbitrary: backoff c)
  case Nil
  then show ?case using assms(2) by (simp add: stopped_simps)
next
  case (Cons b as)
  obtain r c1 where r: "connect_and_pump decode decode_error config b (publish begin_client_attempt c) = (Some r, c1)"
    using Cons.prems attempt_returns [of b decode decode_error config "publish begin_client_attempt c"]
    by (cases "connect_and_pump decode decode_error config b (publish begin_client_attempt c)") auto
  obtain z where z: "at_sleep b = Some z" using Cons.prems by (auto simp: attempt_ends_def)
  have IH: "fst (run_client_loop decode decode_error config (as @ [a]) backoff c)"
      "stopped (snd (run_client_loop decode decode_error config (as @ [a]) backoff c))" for backoff c
    using Cons by simp_all
  show ?case
    by (cases r; cases z) (simp_all add: r z IH stopped_simps Let_def)
qed

section \<open>Claims\<close>

text \<open>
  Every snapshot the tunnel client publishes is consistent: it names a
  transport and is fresh exactly when it is connected, a connected snapshot
  carries no error, the event counters are well formed, and along the published
  snapshots no counter ever decreases.
\<close>

theorem published_snapshots_consistent:
  assumes "counters_wf counters"
  shows "(let published = cl_published (snd (run_client_with_counters decode decode_error config sid counters script)) in
      (\<forall>s \<in> set published. snapshot_ok sid s) \<and> sorted_wrt counters_le (map snap_event_counters published))"
proof -
  have "snapshots_inv sid (snd (run_client_with_counters decode decode_error config sid counters script))"
    by (rule published.client_kept)
      (use assms in \<open>simp add: snapshots_inv_def snapshot_ok_def client_start_def ClientSnapshot_with_event_counters_def\<close>)
  then show ?thesis by (simp add: snapshots_inv_def sorted_wrt_append)
qed

definition sample_attempt :: Attempt where
  "sample_attempt =
     \<lparr>at_shutdown = False, at_quic = Established, at_quic_events = [HeartbeatDue None, ShutdownChanged], at_tls = TlsHandshakeFailed ''refused'',
      at_tls_events = [ShutdownChanged], at_tcp = Refused ''refused'', at_tcp_events = [ShutdownChanged], at_sleep = Some False\<rparr>"

theorem published_snapshots_consistent_witness:
  "(let published = cl_published (snd (run_client_with_counters sample_decode (\<lambda>_. anyhow ''json'') sample_config 5 TunnelEventCounters_default
        [sample_attempt])) in
      (\<forall>s \<in> set published. snapshot_ok 5 s) \<and> sorted_wrt counters_le (map snap_event_counters published))"
  by (rule published_snapshots_consistent [OF counters_wf_default])

text \<open>
  The delays between attempts lie between the configured floor and ceiling,
  and while no attempt connects they double from the floor until they reach the
  ceiling.
\<close>

theorem reconnect_delays_bounded:
  assumes "cfg_reconnect_floor config \<le> cfg_reconnect_ceiling config"
  shows "(let delays = cl_delays (snd (run_client_with_counters decode decode_error config sid counters script)) in
      set delays \<subseteq> {cfg_reconnect_floor config .. cfg_reconnect_ceiling config}
      \<and> ((\<forall>a \<in> set script. attempt_fails a) \<longrightarrow>
          delays = map (\<lambda>i. min (cfg_reconnect_floor config * 2 ^ i) (cfg_reconnect_ceiling config)) [0..<length script]))"
  using loop_delays [OF assms, of "cfg_reconnect_floor config" "client_start sid counters" decode decode_error script] assms
    failing_delays [of script "cfg_reconnect_floor config" config decode decode_error "client_start sid counters"]
  by (simp add: run_client_with_counters_def Let_def client_start_def)

theorem reconnect_delays_bounded_witness:
  "cl_delays (snd (run_client_with_counters sample_decode (\<lambda>_. anyhow ''json'') sample_config 5 TunnelEventCounters_default
      (replicate 7 (sample_attempt\<lparr>at_quic := TimedOut ''deadline''\<rparr>)))) = [1000, 2000, 4000, 8000, 16000, 30000, 30000]"
proof -
  have f: "cfg_reconnect_floor sample_config \<le> cfg_reconnect_ceiling sample_config" by (simp add: sample_config_def)
  have "map (\<lambda>i. min (1000 * 2 ^ i) 30000) [0..<7] = [1000, 2000, 4000, 8000, 16000, 30000, 30000 :: nat]"
    by (simp add: upt_conv_Cons)
  then show ?thesis
    using reconnect_delays_bounded [OF f, of sample_decode "\<lambda>_. anyhow ''json''" 5 TunnelEventCounters_default
        "replicate 7 (sample_attempt\<lparr>at_quic := TimedOut ''deadline''\<rparr>)"]
    by (simp add: sample_attempt_def attempt_fails_def Let_def sample_config_def del: map_eq_conv)
qed



text \<open>
  A client configured for both transports never speaks the tunnel protocol,
  which carries its token, over a plain TCP connection.  In every attempt it dials
  QUIC first and TLS only after that, and with QUIC disabled it dials TLS only.
\<close>

theorem hybrid_client_never_plaintext:
  assumes "hybrid config"
  shows "\<exists>ds. set ds \<subseteq> hybrid_dials config
    \<and> cl_dialled (snd (run_client_with_counters decode decode_error config sid counters script)) = concat ds"
  by (rule client_dials [OF assms])

theorem hybrid_client_never_plaintext_witness:
  "\<exists>ds. set ds \<subseteq> hybrid_dials sample_config
    \<and> cl_dialled (snd (run_client_with_counters sample_decode (\<lambda>_. anyhow ''json'') sample_config 5 TunnelEventCounters_default [sample_attempt]))
      = concat ds"
  by (rule hybrid_client_never_plaintext) (simp add: hybrid_def sample_config_def)

text \<open>
  Over all its sessions the client numbers its heartbeats 1, 2, 3, and so on
  without gaps or repetitions, and the snapshot reports how many it sent.
\<close>

theorem heartbeats_numbered_consecutively:
  "(let c = snd (run_client_with_counters decode decode_error config sid counters script) in
      cl_heartbeats c = map of_nat [1..<Suc (length (cl_heartbeats c))]
      \<and> snap_sent_heartbeats (cl_snapshot c) = of_nat (length (cl_heartbeats c)))"
proof -
  have "heartbeats_inv (snd (run_client_with_counters decode decode_error config sid counters script))"
    by (rule heartbeats.client_kept) (simp add: heartbeats_inv_def client_start_def ClientSnapshot_with_event_counters_def)
  then show ?thesis by (simp add: heartbeats_inv_def Let_def)
qed

text \<open>
  Losing a QUIC session is not treated as losing a session when the fallback
  fails as well: the failover has already cleared the connected flag, so the
  delay before the next attempt is the accumulated one instead of the floor and no
  disconnect is counted.
\<close>

theorem lost_quic_session_keeps_backoff:
  assumes "hybrid config" "cfg_quic_enabled config" "\<not> at_shutdown a" "at_quic a = Established"
    and "at_quic_events a = [ConnectionClosed m]" "at_tls a \<noteq> TlsEstablished" "at_sleep a = None"
  shows "(let c' = snd (run_client_loop decode decode_error config [a] backoff c) in
     cl_delays c' = cl_delays c @ [backoff]
     \<and> disconnect_counts (snap_event_counters (cl_snapshot c')) = disconnect_counts (snap_event_counters (cl_snapshot c)))"
proof -
  obtain n cert key where t: "cfg_transport config = TransportHybrid n cert key"
    using assms(1) by (auto simp: hybrid_def split: TunnelTransport.splits)
  obtain e where "tls_tcp_connect config (at_tls a) = Inl e" using failed_tls [OF assms(6)] by blast
  then show ?thesis using assms t
    by (simp add: connect_and_pump_def connect_and_pump_quic_def connect_and_pump_tls_tcp_def is_quic_first_def run_session_def Let_def
        record_quic_failover_def end_client_attempt_def disconnected_def mark_snapshot_connected_def begin_client_attempt_def
        record_failover_def record_connection_def begin_attempt_def split: option.split)
qed

theorem lost_quic_session_keeps_backoff_witness:
  "(let c' = snd (run_client_loop sample_decode (\<lambda>_. anyhow ''json'') sample_config
       [sample_attempt\<lparr>at_quic_events := [ConnectionClosed ''idle''], at_sleep := None\<rparr>] 30000 (client_start 5 TunnelEventCounters_default)) in
     cl_delays c' = cl_delays (client_start 5 TunnelEventCounters_default) @ [30000]
     \<and> disconnect_counts (snap_event_counters (cl_snapshot c'))
       = disconnect_counts (snap_event_counters (cl_snapshot (client_start 5 TunnelEventCounters_default))))"
  by (rule lost_quic_session_keeps_backoff) (simp_all add: hybrid_def sample_config_def sample_attempt_def)

end
