(* ===== verification/Config_Fingerprint.thy ===== *)
theory Config_Fingerprint
  imports Proxy_Core Ordered_Map Text_Tools "HOL-Library.Char_ord" "HOL-Library.List_Lexorder"
begin

text \<open>
  JSON documents as \<open>serde_json\<close> has them, whose objects are ordered maps, and the
  model of \<open>services/host-daemon/src/fingerprints.rs\<close>: the fingerprint of a
  configuration that neither its secrets nor the order of its keys can change.  The
  text parser and printer of \<open>serde_json\<close> are parameters; the parser hands over the
  members of an object in the order of the text, repeated keys included.
\<close>

section \<open>Documents\<close>

datatype Number = PosInt u64 | NegInt u64 | Float u64

datatype Json = JNull | JBool bool | JNumber Number | JString string | JArray "Json list" | JObject "(string \<times> Json) list"

fun json_get :: "string \<Rightarrow> Json \<Rightarrow> Json option" where
  "json_get key (JObject members) = map_of members key"
| "json_get key _ = None"

fun json_as_str :: "Json \<Rightarrow> string option" where
  "json_as_str (JString s) = Some s"
| "json_as_str _ = None"

fun json_as_array :: "Json \<Rightarrow> Json list option" where
  "json_as_array (JArray vs) = Some vs"
| "json_as_array _ = None"

section \<open>Fingerprints\<close>

definition REDACTED_SECRET :: string where
  "REDACTED_SECRET = ''<redacted>''"

definition secret_key :: "string \<Rightarrow> bool" where
  "secret_key key =
     (let normalized = to_ascii_lowercase key in
      normalized \<in> set [''admin_token'', ''device_token'', ''auth_token'', ''username'', ''password'', ''private_key'', ''server_key_der_b64'']
      \<or> ends_with ''_token'' normalized \<or> ends_with ''_password'' normalized
      \<or> ends_with ''_secret'' normalized \<or> ends_with ''_private_key'' normalized)"

lemma set_bt_insert: "set (bt_insert k v m) \<subseteq> insert (k, v) (set m)"
  by (induction k v m rule: bt_insert.induct) auto

lemma set_bt_of_list_subset: "set (bt_of_list ms) \<subseteq> set ms"
proof (induction ms rule: rev_induct)
  case (snoc x ms)
  then show ?case using set_bt_insert by (cases x) (fastforce simp: bt_of_list_snoc)
qed (simp add: bt_of_list_def)

lemma size_member: "(k, v) \<in> set ms \<Longrightarrow> size v < Suc (size_list (size_prod (\<lambda>_. 0) size) ms)"
  by (induction ms) auto

function canonicalize :: "Json \<Rightarrow> string option \<Rightarrow> Json" where
  "canonicalize value key =
     (if (case key of Some k \<Rightarrow> secret_key k | None \<Rightarrow> False) then JString REDACTED_SECRET
      else case value of
             JArray values \<Rightarrow> JArray (map (\<lambda>v. canonicalize v None) values)
           | JObject values \<Rightarrow> JObject (bt_of_list (map (\<lambda>(field, v). (field, canonicalize v (Some field))) (bt_of_list values)))
           | scalar \<Rightarrow> scalar)"
  by pat_completeness auto
termination
proof (relation "measure (size \<circ> fst)", goal_cases)
  case (2 x key vs v)
  then show ?case by (auto simp: less_Suc_eq_le size_list_estimation')
next
  case (3 x key ms m f v)
  then show ?case using set_bt_of_list_subset [of ms] size_member [of f v ms] by auto
qed simp

declare canonicalize.simps [simp del]

text \<open>\<open>UniqueValue\<close>: a document whose objects name no key twice.\<close>

function unique_value :: "Json \<Rightarrow> string + Json"
  and unique_values :: "Json list \<Rightarrow> string + Json list"
  and unique_members :: "(string \<times> Json) list \<Rightarrow> (string \<times> Json) list \<Rightarrow> string + (string \<times> Json) list" where
  "unique_value value =
     (case value of
        JArray values \<Rightarrow> and_then (unique_values values) (\<lambda>vs. Inr (JArray vs))
      | JObject members \<Rightarrow> and_then (unique_members members []) (\<lambda>m. Inr (JObject m))
      | scalar \<Rightarrow> Inr scalar)"
| "unique_values [] = Inr []"
| "unique_values (v # vs) = and_then (unique_value v) (\<lambda>w. and_then (unique_values vs) (\<lambda>ws. Inr (w # ws)))"
| "unique_members [] values = Inr values"
| "unique_members ((field, v) # members) values =
     (if field \<in> fst ` set values then Inl ''duplicate JSON object key''
      else and_then (unique_value v) (\<lambda>w. unique_members members (bt_insert field w values)))"
  by pat_completeness auto
termination
  by (relation "measure (\<lambda>x. case x of Inl v \<Rightarrow> 2 * size v | Inr (Inl vs) \<Rightarrow> 2 * size_list size vs + 1
      | Inr (Inr (ms, _)) \<Rightarrow> 2 * size_list (size_prod (\<lambda>_. 0) size) ms + 1)") auto

declare unique_value.simps [simp del]

definition config_source_fingerprint ::
  "Hashing \<Rightarrow> (bytes \<Rightarrow> Json option) \<Rightarrow> (Json \<Rightarrow> bytes) \<Rightarrow> bytes \<Rightarrow> string + digest" where
  "config_source_fingerprint H parse encode source =
     and_then (ok_or ''host-daemon config contains invalid or ambiguous JSON'' (parse source)) (\<lambda>document.
     and_then (unique_value document) (\<lambda>value.
     Inr (ConfigFingerprint_derive H [encode (canonicalize value None)])))"

definition binary_fingerprint :: "Hashing \<Rightarrow> string + bytes \<Rightarrow> string + digest" where
  "binary_fingerprint H body = and_then body (\<lambda>bytes. Inr (BinaryFingerprint_derive H [bytes]))"

section \<open>What a fingerprint depends on\<close>

text \<open>
  Two documents say the same in public when they differ only in the order of
  members and in what secret members hold.
\<close>

inductive public_eq :: "Json \<Rightarrow> Json \<Rightarrow> bool" where
  null: "public_eq JNull JNull"
| bool: "public_eq (JBool b) (JBool b)"
| number: "public_eq (JNumber n) (JNumber n)"
| string: "public_eq (JString s) (JString s)"
| array: "list_all2 public_eq vs ws \<Longrightarrow> public_eq (JArray vs) (JArray ws)"
| object: "fst ` set ms = fst ` set ns \<Longrightarrow>
    (\<And>k v w. map_of ms k = Some v \<Longrightarrow> map_of ns k = Some w \<Longrightarrow> secret_key k \<or> public_eq v w) \<Longrightarrow>
    public_eq (JObject ms) (JObject ns)"

inductive_simps public_eq_simps: "public_eq JNull w" "public_eq (JBool b) w" "public_eq (JNumber n) w"
  "public_eq (JString s) w" "public_eq (JArray vs) w" "public_eq (JObject ms) w"

lemma unique_values_Inr: "unique_values vs = Inr ws \<longleftrightarrow> list_all2 (\<lambda>v w. unique_value v = Inr w) vs ws"
proof (induction vs arbitrary: ws)
  case (Cons v vs)
  then show ?case
    by (cases ws; cases "unique_value v"; cases "unique_values vs") (auto simp: and_then_def)
qed auto

lemma unique_members_Inr:
  assumes "unique_members ms acc = Inr m" "bt_ok acc"
  shows "bt_ok m \<and> distinct (map fst ms) \<and> fst ` set m = fst ` set acc \<union> fst ` set ms \<and> fst ` set acc \<inter> fst ` set ms = {}
    \<and> (\<forall>k. map_of m k = (case map_of ms k of None \<Rightarrow> map_of acc k | Some v \<Rightarrow> case unique_value v of Inr w \<Rightarrow> Some w | Inl _ \<Rightarrow> None))
    \<and> (\<forall>(k, v)\<in>set ms. is_Ok (unique_value v))"
  using assms
proof (induction ms arbitrary: acc)
  case (Cons x ms)
  obtain f v where x: "x = (f, v)" by force
  from Cons.prems x obtain w where w: "unique_value v = Inr w" and f: "f \<notin> fst ` set acc"
    and rest: "unique_members ms (bt_insert f w acc) = Inr m"
    by (auto simp: and_then_def split: if_splits sum.splits)
  note ih = Cons.IH [OF rest bt_ok_insert [OF Cons.prems(2)]]
  then have nf: "f \<notin> fst ` set ms" by (auto simp: keys_bt_insert)
  then have "map_of ms f = None" by (simp add: map_of_eq_None_iff)
  with ih f w nf x show ?case by (auto simp: keys_bt_insert split: option.splits)
qed auto


definition public_member :: "string \<times> Json \<Rightarrow> string \<times> Json" where
  "public_member = (\<lambda>(k, v). (k, canonicalize v (Some k)))"

lemma bt_ok_public [simp]: "bt_ok (map public_member m) = bt_ok m"
  by (simp add: bt_ok_def public_member_def case_prod_unfold comp_def)

lemma canonicalize_object: "bt_ok m \<Longrightarrow> canonicalize (JObject m) None = JObject (map public_member m)"
  using bt_ok_public [of m] by (subst canonicalize.simps) (simp add: bt_of_list_id flip: public_member_def)

lemma canonicalize_array: "canonicalize (JArray vs) None = JArray (map (\<lambda>v. canonicalize v None) vs)"
  by (subst canonicalize.simps) simp

lemma canonicalize_scalar [simp]:
  "canonicalize JNull None = JNull" "canonicalize (JBool b) None = JBool b"
  "canonicalize (JNumber n) None = JNumber n" "canonicalize (JString s) None = JString s"
  by (simp_all add: canonicalize.simps)

lemma canonicalize_member:
  "canonicalize v (Some k) = (if secret_key k then JString REDACTED_SECRET else canonicalize v None)"
  by (simp add: canonicalize.simps [of v "Some k"] canonicalize.simps [of v None])

lemma map_of_public: "map_of (map public_member m) k = map_option (\<lambda>v. canonicalize v (Some k)) (map_of m k)"
  by (induction m) (auto simp: public_member_def)

lemma unique_value_eqs [simp]:
  "unique_value JNull = Inr JNull" "unique_value (JBool b) = Inr (JBool b)"
  "unique_value (JNumber n) = Inr (JNumber n)" "unique_value (JString s) = Inr (JString s)"
  by (simp_all add: unique_value.simps)

lemma unique_value_Inr_array:
  "unique_value (JArray vs) = Inr v' \<longleftrightarrow> (\<exists>ws. v' = JArray ws \<and> list_all2 (\<lambda>v w. unique_value v = Inr w) vs ws)"
  by (auto simp: unique_value.simps [of "JArray vs"] and_then_def unique_values_Inr [symmetric] split: sum.splits)

lemma unique_value_Inr_object:
  "unique_value (JObject ms) = Inr v' \<longleftrightarrow> (\<exists>m. v' = JObject m \<and> unique_members ms [] = Inr m)"
  by (auto simp: unique_value.simps [of "JObject ms"] and_then_def split: sum.splits)

lemma canonicalize_unique_object:
  assumes "unique_members ms [] = Inr m"
  shows "canonicalize (JObject m) None = JObject (map public_member m)"
  using canonicalize_object unique_members_Inr [OF assms bt_ok_Nil] by blast

lemmas unique_value_Inr = unique_value_Inr_array unique_value_Inr_object

lemma same_keys_iff: "fst ` set ms = fst ` set ns \<longleftrightarrow> (\<forall>k. map_of ms k = None \<longleftrightarrow> map_of ns k = None)"
  by (auto simp: map_of_eq_None_iff)

definition members_agree :: "Json option \<Rightarrow> Json option \<Rightarrow> string \<Rightarrow> bool" where
  "members_agree a b k = (case a of None \<Rightarrow> b = None | Some v \<Rightarrow> (case b of None \<Rightarrow> False | Some w \<Rightarrow> secret_key k \<or> public_eq v w))"

lemma members_agree_simps [simp]:
  "members_agree None b k \<longleftrightarrow> b = None" "members_agree (Some v) None k \<longleftrightarrow> False"
  "members_agree (Some v) (Some w) k \<longleftrightarrow> secret_key k \<or> public_eq v w"
  by (simp_all add: members_agree_def)

lemma public_object_iff: "public_eq (JObject ms) (JObject ns) \<longleftrightarrow> (\<forall>k. members_agree (map_of ms k) (map_of ns k) k)"
proof
  assume eq: "public_eq (JObject ms) (JObject ns)"
  show "\<forall>k. members_agree (map_of ms k) (map_of ns k) k"
  proof
    fix k
    show "members_agree (map_of ms k) (map_of ns k) k"
      using eq unfolding public_eq_simps same_keys_iff
      by (cases "map_of ms k"; cases "map_of ns k") (auto dest: spec [of _ k])
  qed
next
  assume agree: "\<forall>k. members_agree (map_of ms k) (map_of ns k) k"
  then have "(map_of ms k = None) = (map_of ns k = None)" for k
    using spec [OF agree, of k] by (cases "map_of ms k"; cases "map_of ns k") simp_all
  moreover have "secret_key k \<or> public_eq v w" if "map_of ms k = Some v" "map_of ns k = Some w" for k v w
    using spec [OF agree, of k] that by simp
  ultimately show "public_eq (JObject ms) (JObject ns)"
    by (intro public_eq.object) (simp_all add: same_keys_iff)
qed

lemma public_objects:
  assumes ms: "unique_members ms [] = Inr m" and ns: "unique_members ns [] = Inr n"
    and members: "\<And>k v w v' w'. (k, v) \<in> set ms \<Longrightarrow> unique_value v = Inr v' \<Longrightarrow> unique_value w = Inr w' \<Longrightarrow>
      (canonicalize v' None = canonicalize w' None) = public_eq v w"
  shows "(map public_member m = map public_member n) = public_eq (JObject ms) (JObject ns)"
proof -
  note m = unique_members_Inr [OF ms bt_ok_Nil] and n = unique_members_Inr [OF ns bt_ok_Nil]
  have lookup: "(map_of (map public_member m) k = map_of (map public_member n) k) = members_agree (map_of ms k) (map_of ns k) k" for k
  proof (cases "map_of ms k"; cases "map_of ns k")
    fix v w assume v: "map_of ms k = Some v" and w: "map_of ns k = Some w"
    from v w m n obtain v' w' where "unique_value v = Inr v'" "unique_value w = Inr w'"
      by (metis (no_types, lifting) case_prodD is_Ok.elims(2) map_of_SomeD)
    with v w m n members [OF map_of_SomeD [OF v]] show ?thesis
      by (simp add: map_of_public canonicalize_member)
  next
    fix v assume v: "map_of ms k = Some v" "map_of ns k = None"
    then obtain v' where "unique_value v = Inr v'"
      using m by (metis (no_types, lifting) case_prodD is_Ok.elims(2) map_of_SomeD)
    with v m n show ?thesis by (simp add: map_of_public)
  next
    fix w assume w: "map_of ms k = None" "map_of ns k = Some w"
    then obtain w' where "unique_value w = Inr w'"
      using n by (metis (no_types, lifting) case_prodD is_Ok.elims(2) map_of_SomeD)
    with w m n show ?thesis by (simp add: map_of_public)
  qed (use m n in \<open>simp add: map_of_public\<close>)
  have "(map public_member m = map public_member n) = (\<forall>k. map_of (map public_member m) k = map_of (map public_member n) k)"
    using m n bt_eqI [of "map public_member m" "map public_member n"] by (metis bt_ok_public ext)
  also have "\<dots> = public_eq (JObject ms) (JObject ns)"
    unfolding lookup public_object_iff ..
  finally show ?thesis .
qed

lemma public_arrays:
  assumes "list_all2 (\<lambda>v w. unique_value v = Inr w) vs vs'" "list_all2 (\<lambda>v w. unique_value v = Inr w) ws ws'"
    and "\<And>v v' w w'. v \<in> set vs \<Longrightarrow> unique_value v = Inr v' \<Longrightarrow> unique_value w = Inr w' \<Longrightarrow>
      (canonicalize v' None = canonicalize w' None) = public_eq v w"
  shows "(map (\<lambda>v. canonicalize v None) vs' = map (\<lambda>v. canonicalize v None) ws') = list_all2 public_eq vs ws"
  using assms
proof (induction vs vs' arbitrary: ws ws' rule: list_all2_induct)
  case (Cons v vs v' vs')
  show ?case
  proof (cases ws)
    case (Cons w ws2)
    with Cons.prems(1) obtain w' ws3 where ws': "ws' = w' # ws3" "unique_value w = Inr w'"
      "list_all2 (\<lambda>v w. unique_value v = Inr w) ws2 ws3" by (auto simp: list_all2_Cons1)
    with Cons.hyps have "(canonicalize v' None = canonicalize w' None) = public_eq v w" by (intro Cons.prems(2)) auto
    moreover have "(map (\<lambda>v. canonicalize v None) vs' = map (\<lambda>v. canonicalize v None) ws3) = list_all2 public_eq vs ws2"
      using ws' Cons.prems(2) by (intro Cons.IH) auto
    ultimately show ?thesis using ws' Cons by simp
  qed (use Cons.prems in simp)
qed (auto simp: list_all2_conv_all_nth)

lemma canonical_scalar:
  assumes "unique_value w = Inr w'"
  shows "JNull = canonicalize w' None \<longleftrightarrow> w = JNull" "JBool b = canonicalize w' None \<longleftrightarrow> w = JBool b"
    "JNumber n = canonicalize w' None \<longleftrightarrow> w = JNumber n" "JString s = canonicalize w' None \<longleftrightarrow> w = JString s"
  using assms by (cases w; auto simp: unique_value_Inr canonicalize_array canonicalize_unique_object)+

lemma public_eq_iff:
  assumes "unique_value v = Inr v'" "unique_value w = Inr w'"
  shows "(canonicalize v' None = canonicalize w' None) = public_eq v w"
  using assms
proof (induction v arbitrary: v' w w')
  case (JArray vs)
  then obtain vs' where v': "v' = JArray vs'" and vs: "list_all2 (\<lambda>v w. unique_value v = Inr w) vs vs'"
    by (auto simp: unique_value_Inr)
  show ?case
  proof (cases w)
    case (JArray ws)
    with JArray.prems obtain ws' where w': "w' = JArray ws'" and ws: "list_all2 (\<lambda>v w. unique_value v = Inr w) ws ws'"
      by (auto simp: unique_value_Inr)
    from vs ws have "(map (\<lambda>v. canonicalize v None) vs' = map (\<lambda>v. canonicalize v None) ws') = list_all2 public_eq vs ws"
      using JArray.IH by (rule public_arrays)
    then show ?thesis using JArray v' w' by (simp add: canonicalize_array public_eq_simps)
  qed (use JArray.prems v' in \<open>auto simp: public_eq_simps canonicalize_array unique_value_Inr canonicalize_unique_object\<close>)
next
  case (JObject ms)
  then obtain m where v': "v' = JObject m" and ms: "unique_members ms [] = Inr m"
    by (auto simp: unique_value_Inr)
  show ?case
  proof (cases w)
    case (JObject ns)
    with JObject.prems obtain n where w': "w' = JObject n" and ns: "unique_members ns [] = Inr n"
      by (auto simp: unique_value_Inr)
    have "(map public_member m = map public_member n) = public_eq (JObject ms) (JObject ns)"
      using ms ns by (rule public_objects) (use JObject.IH in fastforce)
    then show ?thesis using JObject v' w' ms ns by (simp add: canonicalize_unique_object)
  qed (use JObject.prems v' ms in \<open>auto simp: public_eq_simps canonicalize_array unique_value_Inr canonicalize_unique_object\<close>)
qed (auto simp: public_eq_simps canonical_scalar)


lemma config_source_fingerprint_Inr:
  "config_source_fingerprint H parse encode source = Inr f \<longleftrightarrow>
     (\<exists>document v. parse source = Some document \<and> unique_value document = Inr v
        \<and> f = blake3_fn H CONFIG_FINGERPRINT_DOMAIN (frame_parts [encode (canonicalize v None)]))"
  by (auto simp: config_source_fingerprint_def and_then_def ConfigFingerprint_derive_def ContentDigest_derive_def ok_or_def
      split: sum.splits option.splits)

lemma frame_part_inject: "frame_parts [a] = frame_parts [b] \<longleftrightarrow> a = b"
  by (auto simp: append_eq_append_conv)

text \<open>A fingerprint exists exactly for a document that parses and repeats no key.\<close>

fun distinct_keys :: "Json \<Rightarrow> bool" where
  "distinct_keys (JArray vs) = list_all distinct_keys vs"
| "distinct_keys (JObject ms) = (distinct (map fst ms) \<and> list_all (\<lambda>(k, v). distinct_keys v) ms)"
| "distinct_keys _ = True"

lemma is_Ok_iff: "is_Ok r \<longleftrightarrow> (\<exists>x. r = Inr x)"
  by (cases r) simp_all

lemma unique_members_ok:
  assumes "distinct (map fst ms)" "fst ` set ms \<inter> fst ` set acc = {}" "list_all (\<lambda>(k, v). is_Ok (unique_value v)) ms"
  shows "is_Ok (unique_members ms acc)"
  using assms
proof (induction ms arbitrary: acc)
  case (Cons x ms)
  then show ?case
    by (cases x; cases "unique_value (snd x)") (auto simp: keys_bt_insert and_then_def)
qed simp

lemma accepted_all: "(\<exists>ws. list_all2 (\<lambda>v w. unique_value v = Inr w) vs ws) \<longleftrightarrow> list_all (\<lambda>v. is_Ok (unique_value v)) vs"
proof (induction vs)
  case (Cons v vs)
  then show ?case by (cases "unique_value v") (auto simp: list_all2_Cons1)
qed simp

lemma unique_value_is_Ok: "is_Ok (unique_value v) \<longleftrightarrow> distinct_keys v"
proof (induction v)
  case (JArray vs)
  have "is_Ok (unique_value (JArray vs)) \<longleftrightarrow> (\<exists>ws. list_all2 (\<lambda>v w. unique_value v = Inr w) vs ws)"
    by (simp add: is_Ok_iff unique_value_Inr_array)
  also have "\<dots> \<longleftrightarrow> list_all (\<lambda>v. is_Ok (unique_value v)) vs"
    by (rule accepted_all)
  also have "\<dots> \<longleftrightarrow> list_all distinct_keys vs" using JArray by (auto simp: list_all_iff)
  finally show ?case by simp
next
  case (JObject ms)
  have ok: "is_Ok (unique_value (JObject ms)) \<longleftrightarrow> is_Ok (unique_members ms [])"
    by (cases "unique_members ms []") (auto simp: unique_value.simps [of "JObject ms"])
  have members: "list_all (\<lambda>(k, v). is_Ok (unique_value v)) ms \<longleftrightarrow> list_all (\<lambda>(k, v). distinct_keys v) ms"
    using JObject by (fastforce simp: list_all_iff)
  show ?case unfolding ok
  proof
    assume "is_Ok (unique_members ms [])"
    then obtain m where "unique_members ms [] = Inr m" by (auto simp: is_Ok_iff)
    from unique_members_Inr [OF this bt_ok_Nil] members show "distinct_keys (JObject ms)" by (simp add: list_all_iff)
  next
    assume "distinct_keys (JObject ms)"
    with members show "is_Ok (unique_members ms [])" by (intro unique_members_ok) auto
  qed
qed simp_all

section \<open>Properties\<close>

text \<open>
  C26: Changing the order of a configuration's keys or the value of any secret leaves
  its fingerprint as it is, and nothing else does: two configurations have one
  fingerprint exactly when they say the same in public, unless their canonical
  texts are a collision of the hash function.
\<close>

theorem config_fingerprint_exact:
  assumes "parse source1 = Some d1" "parse source2 = Some d2" "unique_value d1 = Inr v1" "unique_value d2 = Inr v2"
    and "config_source_fingerprint H parse encode source1 = Inr f1" "config_source_fingerprint H parse encode source2 = Inr f2"
    and "b1 = frame_parts [encode (canonicalize v1 None)]" "b2 = frame_parts [encode (canonicalize v2 None)]"
    and "inj_on encode {canonicalize v1 None, canonicalize v2 None}"
  shows "f1 = f2 \<longleftrightarrow> public_eq d1 d2 \<or> (b1 \<noteq> b2 \<and> blake3_fn H CONFIG_FINGERPRINT_DOMAIN b1 = blake3_fn H CONFIG_FINGERPRINT_DOMAIN b2)"
proof -
  have "f1 = blake3_fn H CONFIG_FINGERPRINT_DOMAIN b1" "f2 = blake3_fn H CONFIG_FINGERPRINT_DOMAIN b2"
    using assms(1-8) by (simp_all add: config_source_fingerprint_Inr)
  moreover have "b1 = b2 \<longleftrightarrow> canonicalize v1 None = canonicalize v2 None"
    unfolding assms(7,8) frame_part_inject using assms(9) by (auto dest: inj_onD)
  moreover have "canonicalize v1 None = canonicalize v2 None \<longleftrightarrow> public_eq d1 d2"
    using assms(3,4) by (rule public_eq_iff)
  ultimately show ?thesis by blast
qed

definition sample_doc :: "string \<Rightarrow> Json" where
  "sample_doc secret = JObject [(''node_name'', JString ''a''), (''admin_token'', JString secret)]"

definition sample_blake3 :: Hashing where
  "sample_blake3 = \<lparr>blake3_fn = (\<lambda>_ bs. of_nat (length bs)), to_hex_fn = (\<lambda>_. []), from_hex_fn = (\<lambda>_. None)\<rparr>"

definition sample_value :: "string \<Rightarrow> Json" where
  "sample_value secret = JObject [(''admin_token'', JString secret), (''node_name'', JString ''a'')]"

lemma sample_unique: "unique_value (sample_doc s) = Inr (sample_value s)"
  by (simp add: sample_doc_def sample_value_def unique_value.simps [of "JObject _"] less_char_def)

lemma sample_secret: "secret_key ''admin_token''"
  by (simp add: secret_key_def to_ascii_lowercase_def is_ascii_upper_def in_range_def)

lemma sample_canonical:
  "canonicalize (sample_value s) None = canonicalize (sample_value t) None"
proof -
  have "bt_ok [(''admin_token'', JString s), (''node_name'', JString ''a'')]" for s
    by (simp add: bt_ok_def less_char_def)
  then show ?thesis
    by (simp add: sample_value_def canonicalize_object public_member_def canonicalize_member sample_secret)
qed

theorem config_fingerprint_exact_witness:
  "(let fingerprint = config_source_fingerprint sample_blake3 (\<lambda>s. Some (sample_doc s)) (\<lambda>_. ''k'') in
    is_Ok (fingerprint ''x'') \<and> fingerprint ''x'' = fingerprint ''y'') \<and> public_eq (sample_doc ''x'') (sample_doc ''y'')"
proof -
  let ?fp = "config_source_fingerprint sample_blake3 (\<lambda>s. Some (sample_doc s)) (\<lambda>_. ''k'')"
  let ?f = "blake3_fn sample_blake3 CONFIG_FINGERPRINT_DOMAIN (frame_parts [''k''])"
  have fp: "?fp s = Inr ?f" for s
    by (simp add: config_source_fingerprint_Inr sample_unique)
  have "public_eq (sample_doc ''x'') (sample_doc ''y'')"
    using config_fingerprint_exact [OF _ _ sample_unique sample_unique fp fp refl refl]
    by (auto simp: sample_canonical [of "''x''" "''y''"])
  then show ?thesis by (simp add: fp)
qed

end
