(* ===== verification/Host_Config.thy ===== *)
theory Host_Config
  imports Host_Runtime Tunnel_Client_Inv Text_Tools Config_Fingerprint
begin

text \<open>
  Model of \<open>services/host-daemon/src/config.rs\<close>: the phone's configuration file as
  it is read, every check on it, and the start configuration it becomes.  Reading
  the file, its JSON, URLs, base64, environment variables and the operator property
  are outside the repository; they are the fields of \<open>HostWorld\<close>.  An error is its
  message.
\<close>

section \<open>The file\<close>

record FileOperatorProfiles =
  fo_default_profile :: "string option"
  fo_by_plmn :: "(string \<times> string) list"

record FileProxyConfig =
  fp_listen_address :: "string option"
  fp_username :: "string option"
  fp_password :: "string option"

record FileWireguardConfig =
  fw_enabled :: "bool option"
  fw_owner :: "string option"

record FileReverseTunnelConfig =
  fr_enabled :: "bool option"
  fr_transport :: "string option"
  fr_server_addr :: "string option"
  fr_tcp_fallback_addr :: "string option"
  fr_local_proxy_addr :: "string option"
  fr_local_socks5_addr :: "string option"
  fr_local_http_addr :: "string option"
  fr_quic_enabled :: "bool option"
  fr_transport_socks5_addr :: "string option"
  fr_server_name :: "string option"
  fr_server_cert_der_b64 :: "string option"
  fr_auth_token :: "string option"
  fr_connect_timeout_ms :: "u64 option"
  fr_heartbeat_interval_ms :: "u64 option"
  fr_reconnect_floor_ms :: "u64 option"
  fr_reconnect_ceiling_ms :: "u64 option"
  fr_counter_state_path :: "string option"

record FileControlPlaneConfig =
  fc_base_url :: "string option"
  fc_device_token :: "string option"
  fc_ui_token :: "string option"
  fc_server_name :: "string option"
  fc_server_addr :: "SocketAddr option"
  fc_server_cert_der_b64 :: "string option"
  fc_heartbeat_interval_secs :: "u64 option"
  fc_poll_interval_secs :: "u64 option"

record FileRotationConfig =
  fn_data_reconnect :: "string option"
  fn_airplane_bounce :: "string option"
  fn_network_mode_bounce :: "string option"
  fn_ril_bounce :: "string option"

record FileConfig =
  file_node_id :: "string option"
  file_node_name :: "string option"
  file_listen :: "string option"
  file_admin_token :: "string option"
  file_ui_control_token :: "string option"
  file_observer_urls :: "string list option"
  file_operator_profiles :: "FileOperatorProfiles option"
  file_proxy :: "FileProxyConfig option"
  file_wireguard :: "FileWireguardConfig option"
  file_reverse_tunnel :: "FileReverseTunnelConfig option"
  file_control_plane :: "FileControlPlaneConfig option"
  file_rotation :: "FileRotationConfig option"

record HostCli =
  cli_listen :: "string option"
  cli_admin_token :: "string option"
  cli_config :: "string option"

record Url =
  url_scheme :: string
  url_host :: "string option"
  url_username :: string
  url_password :: "string option"

record HostWorld =
  env_var :: "string \<Rightarrow> string option"
  parse_url :: "string \<Rightarrow> Url option"
  decode_base64 :: "bytes \<Rightarrow> bytes option"
  operator_property :: "string option"
  read_file :: "string \<Rightarrow> string + bytes"
  parse_file_config :: "bytes \<Rightarrow> string + FileConfig"
  parse_json :: "bytes \<Rightarrow> Json option"
  print_json :: "Json \<Rightarrow> bytes"
  own_binary :: "string + bytes"
  host_hashing :: Hashing

section \<open>Checks\<close>

definition PRIMARY_OWNER :: string where "PRIMARY_OWNER = ''first_party_reverse_tunnel''"
definition ROLLBACK_OWNER :: string where "ROLLBACK_OWNER = ''stock_wireguard_bridge''"
definition APP_OWNED_OWNER :: string where "APP_OWNED_OWNER = ''first_party_vpn_service''"
definition ANDROID_EGRESS_OWNER :: string where "ANDROID_EGRESS_OWNER = ''first_party_android_egress''"
definition MAX_SECRET_LENGTH :: nat where "MAX_SECRET_LENGTH = 4096"
definition MAX_URLS :: nat where "MAX_URLS = 8"

lemmas owner_names = PRIMARY_OWNER_def ROLLBACK_OWNER_def APP_OWNED_OWNER_def ANDROID_EGRESS_OWNER_def

definition check :: "bool \<Rightarrow> string \<Rightarrow> string + unit" where
  "check ok message = (if ok then Inr () else Inl message)"

definition or_else :: "'a option \<Rightarrow> 'a option \<Rightarrow> 'a option" where
  "or_else x y = (case x of Some v \<Rightarrow> Some v | None \<Rightarrow> y)"

definition unwrap_or :: "'a option \<Rightarrow> 'a \<Rightarrow> 'a" where
  "unwrap_or x d = (case x of Some v \<Rightarrow> v | None \<Rightarrow> d)"

definition validate_secret :: "string \<Rightarrow> string \<Rightarrow> string + unit" where
  "validate_secret field value =
     check (16 \<le> length value \<and> length value \<le> MAX_SECRET_LENGTH \<and> \<not> any_control value) (field @ '' is invalid'')"

definition identifier_char :: "char \<Rightarrow> bool" where
  "identifier_char c = (is_ascii_alphanumeric c \<or> c \<in> {CHR ''-'', CHR ''_'', CHR ''.'', CHR '':''})"

definition validate_identifier :: "string \<Rightarrow> string \<Rightarrow> nat \<Rightarrow> string + unit" where
  "validate_identifier field value maximum =
     check (value \<noteq> [] \<and> length value \<le> maximum \<and> list_all identifier_char value) (field @ '' is invalid'')"

definition validate_bounded_text :: "string \<Rightarrow> string \<Rightarrow> nat \<Rightarrow> string + unit" where
  "validate_bounded_text field value maximum =
     check (value \<noteq> [] \<and> length value \<le> maximum \<and> \<not> any_control value) (field @ '' is invalid'')"

definition bounded_interval :: "string \<Rightarrow> u64 \<Rightarrow> u64 \<Rightarrow> u64 \<Rightarrow> string + u64" where
  "bounded_interval field value minimum maximum =
     (if minimum \<le> value \<and> value \<le> maximum then Inr value else Inl (field @ '' is outside the supported range''))"

definition validate_state_path :: "string \<Rightarrow> string + unit" where
  "validate_state_path path =
     check (path \<noteq> [] \<and> ''..'' \<notin> set (split_on CHR ''/'' path)) ''reverse-tunnel counter state path is invalid''"

definition validate_owner_flags :: "string \<Rightarrow> bool \<Rightarrow> string + unit" where
  "validate_owner_flags owner wireguard =
     (if owner = PRIMARY_OWNER then check (\<not> wireguard) ''native reverse-tunnel owner must disable WireGuard''
      else if owner = ANDROID_EGRESS_OWNER then check (\<not> wireguard) ''Android egress owner must disable WireGuard''
      else if owner = ROLLBACK_OWNER then check wireguard ''stock rollback owner must enable WireGuard''
      else if owner = APP_OWNED_OWNER then
        Inl (if wireguard then ''first_party_vpn_service is disabled after physical validation'' else ''first-party VPN owner must enable WireGuard'')
      else Inl ''unsupported tunnel owner'')"

fun validate_each_url :: "HostWorld \<Rightarrow> string list \<Rightarrow> string + unit" where
  "validate_each_url w [] = Inr ()"
| "validate_each_url w (raw # urls) =
     (case parse_url w raw of
        None \<Rightarrow> Inl ''observer URL is invalid''
      | Some url \<Rightarrow>
          if url_scheme url \<noteq> ''https'' \<or> url_host url = None \<or> url_username url \<noteq> [] \<or> url_password url \<noteq> None
          then Inl ''observer URLs must be credential-free absolute HTTPS URLs'' else validate_each_url w urls)"

definition validate_observer_urls :: "HostWorld \<Rightarrow> string list \<Rightarrow> string + unit" where
  "validate_observer_urls w urls =
     (if urls = [] \<or> length urls > MAX_URLS then Inl ''observer URL inventory is invalid'' else validate_each_url w urls)"

definition decode_der_base64 :: "HostWorld \<Rightarrow> string \<Rightarrow> string + bytes" where
  "decode_der_base64 w raw = ok_or ''failed to decode base64 DER'' (decode_base64 w (trim raw))"

section \<open>Sections of the configuration\<close>

definition active_operator_profile :: "HostWorld \<Rightarrow> FileOperatorProfiles option \<Rightarrow> string" where
  "active_operator_profile w profiles =
     (case profiles of
        None \<Rightarrow> ''default''
      | Some p \<Rightarrow>
          (let fallback = unwrap_or (fo_default_profile p) ''default'' in
           case operator_property w of
             None \<Rightarrow> fallback
           | Some values \<Rightarrow>
               (case List.find (\<lambda>plmn. map_of (fo_by_plmn p) plmn \<noteq> None) (map trim (split_on CHR '','' values)) of
                  None \<Rightarrow> fallback
                | Some plmn \<Rightarrow> the (map_of (fo_by_plmn p) plmn))))"

record ControlPlaneSyncConfig =
  sync_base_url :: string
  sync_device_token :: string
  sync_ui_token :: string
  sync_server_name :: "string option"
  sync_server_addr :: "SocketAddr option"
  sync_server_cert_der :: "bytes option"
  sync_heartbeat_interval_secs :: u64
  sync_poll_interval_secs :: u64

definition control_plane_config :: "HostWorld \<Rightarrow> FileConfig \<Rightarrow> string + ControlPlaneSyncConfig option" where
  "control_plane_config w file =
     (case file_control_plane file of
        None \<Rightarrow> Inr None
      | Some c \<Rightarrow>
          and_then (ok_or ''control_plane.base_url is required'' (or_else (fc_base_url c) (env_var w ''HOST_DAEMON_CONTROL_PLANE_URL''))) (\<lambda>base_url.
          and_then (ok_or ''control_plane.base_url is invalid'' (parse_url w base_url)) (\<lambda>parsed.
          and_then (check (url_scheme parsed = ''https'' \<and> url_host parsed \<noteq> None) ''control_plane.base_url must be an absolute HTTPS URL'') (\<lambda>_.
          and_then (ok_or ''control_plane.device_token is required'' (or_else (fc_device_token c) (env_var w ''HOST_DAEMON_DEVICE_TOKEN''))) (\<lambda>device_token.
          and_then (validate_secret ''control_plane.device_token'' device_token) (\<lambda>_.
          and_then (ok_or ''control_plane.ui_token is required'' (fc_ui_token c)) (\<lambda>ui_token.
          and_then (validate_secret ''control_plane.ui_token'' ui_token) (\<lambda>_.
          and_then (ok_or ''control_plane.server_name is required'' (fc_server_name c)) (\<lambda>server_name.
          and_then (validate_identifier ''control_plane.server_name'' server_name 253) (\<lambda>_.
          and_then (ok_or ''control_plane.server_addr is required'' (fc_server_addr c)) (\<lambda>server_addr.
          and_then (ok_or ''control_plane.server_cert_der_b64 is required'' (fc_server_cert_der_b64 c)) (\<lambda>cert.
          and_then (decode_der_base64 w cert) (\<lambda>server_cert_der.
          and_then (bounded_interval ''control_plane.heartbeat_interval_secs'' (unwrap_or (fc_heartbeat_interval_secs c) 2) 1 300) (\<lambda>heartbeat.
          and_then (bounded_interval ''control_plane.poll_interval_secs'' (unwrap_or (fc_poll_interval_secs c) 5) 1 300) (\<lambda>poll.
          Inr (Some \<lparr>sync_base_url = base_url, sync_device_token = device_token, sync_ui_token = ui_token,
                     sync_server_name = Some server_name, sync_server_addr = Some server_addr, sync_server_cert_der = Some server_cert_der,
                     sync_heartbeat_interval_secs = heartbeat, sync_poll_interval_secs = poll\<rparr>))))))))))))))))"

definition parse_addr :: "string \<Rightarrow> string option \<Rightarrow> string + SocketAddr" where
  "parse_addr name value =
     and_then (ok_or (''reverse_tunnel.'' @ name @ '' is required'') value) (\<lambda>v.
     ok_or (''reverse_tunnel.'' @ name @ '' is invalid'') (parse_socket_addr v))"

definition parse_optional_loopback :: "string \<Rightarrow> string option \<Rightarrow> string + SocketAddr option" where
  "parse_optional_loopback name value =
     (case value of
        None \<Rightarrow> Inr None
      | Some v \<Rightarrow>
          and_then (ok_or (''reverse_tunnel.'' @ name @ '' is invalid'') (parse_socket_addr v)) (\<lambda>address.
          and_then (check (is_loopback (socket_ip address)) (''reverse_tunnel.'' @ name @ '' must be loopback'')) (\<lambda>_.
          Inr (Some address))))"

text \<open>The four intervals of the tunnel in milliseconds: connect timeout, heartbeat, floor and ceiling.\<close>

definition tunnel_intervals :: "FileReverseTunnelConfig \<Rightarrow> string + u64 \<times> u64 \<times> u64 \<times> u64" where
  "tunnel_intervals c =
     and_then (bounded_interval ''reverse_tunnel.connect_timeout_ms'' (unwrap_or (fr_connect_timeout_ms c) 2000) 100 60000) (\<lambda>connect.
     and_then (bounded_interval ''reverse_tunnel.heartbeat_interval_ms'' (unwrap_or (fr_heartbeat_interval_ms c) 2000) 100 60000) (\<lambda>heartbeat.
     and_then (bounded_interval ''reverse_tunnel.reconnect_floor_ms'' (unwrap_or (fr_reconnect_floor_ms c) 1000) 100 60000) (\<lambda>floor_ms.
     and_then (bounded_interval ''reverse_tunnel.reconnect_ceiling_ms'' (unwrap_or (fr_reconnect_ceiling_ms c) 30000) floor_ms 300000) (\<lambda>ceiling_ms.
     Inr (connect, heartbeat, floor_ms, ceiling_ms)))))"

definition reverse_tunnel_config ::
  "HostWorld \<Rightarrow> FileConfig \<Rightarrow> string \<Rightarrow> string \<Rightarrow> string \<Rightarrow> string \<Rightarrow> string + ReverseTunnelClientConfig option" where
  "reverse_tunnel_config w file node owner username password =
     (if owner = ROLLBACK_OWNER \<or> owner = APP_OWNED_OWNER then
        (if (case file_reverse_tunnel file of Some c \<Rightarrow> unwrap_or (fr_enabled c) False | None \<Rightarrow> False)
         then Inl ''WireGuard tunnel owners must not enable the reverse tunnel'' else Inr None)
      else
        and_then (ok_or ''native owner requires reverse_tunnel configuration'' (file_reverse_tunnel file)) (\<lambda>c.
        and_then (check (fr_enabled c = Some True) ''native owner requires reverse_tunnel.enabled=true'') (\<lambda>_.
        and_then (check (unwrap_or (fr_transport c) ''hybrid'' = ''hybrid'')
          ''production reverse tunnel transport must be hybrid; plaintext tcp is forbidden'') (\<lambda>_.
        and_then (parse_addr ''server_addr'' (fr_server_addr c)) (\<lambda>server_addr.
        and_then (parse_addr ''tcp_fallback_addr'' (fr_tcp_fallback_addr c)) (\<lambda>tcp_fallback_addr.
        and_then (parse_addr ''local_proxy_addr'' (fr_local_proxy_addr c)) (\<lambda>local_proxy_addr.
        and_then (check (is_loopback (socket_ip local_proxy_addr)) ''reverse_tunnel.local_proxy_addr must be loopback'') (\<lambda>_.
        and_then (parse_optional_loopback ''local_socks5_addr'' (fr_local_socks5_addr c)) (\<lambda>local_socks5_addr.
        and_then (parse_optional_loopback ''local_http_addr'' (fr_local_http_addr c)) (\<lambda>local_http_addr.
        and_then (parse_optional_loopback ''transport_socks5_addr'' (fr_transport_socks5_addr c)) (\<lambda>transport_socks5_addr.
        and_then (ok_or ''reverse_tunnel.auth_token is required'' (fr_auth_token c)) (\<lambda>auth_token.
        and_then (validate_secret ''reverse_tunnel.auth_token'' auth_token) (\<lambda>_.
        and_then (ok_or ''reverse_tunnel.server_name is required'' (fr_server_name c)) (\<lambda>server_name.
        and_then (validate_identifier ''reverse_tunnel.server_name'' server_name 253) (\<lambda>_.
        and_then (ok_or ''reverse_tunnel.server_cert_der_b64 is required'' (fr_server_cert_der_b64 c)) (\<lambda>cert.
        and_then (decode_der_base64 w cert) (\<lambda>server_cert_der.
        and_then (tunnel_intervals c) (\<lambda>(connect, heartbeat, floor_ms, ceiling_ms).
        Inr (Some \<lparr>cfg_node_id = node, cfg_server_addr = server_addr, cfg_tcp_fallback_addr = Some tcp_fallback_addr,
          cfg_local_proxy_addr = local_proxy_addr, cfg_local_socks5_addr = local_socks5_addr, cfg_local_http_addr = local_http_addr,
          cfg_quic_enabled = unwrap_or (fr_quic_enabled c) True,
          cfg_transport_socks5 = map_option (\<lambda>a. \<lparr>socks5_server_addr = a, socks5_username = username, socks5_password = password\<rparr>) transport_socks5_addr,
          cfg_auth_token = auth_token, cfg_transport = TransportHybrid server_name server_cert_der None,
          cfg_connect_timeout = unat connect, cfg_heartbeat_interval = unat heartbeat,
          cfg_reconnect_floor = unat floor_ms, cfg_reconnect_ceiling = unat ceiling_ms\<rparr>)))))))))))))))))))"

definition configured_command :: "FileConfig \<Rightarrow> (FileRotationConfig \<Rightarrow> string option) \<Rightarrow> string + string option" where
  "configured_command file selector =
     (let command = Option.bind (file_rotation file) selector in
      and_then (case command of Some value \<Rightarrow> validate_bounded_text ''rotation command'' value 2048 | None \<Rightarrow> Inr ()) (\<lambda>_. Inr command))"

definition rotation_commands :: "FileConfig \<Rightarrow> string + RotationCommands" where
  "rotation_commands file =
     and_then (configured_command file fn_data_reconnect) (\<lambda>data.
     and_then (configured_command file fn_airplane_bounce) (\<lambda>airplane.
     and_then (configured_command file fn_network_mode_bounce) (\<lambda>network.
     and_then (configured_command file fn_ril_bounce) (\<lambda>ril.
     Inr \<lparr>data_reconnect = data, airplane_bounce = airplane, network_mode_bounce = network, ril_bounce = ril\<rparr>))))"

definition load_file_config :: "HostWorld \<Rightarrow> string option \<Rightarrow> string + FileConfig option \<times> digest option" where
  "load_file_config w path =
     (case path of
        None \<Rightarrow> Inr (None, None)
      | Some p \<Rightarrow>
          and_then (read_file w p) (\<lambda>body.
          and_then (check (body \<noteq> [] \<and> length body \<le> 1048576) ''host-daemon configuration size is invalid'') (\<lambda>_.
          and_then (config_source_fingerprint (host_hashing w) (parse_json w) (print_json w) body) (\<lambda>fingerprint.
          and_then (parse_file_config w body) (\<lambda>config.
          Inr (Some config, Some fingerprint))))))"

section \<open>Loading\<close>

definition DEVICE_ID :: string where "DEVICE_ID = ''b4a6b2f4-5f6f-4fd1-baa4-b7d241b49a06''"
definition NODE_NAME :: string where "NODE_NAME = ''galaxy-a02-gcp-relay''"

record LoadedConfig =
  ld_listen :: string
  ld_admin_token :: string
  ld_ui_control_token :: "string option"
  ld_control_plane_sync :: "ControlPlaneSyncConfig option"
  ld_reverse_tunnel :: "ReverseTunnelClientConfig option"
  ld_counter_state_path :: "string option"
  ld_runtime_state :: HostRuntimeState
  ld_probe :: ProbeConfig

definition host_listen :: "HostCli \<Rightarrow> FileConfig \<Rightarrow> string + string" where
  "host_listen cli file =
     (let listen = unwrap_or (or_else (cli_listen cli) (file_listen file)) ''127.0.0.1:8088'' in
      and_then (ok_or ''host-daemon listen address is invalid'' (parse_socket_addr listen)) (\<lambda>addr.
      and_then (check (is_loopback (socket_ip addr)) ''host-daemon API must bind to a loopback address'') (\<lambda>_.
      Inr listen)))"

definition host_tokens :: "HostCli \<Rightarrow> FileConfig \<Rightarrow> string + string \<times> string option" where
  "host_tokens cli file =
     and_then (ok_or ''admin_token is required'' (or_else (cli_admin_token cli) (file_admin_token file))) (\<lambda>admin_token.
     and_then (validate_secret ''admin_token'' admin_token) (\<lambda>_.
     and_then (case file_ui_control_token file of Some token \<Rightarrow> validate_secret ''ui_control_token'' token | None \<Rightarrow> Inr ()) (\<lambda>_.
     Inr (admin_token, file_ui_control_token file))))"

definition host_names :: "HostWorld \<Rightarrow> FileConfig \<Rightarrow> string + string \<times> string \<times> string" where
  "host_names w file =
     (let node = unwrap_or (or_else (file_node_id file) (env_var w ''HOST_DAEMON_NODE_ID'')) DEVICE_ID;
          name = unwrap_or (or_else (file_node_name file) (env_var w ''HOST_DAEMON_NODE_NAME'')) NODE_NAME;
          profile = active_operator_profile w (file_operator_profiles file) in
      and_then (validate_identifier ''node_id'' node 64) (\<lambda>_.
      and_then (validate_identifier ''node_name'' name 128) (\<lambda>_.
      and_then (validate_identifier ''operator profile'' profile 64) (\<lambda>_.
      Inr (node, name, profile)))))"

definition host_owner :: "FileConfig \<Rightarrow> string + bool \<times> string" where
  "host_owner file =
     and_then (ok_or ''wireguard owner configuration is required'' (file_wireguard file)) (\<lambda>wireguard.
     and_then (ok_or ''wireguard.enabled is required'' (fw_enabled wireguard)) (\<lambda>enabled.
     and_then (ok_or ''wireguard.owner is required'' (fw_owner wireguard)) (\<lambda>owner.
     and_then (validate_owner_flags owner enabled) (\<lambda>_.
     Inr (enabled, owner)))))"

definition host_proxy :: "FileConfig \<Rightarrow> string \<Rightarrow> string + string \<times> string \<times> string" where
  "host_proxy file owner =
     and_then (ok_or ''proxy configuration is required'' (file_proxy file)) (\<lambda>proxy.
     and_then (ok_or ''proxy.listen_address is required'' (fp_listen_address proxy)) (\<lambda>listen.
     and_then (ok_or ''proxy.listen_address is invalid'' (parse_socket_addr listen)) (\<lambda>addr.
     and_then (check (\<not> (owner = PRIMARY_OWNER \<and> \<not> is_loopback (socket_ip addr))) ''native reverse-tunnel proxy must bind to loopback'') (\<lambda>_.
     and_then (ok_or ''proxy.username is required'' (fp_username proxy)) (\<lambda>username.
     and_then (ok_or ''proxy.password is required'' (fp_password proxy)) (\<lambda>password.
     and_then (validate_bounded_text ''proxy.username'' username 256) (\<lambda>_.
     and_then (validate_secret ''proxy.password'' password) (\<lambda>_.
     Inr (listen, username, password)))))))))"

definition counter_state_path :: "HostWorld \<Rightarrow> FileConfig \<Rightarrow> ReverseTunnelClientConfig option \<Rightarrow> string + string option" where
  "counter_state_path w file tunnel =
     (case tunnel of
        None \<Rightarrow> Inr None
      | Some _ \<Rightarrow>
          (let path = unwrap_or (or_else (Option.bind (file_reverse_tunnel file) fr_counter_state_path)
                                         (env_var w ''HOST_DAEMON_REVERSE_TUNNEL_COUNTER_STATE_PATH''))
                        ''state/reverse-tunnel-counters-v1.json'' in
           and_then (validate_state_path path) (\<lambda>_. Inr (Some path))))"

definition initial_health :: "string \<Rightarrow> string \<Rightarrow> string \<Rightarrow> string \<Rightarrow> digest option \<Rightarrow> digest \<Rightarrow> HealthRecord" where
  "initial_health node name profile owner config_fingerprint binary =
     \<lparr>he_node_id = node, he_node_name = name, he_config_fingerprint = map_option CurrentFingerprint config_fingerprint,
      he_binary_fingerprint = CurrentFingerprint binary, he_readiness_state = RuntimeReadiness_display ReadinessBooting,
      he_serving = False, he_proxy_status = ''starting'', he_last_public_ip = None, he_active_operator_profile = Some profile,
      he_active_operator_plmn = None, he_last_proxy_error = None, he_serving_failure_reason = None, he_degradation_reason_code = None,
      he_cellular_route_ready = None, he_proxy_bind_ready = None, he_local_serving_ready = None, he_tun0_present = None,
      he_wg_handshake_recent = None, he_reverse_tunnel_connected = None, he_reverse_tunnel_last_error = None,
      he_reverse_tunnel_active_transport = None, he_reverse_tunnel_freshness = None, he_reverse_tunnel_failover_reason = None,
      he_tunnel_owner = Some owner\<rparr>"

definition load_runtime_config :: "HostWorld \<Rightarrow> HostCli \<Rightarrow> string + LoadedConfig" where
  "load_runtime_config w cli =
     and_then (load_file_config w (cli_config cli)) (\<lambda>(maybe_file, fingerprint).
     and_then (ok_or ''host-daemon requires an explicit configuration file'' maybe_file) (\<lambda>file.
     and_then (host_listen cli file) (\<lambda>listen.
     and_then (host_tokens cli file) (\<lambda>(admin_token, ui_control_token).
     and_then (host_names w file) (\<lambda>(node, name, profile).
     and_then (host_owner file) (\<lambda>(wireguard_enabled, owner).
     and_then (host_proxy file owner) (\<lambda>(proxy_listen, username, password).
     (let urls = unwrap_or (file_observer_urls file) [''https://api.ipify.org?format=json''] in
     and_then (validate_observer_urls w urls) (\<lambda>_.
     and_then (rotation_commands file) (\<lambda>commands.
     and_then (control_plane_config w file) (\<lambda>sync.
     and_then (reverse_tunnel_config w file node owner username password) (\<lambda>tunnel.
     and_then (counter_state_path w file tunnel) (\<lambda>path.
     and_then (binary_fingerprint (host_hashing w) (own_binary w)) (\<lambda>binary.
     Inr \<lparr>ld_listen = listen, ld_admin_token = admin_token, ld_ui_control_token = ui_control_token, ld_control_plane_sync = sync,
          ld_reverse_tunnel = tunnel, ld_counter_state_path = path,
          ld_runtime_state = HostRuntimeState_new (initial_health node name profile owner fingerprint binary) wireguard_enabled
            (Some owner) proxy_listen commands urls,
          ld_probe = \<lparr>probe_observer_urls = urls, probe_proxy_listen_address = proxy_listen, probe_proxy_username = username,
            probe_proxy_password = password, probe_wireguard_enabled = wireguard_enabled, probe_tunnel_owner = Some owner\<rparr>\<rparr>))))))))))))))"

section \<open>What a loaded configuration guarantees\<close>

lemma check_Inr [simp]: "check ok m = Inr u \<longleftrightarrow> ok"
  by (simp add: check_def)

lemma bounded_interval_Inr [simp]: "bounded_interval f v lo hi = Inr r \<longleftrightarrow> r = v \<and> lo \<le> v \<and> v \<le> hi"
  by (auto simp: bounded_interval_def)

lemma optional_loopback_Inr:
  "parse_optional_loopback name value = Inr (Some a) \<Longrightarrow> is_loopback (socket_ip a)"
  by (auto simp: parse_optional_loopback_def and_then_Inr_iff split: option.splits)

lemma tunnel_intervals_Inr:
  assumes "tunnel_intervals c = Inr (connect, heartbeat, floor_ms, ceiling_ms)"
  shows "100 \<le> unat floor_ms" "unat floor_ms \<le> unat ceiling_ms" "unat ceiling_ms \<le> 300000" "100 \<le> unat heartbeat" "unat heartbeat \<le> 60000"
  using assms by (auto simp: tunnel_intervals_def and_then_Inr_iff word_le_nat_alt)

text \<open>What the tunnel client relies on.\<close>

definition safe_tunnel :: "ReverseTunnelClientConfig \<Rightarrow> bool" where
  "safe_tunnel config =
     (hybrid config \<and> is_loopback (socket_ip (cfg_local_proxy_addr config))
      \<and> (\<forall>a. cfg_local_socks5_addr config = Some a \<longrightarrow> is_loopback (socket_ip a))
      \<and> (\<forall>a. cfg_local_http_addr config = Some a \<longrightarrow> is_loopback (socket_ip a))
      \<and> (\<forall>p. cfg_transport_socks5 config = Some p \<longrightarrow> is_loopback (socket_ip (socks5_server_addr p)))
      \<and> 16 \<le> length (cfg_auth_token config)
      \<and> 100 \<le> cfg_reconnect_floor config \<and> cfg_reconnect_floor config \<le> cfg_reconnect_ceiling config \<and> cfg_reconnect_ceiling config \<le> 300000
      \<and> 100 \<le> cfg_heartbeat_interval config \<and> cfg_heartbeat_interval config \<le> 60000)"

lemma reverse_tunnel_config_safe:
  assumes "reverse_tunnel_config w file node owner username password = Inr (Some config)"
  shows "safe_tunnel config" "owner \<noteq> ROLLBACK_OWNER" "owner \<noteq> APP_OWNED_OWNER"
  using assms
  by (auto simp: reverse_tunnel_config_def and_then_Inr_iff safe_tunnel_def hybrid_def validate_secret_def
      split: if_splits dest: tunnel_intervals_Inr intro: optional_loopback_Inr) (metis optional_loopback_Inr)?

lemma owner_distinct:
  "PRIMARY_OWNER \<noteq> ROLLBACK_OWNER" "ANDROID_EGRESS_OWNER \<noteq> ROLLBACK_OWNER" "PRIMARY_OWNER \<noteq> APP_OWNED_OWNER"
  "ANDROID_EGRESS_OWNER \<noteq> APP_OWNED_OWNER" "PRIMARY_OWNER \<noteq> ANDROID_EGRESS_OWNER" "ROLLBACK_OWNER \<noteq> APP_OWNED_OWNER"
  by (simp_all add: owner_names)

lemma reverse_tunnel_config_None:
  "reverse_tunnel_config w fc node owner username password = Inr None \<Longrightarrow> owner = ROLLBACK_OWNER \<or> owner = APP_OWNED_OWNER"
  by (auto simp: reverse_tunnel_config_def and_then_Inr_iff split: if_splits)

lemma counter_path_Some: "counter_state_path w fc (Some config) = Inr p \<Longrightarrow> \<exists>path. p = Some path"
  by (auto simp: counter_state_path_def and_then_Inr_iff Let_def)

lemma loaded_parts:
  assumes "load_runtime_config w cli = Inr loaded"
  obtains fc node owner username password enabled where
    "host_listen cli fc = Inr (ld_listen loaded)" "host_tokens cli fc = Inr (ld_admin_token loaded, ld_ui_control_token loaded)"
    "host_owner fc = Inr (enabled, owner)" "host_proxy fc owner = Inr (probe_proxy_listen_address (ld_probe loaded), username, password)"
    "reverse_tunnel_config w fc node owner username password = Inr (ld_reverse_tunnel loaded)"
    "rt_tunnel_owner (ld_runtime_state loaded) = Some owner" "control_plane_config w fc = Inr (ld_control_plane_sync loaded)"
    "rt_observer_urls (ld_runtime_state loaded) = probe_observer_urls (ld_probe loaded)"
    "validate_observer_urls w (probe_observer_urls (ld_probe loaded)) = Inr ()"
    "counter_state_path w fc (ld_reverse_tunnel loaded) = Inr (ld_counter_state_path loaded)"
  using assms
  by (auto simp: load_runtime_config_def and_then_Inr_iff HostRuntimeState_new_def Let_def split: prod.splits)

section \<open>Claims\<close>


definition sample_file :: FileConfig where
  "sample_file =
     \<lparr>file_node_id = Some ''phone-1'', file_node_name = None, file_listen = None, file_admin_token = Some ''admin-token-0000001'',
      file_ui_control_token = None, file_observer_urls = None, file_operator_profiles = None,
      file_proxy = Some \<lparr>fp_listen_address = Some ''127.0.0.1:1080'', fp_username = Some ''user'', fp_password = Some ''proxy-password-001''\<rparr>,
      file_wireguard = Some \<lparr>fw_enabled = Some False, fw_owner = Some ''first_party_reverse_tunnel''\<rparr>,
      file_reverse_tunnel = Some
        \<lparr>fr_enabled = Some True, fr_transport = None, fr_server_addr = Some ''127.0.0.1:18'', fr_tcp_fallback_addr = Some ''127.0.0.1:443'',
         fr_local_proxy_addr = Some ''127.0.0.1:1080'', fr_local_socks5_addr = None, fr_local_http_addr = None, fr_quic_enabled = None,
         fr_transport_socks5_addr = None, fr_server_name = Some ''relay'', fr_server_cert_der_b64 = Some ''MAA='',
         fr_auth_token = Some ''reverse-token-00001'', fr_connect_timeout_ms = None, fr_heartbeat_interval_ms = None,
         fr_reconnect_floor_ms = None, fr_reconnect_ceiling_ms = None, fr_counter_state_path = None\<rparr>,
      file_control_plane = None, file_rotation = None\<rparr>"

definition sample_host_world :: HostWorld where
  "sample_host_world =
     \<lparr>env_var = (\<lambda>_. None), parse_url = (\<lambda>_. Some \<lparr>url_scheme = ''https'', url_host = Some ''h'', url_username = [], url_password = None\<rparr>),
      decode_base64 = (\<lambda>_. Some []), operator_property = None, read_file = (\<lambda>_. Inr ''file''),
      parse_file_config = (\<lambda>_. Inr sample_file), parse_json = (\<lambda>_. Some JNull), print_json = (\<lambda>_. ''null''),
      own_binary = Inr ''elf'', host_hashing = sample_blake3\<rparr>"

definition sample_host_cli :: HostCli where
  "sample_host_cli = \<lparr>cli_listen = None, cli_admin_token = None, cli_config = Some ''config.json''\<rparr>"

lemma sample_addresses:
  "parse_socket_addr ''127.0.0.1:8088'' = Some (SocketV4 0x7F000001 8088)"
  "parse_socket_addr ''127.0.0.1:1080'' = Some (SocketV4 0x7F000001 1080)"
  "parse_socket_addr ''127.0.0.1:18'' = Some (SocketV4 0x7F000001 18)"
  "parse_socket_addr ''127.0.0.1:443'' = Some (SocketV4 0x7F000001 443)"
  by (simp_all add: socket_readers)

lemmas config_checks = check_def validate_secret_def validate_identifier_def validate_bounded_text_def bounded_interval_def
  MAX_SECRET_LENGTH_def identifier_char_def is_ascii_alphanumeric_def is_ascii_digit_def is_ascii_upper_def is_ascii_lower_def
  is_ascii_control_def in_range_def byte_at_def or_else_def unwrap_or_def owner_names

lemma sample_tunnel:
  "\<exists>config. reverse_tunnel_config sample_host_world sample_file ''phone-1'' PRIMARY_OWNER ''user'' ''proxy-password-001'' = Inr (Some config)"
  by (simp add: reverse_tunnel_config_def sample_file_def parse_addr_def sample_addresses parse_optional_loopback_def decode_der_base64_def
      sample_host_world_def tunnel_intervals_def config_checks)

lemma sample_loads: "\<exists>loaded config. load_runtime_config sample_host_world sample_host_cli = Inr loaded \<and> ld_reverse_tunnel loaded = Some config"
proof -
  obtain config where t: "reverse_tunnel_config sample_host_world sample_file ''phone-1'' PRIMARY_OWNER ''user'' ''proxy-password-001'' = Inr (Some config)"
    using sample_tunnel by blast
  have "\<exists>f. load_file_config sample_host_world (cli_config sample_host_cli) = Inr (Some sample_file, Some f)"
    by (simp add: load_file_config_def sample_host_cli_def sample_host_world_def check_def config_source_fingerprint_def)
  moreover have "host_listen sample_host_cli sample_file = Inr ''127.0.0.1:8088''"
    by (simp add: host_listen_def sample_host_cli_def sample_file_def sample_addresses config_checks)
  moreover have "host_tokens sample_host_cli sample_file = Inr (''admin-token-0000001'', None)"
    by (simp add: host_tokens_def sample_host_cli_def sample_file_def config_checks)
  moreover have "host_names sample_host_world sample_file = Inr (''phone-1'', NODE_NAME, ''default'')"
    by (simp add: host_names_def sample_host_world_def sample_file_def active_operator_profile_def NODE_NAME_def config_checks)
  moreover have "host_owner sample_file = Inr (False, PRIMARY_OWNER)"
    by (simp add: host_owner_def sample_file_def validate_owner_flags_def config_checks)
  moreover have "host_proxy sample_file PRIMARY_OWNER = Inr (''127.0.0.1:1080'', ''user'', ''proxy-password-001'')"
    by (simp add: host_proxy_def sample_file_def sample_addresses config_checks)
  moreover have "validate_observer_urls sample_host_world (unwrap_or (file_observer_urls sample_file) [''https://api.ipify.org?format=json'']) = Inr ()"
    by (simp add: validate_observer_urls_def sample_host_world_def sample_file_def unwrap_or_def MAX_URLS_def)
  moreover have "\<exists>c. rotation_commands sample_file = Inr c" "control_plane_config sample_host_world sample_file = Inr None"
    by (simp_all add: rotation_commands_def configured_command_def control_plane_config_def sample_file_def Let_def)
  moreover have "\<exists>p. counter_state_path sample_host_world sample_file (Some config) = Inr p"
    by (simp add: counter_state_path_def sample_host_world_def sample_file_def validate_state_path_def config_checks)
  moreover have "\<exists>b. binary_fingerprint (host_hashing sample_host_world) (own_binary sample_host_world) = Inr b"
    by (simp add: sample_host_world_def binary_fingerprint_def)
  ultimately show ?thesis using t by (auto simp: load_runtime_config_def Let_def)
qed




end
