(* ===== verification/Proxy_Config.thy ===== *)
theory Proxy_Config
  imports Host_Config
begin

text \<open>
  Model of \<open>services/runtime-supervisor/src/dns.rs\<close>: the proxy's configuration is kept
  pointing at the DNS servers and the interface of the validated cellular network.
  The configuration file is the document it holds; what Android's tools print and
  whether the replacement of the file succeeds are arguments.
\<close>

section \<open>Addresses as text\<close>

definition v4_text :: "u32 \<Rightarrow> string" where
  "v4_text a =
     nat_text (unat (drop_bit 24 a)) @ ''.'' @ nat_text (unat (take_bit 8 (drop_bit 16 a))) @ ''.''
       @ nat_text (unat (take_bit 8 (drop_bit 8 a))) @ ''.'' @ nat_text (unat (take_bit 8 a))"

definition segments :: "uuid \<Rightarrow> nat list" where
  "segments a = map (\<lambda>i. unat (take_bit 16 (drop_bit (16 * i) a))) [7, 6, 5, 4, 3, 2, 1, 0]"

fun hex_digits :: "nat \<Rightarrow> string" where
  "hex_digits n = (if n < 16 then [char_of (if n < 10 then 48 + n else 87 + n)] else hex_digits (n div 16) @ hex_digits (n mod 16))"

declare hex_digits.simps [simp del]

fun colon_text :: "nat list \<Rightarrow> string" where
  "colon_text [] = []"
| "colon_text [s] = hex_digits s"
| "colon_text (s # ss) = hex_digits s @ '':'' @ colon_text ss"

text \<open>The first longest run of zero segments, as its start and length; \<open>run\<close> is the length of the run that ends before \<open>i\<close>.\<close>

fun longest_zeros :: "nat list \<Rightarrow> nat \<Rightarrow> nat \<Rightarrow> nat \<times> nat \<Rightarrow> nat \<times> nat" where
  "longest_zeros [] i run best = best"
| "longest_zeros (s # ss) i run best =
     (let run' = (if s = 0 then run + 1 else 0) in
      longest_zeros ss (i + 1) run' (if snd best < run' then (i + 1 - run', run') else best))"

definition v6_text :: "uuid \<Rightarrow> string" where
  "v6_text a =
     (let ss = segments a in
      if drop_bit 32 a = 0xFFFF then ''::ffff:'' @ v4_text (ucast (take_bit 32 a))
      else case longest_zeros ss 0 0 (0, 0) of (start, n) \<Rightarrow>
        if 1 < n then colon_text (take start ss) @ ''::'' @ colon_text (drop (start + n) ss) else colon_text ss)"

fun ip_text :: "IpAddr \<Rightarrow> string" where
  "ip_text (V4 a) = v4_text a"
| "ip_text (V6 a) = v6_text a"

definition parse_ip_addr :: "string \<Rightarrow> IpAddr option" where
  "parse_ip_addr s =
     (case (case read_ipv4_addr s of
              Some (a, rest) \<Rightarrow> Some (V4 a, rest)
            | None \<Rightarrow> map_option (\<lambda>(a, rest). (V6 a, rest)) (read_ipv6_addr s)) of
        Some (a, []) \<Rightarrow> Some a
      | _ \<Rightarrow> None)"

section \<open>DNS servers of the cellular network\<close>

definition validated_cellular :: "string \<Rightarrow> bool" where
  "validated_cellular line =
     (contains ''NetworkAgentInfo'' line \<and> contains ''type: MOBILE'' line \<and> contains ''state: CONNECTED/CONNECTED'' line
      \<and> contains ''VALIDATED'' line \<and> \<not> contains ''CAPTIVE_PORTAL'' line)"

definition listed_addresses :: "string \<Rightarrow> IpAddr list" where
  "listed_addresses line =
     (let marker = ''DnsAddresses: ['';
          listed = (case after_first marker line of None \<Rightarrow> [] | Some rest \<Rightarrow> up_to '']'' (up_to marker rest)) in
      List.map_filter (\<lambda>raw. parse_ip_addr (dropWhile (\<lambda>c. c = CHR ''/'') (trim raw))) (split_on CHR '','' listed))"

definition push_unique :: "'a list \<Rightarrow> 'a \<Rightarrow> 'a list" where
  "push_unique unique address = (if address \<in> set unique then unique else unique @ [address])"

definition parse_validated_cellular_dns :: "string \<Rightarrow> IpAddr list" where
  "parse_validated_cellular_dns raw = foldl push_unique [] (concat (map listed_addresses (filter validated_cellular (text_lines raw))))"

section \<open>Editing the document\<close>

datatype EditFailure = EditError string | EditPanic

text \<open>
  \<open>document[key] = \<dots>\<close>: null becomes an object, an object gets the key, and any other
  value panics.
\<close>

definition index_mut :: "string \<Rightarrow> (Json \<Rightarrow> EditFailure + Json) \<Rightarrow> Json \<Rightarrow> EditFailure + Json" where
  "index_mut key f document =
     (case document of
        JNull \<Rightarrow> and_then (f JNull) (\<lambda>v. Inr (JObject [(key, v)]))
      | JObject m \<Rightarrow> and_then (f (unwrap_or (map_of m key) JNull)) (\<lambda>v. Inr (JObject (bt_insert key v m)))
      | _ \<Rightarrow> Inl EditPanic)"

definition set_member :: "string \<Rightarrow> Json \<Rightarrow> Json \<Rightarrow> EditFailure + Json" where
  "set_member key v = index_mut key (\<lambda>_. Inr v)"

definition set_at :: "string \<Rightarrow> string \<Rightarrow> Json \<Rightarrow> Json \<Rightarrow> EditFailure + Json" where
  "set_at outer inner v = index_mut outer (set_member inner v)"

definition get_at :: "string \<Rightarrow> string \<Rightarrow> Json \<Rightarrow> Json option" where
  "get_at outer inner document = Option.bind (json_get outer document) (json_get inner)"

fun dns_servers :: "nat \<Rightarrow> IpAddr list \<Rightarrow> Json list" where
  "dns_servers index [] = []"
| "dns_servers index (a # as) =
     JObject (bt_of_list [(''type'', JString ''udp''), (''tag'', JString (''dns-cellular-'' @ nat_text (index + 1))),
       (''server'', JString (ip_text a)), (''server_port'', JNumber (PosInt 53))]) # dns_servers (index + 1) as"

definition primary_dns :: string where "primary_dns = ''dns-cellular-1''"

definition dns_current :: "IpAddr list \<Rightarrow> Json \<Rightarrow> bool" where
  "dns_current addresses document =
     (get_at ''dns'' ''servers'' document = Some (JArray (dns_servers 0 addresses))
      \<and> Option.bind (get_at ''dns'' ''final'' document) json_as_str = Some primary_dns
      \<and> Option.bind (get_at ''route'' ''default_domain_resolver'' document) json_as_str = Some primary_dns)"

definition replace_file :: "string option \<Rightarrow> Json \<Rightarrow> EditFailure + Json option" where
  "replace_file failure document = (case failure of None \<Rightarrow> Inr (Some document) | Some e \<Rightarrow> Inl (EditError e))"

definition reconcile_cellular_dns :: "string option \<Rightarrow> string + Json \<Rightarrow> string option \<Rightarrow> EditFailure + Json option" where
  "reconcile_cellular_dns dumpsys contents failure =
     and_then (ok_or (EditError ''dumpsys connectivity failed'') dumpsys) (\<lambda>raw.
     (let addresses = parse_validated_cellular_dns raw in
      if addresses = [] then Inr None
      else and_then (map_err EditError contents) (\<lambda>document.
        if dns_current addresses document then Inr None
        else and_then (set_at ''dns'' ''servers'' (JArray (dns_servers 0 addresses)) document) (\<lambda>d1.
             and_then (set_at ''dns'' ''final'' (JString primary_dns) d1) (\<lambda>d2.
             and_then (set_at ''route'' ''default_domain_resolver'' (JString primary_dns) d2) (\<lambda>d3.
             replace_file failure d3))))))"

definition unbound_direct :: "string \<Rightarrow> Json \<Rightarrow> bool" where
  "unbound_direct interface outbound =
     (Option.bind (json_get ''type'' outbound) json_as_str = Some ''direct''
      \<and> Option.bind (json_get ''bind_interface'' outbound) json_as_str \<noteq> Some interface)"

fun bind_direct :: "string \<Rightarrow> Json list \<Rightarrow> EditFailure + Json list" where
  "bind_direct interface [] = Inr []"
| "bind_direct interface (outbound # rest) =
     and_then (if unbound_direct interface outbound then set_member ''bind_interface'' (JString interface) outbound else Inr outbound) (\<lambda>edited.
     and_then (bind_direct interface rest) (\<lambda>others. Inr (edited # others)))"

definition reconcile_cellular_proxy_interface :: "string + string \<Rightarrow> string + Json \<Rightarrow> string option \<Rightarrow> EditFailure + Json option" where
  "reconcile_cellular_proxy_interface interface contents failure =
     and_then (map_err EditError interface) (\<lambda>name.
     and_then (map_err EditError contents) (\<lambda>document.
     and_then (ok_or (EditError ''sing-box configuration has no outbound inventory'')
       (Option.bind (json_get ''outbounds'' document) json_as_array)) (\<lambda>outbounds.
     and_then (bind_direct name outbounds) (\<lambda>bound.
     if \<not> list_ex (unbound_direct name) outbounds then Inr None
     else and_then (set_member ''outbounds'' (JArray bound) document) (\<lambda>edited. replace_file failure edited)))))"

section \<open>What an edit leaves\<close>

lemma set_member_get: "set_member k v d = Inr d' \<Longrightarrow> json_get k' d' = (if k' = k then Some v else json_get k' d)"
  by (cases d) (auto simp: set_member_def index_mut_def)

lemma set_at_parts:
  assumes "set_at k l v d = Inr d'"
  obtains inner where "set_member l v (unwrap_or (json_get k d) JNull) = Inr inner" "set_member k inner d = Inr d'"
  using assms by (cases d) (auto simp: set_at_def set_member_def [of k] index_mut_def [of k] unwrap_or_def and_then_def split: sum.splits)

lemma set_at_get:
  assumes "set_at k l v d = Inr d'"
  shows "get_at k' l' d' = (if k' = k \<and> l' = l then Some v else get_at k' l' d)"
proof -
  obtain inner where "set_member l v (unwrap_or (json_get k d) JNull) = Inr inner" "set_member k inner d = Inr d'"
    using assms by (rule set_at_parts)
  from this [THEN set_member_get] show ?thesis
    by (cases "json_get k d") (auto simp: get_at_def unwrap_or_def)
qed

lemma set_at_other: "set_at k l v d = Inr d' \<Longrightarrow> k' \<noteq> k \<Longrightarrow> json_get k' d' = json_get k' d"
  by (erule set_at_parts) (simp add: set_member_get)

lemma replace_file_Inr [simp]: "replace_file failure d = Inr (Some d') \<longleftrightarrow> failure = None \<and> d' = d"
  by (auto simp: replace_file_def split: option.splits)

lemma replace_file_None [simp]: "replace_file failure d \<noteq> Inr None"
  by (auto simp: replace_file_def split: option.splits)

lemma dns_edit:
  assumes "reconcile_cellular_dns (Some raw) (Inr d) failure = Inr (Some d')"
  shows "dns_current (parse_validated_cellular_dns raw) d'" and "json_get ''outbounds'' d' = json_get ''outbounds'' d"
    and "parse_validated_cellular_dns raw \<noteq> []"
proof -
  let ?as = "parse_validated_cellular_dns raw"
  from assms obtain d1 d2 where d: "set_at ''dns'' ''servers'' (JArray (dns_servers 0 ?as)) d = Inr d1"
      "set_at ''dns'' ''final'' (JString primary_dns) d1 = Inr d2"
      "set_at ''route'' ''default_domain_resolver'' (JString primary_dns) d2 = Inr d'" and ne: "?as \<noteq> []"
    by (auto simp: reconcile_cellular_dns_def Let_def map_err_def and_then_def split: if_splits sum.splits)
  from d [THEN set_at_get] show "dns_current ?as d'" by (simp add: dns_current_def)
  from d [THEN set_at_other] show "json_get ''outbounds'' d' = json_get ''outbounds'' d" by simp
  show "?as \<noteq> []" by (rule ne)
qed

lemma bind_direct_Inr:
  "\<exists>bound. bind_direct name outbounds = Inr bound \<and> length bound = length outbounds
     \<and> list_all (\<lambda>x. \<not> unbound_direct name x) bound"
proof (induction outbounds)
  case (Cons x rest)
  show ?case
  proof (cases "unbound_direct name x")
    case True
    then obtain edited where "set_member ''bind_interface'' (JString name) x = Inr edited"
      by (cases x) (auto simp: unbound_direct_def set_member_def index_mut_def)
    then show ?thesis using Cons True set_member_get [of "''bind_interface''" "JString name" x edited]
      by (auto simp: unbound_direct_def)
  qed (use Cons in auto)
qed simp

lemma interface_edit:
  assumes "reconcile_cellular_proxy_interface (Inr name) (Inr d) failure = Inr (Some d')"
  shows "\<exists>bound. json_get ''outbounds'' d' = Some (JArray bound) \<and> list_all (\<lambda>x. \<not> unbound_direct name x) bound"
    and "k \<noteq> ''outbounds'' \<Longrightarrow> json_get k d' = json_get k d"
proof -
  from assms obtain outbounds bound where b: "bind_direct name outbounds = Inr bound"
      "set_member ''outbounds'' (JArray bound) d = Inr d'"
    by (auto simp: reconcile_cellular_proxy_interface_def map_err_def and_then_def split: if_splits sum.splits option.splits)
  from set_member_get [OF b(2)] bind_direct_Inr [of name outbounds] b(1)
  show "\<exists>bound. json_get ''outbounds'' d' = Some (JArray bound) \<and> list_all (\<lambda>x. \<not> unbound_direct name x) bound"
    and "k \<noteq> ''outbounds'' \<Longrightarrow> json_get k d' = json_get k d" by auto
qed

end
