(* ===== verification/Supervisor.thy ===== *)
theory Supervisor
  imports Proxy_Config Runtime_Domain
begin

text \<open>
  Model of \<open>services/runtime-supervisor/src\<close>: the process on the phone that keeps the
  proxy and the host daemon running and repairs the cellular route.  Its
  configuration and start-up checks, the text it reads from Android's tools, its
  state, the two child processes, and one turn of its loop.  What the system answers
  in a turn is an \<open>Observation\<close>; what the supervisor does is recorded in the order it
  does it.  Instants are seconds.
\<close>

section \<open>Tunnel owners\<close>

datatype TunnelOwner = StockWireguardBridge | FirstPartyVpnService | FirstPartyReverseTunnel | FirstPartyAndroidEgress

fun TunnelOwner_as_str :: "TunnelOwner \<Rightarrow> string" where
  "TunnelOwner_as_str StockWireguardBridge = ''stock_wireguard_bridge''"
| "TunnelOwner_as_str FirstPartyVpnService = ''first_party_vpn_service''"
| "TunnelOwner_as_str FirstPartyReverseTunnel = ''first_party_reverse_tunnel''"
| "TunnelOwner_as_str FirstPartyAndroidEgress = ''first_party_android_egress''"

definition TunnelOwner_parse :: "string \<Rightarrow> TunnelOwner option" where
  "TunnelOwner_parse raw =
     (if raw = ''stock_wireguard_bridge'' then Some StockWireguardBridge
      else if raw = ''first_party_vpn_service'' then Some FirstPartyVpnService
      else if raw = ''first_party_reverse_tunnel'' then Some FirstPartyReverseTunnel
      else if raw = ''first_party_android_egress'' then Some FirstPartyAndroidEgress else None)"

interpretation owner_codec: text_codec TunnelOwner_as_str TunnelOwner_parse
proof
  show "TunnelOwner_parse (TunnelOwner_as_str x) = Some x" for x
    by (cases x) (simp_all add: TunnelOwner_parse_def)
  show "TunnelOwner_parse s = Some x \<Longrightarrow> TunnelOwner_as_str x = s" for s x
    by (auto simp: TunnelOwner_parse_def split: if_splits)
qed

fun validate_wireguard_flag :: "TunnelOwner \<Rightarrow> bool \<Rightarrow> string + unit" where
  "validate_wireguard_flag FirstPartyReverseTunnel enabled = check (\<not> enabled) ''first_party_reverse_tunnel must not enable WireGuard''"
| "validate_wireguard_flag FirstPartyAndroidEgress enabled = check (\<not> enabled) ''first_party_android_egress must not enable WireGuard''"
| "validate_wireguard_flag StockWireguardBridge enabled = check enabled ''stock WireGuard rollback owner requires wireguard.enabled=true''"
| "validate_wireguard_flag FirstPartyVpnService enabled = check enabled ''first_party_vpn_service requires wireguard.enabled=true''"

fun uses_reverse_tunnel :: "TunnelOwner \<Rightarrow> bool" where
  "uses_reverse_tunnel FirstPartyReverseTunnel = True"
| "uses_reverse_tunnel FirstPartyAndroidEgress = True"
| "uses_reverse_tunnel _ = False"

section \<open>Configuration\<close>

definition path_join :: "string \<Rightarrow> string \<Rightarrow> string" where
  "path_join base part =
     (if starts_with ''/'' part then part
      else if base = [] \<or> ends_with ''/'' base then base @ part else base @ ''/'' @ part)"

record SupervisorFile =
  sf_listen :: "string option"
  sf_admin_token :: string
  sf_ui_control_token :: "string option"
  sf_proxy_binary :: "string option"
  sf_proxy_args :: "string list"
  sf_proxy_working_dir :: "string option"
  sf_proxy_username :: "string option"
  sf_proxy_password :: "string option"
  sf_app_egress :: "u16 option"
  sf_wireguard_enabled :: bool
  sf_wireguard_owner :: string

record AppEgressConfig =
  egress_port :: u16
  egress_username :: string
  egress_password :: string

record SupervisorCli =
  sc_runtime_root :: string
  sc_poll_secs :: u64
  sc_repair_cooldown_secs :: u64
  sc_data_bounce_down_secs :: u64
  sc_data_bounce_settle_secs :: u64
  sc_once :: bool

record SupervisorConfig =
  sv_host_config :: string
  sv_host_binary :: string
  sv_host_listen :: string
  sv_admin_token :: string
  sv_ui_control_token :: "string option"
  sv_proxy_binary :: string
  sv_proxy_config :: string
  sv_proxy_args :: "string list"
  sv_proxy_working_dir :: string
  sv_wireguard_enabled :: bool
  sv_tunnel_owner :: TunnelOwner
  sv_app_tunnel_config :: "string option"
  sv_app_egress :: "AppEgressConfig option"
  sv_poll_secs :: u64
  sv_repair_cooldown_secs :: u64
  sv_data_bounce_down_secs :: u64
  sv_data_bounce_settle_secs :: u64
  sv_once :: bool

definition default_proxy_args :: "string \<Rightarrow> string list \<Rightarrow> string list" where
  "default_proxy_args root args = (if args \<noteq> [] then args else [''run'', ''-c'', path_join root ''config/sing-box.json''])"

definition config_flag :: "string \<Rightarrow> bool" where
  "config_flag arg = (arg = ''-c'' \<or> arg = ''--config'')"

fun proxy_config_path :: "string \<Rightarrow> string list \<Rightarrow> string" where
  "proxy_config_path root (a # b # rest) = (if config_flag a then b else proxy_config_path root (b # rest))"
| "proxy_config_path root _ = path_join root ''config/sing-box.json''"

fun replace_proxy_config_arg :: "string \<Rightarrow> string list \<Rightarrow> string list" where
  "replace_proxy_config_arg config (a # b # rest) =
     (if config_flag a then a # config # rest else a # replace_proxy_config_arg config (b # rest))"
| "replace_proxy_config_arg config args = args"

text \<open>The name and the parent of the runtime root, for a path without \<open>.\<close> and \<open>..\<close> components.\<close>

definition trim_slashes :: "string \<Rightarrow> string" where
  "trim_slashes path = rev (dropWhile (\<lambda>c. c = CHR ''/'') (rev path))"

definition file_name :: "string \<Rightarrow> string" where
  "file_name path = last (split_on CHR ''/'' (trim_slashes path))"

definition parent_of :: "string \<Rightarrow> string" where
  "parent_of path =
     (let before_name = take (length (trim_slashes path) - length (file_name path)) path in
      if before_name \<noteq> [] \<and> trim_slashes before_name = [] then ''/'' else trim_slashes before_name)"

definition mutable_proxy_config_path :: "string \<Rightarrow> string" where
  "mutable_proxy_config_path root =
     path_join (if file_name root = ''current'' then parent_of root else root) ''state/sing-box.json''"

definition supervisor_owner :: "SupervisorFile \<Rightarrow> string + TunnelOwner" where
  "supervisor_owner sf =
     and_then (ok_or ''unsupported tunnel owner'' (TunnelOwner_parse (sf_wireguard_owner sf))) (\<lambda>owner.
     and_then (validate_wireguard_flag owner (sf_wireguard_enabled sf)) (\<lambda>_.
     and_then (check (owner \<noteq> FirstPartyVpnService) ''first_party_vpn_service is disabled after physical validation'') (\<lambda>_.
     Inr owner)))"

definition app_egress_config :: "TunnelOwner \<Rightarrow> SupervisorFile \<Rightarrow> string + AppEgressConfig option" where
  "app_egress_config owner sf =
     (if owner \<noteq> FirstPartyAndroidEgress then Inr None
      else
        and_then (ok_or ''first_party_android_egress requires app_egress'' (sf_app_egress sf)) (\<lambda>port.
        and_then (check (1024 \<le> port) ''app_egress.port must be unprivileged'') (\<lambda>_.
        and_then (ok_or ''app_egress requires proxy.username'' (sf_proxy_username sf)) (\<lambda>username.
        and_then (ok_or ''app_egress requires proxy.password'' (sf_proxy_password sf)) (\<lambda>password.
        and_then (check (username \<noteq> [] \<and> length username \<le> 256 \<and> 16 \<le> length password) ''app_egress proxy credentials are invalid'') (\<lambda>_.
        Inr (Some \<lparr>egress_port = port, egress_username = username, egress_password = password\<rparr>)))))))"

text \<open>\<open>prepare\<close> copies the proxy's configuration from its source to the mutable place.\<close>

definition supervisor_load_config ::
  "(string \<Rightarrow> string + SupervisorFile) \<Rightarrow> (string \<Rightarrow> string \<Rightarrow> string + unit) \<Rightarrow> SupervisorCli \<Rightarrow> string + SupervisorConfig" where
  "supervisor_load_config read_config prepare cli =
     (let root = sc_runtime_root cli; host_config = path_join root ''config/host-daemon.json'' in
      and_then (read_config host_config) (\<lambda>sf.
      (let args = default_proxy_args root (sf_proxy_args sf);
           source = proxy_config_path root args;
           target = mutable_proxy_config_path root in
      and_then (supervisor_owner sf) (\<lambda>owner.
      and_then (prepare source target) (\<lambda>_.
      and_then (app_egress_config owner sf) (\<lambda>egress.
      Inr \<lparr>sv_host_config = host_config, sv_host_binary = path_join root ''bin/host-daemon'',
           sv_host_listen = unwrap_or (sf_listen sf) ''127.0.0.1:8088'', sv_admin_token = sf_admin_token sf,
           sv_ui_control_token = sf_ui_control_token sf,
           sv_proxy_binary = unwrap_or (sf_proxy_binary sf) (path_join root ''bin/sing-box''), sv_proxy_config = target,
           sv_proxy_args = replace_proxy_config_arg target args, sv_proxy_working_dir = unwrap_or (sf_proxy_working_dir sf) root,
           sv_wireguard_enabled = sf_wireguard_enabled sf, sv_tunnel_owner = owner, sv_app_tunnel_config = None,
           sv_app_egress = egress, sv_poll_secs = sc_poll_secs cli, sv_repair_cooldown_secs = sc_repair_cooldown_secs cli,
           sv_data_bounce_down_secs = sc_data_bounce_down_secs cli, sv_data_bounce_settle_secs = sc_data_bounce_settle_secs cli,
           sv_once = sc_once cli\<rparr>))))))"

section \<open>Text of Android's tools\<close>

definition is_cellular_dev :: "string \<Rightarrow> bool" where
  "is_cellular_dev dev = (starts_with ''rmnet'' dev \<or> starts_with ''ccmni'' dev \<or> starts_with ''pdp'' dev \<or> starts_with ''wwan'' dev)"

fun scan_route :: "string list \<Rightarrow> string option \<Rightarrow> string option \<Rightarrow> string option \<times> string option" where
  "scan_route (a # b # rest) dev via =
     scan_route (b # rest) (if a = ''dev'' then Some b else dev) (if a = ''via'' then Some b else via)"
| "scan_route _ dev via = (dev, via)"

definition parse_route_line :: "string \<Rightarrow> (string \<times> string option) option" where
  "parse_route_line line =
     (case scan_route (split_whitespace line) None None of
        (None, _) \<Rightarrow> None
      | (Some dev, via) \<Rightarrow> if is_cellular_dev dev then Some (dev, via) else None)"

fun first_some :: "('a \<Rightarrow> 'b option) \<Rightarrow> 'a list \<Rightarrow> 'b option" where
  "first_some f [] = None"
| "first_some f (x # xs) = (case f x of Some y \<Rightarrow> Some y | None \<Rightarrow> first_some f xs)"

text \<open>The outputs of \<open>ip route get\<close> (empty when it fails) and of \<open>ip route show table all\<close>.\<close>

definition cellular_route_hint :: "string option \<Rightarrow> string + string \<Rightarrow> string + (string \<times> string option) option" where
  "cellular_route_hint primary all_routes =
     (case parse_route_line (unwrap_or primary []) of
        Some hint \<Rightarrow> Inr (Some hint)
      | None \<Rightarrow>
          (case all_routes of
             Inl e \<Rightarrow> Inl e
           | Inr text \<Rightarrow> Inr (first_some parse_route_line (filter (starts_with ''default '') (text_lines text)))))"

definition cellular_interface :: "string option \<Rightarrow> string + string \<Rightarrow> string + string" where
  "cellular_interface primary all_routes =
     and_then (cellular_route_hint primary all_routes) (\<lambda>hint. ok_or ''no cellular route hint found'' (map_option fst hint))"

definition main_default_route_for :: "string \<Rightarrow> string \<Rightarrow> bool" where
  "main_default_route_for output dev =
     list_ex (\<lambda>line. starts_with ''default '' line \<and> contains ('' dev '' @ dev) line) (text_lines output)"

text \<open>The arguments of \<open>ip\<close> that install the main route, when it is missing.\<close>

definition ensure_cellular_default_route :: "string option \<Rightarrow> string + string \<Rightarrow> string \<Rightarrow> string + string list option" where
  "ensure_cellular_default_route primary all_routes defaults =
     and_then (cellular_route_hint primary all_routes) (\<lambda>hint.
     and_then (ok_or ''no cellular route hint found'' hint) (\<lambda>(dev, via).
     Inr (if main_default_route_for defaults dev then None
          else Some ([''route'', ''replace'', ''default''] @ (case via of Some v \<Rightarrow> [''via'', v] | None \<Rightarrow> [])
                     @ [''dev'', dev, ''table'', ''main'']))))"

definition parse_package_uid :: "string \<Rightarrow> string \<Rightarrow> u32 option" where
  "parse_package_uid output package =
     first_some (\<lambda>line.
       if \<not> contains (''package:'' @ package) line then None
       else first_some (\<lambda>part. case strip_prefix ''uid:'' part of
                                  None \<Rightarrow> None | Some digits \<Rightarrow> map_option of_nat (parse_nat (2 ^ 32) digits))
              (split_whitespace line))
       (text_lines output)"

definition quote_char :: "char \<Rightarrow> string" where
  "quote_char c = (if c = CHR 0x27 then [CHR 0x27, CHR 0x5C, CHR 0x27, CHR 0x27] else [c])"

definition shell_single_quote :: "string \<Rightarrow> string" where
  "shell_single_quote value = [CHR 0x27] @ concat (map quote_char value) @ [CHR 0x27]"

definition ui_control_token_valid :: "string \<Rightarrow> bool" where
  "ui_control_token_valid token =
     (token \<noteq> [] \<and> length token \<le> 256 \<and> list_all (\<lambda>c. is_ascii_alphanumeric c \<or> c = CHR ''-'') token)"

text \<open>
  The command that hands the local control token to the app, for the result of
  looking the app's user up; \<open>None\<close> when there is nothing to hand over.
\<close>

definition push_local_ui_control_token :: "string option \<Rightarrow> string + u32 option \<Rightarrow> string + (u32 \<times> string) option" where
  "push_local_ui_control_token token package_uid =
     (case token of
        None \<Rightarrow> Inr None
      | Some t \<Rightarrow>
          and_then (check (ui_control_token_valid t) ''local UI control token is invalid'') (\<lambda>_.
          and_then package_uid (\<lambda>found.
          and_then (ok_or ''Android app is not installed'' found) (\<lambda>uid.
          Inr (Some (uid, ''am broadcast --user 0 -n com.example.mobileproxy/.TunnelCommandReceiver -a com.example.mobileproxy.action.SET_LOCAL_CONTROL_TOKEN --es control_token ''
            @ shell_single_quote t))))))"

section \<open>State\<close>

record SupervisorState =
  ss_lifecycle :: RuntimeState
  ss_last_route_repair :: "nat option"
  ss_last_proxy_restart :: "nat option"
  ss_last_tun0_ready :: "bool option"

definition SupervisorState_new :: SupervisorState where
  "SupervisorState_new = \<lparr>ss_lifecycle = Booting, ss_last_route_repair = None, ss_last_proxy_restart = None, ss_last_tun0_ready = None\<rparr>"

definition state_from_legacy_readiness :: "string \<Rightarrow> RuntimeState" where
  "state_from_legacy_readiness raw =
     (case RuntimeReadiness_parse raw of
        ReadinessBooting \<Rightarrow> Booting | ReadinessWaitingWireguard \<Rightarrow> WaitingTunnel | ReadinessWaitingCellular \<Rightarrow> WaitingCellular
      | ReadinessStartingProxy \<Rightarrow> StartingProxy | ReadinessHealthy \<Rightarrow> Healthy | ReadinessQuarantined \<Rightarrow> Quarantined
      | ReadinessUnknown \<Rightarrow> Recovering)"

fun legacy_readiness_from_state :: "RuntimeState \<Rightarrow> RuntimeReadiness" where
  "legacy_readiness_from_state Booting = ReadinessBooting"
| "legacy_readiness_from_state WaitingTunnel = ReadinessWaitingWireguard"
| "legacy_readiness_from_state WaitingCellular = ReadinessWaitingCellular"
| "legacy_readiness_from_state StartingProxy = ReadinessStartingProxy"
| "legacy_readiness_from_state Healthy = ReadinessHealthy"
| "legacy_readiness_from_state Recovering = ReadinessWaitingCellular"
| "legacy_readiness_from_state Quarantined = ReadinessQuarantined"

definition observe_readiness :: "string \<Rightarrow> SupervisorState \<Rightarrow> (RuntimeState \<times> RuntimeState) option \<times> SupervisorState" where
  "observe_readiness raw st =
     (let new = state_from_legacy_readiness raw in
      if new = ss_lifecycle st then (None, st) else (Some (ss_lifecycle st, new), st\<lparr>ss_lifecycle := new\<rparr>))"

definition cooldown :: "u64 \<Rightarrow> nat" where
  "cooldown secs = max (unat secs) 1"

definition claim_proxy_restart :: "u64 \<Rightarrow> nat \<Rightarrow> SupervisorState \<Rightarrow> bool \<times> SupervisorState" where
  "claim_proxy_restart secs now st =
     (if (case ss_last_proxy_restart st of Some last_restart \<Rightarrow> now - last_restart < cooldown secs | None \<Rightarrow> False) then (False, st)
      else (True, st\<lparr>ss_last_proxy_restart := Some now\<rparr>))"

definition observe_wireguard_tunnel_ready :: "bool \<Rightarrow> bool \<Rightarrow> SupervisorState \<Rightarrow> bool \<times> SupervisorState" where
  "observe_wireguard_tunnel_ready wireguard_enabled tun0 st =
     (if \<not> wireguard_enabled then (False, st\<lparr>ss_last_tun0_ready := None\<rparr>)
      else (ss_last_tun0_ready st = Some False \<and> tun0, st\<lparr>ss_last_tun0_ready := Some tun0\<rparr>))"

definition route_repair_allowed :: "SupervisorConfig \<Rightarrow> nat \<Rightarrow> SupervisorState \<Rightarrow> bool" where
  "route_repair_allowed config now st =
     (case ss_last_route_repair st of None \<Rightarrow> True | Some last_repair \<Rightarrow> cooldown (sv_repair_cooldown_secs config) \<le> now - last_repair)"

section \<open>The supervisor and its children\<close>

datatype Action =
    SpawnedProxy nat | SpawnedHost nat | KilledProxy | KilledHost
  | KickedStockWireguard | KickedVpnService | EnsuredRoute | BouncedData | BootstrappedData

text \<open>
  Children are numbered in the order they are started.  \<open>sp_claims\<close> and
  \<open>sp_repairs\<close> record when a proxy restart was claimed and a route repair started;
  \<open>sp_document\<close> is what the proxy's configuration file holds.
\<close>

record Supervisor =
  sp_state :: SupervisorState
  sp_host :: "nat option"
  sp_proxy :: "nat option"
  sp_spawned :: nat
  sp_document :: "string + Json"
  sp_ui_provisioned :: bool
  sp_egress_provisioned :: bool
  sp_claims :: "nat list"
  sp_repairs :: "nat list"
  sp_actions :: "Action list"

definition act :: "Action \<Rightarrow> Supervisor \<Rightarrow> Supervisor" where
  "act a s = s\<lparr>sp_actions := sp_actions s @ [a]\<rparr>"

definition restart_host_daemon_after_proxy_exit :: "Supervisor \<Rightarrow> Supervisor" where
  "restart_host_daemon_after_proxy_exit s =
     (case sp_host s of None \<Rightarrow> s | Some _ \<Rightarrow> act KilledHost (s\<lparr>sp_host := None\<rparr>))"

definition restart_proxy :: "SupervisorConfig \<Rightarrow> Supervisor \<Rightarrow> Supervisor" where
  "restart_proxy config s =
     (case sp_proxy s of
        None \<Rightarrow> s
      | Some _ \<Rightarrow>
          (let s1 = act KilledProxy (s\<lparr>sp_proxy := None\<rparr>) in
           if uses_reverse_tunnel (sv_tunnel_owner config) then restart_host_daemon_after_proxy_exit s1 else s1))"

definition spawn_proxy :: "Supervisor \<Rightarrow> Supervisor" where
  "spawn_proxy s = act (SpawnedProxy (sp_spawned s)) (s\<lparr>sp_proxy := Some (sp_spawned s), sp_spawned := Suc (sp_spawned s)\<rparr>)"

definition spawn_host_daemon :: "Supervisor \<Rightarrow> Supervisor" where
  "spawn_host_daemon s = act (SpawnedHost (sp_spawned s)) (s\<lparr>sp_host := Some (sp_spawned s), sp_spawned := Suc (sp_spawned s)\<rparr>)"

definition proxy_start_allowed :: "SupervisorConfig \<Rightarrow> bool \<Rightarrow> bool" where
  "proxy_start_allowed config tun0 = (\<not> sv_wireguard_enabled config \<or> tun0)"

text \<open>
  What the system answers in one turn of the loop; the clock is read when the tunnel
  is checked, when the health is acted on and when the public probe is.
\<close>

record Observation =
  ob_now :: nat
  ob_health_now :: nat
  ob_probe_now :: nat
  ob_package_uid :: "string + u32 option"
  ob_ui_token_sent :: bool
  ob_egress_provisioned :: bool
  ob_dumpsys :: "string option"
  ob_route_get :: "string option"
  ob_routes :: "string + string"
  ob_dns_write_error :: "string option"
  ob_interface_write_error :: "string option"
  ob_tun0 :: bool
  ob_proxy_exited :: "string + bool"
  ob_host_exited :: "string + bool"
  ob_tun0_at_start :: bool
  ob_spawn_proxy_error :: "string option"
  ob_spawn_host_error :: "string option"
  ob_tun0_at_kick :: bool
  ob_health :: "string + HealthRecord"
  ob_route_error :: "string option"
  ob_bounce_error :: "string option"

definition child_exited :: "'a option \<Rightarrow> string + bool \<Rightarrow> string + bool" where
  "child_exited child answer = (case child of None \<Rightarrow> Inr False | Some _ \<Rightarrow> answer)"

definition ensure_children :: "SupervisorConfig \<Rightarrow> Observation \<Rightarrow> Supervisor \<Rightarrow> string + Supervisor" where
  "ensure_children config ob s =
     and_then (child_exited (sp_proxy s) (ob_proxy_exited ob)) (\<lambda>proxy_gone.
     (let s1 = (if proxy_gone
                then (let s0 = s\<lparr>sp_proxy := None\<rparr> in
                      if uses_reverse_tunnel (sv_tunnel_owner config) then restart_host_daemon_after_proxy_exit s0 else s0)
                else s) in
     and_then (child_exited (sp_host s1) (ob_host_exited ob)) (\<lambda>host_gone.
     (let s2 = (if host_gone then s1\<lparr>sp_host := None\<rparr> else s1) in
     and_then (if sp_proxy s2 = None \<and> proxy_start_allowed config (ob_tun0_at_start ob)
               then (case ob_spawn_proxy_error ob of None \<Rightarrow> Inr (spawn_proxy s2) | Some e \<Rightarrow> Inl e) else Inr s2) (\<lambda>s3.
     if sp_host s3 = None
     then (case ob_spawn_host_error ob of None \<Rightarrow> Inr (spawn_host_daemon s3) | Some e \<Rightarrow> Inl e) else Inr s3)))))"

section \<open>Recovery\<close>

definition kick_owner :: "SupervisorConfig \<Rightarrow> Supervisor \<Rightarrow> Supervisor" where
  "kick_owner config s =
     (case sv_tunnel_owner config of
        StockWireguardBridge \<Rightarrow> act KickedStockWireguard s
      | FirstPartyVpnService \<Rightarrow> (case sv_app_tunnel_config config of Some _ \<Rightarrow> act KickedVpnService s | None \<Rightarrow> s)
      | _ \<Rightarrow> s)"

definition reconcile_wireguard :: "SupervisorConfig \<Rightarrow> bool \<Rightarrow> Supervisor \<Rightarrow> Supervisor" where
  "reconcile_wireguard config tun0 s = (if \<not> sv_wireguard_enabled config \<or> tun0 then s else kick_owner config s)"

definition start_repair :: "nat \<Rightarrow> Supervisor \<Rightarrow> Supervisor" where
  "start_repair now s = s\<lparr>sp_state := (sp_state s)\<lparr>ss_last_route_repair := Some now\<rparr>, sp_repairs := sp_repairs s @ [now]\<rparr>"

definition reconcile_startup_cellular_bootstrap :: "SupervisorConfig \<Rightarrow> nat \<Rightarrow> Supervisor \<Rightarrow> Supervisor" where
  "reconcile_startup_cellular_bootstrap config now s =
     (if sv_tunnel_owner config \<noteq> FirstPartyReverseTunnel \<or> \<not> route_repair_allowed config now (sp_state s) then s
      else act BootstrappedData (start_repair now s))"

definition reconcile_reverse_tunnel_cellular_bootstrap :: "SupervisorConfig \<Rightarrow> nat \<Rightarrow> HealthRecord \<Rightarrow> Supervisor \<Rightarrow> Supervisor" where
  "reconcile_reverse_tunnel_cellular_bootstrap config now health s =
     (if sv_tunnel_owner config \<noteq> FirstPartyReverseTunnel \<or> he_serving health
         \<or> he_degradation_reason_code health \<noteq> Some ''reverse_tunnel_not_ready''
         \<or> \<not> route_repair_allowed config now (sp_state s)
      then s else act BootstrappedData (start_repair now s))"

definition reconcile_health :: "SupervisorConfig \<Rightarrow> Observation \<Rightarrow> HealthRecord \<Rightarrow> Supervisor \<Rightarrow> Supervisor" where
  "reconcile_health config ob health s =
     (let s1 = s\<lparr>sp_state := snd (observe_readiness (he_readiness_state health) (sp_state s))\<rparr>;
          s2 = (if he_wg_handshake_recent health = Some False then kick_owner config s1 else s1) in
      if he_cellular_route_ready health \<noteq> Some False
      then reconcile_reverse_tunnel_cellular_bootstrap config (ob_health_now ob) health (act EnsuredRoute s2)
      else if \<not> route_repair_allowed config (ob_health_now ob) (sp_state s2) then s2
      else (let s3 = act EnsuredRoute (start_repair (ob_health_now ob) s2) in
            if ob_route_error ob = None then s3 else act BouncedData s3))"

definition claim_restart :: "SupervisorConfig \<Rightarrow> nat \<Rightarrow> Supervisor \<Rightarrow> bool \<times> Supervisor" where
  "claim_restart config now s =
     (case claim_proxy_restart (sv_repair_cooldown_secs config) now (sp_state s) of
        (False, st) \<Rightarrow> (False, s\<lparr>sp_state := st\<rparr>)
      | (True, st) \<Rightarrow> (True, s\<lparr>sp_state := st, sp_claims := sp_claims s @ [now]\<rparr>))"

definition restart_if :: "bool \<Rightarrow> SupervisorConfig \<Rightarrow> nat \<Rightarrow> Supervisor \<Rightarrow> Supervisor" where
  "restart_if wanted config now s =
     (if \<not> wanted then s
      else case claim_restart config now s of (True, s1) \<Rightarrow> restart_proxy config s1 | (False, s1) \<Rightarrow> s1)"

text \<open>An edit of the proxy's configuration: an error is only logged, a panic ends the supervisor.\<close>

definition apply_edit :: "EditFailure + Json option \<Rightarrow> Supervisor \<Rightarrow> string + bool \<times> Supervisor" where
  "apply_edit edit s =
     (case edit of
        Inl EditPanic \<Rightarrow> Inl ''panicked''
      | Inl (EditError _) \<Rightarrow> Inr (False, s)
      | Inr None \<Rightarrow> Inr (False, s)
      | Inr (Some document) \<Rightarrow> Inr (True, s\<lparr>sp_document := Inr document\<rparr>))"

definition reconcile_proxy_config :: "Observation \<Rightarrow> Supervisor \<Rightarrow> string + bool \<times> Supervisor" where
  "reconcile_proxy_config ob s =
     and_then (apply_edit (reconcile_cellular_dns (ob_dumpsys ob) (sp_document s) (ob_dns_write_error ob)) s) (\<lambda>(dns_changed, s1).
     and_then (apply_edit (reconcile_cellular_proxy_interface (cellular_interface (ob_route_get ob) (ob_routes ob)) (sp_document s1)
         (ob_interface_write_error ob)) s1) (\<lambda>(interface_changed, s2).
     Inr (dns_changed \<or> interface_changed, s2)))"

section \<open>One turn of the loop\<close>

definition ui_token_pushed :: "SupervisorConfig \<Rightarrow> string + u32 option \<Rightarrow> bool \<Rightarrow> bool" where
  "ui_token_pushed config package_uid sent =
     (case push_local_ui_control_token (sv_ui_control_token config) package_uid of
        Inl _ \<Rightarrow> False | Inr None \<Rightarrow> True | Inr (Some _) \<Rightarrow> sent)"

definition provision :: "SupervisorConfig \<Rightarrow> Observation \<Rightarrow> Supervisor \<Rightarrow> Supervisor" where
  "provision config ob s =
     s\<lparr>sp_ui_provisioned := (sp_ui_provisioned s \<or> ui_token_pushed config (ob_package_uid ob) (ob_ui_token_sent ob)),
       sp_egress_provisioned := (if \<not> sp_egress_provisioned s \<and> sv_app_egress config \<noteq> None then ob_egress_provisioned ob else sp_egress_provisioned s)\<rparr>"

definition check_tunnel :: "SupervisorConfig \<Rightarrow> Observation \<Rightarrow> Supervisor \<Rightarrow> Supervisor" where
  "check_tunnel config ob s =
     (case observe_wireguard_tunnel_ready (sv_wireguard_enabled config) (ob_tun0 ob) (sp_state s) of
        (became_ready, st) \<Rightarrow> restart_if became_ready config (ob_now ob) (s\<lparr>sp_state := st\<rparr>))"

definition react :: "SupervisorConfig \<Rightarrow> Observation \<Rightarrow> Supervisor \<Rightarrow> Supervisor" where
  "react config ob s =
     (case ob_health ob of
        Inl _ \<Rightarrow> s
      | Inr health \<Rightarrow>
          restart_if (he_degradation_reason_code health = Some ''public_probe_failed'' \<and> sv_tunnel_owner config \<noteq> FirstPartyReverseTunnel)
            config (ob_probe_now ob) (reconcile_health config ob health s))"

definition supervise :: "SupervisorConfig \<Rightarrow> Observation \<Rightarrow> Supervisor \<Rightarrow> string + Supervisor" where
  "supervise config ob s =
     and_then (reconcile_proxy_config ob (provision config ob s)) (\<lambda>(changed, s1).
     (let s2 = (if changed then restart_proxy config s1 else s1) in
     and_then (ensure_children config ob (check_tunnel config ob s2)) (\<lambda>s3.
     Inr (react config ob (reconcile_wireguard config (ob_tun0_at_kick ob) s3)))))"

definition supervisor_start :: "SupervisorConfig \<Rightarrow> string + Json \<Rightarrow> string + u32 option \<Rightarrow> bool \<Rightarrow> bool \<Rightarrow> nat \<Rightarrow> Supervisor" where
  "supervisor_start config document package_uid sent egress now =
     reconcile_startup_cellular_bootstrap config now
       \<lparr>sp_state = SupervisorState_new, sp_host = None, sp_proxy = None, sp_spawned = 0, sp_document = document,
        sp_ui_provisioned = ui_token_pushed config package_uid sent,
        sp_egress_provisioned = (sv_app_egress config = None \<or> egress), sp_claims = [], sp_repairs = [], sp_actions = []\<rparr>"

inductive supervised :: "SupervisorConfig \<Rightarrow> Supervisor \<Rightarrow> bool" for config where
  started: "supervised config (supervisor_start config document package_uid sent egress now)"
| turned: "supervised config s \<Longrightarrow> supervise config ob s = Inr s' \<Longrightarrow> supervised config s'"

end
