(* ===== verification/Supervisor_Inv.thy ===== *)
theory Supervisor_Inv
  imports Supervisor
begin

text \<open>
  Properties of the runtime supervisor, by one invariant rule for its loop: how far
  apart its interventions are, in which order it keeps the two children, when it
  leaves them alone, and that its edits of the proxy's configuration settle.
\<close>

section \<open>Invariants of the loop\<close>

text \<open>The part of the supervisor that the invariants speak of.\<close>

definition core :: "Supervisor \<Rightarrow> nat option \<times> nat option \<times> nat \<times> nat list \<times> nat list \<times> nat option \<times> nat option" where
  "core s = (sp_host s, sp_proxy s, sp_spawned s, sp_claims s, sp_repairs s,
     ss_last_proxy_restart (sp_state s), ss_last_route_repair (sp_state s))"

lemma core_act [simp]: "core (act a s) = core s"
  by (simp add: core_def act_def)

locale supervisor_invariant =
  fixes config :: SupervisorConfig and P :: "Supervisor \<Rightarrow> bool"
  assumes start: "P (supervisor_start config document package_uid sent egress now)"
    and frame: "P s \<Longrightarrow> core s' = core s \<Longrightarrow> P s'"
    and claim: "P s \<Longrightarrow> claim_restart config now s = (True, s') \<Longrightarrow> P s'"
    and repair: "P s \<Longrightarrow> route_repair_allowed config now (sp_state s) \<Longrightarrow> P (start_repair now s)"
    and restart: "P s \<Longrightarrow> P (restart_proxy config s)"
    and children: "P s \<Longrightarrow> ensure_children config ob s = Inr s' \<Longrightarrow> P s'"
begin

lemma act_kept: "P s \<Longrightarrow> P (act a s)"
  by (rule frame) simp_all

lemma restart_if_kept: "P s \<Longrightarrow> P (restart_if wanted config now s)"
proof -
  assume p: "P s"
  obtain b s1 where c: "claim_restart config now s = (b, s1)" by force
  show ?thesis
  proof (cases b)
    case True
    then show ?thesis using p c restart [OF claim [OF p]] by (auto simp: restart_if_def)
  next
    case False
    then have "core s1 = core s" using c
      by (auto simp: claim_restart_def claim_proxy_restart_def core_def split: if_splits option.splits)
    then show ?thesis using p c False frame [OF p, of s1] by (simp add: restart_if_def)
  qed
qed

lemma config_kept: "P s \<Longrightarrow> reconcile_proxy_config ob s = Inr (changed, s') \<Longrightarrow> P s'"
  by (erule frame) (auto simp: reconcile_proxy_config_def apply_edit_def and_then_def core_def
      split: sum.splits option.splits EditFailure.splits prod.splits)

lemma tunnel_kept: "P s \<Longrightarrow> P (check_tunnel config ob s)"
proof -
  assume p: "P s"
  obtain ready st where o: "observe_wireguard_tunnel_ready (sv_wireguard_enabled config) (ob_tun0 ob) (sp_state s) = (ready, st)"
    by force
  then have "P (s\<lparr>sp_state := st\<rparr>)"
    by (intro frame [OF p]) (auto simp: observe_wireguard_tunnel_ready_def core_def split: if_splits)
  then show ?thesis using o by (simp add: check_tunnel_def restart_if_kept)
qed

lemma kick_kept: "P s \<Longrightarrow> P (kick_owner config s)"
  by (auto simp: kick_owner_def act_kept split: TunnelOwner.split option.split)

lemma readiness_kept: "P s \<Longrightarrow> P (s\<lparr>sp_state := snd (observe_readiness raw (sp_state s))\<rparr>)"
  by (erule frame) (simp add: observe_readiness_def core_def Let_def)

lemma bootstrap_kept: "P s \<Longrightarrow> P (reconcile_reverse_tunnel_cellular_bootstrap config now health s)"
  by (auto simp: reconcile_reverse_tunnel_cellular_bootstrap_def repair act_kept)

lemma health_kept: "P s \<Longrightarrow> P (reconcile_health config ob health s)"
  by (auto simp: reconcile_health_def Let_def repair act_kept kick_kept readiness_kept bootstrap_kept)

lemma react_kept: "P s \<Longrightarrow> P (react config ob s)"
  by (auto simp: react_def restart_if_kept health_kept split: sum.split)

lemma turn_kept:
  assumes p: "P s" and turn: "supervise config ob s = Inr s'"
  shows "P s'"
proof -
  from turn obtain changed s1 s3 where s1: "reconcile_proxy_config ob (provision config ob s) = Inr (changed, s1)"
    and s3: "ensure_children config ob (check_tunnel config ob (if changed then restart_proxy config s1 else s1)) = Inr s3"
    and s': "s' = react config ob (reconcile_wireguard config (ob_tun0_at_kick ob) s3)"
    by (auto simp: supervise_def and_then_def Let_def split: sum.splits prod.splits)
  have "P (provision config ob s)" by (rule frame [OF p]) (simp add: provision_def core_def)
  from config_kept [OF this s1] have "P s3"
    by (intro children [OF tunnel_kept s3]) (simp add: restart)
  then show ?thesis by (simp add: s' react_kept reconcile_wireguard_def kick_kept)
qed

lemma holds_always: "supervised config s \<Longrightarrow> P s"
  by (induction rule: supervised.induct) (auto simp: start intro: turn_kept)

end

section \<open>Interventions are spaced\<close>

definition spaced_by :: "nat \<Rightarrow> nat list \<Rightarrow> bool" where
  "spaced_by gap ts = sorted_wrt (\<lambda>a b. a + gap \<le> b) ts"

definition last_of :: "'a list \<Rightarrow> 'a option" where
  "last_of xs = (if xs = [] then None else Some (last xs))"

lemma spaced_snoc:
  assumes "spaced_by gap ts" "\<And>t. last_of ts = Some t \<Longrightarrow> t + gap \<le> now"
  shows "spaced_by gap (ts @ [now])" and "last_of (ts @ [now]) = Some now"
proof -
  have "t + gap \<le> now" if "t \<in> set ts" for t
  proof (cases ts rule: rev_cases)
    case (snoc xs x)
    then have "t = x \<or> t + gap \<le> x" using that assms(1) by (auto simp: spaced_by_def sorted_wrt_append)
    moreover have "x + gap \<le> now" using snoc assms(2) by (simp add: last_of_def)
    ultimately show ?thesis by auto
  qed (use that in simp)
  then show "spaced_by gap (ts @ [now])" using assms(1) by (simp add: spaced_by_def sorted_wrt_append)
  show "last_of (ts @ [now]) = Some now" by (simp add: last_of_def)
qed

definition gap_of :: "SupervisorConfig \<Rightarrow> nat" where
  "gap_of config = cooldown (sv_repair_cooldown_secs config)"

definition spaced :: "SupervisorConfig \<Rightarrow> Supervisor \<Rightarrow> bool" where
  "spaced config s =
     (spaced_by (gap_of config) (sp_claims s) \<and> last_of (sp_claims s) = ss_last_proxy_restart (sp_state s)
      \<and> spaced_by (gap_of config) (sp_repairs s) \<and> last_of (sp_repairs s) = ss_last_route_repair (sp_state s))"

lemma spaced_core: "core s' = core s \<Longrightarrow> spaced config s' = spaced config s"
  by (simp add: core_def spaced_def)

lemma gap_pos: "0 < gap_of config"
  by (simp add: gap_of_def cooldown_def)

lemma spaced_claim: "spaced config s \<Longrightarrow> claim_restart config now s = (True, s') \<Longrightarrow> spaced config s'"
  using gap_pos [of config] spaced_snoc [of "gap_of config" "sp_claims s" now]
  by (auto simp: spaced_def claim_restart_def claim_proxy_restart_def gap_of_def split: if_splits option.splits)

lemma spaced_repair: "spaced config s \<Longrightarrow> route_repair_allowed config now (sp_state s) \<Longrightarrow> spaced config (start_repair now s)"
  using gap_pos [of config] spaced_snoc [of "gap_of config" "sp_repairs s" now]
  by (auto simp: spaced_def start_repair_def route_repair_allowed_def gap_of_def split: option.splits)

lemma act_fields [simp]:
  "sp_host (act a s) = sp_host s" "sp_proxy (act a s) = sp_proxy s" "sp_spawned (act a s) = sp_spawned s"
  "sp_claims (act a s) = sp_claims s" "sp_repairs (act a s) = sp_repairs s" "sp_state (act a s) = sp_state s"
  by (simp_all add: act_def)

lemma restart_host_fields [simp]:
  "sp_host (restart_host_daemon_after_proxy_exit s) = None" "sp_proxy (restart_host_daemon_after_proxy_exit s) = sp_proxy s"
  "sp_spawned (restart_host_daemon_after_proxy_exit s) = sp_spawned s"
  "sp_claims (restart_host_daemon_after_proxy_exit s) = sp_claims s"
  "sp_repairs (restart_host_daemon_after_proxy_exit s) = sp_repairs s"
  "sp_state (restart_host_daemon_after_proxy_exit s) = sp_state s"
  by (auto simp: restart_host_daemon_after_proxy_exit_def split: option.split)

lemma spaced_restart: "spaced config s \<Longrightarrow> spaced config (restart_proxy config s)"
  by (auto simp: restart_proxy_def spaced_def Let_def split: option.split)

lemma ensure_children_untouched:
  assumes "ensure_children config ob s = Inr s'"
  shows "sp_claims s' = sp_claims s" "sp_repairs s' = sp_repairs s" "sp_state s' = sp_state s"
  using assms
  by (auto simp: ensure_children_def and_then_def Let_def spawn_proxy_def spawn_host_daemon_def split: sum.splits if_splits option.splits)

lemma spaced_children: "spaced config s \<Longrightarrow> ensure_children config ob s = Inr s' \<Longrightarrow> spaced config s'"
  using ensure_children_untouched [of config ob s s'] by (simp add: spaced_def)

lemma spaced_start: "spaced config (supervisor_start config document package_uid sent egress now)"
  by (simp add: supervisor_start_def reconcile_startup_cellular_bootstrap_def spaced_def start_repair_def SupervisorState_new_def
      last_of_def spaced_by_def)

interpretation spacing: supervisor_invariant config "spaced config" for config
proof
  show "spaced config s'" if "spaced config s" "core s' = core s" for s s'
    using that spaced_core by blast
  show "spaced config s'" if "spaced config s" "claim_restart config now s = (True, s')" for s s' now
    using that by (rule spaced_claim)
  show "spaced config s'" if "spaced config s" "ensure_children config ob s = Inr s'" for s s' ob
    using that by (rule spaced_children)
qed (simp_all add: spaced_start spaced_repair spaced_restart)

section \<open>The host daemon follows its proxy\<close>

definition tunnels :: "SupervisorConfig \<Rightarrow> bool" where
  "tunnels config = (uses_reverse_tunnel (sv_tunnel_owner config) \<and> \<not> sv_wireguard_enabled config)"

definition host_after_proxy :: "Supervisor \<Rightarrow> bool" where
  "host_after_proxy s =
     ((\<forall>p. sp_proxy s = Some p \<longrightarrow> p < sp_spawned s)
      \<and> (\<forall>h. sp_host s = Some h \<longrightarrow> h < sp_spawned s \<and> (\<exists>p. sp_proxy s = Some p \<and> p < h)))"

definition ordered :: "SupervisorConfig \<Rightarrow> Supervisor \<Rightarrow> bool" where
  "ordered config s = (tunnels config \<longrightarrow> host_after_proxy s)"

lemma host_after_proxy_cong:
  "sp_host s' = sp_host s \<Longrightarrow> sp_proxy s' = sp_proxy s \<Longrightarrow> sp_spawned s' = sp_spawned s \<Longrightarrow> host_after_proxy s' = host_after_proxy s"
  by (simp add: host_after_proxy_def)

lemma claim_children:
  "claim_restart config now s = (b, s') \<Longrightarrow> sp_host s' = sp_host s \<and> sp_proxy s' = sp_proxy s \<and> sp_spawned s' = sp_spawned s"
  by (auto simp: claim_restart_def split: prod.splits bool.splits)

lemma restart_proxy_children:
  "tunnels config \<Longrightarrow> sp_proxy (restart_proxy config s) = None" 
  "tunnels config \<Longrightarrow> sp_proxy s \<noteq> None \<Longrightarrow> sp_host (restart_proxy config s) = None"
  "sp_proxy s = None \<Longrightarrow> restart_proxy config s = s"
  by (auto simp: restart_proxy_def Let_def tunnels_def split: option.split)

lemma ordered_restart: "ordered config s \<Longrightarrow> ordered config (restart_proxy config s)"
  by (cases "sp_proxy s") (auto simp: ordered_def host_after_proxy_def restart_proxy_children)

definition without_proxy :: "bool \<Rightarrow> Supervisor \<Rightarrow> Supervisor" where
  "without_proxy gone s = (if gone then restart_host_daemon_after_proxy_exit (s\<lparr>sp_proxy := None\<rparr>) else s)"

definition without_host :: "bool \<Rightarrow> Supervisor \<Rightarrow> Supervisor" where
  "without_host gone s = (if gone then s\<lparr>sp_host := None\<rparr> else s)"

lemma ensure_tunnel_children:
  assumes "tunnels config"
  shows "ensure_children config ob s =
    and_then (child_exited (sp_proxy s) (ob_proxy_exited ob)) (\<lambda>proxy_gone.
    and_then (child_exited (sp_host (without_proxy proxy_gone s)) (ob_host_exited ob)) (\<lambda>host_gone.
    and_then (if sp_proxy (without_host host_gone (without_proxy proxy_gone s)) = None
              then (case ob_spawn_proxy_error ob of None \<Rightarrow> Inr (spawn_proxy (without_host host_gone (without_proxy proxy_gone s))) | Some e \<Rightarrow> Inl e)
              else Inr (without_host host_gone (without_proxy proxy_gone s))) (\<lambda>s3.
    if sp_host s3 = None
    then (case ob_spawn_host_error ob of None \<Rightarrow> Inr (spawn_host_daemon s3) | Some e \<Rightarrow> Inl e) else Inr s3)))"
  using assms unfolding ensure_children_def Let_def without_proxy_def without_host_def tunnels_def proxy_start_allowed_def
  by (simp cong: if_cong option.case_cong)

lemma host_after_proxy_steps:
  "host_after_proxy s \<Longrightarrow> host_after_proxy (without_proxy gone s)" "host_after_proxy s \<Longrightarrow> host_after_proxy (without_host gone s)"
  "host_after_proxy s \<Longrightarrow> sp_proxy s = None \<Longrightarrow> host_after_proxy (spawn_proxy s) \<and> sp_proxy (spawn_proxy s) \<noteq> None"
  "host_after_proxy s \<Longrightarrow> sp_proxy s \<noteq> None \<Longrightarrow>
     host_after_proxy (spawn_host_daemon s) \<and> sp_proxy (spawn_host_daemon s) \<noteq> None \<and> sp_host (spawn_host_daemon s) \<noteq> None"
  by (auto simp: host_after_proxy_def without_proxy_def without_host_def spawn_proxy_def spawn_host_daemon_def less_Suc_eq)

lemma ensured_children:
  assumes "ensure_children config ob s = Inr s'" "tunnels config" "host_after_proxy s"
  shows "host_after_proxy s' \<and> sp_proxy s' \<noteq> None \<and> sp_host s' \<noteq> None"
proof -
  from assms(1) obtain pg hg s3 where
      s3: "(if sp_proxy (without_host hg (without_proxy pg s)) = None
            then (case ob_spawn_proxy_error ob of None \<Rightarrow> Inr (spawn_proxy (without_host hg (without_proxy pg s))) | Some e \<Rightarrow> Inl e)
            else Inr (without_host hg (without_proxy pg s))) = Inr s3"
    and s': "(if sp_host s3 = None
      then (case ob_spawn_host_error ob of None \<Rightarrow> Inr (spawn_host_daemon s3) | Some e \<Rightarrow> Inl e) else Inr s3) = Inr s'"
    unfolding ensure_tunnel_children [OF assms(2)] and_then_Inr_iff by blast
  have "host_after_proxy (without_host hg (without_proxy pg s))" using assms(3) by (simp add: host_after_proxy_steps)
  with s3 have "host_after_proxy s3 \<and> sp_proxy s3 \<noteq> None"
    using host_after_proxy_steps(3) by (auto split: if_splits option.splits)
  with s' show ?thesis using host_after_proxy_steps(4) [of s3] by (auto split: if_splits option.splits)
qed

lemma ordered_start: "ordered config (supervisor_start config document package_uid sent egress now)"
  by (simp add: supervisor_start_def reconcile_startup_cellular_bootstrap_def ordered_def host_after_proxy_def start_repair_def)

interpretation lineage: supervisor_invariant config "ordered config" for config
proof
  show "ordered config s'" if "ordered config s" "core s' = core s" for s s'
    using that host_after_proxy_cong [of s' s] by (simp add: ordered_def core_def)
  show "ordered config s'" if "ordered config s" "claim_restart config now s = (True, s')" for s s' now
    using that host_after_proxy_cong [of s' s] claim_children [of config now s True s'] by (simp add: ordered_def)
  show "ordered config (start_repair now s)" if "ordered config s" for s now
    using that host_after_proxy_cong [of "start_repair now s" s] by (simp add: ordered_def start_repair_def)
  show "ordered config s'" if "ordered config s" "ensure_children config ob s = Inr s'" for s s' ob
    using that ensured_children by (simp add: ordered_def)
qed (simp_all add: ordered_start ordered_restart)

lemma loaded_tunnels:
  assumes "supervisor_load_config read_config prepare cli = Inr config"
  shows "tunnels config \<longleftrightarrow> uses_reverse_tunnel (sv_tunnel_owner config)"
proof -
  from assms obtain sf where "supervisor_owner sf = Inr (sv_tunnel_owner config)" "sv_wireguard_enabled config = sf_wireguard_enabled sf"
    by (auto simp: supervisor_load_config_def Let_def and_then_Inr_iff)
  then show ?thesis
    by (cases "sv_tunnel_owner config") (auto simp: supervisor_owner_def and_then_Inr_iff tunnels_def)
qed


section \<open>Edits of the proxy's configuration settle\<close>

lemma apply_edit_Inr:
  "apply_edit edit s = Inr (changed, s') \<longleftrightarrow>
     (\<not> changed \<and> s' = s \<and> (edit = Inr None \<or> (\<exists>e. edit = Inl (EditError e))))
     \<or> (changed \<and> (\<exists>d. edit = Inr (Some d) \<and> s' = s\<lparr>sp_document := Inr d\<rparr>))"
  by (auto simp: apply_edit_def split: sum.splits option.splits EditFailure.splits)

lemma dns_current_cong:
  "json_get ''dns'' d' = json_get ''dns'' d \<Longrightarrow> json_get ''route'' d' = json_get ''route'' d \<Longrightarrow> dns_current as d' = dns_current as d"
  by (simp add: dns_current_def get_at_def)

lemma dns_edit_done:
  assumes "reconcile_cellular_dns dump (Inr d) failure = Inr (Some d')"
  obtains raw where "dump = Some raw" "dns_current (parse_validated_cellular_dns raw) d'"
    "json_get ''outbounds'' d' = json_get ''outbounds'' d"
proof (cases dump)
  case (Some raw)
  then show thesis using that dns_edit [of raw d failure d'] assms by simp
qed (use assms in \<open>simp add: reconcile_cellular_dns_def\<close>)

lemma dns_settled: "dns_current (parse_validated_cellular_dns raw) d \<Longrightarrow> reconcile_cellular_dns (Some raw) (Inr d) failure = Inr None"
  by (simp add: reconcile_cellular_dns_def Let_def map_err_def)

lemma interface_edit_done:
  assumes "reconcile_cellular_proxy_interface interface (Inr d) failure = Inr (Some d')"
  shows "reconcile_cellular_proxy_interface interface (Inr d') failure' = Inr None"
    and "k \<noteq> ''outbounds'' \<Longrightarrow> json_get k d' = json_get k d"
proof -
  obtain name where name: "interface = Inr name"
    using assms by (cases interface) (auto simp: reconcile_cellular_proxy_interface_def map_err_def)
  then obtain bound where b: "json_get ''outbounds'' d' = Some (JArray bound)" "list_all (\<lambda>x. \<not> unbound_direct name x) bound"
    using interface_edit(1) assms by blast
  then have "\<not> list_ex (unbound_direct name) bound" by (auto simp: list_all_iff list_ex_iff)
  then show "reconcile_cellular_proxy_interface interface (Inr d') failure' = Inr None"
    using b bind_direct_Inr [of name bound] name by (auto simp: reconcile_cellular_proxy_interface_def map_err_def)
  show "k \<noteq> ''outbounds'' \<Longrightarrow> json_get k d' = json_get k d" using interface_edit(2) assms name by blast
qed


fun editable :: "Json \<Rightarrow> bool" where
  "editable JNull = True"
| "editable (JObject _) = True"
| "editable _ = False"

lemma set_member_ok: "is_Ok (set_member k v d) \<longleftrightarrow> editable d"
  by (cases d) (simp_all add: set_member_def index_mut_def)

lemma set_member_editable: "set_member k v d = Inr d' \<Longrightarrow> editable d'"
  by (cases d) (auto simp: set_member_def index_mut_def)

lemma set_at_ok: "is_Ok (set_at k l v d) \<longleftrightarrow> editable d \<and> editable (unwrap_or (json_get k d) JNull)"
proof (cases "editable d")
  case True
  have m: "is_Ok (set_member l v (unwrap_or (json_get k d) JNull)) \<longleftrightarrow> editable (unwrap_or (json_get k d) JNull)"
    by (rule set_member_ok)
  show ?thesis
  proof (cases "set_member l v (unwrap_or (json_get k d) JNull)")
    case (Inl e)
    then show ?thesis using True m by (cases d) (auto simp: set_at_def index_mut_def [of k] unwrap_or_def)
  next
    case (Inr inner)
    then show ?thesis using True m by (cases d) (auto simp: set_at_def index_mut_def [of k] unwrap_or_def)
  qed
qed (cases d; simp add: set_at_def index_mut_def)

lemma set_at_editable:
  assumes "set_at k l v d = Inr d'"
  shows "editable d'" "editable (unwrap_or (json_get k d') JNull)" "k' \<noteq> k \<Longrightarrow> json_get k' d' = json_get k' d"
proof -
  obtain inner where i: "set_member l v (unwrap_or (json_get k d) JNull) = Inr inner" "set_member k inner d = Inr d'"
    using assms by (rule set_at_parts)
  then show "editable d'" "editable (unwrap_or (json_get k d') JNull)"
    using set_member_editable [OF i(1)] set_member_editable [OF i(2)] set_member_get [OF i(2), of k] by (simp_all add: unwrap_or_def)
  show "k' \<noteq> k \<Longrightarrow> json_get k' d' = json_get k' d" using set_member_get [OF i(2), of k'] by simp
qed

definition dns_editable :: "Json \<Rightarrow> bool" where
  "dns_editable d = (editable d \<and> editable (unwrap_or (json_get ''dns'' d) JNull) \<and> editable (unwrap_or (json_get ''route'' d) JNull))"

lemma dns_outcome:
  "reconcile_cellular_dns dump (Inr d) failure =
     (case dump of None \<Rightarrow> Inl (EditError ''dumpsys connectivity failed'')
      | Some raw \<Rightarrow>
          if parse_validated_cellular_dns raw = [] \<or> dns_current (parse_validated_cellular_dns raw) d then Inr None
          else and_then (set_at ''dns'' ''servers'' (JArray (dns_servers 0 (parse_validated_cellular_dns raw))) d) (\<lambda>d1.
               and_then (set_at ''dns'' ''final'' (JString primary_dns) d1) (\<lambda>d2.
               and_then (set_at ''route'' ''default_domain_resolver'' (JString primary_dns) d2) (replace_file failure))))"
  by (simp add: reconcile_cellular_dns_def Let_def map_err_def split: option.split)

lemma panics: "set_at k l v d = Inl e \<Longrightarrow> e = EditPanic"
  by (cases d) (auto simp: set_at_def set_member_def index_mut_def and_then_def split: sum.splits Json.splits)

lemma dns_chain_ok:
  "(case and_then (set_at ''dns'' ''servers'' v d) (\<lambda>d1. and_then (set_at ''dns'' ''final'' w d1) (\<lambda>d2.
        and_then (set_at ''route'' ''default_domain_resolver'' u d2) (replace_file failure))) of
      Inl EditPanic \<Rightarrow> \<not> dns_editable d | Inl (EditError e) \<Rightarrow> dns_editable d \<and> failure = Some e
    | Inr None \<Rightarrow> False | Inr (Some _) \<Rightarrow> dns_editable d \<and> failure = None)"
proof (cases "set_at ''dns'' ''servers'' v d")
  case (Inl e)
  then show ?thesis using panics [OF Inl] set_at_ok [of "''dns''" "''servers''" v d] by (auto simp: dns_editable_def)
next
  case (Inr d1)
  note e1 = set_at_editable [OF Inr]
  have ok1: "editable d \<and> editable (unwrap_or (json_get ''dns'' d) JNull)" using set_at_ok [of "''dns''" "''servers''" v d] Inr by simp
  obtain d2 where d2: "set_at ''dns'' ''final'' w d1 = Inr d2"
    using set_at_ok [of "''dns''" "''final''" w d1] e1 by (cases "set_at ''dns'' ''final'' w d1") auto
  note e2 = set_at_editable [OF d2]
  have r: "json_get ''route'' d2 = json_get ''route'' d" using e1(3) [of "''route''"] e2(3) [of "''route''"] by simp
  show ?thesis
  proof (cases "set_at ''route'' ''default_domain_resolver'' u d2")
    case (Inl e)
    then have "\<not> dns_editable d"
      using set_at_ok [of "''route''" "''default_domain_resolver''" u d2] e2(1) r by (simp add: dns_editable_def)
    then show ?thesis using Inr d2 Inl panics [OF Inl] by simp
  next
    case (Inr d3)
    then have "dns_editable d"
      using set_at_ok [of "''route''" "''default_domain_resolver''" u d2] e2(1) r ok1 by (simp add: dns_editable_def)
    then show ?thesis using \<open>set_at ''dns'' ''servers'' v d = Inr d1\<close> d2 Inr by (simp add: replace_file_def split: option.split)
  qed
qed

lemma dns_unchanged_again:
  assumes "reconcile_cellular_dns dump (Inr d) failure = Inr None \<or> (\<exists>e. reconcile_cellular_dns dump (Inr d) failure = Inl (EditError e))"
    and "json_get ''dns'' d' = json_get ''dns'' d" "json_get ''route'' d' = json_get ''route'' d" "editable d'"
  shows "reconcile_cellular_dns dump (Inr d') failure = Inr None \<or> (\<exists>e. reconcile_cellular_dns dump (Inr d') failure = Inl (EditError e))"
proof (cases dump)
  case (Some raw)
  let ?as = "parse_validated_cellular_dns raw"
  have cur: "dns_current ?as d' = dns_current ?as d" using assms(2,3) by (rule dns_current_cong)
  have ed: "dns_editable d \<Longrightarrow> dns_editable d'" using assms(2-4) by (simp add: dns_editable_def)
  show ?thesis
  proof (cases "?as = [] \<or> dns_current ?as d")
    case False
    note c = dns_chain_ok [where v = "JArray (dns_servers 0 ?as)" and w = "JString primary_dns" and u = "JString primary_dns"
        and failure = failure]
    from assms(1) Some False c [where d = d] have "dns_editable d" "failure \<noteq> None" by (auto simp: dns_outcome split: EditFailure.splits)
    with Some False cur c [where d = d'] ed show ?thesis by (auto simp: dns_outcome split: sum.splits EditFailure.splits option.splits)
  qed (use Some cur in \<open>auto simp: dns_outcome\<close>)
qed (simp add: dns_outcome)


lemma config_unchanged: "reconcile_proxy_config ob s = Inr (False, s1) \<Longrightarrow> s1 = s"
  by (auto simp: reconcile_proxy_config_def and_then_Inr_iff apply_edit_Inr)

lemma interface_needs_object:
  "reconcile_cellular_proxy_interface interface (Inr d) failure = Inr (Some d') \<Longrightarrow> editable d'"
  by (auto simp: reconcile_cellular_proxy_interface_def and_then_Inr_iff split: if_splits dest: set_member_editable)

lemma edits_settle:
  assumes "reconcile_proxy_config ob s = Inr (True, s1)"
  shows "reconcile_proxy_config ob s1 = Inr (False, s1)"
proof -
  let ?dns = "\<lambda>doc. reconcile_cellular_dns (ob_dumpsys ob) doc (ob_dns_write_error ob)"
  let ?bind = "\<lambda>doc. reconcile_cellular_proxy_interface (cellular_interface (ob_route_get ob) (ob_routes ob)) doc (ob_interface_write_error ob)"
  let ?kept = "\<lambda>edit. edit = Inr None \<or> (\<exists>e. edit = Inl (EditError e))"
  from assms obtain c1 c2 sd where c: "c1 \<or> c2" and sd: "apply_edit (?dns (sp_document s)) s = Inr (c1, sd)"
    and s1: "apply_edit (?bind (sp_document sd)) sd = Inr (c2, s1)"
    by (auto simp: reconcile_proxy_config_def and_then_Inr_iff)
  have "?kept (?dns (sp_document s1)) \<and> ?kept (?bind (sp_document s1))"
  proof (cases "sp_document s")
    case (Inl e)
    then have "?dns (sp_document s) \<noteq> Inr (Some d)" "?bind (sp_document s) \<noteq> Inr (Some d)" for d
      by (auto simp: reconcile_cellular_dns_def reconcile_cellular_proxy_interface_def map_err_def Let_def and_then_def split: sum.splits option.splits if_splits)
    then show ?thesis using c sd s1 by (auto simp: apply_edit_Inr)
  next
    case (Inr d)
    obtain d1 where d1: "sp_document sd = Inr d1" and dns: "if c1 then ?dns (Inr d) = Inr (Some d1) else ?kept (?dns (Inr d)) \<and> d1 = d"
      using sd Inr by (auto simp: apply_edit_Inr)
    obtain d2 where d2: "sp_document s1 = Inr d2" and bind: "if c2 then ?bind (Inr d1) = Inr (Some d2) else ?kept (?bind (Inr d1)) \<and> d2 = d1"
      using s1 d1 by (auto simp: apply_edit_Inr)
    have keep: "json_get k d2 = json_get k d1" if "k \<noteq> ''outbounds''" for k
      using bind interface_edit_done(2) that by (auto split: if_splits)
    have "?kept (?bind (Inr d2))"
    proof (cases c2)
      case True
      then have "?bind (Inr d2) = Inr None" using bind by (simp add: interface_edit_done(1))
      then show ?thesis by blast
    qed (use bind in auto)
    moreover have "?kept (?dns (Inr d2))"
    proof (cases c1)
      case True
      then have "?dns (Inr d) = Inr (Some d1)" using dns by simp
      then obtain raw where raw: "ob_dumpsys ob = Some raw" "dns_current (parse_validated_cellular_dns raw) d1"
        by (rule dns_edit_done)
      then have "dns_current (parse_validated_cellular_dns raw) d2"
        using dns_current_cong [of d2 d1] keep by simp
      then have "?dns (Inr d2) = Inr None" using raw(1) by (simp add: dns_settled)
      then show ?thesis by blast
    next
      case False
      then have "c2" and kept: "?kept (?dns (Inr d1))" using c dns by auto
      then have "?bind (Inr d1) = Inr (Some d2)" using bind by simp
      then have e: "editable d2" by (rule interface_needs_object)
      have "json_get ''dns'' d2 = json_get ''dns'' d1" "json_get ''route'' d2 = json_get ''route'' d1"
        using keep by simp_all
      from dns_unchanged_again [OF kept this e] show ?thesis .
    qed
    ultimately show ?thesis using d2 by simp
  qed
  then have "apply_edit (?dns (sp_document s1)) s1 = Inr (False, s1)" "apply_edit (?bind (sp_document s1)) s1 = Inr (False, s1)"
    by (simp_all add: apply_edit_Inr)
  then show ?thesis by (simp add: reconcile_proxy_config_def)
qed


section \<open>Leaving the children alone\<close>

lemma children_untouched:
  assumes "ob_proxy_exited ob = Inr False" "ob_host_exited ob = Inr False" "sp_proxy s \<noteq> None" "sp_host s \<noteq> None"
  shows "ensure_children config ob s = Inr s"
  using assms by (auto simp: ensure_children_def child_exited_def split: option.splits)

lemma kick_children [simp]: "sp_proxy (kick_owner config s) = sp_proxy s" "sp_host (kick_owner config s) = sp_host s"
  by (auto simp: kick_owner_def split: TunnelOwner.split option.split)

lemma health_children [simp]:
  "sp_proxy (reconcile_health config ob health s) = sp_proxy s" "sp_host (reconcile_health config ob health s) = sp_host s"
  by (auto simp: reconcile_health_def Let_def reconcile_reverse_tunnel_cellular_bootstrap_def start_repair_def)

lemma health_restart [simp]:
  "ss_last_proxy_restart (sp_state (reconcile_health config ob health s)) = ss_last_proxy_restart (sp_state s)"
  by (auto simp: reconcile_health_def Let_def reconcile_reverse_tunnel_cellular_bootstrap_def start_repair_def observe_readiness_def kick_owner_def
      split: TunnelOwner.split option.split)

lemma check_tunnel_off: "\<not> sv_wireguard_enabled config \<Longrightarrow> check_tunnel config ob s = s\<lparr>sp_state := (sp_state s)\<lparr>ss_last_tun0_ready := None\<rparr>\<rparr>"
  by (simp add: check_tunnel_def observe_wireguard_tunnel_ready_def restart_if_def)

text \<open>A turn that finds the children running and the proxy's configuration current.\<close>

lemma quiet_turn:
  assumes "tunnels config" "reconcile_proxy_config ob (provision config ob s) = Inr (False, s1)"
    and "ob_proxy_exited ob = Inr False" "ob_host_exited ob = Inr False" "sp_proxy s \<noteq> None" "sp_host s \<noteq> None"
  obtains s2 where "supervise config ob s = Inr (react config ob s2)" "sp_proxy s2 = sp_proxy s" "sp_host s2 = sp_host s"
    "sp_state s2 = (sp_state s)\<lparr>ss_last_tun0_ready := None\<rparr>"
proof
  let ?s2 = "check_tunnel config ob s1"
  have wg: "\<not> sv_wireguard_enabled config" using assms(1) by (simp add: tunnels_def)
  have s1: "s1 = provision config ob s" using assms(2) by (rule config_unchanged)
  then have p: "sp_proxy ?s2 = sp_proxy s" "sp_host ?s2 = sp_host s" "sp_state ?s2 = (sp_state s)\<lparr>ss_last_tun0_ready := None\<rparr>"
    using check_tunnel_off [OF wg] by (simp_all add: provision_def)
  have "ensure_children config ob ?s2 = Inr ?s2" using assms(3-6) p by (intro children_untouched) simp_all
  then show "supervise config ob s = Inr (react config ob ?s2)" using assms(2) wg by (simp add: supervise_def reconcile_wireguard_def)
  show "sp_proxy ?s2 = sp_proxy s" "sp_host ?s2 = sp_host s" "sp_state ?s2 = (sp_state s)\<lparr>ss_last_tun0_ready := None\<rparr>"
    by (fact p)+
qed

section \<open>Quoting for the shell\<close>

text \<open>How \<open>sh\<close> reads one word: quotes and backslashes removed, up to a space.\<close>

fun sh_word :: "string \<Rightarrow> (string \<times> string) option" and sh_quoted :: "string \<Rightarrow> (string \<times> string) option" where
  "sh_word [] = Some ([], [])"
| "sh_word (c # cs) =
     (if c = CHR '' '' then Some ([], c # cs)
      else if c = CHR 0x27 then sh_quoted cs
      else if c = CHR 0x5C then (case cs of [] \<Rightarrow> None | d # ds \<Rightarrow> map_option (map_prod (Cons d) id) (sh_word ds))
      else map_option (map_prod (Cons c) id) (sh_word cs))"
| "sh_quoted [] = None"
| "sh_quoted (c # cs) = (if c = CHR 0x27 then sh_word cs else map_option (map_prod (Cons c) id) (sh_quoted cs))"

lemma sh_quoted_text: "sh_quoted (concat (map quote_char v) @ CHR 0x27 # rest) = map_option (map_prod ((@) v) id) (sh_word rest)"
proof (induction v)
  case Nil
  then show ?case by (cases "sh_word rest") auto
next
  case (Cons c v)
  then show ?case by (cases "sh_word rest") (auto simp: quote_char_def)
qed

section \<open>Sample runs\<close>

definition sample_supervisor_file :: "TunnelOwner \<Rightarrow> SupervisorFile" where
  "sample_supervisor_file owner =
     \<lparr>sf_listen = None, sf_admin_token = ''admin-token-0000001'', sf_ui_control_token = None, sf_proxy_binary = None, sf_proxy_args = [],
      sf_proxy_working_dir = None, sf_proxy_username = Some ''user'', sf_proxy_password = Some ''proxy-password-001'',
      sf_app_egress = Some 2080, sf_wireguard_enabled = False, sf_wireguard_owner = TunnelOwner_as_str owner\<rparr>"

definition sample_supervisor_cli :: SupervisorCli where
  "sample_supervisor_cli =
     \<lparr>sc_runtime_root = ''/r/current'', sc_poll_secs = 5, sc_repair_cooldown_secs = 15, sc_data_bounce_down_secs = 2,
      sc_data_bounce_settle_secs = 8, sc_once = False\<rparr>"

definition sample_load :: "TunnelOwner \<Rightarrow> string + SupervisorConfig" where
  "sample_load owner = supervisor_load_config (\<lambda>_. Inr (sample_supervisor_file owner)) (\<lambda>_ _. Inr ()) sample_supervisor_cli"

lemma sample_owner: "uses_reverse_tunnel owner \<Longrightarrow> supervisor_owner (sample_supervisor_file owner) = Inr owner"
  by (cases owner) (simp_all add: supervisor_owner_def sample_supervisor_file_def check_def TunnelOwner_parse_def)

lemma sample_egress: "is_Ok (app_egress_config owner (sample_supervisor_file owner))"
  by (simp add: app_egress_config_def sample_supervisor_file_def check_def)

lemma sample_load_Inr:
  assumes "uses_reverse_tunnel owner"
  obtains config where "sample_load owner = Inr config" "sv_tunnel_owner config = owner"
    "sv_wireguard_enabled config = False" "sv_repair_cooldown_secs config = 15"
proof -
  obtain egress where "app_egress_config owner (sample_supervisor_file owner) = Inr egress"
    using sample_egress by (auto simp: is_Ok_iff)
  moreover have "sf_wireguard_enabled (sample_supervisor_file owner) = False" by (simp add: sample_supervisor_file_def)
  ultimately have "\<exists>config. sample_load owner = Inr config \<and> sv_tunnel_owner config = owner \<and> sv_wireguard_enabled config = False
      \<and> sv_repair_cooldown_secs config = 15"
    by (simp add: sample_load_def supervisor_load_config_def sample_owner [OF assms] Let_def sample_supervisor_cli_def)
  then show thesis using that by blast
qed

lemma tunnel_owners: "uses_reverse_tunnel FirstPartyReverseTunnel" "uses_reverse_tunnel FirstPartyAndroidEgress"
  by simp_all

definition sample_sv_health :: "string \<Rightarrow> HealthRecord" where
  "sample_sv_health reason =
     (initial_health ''n'' ''n'' ''p'' ''first_party_reverse_tunnel'' None 0)\<lparr>he_serving := False, he_cellular_route_ready := Some True, he_degradation_reason_code := Some reason\<rparr>"

definition sample_observation :: "string \<Rightarrow> Observation" where
  "sample_observation reason =
     \<lparr>ob_now = 29, ob_health_now = 30, ob_probe_now = 31, ob_package_uid = Inr None, ob_ui_token_sent = False, ob_egress_provisioned = True,
      ob_dumpsys = None, ob_route_get = None, ob_routes = Inl ''ip'', ob_dns_write_error = None, ob_interface_write_error = None,
      ob_tun0 = False, ob_proxy_exited = Inr False, ob_host_exited = Inr False, ob_tun0_at_start = False,
      ob_spawn_proxy_error = None, ob_spawn_host_error = None, ob_tun0_at_kick = False,
      ob_health = Inr (sample_sv_health reason), ob_route_error = None, ob_bounce_error = None\<rparr>"

definition sample_started :: "SupervisorConfig \<Rightarrow> Supervisor" where
  "sample_started config = supervisor_start config (Inl ''unreadable'') (Inr None) False True 7"

lemma sample_config_kept: "reconcile_proxy_config (sample_observation reason) s = Inr (False, s)"
  by (simp add: reconcile_proxy_config_def reconcile_cellular_dns_def reconcile_cellular_proxy_interface_def sample_observation_def
      apply_edit_def cellular_interface_def cellular_route_hint_def parse_route_line_def unwrap_or_def split_whitespace_def map_err_def)

lemma fresh_children:
  assumes "sp_proxy s = None" "sp_host s = None" "\<not> sv_wireguard_enabled config"
  shows "ensure_children config (sample_observation reason) s = Inr (spawn_host_daemon (spawn_proxy s))"
  using assms by (simp add: ensure_children_def child_exited_def proxy_start_allowed_def sample_observation_def spawn_proxy_def)

lemma sample_started_fields:
  "sp_proxy (sample_started config) = None" "sp_host (sample_started config) = None" "sp_spawned (sample_started config) = 0"
  by (simp_all add: sample_started_def supervisor_start_def reconcile_startup_cellular_bootstrap_def start_repair_def)

lemma sample_turn:
  assumes "sv_tunnel_owner config = FirstPartyReverseTunnel" "sv_wireguard_enabled config = False" "sv_repair_cooldown_secs config = 15"
  obtains s where "supervised config s" "sp_repairs s = [7, 30]" "sp_host s = Some 1"
proof -
  let ?ob = "sample_observation ''reverse_tunnel_not_ready''"
  let ?s1 = "check_tunnel config ?ob (provision config ?ob (sample_started config))"
  have wg: "\<not> sv_wireguard_enabled config" using assms by simp
  have f: "sp_proxy ?s1 = None" "sp_host ?s1 = None" "sp_spawned ?s1 = 0" "sp_repairs ?s1 = [7]"
      "ss_last_route_repair (sp_state ?s1) = Some 7"
    using assms by (simp_all add: check_tunnel_off provision_def sample_started_def supervisor_start_def
        reconcile_startup_cellular_bootstrap_def route_repair_allowed_def SupervisorState_new_def start_repair_def)
  let ?s2 = "spawn_host_daemon (spawn_proxy ?s1)"
  have turn: "supervise config ?ob (sample_started config) = Inr (react config ?ob ?s2)"
    using sample_config_kept fresh_children [OF f(1,2) wg] wg by (simp add: supervise_def reconcile_wireguard_def)
  have "supervised config (sample_started config)" unfolding sample_started_def by (rule supervised.started)
  from supervised.turned [OF this turn] have "supervised config (react config ?ob ?s2)" .
  moreover have "sp_repairs (react config ?ob ?s2) = [7, 30] \<and> sp_host (react config ?ob ?s2) = Some 1"
    using assms f
    by (simp add: react_def sample_observation_def sample_sv_health_def initial_health_def restart_if_def reconcile_health_def Let_def
        reconcile_reverse_tunnel_cellular_bootstrap_def route_repair_allowed_def cooldown_def start_repair_def spawn_host_daemon_def
        spawn_proxy_def observe_readiness_def)
  ultimately show thesis using that by blast
qed

section \<open>Properties\<close>

text \<open>
  C24: Whatever happens to the phone, two proxy restarts that the supervisor claims are
  at least its cooldown apart, and so are two repairs of the cellular route.
\<close>

theorem interventions_spaced:
  assumes "supervised config s"
  shows "sorted_wrt (\<lambda>a b. a + max (unat (sv_repair_cooldown_secs config)) 1 \<le> b) (sp_claims s)
    \<and> sorted_wrt (\<lambda>a b. a + max (unat (sv_repair_cooldown_secs config)) 1 \<le> b) (sp_repairs s)"
  using spacing.holds_always [OF assms] by (simp add: spaced_def spaced_by_def gap_of_def cooldown_def)

theorem interventions_spaced_witness:
  "\<exists>config s. supervised config s \<and> sp_repairs s = [7, 30] \<and> sorted_wrt (\<lambda>a b. a + 15 \<le> b) (sp_repairs s)"
proof -
  obtain config :: SupervisorConfig where c: "sv_tunnel_owner config = FirstPartyReverseTunnel" "sv_wireguard_enabled config = False" "sv_repair_cooldown_secs config = 15"
    by (rule sample_load_Inr [OF tunnel_owners(1)]) blast
  obtain s where s: "supervised config s" "sp_repairs s = [7, 30]" by (rule sample_turn [OF c])
  from interventions_spaced [OF s(1)] have "sorted_wrt (\<lambda>a b. a + 15 \<le> b) (sp_repairs s)" by (simp add: c(3))
  with s show ?thesis by blast
qed

text \<open>
  C23: Under a configuration that loads with a tunnel owner, a running host daemon was
  always started after the proxy that is running: no host daemon outlives its proxy,
  so its tunnel session is never one of an earlier proxy.  And after every turn that
  succeeds both were running when the supervisor looked at the health.
\<close>

theorem host_never_outlives_proxy:
  assumes "supervisor_load_config read_config prepare cli = Inr config" "uses_reverse_tunnel (sv_tunnel_owner config)"
    and "supervised config s" "sp_host s = Some h"
  shows "\<exists>p. sp_proxy s = Some p \<and> p < h"
  using lineage.holds_always [OF assms(3)] loaded_tunnels [OF assms(1)] assms(2,4) by (simp add: ordered_def host_after_proxy_def)

theorem host_never_outlives_proxy_witness:
  "\<exists>config s. sample_load FirstPartyReverseTunnel = Inr config \<and> supervised config s \<and> sp_host s = Some 1 \<and> sp_proxy s = Some 0"
proof -
  obtain config :: SupervisorConfig where c: "sample_load FirstPartyReverseTunnel = Inr config" "sv_tunnel_owner config = FirstPartyReverseTunnel"
      "sv_wireguard_enabled config = False" "sv_repair_cooldown_secs config = 15"
    by (rule sample_load_Inr [OF tunnel_owners(1)]) blast
  obtain s where s: "supervised config s" "sp_host s = Some 1" by (rule sample_turn [OF c(2-4)])
  from host_never_outlives_proxy [OF c(1) [unfolded sample_load_def] _ s] c(2) have "sp_proxy s = Some 0" by auto
  with c(1) s show ?thesis by blast
qed

text \<open>
  Editing the proxy's configuration settles: a second pass over what Android
  reported changes nothing and asks for no restart, whatever failed in the first.
\<close>

theorem proxy_configuration_settles:
  assumes "reconcile_proxy_config ob s = Inr (changed, s1)"
  shows "reconcile_proxy_config ob s1 = Inr (False, s1)"
  using assms edits_settle config_unchanged [of ob s s1] by (cases changed) auto

definition sample_document :: Json where
  "sample_document = JObject [(''outbounds'', JArray [JObject [(''type'', JString ''direct'')]])]"

definition sample_routed :: Observation where
  "sample_routed = (sample_observation ''booting'')\<lparr>ob_route_get := Some ''1.1.1.1 dev rmnet1''\<rparr>"

theorem proxy_configuration_settles_witness:
  "\<exists>config s1. reconcile_proxy_config sample_routed ((sample_started config)\<lparr>sp_document := Inr sample_document\<rparr>) = Inr (True, s1)
     \<and> reconcile_proxy_config sample_routed s1 = Inr (False, s1)"
proof -
  have "cellular_interface (ob_route_get sample_routed) (ob_routes sample_routed) = Inr ''rmnet1''"
    by (simp add: sample_routed_def cellular_interface_def cellular_route_hint_def parse_route_line_def unwrap_or_def split_whitespace_def
        leading_whitespace_def byte_at_def is_cellular_dev_def starts_with_def)
  then have "\<exists>s1. reconcile_proxy_config sample_routed ((sample_started config)\<lparr>sp_document := Inr sample_document\<rparr>) = Inr (True, s1)" for config
    by (simp add: reconcile_proxy_config_def reconcile_cellular_dns_def reconcile_cellular_proxy_interface_def sample_document_def
        sample_routed_def sample_observation_def apply_edit_def map_err_def unbound_direct_def set_member_def index_mut_def replace_file_def)
  then show ?thesis using proxy_configuration_settles by blast
qed

text \<open>
  A failed public probe never costs the native reverse tunnel its session: a turn
  that finds both children running and nothing to edit leaves both running,
  whatever the health says.
\<close>

theorem native_tunnel_survives_failed_probe:
  assumes "supervisor_load_config read_config prepare cli = Inr config" "sv_tunnel_owner config = FirstPartyReverseTunnel"
    and "reconcile_proxy_config ob (provision config ob s) = Inr (False, s1)"
    and "ob_proxy_exited ob = Inr False" "ob_host_exited ob = Inr False" "sp_proxy s = Some p" "sp_host s = Some h"
  shows "\<exists>s'. supervise config ob s = Inr s' \<and> sp_proxy s' = Some p \<and> sp_host s' = Some h"
proof -
  have t: "tunnels config" using loaded_tunnels [OF assms(1)] assms(2) by simp
  obtain s2 where "supervise config ob s = Inr (react config ob s2)" "sp_proxy s2 = Some p" "sp_host s2 = Some h"
    by (rule quiet_turn [OF t assms(3-5)]) (use assms(6,7) in auto)
  then show ?thesis using assms(2) by (auto simp: react_def restart_if_def split: sum.split)
qed

definition sample_pair :: "SupervisorConfig \<Rightarrow> Supervisor" where
  "sample_pair config = spawn_host_daemon (spawn_proxy (sample_started config))"

lemma sample_pair_fields: "sp_proxy (sample_pair config) = Some 0" "sp_host (sample_pair config) = Some 1"
  by (simp_all add: sample_pair_def spawn_host_daemon_def spawn_proxy_def sample_started_fields)

theorem native_tunnel_survives_failed_probe_witness:
  "\<exists>config s'. sample_load FirstPartyReverseTunnel = Inr config
     \<and> supervise config (sample_observation ''public_probe_failed'') (sample_pair config) = Inr s' \<and> sp_proxy s' = Some 0 \<and> sp_host s' = Some 1"
proof -
  obtain config :: SupervisorConfig where c: "sample_load FirstPartyReverseTunnel = Inr config" "sv_tunnel_owner config = FirstPartyReverseTunnel"
    by (rule sample_load_Inr [OF tunnel_owners(1)]) blast
  have "ob_proxy_exited (sample_observation r) = Inr False" "ob_host_exited (sample_observation r) = Inr False" for r
    by (simp_all add: sample_observation_def)
  from native_tunnel_survives_failed_probe [OF c(1) [unfolded sample_load_def] c(2) sample_config_kept this sample_pair_fields] c(1)
  show ?thesis by blast
qed

text \<open>
  The Android egress owner carries its traffic over the same tunnel, and a failed
  public probe does cost it its session: once the cooldown has passed, the turn
  ends with the proxy and the host daemon both stopped.
\<close>

theorem egress_tunnel_dropped_on_failed_probe:
  assumes "supervisor_load_config read_config prepare cli = Inr config" "sv_tunnel_owner config = FirstPartyAndroidEgress"
    and "reconcile_proxy_config ob (provision config ob s) = Inr (False, s1)"
    and "ob_proxy_exited ob = Inr False" "ob_host_exited ob = Inr False" "sp_proxy s = Some p" "sp_host s = Some h"
    and "ob_health ob = Inr health" "he_degradation_reason_code health = Some ''public_probe_failed''"
    and "ss_last_proxy_restart (sp_state s) = None"
  shows "\<exists>s'. supervise config ob s = Inr s' \<and> sp_proxy s' = None \<and> sp_host s' = None"
proof -
  have t: "tunnels config" using loaded_tunnels [OF assms(1)] assms(2) by simp
  obtain s2 where s2: "supervise config ob s = Inr (react config ob s2)" "sp_proxy s2 = Some p"
      "ss_last_proxy_restart (sp_state s2) = None"
    by (rule quiet_turn [OF t assms(3-5)]) (use assms(6,7,10) in auto)
  let ?s3 = "reconcile_health config ob health s2"
  obtain s4 where s4: "claim_restart config (ob_probe_now ob) ?s3 = (True, s4)" "sp_proxy s4 = Some p"
    using s2(2,3) health_restart [of config ob health s2] by (auto simp: claim_restart_def claim_proxy_restart_def)
  then have "react config ob s2 = restart_proxy config s4" using assms(2,8,9) by (simp add: react_def restart_if_def)
  then show ?thesis using s2(1) s4(2) restart_proxy_children(1,2) [OF t, of s4] by simp
qed

theorem egress_tunnel_dropped_on_failed_probe_witness:
  "\<exists>config s'. sample_load FirstPartyAndroidEgress = Inr config
     \<and> supervise config (sample_observation ''public_probe_failed'') (sample_pair config) = Inr s' \<and> sp_proxy s' = None \<and> sp_host s' = None"
proof -
  obtain config :: SupervisorConfig where c: "sample_load FirstPartyAndroidEgress = Inr config" "sv_tunnel_owner config = FirstPartyAndroidEgress"
    by (rule sample_load_Inr [OF tunnel_owners(2)]) blast
  have o: "ob_proxy_exited (sample_observation r) = Inr False" "ob_host_exited (sample_observation r) = Inr False"
      "ob_health (sample_observation r) = Inr (sample_sv_health r)" "he_degradation_reason_code (sample_sv_health r) = Some r" for r
    by (simp_all add: sample_observation_def sample_sv_health_def)
  have "ss_last_proxy_restart (sp_state (sample_pair config)) = None"
    by (simp add: sample_pair_def spawn_host_daemon_def spawn_proxy_def sample_started_def supervisor_start_def
        reconcile_startup_cellular_bootstrap_def start_repair_def SupervisorState_new_def)
  from egress_tunnel_dropped_on_failed_probe [OF c(1) [unfolded sample_load_def] c(2) sample_config_kept o(1,2) sample_pair_fields o(3,4) this] c(1)
  show ?thesis by blast
qed


text \<open>
  A quoted text is one word of the shell, and that word is the text: nothing a
  configuration or token holds is interpreted by the shell it passes through.
\<close>

theorem shell_quote_roundtrip:
  "sh_word (shell_single_quote value) = Some (value, [])
   \<and> sh_word (shell_single_quote value @ '' '' @ rest) = Some (value, '' '' @ rest)"
  using sh_quoted_text [of "value" "[]"] sh_quoted_text [of "value" "'' '' @ rest"] by (simp add: shell_single_quote_def)

text \<open>
  The supervisor and the host daemon read the same owner section and accept the same
  ones: neither starts a tunnel owner the other refuses.
\<close>

theorem owner_checks_agree:
  assumes "file_wireguard fc = Some \<lparr>fw_enabled = Some enabled, fw_owner = Some owner\<rparr>"
    and "sf_wireguard_enabled sf = enabled" "sf_wireguard_owner sf = owner"
  shows "is_Ok (supervisor_owner sf) \<longleftrightarrow> is_Ok (host_owner fc)"
  using assms
  by (auto simp: supervisor_owner_def host_owner_def validate_owner_flags_def owner_names TunnelOwner_parse_def check_def)

definition sample_owner_file :: FileConfig where
  "sample_owner_file = sample_file\<lparr>file_wireguard := Some \<lparr>fw_enabled = Some False, fw_owner = Some ''first_party_android_egress''\<rparr>\<rparr>"

theorem owner_checks_agree_witness:
  "is_Ok (supervisor_owner (sample_supervisor_file FirstPartyAndroidEgress)) \<and> is_Ok (host_owner sample_owner_file)"
  using owner_checks_agree [of sample_owner_file False "''first_party_android_egress''" "sample_supervisor_file FirstPartyAndroidEgress"]
    sample_owner [OF tunnel_owners(2)]
  by (simp add: sample_owner_file_def sample_supervisor_file_def)

text \<open>
  An interface whose name begins with the cellular interface's name is taken for it:
  the default route is not repaired although it leads elsewhere.
\<close>

theorem longer_interface_name_hides_missing_route:
  "ensure_cellular_default_route (Some ''1.1.1.1 dev rmnet1'') all_routes ''default dev rmnet10'' = Inr None"
  by (simp add: ensure_cellular_default_route_def cellular_route_hint_def parse_route_line_def unwrap_or_def split_whitespace_def
        leading_whitespace_def byte_at_def is_cellular_dev_def starts_with_def main_default_route_for_def text_lines_def strip_cr_def Let_def)

end
