(* ===== verification/Artifact.thy ===== *)
theory Artifact
  imports Config_Fingerprint Vm_Ledger Text_Tools Tunnel_Wire "HOL-Library.AList"
begin

text \<open>
  Model of the artifact part of
  \<open>apps/operator-cli/src/bin/item19-acceptance-lifecycle.rs\<close>: the server binaries of a
  candidate, the manifest that binds their bytes to the candidate, and the evidence
  that admits it.  The artifact root is a tree of what the file system answers for it;
  JSON is a parameter.
\<close>

section \<open>Files\<close>

text \<open>
  What the file system says of an entry: a regular file with the length of its metadata
  and what reading it gives, a directory with its entries unless it cannot be listed, a
  symbolic link, or anything else.
\<close>

datatype Node =
    RegularFile nat "bytes option"
  | Directory "(bytes \<times> Node) list option"
  | Symlink
  | OtherEntry

fun lookup_path :: "Node \<Rightarrow> bytes list \<Rightarrow> Node option" where
  "lookup_path node [] = Some node"
| "lookup_path (Directory (Some entries)) (name # path) =
     (case map_of entries name of None \<Rightarrow> None | Some node \<Rightarrow> lookup_path node path)"
| "lookup_path _ (_ # _) = None"

definition MANIFEST_NAME :: string where "MANIFEST_NAME = ''manifest.json''"
definition MANIFEST_FORMAT_VERSION :: nat where "MANIFEST_FORMAT_VERSION = 1"
definition MAX_JSON_BYTES :: nat where "MAX_JSON_BYTES = 1024 * 1024"
definition MAX_ARTIFACT_FILE_BYTES :: nat where "MAX_ARTIFACT_FILE_BYTES = 128 * 1024 * 1024"
definition ARTIFACT_DIGEST_DOMAIN :: string where "ARTIFACT_DIGEST_DOMAIN = ''mobile-proxy/item19-server-artifact-file/v1''"

definition REQUIRED_ARTIFACT_FILES :: "string list" where
  "REQUIRED_ARTIFACT_FILES =
     [''bin/control-plane'', ''bin/relay-gate'', ''bin/reverse-tunnel-server'', ''bin/item19-acceptance-lifecycle'']"

datatype ArtifactError =
    ArtifactSha | ManifestLocation | RootMissing | RootNotDirectory | CannotEnumerate | HasSymlink | UnsupportedEntry
  | PathNotUtf8 | MissingOrUnexpectedFiles | RequiredFileMissing | NotRegularFile | EntrySizeInvalid | CannotRead
  | ManifestNotWritten | ManifestMissing | ManifestNotRegular | ManifestSize | ManifestInvalid | ManifestIdentity | BytesMismatch

record ArtifactEntry =
  entry_path :: string
  entry_size_bytes :: nat
  entry_digest :: digest

record ArtifactManifest =
  manifest_format_version :: nat
  manifest_candidate_sha :: string
  manifest_digest_domain :: string
  manifest_files :: "ArtifactEntry list"

section \<open>Collecting\<close>

definition with_slashes :: "bytes \<Rightarrow> bytes" where
  "with_slashes path = map (\<lambda>c. if c = CHR 0x5C then CHR ''/'' else c) path"

fun collect_artifact_files :: "bytes \<Rightarrow> (bytes \<times> Node) list \<Rightarrow> ArtifactError + string list" where
  "collect_artifact_files prefix [] = Inr []"
| "collect_artifact_files prefix ((name, Symlink) # rest) = Inl HasSymlink"
| "collect_artifact_files prefix ((name, OtherEntry) # rest) = Inl UnsupportedEntry"
| "collect_artifact_files prefix ((name, Directory None) # rest) = Inl CannotEnumerate"
| "collect_artifact_files prefix ((name, Directory (Some entries)) # rest) =
     and_then (collect_artifact_files (prefix @ name @ ''/'') entries) (\<lambda>below.
     and_then (collect_artifact_files prefix rest) (\<lambda>files. Inr (below @ files)))"
| "collect_artifact_files prefix ((name, RegularFile _ _) # rest) =
     (if utf8_valid (prefix @ name) then
        and_then (collect_artifact_files prefix rest) (\<lambda>files. Inr (with_slashes (prefix @ name) # files))
      else Inl PathNotUtf8)"

definition collect_root :: "Node \<Rightarrow> ArtifactError + string list" where
  "collect_root root = (case root of Directory (Some entries) \<Rightarrow> collect_artifact_files [] entries | _ \<Rightarrow> Inl CannotEnumerate)"

definition artifact_entry :: "Hashing \<Rightarrow> Node \<Rightarrow> string \<Rightarrow> ArtifactError + ArtifactEntry" where
  "artifact_entry H root relative =
     (case lookup_path root (split_on CHR ''/'' relative) of
        None \<Rightarrow> Inl RequiredFileMissing
      | Some (RegularFile len content) \<Rightarrow>
          if len = 0 \<or> MAX_ARTIFACT_FILE_BYTES < len then Inl EntrySizeInvalid
          else (case content of
                  None \<Rightarrow> Inl CannotRead
                | Some bytes \<Rightarrow>
                    Inr \<lparr>entry_path = relative, entry_size_bytes = len,
                         entry_digest = ContentDigest_derive (blake3_fn H) ARTIFACT_DIGEST_DOMAIN [bytes]\<rparr>)
      | Some _ \<Rightarrow> Inl NotRegularFile)"

fun each_entry :: "Hashing \<Rightarrow> Node \<Rightarrow> string list \<Rightarrow> ArtifactError + ArtifactEntry list" where
  "each_entry H root [] = Inr []"
| "each_entry H root (p # ps) =
     and_then (artifact_entry H root p) (\<lambda>e. and_then (each_entry H root ps) (\<lambda>es. Inr (e # es)))"

definition artifact_entries :: "Hashing \<Rightarrow> Node \<Rightarrow> ArtifactError + ArtifactEntry list" where
  "artifact_entries H root =
     and_then (collect_root root) (\<lambda>files.
     if set (filter (\<lambda>path. path \<noteq> MANIFEST_NAME) files) \<noteq> set REQUIRED_ARTIFACT_FILES then Inl MissingOrUnexpectedFiles
     else each_entry H root REQUIRED_ARTIFACT_FILES)"

section \<open>The manifest\<close>

record ManifestJson =
  print_manifest :: "ArtifactManifest \<Rightarrow> bytes"
  parse_manifest :: "bytes \<Rightarrow> ArtifactManifest option"

definition artifact_sha_ok :: "string \<Rightarrow> ArtifactError + unit" where
  "artifact_sha_ok candidate =
     (if length candidate \<noteq> 40 \<or> \<not> list_all is_lower_hex candidate then Inl ArtifactSha else Inr ())"

text \<open>Paths are compared by components.\<close>

definition validate_manifest_location :: "bytes list \<Rightarrow> bytes list \<Rightarrow> ArtifactError + unit" where
  "validate_manifest_location root_path manifest_path =
     (if manifest_path \<noteq> root_path @ [MANIFEST_NAME] then Inl ManifestLocation else Inr ())"

definition verify_artifact ::
  "Hashing \<Rightarrow> ManifestJson \<Rightarrow> string \<Rightarrow> bytes list \<Rightarrow> bytes list \<Rightarrow> Node \<Rightarrow> ArtifactError + unit" where
  "verify_artifact H J candidate root_path manifest_path root =
     and_then (artifact_sha_ok candidate) (\<lambda>_.
     and_then (validate_manifest_location root_path manifest_path) (\<lambda>_.
     case lookup_path root [MANIFEST_NAME] of
       None \<Rightarrow> Inl ManifestMissing
     | Some (RegularFile len content) \<Rightarrow>
         if len = 0 \<or> MAX_JSON_BYTES < len then Inl ManifestSize
         else
           and_then (ok_or CannotRead content) (\<lambda>bytes.
           and_then (ok_or ManifestInvalid (parse_manifest J bytes)) (\<lambda>artifact.
           if manifest_format_version artifact \<noteq> MANIFEST_FORMAT_VERSION \<or> manifest_candidate_sha artifact \<noteq> candidate
              \<or> manifest_digest_domain artifact \<noteq> ARTIFACT_DIGEST_DOMAIN
           then Inl ManifestIdentity
           else
             and_then (artifact_entries H root) (\<lambda>expected.
             if manifest_files artifact \<noteq> expected then Inl BytesMismatch else Inr ())))
     | Some _ \<Rightarrow> Inl ManifestNotRegular))"

text \<open>
  Writing the manifest creates or overwrites a regular file.  It fails on a directory;
  links and other entries are refused before.  \<open>writable\<close> is whether the system lets it write.
\<close>

definition write_manifest :: "bool \<Rightarrow> bytes \<Rightarrow> Node \<Rightarrow> ArtifactError + Node" where
  "write_manifest writable bytes root =
     (case root of
        Directory (Some entries) \<Rightarrow>
          if \<not> writable then Inl ManifestNotWritten
          else (case map_of entries MANIFEST_NAME of
                  None \<Rightarrow> Inr (Directory (Some (AList.update MANIFEST_NAME (RegularFile (length bytes) (Some bytes)) entries)))
                | Some (RegularFile _ _) \<Rightarrow>
                    Inr (Directory (Some (AList.update MANIFEST_NAME (RegularFile (length bytes) (Some bytes)) entries)))
                | Some _ \<Rightarrow> Inl ManifestNotWritten)
      | _ \<Rightarrow> Inl ManifestNotWritten)"

text \<open>\<open>root_link\<close> is whether the root itself is a symbolic link; the result is the tree with its manifest.\<close>

definition prepare_artifact ::
  "Hashing \<Rightarrow> ManifestJson \<Rightarrow> bool \<Rightarrow> bool \<Rightarrow> string \<Rightarrow> bytes list \<Rightarrow> bytes list \<Rightarrow> Node option \<Rightarrow> ArtifactError + Node" where
  "prepare_artifact H J root_link writable candidate root_path manifest_path tree =
     and_then (artifact_sha_ok candidate) (\<lambda>_.
     and_then (validate_manifest_location root_path manifest_path) (\<lambda>_.
     and_then (ok_or RootMissing tree) (\<lambda>root.
     if root_link \<or> (case root of Directory _ \<Rightarrow> False | _ \<Rightarrow> True) then Inl RootNotDirectory
     else
       and_then (artifact_entries H root) (\<lambda>files.
       and_then (write_manifest writable
         (print_manifest J \<lparr>manifest_format_version = MANIFEST_FORMAT_VERSION, manifest_candidate_sha = candidate,
            manifest_digest_domain = ARTIFACT_DIGEST_DOMAIN, manifest_files = files\<rparr>) root) (\<lambda>root'.
       and_then (verify_artifact H J candidate root_path manifest_path root') (\<lambda>_. Inr root'))))))"

section \<open>Admission\<close>

definition ITEM19_REPOSITORY :: string where "ITEM19_REPOSITORY = ''iamaman11/mobile-proxy''"
definition ADMISSION_AUTHORITY :: string where "ADMISSION_AUTHORITY = ''item19_pre_release_acceptance_lifecycle''"
definition ACCEPTANCE_ENVIRONMENT :: string where "ACCEPTANCE_ENVIRONMENT = ''acceptance-vultr''"
definition ITEM19_ISSUE :: nat where "ITEM19_ISSUE = 124"
definition PHONE_SIGNING_GATE_ISSUE :: nat where "PHONE_SIGNING_GATE_ISSUE = 115"

record AdmissionEvidence =
  ad_format_version :: nat
  ad_authority :: string
  ad_candidate_sha :: string
  ad_repository :: string
  ad_workflow_run_id :: string
  ad_workflow_run_attempt :: string
  ad_command_issue :: nat
  ad_command_comment_id :: string
  ad_quality_run_id :: string
  ad_quality_run_attempt :: string
  ad_acceptance_run_id :: string
  ad_acceptance_run_attempt :: string
  ad_preflight_run_id :: string
  ad_preflight_run_attempt :: string
  ad_provider_proof_window_ready :: bool
  ad_provider_proof_ephemeral :: bool
  ad_phone_signing_gate_issue :: nat
  ad_phone_signing_gate_required_for_item20 :: bool
  ad_phone_signing_gate_consumed_by_item19 :: bool
  ad_scope :: string
  ad_environment :: string
  ad_final_production_authority :: bool
  ad_production_environment_authorized :: bool
  ad_phone_mutation_authorized :: bool
  ad_provider_mutation_performed_at_admission :: bool

datatype AdmissionError = EvidenceMissing | EvidenceSize | EvidenceInvalid | NotAuthorized

text \<open>The length of the evidence file and what reading it gives, if there is one.\<close>

definition read_bounded_json :: "(bytes \<Rightarrow> 'a option) \<Rightarrow> (nat \<times> bytes option) option \<Rightarrow> AdmissionError + 'a" where
  "read_bounded_json parse evidence_file =
     and_then (ok_or EvidenceMissing evidence_file) (\<lambda>(len, content).
     if len = 0 \<or> MAX_JSON_BYTES < len then Inl EvidenceSize
     else ok_or EvidenceInvalid (Option.bind content parse))"

definition positive_numeric :: "string \<Rightarrow> bool" where
  "positive_numeric value = (value \<noteq> [] \<and> list_all is_ascii_digit value \<and> value \<noteq> ''0'')"

definition numeric_identities :: "AdmissionEvidence \<Rightarrow> string list" where
  "numeric_identities e =
     [ad_workflow_run_id e, ad_workflow_run_attempt e, ad_command_comment_id e, ad_quality_run_id e, ad_quality_run_attempt e,
      ad_acceptance_run_id e, ad_acceptance_run_attempt e, ad_preflight_run_id e, ad_preflight_run_attempt e]"

definition verify_admission_evidence ::
  "(bytes \<Rightarrow> AdmissionEvidence option) \<Rightarrow> string \<Rightarrow> (nat \<times> bytes option) option \<Rightarrow> AdmissionError + unit" where
  "verify_admission_evidence parse candidate evidence_file =
     and_then (read_bounded_json parse evidence_file) (\<lambda>e.
     if ad_format_version e \<noteq> 1 \<or> ad_authority e \<noteq> ADMISSION_AUTHORITY \<or> ad_candidate_sha e \<noteq> candidate
        \<or> ad_repository e \<noteq> ITEM19_REPOSITORY \<or> ad_command_issue e \<noteq> ITEM19_ISSUE
        \<or> ad_phone_signing_gate_issue e \<noteq> PHONE_SIGNING_GATE_ISSUE \<or> \<not> ad_provider_proof_window_ready e
        \<or> \<not> ad_provider_proof_ephemeral e \<or> \<not> ad_phone_signing_gate_required_for_item20 e
        \<or> ad_phone_signing_gate_consumed_by_item19 e \<or> ad_scope e \<noteq> LifecycleScope_as_str Acceptance
        \<or> ad_environment e \<noteq> ACCEPTANCE_ENVIRONMENT \<or> ad_final_production_authority e
        \<or> ad_production_environment_authorized e \<or> ad_phone_mutation_authorized e
        \<or> ad_provider_mutation_performed_at_admission e \<or> \<not> list_all positive_numeric (numeric_identities e)
     then Inl NotAuthorized else Inr ())"

section \<open>Lemmas\<close>

lemma manifest_name_plain: "utf8_valid MANIFEST_NAME" "with_slashes MANIFEST_NAME = MANIFEST_NAME"
proof -
  show "utf8_valid MANIFEST_NAME" by (rule ascii_utf8) (simp add: MANIFEST_NAME_def is_ascii_def in_range_def)
  show "with_slashes MANIFEST_NAME = MANIFEST_NAME" by (simp add: with_slashes_def MANIFEST_NAME_def)
qed

lemma collect_with_manifest:
  assumes "collect_artifact_files [] entries = Inr files"
    and "case map_of entries MANIFEST_NAME of None \<Rightarrow> True | Some (RegularFile _ _) \<Rightarrow> True | _ \<Rightarrow> False"
  shows "\<exists>files'. collect_artifact_files [] (AList.update MANIFEST_NAME (RegularFile len content) entries) = Inr files'
    \<and> set files' - {MANIFEST_NAME} = set files - {MANIFEST_NAME}"
  using assms
proof (induction "[] :: bytes" entries arbitrary: files rule: collect_artifact_files.induct)
  case 1
  then show ?case by (simp add: manifest_name_plain)
next
  case (5 name entries rest)
  from 5(3,4) obtain below files0 where b: "collect_artifact_files ([] @ name @ ''/'') entries = Inr below"
      "collect_artifact_files [] rest = Inr files0" "files = below @ files0" and n: "name \<noteq> MANIFEST_NAME"
    by (auto simp: and_then_Inr_iff split: if_splits)
  with 5(2) [OF b(2)] 5(4) obtain files' where
    "collect_artifact_files [] (AList.update MANIFEST_NAME (RegularFile len content) rest) = Inr files'"
    "set files' - {MANIFEST_NAME} = set files0 - {MANIFEST_NAME}" by auto
  with b n show ?case by (auto simp: and_then_def)
next
  case (6 name l c rest)
  from 6(2) obtain files0 where b: "utf8_valid name" "collect_artifact_files [] rest = Inr files0" "files = with_slashes name # files0"
    by (auto simp: and_then_Inr_iff split: if_splits)
  show ?case
  proof (cases "name = MANIFEST_NAME")
    case True
    then show ?thesis using b by (auto simp: and_then_def)
  next
    case False
    with 6(1) [OF _ b(2)] 6(3) b(1) obtain files' where
      "collect_artifact_files [] (AList.update MANIFEST_NAME (RegularFile len content) rest) = Inr files'"
      "set files' - {MANIFEST_NAME} = set files0 - {MANIFEST_NAME}" by auto
    with b False show ?thesis by (auto simp: and_then_def)
  qed
qed auto

lemma required_below_bin:
  assumes "p \<in> set REQUIRED_ARTIFACT_FILES"
  shows "\<exists>name. split_on CHR ''/'' p = [''bin'', name]" "p \<noteq> MANIFEST_NAME"
  using assms by (auto simp: REQUIRED_ARTIFACT_FILES_def MANIFEST_NAME_def)

lemma required_lookup_with_manifest:
  assumes "p \<in> set REQUIRED_ARTIFACT_FILES"
  shows "lookup_path (Directory (Some (AList.update MANIFEST_NAME node entries))) (split_on CHR ''/'' p)
    = lookup_path (Directory (Some entries)) (split_on CHR ''/'' p)"
proof -
  have "''bin'' \<noteq> MANIFEST_NAME" by (simp add: MANIFEST_NAME_def)
  then show ?thesis using required_below_bin(1) [OF assms] by (auto simp: update_conv')
qed

lemma each_entry_cong:
  assumes "\<And>p. p \<in> set ps \<Longrightarrow> lookup_path root (split_on CHR ''/'' p) = lookup_path root' (split_on CHR ''/'' p)"
  shows "each_entry H root ps = each_entry H root' ps"
  using assms by (induction ps) (simp_all add: artifact_entry_def)

lemma entries_with_manifest:
  assumes "artifact_entries H (Directory (Some entries)) = Inr es"
    and "case map_of entries MANIFEST_NAME of None \<Rightarrow> True | Some (RegularFile _ _) \<Rightarrow> True | _ \<Rightarrow> False"
  shows "artifact_entries H (Directory (Some (AList.update MANIFEST_NAME (RegularFile len content) entries))) = Inr es"
proof -
  let ?root = "Directory (Some entries)" and ?root' = "Directory (Some (AList.update MANIFEST_NAME (RegularFile len content) entries))"
  from assms(1) obtain files where f: "collect_artifact_files [] entries = Inr files"
      "set files - {MANIFEST_NAME} = set REQUIRED_ARTIFACT_FILES" "each_entry H ?root REQUIRED_ARTIFACT_FILES = Inr es"
    by (auto simp: artifact_entries_def collect_root_def and_then_Inr_iff split: if_splits)
  from collect_with_manifest [OF f(1) assms(2), where len = len and content = content] obtain files' where
    f': "collect_artifact_files [] (AList.update MANIFEST_NAME (RegularFile len content) entries) = Inr files'"
      "set files' - {MANIFEST_NAME} = set REQUIRED_ARTIFACT_FILES" using f(2) by auto
  have "each_entry H ?root' REQUIRED_ARTIFACT_FILES = Inr es"
    using each_entry_cong [of REQUIRED_ARTIFACT_FILES ?root' ?root H] required_lookup_with_manifest f(3) by metis
  moreover have "set (filter (\<lambda>path. path \<noteq> MANIFEST_NAME) files') = set REQUIRED_ARTIFACT_FILES" using f'(2) by auto
  ultimately show ?thesis using f'(1) by (simp add: artifact_entries_def collect_root_def)
qed

lemma each_entry_Inr:
  assumes "each_entry H root ps = Inr es"
  shows "list_all2 (\<lambda>p e. artifact_entry H root p = Inr e) ps es"
  using assms by (induction ps arbitrary: es) (auto simp: and_then_Inr_iff)

text \<open>The bytes of a required file.\<close>

definition file_bytes :: "Node \<Rightarrow> string \<Rightarrow> bytes option" where
  "file_bytes root p = (case lookup_path root (split_on CHR ''/'' p) of Some (RegularFile _ content) \<Rightarrow> content | _ \<Rightarrow> None)"

lemma artifact_entry_bytes:
  "artifact_entry H root p = Inr e \<Longrightarrow> \<exists>b. file_bytes root p = Some b \<and> entry_path e = p
     \<and> entry_digest e = blake3_fn H ARTIFACT_DIGEST_DOMAIN (frame_parts [b])"
  by (auto simp: artifact_entry_def file_bytes_def ContentDigest_derive_def split: option.splits Node.splits if_splits)

lemma verified_artifact:
  assumes "verify_artifact H J candidate rp mp root = Inr ()"
  obtains m where "manifest_candidate_sha m = candidate" "artifact_entries H root = Inr (manifest_files m)"
    "Option.bind (file_bytes root MANIFEST_NAME) (parse_manifest J) = Some m"
proof -
  have "split_on CHR ''/'' MANIFEST_NAME = [MANIFEST_NAME]" by (simp add: MANIFEST_NAME_def)
  then show thesis using assms that
    by (auto simp: verify_artifact_def file_bytes_def and_then_Inr_iff split: option.splits Node.splits if_splits)
qed

lemma entry_of_required:
  assumes "artifact_entries H root = Inr es" "p \<in> set REQUIRED_ARTIFACT_FILES"
  shows "\<exists>e. artifact_entry H root p = Inr e \<and> e \<in> set es \<and> (\<forall>e'\<in>set es. entry_path e' = p \<longrightarrow> e' = e)"
proof -
  have all: "list_all2 (\<lambda>p e. artifact_entry H root p = Inr e) REQUIRED_ARTIFACT_FILES es"
    using assms(1) by (auto simp: artifact_entries_def and_then_Inr_iff intro!: each_entry_Inr split: if_splits)
  have len: "length REQUIRED_ARTIFACT_FILES = length es" using all by (rule list_all2_lengthD)
  obtain i where i: "i < length REQUIRED_ARTIFACT_FILES" "REQUIRED_ARTIFACT_FILES ! i = p" using assms(2) by (auto simp: in_set_conv_nth)
  then have e: "artifact_entry H root p = Inr (es ! i)" "es ! i \<in> set es" using list_all2_nthD [OF all i(1)] len by auto
  have "e' = es ! i" if listed: "e' \<in> set es" "entry_path e' = p" for e'
  proof -
    obtain j where j: "j < length es" "es ! j = e'" using listed(1) by (auto simp: in_set_conv_nth)
    then obtain p' where p': "artifact_entry H root p' = Inr e'" using list_all2_nthD2 [OF all j(1)] by auto
    have "p' = p" using artifact_entry_bytes [OF p'] listed(2) by auto
    then show ?thesis using e(1) p' by simp
  qed
  then show ?thesis using e by blast
qed

lemma collect_append:
  "collect_artifact_files prefix es = Inr fs \<Longrightarrow> collect_artifact_files prefix es' = Inr fs' \<Longrightarrow>
     collect_artifact_files prefix (es @ es') = Inr (fs @ fs')"
  by (induction prefix es arbitrary: fs rule: collect_artifact_files.induct) (auto simp: and_then_Inr_iff split: if_splits)

definition disguised :: bytes where
  "disguised = ''bin'' @ [CHR 0x5C] @ ''relay-gate''"

lemma disguised_path: "collect_artifact_files [] [(disguised, RegularFile len content)] = Inr [''bin/relay-gate'']"
proof -
  have "utf8_valid disguised" by (rule ascii_utf8) (simp add: disguised_def is_ascii_def in_range_def)
  then show ?thesis by (simp add: with_slashes_def disguised_def)
qed

lemma disguised_lookup:
  assumes "p \<in> set REQUIRED_ARTIFACT_FILES"
  shows "lookup_path (Directory (Some (entries @ [(disguised, node)]))) (split_on CHR ''/'' p)
    = lookup_path (Directory (Some entries)) (split_on CHR ''/'' p)"
proof -
  have "disguised \<noteq> ''bin''" by (simp add: disguised_def)
  then show ?thesis using required_below_bin(1) [OF assms] by (auto simp: map_add_def split: option.split)
qed

section \<open>Properties\<close>

text \<open>
  Preparing and verifying fit together: for a complete artifact in a real directory,
  preparing writes a manifest that verification then accepts, and leaves the files as
  they were, provided that a manifest survives its JSON text and is not larger than
  verification allows.
\<close>

theorem prepared_artifact_verifies:
  assumes "artifact_sha_ok candidate = Inr ()" "artifact_entries H (Directory (Some entries)) = Inr files"
    and "case map_of entries MANIFEST_NAME of None \<Rightarrow> True | Some (RegularFile _ _) \<Rightarrow> True | _ \<Rightarrow> False"
    and "m = \<lparr>manifest_format_version = MANIFEST_FORMAT_VERSION, manifest_candidate_sha = candidate,
            manifest_digest_domain = ARTIFACT_DIGEST_DOMAIN, manifest_files = files\<rparr>"
    and "parse_manifest J (print_manifest J m) = Some m" "print_manifest J m \<noteq> []" "length (print_manifest J m) \<le> MAX_JSON_BYTES"
  shows "\<exists>root'. prepare_artifact H J False True candidate rp (rp @ [MANIFEST_NAME]) (Some (Directory (Some entries))) = Inr root'
     \<and> verify_artifact H J candidate rp (rp @ [MANIFEST_NAME]) root' = Inr ()
     \<and> (\<forall>p\<in>set REQUIRED_ARTIFACT_FILES. file_bytes root' p = file_bytes (Directory (Some entries)) p)"
proof -
  let ?root = "Directory (Some entries)" and ?j = "print_manifest J m"
  let ?root' = "Directory (Some (AList.update MANIFEST_NAME (RegularFile (length ?j) (Some ?j)) entries))"
  have w: "write_manifest True ?j ?root = Inr ?root'"
    using assms(3) by (auto simp: write_manifest_def split: option.splits Node.splits)
  have e: "artifact_entries H ?root' = Inr files" using assms(2,3) by (rule entries_with_manifest)
  have v: "verify_artifact H J candidate rp (rp @ [MANIFEST_NAME]) ?root' = Inr ()"
    using assms(1,5-7) e by (simp add: verify_artifact_def validate_manifest_location_def update_conv' assms(4) and_then_def)
  have "prepare_artifact H J False True candidate rp (rp @ [MANIFEST_NAME]) (Some ?root) = Inr ?root'"
    using assms(1,2) w v by (simp add: prepare_artifact_def validate_manifest_location_def assms(4) [symmetric])
  then show ?thesis using v required_lookup_with_manifest by (auto simp: file_bytes_def)
qed

text \<open>
  C17: A manifest binds its candidate to its bytes: two trees that verify with the same
  manifest file are of the same candidate and agree on the bytes of every required
  file, unless the hash function collides.
\<close>

theorem manifest_binds_bytes:
  assumes "verify_artifact H J candidate rp mp root = Inr ()" "verify_artifact H J candidate' rp' mp' root' = Inr ()"
    and "file_bytes root MANIFEST_NAME = file_bytes root' MANIFEST_NAME" "p \<in> set REQUIRED_ARTIFACT_FILES"
  shows "candidate = candidate' \<and> (\<exists>b b'. file_bytes root p = Some b \<and> file_bytes root' p = Some b'
     \<and> (b = b' \<or> (frame_parts [b] \<noteq> frame_parts [b']
          \<and> blake3_fn H ARTIFACT_DIGEST_DOMAIN (frame_parts [b]) = blake3_fn H ARTIFACT_DIGEST_DOMAIN (frame_parts [b']))))"
proof -
  obtain m where m: "manifest_candidate_sha m = candidate" "artifact_entries H root = Inr (manifest_files m)"
      "Option.bind (file_bytes root MANIFEST_NAME) (parse_manifest J) = Some m" using verified_artifact [OF assms(1)] by blast
  obtain m' where m': "manifest_candidate_sha m' = candidate'" "artifact_entries H root' = Inr (manifest_files m')"
      "Option.bind (file_bytes root' MANIFEST_NAME) (parse_manifest J) = Some m'" using verified_artifact [OF assms(2)] by blast
  have same: "m = m'" using m(3) m'(3) assms(3) by simp
  obtain e where e: "artifact_entry H root p = Inr e" "\<forall>e'\<in>set (manifest_files m). entry_path e' = p \<longrightarrow> e' = e"
    using entry_of_required [OF m(2) assms(4)] by blast
  obtain e' where e': "artifact_entry H root' p = Inr e'" "e' \<in> set (manifest_files m')"
    using entry_of_required [OF m'(2) assms(4)] by blast
  obtain b b' where b: "file_bytes root p = Some b" "entry_digest e = blake3_fn H ARTIFACT_DIGEST_DOMAIN (frame_parts [b])"
      "file_bytes root' p = Some b'" "entry_path e' = p" "entry_digest e' = blake3_fn H ARTIFACT_DIGEST_DOMAIN (frame_parts [b'])"
    using artifact_entry_bytes [OF e(1)] artifact_entry_bytes [OF e'(1)] by blast
  have "e' = e" using e(2) e'(2) same b(4) by blast
  then show ?thesis using b m(1) m'(1) same by (auto simp: frame_part_inject)
qed

text \<open>
  The inventory compares paths after backslashes have become slashes, so that a file at
  the root whose name holds a backslash can pass for a required one: an artifact with
  such an extra file is accepted with the same entries.
\<close>

theorem backslash_file_passes_inventory:
  assumes "artifact_entries H (Directory (Some entries)) = Inr es"
  shows "artifact_entries H (Directory (Some (entries @ [(disguised, RegularFile len content)]))) = Inr es"
proof -
  let ?root = "Directory (Some entries)" and ?root' = "Directory (Some (entries @ [(disguised, RegularFile len content)]))"
  from assms obtain files where f: "collect_artifact_files [] entries = Inr files"
      "set files - {MANIFEST_NAME} = set REQUIRED_ARTIFACT_FILES" "each_entry H ?root REQUIRED_ARTIFACT_FILES = Inr es"
    by (auto simp: artifact_entries_def collect_root_def and_then_Inr_iff split: if_splits)
  have c: "collect_artifact_files [] (entries @ [(disguised, RegularFile len content)]) = Inr (files @ [''bin/relay-gate''])"
    by (rule collect_append [OF f(1) disguised_path])
  have r: "''bin/relay-gate'' \<in> set REQUIRED_ARTIFACT_FILES" by (simp add: REQUIRED_ARTIFACT_FILES_def)
  have e: "each_entry H ?root' REQUIRED_ARTIFACT_FILES = Inr es"
    using each_entry_cong [of REQUIRED_ARTIFACT_FILES ?root' ?root H] disguised_lookup f(3) by metis
  have "set (files @ [''bin/relay-gate'']) - {MANIFEST_NAME} = set REQUIRED_ARTIFACT_FILES"
    using f(2) r required_below_bin(2) [OF r] by (auto simp del: in_set_conv_nth)
  then have s: "set (filter (\<lambda>path. path \<noteq> MANIFEST_NAME) (files @ [''bin/relay-gate''])) = set REQUIRED_ARTIFACT_FILES"
    unfolding set_filter by (simp only: set_diff_eq singleton_iff)
  show ?thesis
    by (simp only: artifact_entries_def collect_root_def Node.case option.case c and_then_simps s e simp_thms if_False)
qed

definition sample_bin :: "(bytes \<times> Node) list" where
  "sample_bin = map (\<lambda>n. (n, RegularFile 3 (Some ''elf''))) [''control-plane'', ''relay-gate'', ''reverse-tunnel-server'', ''item19-acceptance-lifecycle'']"

definition sample_artifact :: "(bytes \<times> Node) list" where
  "sample_artifact = [(''bin'', Directory (Some sample_bin))]"

definition sample_manifest :: "Hashing \<Rightarrow> ArtifactManifest" where
  "sample_manifest H = \<lparr>manifest_format_version = 1, manifest_candidate_sha = replicate 40 CHR ''a'', manifest_digest_domain = ARTIFACT_DIGEST_DOMAIN,
     manifest_files = map (\<lambda>p. \<lparr>entry_path = p, entry_size_bytes = 3,
       entry_digest = ContentDigest_derive (blake3_fn H) ARTIFACT_DIGEST_DOMAIN [''elf'']\<rparr>) REQUIRED_ARTIFACT_FILES\<rparr>"

lemma sample_entries: "artifact_entries H (Directory (Some sample_artifact)) = Inr (manifest_files (sample_manifest H))"
proof -
  have u: "list_all utf8_valid REQUIRED_ARTIFACT_FILES"
    by (auto simp: REQUIRED_ARTIFACT_FILES_def is_ascii_def in_range_def intro!: ascii_utf8)
  have "collect_artifact_files [] sample_artifact = Inr REQUIRED_ARTIFACT_FILES"
    using u by (simp add: sample_artifact_def sample_bin_def REQUIRED_ARTIFACT_FILES_def with_slashes_def)
  moreover have "MANIFEST_NAME \<notin> set REQUIRED_ARTIFACT_FILES" using required_below_bin(2) by blast
  then have "set (filter (\<lambda>path. path \<noteq> MANIFEST_NAME) REQUIRED_ARTIFACT_FILES) = set REQUIRED_ARTIFACT_FILES" by auto
  moreover have "each_entry H (Directory (Some sample_artifact)) REQUIRED_ARTIFACT_FILES = Inr (manifest_files (sample_manifest H))"
    by (simp add: REQUIRED_ARTIFACT_FILES_def artifact_entry_def sample_artifact_def sample_bin_def sample_manifest_def MAX_ARTIFACT_FILE_BYTES_def)
  ultimately show ?thesis by (simp add: artifact_entries_def collect_root_def)
qed

definition sample_manifest_json :: ManifestJson where
  "sample_manifest_json = \<lparr>print_manifest = (\<lambda>m. ''{}''), parse_manifest = (\<lambda>_. Some (sample_manifest sample_blake3))\<rparr>"

lemma sample_artifact_sha: "artifact_sha_ok (replicate 40 CHR ''a'') = Inr ()"
  by (simp add: artifact_sha_ok_def list_all_iff is_lower_hex_def is_ascii_digit_def in_range_def)

theorem prepared_artifact_verifies_witness:
  "\<exists>root'. prepare_artifact sample_blake3 sample_manifest_json False True (replicate 40 CHR ''a'') [''artifact''] ([''artifact''] @ [MANIFEST_NAME])
       (Some (Directory (Some sample_artifact))) = Inr root'
     \<and> verify_artifact sample_blake3 sample_manifest_json (replicate 40 CHR ''a'') [''artifact''] ([''artifact''] @ [MANIFEST_NAME]) root' = Inr ()
     \<and> file_bytes root' ''bin/relay-gate'' = Some ''elf''"
proof -
  have "map_of sample_artifact MANIFEST_NAME = None" by (simp add: sample_artifact_def MANIFEST_NAME_def)
  then obtain root' where r: "prepare_artifact sample_blake3 sample_manifest_json False True (replicate 40 CHR ''a'') [''artifact''] ([''artifact''] @ [MANIFEST_NAME])
       (Some (Directory (Some sample_artifact))) = Inr root'"
      "verify_artifact sample_blake3 sample_manifest_json (replicate 40 CHR ''a'') [''artifact''] ([''artifact''] @ [MANIFEST_NAME]) root' = Inr ()"
      "\<forall>p\<in>set REQUIRED_ARTIFACT_FILES. file_bytes root' p = file_bytes (Directory (Some sample_artifact)) p"
    using prepared_artifact_verifies [OF sample_artifact_sha sample_entries _ refl, where J = sample_manifest_json and rp = "[''artifact'']"]
    by (auto simp: sample_manifest_json_def sample_manifest_def MANIFEST_FORMAT_VERSION_def MAX_JSON_BYTES_def)
  moreover have "file_bytes (Directory (Some sample_artifact)) ''bin/relay-gate'' = Some ''elf''"
    by (simp add: file_bytes_def sample_artifact_def sample_bin_def)
  moreover have "''bin/relay-gate'' \<in> set REQUIRED_ARTIFACT_FILES" by (simp add: REQUIRED_ARTIFACT_FILES_def)
  ultimately show ?thesis by metis
qed

definition sample_verified :: Node where
  "sample_verified = Directory (Some (AList.update MANIFEST_NAME (RegularFile 2 (Some ''{}'')) sample_artifact))"

lemma sample_verifies: "verify_artifact sample_blake3 sample_manifest_json (replicate 40 CHR ''a'') [''r''] [''r'', MANIFEST_NAME] sample_verified = Inr ()"
proof -
  have "map_of sample_artifact MANIFEST_NAME = None" by (simp add: sample_artifact_def MANIFEST_NAME_def)
  then have "artifact_entries sample_blake3 sample_verified = Inr (manifest_files (sample_manifest sample_blake3))"
    unfolding sample_verified_def by (intro entries_with_manifest sample_entries) simp
  then show ?thesis
    using sample_artifact_sha by (simp add: verify_artifact_def validate_manifest_location_def sample_verified_def update_conv' MAX_JSON_BYTES_def
        sample_manifest_json_def sample_manifest_def MANIFEST_FORMAT_VERSION_def)
qed

theorem manifest_binds_bytes_witness:
  "\<exists>b. file_bytes sample_verified ''bin/relay-gate'' = Some b"
  using manifest_binds_bytes [OF sample_verifies sample_verifies refl, of "''bin/relay-gate''"] by (auto simp: REQUIRED_ARTIFACT_FILES_def)

theorem backslash_file_passes_inventory_witness:
  "artifact_entries sample_blake3 (Directory (Some (sample_artifact @ [(disguised, RegularFile 1 None)])))
     = Inr (manifest_files (sample_manifest sample_blake3))"
  by (rule backslash_file_passes_inventory [OF sample_entries])

end
