(* ===== verification/Vm_Client.thy ===== *)
theory Vm_Client
  imports Vm_Session Net_Addr Text_Tools Tunnel_Wire
begin

text \<open>
  Model of \<open>apps/operator-cli/src/vultr_client.rs\<close>: the provider's HTTP client, which
  is the provider of an acceptance session.  The HTTP library, JSON, base64 and UUID
  texts are the fields of \<open>VultrLibrary\<close>; every request that leaves the client is
  recorded with its query.
\<close>

section \<open>Requests\<close>

definition VULTR_API_VERSION :: string where "VULTR_API_VERSION = ''v2''"
definition MAX_RESPONSE_BYTES :: nat where "MAX_RESPONSE_BYTES = 8 * 1024 * 1024"
definition INSTANCE_PAGE_SIZE :: nat where "INSTANCE_PAGE_SIZE = 500"
definition MAX_INSTANCE_PAGES :: nat where "MAX_INSTANCE_PAGES = 20"
definition MAX_CURSOR_BYTES :: nat where "MAX_CURSOR_BYTES = 1024"
definition MAX_USER_DATA_BYTES :: nat where "MAX_USER_DATA_BYTES = 32 * 1024"

datatype VultrClientError =
    AcceptanceScopeRequired | InvalidUserData | TargetVerificationFailed | InvalidTransportEndpoint
  | TransportFailed | HttpStatus nat | ResponseTooLarge | UnreadableResponse | InvalidPagination
  | PaginationLimitExceeded | Adapter VultrAdapterError

type_synonym query = "(string \<times> string) list"

text \<open>An answer: its status, the announced length and the body as far as it can be read.\<close>

datatype HttpAnswer = NoAnswer | Answer nat "nat option" "string + bytes"

record PageMeta =
  meta_next :: "string option"

record InstancesPage =
  page_instances :: "VultrInstanceDto list"
  page_meta :: "PageMeta option"

record VultrLibrary =
  parse_page :: "bytes \<Rightarrow> InstancesPage option"
  parse_created :: "bytes \<Rightarrow> VultrInstanceDto option"
  base64_decode :: "string \<Rightarrow> bytes option"
  uuid_of_text :: "string \<Rightarrow> uuid option"
  uuid_text :: "uuid \<Rightarrow> string"

record 'w Wire =
  wire_world :: 'w
  wire_log :: "(VultrRequest \<times> query) list"

type_synonym 'w sender = "VultrRequest \<Rightarrow> query \<Rightarrow> 'w \<Rightarrow> HttpAnswer \<times> 'w"
type_synonym ('w, 'a) client = "('w Wire, VultrClientError, 'a) effect"

definition request_allowed :: "VultrRequest \<Rightarrow> query \<Rightarrow> bool" where
  "request_allowed request query =
     (starts_with (''/'' @ VULTR_API_VERSION @ ''/'') (request_path request)
      \<and> \<not> contains ''..'' (request_path request) \<and> CHR ''?'' \<notin> set (request_path request) \<and> CHR ''#'' \<notin> set (request_path request)
      \<and> (request_method request = Get \<or> query = [])
      \<and> list_all (\<lambda>(key, value). key \<in> {''per_page'', ''cursor''} \<and> value \<noteq> [] \<and> length value \<le> MAX_CURSOR_BYTES) query)"

definition read_bounded :: "nat option \<Rightarrow> string + bytes \<Rightarrow> VultrClientError + bytes" where
  "read_bounded content_length body =
     (if (case content_length of Some n \<Rightarrow> MAX_RESPONSE_BYTES < n | None \<Rightarrow> False) then Inl ResponseTooLarge
      else case body of
             Inl _ \<Rightarrow> Inl TransportFailed
           | Inr bytes \<Rightarrow> if MAX_RESPONSE_BYTES < length bytes then Inl ResponseTooLarge else Inr bytes)"

definition execute_with_query :: "'w sender \<Rightarrow> VultrRequest \<Rightarrow> query \<Rightarrow> ('w, bytes) client" where
  "execute_with_query send request query wire =
     (if \<not> request_allowed request query then (Inl TransportFailed, wire)
      else case send request query (wire_world wire) of
             (answer, w) \<Rightarrow>
               ((case answer of
                   NoAnswer \<Rightarrow> Inl TransportFailed
                 | Answer status content_length body \<Rightarrow>
                     if \<not> (200 \<le> status \<and> status < 300) then Inl (HttpStatus status) else read_bounded content_length body),
                \<lparr>wire_world = w, wire_log = wire_log wire @ [(request, query)]\<rparr>))"

definition client_try :: "VultrClientError + 'a \<Rightarrow> ('w, 'a) client" where
  "client_try r wire = (r, wire)"

definition client_bind :: "('w, 'a) client \<Rightarrow> ('a \<Rightarrow> ('w, 'b) client) \<Rightarrow> ('w, 'b) client" where
  "client_bind m f wire = (case m wire of (Inl e, wire') \<Rightarrow> (Inl e, wire') | (Inr x, wire') \<Rightarrow> f x wire')"

section \<open>Listing\<close>

definition page_query :: "string option \<Rightarrow> query" where
  "page_query cursor = (''per_page'', nat_text INSTANCE_PAGE_SIZE) # (case cursor of None \<Rightarrow> [] | Some value \<Rightarrow> [(''cursor'', value)])"

definition page_next :: "InstancesPage \<Rightarrow> string" where
  "page_next page = (case page_meta page of None \<Rightarrow> [] | Some meta \<Rightarrow> (case meta_next meta of None \<Rightarrow> [] | Some next \<Rightarrow> next))"

fun list_from ::
  "VultrLibrary \<Rightarrow> 'w sender \<Rightarrow> nat \<Rightarrow> string option \<Rightarrow> string list \<Rightarrow> ObservedVm list \<Rightarrow> ('w, ObservedVm list) client" where
  "list_from lib send 0 cursor seen observed = client_try (Inl PaginationLimitExceeded)"
| "list_from lib send (Suc rounds) cursor seen observed =
     client_bind (execute_with_query send list_instances_request (page_query cursor)) (\<lambda>body.
     client_bind (client_try (ok_or UnreadableResponse (parse_page lib body))) (\<lambda>page.
     client_bind (client_try (map_err Adapter (decode_instances (uuid_of_text lib) (uuid_text lib) (page_instances page)))) (\<lambda>vms.
     (let next = page_next page in
      if next = [] then
        client_try (if INSTANCE_PAGE_SIZE \<le> length (page_instances page) \<and> page_meta page = None then Inl InvalidPagination else Inr (observed @ vms))
      else if MAX_CURSOR_BYTES < length next \<or> next \<in> set seen then client_try (Inl InvalidPagination)
      else list_from lib send rounds (Some next) (next # seen) (observed @ vms)))))"

definition list_instances :: "VultrLibrary \<Rightarrow> 'w sender \<Rightarrow> ('w, ObservedVm list) client" where
  "list_instances lib send = list_from lib send MAX_INSTANCE_PAGES None [] []"

section \<open>Machines\<close>

definition require_acceptance :: "LifecycleScope \<Rightarrow> VultrClientError + unit" where
  "require_acceptance scope = (if scope \<noteq> Acceptance then Inl AcceptanceScopeRequired else Inr ())"

definition validate_user_data :: "VultrLibrary \<Rightarrow> string \<Rightarrow> VultrClientError + unit" where
  "validate_user_data lib user_data_b64 =
     (if user_data_b64 = [] \<or> MAX_USER_DATA_BYTES * 2 < length user_data_b64 then Inl InvalidUserData
      else case base64_decode lib user_data_b64 of
             None \<Rightarrow> Inl InvalidUserData
           | Some decoded \<Rightarrow>
               if decoded = [] \<or> MAX_USER_DATA_BYTES < length decoded then Inl InvalidUserData
               else if \<not> utf8_valid decoded then Inl InvalidUserData
               else if \<not> starts_with (''#cloud-config'' @ [newline]) decoded then Inl InvalidUserData else Inr ())"

definition decode_created_instance :: "VultrLibrary \<Rightarrow> bytes \<Rightarrow> VultrClientError + ObservedVm" where
  "decode_created_instance lib body =
     and_then (ok_or UnreadableResponse (parse_created lib body)) (\<lambda>dto.
     map_err Adapter (decode_instance (uuid_of_text lib) (uuid_text lib) dto))"

definition create_instance :: "VultrLibrary \<Rightarrow> 'w sender \<Rightarrow> PlannedCreate \<Rightarrow> VultrVmSpec \<Rightarrow> ('w, ObservedVm) client" where
  "create_instance lib send plan spec =
     client_bind (client_try (require_acceptance (intent_scope (create_intent plan)))) (\<lambda>_.
     client_bind (execute_with_query send (create_request plan spec) []) (\<lambda>body.
     client_try (decode_created_instance lib body)))"

definition create_instance_with_user_data ::
  "VultrLibrary \<Rightarrow> 'w sender \<Rightarrow> PlannedCreate \<Rightarrow> VultrVmSpec \<Rightarrow> string \<Rightarrow> ('w, ObservedVm) client" where
  "create_instance_with_user_data lib send plan spec user_data_b64 =
     client_bind (client_try (require_acceptance (intent_scope (create_intent plan)))) (\<lambda>_.
     client_bind (client_try (validate_user_data lib user_data_b64)) (\<lambda>_.
     client_bind (execute_with_query send (create_request_with_user_data plan spec user_data_b64) []) (\<lambda>body.
     client_try (decode_created_instance lib body))))"

definition octet :: "nat \<Rightarrow> u32 \<Rightarrow> nat" where
  "octet i a = unat (take_bit 8 (drop_bit (24 - 8 * i) a))"

definition is_acceptable_public_ipv4 :: "u32 \<Rightarrow> bool" where
  "is_acceptable_public_ipv4 a =
     (let o0 = octet 0 a; o1 = octet 1 a; o2 = octet 2 a in
      a \<noteq> 0 \<and> o0 \<noteq> 127
      \<and> \<not> (o0 = 10 \<or> (o0 = 172 \<and> 16 \<le> o1 \<and> o1 \<le> 31) \<or> (o0 = 192 \<and> o1 = 168))
      \<and> \<not> (o0 = 169 \<and> o1 = 254) \<and> \<not> (224 \<le> o0 \<and> o0 \<le> 239) \<and> a \<noteq> 0xFFFFFFFF
      \<and> \<not> ((o0 = 192 \<and> o1 = 0 \<and> o2 = 2) \<or> (o0 = 198 \<and> o1 = 51 \<and> o2 = 100) \<or> (o0 = 203 \<and> o1 = 0 \<and> o2 = 113))
      \<and> \<not> (o0 = 100 \<and> 64 \<le> o1 \<and> o1 \<le> 127) \<and> \<not> (o0 = 198 \<and> 18 \<le> o1 \<and> o1 \<le> 19) \<and> o0 < 240)"

text \<open>\<open>Ipv4Addr::from_str\<close>: at most 15 characters, all of them read.\<close>

definition parse_ipv4 :: "string \<Rightarrow> u32 option" where
  "parse_ipv4 s = (if 15 < length s then None else case read_ipv4_addr s of Some (a, []) \<Rightarrow> Some a | _ \<Rightarrow> None)"

definition instance_ipv4 :: "VultrLibrary \<Rightarrow> 'w sender \<Rightarrow> VerifiedMutationTarget \<Rightarrow> ('w, u32) client" where
  "instance_ipv4 lib send target =
     client_bind (client_try (require_acceptance (intent_scope (target_intent target)))) (\<lambda>_.
     client_bind (execute_with_query send (get_instance_request target) []) (\<lambda>body.
     client_bind (client_try (ok_or UnreadableResponse (parse_created lib body))) (\<lambda>dto.
     client_bind (client_try (map_err Adapter (decode_instance (uuid_of_text lib) (uuid_text lib) dto))) (\<lambda>observed.
     client_bind (client_try (map_err (\<lambda>_. TargetVerificationFailed)
       (authorize_mutation \<lparr>binding_intent = target_intent target, binding_provider_id = target_provider_id target,
          binding_generation = target_generation target\<rparr> [observed] (target_generation target) MutateReconfigure))) (\<lambda>_.
     client_bind (client_try (ok_or InvalidTransportEndpoint (parse_ipv4 (dto_main_ip dto)))) (\<lambda>endpoint.
     client_try (if is_acceptable_public_ipv4 endpoint then Inr endpoint else Inl InvalidTransportEndpoint)))))))"

definition delete_instance :: "'w sender \<Rightarrow> VerifiedMutationTarget \<Rightarrow> ('w, unit) client" where
  "delete_instance send target =
     client_bind (client_try (require_acceptance (intent_scope (target_intent target)))) (\<lambda>_.
     client_bind (execute_with_query send (delete_request target) []) (\<lambda>_.
     client_try (Inr ())))"


definition ipv4_display :: "u32 \<Rightarrow> string" where
  "ipv4_display a = nat_text (octet 0 a) @ ''.'' @ nat_text (octet 1 a) @ ''.'' @ nat_text (octet 2 a) @ ''.'' @ nat_text (octet 3 a)"

text \<open>The client as the provider of acceptance sessions; they do not look at its errors.\<close>

definition without_error :: "('w, 'a) client \<Rightarrow> ('w Wire, unit, 'a) effect" where
  "without_error m wire = (case m wire of (r, wire') \<Rightarrow> (map_err (\<lambda>_. ()) r, wire'))"

definition vultr_provider :: "VultrLibrary \<Rightarrow> 'w sender \<Rightarrow> 'w Wire Item20AcceptanceProvider" where
  "vultr_provider lib send =
     \<lparr>pr_list_instances = without_error (list_instances lib send),
      pr_create_instance = (\<lambda>plan spec user_data. without_error (create_instance_with_user_data lib send plan spec user_data)),
      pr_instance_ipv4 = (\<lambda>target. without_error (client_bind (instance_ipv4 lib send target) (\<lambda>a. client_try (Inr (ipv4_display a))))),
      pr_delete_instance = (\<lambda>target. without_error (delete_instance send target))\<rparr>"

section \<open>What the client sends\<close>

lemma execute_log:
  "wire_log (snd (execute_with_query send request query wire)) =
     wire_log wire @ (if request_allowed request query then [(request, query)] else [])"
  by (simp add: execute_with_query_def split: prod.split)

lemma client_try_simps [simp]: "client_try r wire = (r, wire)"
  by (simp add: client_try_def)

lemma client_bind_Inr:
  "client_bind m f wire = (Inr x, wire') \<longleftrightarrow> (\<exists>y w. m wire = (Inr y, w) \<and> f y w = (Inr x, wire'))"
  by (auto simp: client_bind_def split: prod.splits sum.splits)

lemma client_bind_try:
  "client_bind (client_try r) f wire = (case r of Inl e \<Rightarrow> (Inl e, wire) | Inr x \<Rightarrow> f x wire)"
  by (simp add: client_bind_def split: sum.split)

text \<open>The requests an operation adds to the log.\<close>

definition sends :: "nat \<Rightarrow> (VultrRequest \<Rightarrow> bool) \<Rightarrow> ('w, 'a) client \<Rightarrow> bool" where
  "sends n P m = (\<forall>wire. \<exists>new. wire_log (snd (m wire)) = wire_log wire @ new \<and> length new \<le> n
     \<and> list_all (\<lambda>(r, q). P r \<and> request_allowed r q) new)"

lemma sends_try: "sends n P (client_try r)"
  by (simp add: sends_def)

lemma sends_execute: "P request \<Longrightarrow> sends 1 P (execute_with_query send request query)"
  by (auto simp: sends_def execute_log)

lemma sends_bind:
  assumes "sends n P m" "\<And>x. sends k P (f x)"
  shows "sends (n + k) P (client_bind m f)"
  unfolding sends_def
proof
  fix wire
  obtain r w where m: "m wire = (r, w)" by force
  from assms(1) [unfolded sends_def, rule_format, of wire] m obtain new where
    new: "wire_log w = wire_log wire @ new" "length new \<le> n" "list_all (\<lambda>(r, q). P r \<and> request_allowed r q) new" by auto
  show "\<exists>new. wire_log (snd (client_bind m f wire)) = wire_log wire @ new \<and> length new \<le> n + k
      \<and> list_all (\<lambda>(r, q). P r \<and> request_allowed r q) new"
  proof (cases r)
    case (Inl e)
    then show ?thesis using m new by (auto simp: client_bind_def intro!: exI [of _ new])
  next
    case (Inr x)
    from assms(2) [of x, unfolded sends_def, rule_format, of w] obtain new' where
      "wire_log (snd (f x w)) = wire_log w @ new'" "length new' \<le> k" "list_all (\<lambda>(r, q). P r \<and> request_allowed r q) new'" by auto
    then show ?thesis using m Inr new by (auto simp: client_bind_def intro!: exI [of _ "new @ new'"])
  qed
qed

lemma sends_weaken: "sends n P m \<Longrightarrow> n \<le> k \<Longrightarrow> sends k P m"
  unfolding sends_def by (meson le_trans)

lemma sends_bind0: "sends n P m \<Longrightarrow> (\<And>x. sends 0 P (f x)) \<Longrightarrow> sends n P (client_bind m f)"
  using sends_bind [of n P m 0 f] by simp

lemma sends_list: "sends rounds (\<lambda>r. r = list_instances_request) (list_from lib send rounds cursor seen observed)"
proof (induction lib send rounds cursor seen observed rule: list_from.induct)
  case (2 lib send rounds cursor seen observed)
  have "sends (1 + rounds) (\<lambda>r. r = list_instances_request) (list_from lib send (Suc rounds) cursor seen observed)"
    unfolding list_from.simps Let_def
    by (rule sends_bind [OF sends_execute]) (auto intro!: sends_try 2 sends_bind [of 0, simplified])
  then show ?case by simp
qed (simp only: list_from.simps sends_try)

section \<open>Listings\<close>

text \<open>The machines on the pages that are answered from a cursor on until a page names no next one.\<close>

inductive listed :: "VultrLibrary \<Rightarrow> 'w sender \<Rightarrow> string option \<Rightarrow> 'w Wire \<Rightarrow> VultrInstanceDto list \<Rightarrow> 'w Wire \<Rightarrow> bool"
  for lib send where
  last_page: "execute_with_query send list_instances_request (page_query cursor) wire = (Inr body, wire') \<Longrightarrow>
    parse_page lib body = Some page \<Longrightarrow> page_next page = [] \<Longrightarrow> listed lib send cursor wire (page_instances page) wire'"
| further_page: "execute_with_query send list_instances_request (page_query cursor) wire = (Inr body, wire') \<Longrightarrow>
    parse_page lib body = Some page \<Longrightarrow> page_next page \<noteq> [] \<Longrightarrow> listed lib send (Some (page_next page)) wire' dtos wire'' \<Longrightarrow>
    listed lib send cursor wire (page_instances page @ dtos) wire''"

lemma decode_instances_append:
  "decode_instances p u ds = Inr vs \<Longrightarrow> decode_instances p u es = Inr ws \<Longrightarrow> decode_instances p u (ds @ es) = Inr (vs @ ws)"
  by (induction ds arbitrary: vs) (auto simp: and_then_Inr_iff)

lemma map_err_Inr: "map_err f r = Inr x \<longleftrightarrow> r = Inr x"
  by (cases r) (simp_all add: map_err_def)

lemma list_from_listed:
  assumes "list_from lib send rounds cursor seen observed wire = (Inr vms, wire')"
  shows "\<exists>dtos new. listed lib send cursor wire dtos wire' \<and> decode_instances (uuid_of_text lib) (uuid_text lib) dtos = Inr new \<and> vms = observed @ new"
  using assms
proof (induction rounds arbitrary: cursor seen observed wire)
  case (Suc rounds)
  let ?next = "\<lambda>page. page_next page"
  from Suc.prems obtain body wire1 page new where
    e: "execute_with_query send list_instances_request (page_query cursor) wire = (Inr body, wire1)"
    and p: "parse_page lib body = Some page"
    and d: "decode_instances (uuid_of_text lib) (uuid_text lib) (page_instances page) = Inr new"
    and rest: "(if ?next page = [] then client_try (if INSTANCE_PAGE_SIZE \<le> length (page_instances page) \<and> page_meta page = None
        then Inl InvalidPagination else Inr (observed @ new))
      else if MAX_CURSOR_BYTES < length (?next page) \<or> ?next page \<in> set seen then client_try (Inl InvalidPagination)
      else list_from lib send rounds (Some (?next page)) (?next page # seen) (observed @ new)) wire1 = (Inr vms, wire')"
    by (auto simp: client_bind_Inr map_err_Inr Let_def)
  show ?case
  proof (cases "?next page = []")
    case True
    then have "vms = observed @ new" "wire' = wire1" using rest by (auto split: if_splits)
    then show ?thesis using listed.last_page [OF e p True] d by blast
  next
    case False
    then have "list_from lib send rounds (Some (?next page)) (?next page # seen) (observed @ new) wire1 = (Inr vms, wire')"
      using rest by (auto split: if_splits)
    from Suc.IH [OF this] obtain dtos new' where
      l: "listed lib send (Some (?next page)) wire1 dtos wire'" "decode_instances (uuid_of_text lib) (uuid_text lib) dtos = Inr new'"
      "vms = (observed @ new) @ new'" by blast
    have "listed lib send cursor wire (page_instances page @ dtos) wire'"
      by (rule listed.further_page [OF e p False l(1)])
    moreover have "decode_instances (uuid_of_text lib) (uuid_text lib) (page_instances page @ dtos) = Inr (new @ new')"
      using d l(2) by (rule decode_instances_append)
    ultimately show ?thesis using l(3) by auto
  qed
qed (simp add: client_try_def)

lemma acceptable_public:
  assumes "is_acceptable_public_ipv4 a"
  shows "octet 0 a \<notin> {10, 127}" "octet 0 a < 224" "(octet 0 a, octet 1 a) \<notin> {(192, 168), (169, 254)}"
    "\<not> (octet 0 a = 172 \<and> octet 1 a \<in> {16..31})" "\<not> (octet 0 a = 100 \<and> octet 1 a \<in> {64..127})"
proof -
  note c = assms [unfolded is_acceptable_public_ipv4_def Let_def]
  show "octet 0 a \<notin> {10, 127}" using c by simp
  have "\<not> (224 \<le> octet 0 a \<and> octet 0 a \<le> 239)" "octet 0 a < 240" using c by blast+
  then show "octet 0 a < 224" by linarith
  show "(octet 0 a, octet 1 a) \<notin> {(192, 168), (169, 254)}" using c by simp
  show "\<not> (octet 0 a = 172 \<and> octet 1 a \<in> {16..31})" "\<not> (octet 0 a = 100 \<and> octet 1 a \<in> {64..127})"
    using c by simp_all
qed

section \<open>Properties\<close>

text \<open>
  C14: A listing is never partial and never endless: when the client returns machines,
  they are those of every page from the first to one that names no next page, in
  order; and it sends at most twenty requests, all of them to list machines.
\<close>

theorem listing_is_whole_and_bounded:
  "(case list_instances lib send wire of
      (Inl _, wire') \<Rightarrow> True
    | (Inr vms, wire') \<Rightarrow> \<exists>dtos. listed lib send None wire dtos wire' \<and> decode_instances (uuid_of_text lib) (uuid_text lib) dtos = Inr vms)
   \<and> (\<exists>new. wire_log (snd (list_instances lib send wire)) = wire_log wire @ new \<and> length new \<le> 20
        \<and> list_all (\<lambda>(r, q). r = list_instances_request) new)"
proof
  show "case list_instances lib send wire of (Inl _, wire') \<Rightarrow> True
    | (Inr vms, wire') \<Rightarrow> \<exists>dtos. listed lib send None wire dtos wire' \<and> decode_instances (uuid_of_text lib) (uuid_text lib) dtos = Inr vms"
    using list_from_listed [of lib send MAX_INSTANCE_PAGES None "[]" "[]" wire]
    by (fastforce simp: list_instances_def split: prod.split sum.split)
  have "sends MAX_INSTANCE_PAGES (\<lambda>r. r = list_instances_request) (list_instances lib send)"
    unfolding list_instances_def by (rule sends_list)
  then obtain new where "wire_log (snd (list_instances lib send wire)) = wire_log wire @ new" "length new \<le> 20"
      "list_all (\<lambda>(r, q). r = list_instances_request \<and> request_allowed r q) new"
    unfolding sends_def MAX_INSTANCE_PAGES_def by blast
  then show "\<exists>new. wire_log (snd (list_instances lib send wire)) = wire_log wire @ new \<and> length new \<le> 20
      \<and> list_all (\<lambda>(r, q). r = list_instances_request) new"
    by (intro exI [of _ new]) (auto simp: list_all_iff)
qed



text \<open>A library that reads one machine, owned by the target, and a transport that answers it.\<close>

definition sample_target :: VerifiedMutationTarget where
  "sample_target = \<lparr>target_provider_id = ProviderResourceId ''u1'', target_intent = \<lparr>intent_scope = Acceptance, intent_id = ''item20''\<rparr>,
     target_generation = Generation 1\<rparr>"

definition sample_dto :: VultrInstanceDto where
  "sample_dto = \<lparr>dto_id = ''u1'', dto_label = ''relay'', dto_tags = encode_ownership (expected_ownership sample_target),
     dto_region = ''ams'', dto_plan = ''vc2'', dto_os_id = 1, dto_main_ip = ''8.8.8.8''\<rparr>"

definition sample_library :: VultrLibrary where
  "sample_library = \<lparr>parse_page = (\<lambda>_. Some \<lparr>page_instances = [sample_dto], page_meta = None\<rparr>), parse_created = (\<lambda>_. Some sample_dto),
     base64_decode = Some, uuid_of_text = (\<lambda>s. if s = ''u1'' then Some 1 else None), uuid_text = (\<lambda>_. ''u1'')\<rparr>"

definition sample_sender :: "unit sender" where
  "sample_sender request query w = (Answer 200 None (Inr ''{}''), w)"

definition sample_wire :: "unit Wire" where
  "sample_wire = \<lparr>wire_world = (), wire_log = []\<rparr>"

lemma sample_decode:
  "decode_instance (uuid_of_text sample_library) (uuid_text sample_library) sample_dto =
     Inr \<lparr>vm_provider_id = ProviderResourceId ''u1'', vm_display_name = ''relay'', vm_ownership = Exact (expected_ownership sample_target),
          vm_spec_fingerprint = VultrVmSpec_fingerprint \<lparr>spec_region = ''ams'', spec_plan = ''vc2'', spec_os_id = 1, spec_label = ''relay''\<rparr>\<rparr>"
proof -
  have "decode_ownership (dto_tags sample_dto) = Inr (Exact (expected_ownership sample_target))"
    by (simp add: sample_dto_def expected_ownership_def OwnershipMetadata_exact_def sample_target_def ownership_roundtrip)
  then show ?thesis
    by (simp add: decode_instance_def sample_library_def sample_dto_def ProviderResourceId_new_def and_then_def ok_or_def map_err_def
        leading_whitespace_def byte_at_def)
qed

lemma sample_endpoint: "fst (instance_ipv4 sample_library sample_sender sample_target sample_wire) = Inr 0x08080808"
proof -
  have "request_allowed (get_instance_request sample_target) []"
    by (simp add: request_allowed_def get_instance_request_def instance_path_def sample_target_def starts_with_def VULTR_API_VERSION_def)
  moreover have "parse_ipv4 (dto_main_ip sample_dto) = Some 0x08080808"
    by (simp add: parse_ipv4_def sample_dto_def socket_readers)
  moreover have "is_acceptable_public_ipv4 0x08080808"
    by (simp add: is_acceptable_public_ipv4_def octet_def Let_def)
  moreover have "authorize_mutation \<lparr>binding_intent = target_intent sample_target, binding_provider_id = target_provider_id sample_target,
      binding_generation = target_generation sample_target\<rparr>
      [\<lparr>vm_provider_id = ProviderResourceId ''u1'', vm_display_name = ''relay'', vm_ownership = Exact (expected_ownership sample_target),
          vm_spec_fingerprint = VultrVmSpec_fingerprint \<lparr>spec_region = ''ams'', spec_plan = ''vc2'', spec_os_id = 1, spec_label = ''relay''\<rparr>\<rparr>]
      (target_generation sample_target) MutateReconfigure = Inr sample_target"
    by (simp add: authorize_mutation_def resolve_bound_resource_Inr_iff exactly_owned_def expected_ownership_def sample_target_def
        ownership_claims_def target_of_def)
  moreover have "parse_created sample_library b = Some sample_dto" for b by (simp add: sample_library_def)
  moreover have "intent_scope (target_intent sample_target) = Acceptance" by (simp add: sample_target_def)
  ultimately show ?thesis
    using sample_decode
    by (simp add: instance_ipv4_def client_bind_def execute_with_query_def sample_sender_def sample_wire_def require_acceptance_def
        read_bounded_def MAX_RESPONSE_BYTES_def ok_or_def map_err_def)
qed


end
