(* ===== verification/Vm_Entry.thy ===== *)
theory Vm_Entry
  imports Vm_Client Vm_World Host_Runtime
begin

text \<open>
  Model of \<open>apps/operator-cli/src/bin/item20-session-lifecycle.rs\<close>: the commands that
  open, verify and close an acceptance session.  The environment, the key file and
  writing the evidence are arguments; base64 is a parameter.  Of the evidence, the
  fields that never vary are left out.
\<close>

section \<open>Entry checks\<close>

definition CANONICAL_REPOSITORY :: string where "CANONICAL_REPOSITORY = ''iamaman11/mobile-proxy''"
definition CANONICAL_REF :: string where "CANONICAL_REF = ''refs/heads/main''"
definition MAX_PUBLIC_KEY_BYTES :: nat where "MAX_PUBLIC_KEY_BYTES = 16 * 1024"

datatype EntryError =
    NotCanonicalRuntime | CredentialAbsent | PublicKeyUnavailable | PublicKeyInvalid | NotBound
  | EvidenceNotWritten | EntrySession SessionError

type_synonym environment = "string \<Rightarrow> string option"

definition env_text :: "environment \<Rightarrow> string \<Rightarrow> string" where
  "env_text env name = (case env name of Some v \<Rightarrow> v | None \<Rightarrow> [])"

definition verify_canonical_runtime :: "environment \<Rightarrow> string \<Rightarrow> EntryError + unit" where
  "verify_canonical_runtime env control_plane_sha =
     (if env_text env ''GITHUB_REPOSITORY'' \<noteq> CANONICAL_REPOSITORY \<or> env_text env ''GITHUB_REF'' \<noteq> CANONICAL_REF
         \<or> env_text env ''GITHUB_REF_PROTECTED'' \<noteq> ''true'' \<or> env_text env ''GITHUB_SHA'' \<noteq> control_plane_sha
      then Inl NotCanonicalRuntime else Inr ())"

definition verified_identity :: "environment \<Rightarrow> string \<Rightarrow> string \<Rightarrow> EntryError + Item20SessionIdentity" where
  "verified_identity env candidate control_plane =
     and_then (verify_canonical_runtime env control_plane) (\<lambda>_.
     map_err EntrySession (Item20SessionIdentity_new candidate control_plane))"

definition required_env :: "environment \<Rightarrow> string \<Rightarrow> EntryError + string" where
  "required_env env name = (if env_text env name = [] then Inl CredentialAbsent else Inr (env_text env name))"

definition store_and_provider :: "environment \<Rightarrow> EntryError + unit" where
  "store_and_provider env = and_then (required_env env ''GITHUB_TOKEN'') (\<lambda>_. and_then (required_env env ''VULTR_API_KEY'') (\<lambda>_. Inr ()))"

section \<open>The key\<close>

definition is_ascii_whitespace :: "char \<Rightarrow> bool" where
  "is_ascii_whitespace c = (c = CHR 0x20 \<or> c = CHR 0x09 \<or> c = CHR 0x0A \<or> c = CHR 0x0C \<or> c = CHR 0x0D)"

fun ascii_words_from :: "string \<Rightarrow> string \<Rightarrow> string list" where
  "ascii_words_from word [] = (if word = [] then [] else [word])"
| "ascii_words_from word (c # cs) =
     (if is_ascii_whitespace c then (if word = [] then ascii_words_from [] cs else word # ascii_words_from [] cs)
      else ascii_words_from (word @ [c]) cs)"

definition key_kinds :: "string list" where
  "key_kinds = [''ssh-ed25519'', ''ssh-rsa'', ''ecdsa-sha2-nistp256'', ''ecdsa-sha2-nistp384'', ''ecdsa-sha2-nistp521'']"

definition key_char :: "char \<Rightarrow> bool" where
  "key_char c = (is_ascii_alphanumeric c \<or> c = CHR ''+'' \<or> c = CHR ''/'' \<or> c = CHR ''='')"

definition parse_public_key_line :: "bytes \<Rightarrow> EntryError + string" where
  "parse_public_key_line raw =
     (let key = trim raw in
      if key = [] \<or> newline \<in> set key \<or> CHR 0x0D \<in> set key then Inl PublicKeyInvalid
      else case ascii_words_from [] key of
             [kind, body] \<Rightarrow>
               if kind \<in> set key_kinds \<and> body \<noteq> [] \<and> list_all key_char body then Inr (kind @ '' '' @ body) else Inl PublicKeyInvalid
           | _ \<Rightarrow> Inl PublicKeyInvalid)"

text \<open>What \<open>symlink_metadata\<close> and the read say of the key file: a regular file, its length, its text.\<close>

record KeyFile =
  key_regular :: bool
  key_length :: nat
  key_text :: "bytes option"

definition read_public_key :: "KeyFile option \<Rightarrow> EntryError + string" where
  "read_public_key key_file =
     (case key_file of
        None \<Rightarrow> Inl PublicKeyUnavailable
      | Some f \<Rightarrow>
          if \<not> key_regular f \<or> key_length f = 0 \<or> MAX_PUBLIC_KEY_BYTES < key_length f then Inl PublicKeyUnavailable
          else case key_text f of None \<Rightarrow> Inl PublicKeyInvalid | Some raw \<Rightarrow> parse_public_key_line raw)"

definition cloud_lines :: "string list" where
  "cloud_lines = [''#cloud-config'', ''disable_root: false'', ''ssh_pwauth: false'', ''users:'', ''  - default'', ''  - name: root'',
     ''    lock_passwd: true'', ''    ssh_authorized_keys:'']"

definition build_cloud_init :: "string \<Rightarrow> string" where
  "build_cloud_init public_key = concat (map (\<lambda>l. l @ [newline]) cloud_lines) @ ''      - '' @ public_key @ [newline]"

section \<open>Commands\<close>

record LifecycleEvidence =
  ev_candidate_sha :: string
  ev_control_plane_sha :: string
  ev_action :: string
  ev_result :: string
  ev_generation :: "u64 option"
  ev_exact_target_verified :: bool

fun origin_text :: "SessionOpenOrigin \<Rightarrow> string" where
  "origin_text OriginExisting = ''existing''"
| "origin_text OriginCreated = ''created''"
| "origin_text OriginRecovered = ''recovered''"

fun close_text :: "SessionCloseOutcome \<Rightarrow> string" where
  "close_text NoResourceCreated = ''no_resource_created''"
| "close_text DeletedAndTerminal = ''deleted_and_terminal''"
| "close_text AlreadyTerminal = ''already_terminal''"

definition entry_bind :: "('w, EntryError, 'a) effect \<Rightarrow> ('a \<Rightarrow> ('w, EntryError, 'b) effect) \<Rightarrow> ('w, EntryError, 'b) effect" where
  "entry_bind m f w = (case m w of (Inl e, w') \<Rightarrow> (Inl e, w') | (Inr x, w') \<Rightarrow> f x w')"

definition entry_check :: "EntryError + 'a \<Rightarrow> ('w, EntryError, 'a) effect" where
  "entry_check r w = (r, w)"

definition entry_session :: "('w, 'a) session \<Rightarrow> ('w, EntryError, 'a) effect" where
  "entry_session m w = (case m w of (r, w') \<Rightarrow> (map_err EntrySession r, w'))"

definition write_evidence :: "bool \<Rightarrow> LifecycleEvidence \<Rightarrow> ('w, EntryError, LifecycleEvidence) effect" where
  "write_evidence written evidence = entry_check (if written then Inr evidence else Inl EvidenceNotWritten)"

definition open_command ::
  "(bytes \<Rightarrow> string) \<Rightarrow> environment \<Rightarrow> KeyFile option \<Rightarrow> bool \<Rightarrow> 'w Item20LifecycleStore \<Rightarrow> 'w Item20AcceptanceProvider
   \<Rightarrow> string \<Rightarrow> string \<Rightarrow> ('w, EntryError, LifecycleEvidence) effect" where
  "open_command base64_encode env key_file written S P candidate control_plane =
     entry_bind (entry_check (verified_identity env candidate control_plane)) (\<lambda>identity.
     entry_bind (entry_check (read_public_key key_file)) (\<lambda>public_key.
     entry_bind (entry_check (store_and_provider env)) (\<lambda>_.
     entry_bind (entry_session (open_item20_session S P identity (base64_encode (build_cloud_init public_key)))) (\<lambda>opened.
     entry_bind (entry_session (verified_item20_target P identity (session_binding opened))) (\<lambda>_.
     write_evidence written
       \<lparr>ev_candidate_sha = candidate, ev_control_plane_sha = control_plane, ev_action = ''open'',
        ev_result = origin_text (session_origin opened),
        ev_generation = Some (generation_get (binding_generation (session_binding opened))), ev_exact_target_verified = True\<rparr>)))))"

definition bound_state :: "AcceptanceVmLifecycleState \<Rightarrow> EntryError + VmBinding" where
  "bound_state state = (case state of Bound b \<Rightarrow> Inr b | _ \<Rightarrow> Inl NotBound)"

definition verify_target_command ::
  "environment \<Rightarrow> bool \<Rightarrow> 'w Item20LifecycleStore \<Rightarrow> 'w Item20AcceptanceProvider \<Rightarrow> string \<Rightarrow> string \<Rightarrow> ('w, EntryError, LifecycleEvidence) effect" where
  "verify_target_command env written S P candidate control_plane =
     entry_bind (entry_check (verified_identity env candidate control_plane)) (\<lambda>identity.
     entry_bind (entry_check (store_and_provider env)) (\<lambda>_.
     entry_bind (entry_check (map_err EntrySession (ownership_intent identity))) (\<lambda>intent.
     entry_bind (entry_session (read_state S intent)) (\<lambda>state.
     entry_bind (entry_check (bound_state state)) (\<lambda>binding.
     entry_bind (entry_session (verified_item20_target P identity binding)) (\<lambda>_.
     write_evidence written
       \<lparr>ev_candidate_sha = candidate, ev_control_plane_sha = control_plane, ev_action = ''verify-target'',
        ev_result = ''exact_bound_target_verified'', ev_generation = Some (generation_get (binding_generation binding)),
        ev_exact_target_verified = True\<rparr>))))))"

definition close_command ::
  "environment \<Rightarrow> bool \<Rightarrow> 'w Item20LifecycleStore \<Rightarrow> 'w Item20AcceptanceProvider \<Rightarrow> string \<Rightarrow> string \<Rightarrow> ('w, EntryError, LifecycleEvidence) effect" where
  "close_command env written S P candidate control_plane =
     entry_bind (entry_check (verified_identity env candidate control_plane)) (\<lambda>identity.
     entry_bind (entry_check (store_and_provider env)) (\<lambda>_.
     entry_bind (entry_session (close_item20_session S P identity)) (\<lambda>outcome.
     write_evidence written
       \<lparr>ev_candidate_sha = candidate, ev_control_plane_sha = control_plane, ev_action = ''close'', ev_result = close_text outcome,
        ev_generation = None, ev_exact_target_verified = False\<rparr>)))"

section \<open>The key stays one line\<close>

lemma split_on_line: "c \<notin> set w \<Longrightarrow> split_on c (w @ c # rest) = w # split_on c rest"
  by (induction w) auto

lemma split_on_last: "c \<notin> set w \<Longrightarrow> split_on c w = [w]"
  by (induction w) auto

lemma split_on_lines: "list_all (\<lambda>l. c \<notin> set l) ls \<Longrightarrow> split_on c (concat (map (\<lambda>l. l @ [c]) ls) @ rest) = ls @ split_on c rest"
  by (induction ls) (auto simp: split_on_line)

lemma key_charD: "key_char c \<Longrightarrow> in_range c 0 127 \<and> c \<noteq> newline \<and> c \<noteq> CHR 0x0D \<and> c \<noteq> CHR 0x20"
  by (auto simp: key_char_def is_ascii_alphanumeric_def is_ascii_digit_def is_ascii_upper_def is_ascii_lower_def in_range_def newline_def)

lemma key_kind_chars: "kind \<in> set key_kinds \<Longrightarrow> list_all (\<lambda>c. in_range c 0 127 \<and> c \<noteq> newline \<and> c \<noteq> CHR 0x0D) kind"
  by (auto simp: key_kinds_def in_range_def newline_def)

lemma parsed_key:
  assumes "parse_public_key_line raw = Inr key"
  obtains kind body where "key = kind @ '' '' @ body" "kind \<in> set key_kinds" "body \<noteq> []" "list_all key_char body"
    "list_all (\<lambda>c. in_range c 0 127 \<and> c \<noteq> newline \<and> c \<noteq> CHR 0x0D) key"
proof -
  from assms obtain kind body where k: "key = kind @ '' '' @ body" "kind \<in> set key_kinds" "body \<noteq> []" "list_all key_char body"
    by (auto simp: parse_public_key_line_def Let_def split: if_splits list.splits)
  moreover have "list_all (\<lambda>c. in_range c 0 127 \<and> c \<noteq> newline \<and> c \<noteq> CHR 0x0D) key"
    using key_kind_chars [OF k(2)] k(4) key_charD by (auto simp: k(1) list_all_iff in_range_def newline_def)
  ultimately show thesis using that by blast
qed


lemma cloud_lines_plain: "list_all (\<lambda>l. list_all (\<lambda>c. in_range c 0 127 \<and> c \<noteq> newline \<and> c \<noteq> CHR 0x0D) l) cloud_lines"
  by (simp add: cloud_lines_def in_range_def newline_def)

lemma strip_cr_plain: "CHR 0x0D \<notin> set l \<Longrightarrow> strip_cr l = l"
  by (auto simp: strip_cr_def dest: last_in_set)

lemma text_lines_written:
  assumes "list_all (\<lambda>l. newline \<notin> set l \<and> CHR 0x0D \<notin> set l) ls"
  shows "text_lines (concat (map (\<lambda>l. l @ [newline]) ls)) = ls"
proof -
  have "split_on newline (concat (map (\<lambda>l. l @ [newline]) ls)) = ls @ [[]]"
    using split_on_lines [of newline ls "[]"] assms by (simp add: list_all_iff)
  moreover have "map strip_cr ls = ls" using assms by (intro map_idI strip_cr_plain) (simp add: list_all_iff)
  ultimately show ?thesis by (simp add: text_lines_def newline_def)
qed

lemma build_cloud_init_lines:
  assumes "list_all (\<lambda>c. c \<noteq> newline \<and> c \<noteq> CHR 0x0D) key"
  shows "text_lines (build_cloud_init key) = cloud_lines @ [''      - '' @ key]"
proof -
  have "list_all (\<lambda>l. newline \<notin> set l \<and> CHR 0x0D \<notin> set l) (cloud_lines @ [''      - '' @ key])"
    using assms cloud_lines_plain by (auto simp: list_all_iff newline_def)
  from text_lines_written [OF this] show ?thesis by (simp add: build_cloud_init_def)
qed

lemma length_cloud_init: "length (build_cloud_init key) = 142 + length key"
  by (simp add: build_cloud_init_def cloud_lines_def)

lemma cloud_init_ascii: "list_all (\<lambda>c. in_range c 0 127) key \<Longrightarrow> is_ascii (build_cloud_init key)"
  using cloud_lines_plain by (auto simp: is_ascii_def build_cloud_init_def list_all_iff in_range_def newline_def)

lemma cloud_init_starts: "starts_with (''#cloud-config'' @ [newline]) (build_cloud_init key)"
  by (simp add: starts_with_def build_cloud_init_def cloud_lines_def)

lemma env_text_Some: "env_text env n = x \<Longrightarrow> x \<noteq> [] \<Longrightarrow> env n = Some x"
  by (auto simp: env_text_def split: option.splits)

lemma words_length:
  "ascii_words_from word s \<noteq> [] \<Longrightarrow> sum_list (map length (ascii_words_from word s)) + length (ascii_words_from word s) \<le> Suc (length word + length s)"
proof (induction word s rule: ascii_words_from.induct)
  case (2 word c cs)
  then show ?case by (cases "ascii_words_from [] cs = []") (auto split: if_splits)
qed auto

lemma trim_start_length: "length (trim_start n bs) \<le> length bs"
  by (induction n bs rule: trim_start.induct) auto

lemma trim_end_length: "length (trim_end bs) \<le> length bs"
  by (induction bs rule: trim_end.induct) auto

lemma trim_length: "length (trim raw) \<le> length raw"
  unfolding trim_def using trim_start_length trim_end_length le_trans by blast

lemma parsed_key_length: "parse_public_key_line raw = Inr key \<Longrightarrow> length key \<le> length raw"
  using words_length [of "[]" "trim raw"] trim_length [of raw]
  by (auto simp: parse_public_key_line_def Let_def split: if_splits list.splits)

section \<open>Properties\<close>

text \<open>
  The text a machine is created with holds exactly one authorised key, on a line of
  its own: no key file can add a line, and so no other setting or key.
\<close>

theorem cloud_init_holds_one_key:
  assumes "read_public_key key_file = Inr key"
  shows "text_lines (build_cloud_init key) = cloud_lines @ [''      - '' @ key]"
proof -
  from assms obtain raw where "parse_public_key_line raw = Inr key"
    by (auto simp: read_public_key_def split: option.splits if_splits)
  then obtain "list_all (\<lambda>c. in_range c 0 127 \<and> c \<noteq> newline \<and> c \<noteq> CHR 0x0D) key" by (rule parsed_key)
  then show ?thesis by (intro build_cloud_init_lines) (auto simp: list_all_iff)
qed


definition sample_key_file :: "KeyFile option" where
  "sample_key_file = Some \<lparr>key_regular = True, key_length = 17, key_text = Some (''ssh-ed25519 AAA='' @ [newline])\<rparr>"

lemma sample_key: "read_public_key sample_key_file = Inr ''ssh-ed25519 AAA=''"
  by (simp add: read_public_key_def sample_key_file_def MAX_PUBLIC_KEY_BYTES_def parse_public_key_line_def Let_def trim_def
      leading_whitespace_def byte_at_def newline_def is_ascii_whitespace_def key_kinds_def key_char_def is_ascii_alphanumeric_def
      is_ascii_digit_def is_ascii_upper_def is_ascii_lower_def in_range_def)

theorem cloud_init_holds_one_key_witness:
  "text_lines (build_cloud_init ''ssh-ed25519 AAA='') = cloud_lines @ [''      - ssh-ed25519 AAA='']"
  using cloud_init_holds_one_key [OF sample_key] by simp

text \<open>
  What the command sends along is always accepted by the client: with a base64
  library that decodes what it encodes, in four characters for three bytes, the
  text built from any accepted key file passes the client's check of user data.
\<close>

theorem generated_user_data_accepted:
  assumes "read_public_key (Some f) = Inr key" "key_text f = Some raw" "length raw = key_length f"
    and "\<And>b. base64_decode lib (base64_encode b) = Some b" "\<And>b. length (base64_encode b) = 4 * ((length b + 2) div 3)"
  shows "validate_user_data lib (base64_encode (build_cloud_init key)) = Inr ()"
proof -
  let ?c = "build_cloud_init key"
  from assms(1,2) have "parse_public_key_line raw = Inr key" and raw: "key_length f \<le> MAX_PUBLIC_KEY_BYTES"
    by (auto simp: read_public_key_def split: if_splits)
  then have key: "length key \<le> 16384" "list_all (\<lambda>c. in_range c 0 127) key"
    using parsed_key_length [of raw key] assms(3) by (auto simp: MAX_PUBLIC_KEY_BYTES_def list_all_iff elim!: parsed_key)
  have n: "length ?c = 142 + length key" by (rule length_cloud_init)
  have "base64_encode ?c \<noteq> []" "length (base64_encode ?c) \<le> MAX_USER_DATA_BYTES * 2"
    using assms(5) [of ?c] n key(1) by (auto simp: MAX_USER_DATA_BYTES_def)
  moreover have "?c \<noteq> []" "length ?c \<le> MAX_USER_DATA_BYTES" using n key(1) by (auto simp: MAX_USER_DATA_BYTES_def)
  moreover have "utf8_valid ?c" using key(2) by (intro ascii_utf8 cloud_init_ascii)
  ultimately show ?thesis using assms(4) cloud_init_starts by (simp add: validate_user_data_def)
qed

definition sample_encode :: "bytes \<Rightarrow> string" where
  "sample_encode b = (if b = [] then [] else replicate (4 * ((length b + 2) div 3) - length b - 1) CHR ''='' @ CHR ''.'' # b)"

definition sample_codec :: VultrLibrary where
  "sample_codec = sample_library\<lparr>base64_decode := (\<lambda>s. Some (tl (dropWhile (\<lambda>c. c = CHR ''='') s)))\<rparr>"

lemma sample_codec_laws:
  "base64_decode sample_codec (sample_encode b) = Some b" "length (sample_encode b) = 4 * ((length b + 2) div 3)"
proof -
  show "base64_decode sample_codec (sample_encode b) = Some b"
  proof -
    have "dropWhile (\<lambda>c. c = CHR ''='') (replicate n CHR ''='' @ CHR ''.'' # b) = CHR ''.'' # b" for n by (induction n) auto
    then show ?thesis by (simp add: sample_codec_def sample_encode_def)
  qed
  show "length (sample_encode b) = 4 * ((length b + 2) div 3)"
    by (cases "b = []") (auto simp: sample_encode_def neq_Nil_conv)
qed

theorem generated_user_data_accepted_witness:
  "validate_user_data sample_codec (sample_encode (build_cloud_init ''ssh-ed25519 AAA='')) = Inr ()"
  using sample_key unfolding sample_key_file_def
  by (rule generated_user_data_accepted) (simp_all add: sample_codec_laws del: length_Cons, simp)

text \<open>
  C18: An acceptance session is only ever opened or closed by the protected main branch
  of the repository, for its own commit: otherwise neither the ledger nor the
  provider is asked anything.
\<close>

theorem lifecycle_only_from_protected_main:
  assumes "snd (open_command encode env key_file written S P candidate control_plane w) \<noteq> w
    \<or> snd (close_command env written S P candidate control_plane w) \<noteq> w"
  shows "env ''GITHUB_REPOSITORY'' = Some CANONICAL_REPOSITORY \<and> env ''GITHUB_REF'' = Some CANONICAL_REF
    \<and> env ''GITHUB_REF_PROTECTED'' = Some ''true'' \<and> env ''GITHUB_SHA'' = Some candidate \<and> control_plane = candidate
    \<and> length candidate = 40 \<and> list_all is_lower_hex candidate"
proof -
  obtain identity where i: "verified_identity env candidate control_plane = Inr identity"
    using assms by (cases "verified_identity env candidate control_plane")
      (auto simp: open_command_def close_command_def entry_bind_def entry_check_def)
  then have t: "env_text env ''GITHUB_REPOSITORY'' = CANONICAL_REPOSITORY" "env_text env ''GITHUB_REF'' = CANONICAL_REF"
      "env_text env ''GITHUB_REF_PROTECTED'' = ''true''" "env_text env ''GITHUB_SHA'' = candidate"
    and c: "control_plane = candidate" "length candidate = 40" "list_all is_lower_hex candidate"
    by (auto simp: verified_identity_def and_then_Inr_iff map_err_Inr verify_canonical_runtime_def Item20SessionIdentity_new_def
        validate_full_sha_def split: if_splits)
  have "candidate \<noteq> []" using c(2) by auto
  with t c show ?thesis by (auto intro!: env_text_Some simp: CANONICAL_REPOSITORY_def CANONICAL_REF_def)
qed

definition sample_runner :: environment where
  "sample_runner name =
     (if name = ''GITHUB_REPOSITORY'' then Some CANONICAL_REPOSITORY else if name = ''GITHUB_REF'' then Some CANONICAL_REF
      else if name = ''GITHUB_REF_PROTECTED'' then Some ''true'' else if name = ''GITHUB_SHA'' then Some sample_sha else Some ''secret'')"

definition sample_lost :: SessionWorld where
  "sample_lost = sample_world\<lparr>sw_faults := [LostRead]\<rparr>"

lemma sample_identity_ok: "verified_identity sample_runner sample_sha sample_sha = Inr sample_identity"
proof -
  have "length sample_sha = 40" "list_all is_lower_hex sample_sha"
    by (simp_all add: sample_sha_def list_all_iff is_lower_hex_def is_ascii_digit_def in_range_def)
  then show ?thesis
    by (simp add: verified_identity_def verify_canonical_runtime_def sample_runner_def env_text_def Item20SessionIdentity_new_def
        validate_full_sha_def and_then_def map_err_def sample_identity_def)
qed

lemma sample_read_lost: "snd (close_command sample_runner True (ledger_store sample_uuids sample_store) script_provider sample_sha sample_sha sample_lost) \<noteq> sample_lost"
proof -
  let ?S = "ledger_store sample_uuids sample_store"
  obtain desired where d: "desired_vm sample_identity = Inr desired"
    by (simp add: desired_vm_def ownership_intent_def OwnershipIntent_new_def sample_identity_def sample_sha_def list_all_iff and_then_def map_err_def
        ownership_intent_byte_def is_ascii_digit_def is_ascii_upper_def is_ascii_lower_def is_ascii_alphanumeric_def in_range_def)
  have f: "fault_at sample_lost = LostRead" by (simp add: fault_at_def sample_lost_def)
  have e: "\<exists>e. lifecycle_state sample_uuids sample_store (faulty LostRead rs) intent = Inl e" for rs intent
    using current_state_faulty(2) [of sample_uuids sample_store LostRead rs intent]
    by (cases "current_state sample_uuids sample_store (get_before (faulty LostRead rs)) intent") (auto simp: lifecycle_state_def and_then_def)
  have "\<exists>e. read_state ?S (desired_intent desired) sample_lost = (Inl e, sample_lost\<lparr>sw_faults := []\<rparr>)"
    using e [of "sw_records sample_lost" "desired_intent desired"] f by (auto simp: read_state_def stry_def ledger_store_def sample_lost_def)
  then have "snd (close_item20_session ?S script_provider sample_identity sample_lost) = sample_lost\<lparr>sw_faults := []\<rparr>"
    using d by (auto simp: close_item20_session_def sbind_def slift_def)
  then have "snd (close_command sample_runner True ?S script_provider sample_sha sample_sha sample_lost) = sample_lost\<lparr>sw_faults := []\<rparr>"
    using sample_identity_ok
    by (auto simp: close_command_def entry_bind_def entry_check_def entry_session_def store_and_provider_def required_env_def env_text_def
        sample_runner_def write_evidence_def and_then_def split: prod.splits sum.splits)
  moreover have "sample_lost\<lparr>sw_faults := []\<rparr> \<noteq> sample_lost" by (simp add: sample_lost_def sample_world_def)
  ultimately show ?thesis by simp
qed

theorem lifecycle_only_from_protected_main_witness:
  "sample_runner ''GITHUB_SHA'' = Some sample_sha \<and> length sample_sha = 40 \<and> list_all is_lower_hex sample_sha"
  using lifecycle_only_from_protected_main [OF disjI2 [OF sample_read_lost]] by blast

end
