(* ===== verification/Deploy19.thy ===== *)
theory Deploy19
  imports Artifact Vm_Entry
begin

text \<open>
  Model of the lifecycle part of
  \<open>apps/operator-cli/src/bin/item19-acceptance-lifecycle.rs\<close>: binding the acceptance
  machine of a candidate, deploying the verified artifact to it over SSH, and deleting
  the machine.  Store and provider are those of \<open>Vm_Session\<close>; the address of a machine,
  SSH and SCP are operations on the same world.  Of the evidence, the fields that never
  vary are left out.
\<close>

section \<open>The machine\<close>

definition PROVIDER_RECOVERY_ATTEMPTS :: nat where "PROVIDER_RECOVERY_ATTEMPTS = 20"
definition SSH_READY_ATTEMPTS :: nat where "SSH_READY_ATTEMPTS = 40"
definition DELETE_CONFIRM_ATTEMPTS19 :: nat where "DELETE_CONFIRM_ATTEMPTS19 = 40"

definition acceptance_spec19 :: VultrVmSpec where
  "acceptance_spec19 = \<lparr>spec_region = ''waw'', spec_plan = ''vc2-1c-2gb'', spec_os_id = 2284, spec_label = ''mobile-proxy-acceptance''\<rparr>"

definition acceptance_desired :: "string \<Rightarrow> SessionError + DesiredVm" where
  "acceptance_desired candidate =
     and_then (map_err (\<lambda>_. BadIntent) (OwnershipIntent_new Acceptance (''candidate:'' @ candidate))) (\<lambda>intent.
     Inr \<lparr>desired_intent = intent, desired_display_name = spec_label acceptance_spec19,
          desired_spec_fingerprint = VultrVmSpec_fingerprint acceptance_spec19\<rparr>)"

datatype BindOrigin = BindExisting | BindCreated | BindRecovered

fun BindOrigin_as_str :: "BindOrigin \<Rightarrow> string" where
  "BindOrigin_as_str BindExisting = ''existing''"
| "BindOrigin_as_str BindCreated = ''created''"
| "BindOrigin_as_str BindRecovered = ''recovered''"

fun recover_rounds ::
  "'w Item20LifecycleStore \<Rightarrow> 'w Item20AcceptanceProvider \<Rightarrow> DesiredVm \<Rightarrow> CreateDispatchFence \<Rightarrow> nat \<Rightarrow> ('w, VmBinding) session" where
  "recover_rounds S P desired fence 0 = sfail CreateNotConverged"
| "recover_rounds S P desired fence (Suc n) =
     sbind (observe P) (\<lambda>observed.
     case recover_dispatched_create fence observed of
       None \<Rightarrow> sfail Panicked
     | Some (Inl e) \<Rightarrow> sfail (DispatchFailed e)
     | Some (Inr AwaitProvider) \<Rightarrow> recover_rounds S P desired fence n
     | Some (Inr (Recovered recovered)) \<Rightarrow>
         (let binding = recovered_binding recovered in
          sbind (stry StoreFailed (st_compare_and_swap S (desired_intent desired) None (Some binding))) (\<lambda>_. sreturn binding)))"

definition recover_create_binding19 ::
  "'w Item20LifecycleStore \<Rightarrow> 'w Item20AcceptanceProvider \<Rightarrow> DesiredVm \<Rightarrow> Generation \<Rightarrow> ('w, VmBinding) session" where
  "recover_create_binding19 S P desired generation =
     sbind (slift (map_err DispatchFailed (create_dispatch_fence_for_recovery (desired_intent desired) generation desired))) (\<lambda>fence.
     recover_rounds S P desired fence PROVIDER_RECOVERY_ATTEMPTS)"

definition dispatch_create19 ::
  "'w Item20LifecycleStore \<Rightarrow> 'w Item20AcceptanceProvider \<Rightarrow> DesiredVm \<Rightarrow> string \<Rightarrow> Generation option \<Rightarrow> ('w, VmBinding) session" where
  "dispatch_create19 S P desired user_data_b64 prepared_generation =
     sbind (observe P) (\<lambda>observed.
     sbind (slift (map_err LifecycleFailed (plan_present None observed desired None))) (\<lambda>reconcile.
     case reconcile of
       Create plan \<Rightarrow>
         sbind (slift (map_err DispatchFailed (create_dispatch_fence plan desired))) (\<lambda>fence.
         sbind (case prepared_generation of
                  Some generation \<Rightarrow> sreturn generation
                | None \<Rightarrow> stry StoreFailed (st_prepare_create S (desired_intent desired))) (\<lambda>generation.
         if generation \<noteq> fence_generation fence then sfail GenerationMismatch
         else
           sbind (stry StoreFailed (st_mark_create_dispatched S (desired_intent desired) generation)) (\<lambda>_.
           sbind (stry (\<lambda>_. AmbiguousCreate) (pr_create_instance P plan acceptance_spec19 user_data_b64)) (\<lambda>_.
           recover_create_binding19 S P desired generation))))
     | _ \<Rightarrow> sfail NotEligibleForCreate))"

definition ensure_bound ::
  "'w Item20LifecycleStore \<Rightarrow> 'w Item20AcceptanceProvider \<Rightarrow> DesiredVm \<Rightarrow> string \<Rightarrow> ('w, VmBinding \<times> BindOrigin) session" where
  "ensure_bound S P desired user_data_b64 =
     sbind (read_state S (desired_intent desired)) (\<lambda>state.
     case state of
       VmEmpty \<Rightarrow> sbind (dispatch_create19 S P desired user_data_b64 None) (\<lambda>b. sreturn (b, BindCreated))
     | CreatePrepared generation \<Rightarrow>
         sbind (dispatch_create19 S P desired user_data_b64 (Some generation)) (\<lambda>b. sreturn (b, BindCreated))
     | CreateDispatched generation \<Rightarrow>
         sbind (recover_create_binding19 S P desired generation) (\<lambda>b. sreturn (b, BindRecovered))
     | Bound binding \<Rightarrow>
         sbind (observe P) (\<lambda>observed.
         sbind (slift (map_err LifecycleFailed
                  (plan_present (Some binding) observed desired (Some (binding_generation binding))))) (\<lambda>plan.
         case plan of
           NoopPlan _ \<Rightarrow> sreturn (binding, BindExisting)
         | Reconfigure _ \<Rightarrow> sfail SpecificationDrifted
         | Create _ \<Rightarrow> sfail UnexpectedCreate))
     | DeletePrepared _ \<Rightarrow> sfail CleanupInProgress
     | DeleteDispatched _ \<Rightarrow> sfail CleanupInProgress
     | Terminal _ \<Rightarrow> sfail TerminalIntent)"

definition verified_bound_target ::
  "'w Item20AcceptanceProvider \<Rightarrow> DesiredVm \<Rightarrow> VmBinding \<Rightarrow> ('w, VerifiedMutationTarget) session" where
  "verified_bound_target P desired binding =
     sbind (observe P) (\<lambda>observed.
     sbind (slift (map_err LifecycleFailed
              (plan_present (Some binding) observed desired (Some (binding_generation binding))))) (\<lambda>plan.
     case plan of
       NoopPlan target \<Rightarrow> sreturn target
     | Reconfigure _ \<Rightarrow> sfail SpecificationDrifted
     | Create _ \<Rightarrow> sfail UnexpectedCreate))"

definition resolve_delete_target19 :: "'w Item20AcceptanceProvider \<Rightarrow> VmBinding \<Rightarrow> ('w, VerifiedMutationTarget) session" where
  "resolve_delete_target19 P binding =
     sbind (observe P) (\<lambda>observed.
     slift (map_err LifecycleFailed (authorize_mutation binding observed (binding_generation binding) MutateDelete)))"

fun confirm_rounds :: "'w Item20AcceptanceProvider \<Rightarrow> VmBinding \<Rightarrow> nat \<Rightarrow> ('w, unit) session" where
  "confirm_rounds P binding 0 = sfail DeleteNotConfirmed"
| "confirm_rounds P binding (Suc n) =
     sbind (observe P) (\<lambda>observed.
     case authorize_mutation binding observed (binding_generation binding) MutateDelete of
       Inl ProviderResourceNotFound \<Rightarrow> sreturn ()
     | Inr _ \<Rightarrow> confirm_rounds P binding n
     | Inl e \<Rightarrow> sfail (LifecycleFailed e))"

definition terminal_matches19 :: "'w Item20LifecycleStore \<Rightarrow> VmBinding \<Rightarrow> ('w, bool) session" where
  "terminal_matches19 S binding =
     sbind (read_state S (binding_intent binding)) (\<lambda>state.
     sreturn (case state of Terminal last_generation \<Rightarrow> last_generation = binding_generation binding | _ \<Rightarrow> False))"

definition delete_bound19 ::
  "'w Item20LifecycleStore \<Rightarrow> 'w Item20AcceptanceProvider \<Rightarrow> VmBinding \<Rightarrow> bool \<Rightarrow> bool \<Rightarrow> ('w, unit) session" where
  "delete_bound19 S P binding already_prepared already_dispatched =
     sbind (resolve_delete_target19 P binding) (\<lambda>target.
     sbind (if already_prepared then sreturn () else stry StoreFailed (st_prepare_delete S (binding_intent binding) binding)) (\<lambda>_.
     sbind (if already_dispatched then sreturn () else stry StoreFailed (st_mark_delete_dispatched S (binding_intent binding) binding)) (\<lambda>_.
     sbind (stry (\<lambda>_. ProviderFailed) (pr_delete_instance P target)) (\<lambda>_.
     sbind (confirm_rounds P binding DELETE_CONFIRM_ATTEMPTS19) (\<lambda>_.
     sbind (stry StoreFailed (st_compare_and_swap S (binding_intent binding) (Some binding) None)) (\<lambda>_.
     sbind (terminal_matches19 S binding) (\<lambda>terminal.
     if terminal then sreturn () else sfail NotTerminal)))))))"

definition recover_dispatched_delete19 ::
  "'w Item20LifecycleStore \<Rightarrow> 'w Item20AcceptanceProvider \<Rightarrow> VmBinding \<Rightarrow> ('w, unit) session" where
  "recover_dispatched_delete19 S P binding =
     sbind (observe P) (\<lambda>observed.
     sbind (case authorize_mutation binding observed (binding_generation binding) MutateDelete of
              Inl ProviderResourceNotFound \<Rightarrow>
                stry StoreFailed (st_compare_and_swap S (binding_intent binding) (Some binding) None)
            | Inr target \<Rightarrow>
                sbind (stry (\<lambda>_. ProviderFailed) (pr_delete_instance P target)) (\<lambda>_.
                sbind (confirm_rounds P binding DELETE_CONFIRM_ATTEMPTS19) (\<lambda>_.
                stry StoreFailed (st_compare_and_swap S (binding_intent binding) (Some binding) None)))
            | Inl e \<Rightarrow> sfail (LifecycleFailed e)) (\<lambda>_.
     sbind (terminal_matches19 S binding) (\<lambda>terminal.
     if terminal then sreturn () else sfail NotTerminal)))"

text \<open>The deletion of \<open>cleanup\<close>; the result is whether the machine is gone for good.\<close>

definition cleanup_machine ::
  "'w Item20LifecycleStore \<Rightarrow> 'w Item20AcceptanceProvider \<Rightarrow> DesiredVm \<Rightarrow> ('w, bool) session" where
  "cleanup_machine S P desired =
     sbind (read_state S (desired_intent desired)) (\<lambda>state.
     case state of
       VmEmpty \<Rightarrow> sreturn False
     | CreatePrepared _ \<Rightarrow> sfail PreparedNotDispatched
     | CreateDispatched generation \<Rightarrow>
         sbind (recover_create_binding19 S P desired generation) (\<lambda>binding.
         sbind (delete_bound19 S P binding False False) (\<lambda>_. sreturn True))
     | Bound binding \<Rightarrow> sbind (delete_bound19 S P binding False False) (\<lambda>_. sreturn True)
     | DeletePrepared binding \<Rightarrow> sbind (delete_bound19 S P binding True False) (\<lambda>_. sreturn True)
     | DeleteDispatched binding \<Rightarrow> sbind (recover_dispatched_delete19 S P binding) (\<lambda>_. sreturn True)
     | Terminal _ \<Rightarrow> sreturn True)"

section \<open>Deploying\<close>

datatype DeployError =
    DeploySha | AdmissionFailed AdmissionError | ArtifactFailed ArtifactError | DeployKeyInvalid | DeployCredentialAbsent
  | DeploySession SessionError | ClientFailed VultrClientError | CannotExecute | NotSshReady | DirectoryNotPrepared
  | TransferFailed | RemoteVerificationFailed | DeployEvidenceNotWritten

type_synonym ('w, 'a) deploy = "('w, DeployError, 'a) effect"

definition dbind :: "('w, 'a) deploy \<Rightarrow> ('a \<Rightarrow> ('w, 'b) deploy) \<Rightarrow> ('w, 'b) deploy" where
  "dbind m f w = (case m w of (Inl e, w') \<Rightarrow> (Inl e, w') | (Inr x, w') \<Rightarrow> f x w')"

definition dcheck :: "DeployError + 'a \<Rightarrow> ('w, 'a) deploy" where
  "dcheck r w = (r, w)"

definition dsession :: "('w, 'a) session \<Rightarrow> ('w, 'a) deploy" where
  "dsession m w = (case m w of (r, w') \<Rightarrow> (map_err DeploySession r, w'))"

text \<open>
  The provider's answer for an address, SSH, SCP and removing the file of known hosts;
  SSH and SCP either cannot be executed or end with success or not.
\<close>

record 'w RemoteShell =
  rs_instance_ipv4 :: "VerifiedMutationTarget \<Rightarrow> ('w, VultrClientError, u32) effect"
  rs_ssh :: "string list \<Rightarrow> ('w, unit, bool) effect"
  rs_scp :: "string list \<Rightarrow> ('w, unit, bool) effect"
  rs_forget_hosts :: "'w \<Rightarrow> 'w"

definition REMOTE_ROOT_PREFIX :: string where "REMOTE_ROOT_PREFIX = ''/opt/mobile-proxy-item19''"

definition derive_public_key :: "(bool \<times> nat) option \<Rightarrow> (bool \<times> bytes) option \<Rightarrow> DeployError + string" where
  "derive_public_key key_metadata keygen =
     and_then (case key_metadata of
                 None \<Rightarrow> Inl DeployKeyInvalid
               | Some (is_file, len) \<Rightarrow> if \<not> is_file \<or> len = 0 then Inl DeployKeyInvalid else Inr ()) (\<lambda>_.
     case keygen of
       None \<Rightarrow> Inl DeployKeyInvalid
     | Some (success, output) \<Rightarrow>
         if \<not> success \<or> \<not> utf8_valid output then Inl DeployKeyInvalid
         else
           (let key = trim output in
            if key = [] \<or> MAX_PUBLIC_KEY_BYTES < length key \<or> newline \<in> set key
               \<or> (case split_whitespace key of [] \<Rightarrow> True | kind # _ \<Rightarrow> kind \<notin> set key_kinds)
            then Inl DeployKeyInvalid else Inr key))"

definition ssh_base_args :: "string \<Rightarrow> string \<Rightarrow> string list" where
  "ssh_base_args private_key known_hosts =
     [''-i'', private_key, ''-o'', ''BatchMode=yes'', ''-o'', ''IdentitiesOnly=yes'', ''-o'', ''ConnectTimeout=5'', ''-o'', ''ConnectionAttempts=1'',
      ''-o'', ''StrictHostKeyChecking=accept-new'', ''-o'', ''UserKnownHostsFile='' @ known_hosts, ''-o'', ''LogLevel=ERROR'']"

definition ssh_command_ok :: "'w RemoteShell \<Rightarrow> u32 \<Rightarrow> string \<Rightarrow> string \<Rightarrow> string \<Rightarrow> ('w, bool) deploy" where
  "ssh_command_ok R address private_key known_hosts remote_command w =
     (case rs_ssh R (ssh_base_args private_key known_hosts @ [''root@'' @ ipv4_display address, remote_command]) w of
        (r, w') \<Rightarrow> (map_err (\<lambda>_. CannotExecute) r, w'))"

definition scp_file :: "'w RemoteShell \<Rightarrow> u32 \<Rightarrow> string \<Rightarrow> string \<Rightarrow> string \<Rightarrow> string \<Rightarrow> ('w, unit) deploy" where
  "scp_file R address private_key known_hosts source remote w =
     (case rs_scp R (ssh_base_args private_key known_hosts @ [source, ''root@'' @ ipv4_display address @ '':'' @ remote]) w of
        (Inl _, w') \<Rightarrow> (Inl CannotExecute, w')
      | (Inr ok, w') \<Rightarrow> (if ok then Inr () else Inl TransferFailed, w'))"

fun transient :: "VultrClientError \<Rightarrow> bool" where
  "transient InvalidTransportEndpoint = True"
| "transient VultrClientError.TransportFailed = True"
| "transient (HttpStatus status) = (status \<in> {404, 408, 409, 425, 429, 500, 502, 503, 504})"
| "transient _ = False"

fun ssh_rounds :: "'w RemoteShell \<Rightarrow> VerifiedMutationTarget \<Rightarrow> string \<Rightarrow> string \<Rightarrow> nat \<Rightarrow> ('w, u32) deploy" where
  "ssh_rounds R target private_key known_hosts 0 w = (Inl NotSshReady, w)"
| "ssh_rounds R target private_key known_hosts (Suc n) w =
     (case rs_instance_ipv4 R target w of
        (Inr address, w') \<Rightarrow>
          dbind (ssh_command_ok R address private_key known_hosts ''true'') (\<lambda>ready.
          if ready then dcheck (Inr address) else ssh_rounds R target private_key known_hosts n) w'
      | (Inl e, w') \<Rightarrow> if transient e then ssh_rounds R target private_key known_hosts n w' else (Inl (ClientFailed e), w'))"

definition wait_for_ssh :: "'w RemoteShell \<Rightarrow> VerifiedMutationTarget \<Rightarrow> string \<Rightarrow> string \<Rightarrow> ('w, u32) deploy" where
  "wait_for_ssh R target private_key known_hosts = ssh_rounds R target private_key known_hosts SSH_READY_ATTEMPTS"

fun scp_all :: "'w RemoteShell \<Rightarrow> u32 \<Rightarrow> string \<Rightarrow> string \<Rightarrow> (string \<times> string) list \<Rightarrow> ('w, unit) deploy" where
  "scp_all R address private_key known_hosts [] = dcheck (Inr ())"
| "scp_all R address private_key known_hosts ((source, remote) # files) =
     dbind (scp_file R address private_key known_hosts source remote) (\<lambda>_. scp_all R address private_key known_hosts files)"

definition remote_root :: "string \<Rightarrow> string" where
  "remote_root candidate = REMOTE_ROOT_PREFIX @ ''/'' @ candidate"

definition create_dirs :: "string \<Rightarrow> string" where
  "create_dirs candidate = ''install -d -m 0755 '' @ remote_root candidate @ '' '' @ remote_root candidate @ ''/bin''"

definition verify_command :: "string \<Rightarrow> string" where
  "verify_command candidate =
     (let bin = remote_root candidate @ ''/bin'' in
      ''chmod 0755 '' @ bin @ ''/control-plane '' @ bin @ ''/relay-gate '' @ bin @ ''/reverse-tunnel-server '' @ bin
      @ ''/item19-acceptance-lifecycle && '' @ bin @ ''/item19-acceptance-lifecycle verify-artifact --candidate-sha '' @ candidate
      @ '' --root '' @ remote_root candidate @ '' --manifest '' @ remote_root candidate @ ''/'' @ MANIFEST_NAME)"

definition deploy_and_verify_artifact ::
  "'w RemoteShell \<Rightarrow> string \<Rightarrow> string \<Rightarrow> string \<Rightarrow> u32 \<Rightarrow> string \<Rightarrow> ('w, unit) deploy" where
  "deploy_and_verify_artifact R candidate artifact_root private_key address known_hosts =
     dbind (ssh_command_ok R address private_key known_hosts (create_dirs candidate)) (\<lambda>ok.
     if \<not> ok then dcheck (Inl DirectoryNotPrepared)
     else
       dbind (scp_all R address private_key known_hosts
         (map (\<lambda>relative. (artifact_root @ ''/'' @ relative, remote_root candidate @ ''/'' @ relative)) (MANIFEST_NAME # REQUIRED_ARTIFACT_FILES))) (\<lambda>_.
       dbind (ssh_command_ok R address private_key known_hosts (verify_command candidate)) (\<lambda>verified.
       dcheck (if verified then Inr () else Inl RemoteVerificationFailed))))"

section \<open>Commands\<close>

record DeployEvidence =
  de_candidate_sha :: string
  de_binding_origin :: string
  de_generation :: u64

record CleanupEvidence =
  ce_candidate_sha :: string
  ce_cleanup_result :: string
  ce_provider_delete_dispatched :: bool
  ce_provider_deletion_confirmed :: bool
  ce_durable_terminal_confirmed :: bool

text \<open>What a command reads of the operator's machine, and whether it can write its evidence.\<close>

record DeployInputs =
  di_hashing :: Hashing
  di_manifest_json :: ManifestJson
  di_parse_evidence :: "bytes \<Rightarrow> AdmissionEvidence option"
  di_base64 :: "bytes \<Rightarrow> string"
  di_env :: environment
  di_evidence_file :: "(nat \<times> bytes option) option"
  di_artifact_root :: "bytes list"
  di_manifest_path :: "bytes list"
  di_artifact :: Node
  di_artifact_root_text :: string
  di_private_key :: string
  di_known_hosts :: string
  di_key_metadata :: "(bool \<times> nat) option"
  di_keygen :: "(bool \<times> bytes) option"
  di_evidence_written :: bool

definition credentials :: "environment \<Rightarrow> DeployError + unit" where
  "credentials env = map_err (\<lambda>_. DeployCredentialAbsent) (store_and_provider env)"

definition deploy_checks :: "DeployInputs \<Rightarrow> string \<Rightarrow> DeployError + string \<times> DesiredVm" where
  "deploy_checks D candidate =
     and_then (map_err (\<lambda>_. DeploySha) (artifact_sha_ok candidate)) (\<lambda>_.
     and_then (map_err AdmissionFailed (verify_admission_evidence (di_parse_evidence D) candidate (di_evidence_file D))) (\<lambda>_.
     and_then (map_err ArtifactFailed
       (verify_artifact (di_hashing D) (di_manifest_json D) candidate (di_artifact_root D) (di_manifest_path D) (di_artifact D))) (\<lambda>_.
     and_then (derive_public_key (di_key_metadata D) (di_keygen D)) (\<lambda>public_key.
     and_then (map_err DeploySession (acceptance_desired candidate)) (\<lambda>desired.
     and_then (credentials (di_env D)) (\<lambda>_.
     Inr (di_base64 D (build_cloud_init public_key), desired)))))))"

definition reconcile_deploy ::
  "DeployInputs \<Rightarrow> 'w Item20LifecycleStore \<Rightarrow> 'w Item20AcceptanceProvider \<Rightarrow> 'w RemoteShell \<Rightarrow> string \<Rightarrow> ('w, DeployEvidence) deploy" where
  "reconcile_deploy D S P R candidate =
     dbind (dcheck (deploy_checks D candidate)) (\<lambda>(user_data_b64, desired).
     dbind (dsession (ensure_bound S P desired user_data_b64)) (\<lambda>(binding, origin).
     dbind (dsession (verified_bound_target P desired binding)) (\<lambda>target.
     dbind (\<lambda>w. (Inr (), rs_forget_hosts R w)) (\<lambda>_.
     dbind (wait_for_ssh R target (di_private_key D) (di_known_hosts D)) (\<lambda>address.
     dbind (deploy_and_verify_artifact R candidate (di_artifact_root_text D) (di_private_key D) address (di_known_hosts D)) (\<lambda>_.
     dcheck (if di_evidence_written D
       then Inr \<lparr>de_candidate_sha = candidate, de_binding_origin = BindOrigin_as_str origin,
                de_generation = generation_get (binding_generation binding)\<rparr>
       else Inl DeployEvidenceNotWritten)))))))"

definition cleanup ::
  "environment \<Rightarrow> bool \<Rightarrow> 'w Item20LifecycleStore \<Rightarrow> 'w Item20AcceptanceProvider \<Rightarrow> string \<Rightarrow> ('w, CleanupEvidence) deploy" where
  "cleanup env written S P candidate =
     dbind (dcheck (map_err (\<lambda>_. DeploySha) (artifact_sha_ok candidate))) (\<lambda>_.
     dbind (dcheck (map_err DeploySession (acceptance_desired candidate))) (\<lambda>desired.
     dbind (dcheck (credentials env)) (\<lambda>_.
     dbind (dsession (cleanup_machine S P desired)) (\<lambda>terminal.
     dcheck (if written
       then Inr \<lparr>ce_candidate_sha = candidate,
                ce_cleanup_result = (if terminal then ''terminal'' else ''no_provider_resource_created''),
                ce_provider_delete_dispatched = terminal, ce_provider_deletion_confirmed = terminal, ce_durable_terminal_confirmed = terminal\<rparr>
       else Inl DeployEvidenceNotWritten)))))"

section \<open>Equal to the acceptance sessions\<close>

lemma sbind_cong: "m = m' \<Longrightarrow> (\<And>x. f x = f' x) \<Longrightarrow> sbind m f = sbind m' f'"
  by presburger

lemma recover_rounds_eq: "recover_rounds S P desired fence n = recover_attempts S P desired fence n"
  by (induction n) (auto simp: Let_def intro!: sbind_cong split: option.split sum.split CreateRecovery.split)

lemma sbind_assoc: "sbind (sbind m f) g = sbind m (\<lambda>x. sbind (f x) g)"
  by (rule ext) (simp add: sbind_def split: prod.split sum.split)

lemma sbind_sfail: "sbind (sfail e) g = sfail e"
  by (rule ext) (simp add: sbind_def sfail_def)

lemma sbind_sreturn: "sbind (sreturn x) g = g x"
  by (rule ext) (simp add: sbind_def sreturn_def)

lemmas sbind_laws = sbind_assoc sbind_sfail sbind_sreturn

lemma acceptance_specs_eq: "acceptance_spec19 = acceptance_spec"
  by (simp add: acceptance_spec19_def acceptance_spec_def ACCEPTANCE_LABEL_def)

lemma recover_create_eq: "recover_create_binding19 S P desired g = recover_create_binding S P desired g"
  by (simp add: recover_create_binding19_def recover_create_binding_def recover_rounds_eq PROVIDER_RECOVERY_ATTEMPTS_def CREATE_RECOVERY_ATTEMPTS_def)

lemma dispatch_create_eq: "dispatch_create19 S P desired data prepared = dispatch_create S P desired data prepared"
  unfolding dispatch_create19_def dispatch_create_def recover_create_eq acceptance_specs_eq ..

lemma confirm_rounds_eq: "confirm_rounds P b n = confirm_attempts P b n"
  by (induction n) (auto intro!: sbind_cong split: sum.split LifecycleError.split)

lemma terminal_matches_eq: "terminal_matches19 S b = terminal_matches S b"
  by (auto simp: terminal_matches19_def terminal_matches_def intro!: sbind_cong split: AcceptanceVmLifecycleState.split)

lemma confirm_deleted_eq: "confirm_rounds P b DELETE_CONFIRM_ATTEMPTS19 = confirm_provider_deleted P b"
  by (simp add: confirm_rounds_eq confirm_provider_deleted_def DELETE_CONFIRM_ATTEMPTS19_def DELETE_CONFIRM_ATTEMPTS_def)

lemma if_not_terminal: "(if t then sreturn () else sfail e) = (if \<not> t then sfail e else sreturn ())"
  by simp

lemma delete_bound_eq: "delete_bound19 S P b prepared dispatched = delete_bound S P b prepared dispatched"
  unfolding delete_bound19_def delete_bound_def resolve_delete_target19_def resolve_delete_target_def clear_and_check_def confirm_deleted_eq
    terminal_matches_eq by (simp only: if_not_terminal if_not_P not_not if_distrib [of Not] split: if_split) simp

lemma recover_delete_eq: "recover_dispatched_delete19 S P b = recover_dispatched_delete S P b"
  unfolding recover_dispatched_delete19_def recover_dispatched_delete_def clear_and_check_def confirm_deleted_eq terminal_matches_eq
  by (auto simp: sbind_laws intro!: sbind_cong split: sum.split LifecycleError.split)

fun session_origin_of :: "BindOrigin \<Rightarrow> SessionOpenOrigin" where
  "session_origin_of BindExisting = OriginExisting"
| "session_origin_of BindCreated = OriginCreated"
| "session_origin_of BindRecovered = OriginRecovered"

text \<open>
  The two acceptance programs run one lifecycle: opening a session is binding its
  machine, and closing it is cleaning up, with the same requests to store and provider
  in the same order and the same errors; they differ in the intent they name.
\<close>

theorem item19_runs_session_lifecycle:
  "open_item20_session S P identity data =
     sbind (slift (desired_vm identity)) (\<lambda>desired.
     sbind (ensure_bound S P desired data) (\<lambda>(binding, origin).
     sreturn \<lparr>session_binding = binding, session_origin = session_origin_of origin\<rparr>))
   \<and> sbind (close_item20_session S P identity) (\<lambda>outcome. sreturn (outcome \<noteq> NoResourceCreated)) =
     sbind (slift (desired_vm identity)) (cleanup_machine S P)"
proof
  show "open_item20_session S P identity data =
     sbind (slift (desired_vm identity)) (\<lambda>desired.
     sbind (ensure_bound S P desired data) (\<lambda>(binding, origin).
     sreturn \<lparr>session_binding = binding, session_origin = session_origin_of origin\<rparr>))"
    unfolding open_item20_session_def ensure_bound_def
    by (auto simp: sbind_laws dispatch_create_eq recover_create_eq intro!: sbind_cong
        split: AcceptanceVmLifecycleState.split ReconcilePlan.split)
  show "sbind (close_item20_session S P identity) (\<lambda>outcome. sreturn (outcome \<noteq> NoResourceCreated)) =
     sbind (slift (desired_vm identity)) (cleanup_machine S P)"
    unfolding close_item20_session_def cleanup_machine_def
    by (auto simp: sbind_laws recover_create_eq delete_bound_eq recover_delete_eq intro!: sbind_cong
        split: AcceptanceVmLifecycleState.split)
qed

end
