(* ===== verification/Deploy19_Inv.thy ===== *)
theory Deploy19_Inv
  imports Deploy19
begin

text \<open>
  What the acceptance deployment guarantees: nothing happens before its checks have
  passed, at most one machine is ever requested however often it is run, its evidence
  agrees with the ledger, and what it reports as deployed was verified on the machine.
\<close>

section \<open>Binding and cleaning up keep the ledger's invariant\<close>

context session_world
begin

lemma ensure_bound_sound: "sound (\<lambda>_. True) (ensure_bound S P desired data) (\<lambda>r a. fst a = Bound (fst r))"
proof -
  have ret: "sound (\<lambda>_. True) (sbind m (\<lambda>b. sreturn (b, origin))) (\<lambda>r a. fst a = Bound (fst r))"
    if "sound (\<lambda>_. True) m (\<lambda>b a. fst a = Bound b)" for m and origin :: BindOrigin
    by (rule valid_bind [OF that]) auto
  have bound: "sound (\<lambda>a. fst a = Bound b) (sbind (observe P) (\<lambda>observed.
         sbind (slift (map_err LifecycleFailed (plan_present (Some b) observed desired (Some (binding_generation b))))) (\<lambda>plan.
         case plan of NoopPlan _ \<Rightarrow> sreturn (b, BindExisting) | Reconfigure _ \<Rightarrow> sfail SpecificationDrifted | Create _ \<Rightarrow> sfail UnexpectedCreate)))
       (\<lambda>r a. fst a = Bound (fst r))" for b
    by (rule valid_bind [OF observe_sound], rule valid_bind [OF lift_sound], rule sound_pure) (auto split: ReconcilePlan.split)
  show ?thesis unfolding ensure_bound_def dispatch_create_eq recover_create_eq
  proof (rule valid_bind [OF read_sound])
    fix state
    show "sound (\<lambda>a. True \<and> fst a = state) (case state of
       VmEmpty \<Rightarrow> sbind (dispatch_create S P desired data None) (\<lambda>b. sreturn (b, BindCreated))
     | CreatePrepared g \<Rightarrow> sbind (dispatch_create S P desired data (Some g)) (\<lambda>b. sreturn (b, BindCreated))
     | CreateDispatched g \<Rightarrow> sbind (recover_create_binding S P desired g) (\<lambda>b. sreturn (b, BindRecovered))
     | Bound b \<Rightarrow> sbind (observe P) (\<lambda>observed.
         sbind (slift (map_err LifecycleFailed (plan_present (Some b) observed desired (Some (binding_generation b))))) (\<lambda>plan.
         case plan of NoopPlan _ \<Rightarrow> sreturn (b, BindExisting) | Reconfigure _ \<Rightarrow> sfail SpecificationDrifted | Create _ \<Rightarrow> sfail UnexpectedCreate))
     | DeletePrepared _ \<Rightarrow> sfail CleanupInProgress
     | DeleteDispatched _ \<Rightarrow> sfail CleanupInProgress
     | Terminal _ \<Rightarrow> sfail TerminalIntent) (\<lambda>r a. fst a = Bound (fst r))"
      using bound sound_any [OF ret [OF dispatch_sound]] sound_any [OF ret [OF recover_create_sound]]
      by (cases state) (simp_all add: sound_fail)
  qed
qed

lemma cleanup_machine_sound:
  "sound (\<lambda>_. True) (cleanup_machine S P desired) (\<lambda>terminal a. if terminal then \<exists>g. fst a = Terminal g else fst a = VmEmpty)"
proof -
  let ?Q = "\<lambda>terminal a. if terminal then \<exists>g. fst a = Terminal g else fst a = VmEmpty"
  have ret: "sound R (sbind m (\<lambda>_. sreturn True)) ?Q" if "sound R m (\<lambda>_ a. fst a = Terminal g)" for R g and m :: "('w, unit) session"
    by (rule valid_bind [OF that]) auto
  have dispatched: "sound (\<lambda>_. True) (sbind (recover_create_binding S P desired g) (\<lambda>b. sbind (delete_bound S P b False False) (\<lambda>_. sreturn True))) ?Q" for g
    by (rule valid_bind [OF recover_create_sound], rule sound_any, rule ret [OF delete_bound_sound])
  show ?thesis unfolding cleanup_machine_def recover_create_eq delete_bound_eq recover_delete_eq
  proof (rule valid_bind [OF read_sound])
    fix state
    show "sound (\<lambda>a. True \<and> fst a = state) (case state of
       VmEmpty \<Rightarrow> sreturn False
     | CreatePrepared _ \<Rightarrow> sfail PreparedNotDispatched
     | CreateDispatched g \<Rightarrow> sbind (recover_create_binding S P desired g) (\<lambda>b. sbind (delete_bound S P b False False) (\<lambda>_. sreturn True))
     | Bound b \<Rightarrow> sbind (delete_bound S P b False False) (\<lambda>_. sreturn True)
     | DeletePrepared b \<Rightarrow> sbind (delete_bound S P b True False) (\<lambda>_. sreturn True)
     | DeleteDispatched b \<Rightarrow> sbind (recover_dispatched_delete S P b) (\<lambda>_. sreturn True)
     | Terminal _ \<Rightarrow> sreturn True) ?Q"
      using sound_any [OF dispatched] sound_any [OF ret [OF delete_bound_sound]] ret [OF recover_delete_sound]
      by (cases state) (auto simp: sound_fail)
  qed
qed

lemma verified_target_sound: "sound R (verified_bound_target P desired b) (\<lambda>_. R)"
  unfolding verified_bound_target_def
  by (rule valid_bind [OF observe_sound], rule valid_bind [OF lift_sound], rule sound_pure) (auto split: ReconcilePlan.split)

end

section \<open>The remote steps leave the ledger alone\<close>

definition keeps :: "('w \<Rightarrow> 'v) \<Rightarrow> ('w, 'e, 'a) effect \<Rightarrow> bool" where
  "keeps A m = (\<forall>w. A (snd (m w)) = A w)"

definition remote_keeps :: "('w \<Rightarrow> 'v) \<Rightarrow> 'w RemoteShell \<Rightarrow> bool" where
  "remote_keeps A R = ((\<forall>t. keeps A (rs_instance_ipv4 R t)) \<and> (\<forall>args. keeps A (rs_ssh R args)) \<and> (\<forall>args. keeps A (rs_scp R args))
     \<and> (\<forall>w. A (rs_forget_hosts R w) = A w))"

lemma keeps_dcheck: "keeps A (dcheck r)"
  by (simp add: keeps_def dcheck_def)

lemma keeps_dbind: "keeps A m \<Longrightarrow> (\<And>x. keeps A (f x)) \<Longrightarrow> keeps A (dbind m f)"
  unfolding keeps_def dbind_def by (auto split: prod.split sum.split) (metis snd_conv)+

lemma keeps_ssh: "remote_keeps A R \<Longrightarrow> keeps A (ssh_command_ok R address key hosts cmd)"
  unfolding remote_keeps_def keeps_def ssh_command_ok_def by (auto split: prod.split) (metis snd_conv)

lemma keeps_scp: "remote_keeps A R \<Longrightarrow> keeps A (scp_file R address key hosts source remote)"
  unfolding remote_keeps_def keeps_def scp_file_def by (auto split: prod.split sum.split) (metis snd_conv)+

lemma keeps_scp_all: "remote_keeps A R \<Longrightarrow> keeps A (scp_all R address key hosts files)"
  by (induction R address key hosts files rule: scp_all.induct) (auto intro!: keeps_dbind keeps_dcheck keeps_scp)

lemma keeps_deploy: "remote_keeps A R \<Longrightarrow> keeps A (deploy_and_verify_artifact R candidate root key address hosts)"
  unfolding deploy_and_verify_artifact_def
  by (auto intro!: keeps_dbind keeps_ssh keeps_scp keeps_scp_all keeps_dcheck split: if_split)

lemma ssh_rounds_view:
  assumes "remote_keeps A R"
  shows "A (snd (ssh_rounds R target key hosts n w)) = A w"
proof (induction n arbitrary: w)
  case (Suc n)
  obtain r w' where r: "rs_instance_ipv4 R target w = (r, w')" by force
  have w': "A w' = A w" using assms r unfolding remote_keeps_def keeps_def by (metis snd_conv)
  have "keeps A (dbind (ssh_command_ok R address key hosts ''true'') (\<lambda>ready. if ready then dcheck (Inr address) else ssh_rounds R target key hosts n))" for address
    using Suc.IH by (intro keeps_dbind keeps_ssh [OF assms]) (simp add: keeps_def dcheck_def)
  then show ?case using r w' Suc.IH by (cases r) (simp_all add: keeps_def)
qed simp

lemma keeps_wait: "remote_keeps A R \<Longrightarrow> keeps A (wait_for_ssh R target key hosts)"
  by (simp add: keeps_def wait_for_ssh_def ssh_rounds_view)

section \<open>Validity of the commands\<close>

definition dvalid :: "('w \<Rightarrow> 'a) \<Rightarrow> ('a \<Rightarrow> bool) \<Rightarrow> ('w, 'x) deploy \<Rightarrow> ('x \<Rightarrow> 'a \<Rightarrow> bool) \<Rightarrow> ('a \<Rightarrow> bool) \<Rightarrow> bool" where
  "dvalid A P m Q E = (\<forall>w. P (A w) \<longrightarrow> (case m w of (Inl _, w') \<Rightarrow> E (A w') | (Inr x, w') \<Rightarrow> Q x (A w')))"

lemma dvalid_bind: "dvalid A P m R E \<Longrightarrow> (\<And>x. dvalid A (R x) (f x) Q E) \<Longrightarrow> dvalid A P (dbind m f) Q E"
  unfolding dvalid_def dbind_def by (fastforce split: prod.splits sum.splits)

lemma dvalid_session: "valid A P m Q E \<Longrightarrow> dvalid A P (dsession m) Q E"
  unfolding valid_def dvalid_def dsession_def by (fastforce simp: map_err_def split: prod.splits sum.splits)

lemma dvalid_check: "(\<And>a. P a \<Longrightarrow> E a) \<Longrightarrow> (\<And>x a. r = Inr x \<Longrightarrow> P a \<Longrightarrow> Q x a) \<Longrightarrow> dvalid A P (dcheck r) Q E"
  by (simp add: dvalid_def dcheck_def split: sum.split)

lemma dvalid_keeps: "keeps A m \<Longrightarrow> (\<And>a. P a \<Longrightarrow> E a) \<Longrightarrow> dvalid A P m (\<lambda>_. P) E"
  unfolding keeps_def dvalid_def by (auto split: prod.split sum.split) (metis snd_conv)+

lemma deploy_sound:
  assumes "remote_keeps (world_view U S) R"
  shows "dvalid (world_view U S) session_inv (reconcile_deploy D (ledger_store U S) script_provider R candidate)
    (\<lambda>ev a. session_inv a \<and> (\<exists>b. fst a = Bound b \<and> de_generation ev = generation_get (binding_generation b))) session_inv"
proof -
  let ?A = "world_view U S" and ?S = "ledger_store U S"
  let ?bound = "\<lambda>b a. session_inv a \<and> fst a = Bound b"
  have forget: "keeps ?A (\<lambda>w. (Inr () :: DeployError + unit, rs_forget_hosts R w))"
    using assms by (simp add: remote_keeps_def keeps_def)
  have bind: "dvalid ?A session_inv (dsession (ensure_bound ?S script_provider desired data)) (\<lambda>r. ?bound (fst r)) session_inv" for desired data
    using dvalid_session [OF ledger.ensure_bound_sound] by simp
  have target: "dvalid ?A (?bound b) (dsession (verified_bound_target script_provider desired b)) (\<lambda>_. ?bound b) session_inv" for desired b
    using dvalid_session [OF ledger.verified_target_sound [of _ _ "\<lambda>a. fst a = Bound b"]] by simp
  note remote = dvalid_keeps [OF forget] dvalid_keeps [OF keeps_wait [OF assms]] dvalid_keeps [OF keeps_deploy [OF assms]]
  let ?Q = "\<lambda>ev a. session_inv a \<and> (\<exists>b. fst a = Bound b \<and> de_generation ev = generation_get (binding_generation b))"
  have rest: "dvalid ?A (?bound binding) (dbind (dsession (verified_bound_target script_provider desired binding)) (\<lambda>target.
     dbind (\<lambda>w. (Inr (), rs_forget_hosts R w)) (\<lambda>_.
     dbind (wait_for_ssh R target (di_private_key D) (di_known_hosts D)) (\<lambda>address.
     dbind (deploy_and_verify_artifact R candidate (di_artifact_root_text D) (di_private_key D) address (di_known_hosts D)) (\<lambda>_.
     dcheck (if di_evidence_written D
       then Inr \<lparr>de_candidate_sha = candidate, de_binding_origin = BindOrigin_as_str origin,
                de_generation = generation_get (binding_generation binding)\<rparr>
       else Inl DeployEvidenceNotWritten)))))) ?Q session_inv" for binding origin desired
    by (rule dvalid_bind [OF target], rule dvalid_bind [OF remote(1)], simp, rule dvalid_bind [OF remote(2)], simp,
        rule dvalid_bind [OF remote(3)], simp, rule dvalid_check) (auto split: if_splits)
  show ?thesis unfolding reconcile_deploy_def
  proof (rule dvalid_bind [where R = "\<lambda>_. session_inv"], rule dvalid_check)
    fix x :: "string \<times> DesiredVm"
    obtain data desired where x: "x = (data, desired)" by force
    show "dvalid ?A session_inv (case x of (user_data_b64, desired) \<Rightarrow>
       dbind (dsession (ensure_bound ?S script_provider desired user_data_b64)) (\<lambda>(binding, origin).
       dbind (dsession (verified_bound_target script_provider desired binding)) (\<lambda>target.
       dbind (\<lambda>w. (Inr (), rs_forget_hosts R w)) (\<lambda>_.
       dbind (wait_for_ssh R target (di_private_key D) (di_known_hosts D)) (\<lambda>address.
       dbind (deploy_and_verify_artifact R candidate (di_artifact_root_text D) (di_private_key D) address (di_known_hosts D)) (\<lambda>_.
       dcheck (if di_evidence_written D
         then Inr \<lparr>de_candidate_sha = candidate, de_binding_origin = BindOrigin_as_str origin,
                  de_generation = generation_get (binding_generation binding)\<rparr>
         else Inl DeployEvidenceNotWritten))))))) ?Q session_inv"
      unfolding x prod.case by (rule dvalid_bind [OF bind]) (simp only: split_beta rest)
  qed
qed

lemma cleanup_command_sound:
  "dvalid (world_view U S) session_inv (cleanup env written (ledger_store U S) script_provider candidate)
    (\<lambda>ev a. session_inv a \<and> (if ce_durable_terminal_confirmed ev then \<exists>g. fst a = Terminal g else fst a = VmEmpty)) session_inv"
proof -
  let ?A = "world_view U S"
  have machine: "dvalid ?A session_inv (dsession (cleanup_machine (ledger_store U S) script_provider desired))
      (\<lambda>t a. session_inv a \<and> (if t then \<exists>g. fst a = Terminal g else fst a = VmEmpty)) session_inv" for desired
    using dvalid_session [OF ledger.cleanup_machine_sound] by simp
  have check: "dvalid ?A session_inv (dcheck r) (\<lambda>_. session_inv) session_inv" for r :: "DeployError + 'a"
    by (rule dvalid_check) simp_all
  show ?thesis unfolding cleanup_def
    by (rule dvalid_bind [OF check], rule dvalid_bind [OF check], rule dvalid_bind [OF check], rule dvalid_bind [OF machine], rule dvalid_check)
      (auto split: if_splits)
qed

section \<open>Runs\<close>

datatype Item19Call = DeployCall DeployInputs "SessionWorld RemoteShell" string | CleanupCall environment bool string

fun run_call19 :: "Uuids \<Rightarrow> BindingStore \<Rightarrow> Item19Call \<Rightarrow> SessionWorld \<Rightarrow> SessionWorld" where
  "run_call19 U S (DeployCall D R candidate) w = snd (reconcile_deploy D (ledger_store U S) script_provider R candidate w)"
| "run_call19 U S (CleanupCall env written candidate) w = snd (cleanup env written (ledger_store U S) script_provider candidate w)"

definition run_calls19 :: "Uuids \<Rightarrow> BindingStore \<Rightarrow> Item19Call list \<Rightarrow> SessionWorld \<Rightarrow> SessionWorld" where
  "run_calls19 U S cs w = fold (run_call19 U S) cs w"

definition call_keeps :: "Uuids \<Rightarrow> BindingStore \<Rightarrow> Item19Call \<Rightarrow> bool" where
  "call_keeps U S c = (case c of DeployCall _ R _ \<Rightarrow> remote_keeps (world_view U S) R | CleanupCall _ _ _ \<Rightarrow> True)"

lemma dvalid_snd:
  assumes "dvalid A P m (\<lambda>x a. E a \<and> Q x a) E" "P (A w)"
  shows "E (A (snd (m w)))"
  using assms unfolding dvalid_def by (fastforce split: prod.splits sum.splits)

lemma run_call19_inv: "call_keeps U S c \<Longrightarrow> session_inv (world_view U S w) \<Longrightarrow> session_inv (world_view U S (run_call19 U S c w))"
  using dvalid_snd [OF deploy_sound] dvalid_snd [OF cleanup_command_sound] by (cases c) (simp_all add: call_keeps_def)

lemma run_calls19_inv:
  "list_all (call_keeps U S) cs \<Longrightarrow> session_inv (world_view U S w) \<Longrightarrow> session_inv (world_view U S (run_calls19 U S cs w))"
  unfolding run_calls19_def by (induction cs arbitrary: w) (simp_all add: run_call19_inv)

lemma fresh_inv:
  assumes "sw_records w = []" "sw_created w = 0" "sw_deleted w = []"
  shows "session_inv (world_view U S w)"
proof -
  have "ledger_phase U S [] = VmEmpty" by (auto simp: ledger_phase_def reconstruct_ledger_def and_then_def split: sum.split)
  then show ?thesis using assms by (simp add: world_view_def session_inv_def deletions_ok_def)
qed

section \<open>The order of a deployment\<close>

lemma dbind_Inr: "dbind m f w = (Inr x, w') \<longleftrightarrow> (\<exists>y v. m w = (Inr y, v) \<and> f y v = (Inr x, w'))"
  by (auto simp: dbind_def split: prod.splits sum.splits)

lemma dcheck_Inr: "dcheck r w = (Inr x, w') \<longleftrightarrow> r = Inr x \<and> w' = w"
  by (auto simp: dcheck_def)

lemma dsession_Inr: "dsession m w = (Inr x, w') \<longleftrightarrow> m w = (Inr x, w')"
  by (auto simp: dsession_def map_err_Inr split: prod.splits)

lemma ssh_ok_Inr:
  "ssh_command_ok R address key hosts cmd w = (Inr ok, w') \<longleftrightarrow>
     rs_ssh R (ssh_base_args key hosts @ [''root@'' @ ipv4_display address, cmd]) w = (Inr ok, w')"
  by (auto simp: ssh_command_ok_def map_err_Inr split: prod.splits)

lemma ssh_rounds_Inr: "ssh_rounds R target key hosts n w = (Inr a, w') \<Longrightarrow> \<exists>v v'. rs_instance_ipv4 R target v = (Inr a, v')"
proof (induction n arbitrary: w)
  case (Suc n)
  then show ?case
    by (auto simp: dbind_Inr dcheck_Inr split: prod.splits sum.splits if_splits)
qed simp

lemma verified_target_Inr:
  assumes "verified_bound_target P desired b w = (Inr target, w')"
  shows "\<exists>observed. plan_present (Some b) observed desired (Some (binding_generation b)) = Inr (NoopPlan target)"
  using assms unfolding verified_bound_target_def sbind_def slift_def map_err_def
  by (auto simp: sreturn_def sfail_def split: prod.splits sum.splits ReconcilePlan.splits)

lemma deploy_checks_Inr:
  assumes "deploy_checks D candidate = Inr (data, desired)"
  shows "verify_admission_evidence (di_parse_evidence D) candidate (di_evidence_file D) = Inr ()"
    "verify_artifact (di_hashing D) (di_manifest_json D) candidate (di_artifact_root D) (di_manifest_path D) (di_artifact D) = Inr ()"
    "acceptance_desired candidate = Inr desired"
  using assms by (auto simp: deploy_checks_def and_then_Inr_iff map_err_Inr)

section \<open>Properties\<close>

text \<open>
  C15: However often a candidate is deployed and cleaned up, and whatever fails in between,
  at most one machine is requested and all deletions name one machine.  A deployment
  that reports success has its machine bound in the ledger with the generation it
  reports; a cleanup that reports the end has reached the terminal state, and one that
  reports that nothing was created is right.
\<close>

theorem item19_evidence_matches_ledger:
  assumes "sw_records w = []" "sw_created w = 0" "sw_deleted w = []" "list_all (call_keeps U S) cs" "v = run_calls19 U S cs w"
    and "remote_keeps (world_view U S) R"
  shows "sw_created v \<le> 1 \<and> (\<exists>t. set (sw_deleted v) \<subseteq> {t})
   \<and> (case reconcile_deploy D (ledger_store U S) script_provider R candidate v of
        (Inr ev, w2) \<Rightarrow> \<exists>b. ledger_phase U S (sw_records w2) = Bound b \<and> de_generation ev = generation_get (binding_generation b)
      | (Inl _, w2) \<Rightarrow> True)
   \<and> (case cleanup env written (ledger_store U S) script_provider candidate v of
        (Inr ev, w2) \<Rightarrow> if ce_durable_terminal_confirmed ev then \<exists>g. ledger_phase U S (sw_records w2) = Terminal g
                        else ledger_phase U S (sw_records w2) = VmEmpty \<and> sw_created w2 = 0
      | (Inl _, w2) \<Rightarrow> True)"
proof -
  have inv: "session_inv (world_view U S v)" unfolding assms(5) by (rule run_calls19_inv [OF assms(4) fresh_inv [OF assms(1-3)]])
  have "sw_created v \<le> 1 \<and> (\<exists>t. set (sw_deleted v) \<subseteq> {t})"
    using inv by (cases "ledger_phase U S (sw_records v)") (auto simp: world_view_def session_inv_def deletions_ok_def)
  moreover have "case reconcile_deploy D (ledger_store U S) script_provider R candidate v of
        (Inr ev, w2) \<Rightarrow> \<exists>b. ledger_phase U S (sw_records w2) = Bound b \<and> de_generation ev = generation_get (binding_generation b)
      | (Inl _, w2) \<Rightarrow> True"
    using deploy_sound [OF assms(6), unfolded dvalid_def, rule_format, OF inv] by (fastforce simp: world_view_def split: prod.splits sum.splits)
  moreover have "case cleanup env written (ledger_store U S) script_provider candidate v of
        (Inr ev, w2) \<Rightarrow> if ce_durable_terminal_confirmed ev then \<exists>g. ledger_phase U S (sw_records w2) = Terminal g
                        else ledger_phase U S (sw_records w2) = VmEmpty \<and> sw_created w2 = 0
      | (Inl _, w2) \<Rightarrow> True"
    using cleanup_command_sound [unfolded dvalid_def, rule_format, OF inv, of env written candidate]
    by (fastforce simp: world_view_def session_inv_def split: prod.splits sum.splits if_splits)
  ultimately show ?thesis by blast
qed


section \<open>A deployment\<close>

definition sample_evidence :: AdmissionEvidence where
  "sample_evidence =
     \<lparr>ad_format_version = 1, ad_authority = ADMISSION_AUTHORITY, ad_candidate_sha = sample_sha, ad_repository = ITEM19_REPOSITORY,
      ad_workflow_run_id = ''1'', ad_workflow_run_attempt = ''1'', ad_command_issue = ITEM19_ISSUE, ad_command_comment_id = ''1'',
      ad_quality_run_id = ''1'', ad_quality_run_attempt = ''1'', ad_acceptance_run_id = ''1'', ad_acceptance_run_attempt = ''1'',
      ad_preflight_run_id = ''1'', ad_preflight_run_attempt = ''1'', ad_provider_proof_window_ready = True, ad_provider_proof_ephemeral = True,
      ad_phone_signing_gate_issue = PHONE_SIGNING_GATE_ISSUE, ad_phone_signing_gate_required_for_item20 = True,
      ad_phone_signing_gate_consumed_by_item19 = False, ad_scope = LifecycleScope_as_str Acceptance, ad_environment = ACCEPTANCE_ENVIRONMENT,
      ad_final_production_authority = False, ad_production_environment_authorized = False, ad_phone_mutation_authorized = False,
      ad_provider_mutation_performed_at_admission = False\<rparr>"

definition sample_inputs :: DeployInputs where
  "sample_inputs =
     \<lparr>di_hashing = sample_blake3, di_manifest_json = sample_manifest_json, di_parse_evidence = (\<lambda>_. Some sample_evidence), di_base64 = id,
      di_env = (\<lambda>_. Some ''secret''), di_evidence_file = Some (2, Some ''{}''), di_artifact_root = [''r''], di_manifest_path = [''r'', MANIFEST_NAME],
      di_artifact = sample_verified, di_artifact_root_text = ''r'', di_private_key = ''id'', di_known_hosts = ''id.known_hosts'',
      di_key_metadata = Some (True, 9), di_keygen = Some (True, ''ssh-ed25519 AAA='' @ [newline]), di_evidence_written = True\<rparr>"

definition sample_desired19 :: DesiredVm where
  "sample_desired19 = \<lparr>desired_intent = \<lparr>intent_scope = Acceptance, intent_id = ''candidate:'' @ sample_sha\<rparr>,
     desired_display_name = spec_label acceptance_spec19, desired_spec_fingerprint = VultrVmSpec_fingerprint acceptance_spec19\<rparr>"

definition sample_binding19 :: VmBinding where
  "sample_binding19 = \<lparr>binding_intent = desired_intent sample_desired19, binding_provider_id = ProviderResourceId ''u1'', binding_generation = Generation 1\<rparr>"

definition sample_vm19 :: ObservedVm where
  "sample_vm19 = \<lparr>vm_provider_id = ProviderResourceId ''u1'', vm_display_name = spec_label acceptance_spec19,
     vm_ownership = Exact (OwnershipMetadata_exact (desired_intent sample_desired19) (Generation 1)),
     vm_spec_fingerprint = VultrVmSpec_fingerprint acceptance_spec19\<rparr>"

text \<open>A store that has the machine bound, a provider that lists it, a machine that obeys.\<close>

definition sample_store19 :: "nat Item20LifecycleStore" where
  "sample_store19 =
     \<lparr>st_lifecycle_state = (\<lambda>_ w. (Inr (Bound sample_binding19), w)), st_prepare_create = (\<lambda>_ w. (Inl InvalidTransition, w)),
      st_mark_create_dispatched = (\<lambda>_ _ w. (Inl InvalidTransition, w)), st_prepare_delete = (\<lambda>_ _ w. (Inl InvalidTransition, w)),
      st_mark_delete_dispatched = (\<lambda>_ _ w. (Inl InvalidTransition, w)), st_compare_and_swap = (\<lambda>_ _ _ w. (Inl InvalidTransition, w))\<rparr>"

definition sample_provider19 :: "nat Item20AcceptanceProvider" where
  "sample_provider19 =
     \<lparr>pr_list_instances = (\<lambda>w. (Inr [sample_vm19], w)), pr_create_instance = (\<lambda>_ _ _ w. (Inl (), w)),
      pr_instance_ipv4 = (\<lambda>_ w. (Inl (), w)), pr_delete_instance = (\<lambda>_ w. (Inl (), w))\<rparr>"

definition obedient :: "'w RemoteShell" where
  "obedient = \<lparr>rs_instance_ipv4 = (\<lambda>_ w. (Inr 0x08080808, w)), rs_ssh = (\<lambda>_ w. (Inr True, w)), rs_scp = (\<lambda>_ w. (Inr True, w)), rs_forget_hosts = id\<rparr>"

lemma sample_desired_ok: "acceptance_desired sample_sha = Inr sample_desired19"
  by (simp add: acceptance_desired_def OwnershipIntent_new_def sample_desired19_def sample_sha_def list_all_iff
      ownership_intent_byte_def is_ascii_digit_def is_ascii_upper_def is_ascii_lower_def is_ascii_alphanumeric_def in_range_def)

lemma sample_checks: "\<exists>data. deploy_checks sample_inputs sample_sha = Inr (data, sample_desired19)"
proof -
  have "verify_admission_evidence (\<lambda>_. Some sample_evidence) sample_sha (Some (2, Some ''{}'')) = Inr ()"
    by (simp add: verify_admission_evidence_def read_bounded_json_def sample_evidence_def numeric_identities_def positive_numeric_def
        MAX_JSON_BYTES_def is_ascii_digit_def in_range_def)
  moreover have "verify_artifact sample_blake3 sample_manifest_json sample_sha [''r''] [''r'', MANIFEST_NAME] sample_verified = Inr ()"
    using sample_verifies by (simp add: sample_sha_def)
  moreover have "artifact_sha_ok sample_sha = Inr ()" using sample_artifact_sha by (simp add: sample_sha_def)
  moreover have "\<exists>key. derive_public_key (Some (True, 9)) (Some (True, ''ssh-ed25519 AAA='' @ [newline])) = Inr key"
  proof -
    have "trim (''ssh-ed25519 AAA='' @ [newline]) = ''ssh-ed25519 AAA=''"
      by (simp add: trim_def leading_whitespace_def byte_at_def newline_def)
    moreover have "utf8_valid (''ssh-ed25519 AAA='' @ [newline])" by (rule ascii_utf8) (simp add: is_ascii_def in_range_def newline_def)
    moreover have "split_whitespace ''ssh-ed25519 AAA='' = [''ssh-ed25519'', ''AAA='']"
      by (simp add: split_whitespace_def leading_whitespace_def byte_at_def)
    ultimately show ?thesis
      by (simp add: derive_public_key_def Let_def MAX_PUBLIC_KEY_BYTES_def key_kinds_def newline_def)
  qed
  moreover have "credentials (\<lambda>_. Some ''secret'') = Inr ()"
    by (simp add: credentials_def store_and_provider_def required_env_def env_text_def)
  ultimately show ?thesis using sample_desired_ok by (auto simp: deploy_checks_def sample_inputs_def)
qed

lemma sample_plan19: "plan_present (Some sample_binding19) [sample_vm19] sample_desired19 (Some (Generation 1)) = Inr (NoopPlan (target_of sample_binding19))"
  by (auto simp: plan_present_bound_iff authorize_mutation_def resolve_bound_resource_Inr_iff exactly_owned_def ownership_claims_def
      sample_binding19_def sample_vm19_def sample_desired19_def)

lemma sample_bound: "ensure_bound sample_store19 sample_provider19 sample_desired19 data w = (Inr (sample_binding19, BindExisting), w)"
  "verified_bound_target sample_provider19 sample_desired19 sample_binding19 w = (Inr (target_of sample_binding19), w)"
proof -
  have g: "binding_generation sample_binding19 = Generation 1" by (simp add: sample_binding19_def)
  show "ensure_bound sample_store19 sample_provider19 sample_desired19 data w = (Inr (sample_binding19, BindExisting), w)"
    by (simp add: ensure_bound_def sbind_def read_state_def stry_def observe_def slift_def sreturn_def sample_store19_def sample_provider19_def
        g sample_plan19)
  show "verified_bound_target sample_provider19 sample_desired19 sample_binding19 w = (Inr (target_of sample_binding19), w)"
    by (simp add: verified_bound_target_def sbind_def stry_def observe_def slift_def sreturn_def sample_provider19_def g sample_plan19)
qed

lemma obedient_steps:
  "wait_for_ssh obedient target key hosts w = (Inr 0x08080808, w)"
  "deploy_and_verify_artifact obedient candidate root key address hosts w = (Inr (), w)"
proof -
  have ssh: "ssh_command_ok obedient address key hosts cmd w = (Inr True, w)" for address cmd w
    by (simp add: ssh_command_ok_def obedient_def)
  have ip: "rs_instance_ipv4 obedient target w = (Inr 0x08080808, w)" by (simp add: obedient_def)
  have scp: "scp_all obedient address key hosts files w = (Inr (), w)" for address files w
    by (induction files) (auto simp: dcheck_def dbind_def scp_file_def obedient_def)
  have "ssh_rounds obedient target key hosts (Suc n) w = (Inr 0x08080808, w)" for n
    using ssh [of "0x08080808" "''true''" w] ip by (simp add: dbind_def dcheck_def)
  from this [of 39] show "wait_for_ssh obedient target key hosts w = (Inr 0x08080808, w)"
    by (simp add: wait_for_ssh_def SSH_READY_ATTEMPTS_def numeral_eq_Suc)
  show "deploy_and_verify_artifact obedient candidate root key address hosts w = (Inr (), w)"
    by (simp add: deploy_and_verify_artifact_def dbind_def ssh scp dcheck_def del: scp_all.simps list.map)
qed

lemma sample_deploys: "\<exists>ev. reconcile_deploy sample_inputs sample_store19 sample_provider19 obedient sample_sha 0 = (Inr ev, 0)"
proof -
  obtain data where c: "deploy_checks sample_inputs sample_sha = Inr (data, sample_desired19)" using sample_checks by blast
  have i: "di_evidence_written sample_inputs" by (simp add: sample_inputs_def)
  have f: "rs_forget_hosts obedient = id" by (simp add: obedient_def)
  show ?thesis unfolding reconcile_deploy_def
    by (simp add: dbind_def dcheck_def c dsession_def sample_bound obedient_steps i f)
qed


lemma obedient_keeps: "remote_keeps A obedient"
  by (simp add: remote_keeps_def keeps_def obedient_def)

definition sample_ledger19 :: BindingStore where
  "sample_ledger19 = \<lparr>candidate_sha = sample_sha, store_intent = desired_intent sample_desired19\<rparr>"

theorem item19_evidence_matches_ledger_witness:
  "case cleanup (\<lambda>_. Some ''secret'') True (ledger_store sample_uuids sample_ledger19) script_provider sample_sha
       (run_calls19 sample_uuids sample_ledger19 [DeployCall sample_inputs obedient sample_sha] sample_world) of
     (Inr ev, w2) \<Rightarrow> if ce_durable_terminal_confirmed ev then \<exists>g. ledger_phase sample_uuids sample_ledger19 (sw_records w2) = Terminal g
                     else ledger_phase sample_uuids sample_ledger19 (sw_records w2) = VmEmpty \<and> sw_created w2 = 0
   | (Inl _, w2) \<Rightarrow> True"
  using item19_evidence_matches_ledger [where w = sample_world and U = sample_uuids and S = sample_ledger19 and R = obedient
      and cs = "[DeployCall sample_inputs obedient sample_sha]" and env = "\<lambda>_. Some ''secret''" and written = True and candidate = sample_sha
      and v = "run_calls19 sample_uuids sample_ledger19 [DeployCall sample_inputs obedient sample_sha] sample_world"]
  by (simp add: sample_world_def obedient_keeps call_keeps_def)

end
