(* ===== verification/Relay_Services.thy ===== *)
theory Relay_Services
  imports Control_Api_Inv Host_Config Tunnel_Server
begin

text \<open>
  The two services beside the control plane on the relay.  The tunnel server's start
  (\<open>services/reverse-tunnel-server/src/main.rs\<close>): its checked arguments, the listeners
  it binds and the tasks it starts.  The relay gate (\<open>services/relay-gate/src\<close>): a loop
  that reads the devices from the control plane, tries the public listener and reports
  the result back, here run against the model of the control plane's interface.
\<close>

section \<open>The tunnel server\<close>

record RelayCli =
  rc_listen :: string
  rc_transport :: string
  rc_tcp_listen :: string
  rc_public_proxy_listen :: string
  rc_target_node_id :: "string option"
  rc_auth_token :: string
  rc_server_name :: string
  rc_cert_der_b64 :: string
  rc_key_der_b64 :: string

definition MAX_PUBLIC_PROXY_LISTENERS :: nat where "MAX_PUBLIC_PROXY_LISTENERS = 8"

record ValidatedCli =
  vc_quic_listen :: SocketAddr
  vc_tcp_listen :: SocketAddr
  vc_public_proxy_listens :: "SocketAddr list"
  vc_target_node_id :: "string option"

fun collect_listens :: "string list \<Rightarrow> SocketAddr list \<Rightarrow> string + SocketAddr list" where
  "collect_listens [] parsed = Inr parsed"
| "collect_listens (v # vs) parsed =
     and_then (ok_or ''public proxy listen address is invalid'' (parse_socket_addr v)) (\<lambda>listen.
     if \<not> is_loopback (socket_ip listen) then Inl ''reverse-tunnel public proxy backends must bind to loopback''
     else if listen \<in> set parsed then Inl ''public proxy listener inventory contains duplicates''
     else collect_listens vs (parsed @ [listen]))"

definition parse_public_proxy_listens :: "string \<Rightarrow> string + SocketAddr list" where
  "parse_public_proxy_listens raw =
     (let vs = filter (\<lambda>v. v \<noteq> []) (map trim (split_on CHR '','' raw)) in
      if vs = [] \<or> MAX_PUBLIC_PROXY_LISTENERS < length vs then Inl ''public proxy listener inventory is invalid''
      else collect_listens vs [])"

definition der_text_ok :: "string \<Rightarrow> bool" where
  "der_text_ok text = (16 \<le> length text \<and> length text \<le> 65536)"

definition validate_cli :: "RelayCli \<Rightarrow> string + ValidatedCli" where
  "validate_cli cli =
     and_then (check (rc_transport cli = ''hybrid'') ''production reverse-tunnel server transport must be hybrid'') (\<lambda>_.
     and_then (validate_secret ''reverse tunnel auth token'' (rc_auth_token cli)) (\<lambda>_.
     and_then (validate_identifier ''server name'' (rc_server_name cli) 253) (\<lambda>_.
     and_then (check (der_text_ok (rc_cert_der_b64 cli)) ''reverse tunnel certificate value is invalid'') (\<lambda>_.
     and_then (check (der_text_ok (rc_key_der_b64 cli)) ''reverse tunnel private key value is invalid'') (\<lambda>_.
     and_then (ok_or ''QUIC listen address is invalid'' (parse_socket_addr (rc_listen cli))) (\<lambda>quic_listen.
     and_then (check (is_loopback (socket_ip quic_listen) \<or> is_unspecified (socket_ip quic_listen)
                      \<or> \<not> is_multicast (socket_ip quic_listen)) ''QUIC listen address is invalid'') (\<lambda>_.
     and_then (ok_or ''TLS/TCP reserve backend address is invalid'' (parse_socket_addr (rc_tcp_listen cli))) (\<lambda>tcp_listen.
     and_then (check (is_loopback (socket_ip tcp_listen)) ''TLS/TCP reserve backend must bind to loopback behind the TLS terminator'') (\<lambda>_.
     and_then (parse_public_proxy_listens (rc_public_proxy_listen cli)) (\<lambda>public_proxy_listens.
     and_then (case rc_target_node_id cli of
                 None \<Rightarrow> Inr None
               | Some v \<Rightarrow> and_then (validate_identifier ''target node ID'' v 64) (\<lambda>_. Inr (Some v))) (\<lambda>target_node_id.
     Inr \<lparr>vc_quic_listen = quic_listen, vc_tcp_listen = tcp_listen, vc_public_proxy_listens = public_proxy_listens,
          vc_target_node_id = target_node_id\<rparr>)))))))))))"

definition listener_protocol :: "u16 \<Rightarrow> ProxyProtocol" where
  "listener_protocol port = (if port = 14081 then Socks5 else if port = 14128 then Http else Mixed)"

text \<open>The tasks of the server; \<open>binds\<close> says which addresses the system lets it bind.\<close>

datatype RelayTask =
    TcpServer SocketAddr ReverseTunnelServerConfig
  | QuicServer SocketAddr ReverseTunnelServerConfig
  | ReservedStreamKeepalives
  | ForwardListener SocketAddr "string option" ProxyProtocol

fun bind_all :: "(SocketAddr \<Rightarrow> bool) \<Rightarrow> SocketAddr list \<Rightarrow> string + unit" where
  "bind_all binds [] = Inr ()"
| "bind_all binds (a # as) = (if binds a then bind_all binds as else Inl ''bind'')"

definition relay_main :: "HostWorld \<Rightarrow> (SocketAddr \<Rightarrow> bool) \<Rightarrow> RelayCli \<Rightarrow> string + RelayTask list" where
  "relay_main w binds cli =
     and_then (validate_cli cli) (\<lambda>validated.
     and_then (decode_der_base64 w (rc_cert_der_b64 cli)) (\<lambda>cert.
     and_then (decode_der_base64 w (rc_key_der_b64 cli)) (\<lambda>key.
     and_then (bind_all binds (vc_public_proxy_listens validated)) (\<lambda>_.
     and_then (bind_all binds [vc_tcp_listen validated]) (\<lambda>_.
     Inr ([TcpServer (vc_tcp_listen validated) \<lparr>server_auth_token = rc_auth_token cli, server_transport = TransportTcp\<rparr>,
           QuicServer (vc_quic_listen validated)
             \<lparr>server_auth_token = rc_auth_token cli, server_transport = TransportHybrid (rc_server_name cli) cert (Some key)\<rparr>,
           ReservedStreamKeepalives]
          @ map (\<lambda>a. ForwardListener a (vc_target_node_id validated) (listener_protocol (socket_port a))) (vc_public_proxy_listens validated)))))))"

text \<open>The keepalive task: what the registry is when each tick is seen, until the server shuts down.\<close>

datatype KeepaliveEvent = KeepaliveTick others | ShutdownChanged

fun run_reserved_stream_keepalives :: "KeepaliveEvent list \<Rightarrow> ServerState \<Rightarrow> unit option \<times> ServerState" where
  "run_reserved_stream_keepalives [] s = (None, s)"
| "run_reserved_stream_keepalives (ShutdownChanged # _) s = (Some (), s)"
| "run_reserved_stream_keepalives (KeepaliveTick oth # es) s =
     run_reserved_stream_keepalives es (snd (keepalive_reserved_tcp_streams (oth s)))"

section \<open>The relay gate\<close>

record GateCli =
  gate_admin_token :: string
  gate_device_id :: string
  gate_upstream :: string

definition DEFAULT_RELAY_GATE_UPSTREAM :: string where "DEFAULT_RELAY_GATE_UPSTREAM = ''127.0.0.1:1080''"

definition is_device_ready :: "DeviceRecord \<Rightarrow> bool" where
  "is_device_ready device =
     (dev_serving device \<and> dev_readiness_state device = ''healthy'' \<and> dev_degradation_reason_code device = None)"

text \<open>An exchange with the control plane: no answer, or one; it reaches the state that answered it.\<close>

type_synonym 's exchange = "ApiRequest \<Rightarrow> 's \<Rightarrow> ApiResponse option \<times> 's"

definition decode_devices :: "ApiResponse \<Rightarrow> DeviceRecord list option" where
  "decode_devices response = (case body response of DevicesBody ds \<Rightarrow> Some ds | _ \<Rightarrow> None)"

definition evaluate_ready :: "'s exchange \<Rightarrow> (SocketAddr \<Rightarrow> bool) \<Rightarrow> GateCli \<Rightarrow> 's \<Rightarrow> bool \<times> 's" where
  "evaluate_ready exchange connects cli s =
     (case exchange ListDevices s of
        (None, s') \<Rightarrow> (False, s')
      | (Some response, s') \<Rightarrow>
          ((case decode_devices response of
              None \<Rightarrow> False
            | Some devices \<Rightarrow>
                devices \<noteq> []
                \<and> (case find (\<lambda>d. dev_node_id d = gate_device_id cli) devices of None \<Rightarrow> False | Some d \<Rightarrow> is_device_ready d)
                \<and> (case parse_socket_addr (gate_upstream cli) of None \<Rightarrow> False | Some upstream \<Rightarrow> connects upstream)), s'))"

definition gate_report :: "string \<Rightarrow> bool \<Rightarrow> PublicProbeReport" where
  "gate_report now ready =
     \<lparr>probe_publicly_serving = ready, probe_error = (if ready then None else Some ''backend probe failed''), probe_at = now\<rparr>"

definition report_ready :: "'s exchange \<Rightarrow> string \<Rightarrow> GateCli \<Rightarrow> bool \<Rightarrow> 's \<Rightarrow> 's" where
  "report_ready exchange now cli ready s = snd (exchange (PublicProbe (gate_device_id cli) (gate_report now ready)) s)"

text \<open>One round: others act on the control plane between the reading and the report.\<close>

record 's GateRound =
  round_read :: "'s exchange"
  round_connects :: "SocketAddr \<Rightarrow> bool"
  round_others :: "'s \<Rightarrow> 's"
  round_report :: "'s exchange"
  round_now :: string

definition gate_round :: "GateCli \<Rightarrow> 's GateRound \<Rightarrow> 's \<Rightarrow> 's" where
  "gate_round cli r s =
     (case evaluate_ready (round_read r) (round_connects r) cli s of
        (ready, s') \<Rightarrow> report_ready (round_report r) (round_now r) cli ready (round_others r s'))"

fun gate_main :: "bool \<Rightarrow> GateCli \<Rightarrow> 's GateRound list \<Rightarrow> 's \<Rightarrow> 's" where
  "gate_main once cli [] s = s"
| "gate_main once cli (r # rs) s = (if once then gate_round cli r s else gate_main once cli rs (gate_round cli r s))"

text \<open>
  The exchange with the control plane: the administration token in the header, which
  the server reads when every byte of it is visible.
\<close>

definition gate_headers :: "string \<Rightarrow> headers" where
  "gate_headers token name =
     (if name = ''authorization'' then Some (if list_all (\<lambda>c. in_range c 32 126) token then Some (''Bearer '' @ token) else None) else None)"

definition control_exchange :: "Hashing \<Rightarrow> 'db cas \<Rightarrow> AuthConfig \<Rightarrow> ApiEnv \<Rightarrow> GateCli \<Rightarrow> 'db AppState exchange" where
  "control_exchange H cas auth env cli request s =
     (case serve H cas auth env (gate_headers (gate_admin_token cli)) id request s of (response, s') \<Rightarrow> (Some response, s'))"

section \<open>Lemmas\<close>

lemma collect_listens_Inr:
  assumes "collect_listens vs parsed = Inr ls" "distinct parsed" "\<forall>a\<in>set parsed. is_loopback (socket_ip a)"
  shows "distinct ls \<and> (\<forall>a\<in>set ls. is_loopback (socket_ip a)) \<and> length ls = length parsed + length vs"
  using assms by (induction vs parsed rule: collect_listens.induct) (auto simp: and_then_Inr_iff split: if_splits)

lemma parse_listens_Inr:
  assumes "parse_public_proxy_listens raw = Inr ls"
  shows "distinct ls" "\<forall>a\<in>set ls. is_loopback (socket_ip a)" "ls \<noteq> []" "length ls \<le> 8"
proof -
  define vs where "vs = filter (\<lambda>v. v \<noteq> []) (map trim (split_on CHR '','' raw))"
  have "collect_listens vs [] = Inr ls" "vs \<noteq> []" "length vs \<le> 8"
    using assms by (auto simp: parse_public_proxy_listens_def Let_def vs_def [symmetric] MAX_PUBLIC_PROXY_LISTENERS_def split: if_splits)
  then show "distinct ls" "\<forall>a\<in>set ls. is_loopback (socket_ip a)" "ls \<noteq> []" "length ls \<le> 8"
    using collect_listens_Inr [of vs "[]" ls] by auto
qed

lemma bind_all_Inr: "bind_all binds as = Inr u \<longleftrightarrow> (\<forall>a\<in>set as. binds a)"
  by (induction as) auto

lemma keepalives_keep_invariant:
  "list_all (\<lambda>e. case e of KeepaliveTick oth \<Rightarrow> \<forall>t. server_inv t \<longrightarrow> server_inv (oth t) | ShutdownChanged \<Rightarrow> True) es \<Longrightarrow> server_inv s \<Longrightarrow>
     server_inv (snd (run_reserved_stream_keepalives es s))"
  using server_op_inv [where p = OpKeepalive] by (induction es s rule: run_reserved_stream_keepalives.induct) simp_all

text \<open>What the gate's requests do at the control plane.\<close>

lemma gate_authorized:
  assumes "cli_auth admin device ui rotation = Inr auth" "gate_admin_token cli = admin" "list_all (\<lambda>c. in_range c 32 126) admin"
  shows "authorized auth AdminRole (gate_headers (gate_admin_token cli))"
proof -
  have "validate_token ''control-plane admin token'' admin = Inr ()" "admin_token auth = admin"
    using assms(1) by (auto simp: cli_auth_def AuthConfig_new_def AuthConfig_new_with_rotation_def and_then_Inr_iff split: option.splits if_splits)
  then show ?thesis
    using assms(2,3) by (auto simp: authorized_def bearer_def gate_headers_def matches_def validate_token_def split: if_splits)
qed

lemma gate_context: "\<exists>c. context_from_headers env (gate_headers token) = Inr c"
  by (simp add: context_from_headers_def parse_header_def parse_deadline_def gate_headers_def Let_def)

lemma gate_lists:
  assumes "authorized auth AdminRole (gate_headers (gate_admin_token cli))"
  shows "\<exists>r. control_exchange H cas auth env cli ListDevices s = (Some r, s)
    \<and> decode_devices r = Some (map (\<lambda>(_, d). mark_stale (now_text env) d) (app_devices s))"
proof -
  obtain c where "context_from_headers env (gate_headers (gate_admin_token cli)) = Inr c" using gate_context by blast
  then show ?thesis
    using assms by (simp add: control_exchange_def serve_def attach_request_context_def list_devices_def reply_def decode_devices_def)
qed

lemma gate_reports:
  assumes "authorized auth AdminRole (gate_headers (gate_admin_token cli))"
  shows "snd (control_exchange H cas auth env cli (PublicProbe k r) s) = snd (public_probe_transaction cas (now_text env) k r s)"
proof -
  obtain c where "context_from_headers env (gate_headers (gate_admin_token cli)) = Inr c" using gate_context by blast
  then show ?thesis
    using assms by (simp add: control_exchange_def serve_def attach_request_context_def public_probe_def split: prod.split sum.split PublicProbeError.split)
qed

lemma mark_stale_node [simp]: "dev_node_id (mark_stale now d) = dev_node_id d"
  by (simp add: mark_stale_def split: option.split)

lemma find_listed:
  assumes "device_inv devices"
  shows "find (\<lambda>d. dev_node_id d = k) (map (\<lambda>(_, d). mark_stale now d) devices) = map_option (mark_stale now) (map_of devices k)"
proof -
  have dist: "distinct (map fst devices)" and keys: "\<forall>(i, d)\<in>set devices. dev_node_id d = i"
    using assms by (auto simp: device_inv_def)
  show ?thesis using keys by (induction devices) auto
qed

lemma probed_availability:
  "dev_availability (apply_public_probe now d r) = ''ready'' \<longleftrightarrow> ready_input (device_projection_input d True) \<and> probe_publicly_serving r"
proof -
  have "in_publicly_serving (device_projection_input d p) = p" for p by (simp add: device_projection_input_def)
  then show ?thesis
    by (simp add: apply_public_probe_def Let_def project_runtime_available ready_device_any [of d "probe_publicly_serving r"])
qed

lemma probe_stored:
  assumes "map_of (app_devices s) k = Some d" "dev_node_id d = k" "\<And>db x y. fst (cas db x y)"
  shows "map_of (app_devices (snd (public_probe_transaction cas now k r s))) k = Some (apply_public_probe now d r)"
proof -
  let ?devices = "AList.update k (apply_public_probe now d r) (app_devices s)"
  obtain db' where "persist_candidate cas (app_db s) (app_devices s) (app_commands s) ?devices (app_commands s) = (True, db')"
    using assms(3) unfolding persist_candidate_def by (metis (full_types) prod.collapse)
  then show ?thesis using assms(1,2) by (simp add: public_probe_transaction_def Let_def update_conv')
qed

section \<open>Properties\<close>

text \<open>
  A tunnel server that starts is reachable from outside over QUIC only: whatever
  its arguments, every proxy listener and the TCP backend bind loopback addresses,
  there are between one and eight distinct proxy listeners, and both servers ask
  phones for the same token of at least sixteen characters.
\<close>

theorem relay_listens_on_loopback:
  assumes "relay_main w binds cli = Inr tasks"
  shows "(\<forall>a node p. ForwardListener a node p \<in> set tasks \<longrightarrow> is_loopback (socket_ip a) \<and> binds a \<and> p = listener_protocol (socket_port a)
            \<and> node = rc_target_node_id cli)
      \<and> (\<forall>a c. TcpServer a c \<in> set tasks \<longrightarrow> is_loopback (socket_ip a) \<and> server_auth_token c = rc_auth_token cli)
      \<and> (\<forall>a c. QuicServer a c \<in> set tasks \<longrightarrow> server_auth_token c = rc_auth_token cli)
      \<and> 16 \<le> length (rc_auth_token cli) \<and> distinct tasks \<and> length tasks \<in> {4..11}"
proof -
  from assms obtain v cert key where v: "validate_cli cli = Inr v" "bind_all binds (vc_public_proxy_listens v) = Inr ()"
    and tasks: "tasks = [TcpServer (vc_tcp_listen v) \<lparr>server_auth_token = rc_auth_token cli, server_transport = TransportTcp\<rparr>,
        QuicServer (vc_quic_listen v) \<lparr>server_auth_token = rc_auth_token cli, server_transport = TransportHybrid (rc_server_name cli) cert (Some key)\<rparr>,
        ReservedStreamKeepalives]
        @ map (\<lambda>a. ForwardListener a (vc_target_node_id v) (listener_protocol (socket_port a))) (vc_public_proxy_listens v)"
    by (auto simp: relay_main_def and_then_Inr_iff)
  from v(1) have c: "is_loopback (socket_ip (vc_tcp_listen v))" "parse_public_proxy_listens (rc_public_proxy_listen cli) = Inr (vc_public_proxy_listens v)"
      "16 \<le> length (rc_auth_token cli)" "vc_target_node_id v = rc_target_node_id cli"
    by (auto simp: validate_cli_def and_then_Inr_iff validate_secret_def split: option.splits)
  note l = parse_listens_Inr [OF c(2)]
  have b: "\<forall>a\<in>set (vc_public_proxy_listens v). binds a" using v(2) by (simp add: bind_all_Inr)
  have "distinct tasks" unfolding tasks using l(1) by (auto simp: distinct_map inj_on_def)
  moreover have "length tasks \<in> {4..11}" unfolding tasks using l(3,4) by (cases "vc_public_proxy_listens v") auto
  ultimately show ?thesis using c l(2) b by (auto simp: tasks)
qed

text \<open>
  C12: The relay gate decides availability: after a round in which the control plane
  answers and stores, the device is available exactly when the record the gate read
  was fresh, healthy and serving, the public listener took a connection, and the
  device is still ready when the report arrives, whatever other requests did in
  between.
\<close>

theorem relay_gate_decides_availability:
  assumes auth: "cli_auth admin device ui rotation = Inr auth" "gate_admin_token cli = admin" "list_all (\<lambda>c. in_range c 32 126) admin"
    and run: "hex_text H" "control_run H cas (control_start db) ops s" "control_run H cas s later (others s)"
    and known: "map_of (app_devices s) (gate_device_id cli) = Some d" "map_of (app_devices (others s)) (gate_device_id cli) = Some d'"
    and stored: "\<And>db x y. fst (cas db x y)"
  shows "\<exists>d''. map_of (app_devices (gate_round cli \<lparr>round_read = control_exchange H cas auth env cli, round_connects = connects,
        round_others = others, round_report = control_exchange H cas auth env' cli, round_now = now\<rparr> s)) (gate_device_id cli) = Some d''
      \<and> (dev_availability d'' = ''ready'' \<longleftrightarrow>
           is_device_ready (mark_stale (now_text env) d) \<and> (\<exists>a. parse_socket_addr (gate_upstream cli) = Some a \<and> connects a)
           \<and> ready_input (device_projection_input d' True))"
proof -
  let ?id = "gate_device_id cli" and ?up = "case parse_socket_addr (gate_upstream cli) of None \<Rightarrow> False | Some a \<Rightarrow> connects a"
  note admin = gate_authorized [OF auth]
  have inv: "control_inv H s" "control_inv H (others s)"
    using control_run_inv [OF run(1,2) control_start_inv] control_run_inv [OF run(1,3)] by auto
  then have dev: "device_inv (app_devices s)" "device_inv (app_devices (others s))" by (simp_all add: control_inv_def)
  obtain r where r: "control_exchange H cas auth env cli ListDevices s = (Some r, s)"
      "decode_devices r = Some (map (\<lambda>(_, d). mark_stale (now_text env) d) (app_devices s))"
    using gate_lists [OF admin] by blast
  let ?ready = "is_device_ready (mark_stale (now_text env) d) \<and> ?up"
  have ev: "evaluate_ready (control_exchange H cas auth env cli) connects cli s = (?ready, s)"
    using r known(1) find_listed [OF dev(1), of ?id "now_text env"] by (auto simp: evaluate_ready_def)
  have node: "dev_node_id d' = ?id" using dev(2) known(2) by (simp add: device_inv_def)
  let ?p = "gate_report now ?ready"
  have round: "gate_round cli \<lparr>round_read = control_exchange H cas auth env cli, round_connects = connects,
        round_others = others, round_report = control_exchange H cas auth env' cli, round_now = now\<rparr> s
      = snd (public_probe_transaction cas (now_text env') ?id ?p (others s))"
    by (simp only: gate_round_def report_ready_def ev gate_reports [OF admin] GateRound.select_convs prod.case)
  have available: "dev_availability (apply_public_probe (now_text env') d' ?p) = ''ready'' \<longleftrightarrow> ready_input (device_projection_input d' True) \<and> ?ready"
    by (simp add: probed_availability gate_report_def)
  have up: "?up \<longleftrightarrow> (\<exists>a. parse_socket_addr (gate_upstream cli) = Some a \<and> connects a)" by (simp split: option.split)
  show ?thesis
    unfolding round probe_stored [OF known(2) node stored] up [symmetric]
    using available by (intro exI [of _ "apply_public_probe (now_text env') d' ?p"]) argo
qed

definition sample_relay_cli :: RelayCli where
  "sample_relay_cli = \<lparr>rc_listen = ''0.0.0.0:18090'', rc_transport = ''hybrid'', rc_tcp_listen = ''127.0.0.1:18091'',
     rc_public_proxy_listen = ''127.0.0.1:14080,127.0.0.1:14081'', rc_target_node_id = None, rc_auth_token = ''relay-token-0001'',
     rc_server_name = ''relay'', rc_cert_der_b64 = ''MAAwMAAwMAAwMAAw'', rc_key_der_b64 = ''MAAwMAAwMAAwMAAx''\<rparr>"

lemma sample_relay_starts: "\<exists>tasks. relay_main sample_host_world (\<lambda>_. True) sample_relay_cli = Inr tasks"
proof -
  have addresses: "parse_socket_addr ''0.0.0.0:18090'' = Some (SocketV4 0 18090)" "parse_socket_addr ''127.0.0.1:18091'' = Some (SocketV4 0x7F000001 18091)"
    "parse_socket_addr ''127.0.0.1:14080'' = Some (SocketV4 0x7F000001 14080)" "parse_socket_addr ''127.0.0.1:14081'' = Some (SocketV4 0x7F000001 14081)"
    by (simp_all add: socket_readers)
  have "\<exists>v. parse_public_proxy_listens ''127.0.0.1:14080,127.0.0.1:14081'' = Inr v"
    by (simp add: parse_public_proxy_listens_def addresses trim_def leading_whitespace_def byte_at_def MAX_PUBLIC_PROXY_LISTENERS_def)
  then have "\<exists>v. validate_cli sample_relay_cli = Inr v"
    by (auto simp: validate_cli_def sample_relay_cli_def addresses der_text_ok_def config_checks)
  moreover have "decode_der_base64 sample_host_world t = Inr []" for t by (simp add: decode_der_base64_def sample_host_world_def)
  moreover have "bind_all (\<lambda>_. True) as = Inr ()" for as by (simp add: bind_all_Inr)
  ultimately show ?thesis by (auto simp: relay_main_def)
qed

theorem relay_listens_on_loopback_witness:
  "\<exists>tasks. relay_main sample_host_world (\<lambda>_. True) sample_relay_cli = Inr tasks
     \<and> (\<forall>a node p. ForwardListener a node p \<in> set tasks \<longrightarrow> is_loopback (socket_ip a)) \<and> length tasks \<in> {4..11}"
  using sample_relay_starts relay_listens_on_loopback [where w = sample_host_world and binds = "\<lambda>_. True" and cli = sample_relay_cli] by blast

definition sample_gate_cli :: GateCli where
  "sample_gate_cli = \<lparr>gate_admin_token = ''admin-token'', gate_device_id = ''d'', gate_upstream = DEFAULT_RELAY_GATE_UPSTREAM\<rparr>"

theorem relay_gate_decides_availability_witness:
  "\<exists>d''. map_of (app_devices (gate_round sample_gate_cli
        \<lparr>round_read = control_exchange sample_hashing accept_all sample_auth sample_env sample_gate_cli, round_connects = (\<lambda>_. True),
         round_others = id, round_report = control_exchange sample_hashing accept_all sample_auth sample_env sample_gate_cli,
         round_now = ''96''\<rparr> sample_ready_state)) ''d'' = Some d''
      \<and> (dev_availability d'' = ''ready'' \<longleftrightarrow>
           is_device_ready (mark_stale (now_text sample_env) sample_device)
           \<and> (\<exists>a. parse_socket_addr (gate_upstream sample_gate_cli) = Some a)
           \<and> ready_input (device_projection_input sample_device True))"
proof -
  have cli: "gate_admin_token sample_gate_cli = ''admin-token''" "gate_device_id sample_gate_cli = ''d''"
    by (simp_all add: sample_gate_cli_def)
  have visible: "list_all (\<lambda>c. in_range c 32 126) ''admin-token''" by (simp add: in_range_def)
  have known: "map_of (app_devices sample_ready_state) (gate_device_id sample_gate_cli) = Some sample_device"
    by (simp add: sample_ready_state_def cli)
  have stays: "control_run sample_hashing accept_all sample_ready_state [] (id sample_ready_state)" by (simp add: run_refl)
  show ?thesis
    using relay_gate_decides_availability [where others = id and later = "[]" and d' = sample_device and env = sample_env
        and env' = sample_env and connects = "\<lambda>_. True" and now = "''96''",
        OF sample_cli_auth cli(1) visible sample_hex_text sample_ready_run stays known] known by (simp add: cli accept_all_def)
qed

end
