(* ===== verification/Legacy_Import.thy ===== *)
theory Legacy_Import
  imports Durability Config_Fingerprint
begin

text \<open>
  Model of moving the control plane's state between its JSON file and its database:
  \<open>crates/control-plane-sqlite/src/legacy_json_import.rs\<close> (reading and normalising the
  file, importing it), \<open>replace_snapshot\<close> of \<open>snapshot_store.rs\<close>, and the commands of
  \<open>services/control-plane/src/bin/control-plane-state-migrate.rs\<close>.  JSON text is the
  parameter \<open>StateJson\<close>; a hash map is a list of its entries in the order in which it
  is iterated.
\<close>

section \<open>Reports and errors\<close>

record StateJson =
  sj_parse :: "bytes \<Rightarrow> Json option"
  sj_decode :: "Json \<Rightarrow> StoredState option"
  sj_print :: "StoredState \<Rightarrow> bytes option"
  sj_document :: "SnapshotRows \<Rightarrow> bytes option"

datatype LegacyJsonImportOutcome = Imported | AlreadyImported

record LegacyJsonMigrationStats =
  legacy_config_fingerprints :: nat
  legacy_binary_fingerprints :: nat
  recovered_command_results :: nat
  recovered_legacy_claims :: nat
  canonicalized_result_keys :: nat
  removed_canonical_claim_keys :: nat
  rebuilt_result_order :: bool
  evicted_command_results :: nat

definition no_stats :: LegacyJsonMigrationStats where
  "no_stats = \<lparr>legacy_config_fingerprints = 0, legacy_binary_fingerprints = 0, recovered_command_results = 0,
     recovered_legacy_claims = 0, canonicalized_result_keys = 0, removed_canonical_claim_keys = 0,
     rebuilt_result_order = False, evicted_command_results = 0\<rparr>"

record LegacyJsonImportReport =
  report_outcome :: LegacyJsonImportOutcome
  report_devices :: nat
  report_pending_commands :: nat
  report_replay_records :: nat
  report_migration :: LegacyJsonMigrationStats

datatype LegacyJsonViolation =
    FingerprintFieldShape | ConflictingCommandResult | ConflictingLegacyClaim | OrphanLegacyClaim
  | LegacyReplayCapacity | ReplayOrderInconsistent

datatype LegacyJsonImportError =
    ImportJson
  | ImportFingerprint string FingerprintInputError
  | ImportViolation LegacyJsonViolation
  | ImportSnapshot SnapshotViolation
  | ImportSnapshotJson
  | ImportStore SnapshotStoreError
  | TargetContainsDifferentState
  | ImportParityMismatch

section \<open>Fingerprints of the devices\<close>

definition classify_fingerprint ::
  "Hashing \<Rightarrow> Json option \<Rightarrow> string \<Rightarrow> nat \<Rightarrow> LegacyJsonImportError + nat" where
  "classify_fingerprint H value field counter =
     (case value of
        None \<Rightarrow> Inr counter
      | Some JNull \<Rightarrow> Inr counter
      | Some v \<Rightarrow>
          and_then (ok_or (ImportViolation FingerprintFieldShape) (json_as_str v)) (\<lambda>raw.
          and_then (map_err (ImportFingerprint field) (FingerprintInput_parse H raw)) (\<lambda>parsed.
          Inr (if is_legacy parsed then Suc counter else counter))))"

definition device_stats ::
  "Hashing \<Rightarrow> string \<times> Json \<Rightarrow> LegacyJsonMigrationStats \<Rightarrow> LegacyJsonImportError + LegacyJsonMigrationStats" where
  "device_stats H entry stats =
     (case snd entry of
        JObject members \<Rightarrow>
          and_then (classify_fingerprint H (map_of members ''config_fingerprint'') ''config_fingerprint''
                      (legacy_config_fingerprints stats)) (\<lambda>configs.
          and_then (classify_fingerprint H (map_of members ''binary_fingerprint'') ''binary_fingerprint''
                      (legacy_binary_fingerprints stats)) (\<lambda>binaries.
          Inr (stats\<lparr>legacy_config_fingerprints := configs, legacy_binary_fingerprints := binaries\<rparr>)))
      | _ \<Rightarrow> Inr stats)"

definition fingerprint_stats :: "Hashing \<Rightarrow> Json \<Rightarrow> LegacyJsonImportError + LegacyJsonMigrationStats" where
  "fingerprint_stats H raw =
     (case json_get ''devices'' raw of
        Some (JObject devices) \<Rightarrow> fold_result (device_stats H) devices no_stats
      | _ \<Rightarrow> Inr no_stats)"

section \<open>Normalising the commands\<close>

type_synonym importing = "CommandState \<times> LegacyJsonMigrationStats"

abbreviation refuse :: "LegacyJsonViolation \<Rightarrow> LegacyJsonImportError + 'a" where
  "refuse v \<equiv> Inl (ImportViolation v)"

definition import_result_key ::
  "Hashing \<Rightarrow> string \<times> DeviceCommand \<Rightarrow> importing \<Rightarrow> LegacyJsonImportError + importing" where
  "import_result_key H entry st =
     (case (entry, st) of ((stored_key, command), (commands, stats)) \<Rightarrow>
      let canonical = canonical_scope H command in
      if stored_key = canonical then Inr (commands, stats)
      else
        let results = AList.delete stored_key (idempotency_results commands) in
        (case map_of results canonical of
           Some existing \<Rightarrow>
             if existing \<noteq> command then refuse ConflictingCommandResult
             else Inr (commands\<lparr>idempotency_results := AList.update canonical command results\<rparr>,
                       stats\<lparr>canonicalized_result_keys := canonicalized_result_keys stats + 1\<rparr>)
         | None \<Rightarrow> Inr (commands\<lparr>idempotency_results := AList.update canonical command results\<rparr>,
                       stats\<lparr>canonicalized_result_keys := canonicalized_result_keys stats + 1\<rparr>)))"

definition ensure_legacy_claim :: "DeviceCommand \<Rightarrow> importing \<Rightarrow> LegacyJsonImportError + importing" where
  "ensure_legacy_claim command st =
     (case st of (commands, stats) \<Rightarrow>
      let legacy = legacy_scope_for_command command in
      (case map_of (idempotency commands) legacy of
         Some existing \<Rightarrow> if existing \<noteq> cmd_command_id command then refuse ConflictingLegacyClaim else Inr (commands, stats)
       | None \<Rightarrow> Inr (commands\<lparr>idempotency := AList.update legacy (cmd_command_id command) (idempotency commands)\<rparr>,
                     stats\<lparr>recovered_legacy_claims := recovered_legacy_claims stats + 1\<rparr>)))"

definition import_queued ::
  "Hashing \<Rightarrow> string \<times> DeviceCommand \<Rightarrow> importing \<Rightarrow> LegacyJsonImportError + importing" where
  "import_queued H entry st =
     (case (entry, st) of ((device_id, command), (commands, stats)) \<Rightarrow>
      if cmd_device_id command \<noteq> device_id then Inl (ImportSnapshot PendingDeviceMismatch)
      else
        let canonical = canonical_scope H command in
        (case map_of (idempotency_results commands) canonical of
           Some existing \<Rightarrow>
             if existing \<noteq> command then refuse ConflictingCommandResult
             else ensure_legacy_claim command (commands, stats)
         | None \<Rightarrow> ensure_legacy_claim command
             (commands\<lparr>idempotency_results := AList.update canonical command (idempotency_results commands)\<rparr>,
              stats\<lparr>recovered_command_results := recovered_command_results stats + 1\<rparr>)))"

definition import_claims ::
  "string \<times> DeviceCommand \<Rightarrow> importing \<Rightarrow> LegacyJsonImportError + importing" where
  "import_claims entry st =
     (case entry of (canonical, command) \<Rightarrow>
      and_then (ensure_legacy_claim command st) (\<lambda>(commands, stats).
      if canonical = legacy_scope_for_command command then Inr (commands, stats)
      else
        (case map_of (idempotency commands) canonical of
           None \<Rightarrow> Inr (commands, stats)
         | Some existing \<Rightarrow>
             if existing \<noteq> cmd_command_id command then refuse ConflictingLegacyClaim
             else Inr (commands\<lparr>idempotency := AList.delete canonical (idempotency commands)\<rparr>,
                       stats\<lparr>removed_canonical_claim_keys := removed_canonical_claim_keys stats + 1\<rparr>))))"

definition import_order :: "importing \<Rightarrow> importing" where
  "import_order st =
     (case st of (commands, stats) \<Rightarrow>
      let original = idempotency_order commands;
          normalized = keep_known (idempotency_results commands) original [];
          missing = sort (filter (\<lambda>key. key \<notin> set normalized) (map fst (idempotency_results commands))) in
      (commands\<lparr>idempotency_order := normalized @ missing\<rparr>,
       stats\<lparr>rebuilt_result_order := (normalized @ missing \<noteq> original)\<rparr>))"

definition import_evictable :: "CommandState \<Rightarrow> string \<Rightarrow> bool" where
  "import_evictable commands key =
     (case map_of (idempotency_results commands) key of
        Some command \<Rightarrow> \<not> command_is_pending commands (cmd_command_id command)
      | None \<Rightarrow> False)"

function trim_results :: "importing \<Rightarrow> LegacyJsonImportError + importing" where
  "trim_results (commands, stats) =
     (if length (idempotency_order commands) > MAX_IDEMPOTENCY_RESULTS then
        (case find_position (import_evictable commands) (idempotency_order commands) of
           None \<Rightarrow> refuse LegacyReplayCapacity
         | Some position \<Rightarrow>
             let key = idempotency_order commands ! position;
                 kept = commands\<lparr>idempotency_order := remove_at position (idempotency_order commands)\<rparr> in
             (case map_of (idempotency_results commands) key of
                None \<Rightarrow> refuse ReplayOrderInconsistent
              | Some command \<Rightarrow>
                  trim_results
                    (remove_claim key (cmd_command_id command)
                      (remove_claim (legacy_scope_for_command command) (cmd_command_id command)
                        (kept\<lparr>idempotency_results := AList.delete key (idempotency_results kept)\<rparr>)),
                     stats\<lparr>evicted_command_results := evicted_command_results stats + 1\<rparr>)))
      else Inr (commands, stats))"
  by pat_completeness auto
termination
  by (relation "measure (\<lambda>(commands, _). length (idempotency_order commands))")
    (auto dest: find_position_less simp: remove_at_def remove_claim_def)

declare trim_results.simps [simp del]

definition expect_claim ::
  "string \<times> DeviceCommand \<Rightarrow> (string \<times> CommandId) list \<Rightarrow> LegacyJsonImportError + (string \<times> CommandId) list" where
  "expect_claim entry expected =
     (let key = legacy_scope_for_command (snd entry); command_id = cmd_command_id (snd entry) in
      case map_of expected key of
        Some existing \<Rightarrow>
          if existing \<noteq> command_id then refuse ConflictingLegacyClaim
          else Inr (AList.update key command_id expected)
      | None \<Rightarrow> Inr (AList.update key command_id expected))"

definition validate_import_claims :: "CommandState \<Rightarrow> LegacyJsonImportError + unit" where
  "validate_import_claims commands =
     and_then (fold_result expect_claim (idempotency_results commands) []) (\<lambda>expected.
     if length (idempotency commands) \<noteq> length expected then refuse OrphanLegacyClaim
     else if \<not> list_all (\<lambda>(key, command_id). map_of expected key = Some command_id) (idempotency commands)
     then refuse OrphanLegacyClaim
     else Inr ())"

definition queued_entries :: "CommandState \<Rightarrow> (string \<times> DeviceCommand) list" where
  "queued_entries commands = concat (map (\<lambda>(device_id, queue). map (Pair device_id) queue) (queues commands))"

definition normalize_commands ::
  "Hashing \<Rightarrow> CommandState \<Rightarrow> LegacyJsonMigrationStats \<Rightarrow> LegacyJsonImportError + importing" where
  "normalize_commands H commands stats =
     and_then (fold_result (import_result_key H) (idempotency_results commands) (commands, stats)) (\<lambda>st1.
     and_then (fold_result (import_queued H) (queued_entries (fst st1)) st1) (\<lambda>st2.
     and_then (fold_result import_claims (idempotency_results (fst st2)) st2) (\<lambda>st3.
     and_then (trim_results (import_order st3)) (\<lambda>st5.
     and_then (validate_import_claims (fst st5)) (\<lambda>_. Inr st5)))))"

section \<open>Reading the file\<close>

fun take_replays ::
  "Hashing \<Rightarrow> string list \<Rightarrow> (string \<times> DeviceCommand) list \<Rightarrow> LegacyJsonImportError + ReplayRecord list" where
  "take_replays H [] results = (if results \<noteq> [] then refuse ReplayOrderInconsistent else Inr [])"
| "take_replays H (scope # order) results =
     (case map_of results scope of
        None \<Rightarrow> refuse ReplayOrderInconsistent
      | Some command \<Rightarrow>
          and_then (take_replays H order (AList.delete scope results)) (\<lambda>replays.
          Inr (ReplayRecord_from_command H command # replays)))"

definition parse_legacy_json ::
  "Hashing \<Rightarrow> Codec \<Rightarrow> StateJson \<Rightarrow> bytes \<Rightarrow> LegacyJsonImportError + ControlPlaneSnapshot \<times> LegacyJsonMigrationStats" where
  "parse_legacy_json H T J body =
     and_then (ok_or ImportJson (sj_parse J body)) (\<lambda>raw.
     and_then (fingerprint_stats H raw) (\<lambda>stats.
     and_then (ok_or ImportJson (sj_decode J raw)) (\<lambda>stored.
     and_then (normalize_commands H (stored_commands stored) stats) (\<lambda>(commands, migration).
     and_then (take_replays H (idempotency_order commands) (idempotency_results commands)) (\<lambda>replay_records.
     and_then (map_err ImportSnapshot
        (snapshot_from_parts H T (bt_of_list (stored_devices stored)) (bt_of_list (queues commands)) replay_records)) (\<lambda>snapshot.
     Inr (snapshot, migration)))))))"

section \<open>The database\<close>

definition sql_insert_device :: "Codec \<Rightarrow> string \<Rightarrow> string \<Rightarrow> statement" where
  "sql_insert_device T node_id record_json t =
     (if node_id = [] \<or> \<not> json_valid T record_json then Inl CheckFailed
      else if map_of (rel_devices t) node_id \<noteq> None then Inl PrimaryKeyViolation
      else Inr (t\<lparr>rel_devices := bt_insert node_id record_json (rel_devices t)\<rparr>))"

definition insert_device_row :: "Codec \<Rightarrow> DeviceRow \<Rightarrow> statement" where
  "insert_device_row T r = sql_insert_device T (row_node_id r) (encode_device T (row_record r))"

definition insert_result_row :: "Hashing \<Rightarrow> Codec \<Rightarrow> CommandResultRow \<Rightarrow> statement" where
  "insert_result_row H T r =
     sql_insert_result T (ContentDigest_display (to_hex_fn H) (result_scope_key r)) (cid_text T (result_command_id r))
       (encode_command T (result_command r))"

definition insert_claim_row :: "Hashing \<Rightarrow> Codec \<Rightarrow> IdempotencyClaimRow \<Rightarrow> statement" where
  "insert_claim_row H T r =
     sql_insert_claim (ContentDigest_display (to_hex_fn H) (claim_scope_key r)) (cid_text T (claim_command_id r))
       (ContentDigest_display (to_hex_fn H) (claim_request_fingerprint r))"

definition insert_pending_row :: "Codec \<Rightarrow> PendingCommandRow \<Rightarrow> statement" where
  "insert_pending_row T r =
     sql_insert_pending T (cid_text T (pending_command_id r)) (pending_device_id r) (uint (pending_queue_position r))
       (encode_command T (pending_command r))"

text \<open>
  The four deletions empty the tables: pending commands and claims go before the
  results they refer to.
\<close>

definition replace_rows :: "Hashing \<Rightarrow> Codec \<Rightarrow> SnapshotRows \<Rightarrow> RelationalState \<Rightarrow> SqlError + RelationalState" where
  "replace_rows H T rows t =
     and_then (fold_result (insert_device_row T) (rows_devices rows)
       (t\<lparr>rel_pending := [], rel_claims := [], rel_results := [], rel_devices := []\<rparr>)) (\<lambda>t1.
     and_then (fold_result (insert_result_row H T) (rows_command_results rows) t1) (\<lambda>t2.
     and_then (fold_result (insert_claim_row H T) (rows_idempotency_claims rows) t2) (\<lambda>t3.
     fold_result (insert_pending_row T) (rows_pending_commands rows) t3)))"

definition replace_snapshot ::
  "SqlEnv \<Rightarrow> Hashing \<Rightarrow> Codec \<Rightarrow> ControlPlaneSnapshot \<Rightarrow> RelationalState \<Rightarrow> SnapshotStoreError + RelationalState" where
  "replace_snapshot env H T snapshot t =
     and_then (map_err StoreViolation (snapshot_validate H T snapshot)) (\<lambda>_.
     if \<not> env_begin_ok env \<or> \<not> env_write_ok env then Inl StoreDatabase
     else
       and_then (map_err (\<lambda>_. StoreDatabase) (replace_rows H T (snapshot_rows snapshot) t)) (\<lambda>t'.
       if \<not> env_commit_ok env then Inl StoreDatabase else Inr t'))"

definition to_canonical_json :: "StateJson \<Rightarrow> ControlPlaneSnapshot \<Rightarrow> LegacyJsonImportError + bytes" where
  "to_canonical_json J snapshot = ok_or ImportSnapshotJson (sj_document J (snapshot_rows snapshot))"

definition snapshot_is_empty :: "ControlPlaneSnapshot \<Rightarrow> bool" where
  "snapshot_is_empty snapshot = (snap_devices snapshot = [] \<and> snap_queues snapshot = [] \<and> snap_replay_records snapshot = [])"

definition pending_in :: "ControlPlaneSnapshot \<Rightarrow> nat" where
  "pending_in snapshot = sum_list (map (length \<circ> snd) (snap_queues snapshot))"

text \<open>Every transaction of a store meets the next state of its environment.\<close>

definition db_load :: "Hashing \<Rightarrow> Codec \<Rightarrow> SqliteDb \<Rightarrow> (SnapshotStoreError + ControlPlaneSnapshot) \<times> SqliteDb" where
  "db_load H T db = (load_snapshot (next_env db) H T (db_tables db), db\<lparr>db_env := tl (db_env db)\<rparr>)"

definition db_replace :: "Hashing \<Rightarrow> Codec \<Rightarrow> ControlPlaneSnapshot \<Rightarrow> SqliteDb \<Rightarrow> (SnapshotStoreError + unit) \<times> SqliteDb" where
  "db_replace H T snapshot db =
     (case replace_snapshot (next_env db) H T snapshot (db_tables db) of
        Inl e \<Rightarrow> (Inl e, db\<lparr>db_env := tl (db_env db)\<rparr>)
      | Inr t \<Rightarrow> (Inr (), db\<lparr>db_tables := t, db_env := tl (db_env db)\<rparr>))"

text \<open>The part of the import that writes.\<close>

definition import_write ::
  "Hashing \<Rightarrow> Codec \<Rightarrow> StateJson \<Rightarrow> ControlPlaneSnapshot \<Rightarrow> bytes \<Rightarrow> SqliteDb
     \<Rightarrow> (LegacyJsonImportError + LegacyJsonImportOutcome) \<times> SqliteDb" where
  "import_write H T J snapshot expected db =
     (case db_replace H T snapshot db of
        (Inl e, db1) \<Rightarrow> (Inl (ImportStore e), db1)
      | (Inr _, db1) \<Rightarrow>
          (case db_load H T db1 of
             (Inl e, db2) \<Rightarrow> (Inl (ImportStore e), db2)
           | (Inr rehydrated, db2) \<Rightarrow>
               (and_then (to_canonical_json J rehydrated) (\<lambda>actual.
                if actual \<noteq> expected then Inl ImportParityMismatch else Inr Imported), db2)))"

definition import_legacy_json ::
  "Hashing \<Rightarrow> Codec \<Rightarrow> StateJson \<Rightarrow> bytes \<Rightarrow> SqliteDb \<Rightarrow> (LegacyJsonImportError + LegacyJsonImportReport) \<times> SqliteDb" where
  "import_legacy_json H T J body db =
     (case and_then (parse_legacy_json H T J body) (\<lambda>(snapshot, migration).
           and_then (to_canonical_json J snapshot) (\<lambda>expected. Inr (snapshot, migration, expected))) of
        Inl e \<Rightarrow> (Inl e, db)
      | Inr (snapshot, migration, expected) \<Rightarrow>
          (case db_load H T db of
             (Inl e, db1) \<Rightarrow> (Inl (ImportStore e), db1)
           | (Inr existing, db1) \<Rightarrow>
               (case to_canonical_json J existing of
                  Inl e \<Rightarrow> (Inl e, db1)
                | Inr existing_canonical \<Rightarrow>
                    (case (if existing_canonical = expected then (Inr AlreadyImported, db1)
                           else if \<not> snapshot_is_empty existing then (Inl TargetContainsDifferentState, db1)
                           else import_write H T J snapshot expected db1) of
                       (Inl e, db2) \<Rightarrow> (Inl e, db2)
                     | (Inr outcome, db2) \<Rightarrow>
                         (Inr \<lparr>report_outcome = outcome, report_devices = length (snap_devices snapshot),
                               report_pending_commands = pending_in snapshot,
                               report_replay_records = length (snap_replay_records snapshot),
                               report_migration = migration\<rparr>, db2)))))"

section \<open>Commands\<close>

datatype WriteStep = CreateDirectory | OpenTemporary | WriteBody | SyncFile | RenameFile | SyncParent

datatype MigrateError =
    PathUnavailable | PathsNotDistinct | LegacyUnreadable | PreWriteValidation LegacyJsonImportError | StoreNotOpened
  | ImportFailed LegacyJsonImportError | RehydrateFailed SnapshotStoreError | DocumentNotSerialized | SourceMissing
  | RollbackUnrepresentable | ExportNotWritten WriteStep

record ExportFile =
  exported :: "bytes option"
  temporary :: "bytes option"

text \<open>The absolute forms of the paths, where the system gives one.\<close>

definition ensure_distinct :: "string option list \<Rightarrow> MigrateError + unit" where
  "ensure_distinct paths =
     (if None \<in> set paths then Inl PathUnavailable
      else if \<not> distinct paths then Inl PathsNotDistinct
      else Inr ())"

text \<open>
  Publishing an export.  At most one step fails; a write that fails has written some of
  the bytes.
\<close>

definition publish_export :: "(WriteStep \<times> nat) option \<Rightarrow> bytes \<Rightarrow> ExportFile \<Rightarrow> (MigrateError + unit) \<times> ExportFile" where
  "publish_export failure body f =
     (case failure of
        None \<Rightarrow> (Inr (), f\<lparr>exported := Some body, temporary := None\<rparr>)
      | Some (step, written) \<Rightarrow>
          (Inl (ExportNotWritten step),
           case step of
             CreateDirectory \<Rightarrow> f
           | OpenTemporary \<Rightarrow> f
           | WriteBody \<Rightarrow> f\<lparr>temporary := Some (take written body)\<rparr>
           | SyncFile \<Rightarrow> f\<lparr>temporary := Some body\<rparr>
           | RenameFile \<Rightarrow> f\<lparr>temporary := Some body\<rparr>
           | SyncParent \<Rightarrow> f\<lparr>exported := Some body, temporary := None\<rparr>))"

definition json_backend_replay :: "Hashing \<Rightarrow> ReplayRecord \<Rightarrow> CommandState \<Rightarrow> MigrateError + CommandState" where
  "json_backend_replay H replay commands =
     (let scope = ContentDigest_display (to_hex_fn H) (replay_scope_key replay); command = replay_command replay;
          legacy = legacy_scope_for_command command in
      if map_of (idempotency commands) legacy \<noteq> None \<or> map_of (idempotency_results commands) scope \<noteq> None
      then Inl RollbackUnrepresentable
      else Inr (commands\<lparr>idempotency := bt_insert legacy (cmd_command_id command) (idempotency commands),
                         idempotency_results := bt_insert scope command (idempotency_results commands),
                         idempotency_order := idempotency_order commands @ [scope]\<rparr>))"

definition json_backend_state :: "Hashing \<Rightarrow> ControlPlaneSnapshot \<Rightarrow> MigrateError + StoredState" where
  "json_backend_state H snapshot =
     and_then (fold_result (json_backend_replay H) (snap_replay_records snapshot)
                 (CommandState_default\<lparr>queues := snap_queues snapshot\<rparr>)) (\<lambda>commands.
     Inr \<lparr>stored_devices = snap_devices snapshot, stored_commands = commands\<rparr>)"

definition serialize_json_backend :: "Hashing \<Rightarrow> StateJson \<Rightarrow> ControlPlaneSnapshot \<Rightarrow> MigrateError + bytes" where
  "serialize_json_backend H J snapshot =
     and_then (json_backend_state H snapshot) (\<lambda>state. ok_or DocumentNotSerialized (sj_print J state))"

text \<open>What the system says of the paths and files of a command, and whether the store opens.\<close>

record MigrateInputs =
  mi_paths :: "string option list"
  mi_legacy_text :: "bytes option"
  mi_is_file :: bool
  mi_opened :: bool
  mi_write_failure :: "(WriteStep \<times> nat) option"

type_synonym migrate_world = "SqliteDb \<times> ExportFile"

definition import_checks :: "Hashing \<Rightarrow> Codec \<Rightarrow> StateJson \<Rightarrow> MigrateInputs \<Rightarrow> MigrateError + bytes" where
  "import_checks H T J I =
     and_then (ensure_distinct (mi_paths I)) (\<lambda>_.
     and_then (ok_or LegacyUnreadable (mi_legacy_text I)) (\<lambda>body.
     and_then (map_err PreWriteValidation (parse_legacy_json H T J body)) (\<lambda>_.
     if mi_opened I then Inr body else Inl StoreNotOpened)))"

definition diagnostic_export ::
  "StateJson \<Rightarrow> MigrateInputs \<Rightarrow> ControlPlaneSnapshot \<Rightarrow> ExportFile \<Rightarrow> (MigrateError + bytes) \<times> ExportFile" where
  "diagnostic_export J I snapshot f =
     (case sj_document J (snapshot_rows snapshot) of
        None \<Rightarrow> (Inl DocumentNotSerialized, f)
      | Some diagnostic \<Rightarrow>
          (case publish_export (mi_write_failure I) diagnostic f of
             (Inl e, f1) \<Rightarrow> (Inl e, f1)
           | (Inr _, f1) \<Rightarrow> (Inr diagnostic, f1)))"

definition import_command ::
  "Hashing \<Rightarrow> Codec \<Rightarrow> StateJson \<Rightarrow> MigrateInputs \<Rightarrow> migrate_world \<Rightarrow> (MigrateError + LegacyJsonImportReport) \<times> migrate_world" where
  "import_command H T J I w =
     (case (import_checks H T J I, w) of
        (Inl e, _) \<Rightarrow> (Inl e, w)
      | (Inr body, (db, f)) \<Rightarrow>
          (case import_legacy_json H T J body db of
             (Inl e, db1) \<Rightarrow> (Inl (ImportFailed e), (db1, f))
           | (Inr report, db1) \<Rightarrow>
               (case db_load H T db1 of
                  (Inl e, db2) \<Rightarrow> (Inl (RehydrateFailed e), (db2, f))
                | (Inr snapshot, db2) \<Rightarrow>
                    (case diagnostic_export J I snapshot f of
                       (Inl e, f1) \<Rightarrow> (Inl e, (db2, f1))
                     | (Inr _, f1) \<Rightarrow> (Inr report, (db2, f1))))))"

definition load_export_snapshot ::
  "Hashing \<Rightarrow> Codec \<Rightarrow> MigrateInputs \<Rightarrow> SqliteDb \<Rightarrow> (MigrateError + ControlPlaneSnapshot) \<times> SqliteDb" where
  "load_export_snapshot H T I db =
     (if \<not> mi_is_file I then (Inl SourceMissing, db)
      else if \<not> mi_opened I then (Inl StoreNotOpened, db)
      else (case db_load H T db of (r, db1) \<Rightarrow> (map_err RehydrateFailed r, db1)))"

definition export_command ::
  "Hashing \<Rightarrow> Codec \<Rightarrow> StateJson \<Rightarrow> MigrateInputs \<Rightarrow> migrate_world \<Rightarrow> (MigrateError + ControlPlaneSnapshot \<times> bytes) \<times> migrate_world" where
  "export_command H T J I w =
     (case (ensure_distinct (mi_paths I), w) of
        (Inl e, _) \<Rightarrow> (Inl e, w)
      | (Inr _, (db, f)) \<Rightarrow>
          (case load_export_snapshot H T I db of
             (Inl e, db1) \<Rightarrow> (Inl e, (db1, f))
           | (Inr snapshot, db1) \<Rightarrow>
               (case diagnostic_export J I snapshot f of
                  (Inl e, f1) \<Rightarrow> (Inl e, (db1, f1))
                | (Inr diagnostic, f1) \<Rightarrow> (Inr (snapshot, diagnostic), (db1, f1)))))"

definition rollback_export ::
  "Hashing \<Rightarrow> Codec \<Rightarrow> StateJson \<Rightarrow> MigrateInputs \<Rightarrow> migrate_world \<Rightarrow> (MigrateError + ControlPlaneSnapshot \<times> bytes) \<times> migrate_world" where
  "rollback_export H T J I w =
     (case (ensure_distinct (mi_paths I), w) of
        (Inl e, _) \<Rightarrow> (Inl e, w)
      | (Inr _, (db, f)) \<Rightarrow>
          (case load_export_snapshot H T I db of
             (Inl e, db1) \<Rightarrow> (Inl e, (db1, f))
           | (Inr snapshot, db1) \<Rightarrow>
               (case serialize_json_backend H J snapshot of
                  Inl e \<Rightarrow> (Inl e, (db1, f))
                | Inr body \<Rightarrow>
                    (case publish_export (mi_write_failure I) body f of
                       (Inl e, f1) \<Rightarrow> (Inl e, (db1, f1))
                     | (Inr _, f1) \<Rightarrow> (Inr (snapshot, body), (db1, f1))))))"

end
