(* ===== verification/Legacy_Import_Inv.thy ===== *)
theory Legacy_Import_Inv
  imports Legacy_Import
begin

text \<open>
  The import of the JSON state: it normalises the commands to the state that the JSON
  backend itself would have run with, and the database then holds what the file says.
\<close>

declare map_of_eq_Some_iff [simp del] Some_eq_map_of_iff [simp del]

section \<open>The import follows the normalisation of the JSON backend\<close>

definition counts_of :: "LegacyJsonMigrationStats \<Rightarrow> CommandStateMigration" where
  "counts_of s = \<lparr>recovered_results = recovered_command_results s + recovered_legacy_claims s,
     canonicalized_keys = canonicalized_result_keys s + removed_canonical_claim_keys s, rebuilt_order = 0, evicted_entries = 0\<rparr>"

definition kept_stats :: "LegacyJsonMigrationStats \<Rightarrow> nat \<times> nat \<times> nat" where
  "kept_stats s = (legacy_config_fingerprints s, legacy_binary_fingerprints s, evicted_command_results s)"

definition keys_distinct :: "CommandState \<Rightarrow> bool" where
  "keys_distinct cs = distinct (map fst (idempotency_results cs))"

text \<open>A step of the import does what the step of the backend does, and fails exactly when it does.\<close>

definition follows :: "LegacyJsonImportError + importing \<Rightarrow> importing \<Rightarrow> migrating option \<Rightarrow> bool" where
  "follows r st x =
     (case r of
        Inl _ \<Rightarrow> x = None
      | Inr (cs', s') \<Rightarrow> x = Some (cs', counts_of s') \<and> kept_stats s' = kept_stats (snd st)
          \<and> queues cs' = queues (fst st) \<and> (keys_distinct (fst st) \<longrightarrow> keys_distinct cs'))"

lemma follows_result_key: "follows (import_result_key H e (cs, s)) (cs, s) (canonicalize_result H e (cs, counts_of s))"
  by (cases e) (auto simp: follows_def import_result_key_def canonicalize_result_def Let_def counts_of_def kept_stats_def
      keys_distinct_def al_simps split: option.split)

lemma follows_claim: "follows (ensure_legacy_claim c (cs, s)) (cs, s) (claim_legacy c (cs, counts_of s))"
  by (auto simp: follows_def ensure_legacy_claim_def claim_legacy_def Let_def counts_of_def kept_stats_def keys_distinct_def
      split: option.split)

lemma follows_queued:
  assumes "cmd_device_id c = d"
  shows "follows (import_queued H (d, c) (cs, s)) (cs, s) (recover_queued H c (cs, counts_of s))"
proof (cases "map_of (idempotency_results cs) (canonical_scope H c)")
  case None
  let ?cs = "cs\<lparr>idempotency_results := AList.update (canonical_scope H c) c (idempotency_results cs)\<rparr>"
  let ?s = "s\<lparr>recovered_command_results := recovered_command_results s + 1\<rparr>"
  have "counts_of ?s = (counts_of s)\<lparr>recovered_results := recovered_results (counts_of s) + 1\<rparr>" by (simp add: counts_of_def)
  then show ?thesis
    using follows_claim [of c ?cs ?s] None assms
    by (auto simp: follows_def import_queued_def recover_queued_def Let_def kept_stats_def keys_distinct_def al_simps
        split: sum.splits)
next
  case (Some e)
  then show ?thesis
    using follows_claim [of c cs s] assms by (auto simp: import_queued_def recover_queued_def Let_def follows_def)
qed

lemma follows_claims: "follows (import_claims e (cs, s)) (cs, s) (claim_result e (cs, counts_of s))"
proof -
  obtain k c where e: "e = (k, c)" by force
  have f: "follows (ensure_legacy_claim c (cs, s)) (cs, s) (claim_legacy c (cs, counts_of s))" by (rule follows_claim)
  show ?thesis
  proof (cases "ensure_legacy_claim c (cs, s)")
    case (Inl err)
    then show ?thesis using f by (simp add: e import_claims_def claim_result_def follows_def)
  next
    case (Inr x)
    obtain cs' s' where x: "x = (cs', s')" by force
    have "claim_legacy c (cs, counts_of s) = Some (cs', counts_of s')" "kept_stats s' = kept_stats s" "queues cs' = queues cs"
      "keys_distinct cs \<longrightarrow> keys_distinct cs'"
      using f Inr x by (simp_all add: follows_def)
    then show ?thesis
      using Inr x by (auto simp: e import_claims_def claim_result_def follows_def counts_of_def kept_stats_def keys_distinct_def
          split: option.split)
  qed
qed

lemma fold_follows:
  assumes "\<And>x cs s. x \<in> set xs \<Longrightarrow> follows (f x (cs, s)) (cs, s) (g (h x) (cs, counts_of s))"
  shows "follows (fold_result f xs (cs, s)) (cs, s) (fold_option g (map h xs) (cs, counts_of s))"
  using assms
proof (induction xs arbitrary: cs s)
  case Nil
  then show ?case by (simp add: follows_def)
next
  case (Cons x xs)
  have x: "follows (f x (cs, s)) (cs, s) (g (h x) (cs, counts_of s))" using Cons.prems by simp
  show ?case
  proof (cases "f x (cs, s)")
    case (Inl e)
    then show ?thesis using x by (simp add: follows_def)
  next
    case (Inr y)
    obtain cs' s' where y: "y = (cs', s')" by force
    have "follows (fold_result f xs (cs', s')) (cs', s') (fold_option g (map h xs) (cs', counts_of s'))"
      using Cons by simp
    then show ?thesis using x Inr y by (auto simp: follows_def split: sum.splits)
  qed
qed

section \<open>Order and retention\<close>

definition order_ok :: "CommandState \<Rightarrow> bool" where
  "order_ok cs = (keys_distinct cs \<and> distinct (idempotency_order cs) \<and> set (idempotency_order cs) = fst ` set (idempotency_results cs))"

lemma keep_known_facts:
  assumes "distinct acc" "set acc \<subseteq> fst ` set results"
  shows "distinct (keep_known results ks acc) \<and> set (keep_known results ks acc) \<subseteq> fst ` set results"
  using assms
proof (induction ks arbitrary: acc)
  case (Cons k ks)
  have "map_of results k \<noteq> None \<Longrightarrow> k \<in> fst ` set results" by (metis map_of_eq_None_iff)
  with Cons show ?case by simp
qed simp

lemma import_order_ok:
  assumes "keys_distinct cs"
  shows "order_ok (fst (import_order (cs, s)))"
proof -
  let ?k = "keep_known (idempotency_results cs) (idempotency_order cs) []"
  have "distinct ?k" "set ?k \<subseteq> fst ` set (idempotency_results cs)" using keep_known_facts [of "[]"] by simp_all
  then show ?thesis using assms by (auto simp: order_ok_def import_order_def Let_def keys_distinct_def)
qed

lemma find_position_cong: "(\<And>x. x \<in> set xs \<Longrightarrow> P x = Q x) \<Longrightarrow> find_position P xs = find_position Q xs"
  by (induction xs) simp_all

lemma order_known:
  assumes "order_ok cs" "k \<in> set (idempotency_order cs)"
  shows "\<exists>c. map_of (idempotency_results cs) k = Some c"
  using assms by (metis domD dom_map_of_conv_image_fst order_ok_def)

definition evict_at :: "nat \<Rightarrow> string \<Rightarrow> DeviceCommand \<Rightarrow> CommandState \<Rightarrow> CommandState" where
  "evict_at i k c cs =
     remove_claim k (cmd_command_id c)
       (remove_claim (legacy_scope_for_command c) (cmd_command_id c)
         (cs\<lparr>idempotency_order := remove_at i (idempotency_order cs), idempotency_results := AList.delete k (idempotency_results cs)\<rparr>))"

lemma remove_claim_parts [simp]:
  "idempotency_order (remove_claim k i cs) = idempotency_order cs" "idempotency_results (remove_claim k i cs) = idempotency_results cs"
  "queues (remove_claim k i cs) = queues cs"
  by (simp_all add: remove_claim_def)

lemma evicted_ok:
  assumes "order_ok cs" "i < length (idempotency_order cs)" "k = idempotency_order cs ! i"
  shows "order_ok (evict_at i k c cs)"
  using assms remove_at_distinct [of "idempotency_order cs" i]
  by (simp add: order_ok_def keys_distinct_def evict_at_def distinct_delete delete_keys) (auto simp: alist_delete_filter intro: distinct_removeAll)

lemma trim_follows:
  assumes "order_ok cs"
  shows "case trim_results (cs, s) of
      Inl _ \<Rightarrow> trim_idempotency_state cs = None
    | Inr (cs', s') \<Rightarrow> \<exists>n. trim_idempotency_state cs = Some (n, cs') \<and> s' = s\<lparr>evicted_command_results := evicted_command_results s + n\<rparr>
        \<and> order_ok cs' \<and> length (idempotency_order cs') \<le> MAX_IDEMPOTENCY_RESULTS \<and> queues cs' = queues cs"
  using assms
proof (induction "length (idempotency_order cs)" arbitrary: cs s rule: less_induct)
  case less
  note ok = less.prems
  show ?case
  proof (cases "length (idempotency_order cs) > MAX_IDEMPOTENCY_RESULTS")
    case False
    then show ?thesis using ok by (simp add: trim_results.simps trim_idempotency_state.simps [of cs] exI [of _ 0])
  next
    case True
    have pos: "find_position (import_evictable cs) (idempotency_order cs) = find_position (evictable cs) (idempotency_order cs)"
      using order_known [OF ok] by (intro find_position_cong) (force simp: import_evictable_def evictable_def)
    show ?thesis
    proof (cases "find_position (evictable cs) (idempotency_order cs)")
      case None
      then show ?thesis using True pos by (simp add: trim_results.simps trim_idempotency_state.simps [of cs])
    next
      case (Some i)
      let ?k = "idempotency_order cs ! i"
      have i: "i < length (idempotency_order cs)" using find_position_less [OF Some] .
      obtain c where c: "map_of (idempotency_results cs) ?k = Some c" using order_known [OF ok, of ?k] i by auto
      let ?cs = "evict_at i ?k c cs" and ?s = "s\<lparr>evicted_command_results := evicted_command_results s + 1\<rparr>"
      have short: "length (idempotency_order ?cs) < length (idempotency_order cs)" using i by (simp add: evict_at_def remove_at_def)
      have import: "trim_results (cs, s) = trim_results (?cs, ?s)"
        using True pos Some c by (simp add: trim_results.simps [of cs] Let_def evict_at_def)
      have backend: "trim_idempotency_state cs = map_option (\<lambda>(n, cs2). (Suc n, cs2)) (trim_idempotency_state ?cs)"
        using True Some c by (simp add: trim_idempotency_state.simps [of cs] Let_def evict_key_def evict_at_def)
      have q: "queues ?cs = queues cs" by (simp add: evict_at_def)
      show ?thesis
        using less.hyps [OF short evicted_ok [OF ok i refl], of ?s] unfolding import backend q
        by (auto split: sum.splits)
    qed
  qed
qed

section \<open>The whole normalisation\<close>

lemma queued_entries_commands: "map snd (queued_entries cs) = queued_commands cs"
  by (simp add: queued_entries_def queued_commands_def map_concat comp_def split_beta)

definition own_queues :: "CommandState \<Rightarrow> bool" where
  "own_queues cs = list_all (\<lambda>(d, q). list_all (\<lambda>c. cmd_device_id c = d) q) (queues cs)"

lemma own_queued: "own_queues cs \<Longrightarrow> (d, c) \<in> set (queued_entries cs) \<Longrightarrow> cmd_device_id c = d"
  by (fastforce simp: own_queues_def queued_entries_def list_all_iff)

lemma fold_result_each_Inr: "fold_result f xs s = Inr s' \<Longrightarrow> x \<in> set xs \<Longrightarrow> \<exists>u v. f x u = Inr v"
  by (induction xs arbitrary: s) (auto split: sum.splits)

lemma imported_queues_own:
  assumes "fold_result (import_queued H) (queued_entries cs) st = Inr st'"
  shows "own_queues cs"
proof -
  have "cmd_device_id c = d" if "(d, q) \<in> set (queues cs)" "c \<in> set q" for d q c
  proof -
    have "(d, c) \<in> set (queued_entries cs)" using that by (force simp: queued_entries_def)
    from fold_result_each_Inr [OF assms this] show ?thesis by (auto simp: import_queued_def split: if_splits)
  qed
  then show ?thesis by (auto simp: own_queues_def list_all_iff)
qed

lemma update_length: "length (AList.update k v xs) \<le> Suc (length xs)"
  by (induction xs) auto

lemma expected_length: "fold_result expect_claim xs acc = Inr expected \<Longrightarrow> length expected \<le> length acc + length xs"
proof (induction xs arbitrary: acc)
  case (Cons x xs)
  then obtain acc' where "expect_claim x acc = Inr acc'" "fold_result expect_claim xs acc' = Inr expected" by (auto split: sum.splits)
  moreover have "length acc' \<le> Suc (length acc)"
    using \<open>expect_claim x acc = Inr acc'\<close> update_length [of "legacy_scope_for_command (snd x)" "cmd_command_id (snd x)" acc]
    by (auto simp: expect_claim_def Let_def split: option.splits if_splits)
  ultimately show ?case using Cons.IH [of acc'] by simp
qed simp

lemma valid_claims_bounded:
  assumes "validate_import_claims cs = Inr ()" "order_ok cs" "length (idempotency_order cs) \<le> n"
  shows "length (idempotency cs) \<le> n"
proof -
  obtain expected where e: "fold_result expect_claim (idempotency_results cs) [] = Inr expected" "length (idempotency cs) = length expected"
    using assms(1) by (auto simp: validate_import_claims_def and_then_Inr_iff split: if_splits)
  have "length (idempotency_results cs) = length (idempotency_order cs)"
    using assms(2) distinct_card [of "map fst (idempotency_results cs)"] distinct_card [of "idempotency_order cs"]
    by (simp add: order_ok_def keys_distinct_def)
  then show ?thesis using expected_length [OF e(1)] e(2) assms(3) by simp
qed

definition same_counts :: "LegacyJsonMigrationStats \<Rightarrow> LegacyJsonMigrationStats \<Rightarrow> CommandStateMigration \<Rightarrow> bool" where
  "same_counts s0 s m =
     (counts_of s = m\<lparr>rebuilt_order := 0, evicted_entries := 0\<rparr> \<and> rebuilt_order m = (if rebuilt_result_order s then 1 else 0)
      \<and> kept_stats s = (legacy_config_fingerprints s0, legacy_binary_fingerprints s0, evicted_command_results s0 + evicted_entries m))"

lemma import_order_follows:
  assumes "import_order (cs, s) = (cs', s')"
  shows "rebuild_order (cs, counts_of s) = (cs', (counts_of s)\<lparr>rebuilt_order := (if rebuilt_result_order s' then 1 else 0)\<rparr>)"
    "counts_of s' = counts_of s" "kept_stats s' = kept_stats s" "queues cs' = queues cs"
  using assms by (auto simp: import_order_def rebuild_order_def Let_def counts_of_def kept_stats_def)

text \<open>What follows the recovery of queued commands, in the import and in the backend.\<close>

definition import_tail :: "importing \<Rightarrow> LegacyJsonImportError + importing" where
  "import_tail st =
     and_then (fold_result import_claims (idempotency_results (fst st)) st) (\<lambda>st3.
     and_then (trim_results (import_order st3)) (\<lambda>st5.
     and_then (validate_import_claims (fst st5)) (\<lambda>_. Inr st5)))"

definition backend_tail :: "migrating \<Rightarrow> migrating option" where
  "backend_tail st =
     (case fold_option claim_result (idempotency_results (fst st)) st of
        None \<Rightarrow> None
      | Some st3 \<Rightarrow>
          (case rebuild_order st3 of
             (cs4, m4) \<Rightarrow>
               (case trim_idempotency_state cs4 of
                  None \<Rightarrow> None
                | Some (evicted, cs5) \<Rightarrow>
                    if length (idempotency cs5) > MAX_IDEMPOTENCY_RESULTS * 2 then None
                    else Some (cs5, m4\<lparr>evicted_entries := evicted\<rparr>))))"

lemma tail_follows:
  assumes d: "keys_distinct cs"
  shows "case import_tail (cs, s) of
      Inr (cs', s') \<Rightarrow> (\<exists>m. backend_tail (cs, counts_of s) = Some (cs', m) \<and> same_counts s s' m) \<and> order_ok cs' \<and> queues cs' = queues cs
    | Inl _ \<Rightarrow> \<forall>cs' m. backend_tail (cs, counts_of s) = Some (cs', m) \<longrightarrow> validate_import_claims cs' \<noteq> Inr ()"
proof -
  have f: "follows (fold_result import_claims (idempotency_results cs) (cs, s)) (cs, s)
      (fold_option claim_result (idempotency_results cs) (cs, counts_of s))"
    using fold_follows [of "idempotency_results cs" import_claims claim_result "\<lambda>x. x" cs s] follows_claims by simp
  show ?thesis
  proof (cases "fold_result import_claims (idempotency_results cs) (cs, s)")
    case (Inl e)
    then show ?thesis using f by (simp add: import_tail_def backend_tail_def follows_def)
  next
    case (Inr x)
    obtain cs3 s3 where x: "x = (cs3, s3)" by force
    obtain cs4 s4 where o: "import_order (cs3, s3) = (cs4, s4)" by force
    note r3 = Inr [unfolded x] and O = import_order_follows [OF o]
    have b3: "fold_option claim_result (idempotency_results cs) (cs, counts_of s) = Some (cs3, counts_of s3)"
      and k3: "kept_stats s3 = kept_stats s" "queues cs3 = queues cs" "keys_distinct cs3"
      using f r3 d by (simp_all add: follows_def)
    have ok4: "order_ok cs4" using import_order_ok [OF k3(3), of s3] o by simp
    note t = trim_follows [OF ok4, of s4]
    show ?thesis
    proof (cases "trim_results (cs4, s4)")
      case (Inl e)
      then show ?thesis using t r3 b3 o O(1) by (simp add: import_tail_def backend_tail_def)
    next
      case (Inr z)
      obtain cs5 s5 where z: "z = (cs5, s5)" by force
      note r5 = Inr [unfolded z]
      obtain n where n: "trim_idempotency_state cs4 = Some (n, cs5)" "s5 = s4\<lparr>evicted_command_results := evicted_command_results s4 + n\<rparr>"
        "order_ok cs5" "length (idempotency_order cs5) \<le> MAX_IDEMPOTENCY_RESULTS" "queues cs5 = queues cs4"
        using t r5 by auto
      let ?m = "(counts_of s3)\<lparr>rebuilt_order := (if rebuilt_result_order s4 then 1 else 0), evicted_entries := n\<rparr>"
      have theirs: "backend_tail (cs, counts_of s) =
          (if length (idempotency cs5) > MAX_IDEMPOTENCY_RESULTS * 2 then None else Some (cs5, ?m))"
        using b3 O(1) n(1) by (simp add: backend_tail_def)
      have run: "import_tail (cs, s) = and_then (validate_import_claims cs5) (\<lambda>_. Inr (cs5, s5))"
        using r3 o r5 by (simp add: import_tail_def)
      have total: "same_counts s s5 ?m"
        using n(2) O(2,3) k3(1) by (auto simp: same_counts_def counts_of_def kept_stats_def)
      show ?thesis
      proof (cases "validate_import_claims cs5")
        case (Inl e)
        then show ?thesis using run theirs by simp
      next
        case (Inr u)
        then have "length (idempotency cs5) \<le> MAX_IDEMPOTENCY_RESULTS" using valid_claims_bounded n(3,4) by simp
        then show ?thesis using Inr run theirs total n(3,5) O(4) k3(2) by simp
      qed
    qed
  qed
qed

lemma normalize_tails:
  "normalize_commands H cs s =
     and_then (fold_result (import_result_key H) (idempotency_results cs) (cs, s)) (\<lambda>st1.
     and_then (fold_result (import_queued H) (queued_entries (fst st1)) st1) import_tail)"
  "normalize_command_state H cs =
     Option.bind (fold_option (canonicalize_result H) (idempotency_results cs) (cs, no_migration)) (\<lambda>st1.
     Option.bind (fold_option (recover_queued H) (queued_commands (fst st1)) st1) backend_tail)"
proof -
  have "import_tail = (\<lambda>st2. and_then (fold_result import_claims (idempotency_results (fst st2)) st2) (\<lambda>st3.
     and_then (trim_results (import_order st3)) (\<lambda>st5. and_then (validate_import_claims (fst st5)) (\<lambda>_. Inr st5))))"
    by (rule ext) (simp add: import_tail_def)
  then show "normalize_commands H cs s =
     and_then (fold_result (import_result_key H) (idempotency_results cs) (cs, s)) (\<lambda>st1.
     and_then (fold_result (import_queued H) (queued_entries (fst st1)) st1) import_tail)"
    by (simp add: normalize_commands_def)
  show "normalize_command_state H cs =
     Option.bind (fold_option (canonicalize_result H) (idempotency_results cs) (cs, no_migration)) (\<lambda>st1.
     Option.bind (fold_option (recover_queued H) (queued_commands (fst st1)) st1) backend_tail)"
    by (simp add: normalize_command_state_def backend_tail_def no_migration_def Let_def split: option.split prod.split)
qed

lemma normalize_follows:
  assumes d: "keys_distinct cs" and s: "counts_of s = no_migration"
  shows "case normalize_commands H cs s of
      Inr (cs', s') \<Rightarrow> own_queues cs \<and> (\<exists>m. normalize_command_state H cs = Some (cs', m) \<and> same_counts s s' m) \<and> order_ok cs'
        \<and> queues cs' = queues cs
    | Inl _ \<Rightarrow> \<not> own_queues cs \<or> (\<forall>cs' m. normalize_command_state H cs = Some (cs', m) \<longrightarrow> validate_import_claims cs' \<noteq> Inr ())"
proof -
  have f1: "follows (fold_result (import_result_key H) (idempotency_results cs) (cs, s)) (cs, s)
      (fold_option (canonicalize_result H) (idempotency_results cs) (cs, no_migration))"
    using fold_follows [of "idempotency_results cs" "import_result_key H" "canonicalize_result H" "\<lambda>x. x" cs s] follows_result_key s by simp
  show ?thesis
  proof (cases "fold_result (import_result_key H) (idempotency_results cs) (cs, s)")
    case (Inl e)
    then show ?thesis using f1 by (simp add: normalize_tails follows_def)
  next
    case (Inr x)
    obtain cs1 s1 where x: "x = (cs1, s1)" by force
    note r1 = Inr [unfolded x]
    have b1: "fold_option (canonicalize_result H) (idempotency_results cs) (cs, no_migration) = Some (cs1, counts_of s1)"
      and k1: "kept_stats s1 = kept_stats s" "queues cs1 = queues cs" "keys_distinct cs1"
      using f1 r1 d by (simp_all add: follows_def)
    have own1: "own_queues cs1 = own_queues cs" by (simp add: own_queues_def k1(2))
    show ?thesis
    proof (cases "own_queues cs")
      case False
      then have "\<exists>e. fold_result (import_queued H) (queued_entries cs1) (cs1, s1) = Inl e"
        using imported_queues_own own1 by (cases "fold_result (import_queued H) (queued_entries cs1) (cs1, s1)") blast+
      then show ?thesis using False r1 by (auto simp: normalize_tails)
    next
      case True
      have "follows (import_queued H e (c, t)) (c, t) (recover_queued H (snd e) (c, counts_of t))" if "e \<in> set (queued_entries cs1)" for e c t
        using own_queued [of cs1 "fst e" "snd e"] True own1 that follows_queued [of "snd e" "fst e"] by simp
      then have f2: "follows (fold_result (import_queued H) (queued_entries cs1) (cs1, s1)) (cs1, s1)
          (fold_option (recover_queued H) (queued_commands cs1) (cs1, counts_of s1))"
        unfolding queued_entries_commands [symmetric] by (rule fold_follows)
      show ?thesis
      proof (cases "fold_result (import_queued H) (queued_entries cs1) (cs1, s1)")
        case (Inl e)
        then show ?thesis using f2 r1 b1 by (simp add: normalize_tails follows_def)
      next
        case (Inr y)
        obtain cs2 s2 where y: "y = (cs2, s2)" by force
        note r2 = Inr [unfolded y]
        have b2: "fold_option (recover_queued H) (queued_commands cs1) (cs1, counts_of s1) = Some (cs2, counts_of s2)"
          and k2: "kept_stats s2 = kept_stats s1" "queues cs2 = queues cs1" "keys_distinct cs2"
          using f2 r2 k1(3) by (simp_all add: follows_def)
        have whole: "normalize_commands H cs s = import_tail (cs2, s2)" "normalize_command_state H cs = backend_tail (cs2, counts_of s2)"
          using r1 r2 b1 b2 by (simp_all add: normalize_tails)
        have same: "same_counts s2 s' m = same_counts s s' m" for s' m
          using k1(1) k2(1) by (simp add: same_counts_def kept_stats_def)
        show ?thesis
          using tail_follows [OF k2(3), of s2] True k1(2) k2(2) unfolding whole same by (auto split: sum.splits)
      qed
    qed
  qed
qed

section \<open>Filling the tables\<close>

context table
begin

lemma section_fill:
  assumes "distinct (map fst rows)"
    and "\<And>k v x. (k, v) \<in> set rows \<Longrightarrow> bt_ok x \<Longrightarrow> set x \<subseteq> set rows \<Longrightarrow> map_of x k = None \<Longrightarrow>
      stmt (k, v) (put x t) = Inr (put (bt_insert k v x) t)"
  shows "fold_result stmt rows (put [] t) = Inr (put (bt_of_list rows) t)"
  using assms
proof (induction rows rule: rev_induct)
  case Nil
  then show ?case by (simp add: bt_of_list_def)
next
  case (snoc e rows)
  obtain k v where e: "e = (k, v)" by force
  have d: "distinct (map fst rows)" "k \<notin> fst ` set rows" using snoc.prems(1) e by auto
  have "fold_result stmt rows (put [] t) = Inr (put (bt_of_list rows) t)"
    using snoc.prems(2) by (intro snoc.IH [OF d(1)]) auto
  moreover have "stmt (k, v) (put (bt_of_list rows) t) = Inr (put (bt_insert k v (bt_of_list rows)) t)"
    using d set_bt_of_list [OF d(1)] e by (intro snoc.prems(2)) (auto simp: map_of_eq_None_iff)
  ultimately show ?case by (simp add: e fold_result_append bt_of_list_snoc)
qed

end

lemma row_inserts:
  "fold_result (insert_device_row T) devices t = fold_result (\<lambda>(k, j). sql_insert_device T k j)
     (map (\<lambda>r. (row_node_id r, encode_device T (row_record r))) devices) t"
  "fold_result (insert_result_row H T) results t = fold_result (\<lambda>(k, c, j). sql_insert_result T k c j)
     (map (\<lambda>r. (ContentDigest_display (to_hex_fn H) (result_scope_key r), cid_text T (result_command_id r),
        encode_command T (result_command r))) results) t"
  "fold_result (insert_claim_row H T) claims t = fold_result (\<lambda>(k, c, f). sql_insert_claim k c f)
     (map (\<lambda>r. (ContentDigest_display (to_hex_fn H) (claim_scope_key r), cid_text T (claim_command_id r),
        ContentDigest_display (to_hex_fn H) (claim_request_fingerprint r))) claims) t"
  "fold_result (insert_pending_row T) pending t = fold_result (\<lambda>(k, d, p, j). sql_insert_pending T k d p j)
     (map (\<lambda>r. (cid_text T (pending_command_id r), pending_device_id r, uint (pending_queue_position r),
        encode_command T (pending_command r))) pending) t"
proof -
  have "fold_result (\<lambda>x. f (g x)) xs s = fold_result f (map g xs) s" for f :: "'x \<Rightarrow> statement" and g :: "'y \<Rightarrow> 'x" and xs s
    by (induction xs arbitrary: s) (auto split: sum.split)
  note m = this [symmetric]
  show "fold_result (insert_device_row T) devices t = fold_result (\<lambda>(k, j). sql_insert_device T k j)
     (map (\<lambda>r. (row_node_id r, encode_device T (row_record r))) devices) t"
    unfolding m by (simp add: insert_device_row_def [abs_def])
  show "fold_result (insert_result_row H T) results t = fold_result (\<lambda>(k, c, j). sql_insert_result T k c j)
     (map (\<lambda>r. (ContentDigest_display (to_hex_fn H) (result_scope_key r), cid_text T (result_command_id r),
        encode_command T (result_command r))) results) t"
    unfolding m by (simp add: insert_result_row_def [abs_def])
  show "fold_result (insert_claim_row H T) claims t = fold_result (\<lambda>(k, c, f). sql_insert_claim k c f)
     (map (\<lambda>r. (ContentDigest_display (to_hex_fn H) (claim_scope_key r), cid_text T (claim_command_id r),
        ContentDigest_display (to_hex_fn H) (claim_request_fingerprint r))) claims) t"
    unfolding m by (simp add: insert_claim_row_def [abs_def])
  show "fold_result (insert_pending_row T) pending t = fold_result (\<lambda>(k, d, p, j). sql_insert_pending T k d p j)
     (map (\<lambda>r. (cid_text T (pending_command_id r), pending_device_id r, uint (pending_queue_position r),
        encode_command T (pending_command r))) pending) t"
    unfolding m by (simp add: insert_pending_row_def [abs_def])
qed

definition rows_distinct :: "Hashing \<Rightarrow> Codec \<Rightarrow> SnapshotRows \<Rightarrow> bool" where
  "rows_distinct H T rows =
     (distinct (map row_node_id (rows_devices rows))
      \<and> distinct (map (\<lambda>r. ContentDigest_display (to_hex_fn H) (result_scope_key r)) (rows_command_results rows))
      \<and> distinct (map (\<lambda>r. ContentDigest_display (to_hex_fn H) (claim_scope_key r)) (rows_idempotency_claims rows))
      \<and> distinct (map (\<lambda>r. cid_text T (pending_command_id r)) (rows_pending_commands rows)))"

lemma replace_rows_materialized:
  assumes ok: "rel_ok T (materialize H T snap)" and d: "rows_distinct H T (snapshot_rows snap)"
  shows "replace_rows H T (snapshot_rows snap) t = Inr (materialize H T snap)"
proof -
  let ?text = "ContentDigest_display (to_hex_fn H)" and ?rows = "snapshot_rows snap"
  define DD where "DD = map (\<lambda>r. (row_node_id r, encode_device T (row_record r))) (rows_devices ?rows)"
  define RR where "RR = map (\<lambda>r. (?text (result_scope_key r), cid_text T (result_command_id r), encode_command T (result_command r))) (rows_command_results ?rows)"
  define CC where "CC = map (\<lambda>r. (?text (claim_scope_key r), cid_text T (claim_command_id r), ?text (claim_request_fingerprint r))) (rows_idempotency_claims ?rows)"
  define PP where "PP = map (\<lambda>r. (cid_text T (pending_command_id r), pending_device_id r, uint (pending_queue_position r), encode_command T (pending_command r)))
      (rows_pending_commands ?rows)"
  note B = rel_okD [OF ok]
  have M: "rel_devices (materialize H T snap) = bt_of_list DD" "rel_results (materialize H T snap) = bt_of_list RR"
    "rel_claims (materialize H T snap) = bt_of_list CC" "rel_pending (materialize H T snap) = bt_of_list PP"
    by (simp_all add: materialize_def Let_def DD_def RR_def CC_def PP_def)
  have D: "distinct (map fst DD)" "distinct (map fst RR)" "distinct (map fst CC)" "distinct (map fst PP)"
    using d by (simp_all add: rows_distinct_def comp_def DD_def RR_def CC_def PP_def)
  note S = D [THEN set_bt_of_list]
  let ?t0 = "\<lparr>rel_devices = [], rel_results = [], rel_claims = [], rel_pending = []\<rparr> :: RelationalState"
  have t0: "t\<lparr>rel_pending := [], rel_claims := [], rel_results := [], rel_devices := []\<rparr> = ?t0" by (cases t) simp
  have "fold_result (\<lambda>(k, j). sql_insert_device T k j) DD (?t0\<lparr>rel_devices := []\<rparr>) = Inr (?t0\<lparr>rel_devices := bt_of_list DD\<rparr>)"
  proof (rule devices.section_fill [OF D(1)])
    show "(case (k, v) of (k, j) \<Rightarrow> sql_insert_device T k j) (?t0\<lparr>rel_devices := x\<rparr>) = Inr (?t0\<lparr>rel_devices := bt_insert k v x\<rparr>)"
      if "(k, v) \<in> set DD" "map_of x k = None" for k v x
      using B(5) [unfolded M S, OF that(1)] that(2) by (simp add: sql_insert_device_def)
  qed
  then have s1: "fold_result (insert_device_row T) (rows_devices ?rows) ?t0 = Inr (?t0\<lparr>rel_devices := bt_of_list DD\<rparr>)"
    unfolding row_inserts DD_def [symmetric] RR_def [symmetric] CC_def [symmetric] PP_def [symmetric] by simp
  let ?t1 = "?t0\<lparr>rel_devices := bt_of_list DD\<rparr>"
  have "fold_result (\<lambda>(k, c, j). sql_insert_result T k c j) RR (?t1\<lparr>rel_results := []\<rparr>) = Inr (?t1\<lparr>rel_results := bt_of_list RR\<rparr>)"
  proof (rule results.section_fill [OF D(2)])
    show "(case (k, v) of (k, c, j) \<Rightarrow> sql_insert_result T k c j) (?t1\<lparr>rel_results := x\<rparr>) = Inr (?t1\<lparr>rel_results := bt_insert k v x\<rparr>)"
      if mem: "(k, v) \<in> set RR" and x: "set x \<subseteq> set RR" "map_of x k = None" for k v x
    proof -
      obtain c j where v: "v = (c, j)" by force
      have "\<not> list_ex (\<lambda>(_, c', _). c' = c) x"
        using B(7) [unfolded M S] mem v by (intro no_clash [OF x]) auto
      then show ?thesis using B(6) [unfolded M S, OF mem [unfolded v]] v x(2) by (simp add: sql_insert_result_def)
    qed
  qed
  then have s2: "fold_result (insert_result_row H T) (rows_command_results ?rows) ?t1 = Inr (?t1\<lparr>rel_results := bt_of_list RR\<rparr>)"
    unfolding row_inserts DD_def [symmetric] RR_def [symmetric] CC_def [symmetric] PP_def [symmetric] by simp
  let ?t2 = "?t1\<lparr>rel_results := bt_of_list RR\<rparr>"
  have "fold_result (\<lambda>(k, c, f). sql_insert_claim k c f) CC (?t2\<lparr>rel_claims := []\<rparr>) = Inr (?t2\<lparr>rel_claims := bt_of_list CC\<rparr>)"
  proof (rule claims.section_fill [OF D(3)])
    show "(case (k, v) of (k, c, f) \<Rightarrow> sql_insert_claim k c f) (?t2\<lparr>rel_claims := x\<rparr>) = Inr (?t2\<lparr>rel_claims := bt_insert k v x\<rparr>)"
      if mem: "(k, v) \<in> set CC" and x: "map_of x k = None" for k v x
    proof -
      obtain c f where v: "v = (c, f)" by force
      from B(8) [unfolded M S, OF mem [unfolded v]] obtain j where r: "f \<noteq> []" "(k, c, j) \<in> set RR" by blast
      have "map_of (bt_of_list RR) k = Some (c, j)" using bt_ok_memD [OF bt_of_list_ok] r(2) S(2) by metis
      then show ?thesis using B(6) [unfolded M S, OF r(2)] r(1) v x by (simp add: sql_insert_claim_def)
    qed
  qed
  then have s3: "fold_result (insert_claim_row H T) (rows_idempotency_claims ?rows) ?t2 = Inr (?t2\<lparr>rel_claims := bt_of_list CC\<rparr>)"
    unfolding row_inserts DD_def [symmetric] RR_def [symmetric] CC_def [symmetric] PP_def [symmetric] by simp
  let ?t3 = "?t2\<lparr>rel_claims := bt_of_list CC\<rparr>"
  have "fold_result (\<lambda>(k, d, p, j). sql_insert_pending T k d p j) PP (?t3\<lparr>rel_pending := []\<rparr>) = Inr (?t3\<lparr>rel_pending := bt_of_list PP\<rparr>)"
  proof (rule pending.section_fill [OF D(4)])
    show "(case (k, v) of (k, d, p, j) \<Rightarrow> sql_insert_pending T k d p j) (?t3\<lparr>rel_pending := x\<rparr>) = Inr (?t3\<lparr>rel_pending := bt_insert k v x\<rparr>)"
      if mem: "(k, v) \<in> set PP" and x: "set x \<subseteq> set PP" "map_of x k = None" for k v x
    proof -
      obtain d p j where v: "v = (d, p, j)" by (cases v)
      from B(9) [unfolded M S, OF mem [unfolded v]] obtain k' j' where
        r: "d \<noteq> []" "0 \<le> p" "json_valid T j" "(k', k, j') \<in> set RR" by blast
      have "\<not> list_ex (\<lambda>(_, d', p', _). d' = d \<and> p' = p) x"
        using B(10) [unfolded M S] mem v by (intro no_clash [OF x]) auto
      moreover have "list_ex (\<lambda>(_, c, _). c = k) (bt_of_list RR)" using r(4) S(2) by (force simp: list_ex_iff)
      ultimately show ?thesis using r(1-3) B(6) [unfolded M S, OF r(4)] v x(2) by (simp add: sql_insert_pending_def)
    qed
  qed
  then have s4: "fold_result (insert_pending_row T) (rows_pending_commands ?rows) ?t3 = Inr (?t3\<lparr>rel_pending := bt_of_list PP\<rparr>)"
    unfolding row_inserts DD_def [symmetric] RR_def [symmetric] CC_def [symmetric] PP_def [symmetric] by simp
  have "?t3\<lparr>rel_pending := bt_of_list PP\<rparr> = materialize H T snap" by (simp add: materialize_def Let_def DD_def RR_def CC_def PP_def)
  then show ?thesis using s1 s2 s3 s4 by (simp add: replace_rows_def t0)
qed

section \<open>Snapshots in the store\<close>

lemma pending_ids: "map (\<lambda>r. cid_text T (pending_command_id r)) (pending_rows qs) = map (id_text T) (concat (map snd qs))"
proof (induction qs)
  case (Cons e qs)
  have "map (\<lambda>r. cid_text T (pending_command_id r)) (queue_rows e) = map (id_text T \<circ> snd) (enumerate 0 (snd e))"
    by (cases e) (auto simp: queue_rows_def)
  also have "\<dots> = map (id_text T) (snd e)" by (simp flip: map_map)
  finally show ?case using Cons by (simp add: pending_rows_def)
qed (simp add: pending_rows_def)

lemma snapshot_rows_distinct:
  assumes "snapshot_wf H T ds qs cs"
  shows "rows_distinct H T (snapshot_rows (snapshot_of H ds qs cs))"
proof -
  have W: "bt_ok ds" "distinct (map (canonical_scope H) cs)" "distinct (map (id_text T) (concat (map snd qs)))"
    using assms by (simp_all add: snapshot_wf_def devices_wf_def replay_wf_def)
  have "distinct (map (canonical_scope H) (scope_sorted H cs))" using scope_sorted_mset(3) [OF W(2)] by (simp add: strict_sorted_iff)
  then show ?thesis
    using W(3) bt_ok_distinct [OF W(1)] pending_ids [of T qs]
    by (simp add: rows_distinct_def snapshot_rows_def snapshot_of_def device_rows_def result_rows_def claim_rows_def comp_def
        display_digest case_prod_unfold)
qed

lemma replace_healthy:
  assumes "snapshot_wf H T ds qs cs" "codec_texts T"
  shows "replace_snapshot sql_healthy H T (snapshot_of H ds qs cs) t = Inr (materialize H T (snapshot_of H ds qs cs))"
  using replace_rows_materialized [OF materialize_ok [OF assms] snapshot_rows_distinct [OF assms(1)], of t] snapshot_revalidates [OF assms(1)]
  by (simp add: replace_snapshot_def snapshot_validate_def sql_healthy_def map_err_def)

lemma load_healthy:
  assumes "snapshot_wf H T ds qs cs" "hex_reads H" "\<forall>i. cid_parse T (cid_text T i) = Some i"
    and "\<forall>(_, d)\<in>set ds. decode_device T (encode_device T d) = Some d" "\<forall>c\<in>set cs. decode_command T (encode_command T c) = Some c"
  shows "load_snapshot sql_healthy H T (materialize H T (snapshot_of H ds qs cs)) = Inr (snapshot_of H ds qs cs)"
  using load_rows_materialized [OF assms] snapshot_revalidates [OF assms(1)] by (simp add: load_snapshot_def sql_healthy_def map_err_def)

section \<open>Reading a well-formed state\<close>

lemma fingerprint_stats_counts:
  assumes "fingerprint_stats H raw = Inr s"
  shows "counts_of s = no_migration" "\<not> rebuilt_result_order s" "evicted_command_results s = 0"
proof -
  let ?I = "\<lambda>s. counts_of s = no_migration \<and> \<not> rebuilt_result_order s \<and> evicted_command_results s = 0"
  have step: "?I s'" if "device_stats H e s = Inr s'" "?I s" for e s s'
    using that by (auto simp: device_stats_def counts_of_def and_then_Inr_iff split: Json.splits)
  have "?I s'" if "fold_result (device_stats H) ds s = Inr s'" "?I s" for ds s s'
    using that step by (induction ds arbitrary: s) (auto split: sum.splits)
  moreover have "?I no_stats" by (simp add: no_stats_def counts_of_def no_migration_def)
  ultimately have "?I s" using assms by (auto simp: fingerprint_stats_def split: option.splits Json.splits)
  then show "counts_of s = no_migration" "\<not> rebuilt_result_order s" "evicted_command_results s = 0" by simp_all
qed

lemma fold_expected:
  assumes "distinct (map (\<lambda>(k, c). legacy_scope_for_command c) xs)"
  shows "fold_result expect_claim xs [] = Inr (map (\<lambda>(k, c). (legacy_scope_for_command c, cmd_command_id c)) xs)"
  using assms
proof (induction xs rule: rev_induct)
  case (snoc e xs)
  obtain k c where e: "e = (k, c)" by force
  let ?ys = "map (\<lambda>(k, c). (legacy_scope_for_command c, cmd_command_id c)) xs"
  have "legacy_scope_for_command c \<notin> fst ` set ?ys" using snoc.prems e by (force simp: image_iff)
  moreover then have "map_of ?ys (legacy_scope_for_command c) = None" by (simp add: map_of_eq_None_iff)
  ultimately show ?case using snoc e by (simp add: fold_result_append expect_claim_def Let_def update_absent)
qed simp

lemma import_claims_valid:
  assumes "replay_inv H n cs"
  shows "validate_import_claims cs = Inr ()"
proof -
  let ?rs = "idempotency_results cs"
  have "inj_on (\<lambda>(k, c). legacy_scope_for_command c) (set ?rs)"
    using legacy_inject [OF assms] by (intro inj_onI) (auto split: prod.splits)
  then have d: "distinct (map (\<lambda>(k, c). legacy_scope_for_command c) ?rs)"
    using replay_invD(2) [OF assms] by (simp add: distinct_map)
  have canon: "\<forall>(k, c)\<in>set ?rs. k = canonical_scope H c" using replay_invD(2,3) [OF assms] in_results by blast
  have "same_map (idempotency cs) (map (\<lambda>(k, c). (legacy_scope_for_command c, cmd_command_id c)) ?rs)"
    using legacy_claims_valid [OF assms] fold_legacy_claims [OF canon d] by (simp add: validate_legacy_claims_def split: if_splits)
  then show ?thesis using fold_expected [OF d] by (simp add: validate_import_claims_def same_map_def)
qed

lemma stats_unchanged:
  assumes "same_counts s s' no_migration" "counts_of s = no_migration" "\<not> rebuilt_result_order s"
  shows "s' = s"
  using assms by (cases s; cases s') (auto simp: same_counts_def counts_of_def kept_stats_def no_migration_def split: if_splits)

lemma normalize_own_state:
  assumes "hex_text H" "command_inv H cs" "counts_of s = no_migration" "\<not> rebuilt_result_order s"
  shows "normalize_commands H cs s = Inr (cs, s)"
proof -
  have R: "replay_inv H MAX_IDEMPOTENCY_RESULTS cs" and Q: "queue_inv cs" using assms(2) by (simp_all add: command_inv_def)
  have own: "own_queues cs"
    using queue_invD(1,4) [OF Q] by (fastforce simp: own_queues_def list_all_iff map_of_eq_Some_iff)
  have d: "keys_distinct cs" using replay_invD(2) [OF R] by (simp add: keys_distinct_def)
  show ?thesis
    using normalize_follows [OF d assms(3), of H] own normalize_noop [OF assms(1) R] import_claims_valid [OF R]
      stats_unchanged [OF _ assms(3,4)]
    by (auto split: sum.splits)
qed

lemma take_all_replays:
  assumes "distinct order" "set order = fst ` set results" "distinct (map fst results)"
  shows "take_replays H order results = Inr (map (\<lambda>k. ReplayRecord_from_command H (the (map_of results k))) order)"
  using assms
proof (induction order arbitrary: results)
  case (Cons k order)
  then obtain c where c: "map_of results k = Some c" by (metis domD dom_map_of_conv_image_fst list.set_intros(1))
  have "set order = fst ` set (AList.delete k results)" using Cons.prems by (auto simp: alist_delete_filter)
  moreover have "distinct (map fst (AList.delete k results))" using Cons.prems(3) by (rule distinct_delete)
  ultimately have "take_replays H order (AList.delete k results)
      = Inr (map (\<lambda>k'. ReplayRecord_from_command H (the (map_of (AList.delete k results) k'))) order)"
    using Cons.IH Cons.prems(1) by simp
  moreover have "map_of (AList.delete k results) k' = map_of results k'" if "k' \<in> set order" for k'
    using that Cons.prems(1) by (auto simp: map_of_del)
  ultimately show ?case using c by simp
qed simp

lemma parse_own_state:
  assumes ok: "stored_ok H st" and uniq: "inj (cid_text T)" and hex: "hex_text H"
    and J: "sj_parse J body = Some raw" "sj_decode J raw = Some st" "fingerprint_stats H raw = Inr s"
  shows "parse_legacy_json H T J body = Inr (snapshot_of H (bt_of_list (stored_devices st))
      (bt_of_list (queues (stored_commands st))) (retained (stored_commands st)), s)"
proof -
  let ?cs = "stored_commands st"
  have inv: "command_inv H ?cs" and ri: "replay_inv H MAX_IDEMPOTENCY_RESULTS ?cs" using ok by (simp_all add: stored_ok_def command_inv_def)
  note R = replay_invD [OF ri] and S = fingerprint_stats_counts [OF J(3)]
  have "take_replays H (idempotency_order ?cs) (idempotency_results ?cs) = Inr (map (ReplayRecord_from_command H) (retained ?cs))"
    using take_all_replays [OF R(8,9,2), of H] by (simp add: retained_def comp_def)
  moreover have "snapshot_from_parts H T (bt_of_list (stored_devices st)) (bt_of_list (queues ?cs))
      (map (ReplayRecord_from_command H) (retained ?cs))
    = Inr (snapshot_of H (bt_of_list (stored_devices st)) (bt_of_list (queues ?cs)) (retained ?cs))"
  proof -
    note wf = stored_parts_wf [OF ok uniq]
    have "\<not> list_ex (\<lambda>(_, queue). length queue > 2 ^ 32) (bt_of_list (queues ?cs))"
      using wf by (fastforce simp: snapshot_wf_def queue_wf_def list_ex_iff)
    then show ?thesis using snapshot_accepted [OF wf] by (simp add: snapshot_from_parts_def)
  qed
  ultimately show ?thesis
    using J normalize_own_state [OF hex inv S(1,2)] by (simp add: parse_legacy_json_def ok_or_def map_err_def)
qed

section \<open>Importing into an empty database\<close>

definition no_rows :: SnapshotRows where
  "no_rows = \<lparr>rows_devices = [], rows_command_results = [], rows_idempotency_claims = [], rows_pending_commands = []\<rparr>"

text \<open>Every snapshot has a text, and only the empty one has the text of the empty one.\<close>

definition document_ok :: "StateJson \<Rightarrow> bool" where
  "document_ok J = (\<forall>rows. sj_document J rows \<noteq> None \<and> (sj_document J rows = sj_document J no_rows \<longrightarrow> rows = no_rows))"

text \<open>The text of the state that the tables hold reads back as that state, and its fingerprints are acceptable.\<close>

definition rollback_text_ok :: "Hashing \<Rightarrow> Codec \<Rightarrow> StateJson \<Rightarrow> RelationalState \<Rightarrow> bool" where
  "rollback_text_ok H T J t =
     (\<forall>snap st. load_snapshot sql_healthy H T t = Inr snap \<longrightarrow> json_backend_state H snap = Inr st \<longrightarrow>
       (\<exists>body raw s. sj_print J st = Some body \<and> sj_parse J body = Some raw \<and> sj_decode J raw = Some st
          \<and> fingerprint_stats H raw = Inr s))"

lemma load_empty: "load_snapshot sql_healthy H T empty_tables = Inr \<lparr>snap_devices = [], snap_queues = [], snap_replay_records = []\<rparr>"
  by (simp add: load_snapshot_def sql_healthy_def load_rows_def empty_tables_def validate_rows_def collect_replay_def map_err_def)

lemma empty_snapshot_rows: "snapshot_rows \<lparr>snap_devices = [], snap_queues = [], snap_replay_records = []\<rparr> = no_rows"
  by (simp add: snapshot_rows_def snapshot_row_defs no_rows_def)

lemma materialize_no_rows: "snapshot_rows snap = no_rows \<Longrightarrow> materialize H T snap = empty_tables"
  by (simp add: materialize_def no_rows_def empty_tables_def Let_def bt_of_list_def)

lemma load_stored:
  assumes ok: "stored_ok H st" and T: "codec_texts T" "codec_reads T st" and hex: "hex_reads H"
  shows "load_snapshot sql_healthy H T (stored_tables H T st) = Inr (snapshot_of H (bt_of_list (stored_devices st))
      (bt_of_list (queues (stored_commands st))) (retained (stored_commands st)))"
proof -
  have R: "replay_inv H MAX_IDEMPOTENCY_RESULTS (stored_commands st)" "device_inv (stored_devices st)"
    using ok by (simp_all add: stored_ok_def command_inv_def)
  have dev: "\<forall>(_, d)\<in>set (bt_of_list (stored_devices st)). decode_device T (encode_device T d) = Some d"
    using T(2) set_bt_of_list [of "stored_devices st"] R(2) by (simp add: codec_reads_def device_inv_def)
  have cmd: "\<forall>c\<in>set (retained (stored_commands st)). decode_command T (encode_command T c) = Some c"
    using T(2) retained_facts(2) [OF R(1)] map_of_SomeD [of "idempotency_results (stored_commands st)"]
    unfolding codec_reads_def by fast
  have "\<forall>i. cid_parse T (cid_text T i) = Some i" using T(2) by (simp add: codec_reads_def)
  moreover have "inj (cid_text T)" using T(1) by (simp add: codec_texts_def)
  ultimately show ?thesis using load_healthy [OF stored_parts_wf [OF ok] hex _ dev cmd] by (simp add: stored_tables_def)
qed

lemma codec_reads_same:
  assumes "codec_reads T st" "same_stored st st'" "stored_ok H st'"
  shows "codec_reads T st'"
proof -
  have d: "distinct (map fst (stored_devices st'))" "distinct (map fst (idempotency_results (stored_commands st')))"
    using assms(3) replay_invD(2) by (auto simp: stored_ok_def device_inv_def command_inv_def)
  have "set (stored_devices st') \<subseteq> set (stored_devices st)"
    "set (idempotency_results (stored_commands st')) \<subseteq> set (idempotency_results (stored_commands st))"
    using d assms(2) by (auto simp: same_stored_def dest!: map_of_is_SomeI dest: map_of_SomeD)
  then show ?thesis using assms(1) unfolding codec_reads_def by blast
qed

lemma import_own_state:
  assumes ok: "stored_ok H st" and T: "codec_texts T" "codec_reads T st" and hex: "hex_text H" "hex_reads H" and doc: "document_ok J"
    and J: "sj_parse J body = Some raw" "sj_decode J raw = Some st" "fingerprint_stats H raw = Inr s"
    and db: "db_tables db = empty_tables" "db_env db = []"
  shows "\<exists>r db'. import_legacy_json H T J body db = (Inr r, db') \<and> db_tables db' = stored_tables H T st \<and> report_migration r = s"
proof -
  have uniq: "inj (cid_text T)" using T by (simp add: codec_texts_def)
  let ?ds = "bt_of_list (stored_devices st)" and ?qs = "bt_of_list (queues (stored_commands st))" and ?cs = "retained (stored_commands st)"
  let ?snap = "snapshot_of H ?ds ?qs ?cs"
  note wf = stored_parts_wf [OF ok uniq]
  note load = load_stored [OF ok T hex(2)] and replace = replace_healthy [OF wf T(1)]
  note parse = parse_own_state [OF ok uniq hex(1) J]
  obtain expected where e: "sj_document J (snapshot_rows ?snap) = Some expected" using doc by (auto simp: document_ok_def)
  obtain e0 where e0: "sj_document J no_rows = Some e0" using doc by (auto simp: document_ok_def)
  have env: "next_env db = sql_healthy" "db\<lparr>db_env := tl (db_env db)\<rparr> = db" using db(2) by (simp_all add: next_env_def)
  have first: "db_load H T db = (Inr \<lparr>snap_devices = [], snap_queues = [], snap_replay_records = []\<rparr>, db)"
    using env load_empty db(1) by (simp add: db_load_def)
  show ?thesis
  proof (cases "e0 = expected")
    case True
    then have "snapshot_rows ?snap = no_rows" using doc e e0 by (simp add: document_ok_def)
    then have "stored_tables H T st = empty_tables" unfolding stored_tables_def by (rule materialize_no_rows)
    then show ?thesis
      using parse e e0 first True db(1) empty_snapshot_rows by (simp add: import_legacy_json_def to_canonical_json_def ok_or_def)
  next
    case False
    let ?db1 = "db\<lparr>db_tables := stored_tables H T st\<rparr>"
    have env1: "next_env ?db1 = sql_healthy" "?db1\<lparr>db_env := tl (db_env ?db1)\<rparr> = ?db1" using db(2) by (simp_all add: next_env_def)
    have "db_replace H T ?snap db = (Inr (), ?db1)"
      using replace [of "db_tables db"] env db(2) by (simp add: db_replace_def stored_tables_def)
    moreover have "db_load H T ?db1 = (Inr ?snap, ?db1)"
      unfolding db_load_def env1 using load by simp
    ultimately have "import_write H T J ?snap expected db = (Inr Imported, ?db1)"
      using e by (simp add: import_write_def to_canonical_json_def ok_or_def)
    then show ?thesis
      using parse e e0 first False empty_snapshot_rows
      by (simp add: import_legacy_json_def to_canonical_json_def ok_or_def snapshot_is_empty_def)
  qed
qed

section \<open>The state of a rollback\<close>

definition rolled_back :: "Hashing \<Rightarrow> queue_tree \<Rightarrow> DeviceCommand list \<Rightarrow> CommandState" where
  "rolled_back H qs cs =
     \<lparr>queues = qs, idempotency = bt_of_list (map (\<lambda>c. (legacy_scope_for_command c, cmd_command_id c)) cs),
      idempotency_results = bt_of_list (map (\<lambda>c. (canonical_scope H c, c)) cs),
      idempotency_order = map (canonical_scope H) cs\<rparr>"

lemma fold_rollback:
  assumes "distinct (map (canonical_scope H) cs)" "distinct (map legacy_scope_for_command cs)"
  shows "fold_result (json_backend_replay H) (map (ReplayRecord_from_command H) cs) (CommandState_default\<lparr>queues := qs\<rparr>)
       = Inr (rolled_back H qs cs)"
  using assms
proof (induction cs rule: rev_induct)
  case (snoc c cs)
  have "map_of (bt_of_list (map (\<lambda>c. (canonical_scope H c, c)) cs)) (canonical_scope H c) = None"
    "map_of (bt_of_list (map (\<lambda>c. (legacy_scope_for_command c, cmd_command_id c)) cs)) (legacy_scope_for_command c) = None"
    using snoc.prems by (auto intro!: map_of_tagged_None)
  then show ?case
    using snoc by (simp add: fold_result_append json_backend_replay_def Let_def display_digest rolled_back_def bt_of_list_snoc)
qed (simp add: rolled_back_def CommandState_default_def bt_of_list_def)

lemma rollback_state:
  assumes ok: "stored_ok H st" and uniq: "inj (cid_text T)"
  obtains st' where "json_backend_state H (snapshot_of H (bt_of_list (stored_devices st))
      (bt_of_list (queues (stored_commands st))) (retained (stored_commands st))) = Inr st'"
    "stored_ok H st'" "same_stored st st'" "stored_tables H T st' = stored_tables H T st"
proof -
  let ?ds = "bt_of_list (stored_devices st)" and ?qs = "bt_of_list (queues (stored_commands st))" and ?cs = "retained (stored_commands st)"
  let ?sorted = "scope_sorted H ?cs"
  have ri: "replay_inv H MAX_IDEMPOTENCY_RESULTS (stored_commands st)" using ok by (simp add: stored_ok_def command_inv_def)
  note R = replay_invD [OF ri] and F = retained_facts [OF ri]
  have sc: "distinct (map (canonical_scope H) ?cs)" using F(1) R(8) by simp
  have "inj_on legacy_scope_for_command (set ?cs)"
    using legacy_inject [OF ri] F(2) map_of_SomeD [of "idempotency_results (stored_commands st)"] by (intro inj_onI) blast
  then have leg: "distinct (map legacy_scope_for_command ?cs)" using sc by (simp add: distinct_map)
  note S = scope_sorted_mset [OF sc]
  have scs: "distinct (map (canonical_scope H) ?sorted)" using S(3) by (simp add: strict_sorted_iff)
  have legs: "distinct (map legacy_scope_for_command ?sorted)" using leg scs S(1) by (simp add: distinct_map)
  let ?st0 = "\<lparr>stored_devices = ?ds, stored_commands = restored H ?qs ?sorted\<rparr>"
  let ?st' = "\<lparr>stored_devices = ?ds, stored_commands = rolled_back H ?qs ?sorted\<rparr>"
  have st0: "stored_ok H ?st0" "same_stored st ?st0"
    using restart [OF ok uniq] snapshot_taken [OF ok uniq] snapshot_restored [OF sc leg, of ?ds ?qs] by (metis sum.inject(2))+
  have maps: "map_of (idempotency (rolled_back H ?qs ?sorted)) = map_of (idempotency (restored H ?qs ?sorted))"
    "map_of (idempotency_results (rolled_back H ?qs ?sorted)) = map_of (idempotency_results (restored H ?qs ?sorted))"
    using scs legs by (simp_all add: rolled_back_def restored_def map_of_bt_of_list comp_def)
  have "command_inv H (rolled_back H ?qs ?sorted)"
  proof (rule command_inv_perm [OF _ _ _ _ _ _ maps])
    show "command_inv H (restored H ?qs ?sorted)" using st0(1) by (simp add: stored_ok_def)
  qed (use scs in \<open>simp_all add: rolled_back_def restored_def bt_ok_distinct\<close>)
  moreover have "set (idempotency_results (rolled_back H ?qs ?sorted)) = set (idempotency_results (restored H ?qs ?sorted))"
    using scs by (simp add: rolled_back_def restored_def set_bt_of_list comp_def)
  ultimately have ok': "stored_ok H ?st'" using st0(1) by (simp add: stored_ok_def stored_named_def list_all_iff)
  have same: "same_stored st ?st'" using st0(2) maps by (simp add: same_stored_def) (simp add: rolled_back_def restored_def)
  have "retained (rolled_back H ?qs ?sorted) = ?sorted"
  proof -
    have "the (map_of (idempotency_results (rolled_back H ?qs ?sorted)) (canonical_scope H c)) = c" if "c \<in> set ?sorted" for c
      using map_of_tagged_mem [OF scs that, of "\<lambda>c. c"] by (simp add: rolled_back_def)
    then show ?thesis by (simp add: retained_def rolled_back_def map_idI)
  qed
  then have "stored_tables H T ?st' = stored_tables H T st"
    using scope_sorted_id [OF S(3)]
    by (simp add: stored_tables_def snapshot_of_def) (simp add: rolled_back_def bt_of_list_id [OF bt_of_list_ok])
  moreover have "json_backend_state H (snapshot_of H ?ds ?qs ?cs) = Inr ?st'"
    using fold_rollback [OF scs legs, of ?qs] by (simp add: json_backend_state_def snapshot_of_def)
  ultimately show ?thesis using that ok' same by blast
qed

section \<open>What an import does to the tables\<close>

lemma load_any_env: "load_snapshot env H T t = Inr x \<Longrightarrow> load_snapshot sql_healthy H T t = Inr x"
  by (auto simp: load_snapshot_def sql_healthy_def and_then_Inr_iff split: if_splits)

lemma db_replace_cases:
  assumes "db_replace H T snap db = (r, db')"
  shows "(db_tables db' = db_tables db \<and> (\<exists>e. r = Inl e))
    \<or> (r = Inr () \<and> replace_rows H T (snapshot_rows snap) (db_tables db) = Inr (db_tables db'))"
  using assms by (auto simp: db_replace_def replace_snapshot_def and_then_Inr_iff map_err_def split: sum.splits if_splits)

lemma import_write_cases:
  assumes "import_write H T J snap expected db = (r, db')"
  shows "db_tables db' = db_tables db \<or> replace_rows H T (snapshot_rows snap) (db_tables db) = Inr (db_tables db')"
    and "r = Inr outcome \<Longrightarrow> \<exists>x. load_snapshot sql_healthy H T (db_tables db') = Inr x \<and> to_canonical_json J x = Inr expected"
proof -
  obtain r1 db1 where one: "db_replace H T snap db = (r1, db1)" by force
  have tables: "db_tables db' = db_tables db1"
    using assms one by (auto simp: import_write_def db_load_def split: sum.splits)
  then show "db_tables db' = db_tables db \<or> replace_rows H T (snapshot_rows snap) (db_tables db) = Inr (db_tables db')"
    using db_replace_cases [OF one] by auto
  show "\<exists>x. load_snapshot sql_healthy H T (db_tables db') = Inr x \<and> to_canonical_json J x = Inr expected" if "r = Inr outcome"
    using assms one tables that load_any_env
    by (fastforce simp: import_write_def db_load_def and_then_Inr_iff split: sum.splits if_splits)
qed

text \<open>The tables held no state and now hold the rows of the file's snapshot.\<close>

definition first_import :: "Hashing \<Rightarrow> Codec \<Rightarrow> StateJson \<Rightarrow> bytes \<Rightarrow> SqliteDb \<Rightarrow> RelationalState \<Rightarrow> bool" where
  "first_import H T J body db t \<longleftrightarrow>
     (\<exists>snapshot migration existing. parse_legacy_json H T J body = Inr (snapshot, migration)
        \<and> load_snapshot (next_env db) H T (db_tables db) = Inr existing \<and> snapshot_is_empty existing
        \<and> replace_rows H T (snapshot_rows snapshot) (db_tables db) = Inr t)"

text \<open>The tables hold the state of the file, and this is the report on it.\<close>

definition already_held :: "Hashing \<Rightarrow> Codec \<Rightarrow> StateJson \<Rightarrow> bytes \<Rightarrow> RelationalState \<Rightarrow> LegacyJsonImportReport \<Rightarrow> bool" where
  "already_held H T J body t report \<longleftrightarrow>
     (\<exists>snapshot migration expected x. parse_legacy_json H T J body = Inr (snapshot, migration)
      \<and> to_canonical_json J snapshot = Inr expected \<and> load_snapshot sql_healthy H T t = Inr x \<and> to_canonical_json J x = Inr expected
      \<and> report\<lparr>report_outcome := AlreadyImported\<rparr> = \<lparr>report_outcome = AlreadyImported, report_devices = length (snap_devices snapshot),
           report_pending_commands = pending_in snapshot, report_replay_records = length (snap_replay_records snapshot), report_migration = migration\<rparr>)"

lemma import_cases:
  assumes "import_legacy_json H T J body db = (r, db')"
  shows "db_tables db' = db_tables db \<or> first_import H T J body db (db_tables db')"
    and "r = Inr report \<Longrightarrow> already_held H T J body (db_tables db') report"
proof -
  let ?checked = "and_then (parse_legacy_json H T J body) (\<lambda>(snapshot, migration).
      and_then (to_canonical_json J snapshot) (\<lambda>expected. Inr (snapshot, migration, expected)))"
  let ?first = "db_tables db' = db_tables db \<or> first_import H T J body db (db_tables db')"
  let ?second = "\<forall>report. r = Inr report \<longrightarrow> already_held H T J body (db_tables db') report"
  have "?first \<and> ?second"
  proof (cases ?checked)
    case (Inl e)
    then show ?thesis using assms by (auto simp: import_legacy_json_def)
  next
    case (Inr y)
    then obtain snapshot migration expected where y: "y = (snapshot, migration, expected)"
        "parse_legacy_json H T J body = Inr (snapshot, migration)" "to_canonical_json J snapshot = Inr expected"
      by (auto simp: and_then_Inr_iff)
    let ?db1 = "db\<lparr>db_env := tl (db_env db)\<rparr>"
    show ?thesis
    proof (cases "and_then (map_err ImportStore (load_snapshot (next_env db) H T (db_tables db))) (to_canonical_json J)")
      case (Inl e)
      then show ?thesis using assms Inr y
        by (auto simp: import_legacy_json_def db_load_def and_then_def map_err_def split: sum.splits)
    next
      case ex: (Inr existing_canonical)
      then obtain existing where e: "load_snapshot (next_env db) H T (db_tables db) = Inr existing"
          "to_canonical_json J existing = Inr existing_canonical"
        by (auto simp: and_then_Inr_iff map_err_def split: sum.splits)
      consider "existing_canonical = expected" | "existing_canonical \<noteq> expected" "\<not> snapshot_is_empty existing"
        | "existing_canonical \<noteq> expected" "snapshot_is_empty existing" by blast
      then show ?thesis
      proof cases
        case 1
        then show ?thesis using assms Inr y e load_any_env [OF e(1)] by (auto simp: import_legacy_json_def db_load_def already_held_def)
      next
        case 2
        then show ?thesis using assms Inr y e by (auto simp: import_legacy_json_def db_load_def)
      next
        case 3
        obtain r2 db2 where w: "import_write H T J snapshot expected ?db1 = (r2, db2)" by force
        have db2: "db' = db2" and r: "r = (case r2 of Inl e \<Rightarrow> Inl e | Inr outcome \<Rightarrow>
            Inr \<lparr>report_outcome = outcome, report_devices = length (snap_devices snapshot), report_pending_commands = pending_in snapshot,
               report_replay_records = length (snap_replay_records snapshot), report_migration = migration\<rparr>)"
          using assms Inr y e 3 w by (auto simp: import_legacy_json_def db_load_def split: sum.splits)
        have ?first using import_write_cases(1) [OF w] y(2) e(1) 3(2) db2 by (auto simp: first_import_def)
        moreover have ?second using import_write_cases(2) [OF w] y(2,3) db2 r by (auto simp: already_held_def split: sum.splits)
        ultimately show ?thesis by blast
      qed
    qed
  qed
  then show ?first and "r = Inr report \<Longrightarrow> already_held H T J body (db_tables db') report"
    by simp_all
qed

section \<open>Properties\<close>

text \<open>
  C34: The import reads a file of the JSON backend as the backend itself would.  When
  the import accepts the commands of a file, the backend's own normalisation gives the
  same queues, claims, results and order, and the two count the same repairs.  When the
  import refuses them, the backend refuses them too, or a command is queued under
  another device's name, or the claims of the normalised state do not match its results.
\<close>

theorem import_reads_as_json_backend:
  assumes "distinct (map fst (idempotency_results cs))" "fingerprint_stats H raw = Inr s"
  shows "case normalize_commands H cs s of
      Inr (cs', s') \<Rightarrow> \<exists>m. normalize_command_state H cs = Some (cs', m)
          \<and> recovered_results m = recovered_command_results s' + recovered_legacy_claims s'
          \<and> canonicalized_keys m = canonicalized_result_keys s' + removed_canonical_claim_keys s'
          \<and> (rebuilt_order m = 1) = rebuilt_result_order s' \<and> evicted_entries m = evicted_command_results s'
    | Inl _ \<Rightarrow> (\<exists>(d, q)\<in>set (queues cs). \<exists>c\<in>set q. cmd_device_id c \<noteq> d)
        \<or> (\<forall>cs' m. normalize_command_state H cs = Some (cs', m) \<longrightarrow> validate_import_claims cs' \<noteq> Inr ())"
proof -
  note S = fingerprint_stats_counts [OF assms(2)]
  have d: "keys_distinct cs" using assms(1) by (simp add: keys_distinct_def)
  have own: "\<not> own_queues cs \<longleftrightarrow> (\<exists>(d, q)\<in>set (queues cs). \<exists>c\<in>set q. cmd_device_id c \<noteq> d)"
    by (auto simp: own_queues_def list_all_iff)
  have same: "recovered_results m = recovered_command_results s' + recovered_legacy_claims s'
      \<and> canonicalized_keys m = canonicalized_result_keys s' + removed_canonical_claim_keys s'
      \<and> (rebuilt_order m = 1) = rebuilt_result_order s' \<and> evicted_entries m = evicted_command_results s'"
    if "same_counts s s' m" for s' m
    using that S(3) by (cases m) (auto simp: same_counts_def counts_of_def kept_stats_def)
  show ?thesis using normalize_follows [OF d S(1), of H] same unfolding own by (fastforce split: sum.splits)
qed


text \<open>
  An import never overwrites a state and can be repeated.  Whatever the file and
  whatever fails, the tables stay as they are, or they held no state before and now hold
  the rows of the snapshot that the file describes.  After a successful import, the same
  import over a healthy store reports that it was already done and changes nothing.
\<close>

theorem import_keeps_existing_state:
  "case import_legacy_json H T J body db of (r, db') \<Rightarrow>
     (db_tables db' = db_tables db
      \<or> (\<exists>snapshot migration existing. parse_legacy_json H T J body = Inr (snapshot, migration)
          \<and> load_snapshot (next_env db) H T (db_tables db) = Inr existing \<and> snapshot_is_empty existing
          \<and> replace_rows H T (snapshot_rows snapshot) (db_tables db) = Inr (db_tables db')))
   \<and> (case r of Inl _ \<Rightarrow> True
      | Inr report \<Rightarrow> import_legacy_json H T J body (db'\<lparr>db_env := []\<rparr>) =
          (Inr (report\<lparr>report_outcome := AlreadyImported\<rparr>), db'\<lparr>db_env := []\<rparr>))"
proof -
  obtain r db' where run: "import_legacy_json H T J body db = (r, db')" by force
  have "import_legacy_json H T J body (db'\<lparr>db_env := []\<rparr>) = (Inr (report\<lparr>report_outcome := AlreadyImported\<rparr>), db'\<lparr>db_env := []\<rparr>)"
    if ok: "r = Inr report" for report
  proof -
    from import_cases(2) [OF run ok, unfolded already_held_def] obtain snapshot migration expected x where
      x: "parse_legacy_json H T J body = Inr (snapshot, migration)" "to_canonical_json J snapshot = Inr expected"
      "load_snapshot sql_healthy H T (db_tables db') = Inr x" "to_canonical_json J x = Inr expected"
      "report\<lparr>report_outcome := AlreadyImported\<rparr> = \<lparr>report_outcome = AlreadyImported, report_devices = length (snap_devices snapshot),
           report_pending_commands = pending_in snapshot, report_replay_records = length (snap_replay_records snapshot), report_migration = migration\<rparr>"
      by blast
    have "db_load H T (db'\<lparr>db_env := []\<rparr>) = (Inr x, db'\<lparr>db_env := []\<rparr>)"
      using x(3) by (simp add: db_load_def next_env_def)
    then show ?thesis unfolding x(5) using x(1,2,4) by (simp add: import_legacy_json_def)
  qed
  then show ?thesis using run import_cases(1) [OF run] by (auto simp: first_import_def split: sum.split)
qed

section \<open>Examples\<close>

definition sample_unrecorded :: CommandState where
  "sample_unrecorded = \<lparr>queues = [(''dev'', [sample_command])], idempotency = [], idempotency_results = [], idempotency_order = []\<rparr>"

theorem import_reads_as_json_backend_witness:
  "\<exists>cs' m. normalize_command_state sample_hashing sample_unrecorded = Some (cs', m) \<and> recovered_results m = 2
     \<and> idempotency_order cs' = [canonical_scope sample_hashing sample_command]"
proof -
  let ?c = "canonical_scope sample_hashing sample_command"
  have dev: "cmd_device_id sample_command = ''dev''" by (simp add: sample_command_def sample_input_def)
  then have n: "legacy_scope_for_command sample_command \<noteq> ?c" by (intro legacy_not_canonical [OF sample_hex_text]) simp
  obtain cs' s' where r: "normalize_commands sample_hashing sample_unrecorded no_stats = Inr (cs', s')"
      "recovered_command_results s' + recovered_legacy_claims s' = 2" "idempotency_order cs' = [?c]"
    using n dev
    by (simp add: normalize_commands_def sample_unrecorded_def queued_entries_def import_queued_def ensure_legacy_claim_def import_claims_def
        import_order_def trim_results.simps validate_import_claims_def expect_claim_def no_stats_def MAX_IDEMPOTENCY_RESULTS_def Let_def)
  have "fingerprint_stats sample_hashing JNull = Inr no_stats" by (simp add: fingerprint_stats_def)
  from import_reads_as_json_backend [OF _ this, of sample_unrecorded] r show ?thesis by (simp add: sample_unrecorded_def) metis
qed

definition sample_state_json :: "StoredState \<Rightarrow> StateJson" where
  "sample_state_json st = \<lparr>sj_parse = (\<lambda>_. Some JNull), sj_decode = (\<lambda>_. Some st), sj_print = (\<lambda>_. Some ''x''),
     sj_document = (\<lambda>rows. Some (if rows = no_rows then ''0'' else ''1''))\<rparr>"

definition sample_migrate :: MigrateInputs where
  "sample_migrate = \<lparr>mi_paths = [Some ''/a'', Some ''/b''], mi_legacy_text = None, mi_is_file = True, mi_opened = True, mi_write_failure = None\<rparr>"


end
