(* ===== verification/State_Backup.thy ===== *)
theory State_Backup
  imports Legacy_Import_Inv
begin

text \<open>
  Model of opening the control plane's database
  (\<open>crates/control-plane-sqlite/src/lib.rs\<close>, \<open>integrity.rs\<close>) and of
  \<open>services/control-plane/src/bin/control-plane-state-backup.rs\<close>, which copies it for a
  backup and back.  A database file is what SQLite answers for it; the copy that
  \<open>VACUUM INTO\<close> makes is an argument.
\<close>

section \<open>Opening a database\<close>

definition SCHEMA_VERSION :: int where "SCHEMA_VERSION = 1"

definition EXPECTED_TABLES :: "string list" where
  "EXPECTED_TABLES = [''command_results'', ''devices'', ''idempotency_claims'', ''pending_commands'']"

datatype StoreError =
    StoreIo | StoreSql | InvalidValue string | UnsupportedSchemaVersion int int | UnexpectedJournalMode | UnexpectedForeignKeyState
  | UnexpectedSchema | IntegrityCheckFailed

record DbFile =
  df_user_version :: int
  df_table_names :: "string list"
  df_integrity_rows :: "string list"
  df_foreign_key_rows :: bool
  df_tables :: RelationalState

text \<open>What the library says while a file is opened.\<close>

record SqlAnswers =
  sa_directory :: bool
  sa_connects :: bool
  sa_queries :: bool
  sa_migrates :: bool
  sa_journal_mode :: string
  sa_foreign_keys :: int

definition configure_connection :: "SqlAnswers \<Rightarrow> bool \<Rightarrow> StoreError + unit" where
  "configure_connection A require_wal =
     (if \<not> sa_queries A then Inl StoreSql
      else if require_wal \<and> to_ascii_lowercase (sa_journal_mode A) \<noteq> ''wal'' then Inl UnexpectedJournalMode
      else if sa_foreign_keys A \<noteq> 1 then Inl UnexpectedForeignKeyState
      else Inr ())"

definition validate_schema :: "SqlAnswers \<Rightarrow> DbFile \<Rightarrow> StoreError + unit" where
  "validate_schema A f =
     (if \<not> sa_queries A then Inl StoreSql
      else if set (df_table_names f) \<noteq> set EXPECTED_TABLES then Inl UnexpectedSchema
      else Inr ())"

definition validate_integrity :: "SqlAnswers \<Rightarrow> DbFile \<Rightarrow> StoreError + unit" where
  "validate_integrity A f =
     (if \<not> sa_queries A then Inl StoreSql
      else if \<not> list_all (\<lambda>row. row = ''ok'') (df_integrity_rows f) \<or> length (df_integrity_rows f) \<noteq> 1
              \<or> df_foreign_key_rows f
      then Inl IntegrityCheckFailed
      else Inr ())"

text \<open>The first migration creates the four tables; it fails when one of them exists.\<close>

definition apply_migrations :: "SqlAnswers \<Rightarrow> DbFile \<Rightarrow> StoreError + DbFile" where
  "apply_migrations A f =
     (if \<not> sa_queries A then Inl StoreSql
      else if df_user_version f > SCHEMA_VERSION then Inl (UnsupportedSchemaVersion (df_user_version f) SCHEMA_VERSION)
      else if df_user_version f = 0 then
        (if \<not> sa_migrates A \<or> set (df_table_names f) \<inter> set EXPECTED_TABLES \<noteq> {} then Inl StoreSql
         else Inr (f\<lparr>df_user_version := SCHEMA_VERSION, df_table_names := df_table_names f @ EXPECTED_TABLES,
                     df_tables := empty_tables\<rparr>))
      else if df_user_version f = SCHEMA_VERSION then Inr f
      else Inl (UnsupportedSchemaVersion (df_user_version f) SCHEMA_VERSION))"

definition store_initialize :: "SqlAnswers \<Rightarrow> bool \<Rightarrow> DbFile \<Rightarrow> StoreError + DbFile" where
  "store_initialize A require_wal f =
     and_then (configure_connection A require_wal) (\<lambda>_.
     and_then (apply_migrations A f) (\<lambda>f'.
     and_then (validate_schema A f') (\<lambda>_.
     and_then (validate_integrity A f') (\<lambda>_. Inr f'))))"

definition initialize_existing :: "SqlAnswers \<Rightarrow> bool \<Rightarrow> DbFile \<Rightarrow> StoreError + unit" where
  "initialize_existing A require_wal f =
     (if \<not> sa_queries A then Inl StoreSql
      else if df_user_version f \<noteq> SCHEMA_VERSION then Inl (UnsupportedSchemaVersion (df_user_version f) SCHEMA_VERSION)
      else
        and_then (validate_schema A f) (\<lambda>_.
        and_then (validate_integrity A f) (\<lambda>_.
        configure_connection A require_wal)))"

definition store_open :: "SqlAnswers \<Rightarrow> DbFile \<Rightarrow> StoreError + DbFile" where
  "store_open A f =
     (if \<not> sa_directory A then Inl StoreIo
      else if \<not> sa_connects A then Inl StoreSql
      else store_initialize A True f)"

definition open_existing :: "SqlAnswers \<Rightarrow> DbFile \<Rightarrow> StoreError + unit" where
  "open_existing A f = (if \<not> sa_connects A then Inl StoreSql else initialize_existing A True f)"

section \<open>Validating a copy\<close>

datatype BackupError =
    BackupPath | SamePath | TargetExists | TemporaryExists | NotRegularDatabase | OpenFailed StoreError | VersionChanged
  | BackupRehydrate SnapshotStoreError | CanonicalFailed | ParentNotCreated | VacuumFailed | ParityFailed | MetadataFailed
  | NotPublished | ParentNotSynced

datatype Entry = DatabaseEntry DbFile | OtherThing

record ValidatedState =
  vs_canonical :: bytes
  vs_devices :: nat
  vs_pending_commands :: nat
  vs_replay_records :: nat

definition validate_state ::
  "Hashing \<Rightarrow> Codec \<Rightarrow> StateJson \<Rightarrow> SqlAnswers \<Rightarrow> SqlEnv \<Rightarrow> Entry option \<Rightarrow> BackupError + ValidatedState" where
  "validate_state H T J A env entry =
     (case entry of
        Some (DatabaseEntry f) \<Rightarrow>
          and_then (map_err OpenFailed (open_existing A f)) (\<lambda>_.
          if df_user_version f \<noteq> SCHEMA_VERSION then Inl VersionChanged
          else
            and_then (map_err BackupRehydrate (load_snapshot env H T (df_tables f))) (\<lambda>snapshot.
            and_then (ok_or CanonicalFailed (sj_document J (snapshot_rows snapshot))) (\<lambda>canonical.
            Inr \<lparr>vs_canonical = canonical, vs_devices = length (snap_devices snapshot), vs_pending_commands = pending_in snapshot,
                 vs_replay_records = length (snap_replay_records snapshot)\<rparr>)))
      | _ \<Rightarrow> Inl NotRegularDatabase)"

section \<open>Backup and restore\<close>

record BackupFiles =
  bf_source :: "Entry option"
  bf_target :: "Entry option"
  bf_temporary :: "Entry option"
  bf_sidecars :: bool

text \<open>
  What the system answers in one run: the absolute paths, the library at each of the
  three times a file is opened and at the two times one is read, what \<open>VACUUM INTO\<close>
  leaves of the copy and whether it succeeded, and the file operations at the end.
\<close>

record BackupEnv =
  be_absolute :: "(string \<times> string) option"
  be_source_answers :: SqlAnswers
  be_copy_answers :: SqlAnswers
  be_candidate_answers :: SqlAnswers
  be_source_env :: SqlEnv
  be_candidate_env :: SqlEnv
  be_parent :: bool
  be_vacuum :: "DbFile \<Rightarrow> bool \<times> Entry option"
  be_sidecars :: bool
  be_removes :: bool
  be_metadata :: "nat option"
  be_renames :: bool
  be_syncs :: bool

definition ensure_distinct_paths :: "BackupEnv \<Rightarrow> BackupError + unit" where
  "ensure_distinct_paths E =
     (case be_absolute E of
        None \<Rightarrow> Inl BackupPath
      | Some (left, right) \<Rightarrow> if left = right then Inl SamePath else Inr ())"

definition ensure_new_target :: "BackupFiles \<Rightarrow> BackupError + unit" where
  "ensure_new_target fs =
     (if bf_target fs \<noteq> None then Inl TargetExists
      else if bf_temporary fs \<noteq> None \<or> bf_sidecars fs then Inl TemporaryExists
      else Inr ())"

definition copy_database :: "BackupEnv \<Rightarrow> Entry option \<Rightarrow> (BackupError + unit) \<times> Entry option" where
  "copy_database E entry =
     (case entry of
        Some (DatabaseEntry f) \<Rightarrow>
          (case open_existing (be_copy_answers E) f of
             Inl e \<Rightarrow> (Inl (OpenFailed e), None)
           | Inr _ \<Rightarrow> (case be_vacuum E f of (ok, left) \<Rightarrow> (if ok then Inr () else Inl VacuumFailed, left)))
      | _ \<Rightarrow> (Inl (OpenFailed StoreSql), None))"

definition cleanup_temporary :: "BackupEnv \<Rightarrow> BackupFiles \<Rightarrow> BackupFiles" where
  "cleanup_temporary E fs = (if be_removes E then fs\<lparr>bf_temporary := None, bf_sidecars := False\<rparr> else fs)"

definition publish_copy :: "BackupEnv \<Rightarrow> BackupFiles \<Rightarrow> (BackupError + unit) \<times> BackupFiles" where
  "publish_copy E fs =
     (let fs1 = (if be_removes E then fs\<lparr>bf_sidecars := False\<rparr> else fs) in
      if \<not> be_renames E then (Inl NotPublished, fs1)
      else
        let fs2 = fs1\<lparr>bf_target := bf_temporary fs1, bf_temporary := None\<rparr> in
        (if be_syncs E then Inr () else Inl ParentNotSynced, fs2))"

definition backup_checks ::
  "Hashing \<Rightarrow> Codec \<Rightarrow> StateJson \<Rightarrow> BackupEnv \<Rightarrow> BackupFiles \<Rightarrow> BackupError + ValidatedState" where
  "backup_checks H T J E fs =
     and_then (ensure_distinct_paths E) (\<lambda>_.
     and_then (ensure_new_target fs) (\<lambda>_.
     and_then (validate_state H T J (be_source_answers E) (be_source_env E) (bf_source fs)) (\<lambda>source.
     if be_parent E then Inr source else Inl ParentNotCreated)))"

definition candidate_checks ::
  "Hashing \<Rightarrow> Codec \<Rightarrow> StateJson \<Rightarrow> BackupEnv \<Rightarrow> ValidatedState \<Rightarrow> Entry option \<Rightarrow> BackupError + unit" where
  "candidate_checks H T J E source entry =
     and_then (validate_state H T J (be_candidate_answers E) (be_candidate_env E) entry) (\<lambda>candidate.
     if vs_canonical source \<noteq> vs_canonical candidate then Inl ParityFailed else Inr ())"

definition materialize_validated ::
  "Hashing \<Rightarrow> Codec \<Rightarrow> StateJson \<Rightarrow> BackupEnv \<Rightarrow> BackupFiles \<Rightarrow> (BackupError + ValidatedState \<times> nat) \<times> BackupFiles" where
  "materialize_validated H T J E fs =
     (case backup_checks H T J E fs of
        Inl e \<Rightarrow> (Inl e, fs)
      | Inr source \<Rightarrow>
          (case copy_database E (bf_source fs) of
             (Inl e, left) \<Rightarrow> (Inl e, cleanup_temporary E (fs\<lparr>bf_temporary := left\<rparr>))
           | (Inr _, left) \<Rightarrow>
               let fs1 = fs\<lparr>bf_temporary := left, bf_sidecars := be_sidecars E\<rparr> in
               (case candidate_checks H T J E source left of
                  Inl e \<Rightarrow> (Inl e, cleanup_temporary E fs1)
                | Inr _ \<Rightarrow>
                    (case be_metadata E of
                       None \<Rightarrow> (Inl MetadataFailed, fs1)
                     | Some bytes \<Rightarrow>
                         (case publish_copy E fs1 of
                            (Inl e, fs2) \<Rightarrow> (Inl e, fs2)
                          | (Inr _, fs2) \<Rightarrow> (Inr (source, bytes), fs2))))))"

text \<open>A restore is the same run with the backup as its source and the database as its target.\<close>

definition restore_from :: "Entry option \<Rightarrow> BackupFiles" where
  "restore_from backup = \<lparr>bf_source = backup, bf_target = None, bf_temporary = None, bf_sidecars = False\<rparr>"

section \<open>What is published\<close>

lemma validate_state_Inr:
  assumes "validate_state H T J A env entry = Inr v"
  obtains f snapshot where "entry = Some (DatabaseEntry f)" "open_existing A f = Inr ()" "load_snapshot env H T (df_tables f) = Inr snapshot"
    "sj_document J (snapshot_rows snapshot) = Some (vs_canonical v)"
  using assms by (auto simp: validate_state_def and_then_Inr_iff map_err_def ok_or_def split: option.splits Entry.splits sum.splits if_splits)

lemma publish_cases:
  assumes "publish_copy E fs = (r, fs')"
  shows "(bf_target fs' = bf_target fs \<and> r = Inl NotPublished \<and> bf_temporary fs' = bf_temporary fs)
    \<or> (bf_target fs' = bf_temporary fs \<and> bf_temporary fs' = None \<and> r \<in> {Inr (), Inl ParentNotSynced})"
    and "bf_source fs' = bf_source fs"
  using assms by (auto simp: publish_copy_def Let_def split: if_splits)

lemma backup_checks_Inr:
  assumes "backup_checks H T J E fs = Inr source"
  shows "bf_target fs = None" "bf_temporary fs = None" "\<not> bf_sidecars fs"
    "validate_state H T J (be_source_answers E) (be_source_env E) (bf_source fs) = Inr source"
  using assms by (auto simp: backup_checks_def ensure_new_target_def and_then_Inr_iff split: if_splits)

lemma candidate_checks_Inr:
  assumes "candidate_checks H T J E source entry = Inr ()"
  obtains candidate where "validate_state H T J (be_candidate_answers E) (be_candidate_env E) entry = Inr candidate"
    "vs_canonical source = vs_canonical candidate"
  using assms by (auto simp: candidate_checks_def and_then_Inr_iff split: if_splits)

lemma cleanup_keeps [simp]:
  "bf_source (cleanup_temporary E fs) = bf_source fs" "bf_target (cleanup_temporary E fs) = bf_target fs"
  by (simp_all add: cleanup_temporary_def)

lemma materialize_cases:
  assumes "materialize_validated H T J E fs = (r, fs')"
  shows "bf_source fs' = bf_source fs \<and>
    ((bf_target fs' = bf_target fs \<and> (\<exists>e. r = Inl e \<and> e \<noteq> ParentNotSynced) \<and> (r = Inl NotPublished \<longrightarrow> bf_temporary fs' \<noteq> None))
     \<or> (\<exists>source candidate. (is_Ok r \<or> r = Inl ParentNotSynced) \<and> bf_target fs = None \<and> bf_temporary fs' = None
          \<and> validate_state H T J (be_source_answers E) (be_source_env E) (bf_source fs) = Inr source
          \<and> validate_state H T J (be_candidate_answers E) (be_candidate_env E) (bf_target fs') = Inr candidate
          \<and> vs_canonical source = vs_canonical candidate))"
proof (cases "backup_checks H T J E fs")
  case (Inl e)
  then have "e \<noteq> ParentNotSynced \<and> e \<noteq> NotPublished"
    by (auto simp: backup_checks_def ensure_distinct_paths_def ensure_new_target_def validate_state_def and_then_def map_err_def ok_or_def
        split: option.splits if_splits prod.splits sum.splits Entry.splits)
  then show ?thesis using assms Inl by (auto simp: materialize_validated_def)
next
  case (Inr source)
  note C = backup_checks_Inr [OF Inr]
  obtain c left where copy: "copy_database E (bf_source fs) = (c, left)" by force
  show ?thesis
  proof (cases c)
    case (Inl e)
    then have "e \<noteq> ParentNotSynced \<and> e \<noteq> NotPublished" using copy by (auto simp: copy_database_def split: option.splits Entry.splits sum.splits prod.splits if_splits)
    then show ?thesis using assms Inr copy Inl by (auto simp: materialize_validated_def)
  next
    case ok: (Inr u)
    let ?fs1 = "fs\<lparr>bf_temporary := left, bf_sidecars := be_sidecars E\<rparr>"
    show ?thesis
    proof (cases "candidate_checks H T J E source left")
      case (Inl e)
      then have "e \<noteq> ParentNotSynced \<and> e \<noteq> NotPublished"
        by (auto simp: candidate_checks_def validate_state_def and_then_def map_err_def ok_or_def
            split: option.splits if_splits sum.splits Entry.splits)
      then show ?thesis using assms Inr copy ok Inl by (auto simp: materialize_validated_def Let_def)
    next
      case cand: (Inr w)
      obtain candidate where v: "validate_state H T J (be_candidate_answers E) (be_candidate_env E) left = Inr candidate"
        "vs_canonical source = vs_canonical candidate" using candidate_checks_Inr [OF cand [unfolded unit_eq [of w]]] .
      have "left \<noteq> None" using validate_state_Inr [OF v(1)] by blast
      obtain pr fs2 where pub: "publish_copy E ?fs1 = (pr, fs2)" by force
      show ?thesis
        using assms Inr copy ok cand C v \<open>left \<noteq> None\<close> publish_cases [OF pub] pub
        by (auto simp: materialize_validated_def Let_def split: option.splits sum.splits)
    qed
  qed
qed

text \<open>
  What a backup or a restore publishes is a verified copy.  The source is never
  changed.  A target appears exactly when the run succeeds or only the last sync of the
  directory fails; then there was none before, source and target both pass every check
  of an existing database, and their canonical texts are equal.
\<close>

theorem published_copy_matches_source:
  "case materialize_validated H T J E fs of (r, fs') \<Rightarrow>
     bf_source fs' = bf_source fs
   \<and> (is_Ok r \<or> r = Inl ParentNotSynced) = (bf_target fs' \<noteq> bf_target fs)
   \<and> (bf_target fs' = bf_target fs
      \<or> (\<exists>source candidate f g. bf_source fs = Some (DatabaseEntry f) \<and> bf_target fs' = Some (DatabaseEntry g) \<and> bf_target fs = None
          \<and> validate_state H T J (be_source_answers E) (be_source_env E) (Some (DatabaseEntry f)) = Inr source
          \<and> validate_state H T J (be_candidate_answers E) (be_candidate_env E) (Some (DatabaseEntry g)) = Inr candidate
          \<and> vs_canonical source = vs_canonical candidate))"
proof -
  obtain r fs' where run: "materialize_validated H T J E fs = (r, fs')" by force
  note C = materialize_cases [OF run]
  then consider (kept) "bf_source fs' = bf_source fs" "bf_target fs' = bf_target fs" "\<exists>e. r = Inl e \<and> e \<noteq> ParentNotSynced"
    | (copied) source candidate where "bf_source fs' = bf_source fs" "is_Ok r \<or> r = Inl ParentNotSynced" "bf_target fs = None"
        "validate_state H T J (be_source_answers E) (be_source_env E) (bf_source fs) = Inr source"
        "validate_state H T J (be_candidate_answers E) (be_candidate_env E) (bf_target fs') = Inr candidate"
        "vs_canonical source = vs_canonical candidate"
    by blast
  then show ?thesis
  proof cases
    case kept
    then show ?thesis using run by auto
  next
    case copied
    obtain f where f: "bf_source fs = Some (DatabaseEntry f)" using validate_state_Inr [OF copied(4)] by blast
    obtain g where g: "bf_target fs' = Some (DatabaseEntry g)" using validate_state_Inr [OF copied(5)] by blast
    show ?thesis using run copied f g by auto
  qed
qed

text \<open>
  A run whose rename fails leaves its temporary file behind, unlike every other
  failure.  From then on no run with the same target succeeds.
\<close>

theorem failed_rename_blocks_backups:
  assumes "materialize_validated H T J E fs = (Inl NotPublished, fs')"
  shows "\<exists>e. fst (materialize_validated H T J E' fs') = Inl e"
proof -
  have "bf_temporary fs' \<noteq> None"
    using materialize_cases [OF assms] by auto
  then have "\<exists>e. backup_checks H T J E' fs' = Inl e"
    by (auto simp: backup_checks_def ensure_new_target_def and_then_def split: sum.splits)
  then show ?thesis by (auto simp: materialize_validated_def)
qed

section \<open>Backups of a running control plane\<close>

definition good_file :: "DbFile \<Rightarrow> bool" where
  "good_file f = (df_user_version f = SCHEMA_VERSION \<and> set (df_table_names f) = set EXPECTED_TABLES \<and> df_integrity_rows f = [''ok'']
     \<and> \<not> df_foreign_key_rows f)"

definition good_answers :: "SqlAnswers \<Rightarrow> bool" where
  "good_answers A = (sa_connects A \<and> sa_queries A \<and> to_ascii_lowercase (sa_journal_mode A) = ''wal'' \<and> sa_foreign_keys A = 1)"

text \<open>Nothing fails, and the copy of a sound database is a sound database with the same rows.\<close>

definition healthy_run :: "BackupEnv \<Rightarrow> bool" where
  "healthy_run E =
     (is_Ok (ensure_distinct_paths E) \<and> good_answers (be_source_answers E) \<and> good_answers (be_copy_answers E) \<and> good_answers (be_candidate_answers E)
      \<and> be_source_env E = sql_healthy \<and> be_candidate_env E = sql_healthy \<and> be_parent E \<and> be_metadata E \<noteq> None \<and> be_renames E \<and> be_syncs E
      \<and> (\<forall>f. good_file f \<longrightarrow> (\<exists>g. be_vacuum E f = (True, Some (DatabaseEntry g)) \<and> good_file g \<and> df_tables g = df_tables f)))"

lemma open_good: "good_file f \<Longrightarrow> good_answers A \<Longrightarrow> open_existing A f = Inr ()"
  by (simp add: open_existing_def initialize_existing_def good_file_def good_answers_def validate_schema_def validate_integrity_def configure_connection_def)

lemma validate_good:
  assumes "good_file f" "good_answers A" "load_snapshot sql_healthy H T (df_tables f) = Inr snap" "sj_document J (snapshot_rows snap) = Some canonical"
  shows "validate_state H T J A sql_healthy (Some (DatabaseEntry f)) = Inr \<lparr>vs_canonical = canonical, vs_devices = length (snap_devices snap),
     vs_pending_commands = pending_in snap, vs_replay_records = length (snap_replay_records snap)\<rparr>"
  using assms open_good [OF assms(1,2)] by (simp add: validate_state_def map_err_def ok_or_def) (simp add: good_file_def)

lemma healthy_copy:
  assumes E: "healthy_run E" and f: "good_file f" and load: "load_snapshot sql_healthy H T (df_tables f) = Inr snap"
    and doc: "sj_document J (snapshot_rows snap) = Some canonical"
  shows "\<exists>g v bytes fs'. materialize_validated H T J E (restore_from (Some (DatabaseEntry f))) = (Inr (v, bytes), fs')
     \<and> bf_target fs' = Some (DatabaseEntry g) \<and> good_file g \<and> df_tables g = df_tables f"
proof -
  obtain g where g: "be_vacuum E f = (True, Some (DatabaseEntry g))" "good_file g" "df_tables g = df_tables f"
    using E f by (auto simp: healthy_run_def)
  obtain bytes where b: "be_metadata E = Some bytes" using E by (auto simp: healthy_run_def)
  have A: "good_answers (be_source_answers E)" "good_answers (be_copy_answers E)" "good_answers (be_candidate_answers E)"
    and env: "be_source_env E = sql_healthy" "be_candidate_env E = sql_healthy" using E by (simp_all add: healthy_run_def)
  let ?v = "\<lparr>vs_canonical = canonical, vs_devices = length (snap_devices snap), vs_pending_commands = pending_in snap,
     vs_replay_records = length (snap_replay_records snap)\<rparr>"
  have "ensure_distinct_paths E = Inr ()" using E by (cases "ensure_distinct_paths E") (simp_all add: healthy_run_def)
  then have "backup_checks H T J E (restore_from (Some (DatabaseEntry f))) = Inr ?v"
    using E validate_good [OF f A(1) load doc] env
    by (simp add: backup_checks_def ensure_new_target_def restore_from_def healthy_run_def)
  moreover have "copy_database E (Some (DatabaseEntry f)) = (Inr (), Some (DatabaseEntry g))"
    using g(1) open_good [OF f A(2)] by (simp add: copy_database_def)
  moreover have "candidate_checks H T J E ?v (Some (DatabaseEntry g)) = Inr ()"
    using validate_good [OF g(2) A(3) load [folded g(3)] doc] env by (simp add: candidate_checks_def)
  moreover have "be_renames E" "be_syncs E" using E by (simp_all add: healthy_run_def)
  ultimately show ?thesis
    using b g(2,3) by (auto simp: materialize_validated_def restore_from_def publish_copy_def Let_def)
qed

text \<open>
  C36: The state of a control plane survives a backup and a restore.  After any history
  that began with an empty database, a backup of it succeeds when nothing fails, so does
  a restore from that backup, and a control plane that starts on the restored database
  has the devices, queues, claims and results it had in memory.
\<close>

theorem backup_restores_history:
  assumes "hex_text H" "hex_reads H" "codec_texts T" "db_tables db = empty_tables" "document_ok J"
    and "control_run H (sqlite_cas H T) (control_start db) ops s" "codec_reads T (memory s)"
    and "good_file f" "df_tables f = db_tables (app_db s)" "healthy_run E" "healthy_run E'"
  shows "\<exists>v n fs1 w k fs2 g s'. materialize_validated H T J E (restore_from (Some (DatabaseEntry f))) = (Inr (v, n), fs1)
     \<and> materialize_validated H T J E' (restore_from (bf_target fs1)) = (Inr (w, k), fs2)
     \<and> bf_target fs2 = Some (DatabaseEntry g)
     \<and> AppState_load H T \<lparr>db_tables = df_tables g, db_env = []\<rparr> = Inr s' \<and> same_stored (memory s) (memory s')"
proof -
  have inv: "control_inv H s" by (rule control_run_inv [OF assms(1,6) control_start_inv])
  have "stored_repr H T (memory s) = Some (db_tables (app_db s))"
    by (rule sqlite.run_in_sync [OF assms(6) start_in_sync [OF assms(3,4)]])
  note sync = in_sync_tables [OF inv assms(3) this]
  obtain snap where load: "load_snapshot sql_healthy H T (df_tables f) = Inr snap"
    using load_stored [OF sync(1) assms(3,7,2)] sync(2) assms(9) by metis
  obtain canonical where doc: "sj_document J (snapshot_rows snap) = Some canonical" using assms(5) by (auto simp: document_ok_def)
  obtain f1 v n fs1 where one: "materialize_validated H T J E (restore_from (Some (DatabaseEntry f))) = (Inr (v, n), fs1)"
    "bf_target fs1 = Some (DatabaseEntry f1)" "good_file f1" "df_tables f1 = df_tables f"
    using healthy_copy [OF assms(10,8) load doc] by blast
  obtain g w k fs2 where two: "materialize_validated H T J E' (restore_from (Some (DatabaseEntry f1))) = (Inr (w, k), fs2)"
    "bf_target fs2 = Some (DatabaseEntry g)" "df_tables g = df_tables f1"
    using healthy_copy [OF assms(11) one(3) load [folded one(4)] doc] by blast
  let ?db = "\<lparr>db_tables = df_tables g, db_env = []\<rparr>"
  have "next_env ?db = sql_healthy" "db_tables ?db = stored_tables H T (memory s)"
    using sync(2) two(3) one(4) assms(9) by (simp_all add: next_env_def)
  from load_committed [OF sync(1) assms(3,7,2) this] obtain st' where
    st': "AppState_load H T ?db = Inr \<lparr>app_devices = stored_devices st', app_commands = stored_commands st',
      app_db = ?db\<lparr>db_env := tl (db_env ?db)\<rparr>\<rparr>" "same_stored (memory s) st'" by blast
  then have "same_stored (memory s) (memory \<lparr>app_devices = stored_devices st', app_commands = stored_commands st',
      app_db = ?db\<lparr>db_env := tl (db_env ?db)\<rparr>\<rparr>)" by (simp add: same_stored_def)
  with st'(1) one(1,2) two(1,2) show ?thesis by metis
qed

definition sample_db_file :: "RelationalState \<Rightarrow> DbFile" where
  "sample_db_file t = \<lparr>df_user_version = 1, df_table_names = EXPECTED_TABLES, df_integrity_rows = [''ok''], df_foreign_key_rows = False, df_tables = t\<rparr>"

definition sample_answers :: SqlAnswers where
  "sample_answers = \<lparr>sa_directory = True, sa_connects = True, sa_queries = True, sa_migrates = True, sa_journal_mode = ''wal'', sa_foreign_keys = 1\<rparr>"

definition sample_run_env :: BackupEnv where
  "sample_run_env = \<lparr>be_absolute = Some (''/a'', ''/b''), be_source_answers = sample_answers, be_copy_answers = sample_answers,
     be_candidate_answers = sample_answers, be_source_env = sql_healthy, be_candidate_env = sql_healthy, be_parent = True,
     be_vacuum = (\<lambda>f. (True, Some (DatabaseEntry f))), be_sidecars = False, be_removes = True, be_metadata = Some 1, be_renames = True, be_syncs = True\<rparr>"

lemma sample_run_healthy: "healthy_run sample_run_env"
  by (simp add: healthy_run_def sample_run_env_def sample_answers_def good_answers_def ensure_distinct_paths_def to_ascii_lowercase_def
      is_ascii_upper_def in_range_def)

lemma sample_db_file_good [simp]: "good_file (sample_db_file t)" "df_tables (sample_db_file t) = t"
  by (simp_all add: good_file_def sample_db_file_def SCHEMA_VERSION_def)

lemma sample_json_document: "document_ok (sample_state_json st)"
  by (simp add: document_ok_def sample_state_json_def)

theorem backup_restores_history_witness:
  "let s = control_op sample_hashing (sqlite_cas sample_hashing sample_codec) sample_op (control_start empty_db);
       J = sample_state_json (memory s) in
   \<exists>v n fs1 w k fs2 g s'. materialize_validated sample_hashing sample_codec J sample_run_env
       (restore_from (Some (DatabaseEntry (sample_db_file (db_tables (app_db s)))))) = (Inr (v, n), fs1)
     \<and> materialize_validated sample_hashing sample_codec J sample_run_env (restore_from (bf_target fs1)) = (Inr (w, k), fs2)
     \<and> bf_target fs2 = Some (DatabaseEntry g)
     \<and> AppState_load sample_hashing sample_codec \<lparr>db_tables = df_tables g, db_env = []\<rparr> = Inr s' \<and> same_stored (memory s) (memory s')"
proof -
  have empty: "db_tables empty_db = empty_tables" by (simp add: empty_db_def)
  show ?thesis
    unfolding Let_def
    by (rule backup_restores_history [OF sample_hex_text sample_hex_reads sample_texts empty sample_json_document sample_run sample_reads
        sample_db_file_good sample_run_healthy sample_run_healthy])
qed

definition empty_state :: StoredState where
  "empty_state = \<lparr>stored_devices = [], stored_commands = CommandState_default\<rparr>"

theorem failed_rename_blocks_backups_witness:
  "\<exists>fs' e. materialize_validated sample_hashing sample_codec (sample_state_json empty_state)
       (sample_run_env\<lparr>be_renames := False\<rparr>) (restore_from (Some (DatabaseEntry (sample_db_file empty_tables)))) = (Inl NotPublished, fs')
     \<and> fst (materialize_validated sample_hashing sample_codec (sample_state_json empty_state) sample_run_env fs') = Inl e"
proof -
  let ?E = "sample_run_env\<lparr>be_renames := False\<rparr>" and ?J = "sample_state_json empty_state" and ?f = "sample_db_file empty_tables"
  have A: "good_answers sample_answers" using sample_run_healthy by (simp add: healthy_run_def sample_run_env_def)
  obtain canonical where doc: "sj_document ?J (snapshot_rows \<lparr>snap_devices = [], snap_queues = [], snap_replay_records = []\<rparr>) = Some canonical"
    by (simp add: sample_state_json_def)
  have "load_snapshot sql_healthy sample_hashing sample_codec (df_tables ?f) = Inr \<lparr>snap_devices = [], snap_queues = [], snap_replay_records = []\<rparr>"
    by (simp add: load_empty)
  note v = validate_good [OF sample_db_file_good(1) A this doc]
  have E: "be_source_answers ?E = sample_answers" "be_copy_answers ?E = sample_answers" "be_candidate_answers ?E = sample_answers"
    "be_source_env ?E = sql_healthy" "be_candidate_env ?E = sql_healthy" "be_vacuum ?E = (\<lambda>f. (True, Some (DatabaseEntry f)))"
    "ensure_distinct_paths ?E = Inr ()" "be_parent ?E" "be_metadata ?E = Some 1" "\<not> be_renames ?E"
    by (simp_all add: sample_run_env_def ensure_distinct_paths_def)
  have "\<exists>source. backup_checks sample_hashing sample_codec ?J ?E (restore_from (Some (DatabaseEntry ?f))) = Inr source
      \<and> candidate_checks sample_hashing sample_codec ?J ?E source (Some (DatabaseEntry ?f)) = Inr ()"
    using v by (simp add: backup_checks_def candidate_checks_def ensure_new_target_def restore_from_def E)
  moreover have "copy_database ?E (bf_source (restore_from (Some (DatabaseEntry ?f)))) = (Inr (), Some (DatabaseEntry ?f))"
    using open_good [OF sample_db_file_good(1) A] by (simp add: copy_database_def restore_from_def E)
  ultimately have "fst (materialize_validated sample_hashing sample_codec ?J ?E (restore_from (Some (DatabaseEntry ?f)))) = Inl NotPublished"
    by (auto simp: materialize_validated_def publish_copy_def Let_def E)
  then obtain fs' where fs: "materialize_validated sample_hashing sample_codec ?J ?E (restore_from (Some (DatabaseEntry ?f))) = (Inl NotPublished, fs')"
    by (metis prod.collapse)
  from fs failed_rename_blocks_backups [OF fs, of sample_run_env] show ?thesis by blast
qed

end
