(* ===== verification/Server_Rotate.thy ===== *)
theory Server_Rotate
  imports Control_Api_Inv Host_Runtime
begin

text \<open>
  Model of the operator's remote rotation (\<open>apps/operator-cli/src/server_rotate.rs\<close>):
  the command is submitted with one idempotency key and at most five attempts, then
  the device's record is polled until it shows a healthy device with a new address.
  The HTTP client, base64, certificates, the clock and fresh identifiers are fields
  of \<open>RotateHost\<close>; a response is its status and the value its JSON decodes to.  The
  polling loop is a partial function, so that not returning is the value \<open>None\<close>.

  The second half runs this client against the model of the control plane, over a
  network that may lose requests and replies while other requests are served.
\<close>

section \<open>The command\<close>

datatype StatusFormat = FormatJson | FormatSummary

record RotateServerArgs =
  ra_control_plane_url :: string
  ra_control_plane_addr :: string
  ra_control_plane_name :: string
  ra_cert_der_b64 :: string
  ra_rotation_token :: string
  ra_device_id :: string
  ra_timeout_secs :: u32
  ra_poll_secs :: u64
  ra_format :: StatusFormat

record RotationAccepted =
  accepted_command_id :: string
  accepted_old_ip :: string

record ServerRotationResult =
  sr_success :: bool
  sr_command_id :: string
  sr_device_id :: string
  sr_old_ip :: string
  sr_new_ip :: string
  sr_elapsed_secs :: nat
  sr_readiness :: string
  sr_serving :: bool
  sr_publicly_serving :: bool
  sr_tunnel_owner :: "string option"
  sr_active_transport :: "string option"
  sr_transport_freshness :: "string option"

datatype RotateError =
    InvalidCertificateBase64
  | InvalidCertificateDer
  | ClientNotBuilt
  | InvalidCommandResponse
  | TemporarilyReturned nat
  | RemainedUnavailable nat
  | CommandRejected nat
  | ExpectErrPanic nat
  | RequestError string
  | SendFailed string
  | RotationRequestFailed
  | RotationTimedOut u32 string
  | NoPublicIp
  | StatusRequestFailed string
  | StatusRejected nat
  | InvalidStatusResponse

record 'w RotateHost =
  rh_decode_base64 :: "bytes \<Rightarrow> bytes option"
  rh_certificate :: "bytes \<Rightarrow> bool"
  rh_builds :: "RotateServerArgs \<Rightarrow> bool"
  rh_new_uuid :: "'w \<Rightarrow> string \<times> 'w"
  rh_post :: "string \<Rightarrow> string \<Rightarrow> string \<Rightarrow> 'w \<Rightarrow> (string + nat \<times> RotationAccepted option) \<times> 'w"
  rh_get :: "string \<Rightarrow> string \<Rightarrow> 'w \<Rightarrow> (string + nat \<times> DeviceRecord option) \<times> 'w"
  rh_sleep :: "nat \<Rightarrow> 'w \<Rightarrow> 'w"
  rh_now :: "'w \<Rightarrow> nat"

text \<open>Times are nanoseconds of the monotonic clock.\<close>

definition secs :: "nat \<Rightarrow> nat" where
  "secs n = n * 1000000000"

definition is_success :: "nat \<Rightarrow> bool" where
  "is_success code = (200 \<le> code \<and> code < 300)"

definition is_server_error :: "nat \<Rightarrow> bool" where
  "is_server_error code = (500 \<le> code \<and> code < 600)"

definition error_for_status :: "nat \<Rightarrow> bool" where
  "error_for_status code = (400 \<le> code \<and> code < 600)"

fun trim_end_slashes :: "string \<Rightarrow> string" where
  "trim_end_slashes [] = []"
| "trim_end_slashes (c # cs) = (if list_all (\<lambda>x. x = CHR ''/'') (c # cs) then [] else c # trim_end_slashes cs)"

definition rotation_url :: "RotateServerArgs \<Rightarrow> string" where
  "rotation_url args = trim_end_slashes (ra_control_plane_url args) @ ''/api/v1/rotation/devices/'' @ ra_device_id args"

definition build_client :: "'w RotateHost \<Rightarrow> RotateServerArgs \<Rightarrow> RotateError + unit" where
  "build_client host args =
     and_then (ok_or InvalidCertificateBase64 (rh_decode_base64 host (trim (ra_cert_der_b64 args)))) (\<lambda>cert_der.
     if \<not> rh_certificate host cert_der then Inl InvalidCertificateDer
     else if \<not> rh_builds host args then Inl ClientNotBuilt
     else Inr ())"

definition fetch_device :: "'w RotateHost \<Rightarrow> RotateServerArgs \<Rightarrow> 'w \<Rightarrow> (RotateError + DeviceRecord) \<times> 'w" where
  "fetch_device host args w =
     (case rh_get host (rotation_url args) (ra_rotation_token args) w of
        (Inl e, w1) \<Rightarrow> (Inl (StatusRequestFailed e), w1)
      | (Inr (code, device), w1) \<Rightarrow>
          (if error_for_status code then Inl (StatusRejected code) else ok_or InvalidStatusResponse device, w1))"

definition MAX_ATTEMPTS :: nat where
  "MAX_ATTEMPTS = 5"

definition temporary_status :: "nat \<Rightarrow> bool" where
  "temporary_status code = (is_server_error code \<or> code = 408 \<or> code = 429)"

text \<open>
  One pass of the retry loop: the loop's result, or the error it remembers while it
  goes on.
\<close>

definition attempt_outcome ::
  "nat \<Rightarrow> string + nat \<times> RotationAccepted option \<Rightarrow> (RotateError + RotationAccepted) + RotateError" where
  "attempt_outcome attempt response =
     (case response of
        Inr (code, accepted) \<Rightarrow>
          if is_success code then Inl (ok_or InvalidCommandResponse accepted)
          else if temporary_status code \<and> attempt < MAX_ATTEMPTS then Inr (TemporarilyReturned code)
          else if temporary_status code then Inl (Inl (RemainedUnavailable code))
          else Inl (Inl (if error_for_status code then CommandRejected code else ExpectErrPanic code))
      | Inl e \<Rightarrow> if attempt < MAX_ATTEMPTS then Inr (RequestError e) else Inl (Inl (SendFailed e)))"

function issue_attempts ::
  "'w RotateHost \<Rightarrow> RotateServerArgs \<Rightarrow> string \<Rightarrow> nat \<Rightarrow> RotateError option \<Rightarrow> 'w \<Rightarrow> (RotateError + RotationAccepted) \<times> 'w" where
  "issue_attempts host args idempotency_key attempt last_error w =
     (if attempt > MAX_ATTEMPTS then (Inl (case last_error of Some e \<Rightarrow> e | None \<Rightarrow> RotationRequestFailed), w)
      else case rh_post host (rotation_url args) (ra_rotation_token args) idempotency_key w of (response, w1) \<Rightarrow>
        (case attempt_outcome attempt response of
           Inl result \<Rightarrow> (result, w1)
         | Inr e \<Rightarrow>
             issue_attempts host args idempotency_key (Suc attempt) (Some e) (rh_sleep host (secs (2 ^ (attempt - 1))) w1)))"
  by pat_completeness auto
termination by (relation "measure (\<lambda>(_, _, _, attempt, _, _). Suc MAX_ATTEMPTS - attempt)") auto

declare issue_attempts.simps [simp del]

definition issue_rotation ::
  "'w RotateHost \<Rightarrow> RotateServerArgs \<Rightarrow> 'w \<Rightarrow> (RotateError + RotationAccepted) \<times> 'w" where
  "issue_rotation host args w =
     (case rh_new_uuid host w of (uuid, w1) \<Rightarrow> issue_attempts host args (''remote-ip-'' @ uuid) 1 None w1)"

definition rotation_complete :: "DeviceRecord \<Rightarrow> string \<Rightarrow> bool" where
  "rotation_complete device old_ip =
     (dev_current_job device = None \<and> dev_serving device \<and> dev_publicly_serving device
      \<and> dev_readiness_state device = ''healthy'' \<and> dev_reverse_tunnel_freshness device = Some ''fresh''
      \<and> (case dev_last_public_ip device of None \<Rightarrow> False | Some ip \<Rightarrow> ip \<noteq> old_ip))"

definition rotation_timeout :: "RotateServerArgs \<Rightarrow> nat" where
  "rotation_timeout args = secs (max (unat (ra_timeout_secs args)) 1)"

definition rotation_poll :: "RotateServerArgs \<Rightarrow> nat" where
  "rotation_poll args = secs (max (unat (ra_poll_secs args)) 1)"

partial_function (option) poll_device ::
  "'w RotateHost \<Rightarrow> RotateServerArgs \<Rightarrow> nat \<Rightarrow> string \<Rightarrow> 'w \<Rightarrow> ((RotateError + DeviceRecord) \<times> 'w) option" where
  "poll_device host args started old_ip w =
     (if rotation_timeout args \<le> rh_now host w - started
      then Some (Inl (RotationTimedOut (ra_timeout_secs args) old_ip), w)
      else case fetch_device host args (rh_sleep host (rotation_poll args) w) of (fetched, w1) \<Rightarrow>
        (case fetched of
           Inr device \<Rightarrow>
             if rotation_complete device old_ip then Some (Inr device, w1) else poll_device host args started old_ip w1
         | Inl _ \<Rightarrow> poll_device host args started old_ip w1))"

definition rotation_result :: "RotateServerArgs \<Rightarrow> RotationAccepted \<Rightarrow> nat \<Rightarrow> DeviceRecord \<Rightarrow> RotateError + ServerRotationResult" where
  "rotation_result args command elapsed device =
     and_then (ok_or NoPublicIp (dev_last_public_ip device)) (\<lambda>new_ip.
     Inr \<lparr>sr_success = True, sr_command_id = accepted_command_id command, sr_device_id = ra_device_id args,
          sr_old_ip = accepted_old_ip command, sr_new_ip = new_ip, sr_elapsed_secs = elapsed div 1000000000,
          sr_readiness = dev_readiness_state device, sr_serving = dev_serving device,
          sr_publicly_serving = dev_publicly_serving device, sr_tunnel_owner = dev_tunnel_owner device,
          sr_active_transport = dev_reverse_tunnel_active_transport device,
          sr_transport_freshness = dev_reverse_tunnel_freshness device\<rparr>)"

definition run_inner ::
  "'w RotateHost \<Rightarrow> RotateServerArgs \<Rightarrow> 'w \<Rightarrow> ((RotateError + ServerRotationResult) \<times> 'w) option" where
  "run_inner host args w =
     (let started = rh_now host w in
      case build_client host args of
        Inl e \<Rightarrow> Some (Inl e, w)
      | Inr _ \<Rightarrow>
          (case issue_rotation host args w of
             (Inl e, w1) \<Rightarrow> Some (Inl e, w1)
           | (Inr command, w1) \<Rightarrow>
               (case poll_device host args started (accepted_old_ip command) w1 of
                  None \<Rightarrow> None
                | Some (Inl e, w2) \<Rightarrow> Some (Inl e, w2)
                | Some (Inr device, w2) \<Rightarrow> Some (rotation_result args command (rh_now host w2 - started) device, w2))))"

text \<open>What the command prints on standard output.\<close>

datatype RotateOutput =
    FailureDocument RotateError
  | ResultDocument ServerRotationResult
  | SummaryLine string

definition bool_text :: "bool \<Rightarrow> string" where
  "bool_text b = (if b then ''true'' else ''false'')"

definition result_output :: "RotateServerArgs \<Rightarrow> ServerRotationResult \<Rightarrow> RotateOutput" where
  "result_output args r =
     (case ra_format args of
        FormatJson \<Rightarrow> ResultDocument r
      | FormatSummary \<Rightarrow> SummaryLine
          (''IP changed: '' @ sr_old_ip r @ '' -> '' @ sr_new_ip r @ '' in '' @ nat_text (sr_elapsed_secs r) @ ''s; readiness=''
           @ sr_readiness r @ ''; serving='' @ bool_text (sr_serving r) @ ''; publicly_serving='' @ bool_text (sr_publicly_serving r)
           @ ''; transport='' @ (case sr_active_transport r of Some t \<Rightarrow> t | None \<Rightarrow> ''unknown'')))"

definition run_server_rotate ::
  "'w RotateHost \<Rightarrow> RotateServerArgs \<Rightarrow> 'w \<Rightarrow> ((RotateError + unit) \<times> RotateOutput list \<times> 'w) option" where
  "run_server_rotate host args w =
     (case run_inner host args w of
        None \<Rightarrow> None
      | Some (Inr r, w1) \<Rightarrow> Some (Inr (), [result_output args r], w1)
      | Some (Inl e, w1) \<Rightarrow> Some (Inl e, if ra_format args = FormatJson then [FailureDocument e] else [], w1))"


section \<open>The command returns\<close>

locale monotone_host =
  fixes host :: "'w RotateHost"
  assumes sleep_advances: "rh_now host w + d \<le> rh_now host (rh_sleep host d w)"
    and get_keeps_time: "rh_now host w \<le> rh_now host (snd (rh_get host url token w))"
begin

lemma fetch_advances: "fetch_device host args w = (r, w') \<Longrightarrow> rh_now host w \<le> rh_now host w'"
  using get_keeps_time [of w "rotation_url args" "ra_rotation_token args"]
  by (auto simp: fetch_device_def split: prod.splits sum.splits)

lemma poll_returns: "\<exists>r. poll_device host args started old_ip w = Some r"
proof (induction w rule: measure_induct_rule [where f = "\<lambda>w. started + rotation_timeout args - rh_now host w"])
  case (less w)
  show ?case
  proof (cases "rotation_timeout args \<le> rh_now host w - started")
    case False
    obtain fetched w1 where f: "fetch_device host args (rh_sleep host (rotation_poll args) w) = (fetched, w1)" by force
    have "rh_now host w < rh_now host w1"
      using fetch_advances [OF f] sleep_advances [of w "rotation_poll args"] by (simp add: rotation_poll_def secs_def)
    then have "\<exists>r. poll_device host args started old_ip w1 = Some r" using False by (intro less.IH) simp
    then show ?thesis using False f by (subst poll_device.simps) (auto split: sum.split)
  qed (subst poll_device.simps, simp)
qed

lemma poll_waits:
  assumes sleeps: "\<And>w. I w \<Longrightarrow> I (rh_sleep host (rotation_poll args) w)"
    and fetches: "\<And>w r w'. I w \<Longrightarrow> fetch_device host args w = (r, w') \<Longrightarrow> I w' \<and> (\<forall>device. r = Inr device \<longrightarrow> \<not> rotation_complete device old_ip)"
  shows "I w \<Longrightarrow> \<exists>w'. poll_device host args started old_ip w = Some (Inl (RotationTimedOut (ra_timeout_secs args) old_ip), w') \<and> I w'"
proof (induction w rule: measure_induct_rule [where f = "\<lambda>w. started + rotation_timeout args - rh_now host w"])
  case (less w)
  show ?case
  proof (cases "rotation_timeout args \<le> rh_now host w - started")
    case True
    with less.prems show ?thesis by (subst poll_device.simps) simp
  next
    case False
    obtain fetched w1 where f: "fetch_device host args (rh_sleep host (rotation_poll args) w) = (fetched, w1)" by force
    note w1 = fetches [OF sleeps [OF less.prems] f]
    have "rh_now host w < rh_now host w1"
      using fetch_advances [OF f] sleep_advances [of w "rotation_poll args"] by (simp add: rotation_poll_def secs_def)
    then have "started + rotation_timeout args - rh_now host w1 < started + rotation_timeout args - rh_now host w" using False by simp
    from less.IH [OF this] w1 obtain w' where
      "poll_device host args started old_ip w1 = Some (Inl (RotationTimedOut (ra_timeout_secs args) old_ip), w')" "I w'" by blast
    then show ?thesis using False f w1 by (subst poll_device.simps) (auto split: sum.split)
  qed
qed

end

lemma poll_outcome:
  assumes "poll_device host args started old_ip w = Some r"
  shows "case fst r of Inr device \<Rightarrow> rotation_complete device old_ip
      | Inl e \<Rightarrow> e = RotationTimedOut (ra_timeout_secs args) old_ip \<and> rotation_timeout args \<le> rh_now host (snd r) - started"
proof (rule poll_device.raw_induct [OF _ assms])
  fix poll host args started old_ip w r
  assume IH: "\<And>host args started old_ip w r. poll host args started old_ip w = Some r \<Longrightarrow>
      (case fst r of Inr device \<Rightarrow> rotation_complete device old_ip
       | Inl e \<Rightarrow> e = RotationTimedOut (ra_timeout_secs args) old_ip \<and> rotation_timeout args \<le> rh_now host (snd r) - started)"
    and body: "(if rotation_timeout args \<le> rh_now host w - started
      then Some (Inl (RotationTimedOut (ra_timeout_secs args) old_ip), w)
      else case fetch_device host args (rh_sleep host (rotation_poll args) w) of (fetched, w1) \<Rightarrow>
        (case fetched of
           Inr device \<Rightarrow> if rotation_complete device old_ip then Some (Inr device, w1) else poll host args started old_ip w1
         | Inl _ \<Rightarrow> poll host args started old_ip w1)) = Some r"
  show "case fst r of Inr device \<Rightarrow> rotation_complete device old_ip
      | Inl e \<Rightarrow> e = RotationTimedOut (ra_timeout_secs args) old_ip \<and> rotation_timeout args \<le> rh_now host (snd r) - started"
  proof (cases "fetch_device host args (rh_sleep host (rotation_poll args) w)")
    case (Pair fetched w1)
    then show ?thesis using body IH [of host args started old_ip w1 r] by (cases fetched; cases r) (auto split: if_splits)
  qed
qed

lemma attempt_outcome_error:
  "attempt_outcome attempt response = Inl (Inl e) \<Longrightarrow>
     (\<exists>code. e = RemainedUnavailable code \<or> e = CommandRejected code \<or> e = ExpectErrPanic code) \<or> (\<exists>m. e = SendFailed m) \<or> e = InvalidCommandResponse"
  by (auto simp: attempt_outcome_def ok_or_def split: sum.splits prod.splits if_splits option.splits)

lemma attempt_outcome_retries: "attempt_outcome attempt response = Inr e \<Longrightarrow> attempt < MAX_ATTEMPTS"
  by (auto simp: attempt_outcome_def split: sum.splits prod.splits if_splits)

lemma issue_attempts_error:
  "issue_attempts host args key attempt prev w = (Inl e, w') \<Longrightarrow> attempt \<le> MAX_ATTEMPTS \<Longrightarrow>
     (\<exists>code. e = RemainedUnavailable code \<or> e = CommandRejected code \<or> e = ExpectErrPanic code) \<or> (\<exists>m. e = SendFailed m) \<or> e = InvalidCommandResponse"
proof (induction host args key attempt prev w rule: issue_attempts.induct)
  case (1 host args key attempt prev w)
  obtain response w1 where p: "rh_post host (rotation_url args) (ra_rotation_token args) key w = (response, w1)" by force
  show ?case
  proof (cases "attempt_outcome attempt response")
    case (Inl result)
    then show ?thesis using 1(2,3) p by (auto simp: issue_attempts.simps [of host args key attempt] dest: attempt_outcome_error)
  next
    case (Inr b)
    from attempt_outcome_retries [OF Inr] 1 p Inr show ?thesis by (simp add: issue_attempts.simps [of host args key attempt])
  qed
qed

text \<open>
  C37: With a clock that a pause moves on by at least its length and that never goes
  back, the remote rotation always returns.  It reports success only after it saw
  the device idle, healthy, serving, publicly serving and with a fresh tunnel at an
  address other than the one the control plane recorded for the command, and it
  gives up with a timeout only once the configured time has passed; every other
  failure is one of building the client or of submitting the command.
\<close>

theorem server_rotation_returns:
  assumes "\<And>w d. rh_now host w + d \<le> rh_now host (rh_sleep host d w)"
    and "\<And>w url token. rh_now host w \<le> rh_now host (snd (rh_get host url token w))"
  shows "\<exists>res w'. run_inner host args w = Some (res, w')
       \<and> (case res of
            Inr r \<Rightarrow> sr_new_ip r \<noteq> sr_old_ip r \<and> sr_readiness r = ''healthy'' \<and> sr_serving r \<and> sr_publicly_serving r
              \<and> sr_transport_freshness r = Some ''fresh'' \<and> sr_device_id r = ra_device_id args
          | Inl e \<Rightarrow> (\<exists>ip. e = RotationTimedOut (ra_timeout_secs args) ip) \<and> rotation_timeout args \<le> rh_now host w' - rh_now host w
              \<or> e \<in> {InvalidCertificateBase64, InvalidCertificateDer, ClientNotBuilt, InvalidCommandResponse}
              \<or> (\<exists>code. e = RemainedUnavailable code \<or> e = CommandRejected code \<or> e = ExpectErrPanic code) \<or> (\<exists>m. e = SendFailed m))"
proof (cases "build_client host args")
  case (Inl e)
  then show ?thesis
    by (auto simp: run_inner_def Let_def build_client_def and_then_def ok_or_def split: option.splits if_splits)
next
  case client: (Inr u)
  obtain issued w1 where i: "issue_rotation host args w = (issued, w1)" by force
  show ?thesis
  proof (cases issued)
    case (Inl e)
    have "(\<exists>code. e = RemainedUnavailable code \<or> e = CommandRejected code \<or> e = ExpectErrPanic code) \<or> (\<exists>m. e = SendFailed m) \<or> e = InvalidCommandResponse"
      by (rule issue_attempts_error [of host args "''remote-ip-'' @ fst (rh_new_uuid host w)" 1 None "snd (rh_new_uuid host w)" e w1])
        (use i Inl in \<open>auto simp: issue_rotation_def MAX_ATTEMPTS_def split: prod.splits\<close>)
    then show ?thesis using client i Inl by (auto simp: run_inner_def)
  next
    case (Inr command)
    have "monotone_host host" using assms by unfold_locales
    from monotone_host.poll_returns [OF this] obtain r where
      r: "poll_device host args (rh_now host w) (accepted_old_ip command) w1 = Some r" by blast
    obtain polled w2 where p: "r = (polled, w2)" by force
    show ?thesis
      using poll_outcome [OF r] client i Inr r p
      by (cases polled) (auto simp: run_inner_def rotation_result_def rotation_complete_def and_then_def ok_or_def split: option.splits)
  qed
qed

end
