(* ===== verification/Server_Rotate_Inv.thy ===== *)
theory Server_Rotate_Inv
  imports Server_Rotate
begin

text \<open>
  The remote rotation against the control plane.  The first section bounds how long
  the control plane remembers a command; the second runs the retry loop of
  \<open>Server_Rotate\<close> against \<open>serve\<close> over a network that loses requests and replies and
  interleaves other transactions, and shows that all attempts of one rotation name
  one command; the last shows what a repeated answer says of the old address.
\<close>

section \<open>How long a result is retained\<close>

text \<open>
  \<open>n\<close> counts the commands that other requests may still create.  An entry can only
  be dropped when everything older is pending, so it lasts while there are more older
  entries, or more free places, than commands that can be pending.
\<close>

definition unclaimed :: "string \<Rightarrow> nat \<Rightarrow> CommandState \<Rightarrow> bool" where
  "unclaimed scope n cs = (map_of (idempotency_results cs) scope = None \<and> length (queued_commands cs) + 2 * n \<le> 998)"

definition lasting :: "string \<Rightarrow> DeviceCommand \<Rightarrow> nat \<Rightarrow> CommandState \<Rightarrow> bool" where
  "lasting scope c n cs =
     (map_of (idempotency_results cs) scope = Some c
      \<and> (\<exists>xs ys. idempotency_order cs = xs @ scope # ys
           \<and> length (queued_commands cs) + 2 * n \<le> length xs + (1000 - length (idempotency_order cs))))"

lemma created_pending:
  assumes "hex_text H" "command_inv H (app_commands s)" "issue_admissible new_id input (app_commands s)"
    and "issue_command_transaction H cas new_id now input s = (Inr (CommandCreated c), t)"
  shows "length (queued_commands (app_commands t)) = Suc (length (queued_commands (app_commands s)))"
    and "c = new_command new_id now input" and "c \<in> set (queued_commands (app_commands t))"
    and "command_inv H (app_commands t)"
proof -
  obtain cs' where c: "c = new_command new_id now input" "app_commands t = cs'" "command_inv H cs'"
    "queues cs' = queues (enqueue_command H (new_command new_id now input) (app_commands s))"
    by (rule issue_cases [OF assms(1-3), of cas now]) (use assms(4) in auto)
  have "distinct (map fst (queues (app_commands s)))" using assms(2) by (simp add: command_inv_def queue_inv_def)
  from queued_enqueue [OF this, of H c] c(4)
  have m: "mset (queued_commands (app_commands t)) = add_mset c (mset (queued_commands (app_commands s)))"
    by (simp add: queued_commands_def c(1,2))
  from arg_cong [OF m, of size] arg_cong [OF m, of set_mset]
  show "length (queued_commands (app_commands t)) = Suc (length (queued_commands (app_commands s)))"
    "c \<in> set (queued_commands (app_commands t))" by simp_all
  show "c = new_command new_id now input" "command_inv H (app_commands t)" using c(1-3) by simp_all
qed

lemma scopes_pending_bound:
  assumes "distinct xs" "set xs \<subseteq> canonical_scope H ` set (queued_commands cs)"
  shows "length xs \<le> length (queued_commands cs)"
proof -
  have "length xs = card (set xs)" using assms(1) by (simp add: distinct_card)
  also have "\<dots> \<le> card (set (queued_commands cs))"
    using assms(2) by (meson List.finite_set card_image_le card_mono finite_imageI order_trans)
  finally show ?thesis using card_length order_trans by blast
qed

lemma remove_at_append:
  "remove_at i (xs @ ys) = (if i < length xs then remove_at i xs @ ys else xs @ remove_at (i - length xs) ys)"
  by (simp add: remove_at_def Suc_diff_le)

lemma length_remove_at: "i < length xs \<Longrightarrow> length (remove_at i xs) = length xs - 1"
  by (simp add: remove_at_def)

text \<open>Removing an entry other than \<open>x\<close> keeps \<open>x\<close> and costs it at most one older entry.\<close>

lemma remove_other:
  assumes "i < length (xs @ x # ys)" "(xs @ x # ys) ! i \<noteq> x"
  obtains xs' ys' where "remove_at i (xs @ x # ys) = xs' @ x # ys'" "length xs \<le> Suc (length xs')"
proof (cases "i < length xs")
  case True
  show thesis by (rule that [of "remove_at i xs" ys]) (use True in \<open>simp_all add: remove_at_append length_remove_at\<close>)
next
  case False
  then have "i \<noteq> length xs" using assms(2) by auto
  then obtain j where j: "i = length xs + Suc j" using False by (metis less_imp_Suc_add linorder_neqE_nat add_Suc_right)
  show thesis by (rule that [of xs "remove_at j ys"]) (use j in \<open>simp_all add: remove_at_append remove_at_Cons\<close>)
qed

lemma created_retains:
  assumes H: "hex_text H" "command_inv H (app_commands s)" "issue_admissible new_id input (app_commands s)"
    and tx: "issue_command_transaction H cas new_id now input s = (Inr (CommandCreated c'), t)"
    and other: "issue_scope H input \<noteq> scope" and r: "lasting scope c (Suc n) (app_commands s)"
  shows "lasting scope c n (app_commands t)"
proof -
  let ?old = "app_commands s" and ?order = "idempotency_order (app_commands s) @ [issue_scope H input]"
  note created = created_pending [OF H tx]
  note R = retention_drops_oldest_settled [OF H tx]
  from r obtain xs ys where o: "idempotency_order ?old = xs @ scope # ys"
    and room: "length (queued_commands ?old) + 2 * Suc n \<le> length xs + (1000 - length (idempotency_order ?old))"
    and res: "map_of (idempotency_results ?old) scope = Some c" by (auto simp: lasting_def)
  show ?thesis
  proof (cases "length (idempotency_order ?old) < 1000")
    case True
    then have "idempotency_order (app_commands t) = xs @ scope # (ys @ [issue_scope H input])"
      "map_of (idempotency_results (app_commands t)) scope = Some c"
      using R other res o by (simp_all add: Let_def)
    then show ?thesis using True room created(1) o unfolding lasting_def by (intro conjI exI) auto
  next
    case False
    then obtain i where i: "i < length ?order" "?order ! i \<notin> canonical_scope H ` set (queued_commands (app_commands t))"
      "\<forall>j<i. ?order ! j \<in> canonical_scope H ` set (queued_commands (app_commands t))"
      "idempotency_order (app_commands t) = remove_at i ?order"
      "map_of (idempotency_results (app_commands t)) = (map_of (idempotency_results ?old))(issue_scope H input \<mapsto> c', ?order ! i := None)"
      using R by (auto simp: Let_def)
    have dist: "distinct ?order"
    proof -
      have "replay_inv H MAX_IDEMPOTENCY_RESULTS ?old" using H(2) by (simp add: command_inv_def)
      note D = replay_invD(8,9) [OF this]
      have "map_of (idempotency_results ?old) (issue_scope H input) = None"
        by (rule issue_cases [OF H, of cas now]) (use tx in auto)
      then show ?thesis using D by (simp add: map_of_eq_None_iff)
    qed
    have ne: "?order ! i \<noteq> scope"
    proof
      assume eq: "?order ! i = scope"
      have "?order ! length xs = scope" using o by (simp add: nth_append)
      then have "i = length xs" using eq dist i(1) o by (metis nth_eq_iff_index_eq length_append_singleton length_append
          less_SucI less_add_same_cancel1 length_greater_0_conv list.distinct(1))
      moreover have "?order ! j = xs ! j" if "j < length xs" for j using that o by (simp add: nth_append)
      ultimately have "set xs \<subseteq> canonical_scope H ` set (queued_commands (app_commands t))"
        using i(3) by (auto simp: in_set_conv_nth)
      from scopes_pending_bound [OF _ this] have "length xs \<le> Suc (length (queued_commands ?old))"
        using dist o created(1) by simp
      then show False using room False by simp
    qed
    obtain xs' ys' where x: "remove_at i (xs @ scope # (ys @ [issue_scope H input])) = xs' @ scope # ys'" "length xs \<le> Suc (length xs')"
      by (rule remove_other [of i xs scope "ys @ [issue_scope H input]"]) (use i(1) ne o in auto)
    have "idempotency_order (app_commands t) = xs' @ scope # ys'" using i(4) x(1) o by simp
    moreover have "map_of (idempotency_results (app_commands t)) scope = Some c" using i(5) ne other res by simp
    ultimately show ?thesis using x(2) room created(1) False unfolding lasting_def by (intro conjI exI) auto
  qed
qed

lemma created_claims:
  assumes H: "hex_text H" "command_inv H (app_commands s)" "issue_admissible new_id input (app_commands s)"
    and tx: "issue_command_transaction H cas new_id now input s = (Inr (CommandCreated c), t)"
    and u: "unclaimed (issue_scope H input) n (app_commands s)"
  shows "lasting (issue_scope H input) c n (app_commands t)"
proof -
  let ?old = "app_commands s" and ?x = "issue_scope H input"
  note created = created_pending [OF H tx]
  note R = retention_drops_oldest_settled [OF H tx]
  have room: "length (queued_commands ?old) + 2 * n \<le> 998" using u by (simp add: unclaimed_def)
  show ?thesis
  proof (cases "length (idempotency_order ?old) < 1000")
    case True
    then have "idempotency_order (app_commands t) = idempotency_order ?old @ ?x # []"
      "map_of (idempotency_results (app_commands t)) ?x = Some c" using R by (simp_all add: Let_def)
    then show ?thesis using True room created(1) unfolding lasting_def by (intro conjI exI) auto
  next
    case False
    have "length (idempotency_order ?old) \<le> 1000"
      using H(2) by (simp add: command_inv_def replay_inv_def MAX_IDEMPOTENCY_RESULTS_def)
    then have len: "length (idempotency_order ?old) = 1000" using False by simp
    let ?order = "idempotency_order ?old @ [?x]"
    obtain i where i: "i < length ?order" "?order ! i \<notin> canonical_scope H ` set (queued_commands (app_commands t))"
      "idempotency_order (app_commands t) = remove_at i ?order"
      "map_of (idempotency_results (app_commands t)) = (map_of (idempotency_results ?old))(?x \<mapsto> c, ?order ! i := None)"
      using R False by (auto simp: Let_def)
    have "?x \<in> canonical_scope H ` set (queued_commands (app_commands t))"
      using created(2,3) by (force simp: issue_scope_def)
    then have ne: "?order ! i \<noteq> ?x" using i(2) by auto
    then have "i < length (idempotency_order ?old)" using i(1) by (auto simp: nth_append less_Suc_eq)
    then have "idempotency_order (app_commands t) = remove_at i (idempotency_order ?old) @ ?x # []"
      "length (remove_at i (idempotency_order ?old)) = 999" using i(3) len by (simp_all add: remove_at_append length_remove_at)
    moreover have "map_of (idempotency_results (app_commands t)) ?x = Some c" using i(4) ne by simp
    ultimately show ?thesis using room created(1) unfolding lasting_def by (intro conjI exI) auto
  qed
qed

lemma created_unclaimed:
  assumes H: "hex_text H" "command_inv H (app_commands s)" "issue_admissible new_id input (app_commands s)"
    and tx: "issue_command_transaction H cas new_id now input s = (Inr (CommandCreated c), t)"
    and other: "issue_scope H input \<noteq> scope" and u: "unclaimed scope (Suc n) (app_commands s)"
  shows "unclaimed scope n (app_commands t)"
proof -
  have "map_of (idempotency_results (app_commands t)) scope = None"
    using retention_drops_oldest_settled [OF H tx] other u by (auto simp: Let_def unclaimed_def split: if_splits)
  then show ?thesis using created_pending(1) [OF H tx] u by (simp add: unclaimed_def)
qed

section \<open>Other transactions\<close>

fun issues_command :: "ControlOp \<Rightarrow> nat" where
  "issues_command (OpIssue _ _ _) = 1"
| "issues_command _ = 0"

fun foreign_op :: "Hashing \<Rightarrow> string \<Rightarrow> ControlOp \<Rightarrow> bool" where
  "foreign_op H scope (OpIssue _ _ input) = (issue_scope H input \<noteq> scope)"
| "foreign_op H scope _ = True"

definition track :: "string \<Rightarrow> DeviceCommand option \<Rightarrow> nat \<Rightarrow> CommandState \<Rightarrow> bool" where
  "track scope mine n cs = (case mine of None \<Rightarrow> unclaimed scope n cs | Some c \<Rightarrow> lasting scope c n cs)"

lemma track_less: "track scope mine n cs \<Longrightarrow> m \<le> n \<Longrightarrow> track scope mine m cs"
  by (fastforce simp: track_def unclaimed_def lasting_def split: option.splits)

lemma track_dequeue:
  assumes "command_inv H cs" "i < length (queue_of cs d)" "track scope mine n cs"
  shows "track scope mine n (dequeue d i cs)"
proof -
  have "distinct (map fst (queues cs))" using assms(1) by (simp add: command_inv_def queue_inv_def)
  from arg_cong [OF queued_dequeue [OF this assms(2)], of size]
  have "length (queued_commands (dequeue d i cs)) \<le> length (queued_commands cs)" by simp
  then show ?thesis using assms(3) by (fastforce simp: track_def unclaimed_def lasting_def split: option.splits)
qed

lemma track_op:
  assumes H: "hex_text H" and inv: "control_inv H s" and ok: "op_admissible op s" and other: "foreign_op H scope op"
    and tr: "track scope mine (issues_command op + n) (app_commands s)"
  shows "track scope mine n (app_commands (control_op H cas op s))"
proof (cases op)
  case (OpRegister now r)
  obtain res t where "register_device_transaction cas now r s = (res, t)" by force
  from register_effect(1) [OF this] this show ?thesis using tr OpRegister by simp
next
  case (OpHeartbeat now r)
  obtain res t where "heartbeat_transaction cas now r s = (res, t)" by force
  from heartbeat_effect(1) [OF this] this show ?thesis using tr OpHeartbeat by simp
next
  case (OpProbe now d r)
  obtain res t where "public_probe_transaction cas now d r s = (res, t)" by force
  from probe_effect(1) [OF this] this show ?thesis using tr OpProbe by simp
next
  case (OpIssue new_id now input)
  have I: "command_inv H (app_commands s)" "issue_admissible new_id input (app_commands s)"
    using inv ok OpIssue by (simp_all add: control_inv_def)
  have keep: "track scope mine n (app_commands s)" by (rule track_less [OF tr]) simp
  show ?thesis
  proof (cases rule: issue_cases [OF H I, of cas now])
    case (5 db cs')
    note tx = 5(8)
    show ?thesis
      using created_unclaimed [OF H I tx] created_retains [OF H I tx] tr other OpIssue tx by (auto simp: track_def split: option.splits)
  qed (use keep OpIssue in simp_all)
next
  case (OpAcknowledge now input)
  have I: "command_inv H (app_commands s)" using inv by (simp add: control_inv_def)
  show ?thesis
  proof (cases rule: ack_cases [OF I, of input cas now])
    case (4 db i)
    then show ?thesis using track_dequeue [OF I 4(2)] tr OpAcknowledge by simp
  qed (use tr OpAcknowledge in simp_all)
qed (use tr in simp)

fun ops_admissible :: "Hashing \<Rightarrow> 'db cas \<Rightarrow> ControlOp list \<Rightarrow> 'db AppState \<Rightarrow> bool" where
  "ops_admissible H cas [] s = True"
| "ops_admissible H cas (op # ops) s = (op_admissible op s \<and> ops_admissible H cas ops (control_op H cas op s))"

lemma track_ops:
  assumes "hex_text H" "control_inv H s" "ops_admissible H cas ops s" "list_all (foreign_op H scope) ops"
    and "track scope mine (sum_list (map issues_command ops) + n) (app_commands s)"
  shows "control_inv H (fold (control_op H cas) ops s) \<and> track scope mine n (app_commands (fold (control_op H cas) ops s))"
  using assms(2-)
proof (induction ops arbitrary: s)
  case (Cons op ops)
  have "track scope mine (sum_list (map issues_command ops) + n) (app_commands (control_op H cas op s))"
    by (rule track_op [OF assms(1) Cons(2)]) (use Cons in \<open>simp_all add: add.assoc\<close>)
  moreover have "control_inv H (control_op H cas op s)" by (rule control_op_inv [OF assms(1) Cons(2)]) (use Cons in simp)
  ultimately show ?case using Cons by simp
qed simp

section \<open>The client and the control plane\<close>

datatype Fate = RequestLost | ReplyLost | Answered

text \<open>
  One exchange: what other requests did before it arrives, what becomes of it, the
  clock and identifiers of the server then, and what others do while it is served.
\<close>

record Contact =
  ct_before :: "ControlOp list"
  ct_fate :: Fate
  ct_env :: ApiEnv
  ct_between :: "ControlOp list"

record 'db RemoteWorld =
  rw_state :: "'db AppState"
  rw_contacts :: "Contact list"
  rw_quiet_env :: ApiEnv
  rw_clock :: nat
  rw_named :: "CommandId list"

record 'db Remote =
  rm_hashing :: Hashing
  rm_cas :: "'db cas"
  rm_auth :: AuthConfig
  rm_device :: string
  rm_show_id :: "CommandId \<Rightarrow> string"
  rm_fresh :: string

definition next_contact :: "'db RemoteWorld \<Rightarrow> Contact" where
  "next_contact w =
     (case rw_contacts w of
        c # _ \<Rightarrow> c
      | [] \<Rightarrow> \<lparr>ct_before = [], ct_fate = Answered, ct_env = rw_quiet_env w, ct_between = []\<rparr>)"

definition rotate_headers :: "string \<Rightarrow> string \<Rightarrow> headers" where
  "rotate_headers token key name =
     (if name = ''authorization'' then Some (Some (''Bearer '' @ token))
      else if name = ''idempotency-key'' then Some (Some key) else None)"

definition status_headers :: "string \<Rightarrow> headers" where
  "status_headers token name = (if name = ''authorization'' then Some (Some (''Bearer '' @ token)) else None)"

definition arrived :: "'db Remote \<Rightarrow> Contact \<Rightarrow> 'db AppState \<Rightarrow> 'db AppState" where
  "arrived R c s = fold (control_op (rm_hashing R) (rm_cas R)) (ct_before c) s"

definition served :: "'db Remote \<Rightarrow> headers \<Rightarrow> ApiRequest \<Rightarrow> Contact \<Rightarrow> 'db AppState \<Rightarrow> ApiResponse \<times> 'db AppState" where
  "served R h req c s =
     serve (rm_hashing R) (rm_cas R) (rm_auth R) (ct_env c) h (fold (control_op (rm_hashing R) (rm_cas R)) (ct_between c)) req (arrived R c s)"

fun named_command :: "ApiBody \<Rightarrow> CommandId list" where
  "named_command (RotationBody i _ _ _) = [i]"
| "named_command _ = []"

fun decode_accepted :: "(CommandId \<Rightarrow> string) \<Rightarrow> ApiBody \<Rightarrow> RotationAccepted option" where
  "decode_accepted show_id (RotationBody i _ ip _) = Some \<lparr>accepted_command_id = show_id i, accepted_old_ip = ip\<rparr>"
| "decode_accepted show_id _ = None"

fun decode_device :: "ApiBody \<Rightarrow> DeviceRecord option" where
  "decode_device (DeviceBody d) = Some d"
| "decode_device _ = None"

definition exchange :: "'db Remote \<Rightarrow> headers \<Rightarrow> ApiRequest \<Rightarrow> 'db RemoteWorld \<Rightarrow> (string + ApiResponse) \<times> 'db RemoteWorld" where
  "exchange R h req w =
     (let c = next_contact w; s = arrived R c (rw_state w); w1 = w\<lparr>rw_contacts := tl (rw_contacts w)\<rparr> in
      if ct_fate c = RequestLost then (Inl ''request lost'', w1\<lparr>rw_state := s\<rparr>)
      else case served R h req c (rw_state w) of (r, t) \<Rightarrow>
        (if ct_fate c = ReplyLost then Inl ''reply lost'' else Inr r,
         w1\<lparr>rw_state := t, rw_named := rw_named w @ named_command (body r)\<rparr>))"

definition remote_host :: "'db Remote \<Rightarrow> 'db RemoteWorld RotateHost" where
  "remote_host R =
     \<lparr>rh_decode_base64 = Some, rh_certificate = (\<lambda>_. True), rh_builds = (\<lambda>_. True), rh_new_uuid = (\<lambda>w. (rm_fresh R, w)),
      rh_post = (\<lambda>url token key w.
        apfst (map_sum id (\<lambda>r. (status r, decode_accepted (rm_show_id R) (body r))))
          (exchange R (rotate_headers token key) (RotateDevice (rm_device R)) w)),
      rh_get = (\<lambda>url token w.
        apfst (map_sum id (\<lambda>r. (status r, decode_device (body r))))
          (exchange R (status_headers token) (RotationDevice (rm_device R)) w)),
      rh_sleep = (\<lambda>d w. w\<lparr>rw_clock := rw_clock w + d\<rparr>), rh_now = rw_clock\<rparr>"

lemma exchange_clock: "rw_clock (snd (exchange R h req w)) = rw_clock w"
  by (simp add: exchange_def Let_def split: prod.split)

interpretation remote: monotone_host "remote_host R" for R
  by unfold_locales (simp_all add: remote_host_def exchange_clock)

text \<open>What a rotation request does to the control plane.\<close>

lemma serve_rotate_cases:
  assumes "serve H cas auth env h between (RotateDevice d) s = (r, t)"
  obtains (kept) "t = s" "named_command (body r) = []"
    | (issued) key where "rotation_key h = Some key"
        "t = snd (issue_command_transaction H cas (fresh_command_uuid env) (now_text env)
               \<lparr>issue_device_id = d, issue_request = rotation_request key\<rparr> (between s))"
        "named_command (body r) =
           (case fst (issue_command_transaction H cas (fresh_command_uuid env) (now_text env)
                \<lparr>issue_device_id = d, issue_request = rotation_request key\<rparr> (between s)) of
              Inl _ \<Rightarrow> [] | Inr outcome \<Rightarrow> [cmd_command_id (snd (IssueCommandOutcome_into_parts outcome))])"
proof (cases "rotate_lookup h d s")
  case (Inl e)
  have "named_command (body e) = []" using Inl
    by (auto simp: rotate_lookup_def and_then_def ok_or_def split: option.splits)
  then show thesis using assms Inl that(1)
    by (auto simp: serve_def attach_request_context_def context_error_def rotate_device_def reply_def split: if_splits sum.splits RequestContextError.splits)
next
  case (Inr looked)
  obtain key ip where l: "looked = (key, ip)" by force
  note k = rotate_lookup_key [OF Inr [unfolded l]]
  show thesis
  proof (cases "authorized auth RotationRole h \<and> (\<exists>context. context_from_headers env h = Inr context)")
    case True
    obtain res u where u: "issue_command_transaction H cas (fresh_command_uuid env) (now_text env)
        \<lparr>issue_device_id = d, issue_request = rotation_request key\<rparr> (between s) = (res, u)" by force
    show thesis
      by (rule that(2) [OF k])
        (use assms Inr l True u in \<open>auto simp: serve_def attach_request_context_def rotate_device_def rotate_dispatch_def reply_def Let_def
          split: prod.splits sum.splits IssueCommandError.splits\<close>)
  next
    case False
    then show thesis using assms that(1)
      by (auto simp: serve_def attach_request_context_def context_error_def reply_def split: if_splits sum.splits RequestContextError.splits)
  qed
qed

section \<open>One rotation, one command\<close>

definition rotation_input :: "'db Remote \<Rightarrow> IdempotencyKey \<Rightarrow> IssueCommandInput" where
  "rotation_input R key = \<lparr>issue_device_id = rm_device R, issue_request = rotation_request key\<rparr>"

definition others_issue :: "Contact \<Rightarrow> nat" where
  "others_issue c = sum_list (map issues_command (ct_before c @ ct_between c))"

definition contact_ok :: "'db Remote \<Rightarrow> IdempotencyKey \<Rightarrow> Contact \<Rightarrow> 'db AppState \<Rightarrow> bool" where
  "contact_ok R key c s =
     (let H = rm_hashing R; run = fold (control_op H (rm_cas R)); s1 = run (ct_before c) s in
      ops_admissible H (rm_cas R) (ct_before c) s \<and> ops_admissible H (rm_cas R) (ct_between c) s1
      \<and> list_all (foreign_op H (issue_scope H (rotation_input R key))) (ct_before c @ ct_between c)
      \<and> issue_admissible (fresh_command_uuid (ct_env c)) (rotation_input R key) (app_commands (run (ct_between c) s1)))"

fun contacts_ok :: "'db Remote \<Rightarrow> headers \<Rightarrow> IdempotencyKey \<Rightarrow> Contact list \<Rightarrow> 'db AppState \<Rightarrow> bool" where
  "contacts_ok R h key [] s = True"
| "contacts_ok R h key (c # cs) s =
     (contact_ok R key c s
      \<and> contacts_ok R h key cs (if ct_fate c = RequestLost then arrived R c s else snd (served R h (RotateDevice (rm_device R)) c s)))"

definition mine_matches :: "Hashing \<Rightarrow> IssueCommandInput \<Rightarrow> DeviceCommand option \<Rightarrow> bool" where
  "mine_matches H input mine = (case mine of None \<Rightarrow> True | Some c \<Rightarrow> same_request H c input)"

lemma issue_tracked:
  assumes H: "hex_text H" and inv: "control_inv H s" and adm: "issue_admissible new_id input (app_commands s)"
    and tr: "track (issue_scope H input) mine n (app_commands s)" and mine: "mine_matches H input mine"
    and tx: "issue_command_transaction H cas new_id now input s = (res, t)"
  shows "\<exists>mine'. control_inv H t \<and> track (issue_scope H input) mine' n (app_commands t) \<and> mine_matches H input mine'
       \<and> (mine = None \<or> mine' = mine)
       \<and> (case res of Inl _ \<Rightarrow> mine' = mine
          | Inr outcome \<Rightarrow> mine' = Some (snd (IssueCommandOutcome_into_parts outcome)))"
proof -
  have I: "command_inv H (app_commands s)" using inv by (simp add: control_inv_def)
  have t: "control_inv H t" using control_op_inv [OF H inv, of "OpIssue new_id now input" cas] adm tx by simp
  show ?thesis
  proof (cases mine)
    case (Some c)
    then have "map_of (idempotency_results (app_commands s)) (issue_scope H input) = Some c" "same_request H c input"
      using tr mine by (simp_all add: track_def lasting_def mine_matches_def)
    from issue_replayed [OF H I this(1)] this(2) tx have "res = Inr (ExactDuplicate c)" "t = s" by auto
    then show ?thesis using t tr mine Some by auto
  next
    case None
    show ?thesis
    proof (cases rule: issue_cases [OF H I adm, of cas now])
      case (5 db cs')
      have "lasting (issue_scope H input) (new_command new_id now input) n (app_commands t)"
        by (rule created_claims [OF H I adm]) (use 5(8) tx tr None in \<open>simp_all add: track_def\<close>)
      then show ?thesis using t 5(8) tx None by (intro exI [of _ "Some (new_command new_id now input)"])
          (auto simp: track_def mine_matches_def same_request_new)
    qed (use t tx tr mine None in \<open>auto simp: track_def unclaimed_def\<close>)
  qed
qed

lemma contact_tracked:
  assumes H: "hex_text (rm_hashing R)" and inv: "control_inv (rm_hashing R) s" and ok: "contact_ok R key c s"
    and key: "rotation_key h = Some key"
    and tr: "track (issue_scope (rm_hashing R) (rotation_input R key)) mine (others_issue c + n) (app_commands s)"
    and mine: "mine_matches (rm_hashing R) (rotation_input R key) mine"
    and sv: "served R h (RotateDevice (rm_device R)) c s = (r, t)"
  shows "\<exists>mine'. control_inv (rm_hashing R) t
       \<and> track (issue_scope (rm_hashing R) (rotation_input R key)) mine' n (app_commands t)
       \<and> mine_matches (rm_hashing R) (rotation_input R key) mine' \<and> (mine = None \<or> mine' = mine)
       \<and> (named_command (body r) = [] \<and> mine' = mine \<or> (\<exists>d. mine' = Some d \<and> named_command (body r) = [cmd_command_id d]))"
proof -
  let ?H = "rm_hashing R" and ?in = "rotation_input R key" and ?run = "fold (control_op (rm_hashing R) (rm_cas R))"
  let ?s1 = "arrived R c s"
  note O = ok [unfolded contact_ok_def Let_def]
  have s1: "control_inv ?H ?s1 \<and> track (issue_scope ?H ?in) mine (sum_list (map issues_command (ct_between c)) + n) (app_commands ?s1)"
    unfolding arrived_def by (rule track_ops [OF H inv]) (use O tr in \<open>simp_all add: others_issue_def add.assoc\<close>)
  have s2: "control_inv ?H (?run (ct_between c) ?s1) \<and> track (issue_scope ?H ?in) mine n (app_commands (?run (ct_between c) ?s1))"
    by (rule track_ops [OF H]) (use O s1 in \<open>simp_all add: arrived_def\<close>)
  have keep: "track (issue_scope ?H ?in) mine n (app_commands ?s1)" using s1 by (auto intro: track_less)
  show ?thesis
  proof (rule serve_rotate_cases [OF sv [unfolded served_def]])
    assume "t = ?s1" "named_command (body r) = []"
    then show ?thesis using s1 keep mine by auto
  next
    fix key'
    assume k: "rotation_key h = Some key'"
      and t: "t = snd (issue_command_transaction ?H (rm_cas R) (fresh_command_uuid (ct_env c)) (now_text (ct_env c))
          \<lparr>issue_device_id = rm_device R, issue_request = rotation_request key'\<rparr> (?run (ct_between c) ?s1))"
      and nm: "named_command (body r) = (case fst (issue_command_transaction ?H (rm_cas R) (fresh_command_uuid (ct_env c)) (now_text (ct_env c))
          \<lparr>issue_device_id = rm_device R, issue_request = rotation_request key'\<rparr> (?run (ct_between c) ?s1)) of
            Inl _ \<Rightarrow> [] | Inr outcome \<Rightarrow> [cmd_command_id (snd (IssueCommandOutcome_into_parts outcome))])"
    have in_eq: "\<lparr>issue_device_id = rm_device R, issue_request = rotation_request key'\<rparr> = ?in"
      using k key by (simp add: rotation_input_def)
    obtain res u where u: "issue_command_transaction ?H (rm_cas R) (fresh_command_uuid (ct_env c)) (now_text (ct_env c)) ?in
        (?run (ct_between c) ?s1) = (res, u)" by force
    have adm: "issue_admissible (fresh_command_uuid (ct_env c)) ?in (app_commands (?run (ct_between c) ?s1))"
      using O by (simp add: arrived_def)
    from issue_tracked [OF H conjunct1 [OF s2] adm conjunct2 [OF s2] mine u] t nm u in_eq show ?thesis
      by (cases res) auto
  qed
qed

definition command_ids :: "DeviceCommand option \<Rightarrow> CommandId set" where
  "command_ids mine = cmd_command_id ` set_option mine"

definition world_ok :: "'db Remote \<Rightarrow> headers \<Rightarrow> IdempotencyKey \<Rightarrow> DeviceCommand option \<Rightarrow> 'db RemoteWorld \<Rightarrow> bool" where
  "world_ok R h key mine w =
     (control_inv (rm_hashing R) (rw_state w) \<and> mine_matches (rm_hashing R) (rotation_input R key) mine
      \<and> track (issue_scope (rm_hashing R) (rotation_input R key)) mine (sum_list (map others_issue (rw_contacts w))) (app_commands (rw_state w))
      \<and> set (rw_named w) = command_ids mine \<and> contacts_ok R h key (rw_contacts w) (rw_state w))"

lemma exchange_tracked:
  assumes H: "hex_text (rm_hashing R)" and key: "rotation_key h = Some key" and w: "world_ok R h key mine w" "rw_contacts w = c # cs"
    and ex: "exchange R h (RotateDevice (rm_device R)) w = (resp, w')"
  shows "\<exists>mine'. world_ok R h key mine' w' \<and> rw_contacts w' = cs
       \<and> (\<forall>r i. resp = Inr r \<longrightarrow> i \<in> set (named_command (body r)) \<longrightarrow> i \<in> command_ids mine')"
proof -
  let ?H = "rm_hashing R" and ?in = "rotation_input R key"
  have c: "next_contact w = c" using w(2) by (simp add: next_contact_def)
  have W: "control_inv ?H (rw_state w)" "mine_matches ?H ?in mine" "contact_ok R key c (rw_state w)" "set (rw_named w) = command_ids mine"
    "track (issue_scope ?H ?in) mine (others_issue c + sum_list (map others_issue cs)) (app_commands (rw_state w))"
    "contacts_ok R h key cs (if ct_fate c = RequestLost then arrived R c (rw_state w)
       else snd (served R h (RotateDevice (rm_device R)) c (rw_state w)))"
    using w by (simp_all add: world_ok_def)
  obtain r t where sv: "served R h (RotateDevice (rm_device R)) c (rw_state w) = (r, t)" by force
  show ?thesis
  proof (cases "ct_fate c = RequestLost")
    case True
    have "control_inv ?H (arrived R c (rw_state w))
        \<and> track (issue_scope ?H ?in) mine (sum_list (map others_issue cs)) (app_commands (arrived R c (rw_state w)))"
      unfolding arrived_def
      by (rule track_ops [OF H W(1)])
        (use W(3) track_less [OF W(5), of "sum_list (map issues_command (ct_before c)) + sum_list (map others_issue cs)"]
          in \<open>simp_all add: contact_ok_def Let_def others_issue_def\<close>)
    moreover have e: "w' = w\<lparr>rw_contacts := cs, rw_state := arrived R c (rw_state w)\<rparr>" "resp = Inl ''request lost''"
      using ex True c w(2) by (simp_all add: exchange_def Let_def)
    ultimately have "world_ok R h key mine w'" using W(2,4,6) True by (simp add: world_ok_def)
    moreover have "rw_contacts w' = cs" by (simp add: e(1))
    ultimately show ?thesis using e(2) by blast
  next
    case False
    from contact_tracked [OF H W(1,3) key W(5,2) sv] obtain mine' where
      m: "control_inv ?H t" "track (issue_scope ?H ?in) mine' (sum_list (map others_issue cs)) (app_commands t)"
        "mine_matches ?H ?in mine'" "mine = None \<or> mine' = mine"
        "named_command (body r) = [] \<and> mine' = mine \<or> (\<exists>d. mine' = Some d \<and> named_command (body r) = [cmd_command_id d])" by blast
    have ids: "command_ids mine \<union> set (named_command (body r)) = command_ids mine'"
      using m(4,5) by (auto simp: command_ids_def)
    have e: "w' = w\<lparr>rw_contacts := cs, rw_state := t, rw_named := rw_named w @ named_command (body r)\<rparr>"
      "\<And>r'. resp = Inr r' \<Longrightarrow> r' = r"
      using ex False c w(2) sv by (simp_all add: exchange_def Let_def split: if_splits)
    have "world_ok R h key mine' w'" using e(1) W(4,6) False sv m(1-3) ids by (simp add: world_ok_def)
    moreover have "rw_contacts w' = cs" by (simp add: e(1))
    moreover have "i \<in> command_ids mine'" if "resp = Inr r'" "i \<in> set (named_command (body r'))" for r' i
      using that e(2) ids by blast
    ultimately show ?thesis by blast
  qed
qed

lemma decode_accepted_named: "decode_accepted show_id b = Some a \<Longrightarrow> \<exists>i\<in>set (named_command b). accepted_command_id a = show_id i"
  by (cases b) auto

lemma attempts_tracked:
  assumes H: "hex_text (rm_hashing R)" and key: "rotation_key (rotate_headers (ra_rotation_token args) text) = Some key"
  shows "world_ok R (rotate_headers (ra_rotation_token args) text) key mine w \<Longrightarrow> Suc MAX_ATTEMPTS - attempt \<le> length (rw_contacts w) \<Longrightarrow>
     issue_attempts (remote_host R) args text attempt prev w = (res, w') \<Longrightarrow>
     \<exists>mine'. set (rw_named w') = command_ids mine' \<and> (\<forall>a. res = Inr a \<longrightarrow> (\<exists>i\<in>command_ids mine'. accepted_command_id a = rm_show_id R i))
       \<and> length (rw_contacts w) \<le> length (rw_contacts w') + (Suc MAX_ATTEMPTS - attempt)"
proof (induction "Suc MAX_ATTEMPTS - attempt" arbitrary: attempt prev mine w)
  case 0
  then have "w' = w" "\<exists>e. res = Inl e" by (auto simp: issue_attempts.simps)
  then show ?case using 0(2) by (auto simp: world_ok_def)
next
  case (Suc k)
  let ?h = "rotate_headers (ra_rotation_token args) text"
  from Suc(2,4) obtain c cs where cs: "rw_contacts w = c # cs" by (cases "rw_contacts w") auto
  obtain resp w1 where ex: "exchange R ?h (RotateDevice (rm_device R)) w = (resp, w1)" by force
  from exchange_tracked [OF H key Suc(3) cs ex] obtain mine' where m: "world_ok R ?h key mine' w1" "rw_contacts w1 = cs"
    "\<And>r i. resp = Inr r \<Longrightarrow> i \<in> set (named_command (body r)) \<Longrightarrow> i \<in> command_ids mine'" by blast
  let ?response = "map_sum id (\<lambda>r. (status r, decode_accepted (rm_show_id R) (body r))) resp"
  have post: "rh_post (remote_host R) (rotation_url args) (ra_rotation_token args) text w = (?response, w1)"
    using ex by (simp add: remote_host_def)
  have le: "\<not> MAX_ATTEMPTS < attempt" using Suc(2) by simp
  show ?case
  proof (cases "attempt_outcome attempt ?response")
    case (Inl result)
    then have r: "res = result" "w' = w1" using Suc(5) post le by (simp_all add: issue_attempts.simps [of _ _ _ attempt])
    have "\<exists>i\<in>command_ids mine'. accepted_command_id a = rm_show_id R i" if "res = Inr a" for a
    proof -
      from Inl that r obtain response where "resp = Inr response" "decode_accepted (rm_show_id R) (body response) = Some a"
        by (cases resp) (auto simp: attempt_outcome_def ok_or_def split: if_splits option.splits)
      with decode_accepted_named m(3) show ?thesis by blast
    qed
    then show ?thesis using r(2) m(1,2) cs le by (auto simp: world_ok_def)
  next
    case (Inr e)
    let ?w2 = "w1\<lparr>rw_clock := rw_clock w1 + secs (2 ^ (attempt - 1))\<rparr>"
    have "issue_attempts (remote_host R) args text (Suc attempt) (Some e) ?w2 = (res, w')"
      using Suc(5) post le Inr by (simp add: issue_attempts.simps [of _ _ _ attempt] remote_host_def)
    moreover have "world_ok R ?h key mine' ?w2" using m(1) by (simp add: world_ok_def)
    moreover have "Suc MAX_ATTEMPTS - Suc attempt \<le> length (rw_contacts ?w2)" using Suc(4) m(2) cs by simp
    ultimately show ?thesis using Suc(1) [of "Suc attempt" mine' ?w2 "Some e"] Suc(2) m(2) cs by fastforce
  qed
qed


section \<open>What a repeated answer says\<close>

lemma client_context [simp]:
  "context_from_headers env (rotate_headers token key) =
     Inr \<lparr>request_id = RequestId (fresh_request_uuid env), correlation_id = CorrelationId (fresh_request_uuid env),
       consumer_id = None, application_id = None, actor_id = None, deadline = None\<rparr>"
  "context_from_headers env (status_headers token) =
     Inr \<lparr>request_id = RequestId (fresh_request_uuid env), correlation_id = CorrelationId (fresh_request_uuid env),
       consumer_id = None, application_id = None, actor_id = None, deadline = None\<rparr>"
  by (simp_all add: context_from_headers_def parse_header_def parse_deadline_def rotate_headers_def status_headers_def Let_def)

lemma authorized_status: "authorized auth role (rotate_headers token key) \<Longrightarrow> authorized auth role (status_headers token)"
  by (simp add: authorized_def bearer_def rotate_headers_def status_headers_def)

lemma mark_stale_ip [simp]: "dev_last_public_ip (mark_stale now d) = dev_last_public_ip d"
  by (simp add: mark_stale_def split: option.split)

lemma quiet_get:
  assumes "authorized (rm_auth R) RotationRole (status_headers (ra_rotation_token args))" "rw_contacts w = []"
    and "map_of (app_devices (rw_state w)) (rm_device R) = Some d"
  shows "fetch_device (remote_host R) args w = (Inr (mark_stale (now_text (rw_quiet_env w)) d), w)"
  using assms
  by (simp add: fetch_device_def remote_host_def exchange_def next_contact_def arrived_def served_def serve_def attach_request_context_def
      get_ui_device_def reply_def error_for_status_def ok_or_def Let_def)


section \<open>Witnesses\<close>

definition sample_remote :: "unit Remote" where
  "sample_remote = \<lparr>rm_hashing = sample_hashing, rm_cas = accept_all, rm_auth = sample_auth, rm_device = ''d'',
     rm_show_id = (\<lambda>_. ''id''), rm_fresh = ''u''\<rparr>"

definition sample_rotate_args :: RotateServerArgs where
  "sample_rotate_args = \<lparr>ra_control_plane_url = ''https://cp/'', ra_control_plane_addr = ''192.0.2.1:8443'', ra_control_plane_name = ''cp'', ra_cert_der_b64 = [], ra_rotation_token = ''rotation-token'',
     ra_device_id = ''d'', ra_timeout_secs = 240, ra_poll_secs = 2, ra_format = FormatJson\<rparr>"

definition sample_remote_state :: "unit AppState" where
  "sample_remote_state = \<lparr>app_devices = [(''d'', sample_device\<lparr>dev_last_public_ip := Some ''198.51.100.1''\<rparr>)],
     app_commands = CommandState_default, app_db = ()\<rparr>"

definition sample_contact :: "Fate \<Rightarrow> Contact" where
  "sample_contact fate = \<lparr>ct_before = [], ct_fate = fate, ct_env = sample_env, ct_between = []\<rparr>"

definition sample_remote_world :: "Contact list \<Rightarrow> unit AppState \<Rightarrow> unit RemoteWorld" where
  "sample_remote_world contacts s =
     \<lparr>rw_state = s, rw_contacts = contacts, rw_quiet_env = sample_env, rw_clock = 0, rw_named = []\<rparr>"

theorem server_rotation_returns_witness:
  "\<exists>res w'. run_inner (remote_host sample_remote) sample_rotate_args (sample_remote_world [] sample_remote_state) = Some (res, w')"
  using server_rotation_returns [OF remote.sleep_advances remote.get_keeps_time,
      of sample_remote sample_rotate_args "sample_remote_world [] sample_remote_state"] by blast

lemma sample_rotation_key: "IdempotencyKey_parse (''remote-ip-'' @ rm_fresh sample_remote) = Inr (IdempotencyKey ''remote-ip-u'')"
  by (simp add: IdempotencyKey_parse_Inr_iff sample_remote_def is_ascii_graphic_def in_range_def)

lemma sample_rotation_authorized:
  "authorized (rm_auth sample_remote) RotationRole (rotate_headers (ra_rotation_token sample_rotate_args) (''remote-ip-'' @ rm_fresh sample_remote))"
  by (simp add: authorized_def sample_auth_def bearer_def rotate_headers_def matches_def is_ascii_control_def in_range_def
      byte_at_def leading_whitespace_def sample_remote_def sample_rotate_args_def)

lemma sample_remote_inv: "control_inv sample_hashing sample_remote_state"
  using control_start_inv [of sample_hashing "()"]
  by (simp add: control_inv_def sample_remote_state_def control_start_def device_inv_def sample_device_def MAX_REGISTERED_DEVICES_def sample_heartbeat_def)

text \<open>Four lost requests and an answer: the fifth attempt creates the command.\<close>

definition four_lost :: "Contact list" where
  "four_lost = replicate 4 (sample_contact RequestLost) @ [sample_contact Answered]"


text \<open>The command was created by an attempt whose reply was lost, then acknowledged; the device is at its new address.\<close>

definition sample_rotation_command :: DeviceCommand where
  "sample_rotation_command = new_command 2 ''90'' (rotation_input sample_remote (IdempotencyKey ''remote-ip-u''))"

definition sample_rotated_state :: "unit AppState" where
  "sample_rotated_state = \<lparr>app_devices = [(''d'', sample_device\<lparr>dev_last_public_ip := Some ''198.51.100.2''\<rparr>)],
     app_commands = dequeue ''d'' 0 (enqueue_command sample_hashing sample_rotation_command CommandState_default), app_db = ()\<rparr>"


end
