(* ===== verification/Operator_Commands.thy ===== *)
theory Operator_Commands
  imports Server_Rotate Host_Api Host_Runtime_Inv
begin

text \<open>
  Model of the operator's direct commands to a phone
  (\<open>apps/operator-cli/src/http.rs\<close>, \<open>commands.rs\<close>): the health, metrics and rotation
  calls, waiting for a rotation job, and the airplane study that searches for the
  shortest hold time whose rotations succeed often enough.  The HTTP client and the
  clock are fields of \<open>PhoneApi\<close>.

  The study compares the quotient of two \<open>u32\<close> values with 0.99 in double precision.
  A quotient other than 0.99 differs from it by more than \<open>2 ^ (-39)\<close> and rounding is
  monotone with an error below \<open>2 ^ (-53)\<close>, so the comparison holds exactly when at
  least 99 runs of 100 succeed; without runs the quotient is not a number and the
  comparison fails.
\<close>

section \<open>Calls\<close>

datatype ApiFailure =
    InvalidBearerToken
  | CallFailed string
  | CallRejected nat
  | CallUndecodable
  | WaitTimedOut uuid
  | NoHoldQualifies

type_synonym 'a call_result = "string + nat \<times> 'a option"

record 'w PhoneApi =
  pa_valid_header :: "string \<Rightarrow> bool"
  pa_post_rotate :: "string \<Rightarrow> RotateRequest \<Rightarrow> 'w \<Rightarrow> uuid call_result \<times> 'w"
  pa_get_job :: "string \<Rightarrow> uuid \<Rightarrow> 'w \<Rightarrow> JobRecord call_result \<times> 'w"
  pa_get_health :: "string \<Rightarrow> 'w \<Rightarrow> HealthRecord call_result \<times> 'w"
  pa_get_metrics :: "string \<Rightarrow> 'w \<Rightarrow> string call_result \<times> 'w"
  pa_sleep :: "nat \<Rightarrow> 'w \<Rightarrow> 'w"
  pa_now :: "'w \<Rightarrow> nat"

definition auth_headers :: "'w PhoneApi \<Rightarrow> string \<Rightarrow> ApiFailure + unit" where
  "auth_headers api token = (if pa_valid_header api (''Bearer '' @ token) then Inr () else Inl InvalidBearerToken)"

definition call :: "'w PhoneApi \<Rightarrow> string \<Rightarrow> ('w \<Rightarrow> 'a call_result \<times> 'w) \<Rightarrow> 'w \<Rightarrow> (ApiFailure + 'a) \<times> 'w" where
  "call api token send w =
     (case auth_headers api token of
        Inl e \<Rightarrow> (Inl e, w)
      | Inr _ \<Rightarrow>
          (case send w of
             (Inl e, w1) \<Rightarrow> (Inl (CallFailed e), w1)
           | (Inr (code, value), w1) \<Rightarrow>
               (if error_for_status code then Inl (CallRejected code) else ok_or CallUndecodable value, w1)))"

definition phone_issue_rotation :: "'w PhoneApi \<Rightarrow> string \<Rightarrow> RotateRequest \<Rightarrow> 'w \<Rightarrow> (ApiFailure + uuid) \<times> 'w" where
  "phone_issue_rotation api token request = call api token (pa_post_rotate api token request)"

definition fetch_health :: "'w PhoneApi \<Rightarrow> string \<Rightarrow> 'w \<Rightarrow> (ApiFailure + HealthRecord) \<times> 'w" where
  "fetch_health api token = call api token (pa_get_health api token)"

definition fetch_metrics :: "'w PhoneApi \<Rightarrow> string \<Rightarrow> 'w \<Rightarrow> (ApiFailure + string) \<times> 'w" where
  "fetch_metrics api token = call api token (pa_get_metrics api token)"

partial_function (option) wait_loop ::
  "'w PhoneApi \<Rightarrow> string \<Rightarrow> uuid \<Rightarrow> u64 \<Rightarrow> nat \<Rightarrow> 'w \<Rightarrow> ((ApiFailure + JobRecord \<times> HealthRecord) \<times> 'w) option" where
  "wait_loop api token job_uuid poll_secs started w =
     (if pa_now api w - started > secs 300 then Some (Inl (WaitTimedOut job_uuid), w)
      else case call api token (pa_get_job api token job_uuid) w of (fetched, w1) \<Rightarrow>
        (case fetched of
           Inl e \<Rightarrow> Some (Inl e, w1)
         | Inr job \<Rightarrow>
             if job_status job \<noteq> ''running''
             then (case fetch_health api token w1 of (health, w2) \<Rightarrow>
                     Some (case health of Inl e \<Rightarrow> Inl e | Inr h \<Rightarrow> Inr (job, h), w2))
             else wait_loop api token job_uuid poll_secs started (pa_sleep api (secs (max (unat poll_secs) 1)) w1)))"

definition wait_for_rotation ::
  "'w PhoneApi \<Rightarrow> string \<Rightarrow> uuid \<Rightarrow> u64 \<Rightarrow> 'w \<Rightarrow> ((ApiFailure + JobRecord \<times> HealthRecord) \<times> 'w) option" where
  "wait_for_rotation api token job_uuid poll_secs w = wait_loop api token job_uuid poll_secs (pa_now api w) w"

section \<open>Commands\<close>

record RotateArgs =
  rt_strategy :: string
  rt_require_public_ip_change :: bool
  rt_reason :: string
  rt_hold_secs :: "u64 option"
  rt_poll_secs :: u64

definition build_rotate_request :: "RotateArgs \<Rightarrow> RotateRequest" where
  "build_rotate_request args =
     \<lparr>rotate_strategy = rt_strategy args, require_public_ip_change = rt_require_public_ip_change args,
      rotate_reason = rt_reason args, hold_secs = rt_hold_secs args\<rparr>"

definition option_text :: "string \<Rightarrow> string option \<Rightarrow> string" where
  "option_text absent v = (case v of Some t \<Rightarrow> t | None \<Rightarrow> absent)"

definition render_status_summary :: "HealthRecord \<Rightarrow> string" where
  "render_status_summary health =
     ''node='' @ he_node_id health @ '' readiness='' @ he_readiness_state health @ '' serving='' @ bool_text (he_serving health)
     @ '' proxy='' @ he_proxy_status health @ '' public_ip='' @ option_text ''unknown'' (he_last_public_ip health) @ [CHR 0x0A]
     @ ''tunnel_owner='' @ option_text ''unknown'' (he_tunnel_owner health)
     @ '' connected='' @ bool_text (he_reverse_tunnel_connected health = Some True)
     @ '' transport='' @ option_text ''none'' (he_reverse_tunnel_active_transport health)
     @ '' freshness='' @ option_text ''unknown'' (he_reverse_tunnel_freshness health)
     @ '' failover_reason='' @ option_text ''none'' (he_reverse_tunnel_failover_reason health)"

datatype Printed =
    PrintedHealth HealthRecord
  | PrintedJob JobRecord
  | PrintedText string

definition render_status :: "StatusFormat \<Rightarrow> HealthRecord \<Rightarrow> Printed" where
  "render_status format health =
     (case format of FormatJson \<Rightarrow> PrintedHealth health | FormatSummary \<Rightarrow> PrintedText (render_status_summary health))"

definition run_status :: "'w PhoneApi \<Rightarrow> string \<Rightarrow> StatusFormat \<Rightarrow> 'w \<Rightarrow> (ApiFailure + Printed) \<times> 'w" where
  "run_status api token format w =
     (case fetch_health api token w of (health, w1) \<Rightarrow> (map_sum id (render_status format) health, w1))"

definition run_metrics :: "'w PhoneApi \<Rightarrow> string \<Rightarrow> 'w \<Rightarrow> (ApiFailure + Printed) \<times> 'w" where
  "run_metrics api token w = (case fetch_metrics api token w of (m, w1) \<Rightarrow> (map_sum id PrintedText m, w1))"

text \<open>A rotation and the wait for its job, as the rotate command and the study run it.\<close>

definition rotate_and_wait ::
  "'w PhoneApi \<Rightarrow> string \<Rightarrow> RotateRequest \<Rightarrow> u64 \<Rightarrow> 'w \<Rightarrow> ((ApiFailure + uuid \<times> JobRecord \<times> HealthRecord) \<times> 'w) option" where
  "rotate_and_wait api token request poll_secs w =
     (case phone_issue_rotation api token request w of
        (Inl e, w1) \<Rightarrow> Some (Inl e, w1)
      | (Inr job_uuid, w1) \<Rightarrow>
          (case wait_for_rotation api token job_uuid poll_secs w1 of
             None \<Rightarrow> None
           | Some (Inl e, w2) \<Rightarrow> Some (Inl e, w2)
           | Some (Inr (job, health), w2) \<Rightarrow> Some (Inr (job_uuid, job, health), w2)))"

definition run_rotate :: "'w PhoneApi \<Rightarrow> string \<Rightarrow> RotateArgs \<Rightarrow> 'w \<Rightarrow> ((ApiFailure + Printed list) \<times> 'w) option" where
  "run_rotate api token args w =
     (case rotate_and_wait api token (build_rotate_request args) (rt_poll_secs args) w of
        None \<Rightarrow> None
      | Some (Inl e, w1) \<Rightarrow> Some (Inl e, w1)
      | Some (Inr (job_uuid, job, health), w1) \<Rightarrow> Some (Inr [PrintedJob job, PrintedHealth health], w1))"

definition is_successful_rotation :: "JobRecord \<Rightarrow> HealthRecord \<Rightarrow> bool \<Rightarrow> bool" where
  "is_successful_rotation job health required =
     (job_status job = ''succeeded'' \<and> he_readiness_state health = ''healthy'' \<and> he_serving health
      \<and> (\<not> required \<or> job_changed job = Some True))"

section \<open>The airplane study\<close>

record AirplaneStudyArgs =
  as_hold_secs :: "u64 list"
  as_runs :: u32
  as_require_public_ip_change :: bool
  as_reason_prefix :: string
  as_poll_secs :: u64

record StudyTrial =
  trial_hold_secs :: u64
  trial_run :: nat
  trial_job_id :: uuid
  trial_job_status :: string
  trial_changed :: "bool option"
  trial_readiness :: string
  trial_serving :: bool
  trial_public_ip :: "string option"
  trial_success :: bool

record StudySummary =
  summary_hold_secs :: u64
  summary_runs :: nat
  summary_successes :: nat

record StudyReport =
  report_recommended :: "u64 option"
  report_summaries :: "StudySummary list"
  report_trials :: "StudyTrial list"

definition study_request :: "AirplaneStudyArgs \<Rightarrow> u64 \<Rightarrow> nat \<Rightarrow> RotateRequest" where
  "study_request args hold run =
     \<lparr>rotate_strategy = ''airplane_bounce'', require_public_ip_change = as_require_public_ip_change args,
      rotate_reason = as_reason_prefix args @ ''-'' @ u64_text hold @ ''s-run-'' @ nat_text run, hold_secs = Some hold\<rparr>"

definition study_trial :: "AirplaneStudyArgs \<Rightarrow> u64 \<Rightarrow> nat \<Rightarrow> uuid \<times> JobRecord \<times> HealthRecord \<Rightarrow> StudyTrial" where
  "study_trial args hold run = (\<lambda>(job_uuid, job, health).
     \<lparr>trial_hold_secs = hold, trial_run = run, trial_job_id = job_uuid, trial_job_status = job_status job,
      trial_changed = job_changed job, trial_readiness = he_readiness_state health, trial_serving = he_serving health,
      trial_public_ip = he_last_public_ip health,
      trial_success = is_successful_rotation job health (as_require_public_ip_change args)\<rparr>)"

fun study_runs ::
  "'w PhoneApi \<Rightarrow> string \<Rightarrow> AirplaneStudyArgs \<Rightarrow> u64 \<Rightarrow> nat list \<Rightarrow> 'w \<Rightarrow> ((ApiFailure + StudyTrial list) \<times> 'w) option" where
  "study_runs api token args hold [] w = Some (Inr [], w)"
| "study_runs api token args hold (run # runs) w =
     (case rotate_and_wait api token (study_request args hold run) (as_poll_secs args) w of
        None \<Rightarrow> None
      | Some (Inl e, w1) \<Rightarrow> Some (Inl e, w1)
      | Some (Inr outcome, w1) \<Rightarrow>
          (case study_runs api token args hold runs w1 of
             Some (Inr trials, w2) \<Rightarrow> Some (Inr (study_trial args hold run outcome # trials), w2)
           | other \<Rightarrow> other))"

definition summarize :: "AirplaneStudyArgs \<Rightarrow> u64 \<Rightarrow> StudyTrial list \<Rightarrow> StudySummary" where
  "summarize args hold trials =
     \<lparr>summary_hold_secs = hold, summary_runs = unat (as_runs args), summary_successes = length (filter trial_success trials)\<rparr>"

fun study_holds ::
  "'w PhoneApi \<Rightarrow> string \<Rightarrow> AirplaneStudyArgs \<Rightarrow> u64 list \<Rightarrow> 'w \<Rightarrow> ((ApiFailure + StudySummary list \<times> StudyTrial list) \<times> 'w) option" where
  "study_holds api token args [] w = Some (Inr ([], []), w)"
| "study_holds api token args (hold # holds) w =
     (case study_runs api token args hold [1..<Suc (unat (as_runs args))] w of
        None \<Rightarrow> None
      | Some (Inl e, w1) \<Rightarrow> Some (Inl e, w1)
      | Some (Inr trials, w1) \<Rightarrow>
          (case study_holds api token args holds w1 of
             Some (Inr (summaries, more_trials), w2) \<Rightarrow>
               Some (Inr (summarize args hold trials # summaries, trials @ more_trials), w2)
           | other \<Rightarrow> other))"

definition meets_minimum :: "StudySummary \<Rightarrow> bool" where
  "meets_minimum summary = (summary_runs summary \<noteq> 0 \<and> 99 * summary_runs summary \<le> 100 * summary_successes summary)"

definition airplane_study_report ::
  "'w PhoneApi \<Rightarrow> string \<Rightarrow> AirplaneStudyArgs \<Rightarrow> 'w \<Rightarrow> ((ApiFailure + StudyReport) \<times> 'w) option" where
  "airplane_study_report api token args w =
     (case study_holds api token args (remdups_adj (sort (as_hold_secs args))) w of
        None \<Rightarrow> None
      | Some (Inl e, w1) \<Rightarrow> Some (Inl e, w1)
      | Some (Inr (summaries, trials), w1) \<Rightarrow>
          Some (Inr \<lparr>report_recommended = map_option summary_hold_secs (find meets_minimum summaries),
                     report_summaries = summaries, report_trials = trials\<rparr>, w1))"

definition run_airplane_study ::
  "'w PhoneApi \<Rightarrow> string \<Rightarrow> AirplaneStudyArgs \<Rightarrow> 'w \<Rightarrow> ((ApiFailure + StudyReport) \<times> 'w) option" where
  "run_airplane_study api token args w =
     (case airplane_study_report api token args w of
        Some (Inr report, w1) \<Rightarrow>
          Some (if report_recommended report = None then Inl NoHoldQualifies else Inr report, w1)
      | other \<Rightarrow> other)"

section \<open>Waiting ends\<close>

locale phone_clock =
  fixes api :: "'w PhoneApi"
  assumes phone_sleep_advances: "pa_now api w + d \<le> pa_now api (pa_sleep api d w)"
    and phone_job_keeps_time: "pa_now api w \<le> pa_now api (snd (pa_get_job api token job w))"
begin

lemma job_call_advances: "call api token (pa_get_job api token job) w = (r, w') \<Longrightarrow> pa_now api w \<le> pa_now api w'"
  using phone_job_keeps_time [of w token job] by (auto simp: call_def split: prod.splits sum.splits)

lemma wait_returns: "\<exists>r. wait_loop api token job poll_secs started w = Some r"
proof (induction w rule: measure_induct_rule [where f = "\<lambda>w. Suc (started + secs 300) - pa_now api w"])
  case (less w)
  show ?case
  proof (cases "pa_now api w - started > secs 300")
    case False
    obtain fetched w1 where f: "call api token (pa_get_job api token job) w = (fetched, w1)" by force
    let ?w2 = "pa_sleep api (secs (max (unat poll_secs) 1)) w1"
    have "pa_now api w < pa_now api ?w2"
      using job_call_advances [OF f] phone_sleep_advances [of w1 "secs (max (unat poll_secs) 1)"] by (simp add: secs_def)
    then have "Suc (started + secs 300) - pa_now api ?w2 < Suc (started + secs 300) - pa_now api w" using False by simp
    from less.IH [OF this] show ?thesis using False f
      by (subst wait_loop.simps) (auto split: sum.split prod.split)
  qed (subst wait_loop.simps, simp)
qed

lemma rotate_returns: "\<exists>r. rotate_and_wait api token request poll_secs w = Some r"
proof -
  obtain issued w1 where i: "phone_issue_rotation api token request w = (issued, w1)" by force
  show ?thesis
  proof (cases issued)
    case (Inr job)
    obtain r where "wait_for_rotation api token job poll_secs w1 = Some r"
      using wait_returns unfolding wait_for_rotation_def by blast
    then show ?thesis using i Inr by (simp add: rotate_and_wait_def split: prod.split sum.split)
  qed (simp add: rotate_and_wait_def i)
qed

lemma study_runs_return: "\<exists>r. study_runs api token args hold runs w = Some r"
proof (induction runs arbitrary: w)
  case (Cons run runs)
  obtain r w1 where r: "rotate_and_wait api token (study_request args hold run) (as_poll_secs args) w = Some (r, w1)"
    using rotate_returns by (metis prod.exhaust)
  from Cons [of w1] obtain q where "study_runs api token args hold runs w1 = Some q" by blast
  then show ?case using r by (cases r; cases "fst q"; cases q) auto
qed simp

lemma study_holds_return: "\<exists>r. study_holds api token args holds w = Some r"
proof (induction holds arbitrary: w)
  case (Cons hold holds)
  obtain r w1 where r: "study_runs api token args hold [1..<Suc (unat (as_runs args))] w = Some (r, w1)"
    using study_runs_return by (metis prod.exhaust)
  from Cons [of w1] obtain q where "study_holds api token args holds w1 = Some q" by blast
  then show ?case using r by (cases r; cases "fst q"; cases q) (auto simp del: upt_Suc)
qed simp

lemma study_returns: "\<exists>r. run_airplane_study api token args w = Some r"
proof -
  obtain r w1 where "study_holds api token args (remdups_adj (sort (as_hold_secs args))) w = Some (r, w1)"
    using study_holds_return by (metis prod.exhaust)
  then show ?thesis by (cases r) (auto simp: run_airplane_study_def airplane_study_report_def)
qed

end

section \<open>What the study reports\<close>

lemma study_runs_trials:
  "study_runs api token args hold runs w = Some (Inr trials, w') \<Longrightarrow>
     map (\<lambda>t. (trial_hold_secs t, trial_run t)) trials = map (Pair hold) runs"
proof (induction runs arbitrary: trials w)
  case (Cons run runs)
  obtain outcome w1 rest where "study_runs api token args hold runs w1 = Some (Inr rest, w')"
    "trials = study_trial args hold run outcome # rest"
    using Cons(2) by (auto split: option.splits prod.splits sum.splits)
  with Cons(1) show ?case by (simp add: study_trial_def split: prod.split)
qed simp

definition successes_at :: "u64 \<Rightarrow> StudyTrial list \<Rightarrow> nat" where
  "successes_at hold trials = length (filter (\<lambda>t. trial_hold_secs t = hold \<and> trial_success t) trials)"

lemma successes_at_append: "successes_at hold (xs @ ys) = successes_at hold xs + successes_at hold ys"
  by (simp add: successes_at_def)

lemma study_holds_summaries:
  "study_holds api token args holds w = Some (Inr (summaries, trials), w') \<Longrightarrow> distinct holds \<Longrightarrow>
     summaries = map (\<lambda>h. \<lparr>summary_hold_secs = h, summary_runs = unat (as_runs args), summary_successes = successes_at h trials\<rparr>) holds
     \<and> map (\<lambda>t. (trial_hold_secs t, trial_run t)) trials = List.product holds [1..<Suc (unat (as_runs args))]"
proof (induction holds arbitrary: summaries trials w)
  case (Cons hold holds)
  let ?runs = "[1..<Suc (unat (as_runs args))]"
  obtain w1 mine summaries' trials' where
    r: "study_runs api token args hold ?runs w = Some (Inr mine, w1)" "study_holds api token args holds w1 = Some (Inr (summaries', trials'), w')"
      "summaries = summarize args hold mine # summaries'" "trials = mine @ trials'"
    using Cons(2) by (auto simp del: upt_Suc split: option.splits prod.splits sum.splits)
  have IH: "summaries' = map (\<lambda>h. \<lparr>summary_hold_secs = h, summary_runs = unat (as_runs args), summary_successes = successes_at h trials'\<rparr>) holds"
    "map (\<lambda>t. (trial_hold_secs t, trial_run t)) trials' = List.product holds ?runs"
    using Cons(1) [OF r(2)] Cons(3) by (simp_all del: upt_Suc)
  note mine = study_runs_trials [OF r(1)]
  have hold_of: "trial_hold_secs t = hold" if "t \<in> set mine" for t
  proof -
    have "(trial_hold_secs t, trial_run t) \<in> set (map (Pair hold) ?runs)" using that mine by (metis (mono_tags, lifting) image_eqI list.set_map)
    then show ?thesis by auto
  qed
  have later: "trial_hold_secs t \<in> set holds" if "t \<in> set trials'" for t
  proof -
    have "(trial_hold_secs t, trial_run t) \<in> set (List.product holds ?runs)" using that IH(2) by (metis (mono_tags, lifting) image_eqI list.set_map)
    then show ?thesis by auto
  qed
  have "successes_at hold trials' = 0" using later Cons(3) by (auto simp: successes_at_def filter_empty_conv)
  moreover have "successes_at hold mine = length (filter trial_success mine)"
    using hold_of by (simp add: successes_at_def cong: filter_cong)
  moreover have "successes_at h mine = 0" if "h \<in> set holds" for h
    using hold_of that Cons(3) by (auto simp: successes_at_def filter_empty_conv)
  ultimately show ?case
    using r(3,4) IH mine by (simp add: summarize_def successes_at_append del: upt_Suc)
qed simp

lemma distinct_dedup: "sorted xs \<Longrightarrow> distinct (remdups_adj (xs :: u64 list))"
  by (induction xs rule: remdups_adj.induct) (auto simp: less_le)

lemma sorted_unique_holds:
  "distinct (remdups_adj (sort (xs :: u64 list)))" "sorted (remdups_adj (sort xs))" "set (remdups_adj (sort xs)) = set xs"
  by (simp_all add: distinct_dedup sorted_remdups_adj)

lemma find_first_sorted:
  assumes "find P xs = Some x" "sorted (map f xs)" "distinct (map f xs)" "y \<in> set xs" "f y < f x"
  shows "\<not> P y"
proof -
  from assms(1) obtain i where i: "i < length xs" "x = xs ! i" "\<And>j. j < i \<Longrightarrow> \<not> P (xs ! j)" by (auto simp: find_Some_iff)
  from assms(4) obtain j where j: "j < length xs" "y = xs ! j" by (auto simp: in_set_conv_nth)
  have "j < i"
  proof (rule ccontr)
    assume "\<not> j < i"
    then have "f x \<le> f y" using sorted_nth_mono [OF assms(2), of i j] i j by simp
    with assms(5) show False by simp
  qed
  with i(3) j(2) show ?thesis by blast
qed


section \<open>Against the phone's own interface\<close>

text \<open>
  The calls served by the handlers of \<open>Host_Api\<close>; each pause lets the phone go on by
  the next of the given steps.
\<close>

record PhoneWorld =
  pw_app :: HostApp
  pw_next_job :: uuid
  pw_progress :: "(HostApp \<Rightarrow> HostApp) list"
  pw_clock :: nat

definition bearer_header :: "string \<Rightarrow> host_headers" where
  "bearer_header token name = (if name = ''authorization'' then Some (Some (''Bearer '' @ token)) else None)"

definition answer :: "ApiError + 'a \<Rightarrow> 'a call_result" where
  "answer r = Inr (case r of Inr v \<Rightarrow> (200, Some v) | Inl (ApiError code _) \<Rightarrow> (code, None))"

definition phone_api :: "PhoneWorld PhoneApi" where
  "phone_api =
     \<lparr>pa_valid_header = (\<lambda>_. True),
      pa_post_rotate = (\<lambda>token request w.
        case rotate_ip (bearer_header token) (pw_next_job w) request (pw_app w) of (r, app) \<Rightarrow>
          (answer r, w\<lparr>pw_app := app, pw_next_job := pw_next_job w + 1\<rparr>)),
      pa_get_job = (\<lambda>token job w. (answer (get_job (bearer_header token) job (pw_app w)), w)),
      pa_get_health = (\<lambda>token w. (answer (get_health (bearer_header token) (pw_app w)), w)),
      pa_get_metrics = (\<lambda>token w. (Inl [], w)),
      pa_sleep = (\<lambda>d w. w\<lparr>pw_clock := pw_clock w + d, pw_app := (case pw_progress w of [] \<Rightarrow> id | step # _ \<Rightarrow> step) (pw_app w),
        pw_progress := tl (pw_progress w)\<rparr>),
      pa_now = pw_clock\<rparr>"

interpretation phone: phone_clock phone_api
  by unfold_locales (simp_all add: phone_api_def)

text \<open>The study sees a rotation only through the phone's own record of the job it started.\<close>

lemma phone_rotation_started:
  assumes "phone_issue_rotation phone_api token request w = (Inr job, w1)"
  shows "job = pw_next_job w \<and> \<not> (\<exists>e rt. start_rotation job request (app_runtime (pw_app w)) = (Inl e, rt))
       \<and> app_admin_token (pw_app w) = token"
  using assms
  by (auto simp: phone_issue_rotation_def call_def auth_headers_def phone_api_def rotate_ip_def answer_def ok_or_def error_for_status_def
      authorize_token_def bearer_header_def Let_def split: prod.splits sum.splits if_splits ApiError.splits option.splits)

definition sample_phone_world :: PhoneWorld where
  "sample_phone_world = \<lparr>pw_app = \<lparr>app_admin_token = ''admin-token'', app_ui_control_token = None, app_runtime = host_rt sample_host\<rparr>,
     pw_next_job = 1, pw_progress = [], pw_clock = 0\<rparr>"

definition sample_study :: AirplaneStudyArgs where
  "sample_study = \<lparr>as_hold_secs = [3, 1, 3], as_runs = 2, as_require_public_ip_change = True, as_reason_prefix = ''study'', as_poll_secs = 2\<rparr>"


end
