(* ===== verification/Spec2Isabelle.thy ===== *)
theory Spec2Isabelle
  imports Foundation Runtime_Domain Provider_Lifecycle Tunnel_Routing Command_Queue Control_Api_Inv Durability Vm_World Phone_Link Host_Api
    Tunnel_Server Supervisor_Inv Deploy19_Inv Relay_Services State_Backup Server_Rotate_Inv Operator_Commands
begin

text \<open>
  Verification of the mobile-proxy system.

  The program turns phones into proxies.  A phone runs a host daemon; it opens a
  reverse tunnel to a relay, which routes proxy clients to it, and it reports to
  a control plane, which queues commands for it.  An operator creates the
  relay's machine at a provider.  The theories follow the crates:

  \<^item> \<open>Prelude\<close>: results, checked and saturating arithmetic, character classes,
    length framing, and the locales \<open>text_codec\<close> (a text form and its parser)
    and \<open>event_system\<close> (a state machine with an invariant).
  \<^item> \<open>Foundation\<close> (\<open>crates/foundation\<close>): identities, idempotency keys, deadline
    windows on machine words, digests with length framing, request contexts.
  \<^item> \<open>Runtime_Domain\<close> (\<open>crates/runtime-domain\<close>): the reducer of a device's
    lifecycle, its runs, when a run can be healthy, and that quarantine is final.
  \<^item> \<open>Provider_Lifecycle\<close> (\<open>crates/proxy-core/src/provider_lifecycle.rs\<close>,
    \<open>provider_create_dispatch.rs\<close>): ownership metadata, planning, authorisation
    of mutations, the dispatch fence and its recovery after a crash.
  \<^item> \<open>Tunnel_Model\<close> (\<open>crates/reverse-tunnel/src/model.rs\<close>): frames, transports
    and the saturating event counters.
  \<^item> \<open>Tunnel_State\<close>, \<open>Tunnel_State_Inv\<close>, \<open>Tunnel_Routing\<close>
    (\<open>crates/reverse-tunnel/src/state.rs\<close> and the session marking of
    \<open>tunnel.rs\<close>): the relay's registry of sessions, authorities, reserved streams
    and pending requests.  Each critical section (one lock held) is an atomic
    operation \<open>ServerOp\<close>; \<open>server_step\<close> and \<open>server_reach\<close> interleave them
    arbitrarily, and the public operations are shown to be such interleavings.
    Instants are milliseconds as natural numbers; sockets and connections are
    handles with an explicit set of closed or broken ones.
  \<^item> \<open>Net_Addr\<close>, \<open>Text_Tools\<close>: addresses with their parser, and text operations, of
    the Rust standard library.
  \<^item> \<open>Tunnel_Wire\<close> (\<open>crates/reverse-tunnel/src/tunnel.rs\<close>): the tunnel's bytes.  Lines
    are read from buffers of any sizes; frames, the first frame of a connection,
    reserved streams, the SOCKS5 client, the answer to a refused client.
  \<^item> \<open>Tunnel_Client\<close>, \<open>Tunnel_Client_Inv\<close> (same file): the client loop on the phone.
    An attempt is what the network does in it; the loop publishes snapshots, falls
    back from QUIC to TLS and waits longer and longer.  The locale
    \<open>client_invariant\<close> gives an invariant of all publications; the loop stops on
    shutdown, its delays are bounded, and a hybrid client never dials in plain.
  \<^item> \<open>Tunnel_Server\<close> (same file): the relay's sessions over TCP and QUIC and the
    forwarding of public clients, on the registry of \<open>Tunnel_State\<close> and with other
    tasks acting on it between any two steps.
  \<^item> \<open>Proxy_Core\<close> (\<open>crates/proxy-core/src\<close>, \<open>services/control-plane/src/projection.rs\<close>):
    commands, device records, fingerprints and the availability projection.
  \<^item> \<open>Command_State\<close>, \<open>Command_Inv\<close>, \<open>Command_Queue\<close>
    (\<open>crates/application/src\<close>, \<open>services/control-plane/src/state.rs\<close>): the
    control plane's transactions, their invariant, and its consequences over
    every history \<open>control_run\<close>: bounds, replay, delivery, retention, atomicity.
  \<^item> \<open>Ordered_Map\<close>, \<open>Snapshot\<close>, \<open>Snapshot_Inv\<close>, \<open>Snapshot_Store\<close>,
    \<open>Snapshot_Store_Inv\<close>, \<open>Durable_State\<close>, \<open>Durability\<close>
    (\<open>crates/control-plane-sqlite/src\<close>, \<open>services/control-plane/src/state_sqlite_backend.rs\<close>):
    the control plane's durable state.  Snapshots, their validation and their
    translation from and to memory; the tables with the constraints of the schema
    and the compare-and-swap transaction on them; loading.  Shown: validation
    accepts every well-formed state, no statement of a commit between two such
    states violates a constraint, memory and tables agree after every history
    whichever database calls fail, stale writers change nothing, and a restart
    reads the committed state back.  The store is an interpretation of the locale
    \<open>durable_store\<close>, which is all the transactions rely on.
  \<^item> \<open>Legacy_Import\<close>, \<open>Legacy_Import_Inv\<close> (\<open>legacy_json_import.rs\<close>,
    \<open>bin/control-plane-state-migrate.rs\<close>): moving the state between the file of the old
    JSON backend and the database.  The import reads a file as that backend would, never
    overwrites a state and can be repeated; a rollback export imports back unchanged.
  \<^item> \<open>State_Backup\<close> (\<open>control-plane-sqlite/src/lib.rs\<close>, \<open>integrity.rs\<close>,
    \<open>bin/control-plane-state-backup.rs\<close>): opening a database, and the copies that backup
    and restore publish: they are verified, and the state survives them.
  \<^item> \<open>Control_Api\<close>, \<open>Control_Api_Inv\<close> (\<open>services/control-plane/src/auth.rs\<close>,
    \<open>request_context.rs\<close>, \<open>routes.rs\<close>): the control plane's HTTP interface from the
    credential check through the request context to every handler and its status
    codes.  Shown: roles are separate, failed requests leave memory alone, every
    request is one operation of a history, contexts are well formed, and only
    devices with a recent heartbeat are listed as ready.
  \<^item> \<open>Host_Runtime\<close>, \<open>Host_Runtime_Inv\<close> (\<open>services/host-daemon/src/state.rs\<close>,
    \<open>rotation.rs\<close>, \<open>health.rs\<close>, \<open>reverse_tunnel.rs\<close>, \<open>control_plane.rs\<close>): the phone's
    runtime record under its lock.  Every section that holds the lock is an
    operation \<open>host_op\<close>; over every interleaving at most one rotation runs, each
    settles its job with its own report, and a probe reports exactly what it saw.
  \<^item> \<open>Host_Api\<close> (\<open>auth.rs\<close>, \<open>api.rs\<close>, \<open>service_health.rs\<close>, \<open>tunnel_counters.rs\<close>): the
    phone's handlers, its readiness document and the counter file, whose last
    completed write is what a restart reads.
  \<^item> \<open>Phone_Link\<close> (\<open>control_plane.rs\<close> of the daemon with the handlers of the control
    plane): polling, applying and acknowledging over a network that may lose any
    message; a command is pending until the phone has applied it.
  \<^item> \<open>Config_Fingerprint\<close> (\<open>services/host-daemon/src/fingerprints.rs\<close>): JSON documents
    and the fingerprint of a configuration, which depends on everything but its
    secrets and the order of its keys.
  \<^item> \<open>Host_Config\<close> (\<open>services/host-daemon/src/config.rs\<close>): every check on the phone's
    configuration and the start configuration it becomes; what a configuration that
    loads guarantees, also of the tunnel client it starts.
  \<^item> \<open>Proxy_Config\<close>, \<open>Supervisor\<close>, \<open>Supervisor_Inv\<close> (\<open>services/runtime-supervisor/src\<close>):
    the process that keeps proxy and host daemon running.  Its configuration, what it
    reads from Android's tools, its edits of the proxy's configuration, and each turn
    of its loop as a function of what the system answers.  The locale
    \<open>supervisor_invariant\<close> carries two invariants over all turns: interventions are
    spaced, and a host daemon never outlives its proxy.
  \<^item> \<open>Decimal\<close>: decimal text of machine integers, written and read back.
  \<^item> \<open>Vm_Adapter\<close> (\<open>apps/operator-cli/src/vultr_lifecycle.rs\<close>): the provider's
    requests and the ownership tags on machines, which are read back exactly.
  \<^item> \<open>Vm_Ledger\<close>, \<open>Vm_Ledger_Inv\<close> (\<open>github_vm_binding_store.rs\<close>): the ledger of
    GitHub deployments that records what may be done to the acceptance machine,
    its replay, and every operation of the store against an arbitrary service;
    \<open>vm_step\<close> is the lifecycle it implements.
  \<^item> \<open>Vm_Session\<close>, \<open>Vm_Session_Inv\<close>, \<open>Vm_World\<close> (\<open>item20_acceptance.rs\<close>,
    \<open>item20_session_lifecycle.rs\<close>): opening and closing acceptance sessions.  The
    locale \<open>session_world\<close> states what a session needs of its store and provider;
    it is interpreted on the ledger with lossy requests and a provider that answers
    anything, so that the bound of one machine per candidate holds over all of them.
  \<^item> \<open>Vm_Client\<close> (\<open>vultr_client.rs\<close>): the provider's HTTP client, which is the provider
    of a session: what it sends, how it reads pages and machines, and that a listing
    is whole and bounded and an address verified and public.
  \<^item> \<open>Vm_Entry\<close> (\<open>bin/item20-session-lifecycle.rs\<close>): the commands that open, verify and
    close a session.  They act only on the protected main branch; the text a machine
    starts with holds one key and passes the client's check.
  \<^item> \<open>Artifact\<close>, \<open>Deploy19\<close>, \<open>Deploy19_Inv\<close> (\<open>bin/item19-acceptance-lifecycle.rs\<close>): the
    artifact whose manifest binds its bytes, the evidence that admits it, and the command
    that deploys it to the acceptance machine and deletes the machine again.  It runs the
    lifecycle of \<open>Vm_Session\<close>, so its evidence agrees with the ledger, and nothing is
    created or sent before the checks passed.
  \<^item> \<open>Relay_Services\<close> (\<open>services/reverse-tunnel-server\<close>, \<open>services/relay-gate\<close>): what the
    tunnel server binds and starts, and the gate that decides, with the control plane
    of \<open>Control_Api\<close>, whether a device is available.
  \<^item> \<open>Server_Rotate\<close>, \<open>Server_Rotate_Inv\<close> (\<open>apps/operator-cli/src/server_rotate.rs\<close>): the
    operator's remote rotation.  The locale \<open>monotone_host\<close> is what it needs of its clock
    to return; it is interpreted on a client of \<open>Control_Api\<close> behind a network that loses
    messages, where all attempts of a rotation name one command, and where a repeated
    answer reports the wrong old address.
  \<^item> \<open>Operator_Commands\<close> (\<open>http.rs\<close>, \<open>commands.rs\<close>): the operator's calls to a phone and
    the airplane study, whose locale \<open>phone_clock\<close> is interpreted on the handlers of
    \<open>Host_Api\<close>; the study recommends the shortest hold time that is good enough.
  \<^item> \<open>Hash_Instance\<close>: concrete hashing parameters, used to evaluate examples.

  Code outside the repository is a parameter: the hash function and its text
  form (\<open>Hashing\<close>), UUID parsing, generated identifiers, the clock, and the
  durable commit (\<open>cas\<close>), which may fail at any call.  The hypotheses on them are
  \<open>hex_text\<close> (a hash prints without a colon) and that a generated command
  identifier is not one of a retained result; a device named \<open>b3\<close> is excluded,
  because its legacy scopes look like digests.

  Loops over finite data are structural recursions; the retention loop terminates
  because each round removes an entry; rounds of waiting are lists of what
  happens at each suspension point; bounded polling counts its attempts down from
  the constant of the code; the operator's polling loops are partial functions, shown
  to return.  No fuel is used.

  Not modelled: the Android application, the operator's commands that
  package releases, install them on phones and run machines outside acceptance, the start of the phone's
  tasks and its metrics text, the stale processes, log files and app files the
  supervisor manages, the accept loops of the relay and the TLS and QUIC protocols,
  the web framework's path matching, JSON text, and the SQLite file format: they are
  input and output through libraries, whose results are arguments of the model.
\<close>

end
